(* ===== verification/Prelude.thy ===== *)
theory Prelude
  imports Main "HOL-Library.Word" "HOL-Library.State_Monad"
begin

text \<open>
  What the component theories share: the fixed-width integers of the C code, the
  interface through which a driver reaches its hardware and the Windows kernel, the
  state monad in which the C functions are written, a weakest-precondition calculus
  over that monad, and relations between the states before and after a call (frames).
\<close>

unbundle bit_operations_syntax

section \<open>Machine integers\<close>

type_synonym u8 = "8 word"
type_synonym u16 = "16 word"
type_synonym u32 = "32 word"
type_synonym u64 = "64 word"

text \<open>The value a C condition takes when it is stored in an integer.\<close>

definition c_bool :: "bool \<Rightarrow> u32" where
  "c_bool b = (if b then 1 else 0)"

lemma c_bool_simps [simp]: "c_bool True = 1" "c_bool False = 0"
  by (simp_all add: c_bool_def)

lemma c_bool_eq_0 [simp]: "c_bool b = 0 \<longleftrightarrow> \<not> b"
  by (simp add: c_bool_def)

section \<open>Arrays and words\<close>

text \<open>The result of a C loop that assigns consecutive array elements.\<close>

lemma length_fold_upd [simp]: "length (fold (\<lambda>i t. t[f i := g i]) is l) = length l"
  by (induction "is" arbitrary: l) simp_all

lemma nth_fold_upd:
  "m \<le> n \<Longrightarrow> k < length l \<Longrightarrow> fold (\<lambda>i t. t[a + i := g i]) [m..<n] l ! k =
     (if a + m \<le> k \<and> k < a + n then g (k - a) else l ! k)"
proof (induction n)
  case (Suc n)
  then show ?case
    by (cases "m \<le> n") (auto simp: nth_list_update upt_Suc_append less_Suc_eq le_Suc_eq)
qed auto

text \<open>Reading the bit operations of a word as arithmetic on its value.\<close>

lemma unat_drop_bit: "unat (drop_bit n w) = unat w div 2 ^ n" for w :: "'a::len word"
  by (simp only: unat_drop_bit_eq drop_bit_eq_div [where ?'a = nat])

lemma unat_and_mask: "unat (w AND mask n) = unat w mod 2 ^ n" for w :: "'a::len word"
proof -
  have "unat (take_bit n w) = take_bit n (unat w)" by (rule unsigned_take_bit_eq)
  then show ?thesis by (simp only: take_bit_eq_mask [symmetric] take_bit_eq_mod [where ?'a = nat])
qed

lemma unat_ucast_up: "LENGTH('a) \<le> LENGTH('b) \<Longrightarrow> unat (ucast w :: 'b::len word) = unat w"
  for w :: "'a::len word"
  by (simp add: unsigned_ucast_eq take_bit_nat_eq_self_iff)
    (metis unsigned_less order_less_le_trans one_le_numeral power_increasing)

lemma unat_ucast_small: "unat w < 2 ^ LENGTH('b) \<Longrightarrow> unat (ucast w :: 'b::len word) = unat w"
  for w :: "'a::len word"
  by (simp add: unsigned_ucast_eq take_bit_nat_eq_self_iff)

lemma unat_push_bit: "unat w * 2 ^ n < 2 ^ LENGTH('a) \<Longrightarrow> unat (push_bit n w) = unat w * 2 ^ n"
  for w :: "'a::len word"
  by (simp only: unsigned_push_bit_eq push_bit_eq_mult [where ?'a = nat] take_bit_nat_eq_self_iff)

lemma unat_add_small: "unat x + unat y < 2 ^ LENGTH('a) \<Longrightarrow> unat (x + y) = unat x + unat y"
  for x y :: "'a::len word"
  by (simp add: unat_word_ariths)

lemma unat_of_nat_small: "n < 2 ^ LENGTH('a) \<Longrightarrow> unat (of_nat n :: 'a::len word) = n"
  by (simp add: unat_of_nat)

lemma u32_lt: "unat x < 4294967296" for x :: u32
  by (rule order_less_le_trans [OF unsigned_less]) simp

text \<open>A 32-bit word of memory from its bytes, lowest first.\<close>

definition le32 :: "u8 \<Rightarrow> u8 \<Rightarrow> u8 \<Rightarrow> u8 \<Rightarrow> u32" where
  "le32 a b c d = ucast a OR push_bit 8 (ucast b) OR push_bit 16 (ucast c) OR push_bit 24 (ucast d)"

definition le32_bytes :: "u32 \<Rightarrow> u8 list" where
  "le32_bytes w = [ucast w, ucast (drop_bit 8 w), ucast (drop_bit 16 w), ucast (drop_bit 24 w)]"

lemma bit_le32:
  "bit (le32 a b c d) n = (if n < 8 then bit a n else if n < 16 then bit b (n - 8)
     else if n < 24 then bit c (n - 16) else n < 32 \<and> bit d (n - 24))"
  using bit_imp_le_length [of a n] bit_imp_le_length [of b "n - 8"] bit_imp_le_length [of c "n - 16"]
    bit_imp_le_length [of d "n - 24"]
  by (auto simp: le32_def bit_or_iff bit_push_bit_iff bit_ucast_iff not_less)

lemma le32_bytes_le32 [simp]: "le32_bytes (le32 a b c d) = [a, b, c, d]"
proof -
  have "ucast (drop_bit k (le32 a b c d)) = x" if "\<And>n. n < 8 \<Longrightarrow> bit (le32 a b c d) (k + n) = bit x n"
    for k and x :: u8
    using that by (intro bit_word_eqI) (simp add: bit_ucast_iff bit_drop_bit_eq)
  from this [of 0 a] this [of 8 b] this [of 16 c] this [of 24 d]
  show ?thesis by (simp add: le32_bytes_def bit_le32)
qed

lemma or_as_add: "x AND y = 0 \<Longrightarrow> x OR y = x + y" for x y :: "'a::len word"
  by (simp add: disjunctive_add_eq_or)

lemma and_mask_small: "unat w < 2 ^ n \<Longrightarrow> w AND mask n = w" for w :: "'a::len word"
  by (simp add: word_eq_iff_unsigned [where ?'a = nat] unat_and_mask)

lemma unat_eq_of_nat: "unat w = n \<Longrightarrow> w = of_nat n" for w :: "'a::len word"
  by auto

lemma and_mask_eq_0: "w AND mask n = 0 \<longleftrightarrow> unat w mod 2 ^ n = 0" for w :: "'a::len word"
  by (simp only: word_eq_iff_unsigned [where ?'a = nat] unat_and_mask unsigned_0)

section \<open>The outside of a driver\<close>

text \<open>
  Registers, time and kernel services are not part of the repository. Every use of one
  of them is an event; what a read, a clock query or a call returns is chosen by an
  environment that sees all earlier events (newest first). A theorem about every
  environment therefore holds for every device behaviour, also for one that answers
  differently each time it is asked.
\<close>

datatype io_event =
    Rd u32 u32 u32                \<comment> \<open>bank, offset, value read\<close>
  | Wr u32 u32 u32                \<comment> \<open>bank, offset, value written\<close>
  | Dly u32                       \<comment> \<open>a bounded delay\<close>
  | Bar                           \<comment> \<open>a memory barrier\<close>
  | Clk u64                       \<comment> \<open>the clock was read\<close>
  | Call string "u64 list" u64    \<comment> \<open>kernel routine, arguments, result\<close>

record env =
  env_read :: "io_event list \<Rightarrow> u32 \<Rightarrow> u32 \<Rightarrow> u32"
  env_now  :: "io_event list \<Rightarrow> u64"
  env_call :: "io_event list \<Rightarrow> string \<Rightarrow> u64 list \<Rightarrow> u64"

text \<open>A world: the driver's own state and the events so far, newest first.\<close>

record 's world =
  st :: 's
  trace :: "io_event list"

lemma world_updates [simp]:
  "trace_update g (st_update f w) = st_update f (trace_update g w)"
  by simp

type_synonym ('s, 'a) prog = "('s world, 'a) state"

abbreviation ret :: "'a \<Rightarrow> ('s, 'a) prog" where
  "ret \<equiv> State_Monad.return"

definition gets :: "('s \<Rightarrow> 'a) \<Rightarrow> ('s, 'a) prog" where
  "gets f = State (\<lambda>w. (f (st w), w))"

definition modify :: "('s \<Rightarrow> 's) \<Rightarrow> ('s, unit) prog" where
  "modify f = State (\<lambda>w. ((), w\<lparr>st := f (st w)\<rparr>))"

definition emit :: "io_event \<Rightarrow> ('s, unit) prog" where
  "emit e = State (\<lambda>w. ((), w\<lparr>trace := e # trace w\<rparr>))"

definition io_read :: "env \<Rightarrow> u32 \<Rightarrow> u32 \<Rightarrow> ('s, u32) prog" where
  "io_read E u off = State (\<lambda>w. let v = env_read E (trace w) u off
     in (v, w\<lparr>trace := Rd u off v # trace w\<rparr>))"

definition io_now :: "env \<Rightarrow> ('s, u64) prog" where
  "io_now E = State (\<lambda>w. let v = env_now E (trace w)
     in (v, w\<lparr>trace := Clk v # trace w\<rparr>))"

definition io_call :: "env \<Rightarrow> string \<Rightarrow> u64 list \<Rightarrow> ('s, u64) prog" where
  "io_call E f xs = State (\<lambda>w. let v = env_call E (trace w) f xs
     in (v, w\<lparr>trace := Call f xs v # trace w\<rparr>))"

abbreviation io_write :: "u32 \<Rightarrow> u32 \<Rightarrow> u32 \<Rightarrow> ('s, unit) prog" where
  "io_write u off v \<equiv> emit (Wr u off v)"

abbreviation io_delay :: "u32 \<Rightarrow> ('s, unit) prog" where
  "io_delay n \<equiv> emit (Dly n)"

abbreviation io_barrier :: "('s, unit) prog" where
  "io_barrier \<equiv> emit Bar"

definition whenM :: "bool \<Rightarrow> ('s, unit) prog \<Rightarrow> ('s, unit) prog" where
  "whenM b m = (if b then m else ret ())"

text \<open>A call on a part of the caller's state, as C passes a pointer to a member.\<close>

definition zoom :: "('c \<Rightarrow> 'h) \<Rightarrow> (('h \<Rightarrow> 'h) \<Rightarrow> 'c \<Rightarrow> 'c) \<Rightarrow>
    ('h, 'a) prog \<Rightarrow> ('c, 'a) prog" where
  "zoom g u m = State (\<lambda>w.
     (case run_state m \<lparr>st = g (st w), trace = trace w\<rparr> of
        (r, w') \<Rightarrow> (r, \<lparr>st = u (\<lambda>_. st w') (st w), trace = trace w'\<rparr>)))"

text \<open>Loops over a list, and the loop that runs until its body yields a result. A loop of the
  program that might not end is given fuel, and \<open>None\<close> says that it has not ended within it.\<close>

fun forM :: "'b list \<Rightarrow> ('b \<Rightarrow> ('s, unit) prog) \<Rightarrow> ('s, unit) prog" where
  "forM [] f = ret ()"
| "forM (x # xs) f = do { f x; forM xs f }"

fun mapM :: "'b list \<Rightarrow> ('b \<Rightarrow> ('s, 'c) prog) \<Rightarrow> ('s, 'c list) prog" where
  "mapM [] f = ret []"
| "mapM (x # xs) f = do { y \<leftarrow> f x; ys \<leftarrow> mapM xs f; ret (y # ys) }"

fun loopM :: "nat \<Rightarrow> ('s, 'a option) prog \<Rightarrow> ('s, 'a option) prog" where
  "loopM 0 b = ret None"
| "loopM (Suc n) b = do { r \<leftarrow> b; case r of None \<Rightarrow> loopM n b | Some x \<Rightarrow> ret (Some x) }"

definition andthen :: "('s, 'a option) prog \<Rightarrow> ('a \<Rightarrow> ('s, 'b option) prog) \<Rightarrow> ('s, 'b option) prog" where
  "andthen m f = do { r \<leftarrow> m; case r of None \<Rightarrow> ret None | Some x \<Rightarrow> f x }"

section \<open>Weakest preconditions\<close>

text \<open>
  All programs of the model are total and deterministic in the environment, so the
  weakest precondition is the postcondition at the one result.
\<close>

definition wp :: "('s, 'a) prog \<Rightarrow> ('a \<Rightarrow> 's world \<Rightarrow> bool) \<Rightarrow> 's world \<Rightarrow> bool" where
  "wp m Q w = (case run_state m w of (r, w') \<Rightarrow> Q r w')"

named_theorems wp_simps "symbolic execution of programs"

lemma run_gets [wp_simps]: "run_state (gets f) w = (f (st w), w)"
  by (simp add: gets_def)

lemma run_modify [wp_simps]: "run_state (modify f) w = ((), w\<lparr>st := f (st w)\<rparr>)"
  by (simp add: modify_def)

lemma run_emit [wp_simps]: "run_state (emit e) w = ((), w\<lparr>trace := e # trace w\<rparr>)"
  by (simp add: emit_def)

lemma run_io_read [wp_simps]:
  "run_state (io_read E u off) w =
     (env_read E (trace w) u off,
      w\<lparr>trace := Rd u off (env_read E (trace w) u off) # trace w\<rparr>)"
  by (simp add: io_read_def Let_def)

lemma run_io_now [wp_simps]:
  "run_state (io_now E) w = (env_now E (trace w), w\<lparr>trace := Clk (env_now E (trace w)) # trace w\<rparr>)"
  by (simp add: io_now_def Let_def)

lemma run_io_call [wp_simps]:
  "run_state (io_call E f xs) w =
     (env_call E (trace w) f xs,
      w\<lparr>trace := Call f xs (env_call E (trace w) f xs) # trace w\<rparr>)"
  by (simp add: io_call_def Let_def)

lemma run_zoom [wp_simps]:
  "run_state (zoom g u m) w =
     (case run_state m \<lparr>st = g (st w), trace = trace w\<rparr> of
        (r, w') \<Rightarrow> (r, \<lparr>st = u (\<lambda>_. st w') (st w), trace = trace w'\<rparr>))"
  by (simp add: zoom_def)

lemma run_if [wp_simps]:
  "run_state (if b then m else n) w = (if b then run_state m w else run_state n w)"
  by simp

lemma run_whenM [wp_simps]:
  "run_state (whenM b m) w = (if b then run_state m w else ((), w))"
  by (simp add: whenM_def)

lemma wp_return [wp_simps]: "wp (ret x) Q w = Q x w"
  by (simp add: wp_def)

lemma wp_bind [wp_simps]: "wp (m \<bind> f) Q w = wp m (\<lambda>r. wp (f r) Q) w"
  by (simp add: wp_def split: prod.splits)

lemma wp_if [wp_simps]: "wp (if b then m else n) Q w = (if b then wp m Q w else wp n Q w)"
  by simp

lemma wp_case_prod [wp_simps]:
  "wp (case p of (x, y) \<Rightarrow> f x y) Q w = (case p of (x, y) \<Rightarrow> wp (f x y) Q w)"
  by (cases p) simp

lemma wp_Let [wp_simps]: "wp (Let x f) Q w = (let y = x in wp (f y) Q w)"
  by simp

lemma wp_gets [wp_simps]: "wp (gets f) Q w = Q (f (st w)) w"
  by (simp add: wp_def wp_simps)

lemma wp_modify [wp_simps]: "wp (modify f) Q w = Q () (w\<lparr>st := f (st w)\<rparr>)"
  by (simp add: wp_def wp_simps)

lemma wp_emit [wp_simps]: "wp (emit e) Q w = Q () (w\<lparr>trace := e # trace w\<rparr>)"
  by (simp add: wp_def wp_simps)

lemma wp_whenM [wp_simps]: "wp (whenM b m) Q w = (if b then wp m Q w else Q () w)"
  by (simp add: whenM_def wp_simps)

lemma wp_zoom [wp_simps]:
  "wp (zoom g u m) Q w =
     wp m (\<lambda>r w'. Q r \<lparr>st = u (\<lambda>_. st w') (st w), trace = trace w'\<rparr>)
        \<lparr>st = g (st w), trace = trace w\<rparr>"
  by (simp add: wp_def wp_simps split: prod.splits)

lemma wp_io_read:
  "wp (io_read E u off) Q w =
     Q (env_read E (trace w) u off)
       (w\<lparr>trace := Rd u off (env_read E (trace w) u off) # trace w\<rparr>)"
  by (simp add: wp_def wp_simps)

lemma wp_io_now:
  "wp (io_now E) Q w =
     Q (env_now E (trace w)) (w\<lparr>trace := Clk (env_now E (trace w)) # trace w\<rparr>)"
  by (simp add: wp_def wp_simps)

lemma wp_io_call:
  "wp (io_call E f xs) Q w =
     Q (env_call E (trace w) f xs)
       (w\<lparr>trace := Call f xs (env_call E (trace w) f xs) # trace w\<rparr>)"
  by (simp add: wp_def wp_simps)

text \<open>
  The value a read returns is arbitrary; forgetting how the environment chose it keeps
  the symbolic traces small.
\<close>

lemma wp_read_any:
  "(\<And>v. Q v (w\<lparr>trace := Rd u off v # trace w\<rparr>)) \<Longrightarrow> wp (io_read E u off) Q w"
  by (simp add: wp_io_read)

lemma wp_now_any:
  "(\<And>v. Q v (w\<lparr>trace := Clk v # trace w\<rparr>)) \<Longrightarrow> wp (io_now E) Q w"
  by (simp add: wp_io_now)

lemma wp_call_any:
  "(\<And>v. Q v (w\<lparr>trace := Call f xs v # trace w\<rparr>)) \<Longrightarrow> wp (io_call E f xs) Q w"
  by (simp add: wp_io_call)

lemmas wp_any = wp_read_any wp_now_any wp_call_any

lemma wp_mono: "wp m Q w \<Longrightarrow> (\<And>r w'. Q r w' \<Longrightarrow> R r w') \<Longrightarrow> wp m R w"
  by (simp add: wp_def split: prod.splits)

lemma wp_case_option [wp_simps]:
  "wp (case x of None \<Rightarrow> m | Some y \<Rightarrow> f y) Q w = (case x of None \<Rightarrow> wp m Q w | Some y \<Rightarrow> wp (f y) Q w)"
  by (cases x) simp_all

lemma wp_andthen [wp_simps]:
  "wp (andthen m f) Q w = wp m (\<lambda>r v. case r of None \<Rightarrow> Q None v | Some x \<Rightarrow> wp (f x) Q v) w"
  by (auto simp: andthen_def wp_simps wp_def split: option.splits prod.splits)

text \<open>A loop that emits events is straight-line code.\<close>

lemma wp_forM_emit [wp_simps]:
  "wp (forM xs (\<lambda>x. emit (f x))) Q w = Q () (w\<lparr>trace := rev (map f xs) @ trace w\<rparr>)"
  by (induction xs arbitrary: w) (simp_all add: wp_simps)

lemma wp_mapM_read:
  "(\<And>vs. length vs = length xs \<Longrightarrow>
      Q vs (w\<lparr>trace := rev (map (\<lambda>(x, v). Rd (u x) (f x) v) (zip xs vs)) @ trace w\<rparr>)) \<Longrightarrow>
   wp (mapM xs (\<lambda>x. io_read E (u x) (f x))) Q w"
proof (induction xs arbitrary: w Q)
  case Nil
  from Nil [of "[]"] show ?case by (simp add: wp_simps)
next
  case (Cons x xs)
  show ?case
    unfolding mapM.simps wp_bind
  proof (rule wp_read_any, rule Cons.IH, unfold wp_return)
    fix v :: u32 and vs :: "u32 list" assume "length vs = length xs"
    then show "Q (v # vs) (w\<lparr>trace := Rd (u x) (f x) v # trace w,
        trace := rev (map (\<lambda>(x, v). Rd (u x) (f x) v) (zip xs vs)) @
          trace (w\<lparr>trace := Rd (u x) (f x) v # trace w\<rparr>)\<rparr>)"
      using Cons.prems [of "v # vs"] by simp
  qed
qed

text \<open>A loop with an invariant, and a loop that ends because a measure decreases.\<close>

lemma wp_loopM_inv:
  assumes "I w" and "\<And>w. I w \<Longrightarrow> Q None w"
    and "\<And>w. I w \<Longrightarrow> wp b (\<lambda>r w'. case r of None \<Rightarrow> I w' | Some x \<Rightarrow> Q (Some x) w') w"
  shows "wp (loopM n b) Q w"
  using assms(1)
proof (induction n arbitrary: w)
  case 0
  then show ?case by (simp add: wp_simps assms(2))
next
  case (Suc n)
  from assms(3) [OF Suc.prems] show ?case
    unfolding loopM.simps wp_bind
    by (rule wp_mono) (auto simp: wp_simps Suc.IH split: option.splits)
qed

lemma wp_loopM_total:
  fixes f :: "'s world \<Rightarrow> nat"
  assumes "I w" and "f w < n"
    and "\<And>w. I w \<Longrightarrow> wp b (\<lambda>r w'. case r of None \<Rightarrow> I w' \<and> f w' < f w | Some x \<Rightarrow> Q (Some x) w') w"
  shows "wp (loopM n b) Q w"
  using assms(1,2)
proof (induction n arbitrary: w)
  case (Suc n)
  from assms(3) [OF Suc.prems(1)] show ?case
    unfolding loopM.simps wp_bind
    by (rule wp_mono) (use Suc in \<open>auto simp: wp_simps split: option.splits\<close>)
qed simp

lemma wp_run: "run_state m w = (r, w') \<Longrightarrow> wp m Q w = Q r w'"
  by (simp add: wp_def)

lemma wp_conj: "wp m (\<lambda>r w'. Q r w' \<and> R r w') w \<longleftrightarrow> wp m Q w \<and> wp m R w"
  by (simp add: wp_def split: prod.splits)

lemma wpD: "wp m Q w \<Longrightarrow> run_state m w = (r, w') \<Longrightarrow> Q r w'"
  by (simp add: wp_def)

lemma wpI: "(\<And>r w'. run_state m w = (r, w') \<Longrightarrow> Q r w') \<Longrightarrow> wp m Q w"
  by (simp add: wp_def split: prod.splits)

section \<open>Frames: relations between the worlds before and after\<close>

definition preserves :: "('s world \<Rightarrow> 's world \<Rightarrow> bool) \<Rightarrow> ('s, 'a) prog \<Rightarrow> bool" where
  "preserves R m \<longleftrightarrow> (\<forall>w. R w (snd (run_state m w)))"

lemma preservesD: "preserves R m \<Longrightarrow> run_state m w = (r, w') \<Longrightarrow> R w w'"
  by (metis preserves_def snd_conv)

lemma preservesI: "(\<And>w r w'. run_state m w = (r, w') \<Longrightarrow> R w w') \<Longrightarrow> preserves R m"
  by (metis preserves_def prod.collapse)

lemma preserves_wp: "preserves R m \<longleftrightarrow> (\<forall>w. wp m (\<lambda>_ w'. R w w') w)"
  by (simp add: preserves_def wp_def split_beta)

lemma preserves_modify: "preserves R (modify f) \<longleftrightarrow> (\<forall>w. R w (w\<lparr>st := f (st w)\<rparr>))"
  by (simp add: preserves_def wp_simps)

lemma preserves_emit: "preserves R (emit e) \<longleftrightarrow> (\<forall>w. R w (w\<lparr>trace := e # trace w\<rparr>))"
  by (simp add: preserves_def wp_simps)

lemma preserves_zoom:
  assumes m: "preserves R m"
    and R: "\<And>w t. R \<lparr>st = g (st w), trace = trace w\<rparr> t \<Longrightarrow>
      S w \<lparr>st = u (\<lambda>_. st t) (st w), trace = trace t\<rparr>"
  shows "preserves S (zoom g u m)"
proof (rule preservesI)
  fix w r w'
  assume run: "run_state (zoom g u m) w = (r, w')"
  obtain x t where x: "run_state m \<lparr>st = g (st w), trace = trace w\<rparr> = (x, t)"
    by (cases "run_state m \<lparr>st = g (st w), trace = trace w\<rparr>")
  with run have "w' = \<lparr>st = u (\<lambda>_. st t) (st w), trace = trace t\<rparr>"
    by (simp add: wp_simps)
  with m x R show "S w w'" by (blast dest: preservesD)
qed

text \<open>
  A frame relation is reflexive and transitive, so it is kept by a program as soon as
  it is kept by each of its steps. A component states its rely on the calls it makes
  by instantiating the relation.
\<close>

locale frame =
  fixes R :: "'s world \<Rightarrow> 's world \<Rightarrow> bool"
  assumes frame_refl: "R w w"
    and frame_trans: "R u v \<Longrightarrow> R v w \<Longrightarrow> R u w"
begin

lemma pres_return: "preserves R (ret x)"
  by (simp add: preserves_def frame_refl)

lemma pres_gets: "preserves R (gets f)"
  by (simp add: preserves_def frame_refl wp_simps)

lemma pres_bind:
  assumes "preserves R m" and "\<And>x. preserves R (f x)"
  shows "preserves R (m \<bind> f)"
proof (rule preservesI)
  fix w r w'
  assume run: "run_state (m \<bind> f) w = (r, w')"
  obtain x v where m: "run_state m w = (x, v)" by (cases "run_state m w")
  with run have "run_state (f x) v = (r, w')" by simp
  with m assms show "R w w'" by (blast dest: preservesD intro: frame_trans)
qed

lemma pres_if: "(b \<Longrightarrow> preserves R m) \<Longrightarrow> (\<not> b \<Longrightarrow> preserves R n) \<Longrightarrow>
    preserves R (if b then m else n)"
  by simp

lemma pres_whenM: "(b \<Longrightarrow> preserves R m) \<Longrightarrow> preserves R (whenM b m)"
  by (simp add: whenM_def pres_return)

lemma pres_Let: "(\<And>y. y = x \<Longrightarrow> preserves R (f y)) \<Longrightarrow> preserves R (Let x f)"
  by simp

lemma pres_case_prod: "(\<And>x y. p = (x, y) \<Longrightarrow> preserves R (f x y)) \<Longrightarrow>
    preserves R (case p of (x, y) \<Rightarrow> f x y)"
  by (cases p) simp

lemma pres_case_option: "(x = None \<Longrightarrow> preserves R m) \<Longrightarrow> (\<And>y. x = Some y \<Longrightarrow> preserves R (f y)) \<Longrightarrow>
    preserves R (case x of None \<Rightarrow> m | Some y \<Rightarrow> f y)"
  by (cases x) simp_all

lemma pres_forM: "(\<And>x. x \<in> set xs \<Longrightarrow> preserves R (f x)) \<Longrightarrow> preserves R (forM xs f)"
  by (induction xs) (auto intro!: pres_return pres_bind)

lemma pres_mapM: "(\<And>x. x \<in> set xs \<Longrightarrow> preserves R (f x)) \<Longrightarrow> preserves R (mapM xs f)"
  by (induction xs) (auto intro!: pres_return pres_bind)

lemma pres_loopM: "preserves R b \<Longrightarrow> preserves R (loopM n b)"
  by (induction n) (auto intro!: pres_return pres_bind pres_case_option)

lemma pres_andthen: "preserves R m \<Longrightarrow> (\<And>x. preserves R (f x)) \<Longrightarrow> preserves R (andthen m f)"
  by (auto simp: andthen_def intro!: pres_return pres_bind pres_case_option)

lemmas pres = pres_return pres_gets pres_bind pres_if pres_whenM pres_Let
  pres_case_prod pres_case_option pres_forM pres_mapM pres_loopM pres_andthen

end

text \<open>The events of a call all satisfy a predicate, and it forgets none of the earlier ones.\<close>

definition extends :: "(io_event \<Rightarrow> bool) \<Rightarrow> io_event list \<Rightarrow> io_event list \<Rightarrow> bool" where
  "extends P t t' \<longleftrightarrow> (\<exists>es. t' = es @ t \<and> (\<forall>e\<in>set es. P e))"

lemma extends_refl [simp, intro]: "extends P t t"
  by (auto simp: extends_def)

lemma extends_Cons [simp, intro]: "extends P t t' \<Longrightarrow> P e \<Longrightarrow> extends P t (e # t')"
  by (auto simp: extends_def intro: exI [where x = "e # es" for es])

lemma extends_trans: "extends P t u \<Longrightarrow> extends P u v \<Longrightarrow> extends P t v"
  by (auto simp: extends_def)

lemma extends_ConsD: "extends P (e # t) t' \<Longrightarrow> P e \<Longrightarrow> extends P t t'"
  by (auto simp: extends_def)

lemma extends_mono: "extends P t u \<Longrightarrow> (\<And>e. P e \<Longrightarrow> Q e) \<Longrightarrow> extends Q t u"
  by (auto simp: extends_def)

definition trace_ext :: "(io_event \<Rightarrow> bool) \<Rightarrow> 's world \<Rightarrow> 's world \<Rightarrow> bool" where
  "trace_ext P w w' \<longleftrightarrow> extends P (trace w) (trace w')"

interpretation ext: frame "trace_ext P" for P
  by unfold_locales (auto simp: trace_ext_def intro: extends_trans)

lemma ext_modify: "preserves (trace_ext P) (modify f)"
  by (auto simp: preserves_modify trace_ext_def)

lemma ext_emit: "P e \<Longrightarrow> preserves (trace_ext P) (emit e)"
  by (auto simp: preserves_emit trace_ext_def)

lemma ext_io_read: "(\<And>v. P (Rd u off v)) \<Longrightarrow> preserves (trace_ext P) (io_read E u off)"
  by (auto simp: preserves_def wp_simps trace_ext_def)

lemma ext_io_now: "(\<And>v. P (Clk v)) \<Longrightarrow> preserves (trace_ext P) (io_now E)"
  by (auto simp: preserves_def wp_simps trace_ext_def)

lemma ext_io_call: "(\<And>v. P (Call f xs v)) \<Longrightarrow> preserves (trace_ext P) (io_call E f xs)"
  by (auto simp: preserves_def wp_simps trace_ext_def)

lemma ext_zoom: "preserves (trace_ext P) m \<Longrightarrow> preserves (trace_ext P) (zoom g u m)"
  by (erule preserves_zoom) (simp add: trace_ext_def)

lemmas ext_intros = ext.pres ext_modify ext_emit ext_io_read ext_io_now ext_io_call ext_zoom

text \<open>Events that do not change the hardware.\<close>

fun quiet :: "io_event \<Rightarrow> bool" where
  "quiet (Wr u off v) = False"
| "quiet (Call f xs v) = False"
| "quiet e = True"

text \<open>Events that do not write a register.\<close>

definition no_write :: "io_event \<Rightarrow> bool" where
  "no_write e \<longleftrightarrow> (\<forall>u off v. e \<noteq> Wr u off v)"

lemma no_write_simps [simp]:
  "no_write (Rd u off v)" "no_write (Call f xs y)" "no_write (Dly n)" "no_write Bar" "no_write (Clk t)"
  "\<not> no_write (Wr u off v)"
  by (simp_all add: no_write_def)

lemma quiet_no_write: "quiet e \<Longrightarrow> no_write e"
  by (cases e) simp_all

text \<open>The programs that only look: the state stays and nothing is written.\<close>

definition quietly :: "'s world \<Rightarrow> 's world \<Rightarrow> bool" where
  "quietly w w' \<longleftrightarrow> trace_ext quiet w w' \<and> st w' = st w"

interpretation quietly: frame quietly
  by unfold_locales (auto simp: quietly_def intro: ext.frame_refl ext.frame_trans)

lemma quietly_emit: "quiet e \<Longrightarrow> preserves quietly (emit e)"
  by (simp add: preserves_emit quietly_def trace_ext_def extends_Cons)

lemma quietly_read: "preserves quietly (io_read E u off)"
  by (simp add: preserves_def wp_simps quietly_def trace_ext_def extends_Cons)

lemma quietly_now: "preserves quietly (io_now E)"
  by (simp add: preserves_def wp_simps quietly_def trace_ext_def extends_Cons)

lemmas quietly_intros = quietly.pres quietly_emit quietly_read quietly_now

lemma wp_quietly:
  "preserves quietly m \<Longrightarrow> (\<And>r v. trace_ext quiet w v \<Longrightarrow> st v = st w \<Longrightarrow> Q r v) \<Longrightarrow> wp m Q w"
  by (rule wpI) (auto dest: preservesD simp: quietly_def)

text \<open>The programs that keep a part of the state.\<close>

definition keeps :: "('s \<Rightarrow> 'a) \<Rightarrow> 's world \<Rightarrow> 's world \<Rightarrow> bool" where
  "keeps g w w' \<longleftrightarrow> g (st w') = g (st w)"

interpretation keeps: frame "keeps g" for g
  by unfold_locales (auto simp: keeps_def)

lemma keeps_modify: "(\<And>s. g (f s) = g s) \<Longrightarrow> preserves (keeps g) (modify f)"
  by (simp add: preserves_modify keeps_def)

lemma keeps_io:
  "preserves (keeps g) (emit e)" "preserves (keeps g) (io_read E u off)" "preserves (keeps g) (io_now E)"
  "preserves (keeps g) (io_call E f xs)"
  by (simp_all add: preserves_def wp_simps keeps_def)

lemma keeps_zoom: "(\<And>h s. g (u (\<lambda>_. h) s) = g s) \<Longrightarrow> preserves (keeps g) (zoom a u m)"
  by (auto simp: preserves_def wp_simps keeps_def split: prod.splits)

lemma wp_keeps: "preserves (keeps g) m \<Longrightarrow> (\<And>r v. g (st v) = g (st w) \<Longrightarrow> Q r v) \<Longrightarrow> wp m Q w"
  by (rule wpI) (auto dest: preservesD simp: keeps_def)

lemmas keeps_intros = keeps.pres keeps_modify keeps_io keeps_zoom

text \<open>What a program preserves may be assumed of its result.\<close>

lemma wp_frame: "preserves R m \<Longrightarrow> wp m (\<lambda>r v. R w v \<longrightarrow> Q r v) w \<Longrightarrow> wp m Q w"
  by (rule wpI) (auto dest: preservesD wpD)

text \<open>The last value written to a register, if one was written.\<close>

fun last_write :: "io_event list \<Rightarrow> u32 \<Rightarrow> u32 \<Rightarrow> u32 option" where
  "last_write [] u off = None"
| "last_write (Wr u' off' v # es) u off =
     (if u' = u \<and> off' = off then Some v else last_write es u off)"
| "last_write (e # es) u off = last_write es u off"

lemma last_write_append:
  "(\<forall>e\<in>set es. \<forall>v. e \<noteq> Wr u off v) \<Longrightarrow> last_write (es @ t) u off = last_write t u off"
proof (induction es)
  case (Cons e es)
  then show ?case by (cases e) auto
qed simp

lemma trace_ext_last_write:
  assumes "trace_ext P w w'" and "\<And>v. \<not> P (Wr u off v)"
  shows "last_write (trace w') u off = last_write (trace w) u off"
proof -
  from assms(1) obtain es where es: "trace w' = es @ trace w" "\<forall>e\<in>set es. P e"
    by (auto simp: trace_ext_def extends_def)
  with assms(2) have "\<forall>e\<in>set es. \<forall>v. e \<noteq> Wr u off v" by blast
  with es(1) show ?thesis by (simp add: last_write_append)
qed

lemma quiet_last_write: "trace_ext quiet w w' \<Longrightarrow> last_write (trace w') u off = last_write (trace w) u off"
  by (erule trace_ext_last_write) simp

lemma trace_ext_mono: "trace_ext P w w' \<Longrightarrow> (\<And>e. P e \<Longrightarrow> Q e) \<Longrightarrow> trace_ext Q w w'"
  by (auto simp: trace_ext_def intro: extends_mono)

text \<open>
  A concrete environment: a plain register file, in which a read returns the last value
  written and the reset value before any write; the clock counts the events; kernel
  calls return what the table says.
\<close>

fun regs :: "(u32 \<Rightarrow> u32 \<Rightarrow> u32) \<Rightarrow> io_event list \<Rightarrow> u32 \<Rightarrow> u32 \<Rightarrow> u32" where
  "regs init [] = init"
| "regs init (Wr u off v # t) = (regs init t)(u := (regs init t u)(off := v))"
| "regs init (e # t) = regs init t"

lemma regs_last_write:
  "regs init t u off = (case last_write t u off of None \<Rightarrow> init u off | Some v \<Rightarrow> v)"
  by (induction t u off rule: last_write.induct) auto

lemma regs_cong: "last_write t' u off = last_write t u off \<Longrightarrow> regs init t' u off = regs init t u off"
  by (simp add: regs_last_write)

definition regfile :: "(u32 \<Rightarrow> u32 \<Rightarrow> u32) \<Rightarrow> (string \<Rightarrow> u64 list \<Rightarrow> u64) \<Rightarrow> env" where
  "regfile init calls =
     \<lparr>env_read = regs init, env_now = (\<lambda>t. of_nat (length t)), env_call = (\<lambda>t. calls)\<rparr>"

lemma regfile_simps [simp]:
  "env_read (regfile init calls) = regs init"
  "env_now (regfile init calls) = (\<lambda>t. of_nat (length t))"
  "env_call (regfile init calls) = (\<lambda>t. calls)"
  by (simp_all add: regfile_def)

text \<open>
  A clock that runs: each pause of a polling loop takes at least \<open>d\<close> units of the clock, at
  least over the next \<open>n\<close> pauses. This is what the timeouts of the code rely on.
\<close>

fun pauses :: "io_event list \<Rightarrow> nat" where
  "pauses [] = 0"
| "pauses (Dly n # t) = Suc (pauses t)"
| "pauses (e # t) = pauses t"

definition clock_runs :: "env \<Rightarrow> io_event list \<Rightarrow> nat \<Rightarrow> nat \<Rightarrow> bool" where
  "clock_runs E t d n \<longleftrightarrow>
     (\<forall>es. pauses es \<le> n \<longrightarrow> unat (env_now E t) + d * pauses es \<le> unat (env_now E (es @ t)))"

lemma pauses_append: "pauses (xs @ ys) = pauses xs + pauses ys"
  by (induction xs rule: pauses.induct) auto

lemma pauses_replicate [simp]: "pauses (replicate n (Dly k)) = n"
  by (induction n) auto

lemma clock_runs_bound:
  assumes "clock_runs E t d n"
  shows "unat (env_now E t) + d * n < 2 ^ 64"
proof -
  have "unat (env_now E t) + d * n \<le> unat (env_now E (replicate n (Dly 0) @ t))"
    using assms unfolding clock_runs_def by (metis pauses_replicate le_refl)
  also have "\<dots> < 2 ^ 64" using unsigned_less [of "env_now E (replicate n (Dly 0) @ t)"] by simp
  finally show ?thesis .
qed

text \<open>The environment with such a clock and the register file.\<close>

definition timed :: "u64 \<Rightarrow> env \<Rightarrow> env" where
  "timed d E = E\<lparr>env_now := (\<lambda>t. d * of_nat (pauses t))\<rparr>"

lemma timed_simps [simp]:
  "env_read (timed d E) = env_read E" "env_call (timed d E) = env_call E"
  "env_now (timed d E) t = d * of_nat (pauses t)"
  by (simp_all add: timed_def)

lemma timed_runs:
  assumes "unat d * (pauses t + n) < 2 ^ 64"
  shows "clock_runs (timed d E) t (unat d) n"
  unfolding clock_runs_def
proof (intro allI impI)
  fix es assume es: "pauses es \<le> n"
  have small: "unat (d * of_nat k) = unat d * k" if "k \<le> pauses t + n" for k
  proof (cases "d = 0")
    case False
    have "unat d * k < 2 ^ 64" using that assms by (meson le_less_trans mult_le_mono2)
    moreover have "k \<le> unat d * k" 
    proof -
      have "0 < unat d" using False by (simp add: unat_gt_0)
      then show ?thesis by (cases "unat d") simp_all
    qed
    ultimately have k: "k < 2 ^ 64" "unat d * k < 2 ^ 64"
      by (blast intro: le_less_trans)+
    from k(1) have "unat (of_nat k :: u64) = k" by (intro unat_of_nat_small) simp
    with k(2) show ?thesis by (simp add: unat_word_ariths)
  qed simp
  show "unat (env_now (timed d E) t) + unat d * pauses es \<le> unat (env_now (timed d E) (es @ t))"
    using es small [of "pauses t"] small [of "pauses es + pauses t"]
    by (simp add: pauses_append algebra_simps)
qed

end
