(* ===== verification/Mmu_Hardware.thy ===== *)
theory Mmu_Hardware
  imports Prelude
begin

text \<open>
  The multimedia IOMMU hardware layer, \<open>pi5-iommu/hardware.c\<close>: the register baseline and
  its verification, the shared-cache and TLB invalidation, activation and proven
  deactivation of translation, and the second-level page table with one guard page on
  either side of every slot. Banks 0, 1, 2 are the units IOMMU2, IOMMU4 and IOMMU5,
  bank 3 is the cache control register.
\<close>

unbundle bit_operations_syntax

section \<open>Constants and state\<close>

abbreviation MMU_PAGE :: u32 where "MMU_PAGE \<equiv> 4096"
abbreviation MMU_WORDS :: u32 where "MMU_WORDS \<equiv> 1024"
abbreviation MMU_SLOTS :: u32 where "MMU_SLOTS \<equiv> 16"
abbreviation MMU_MAX_PAGES :: u32 where "MMU_MAX_PAGES \<equiv> 16"
abbreviation MMU_SLOT_PAGES :: u32 where "MMU_SLOT_PAGES \<equiv> 18"
abbreviation MMU_IOVA_BASE :: u64 where "MMU_IOVA_BASE \<equiv> 0xa00000000"
abbreviation MMU_DMA_LIMIT :: u64 where "MMU_DMA_LIMIT \<equiv> 0xfffffffff"
abbreviation MMU_PTE_VALID :: u32 where "MMU_PTE_VALID \<equiv> 0x10000000"
abbreviation MMU_PTE_WRITE :: u32 where "MMU_PTE_WRITE \<equiv> 0x20000000"
abbreviation MMU_POLL_LIMIT :: nat where "MMU_POLL_LIMIT \<equiv> 1000"
abbreviation MMU_ACTIVE_CONTROL :: u32 where "MMU_ACTIVE_CONTROL \<equiv> 0x04090803"
abbreviation MMU_FAULT_FLAGS :: u32 where "MMU_FAULT_FLAGS \<equiv> 0x08101000"

record MMU_HW =
  mmu_Baseline :: "u32 list list"
  mmu_Expected :: "u32 list"
  mmu_Cache :: u32
  mmu_Staged :: u32
  mmu_Fault :: u32
  mmu_Writes :: u32
  mmu_Flushes :: u32
  mmu_Active :: u32
  mmu_FaultFlags :: u32
  mmu_ViolationAddress :: u32
  mmu_Hits :: u32
  mmu_Misses :: u32
  mmu_Stalls :: u32

datatype mmu_result = MmuOk | MmuInvalid | MmuBusy | MmuTimeout | MmuDrift | MmuDeviceFault

definition Offsets :: "u32 list" where
  "Offsets = [0, 4, 0x14, 0x1c, 0x20, 0x24, 0x30, 0x34, 0x38]"

text \<open>The driver's context is zeroed when the device object is created.\<close>

definition mmu_zero :: MMU_HW where
  "mmu_zero = \<lparr>mmu_Baseline = replicate 3 (replicate 9 0), mmu_Expected = replicate 9 0,
     mmu_Cache = 0, mmu_Staged = 0, mmu_Fault = 0, mmu_Writes = 0, mmu_Flushes = 0,
     mmu_Active = 0, mmu_FaultFlags = 0, mmu_ViolationAddress = 0, mmu_Hits = 0,
     mmu_Misses = 0, mmu_Stalls = 0\<rparr>"

section \<open>Registers\<close>

text \<open>A DMA range: whole pages inside the 36-bit address space.\<close>

definition Mmu_Address :: "u64 \<Rightarrow> u32 \<Rightarrow> bool" where
  "Mmu_Address dma pages \<longleftrightarrow>
     pages \<noteq> 0 \<and> pages \<le> MMU_MAX_PAGES \<and> dma AND ucast (MMU_PAGE - 1) = 0 \<and>
     dma \<le> MMU_DMA_LIMIT \<and>
     (ucast pages :: u64) * ucast MMU_PAGE - 1 \<le> MMU_DMA_LIMIT - dma"

definition Mmu_Write :: "u32 \<Rightarrow> u32 \<Rightarrow> u32 \<Rightarrow> (MMU_HW, unit) prog" where
  "Mmu_Write unit offset v = do {
     modify (\<lambda>s. s\<lparr>mmu_Writes := mmu_Writes s + 1\<rparr>);
     io_write unit offset v
   }"

definition Mmu_Fault :: "mmu_result \<Rightarrow> (MMU_HW, mmu_result) prog" where
  "Mmu_Fault err = do { modify (\<lambda>s. s\<lparr>mmu_Fault := 1\<rparr>); ret err }"

text \<open>The pairs \<open>(i, j)\<close> of the doubly nested loops, in the order the code visits them.\<close>

definition mmu_cells :: "(nat \<times> nat) list" where
  "mmu_cells = List.product [0..<3] [0..<9]"

definition mmu_expected_at :: "MMU_HW \<Rightarrow> nat \<Rightarrow> nat \<Rightarrow> u32" where
  "mmu_expected_at s i j = (if i = 1 then mmu_Expected s ! j else mmu_Baseline s ! i ! j)"

fun Mmu_Check_cells :: "env \<Rightarrow> (nat \<times> nat) list \<Rightarrow> (MMU_HW, bool) prog" where
  "Mmu_Check_cells E [] = ret True"
| "Mmu_Check_cells E ((i, j) # ps) = do {
     expected \<leftarrow> gets (\<lambda>s. mmu_expected_at s i j);
     v \<leftarrow> io_read E (of_nat i) (Offsets ! j);
     if v \<noteq> expected then ret False else Mmu_Check_cells E ps
   }"

definition MmuCheck :: "env \<Rightarrow> (MMU_HW, mmu_result) prog" where
  "MmuCheck E = do {
     s \<leftarrow> gets id;
     if mmu_Fault s \<noteq> 0 then ret MmuDrift
     else if mmu_Staged s = 0 then ret MmuInvalid
     else if mmu_Active s \<noteq> 0 then ret MmuBusy
     else do {
       same \<leftarrow> Mmu_Check_cells E mmu_cells;
       if \<not> same then Mmu_Fault MmuDrift
       else do {
         v \<leftarrow> io_read E 3 0;
         if v \<noteq> mmu_Cache s then Mmu_Fault MmuDrift else ret MmuOk
       }
     }
   }"

fun Mmu_Poll_loop :: "env \<Rightarrow> nat \<Rightarrow> u32 \<Rightarrow> u32 \<Rightarrow> (MMU_HW, bool) prog" where
  "Mmu_Poll_loop E 0 unit mask' = ret False"
| "Mmu_Poll_loop E (Suc n) unit mask' = do {
     v \<leftarrow> io_read E unit 0;
     if v AND mask' = 0 then ret True
     else do { io_delay 1; Mmu_Poll_loop E n unit mask' }
   }"

definition Mmu_Poll :: "env \<Rightarrow> u32 \<Rightarrow> u32 \<Rightarrow> (MMU_HW, mmu_result) prog" where
  "Mmu_Poll E unit mask' = do {
     done \<leftarrow> Mmu_Poll_loop E MMU_POLL_LIMIT unit mask';
     if done then ret MmuOk else Mmu_Fault MmuTimeout
   }"

definition MmuInvalidate :: "env \<Rightarrow> (MMU_HW, mmu_result) prog" where
  "MmuInvalidate E = do {
     r \<leftarrow> MmuCheck E;
     if r \<noteq> MmuOk then ret r else do {
       io_barrier;
       cache \<leftarrow> gets mmu_Cache;
       Mmu_Write 3 0 (cache OR 3);
       r \<leftarrow> Mmu_Poll E 3 4;
       if r \<noteq> MmuOk then ret r else do {
         Mmu_Write 3 0 cache;
         Mmu_Write 1 0 4;
         r \<leftarrow> Mmu_Poll E 1 0x80;
         if r \<noteq> MmuOk then ret r else do {
           Mmu_Write 1 0 0;
           io_barrier;
           r \<leftarrow> MmuCheck E;
           whenM (r = MmuOk) (modify (\<lambda>s. s\<lparr>mmu_Flushes := mmu_Flushes s + 1\<rparr>));
           ret r
         }
       }
     }
   }"

section \<open>Staging and restoring\<close>

text \<open>One row of the baseline; the snapshot stops at the first unit that is not idle.\<close>

fun Mmu_Read_row :: "env \<Rightarrow> nat \<Rightarrow> nat list \<Rightarrow> (MMU_HW, unit) prog" where
  "Mmu_Read_row E i [] = ret ()"
| "Mmu_Read_row E i (j # js) = do {
     v \<leftarrow> io_read E (of_nat i) (Offsets ! j);
     modify (\<lambda>s. s\<lparr>mmu_Baseline := (mmu_Baseline s)[i := (mmu_Baseline s ! i)[j := v]]\<rparr>);
     Mmu_Read_row E i js
   }"

fun Mmu_Snapshot :: "env \<Rightarrow> nat list \<Rightarrow> (MMU_HW, bool) prog" where
  "Mmu_Snapshot E [] = ret True"
| "Mmu_Snapshot E (i # is) = do {
     Mmu_Read_row E i [0..<9];
     control \<leftarrow> gets (\<lambda>s. mmu_Baseline s ! i ! 0);
     if control \<noteq> 0 then ret False else Mmu_Snapshot E is
   }"

definition mmu_debug_ok :: "u32 \<Rightarrow> bool" where
  "mmu_debug_ok debug \<longleftrightarrow> \<not> (debug AND 15 < 4 \<or> drop_bit 4 debug AND 15 < 6 \<or>
     drop_bit 8 debug AND 15 < 6 \<or> debug AND 0x20000000 = 0)"

definition mmu_stage :: "u64 \<Rightarrow> u64 \<Rightarrow> u32 \<Rightarrow> u32 list \<Rightarrow> u32 list" where
  "mmu_stage table trap debug e =
     e[1 := ucast (drop_bit 12 table) - ucast (drop_bit 32 MMU_IOVA_BASE),
       2 := 0x80000000 OR ucast (drop_bit 28 MMU_IOVA_BASE),
       3 := 0,
       4 := 0x80000000 OR
         ucast (drop_bit (if debug AND 0x10000000 \<noteq> 0 then 22 else 28) MMU_IOVA_BASE),
       5 := (e ! 5) AND NOT 0x80000000,
       6 := 0x80000000 OR ucast (drop_bit 12 trap)]"

fun Mmu_Write_expected :: "nat list \<Rightarrow> (MMU_HW, unit) prog" where
  "Mmu_Write_expected [] = ret ()"
| "Mmu_Write_expected (j # js) = do {
     v \<leftarrow> gets (\<lambda>s. mmu_Expected s ! j);
     Mmu_Write 1 (Offsets ! j) v;
     Mmu_Write_expected js
   }"

definition MmuBegin :: "env \<Rightarrow> u64 \<Rightarrow> u64 \<Rightarrow> (MMU_HW, mmu_result) prog" where
  "MmuBegin E table trap = do {
     s \<leftarrow> gets id;
     if mmu_Staged s \<noteq> 0 \<or> mmu_Fault s \<noteq> 0 then ret MmuBusy
     else if \<not> Mmu_Address table 1 \<or> \<not> Mmu_Address trap 1 \<or> table < drop_bit 20 MMU_IOVA_BASE
     then ret MmuInvalid
     else do {
       idle \<leftarrow> Mmu_Snapshot E [0..<3];
       if \<not> idle then ret MmuBusy else do {
         debug \<leftarrow> gets (\<lambda>s. mmu_Baseline s ! 1 ! 8);
         if \<not> mmu_debug_ok debug then ret MmuInvalid else do {
           cache \<leftarrow> io_read E 3 0;
           modify (\<lambda>s. s\<lparr>mmu_Cache := cache\<rparr>);
           if cache AND 6 \<noteq> 0 then ret MmuBusy else do {
             modify (\<lambda>s. s\<lparr>mmu_Expected := mmu_Baseline s ! 1\<rparr>);
             modify (\<lambda>s. s\<lparr>mmu_Staged := 1\<rparr>);
             r \<leftarrow> MmuCheck E;
             if r \<noteq> MmuOk then ret MmuDrift else do {
               modify (\<lambda>s. s\<lparr>mmu_Expected := mmu_stage table trap debug (mmu_Expected s)\<rparr>);
               io_barrier;
               Mmu_Write_expected [1..<7];
               MmuInvalidate E
             }
           }
         }
       }
     }
   }"

fun Mmu_Restore :: "nat list \<Rightarrow> (MMU_HW, unit) prog" where
  "Mmu_Restore [] = ret ()"
| "Mmu_Restore (j # js) = do {
     v \<leftarrow> gets (\<lambda>s. mmu_Baseline s ! 1 ! j);
     modify (\<lambda>s. s\<lparr>mmu_Expected := (mmu_Expected s)[j := v]\<rparr>);
     Mmu_Write 1 (Offsets ! j) v;
     Mmu_Restore js
   }"

definition MmuEnd :: "env \<Rightarrow> (MMU_HW, mmu_result) prog" where
  "MmuEnd E = do {
     r \<leftarrow> MmuInvalidate E;
     if r \<noteq> MmuOk then ret r else do {
       Mmu_Restore [1..<7];
       r \<leftarrow> MmuInvalidate E;
       whenM (r = MmuOk) (modify (\<lambda>s. s\<lparr>mmu_Staged := 0\<rparr>));
       ret r
     }
   }"

definition MmuActivate :: "env \<Rightarrow> (MMU_HW, mmu_result) prog" where
  "MmuActivate E = do {
     r \<leftarrow> MmuInvalidate E;
     if r \<noteq> MmuOk then ret r else do {
       cache \<leftarrow> gets mmu_Cache;
       Mmu_Write 3 0 (cache OR 1);
       modify (\<lambda>s. s\<lparr>mmu_Active := 1\<rparr>);
       Mmu_Write 1 0 MMU_ACTIVE_CONTROL;
       io_barrier;
       v \<leftarrow> io_read E 3 0;
       if v \<noteq> cache OR 1 then Mmu_Fault MmuDrift else do {
         v \<leftarrow> io_read E 1 0;
         if v \<noteq> MMU_ACTIVE_CONTROL then Mmu_Fault MmuDrift else ret MmuOk
       }
     }
   }"

text \<open>The cells the stop check compares: the control register may carry fault flags, and the
  violation address may have changed with them.\<close>

definition mmu_stop_cells :: "u32 \<Rightarrow> (nat \<times> nat) list" where
  "mmu_stop_cells flags =
     filter (\<lambda>(i, j). \<not> (i = 1 \<and> (j = 0 \<or> (j = 7 \<and> flags \<noteq> 0)))) mmu_cells"

definition MmuDeactivate :: "env \<Rightarrow> u32 \<Rightarrow> (MMU_HW, mmu_result) prog" where
  "MmuDeactivate E quiesced = do {
     s \<leftarrow> gets id;
     if mmu_Active s = 0 then ret MmuInvalid else do {
       v \<leftarrow> io_read E 1 0;
       let flags = v AND MMU_FAULT_FLAGS;
       modify (\<lambda>s. s\<lparr>mmu_FaultFlags := flags\<rparr>);
       v \<leftarrow> io_read E 1 0x34; modify (\<lambda>s. s\<lparr>mmu_ViolationAddress := v\<rparr>);
       v \<leftarrow> io_read E 1 8;    modify (\<lambda>s. s\<lparr>mmu_Hits := v\<rparr>);
       v \<leftarrow> io_read E 1 12;   modify (\<lambda>s. s\<lparr>mmu_Misses := v\<rparr>);
       v \<leftarrow> io_read E 1 16;   modify (\<lambda>s. s\<lparr>mmu_Stalls := v\<rparr>);
       if quiesced = 0 then Mmu_Fault MmuBusy
       else if mmu_Fault s \<noteq> 0 then ret MmuDrift
       else do {
         control \<leftarrow> io_read E 1 0;
         if control AND NOT MMU_FAULT_FLAGS \<noteq> MMU_ACTIVE_CONTROL then Mmu_Fault MmuDrift
         else do {
           v \<leftarrow> io_read E 3 0;
           if v \<noteq> mmu_Cache s OR 1 then Mmu_Fault MmuDrift else do {
             same \<leftarrow> Mmu_Check_cells E (mmu_stop_cells flags);
             if \<not> same then Mmu_Fault MmuDrift else do {
               Mmu_Write 1 0 0;
               io_barrier;
               v \<leftarrow> io_read E 1 0;
               if v \<noteq> flags then Mmu_Fault MmuDrift else do {
                 modify (\<lambda>s. s\<lparr>mmu_Active := 0\<rparr>);
                 Mmu_Write 3 0 (mmu_Cache s);
                 v \<leftarrow> io_read E 3 0;
                 if v \<noteq> mmu_Cache s then Mmu_Fault MmuDrift
                 else if flags \<noteq> 0 then Mmu_Fault MmuDeviceFault
                 else MmuInvalidate E
               }
             }
           }
         }
       }
     }
   }"

section \<open>Sequences of operations\<close>

text \<open>The interface of the layer, as the client may call it in any order.\<close>

datatype mmu_op = OpBegin u64 u64 | OpCheck | OpInvalidate | OpEnd | OpActivate | OpDeactivate u32

fun mmu_run_op :: "env \<Rightarrow> mmu_op \<Rightarrow> (MMU_HW, mmu_result) prog" where
  "mmu_run_op E (OpBegin table trap) = MmuBegin E table trap"
| "mmu_run_op E OpCheck = MmuCheck E"
| "mmu_run_op E OpInvalidate = MmuInvalidate E"
| "mmu_run_op E OpEnd = MmuEnd E"
| "mmu_run_op E OpActivate = MmuActivate E"
| "mmu_run_op E (OpDeactivate q) = MmuDeactivate E q"

fun mmu_run_ops :: "env \<Rightarrow> mmu_op list \<Rightarrow> (MMU_HW, mmu_result list) prog" where
  "mmu_run_ops E [] = ret []"
| "mmu_run_ops E (p # ps) = do {
     r \<leftarrow> mmu_run_op E p;
     rs \<leftarrow> mmu_run_ops E ps;
     ret (r # rs)
   }"

section \<open>Which registers are written\<close>

text \<open>The writes the layer may ever issue: the cache control register and the control and
  staging registers of IOMMU4. IOMMU2, IOMMU5 and the read-only registers stay untouched.\<close>

fun mmu_allowed :: "io_event \<Rightarrow> bool" where
  "mmu_allowed (Wr u off v) =
     ((u = 3 \<and> off = 0) \<or> (u = 1 \<and> off \<in> set (take 7 Offsets)))"
| "mmu_allowed (Call f xs v) = False"
| "mmu_allowed e = True"

lemma quiet_allowed: "quiet e \<Longrightarrow> mmu_allowed e"
  by (cases e) auto

lemma allowed_Write [intro]:
  "(u = 3 \<and> off = 0) \<or> (u = 1 \<and> off \<in> set (take 7 Offsets)) \<Longrightarrow>
     preserves (trace_ext mmu_allowed) (Mmu_Write u off v)"
  by (auto simp: Mmu_Write_def intro!: ext_intros)

lemma ext_Mmu_Fault [intro]: "preserves (trace_ext P) (Mmu_Fault e)"
  by (auto simp: Mmu_Fault_def intro!: ext_intros)

lemma ext_Check_cells:
  "(\<And>u off v. P (Rd u off v)) \<Longrightarrow> preserves (trace_ext P) (Mmu_Check_cells E ps)"
  by (induction ps rule: Mmu_Check_cells.induct) (auto intro!: ext_intros)

lemma ext_Check [intro]: "(\<And>u off v. P (Rd u off v)) \<Longrightarrow> preserves (trace_ext P) (MmuCheck E)"
  by (auto simp: MmuCheck_def intro!: ext_intros ext_Check_cells)

lemma ext_Poll_loop:
  "(\<And>u off v. P (Rd u off v)) \<Longrightarrow> (\<And>n. P (Dly n)) \<Longrightarrow>
     preserves (trace_ext P) (Mmu_Poll_loop E n u m)"
  by (induction n) (auto intro!: ext_intros)

lemma ext_Poll [intro]:
  "(\<And>u off v. P (Rd u off v)) \<Longrightarrow> (\<And>n. P (Dly n)) \<Longrightarrow> preserves (trace_ext P) (Mmu_Poll E u m)"
  by (auto simp: Mmu_Poll_def intro!: ext_intros ext_Poll_loop)

lemma ext_Read_row:
  "(\<And>u off v. P (Rd u off v)) \<Longrightarrow> preserves (trace_ext P) (Mmu_Read_row E i js)"
  by (induction js) (auto intro!: ext_intros)

lemma ext_Snapshot:
  "(\<And>u off v. P (Rd u off v)) \<Longrightarrow> preserves (trace_ext P) (Mmu_Snapshot E is)"
  by (induction "is") (auto intro!: ext_intros ext_Read_row)

lemma staged_offset: "j < 7 \<Longrightarrow> Offsets ! j \<in> set (take 7 Offsets)"
proof -
  assume "j < 7"
  then have "take 7 Offsets ! j = Offsets ! j" by simp
  moreover from \<open>j < 7\<close> have "j < length (take 7 Offsets)" by (simp add: Offsets_def)
  ultimately have "Offsets ! j \<in> set (take 7 Offsets)" by (metis nth_mem)
  then show ?thesis .
qed

lemma allowed_Write_expected:
  "\<forall>j\<in>set js. j < 7 \<Longrightarrow> preserves (trace_ext mmu_allowed) (Mmu_Write_expected js)"
  by (induction js) (auto intro!: ext_intros staged_offset)

lemma allowed_Restore:
  "\<forall>j\<in>set js. j < 7 \<Longrightarrow> preserves (trace_ext mmu_allowed) (Mmu_Restore js)"
  by (induction js) (auto intro!: ext_intros staged_offset)

lemma control_offset: "0 \<in> set (take 7 Offsets)"
  by (simp add: Offsets_def)

lemma allowed_Invalidate [intro]: "preserves (trace_ext mmu_allowed) (MmuInvalidate E)"
  by (auto simp: MmuInvalidate_def control_offset intro!: ext_intros)

lemmas allowed_intros = ext_intros allowed_Write allowed_Write_expected allowed_Restore
  allowed_Invalidate ext_Snapshot ext_Check_cells ext_Check ext_Poll ext_Mmu_Fault

lemma allowed_op: "preserves (trace_ext mmu_allowed) (mmu_run_op E p)"
proof (cases p)
  case (OpBegin table trap)
  then show ?thesis
    by (simp only: mmu_run_op.simps MmuBegin_def) (intro allowed_intros; simp)
next
  case OpEnd
  then show ?thesis
    by (simp only: mmu_run_op.simps MmuEnd_def) (intro allowed_intros; simp)
next
  case OpActivate
  then show ?thesis
    by (simp only: mmu_run_op.simps MmuActivate_def) (intro allowed_intros; simp add: control_offset)
next
  case (OpDeactivate q)
  then show ?thesis
    by (simp only: mmu_run_op.simps MmuDeactivate_def) (intro allowed_intros; simp add: control_offset)
qed (auto intro: ext_Check)

lemma allowed_ops: "preserves (trace_ext mmu_allowed) (mmu_run_ops E ps)"
  by (induction ps) (auto intro!: ext_intros allowed_op)

section \<open>What a check, a poll and an invalidation do\<close>

text \<open>The state in which the layer talks to the hardware at all.\<close>

definition mmu_usable :: "MMU_HW \<Rightarrow> bool" where
  "mmu_usable s \<longleftrightarrow> mmu_Fault s = 0 \<and> mmu_Staged s \<noteq> 0 \<and> mmu_Active s = 0"

lemma run_Check_cells:
  "run_state (Mmu_Check_cells E ps) w = (b, w') \<Longrightarrow> st w' = st w \<and> trace_ext quiet w w'"
proof (induction E ps arbitrary: w rule: Mmu_Check_cells.induct)
  case (1 E)
  then show ?case by (simp add: trace_ext_def)
next
  case (2 E i j ps)
  let ?v = "env_read E (trace w) (of_nat i) (Offsets ! j)"
  let ?w = "w\<lparr>trace := Rd (of_nat i) (Offsets ! j) ?v # trace w\<rparr>"
  have q: "trace_ext quiet w ?w" by (simp add: trace_ext_def extends_Cons)
  show ?case
  proof (cases "?v = mmu_expected_at (st w) i j")
    case True
    with 2(2) have "run_state (Mmu_Check_cells E ps) ?w = (b, w')" by (simp add: wp_simps)
    with 2(1) [OF _ this] True q show ?thesis by (auto intro: ext.frame_trans)
  next
    case False
    with 2(2) q show ?thesis by (auto simp: wp_simps)
  qed
qed

lemma run_MmuCheck:
  assumes "run_state (MmuCheck E) w = (r, w')"
  shows "trace_ext quiet w w' \<and>
    (if r = MmuOk then mmu_usable (st w) \<and> st w' = st w
     else if mmu_usable (st w) then st w' = (st w)\<lparr>mmu_Fault := 1\<rparr> else w' = w)"
proof (cases "mmu_usable (st w)")
  case False
  with assms show ?thesis
    by (auto simp: MmuCheck_def mmu_usable_def wp_simps trace_ext_def split: if_splits)
next
  case True
  obtain b v where cells: "run_state (Mmu_Check_cells E mmu_cells) w = (b, v)"
    by (cases "run_state (Mmu_Check_cells E mmu_cells) w")
  from run_Check_cells [OF cells] have v: "st v = st w" "trace_ext quiet w v" by auto
  show ?thesis
    using assms True v
    by (auto simp: MmuCheck_def Mmu_Fault_def mmu_usable_def wp_simps cells trace_ext_def
        intro: extends_Cons split: if_splits)
qed

lemma run_Poll_loop:
  "run_state (Mmu_Poll_loop E n u m) w = (b, w') \<Longrightarrow> st w' = st w \<and> trace_ext quiet w w'"
proof (induction n arbitrary: w)
  case 0
  then show ?case by (simp add: trace_ext_def)
next
  case (Suc n)
  let ?v = "env_read E (trace w) u 0"
  let ?w = "w\<lparr>trace := Dly 1 # Rd u 0 ?v # trace w\<rparr>"
  show ?case
  proof (cases "?v AND m = 0")
    case True
    with Suc.prems show ?thesis by (auto simp: wp_simps trace_ext_def extends_Cons)
  next
    case False
    with Suc.prems have "run_state (Mmu_Poll_loop E n u m) ?w = (b, w')" by (simp add: wp_simps)
    from Suc.IH [OF this] have "st w' = st w" "trace_ext quiet ?w w'" by auto
    moreover have "trace_ext quiet w ?w" by (simp add: trace_ext_def extends_Cons)
    ultimately show ?thesis by (blast intro: ext.frame_trans)
  qed
qed

lemma run_Mmu_Poll:
  assumes "run_state (Mmu_Poll E u m) w = (r, w')"
  shows "trace_ext quiet w w' \<and>
    (r = MmuOk \<and> st w' = st w \<or> r = MmuTimeout \<and> st w' = (st w)\<lparr>mmu_Fault := 1\<rparr>)"
proof -
  obtain b v where loop: "run_state (Mmu_Poll_loop E MMU_POLL_LIMIT u m) w = (b, v)"
    by (cases "run_state (Mmu_Poll_loop E MMU_POLL_LIMIT u m) w")
  from run_Poll_loop [OF loop] assms show ?thesis
    by (auto simp: Mmu_Poll_def Mmu_Fault_def wp_simps loop trace_ext_def
        simp del: Mmu_Poll_loop.simps split: if_splits)
qed

text \<open>As proof rules for the symbolic execution of their callers.\<close>

lemma wp_MmuCheck:
  assumes "\<And>w'. trace_ext quiet w w' \<Longrightarrow> mmu_usable (st w) \<Longrightarrow> st w' = st w \<Longrightarrow> Q MmuOk w'"
    and "\<And>r w'. trace_ext quiet w w' \<Longrightarrow> mmu_usable (st w) \<Longrightarrow> r \<noteq> MmuOk \<Longrightarrow>
      st w' = (st w)\<lparr>mmu_Fault := 1\<rparr> \<Longrightarrow> Q r w'"
    and "\<And>r. \<not> mmu_usable (st w) \<Longrightarrow> r \<noteq> MmuOk \<Longrightarrow> Q r w"
  shows "wp (MmuCheck E) Q w"
proof (rule wpI)
  fix r w' assume "run_state (MmuCheck E) w = (r, w')"
  from run_MmuCheck [OF this] assms show "Q r w'" by (auto split: if_splits)
qed

lemma wp_Mmu_Poll:
  assumes "\<And>w'. trace_ext quiet w w' \<Longrightarrow> st w' = st w \<Longrightarrow> Q MmuOk w'"
    and "\<And>w'. trace_ext quiet w w' \<Longrightarrow> st w' = (st w)\<lparr>mmu_Fault := 1\<rparr> \<Longrightarrow> Q MmuTimeout w'"
  shows "wp (Mmu_Poll E u m) Q w"
proof (rule wpI)
  fix r w' assume "run_state (Mmu_Poll E u m) w = (r, w')"
  from run_Mmu_Poll [OF this] assms show "Q r w'" by auto
qed

lemma wp_Mmu_Write [wp_simps]:
  "wp (Mmu_Write u off v) Q w =
     Q () (w\<lparr>st := (st w)\<lparr>mmu_Writes := mmu_Writes (st w) + 1\<rparr>, trace := Wr u off v # trace w\<rparr>)"
  by (simp add: Mmu_Write_def wp_simps)

lemma wp_Mmu_Fault [wp_simps]:
  "wp (Mmu_Fault e) Q w = Q e (w\<lparr>st := (st w)\<lparr>mmu_Fault := 1\<rparr>\<rparr>)"
  by (simp add: Mmu_Fault_def wp_simps)

text \<open>The part of the state that decides what the layer may do and what it will restore.\<close>

definition mmu_core :: "MMU_HW \<Rightarrow> u32 list list \<times> u32 list \<times> u32 \<times> u32 \<times> u32" where
  "mmu_core s = (mmu_Baseline s, mmu_Expected s, mmu_Cache s, mmu_Staged s, mmu_Active s)"

lemma wp_MmuInvalidate:
  assumes ok: "\<And>w'. mmu_usable (st w) \<Longrightarrow>
      st w' = (st w)\<lparr>mmu_Writes := mmu_Writes (st w) + 4, mmu_Flushes := mmu_Flushes (st w) + 1\<rparr> \<Longrightarrow>
      last_write (trace w') = (last_write (trace w))
        (3 := (last_write (trace w) 3)(0 := Some (mmu_Cache (st w))),
         1 := (last_write (trace w) 1)(0 := Some 0)) \<Longrightarrow> Q MmuOk w'"
    and fail: "\<And>r w'. mmu_usable (st w) \<Longrightarrow> r \<noteq> MmuOk \<Longrightarrow> mmu_Fault (st w') = 1 \<Longrightarrow>
      mmu_core (st w') = mmu_core (st w) \<Longrightarrow>
      last_write (trace w') 1 0 \<in> {last_write (trace w) 1 0, Some 4, Some 0} \<Longrightarrow> Q r w'"
    and unusable: "\<And>r. \<not> mmu_usable (st w) \<Longrightarrow> r \<noteq> MmuOk \<Longrightarrow> Q r w"
  shows "wp (MmuInvalidate E) Q w"
  unfolding MmuInvalidate_def wp_simps
proof (rule wp_MmuCheck, goal_cases)
  case (1 w1)
  then show ?case
    apply (simp add: wp_simps)
    apply (rule wp_Mmu_Poll; simp add: wp_simps)
     apply (rule wp_Mmu_Poll; simp add: wp_simps)
      apply (rule wp_MmuCheck; simp add: wp_simps)
        apply (rule ok; simp add: quiet_last_write fun_eq_iff)
       apply (rule fail; simp add: quiet_last_write mmu_core_def)
      apply (simp add: mmu_usable_def)
     apply (rule fail; simp add: quiet_last_write mmu_core_def)
    apply (rule fail; simp add: quiet_last_write mmu_core_def)
    done
next
  case (2 r w1)
  then show ?case by (auto simp: wp_simps mmu_core_def quiet_last_write intro: fail)
next
  case (3 r)
  then show ?case by (auto simp: wp_simps intro: unusable)
qed

section \<open>The session invariant\<close>

text \<open>
  The tables of the C state have their declared size; translation is never on without a
  staged session; without a latched fault the last control and cache values written are
  exactly those of the current phase (idle, staged or active), and even after a fault
  the layer knows of every enabled translation.
\<close>

definition mmu_sized :: "MMU_HW \<Rightarrow> bool" where
  "mmu_sized s \<longleftrightarrow> length (mmu_Baseline s) = 3 \<and>
     (\<forall>row\<in>set (mmu_Baseline s). length row = 9) \<and> length (mmu_Expected s) = 9"

definition mmu_inv :: "MMU_HW world \<Rightarrow> bool" where
  "mmu_inv w \<longleftrightarrow> mmu_sized (st w) \<and>
     (mmu_Active (st w) \<noteq> 0 \<longrightarrow> mmu_Staged (st w) \<noteq> 0) \<and>
     (mmu_Active (st w) = 0 \<longrightarrow> last_write (trace w) 1 0 \<noteq> Some MMU_ACTIVE_CONTROL) \<and>
     (mmu_Fault (st w) = 0 \<longrightarrow>
        (if mmu_Active (st w) \<noteq> 0
         then last_write (trace w) 1 0 = Some MMU_ACTIVE_CONTROL \<and>
              last_write (trace w) 3 0 = Some (mmu_Cache (st w) OR 1)
         else mmu_Staged (st w) \<noteq> 0 \<longrightarrow>
              last_write (trace w) 1 0 = Some 0 \<and>
              last_write (trace w) 3 0 = Some (mmu_Cache (st w))))"

lemma mmu_inv_init: "mmu_inv \<lparr>st = mmu_zero, trace = []\<rparr>"
  by (simp add: mmu_inv_def mmu_zero_def mmu_sized_def)

lemma mmu_inv_quiet:
  "mmu_inv w \<Longrightarrow> trace_ext quiet w w' \<Longrightarrow> st w' = st w \<Longrightarrow> mmu_inv w'"
  by (simp add: mmu_inv_def quiet_last_write)

lemma mmu_inv_fault:
  "mmu_inv w \<Longrightarrow> trace_ext quiet w w' \<Longrightarrow> st w' = (st w)\<lparr>mmu_Fault := 1\<rparr> \<Longrightarrow> mmu_inv w'"
  by (auto simp: mmu_inv_def quiet_last_write mmu_sized_def)

lemma inv_Check: "mmu_inv w \<Longrightarrow> wp (MmuCheck E) (\<lambda>_. mmu_inv) w"
  by (rule wp_MmuCheck) (auto intro: mmu_inv_quiet mmu_inv_fault)

text \<open>An invalidation may start from a session whose staging writes are not yet verified.\<close>

definition mmu_staging :: "MMU_HW world \<Rightarrow> bool" where
  "mmu_staging w \<longleftrightarrow> mmu_sized (st w) \<and>
     (mmu_Active (st w) \<noteq> 0 \<longrightarrow> mmu_Staged (st w) \<noteq> 0) \<and>
     (mmu_Active (st w) = 0 \<longrightarrow> last_write (trace w) 1 0 \<noteq> Some MMU_ACTIVE_CONTROL)"

lemma inv_staging: "mmu_inv w \<Longrightarrow> mmu_staging w"
  by (simp add: mmu_inv_def mmu_staging_def)

lemma inv_Invalidate:
  assumes "mmu_staging w" and "mmu_usable (st w) \<or> mmu_inv w"
  shows "wp (MmuInvalidate E) (\<lambda>r w'. mmu_inv w' \<and> (r = MmuOk \<longrightarrow> mmu_usable (st w') \<and>
     mmu_core (st w') = mmu_core (st w) \<and> (\<forall>off. off \<noteq> 0 \<longrightarrow>
       last_write (trace w') 1 off = last_write (trace w) 1 off))) w"
  using assms
  by (intro wp_MmuInvalidate)
     (auto simp: mmu_inv_def mmu_staging_def mmu_usable_def mmu_core_def mmu_sized_def)

lemma run_Read_row:
  "run_state (Mmu_Read_row E i js) w = (r, w') \<Longrightarrow> i < length (mmu_Baseline (st w)) \<Longrightarrow>
    trace_ext quiet w w' \<and>
    (\<exists>row. length row = length (mmu_Baseline (st w) ! i) \<and>
      st w' = (st w)\<lparr>mmu_Baseline := (mmu_Baseline (st w))[i := row]\<rparr>)"
proof (induction js arbitrary: w)
  case Nil
  then show ?case by (auto simp: trace_ext_def intro!: exI [of _ "mmu_Baseline (st w) ! i"])
next
  case (Cons j js)
  let ?v = "env_read E (trace w) (of_nat i) (Offsets ! j)"
  let ?w = "w\<lparr>trace := Rd (of_nat i) (Offsets ! j) ?v # trace w,
    st := (st w)\<lparr>mmu_Baseline := (mmu_Baseline (st w))[i := (mmu_Baseline (st w) ! i)[j := ?v]]\<rparr>\<rparr>"
  from Cons.prems have run: "run_state (Mmu_Read_row E i js) ?w = (r, w')" by (simp add: wp_simps)
  from Cons.IH [OF run] Cons.prems(2) obtain row where "trace_ext quiet ?w w'"
    "length row = length (mmu_Baseline (st w) ! i)"
    "st w' = (st ?w)\<lparr>mmu_Baseline := (mmu_Baseline (st ?w))[i := row]\<rparr>" by auto
  moreover have "trace_ext quiet w ?w" by (simp add: trace_ext_def)
  ultimately show ?case by (auto intro: ext.frame_trans)
qed

lemma wp_Snapshot:
  assumes "mmu_sized (st w)" and "\<forall>i\<in>set is. i < 3"
    and Q: "\<And>b w' base. trace_ext quiet w w' \<Longrightarrow> mmu_sized (st w') \<Longrightarrow>
      st w' = (st w)\<lparr>mmu_Baseline := base\<rparr> \<Longrightarrow> Q b w'"
  shows "wp (Mmu_Snapshot E is) Q w"
  using assms
proof (induction "is" arbitrary: w)
  case Nil
  from Nil.prems(3) [of w "mmu_Baseline (st w)" True] Nil.prems(1)
  show ?case by (simp add: wp_simps trace_ext_def)
next
  case (Cons i "is")
  have "wp (Mmu_Read_row E i [0..<9]) (\<lambda>_. wp (do {
      control \<leftarrow> gets (\<lambda>s. mmu_Baseline s ! i ! 0);
      if control \<noteq> 0 then ret False else Mmu_Snapshot E is }) Q) w"
  proof (rule wpI)
    fix r w'
    assume "run_state (Mmu_Read_row E i [0..<9]) w = (r, w')"
    moreover have i: "i < length (mmu_Baseline (st w))" using Cons.prems by (simp add: mmu_sized_def)
    ultimately obtain row where row: "trace_ext quiet w w'"
      "length row = length (mmu_Baseline (st w) ! i)"
      "st w' = (st w)\<lparr>mmu_Baseline := (mmu_Baseline (st w))[i := row]\<rparr>"
      by (blast dest: run_Read_row)
    have sized: "mmu_sized (st w')"
      using Cons.prems(1) i row(2,3)
      by (auto simp: mmu_sized_def dest!: set_update_subset_insert [THEN subsetD])
    have "wp (Mmu_Snapshot E is) Q w'"
    proof (rule Cons.IH [OF sized])
      show "\<forall>i\<in>set is. i < 3" using Cons.prems(2) by simp
      show "trace_ext quiet w' v \<Longrightarrow> mmu_sized (st v) \<Longrightarrow> st v = (st w')\<lparr>mmu_Baseline := base\<rparr> \<Longrightarrow> Q b v"
        for b v base
        using Cons.prems(3) [of v base b] row by (auto intro: ext.frame_trans)
    qed
    moreover have "Q False w'" using Cons.prems(3) row sized by blast
    ultimately show "wp (do {
      control \<leftarrow> gets (\<lambda>s. mmu_Baseline s ! i ! 0);
      if control \<noteq> 0 then ret False else Mmu_Snapshot E is }) Q w'" by (simp add: wp_simps)
  qed
  then show ?case by (simp add: wp_simps)
qed

text \<open>The staging loops write the six staging registers of IOMMU4 and nothing else.\<close>

definition staging_offsets :: "u32 set" where
  "staging_offsets = (\<lambda>j. Offsets ! j) ` {1..6}"

fun staging_write :: "io_event \<Rightarrow> bool" where
  "staging_write (Wr u off v) = (u = 1 \<and> off \<in> staging_offsets)"
| "staging_write e = False"

lemma Offsets_nonzero: "j \<in> {1..6} \<Longrightarrow> Offsets ! j \<noteq> 0"
proof -
  have "\<forall>j\<in>set [1..<7]. Offsets ! j \<noteq> 0" by (simp add: Offsets_def upt_conv_Cons)
  then show "j \<in> {1..6} \<Longrightarrow> Offsets ! j \<noteq> 0" by auto
qed

lemma staging_last_write:
  "trace_ext staging_write w w' \<Longrightarrow> u \<noteq> 1 \<or> off \<notin> staging_offsets \<Longrightarrow>
     last_write (trace w') u off = last_write (trace w) u off"
  by (erule trace_ext_last_write) auto

lemma control_unstaged [simp]: "0 \<notin> staging_offsets"
  using Offsets_nonzero by (fastforce simp: staging_offsets_def)

lemma Offsets_staging: "j \<in> {1..6} \<Longrightarrow> Offsets ! j \<in> staging_offsets"
  by (auto simp: staging_offsets_def)

lemma Offsets_inj: "i < 9 \<Longrightarrow> j < 9 \<Longrightarrow> Offsets ! i = Offsets ! j \<longleftrightarrow> i = j"
  by (rule nth_eq_iff_index_eq) (simp_all add: Offsets_def)

lemma run_Write_expected:
  "run_state (Mmu_Write_expected js) w = (r, w') \<Longrightarrow> set js \<subseteq> {1..6} \<Longrightarrow>
     (\<exists>n. st w' = (st w)\<lparr>mmu_Writes := n\<rparr>) \<and> trace_ext staging_write w w' \<and>
     (\<forall>j\<in>set js. last_write (trace w') 1 (Offsets ! j) = Some (mmu_Expected (st w) ! j))"
proof (induction js arbitrary: r w' rule: rev_induct)
  case Nil
  then show ?case by (auto simp: trace_ext_def intro: exI [of _ "mmu_Writes (st w)"])
next
  case (snoc j js)
  have app: "run_state (Mmu_Write_expected (xs @ ys)) w =
      (case run_state (Mmu_Write_expected xs) w of (_, v) \<Rightarrow> run_state (Mmu_Write_expected ys) v)"
    for xs ys w
    by (induction xs arbitrary: w) (auto simp: wp_simps Mmu_Write_def)
  obtain v where v: "run_state (Mmu_Write_expected js) w = ((), v)"
    by (cases "run_state (Mmu_Write_expected js) w") auto
  from snoc.prems have j: "j \<in> {1..6}" and js: "set js \<subseteq> {1..6}" by auto
  obtain n where IH: "st v = (st w)\<lparr>mmu_Writes := n\<rparr>" "trace_ext staging_write w v"
      "\<forall>j\<in>set js. last_write (trace v) 1 (Offsets ! j) = Some (mmu_Expected (st w) ! j)"
    using snoc.IH [OF v js] by blast
  from snoc.prems(1) v IH(1)
  have w': "st w' = (st w)\<lparr>mmu_Writes := n + 1\<rparr>"
    "trace w' = Wr 1 (Offsets ! j) (mmu_Expected (st w) ! j) # trace v"
    by (auto simp: app wp_simps Mmu_Write_def)
  have "trace_ext staging_write v w'" using j by (auto simp: w'(2) trace_ext_def Offsets_staging)
  with IH(2) have ext: "trace_ext staging_write w w'" by (rule ext.frame_trans)
  have "Offsets ! j = Offsets ! i \<longleftrightarrow> j = i" if "i \<in> set js" for i
    using that j js by (intro Offsets_inj) auto
  with IH(3) w' ext show ?case by auto
qed

lemma run_Restore:
  "run_state (Mmu_Restore js) w = (r, w') \<Longrightarrow> set js \<subseteq> {1..6} \<Longrightarrow> mmu_sized (st w) \<Longrightarrow>
     (\<exists>n e. st w' = (st w)\<lparr>mmu_Expected := e, mmu_Writes := n\<rparr> \<and> length e = 9 \<and>
        (\<forall>j < 9. e ! j = (if j \<in> set js then mmu_Baseline (st w) ! 1 ! j
                          else mmu_Expected (st w) ! j))) \<and>
     trace_ext staging_write w w' \<and>
     (\<forall>j\<in>set js. last_write (trace w') 1 (Offsets ! j) = Some (mmu_Baseline (st w) ! 1 ! j))"
proof (induction js arbitrary: r w' rule: rev_induct)
  case Nil
  then show ?case
    by (auto simp: trace_ext_def mmu_sized_def
        intro!: exI [of _ "mmu_Writes (st w)"] exI [of _ "mmu_Expected (st w)"])
next
  case (snoc j js)
  have app: "run_state (Mmu_Restore (xs @ ys)) w =
      (case run_state (Mmu_Restore xs) w of (_, v) \<Rightarrow> run_state (Mmu_Restore ys) v)"
    for xs ys w
    by (induction xs arbitrary: w) (auto simp: wp_simps Mmu_Write_def)
  obtain v where v: "run_state (Mmu_Restore js) w = ((), v)"
    by (cases "run_state (Mmu_Restore js) w") auto
  let ?b = "mmu_Baseline (st w) ! 1 ! j"
  from snoc.prems have j: "j \<in> {1..6}" and js: "set js \<subseteq> {1..6}" by auto
  obtain n e where IH: "st v = (st w)\<lparr>mmu_Expected := e, mmu_Writes := n\<rparr>" "length e = 9"
      "\<forall>j < 9. e ! j = (if j \<in> set js then mmu_Baseline (st w) ! 1 ! j else mmu_Expected (st w) ! j)"
      "trace_ext staging_write w v"
      "\<forall>j\<in>set js. last_write (trace v) 1 (Offsets ! j) = Some (mmu_Baseline (st w) ! 1 ! j)"
    using snoc.IH [OF v js snoc.prems(3)] by blast
  from snoc.prems(1) v IH(1)
  have w': "st w' = (st w)\<lparr>mmu_Expected := e[j := ?b], mmu_Writes := n + 1\<rparr>"
    "trace w' = Wr 1 (Offsets ! j) ?b # trace v"
    by (auto simp: app wp_simps Mmu_Write_def)
  have "trace_ext staging_write v w'"
    using j by (auto simp: w'(2) trace_ext_def Offsets_staging)
  with IH(4) have ext: "trace_ext staging_write w w'" by (rule ext.frame_trans)
  have "Offsets ! j = Offsets ! i \<longleftrightarrow> j = i" if "i \<in> set js" for i
    using that j js by (intro Offsets_inj) auto
  then have "\<forall>i\<in>set (js @ [j]). last_write (trace w') 1 (Offsets ! i) =
      Some (mmu_Baseline (st w) ! 1 ! i)"
    using IH(5) by (auto simp: w'(2))
  with w'(1) IH(2,3) ext j show ?case
    by (intro conjI exI [of _ "n + 1"] exI [of _ "e[j := ?b]"]) (auto simp: nth_list_update)
qed

lemma wp_Write_expected:
  assumes "set js \<subseteq> {1..6}"
    and "\<And>w' n. trace_ext staging_write w w' \<Longrightarrow> st w' = (st w)\<lparr>mmu_Writes := n\<rparr> \<Longrightarrow>
      (\<forall>j\<in>set js. last_write (trace w') 1 (Offsets ! j) = Some (mmu_Expected (st w) ! j)) \<Longrightarrow> Q () w'"
  shows "wp (Mmu_Write_expected js) Q w"
proof (rule wpI)
  fix r w' assume "run_state (Mmu_Write_expected js) w = (r, w')"
  from run_Write_expected [OF this assms(1)] assms(2) show "Q r w'" by auto
qed

lemma wp_Restore:
  assumes "set js \<subseteq> {1..6}" and "mmu_sized (st w)"
    and "\<And>w' n e. trace_ext staging_write w w' \<Longrightarrow>
      st w' = (st w)\<lparr>mmu_Expected := e, mmu_Writes := n\<rparr> \<Longrightarrow> length e = 9 \<Longrightarrow>
      (\<forall>j < 9. e ! j = (if j \<in> set js then mmu_Baseline (st w) ! 1 ! j else mmu_Expected (st w) ! j)) \<Longrightarrow>
      (\<forall>j\<in>set js. last_write (trace w') 1 (Offsets ! j) = Some (mmu_Baseline (st w) ! 1 ! j)) \<Longrightarrow>
      Q () w'"
  shows "wp (Mmu_Restore js) Q w"
proof (rule wpI)
  fix r w' assume "run_state (Mmu_Restore js) w = (r, w')"
  from run_Restore [OF this assms(1,2)] assms(3) show "Q r w'" by auto
qed

lemma inv_Begin:
  assumes "mmu_inv w"
  shows "wp (MmuBegin E table trap) (\<lambda>_. mmu_inv) w"
proof (cases "mmu_Staged (st w) \<noteq> 0 \<or> mmu_Fault (st w) \<noteq> 0")
  case True
  with assms show ?thesis by (simp add: MmuBegin_def wp_simps)
next
  case False
  with assms have idle: "mmu_sized (st w)" "mmu_Active (st w) = 0" "mmu_Staged (st w) = 0"
    "last_write (trace w) 1 0 \<noteq> Some MMU_ACTIVE_CONTROL" "mmu_Fault (st w) = 0"
    by (auto simp: mmu_inv_def)
  have unstaged: "mmu_inv v" if "mmu_sized (st v)" "trace_ext quiet w v"
    "mmu_Active (st v) = 0" "mmu_Staged (st v) = 0" for v
    using that idle by (simp add: mmu_inv_def quiet_last_write)
  show ?thesis
    unfolding MmuBegin_def
    using assms False
    apply (simp add: wp_simps)
    apply (intro impI wp_Snapshot [OF idle(1)]; simp add: wp_simps)
    apply (intro conjI impI wp_any; (rule unstaged; simp add: idle; fail)?)
    apply (simp add: wp_simps)
    apply (intro conjI impI; (rule unstaged; simp add: idle trace_ext_def mmu_sized_def; fail)?)
    apply (rule wp_MmuCheck; simp add: wp_simps)
      apply (rule wp_Write_expected; simp add: wp_simps)
       apply fastforce
      apply (rule wp_mono [OF inv_Invalidate]; (simp add: mmu_usable_def idle)?)
      apply (simp add: mmu_staging_def idle staging_last_write quiet_last_write mmu_stage_def
          mmu_sized_def)
     apply (simp add: mmu_inv_def idle quiet_last_write mmu_sized_def)
    apply (simp add: mmu_usable_def idle)
    done
qed

text \<open>Restoring: the staging registers and the expected row are the baseline again.\<close>

definition mmu_restored :: "MMU_HW world \<Rightarrow> bool" where
  "mmu_restored w \<longleftrightarrow>
     (\<forall>j\<in>{1..6}. last_write (trace w) 1 (Offsets ! j) = Some (mmu_Baseline (st w) ! 1 ! j) \<and>
        mmu_Expected (st w) ! j = mmu_Baseline (st w) ! 1 ! j)"

lemma inv_End:
  assumes "mmu_inv w"
  shows "wp (MmuEnd E) (\<lambda>r w'. mmu_inv w' \<and>
     (r = MmuOk \<longrightarrow> mmu_Staged (st w') = 0 \<and> mmu_restored w' \<and>
        last_write (trace w') 1 0 = Some 0 \<and>
        last_write (trace w') 3 0 = Some (mmu_Cache (st w')) \<and>
        mmu_Baseline (st w') = mmu_Baseline (st w))) w"
  unfolding MmuEnd_def wp_bind
proof (rule wp_mono [OF inv_Invalidate [OF inv_staging [OF assms]]], goal_cases)
  case 1
  then show ?case using assms by simp
next
  case (2 r v)
  show ?case
  proof (cases "r = MmuOk")
    case False
    with 2 show ?thesis by (simp add: wp_simps)
  next
    case True
    with 2 have v: "mmu_inv v" "mmu_usable (st v)" "mmu_core (st v) = mmu_core (st w)" by auto
    then have sized: "mmu_sized (st v)" by (simp add: mmu_inv_def)
    show ?thesis
      using True v(3)
      apply (simp add: wp_simps)
      apply (rule wp_Restore [OF _ sized]; simp add: wp_simps)
       apply fastforce
      subgoal for w' n e
        apply (rule wp_MmuInvalidate; simp add: wp_simps)
        using v(2) sized
          apply (simp add: mmu_inv_def mmu_usable_def mmu_restored_def mmu_sized_def
            mmu_core_def Offsets_nonzero)
        using v sized
         apply (auto simp: mmu_inv_def mmu_usable_def mmu_core_def staging_last_write
            mmu_sized_def)
        done
      done
  qed
qed

lemma inv_Activate: "mmu_inv w \<Longrightarrow> wp (MmuActivate E) (\<lambda>r w'. mmu_inv w' \<and>
    (r = MmuOk \<longrightarrow> mmu_Active (st w') = 1 \<and> mmu_Fault (st w') = 0)) w"
  unfolding MmuActivate_def wp_bind
  by (rule wp_MmuInvalidate)
     (auto simp: wp_simps mmu_inv_def mmu_usable_def mmu_core_def mmu_sized_def intro!: wp_any)

lemma inv_Deactivate:
  assumes "mmu_inv w"
  shows "wp (MmuDeactivate E q) (\<lambda>r w'. mmu_inv w' \<and>
     (r = MmuOk \<longrightarrow> mmu_Active (st w') = 0 \<and> q \<noteq> 0 \<and>
        last_write (trace w') 1 0 = Some 0 \<and> last_write (trace w') 3 0 = Some (mmu_Cache (st w')))) w"
proof (cases "mmu_Active (st w) = 0")
  case True
  with assms show ?thesis by (simp add: MmuDeactivate_def wp_simps)
next
  case active: False
  have cells: "wp (Mmu_Check_cells E ps) Q v"
    if "\<And>b v'. trace_ext quiet v v' \<Longrightarrow> st v' = st v \<Longrightarrow> Q b v'" for ps Q v
    using that by (intro wpI) (blast dest: run_Check_cells)
  show ?thesis
    using assms active unfolding MmuDeactivate_def Let_def
    by (auto simp: wp_simps mmu_inv_def mmu_sized_def quiet_last_write mmu_usable_def mmu_core_def
        intro!: wp_any cells wp_MmuInvalidate)
qed

section \<open>Reachable sessions\<close>

text \<open>Everything a client can reach from a fresh device object, on any hardware.\<close>

inductive mmu_reachable :: "env \<Rightarrow> MMU_HW world \<Rightarrow> bool" for E where
  fresh: "mmu_reachable E \<lparr>st = mmu_zero, trace = []\<rparr>"
| operation: "mmu_reachable E w \<Longrightarrow> run_state (mmu_run_op E p) w = (r, w') \<Longrightarrow> mmu_reachable E w'"

lemma inv_op: "mmu_inv w \<Longrightarrow> run_state (mmu_run_op E p) w = (r, w') \<Longrightarrow> mmu_inv w'"
proof -
  assume inv: "mmu_inv w" and run: "run_state (mmu_run_op E p) w = (r, w')"
  have "wp (mmu_run_op E p) (\<lambda>_. mmu_inv) w"
    using inv inv_Check inv_Begin
      wp_mono [OF inv_Invalidate [OF inv_staging]] wp_mono [OF inv_End] wp_mono [OF inv_Activate]
      wp_mono [OF inv_Deactivate]
    by (cases p) auto
  then show "mmu_inv w'" using run by (rule wpD)
qed

lemma reachable_inv: "mmu_reachable E w \<Longrightarrow> mmu_inv w"
  by (induction rule: mmu_reachable.induct) (auto intro: mmu_inv_init inv_op)

lemma reachable_run:
  "mmu_reachable E w \<Longrightarrow> run_state (mmu_run_ops E ps) w = (rs, w') \<Longrightarrow> mmu_reachable E w'"
proof (induction ps arbitrary: w rs)
  case Nil
  then show ?case by simp
next
  case (Cons p ps)
  obtain r v where p: "run_state (mmu_run_op E p) w = (r, v)" by (cases "run_state (mmu_run_op E p) w")
  obtain rs' v' where ps: "run_state (mmu_run_ops E ps) v = (rs', v')"
    by (cases "run_state (mmu_run_ops E ps) v")
  from Cons.prems(2) p ps have "v' = w'" by simp
  with ps Cons.IH [of v rs'] Cons.prems(1) p show ?case by (auto intro: mmu_reachable.operation)
qed

text \<open>A latched fault stops every operation before it reaches a register.\<close>

lemma faulted_op:
  "mmu_Fault (st w) \<noteq> 0 \<Longrightarrow> wp (mmu_run_op E p) (\<lambda>r w'. r \<noteq> MmuOk \<and>
     mmu_Fault (st w') \<noteq> 0 \<and> mmu_Active (st w') = mmu_Active (st w) \<and>
     mmu_Staged (st w') = mmu_Staged (st w) \<and> trace_ext quiet w w') w"
  by (cases p)
     (auto simp: MmuBegin_def MmuCheck_def MmuInvalidate_def MmuEnd_def MmuActivate_def
       MmuDeactivate_def Let_def wp_simps trace_ext_def intro!: wp_any)

section \<open>The page table\<close>

definition mmu_pte :: "u64 \<Rightarrow> nat \<Rightarrow> u32 \<Rightarrow> u32" where
  "mmu_pte dma i writable =
     (ucast (drop_bit 12 dma) + of_nat i) OR MMU_PTE_VALID OR
     (if writable \<noteq> 0 then MMU_PTE_WRITE else 0)"

definition MmuMap :: "u32 list \<Rightarrow> u32 \<Rightarrow> u64 \<Rightarrow> u32 \<Rightarrow> u32 \<Rightarrow> mmu_result \<times> u32 list" where
  "MmuMap l2 slot dma pages writable =
     (if slot \<ge> MMU_SLOTS \<or> \<not> Mmu_Address dma pages \<or> writable > 1 then (MmuInvalid, l2)
      else let start = unat (slot * MMU_SLOT_PAGES) in
        if list_ex (\<lambda>i. l2 ! (start + i) \<noteq> 0) [0..<unat MMU_SLOT_PAGES] then (MmuBusy, l2)
        else (MmuOk, fold (\<lambda>i t. t[start + 1 + i := mmu_pte dma i writable])
                          [0..<unat pages] l2))"

definition MmuUnmap :: "u32 list \<Rightarrow> u32 \<Rightarrow> u32 \<Rightarrow> mmu_result \<times> u32 list" where
  "MmuUnmap l2 slot pages =
     (if slot \<ge> MMU_SLOTS \<or> pages = 0 \<or> pages > MMU_MAX_PAGES then (MmuInvalid, l2)
      else let start = unat (slot * MMU_SLOT_PAGES) in
        if l2 ! start \<noteq> 0 then (MmuDrift, l2)
        else if list_ex (\<lambda>i. l2 ! (start + i) AND MMU_PTE_VALID = 0) [1..<Suc (unat pages)]
        then (MmuDrift, l2)
        else if list_ex (\<lambda>i. l2 ! (start + i) \<noteq> 0) [unat pages + 1..<unat MMU_SLOT_PAGES]
        then (MmuDrift, l2)
        else (MmuOk, fold (\<lambda>i t. t[start + i := 0]) [1..<Suc (unat pages)] l2))"

definition MmuWalk :: "u32 list \<Rightarrow> u64 \<Rightarrow> u32 \<Rightarrow> mmu_result \<times> u64" where
  "MmuWalk l2 iova write =
     (if write > 1 \<or> iova < MMU_IOVA_BASE \<or>
         iova - MMU_IOVA_BASE \<ge> ucast (MMU_PAGE * MMU_WORDS) then (MmuInvalid, 0)
      else let pte = l2 ! unat (ucast (drop_bit 12 (iova - MMU_IOVA_BASE)) :: u32) in
        if pte AND MMU_PTE_VALID = 0 \<or> write \<noteq> 0 \<and> pte AND MMU_PTE_WRITE = 0
        then (MmuInvalid, 0)
        else (MmuOk, push_bit 12 (ucast (pte AND 0x0fffffff)) OR (iova AND ucast (MMU_PAGE - 1))))"

lemma page_masks: "(0x0fffffff :: u32) = mask 28" "(4095 :: u64) = mask 12"
  by (simp_all add: mask_eq_exp_minus_1)

text \<open>An accepted DMA range in natural numbers: aligned, and below 64 GiB.\<close>

lemma Mmu_Address_nat:
  assumes "Mmu_Address dma pages"
  shows "unat dma mod 4096 = 0" and "unat dma + 4096 * unat pages \<le> 2 ^ 36"
    and "0 < unat pages" and "unat pages \<le> 16"
proof -
  from assms have a: "dma AND mask 12 = 0" "pages \<noteq> 0" "pages \<le> 16" "dma \<le> MMU_DMA_LIMIT"
    "(ucast pages :: u64) * 4096 - 1 \<le> MMU_DMA_LIMIT - dma"
    by (simp_all add: Mmu_Address_def flip: page_masks(2))
  from a(1) have "unat (dma AND mask 12) = 0" by simp
  then show "unat dma mod 4096 = 0" by (simp add: unat_and_mask)
  show p0: "0 < unat pages" using a(2) by (simp add: unat_gt_0)
  show p16: "unat pages \<le> 16" using a(3) by (simp add: word_le_nat_alt)
  have up: "unat (ucast pages :: u64) = unat pages" by (rule unat_ucast_up) simp
  have mul: "unat ((ucast pages :: u64) * 4096) = unat pages * 4096"
    using p16 by (simp add: unat_word_ariths up)
  then have one: "1 \<le> (ucast pages :: u64) * 4096" using p0 by (simp add: word_le_nat_alt)
  have lim: "unat dma \<le> 2 ^ 36 - 1" using a(4) by (simp add: word_le_nat_alt)
  have "unat ((ucast pages :: u64) * 4096 - 1) \<le> unat (MMU_DMA_LIMIT - dma)"
    using a(5) by (simp add: word_le_nat_alt)
  moreover have "unat ((ucast pages :: u64) * 4096 - 1) = unat pages * 4096 - 1"
    using unat_sub [OF one] mul by simp
  moreover have "unat (MMU_DMA_LIMIT - dma) = 2 ^ 36 - 1 - unat dma"
    using unat_sub [OF a(4)] by simp
  ultimately show "unat dma + 4096 * unat pages \<le> 2 ^ 36" using lim p0 by simp
qed

lemma mmu_pte_bits:
  assumes "unat dma div 4096 + i < 2 ^ 28"
  shows "unat (mmu_pte dma i wr AND 0x0fffffff) = unat dma div 4096 + i"
    and "mmu_pte dma i wr AND MMU_PTE_VALID \<noteq> 0"
    and "mmu_pte dma i wr AND MMU_PTE_WRITE = 0 \<longleftrightarrow> wr = 0"
proof -
  define b :: u32 where "b = ucast (drop_bit 12 dma) + of_nat i"
  have "unat (ucast (drop_bit 12 dma) :: u32) = unat dma div 4096"
    using assms by (subst unat_ucast_small) (simp_all add: unat_drop_bit)
  then have b: "unat b = unat dma div 4096 + i"
    using assms by (simp add: b_def unat_add_small unat_of_nat_small)
  then have b28: "b = b AND mask 28" using assms by (simp add: and_mask_small)
  have pte: "mmu_pte dma i wr = b OR MMU_PTE_VALID OR (if wr \<noteq> 0 then MMU_PTE_WRITE else 0)"
    by (simp add: mmu_pte_def b_def)
  have "mmu_pte dma i wr AND 0x0fffffff = b AND mask 28"
    by (simp add: pte word_ao_dist page_masks(1) [symmetric])
  with b28 b show "unat (mmu_pte dma i wr AND 0x0fffffff) = unat dma div 4096 + i" by simp
  have "bit (mmu_pte dma i wr AND MMU_PTE_VALID) 28"
    by (simp add: pte bit_simps)
  then show "mmu_pte dma i wr AND MMU_PTE_VALID \<noteq> 0" by auto
  have "b AND MMU_PTE_WRITE = b AND (mask 28 AND MMU_PTE_WRITE)"
    by (subst b28) (simp only: ac_simps)
  then have "b AND MMU_PTE_WRITE = 0" by (simp add: page_masks(1) [symmetric])
  then show "mmu_pte dma i wr AND MMU_PTE_WRITE = 0 \<longleftrightarrow> wr = 0"
    by (simp add: pte word_ao_dist)
qed

text \<open>The aperture address of byte \<open>off\<close> of page \<open>n\<close> of a slot; pages 0 and
  beyond the allocation are guards.\<close>

definition mmu_iova :: "u32 \<Rightarrow> nat \<Rightarrow> nat \<Rightarrow> u64" where
  "mmu_iova slot n off = MMU_IOVA_BASE + of_nat ((unat slot * 18 + n) * 4096 + off)"

lemma MmuWalk_index:
  assumes "N < 1024" and "off < 4096" and "write \<le> 1"
  shows "MmuWalk l2 (MMU_IOVA_BASE + of_nat (N * 4096 + off)) write =
    (if l2 ! N AND MMU_PTE_VALID = 0 \<or> write \<noteq> 0 \<and> l2 ! N AND MMU_PTE_WRITE = 0
     then (MmuInvalid, 0)
     else (MmuOk, push_bit 12 (ucast (l2 ! N AND 0x0fffffff)) OR of_nat off))"
proof -
  define x :: u64 where "x = of_nat (N * 4096 + off)"
  have x: "unat x = N * 4096 + off" "unat x < 4194304"
    using assms unfolding x_def by (subst unat_of_nat_small; simp)+
  have sub: "MMU_IOVA_BASE + x - MMU_IOVA_BASE = x" by simp
  have base: "unat (MMU_IOVA_BASE + x) = unat MMU_IOVA_BASE + unat x"
    using x(2) by (intro unat_add_small) simp
  then have ge: "\<not> MMU_IOVA_BASE + x < MMU_IOVA_BASE" by (simp add: word_less_nat_alt)
  have lt: "\<not> ucast (MMU_PAGE * MMU_WORDS) \<le> x" using x(2) by (simp add: word_le_nat_alt)
  have idx: "unat (ucast (drop_bit 12 x) :: u32) = N"
    using x assms(1,2) by (subst unat_ucast_small) (simp_all add: unat_drop_bit)
  have "(0xa00000000 + (N * 4096 + off)) mod 4096 = off"
    using assms(2) by (simp add: mod_add_eq [symmetric, of "0xa00000000"])
  then have "unat ((MMU_IOVA_BASE + x) AND mask 12) = off"
    by (simp add: unat_and_mask base x(1))
  then have "(MMU_IOVA_BASE + x) AND mask 12 = of_nat off" by (rule unat_eq_of_nat)
  then have low: "(MMU_IOVA_BASE + x) AND ucast (MMU_PAGE - 1) = of_nat off"
    by (simp add: page_masks(2) [symmetric])
  show ?thesis
    using assms(3) ge lt
    by (simp only: MmuWalk_def x_def [symmetric] sub Let_def idx low) (auto simp: not_less)
qed

lemma pte_translation:
  assumes "Mmu_Address dma pages" and "i < unat pages" and "off < 4096"
  shows "push_bit 12 (ucast (mmu_pte dma i wr AND 0x0fffffff)) OR of_nat off =
    dma + of_nat (i * 4096 + off)" (is "?p OR _ = _")
proof -
  note a = Mmu_Address_nat [OF assms(1)]
  have small: "unat dma div 4096 + i < 2 ^ 28" using a(2) assms(2) by simp
  define u :: u64 where "u = ucast (mmu_pte dma i wr AND 0x0fffffff)"
  have u: "unat u = unat dma div 4096 + i"
    unfolding u_def by (subst unat_ucast_up) (simp_all add: mmu_pte_bits(1) [OF small])
  have p: "unat (push_bit 12 u) = unat dma + i * 4096"
  proof -
    have "unat dma div 4096 * 4096 = unat dma" using a(1) by (simp add: mod_eq_0_iff_dvd)
    then have "unat u * 4096 = unat dma + i * 4096" by (simp add: u algebra_simps)
    moreover have "unat dma + i * 4096 < 2 ^ 64" using a(2) assms(2) by simp
    ultimately show ?thesis by (subst unat_push_bit) simp_all
  qed
  have "push_bit 12 u AND of_nat off = 0"
  proof -
    have off: "of_nat off = (of_nat off :: u64) AND mask 12"
      using assms(3) by (subst and_mask_small) (simp_all add: unat_of_nat_small)
    have "push_bit 12 u AND mask 12 = 0"
      using a(1) by (simp add: and_mask_eq_0 p mod_add_eq [symmetric] del: push_bit_and)
    then show ?thesis by (subst off) (metis and.assoc and.commute and_zero_eq)
  qed
  then have "push_bit 12 u OR of_nat off = push_bit 12 u + of_nat off" by (rule or_as_add)
  also have "\<dots> = dma + of_nat (i * 4096 + off)"
    using unat_eq_of_nat [OF p] by simp
  finally show ?thesis by (simp add: u_def)
qed

lemma MmuMap_ok:
  assumes "MmuMap l2 slot dma pages wr = (MmuOk, l2')"
  shows "unat slot < 16" and "Mmu_Address dma pages" and "wr \<le> 1"
    and "\<forall>i<18. l2 ! (unat slot * 18 + i) = 0"
    and "l2' = fold (\<lambda>i t. t[Suc (unat slot * 18) + i := mmu_pte dma i wr]) [0..<unat pages] l2"
proof -
  show s: "unat slot < 16" and "Mmu_Address dma pages" and "wr \<le> 1"
    using assms
    by (auto simp: MmuMap_def word_le_nat_alt not_le not_less Let_def split: if_splits)
  have start: "unat (slot * MMU_SLOT_PAGES) = unat slot * 18" using s by (simp add: unat_word_ariths)
  show "\<forall>i<18. l2 ! (unat slot * 18 + i) = 0"
    and "l2' = fold (\<lambda>i t. t[Suc (unat slot * 18) + i := mmu_pte dma i wr]) [0..<unat pages] l2"
    using assms by (auto simp: MmuMap_def start list_ex_iff Let_def split: if_splits)
qed

lemma nth_MmuMap:
  assumes "MmuMap l2 slot dma pages wr = (MmuOk, l2')" and "k < length l2"
  shows "l2' ! k = (if Suc (unat slot * 18) \<le> k \<and> k < Suc (unat slot * 18) + unat pages
     then mmu_pte dma (k - Suc (unat slot * 18)) wr else l2 ! k)"
  using nth_fold_upd [of 0 "unat pages" k l2 "Suc (unat slot * 18)" "\<lambda>i. mmu_pte dma i wr"] assms(2)
  by (simp only: MmuMap_ok(5) [OF assms(1)]) simp

lemma nth_MmuUnmap_loop:
  "k < length l \<Longrightarrow> fold (\<lambda>i t. t[a + i := 0]) [Suc 0..<Suc p] l ! k =
     (if a < k \<and> k \<le> a + p then 0 else l ! k)"
  using nth_fold_upd [of "Suc 0" "Suc p" k l a "\<lambda>_. 0"] by (auto simp: Suc_le_eq less_Suc_eq_le)

lemma slot_page: "unat slot < 16 \<Longrightarrow> n < 18 \<Longrightarrow> unat slot * 18 + n < 288" for slot :: u32
  by simp

section \<open>A session on working hardware\<close>

text \<open>On a plain register file a check succeeds as soon as the registers match, and an
  invalidation leaves them as they were.\<close>

definition mmu_match :: "(u32 \<Rightarrow> u32 \<Rightarrow> u32) \<Rightarrow> MMU_HW world \<Rightarrow> bool" where
  "mmu_match init w \<longleftrightarrow> mmu_usable (st w) \<and> regs init (trace w) 3 0 = mmu_Cache (st w) \<and>
     (\<forall>(i, j)\<in>set mmu_cells. regs init (trace w) (of_nat i) (Offsets ! j) = mmu_expected_at (st w) i j)"

lemma mmu_match_cong:
  assumes "mmu_match init w" and "regs init (trace w') = regs init (trace w)"
    and "mmu_core (st w') = mmu_core (st w)" and "mmu_Fault (st w') = mmu_Fault (st w)"
  shows "mmu_match init w'"
proof -
  have "mmu_expected_at (st w') i j = mmu_expected_at (st w) i j" for i j
    using assms(3) by (simp add: mmu_core_def mmu_expected_at_def)
  with assms show ?thesis by (simp add: mmu_match_def mmu_usable_def mmu_core_def)
qed

lemma wp_Check_cells_regfile:
  "(\<forall>(i, j)\<in>set ps. regs init (trace w) (of_nat i) (Offsets ! j) = mmu_expected_at (st w) i j) \<Longrightarrow>
   (\<And>w'. st w' = st w \<Longrightarrow> regs init (trace w') = regs init (trace w) \<Longrightarrow> Q True w') \<Longrightarrow>
   wp (Mmu_Check_cells (regfile init calls) ps) Q w"
proof (induction ps arbitrary: w)
  case Nil
  then show ?case by (simp add: wp_simps)
next
  case (Cons p ps)
  obtain i j where p: "p = (i, j)" by (cases p)
  from Cons.prems(1) show ?case
    unfolding p by (auto simp: wp_simps wp_io_read intro!: Cons.IH Cons.prems(2))
qed

lemma wp_MmuCheck_regfile:
  assumes "mmu_match init w"
    and "\<And>w'. st w' = st w \<Longrightarrow> regs init (trace w') = regs init (trace w) \<Longrightarrow> Q MmuOk w'"
  shows "wp (MmuCheck (regfile init calls)) Q w"
  using assms
  by (auto simp: MmuCheck_def mmu_match_def mmu_usable_def wp_simps wp_io_read
      intro!: wp_Check_cells_regfile)

lemma wp_Mmu_Poll_regfile:
  assumes "regs init (trace w) u 0 AND m = 0"
    and "\<And>w'. st w' = st w \<Longrightarrow> regs init (trace w') = regs init (trace w) \<Longrightarrow> Q MmuOk w'"
  shows "wp (Mmu_Poll (regfile init calls) u m) Q w"
proof -
  have "wp (Mmu_Poll_loop (regfile init calls) (Suc n) u m)
      (\<lambda>r. wp (if r then ret MmuOk else Mmu_Fault MmuTimeout) Q) w" for n
    using assms by (simp add: wp_simps wp_io_read)
  from this [of 999] show ?thesis by (simp add: Mmu_Poll_def wp_bind del: Mmu_Poll_loop.simps)
qed

lemma cells_control: "(1, 0) \<in> set mmu_cells"
  by (simp add: mmu_cells_def)

lemma wp_MmuInvalidate_regfile:
  assumes match: "mmu_match init w" and "mmu_Cache (st w) AND 6 = 0" and "mmu_Expected (st w) ! 0 = 0"
    and Q: "\<And>w' n m. st w' = (st w)\<lparr>mmu_Writes := n, mmu_Flushes := m\<rparr> \<Longrightarrow>
      regs init (trace w') = regs init (trace w) \<Longrightarrow> Q MmuOk w'"
  shows "wp (MmuInvalidate (regfile init calls)) Q w"
proof -
  have cur: "regs init (trace w) 3 0 = mmu_Cache (st w)" "regs init (trace w) 1 0 = 0"
    using match cells_control assms(3)
    by (auto simp: mmu_match_def mmu_expected_at_def Offsets_def dest!: bspec)
  have "mmu_Cache (st w) AND 4 = (mmu_Cache (st w) AND 6) AND 4" by (simp add: and.assoc)
  then have cache: "(mmu_Cache (st w) OR 3) AND 4 = 0" using assms(2) by (simp add: word_ao_dist)
  have same: "(regs init (trace w)) (3 := (regs init (trace w) 3)(0 := mmu_Cache (st w)),
      1 := (regs init (trace w) 1)(0 := 0)) = regs init (trace w)"
    using cur by (auto simp: fun_eq_iff)
  show ?thesis
    unfolding MmuInvalidate_def wp_simps
    apply (rule wp_MmuCheck_regfile [OF match])
    apply (simp add: wp_simps)
    apply (rule wp_Mmu_Poll_regfile; simp add: wp_simps cache)
    apply (rule wp_Mmu_Poll_regfile; simp add: wp_simps)
    apply (rule wp_MmuCheck_regfile)
    subgoal using same by (auto intro: mmu_match_cong [OF match] simp: mmu_core_def)
    subgoal using same by (simp add: wp_simps Q)
    done
qed

text \<open>The hardware before a session: the units are idle, the debug register announces the
  expected core, and the shared cache is neither flushing nor busy.\<close>

definition mmu_idle :: "(u32 \<Rightarrow> u32 \<Rightarrow> u32) \<Rightarrow> bool" where
  "mmu_idle init \<longleftrightarrow> init 0 0 = 0 \<and> init 1 0 = 0 \<and> init 2 0 = 0 \<and>
     mmu_debug_ok (init 1 0x38) \<and> init 3 0 AND 6 = 0"

text \<open>The registers outside the staging set, with translation off or on.\<close>

definition mmu_outside :: "(u32 \<Rightarrow> u32 \<Rightarrow> u32) \<Rightarrow> bool \<Rightarrow> u32 \<Rightarrow> u32 \<Rightarrow> u32" where
  "mmu_outside init act u off =
     (if act \<and> u = 1 \<and> off = 0 then MMU_ACTIVE_CONTROL
      else if act \<and> u = 3 \<and> off = 0 then init 3 0 OR 1 else init u off)"

definition mmu_session :: "(u32 \<Rightarrow> u32 \<Rightarrow> u32) \<Rightarrow> bool \<Rightarrow> MMU_HW world \<Rightarrow> bool" where
  "mmu_session init act w \<longleftrightarrow> mmu_sized (st w) \<and>
     mmu_Fault (st w) = 0 \<and> mmu_Staged (st w) \<noteq> 0 \<and> (mmu_Active (st w) \<noteq> 0 \<longleftrightarrow> act) \<and>
     mmu_Cache (st w) = init 3 0 \<and>
     (\<forall>i<3. \<forall>j<9. mmu_Baseline (st w) ! i ! j = init (of_nat i) (Offsets ! j)) \<and>
     (\<forall>j\<in>{1..6}. regs init (trace w) 1 (Offsets ! j) = mmu_Expected (st w) ! j) \<and>
     (\<forall>j<9. j \<notin> {1..6} \<longrightarrow> mmu_Expected (st w) ! j = mmu_Baseline (st w) ! 1 ! j) \<and>
     (\<forall>u off. u \<noteq> 1 \<or> off \<notin> staging_offsets \<longrightarrow>
        regs init (trace w) u off = mmu_outside init act u off)"

lemma Offsets_unstaged: "j < 9 \<Longrightarrow> j \<notin> {1..6} \<Longrightarrow> Offsets ! j \<notin> staging_offsets"
  by (auto simp: staging_offsets_def Offsets_inj)

lemma session_cell:
  assumes "mmu_session init act w" and "i < 3" "j < 9" and "act \<Longrightarrow> (i, j) \<noteq> (1, 0)"
  shows "regs init (trace w) (of_nat i) (Offsets ! j) = mmu_expected_at (st w) i j"
proof (cases "i = 1 \<and> j \<in> {1..6}")
  case True
  with assms(1) show ?thesis by (simp add: mmu_session_def mmu_expected_at_def)
next
  case False
  have i: "(of_nat i :: u32) = 1 \<longleftrightarrow> i = 1" "(of_nat i :: u32) \<noteq> 3"
  proof -
    have "i = 0 \<or> i = 1 \<or> i = 2" using assms(2) by auto
    then show "(of_nat i :: u32) = 1 \<longleftrightarrow> i = 1" "(of_nat i :: u32) \<noteq> 3" by auto
  qed
  have zero: "Offsets ! j = 0 \<longleftrightarrow> j = 0"
    using Offsets_inj [of j 0] assms(3) by (simp add: Offsets_def)
  have out: "of_nat i \<noteq> (1 :: u32) \<or> Offsets ! j \<notin> staging_offsets"
    using False Offsets_unstaged [OF assms(3)] i by blast
  have "regs init (trace w) (of_nat i) (Offsets ! j) = init (of_nat i) (Offsets ! j)"
    using assms(1,4) out i zero by (auto simp: mmu_session_def mmu_outside_def)
  with False assms(1-3) show ?thesis by (auto simp: mmu_session_def mmu_expected_at_def)
qed

lemma session_match: "mmu_session init False w \<Longrightarrow> mmu_match init w"
  using session_cell [of init False w]
  by (auto simp: mmu_match_def mmu_cells_def mmu_usable_def mmu_session_def mmu_outside_def)

lemma session_cong:
  assumes "mmu_session init act w" and "regs init (trace w') = regs init (trace w)"
    and "mmu_core (st w') = mmu_core (st w)" and "mmu_Fault (st w') = mmu_Fault (st w)"
  shows "mmu_session init act w'"
  using assms by (simp add: mmu_session_def mmu_core_def mmu_sized_def)

lemma wp_Invalidate_session:
  assumes w: "mmu_session init False w" and "mmu_idle init"
    and Q: "\<And>w'. mmu_session init False w' \<Longrightarrow> mmu_core (st w') = mmu_core (st w) \<Longrightarrow>
      regs init (trace w') = regs init (trace w) \<Longrightarrow> Q MmuOk w'"
  shows "wp (MmuInvalidate (regfile init calls)) Q w"
proof (rule wp_MmuInvalidate_regfile [OF session_match [OF w]])
  show "mmu_Cache (st w) AND 6 = 0" "mmu_Expected (st w) ! 0 = 0"
    using w assms(2) by (auto simp: mmu_session_def mmu_idle_def Offsets_def)
next
  fix w' :: "MMU_HW world" and n m :: u32
  assume s: "st w' = (st w)\<lparr>mmu_Writes := n, mmu_Flushes := m\<rparr>"
    and r: "regs init (trace w') = regs init (trace w)"
  then show "Q MmuOk w'" by (intro Q session_cong [OF w]) (simp_all add: mmu_core_def)
qed

lemma wp_Read_row_regfile:
  "i < length (mmu_Baseline (st w)) \<Longrightarrow>
   (\<And>w'. st w' = (st w)\<lparr>mmu_Baseline := (mmu_Baseline (st w))
        [i := fold (\<lambda>j row. row[0 + j := regs init (trace w) (of_nat i) (Offsets ! j)]) js
          (mmu_Baseline (st w) ! i)]\<rparr> \<Longrightarrow>
      regs init (trace w') = regs init (trace w) \<Longrightarrow> Q () w') \<Longrightarrow>
   wp (Mmu_Read_row (regfile init calls) i js) Q w"
proof (induction js arbitrary: w)
  case Nil
  then show ?case by (simp add: wp_simps)
next
  case (Cons j js)
  then show ?case by (simp add: wp_simps wp_io_read)
qed

lemma wp_Snapshot_regfile:
  "mmu_sized (st w) \<Longrightarrow> \<forall>i\<in>set is. i < 3 \<and> init (of_nat i) 0 = 0 \<Longrightarrow> regs init (trace w) = init \<Longrightarrow>
   (\<And>w' base. st w' = (st w)\<lparr>mmu_Baseline := base\<rparr> \<Longrightarrow> mmu_sized (st w') \<Longrightarrow>
      regs init (trace w') = init \<Longrightarrow>
      (\<forall>i<3. \<forall>j<9. base ! i ! j = (if i \<in> set is then init (of_nat i) (Offsets ! j)
         else mmu_Baseline (st w) ! i ! j)) \<Longrightarrow> Q True w') \<Longrightarrow>
   wp (Mmu_Snapshot (regfile init calls) is) Q w"
proof (induction "is" arbitrary: w)
  case Nil
  have "Q True w" using Nil.prems(1,3) by (intro Nil.prems(4) [of w "mmu_Baseline (st w)"]) simp_all
  then show ?case by (simp add: wp_simps)
next
  case (Cons i js)
  let ?B = "mmu_Baseline (st w)"
  let ?row = "fold (\<lambda>j row. row[0 + j := init (of_nat i) (Offsets ! j)]) [0..<9] (?B ! i)"
  have B: "length ?B = 3" "length (?B ! i) = 9" and i: "i < 3"
    using Cons.prems(1,2) by (auto simp: mmu_sized_def)
  have row: "length ?row = 9" "\<forall>j<9. ?row ! j = init (of_nat i) (Offsets ! j)"
    using nth_fold_upd [of 0 9 _ "?B ! i" 0 "\<lambda>j. init (of_nat i) (Offsets ! j)"]
    by (simp_all add: B length_fold_upd [where f = "\<lambda>j. 0 + j", simplified] del: upt_Suc)
  show ?case
    apply (simp only: Mmu_Snapshot.simps wp_bind)
    apply (rule wp_Read_row_regfile)
    subgoal using B i by simp
    subgoal premises p for v
    proof -
      have sized: "mmu_sized (st v)"
        using Cons.prems(1) row(1) p
        by (auto simp: mmu_sized_def Cons.prems(3) dest!: set_update_subset_insert [THEN subsetD])
      have z: "mmu_Baseline (st v) ! i ! 0 = 0"
        using p row(2) B i Cons.prems(2,3) by (simp add: Offsets_def)
      show ?thesis
        using z apply (simp add: wp_simps)
        apply (rule Cons.IH [OF sized])
        subgoal using Cons.prems(2) by simp
        subgoal using p Cons.prems(3) by simp
        subgoal for w' base
          apply (rule Cons.prems(4) [of w' base])
          using p row(2) B i Cons.prems(3) by (auto simp: nth_list_update)
        done
    qed
    done
qed

lemma staging_regs:
  "trace_ext staging_write w w' \<Longrightarrow> u \<noteq> 1 \<or> off \<notin> staging_offsets \<Longrightarrow>
     regs init (trace w') u off = regs init (trace w) u off"
  by (rule regs_cong) (rule staging_last_write)

lemma regs_written: "last_write t u off = Some v \<Longrightarrow> regs init t u off = v"
  by (simp add: regs_last_write)

lemma length_mmu_stage [simp]: "length (mmu_stage table trap debug e) = length e"
  by (simp add: mmu_stage_def)

lemma mem_mmu_cells: "(\<forall>(i, j)\<in>set mmu_cells. P i j) \<longleftrightarrow> (\<forall>i<3. \<forall>j<9. P i j)"
  unfolding mmu_cells_def set_product set_upt by auto

lemma nth_mmu_stage:
  "length e = 9 \<Longrightarrow> j < 9 \<Longrightarrow> j \<notin> {1..6} \<Longrightarrow> mmu_stage table trap debug e ! j = e ! j"
  by (auto simp: mmu_stage_def nth_list_update)

lemma session_Begin:
  assumes idle: "mmu_idle init" and args: "Mmu_Address table 1" "Mmu_Address trap 1"
      "\<not> table < drop_bit 20 MMU_IOVA_BASE"
    and w: "mmu_sized (st w)" "mmu_Staged (st w) = 0" "mmu_Fault (st w) = 0" "mmu_Active (st w) = 0"
      "regs init (trace w) = init"
  shows "wp (MmuBegin (regfile init calls) table trap)
    (\<lambda>r w'. r = MmuOk \<and> mmu_session init False w') w"
proof -
  let ?Q = "\<lambda>r w'. r = MmuOk \<and> mmu_session init False w'"
  have start: "mmu_match init v" if "mmu_sized (st v)" "st v = (st w)\<lparr>mmu_Baseline := base, mmu_Expected := base ! 1,
      mmu_Cache := init 3 0, mmu_Staged := 1\<rparr>" "regs init (trace v) = init"
      "\<forall>i<3. \<forall>j<9. base ! i ! j = init (of_nat i) (Offsets ! j)" for v base
    using that w by (simp add: mmu_match_def mmu_usable_def mem_mmu_cells mmu_expected_at_def)
  have ready: "mmu_session init False v" if sz: "mmu_sized (st w\<lparr>mmu_Baseline := base,
        mmu_Cache := init 3 0, mmu_Expected := base ! Suc 0, mmu_Staged := 1\<rparr>)"
      and base: "\<forall>i<3. \<forall>j<9. base ! i ! j = init (of_nat i) (Offsets ! j)"
      and v: "st v = (st w)\<lparr>mmu_Baseline := base, mmu_Cache := init 3 0, mmu_Staged := 1,
         mmu_Expected := mmu_stage table trap debug (base ! Suc 0), mmu_Writes := n\<rparr>"
      and ext: "trace_ext staging_write u v" and u: "regs init (trace u) = init"
      and wr: "\<forall>j\<in>{Suc 0..<7}. last_write (trace v) 1 (Offsets ! j) =
        Some (mmu_stage table trap debug (base ! Suc 0) ! j)"
    for u v base debug n
  proof -
    have "{1..6} = {Suc 0..<7}" by auto
    then have wr': "regs init (trace v) 1 (Offsets ! j) = mmu_stage table trap debug (base ! Suc 0) ! j"
      if "j \<in> {1..6}" for j using wr that regs_written by blast
    have out: "regs init (trace v) x off = init x off" if "x \<noteq> 1 \<or> off \<notin> staging_offsets" for x off
      using staging_regs [OF ext that, of init] u by simp
    show ?thesis
      unfolding mmu_session_def using sz base w(2-4)
      by (simp add: v wr' out mmu_outside_def nth_mmu_stage) (simp add: mmu_sized_def nth_mmu_stage)
  qed
  show ?thesis
    unfolding MmuBegin_def wp_simps
    using args w apply simp
    apply (rule wp_Snapshot_regfile)
    subgoal by simp
    subgoal using idle by (auto simp: mmu_idle_def less_Suc_eq numeral_eq_Suc)
    subgoal by simp
    subgoal premises p for v base
    proof -
      have sz: "mmu_sized (st w\<lparr>mmu_Baseline := base, mmu_Cache := init 3 0,
          mmu_Expected := base ! Suc 0, mmu_Staged := 1\<rparr>)"
        using p by (simp add: mmu_sized_def)
      show ?thesis
        using p idle
        apply (simp add: wp_simps wp_io_read mmu_idle_def Offsets_def [THEN arg_cong [where f = "\<lambda>l. l ! 8"]])
        apply (rule wp_MmuCheck_regfile)
        subgoal using sz by (intro start [of _ base]) simp_all
        subgoal for u
          apply simp
          apply (rule wp_Write_expected)
          subgoal by (simp add: subset_iff)
          subgoal for v' n
            apply (rule wp_Invalidate_session [OF _ idle])
            subgoal using sz p by (rule_tac ready) (assumption | simp)+
            subgoal by simp
            done
          done
        done
    qed
    done
qed

lemma wp_Check_cells:
  "(\<And>b v'. trace_ext quiet w v' \<Longrightarrow> st v' = st w \<Longrightarrow> Q b v') \<Longrightarrow> wp (Mmu_Check_cells E ps) Q w"
  by (rule wpI) (blast dest: run_Check_cells)

lemma session_outside:
  "mmu_session init act w \<Longrightarrow> u \<noteq> 1 \<or> off \<notin> staging_offsets \<Longrightarrow>
     regs init (trace w) u off = mmu_outside init act u off"
  by (simp add: mmu_session_def)

lemma session_toggle:
  assumes "mmu_session init b w" and "st w' = (st w)\<lparr>mmu_Active := a, mmu_Writes := n,
      mmu_FaultFlags := f, mmu_ViolationAddress := x, mmu_Hits := h, mmu_Misses := m, mmu_Stalls := y\<rparr>"
    and "a \<noteq> 0 \<longleftrightarrow> act"
    and "regs init (trace w') = (regs init (trace w))
      (1 := (regs init (trace w) 1)(0 := mmu_outside init act 1 0),
       3 := (regs init (trace w) 3)(0 := mmu_outside init act 3 0))"
  shows "mmu_session init act w'"
proof -
  have nz: "Offsets ! j \<noteq> 0" if "j \<in> {1..6}" for j using Offsets_nonzero [OF that] .
  have out: "mmu_outside init b u off = mmu_outside init act u off"
    if "u \<noteq> 1 \<or> off \<noteq> 0" "u \<noteq> 3 \<or> off \<noteq> 0" for u off
    using that by (auto simp: mmu_outside_def)
  show ?thesis
    using assms(1,3) nz out unfolding mmu_session_def
    by (auto simp: assms(2,4) mmu_sized_def)
qed

lemma session_Activate:
  assumes w: "mmu_session init False w" and idle: "mmu_idle init"
  shows "wp (MmuActivate (regfile init calls)) (\<lambda>r w'. r = MmuOk \<and> mmu_session init True w') w"
  unfolding MmuActivate_def wp_simps
  apply (rule wp_Invalidate_session [OF w idle])
  subgoal for v
    apply (simp add: wp_simps wp_io_read)
    apply (rule session_toggle [where w = v and a = 1 and n = "mmu_Writes (st v) + 1 + 1"
      and f = "mmu_FaultFlags (st v)" and x = "mmu_ViolationAddress (st v)" and h = "mmu_Hits (st v)"
      and m = "mmu_Misses (st v)" and y = "mmu_Stalls (st v)"])
       apply assumption
      apply simp
     apply simp
    by (simp add: mmu_outside_def mmu_session_def fun_upd_twist)
  done

lemma wp_stop_cells_regfile:
  assumes "mmu_session init True w"
    and "\<And>w'. st w' = st w \<Longrightarrow> regs init (trace w') = regs init (trace w) \<Longrightarrow> Q True w'"
  shows "wp (Mmu_Check_cells (regfile init calls) (mmu_stop_cells 0)) Q w"
proof (rule wp_Check_cells_regfile)
  show "\<forall>(i, j)\<in>set (mmu_stop_cells 0). regs init (trace w) (of_nat i) (Offsets ! j) = mmu_expected_at (st w) i j"
    using session_cell [OF assms(1)] unfolding mmu_stop_cells_def mmu_cells_def set_filter set_product set_upt
    by auto
qed (rule assms(2))

lemma session_Deactivate:
  assumes w: "mmu_session init True w" and idle: "mmu_idle init" and "q \<noteq> 0"
  shows "wp (MmuDeactivate (regfile init calls) q)
    (\<lambda>r w'. r = MmuOk \<and> mmu_session init False w') w"
proof -
  have cur: "regs init (trace w) 1 0 = MMU_ACTIVE_CONTROL" "regs init (trace w) 3 0 = mmu_Cache (st w) OR 1"
    "mmu_Cache (st w) = init 3 0" "mmu_Active (st w) \<noteq> 0" "mmu_Fault (st w) = 0" "init 1 0 = 0"
    using w idle by (simp_all add: mmu_session_def mmu_outside_def mmu_idle_def)
  show ?thesis
    using cur assms(3) unfolding MmuDeactivate_def wp_simps Let_def
    apply (simp add: wp_simps wp_io_read)
    apply (rule wp_stop_cells_regfile)
    subgoal by (rule session_cong [OF w]) (simp_all add: mmu_core_def)
    subgoal for v
      apply (simp add: wp_simps wp_io_read)
      apply (rule wp_Invalidate_session [OF _ idle])
       apply (rule session_toggle [OF w, where a = 0 and n = "mmu_Writes (st w) + 1 + 1"
         and f = 0 and x = "regs init (trace w) 1 52" and h = "regs init (trace w) 1 8"
         and m = "regs init (trace w) 1 12" and y = "regs init (trace w) 1 16"])
         apply (simp_all add: mmu_outside_def)
      done
    done
qed

lemma session_End:
  assumes w: "mmu_session init False w" and idle: "mmu_idle init"
  shows "wp (MmuEnd (regfile init calls)) (\<lambda>r w'. r = MmuOk \<and> regs init (trace w') = init \<and>
    mmu_Staged (st w') = 0 \<and> mmu_Fault (st w') = 0 \<and> mmu_Active (st w') = 0) w"
  unfolding MmuEnd_def wp_simps
  apply (rule wp_Invalidate_session [OF w idle])
  apply simp
  apply (rule wp_Restore)
  subgoal by (simp add: subset_iff)
  subgoal by (simp add: mmu_session_def)
  subgoal premises p for v v' n e
  proof -
    have all: "regs init (trace v') u off = init u off" for u off
    proof (cases "u = 1 \<and> off \<in> staging_offsets")
      case True
      then obtain j where j: "j \<in> {1..6}" "off = Offsets ! j" by (auto simp: staging_offsets_def)
      then have "last_write (trace v') 1 off = Some (mmu_Baseline (st v) ! 1 ! j)"
        using p(8) by auto
      then show ?thesis using True j p(1) by (auto simp: regs_written mmu_session_def)
    next
      case False
      then have "u \<noteq> 1 \<or> off \<notin> staging_offsets" by blast
      then show ?thesis
        using staging_regs [OF p(4)] session_outside [OF p(1)] by (simp add: mmu_outside_def)
    qed
    have s: "mmu_session init False v'"
      using p(1,5-7) unfolding mmu_session_def
      by (auto simp: all mmu_sized_def mmu_outside_def)
    show ?thesis
      apply (rule wp_Invalidate_session [OF s idle])
      using all by (auto simp: wp_simps mmu_session_def fun_eq_iff mmu_core_def)
  qed
  done

section \<open>Properties\<close>

text \<open>C2. After a successful \<open>MmuMap\<close> of a zero slot, \<open>MmuWalk\<close> translates exactly the
  mapped pages of the slot, page \<open>n\<close> to the \<open>n\<close>-th page of the DMA range and byte by byte,
  grants write access only to a writable mapping, and refuses both guard pages and the rest of
  a short allocation.\<close>

theorem mmu_map_walk:
  assumes "length l2 = 1024" and "MmuMap l2 slot dma pages wr = (MmuOk, l2')"
    and "n < 18" and "off < 4096" and "write \<le> 1"
  shows "MmuWalk l2' (mmu_iova slot n off) write =
    (if 1 \<le> n \<and> n \<le> unat pages \<and> (write = 0 \<or> wr \<noteq> 0)
     then (MmuOk, dma + of_nat ((n - 1) * 4096 + off)) else (MmuInvalid, 0))"
proof -
  note ok = MmuMap_ok [OF assms(2)]
  have walk: "unat slot * 18 + n < 1024 \<Longrightarrow> MmuWalk l2' (mmu_iova slot n off) write =
      (let pte = l2' ! (unat slot * 18 + n) in
       if pte AND MMU_PTE_VALID = 0 \<or> write \<noteq> 0 \<and> pte AND MMU_PTE_WRITE = 0 then (MmuInvalid, 0)
       else (MmuOk, push_bit 12 (ucast (pte AND 0x0fffffff)) OR of_nat off))"
    using assms(4,5) by (simp only: mmu_iova_def Let_def MmuWalk_index)
  have idx: "unat slot * 18 + n < length l2" using slot_page [OF ok(1) assms(3)] assms(1) by simp
  show ?thesis
  proof (cases "1 \<le> n \<and> n \<le> unat pages")
    case True
    then obtain i where n: "n = Suc i" and i: "i < unat pages" by (cases n) auto
    then have pte: "l2' ! (unat slot * 18 + n) = mmu_pte dma i wr"
      using nth_MmuMap [OF assms(2) idx] by auto
    have "unat dma div 4096 \<le> 2 ^ 36 div 4096"
      using Mmu_Address_nat(2) [OF ok(2)] by (intro div_le_mono) simp
    then have small: "unat dma div 4096 + i < 2 ^ 28"
      using Mmu_Address_nat(4) [OF ok(2)] i by simp
    have "MmuWalk l2' (mmu_iova slot n off) write =
        (if write \<noteq> 0 \<and> wr = 0 then (MmuInvalid, 0) else (MmuOk, dma + of_nat (i * 4096 + off)))"
      using idx assms(1) mmu_pte_bits(2,3) [OF small, of wr] pte_translation [OF ok(2) i assms(4), of wr]
      by (simp only: walk Let_def pte) simp
    with i show ?thesis by (auto simp: n)
  next
    case False
    then have "l2' ! (unat slot * 18 + n) = l2 ! (unat slot * 18 + n)"
      using nth_MmuMap [OF assms(2) idx] by auto
    also have "\<dots> = 0" using ok(4) assms(3) by simp
    finally show ?thesis using False idx assms(1) by (auto simp: walk Let_def)
  qed
qed

theorem mmu_map_walk_witness:
  "MmuWalk (snd (MmuMap (replicate 1024 0) 2 0x40000000 3 1)) (mmu_iova 2 1 5) 1 =
     (MmuOk, 0x40000005)"
proof -
  let ?m = "MmuMap (replicate 1024 0) 2 0x40000000 3 1"
  have "fst ?m = MmuOk" by (simp add: MmuMap_def Mmu_Address_def list_ex_iff)
  then have "?m = (MmuOk, snd ?m)" by (metis prod.collapse)
  from mmu_map_walk [OF _ this, of 1 5 1] show ?thesis by simp
qed

text \<open>\<open>MmuUnmap\<close> undoes \<open>MmuMap\<close>: it accepts the slot that was mapped, clears every entry
  the mapping wrote, and leaves the table as it was before.\<close>

theorem mmu_unmap_map:
  assumes "length l2 = 1024" and "MmuMap l2 slot dma pages wr = (MmuOk, l2')"
  shows "MmuUnmap l2' slot pages = (MmuOk, l2)"
proof -
  note ok = MmuMap_ok [OF assms(2)] and a = Mmu_Address_nat [OF MmuMap_ok(2) [OF assms(2)]]
  have start: "unat (slot * MMU_SLOT_PAGES) = unat slot * 18" using ok(1) by (simp add: unat_word_ariths)
  have nth: "l2' ! (unat slot * 18 + n) =
      (if 1 \<le> n \<and> n \<le> unat pages then mmu_pte dma (n - 1) wr else 0)" if "n < 18" for n
    using nth_MmuMap [OF assms(2), of "unat slot * 18 + n"] slot_page [OF ok(1) that] ok(4) that assms(1)
    by auto
  have len: "length l2' = length l2" by (simp add: ok(5))
  have valid: "mmu_pte dma i wr AND MMU_PTE_VALID \<noteq> 0" if "i < unat pages" for i
  proof -
    have "unat dma div 4096 \<le> 2 ^ 36 div 4096" using a(2) by (intro div_le_mono) simp
    then show ?thesis using a(4) that by (intro mmu_pte_bits(2)) simp
  qed
  have clear: "fold (\<lambda>i t. t[unat slot * 18 + i := 0]) [1..<Suc (unat pages)] l2' = l2" (is "?f = _")
  proof (rule nth_equalityI)
    show "length ?f = length l2" by (simp add: len)
    fix k assume k: "k < length ?f"
    then have kl: "k < length l2'" by simp
    show "?f ! k = l2 ! k"
    proof (cases "unat slot * 18 < k \<and> k \<le> unat slot * 18 + unat pages")
      case True
      then have "k - unat slot * 18 < 18" using a(4) by linarith
      with ok(4) have "l2 ! (unat slot * 18 + (k - unat slot * 18)) = 0" by blast
      with True show ?thesis by (simp add: nth_MmuUnmap_loop [OF kl] del: upt_Suc)
    next
      case False
      then show ?thesis
        using nth_MmuMap [OF assms(2), of k] kl len
        by (auto simp: nth_MmuUnmap_loop [OF kl] simp del: upt_Suc)
    qed
  qed
  have "l2' ! (unat slot * 18) = 0" using nth [of 0] by simp
  moreover have "\<forall>i\<in>{1..<Suc (unat pages)}. l2' ! (unat slot * 18 + i) AND MMU_PTE_VALID \<noteq> 0"
    using nth valid a(4) by auto
  moreover have "\<forall>i\<in>{unat pages + 1..<18}. l2' ! (unat slot * 18 + i) = 0"
    using nth by auto
  moreover have "\<not> 16 \<le> slot" "pages \<noteq> 0" "\<not> 16 < pages"
    using ok(1) a(3,4) by (auto simp: word_le_nat_alt word_less_nat_alt)
  ultimately show ?thesis
    by (simp add: MmuUnmap_def start list_ex_iff Let_def clear [unfolded One_nat_def] del: upt_Suc)
qed

theorem mmu_unmap_map_witness:
  "MmuUnmap (snd (MmuMap (replicate 1024 0) 15 0x40000000 16 0)) 15 16 = (MmuOk, replicate 1024 0)"
proof -
  let ?m = "MmuMap (replicate 1024 0) 15 0x40000000 16 0"
  have "fst ?m = MmuOk" by (simp add: MmuMap_def Mmu_Address_def list_ex_iff)
  then have "?m = (MmuOk, snd ?m)" by (metis prod.collapse)
  from mmu_unmap_map [OF _ this] show ?thesis by simp
qed

text \<open>C4. On working hardware a whole session succeeds and leaves no trace: from an idle register
  file, staging a table, switching translation on, stopping it after the consumer has drained and
  ending the session all return success, and afterwards every register of every unit reads what it
  read before, with no fault latched and nothing staged.\<close>

theorem mmu_session_roundtrip:
  assumes "mmu_idle init" and "Mmu_Address table 1" and "Mmu_Address trap 1"
    and "drop_bit 20 MMU_IOVA_BASE \<le> table" and "q \<noteq> 0"
    and "run_state (mmu_run_ops (regfile init calls) [OpBegin table trap, OpActivate, OpDeactivate q, OpEnd])
      \<lparr>st = mmu_zero, trace = []\<rparr> = (rs, w')"
  shows "rs = [MmuOk, MmuOk, MmuOk, MmuOk] \<and> regs init (trace w') = init \<and>
    mmu_Staged (st w') = 0 \<and> mmu_Fault (st w') = 0 \<and> mmu_Active (st w') = 0"
proof -
  let ?w = "\<lparr>st = mmu_zero, trace = []\<rparr> :: MMU_HW world"
  have "wp (mmu_run_ops (regfile init calls) [OpBegin table trap, OpActivate, OpDeactivate q, OpEnd])
    (\<lambda>rs w'. rs = [MmuOk, MmuOk, MmuOk, MmuOk] \<and> regs init (trace w') = init \<and>
       mmu_Staged (st w') = 0 \<and> mmu_Fault (st w') = 0 \<and> mmu_Active (st w') = 0) ?w"
    apply (simp only: mmu_run_ops.simps mmu_run_op.simps wp_bind wp_return)
    apply (rule wp_mono [OF session_Begin])
    using assms(1-4) mmu_inv_init apply (simp_all add: mmu_inv_def not_less)
    apply (simp_all add: mmu_zero_def wp_bind wp_return)
    subgoal for v
      apply (rule wp_mono [OF session_Activate, of init v])
      apply (simp_all add: assms(1) wp_bind wp_return)
      subgoal for v
        apply (rule wp_mono [OF session_Deactivate, of init v])
        apply (simp_all add: assms(1,5) wp_bind wp_return)
        subgoal for v by (rule wp_mono [OF session_End, of init v]) (simp_all add: assms(1) wp_return)
        done
      done
    done
  with assms(6) show ?thesis by (auto dest: wpD)
qed
lemma mmu_session_example:
  "mmu_idle (\<lambda>u off. if u = 1 \<and> off = 0x38 then 0x20000664 else 0)"
  "Mmu_Address 0x40000000 1"
  by (simp_all add: mmu_idle_def mmu_debug_ok_def Mmu_Address_def)

theorem mmu_session_roundtrip_witness:
  "let init = (\<lambda>u off. if u = 1 \<and> off = 0x38 then 0x20000664 else 0) in
   fst (run_state (mmu_run_ops (regfile init (\<lambda>_ _. 0))
      [OpBegin 0x40000000 0x40001000, OpActivate, OpDeactivate 1, OpEnd])
      \<lparr>st = mmu_zero, trace = []\<rparr>) = [MmuOk, MmuOk, MmuOk, MmuOk]"
  unfolding Let_def
  by (rule mmu_session_roundtrip [OF mmu_session_example _ _ _ prod.collapse [symmetric], THEN conjunct1])
    (simp_all add: Mmu_Address_def)

text \<open>C1. Whatever the hardware answers and in whatever order a client calls the operations, the
  layer writes only the cache control register and the control and staging registers of its own
  unit; while it does not count translation as active the last value it wrote to the control
  register is not the enable word; and an active session without a fault has exactly the enable
  word and the enabled shared cache in force.\<close>

theorem mmu_reachable_safe:
  assumes "mmu_reachable E w"
  shows "(\<forall>e\<in>set (trace w). mmu_allowed e) \<and>
    (mmu_Active (st w) = 0 \<longrightarrow> last_write (trace w) 1 0 \<noteq> Some MMU_ACTIVE_CONTROL) \<and>
    (mmu_Active (st w) \<noteq> 0 \<longrightarrow> mmu_Staged (st w) \<noteq> 0) \<and>
    (mmu_Active (st w) \<noteq> 0 \<and> mmu_Fault (st w) = 0 \<longrightarrow>
       last_write (trace w) 1 0 = Some MMU_ACTIVE_CONTROL \<and>
       last_write (trace w) 3 0 = Some (mmu_Cache (st w) OR 1))"
proof -
  have "\<forall>e\<in>set (trace w). mmu_allowed e"
    using assms
  proof (induction rule: mmu_reachable.induct)
    case (operation w p r w')
    then have "trace_ext mmu_allowed w w'" by (blast dest: preservesD [OF allowed_op])
    with operation.IH show ?case by (auto simp: trace_ext_def extends_def)
  qed simp
  with reachable_inv [OF assms] show ?thesis by (auto simp: mmu_inv_def)
qed

theorem mmu_reachable_safe_witness:
  "let init = (\<lambda>u off. if u = 1 \<and> off = 0x38 then 0x20000664 else 0);
     w' = snd (run_state (mmu_run_ops (regfile init (\<lambda>_ _. 0)) [OpBegin 0x40000000 0x40001000, OpActivate])
       \<lparr>st = mmu_zero, trace = []\<rparr>)
   in \<forall>e\<in>set (trace w'). mmu_allowed e"
  unfolding Let_def
  by (rule mmu_reachable_safe [OF reachable_run [OF mmu_reachable.fresh prod.collapse [symmetric]], THEN conjunct1])

text \<open>C5. A fault is sticky: once it is latched, no sequence of operations reports success, changes
  whether translation is staged or active, or writes any register; only the driver's teardown
  can recover.\<close>

theorem mmu_fault_sticky:
  assumes "mmu_Fault (st w) \<noteq> 0" and "run_state (mmu_run_ops E ps) w = (rs, w')"
  shows "MmuOk \<notin> set rs \<and> length rs = length ps \<and> mmu_Fault (st w') \<noteq> 0 \<and>
    mmu_Active (st w') = mmu_Active (st w) \<and> mmu_Staged (st w') = mmu_Staged (st w) \<and>
    trace_ext quiet w w'"
  using assms
proof (induction ps arbitrary: w rs)
  case Nil
  then show ?case by (simp add: ext.frame_refl)
next
  case (Cons p ps)
  obtain r v where p: "run_state (mmu_run_op E p) w = (r, v)" by (cases "run_state (mmu_run_op E p) w")
  obtain rs' where ps: "run_state (mmu_run_ops E ps) v = (rs', w')" and rs: "rs = r # rs'"
    using Cons.prems(2) p by (auto split: prod.splits)
  from faulted_op [OF Cons.prems(1)] p have "r \<noteq> MmuOk \<and> mmu_Fault (st v) \<noteq> 0 \<and>
    mmu_Active (st v) = mmu_Active (st w) \<and> mmu_Staged (st v) = mmu_Staged (st w) \<and> trace_ext quiet w v"
    by (blast dest: wpD)
  with Cons.IH [OF _ ps] rs show ?case by (auto intro: ext.frame_trans)
qed

theorem mmu_fault_sticky_witness:
  "MmuOk \<notin> set (fst (run_state (mmu_run_ops (regfile (\<lambda>_ _. 0) (\<lambda>_ _. 0))
     [OpCheck, OpBegin 0x40000000 0x40001000, OpEnd])
     \<lparr>st = mmu_zero\<lparr>mmu_Fault := 1\<rparr>, trace = []\<rparr>))"
  by (rule mmu_fault_sticky [OF _ prod.collapse [symmetric], THEN conjunct1]) simp

text \<open>A session that ends successfully has put every staging register back to its
  baseline value, left translation off and the shared cache as it was found, and forgets the
  session.\<close>

theorem mmu_end_restores:
  assumes "mmu_reachable E w" and "run_state (MmuEnd E) w = (MmuOk, w')"
  shows "mmu_Staged (st w') = 0 \<and> mmu_Active (st w') = 0 \<and>
    last_write (trace w') 1 0 = Some 0 \<and> last_write (trace w') 3 0 = Some (mmu_Cache (st w')) \<and>
    (\<forall>j\<in>{1..6}. last_write (trace w') 1 (Offsets ! j) = Some (mmu_Baseline (st w) ! 1 ! j))"
proof -
  have "mmu_inv w' \<and> mmu_Staged (st w') = 0 \<and> mmu_restored w' \<and> last_write (trace w') 1 0 = Some 0 \<and>
      last_write (trace w') 3 0 = Some (mmu_Cache (st w')) \<and> mmu_Baseline (st w') = mmu_Baseline (st w)"
    using wpD [OF inv_End [OF reachable_inv [OF assms(1)]] assms(2)] by simp
  then show ?thesis by (auto simp: mmu_restored_def mmu_inv_def)
qed

theorem mmu_end_restores_witness:
  "let init = (\<lambda>u off. if u = 1 \<and> off = 0x38 then 0x20000664 else 0);
     w = snd (run_state (MmuBegin (regfile init (\<lambda>_ _. 0)) 0x40000000 0x40001000)
       \<lparr>st = mmu_zero, trace = []\<rparr>)
   in mmu_Staged (st (snd (run_state (MmuEnd (regfile init (\<lambda>_ _. 0))) w))) = 0"
proof -
  let ?i = "\<lambda>u off. if u = 1 \<and> off = 0x38 then 0x20000664 else 0 :: u32"
  let ?E = "regfile ?i (\<lambda>_ _. 0)" and ?f = "\<lparr>st = mmu_zero, trace = []\<rparr> :: MMU_HW world"
  define w where "w = snd (run_state (MmuBegin ?E 0x40000000 0x40001000) ?f)"
  have r: "mmu_reachable ?E w"
    using mmu_reachable.operation [OF mmu_reachable.fresh, of ?E "OpBegin 0x40000000 0x40001000"]
    by (simp add: w_def) (metis prod.collapse)
  have "wp (MmuBegin ?E 0x40000000 0x40001000) (\<lambda>r w'. r = MmuOk \<and> mmu_session ?i False w') ?f"
    using mmu_inv_init by (intro session_Begin mmu_session_example)
      (simp_all add: mmu_inv_def mmu_zero_def Mmu_Address_def)
  then have "mmu_session ?i False w" by (simp add: wp_def w_def split_beta)
  from session_End [OF this mmu_session_example(1), of "\<lambda>_ _. 0"]
  have "fst (run_state (MmuEnd ?E) w) = MmuOk" by (simp add: wp_def split_beta)
  then have "run_state (MmuEnd ?E) w = (MmuOk, snd (run_state (MmuEnd ?E) w))" by (metis prod.collapse)
  from mmu_end_restores [OF r this] show ?thesis by (simp add: Let_def w_def)
qed

text \<open>C3. Switching translation off needs a proven stop: without the caller's proof that the
  masters have drained, or with a fault latched, nothing is written and translation stays counted as
  active; a successful stop has written zero to the control register and the original value to the
  shared cache; and every other outcome of an active session latches the fault.\<close>

theorem mmu_deactivate_proven:
  assumes "mmu_reachable E w" and "run_state (MmuDeactivate E q) w = (r, w')"
  shows "(r = MmuOk \<longrightarrow> q \<noteq> 0 \<and> mmu_Active (st w') = 0 \<and>
      last_write (trace w') 1 0 = Some 0 \<and> last_write (trace w') 3 0 = Some (mmu_Cache (st w'))) \<and>
    (q = 0 \<or> mmu_Fault (st w) \<noteq> 0 \<longrightarrow> r \<noteq> MmuOk \<and> mmu_Active (st w') = mmu_Active (st w) \<and>
      trace_ext quiet w w') \<and>
    (mmu_Active (st w) \<noteq> 0 \<and> r \<noteq> MmuOk \<longrightarrow> mmu_Fault (st w') \<noteq> 0)"
proof (intro conjI)
  show "r = MmuOk \<longrightarrow> q \<noteq> 0 \<and> mmu_Active (st w') = 0 \<and>
      last_write (trace w') 1 0 = Some 0 \<and> last_write (trace w') 3 0 = Some (mmu_Cache (st w'))"
    using wpD [OF inv_Deactivate [OF reachable_inv [OF assms(1)]] assms(2)] by blast
  have "q = 0 \<Longrightarrow> wp (MmuDeactivate E q) (\<lambda>r w'. r \<noteq> MmuOk \<and>
      mmu_Active (st w') = mmu_Active (st w) \<and> trace_ext quiet w w') w"
    by (auto simp: MmuDeactivate_def Let_def wp_simps trace_ext_def intro!: wp_any)
  then show "q = 0 \<or> mmu_Fault (st w) \<noteq> 0 \<longrightarrow> r \<noteq> MmuOk \<and> mmu_Active (st w') = mmu_Active (st w) \<and>
      trace_ext quiet w w'"
    using faulted_op [of w E "OpDeactivate q"] assms(2) by (auto dest: wpD)
  have "wp (MmuDeactivate E q) (\<lambda>r w'. mmu_Active (st w) \<noteq> 0 \<and> r \<noteq> MmuOk \<longrightarrow> mmu_Fault (st w') \<noteq> 0) w"
    using reachable_inv [OF assms(1)] unfolding MmuDeactivate_def Let_def
    by (auto simp: wp_simps mmu_inv_def mmu_usable_def mmu_core_def
        intro!: wp_any wp_Check_cells wp_MmuInvalidate)
  then show "mmu_Active (st w) \<noteq> 0 \<and> r \<noteq> MmuOk \<longrightarrow> mmu_Fault (st w') \<noteq> 0"
    using assms(2) by (blast dest: wpD)
qed

theorem mmu_deactivate_proven_witness:
  "fst (run_state (MmuDeactivate (regfile (\<lambda>_ _. 0) (\<lambda>_ _. 0)) 0) \<lparr>st = mmu_zero, trace = []\<rparr>) \<noteq> MmuOk"
  using mmu_deactivate_proven [OF mmu_reachable.fresh prod.collapse [symmetric],
      of "regfile (\<lambda>_ _. 0) (\<lambda>_ _. 0)" 0] by simp

end
