(* ===== verification/Kernel.thy ===== *)
theory Kernel
  imports Prelude
begin

text \<open>
  The parts of the kernel interface the drivers share: status codes with their severity, and
  the wait lock. A kernel service is a call of the environment; a driver decides by the
  status it returns. A pointer is a number with 0 for null.
\<close>

type_synonym NTSTATUS = u32
type_synonym ptr = u64

abbreviation STATUS_SUCCESS :: NTSTATUS where "STATUS_SUCCESS \<equiv> 0"
abbreviation STATUS_TIMEOUT :: NTSTATUS where "STATUS_TIMEOUT \<equiv> 0x102"
abbreviation STATUS_PENDING :: NTSTATUS where "STATUS_PENDING \<equiv> 0x103"
abbreviation STATUS_DEVICE_BUSY :: NTSTATUS where "STATUS_DEVICE_BUSY \<equiv> 0x80000011"
abbreviation STATUS_UNSUCCESSFUL :: NTSTATUS where "STATUS_UNSUCCESSFUL \<equiv> 0xC0000001"
abbreviation STATUS_INVALID_PARAMETER :: NTSTATUS where "STATUS_INVALID_PARAMETER \<equiv> 0xC000000D"
abbreviation STATUS_INVALID_DEVICE_REQUEST :: NTSTATUS where "STATUS_INVALID_DEVICE_REQUEST \<equiv> 0xC0000010"
abbreviation STATUS_ACCESS_DENIED :: NTSTATUS where "STATUS_ACCESS_DENIED \<equiv> 0xC0000022"
abbreviation STATUS_OBJECT_NAME_NOT_FOUND :: NTSTATUS where "STATUS_OBJECT_NAME_NOT_FOUND \<equiv> 0xC0000034"
abbreviation STATUS_REVISION_MISMATCH :: NTSTATUS where "STATUS_REVISION_MISMATCH \<equiv> 0xC0000059"
abbreviation STATUS_INSUFFICIENT_RESOURCES :: NTSTATUS where "STATUS_INSUFFICIENT_RESOURCES \<equiv> 0xC000009A"
abbreviation STATUS_DEVICE_NOT_READY :: NTSTATUS where "STATUS_DEVICE_NOT_READY \<equiv> 0xC00000A3"
abbreviation STATUS_IO_TIMEOUT :: NTSTATUS where "STATUS_IO_TIMEOUT \<equiv> 0xC00000B5"
abbreviation STATUS_NOT_SUPPORTED :: NTSTATUS where "STATUS_NOT_SUPPORTED \<equiv> 0xC00000BB"
abbreviation STATUS_CANCELLED :: NTSTATUS where "STATUS_CANCELLED \<equiv> 0xC0000120"
abbreviation STATUS_DEVICE_CONFIGURATION_ERROR :: NTSTATUS where
  "STATUS_DEVICE_CONFIGURATION_ERROR \<equiv> 0xC0000182"
abbreviation STATUS_DEVICE_DATA_ERROR :: NTSTATUS where "STATUS_DEVICE_DATA_ERROR \<equiv> 0xC000009C"
abbreviation STATUS_INVALID_DEVICE_STATE :: NTSTATUS where "STATUS_INVALID_DEVICE_STATE \<equiv> 0xC0000184"
abbreviation STATUS_IO_DEVICE_ERROR :: NTSTATUS where "STATUS_IO_DEVICE_ERROR \<equiv> 0xC0000185"
abbreviation STATUS_DEVICE_PROTOCOL_ERROR :: NTSTATUS where "STATUS_DEVICE_PROTOCOL_ERROR \<equiv> 0xC0000186"
abbreviation STATUS_INVALID_BUFFER_SIZE :: NTSTATUS where "STATUS_INVALID_BUFFER_SIZE \<equiv> 0xC0000206"
abbreviation STATUS_DEVICE_HARDWARE_ERROR :: NTSTATUS where "STATUS_DEVICE_HARDWARE_ERROR \<equiv> 0xC0000483"

abbreviation STATUS_NOT_FOUND :: NTSTATUS where "STATUS_NOT_FOUND \<equiv> 0xC0000225"
abbreviation STATUS_DATA_ERROR :: NTSTATUS where "STATUS_DATA_ERROR \<equiv> 0xC000003E"
abbreviation STATUS_ALREADY_COMPLETE :: NTSTATUS where "STATUS_ALREADY_COMPLETE \<equiv> 0xFF"
abbreviation STATUS_OBJECT_PATH_NOT_FOUND :: NTSTATUS where "STATUS_OBJECT_PATH_NOT_FOUND \<equiv> 0xC000003A"
abbreviation STATUS_BUFFER_OVERFLOW :: NTSTATUS where "STATUS_BUFFER_OVERFLOW \<equiv> 0x80000005"
abbreviation STATUS_BUFFER_TOO_SMALL :: NTSTATUS where "STATUS_BUFFER_TOO_SMALL \<equiv> 0xC0000023"
abbreviation STATUS_SHARING_VIOLATION :: NTSTATUS where "STATUS_SHARING_VIOLATION \<equiv> 0xC0000043"
abbreviation STATUS_ACPI_INVALID_DATA :: NTSTATUS where "STATUS_ACPI_INVALID_DATA \<equiv> 0xC014000F"
abbreviation STATUS_DEVICE_POWER_FAILURE :: NTSTATUS where "STATUS_DEVICE_POWER_FAILURE \<equiv> 0xC000009E"
abbreviation STATUS_INTEGER_OVERFLOW :: NTSTATUS where "STATUS_INTEGER_OVERFLOW \<equiv> 0xC0000095"
abbreviation STATUS_DELETE_PENDING :: NTSTATUS where "STATUS_DELETE_PENDING \<equiv> 0xC0000056"
abbreviation STATUS_NO_SUCH_DEVICE :: NTSTATUS where "STATUS_NO_SUCH_DEVICE \<equiv> 0xC000000E"

text \<open>The severity of a status is its top bit.\<close>

definition NT_SUCCESS :: "NTSTATUS \<Rightarrow> bool" where
  "NT_SUCCESS status \<longleftrightarrow> status < 0x80000000"

lemma NT_SUCCESS_codes [simp]:
  "NT_SUCCESS STATUS_SUCCESS" "NT_SUCCESS STATUS_TIMEOUT" "NT_SUCCESS STATUS_PENDING"
  "\<not> NT_SUCCESS STATUS_DEVICE_BUSY" "\<not> NT_SUCCESS STATUS_UNSUCCESSFUL"
  "\<not> NT_SUCCESS STATUS_INVALID_PARAMETER" "\<not> NT_SUCCESS STATUS_INVALID_DEVICE_REQUEST"
  "\<not> NT_SUCCESS STATUS_ACCESS_DENIED" "\<not> NT_SUCCESS STATUS_OBJECT_NAME_NOT_FOUND"
  "\<not> NT_SUCCESS STATUS_REVISION_MISMATCH" "\<not> NT_SUCCESS STATUS_INSUFFICIENT_RESOURCES"
  "\<not> NT_SUCCESS STATUS_DEVICE_NOT_READY" "\<not> NT_SUCCESS STATUS_IO_TIMEOUT"
  "\<not> NT_SUCCESS STATUS_NOT_SUPPORTED" "\<not> NT_SUCCESS STATUS_CANCELLED"
  "\<not> NT_SUCCESS STATUS_DEVICE_CONFIGURATION_ERROR" "\<not> NT_SUCCESS STATUS_DEVICE_DATA_ERROR"
  "\<not> NT_SUCCESS STATUS_INVALID_DEVICE_STATE" "\<not> NT_SUCCESS STATUS_IO_DEVICE_ERROR"
  "\<not> NT_SUCCESS STATUS_DEVICE_PROTOCOL_ERROR" "\<not> NT_SUCCESS STATUS_INVALID_BUFFER_SIZE"
  "\<not> NT_SUCCESS STATUS_DEVICE_HARDWARE_ERROR" "\<not> NT_SUCCESS STATUS_NOT_FOUND"
  "\<not> NT_SUCCESS STATUS_DATA_ERROR" "NT_SUCCESS STATUS_ALREADY_COMPLETE"
  "\<not> NT_SUCCESS STATUS_OBJECT_PATH_NOT_FOUND"
  "\<not> NT_SUCCESS STATUS_BUFFER_OVERFLOW" "\<not> NT_SUCCESS STATUS_BUFFER_TOO_SMALL" "\<not> NT_SUCCESS STATUS_SHARING_VIOLATION" "\<not> NT_SUCCESS STATUS_ACPI_INVALID_DATA" "\<not> NT_SUCCESS STATUS_DEVICE_POWER_FAILURE" "\<not> NT_SUCCESS STATUS_INTEGER_OVERFLOW" "\<not> NT_SUCCESS STATUS_DELETE_PENDING" "\<not> NT_SUCCESS STATUS_NO_SUCH_DEVICE"
  by (simp_all add: NT_SUCCESS_def)

text \<open>A service whose result matters only as a status, and one whose result does not matter.\<close>

definition kernel_status :: "env \<Rightarrow> string \<Rightarrow> u64 list \<Rightarrow> ('s, NTSTATUS) prog" where
  "kernel_status E f xs = do { r \<leftarrow> io_call E f xs; ret (ucast r) }"

definition kernel_do :: "env \<Rightarrow> string \<Rightarrow> u64 list \<Rightarrow> ('s, unit) prog" where
  "kernel_do E f xs = do { r \<leftarrow> io_call E f xs; ret () }"

lemma wp_kernel_any:
  "(\<And>r. Q (ucast r) (w\<lparr>trace := Call f xs r # trace w\<rparr>)) \<Longrightarrow> wp (kernel_status E f xs) Q w"
  by (auto simp: kernel_status_def wp_simps intro!: wp_any)

lemma wp_kernel_do [wp_simps]:
  "wp (kernel_do E f xs) Q w =
     Q () (w\<lparr>trace := Call f xs (env_call E (trace w) f xs) # trace w\<rparr>)"
  by (simp add: kernel_do_def wp_simps wp_io_call)

lemma ext_kernel:
  "(\<And>v. P (Call f xs v)) \<Longrightarrow> preserves (trace_ext P) (kernel_status E f xs)"
  "(\<And>v. P (Call f xs v)) \<Longrightarrow> preserves (trace_ext P) (kernel_do E f xs)"
  by (auto simp: kernel_status_def kernel_do_def intro!: ext_intros)

lemma keeps_kernel: "preserves (keeps g) (kernel_status E f xs)" "preserves (keeps g) (kernel_do E f xs)"
  by (auto simp: kernel_status_def kernel_do_def intro!: keeps_intros)

text \<open>Services called one after the other until one fails, as the start-up code of the drivers
  calls them.\<close>

fun kernel_seq :: "env \<Rightarrow> (string \<times> u64 list) list \<Rightarrow> ('s, NTSTATUS) prog" where
  "kernel_seq E [] = ret STATUS_SUCCESS"
| "kernel_seq E ((f, xs) # calls) = do {
     status \<leftarrow> kernel_status E f xs;
     if NT_SUCCESS status then kernel_seq E calls else ret status
   }"

lemma keeps_kernel_seq: "preserves (keeps g) (kernel_seq E calls)"
  by (induction calls) (auto intro!: keeps_intros keeps_kernel)

text \<open>One descriptor of the resource list a device is started with. A list may hold a null
  descriptor.\<close>

datatype cm_resource =
    CmNull
  | CmDevicePrivate
  | CmMemory u64 u32                 \<comment> \<open>start and length\<close>
  | CmInterrupt u32 u32              \<comment> \<open>flags and vector\<close>
  | CmConnection u32 u32 u64         \<comment> \<open>class, type and identifier\<close>
  | CmOther u32                      \<comment> \<open>any other type\<close>

fun cm_type :: "cm_resource \<Rightarrow> u32" where
  "cm_type CmNull = 0"
| "cm_type (CmInterrupt flags vector) = 2"
| "cm_type (CmMemory start bytes) = 3"
| "cm_type CmDevicePrivate = 129"
| "cm_type (CmConnection c t i) = 132"
| "cm_type (CmOther t) = t"

abbreviation PAGE_READONLY :: u64 where "PAGE_READONLY \<equiv> 2"
abbreviation PAGE_READWRITE :: u64 where "PAGE_READWRITE \<equiv> 4"
abbreviation PAGE_NOCACHE :: u64 where "PAGE_NOCACHE \<equiv> 0x200"

text \<open>The timed acquisition of a driver's wait lock: a timeout is a success code that does not
  own the lock, and becomes an error.\<close>

definition Kernel_Lock :: "env \<Rightarrow> ('s, NTSTATUS) prog" where
  "Kernel_Lock E = do {
     status \<leftarrow> kernel_status E ''WdfWaitLockAcquire'' [5];
     ret (if status = STATUS_TIMEOUT then STATUS_IO_TIMEOUT else status)
   }"

abbreviation Kernel_Lock_forever :: "env \<Rightarrow> ('s, unit) prog" where
  "Kernel_Lock_forever E \<equiv> kernel_do E ''WdfWaitLockAcquire'' [0]"

abbreviation Kernel_Unlock :: "env \<Rightarrow> ('s, unit) prog" where
  "Kernel_Unlock E \<equiv> kernel_do E ''WdfWaitLockRelease'' []"

lemma wp_Kernel_Lock:
  "(\<And>status r. Q status (w\<lparr>trace := Call ''WdfWaitLockAcquire'' [5] r # trace w\<rparr>)) \<Longrightarrow>
   wp (Kernel_Lock E) Q w"
  by (auto simp: Kernel_Lock_def wp_simps intro!: wp_kernel_any)

lemma keeps_Kernel_Lock: "preserves (keeps g) (Kernel_Lock E)"
  by (auto simp: Kernel_Lock_def intro!: keeps_intros keeps_kernel)

lemmas kernel_keeps = keeps_intros keeps_kernel keeps_Kernel_Lock

lemmas kernel_any = wp_any wp_kernel_any wp_Kernel_Lock

text \<open>A value for the administrator, kept in the device's registry key when that can be opened.\<close>

definition Kernel_Diagnostic :: "env \<Rightarrow> string \<Rightarrow> u32 \<Rightarrow> ('s, unit) prog" where
  "Kernel_Diagnostic E name v = do {
     status \<leftarrow> kernel_status E ''WdfDeviceOpenRegistryKey'' [];
     whenM (NT_SUCCESS status) (do {
       kernel_do E (''WdfRegistryAssignULong '' @ name) [ucast v];
       kernel_do E ''WdfRegistryClose'' []
     })
   }"

lemma keeps_Kernel_Diagnostic: "preserves (keeps g) (Kernel_Diagnostic E name v)"
  by (auto simp: Kernel_Diagnostic_def intro!: keeps_intros keeps_kernel)

text \<open>The calculus as introduction rules, one goal for each path.\<close>

lemma wp_bindI: "wp m (\<lambda>r. wp (f r) Q) w \<Longrightarrow> wp (m \<bind> f) Q w"
  by (simp add: wp_simps)

lemma wp_returnI: "Q x w \<Longrightarrow> wp (ret x) Q w"
  by (simp add: wp_simps)

lemma wp_getsI: "Q (f (st w)) w \<Longrightarrow> wp (gets f) Q w"
  by (simp add: wp_simps)

lemma wp_modifyI: "Q () (w\<lparr>st := f (st w)\<rparr>) \<Longrightarrow> wp (modify f) Q w"
  by (simp add: wp_simps)

lemma wp_emitI: "Q () (w\<lparr>trace := e # trace w\<rparr>) \<Longrightarrow> wp (emit e) Q w"
  by (simp add: wp_simps)

lemma wp_ifI: "(b \<Longrightarrow> wp m Q w) \<Longrightarrow> (\<not> b \<Longrightarrow> wp n Q w) \<Longrightarrow> wp (if b then m else n) Q w"
  by simp

lemma wp_whenI: "(b \<Longrightarrow> wp m Q w) \<Longrightarrow> (\<not> b \<Longrightarrow> Q () w) \<Longrightarrow> wp (whenM b m) Q w"
  by (simp add: wp_simps)

lemma wp_LetI: "(\<And>y. y = x \<Longrightarrow> wp (f y) Q w) \<Longrightarrow> wp (Let x f) Q w"
  by simp

lemma wp_case_prodI: "(\<And>x y. p = (x, y) \<Longrightarrow> wp (f x y) Q w) \<Longrightarrow> wp (case p of (x, y) \<Rightarrow> f x y) Q w"
  by (cases p) simp

lemma wp_case_optionI: "(x = None \<Longrightarrow> wp m Q w) \<Longrightarrow> (\<And>y. x = Some y \<Longrightarrow> wp (f y) Q w) \<Longrightarrow>
    wp (case x of None \<Rightarrow> m | Some y \<Rightarrow> f y) Q w"
  by (cases x) simp_all

lemma wp_zoomI: "wp m (\<lambda>r v. Q r \<lparr>st = u (\<lambda>_. st v) (st w), trace = trace v\<rparr>) \<lparr>st = g (st w), trace = trace w\<rparr> \<Longrightarrow>
    wp (zoom g u m) Q w"
  by (simp add: wp_simps)

lemma wp_kernel_doI: "(\<And>r. Q () (w\<lparr>trace := Call f xs r # trace w\<rparr>)) \<Longrightarrow> wp (kernel_do E f xs) Q w"
  by (simp add: wp_simps)

lemma wp_forM_emitI: "Q () (w\<lparr>trace := rev (map f xs) @ trace w\<rparr>) \<Longrightarrow> wp (forM xs (\<lambda>x. emit (f x))) Q w"
  by (simp add: wp_simps)

lemmas wp_intros = wp_forM_emitI wp_bindI wp_returnI wp_getsI wp_modifyI wp_emitI wp_ifI wp_whenI wp_LetI wp_case_prodI
  wp_case_optionI wp_zoomI kernel_any wp_kernel_doI

lemma wp_all: "(\<And>r v. Q r v) \<Longrightarrow> wp m Q w"
  by (simp add: wp_def split: prod.splits)

end
