(* ===== verification/Iommu_Driver.thy ===== *)
theory Iommu_Driver
  imports Mmu_Hardware Kernel
begin

text \<open>
  The IOMMU driver, \<open>pi5-iommu/driver.c\<close>: the session of one file object on the translation
  hardware of \<open>Mmu_Hardware\<close>, its guarded DMA buffers, the execution window, the quarantine
  after a fault and the device-control requests.

  Register banks 0 to 3 are the register blocks of the hardware layer. Common buffers are banks
  as well, because a device may change them: bank 4 is the root table, 5 the second-level table,
  6 the trap page and \<open>7 + slot\<close> the buffer of a slot, addressed in bytes. The second-level table is
  written by the processor only; its words are the component \<open>id_Table\<close> of the state.
\<close>

unbundle bit_operations_syntax

section \<open>State\<close>

abbreviation MMIO_BYTES :: u32 where "MMIO_BYTES \<equiv> 0x80"
abbreviation GUARD_WORD :: u32 where "GUARD_WORD \<equiv> 0xbadc0ffe"

record BUFFER =
  bf_Cpu :: ptr
  bf_Dma :: u64
  bf_Length :: u32
  bf_Pages :: u32
  bf_Writable :: u32
  bf_Mapped :: u32
  bf_Token :: u64

record IOMMU_STATUS =
  is_Online :: u32
  is_HardwareWrites :: u32
  is_Units :: "u32 list list"
  is_CacheControl :: u32
  is_Owner :: u32
  is_Staged :: u32
  is_Fault :: u32
  is_ActiveBuffers :: u32
  is_AllocatedBytes :: u32
  is_Flushes :: u32
  is_Failures :: u32
  is_LastStatus :: u32
  is_Allocations :: u32
  is_Frees :: u32
  is_Cleanups :: u32
  is_GuardChecks :: u32

text \<open>The device context, with the driver's two global variables.\<close>

record IOMMU_CONTEXT =
  id_Registers :: "ptr list"
  id_Adapter :: ptr
  id_Owner :: ptr
  id_Hw :: MMU_HW
  id_Root :: BUFFER
  id_L2 :: BUFFER
  id_Trap :: BUFFER
  id_Buffers :: "BUFFER list"
  id_Table :: "u32 list"
  id_Status :: IOMMU_STATUS
  id_Executions :: u32
  id_BootFault :: u32
  id_NextToken :: u64

definition bf_zero :: BUFFER where
  "bf_zero = \<lparr>bf_Cpu = 0, bf_Dma = 0, bf_Length = 0, bf_Pages = 0, bf_Writable = 0, bf_Mapped = 0,
     bf_Token = 0\<rparr>"

definition is_zero :: IOMMU_STATUS where
  "is_zero = \<lparr>is_Online = 0, is_HardwareWrites = 0, is_Units = replicate 3 (replicate 9 0),
     is_CacheControl = 0, is_Owner = 0, is_Staged = 0, is_Fault = 0, is_ActiveBuffers = 0,
     is_AllocatedBytes = 0, is_Flushes = 0, is_Failures = 0, is_LastStatus = 0, is_Allocations = 0,
     is_Frees = 0, is_Cleanups = 0, is_GuardChecks = 0\<rparr>"

definition id_zero :: IOMMU_CONTEXT where
  "id_zero = \<lparr>id_Registers = replicate 4 0, id_Adapter = 0, id_Owner = 0, id_Hw = mmu_zero,
     id_Root = bf_zero, id_L2 = bf_zero, id_Trap = bf_zero, id_Buffers = replicate 16 bf_zero,
     id_Table = replicate 1024 0, id_Status = is_zero, id_Executions = 0, id_BootFault = 0,
     id_NextToken = 0\<rparr>"

text \<open>The buffer a C pointer of the driver refers to.\<close>

datatype buffer_ref = BufRoot | BufL2 | BufTrap | BufSlot nat

fun the_buffer :: "buffer_ref \<Rightarrow> IOMMU_CONTEXT \<Rightarrow> BUFFER" where
  "the_buffer BufRoot c = id_Root c"
| "the_buffer BufL2 c = id_L2 c"
| "the_buffer BufTrap c = id_Trap c"
| "the_buffer (BufSlot i) c = id_Buffers c ! i"

fun set_buffer :: "buffer_ref \<Rightarrow> (BUFFER \<Rightarrow> BUFFER) \<Rightarrow> IOMMU_CONTEXT \<Rightarrow> IOMMU_CONTEXT" where
  "set_buffer BufRoot f c = c\<lparr>id_Root := f (id_Root c)\<rparr>"
| "set_buffer BufL2 f c = c\<lparr>id_L2 := f (id_L2 c)\<rparr>"
| "set_buffer BufTrap f c = c\<lparr>id_Trap := f (id_Trap c)\<rparr>"
| "set_buffer (BufSlot i) f c = c\<lparr>id_Buffers := (id_Buffers c)[i := f (id_Buffers c ! i)]\<rparr>"

fun buffer_bank :: "buffer_ref \<Rightarrow> u32" where
  "buffer_bank BufRoot = 4"
| "buffer_bank BufL2 = 5"
| "buffer_bank BufTrap = 6"
| "buffer_bank (BufSlot i) = 7 + of_nat i"

abbreviation id_stats :: "(IOMMU_STATUS \<Rightarrow> IOMMU_STATUS) \<Rightarrow> (IOMMU_CONTEXT, unit) prog" where
  "id_stats f \<equiv> modify (\<lambda>c. c\<lparr>id_Status := f (id_Status c)\<rparr>)"

abbreviation on_hw :: "(MMU_HW, 'a) prog \<Rightarrow> (IOMMU_CONTEXT, 'a) prog" where
  "on_hw m \<equiv> zoom id_Hw id_Hw_update m"

section \<open>Faults\<close>

text \<open>The volatile registry key that survives a reload of the driver.\<close>

definition FaultMarker :: "env \<Rightarrow> bool \<Rightarrow> ('s, NTSTATUS) prog" where
  "FaultMarker E create = do {
     status \<leftarrow> (if create then kernel_status E ''ZwCreateKey'' [] else kernel_status E ''ZwOpenKey'' []);
     whenM (NT_SUCCESS status) (kernel_do E ''ZwClose'' []);
     ret status
   }"

definition Quarantine :: "env \<Rightarrow> NTSTATUS \<Rightarrow> (IOMMU_CONTEXT, NTSTATUS) prog" where
  "Quarantine E status = do {
     modify (\<lambda>c. c\<lparr>id_BootFault := 1\<rparr>);
     modify (\<lambda>c. c\<lparr>id_Hw := (id_Hw c)\<lparr>mmu_Fault := 1\<rparr>\<rparr>);
     id_stats (\<lambda>s. s\<lparr>is_Fault := 1, is_LastStatus := status, is_Failures := is_Failures s + 1\<rparr>);
     kernel_do E ''WdfDeviceSetStaticStopRemove'' [0];
     FaultMarker E True;
     ret status
   }"

definition Iommu_Result :: "env \<Rightarrow> mmu_result \<Rightarrow> (IOMMU_CONTEXT, NTSTATUS) prog" where
  "Iommu_Result E result = do {
     fault \<leftarrow> gets (\<lambda>c. mmu_Fault (id_Hw c));
     if result = MmuOk then ret STATUS_SUCCESS
     else if fault \<noteq> 0
     then Quarantine E (if result = MmuTimeout then STATUS_IO_TIMEOUT else STATUS_DEVICE_HARDWARE_ERROR)
     else ret (if result = MmuBusy then STATUS_DEVICE_BUSY else STATUS_INVALID_PARAMETER)
   }"

text \<open>A call of the hardware layer whose result becomes a status.\<close>

definition Iommu_Hw :: "env \<Rightarrow> (MMU_HW, mmu_result) prog \<Rightarrow> (IOMMU_CONTEXT, NTSTATUS) prog" where
  "Iommu_Hw E m = do { r \<leftarrow> on_hw m; Iommu_Result E r }"

section \<open>Memory\<close>

definition FreeMemory :: "env \<Rightarrow> buffer_ref \<Rightarrow> (IOMMU_CONTEXT, unit) prog" where
  "FreeMemory E k = do {
     b \<leftarrow> gets (the_buffer k);
     whenM (bf_Cpu b \<noteq> 0) (do {
       kernel_do E ''FreeCommonBuffer'' [ucast (bf_Length b), bf_Dma b, bf_Cpu b];
       id_stats (\<lambda>s. s\<lparr>is_AllocatedBytes := is_AllocatedBytes s - bf_Length b\<rparr>);
       modify (set_buffer k (\<lambda>_. bf_zero))
     })
   }"

text \<open>The service has two results, the processor's address and the address of the device.\<close>

definition AllocateMemory :: "env \<Rightarrow> buffer_ref \<Rightarrow> u32 \<Rightarrow> (IOMMU_CONTEXT, NTSTATUS) prog" where
  "AllocateMemory E k pages = do {
     let bytes = pages * MMU_PAGE;
     modify (set_buffer k (\<lambda>b. b\<lparr>bf_Length := bytes\<rparr>));
     cpu \<leftarrow> io_call E ''AllocateCommonBufferEx'' [MMU_DMA_LIMIT, ucast bytes];
     dma \<leftarrow> io_call E ''AllocateCommonBufferEx.LogicalAddress'' [cpu];
     modify (set_buffer k (\<lambda>b. b\<lparr>bf_Cpu := cpu, bf_Dma := dma\<rparr>));
     if cpu = 0 then do {
       modify (set_buffer k (\<lambda>b. b\<lparr>bf_Length := 0\<rparr>));
       ret STATUS_INSUFFICIENT_RESOURCES
     } else do {
       id_stats (\<lambda>s. s\<lparr>is_AllocatedBytes := is_AllocatedBytes s + bytes\<rparr>);
       if dma AND ucast (MMU_PAGE - 1) \<noteq> 0 \<or> cpu AND ucast (MMU_PAGE - 1) \<noteq> 0 \<or> dma > MMU_DMA_LIMIT \<or>
          ucast (bytes - 1) > MMU_DMA_LIMIT - dma
       then do { FreeMemory E k; ret STATUS_DEVICE_CONFIGURATION_ERROR }
       else do {
         forM [0..<unat bytes div 4] (\<lambda>i. io_write (buffer_bank k) (4 * of_nat i) 0);
         whenM (k = BufL2) (modify (\<lambda>c. c\<lparr>id_Table := replicate 1024 0\<rparr>));
         io_barrier;
         ret STATUS_SUCCESS
       }
     }
   }"

text \<open>The first and the last page of a buffer hold guard words. The comparison reads memory a device
  may have written, and stops at the first difference.\<close>

definition guard_offset :: "u32 \<Rightarrow> nat \<Rightarrow> u32" where
  "guard_offset pages i = 4 * ((pages + 1) * MMU_WORDS + of_nat i)"

fun Guard_loop :: "env \<Rightarrow> u32 \<Rightarrow> u32 \<Rightarrow> nat list \<Rightarrow> ('s, bool) prog" where
  "Guard_loop E bank pages [] = ret True"
| "Guard_loop E bank pages (i # is) = do {
     v \<leftarrow> io_read E bank (4 * of_nat i);
     if v \<noteq> GUARD_WORD then ret False else do {
       v \<leftarrow> io_read E bank (guard_offset pages i);
       if v \<noteq> GUARD_WORD then ret False else Guard_loop E bank pages is
     }
   }"

definition Guards_intact :: "env \<Rightarrow> nat \<Rightarrow> u32 \<Rightarrow> ('s, bool) prog" where
  "Guards_intact E slot pages = Guard_loop E (buffer_bank (BufSlot slot)) pages [0..<unat MMU_WORDS]"

section \<open>The session\<close>

definition Iommu_FreeTables :: "env \<Rightarrow> (IOMMU_CONTEXT, unit) prog" where
  "Iommu_FreeTables E = do { FreeMemory E BufRoot; FreeMemory E BufL2; FreeMemory E BufTrap }"

definition Iommu_Begin_stage :: "env \<Rightarrow> (IOMMU_CONTEXT, NTSTATUS) prog" where
  "Iommu_Begin_stage E = do {
     status \<leftarrow> AllocateMemory E BufRoot 1;
     if \<not> NT_SUCCESS status then ret status else do {
       status \<leftarrow> AllocateMemory E BufL2 1;
       if \<not> NT_SUCCESS status then ret status else do {
         status \<leftarrow> AllocateMemory E BufTrap 1;
         if \<not> NT_SUCCESS status then ret status else do {
           c \<leftarrow> gets id;
           io_write 4 0 (MMU_PTE_VALID OR ucast (drop_bit 12 (bf_Dma (id_L2 c))));
           Iommu_Hw E (MmuBegin E (bf_Dma (id_Root c)) (bf_Dma (id_Trap c)))
         }
       }
     }
   }"

definition Iommu_Begin :: "env \<Rightarrow> ptr \<Rightarrow> (IOMMU_CONTEXT, NTSTATUS) prog" where
  "Iommu_Begin E file = do {
     c \<leftarrow> gets id;
     if id_BootFault c \<noteq> 0 then ret STATUS_DEVICE_HARDWARE_ERROR
     else if id_Owner c \<noteq> 0 then ret STATUS_DEVICE_BUSY
     else do {
       status \<leftarrow> Iommu_Begin_stage E;
       if NT_SUCCESS status then do {
         modify (\<lambda>c. c\<lparr>id_Owner := file\<rparr>);
         kernel_do E ''WdfDeviceSetStaticStopRemove'' [0];
         ret STATUS_SUCCESS
       } else do {
         fault \<leftarrow> gets (\<lambda>c. mmu_Fault (id_Hw c));
         whenM (fault = 0) (Iommu_FreeTables E);
         ret status
       }
     }
   }"

record IOMMU_REQUEST =
  ir_Version :: u32
  ir_Unit :: u32
  ir_Pages :: u32
  ir_Writable :: u32
  ir_Token :: u64
  ir_Address :: u64

record IOMMU_BUFFER =
  ib_Token :: u64
  ib_Iova :: u64
  ib_DmaAddress :: u64
  ib_CpuAddress :: u64
  ib_Bytes :: u32
  ib_Writable :: u32
  ib_StagedOnly :: u32

definition ib_zero :: IOMMU_BUFFER where
  "ib_zero = \<lparr>ib_Token = 0, ib_Iova = 0, ib_DmaAddress = 0, ib_CpuAddress = 0, ib_Bytes = 0,
     ib_Writable = 0, ib_StagedOnly = 0\<rparr>"

text \<open>The first slot without a buffer, and the slot of a token; a slot number of 16 is none.\<close>

definition free_slot :: "IOMMU_CONTEXT \<Rightarrow> nat" where
  "free_slot c = length (takeWhile (\<lambda>i. bf_Cpu (id_Buffers c ! i) \<noteq> 0) [0..<unat MMU_SLOTS])"

definition token_slot :: "IOMMU_CONTEXT \<Rightarrow> u64 \<Rightarrow> nat" where
  "token_slot c token = length (takeWhile (\<lambda>i. \<not> (bf_Cpu (id_Buffers c ! i) \<noteq> 0 \<and>
     bf_Token (id_Buffers c ! i) = token)) [0..<unat MMU_SLOTS])"

definition guarded_stores :: "nat \<Rightarrow> u32 \<Rightarrow> (IOMMU_CONTEXT, unit) prog" where
  "guarded_stores slot pages = forM [0..<unat MMU_WORDS] (\<lambda>i. do {
     io_write (buffer_bank (BufSlot slot)) (4 * of_nat i) GUARD_WORD;
     io_write (buffer_bank (BufSlot slot)) (guard_offset pages i) GUARD_WORD })"

definition Iommu_Map :: "env \<Rightarrow> nat \<Rightarrow> (IOMMU_CONTEXT, NTSTATUS) prog" where
  "Iommu_Map E slot = do {
     c \<leftarrow> gets id;
     let b = id_Buffers c ! slot;
     let (result, table) = MmuMap (id_Table c) (of_nat slot) (bf_Dma b + ucast MMU_PAGE) (bf_Pages b)
       (bf_Writable b);
     modify (\<lambda>c. c\<lparr>id_Table := table\<rparr>);
     Iommu_Result E result
   }"

definition Iommu_Allocate :: "env \<Rightarrow> IOMMU_REQUEST \<Rightarrow> (IOMMU_CONTEXT, NTSTATUS \<times> IOMMU_BUFFER) prog" where
  "Iommu_Allocate E rq = do {
     status \<leftarrow> Iommu_Hw E (MmuCheck E);
     c \<leftarrow> gets id;
     let slot = free_slot c;
     if \<not> NT_SUCCESS status then ret (status, ib_zero)
     else if slot = unat MMU_SLOTS \<or> id_NextToken c = 0xffffffffffffffff
     then ret (STATUS_INSUFFICIENT_RESOURCES, ib_zero)
     else do {
       status \<leftarrow> AllocateMemory E (BufSlot slot) (ir_Pages rq + 2);
       if \<not> NT_SUCCESS status then ret (status, ib_zero)
       else do {
         modify (set_buffer (BufSlot slot) (\<lambda>b. b\<lparr>bf_Pages := ir_Pages rq, bf_Writable := ir_Writable rq\<rparr>));
         guarded_stores slot (ir_Pages rq);
         status \<leftarrow> Iommu_Map E slot;
         if \<not> NT_SUCCESS status then do { FreeMemory E (BufSlot slot); ret (status, ib_zero) }
         else do {
           modify (\<lambda>c. c\<lparr>id_NextToken := id_NextToken c + 1\<rparr>);
           modify (\<lambda>c. set_buffer (BufSlot slot) (\<lambda>b. b\<lparr>bf_Mapped := 1, bf_Token := id_NextToken c\<rparr>) c);
           id_stats (\<lambda>s. s\<lparr>is_ActiveBuffers := is_ActiveBuffers s + 1, is_Allocations := is_Allocations s + 1\<rparr>);
           status \<leftarrow> Iommu_Hw E (MmuInvalidate E);
           b \<leftarrow> gets (\<lambda>c. id_Buffers c ! slot);
           if \<not> NT_SUCCESS status then ret (status, ib_zero)
           else ret (STATUS_SUCCESS,
             \<lparr>ib_Token = bf_Token b,
              ib_Iova = MMU_IOVA_BASE + ucast (of_nat slot * MMU_SLOT_PAGES + 1) * ucast MMU_PAGE,
              ib_DmaAddress = bf_Dma b + ucast MMU_PAGE,
              ib_CpuAddress = bf_Cpu b + 4 * ucast MMU_WORDS,
              ib_Bytes = bf_Pages b * MMU_PAGE, ib_Writable = bf_Writable b, ib_StagedOnly = 1\<rparr>)
         }
       }
     }
   }"

definition Iommu_Unmap :: "env \<Rightarrow> nat \<Rightarrow> (IOMMU_CONTEXT, NTSTATUS) prog" where
  "Iommu_Unmap E slot = do {
     c \<leftarrow> gets id;
     let (result, table) = MmuUnmap (id_Table c) (of_nat slot) (bf_Pages (id_Buffers c ! slot));
     modify (\<lambda>c. c\<lparr>id_Table := table\<rparr>);
     if result \<noteq> MmuOk then Quarantine E STATUS_DATA_ERROR
     else do {
       status \<leftarrow> Iommu_Hw E (MmuInvalidate E);
       whenM (NT_SUCCESS status) (modify (set_buffer (BufSlot slot) (\<lambda>b. b\<lparr>bf_Mapped := 0\<rparr>)));
       ret status
     }
   }"

definition Iommu_Retire :: "env \<Rightarrow> u64 \<Rightarrow> bool \<Rightarrow> (IOMMU_CONTEXT, NTSTATUS) prog" where
  "Iommu_Retire E token release = do {
     slot \<leftarrow> gets (\<lambda>c. token_slot c token);
     if slot = unat MMU_SLOTS then ret STATUS_NOT_FOUND
     else do {
       status \<leftarrow> Iommu_Hw E (MmuCheck E);
       if \<not> NT_SUCCESS status then ret status
       else do {
         io_barrier;
         b \<leftarrow> gets (\<lambda>c. id_Buffers c ! slot);
         intact \<leftarrow> Guards_intact E slot (bf_Pages b);
         if \<not> intact then Quarantine E STATUS_DATA_ERROR
         else do {
           id_stats (\<lambda>s. s\<lparr>is_GuardChecks := is_GuardChecks s + 1\<rparr>);
           if bf_Mapped b = 0 \<and> \<not> release then ret STATUS_ALREADY_COMPLETE
           else do {
             status \<leftarrow> (if bf_Mapped b \<noteq> 0 then Iommu_Unmap E slot else ret STATUS_SUCCESS);
             if \<not> NT_SUCCESS status then ret status
             else if \<not> release then ret STATUS_SUCCESS
             else do {
               FreeMemory E (BufSlot slot);
               id_stats (\<lambda>s. s\<lparr>is_ActiveBuffers := is_ActiveBuffers s - 1, is_Frees := is_Frees s + 1\<rparr>);
               ret STATUS_SUCCESS
             }
           }
         }
       }
     }
   }"

abbreviation Iommu_Free :: "env \<Rightarrow> u64 \<Rightarrow> (IOMMU_CONTEXT, NTSTATUS) prog" where
  "Iommu_Free E token \<equiv> Iommu_Retire E token True"

definition Iommu_End :: "env \<Rightarrow> (IOMMU_CONTEXT, NTSTATUS) prog" where
  "Iommu_End E = do {
     c \<leftarrow> gets id;
     if is_ActiveBuffers (id_Status c) \<noteq> 0 then ret STATUS_DEVICE_BUSY
     else do {
       status \<leftarrow> Iommu_Hw E (MmuEnd E);
       if \<not> NT_SUCCESS status then ret status
       else do {
         Iommu_FreeTables E;
         modify (\<lambda>c. c\<lparr>id_Owner := 0\<rparr>);
         kernel_do E ''WdfDeviceSetStaticStopRemove'' [1];
         ret STATUS_SUCCESS
       }
     }
   }"

section \<open>The execution window\<close>

record IOMMU_EXECUTION =
  ie_Version :: u32
  ie_Unit :: u32
  ie_Context :: ptr
  ie_Prepare :: ptr
  ie_Transfer :: ptr
  ie_Quiesce :: ptr

record IOMMU_EXECUTION_RESULT =
  ix_Status :: u32
  ix_PrepareStatus :: u32
  ix_TransferStatus :: u32
  ix_QuiesceStatus :: u32
  ix_Active :: u32
  ix_FaultFlags :: u32
  ix_ViolationAddress :: u32
  ix_TrapWordsChanged :: u32
  ix_Hits :: u32
  ix_Misses :: u32
  ix_Stalls :: u32
  ix_Executions :: u32

text \<open>Only \<open>STATUS_SUCCESS\<close> of a callback is a success. The callbacks of the client may use the device;
  they do not change the driver's state.\<close>

definition strict_status :: "NTSTATUS \<Rightarrow> NTSTATUS" where
  "strict_status status =
     (if status \<noteq> STATUS_SUCCESS \<and> NT_SUCCESS status then STATUS_DEVICE_PROTOCOL_ERROR else status)"

fun Execute_guards :: "env \<Rightarrow> nat list \<Rightarrow> (IOMMU_CONTEXT, bool) prog" where
  "Execute_guards E [] = ret True"
| "Execute_guards E (slot # slots) = do {
     b \<leftarrow> gets (\<lambda>c. id_Buffers c ! slot);
     if bf_Cpu b = 0 then Execute_guards E slots
     else do {
       intact \<leftarrow> Guards_intact E slot (bf_Pages b);
       if \<not> intact then ret False
       else do {
         id_stats (\<lambda>s. s\<lparr>is_GuardChecks := is_GuardChecks s + 1\<rparr>);
         Execute_guards E slots
       }
     }
   }"

text \<open>Activation, the transfer, and the stop that follows every attempt. The result is the status of
  the window and the statuses of the two callbacks.\<close>

definition Execute_window :: "env \<Rightarrow> ptr \<Rightarrow> (IOMMU_CONTEXT, NTSTATUS \<times> NTSTATUS \<times> NTSTATUS) prog" where
  "Execute_window E context = do {
     modify (\<lambda>c. c\<lparr>id_Executions := id_Executions c + 1\<rparr>);
     status \<leftarrow> Iommu_Hw E (MmuActivate E);
     transfer \<leftarrow> (if NT_SUCCESS status then kernel_status E ''Transfer'' [context]
       else ret STATUS_NOT_SUPPORTED);
     let status = (if NT_SUCCESS status then strict_status transfer else status);
     quiesce \<leftarrow> kernel_status E ''Quiesce'' [context];
     let stopped = strict_status quiesce;
     result \<leftarrow> on_hw (MmuDeactivate E (c_bool (NT_SUCCESS stopped)));
     status \<leftarrow> (if result \<noteq> MmuOk then Iommu_Result E result else ret status);
     status \<leftarrow> (if \<not> NT_SUCCESS stopped then Quarantine E stopped else ret status);
     ret (status, transfer, quiesce)
   }"

definition Execute_inspect :: "env \<Rightarrow> NTSTATUS \<Rightarrow> (IOMMU_CONTEXT, NTSTATUS \<times> u32) prog" where
  "Execute_inspect E status = do {
     io_barrier;
     intact \<leftarrow> Execute_guards E [0..<unat MMU_SLOTS];
     if \<not> intact then do { status \<leftarrow> Quarantine E STATUS_DATA_ERROR; ret (status, 0) }
     else do {
       trap \<leftarrow> mapM [0..<unat MMU_WORDS] (\<lambda>i. io_read E 6 (4 * of_nat i));
       ret (status, of_nat (length (filter (\<lambda>v. v \<noteq> 0) trap)))
     }
   }"

definition Iommu_Execute :: "env \<Rightarrow> IOMMU_EXECUTION \<Rightarrow> (IOMMU_CONTEXT, IOMMU_EXECUTION_RESULT) prog" where
  "Iommu_Execute E x = do {
     (status, prepare, transfer, quiesce, changed) \<leftarrow> do {
       status \<leftarrow> Iommu_Hw E (MmuCheck E);
       c \<leftarrow> gets id;
       if \<not> NT_SUCCESS status
       then ret (status, STATUS_NOT_SUPPORTED, STATUS_NOT_SUPPORTED, STATUS_NOT_SUPPORTED, 0)
       else if is_ActiveBuffers (id_Status c) = 0
       then ret (STATUS_INVALID_DEVICE_STATE, STATUS_NOT_SUPPORTED, STATUS_NOT_SUPPORTED, STATUS_NOT_SUPPORTED, 0)
       else do {
         prepare \<leftarrow> kernel_status E ''Prepare'' [ie_Context x];
         if \<not> NT_SUCCESS (strict_status prepare)
         then ret (strict_status prepare, prepare, STATUS_NOT_SUPPORTED, STATUS_NOT_SUPPORTED, 0)
         else do {
           (status, transfer, quiesce) \<leftarrow> Execute_window E (ie_Context x);
           active \<leftarrow> gets (\<lambda>c. mmu_Active (id_Hw c));
           (status, changed) \<leftarrow> (if active = 0 \<and> NT_SUCCESS (strict_status quiesce)
             then Execute_inspect E status else ret (status, 0));
           ret (status, prepare, transfer, quiesce, changed)
         }
       }
     };
     c \<leftarrow> gets id;
     whenM (id_BootFault c = 0) (id_stats (\<lambda>s. s\<lparr>is_LastStatus := status\<rparr>));
     let h = id_Hw c;
     ret \<lparr>ix_Status = status, ix_PrepareStatus = prepare, ix_TransferStatus = transfer,
       ix_QuiesceStatus = quiesce, ix_Active = mmu_Active h, ix_FaultFlags = mmu_FaultFlags h,
       ix_ViolationAddress = mmu_ViolationAddress h, ix_TrapWordsChanged = changed,
       ix_Hits = mmu_Hits h, ix_Misses = mmu_Misses h, ix_Stalls = mmu_Stalls h,
       ix_Executions = id_Executions c\<rparr>
   }"

section \<open>Status, power and removal\<close>

definition Iommu_Snapshot :: "env \<Rightarrow> (IOMMU_CONTEXT, unit) prog" where
  "Iommu_Snapshot E = do {
     units \<leftarrow> mapM [0, 1, 2] (\<lambda>i. mapM Offsets (\<lambda>off. io_read E i off));
     cache \<leftarrow> io_read E 3 0;
     c \<leftarrow> gets id;
     id_stats (\<lambda>s. s\<lparr>is_Units := units, is_CacheControl := cache,
       is_HardwareWrites := mmu_Writes (id_Hw c), is_Flushes := mmu_Flushes (id_Hw c),
       is_Owner := c_bool (id_Owner c \<noteq> 0), is_Staged := mmu_Staged (id_Hw c),
       is_Fault := c_bool (id_BootFault c \<noteq> 0)\<rparr>)
   }"

text \<open>The resources must be exactly the four register blocks.\<close>

definition Iommu_addresses :: "u64 list" where
  "Iommu_addresses = [0x1000005100, 0x1000005200, 0x1000005280, 0x1000005b00]"

fun Iommu_Map_blocks :: "env \<Rightarrow> cm_resource option list \<Rightarrow> u32 \<Rightarrow> (IOMMU_CONTEXT, NTSTATUS \<times> u32) prog" where
  "Iommu_Map_blocks E [] found = ret (STATUS_SUCCESS, found)"
| "Iommu_Map_blocks E (r # rs) found = (case r of
     None \<Rightarrow> ret (STATUS_DEVICE_CONFIGURATION_ERROR, found)
   | Some CmNull \<Rightarrow> Iommu_Map_blocks E rs found
   | Some CmDevicePrivate \<Rightarrow> Iommu_Map_blocks E rs found
   | Some (CmMemory start bytes) \<Rightarrow>
       (let j = length (takeWhile (\<lambda>a. a \<noteq> start) Iommu_addresses) in
        if bytes \<noteq> MMIO_BYTES \<or> j = length Iommu_addresses \<or> bit found j
        then ret (STATUS_DEVICE_CONFIGURATION_ERROR, found)
        else do {
          p \<leftarrow> io_call E ''MmMapIoSpaceEx'' [start, ucast MMIO_BYTES,
            (if j = 1 \<or> j = 3 then PAGE_READWRITE else PAGE_READONLY) OR PAGE_NOCACHE];
          modify (\<lambda>c. c\<lparr>id_Registers := (id_Registers c)[j := p]\<rparr>);
          if p = 0 then ret (STATUS_INSUFFICIENT_RESOURCES, found)
          else Iommu_Map_blocks E rs (set_bit j found)
        })
   | _ \<Rightarrow> ret (STATUS_DEVICE_CONFIGURATION_ERROR, found))"

definition Iommu_Prepare :: "env \<Rightarrow> cm_resource option list \<Rightarrow> (IOMMU_CONTEXT, NTSTATUS) prog" where
  "Iommu_Prepare E rs = do {
     c \<leftarrow> gets id;
     if id_BootFault c \<noteq> 0 then ret STATUS_DEVICE_HARDWARE_ERROR
     else do {
       status \<leftarrow> FaultMarker E False;
       if NT_SUCCESS status
       then do { modify (\<lambda>c. c\<lparr>id_BootFault := 1\<rparr>); ret STATUS_DEVICE_HARDWARE_ERROR }
       else if status \<noteq> STATUS_OBJECT_NAME_NOT_FOUND \<and> status \<noteq> STATUS_OBJECT_PATH_NOT_FOUND
       then ret status
       else do {
         (status, found) \<leftarrow> Iommu_Map_blocks E rs 0;
         if \<not> NT_SUCCESS status then ret status
         else if found \<noteq> 15 then ret STATUS_DEVICE_CONFIGURATION_ERROR
         else do {
           Iommu_Snapshot E;
           adapter \<leftarrow> io_call E ''IoGetDmaAdapter'' [36, (ucast MMU_MAX_PAGES + 2) * ucast MMU_PAGE];
           modify (\<lambda>c. c\<lparr>id_Adapter := adapter\<rparr>);
           if adapter = 0 then ret STATUS_INSUFFICIENT_RESOURCES
           else do {
             supported \<leftarrow> io_call E ''DmaOperations.AllocateCommonBufferEx'' [adapter];
             ret (if supported = 0 then STATUS_NOT_SUPPORTED else STATUS_SUCCESS)
           }
         }
       }
     }
   }"

definition Iommu_Busy_quarantine :: "env \<Rightarrow> (IOMMU_CONTEXT, unit) prog" where
  "Iommu_Busy_quarantine E = do {
     c \<leftarrow> gets id;
     whenM (id_Owner c \<noteq> 0 \<or> mmu_Staged (id_Hw c) \<noteq> 0)
       (do { status \<leftarrow> Quarantine E STATUS_DEVICE_BUSY; ret () })
   }"

definition Iommu_ReleaseHardware :: "env \<Rightarrow> (IOMMU_CONTEXT, NTSTATUS) prog" where
  "Iommu_ReleaseHardware E = do {
     Kernel_Lock_forever E;
     Iommu_Busy_quarantine E;
     id_stats (\<lambda>s. s\<lparr>is_Online := 0\<rparr>);
     forM [0..<4] (\<lambda>i. do {
       p \<leftarrow> gets (\<lambda>c. id_Registers c ! i);
       whenM (p \<noteq> 0) (kernel_do E ''MmUnmapIoSpace'' [p, ucast MMIO_BYTES]);
       modify (\<lambda>c. c\<lparr>id_Registers := (id_Registers c)[i := 0]\<rparr>)
     });
     c \<leftarrow> gets id;
     whenM (id_Adapter c \<noteq> 0 \<and> id_BootFault c = 0) (do {
       kernel_do E ''PutDmaAdapter'' [id_Adapter c];
       modify (\<lambda>c. c\<lparr>id_Adapter := 0\<rparr>)
     });
     Kernel_Unlock E;
     ret STATUS_SUCCESS
   }"

definition Iommu_D0Entry :: "env \<Rightarrow> (IOMMU_CONTEXT, NTSTATUS) prog" where
  "Iommu_D0Entry E = do {
     Kernel_Lock_forever E;
     boot \<leftarrow> gets id_BootFault;
     id_stats (\<lambda>s. s\<lparr>is_Online := c_bool (boot = 0)\<rparr>);
     Kernel_Unlock E;
     ret (if boot \<noteq> 0 then STATUS_DEVICE_HARDWARE_ERROR else STATUS_SUCCESS)
   }"

definition Iommu_D0Exit :: "env \<Rightarrow> (IOMMU_CONTEXT, NTSTATUS) prog" where
  "Iommu_D0Exit E = do {
     Kernel_Lock_forever E;
     id_stats (\<lambda>s. s\<lparr>is_Online := 0\<rparr>);
     Iommu_Busy_quarantine E;
     Kernel_Unlock E;
     ret STATUS_SUCCESS
   }"

definition Iommu_QueryStop :: "env \<Rightarrow> (IOMMU_CONTEXT, NTSTATUS) prog" where
  "Iommu_QueryStop E = do {
     Kernel_Lock_forever E;
     c \<leftarrow> gets id;
     Kernel_Unlock E;
     ret (if id_Owner c \<noteq> 0 \<or> id_BootFault c \<noteq> 0 then STATUS_DEVICE_BUSY else STATUS_SUCCESS)
   }"

fun Cleanup_free :: "env \<Rightarrow> nat list \<Rightarrow> (IOMMU_CONTEXT, unit) prog" where
  "Cleanup_free E [] = ret ()"
| "Cleanup_free E (i # is) = do {
     c \<leftarrow> gets id;
     if id_BootFault c \<noteq> 0 then ret ()
     else if bf_Cpu (id_Buffers c ! i) = 0 then Cleanup_free E is
     else do {
       status \<leftarrow> Iommu_Free E (bf_Token (id_Buffers c ! i));
       if \<not> NT_SUCCESS status then ret () else Cleanup_free E is
     }
   }"

definition Iommu_Cleanup :: "env \<Rightarrow> ptr \<Rightarrow> (IOMMU_CONTEXT, unit) prog" where
  "Iommu_Cleanup E file = do {
     Kernel_Lock_forever E;
     owner \<leftarrow> gets id_Owner;
     whenM (owner = file) (do {
       id_stats (\<lambda>s. s\<lparr>is_Cleanups := is_Cleanups s + 1\<rparr>);
       Cleanup_free E [0..<unat MMU_SLOTS];
       boot \<leftarrow> gets id_BootFault;
       status \<leftarrow> (if boot = 0 then Iommu_End E else ret STATUS_SUCCESS);
       boot \<leftarrow> gets id_BootFault;
       whenM (\<not> NT_SUCCESS status \<and> boot = 0) (do { s \<leftarrow> Quarantine E status; ret () });
       modify (\<lambda>c. c\<lparr>id_Owner := 0\<rparr>)
     });
     Kernel_Unlock E
   }"

section \<open>Requests\<close>

datatype iommu_ioctl = IOMMU_QUERY | IOMMU_BEGIN | IOMMU_ALLOCATE | IOMMU_FREE | IOMMU_SYNC
  | IOMMU_END | IOMMU_WALK | IOMMU_EXECUTE | IOMMU_RETIRE | IOMMU_OTHER

definition Iommu_ValidRequest :: "IOMMU_REQUEST \<Rightarrow> iommu_ioctl \<Rightarrow> bool" where
  "Iommu_ValidRequest q code \<longleftrightarrow> ir_Version q = 1 \<and> ir_Unit q = 4 \<and>
     (case code of
        IOMMU_ALLOCATE \<Rightarrow> ir_Pages q \<ge> 1 \<and> ir_Pages q \<le> MMU_MAX_PAGES \<and> ir_Writable q \<le> 1 \<and>
          ir_Token q = 0 \<and> ir_Address q = 0
      | IOMMU_FREE \<Rightarrow> ir_Pages q = 0 \<and> ir_Writable q = 0 \<and> ir_Token q \<noteq> 0 \<and> ir_Address q = 0
      | IOMMU_RETIRE \<Rightarrow> ir_Pages q = 0 \<and> ir_Writable q = 0 \<and> ir_Token q \<noteq> 0 \<and> ir_Address q = 0
      | IOMMU_WALK \<Rightarrow> ir_Pages q = 0 \<and> ir_Writable q \<le> 1 \<and> ir_Token q = 0
      | _ \<Rightarrow> ir_Pages q = 0 \<and> ir_Writable q = 0 \<and> ir_Token q = 0 \<and> ir_Address q = 0)"

text \<open>What a request carries. The copies of the input that do not belong to its code are not read.\<close>

record iommu_request_in =
  iq_Input :: u64
  iq_Output :: u64
  iq_KernelMode :: bool
  iq_File :: ptr
  iq_Request :: IOMMU_REQUEST
  iq_Execution :: IOMMU_EXECUTION

datatype iommu_reply = NoReply | StatusReply IOMMU_STATUS | BufferReply IOMMU_BUFFER
  | ExecutionReply IOMMU_EXECUTION_RESULT

text \<open>The checks made before the lock is taken: the completion status of a request that fails them.\<close>

definition Iommu_Screen :: "env \<Rightarrow> iommu_ioctl \<Rightarrow> iommu_request_in \<Rightarrow> ('s, NTSTATUS) prog" where
  "Iommu_Screen E code rq =
     (if code = IOMMU_OTHER then ret STATUS_INVALID_DEVICE_REQUEST
      else if code = IOMMU_QUERY
      then ret (if iq_Input rq \<noteq> 0 then STATUS_INVALID_PARAMETER else STATUS_SUCCESS)
      else if \<not> iq_KernelMode rq \<or> iq_File rq = 0 then ret STATUS_ACCESS_DENIED
      else if code = IOMMU_EXECUTE then
        (if iq_Input rq \<noteq> 40 \<or> iq_Output rq \<noteq> 48 then ret STATUS_INVALID_PARAMETER
         else do {
           status \<leftarrow> kernel_status E ''WdfRequestRetrieveInputBuffer'' [40];
           let x = iq_Execution rq;
           if \<not> NT_SUCCESS status then ret status
           else if ie_Version x \<noteq> 1 \<or> ie_Unit x \<noteq> 4 \<or> ie_Prepare x = 0 \<or> ie_Transfer x = 0 \<or> ie_Quiesce x = 0
           then ret STATUS_INVALID_PARAMETER
           else kernel_status E ''WdfRequestRetrieveOutputBuffer'' [48]
         })
      else if iq_Input rq \<noteq> 32 \<or> iq_Output rq \<noteq> (if code = IOMMU_ALLOCATE \<or> code = IOMMU_WALK then 48 else 0)
      then ret STATUS_INVALID_PARAMETER
      else do {
        status \<leftarrow> kernel_status E ''WdfRequestRetrieveInputBuffer'' [32];
        if \<not> NT_SUCCESS status then ret status
        else if \<not> Iommu_ValidRequest (iq_Request rq) code then ret STATUS_INVALID_PARAMETER
        else if iq_Output rq \<noteq> 0 then kernel_status E ''WdfRequestRetrieveOutputBuffer'' [48]
        else ret STATUS_SUCCESS
      })"

definition Iommu_Walk :: "env \<Rightarrow> IOMMU_REQUEST \<Rightarrow> (IOMMU_CONTEXT, NTSTATUS \<times> IOMMU_BUFFER) prog" where
  "Iommu_Walk E q = do {
     status \<leftarrow> Iommu_Hw E (MmuCheck E);
     if \<not> NT_SUCCESS status then ret (status, ib_zero)
     else do {
       table \<leftarrow> gets id_Table;
       let (result, dma) = MmuWalk table (ir_Address q) (ir_Writable q);
       status \<leftarrow> Iommu_Result E result;
       ret (status, ib_zero\<lparr>ib_DmaAddress := dma, ib_StagedOnly := 1\<rparr>)
     }
   }"

definition Iommu_Dispatch :: "env \<Rightarrow> iommu_ioctl \<Rightarrow> iommu_request_in \<Rightarrow>
    (IOMMU_CONTEXT, NTSTATUS \<times> iommu_reply) prog" where
  "Iommu_Dispatch E code rq = do {
     c \<leftarrow> gets id;
     if id_BootFault c \<noteq> 0 then ret (STATUS_DEVICE_HARDWARE_ERROR, NoReply)
     else if code = IOMMU_BEGIN then do { s \<leftarrow> Iommu_Begin E (iq_File rq); ret (s, NoReply) }
     else if id_Owner c = 0 \<or> id_Owner c \<noteq> iq_File rq then ret (STATUS_ACCESS_DENIED, NoReply)
     else case code of
       IOMMU_EXECUTE \<Rightarrow> do { x \<leftarrow> Iommu_Execute E (iq_Execution rq); ret (STATUS_SUCCESS, ExecutionReply x) }
     | IOMMU_ALLOCATE \<Rightarrow> do { (s, b) \<leftarrow> Iommu_Allocate E (iq_Request rq); ret (s, BufferReply b) }
     | IOMMU_FREE \<Rightarrow> do { s \<leftarrow> Iommu_Free E (ir_Token (iq_Request rq)); ret (s, NoReply) }
     | IOMMU_RETIRE \<Rightarrow> do { s \<leftarrow> Iommu_Retire E (ir_Token (iq_Request rq)) False; ret (s, NoReply) }
     | IOMMU_SYNC \<Rightarrow> do { s \<leftarrow> Iommu_Hw E (MmuInvalidate E); ret (s, NoReply) }
     | IOMMU_END \<Rightarrow> do { s \<leftarrow> Iommu_End E; ret (s, NoReply) }
     | _ \<Rightarrow> do { (s, b) \<leftarrow> Iommu_Walk E (iq_Request rq); ret (s, BufferReply b) }
   }"

text \<open>The completion: status, bytes written and the reply. An execution is always answered.\<close>

fun reply_bytes :: "iommu_reply \<Rightarrow> nat" where
  "reply_bytes NoReply = 0"
| "reply_bytes (StatusReply s) = 176"
| "reply_bytes (BufferReply b) = 48"
| "reply_bytes (ExecutionReply x) = 48"

definition Iommu_Control :: "env \<Rightarrow> iommu_ioctl \<Rightarrow> iommu_request_in \<Rightarrow>
    (IOMMU_CONTEXT, NTSTATUS \<times> nat \<times> iommu_reply) prog" where
  "Iommu_Control E code rq = do {
     status \<leftarrow> Iommu_Screen E code rq;
     if \<not> NT_SUCCESS status then ret (status, 0, NoReply)
     else do {
       Kernel_Lock_forever E;
       online \<leftarrow> gets (\<lambda>c. is_Online (id_Status c));
       (status, reply) \<leftarrow> (if online = 0 then ret (STATUS_DEVICE_NOT_READY, NoReply)
         else if code = IOMMU_QUERY then do {
           status \<leftarrow> kernel_status E ''WdfRequestRetrieveOutputBuffer'' [176];
           if \<not> NT_SUCCESS status then ret (status, NoReply)
           else do { Iommu_Snapshot E; s \<leftarrow> gets id_Status; ret (status, StatusReply s) }
         } else do {
           (status, reply) \<leftarrow> Iommu_Dispatch E code rq;
           boot \<leftarrow> gets id_BootFault;
           whenM (boot = 0 \<and> code \<noteq> IOMMU_EXECUTE) (id_stats (\<lambda>s. s\<lparr>is_LastStatus := status\<rparr>));
           ret (status, if NT_SUCCESS status then reply else NoReply)
         });
       Kernel_Unlock E;
       ret (status, reply_bytes reply, reply)
     }
   }"

section \<open>What the calls of the hardware layer do to the driver\<close>

definition quarantined :: "NTSTATUS \<Rightarrow> IOMMU_CONTEXT \<Rightarrow> IOMMU_CONTEXT" where
  "quarantined status c = c\<lparr>id_BootFault := 1, id_Hw := (id_Hw c)\<lparr>mmu_Fault := 1\<rparr>,
     id_Status := (id_Status c)\<lparr>is_Fault := 1, is_LastStatus := status,
       is_Failures := is_Failures (id_Status c) + 1\<rparr>\<rparr>"

lemma wp_FaultMarker:
  "(\<And>status v. st v = st w \<Longrightarrow> Q status v) \<Longrightarrow> wp (FaultMarker E create) Q w"
  by (auto simp: FaultMarker_def wp_simps intro!: kernel_any)

lemma wp_Quarantine:
  "(\<And>v. st v = quarantined status (st w) \<Longrightarrow> Q status v) \<Longrightarrow> wp (Quarantine E status) Q w"
  unfolding Quarantine_def by (simp add: wp_simps) (rule wp_FaultMarker, simp add: quarantined_def wp_simps)

lemma wp_Iommu_Result:
  assumes "r = MmuOk \<Longrightarrow> Q STATUS_SUCCESS w"
    and "\<And>status. r \<noteq> MmuOk \<Longrightarrow> \<not> NT_SUCCESS status \<Longrightarrow> mmu_Fault (id_Hw (st w)) = 0 \<Longrightarrow> Q status w"
    and "\<And>status v. r \<noteq> MmuOk \<Longrightarrow> \<not> NT_SUCCESS status \<Longrightarrow> mmu_Fault (id_Hw (st w)) \<noteq> 0 \<Longrightarrow>
      st v = quarantined status (st w) \<Longrightarrow> Q status v"
  shows "wp (Iommu_Result E r) Q w"
  unfolding Iommu_Result_def
  by (auto simp: wp_simps intro!: assms wp_Quarantine)

text \<open>No operation of the layer succeeds with a latched fault behind it.\<close>

lemma ok_unfaulted: "wp (mmu_run_op E p) (\<lambda>r v. r = MmuOk \<longrightarrow> mmu_Fault (st v) = 0) w"
proof -
  have inv: "wp (MmuInvalidate E) (\<lambda>r v. r = MmuOk \<longrightarrow> mmu_Fault (st v) = 0) w" for w
    by (rule wp_MmuInvalidate) (simp_all add: mmu_usable_def)
  have chk: "wp (MmuCheck E) (\<lambda>r v. r = MmuOk \<longrightarrow> mmu_Fault (st v) = 0) w" for w
    by (rule wp_MmuCheck) (simp_all add: mmu_usable_def)
  have "wp (MmuBegin E table trap) (\<lambda>r v. r = MmuOk \<longrightarrow> mmu_Fault (st v) = 0) w" for table trap
    unfolding MmuBegin_def
    apply (simp add: wp_simps)
    apply (intro impI, rule wp_all, simp add: wp_simps)
    apply (intro impI, rule wp_all, simp add: wp_simps)
    apply (intro impI, rule wp_all, simp add: wp_simps)
    apply (intro impI, rule wp_all, rule inv)
    done
  moreover have "wp (MmuEnd E) (\<lambda>r v. r = MmuOk \<longrightarrow> mmu_Fault (st v) = 0) w"
    unfolding MmuEnd_def
    apply (simp add: wp_simps)
    apply (rule wp_all, simp add: wp_simps)
    apply (intro impI, rule wp_all, unfold wp_bind, rule wp_mono [OF inv])
    apply (simp add: wp_simps)
    done
  moreover have "wp (MmuActivate E) (\<lambda>r v. r = MmuOk \<longrightarrow> mmu_Fault (st v) = 0) w"
    unfolding MmuActivate_def wp_bind
    by (rule wp_mono [OF inv]) (auto simp: wp_simps intro!: wp_any)
  moreover have "wp (MmuDeactivate E q) (\<lambda>r v. r = MmuOk \<longrightarrow> mmu_Fault (st v) = 0) w" for q
  proof -
    have cells: "wp (Mmu_Check_cells E ps) Q v"
      if "\<And>b v'. st v' = st v \<Longrightarrow> Q b v'" for ps Q v
      using that by (intro wpI) (blast dest: run_Check_cells)
    show ?thesis unfolding MmuDeactivate_def Let_def
      by (auto simp: wp_simps intro!: wp_any inv cells)
  qed
  ultimately show ?thesis by (cases p) (auto intro: inv chk)
qed

lemma wp_Iommu_Hw:
  assumes m: "wp m (\<lambda>r v. r = MmuOk \<longrightarrow> mmu_Fault (st v) = 0) \<lparr>st = id_Hw (st w), trace = trace w\<rparr>"
    and "\<And>h v. mmu_Fault h = 0 \<Longrightarrow> st v = (st w)\<lparr>id_Hw := h\<rparr> \<Longrightarrow> Q STATUS_SUCCESS v"
    and "\<And>h v status. mmu_Fault h = 0 \<Longrightarrow> \<not> NT_SUCCESS status \<Longrightarrow> st v = (st w)\<lparr>id_Hw := h\<rparr> \<Longrightarrow> Q status v"
    and "\<And>h v status. mmu_Fault h \<noteq> 0 \<Longrightarrow> \<not> NT_SUCCESS status \<Longrightarrow>
      st v = quarantined status ((st w)\<lparr>id_Hw := h\<rparr>) \<Longrightarrow> Q status v"
  shows "wp (Iommu_Hw E m) Q w"
  unfolding Iommu_Hw_def wp_simps
proof (rule wp_mono [OF m])
  fix r and v :: "MMU_HW world" assume r: "r = MmuOk \<longrightarrow> mmu_Fault (st v) = 0"
  show "wp (Iommu_Result E r) Q \<lparr>st = (st w)\<lparr>id_Hw := st v\<rparr>, trace = trace v\<rparr>"
    by (rule wp_Iommu_Result)
       (use r in \<open>auto intro: assms(2) assms(3) [where h = "st v"] assms(4) [where h = "st v"]\<close>)
qed

lemmas wp_Iommu_ops = wp_Iommu_Hw [OF ok_unfaulted [where p = "OpBegin table trap" for table trap, simplified]]
  wp_Iommu_Hw [OF ok_unfaulted [where p = OpEnd, simplified]]
  wp_Iommu_Hw [OF ok_unfaulted [where p = OpActivate, simplified]]
  wp_Iommu_Hw [OF ok_unfaulted [where p = OpInvalidate, simplified]]

lemma wp_Iommu_Check:
  assumes "\<And>v. mmu_usable (id_Hw (st w)) \<Longrightarrow> st v = st w \<Longrightarrow> Q STATUS_SUCCESS v"
    and "\<And>v status. \<not> NT_SUCCESS status \<Longrightarrow> st v = st w \<Longrightarrow> Q status v"
    and "\<And>v status h. \<not> NT_SUCCESS status \<Longrightarrow> st v = quarantined status ((st w)\<lparr>id_Hw := h\<rparr>) \<Longrightarrow> Q status v"
  shows "wp (Iommu_Hw E (MmuCheck E)) Q w"
proof -
  have same: "(st w)\<lparr>id_Hw := id_Hw (st w)\<rparr> = st w" by simp
  show ?thesis
    unfolding Iommu_Hw_def wp_simps
    apply (rule wp_MmuCheck)
      apply (rule wp_Iommu_Result; auto intro: assms)
     apply (rule wp_Iommu_Result; auto intro: assms(3))
    apply (rule wp_Iommu_Result; auto intro: assms(2) assms(3) [where h = "id_Hw (st w)"])
    done
qed

lemma wp_Iommu_Invalidate:
  assumes "mmu_usable (id_Hw (st w))"
    and "\<And>v h. mmu_usable h \<Longrightarrow> st v = (st w)\<lparr>id_Hw := h\<rparr> \<Longrightarrow> Q STATUS_SUCCESS v"
    and "\<And>v status h. \<not> NT_SUCCESS status \<Longrightarrow> st v = quarantined status ((st w)\<lparr>id_Hw := h\<rparr>) \<Longrightarrow> Q status v"
  shows "wp (Iommu_Hw E (MmuInvalidate E)) Q w"
  unfolding Iommu_Hw_def wp_simps
proof (rule wp_MmuInvalidate, goal_cases)
  case (1 v)
  have "mmu_usable (st v)" using 1 by (simp add: mmu_usable_def)
  then show ?case by (intro wp_Iommu_Result) (auto intro: assms(2) [where h = "st v"])
next
  case (2 r v)
  then show ?case by (intro wp_Iommu_Result) (auto intro: assms(3) [where h = "st v"])
qed (use assms(1) in simp)

section \<open>The accounting of the buffers\<close>

definition live :: "BUFFER \<Rightarrow> bool" where
  "live b \<longleftrightarrow> bf_Cpu b \<noteq> 0"

definition iommu_acct :: "IOMMU_CONTEXT \<Rightarrow> bool" where
  "iommu_acct c \<longleftrightarrow> length (id_Buffers c) = 16 \<and> length (id_Table c) = 1024 \<and>
     (\<forall>b\<in>set (id_Buffers c). \<not> live b \<longrightarrow> bf_Length b = 0 \<and> bf_Mapped b = 0) \<and>
     unat (is_ActiveBuffers (id_Status c)) = length (filter live (id_Buffers c)) \<and>
     is_AllocatedBytes (id_Status c) = bf_Length (id_Root c) + bf_Length (id_L2 c) + bf_Length (id_Trap c) +
       sum_list (map bf_Length (id_Buffers c)) \<and>
     (\<forall>b\<in>set (id_Buffers c). live b \<longrightarrow> bf_Token b \<noteq> 0 \<and> bf_Token b \<le> id_NextToken c) \<and>
     (\<forall>i < 16. \<forall>j < 16. live (id_Buffers c ! i) \<longrightarrow> live (id_Buffers c ! j) \<longrightarrow>
        bf_Token (id_Buffers c ! i) = bf_Token (id_Buffers c ! j) \<longrightarrow> i = j) \<and>
     (\<forall>b\<in>{id_Root c, id_L2 c, id_Trap c}. \<not> live b \<longrightarrow> bf_Length b = 0)"

definition slot_entry :: "BUFFER \<Rightarrow> nat \<Rightarrow> u32" where
  "slot_entry b k = (if live b \<and> bf_Mapped b \<noteq> 0 \<and> 1 \<le> k \<and> k \<le> unat (bf_Pages b)
     then mmu_pte (bf_Dma b + ucast MMU_PAGE) (k - 1) (bf_Writable b) else 0)"

definition buffer_ok :: "BUFFER \<Rightarrow> bool" where
  "buffer_ok b \<longleftrightarrow> (live b \<longrightarrow> bf_Mapped b \<noteq> 0 \<longrightarrow> Mmu_Address (bf_Dma b + ucast MMU_PAGE) (bf_Pages b) \<and>
     bf_Pages b \<le> MMU_MAX_PAGES \<and> bf_Writable b \<le> 1)"

definition iommu_sound :: "IOMMU_CONTEXT \<Rightarrow> bool" where
  "iommu_sound c \<longleftrightarrow> mmu_Fault (id_Hw c) = 0 \<and>
     (\<forall>i < 16. \<forall>k < 18. id_Table c ! (i * 18 + k) = slot_entry (id_Buffers c ! i) k) \<and>
     (\<forall>b\<in>set (id_Buffers c). buffer_ok b) \<and>
     (id_Owner c = 0 \<longrightarrow> is_ActiveBuffers (id_Status c) = 0 \<and>
        (\<forall>b\<in>{id_Root c, id_L2 c, id_Trap c}. \<not> live b \<and> bf_Length b = 0))"

definition iommu_inv :: "IOMMU_CONTEXT \<Rightarrow> bool" where
  "iommu_inv c \<longleftrightarrow> iommu_acct c \<and> (id_BootFault c = 0 \<longrightarrow> iommu_sound c)"

lemma inv_zero: "iommu_inv id_zero"
proof -
  have "filter live (replicate 16 bf_zero) = []" by (simp add: live_def bf_zero_def)
  moreover have "id_Table id_zero ! (i * 18 + k) = 0" if "i < 16" "k < 18" for i k
    using that by (simp add: id_zero_def)
  ultimately show ?thesis
    by (simp add: iommu_inv_def iommu_acct_def iommu_sound_def live_def bf_zero_def id_zero_def is_zero_def
      mmu_zero_def slot_entry_def buffer_ok_def sum_list_replicate)
qed

lemma acct_cong:
  "id_Buffers c' = id_Buffers c \<Longrightarrow> length (id_Table c') = length (id_Table c) \<Longrightarrow>
   is_ActiveBuffers (id_Status c') = is_ActiveBuffers (id_Status c) \<Longrightarrow>
   is_AllocatedBytes (id_Status c') = is_AllocatedBytes (id_Status c) \<Longrightarrow> id_Root c' = id_Root c \<Longrightarrow>
   id_L2 c' = id_L2 c \<Longrightarrow> id_Trap c' = id_Trap c \<Longrightarrow> id_NextToken c' = id_NextToken c \<Longrightarrow>
   iommu_acct c' = iommu_acct c"
  unfolding iommu_acct_def by simp

lemma inv_quarantined: "iommu_acct c \<Longrightarrow> iommu_inv (quarantined status (c\<lparr>id_Hw := h\<rparr>))"
  "iommu_acct c \<Longrightarrow> iommu_inv (quarantined status c)"
  by (simp_all add: iommu_inv_def quarantined_def iommu_acct_def)

lemma inv_hw: "iommu_inv c \<Longrightarrow> mmu_Fault h = 0 \<Longrightarrow> iommu_inv (c\<lparr>id_Hw := h\<rparr>)"
  by (simp add: iommu_inv_def iommu_acct_def iommu_sound_def)

lemma acctD:
  assumes "iommu_acct c"
  shows "length (id_Buffers c) = 16" and "length (id_Table c) = 1024"
    and "\<forall>b\<in>set (id_Buffers c). \<not> live b \<longrightarrow> bf_Length b = 0 \<and> bf_Mapped b = 0"
    and "unat (is_ActiveBuffers (id_Status c)) = length (filter live (id_Buffers c))"
    and "is_AllocatedBytes (id_Status c) = bf_Length (id_Root c) + bf_Length (id_L2 c) + bf_Length (id_Trap c) +
       sum_list (map bf_Length (id_Buffers c))"
    and "\<forall>b\<in>set (id_Buffers c). live b \<longrightarrow> bf_Token b \<noteq> 0 \<and> bf_Token b \<le> id_NextToken c"
    and "\<forall>i < 16. \<forall>j < 16. live (id_Buffers c ! i) \<longrightarrow> live (id_Buffers c ! j) \<longrightarrow>
        bf_Token (id_Buffers c ! i) = bf_Token (id_Buffers c ! j) \<longrightarrow> i = j"
    and "\<forall>b\<in>{id_Root c, id_L2 c, id_Trap c}. \<not> live b \<longrightarrow> bf_Length b = 0"
  using assms unfolding iommu_acct_def by blast+

text \<open>Replacing one buffer of the list.\<close>

lemma filter_update:
  "i < length bs \<Longrightarrow> length (filter P (bs[i := b])) + of_bool (P (bs ! i)) = length (filter P bs) + of_bool (P b)"
proof (induction bs arbitrary: i)
  case (Cons x bs)
  then show ?case by (cases i) (auto dest: meta_spec [where x = "i - 1"])
qed simp

lemma sum_update:
  "i < length bs \<Longrightarrow> sum_list (map f (bs[i := b])) = sum_list (map f bs) - f (bs ! i) + (f b :: u32)"
  by (induction bs arbitrary: i) (auto split: nat.splits simp: nth_Cons)

lemma minus_1_eq_u64: "(- 1 :: u64) = 0xffffffffffffffff"
  by simp

lemma filter_16: "length bs = 16 \<Longrightarrow> length (filter P bs) \<le> 16"
  using length_filter_le [of P bs] by simp

lemma acct_add:
  assumes acct: "iommu_acct c" and i: "i < 16" "\<not> live (id_Buffers c ! i)" and b: "live b"
    and tok: "bf_Token b = id_NextToken c + 1" "id_NextToken c \<noteq> 0xffffffffffffffff"
    and c': "id_Buffers c' = (id_Buffers c)[i := b]" "id_NextToken c' = id_NextToken c + 1"
      "length (id_Table c') = 1024" "is_ActiveBuffers (id_Status c') = is_ActiveBuffers (id_Status c) + 1"
      "is_AllocatedBytes (id_Status c') = is_AllocatedBytes (id_Status c) + bf_Length b"
      "id_Root c' = id_Root c" "id_L2 c' = id_L2 c" "id_Trap c' = id_Trap c"
  shows "iommu_acct c'"
proof -
  note a = acctD [OF acct]
  note len = a(1)
  have zero: "bf_Length (id_Buffers c ! i) = 0" using a(3) i len by (metis nth_mem)
  have count: "length (filter live (id_Buffers c')) = length (filter live (id_Buffers c)) + 1"
    using filter_update [of i "id_Buffers c" live b] i b len by (simp add: c'(1))
  have active: "unat (is_ActiveBuffers (id_Status c')) = unat (is_ActiveBuffers (id_Status c)) + 1"
    unfolding c'(4) using a(4) filter_16 [OF len, of live] by (subst unat_add_small) simp_all
  have next': "unat (id_NextToken c + 1) = unat (id_NextToken c) + 1"
  proof -
    have "1 + id_NextToken c \<noteq> 0"
      using tok(2) by (metis add.commute add_diff_cancel_right' diff_0 minus_1_eq_u64)
    then show ?thesis using unatSuc [of "id_NextToken c"] by (simp add: add.commute)
  qed
  have fresh: "x \<le> id_NextToken c \<Longrightarrow> x < id_NextToken c + 1" for x
    by (simp add: word_less_nat_alt word_le_nat_alt next')
  show ?thesis
    unfolding iommu_acct_def
  proof (intro conjI)
    show "\<forall>b\<in>set (id_Buffers c'). live b \<longrightarrow> bf_Token b \<noteq> 0 \<and> bf_Token b \<le> id_NextToken c'"
      using a(6) fresh tok b unfolding c' by (auto dest!: set_update_subset_insert [THEN subsetD] simp: less_imp_le)
        (use next' in auto)
    show "\<forall>i<16. \<forall>j<16. live (id_Buffers c' ! i) \<longrightarrow> live (id_Buffers c' ! j) \<longrightarrow>
        bf_Token (id_Buffers c' ! i) = bf_Token (id_Buffers c' ! j) \<longrightarrow> i = j"
    proof -
      have "bf_Token (id_Buffers c ! j) \<noteq> id_NextToken c + 1" if "j < 16" "live (id_Buffers c ! j)" for j
        using a(6) fresh that len by (metis nth_mem less_irrefl)
      then have "i = j \<or> i' = j'" if "i' < 16" "j' < 16" "live ((id_Buffers c)[i := b] ! i')"
          "live ((id_Buffers c)[i := b] ! j')" "i = i' \<or> i = j'"
          "bf_Token ((id_Buffers c)[i := b] ! i') = bf_Token ((id_Buffers c)[i := b] ! j')" for i' j' j
        using that tok(1) i(1) len by (metis nth_list_update_eq nth_list_update_neq)
      then show ?thesis using a(7) unfolding c'(1) by (metis nth_list_update_neq)
    qed
    show "\<forall>b\<in>set (id_Buffers c'). \<not> live b \<longrightarrow> bf_Length b = 0 \<and> bf_Mapped b = 0"
      using a(3) b unfolding c' by (auto dest!: set_update_subset_insert [THEN subsetD])
    show "is_AllocatedBytes (id_Status c') = bf_Length (id_Root c') + bf_Length (id_L2 c') +
        bf_Length (id_Trap c') + sum_list (map bf_Length (id_Buffers c'))"
      using a(5) i len zero unfolding c' by (simp add: sum_update)
  qed (use a(4,8) len count active c' in simp_all)
qed

lemma acct_remove:
  assumes acct: "iommu_acct c" and i: "i < 16" "live (id_Buffers c ! i)"
    and c': "id_Buffers c' = (id_Buffers c)[i := bf_zero]" "id_NextToken c' = id_NextToken c"
      "length (id_Table c') = 1024" "is_ActiveBuffers (id_Status c') = is_ActiveBuffers (id_Status c) - 1"
      "is_AllocatedBytes (id_Status c') = is_AllocatedBytes (id_Status c) - bf_Length (id_Buffers c ! i)"
      "id_Root c' = id_Root c" "id_L2 c' = id_L2 c" "id_Trap c' = id_Trap c"
  shows "iommu_acct c'"
proof -
  note a = acctD [OF acct]
  note len = a(1)
  have dead: "\<not> live bf_zero" "bf_Length bf_zero = 0" "bf_Mapped bf_zero = 0"
    by (simp_all add: live_def bf_zero_def)
  have count: "Suc (length (filter live (id_Buffers c'))) = length (filter live (id_Buffers c))"
    using filter_update [of i "id_Buffers c" live bf_zero] i dead len by (simp add: c'(1))
  have "unat (is_ActiveBuffers (id_Status c)) \<noteq> 0" using a(4) count by linarith
  then have "unat (is_ActiveBuffers (id_Status c')) = unat (is_ActiveBuffers (id_Status c)) - 1"
    unfolding c'(4) by (subst unat_minus_one) auto
  with a(4) count have active: "unat (is_ActiveBuffers (id_Status c')) = length (filter live (id_Buffers c'))" by simp
  show ?thesis
    unfolding iommu_acct_def
  proof (intro conjI)
    show "\<forall>i<16. \<forall>j<16. live (id_Buffers c' ! i) \<longrightarrow> live (id_Buffers c' ! j) \<longrightarrow>
        bf_Token (id_Buffers c' ! i) = bf_Token (id_Buffers c' ! j) \<longrightarrow> i = j"
      using a(7) dead len unfolding c'(1) by (metis nth_list_update_eq nth_list_update_neq)
    show "\<forall>b\<in>set (id_Buffers c'). live b \<longrightarrow> bf_Token b \<noteq> 0 \<and> bf_Token b \<le> id_NextToken c'"
      using a(6) dead unfolding c' by (auto dest!: set_update_subset_insert [THEN subsetD])
    show "\<forall>b\<in>set (id_Buffers c'). \<not> live b \<longrightarrow> bf_Length b = 0 \<and> bf_Mapped b = 0"
      using a(3) dead unfolding c' by (auto dest!: set_update_subset_insert [THEN subsetD])
    show "is_AllocatedBytes (id_Status c') = bf_Length (id_Root c') + bf_Length (id_L2 c') +
        bf_Length (id_Trap c') + sum_list (map bf_Length (id_Buffers c'))"
      using a(5) i len dead unfolding c' by (simp add: sum_update)
  qed (use a(8) len active c' in simp_all)
qed

text \<open>A change of a buffer that keeps its life, length and token.\<close>

lemma acct_change:
  assumes acct: "iommu_acct c" and i: "i < 16" "live b = live (id_Buffers c ! i)"
      "bf_Length b = bf_Length (id_Buffers c ! i)" "live b \<longrightarrow> bf_Token b = bf_Token (id_Buffers c ! i)"
      "live b \<or> bf_Mapped b = 0"
    and c': "id_Buffers c' = (id_Buffers c)[i := b]" "id_NextToken c' = id_NextToken c"
      "length (id_Table c') = 1024" "is_ActiveBuffers (id_Status c') = is_ActiveBuffers (id_Status c)"
      "is_AllocatedBytes (id_Status c') = is_AllocatedBytes (id_Status c)"
      "id_Root c' = id_Root c" "id_L2 c' = id_L2 c" "id_Trap c' = id_Trap c"
  shows "iommu_acct c'"
proof -
  note a = acctD [OF acct]
  note len = a(1)
  have count: "length (filter live (id_Buffers c')) = length (filter live (id_Buffers c))"
    using filter_update [of i "id_Buffers c" live b] i len by (simp add: c'(1))
  have old: "id_Buffers c ! i \<in> set (id_Buffers c)" using i len by simp
  show ?thesis
    unfolding iommu_acct_def
  proof (intro conjI)
    show "\<forall>i<16. \<forall>j<16. live (id_Buffers c' ! i) \<longrightarrow> live (id_Buffers c' ! j) \<longrightarrow>
        bf_Token (id_Buffers c' ! i) = bf_Token (id_Buffers c' ! j) \<longrightarrow> i = j"
      using a(7) i len unfolding c'(1) by (metis nth_list_update_eq nth_list_update_neq)
    show "\<forall>b\<in>set (id_Buffers c'). live b \<longrightarrow> bf_Token b \<noteq> 0 \<and> bf_Token b \<le> id_NextToken c'"
      using a(6) i old unfolding c' by (auto dest!: set_update_subset_insert [THEN subsetD])
    show "\<forall>b\<in>set (id_Buffers c'). \<not> live b \<longrightarrow> bf_Length b = 0 \<and> bf_Mapped b = 0"
      using a(3) i old unfolding c' by (auto dest!: set_update_subset_insert [THEN subsetD])
    show "is_AllocatedBytes (id_Status c') = bf_Length (id_Root c') + bf_Length (id_L2 c') +
        bf_Length (id_Trap c') + sum_list (map bf_Length (id_Buffers c'))"
      using a(5) i len unfolding c' by (simp add: sum_update)
  qed (use a(4,8) len count c' in simp_all)
qed

section \<open>The table\<close>

lemma MmuMap_fail: "MmuMap l2 slot dma pages wr = (r, l2') \<Longrightarrow> r \<noteq> MmuOk \<Longrightarrow> l2' = l2"
  by (auto simp: MmuMap_def Let_def split: if_splits)

lemma MmuUnmap_fail: "MmuUnmap l2 slot pages = (r, l2') \<Longrightarrow> r \<noteq> MmuOk \<Longrightarrow> l2' = l2"
  by (auto simp: MmuUnmap_def Let_def split: if_splits)

lemma length_MmuMap: "MmuMap l2 slot dma pages wr = (r, l2') \<Longrightarrow> length l2' = length l2"
  by (auto simp: MmuMap_def Let_def split: if_splits)

lemma length_MmuUnmap: "MmuUnmap l2 slot pages = (r, l2') \<Longrightarrow> length l2' = length l2"
  by (auto simp: MmuUnmap_def Let_def split: if_splits)

lemma nth_MmuUnmap:
  assumes "MmuUnmap l2 slot pages = (MmuOk, l2')" and "k < length l2"
  shows "unat slot < 16" and "unat pages \<le> 16"
    and "l2' ! k = (if unat slot * 18 < k \<and> k \<le> unat slot * 18 + unat pages then 0 else l2 ! k)"
proof -
  show s: "unat slot < 16" "unat pages \<le> 16"
    using assms by (auto simp: MmuUnmap_def word_le_nat_alt not_le not_less Let_def split: if_splits)
  have start: "unat (slot * MMU_SLOT_PAGES) = unat slot * 18" using s by (simp add: unat_word_ariths)
  have "l2' = fold (\<lambda>i t. t[unat slot * 18 + i := 0]) [1..<Suc (unat pages)] l2"
    using assms by (auto simp: MmuUnmap_def start Let_def split: if_splits)
  then show "l2' ! k = (if unat slot * 18 < k \<and> k \<le> unat slot * 18 + unat pages then 0 else l2 ! k)"
    using nth_MmuUnmap_loop [OF assms(2)] by simp
qed

lemma slot_index: "i < 16 \<Longrightarrow> unat (of_nat i :: u32) = i"
  by (simp add: unat_of_nat)

lemma sound_add:
  assumes s: "iommu_sound c" and len: "length (id_Buffers c) = 16" "length (id_Table c) = 1024"
    and i: "i < 16" and b: "live b" "bf_Mapped b \<noteq> 0"
    and m: "MmuMap (id_Table c) (of_nat i) (bf_Dma b + ucast MMU_PAGE) (bf_Pages b) (bf_Writable b) = (MmuOk, table)"
    and c': "id_Buffers c' = (id_Buffers c)[i := b]" "id_Table c' = table" "id_Owner c' \<noteq> 0"
      "mmu_Fault (id_Hw c') = 0"
  shows "iommu_sound c'"
  unfolding iommu_sound_def
proof (intro conjI allI impI)
  fix j k :: nat assume jk: "j < 16" "k < 18"
  note p = MmuMap_ok(2,3) [OF m] Mmu_Address_nat(4) [OF MmuMap_ok(2) [OF m]]
  have old: "id_Table c ! (j * 18 + k) = slot_entry (id_Buffers c ! j) k"
    using s jk by (simp add: iommu_sound_def)
  have idx: "j * 18 + k < length (id_Table c)" using jk len by simp
  show "id_Table c' ! (j * 18 + k) = slot_entry (id_Buffers c' ! j) k"
  proof (cases "j = i")
    case True
    have "id_Table c ! (i * 18 + k) = 0" using MmuMap_ok(4) [OF m] jk by (simp add: slot_index i)
    then show ?thesis
      using nth_MmuMap [OF m idx] True b i len p jk
      by (auto simp: c' slot_index slot_entry_def)
  next
    case False
    then have out: "\<not> (Suc (i * 18) \<le> j * 18 + k \<and> j * 18 + k < Suc (i * 18) + unat (bf_Pages b))"
      using p(3) jk by (cases "j < i") auto
    have "table ! (j * 18 + k) = id_Table c ! (j * 18 + k)"
      using nth_MmuMap [OF m idx] by (simp only: slot_index [OF i] out if_False)
    then show ?thesis using False old by (simp add: c')
  qed
next
  show "\<forall>b\<in>set (id_Buffers c'). buffer_ok b"
    using s MmuMap_ok(2,3) [OF m] unfolding c'
    by (auto dest!: set_update_subset_insert [THEN subsetD] simp: iommu_sound_def buffer_ok_def Mmu_Address_def)
qed (use c' in simp_all)

text \<open>Unmapping a slot, and freeing it afterwards.\<close>

lemma sound_unmap:
  assumes s: "iommu_sound c" and len: "length (id_Buffers c) = 16" "length (id_Table c) = 1024"
    and i: "i < 16"
    and m: "MmuUnmap (id_Table c) (of_nat i) (bf_Pages (id_Buffers c ! i)) = (MmuOk, table)"
    and c': "id_Buffers c' = (id_Buffers c)[i := (id_Buffers c ! i)\<lparr>bf_Mapped := 0\<rparr>]" "id_Table c' = table"
      "id_Owner c' \<noteq> 0" "mmu_Fault (id_Hw c') = 0"
  shows "iommu_sound c'"
  unfolding iommu_sound_def
proof (intro conjI allI impI)
  fix j k :: nat assume jk: "j < 16" "k < 18"
  have old: "id_Table c ! (j * 18 + k) = slot_entry (id_Buffers c ! j) k"
    using s jk by (simp add: iommu_sound_def)
  have idx: "j * 18 + k < length (id_Table c)" using jk len by simp
  note n = nth_MmuUnmap [OF m idx]
  show "id_Table c' ! (j * 18 + k) = slot_entry (id_Buffers c' ! j) k"
  proof (cases "j = i")
    case True
    then show ?thesis using n(3) old i len jk by (auto simp: c' slot_index slot_entry_def split: if_splits)
  next
    case False
    then have out: "\<not> (i * 18 < j * 18 + k \<and> j * 18 + k \<le> i * 18 + unat (bf_Pages (id_Buffers c ! i)))"
      using n(2) jk by (cases "j < i") auto
    have "table ! (j * 18 + k) = id_Table c ! (j * 18 + k)"
      using n(3) by (simp only: slot_index [OF i] out if_False)
    then show ?thesis using False old by (simp add: c')
  qed
next
  show "\<forall>b\<in>set (id_Buffers c'). buffer_ok b"
    using s i len unfolding c'
    by (auto dest!: set_update_subset_insert [THEN subsetD] simp: iommu_sound_def buffer_ok_def)
qed (use c' in simp_all)

lemma sound_put:
  assumes s: "iommu_sound c" and len: "length (id_Buffers c) = 16" and i: "i < 16"
    and un: "\<not> live (id_Buffers c ! i) \<or> bf_Mapped (id_Buffers c ! i) = 0" "\<not> live b"
    and c': "id_Buffers c' = (id_Buffers c)[i := b]" "id_Table c' = id_Table c"
      "id_Owner c' \<noteq> 0" "mmu_Fault (id_Hw c') = 0"
  shows "iommu_sound c'"
  unfolding iommu_sound_def
proof (intro conjI)
  show "\<forall>j<16. \<forall>k<18. id_Table c' ! (j * 18 + k) = slot_entry (id_Buffers c' ! j) k"
    using s i len un unfolding iommu_sound_def c' by (auto simp: nth_list_update slot_entry_def)
  show "\<forall>b\<in>set (id_Buffers c'). buffer_ok b"
    using s un unfolding iommu_sound_def c'
    by (auto simp: buffer_ok_def dest!: set_update_subset_insert [THEN subsetD])
qed (use c' in simp_all)

section \<open>What the memory routines do\<close>

definition freed :: "buffer_ref \<Rightarrow> IOMMU_CONTEXT \<Rightarrow> IOMMU_CONTEXT" where
  "freed k c = (if live (the_buffer k c)
     then set_buffer k (\<lambda>_. bf_zero) (c\<lparr>id_Status := (id_Status c)
       \<lparr>is_AllocatedBytes := is_AllocatedBytes (id_Status c) - bf_Length (the_buffer k c)\<rparr>\<rparr>)
     else c)"

lemma wp_FreeMemory: "(\<And>v. st v = freed k (st w) \<Longrightarrow> Q () v) \<Longrightarrow> wp (FreeMemory E k) Q w"
  by (cases k) (auto simp: FreeMemory_def wp_simps freed_def live_def)

definition allocated :: "buffer_ref \<Rightarrow> u32 \<Rightarrow> ptr \<Rightarrow> u64 \<Rightarrow> IOMMU_CONTEXT \<Rightarrow> IOMMU_CONTEXT" where
  "allocated k bytes cpu dma c = (set_buffer k (\<lambda>b. b\<lparr>bf_Length := bytes, bf_Cpu := cpu, bf_Dma := dma\<rparr>) c)
     \<lparr>id_Status := (id_Status c)\<lparr>is_AllocatedBytes := is_AllocatedBytes (id_Status c) + bytes\<rparr>,
      id_Table := (if k = BufL2 then replicate 1024 0 else id_Table c)\<rparr>"

fun in_range :: "buffer_ref \<Rightarrow> IOMMU_CONTEXT \<Rightarrow> bool" where
  "in_range (BufSlot i) c = (i < length (id_Buffers c))"
| "in_range _ c = True"

lemma wp_AllocateMemory:
  assumes k: "in_range k (st w)"
    and "\<And>v b status. \<not> NT_SUCCESS status \<Longrightarrow> \<not> live b \<Longrightarrow> bf_Length b = 0 \<Longrightarrow>
        bf_Mapped b = bf_Mapped (the_buffer k (st w)) \<or> bf_Mapped b = 0 \<Longrightarrow>
        st v = set_buffer k (\<lambda>_. b) (st w) \<Longrightarrow> Q status v"
    and "\<And>v cpu dma. cpu \<noteq> 0 \<Longrightarrow> st v = allocated k (pages * MMU_PAGE) cpu dma (st w) \<Longrightarrow> Q STATUS_SUCCESS v"
  shows "wp (AllocateMemory E k pages) Q w"
proof -
  have twice: "set_buffer k f (set_buffer k g c) = set_buffer k (\<lambda>b. f (g b)) c" if "in_range k c" for f g c
    using that by (cases k) simp_all
  have get: "the_buffer k (set_buffer k f c) = f (the_buffer k c)" if "in_range k c" for f c
    using that by (cases k) simp_all
  have status: "id_Status (set_buffer k f c) = id_Status c" "in_range k (set_buffer k f c) = in_range k c"
    "in_range k (c\<lparr>id_Status := s\<rparr>) = in_range k c" for f c s
    by (cases k, simp_all)+
  have stats: "set_buffer k f (c\<lparr>id_Status := s\<rparr>) = (set_buffer k f c)\<lparr>id_Status := s\<rparr>" for f c s
    by (cases k) simp_all
  have table: "id_Table (set_buffer k f c) = id_Table c" for f c by (cases k) simp_all
  have buf: "the_buffer k (c\<lparr>id_Status := s\<rparr>) = the_buffer k c" for c s by (cases k) simp_all
  have const: "set_buffer k (\<lambda>_. f (the_buffer k c)) c = set_buffer k f c" for f c by (cases k) simp_all
  have id: "c\<lparr>id_Status := id_Status c\<rparr> = c" for c :: IOMMU_CONTEXT by simp
  show ?thesis
    unfolding AllocateMemory_def
  proof (intro wp_intros wp_FreeMemory, simp_all, goal_cases)
    case (1 bytes cpu dma)
    let ?f = "\<lambda>b. b\<lparr>bf_Cpu := 0, bf_Dma := dma, bf_Length := 0\<rparr>"
    show ?case
      by (rule assms(2) [where b = "?f (the_buffer k (st w))"])
         (use 1 in \<open>simp_all add: live_def twice k const [where f = ?f]\<close>)
  next
    case (2 bytes cpu dma v)
    show ?case
      by (rule assms(2) [where b = bf_zero])
         (use 2 in \<open>simp_all add: freed_def live_def bf_zero_def twice k get status stats buf id\<close>)
    next
    case (3 bytes cpu dma)
    then show ?case
      by (intro assms(3) [where cpu = cpu and dma = dma]) (simp_all add: allocated_def twice k status table stats)
  next
    case (4 bytes cpu dma)
    then show ?case
      by (intro assms(3) [where cpu = cpu and dma = dma]) (simp_all add: allocated_def twice k status table stats)
  qed
qed

lemma wp_guarded_stores: "(\<And>v. st v = st w \<Longrightarrow> Q () v) \<Longrightarrow> wp (guarded_stores slot pages) Q w"
proof -
  have "preserves (keeps id) (guarded_stores slot pages)"
    unfolding guarded_stores_def by (auto intro!: keeps_intros)
  then show "(\<And>v. st v = st w \<Longrightarrow> Q () v) \<Longrightarrow> wp (guarded_stores slot pages) Q w"
    by (rule wp_keeps) simp
qed

lemma quietly_Guard_loop: "preserves quietly (Guard_loop E bank pages is)"
  by (induction "is") (auto intro!: quietly_intros)

lemma wp_Guards_intact: "(\<And>b v. st v = st w \<Longrightarrow> Q b v) \<Longrightarrow> wp (Guards_intact E slot pages) Q w"
  unfolding Guards_intact_def by (rule wp_quietly [OF quietly_Guard_loop]) simp

section \<open>The invariant of the session\<close>

definition iommu_keeps :: "IOMMU_CONTEXT \<Rightarrow> IOMMU_CONTEXT \<Rightarrow> bool" where
  "iommu_keeps c c' \<longleftrightarrow> id_BootFault c' \<noteq> 0 \<or> id_Owner c' = id_Owner c"

lemma free_slot: "length (id_Buffers c) = 16 \<Longrightarrow> free_slot c \<noteq> 16 \<Longrightarrow>
    free_slot c < 16 \<and> \<not> live (id_Buffers c ! free_slot c)"
proof -
  assume "free_slot c \<noteq> 16"
  let ?xs = "[0..<16]" let ?P = "\<lambda>i. bf_Cpu (id_Buffers c ! i) \<noteq> 0"
  have le: "length (takeWhile ?P ?xs) \<le> 16" using length_takeWhile_le [of ?P ?xs] by simp
  have "length (takeWhile ?P ?xs) < length ?xs" using le \<open>free_slot c \<noteq> 16\<close> by (simp add: free_slot_def)
  from nth_length_takeWhile [OF this] this show ?thesis by (simp add: free_slot_def live_def)
qed

lemma token_slot: "token_slot c t \<noteq> 16 \<Longrightarrow>
    token_slot c t < 16 \<and> live (id_Buffers c ! token_slot c t) \<and> bf_Token (id_Buffers c ! token_slot c t) = t"
proof -
  assume "token_slot c t \<noteq> 16"
  let ?xs = "[0..<16]" let ?P = "\<lambda>i. \<not> (bf_Cpu (id_Buffers c ! i) \<noteq> 0 \<and> bf_Token (id_Buffers c ! i) = t)"
  have le: "length (takeWhile ?P ?xs) \<le> 16" using length_takeWhile_le [of ?P ?xs] by simp
  have "length (takeWhile ?P ?xs) < length ?xs" using le \<open>token_slot c t \<noteq> 16\<close> by (simp add: token_slot_def)
  from nth_length_takeWhile [OF this] this show ?thesis by (simp add: token_slot_def live_def)
qed

lemma wp_Iommu_Map:
  assumes fault: "mmu_Fault (id_Hw (st w)) = 0"
    and "\<And>v table. MmuMap (id_Table (st w)) (of_nat slot) (bf_Dma (id_Buffers (st w) ! slot) + ucast MMU_PAGE)
        (bf_Pages (id_Buffers (st w) ! slot)) (bf_Writable (id_Buffers (st w) ! slot)) = (MmuOk, table) \<Longrightarrow>
        st v = (st w)\<lparr>id_Table := table\<rparr> \<Longrightarrow> Q STATUS_SUCCESS v"
    and "\<And>v status. \<not> NT_SUCCESS status \<Longrightarrow> st v = st w \<Longrightarrow> Q status v"
  shows "wp (Iommu_Map E slot) Q w"
  unfolding Iommu_Map_def
proof (intro wp_intros, goal_cases)
  case (1 b c r table)
  then have m: "MmuMap (id_Table (st w)) (of_nat slot) (bf_Dma (id_Buffers (st w) ! slot) + ucast MMU_PAGE)
      (bf_Pages (id_Buffers (st w) ! slot)) (bf_Writable (id_Buffers (st w) ! slot)) = (r, table)" by simp
  show ?case
  proof (rule wp_Iommu_Result)
    assume "r = MmuOk"
    with m show "Q STATUS_SUCCESS (w\<lparr>st := (st w)\<lparr>id_Table := table\<rparr>\<rparr>)" by (intro assms(2)) simp_all
  qed (use fault MmuMap_fail [OF m] in \<open>auto intro!: assms(3)\<close>)
qed

lemma live_allocated [simp]: "live (b\<lparr>bf_Pages := p, bf_Writable := wr\<rparr>) = live b"
    "live (b\<lparr>bf_Mapped := m, bf_Token := t\<rparr>) = live b" "live (b\<lparr>bf_Mapped := m\<rparr>) = live b"
    "live (b\<lparr>bf_Length := l, bf_Cpu := cpu, bf_Dma := d\<rparr>) \<longleftrightarrow> cpu \<noteq> 0"
  by (simp_all add: live_def)

lemma inv_Allocate:
  assumes inv: "iommu_inv (st w)" and boot: "id_BootFault (st w) = 0" and owner: "id_Owner (st w) \<noteq> 0"
  shows "wp (Iommu_Allocate E rq) (\<lambda>r v. iommu_inv (st v) \<and> iommu_keeps (st w) (st v)) w"
proof -
  have a: "iommu_acct (st w)" and s: "iommu_sound (st w)"
    using inv boot by (simp_all add: iommu_inv_def)
  have len: "length (id_Buffers (st w)) = 16" "length (id_Table (st w)) = 1024" and f: "mmu_Fault (id_Hw (st w)) = 0"
    using a s by (simp_all add: iommu_acct_def iommu_sound_def)
  have kept: "iommu_keeps (st w) (quarantined status c)" for status c
    by (simp add: iommu_keeps_def quarantined_def)
  have same: "iommu_keeps (st w) (st w)" by (simp add: iommu_keeps_def)
  let ?i = "free_slot (st w)"
  have dead: "\<not> live b \<Longrightarrow> b \<in> set (id_Buffers (st w)) \<Longrightarrow> bf_Length b = 0 \<and> bf_Mapped b = 0" for b
    using a by (simp add: iommu_acct_def)
  have slot: "?i < 16" "\<not> live (id_Buffers (st w) ! ?i)" "bf_Length (id_Buffers (st w) ! ?i) = 0"
    "bf_Mapped (id_Buffers (st w) ! ?i) = 0" if "?i \<noteq> 16"
    using free_slot [OF len(1) that] dead [of "id_Buffers (st w) ! ?i"] len by auto
  have put: "iommu_inv c" if "?i \<noteq> 16" "\<not> live b" "bf_Length b = 0" "bf_Mapped b = 0"
    "c = (st w)\<lparr>id_Buffers := (id_Buffers (st w))[?i := b]\<rparr>" for b c
    unfolding iommu_inv_def
    by (intro conjI impI acct_change [OF a slot(1), where b = b] sound_put [OF s len(1) slot(1), where b = b])
       (use slot that len owner f in simp_all)
  show ?thesis
    unfolding Iommu_Allocate_def
  proof (intro wp_intros wp_Iommu_Check wp_AllocateMemory wp_guarded_stores wp_Iommu_Map wp_FreeMemory wp_Iommu_Invalidate,
      simp_all add: inv same inv_quarantined a kept free_slot len f allocated_def, goal_cases)
    case (1 v i va b status)
    then show ?case
      using slot by (intro conjI put [where b = b]) (auto simp: iommu_keeps_def)
  next
    case (2 v i va cpu dma vb vc table vd h)
    let ?b = "(id_Buffers (st w) ! ?i)\<lparr>bf_Length := ir_Pages rq * MMU_PAGE + 8192, bf_Cpu := cpu, bf_Dma := dma,
      bf_Pages := ir_Pages rq, bf_Writable := ir_Writable rq, bf_Mapped := 1, bf_Token := id_NextToken (st w) + 1\<rparr>"
    have "?i \<noteq> 16" using 2 by simp
    note i = slot [OF this]
    show ?case
      unfolding iommu_inv_def
      by (intro conjI impI acct_add [OF a i(1,2), where b = ?b] sound_add [OF s len i(1), where b = ?b and table = table])
         (use 2 i len owner length_MmuMap [OF \<open>MmuMap _ _ _ _ _ = _\<close>] in
           \<open>simp_all add: iommu_keeps_def live_def mmu_usable_def\<close>)
  next
    case (3 v i va cpu dma vb vc table vd status h)
    let ?b = "(id_Buffers (st w) ! ?i)\<lparr>bf_Length := ir_Pages rq * MMU_PAGE + 8192, bf_Cpu := cpu, bf_Dma := dma,
      bf_Pages := ir_Pages rq, bf_Writable := ir_Writable rq, bf_Mapped := 1, bf_Token := id_NextToken (st w) + 1\<rparr>"
    have "?i \<noteq> 16" using 3 by simp
    note i = slot [OF this]
    show ?case
      by (intro inv_quarantined(1) acct_add [OF a i(1,2), where b = ?b])
         (use 3 i len length_MmuMap [OF \<open>MmuMap _ _ _ _ _ = _\<close>] in \<open>simp_all add: live_def\<close>)
  next
    case (4 v i va cpu dma vb vc status vd)
    then show ?case
      using slot len by (intro conjI put [where b = bf_zero]) 
        (auto simp: iommu_keeps_def freed_def live_def bf_zero_def)
  qed
qed

lemma inv_parts:
  assumes "iommu_inv c" and "id_BootFault c = 0"
  shows "iommu_acct c" "iommu_sound c" "length (id_Buffers c) = 16" "length (id_Table c) = 1024" "mmu_Fault (id_Hw c) = 0"
  using assms by (simp_all add: iommu_inv_def iommu_acct_def iommu_sound_def)

lemma kept_quarantined [simp]: "iommu_keeps c (quarantined status c')"
  by (simp add: iommu_keeps_def quarantined_def)

lemma kept_refl [simp]: "iommu_keeps c c"
  by (simp add: iommu_keeps_def)

text \<open>Counters that the invariant does not mention.\<close>

lemma inv_stats:
  assumes "iommu_inv c" and "is_ActiveBuffers s = is_ActiveBuffers (id_Status c)"
    and "is_AllocatedBytes s = is_AllocatedBytes (id_Status c)"
  shows "iommu_inv (c\<lparr>id_Status := s\<rparr>)"
proof -
  have "iommu_acct (c\<lparr>id_Status := s\<rparr>) = iommu_acct c" using assms(2,3) by (intro acct_cong) simp_all
  then show ?thesis using assms by (simp add: iommu_inv_def iommu_sound_def)
qed

lemma inv_unmap:
  assumes inv: "iommu_inv (st w)" "id_BootFault (st w) = 0" and owner: "id_Owner (st w) \<noteq> 0"
    and slot: "slot < 16" "live (id_Buffers (st w) ! slot)" and hw: "mmu_usable (id_Hw (st w))"
    and Q: "\<And>v h table. st v = (st w)\<lparr>id_Table := table, id_Hw := h,
          id_Buffers := (id_Buffers (st w))[slot := (id_Buffers (st w) ! slot)\<lparr>bf_Mapped := 0\<rparr>]\<rparr> \<Longrightarrow>
        iommu_inv (st v) \<Longrightarrow> Q STATUS_SUCCESS v"
      "\<And>v c status. \<not> NT_SUCCESS status \<Longrightarrow> iommu_inv (st v) \<Longrightarrow> st v = quarantined status c \<Longrightarrow> Q status v"
  shows "wp (Iommu_Unmap E slot) Q w"
  unfolding Iommu_Unmap_def
proof (intro wp_intros wp_Quarantine wp_Iommu_Invalidate, simp_all add: hw, goal_cases)
  note p = inv_parts [OF inv]
  {
    case (1 c r table v)
    have "table = id_Table (st w)" using MmuUnmap_fail 1 by metis
    then show ?case using 1 p by (intro Q(2)) (simp_all add: inv_quarantined)
  next
    case (2 c r table v h)
    have m: "MmuUnmap (id_Table (st w)) (of_nat slot) (bf_Pages (id_Buffers (st w) ! slot)) = (MmuOk, table)"
      using 2 by simp
    let ?b = "(id_Buffers (st w) ! slot)\<lparr>bf_Mapped := 0\<rparr>"
    show ?case
      apply (rule Q(1) [where h = h and table = table])
      using 2 apply simp
      unfolding iommu_inv_def
      by (intro conjI impI acct_change [OF p(1) slot(1), where b = ?b] sound_unmap [OF p(2-4) slot(1) m])
         (use 2 slot owner p length_MmuUnmap [OF m] in \<open>simp_all add: mmu_usable_def\<close>)
  next
    case (3 c r table v status h)
    have m: "MmuUnmap (id_Table (st w)) (of_nat slot) (bf_Pages (id_Buffers (st w) ! slot)) = (MmuOk, table)"
      using 3 by simp
    have "iommu_acct ((st w)\<lparr>id_Table := table\<rparr>)"
      using p(1,4) length_MmuUnmap [OF m] by (subst acct_cong [where c = "st w"]) simp_all
    then show ?case using 3 by (intro Q(2)) (auto simp: inv_quarantined)
  }
qed

lemma inv_remove:
  assumes inv: "iommu_inv c" "id_BootFault c = 0" and owner: "id_Owner c \<noteq> 0"
    and slot: "i < 16" "live (id_Buffers c ! i)" "bf_Mapped (id_Buffers c ! i) = 0"
    and s: "is_ActiveBuffers s = is_ActiveBuffers (id_Status c) - 1"
      "is_AllocatedBytes s = is_AllocatedBytes (id_Status c) - bf_Length (id_Buffers c ! i)"
  shows "iommu_inv ((freed (BufSlot i) c)\<lparr>id_Status := s\<rparr>)"
proof -
  note p = inv_parts [OF inv]
  have "\<not> live bf_zero" by (simp add: live_def bf_zero_def)
  then show ?thesis
    unfolding iommu_inv_def
    by (intro conjI impI acct_remove [OF p(1) slot(1,2)] sound_put [OF p(2,3) slot(1), where b = bf_zero])
       (use slot s owner p in \<open>simp_all add: freed_def\<close>)
qed

lemma inv_Retire:
  assumes inv: "iommu_inv (st w)" "id_BootFault (st w) = 0" and owner: "id_Owner (st w) \<noteq> 0"
  shows "wp (Iommu_Retire E token release) (\<lambda>r v. iommu_inv (st v) \<and> iommu_keeps (st w) (st v)) w"
proof -
  note p = inv_parts [OF inv]
  note t = token_slot [of "st w" token]
  show ?thesis
    unfolding Iommu_Retire_def
  proof (intro wp_intros wp_Iommu_Check wp_Quarantine wp_Guards_intact inv_unmap wp_FreeMemory,
      simp_all add: inv p t owner inv_stats inv_quarantined, goal_cases)
    case (1 v b va)
    then show ?case by (simp add: iommu_keeps_def)
  next
    case (2 v b va vb h table)
    then show ?case by (simp add: iommu_keeps_def)
  next
    case (3 v b va vb h table vc)
    show ?case
      by (intro conjI inv_remove) (use 3 p owner inv t in \<open>simp_all add: freed_def iommu_keeps_def\<close>)
  next
    case (4 v b va vb)
    let ?c = "(st w)\<lparr>id_Status := (id_Status (st w))\<lparr>is_GuardChecks := is_GuardChecks (id_Status (st w)) + 1\<rparr>\<rparr>"
    have "iommu_inv ?c" by (intro inv_stats inv) simp_all
    then show ?case
      by (intro conjI inv_remove) (use 4 p owner inv t in \<open>simp_all add: freed_def iommu_keeps_def\<close>)
  qed
qed

text \<open>A session without buffers, while its tables come and go.\<close>

definition iommu_empty :: "IOMMU_CONTEXT \<Rightarrow> bool" where
  "iommu_empty c \<longleftrightarrow> iommu_acct c \<and> is_ActiveBuffers (id_Status c) = 0 \<and>
     (\<forall>i<16. \<forall>k<18. id_Table c ! (i * 18 + k) = 0)"

definition tables_dead :: "IOMMU_CONTEXT \<Rightarrow> bool" where
  "tables_dead c \<longleftrightarrow> \<not> live (id_Root c) \<and> \<not> live (id_L2 c) \<and> \<not> live (id_Trap c)"

lemma acct_dead:
  assumes "iommu_acct c" and "is_ActiveBuffers (id_Status c) = 0" and "b \<in> set (id_Buffers c)"
  shows "\<not> live b"
proof -
  have "filter live (id_Buffers c) = []" using acctD(4) [OF assms(1)] assms(2) by simp
  then show ?thesis using assms(3) by (simp add: filter_empty_conv)
qed

lemma empty_dead: "iommu_empty c \<Longrightarrow> b \<in> set (id_Buffers c) \<Longrightarrow> \<not> live b"
  by (auto simp: iommu_empty_def dest: acct_dead)

lemma empty_inv:
  assumes e: "iommu_empty c" and f: "mmu_Fault (id_Hw c) = 0" and d: "owner = 0 \<longrightarrow> tables_dead c"
  shows "iommu_inv (c\<lparr>id_Owner := owner\<rparr>)"
proof -
  have a: "iommu_acct c" and t: "\<forall>i<16. \<forall>k<18. id_Table c ! (i * 18 + k) = 0"
    and z: "is_ActiveBuffers (id_Status c) = 0" using e by (simp_all add: iommu_empty_def)
  have "slot_entry (id_Buffers c ! i) k = 0" if "i < 16" for i k
    using empty_dead [OF e] acctD(1) [OF a] that by (simp add: slot_entry_def)
  moreover have "\<forall>b\<in>set (id_Buffers c). buffer_ok b"
    using empty_dead [OF e] by (simp add: buffer_ok_def)
  moreover have "iommu_acct (c\<lparr>id_Owner := owner\<rparr>)" using a by (subst acct_cong [where c = c]) simp_all
  ultimately show ?thesis
    using t z f d acctD(8) [OF a] by (simp add: iommu_inv_def iommu_sound_def tables_dead_def)
qed

lemma sound_empty:
  assumes inv: "iommu_inv c" "id_BootFault c = 0" and "is_ActiveBuffers (id_Status c) = 0"
  shows "iommu_empty c" and "id_Owner c = 0 \<Longrightarrow> tables_dead c"
proof -
  have a: "iommu_acct c" and s: "iommu_sound c" using inv by (simp_all add: iommu_inv_def)
  have "slot_entry (id_Buffers c ! i) k = 0" if "i < 16" for i k
    using acct_dead [OF a assms(3)] acctD(1) [OF a] that by (simp add: slot_entry_def)
  then show "iommu_empty c" using a s assms(3) by (simp add: iommu_empty_def iommu_sound_def)
  show "id_Owner c = 0 \<Longrightarrow> tables_dead c" using s by (simp add: iommu_sound_def tables_dead_def)
qed

lemma empty_set:
  assumes "iommu_empty c" and "\<not> live b" and "bf_Length b = 0" and "\<not> live (the_buffer k c)"
    and "k = BufRoot \<or> k = BufL2 \<or> k = BufTrap"
  shows "iommu_empty (set_buffer k (\<lambda>_. b) c)"
  using assms(1-4) disjE [OF assms(5)] unfolding iommu_empty_def iommu_acct_def
  by (cases k) auto

lemma empty_allocated:
  assumes "iommu_empty c" and "cpu \<noteq> 0" and "\<not> live (the_buffer k c)"
    and "k = BufRoot \<or> k = BufL2 \<or> k = BufTrap"
  shows "iommu_empty (allocated k bytes cpu dma c)"
proof -
  have idx: "i * 18 + n < 1024" if "i < 16" "n < 18" for i n :: nat using that by simp
  have "bf_Length (the_buffer k c) = 0" using assms acctD(8) [of c] by (cases k) (auto simp: iommu_empty_def)
  then show ?thesis using assms unfolding iommu_empty_def iommu_acct_def allocated_def
    by (cases k) (auto simp: live_def idx)
qed

lemma empty_freed:
  assumes "iommu_empty c" and "k = BufRoot \<or> k = BufL2 \<or> k = BufTrap"
  shows "iommu_empty (freed k c)" and "\<not> live (the_buffer k (freed k c))"
proof -
  have z: "\<not> live bf_zero" "bf_Length bf_zero = 0" by (simp_all add: live_def bf_zero_def)
  show "iommu_empty (freed k c)" using assms z unfolding iommu_empty_def iommu_acct_def freed_def
    by (cases k) auto
  show "\<not> live (the_buffer k (freed k c))" using assms(2) z by (auto simp: freed_def)
qed

lemma wp_FreeTables:
  assumes e: "iommu_empty (st w)"
    and Q: "\<And>v. iommu_empty (st v) \<Longrightarrow> tables_dead (st v) \<Longrightarrow> id_Hw (st v) = id_Hw (st w) \<Longrightarrow>
      id_Owner (st v) = id_Owner (st w) \<Longrightarrow> id_BootFault (st v) = id_BootFault (st w) \<Longrightarrow> Q () v"
  shows "wp (Iommu_FreeTables E) Q w"
  unfolding Iommu_FreeTables_def
proof (intro wp_intros wp_FreeMemory, goal_cases)
  case (1 u v x)
  have same: "id_Hw (freed k c) = id_Hw c \<and> id_Owner (freed k c) = id_Owner c \<and>
    id_BootFault (freed k c) = id_BootFault c" for k c
    by (cases k) (simp_all add: freed_def)
  have other: "live (the_buffer j (freed k c)) \<Longrightarrow> live (the_buffer j c)" if "j \<noteq> k" "k = BufRoot \<or> k = BufL2 \<or> k = BufTrap" for j k c
    using that by (cases j; cases k) (auto simp: freed_def split: if_splits)
  have u: "iommu_empty (st u)" using 1 e by (simp add: empty_freed)
  have v: "iommu_empty (st v)" using 1 u by (simp add: empty_freed)
  have x: "iommu_empty (st x)" using 1 v by (simp add: empty_freed)
  have "\<not> live (the_buffer BufRoot (st x))" "\<not> live (the_buffer BufL2 (st x))" "\<not> live (the_buffer BufTrap (st x))"
    using 1 other empty_freed(2) e u v by (metis buffer_ref.distinct(1,3,7))+
  then show ?case using 1 x same by (intro Q) (simp_all add: tables_dead_def)
qed

lemma the_other_buffer [simp]:
  "the_buffer BufL2 (allocated BufRoot n cpu dma c) = id_L2 c"
  "the_buffer BufTrap (allocated BufRoot n cpu dma c) = id_Trap c"
  "the_buffer BufTrap (allocated BufL2 n cpu dma c) = id_Trap c"
  "id_L2 (allocated BufRoot n cpu dma c) = id_L2 c"
  "id_Trap (allocated BufRoot n cpu dma c) = id_Trap c"
  "id_Trap (allocated BufL2 n cpu dma c) = id_Trap c"
  by (simp_all add: allocated_def)

lemma allocated_same [simp]:
  "id_Hw (allocated k n cpu dma c) = id_Hw c" "id_Owner (allocated k n cpu dma c) = id_Owner c"
  "id_BootFault (allocated k n cpu dma c) = id_BootFault c"
  "id_Hw (set_buffer k f c) = id_Hw c" "id_Owner (set_buffer k f c) = id_Owner c"
  "id_BootFault (set_buffer k f c) = id_BootFault c"
  by (cases k; simp add: allocated_def)+

lemma empty_hw: "iommu_empty c \<Longrightarrow> iommu_empty (c\<lparr>id_Hw := h\<rparr>)"
  using acct_cong [of "c\<lparr>id_Hw := h\<rparr>" c] by (simp add: iommu_empty_def)

lemmas empty_put = empty_set [where k = BufRoot, simplified] empty_set [where k = BufL2, simplified]
  empty_set [where k = BufTrap, simplified]

lemma empty_acct: "iommu_empty c \<Longrightarrow> iommu_acct c"
  by (simp add: iommu_empty_def)

definition staged_post :: "IOMMU_CONTEXT \<Rightarrow> bool" where
  "staged_post c \<longleftrightarrow> iommu_empty c \<and> mmu_Fault (id_Hw c) = 0 \<and> id_BootFault c = 0 \<and> id_Owner c = 0"

lemma wp_Begin_stage:
  assumes e: "staged_post (st w)" "tables_dead (st w)"
  shows "wp (Iommu_Begin_stage E) (\<lambda>r v. staged_post (st v) \<or>
    \<not> NT_SUCCESS r \<and> iommu_inv (st v) \<and> mmu_Fault (id_Hw (st v)) = 1) w"
proof -
  have q: "mmu_Fault (id_Hw (quarantined status c)) = 1" for status c by (simp add: quarantined_def)
  show ?thesis
    unfolding Iommu_Begin_stage_def
    by (intro wp_intros wp_AllocateMemory wp_Iommu_ops)
       (use e in \<open>auto simp: staged_post_def tables_dead_def q intro!: empty_put empty_allocated empty_hw inv_quarantined empty_acct\<close>)
qed

lemma inv_Iommu_Begin:
  assumes inv: "iommu_inv (st w)" and fo: "fo \<noteq> 0"
  shows "wp (Iommu_Begin E fo) (\<lambda>r v. iommu_inv (st v)) w"
  unfolding Iommu_Begin_def
proof (intro wp_intros, simp_all add: inv, goal_cases)
  case 1
  have s: "iommu_sound (st w)" using inv 1 by (simp add: iommu_inv_def)
  have z: "is_ActiveBuffers (id_Status (st w)) = 0" and f: "mmu_Fault (id_Hw (st w)) = 0"
    using s 1 by (simp_all add: iommu_sound_def)
  have same: "c\<lparr>id_Owner := 0\<rparr> = c" if "id_Owner c = 0" for c :: IOMMU_CONTEXT using that by simp
  have dead: "iommu_inv c" if "iommu_empty c" "mmu_Fault (id_Hw c) = 0" "id_Owner c = 0" "tables_dead c" for c
    using empty_inv [of c 0] that same [of c] by simp
  have "staged_post (st w)" "tables_dead (st w)"
    using sound_empty [OF inv] 1 z f by (simp_all add: staged_post_def)
  then show ?case
    by (rule wp_mono [OF wp_Begin_stage], intro wp_intros wp_FreeTables)
       (use fo in \<open>auto simp: staged_post_def intro!: empty_inv intro: dead\<close>)
qed

lemma inv_Iommu_End:
  assumes inv: "iommu_inv (st w)" "id_BootFault (st w) = 0"
  shows "wp (Iommu_End E) (\<lambda>r v. iommu_inv (st v) \<and> (NT_SUCCESS r \<longrightarrow> id_Owner (st v) = 0)) w"
  unfolding Iommu_End_def
proof (intro wp_intros wp_Iommu_ops wp_FreeTables, simp_all add: inv inv_quarantined inv_parts inv_hw, goal_cases)
  case (1 h v)
  then show ?case using sound_empty(1) [OF inv] by (simp add: empty_hw)
next
  case (2 h v va)
  then show ?case using empty_inv [of "st va" 0] by simp
qed

lemma inv_acct: "iommu_inv c \<Longrightarrow> iommu_acct c"
  by (simp add: iommu_inv_def)

lemma kept_stats [simp]: "iommu_keeps c (c'\<lparr>id_Status := s\<rparr>) = iommu_keeps c c'"
    "iommu_keeps c (c'\<lparr>id_Hw := h\<rparr>) = iommu_keeps c c'" "iommu_keeps c (c'\<lparr>id_Executions := n\<rparr>) = iommu_keeps c c'"
  by (simp_all add: iommu_keeps_def)

lemma inv_executions: "iommu_inv (c\<lparr>id_Executions := n\<rparr>) = iommu_inv c"
  by (simp add: iommu_inv_def iommu_acct_def iommu_sound_def)

definition counts_only :: "IOMMU_CONTEXT \<Rightarrow> IOMMU_CONTEXT \<Rightarrow> bool" where
  "counts_only c c' \<longleftrightarrow> (\<exists>s. c' = c\<lparr>id_Status := s\<rparr> \<and> is_ActiveBuffers s = is_ActiveBuffers (id_Status c) \<and>
     is_AllocatedBytes s = is_AllocatedBytes (id_Status c))"

lemma counts_refl [simp]: "counts_only c c"
  by (auto simp: counts_only_def intro: exI [where x = "id_Status c"])

lemma counts_step: "counts_only (c\<lparr>id_Status := s\<rparr>) c' \<Longrightarrow> is_ActiveBuffers s = is_ActiveBuffers (id_Status c) \<Longrightarrow>
    is_AllocatedBytes s = is_AllocatedBytes (id_Status c) \<Longrightarrow> counts_only c c'"
  by (auto simp: counts_only_def)

lemma inv_counts: "iommu_inv c \<Longrightarrow> counts_only c c' \<Longrightarrow> iommu_inv c'"
  by (auto simp: counts_only_def intro: inv_stats)

lemma kept_counts: "counts_only c' c'' \<Longrightarrow> iommu_keeps c c'' = iommu_keeps c c'"
  by (auto simp: counts_only_def)

lemma wp_Execute_guards:
  "(\<And>b v. counts_only (st w) (st v) \<Longrightarrow> Q b v) \<Longrightarrow> wp (Execute_guards E slots) Q w"
proof (induction slots arbitrary: w)
  case (Cons i slots)
  show ?case
    unfolding Execute_guards.simps
    by (intro wp_intros wp_Guards_intact Cons.IH) (auto intro!: Cons.prems elim: counts_step)
qed (auto simp: wp_simps)

lemma wp_Execute_inspect:
  assumes "\<And>r v. counts_only (st w) (st v) \<Longrightarrow> Q r v"
    and "\<And>r v c. counts_only (st w) c \<Longrightarrow> st v = quarantined STATUS_DATA_ERROR c \<Longrightarrow> Q r v"
  shows "wp (Execute_inspect E status) Q w"
proof -
  have trap: "wp (mapM xs (\<lambda>i. io_read E 6 (4 * of_nat i))) P w" if "\<And>r v. st v = st w \<Longrightarrow> P r v" for xs P and w :: "IOMMU_CONTEXT world"
    by (rule wp_mapM_read [where u = "\<lambda>_. 6", simplified]) (simp add: that)
  show ?thesis
    unfolding Execute_inspect_def
    by (intro wp_intros wp_Execute_guards wp_Quarantine trap) (auto intro: assms)
qed

lemma wp_Deactivate:
  assumes "\<And>r v h. (r = MmuOk \<longrightarrow> mmu_Fault h = 0) \<Longrightarrow> st v = (st w)\<lparr>id_Hw := h\<rparr> \<Longrightarrow> Q r v"
  shows "wp (on_hw (MmuDeactivate E q)) Q w"
  unfolding wp_zoom
  using ok_unfaulted [where p = "OpDeactivate q", simplified] by (rule wp_mono) (auto intro: assms)

lemma kept_trans: "iommu_keeps c c' \<Longrightarrow> iommu_keeps c' c'' \<Longrightarrow> id_BootFault c' \<noteq> 0 \<longrightarrow> id_BootFault c'' \<noteq> 0 \<Longrightarrow>
    iommu_keeps c c''"
  by (auto simp: iommu_keeps_def)

lemma inv_Execute_window:
  assumes inv: "iommu_inv (st w)"
  shows "wp (Execute_window E context) (\<lambda>r v. iommu_inv (st v) \<and> iommu_keeps (st w) (st v)) w"
proof -
  have acct: "iommu_acct ((st w)\<lparr>id_Executions := n, id_Hw := h\<rparr>)" for n h
    using inv_acct [OF inv] by (subst acct_cong [where c = "st w"]) simp_all
  have hw: "iommu_inv ((st w)\<lparr>id_Executions := n, id_Hw := h\<rparr>)" if "mmu_Fault h = 0" for n h
    using inv_hw [of "(st w)\<lparr>id_Executions := n\<rparr>" h] inv that by (simp add: inv_executions)
  have twice: "quarantined s ((quarantined s' c)\<lparr>id_Hw := h\<rparr>) = quarantined s (quarantined s' (c\<lparr>id_Hw := h\<rparr>))" for s s' c h
    by (simp add: quarantined_def)
  have again: "iommu_acct (quarantined s c) = iommu_acct c" for s c
    by (rule acct_cong) (simp_all add: quarantined_def)
  have hw': "iommu_acct (c\<lparr>id_Hw := h\<rparr>) = iommu_acct c" "iommu_acct (c\<lparr>id_Executions := n\<rparr>) = iommu_acct c" for c h n
    by (rule acct_cong; simp)+
  have q: "iommu_inv ((quarantined s c)\<lparr>id_Hw := h\<rparr>) = iommu_acct c" for s c h
  proof -
    have "id_BootFault ((quarantined s c)\<lparr>id_Hw := h\<rparr>) \<noteq> 0" by (simp add: quarantined_def)
    then show ?thesis by (simp add: iommu_inv_def hw' again)
  qed
  show ?thesis
    unfolding Execute_window_def Let_def
    apply (intro wp_bindI wp_modifyI wp_Iommu_ops wp_ifI kernel_any wp_returnI wp_Deactivate wp_Iommu_Result wp_Quarantine)
    apply (simp_all add: inv_quarantined acct inv_executions hw hw' again inv_acct [OF inv] q)
    done
qed

lemma inv_Execute:
  assumes inv: "iommu_inv (st w)"
  shows "wp (Iommu_Execute E x) (\<lambda>r v. iommu_inv (st v) \<and> iommu_keeps (st w) (st v)) w"
proof -
  have window: "wp (Execute_window E ctx) Q v"
    if "st v = st w" "\<And>r v. iommu_inv (st v) \<Longrightarrow> iommu_keeps (st w) (st v) \<Longrightarrow> Q r v" for ctx Q v
    using inv_Execute_window [of v E ctx] inv that by (auto intro: wp_mono)
  show ?thesis
    unfolding Iommu_Execute_def Let_def
    by (intro wp_intros wp_Iommu_Check window wp_Execute_inspect)
       (auto simp: inv inv_quarantined inv_acct [OF inv] kept_counts
          intro!: inv_stats intro: inv_counts inv_quarantined(2) [OF inv_acct [OF inv_counts]])
qed

lemma wp_inv_same: "preserves (keeps id) m \<Longrightarrow> (\<And>r v. st v = st w \<Longrightarrow> Q r v) \<Longrightarrow> wp m Q w"
  by (erule wp_keeps) simp

lemma wp_Screen: "(\<And>r v. st v = st w \<Longrightarrow> Q r v) \<Longrightarrow> wp (Iommu_Screen E code rq) Q w"
  by (rule wp_inv_same) (auto simp: Iommu_Screen_def Let_def intro!: kernel_keeps)

lemma counts_set [simp]: "is_ActiveBuffers s = is_ActiveBuffers (id_Status c) \<Longrightarrow>
    is_AllocatedBytes s = is_AllocatedBytes (id_Status c) \<Longrightarrow> counts_only c (c\<lparr>id_Status := s\<rparr>)"
  by (auto simp: counts_only_def)

lemma wp_Iommu_Snapshot: "(\<And>v. counts_only (st w) (st v) \<Longrightarrow> Q () v) \<Longrightarrow> wp (Iommu_Snapshot E) Q w"
proof -
  have rd: "wp (mapM xs (\<lambda>i. mapM ys (\<lambda>off. io_read E i off))) P w" if "\<And>r v. st v = st w \<Longrightarrow> P r v"
    for xs ys P and w :: "IOMMU_CONTEXT world"
    by (rule wp_inv_same) (auto intro!: kernel_keeps that)
  show "(\<And>v. counts_only (st w) (st v) \<Longrightarrow> Q () v) \<Longrightarrow> wp (Iommu_Snapshot E) Q w"
    unfolding Iommu_Snapshot_def
    by (intro wp_bindI rd wp_intros) simp
qed

lemma inv_Walk:
  assumes inv: "iommu_inv (st w)" "id_BootFault (st w) = 0"
  shows "wp (Iommu_Walk E q) (\<lambda>r v. iommu_inv (st v) \<and> iommu_keeps (st w) (st v)) w"
  unfolding Iommu_Walk_def
  by (intro wp_intros wp_Iommu_Check wp_Iommu_Result)
     (use inv in \<open>auto simp: inv_quarantined inv_acct\<close>)

lemma inv_Sync:
  assumes inv: "iommu_inv (st w)"
  shows "wp (Iommu_Hw E (MmuInvalidate E)) (\<lambda>r v. iommu_inv (st v)) w"
  by (rule wp_Iommu_ops) (use inv in \<open>auto simp: inv_quarantined inv_acct inv_hw\<close>)

lemma inv_Dispatch:
  assumes inv: "iommu_inv (st w)" and fo: "iq_File rq \<noteq> 0"
  shows "wp (Iommu_Dispatch E code rq) (\<lambda>r v. iommu_inv (st v)) w"
proof -
  note rules = inv_Iommu_Begin [of w "iq_File rq" E] inv_Execute [of w E] inv_Allocate [of w E] inv_Retire [of w E]
    inv_Sync [of w E] inv_Iommu_End [of w E] inv_Walk [of w E]
  show ?thesis
    unfolding Iommu_Dispatch_def
    by (intro wp_bindI wp_getsI wp_ifI; (cases code)?)
       (use inv fo in \<open>auto simp: wp_simps intro!: rules [THEN wp_mono] split: prod.splits\<close>)
qed

lemma inv_Control:
  assumes inv: "iommu_inv (st w)"
  shows "wp (Iommu_Control E code rq) (\<lambda>r v. iommu_inv (st v)) w"
proof -
  have dispatch: "wp (Iommu_Dispatch E code rq) Q v"
    if "st v = st w" "\<And>r v. iommu_inv (st v) \<Longrightarrow> Q r v" "iq_File rq \<noteq> 0" for Q v
    using inv_Dispatch [of v rq E code] inv that by (auto intro: wp_mono)
  have user: "wp (Iommu_Screen E code rq) (\<lambda>r v. st v = st w \<and>
      (NT_SUCCESS r \<longrightarrow> code \<noteq> IOMMU_QUERY \<longrightarrow> iq_KernelMode rq \<and> iq_File rq \<noteq> 0)) w"
  proof (rule wpI)
    fix r v assume run: "run_state (Iommu_Screen E code rq) w = (r, v)"
    have "st v = st w" using wpD [OF wp_Screen run, where Q = "\<lambda>_ v. st v = st w"] by simp
    moreover have "NT_SUCCESS r \<Longrightarrow> code \<noteq> IOMMU_QUERY \<Longrightarrow> iq_KernelMode rq \<and> iq_File rq \<noteq> 0"
      using run by (auto simp: Iommu_Screen_def split: if_splits)
    ultimately show "st v = st w \<and>
      (NT_SUCCESS r \<longrightarrow> code \<noteq> IOMMU_QUERY \<longrightarrow> iq_KernelMode rq \<and> iq_File rq \<noteq> 0)" by blast
  qed
  show ?thesis
    unfolding Iommu_Control_def
    by (rule wp_bindI, rule wp_mono [OF user], intro wp_intros dispatch wp_Iommu_Snapshot)
       (use inv in \<open>auto intro!: inv_stats intro: inv_counts\<close>)
qed

lemma inv_Cleanup_free:
  assumes "iommu_inv (st w)" and "id_BootFault (st w) = 0 \<longrightarrow> id_Owner (st w) = fo" and "fo \<noteq> 0"
  shows "wp (Cleanup_free E is) (\<lambda>r v. iommu_inv (st v) \<and> (id_BootFault (st v) = 0 \<longrightarrow> id_Owner (st v) = fo)) w"
  using assms
proof (induction "is" arbitrary: w)
  case (Cons i "is")
  show ?case
    unfolding Cleanup_free.simps
  proof (intro wp_bindI wp_getsI wp_ifI, goal_cases)
    case 3
    have r: "wp (Iommu_Retire E (bf_Token (id_Buffers (id (st w)) ! i)) True)
      (\<lambda>r v. iommu_inv (st v) \<and> iommu_keeps (st w) (st v)) w"
      by (rule inv_Retire) (use Cons.prems 3 in auto)
    show ?case
      by (rule wp_mono [OF r], intro wp_intros Cons.IH)
         (use Cons.prems 3 in \<open>auto simp: iommu_keeps_def\<close>)
  qed (use Cons in \<open>auto simp: wp_simps\<close>)
qed (simp add: wp_simps)

lemma boot_quarantined [simp]: "id_BootFault (quarantined s c) = 1"
  by (simp add: quarantined_def)

lemma unowned [simp]: "id_Owner c = 0 \<Longrightarrow> c\<lparr>id_Owner := 0\<rparr> = c" for c :: IOMMU_CONTEXT
  by simp

lemma inv_owner: "iommu_inv c \<Longrightarrow> id_BootFault c \<noteq> 0 \<Longrightarrow> iommu_inv (c\<lparr>id_Owner := 0\<rparr>)"
  by (simp add: iommu_inv_def iommu_acct_def)

lemma inv_Cleanup:
  assumes inv: "iommu_inv (st w)" and fo: "fo \<noteq> 0"
  shows "wp (Iommu_Cleanup E fo) (\<lambda>r v. iommu_inv (st v)) w"
proof -
  have free: "wp (Cleanup_free E is) Q v"
    if "iommu_inv (st v)" "id_Owner (st v) = fo"
      "\<And>r v. iommu_inv (st v) \<Longrightarrow> id_BootFault (st v) = 0 \<longrightarrow> id_Owner (st v) = fo \<Longrightarrow> Q r v" for "is" Q v
    using inv_Cleanup_free [of v fo E "is"] fo that by (auto intro: wp_mono)
  have last: "wp (Iommu_End E) Q v"
    if "iommu_inv (st v)" "id_BootFault (st v) = 0"
      "\<And>r v'. iommu_inv (st v') \<Longrightarrow> NT_SUCCESS r \<longrightarrow> id_Owner (st v') = 0 \<Longrightarrow> Q r v'" for Q v
    using inv_Iommu_End [of v E] that by (auto elim!: wp_mono)
  show ?thesis
    unfolding Iommu_Cleanup_def
    by (intro wp_intros free last wp_Quarantine)
       (use inv fo in \<open>auto intro!: inv_stats inv_quarantined intro: inv_owner simp: inv_acct\<close>)
qed

text \<open>A component whose operations may be called in any order: what every operation keeps, every
  sequence keeps.\<close>

locale machine =
  fixes step :: "'p \<Rightarrow> ('s, 'a) prog" and inv :: "'s world \<Rightarrow> bool"
  assumes step_inv: "inv w \<Longrightarrow> wp (step p) (\<lambda>r. inv) w"
begin

lemma run_inv: "inv w \<Longrightarrow> wp (mapM ps step) (\<lambda>rs. inv) w"
proof (induction ps arbitrary: w)
  case (Cons p ps)
  show ?case
    unfolding mapM.simps wp_bind
    by (rule wp_mono [OF step_inv [OF Cons.prems]]) (auto simp: wp_simps intro: wp_mono [OF Cons.IH])
qed (simp add: wp_simps)

lemma reached: "run_state (mapM ps step) w = (rs, w') \<Longrightarrow> inv w \<Longrightarrow> inv w'"
  using run_inv by (blast dest: wpD)

end

text \<open>A component that, once in a state, stays in it and from then on produces only harmless events.\<close>

locale latch = machine step inv for step :: "'p \<Rightarrow> ('s, 'a) prog" and inv +
  fixes harmless :: "io_event \<Rightarrow> bool"
  assumes step_harmless: "inv w \<Longrightarrow> wp (step p) (\<lambda>r w'. trace_ext harmless w w') w"
begin

lemma run_harmless: "inv w \<Longrightarrow> wp (mapM ps step) (\<lambda>rs w'. trace_ext harmless w w') w"
proof (induction ps arbitrary: w)
  case (Cons p ps)
  have "wp (step p) (\<lambda>r v. inv v \<and> trace_ext harmless w v) w"
    using step_inv [OF Cons.prems, of p] step_harmless [OF Cons.prems, of p] by (auto simp: wp_def split: prod.splits)
  then show ?case
    unfolding mapM.simps wp_bind
  proof (rule wp_mono)
    fix r v assume "inv v \<and> trace_ext harmless w v"
    then show "wp (mapM ps step) (\<lambda>rs. wp (ret (r # rs)) (\<lambda>rs w'. trace_ext harmless w w')) v"
      by (intro wp_mono [OF Cons.IH]) (auto simp: wp_return intro: ext.frame_trans)
  qed
qed (simp add: wp_simps ext.frame_refl)

lemma stuck: "run_state (mapM ps step) w = (rs, w') \<Longrightarrow> inv w \<Longrightarrow> inv w' \<and> trace_ext harmless w w'"
  using run_harmless reached by (blast dest: wpD)

end

section \<open>Everything a client and the system may do\<close>

datatype iommu_op = IoPrepare "cm_resource option list" | IoD0Entry | IoD0Exit | IoRelease | IoQueryStop
  | IoCleanup ptr | IoControl iommu_ioctl iommu_request_in

fun iommu_run :: "env \<Rightarrow> iommu_op \<Rightarrow> (IOMMU_CONTEXT, NTSTATUS) prog" where
  "iommu_run E (IoPrepare rs) = Iommu_Prepare E rs"
| "iommu_run E IoD0Entry = Iommu_D0Entry E"
| "iommu_run E IoD0Exit = Iommu_D0Exit E"
| "iommu_run E IoRelease = Iommu_ReleaseHardware E"
| "iommu_run E IoQueryStop = Iommu_QueryStop E"
| "iommu_run E (IoCleanup f) = do { Iommu_Cleanup E f; ret STATUS_SUCCESS }"
| "iommu_run E (IoControl code rq) = do { (status, n, reply) \<leftarrow> Iommu_Control E code rq; ret status }"

lemma idle_Cleanup_free:
  assumes "\<forall>i\<in>set is. bf_Cpu (id_Buffers (st w) ! i) = 0" and "Q () w"
  shows "wp (Cleanup_free E is) Q w"
  using assms by (induction "is") (auto simp: wp_simps)

lemma inv_Cleanup_any: "iommu_inv (st w) \<Longrightarrow> wp (Iommu_Cleanup E f) (\<lambda>r v. iommu_inv (st v)) w"
proof (cases "f = 0")
  case True
  assume inv: "iommu_inv (st w)"
  have last: "wp (Iommu_End E) Q v"
    if "iommu_inv (st v)" "id_BootFault (st v) = 0"
      "\<And>r v'. iommu_inv (st v') \<Longrightarrow> NT_SUCCESS r \<longrightarrow> id_Owner (st v') = 0 \<Longrightarrow> Q r v'" for Q v
    using inv_Iommu_End [of v E] that by (auto elim!: wp_mono)
  have free: "wp (Cleanup_free E [0..<16]) Q v" if "iommu_inv (st v)" "id_Owner (st v) = 0" "Q () v" for Q v
  proof (cases "id_BootFault (st v) = 0")
    case True
    then have "is_ActiveBuffers (id_Status (st v)) = 0" "iommu_acct (st v)"
      using that by (simp_all add: iommu_inv_def iommu_sound_def)
    then have "\<not> live b" if "b \<in> set (id_Buffers (st v))" for b using acct_dead that by blast
    then show ?thesis using that(3) acctD(1) [OF \<open>iommu_acct (st v)\<close>]
      by (intro idle_Cleanup_free) (auto simp: live_def)
  next
    case False
    then show ?thesis using that(3) by (simp add: upt_conv_Cons wp_simps)
  qed
  have q: "iommu_inv ((quarantined s c)\<lparr>id_Owner := 0\<rparr>)" if "iommu_inv c" for s c
    using that by (intro inv_owner inv_quarantined(2) inv_acct) simp_all
  show ?thesis
    unfolding Iommu_Cleanup_def
    by (intro wp_intros last wp_Quarantine)
       (use inv True in \<open>auto intro!: wp_intros last wp_Quarantine free inv_stats inv_quarantined
          intro: inv_owner q simp: inv_acct\<close>)
qed (auto intro: inv_Cleanup)

lemma inv_registers: "iommu_inv (c\<lparr>id_Registers := r\<rparr>) = iommu_inv c" "iommu_inv (c\<lparr>id_Adapter := a\<rparr>) = iommu_inv c"
  by (simp_all add: iommu_inv_def iommu_acct_def iommu_sound_def)

lemma inv_Map_blocks: "iommu_inv (st w) \<Longrightarrow> wp (Iommu_Map_blocks E rs found) (\<lambda>r v. iommu_inv (st v)) w"
proof (induction rs arbitrary: w found)
  case (Cons r rs)
  show ?case
  proof (cases r)
    case (Some d)
    show ?thesis unfolding Some
      using Cons by (cases d) (auto simp: wp_simps Let_def inv_registers intro!: wp_any)
  qed (use Cons in \<open>simp add: wp_simps\<close>)
qed (simp add: wp_simps)

lemma inv_boot: "iommu_inv c \<Longrightarrow> iommu_inv (c\<lparr>id_BootFault := 1\<rparr>)"
  by (simp add: iommu_inv_def iommu_acct_def)

lemma inv_Prepare:
  assumes inv: "iommu_inv (st w)"
  shows "wp (Iommu_Prepare E rs) (\<lambda>r v. iommu_inv (st v)) w"
proof -
  have blocks: "wp (Iommu_Map_blocks E rs found) Q v" if "iommu_inv (st v)" "\<And>r v. iommu_inv (st v) \<Longrightarrow> Q r v" for found Q v
    using inv_Map_blocks [OF that(1)] that(2) by (rule wp_mono)
  show ?thesis
    unfolding Iommu_Prepare_def
    by (intro wp_intros wp_FaultMarker blocks wp_Iommu_Snapshot)
       (use inv in \<open>auto simp: inv_registers intro: inv_boot inv_counts\<close>)
qed

lemma inv_Release:
  assumes inv: "iommu_inv (st w)"
  shows "wp (Iommu_ReleaseHardware E) (\<lambda>r v. iommu_inv (st v)) w"
proof -
  have unmap: "wp (forM is (\<lambda>i. do {
       p \<leftarrow> gets (\<lambda>c. id_Registers c ! i);
       whenM (p \<noteq> 0) (kernel_do E ''MmUnmapIoSpace'' [p, ucast MMIO_BYTES]);
       modify (\<lambda>c. c\<lparr>id_Registers := (id_Registers c)[i := 0]\<rparr>) })) Q v"
    if "iommu_inv (st v)" "\<And>v. iommu_inv (st v) \<Longrightarrow> Q () v" for "is" Q v
    using that
  proof (induction "is" arbitrary: v)
    case (Cons i "is")
    show ?case unfolding forM.simps
      by (intro wp_intros Cons.IH) (use Cons.prems in \<open>auto simp: inv_registers\<close>)
  qed (simp add: wp_simps)
  show ?thesis
    unfolding Iommu_ReleaseHardware_def Iommu_Busy_quarantine_def
    by (intro wp_bindI wp_returnI wp_getsI wp_modifyI wp_whenI kernel_any wp_kernel_doI unmap wp_Quarantine)
       (use inv in \<open>auto simp: inv_registers inv_quarantined inv_acct intro!: inv_stats\<close>)
qed

lemma inv_run: "iommu_inv (st w) \<Longrightarrow> wp (iommu_run E p) (\<lambda>r v. iommu_inv (st v)) w"
proof (cases p)
  case IoD0Entry
  assume "iommu_inv (st w)"
  then show ?thesis unfolding IoD0Entry by (simp add: Iommu_D0Entry_def wp_simps inv_stats)
next
  case IoD0Exit
  assume "iommu_inv (st w)"
  then show ?thesis unfolding IoD0Exit iommu_run.simps Iommu_D0Exit_def Iommu_Busy_quarantine_def
    by (intro wp_intros wp_Quarantine) (auto intro!: inv_stats inv_quarantined(2) intro: inv_acct)
next
  case (IoCleanup f)
  assume "iommu_inv (st w)"
  then show ?thesis unfolding IoCleanup by (auto simp: wp_simps intro: wp_mono [OF inv_Cleanup_any])
next
  case (IoControl code rq)
  assume "iommu_inv (st w)"
  then show ?thesis unfolding IoControl iommu_run.simps wp_bind
    by (auto simp: wp_simps split: prod.splits intro!: wp_mono [OF inv_Control])
qed (auto simp: Iommu_QueryStop_def wp_simps intro: inv_Prepare inv_Release)

interpretation iommu: machine "iommu_run E" "\<lambda>w. iommu_inv (st w)" for E
  by unfold_locales (rule inv_run)

section \<open>After a fault\<close>

text \<open>What a quarantined driver still does: it looks, it completes requests, but it neither writes a
  register or a buffer nor gives memory or the adapter back.\<close>

fun pinned :: "io_event \<Rightarrow> bool" where
  "pinned (Wr u off v) = False"
| "pinned (Call f xs v) = (f \<notin> {''FreeCommonBuffer'', ''PutDmaAdapter'', ''AllocateCommonBufferEx''})"
| "pinned e = True"

lemma pinned_simple:
  "preserves (trace_ext pinned) (Iommu_Screen E code rq)"
  "preserves (trace_ext pinned) (Iommu_Snapshot E)"
  "preserves (trace_ext pinned) (Quarantine E status)"
  unfolding Iommu_Screen_def Iommu_Snapshot_def Quarantine_def FaultMarker_def Let_def
  by (auto intro!: ext_intros ext_kernel)

lemma pinned_unmap: "preserves (trace_ext pinned) (forM is (\<lambda>i. do {
       p \<leftarrow> gets (\<lambda>c. id_Registers c ! i);
       whenM (p \<noteq> 0) (kernel_do E ''MmUnmapIoSpace'' [p, ucast MMIO_BYTES]);
       modify (\<lambda>c. c\<lparr>id_Registers := (id_Registers c)[i := 0]\<rparr>) }))"
  by (auto intro!: ext_intros ext_kernel)

lemma wp_pinned:
  assumes "preserves (trace_ext pinned) m" and "wp m R w"
    and "\<And>r v. trace_ext pinned w v \<Longrightarrow> R r v \<Longrightarrow> Q r v"
  shows "wp m Q w"
  using assms unfolding preserves_wp wp_def by (auto split: prod.splits)

lemma pinned_Screen: "(\<And>r v. trace_ext pinned w v \<Longrightarrow> st v = st w \<Longrightarrow> Q r v) \<Longrightarrow> wp (Iommu_Screen E code rq) Q w"
  by (rule wp_pinned [OF pinned_simple(1) wp_Screen, where R = "\<lambda>_ v. st v = st w"]) simp_all

lemma pinned_Snapshot:
  "(\<And>v. trace_ext pinned w v \<Longrightarrow> id_BootFault (st v) = id_BootFault (st w) \<Longrightarrow> Q () v) \<Longrightarrow> wp (Iommu_Snapshot E) Q w"
  by (rule wp_pinned [OF pinned_simple(2) wp_Iommu_Snapshot, where R = "\<lambda>_ v. id_BootFault (st v) = id_BootFault (st w)"])
     (auto simp: counts_only_def)

lemma pinned_Quarantine:
  "(\<And>v. trace_ext pinned w v \<Longrightarrow> st v = quarantined status (st w) \<Longrightarrow> Q status v) \<Longrightarrow> wp (Quarantine E status) Q w"
  by (rule wp_pinned [OF pinned_simple(3) wp_Quarantine, where R = "\<lambda>r v. r = status \<and> st v = quarantined status (st w)"])
     auto

lemma pinned_forM:
  assumes "\<And>v. trace_ext pinned w v \<Longrightarrow> id_BootFault (st v) = id_BootFault (st w) \<Longrightarrow> Q () v"
  shows "wp (forM is (\<lambda>i. do {
       p \<leftarrow> gets (\<lambda>c. id_Registers c ! i);
       whenM (p \<noteq> 0) (kernel_do E ''MmUnmapIoSpace'' [p, ucast MMIO_BYTES]);
       modify (\<lambda>c. c\<lparr>id_Registers := (id_Registers c)[i := 0]\<rparr>) })) Q w"
proof (rule wp_pinned [OF pinned_unmap])
  show "wp (forM is (\<lambda>i. do {
       p \<leftarrow> gets (\<lambda>c. id_Registers c ! i);
       whenM (p \<noteq> 0) (kernel_do E ''MmUnmapIoSpace'' [p, ucast MMIO_BYTES]);
       modify (\<lambda>c. c\<lparr>id_Registers := (id_Registers c)[i := 0]\<rparr>) }))
     (\<lambda>_ v. id_BootFault (st v) = id_BootFault (st w)) w"
    by (rule wp_keeps [where g = id_BootFault]) (auto intro!: kernel_keeps)
qed (simp add: assms)

lemma pin_more: "trace_ext pinned w v \<Longrightarrow> pinned e \<Longrightarrow> trace_ext pinned w (v\<lparr>trace := e # trace v\<rparr>)"
  by (simp add: trace_ext_def extends_Cons)

lemma pin_run:
  assumes boot: "id_BootFault (st w) \<noteq> 0"
  shows "wp (iommu_run E p) (\<lambda>r v. id_BootFault (st v) \<noteq> 0 \<and> trace_ext pinned w v) w"
proof -
  have free: "wp (Cleanup_free E is) Q v" if "id_BootFault (st v) \<noteq> 0" "Q () v" for "is" Q v
    using that by (cases "is") (simp_all add: wp_simps)
  note rules = wp_bindI wp_returnI wp_getsI wp_modifyI wp_ifI wp_whenI wp_case_prodI kernel_any wp_kernel_doI wp_LetI
    pinned_Screen pinned_Snapshot pinned_Quarantine pinned_forM free
  have ext: "trace_ext pinned w v \<longleftrightarrow> extends pinned (trace w) (trace v)" for v by (simp add: trace_ext_def)
  show ?thesis
  proof (cases p)
    case IoPrepare
    then show ?thesis using boot by (simp add: Iommu_Prepare_def wp_simps ext)
  next
    case (IoCleanup f)
    show ?thesis unfolding IoCleanup iommu_run.simps Iommu_Cleanup_def
      by (intro rules) (use boot in \<open>auto simp: ext trace_ext_def intro!: extends_Cons\<close>)
  next
    case (IoControl code rq)
    have d: "wp (Iommu_Dispatch E code rq) Q v" if "id_BootFault (st v) \<noteq> 0" "Q (STATUS_DEVICE_HARDWARE_ERROR, NoReply) v" for Q v
      using that by (simp add: Iommu_Dispatch_def wp_simps)
    show ?thesis unfolding IoControl iommu_run.simps Iommu_Control_def
      by (intro rules d) (use boot in \<open>auto simp: ext trace_ext_def intro!: extends_Cons
          elim!: extends_trans dest!: extends_ConsD\<close>)
  next
    case IoRelease
    show ?thesis unfolding IoRelease iommu_run.simps Iommu_ReleaseHardware_def Iommu_Busy_quarantine_def
      by (intro rules) (use boot in \<open>auto simp: ext trace_ext_def intro!: extends_Cons elim!: extends_trans dest!: extends_ConsD\<close>)
  next
    case IoD0Entry
    show ?thesis unfolding IoD0Entry iommu_run.simps Iommu_D0Entry_def
      by (intro rules) (use boot in \<open>auto simp: ext intro!: extends_Cons\<close>)
  next
    case IoD0Exit
    show ?thesis unfolding IoD0Exit iommu_run.simps Iommu_D0Exit_def Iommu_Busy_quarantine_def
      by (intro rules) (use boot in \<open>auto simp: ext trace_ext_def intro!: extends_Cons dest!: extends_ConsD\<close>)
  next
    case IoQueryStop
    show ?thesis unfolding IoQueryStop iommu_run.simps Iommu_QueryStop_def
      by (intro rules) (use boot in \<open>auto simp: ext intro!: extends_Cons\<close>)
  qed
qed

interpretation iommu_pinned: latch "iommu_run E" "\<lambda>w. id_BootFault (st w) \<noteq> 0" pinned for E
  using pin_run [unfolded wp_conj] by unfold_locales blast+

section \<open>Properties\<close>

text \<open>What the driver has promised its client: the device address behind a page of a slot, for an access
  of the kind \<open>write\<close>. Only a live buffer that is still mapped has one, and only its inner pages.\<close>

definition iommu_promise :: "IOMMU_CONTEXT \<Rightarrow> nat \<Rightarrow> nat \<Rightarrow> u32 \<Rightarrow> u64 option" where
  "iommu_promise c slot k write = (let b = id_Buffers c ! slot in
     if bf_Cpu b \<noteq> 0 \<and> bf_Mapped b \<noteq> 0 \<and> 1 \<le> k \<and> k \<le> unat (bf_Pages b) \<and> (write = 0 \<or> bf_Writable b \<noteq> 0)
     then Some (bf_Dma b + of_nat (4096 * k)) else None)"

lemma walk_promise:
  assumes inv: "iommu_inv c" "id_BootFault c = 0" and idx: "slot < 16" "k < 18" "off < 4096" and wr: "wr \<le> 1"
  shows "MmuWalk (id_Table c) (mmu_iova (of_nat slot) k off) wr =
    (case iommu_promise c slot k wr of None \<Rightarrow> (MmuInvalid, 0) | Some dma \<Rightarrow> (MmuOk, dma + of_nat off))"
proof -
  let ?b = "id_Buffers c ! slot"
  have s: "iommu_sound c" and len: "length (id_Buffers c) = 16"
    using inv by (simp_all add: iommu_inv_def iommu_acct_def)
  have entry: "id_Table c ! (slot * 18 + k) = slot_entry ?b k" and ok: "buffer_ok ?b"
    using s idx len by (simp_all add: iommu_sound_def)
  have walk: "MmuWalk (id_Table c) (mmu_iova (of_nat slot) k off) wr =
    (if slot_entry ?b k AND MMU_PTE_VALID = 0 \<or> wr \<noteq> 0 \<and> slot_entry ?b k AND MMU_PTE_WRITE = 0
     then (MmuInvalid, 0)
     else (MmuOk, push_bit 12 (ucast (slot_entry ?b k AND 0x0fffffff)) OR of_nat off))"
    unfolding mmu_iova_def slot_index [OF idx(1)]
    by (subst MmuWalk_index) (use idx wr entry in auto)
  show ?thesis
  proof (cases "live ?b \<and> bf_Mapped ?b \<noteq> 0 \<and> 1 \<le> k \<and> k \<le> unat (bf_Pages ?b)")
    case False
    then show ?thesis by (auto simp: walk slot_entry_def iommu_promise_def live_def Let_def)
  next
    case True
    then have a: "Mmu_Address (bf_Dma ?b + ucast MMU_PAGE) (bf_Pages ?b)" and w1: "bf_Writable ?b \<le> 1"
      using ok by (simp_all add: buffer_ok_def)
    have k: "k - 1 < unat (bf_Pages ?b)" using True by auto
    have e: "slot_entry ?b k = mmu_pte (bf_Dma ?b + ucast MMU_PAGE) (k - 1) (bf_Writable ?b)"
      using True by (simp add: slot_entry_def)
    note n = Mmu_Address_nat [OF a]
    have small: "unat (bf_Dma ?b + ucast MMU_PAGE) div 4096 + (k - 1) < 2 ^ 28" using n(2) k by simp
    note bits = mmu_pte_bits [OF small, of "bf_Writable ?b"]
    have sum: "bf_Dma ?b + ucast MMU_PAGE + of_nat ((k - 1) * 4096 + off) = bf_Dma ?b + of_nat (4096 * k) + of_nat off"
    proof -
      have "4096 * k = 4096 + (k - 1) * 4096" using True by (cases k) simp_all
      then have "(of_nat (4096 * k) :: u64) = of_nat 4096 + of_nat ((k - 1) * 4096)" by (metis of_nat_add)
      then show ?thesis by (simp only: of_nat_add) (simp add: add.assoc)
    qed
    have p: "iommu_promise c slot k wr = (if wr = 0 \<or> bf_Writable ?b \<noteq> 0 then Some (bf_Dma ?b + of_nat (4096 * k)) else None)"
      using True by (simp add: iommu_promise_def live_def Let_def)
    show ?thesis
      unfolding walk e pte_translation [OF a k idx(3)] sum p using bits(2,3) by (simp only: split: if_split) simp
  qed
qed

text \<open>C14. The page table refines the driver's list of buffers. In every state that any sequence of
  requests and power transitions can reach without a fault, on any hardware, the table translates an
  access exactly as the driver has promised: the inner pages of the mapped live buffers, to their own
  memory and with their own write permission, and nothing else.\<close>

theorem iommu_table_refines:
  assumes "run_state (mapM ps (iommu_run E)) \<lparr>st = id_zero, trace = []\<rparr> = (rs, w)"
    and "id_BootFault (st w) = 0" and "slot < 16" and "k < 18" and "off < 4096" and "write \<le> 1"
  shows "MmuWalk (id_Table (st w)) (mmu_iova (of_nat slot) k off) write =
    (case iommu_promise (st w) slot k write of None \<Rightarrow> (MmuInvalid, 0) | Some dma \<Rightarrow> (MmuOk, dma + of_nat off))"
proof -
  have "iommu_inv (st w)" using iommu.reached [OF assms(1)] inv_zero by simp
  then show ?thesis using assms(2-) by (rule walk_promise)
qed

lemma iommu_example:
  "run_state (mapM [IoD0Entry] (iommu_run (regfile (\<lambda>_ _. 0) (\<lambda>_ _. 0)))) \<lparr>st = id_zero, trace = []\<rparr> =
    ([0], \<lparr>st = id_zero\<lparr>id_Status := is_zero\<lparr>is_Online := 1\<rparr>\<rparr>,
       trace = [Call ''WdfWaitLockRelease'' [] 0, Call ''WdfWaitLockAcquire'' [0] 0]\<rparr>)"
  by (simp add: Iommu_D0Entry_def wp_simps kernel_do_def id_zero_def)

theorem iommu_table_refines_witness:
  "MmuWalk (id_Table (id_zero\<lparr>id_Status := is_zero\<lparr>is_Online := 1\<rparr>\<rparr>)) (mmu_iova (of_nat 3) 1 8) 0 = (MmuInvalid, 0)"
  using iommu_table_refines [OF iommu_example, of 3 1 8 0]
  by (simp add: id_zero_def iommu_promise_def bf_zero_def)

text \<open>C15. The driver's books are right in every reachable state, also after a fault: the number of active
  buffers and the number of allocated bytes are those of the buffers it holds, and no two live buffers
  have the same token.\<close>

theorem iommu_accounting:
  assumes "run_state (mapM ps (iommu_run E)) \<lparr>st = id_zero, trace = []\<rparr> = (rs, w)"
  shows "unat (is_ActiveBuffers (id_Status (st w))) = length (filter (\<lambda>b. bf_Cpu b \<noteq> 0) (id_Buffers (st w))) \<and>
    is_AllocatedBytes (id_Status (st w)) = bf_Length (id_Root (st w)) + bf_Length (id_L2 (st w)) +
      bf_Length (id_Trap (st w)) + sum_list (map bf_Length (id_Buffers (st w))) \<and>
    distinct (map bf_Token (filter (\<lambda>b. bf_Cpu b \<noteq> 0) (id_Buffers (st w))))"
proof -
  have "iommu_inv (st w)" using iommu.reached [OF assms] inv_zero by simp
  then have a: "iommu_acct (st w)" by (rule inv_acct)
  have live: "filter live xs = filter (\<lambda>b. bf_Cpu b \<noteq> 0) xs" for xs
    by (rule filter_cong) (simp_all add: live_def)
  have "distinct (map bf_Token (filter live xs))"
    if "\<forall>i < length xs. \<forall>j < length xs. live (xs ! i) \<longrightarrow> live (xs ! j) \<longrightarrow> bf_Token (xs ! i) = bf_Token (xs ! j) \<longrightarrow> i = j"
    for xs
    using that
  proof (induction xs)
    case (Cons x xs)
    have tl: "\<forall>i < length xs. \<forall>j < length xs. live (xs ! i) \<longrightarrow> live (xs ! j) \<longrightarrow>
        bf_Token (xs ! i) = bf_Token (xs ! j) \<longrightarrow> i = j"
      using Cons.prems by (metis Suc_less_eq length_Cons nat.inject nth_Cons_Suc)
    have "bf_Token y \<noteq> bf_Token x" if "live x" "y \<in> set xs" "live y" for y
    proof -
      from that(2) obtain j where "j < length xs" "y = xs ! j" by (metis in_set_conv_nth)
      then show ?thesis using Cons.prems that(1,3)
        by (metis Suc_less_eq length_Cons nat.distinct(1) nth_Cons_0 nth_Cons_Suc zero_less_Suc)
    qed
    then show ?case using Cons.IH [OF tl] by (cases "live x") (auto simp: image_iff, metis)
  qed simp
  then have "distinct (map bf_Token (filter live (id_Buffers (st w))))" using acctD(1,7) [OF a] by simp
  then show ?thesis using acctD(4,5) [OF a] by (simp add: live)
qed

theorem iommu_accounting_witness:
  "is_AllocatedBytes (id_Status (id_zero\<lparr>id_Status := is_zero\<lparr>is_Online := 1\<rparr>\<rparr>)) = 0"
  using iommu_accounting [OF iommu_example] by (simp add: id_zero_def bf_zero_def sum_list_replicate)

text \<open>C16. After a fault nothing is given back: from a state with the latch set no sequence of requests, power
  transitions and removals writes a register or a buffer, allocates or frees a common buffer, or releases the
  adapter, and the latch stays set.\<close>

theorem iommu_fault_pins:
  assumes "run_state (mapM ps (iommu_run E)) w = (rs, w')" and "id_BootFault (st w) \<noteq> 0"
    and "trace w' = es @ trace w" and "e \<in> set es"
  shows "id_BootFault (st w') \<noteq> 0 \<and> (\<forall>u off v. e \<noteq> Wr u off v) \<and>
    (\<forall>xs v. e \<noteq> Call ''FreeCommonBuffer'' xs v \<and> e \<noteq> Call ''PutDmaAdapter'' xs v \<and>
      e \<noteq> Call ''AllocateCommonBufferEx'' xs v)"
  using iommu_pinned.stuck [OF assms(1,2)] assms(3,4) by (auto simp: trace_ext_def extends_def)

theorem iommu_fault_pins_witness:
  "let w = \<lparr>st = id_zero\<lparr>id_BootFault := 1, id_Owner := 7\<rparr>, trace = []\<rparr>;
       o' = run_state (mapM [IoCleanup 7, IoRelease] (iommu_run (regfile (\<lambda>_ _. 0) (\<lambda>_ _. 0)))) w
   in id_BootFault (st (snd o')) \<noteq> 0"
proof -
  let ?w = "\<lparr>st = id_zero\<lparr>id_BootFault := 1, id_Owner := 7\<rparr>, trace = []\<rparr>"
  let ?o = "run_state (mapM [IoCleanup 7, IoRelease] (iommu_run (regfile (\<lambda>_ _. 0) (\<lambda>_ _. 0)))) ?w"
  have run: "?o = (fst ?o, snd ?o)" by simp
  have b: "id_BootFault (st ?w) \<noteq> 0" by simp
  have t: "trace (snd ?o) = trace (snd ?o) @ trace ?w" by simp
  have e: "Call ''WdfWaitLockAcquire'' [0] 0 \<in> set (trace (snd ?o))"
    by (simp add: Iommu_Cleanup_def Iommu_ReleaseHardware_def Iommu_Busy_quarantine_def wp_simps kernel_do_def upt_conv_Cons id_zero_def mmu_zero_def)
  show ?thesis unfolding Let_def using iommu_fault_pins [OF run b t e] by blast
qed

end
