(* ===== verification/Mailbox.thy ===== *)
theory Mailbox
  imports Prelude "HOL-Library.While_Combinator"
begin

text \<open>
  The firmware property mailbox, \<open>pi5-mailbox/mailbox.c\<close>: one transaction over the mailbox
  FIFOs and the common buffer, the acceptance of replies, the encoding of the bus address,
  and the conversion between the ACPI time structure and seconds since 1970. Unit 0 is the
  register block, unit 1 the common buffer, whose accesses are volatile in the code and
  visible to the firmware.
\<close>

unbundle bit_operations_syntax

section \<open>Constants and state\<close>

abbreviation RX_DATA :: u32 where "RX_DATA \<equiv> 0x00"
abbreviation RX_STATUS :: u32 where "RX_STATUS \<equiv> 0x18"
abbreviation TX_DATA :: u32 where "TX_DATA \<equiv> 0x20"
abbreviation TX_STATUS :: u32 where "TX_STATUS \<equiv> 0x38"
abbreviation FIFO_FULL :: u32 where "FIFO_FULL \<equiv> 0x80000000"
abbreviation FIFO_EMPTY :: u32 where "FIFO_EMPTY \<equiv> 0x40000000"
abbreviation MBX_BUFFER_BYTES :: u32 where "MBX_BUFFER_BYTES \<equiv> 256"
abbreviation MBX_TIMEOUT_100NS :: u64 where "MBX_TIMEOUT_100NS \<equiv> 30000000"

datatype MBX_RESULT = MbxOk | MbxInvalid | MbxTimeout | MbxForeignReply | MbxMalformed
  | MbxFirmwareError | MbxFaulted

text \<open>The buffer itself is memory shared with the firmware; the state says whether one is
  allocated.\<close>

record MBX_TRANSPORT =
  mbx_Buffer :: bool
  mbx_Address :: u32
  mbx_Fault :: u32
  mbx_Unsafe :: u32
  mbx_Transactions :: u32
  mbx_Failures :: u32
  mbx_Timeouts :: u32
  mbx_ForeignReplies :: u32
  mbx_LastReply :: u32

definition mbx_zero :: MBX_TRANSPORT where
  "mbx_zero = \<lparr>mbx_Buffer = False, mbx_Address = 0, mbx_Fault = 0, mbx_Unsafe = 0,
     mbx_Transactions = 0, mbx_Failures = 0, mbx_Timeouts = 0, mbx_ForeignReplies = 0,
     mbx_LastReply = 0\<rparr>"

section \<open>One transaction\<close>

definition Mbx_Fail :: "MBX_RESULT \<Rightarrow> bool \<Rightarrow> (MBX_TRANSPORT, MBX_RESULT) prog" where
  "Mbx_Fail result fatal = do {
     modify (\<lambda>t. t\<lparr>mbx_Failures := mbx_Failures t + 1\<rparr>);
     whenM fatal (modify (\<lambda>t. t\<lparr>mbx_Fault := 1\<rparr>));
     whenM (result = MbxTimeout) (modify (\<lambda>t. t\<lparr>mbx_Timeouts := mbx_Timeouts t + 1\<rparr>));
     whenM (result = MbxForeignReply)
       (modify (\<lambda>t. t\<lparr>mbx_ForeignReplies := mbx_ForeignReplies t + 1\<rparr>));
     ret result
   }"

definition MbxReplyIdMatches :: "u32 \<Rightarrow> u32 \<Rightarrow> u32 \<Rightarrow> bool" where
  "MbxReplyIdMatches tag requested returned \<longleftrightarrow>
     returned = requested \<or>
     tag = 0x40017 \<and> (requested = 2 \<or> requested = 7) \<and> returned AND 255 = requested \<or>
     tag = 0x30047 \<and> requested \<noteq> 0 \<and> requested \<le> 16 \<and> returned = 0"

definition MbxEncodeAddress :: "u64 \<Rightarrow> u64 \<Rightarrow> u32 \<Rightarrow> u32 option" where
  "MbxEncodeAddress logical physical bytes =
     (if bytes = 0 \<or> bytes > 0x40000000 \<or> logical AND 15 \<noteq> 0 \<or> physical AND 15 \<noteq> 0 \<or>
         physical > 0x40000000 - ucast bytes then None
      else if logical = physical + 0xc0000000 then Some (ucast logical)
      else if logical = physical then Some (ucast logical + 0xc0000000)
      else None)"

text \<open>A word of the common buffer.\<close>

definition mbx_word :: "nat \<Rightarrow> u32" where "mbx_word k = 4 * of_nat k"

text \<open>Wait for room in the transmit FIFO: one turn of the loop.\<close>

definition Mbx_Tx_turn :: "env \<Rightarrow> u64 \<Rightarrow> (MBX_TRANSPORT, MBX_RESULT option) prog" where
  "Mbx_Tx_turn E deadline = do {
     v \<leftarrow> io_read E 0 TX_STATUS;
     if v AND FIFO_FULL = 0 then ret (Some MbxOk)
     else do {
       now \<leftarrow> io_now E;
       if now \<ge> deadline then do { r \<leftarrow> Mbx_Fail MbxTimeout True; ret (Some r) }
       else do { io_delay 1; ret None }
     }
   }"

text \<open>Wait for the reply: one turn of the loop.\<close>

definition Mbx_Rx_turn :: "env \<Rightarrow> u64 \<Rightarrow> u32 \<Rightarrow> (MBX_TRANSPORT, MBX_RESULT option) prog" where
  "Mbx_Rx_turn E deadline message = do {
     v \<leftarrow> io_read E 0 RX_STATUS;
     if v AND FIFO_EMPTY = 0 then do {
       reply \<leftarrow> io_read E 0 RX_DATA;
       modify (\<lambda>t. t\<lparr>mbx_LastReply := reply\<rparr>);
       if reply \<noteq> message then do { r \<leftarrow> Mbx_Fail MbxForeignReply True; ret (Some r) }
       else do {
         io_barrier;
         modify (\<lambda>t. t\<lparr>mbx_Unsafe := 0\<rparr>);
         ret (Some MbxOk)
       }
     } else do {
       now \<leftarrow> io_now E;
       if now \<ge> deadline then do { r \<leftarrow> Mbx_Fail MbxTimeout True; ret (Some r) }
       else do { io_delay 1; ret None }
     }
   }"

text \<open>Does some word of the buffer differ from its expected value? The disjunction of the code
  stops at the first.\<close>

fun Mbx_Differs :: "env \<Rightarrow> (nat \<times> u32) list \<Rightarrow> (MBX_TRANSPORT, bool) prog" where
  "Mbx_Differs E [] = ret False"
| "Mbx_Differs E ((k, expected) # ks) = do {
     v \<leftarrow> io_read E 1 (mbx_word k);
     if v \<noteq> expected then ret True else Mbx_Differs E ks
   }"

text \<open>The response lengths accepted for a request, each with its side condition; the code
  rereads the length word for every alternative that applies.\<close>

definition mbx_lengths :: "u32 \<Rightarrow> u32 \<Rightarrow> (bool \<times> u32) list" where
  "mbx_lengths tag bytes =
     [(True, 0x80000000 OR bytes),
      ((tag = 0x30087 \<or> tag = 0x38087) \<and> bytes = 8, 0x80000004),
      (tag = 0x38002 \<and> bytes = 12, 0x80000008),
      (tag = 0x48017 \<and> bytes = 36 \<or> tag = 0x48013 \<and> bytes = 4, 0)]"

fun Mbx_Length_ok :: "env \<Rightarrow> (bool \<times> u32) list \<Rightarrow> (MBX_TRANSPORT, bool) prog" where
  "Mbx_Length_ok E [] = ret False"
| "Mbx_Length_ok E ((applies, expected) # ls) =
     (if applies then do {
        v \<leftarrow> io_read E 1 (mbx_word 4);
        if v = expected then ret True else Mbx_Length_ok E ls
      } else Mbx_Length_ok E ls)"

definition mbx_args_ok :: "MBX_TRANSPORT \<Rightarrow> u32 \<Rightarrow> u32 \<Rightarrow> bool" where
  "mbx_args_ok t tag bytes \<longleftrightarrow>
     \<not> (\<not> mbx_Buffer t \<or> tag = 0 \<or> bytes = 0 \<or> bytes AND 3 \<noteq> 0 \<or> bytes > MBX_BUFFER_BYTES - 24 \<or>
        mbx_Address t AND 15 \<noteq> 0 \<or> mbx_Address t < 0xc0000000 \<or>
        mbx_Address t > 0xffffffff - MBX_BUFFER_BYTES + 1)"

text \<open>Reading the answer, once the firmware has handed the buffer back.\<close>

definition Mbx_Answer :: "env \<Rightarrow> u32 \<Rightarrow> u32 list \<Rightarrow> u32 \<Rightarrow> (MBX_TRANSPORT, MBX_RESULT \<times> u32 list) prog" where
  "Mbx_Answer E tag data bytes = do {
     let size = bytes + 24;
     bad \<leftarrow> Mbx_Differs E [(0, size), (2, tag), (3, bytes), (unat (size div 4 - 1), 0)];
     if bad then do { r \<leftarrow> Mbx_Fail MbxMalformed True; ret (r, data) }
     else do {
       code \<leftarrow> io_read E 1 (mbx_word 1);
       if code = 0x80000001 then do { r \<leftarrow> Mbx_Fail MbxFirmwareError False; ret (r, data) }
       else do {
         code \<leftarrow> io_read E 1 (mbx_word 1);
         ok \<leftarrow> (if code \<noteq> 0x80000000 then ret False else Mbx_Length_ok E (mbx_lengths tag bytes));
         if \<not> ok then do { r \<leftarrow> Mbx_Fail MbxMalformed True; ret (r, data) }
         else do {
           words \<leftarrow> mapM [0..<unat bytes div 4] (\<lambda>i. io_read E 1 (mbx_word (5 + i)));
           ret (MbxOk, words @ drop (unat bytes div 4) data)
         }
       }
     }
   }"

text \<open>From the first store into the buffer to the end of the call.\<close>

definition Mbx_Send :: "env \<Rightarrow> nat \<Rightarrow> u64 \<Rightarrow> u32 \<Rightarrow> u32 list \<Rightarrow> u32 \<Rightarrow>
    (MBX_TRANSPORT, (MBX_RESULT \<times> u32 list) option) prog" where
  "Mbx_Send E fuel deadline tag data bytes = do {
     t \<leftarrow> gets id;
     let size = bytes + 24;
     forM [0..<unat (MBX_BUFFER_BYTES div 4)] (\<lambda>i. io_write 1 (mbx_word i) 0);
     io_write 1 (mbx_word 0) size;
     io_write 1 (mbx_word 2) tag;
     io_write 1 (mbx_word 3) bytes;
     forM [0..<unat bytes div 4] (\<lambda>i. io_write 1 (mbx_word (5 + i)) (data ! i));
     let message = mbx_Address t OR 8;
     io_barrier;
     modify (\<lambda>t. t\<lparr>mbx_Unsafe := 1\<rparr>);
     modify (\<lambda>t. t\<lparr>mbx_Transactions := mbx_Transactions t + 1\<rparr>);
     io_write 0 TX_DATA message;
     andthen (loopM fuel (Mbx_Rx_turn E deadline message)) (\<lambda>r.
       if r \<noteq> MbxOk then ret (Some (r, data))
       else do { a \<leftarrow> Mbx_Answer E tag data bytes; ret (Some a) })
   }"

definition MbxTransfer :: "env \<Rightarrow> nat \<Rightarrow> u32 \<Rightarrow> u32 list \<Rightarrow> u32 \<Rightarrow>
    (MBX_TRANSPORT, (MBX_RESULT \<times> u32 list) option) prog" where
  "MbxTransfer E fuel tag data bytes = do {
     t \<leftarrow> gets id;
     if \<not> mbx_args_ok t tag bytes then ret (Some (MbxInvalid, data))
     else if mbx_Fault t \<noteq> 0 \<or> mbx_Unsafe t \<noteq> 0 then ret (Some (MbxFaulted, data))
     else do {
       now \<leftarrow> io_now E;
       let deadline = now + MBX_TIMEOUT_100NS;
       v \<leftarrow> io_read E 0 RX_STATUS;
       if v AND FIFO_EMPTY = 0
       then do { r \<leftarrow> Mbx_Fail MbxForeignReply True; ret (Some (r, data)) }
       else andthen (loopM fuel (Mbx_Tx_turn E deadline)) (\<lambda>r.
         if r \<noteq> MbxOk then ret (Some (r, data))
         else Mbx_Send E fuel deadline tag data bytes)
     }
   }"

section \<open>Time\<close>

definition Mbx_Leap :: "u32 \<Rightarrow> bool" where
  "Mbx_Leap year \<longleftrightarrow> year mod 4 = 0 \<and> (year mod 100 \<noteq> 0 \<or> year mod 400 = 0)"

definition mbx_days :: "u8 list" where
  "mbx_days = [31, 28, 31, 30, 31, 30, 31, 31, 30, 31, 30, 31]"

definition Mbx_MonthDays :: "u32 \<Rightarrow> u32 \<Rightarrow> u32" where
  "Mbx_MonthDays year month =
     ucast (mbx_days ! unat (month - 1)) + c_bool (month = 2 \<and> Mbx_Leap year)"

text \<open>The 16-bit value at an offset of the time structure, low byte first.\<close>

definition Mbx_Word :: "u8 list \<Rightarrow> nat \<Rightarrow> u16" where
  "Mbx_Word time k = ucast (time ! k) OR push_bit 8 (ucast (time ! Suc k))"

definition mbx_time_ok :: "u8 list \<Rightarrow> bool" where
  "mbx_time_ok time \<longleftrightarrow>
     (let year = ucast (Mbx_Word time 0) :: u32; month = ucast (time ! 2); day = ucast (time ! 3);
          zone = sint (Mbx_Word time 10) in
      \<not> (year < 1900 \<or> year > 9999 \<or> month < 1 \<or> month > 12 \<or>
         day < 1 \<or> day > Mbx_MonthDays year month \<or> time ! 4 > 23 \<or>
         time ! 5 > 59 \<or> time ! 6 > 59 \<or> Mbx_Word time 8 > 1000 \<or>
         (zone \<noteq> 2047 \<and> (zone < - 1440 \<or> zone > 1440)) \<or>
         (ucast (time ! 12) :: u32) AND NOT 3 \<noteq> 0 \<or> time ! 13 \<noteq> 0 \<or> time ! 14 \<noteq> 0 \<or> time ! 15 \<noteq> 0))"

text \<open>The 64-bit day and second counts of the code stay far below their range, so they are
  integers here.\<close>

definition mbx_time_days :: "u8 list \<Rightarrow> int" where
  "mbx_time_days time =
     (let year = ucast (Mbx_Word time 0) :: u32; month = ucast (time ! 2) :: u32;
          day = ucast (time ! 3) :: u32;
          days = (if year \<ge> 1970
            then fold (\<lambda>y d. d + (365 + of_bool (Mbx_Leap (of_nat y)))) [1970..<unat year] 0
            else fold (\<lambda>y d. d - (365 + of_bool (Mbx_Leap (of_nat y)))) [unat year..<1970] 0);
          days = fold (\<lambda>m d. d + uint (Mbx_MonthDays year (of_nat m))) [1..<unat month] days
      in days + uint (day - 1))"

definition MbxTimeToEpoch :: "u8 list \<Rightarrow> u32 option" where
  "MbxTimeToEpoch time =
     (if \<not> mbx_time_ok time then None
      else let zone = sint (Mbx_Word time 10);
          seconds = mbx_time_days time * 86400 + uint (time ! 4) * 3600 + uint (time ! 5) * 60 +
            uint (time ! 6);
          seconds = (if zone \<noteq> 2047 then seconds - zone * 60 else seconds)
        in if seconds < 0 \<or> seconds > 0xffffffff then None else Some (of_int seconds))"

definition mbx_years :: "u32 \<Rightarrow> u32 \<times> u32" where
  "mbx_years days =
     while (\<lambda>(d, y). d \<ge> 365 + c_bool (Mbx_Leap y))
       (\<lambda>(d, y). (d - (365 + c_bool (Mbx_Leap y)), y + 1)) (days, 1970)"

definition mbx_months :: "u32 \<Rightarrow> u32 \<Rightarrow> u32 \<times> u32" where
  "mbx_months year days =
     while (\<lambda>(d, m). d \<ge> Mbx_MonthDays year m) (\<lambda>(d, m). (d - Mbx_MonthDays year m, m + 1)) (days, 1)"

definition MbxEpochToTime :: "u32 \<Rightarrow> u8 list" where
  "MbxEpochToTime epoch =
     (let days = epoch div 86400; seconds = epoch mod 86400;
          (days, year) = mbx_years days;
          (days, month) = mbx_months year days
      in (replicate 16 0)[0 := ucast year, 1 := ucast (drop_bit 8 year), 2 := ucast month,
           3 := ucast (days + 1), 4 := ucast (seconds div 3600),
           5 := ucast ((seconds div 60) mod 60), 6 := ucast (seconds mod 60), 7 := 1])"

section \<open>Rules for the steps\<close>

definition mbx_failed :: "MBX_RESULT \<Rightarrow> bool \<Rightarrow> MBX_TRANSPORT \<Rightarrow> MBX_TRANSPORT" where
  "mbx_failed r fatal t = t\<lparr>mbx_Failures := mbx_Failures t + 1,
     mbx_Fault := (if fatal then 1 else mbx_Fault t),
     mbx_Timeouts := mbx_Timeouts t + c_bool (r = MbxTimeout),
     mbx_ForeignReplies := mbx_ForeignReplies t + c_bool (r = MbxForeignReply)\<rparr>"

lemma mbx_failed_simps [simp]:
  "mbx_Fault (mbx_failed r fatal t) = (if fatal then 1 else mbx_Fault t)"
  "mbx_Unsafe (mbx_failed r fatal t) = mbx_Unsafe t"
  "mbx_Buffer (mbx_failed r fatal t) = mbx_Buffer t"
  "mbx_Address (mbx_failed r fatal t) = mbx_Address t"
  "mbx_Transactions (mbx_failed r fatal t) = mbx_Transactions t"
  by (simp_all add: mbx_failed_def)

lemma wp_Mbx_Fail [wp_simps]:
  "wp (Mbx_Fail r fatal) Q w = Q r (w\<lparr>st := mbx_failed r fatal (st w)\<rparr>)"
  by (cases w) (auto simp: Mbx_Fail_def mbx_failed_def wp_simps)

lemma wp_Tx:
  assumes "\<And>v. trace_ext quiet w v \<Longrightarrow> st v = st w \<Longrightarrow> Q (Some MbxOk) v"
    and "\<And>v. trace_ext quiet w v \<Longrightarrow> st v = mbx_failed MbxTimeout True (st w) \<Longrightarrow> Q (Some MbxTimeout) v"
    and "\<And>v. trace_ext quiet w v \<Longrightarrow> st v = st w \<Longrightarrow> Q None v"
  shows "wp (loopM n (Mbx_Tx_turn E d)) Q w"
proof (rule wp_loopM_inv [where I = "\<lambda>v. trace_ext quiet w v \<and> st v = st w"])
  fix v assume I: "trace_ext quiet w v \<and> st v = st w"
  then show "wp (Mbx_Tx_turn E d) (\<lambda>r v'. case r of None \<Rightarrow> trace_ext quiet w v' \<and> st v' = st w
      | Some x \<Rightarrow> Q (Some x) v') v"
    unfolding Mbx_Tx_turn_def
    by (auto simp: wp_simps trace_ext_def intro!: wp_any assms)
qed (use assms(3) in \<open>auto simp: ext.frame_refl\<close>)

lemma wp_Rx:
  assumes "\<And>v. trace_ext quiet w v \<Longrightarrow> st v = (st w)\<lparr>mbx_LastReply := m, mbx_Unsafe := 0\<rparr> \<Longrightarrow> Q (Some MbxOk) v"
    and "\<And>v. trace_ext quiet w v \<Longrightarrow> \<exists>x. st v = mbx_failed MbxForeignReply True ((st w)\<lparr>mbx_LastReply := x\<rparr>) \<Longrightarrow>
      Q (Some MbxForeignReply) v"
    and "\<And>v. trace_ext quiet w v \<Longrightarrow> st v = mbx_failed MbxTimeout True (st w) \<Longrightarrow> Q (Some MbxTimeout) v"
    and "\<And>v. trace_ext quiet w v \<Longrightarrow> st v = st w \<Longrightarrow> Q None v"
  shows "wp (loopM n (Mbx_Rx_turn E d m)) Q w"
proof (rule wp_loopM_inv [where I = "\<lambda>v. trace_ext quiet w v \<and> st v = st w"])
  fix v assume I: "trace_ext quiet w v \<and> st v = st w"
  then show "wp (Mbx_Rx_turn E d m) (\<lambda>r v'. case r of None \<Rightarrow> trace_ext quiet w v' \<and> st v' = st w
      | Some x \<Rightarrow> Q (Some x) v') v"
    unfolding Mbx_Rx_turn_def
    by (auto simp: wp_simps trace_ext_def intro!: wp_any assms) blast
qed (use assms(4) in \<open>auto simp: ext.frame_refl\<close>)

lemma quietly_Differs: "preserves quietly (Mbx_Differs E ks)"
  by (induction ks rule: Mbx_Differs.induct) (auto intro!: quietly_intros)

lemma quietly_Length_ok: "preserves quietly (Mbx_Length_ok E ls)"
  by (induction ls rule: Mbx_Length_ok.induct) (auto intro!: quietly_intros)

lemma ext_Fail: "preserves (trace_ext P) (Mbx_Fail r fatal)"
  by (auto simp: Mbx_Fail_def intro!: ext_intros)

lemma quiet_Answer: "preserves (trace_ext quiet) (Mbx_Answer E tag data bytes)"
proof -
  have d: "preserves (trace_ext quiet) m" if "preserves quietly m" for m :: "(MBX_TRANSPORT, bool) prog"
    using that by (simp add: preserves_def quietly_def)
  show ?thesis
    unfolding Mbx_Answer_def Let_def
    by (auto intro!: ext_intros ext_Fail d [OF quietly_Differs] d [OF quietly_Length_ok]
      simp del: Mbx_Differs.simps)
qed

lemma wp_Answer:
  assumes ok: "\<And>v words. trace_ext quiet w v \<Longrightarrow> st v = st w \<Longrightarrow> length words = unat bytes div 4 \<Longrightarrow>
      Q (MbxOk, words @ drop (unat bytes div 4) data) v"
    and bad: "\<And>v r fatal. trace_ext quiet w v \<Longrightarrow> st v = mbx_failed r fatal (st w) \<Longrightarrow>
      (r, fatal) \<in> {(MbxMalformed, True), (MbxFirmwareError, False)} \<Longrightarrow> Q (r, data) v"
  shows "wp (Mbx_Answer E tag data bytes) Q w"
proof (rule wp_frame [OF quiet_Answer])
  show "wp (Mbx_Answer E tag data bytes) (\<lambda>r v. trace_ext quiet w v \<longrightarrow> Q r v) w"
    unfolding Mbx_Answer_def Let_def wp_simps
    by (rule wp_quietly [OF quietly_Differs])
       (auto simp: wp_simps intro!: wp_any wp_mapM_read wp_quietly [OF quietly_Length_ok] ok bad)
qed

section \<open>The request in the buffer\<close>

text \<open>The 64 words the firmware sees when the doorbell is rung.\<close>

definition mbx_request :: "u32 \<Rightarrow> u32 list \<Rightarrow> u32 \<Rightarrow> nat \<Rightarrow> u32" where
  "mbx_request tag data bytes k =
     (if k = 0 then bytes + 24 else if k = 2 then tag else if k = 3 then bytes
      else if 5 \<le> k \<and> k < 5 + unat bytes div 4 then data ! (k - 5) else 0)"

lemma mbx_word_eq: "j < 64 \<Longrightarrow> k < 64 \<Longrightarrow> mbx_word j = mbx_word k \<longleftrightarrow> j = k"
proof -
  assume "j < 64" "k < 64"
  then have "unat (mbx_word j) = 4 * j" "unat (mbx_word k) = 4 * k"
    by (simp_all add: mbx_word_def unat_word_ariths unat_of_nat_small)
  then show ?thesis by (metis mult_left_cancel zero_neq_numeral)
qed

lemma last_write_stores:
  "a + n \<le> 64 \<Longrightarrow> k < 64 \<Longrightarrow>
   last_write (rev (map (\<lambda>i. Wr 1 (mbx_word (a + i)) (g i)) [0..<n]) @ t) 1 (mbx_word k) =
     (if a \<le> k \<and> k < a + n then Some (g (k - a)) else last_write t 1 (mbx_word k))"
proof (induction n)
  case (Suc n)
  have "mbx_word (a + n) = mbx_word k \<longleftrightarrow> a + n = k" using Suc.prems by (intro mbx_word_eq) simp_all
  with Suc show ?case by auto
qed auto

text \<open>The stores of a transaction before its doorbell, newest first.\<close>

definition mbx_stores :: "u32 \<Rightarrow> u32 list \<Rightarrow> u32 \<Rightarrow> io_event list" where
  "mbx_stores tag data bytes =
     rev (map (\<lambda>i. Wr 1 (mbx_word (5 + i)) (data ! i)) [0..<unat bytes div 4]) @
     [Wr 1 (mbx_word 3) bytes, Wr 1 (mbx_word 2) tag, Wr 1 (mbx_word 0) (bytes + 24)] @
     rev (map (\<lambda>i. Wr 1 (mbx_word i) 0) [0..<64])"

lemma mbx_stores_request:
  assumes "unat bytes \<le> 232" and k: "k < 64"
  shows "last_write (mbx_stores tag data bytes @ t) 1 (mbx_word k) = Some (mbx_request tag data bytes k)"
proof -
  have n: "5 + unat bytes div 4 \<le> 64" using assms(1) by linarith
  have zero: "last_write (rev (map (\<lambda>i. Wr 1 (mbx_word i) 0) [0..<64]) @ t) 1 (mbx_word k) = Some 0"
    using last_write_stores [of 0 64 k "\<lambda>_. 0" t] k by (simp del: upt_Suc)
  show ?thesis
    unfolding mbx_stores_def append_assoc last_write_stores [OF n k] mbx_request_def
    using mbx_word_eq [of 3 k] mbx_word_eq [of 2 k] mbx_word_eq [of 0 k] k zero
    by (simp del: upt_Suc split del: if_split) auto
qed

lemma args_ok_bytes: "mbx_args_ok t tag bytes \<Longrightarrow> unat bytes \<le> 232"
  by (simp add: mbx_args_ok_def word_le_nat_alt not_less)

section \<open>The whole transaction\<close>

text \<open>How a call ends: refused at once, failed before the doorbell, or with the doorbell rung.\<close>

definition mbx_sent :: "MBX_TRANSPORT \<Rightarrow> MBX_TRANSPORT" where
  "mbx_sent t = t\<lparr>mbx_Unsafe := 1, mbx_Transactions := mbx_Transactions t + 1\<rparr>"

definition mbx_answered :: "MBX_TRANSPORT \<Rightarrow> MBX_TRANSPORT" where
  "mbx_answered t = t\<lparr>mbx_LastReply := mbx_Address t OR 8, mbx_Unsafe := 0,
     mbx_Transactions := mbx_Transactions t + 1\<rparr>"

inductive mbx_outcome :: "u32 \<Rightarrow> u32 list \<Rightarrow> u32 \<Rightarrow> MBX_TRANSPORT \<Rightarrow>
    (MBX_RESULT \<times> u32 list) option \<Rightarrow> bool \<Rightarrow> MBX_TRANSPORT \<Rightarrow> bool"
  for tag data bytes t where
  refused: "\<not> mbx_args_ok t tag bytes \<Longrightarrow> mbx_outcome tag data bytes t (Some (MbxInvalid, data)) False t"
| faulted: "mbx_args_ok t tag bytes \<Longrightarrow> mbx_Fault t \<noteq> 0 \<or> mbx_Unsafe t \<noteq> 0 \<Longrightarrow>
    mbx_outcome tag data bytes t (Some (MbxFaulted, data)) False t"
| unsent: "mbx_args_ok t tag bytes \<Longrightarrow> mbx_Fault t = 0 \<Longrightarrow> mbx_Unsafe t = 0 \<Longrightarrow>
    r \<in> {MbxTimeout, MbxForeignReply} \<Longrightarrow>
    mbx_outcome tag data bytes t (Some (r, data)) False (mbx_failed r True t)"
| unsent_spins: "mbx_args_ok t tag bytes \<Longrightarrow> mbx_Fault t = 0 \<Longrightarrow> mbx_Unsafe t = 0 \<Longrightarrow>
    mbx_outcome tag data bytes t None False t"
| unanswered: "mbx_args_ok t tag bytes \<Longrightarrow> mbx_Fault t = 0 \<Longrightarrow> mbx_Unsafe t = 0 \<Longrightarrow>
    mbx_outcome tag data bytes t (Some (MbxTimeout, data)) True (mbx_failed MbxTimeout True (mbx_sent t))"
| foreign: "mbx_args_ok t tag bytes \<Longrightarrow> mbx_Fault t = 0 \<Longrightarrow> mbx_Unsafe t = 0 \<Longrightarrow>
    mbx_outcome tag data bytes t (Some (MbxForeignReply, data)) True
      (mbx_failed MbxForeignReply True ((mbx_sent t)\<lparr>mbx_LastReply := x\<rparr>))"
| sent_spins: "mbx_args_ok t tag bytes \<Longrightarrow> mbx_Fault t = 0 \<Longrightarrow> mbx_Unsafe t = 0 \<Longrightarrow>
    mbx_outcome tag data bytes t None True (mbx_sent t)"
| malformed: "mbx_args_ok t tag bytes \<Longrightarrow> mbx_Fault t = 0 \<Longrightarrow> mbx_Unsafe t = 0 \<Longrightarrow>
    mbx_outcome tag data bytes t (Some (MbxMalformed, data)) True (mbx_failed MbxMalformed True (mbx_answered t))"
| firmware: "mbx_args_ok t tag bytes \<Longrightarrow> mbx_Fault t = 0 \<Longrightarrow> mbx_Unsafe t = 0 \<Longrightarrow>
    mbx_outcome tag data bytes t (Some (MbxFirmwareError, data)) True
      (mbx_failed MbxFirmwareError False (mbx_answered t))"
| answered: "mbx_args_ok t tag bytes \<Longrightarrow> mbx_Fault t = 0 \<Longrightarrow> mbx_Unsafe t = 0 \<Longrightarrow>
    length words = unat bytes div 4 \<Longrightarrow>
    mbx_outcome tag data bytes t (Some (MbxOk, words @ drop (unat bytes div 4) data)) True (mbx_answered t)"

inductive_cases mbx_outcomeE: "mbx_outcome tag data bytes t r sent t'"

text \<open>The trace of a call: quiet, or the stores, a barrier and the doorbell between quiet parts.\<close>

definition mbx_calls :: "u32 \<Rightarrow> u32 list \<Rightarrow> u32 \<Rightarrow> MBX_TRANSPORT world \<Rightarrow> bool \<Rightarrow> MBX_TRANSPORT world \<Rightarrow> bool" where
  "mbx_calls tag data bytes w sent v \<longleftrightarrow>
     (if sent then \<exists>pre post. (\<forall>e\<in>set pre. quiet e) \<and> (\<forall>e\<in>set post. quiet e) \<and>
        trace v = post @ Wr 0 TX_DATA (mbx_Address (st w) OR 8) # Bar # mbx_stores tag data bytes @ pre @ trace w
      else trace_ext quiet w v)"

lemma mbx_calls_sent:
  assumes "trace_ext quiet w u" and "trace_ext quiet v v'"
    and "trace v = Wr 0 TX_DATA (mbx_Address (st w) OR 8) # Bar # mbx_stores tag data bytes @ trace u"
  shows "mbx_calls tag data bytes w True v'"
proof -
  obtain pre where "trace u = pre @ trace w" "\<forall>e\<in>set pre. quiet e"
    using assms(1) by (auto simp: trace_ext_def extends_def)
  moreover obtain post where "trace v' = post @ trace v" "\<forall>e\<in>set post. quiet e"
    using assms(2) by (auto simp: trace_ext_def extends_def)
  ultimately show ?thesis unfolding mbx_calls_def using assms(3) by simp blast
qed

lemma wp_Mbx_Send:
  assumes w: "trace_ext quiet w u" "st u = st w"
    and args: "mbx_args_ok (st w) tag bytes" "mbx_Fault (st w) = 0" "mbx_Unsafe (st w) = 0"
    and Q: "\<And>r v. mbx_outcome tag data bytes (st w) r True (st v) \<Longrightarrow> mbx_calls tag data bytes w True v \<Longrightarrow> Q r v"
  shows "wp (Mbx_Send E fuel d tag data bytes) Q u"
proof -
  define s where "s = u\<lparr>trace := Wr 0 TX_DATA (mbx_Address (st w) OR 8) # Bar #
    mbx_stores tag data bytes @ trace u, st := mbx_sent (st w)\<rparr>"
  have s: "st s = mbx_sent (st w)" by (simp add: s_def)
  have calls: "mbx_calls tag data bytes w True v" if "trace_ext quiet s v" for v
    using mbx_calls_sent [OF w(1) that] by (simp add: s_def)
  have answered: "(st s)\<lparr>mbx_LastReply := mbx_Address (st w) OR 8, mbx_Unsafe := 0\<rparr> = mbx_answered (st w)"
    by (simp add: s mbx_sent_def mbx_answered_def)
  have "wp (andthen (loopM fuel (Mbx_Rx_turn E d (mbx_Address (st w) OR 8))) (\<lambda>r.
       if r \<noteq> MbxOk then ret (Some (r, data))
       else do { a \<leftarrow> Mbx_Answer E tag data bytes; ret (Some a) })) Q s"
    unfolding wp_andthen
    by (rule wp_Rx)
      (use args answered in \<open>auto simp: wp_simps s intro!: wp_Answer Q mbx_outcome.intros
        intro: calls calls [OF ext.frame_trans]\<close>)
  then show ?thesis
    using w(2) by (simp add: Mbx_Send_def wp_simps Let_def s_def mbx_sent_def mbx_stores_def del: upt_Suc)
qed

lemma wp_MbxTransfer:
  assumes Q: "\<And>r v sent. mbx_outcome tag data bytes (st w) r sent (st v) \<Longrightarrow>
    mbx_calls tag data bytes w sent v \<Longrightarrow> Q r v"
  shows "wp (MbxTransfer E fuel tag data bytes) Q w"
proof (cases "mbx_args_ok (st w) tag bytes \<and> mbx_Fault (st w) = 0 \<and> mbx_Unsafe (st w) = 0")
  case False
  then consider "\<not> mbx_args_ok (st w) tag bytes"
    | "mbx_args_ok (st w) tag bytes" "mbx_Fault (st w) \<noteq> 0 \<or> mbx_Unsafe (st w) \<noteq> 0" by blast
  then show ?thesis
    by cases (auto simp: MbxTransfer_def wp_simps mbx_calls_def ext.frame_refl
        intro!: Q [where sent = False] mbx_outcome.intros)
next
  case ok: True
  have q: "mbx_calls tag data bytes w False v" if "trace_ext quiet w v" for v
    using that by (simp add: mbx_calls_def)
  have send: "wp (Mbx_Send E fuel d tag data bytes) Q u" if "trace_ext quiet w u" "st u = st w" for u d
    using ok that by (intro wp_Mbx_Send [where w = w]) (auto intro: Q)
  show ?thesis
    using ok unfolding MbxTransfer_def wp_simps Let_def
    by (auto simp: wp_simps trace_ext_def dest!: extends_ConsD
        intro!: wp_any wp_Tx send Q [where sent = False] q mbx_outcome.intros)
qed

section \<open>The deadline\<close>

text \<open>With a clock that advances by the millisecond of a pause, the three seconds of the timeout
  are over after 3000 turns of a loop.\<close>

definition mbx_waiting :: "io_event list \<Rightarrow> io_event list \<Rightarrow> bool" where
  "mbx_waiting t tr \<longleftrightarrow> (\<exists>es. tr = es @ t \<and> pauses es \<le> 3000)"

lemma mbx_waiting_refl: "mbx_waiting t t"
  by (simp add: mbx_waiting_def)

lemma mbx_waiting_step: "mbx_waiting t tr \<Longrightarrow> pauses es = 0 \<Longrightarrow> mbx_waiting t (es @ tr)"
  by (auto simp: mbx_waiting_def pauses_append intro: exI [where x = "es @ xs" for xs])

lemmas mbx_waiting_steps = mbx_waiting_step [where es = "[Rd u off v]" for u off v, simplified]
  mbx_waiting_step [where es = "[Clk v]" for v, simplified] mbx_waiting_step [where es = "[Bar]", simplified]
  mbx_waiting_step [where es = "[Wr u off v]" for u off v, simplified]

lemma mbx_waiting_pause:
  assumes clock: "clock_runs E t 10000 3000" and tr: "mbx_waiting t tr"
    and early: "\<not> env_now E t + MBX_TIMEOUT_100NS \<le> env_now E tr"
  shows "(\<forall>k c. mbx_waiting t (Dly k # Clk c # tr)) \<and> pauses tr < 3000 + pauses t"
proof -
  obtain es where es: "tr = es @ t" "pauses es \<le> 3000" using tr by (auto simp: mbx_waiting_def)
  have "unat (env_now E t + MBX_TIMEOUT_100NS) = unat (env_now E t) + 30000000"
    using clock_runs_bound [OF clock] by (subst unat_add_small) simp_all
  moreover have "unat (env_now E t) + 10000 * pauses es \<le> unat (env_now E (es @ t))"
    using clock es(2) by (auto simp: clock_runs_def)
  ultimately have "pauses es < 3000" using early es(1) by (simp add: word_le_nat_alt)
  then show ?thesis
    using es by (auto simp: mbx_waiting_def pauses_append intro!: exI [where x = "Dly k # Clk c # es" for k c])
qed

lemma wp_Tx_returns:
  assumes clock: "clock_runs E t 10000 3000" and w: "mbx_waiting t (trace w)" and n: "n > 3000"
  shows "wp (loopM n (Mbx_Tx_turn E (env_now E t + MBX_TIMEOUT_100NS)))
    (\<lambda>r v. r \<noteq> None \<and> mbx_waiting t (trace v)) w"
proof (rule wp_loopM_total [where I = "\<lambda>v. mbx_waiting t (trace v)"
      and f = "\<lambda>v. 3000 + pauses t - pauses (trace v)"])
  show "3000 + pauses t - pauses (trace w) < n"
    using w n by (auto simp: mbx_waiting_def pauses_append)
next
  fix v :: "MBX_TRANSPORT world" assume v: "mbx_waiting t (trace v)"
  then show "wp (Mbx_Tx_turn E (env_now E t + MBX_TIMEOUT_100NS)) (\<lambda>r v'. case r of
      None \<Rightarrow> mbx_waiting t (trace v') \<and>
        3000 + pauses t - pauses (trace v') < 3000 + pauses t - pauses (trace v)
    | Some x \<Rightarrow> Some x \<noteq> None \<and> mbx_waiting t (trace v')) v"
    using mbx_waiting_pause [OF clock mbx_waiting_steps(1) [OF v, of 0 TX_STATUS "env_read E (trace v) 0 TX_STATUS"]]
    unfolding Mbx_Tx_turn_def
    by (auto simp: wp_simps wp_io_now wp_io_read intro!: mbx_waiting_steps)
qed fact

lemma wp_Rx_returns:
  assumes clock: "clock_runs E t 10000 3000" and w: "mbx_waiting t (trace w)" and n: "n > 3000"
  shows "wp (loopM n (Mbx_Rx_turn E (env_now E t + MBX_TIMEOUT_100NS) m)) (\<lambda>r v. r \<noteq> None) w"
proof (rule wp_loopM_total [where I = "\<lambda>v. mbx_waiting t (trace v)"
      and f = "\<lambda>v. 3000 + pauses t - pauses (trace v)"])
  show "3000 + pauses t - pauses (trace w) < n"
    using w n by (auto simp: mbx_waiting_def pauses_append)
next
  fix v :: "MBX_TRANSPORT world" assume v: "mbx_waiting t (trace v)"
  then show "wp (Mbx_Rx_turn E (env_now E t + MBX_TIMEOUT_100NS) m) (\<lambda>r v'. case r of
      None \<Rightarrow> mbx_waiting t (trace v') \<and>
        3000 + pauses t - pauses (trace v') < 3000 + pauses t - pauses (trace v)
    | Some x \<Rightarrow> Some x \<noteq> None) v"
    using mbx_waiting_pause [OF clock mbx_waiting_steps(1) [OF v, of 0 RX_STATUS "env_read E (trace v) 0 RX_STATUS"]]
    unfolding Mbx_Rx_turn_def
    by (auto simp: wp_simps wp_io_now wp_io_read intro!: mbx_waiting_steps)
qed fact

lemma pauses_stores: "pauses (mbx_stores tag data bytes) = 0"
proof -
  have "pauses (rev (map (\<lambda>i. Wr 1 (f i) (g i)) ks)) = 0" for f g and ks :: "nat list"
    by (induction ks) (simp_all add: pauses_append)
  then show ?thesis by (simp add: mbx_stores_def pauses_append)
qed

lemma wp_Send_returns:
  assumes "clock_runs E t 10000 3000" and "mbx_waiting t (trace w)" and "n > 3000"
  shows "wp (Mbx_Send E n (env_now E t + MBX_TIMEOUT_100NS) tag data bytes) (\<lambda>r v. r \<noteq> None) w"
proof -
  define s where "s = w\<lparr>trace := (Wr 0 TX_DATA (mbx_Address (st w) OR 8) # Bar # mbx_stores tag data bytes) @ trace w,
    st := mbx_sent (st w)\<rparr>"
  have "mbx_waiting t (trace s)"
    using mbx_waiting_step [OF assms(2)] by (simp add: s_def pauses_stores del: append_Cons)
  from wp_Rx_returns [OF assms(1) this assms(3)]
  have "wp (andthen (loopM n (Mbx_Rx_turn E (env_now E t + MBX_TIMEOUT_100NS) (mbx_Address (st w) OR 8))) (\<lambda>r.
       if r \<noteq> MbxOk then ret (Some (r, data))
       else do { a \<leftarrow> Mbx_Answer E tag data bytes; ret (Some a) })) (\<lambda>r v. r \<noteq> None) s"
    unfolding wp_andthen by (rule wp_mono) (auto simp: wp_simps intro!: wpI)
  then show ?thesis
    by (simp add: Mbx_Send_def wp_simps Let_def s_def mbx_sent_def mbx_stores_def del: upt_Suc)
qed

text \<open>C7. A transaction ends: with a clock that advances by a millisecond in every pause, three
  thousand turns are enough for both waiting loops together, so the call returns whatever the
  firmware does, including when it never answers.\<close>

theorem mbx_transfer_returns:
  assumes "clock_runs E (trace w) 10000 3000" and "fuel > 3000"
  shows "fst (run_state (MbxTransfer E fuel tag data bytes) w) \<noteq> None"
proof -
  have "wp (MbxTransfer E fuel tag data bytes) (\<lambda>r v. r \<noteq> None) w"
    unfolding MbxTransfer_def wp_simps Let_def
    apply (auto simp: wp_simps wp_io_now intro!: wp_read_any)
    apply (rule wp_mono [OF wp_Tx_returns [OF assms(1) _ assms(2)]])
    subgoal by (auto intro!: mbx_waiting_steps mbx_waiting_refl)
    subgoal using assms by (auto simp: wp_simps split: option.splits intro: wp_Send_returns [THEN wp_mono])
    done
  then show ?thesis by (simp add: wp_def split_beta)
qed

section \<open>A firmware that answers\<close>

text \<open>Firmware that hands the buffer back as soon as the doorbell rings, with the response words
  in place.\<close>

definition mbx_firmware :: "(u32 \<Rightarrow> u32) \<Rightarrow> env" where
  "mbx_firmware resp = (regfile (\<lambda>_ _. 0) (\<lambda>_ _. 0))\<lparr>env_read := (\<lambda>t u off.
     case last_write t 0 TX_DATA of
       None \<Rightarrow> if u = 0 \<and> off = RX_STATUS then FIFO_EMPTY else 0
     | Some message \<Rightarrow> if u = 1 then resp off else if off = RX_DATA then message else 0)\<rparr>"

definition mbx_response_ok :: "(u32 \<Rightarrow> u32) \<Rightarrow> u32 \<Rightarrow> u32 \<Rightarrow> bool" where
  "mbx_response_ok resp tag bytes \<longleftrightarrow>
     resp (mbx_word 0) = bytes + 24 \<and> resp (mbx_word 1) = 0x80000000 \<and> resp (mbx_word 2) = tag \<and>
     resp (mbx_word 3) = bytes \<and> resp (mbx_word (unat ((bytes + 24) div 4 - 1))) = 0 \<and>
     (True, resp (mbx_word 4)) \<in> set (mbx_lengths tag bytes)"

definition mbx_rung :: "u32 \<Rightarrow> 's world \<Rightarrow> bool" where
  "mbx_rung m w \<longleftrightarrow> last_write (trace w) 0 TX_DATA = Some m"

lemma firmware_reads:
  "mbx_rung m w \<Longrightarrow> wp (io_read (mbx_firmware resp) 1 off) Q w = Q (resp off) (w\<lparr>trace := Rd 1 off (resp off) # trace w\<rparr>)"
  by (simp add: wp_io_read mbx_firmware_def mbx_rung_def)

lemma rung_read [simp]: "mbx_rung m (w\<lparr>trace := Rd u off v # trace w\<rparr>) = mbx_rung m w"
  by (simp add: mbx_rung_def)

lemma wp_Differs_firmware:
  "mbx_rung m w \<Longrightarrow> \<forall>(k, v)\<in>set ks. resp (mbx_word k) = v \<Longrightarrow>
   (\<And>v. st v = st w \<Longrightarrow> mbx_rung m v \<Longrightarrow> Q False v) \<Longrightarrow> wp (Mbx_Differs (mbx_firmware resp) ks) Q w"
proof (induction ks arbitrary: w)
  case (Cons k ks)
  then show ?case by (cases k) (simp add: wp_simps firmware_reads)
qed (simp add: wp_simps)

lemma wp_Length_ok_firmware:
  "mbx_rung m w \<Longrightarrow> (True, resp (mbx_word 4)) \<in> set ls \<Longrightarrow>
   (\<And>v. st v = st w \<Longrightarrow> mbx_rung m v \<Longrightarrow> Q True v) \<Longrightarrow> wp (Mbx_Length_ok (mbx_firmware resp) ls) Q w"
proof (induction ls arbitrary: w)
  case (Cons l ls)
  then show ?case by (cases l) (auto simp: wp_simps firmware_reads)
qed simp

lemma wp_mapM_firmware:
  "mbx_rung m w \<Longrightarrow> (\<And>v. st v = st w \<Longrightarrow> Q (map (\<lambda>i. resp (f i)) ks) v) \<Longrightarrow>
   wp (mapM ks (\<lambda>i. io_read (mbx_firmware resp) 1 (f i))) Q w"
  by (induction ks arbitrary: w Q) (simp_all add: wp_simps firmware_reads)

lemma wp_Answer_firmware:
  assumes w: "mbx_rung m w" and ok: "mbx_response_ok resp tag bytes"
    and Q: "\<And>v. st v = st w \<Longrightarrow> Q (MbxOk, map (\<lambda>i. resp (mbx_word (5 + i))) [0..<unat bytes div 4] @
      drop (unat bytes div 4) data) v"
  shows "wp (Mbx_Answer (mbx_firmware resp) tag data bytes) Q w"
proof -
  have r: "mbx_rung m (v\<lparr>trace := Rd a b c # Rd a' b' c' # trace v\<rparr>)" if "mbx_rung m v"
    for v :: "MBX_TRANSPORT world" and a b c a' b' c'
    using that by (simp add: mbx_rung_def)
  show ?thesis
    unfolding Mbx_Answer_def Let_def wp_bind
    apply (rule wp_Differs_firmware [OF w])
    subgoal using ok by (simp add: mbx_response_ok_def)
    subgoal for v
      using ok Q
      by (auto simp: firmware_reads [where m = m] wp_simps mbx_response_ok_def
        intro!: wp_Length_ok_firmware [OF r] wp_mapM_firmware [where m = m])
    done
qed

lemma unrung_stores: "last_write (mbx_stores tag data bytes @ t) 0 TX_DATA = last_write t 0 TX_DATA"
  by (rule last_write_append) (auto simp: mbx_stores_def)

lemma transfer_answered:
  assumes "mbx_args_ok (st w) tag bytes" and "mbx_Fault (st w) = 0" and "mbx_Unsafe (st w) = 0"
    and "last_write (trace w) 0 TX_DATA = None" and "mbx_response_ok resp tag bytes" and "fuel > 0"
    and "run_state (MbxTransfer (mbx_firmware resp) fuel tag data bytes) w = (r, w')"
  shows "r = Some (MbxOk, map (\<lambda>i. resp (mbx_word (5 + i))) [0..<unat bytes div 4] @
      drop (unat bytes div 4) data) \<and> st w' = mbx_answered (st w)"
proof -
  obtain n where n: "fuel = Suc n" using assms(6) by (cases fuel) auto
  have send: "wp (Mbx_Send (mbx_firmware resp) (Suc n) d tag data bytes) (\<lambda>r v.
      r = Some (MbxOk, map (\<lambda>i. resp (mbx_word (5 + i))) [0..<unat bytes div 4] @
      drop (unat bytes div 4) data) \<and> st v = mbx_answered (st w)) u"
    if u: "st u = st w" "last_write (trace u) 0 TX_DATA = None" for u d
  proof -
    have turn: "wp (Mbx_Rx_turn (mbx_firmware resp) d m) Q v =
        Q (Some MbxOk) (v\<lparr>trace := Bar # Rd 0 RX_DATA m # Rd 0 RX_STATUS 0 # trace v,
          st := (st v)\<lparr>mbx_LastReply := m, mbx_Unsafe := 0\<rparr>\<rparr>)"
      if "mbx_rung m v" for v Q m
      using that by (simp add: Mbx_Rx_turn_def wp_simps wp_io_read mbx_firmware_def mbx_rung_def)
    show ?thesis
      using u(1) assms(5)
      by (auto simp: Mbx_Send_def wp_simps Let_def turn mbx_rung_def mbx_answered_def simp del: upt_Suc
          intro!: wp_Answer_firmware [where m = "mbx_Address (st w) OR 8"])
  qed
  have "wp (MbxTransfer (mbx_firmware resp) fuel tag data bytes) (\<lambda>r v.
      r = Some (MbxOk, map (\<lambda>i. resp (mbx_word (5 + i))) [0..<unat bytes div 4] @
      drop (unat bytes div 4) data) \<and> st v = mbx_answered (st w)) w"
    using assms(1-4)
    by (simp add: MbxTransfer_def wp_simps Let_def n wp_io_now wp_io_read Mbx_Tx_turn_def
        mbx_firmware_def send [unfolded mbx_firmware_def])
  with assms(7) show ?thesis by (auto dest: wpD)
qed

text \<open>C8. When the firmware answers with an accepted response, the call succeeds and returns
  exactly the words of the response payload, in order, leaving the rest of the caller's data alone;
  the transport is left without a fault and not unsafe, with one more transaction counted.\<close>

theorem mbx_transfer_answered:
  assumes "mbx_args_ok (st w) tag bytes" and "mbx_Fault (st w) = 0" and "mbx_Unsafe (st w) = 0"
    and "last_write (trace w) 0 TX_DATA = None" and "mbx_response_ok resp tag bytes" and "fuel > 0"
    and "run_state (MbxTransfer (mbx_firmware resp) fuel tag data bytes) w = (r, w')"
  shows "r = Some (MbxOk, map (\<lambda>i. resp (mbx_word (5 + i))) [0..<unat bytes div 4] @
      drop (unat bytes div 4) data) \<and> st w' = mbx_answered (st w)"
  using assms by (rule transfer_answered)

definition mbx_example :: "MBX_TRANSPORT world" where
  "mbx_example = \<lparr>st = mbx_zero\<lparr>mbx_Buffer := True, mbx_Address := 0xc0001000\<rparr>, trace = []\<rparr>"

theorem mbx_transfer_returns_witness:
  "fst (run_state (MbxTransfer (timed 10000 (regfile (\<lambda>_ _. 0xffffffff) (\<lambda>_ _. 0))) 3001 0x30087 [0, 0] 8)
     mbx_example) \<noteq> None"
  by (rule mbx_transfer_returns [OF timed_runs [where d = 10000 and n = 3000, simplified]])
    (simp_all add: mbx_example_def)

definition mbx_clock_answer :: "u32 \<Rightarrow> u32" where
  "mbx_clock_answer off = (if off = 0 then 32 else if off = 4 then 0x80000000 else if off = 8 then 0x30087
     else if off = 12 then 8 else if off = 16 then 0x80000004 else if off = 24 then 0x65000000 else 0)"

lemma mbx_clock_answer_ok:
  "mbx_response_ok mbx_clock_answer 0x30087 8" "mbx_args_ok (st mbx_example) 0x30087 8"
  "map (\<lambda>i. mbx_clock_answer (mbx_word (5 + i))) [0..<2] = [0, 0x65000000]"
  by (simp_all add: mbx_response_ok_def mbx_clock_answer_def mbx_lengths_def mbx_word_def mbx_args_ok_def
      mbx_example_def mbx_zero_def upt_rec [where j = 2])

lemma answered_example:
  "fst (run_state (MbxTransfer (mbx_firmware mbx_clock_answer) 1 0x30087 [0, 0] 8) mbx_example) =
     Some (MbxOk, [0, 0x65000000])"
  using transfer_answered [OF mbx_clock_answer_ok(2) _ _ _ mbx_clock_answer_ok(1) _ prod.collapse [symmetric],
      of 1 "[0, 0]"] mbx_clock_answer_ok(3)
  by (simp add: mbx_example_def mbx_zero_def)

theorem mbx_transfer_answered_witness:
  "fst (run_state (MbxTransfer (mbx_firmware mbx_clock_answer) 2 0x30087 [0, 0] 8) mbx_example) =
     Some (MbxOk, [0, 0x65000000])"
  using mbx_transfer_answered [OF mbx_clock_answer_ok(2) _ _ _ mbx_clock_answer_ok(1) _ prod.collapse [symmetric],
      of 2 "[0, 0]"] mbx_clock_answer_ok(3)
  by (simp add: mbx_example_def mbx_zero_def)

text \<open>C6. The doorbell: a call either writes nothing at all, or it writes, in this order, the
  complete request into the buffer, a barrier, and one doorbell carrying the buffer's address and the
  property channel; before the stores and after the doorbell it only reads. When the doorbell rings
  each of the 64 words of the buffer is the header, the payload or the zero padding and end tag of
  the request; and it rings only on a valid request with no fault and no outstanding buffer.\<close>

theorem mbx_doorbell:
  assumes "run_state (MbxTransfer E fuel tag data bytes) w = (r, w')"
  shows "trace_ext quiet w w' \<or>
    mbx_args_ok (st w) tag bytes \<and> mbx_Fault (st w) = 0 \<and> mbx_Unsafe (st w) = 0 \<and>
    (\<exists>pre post. trace w' = post @ Wr 0 TX_DATA (mbx_Address (st w) OR 8) # Bar #
         mbx_stores tag data bytes @ pre @ trace w \<and>
       (\<forall>e\<in>set pre \<union> set post. quiet e) \<and>
       (\<forall>k<64. last_write (mbx_stores tag data bytes @ pre @ trace w) 1 (mbx_word k) =
          Some (mbx_request tag data bytes k)))"
proof -
  obtain sent where out: "mbx_outcome tag data bytes (st w) r sent (st w')"
    and calls: "mbx_calls tag data bytes w sent w'"
    using wpD [OF wp_MbxTransfer [where Q = "\<lambda>r v. \<exists>sent. mbx_outcome tag data bytes (st w) r sent (st v) \<and>
      mbx_calls tag data bytes w sent v"] assms] by blast
  show ?thesis
  proof (cases sent)
    case True
    with out have ok: "mbx_args_ok (st w) tag bytes \<and> mbx_Fault (st w) = 0 \<and> mbx_Unsafe (st w) = 0"
      by (auto elim: mbx_outcomeE)
    obtain pre post where "\<forall>e\<in>set pre. quiet e" "\<forall>e\<in>set post. quiet e" "trace w' = post @
        Wr 0 TX_DATA (mbx_Address (st w) OR 8) # Bar # mbx_stores tag data bytes @ pre @ trace w"
      using calls True by (auto simp: mbx_calls_def)
    with ok show ?thesis
      using mbx_stores_request [OF args_ok_bytes, of "st w" tag bytes] by blast
  next
    case False
    with calls show ?thesis by (simp add: mbx_calls_def)
  qed
qed

theorem mbx_doorbell_witness:
  "let w' = snd (run_state (MbxTransfer (mbx_firmware (\<lambda>_. 0)) 1 0x30087 [7, 9] 8) mbx_example)
   in trace_ext quiet mbx_example w' \<or> (\<exists>pre post. trace w' = post @ Wr 0 TX_DATA 0xc0001008 # Bar #
       mbx_stores 0x30087 [7, 9] 8 @ pre)"
  using mbx_doorbell [where E = "mbx_firmware (\<lambda>_. 0)" and fuel = 1 and tag = "0x30087" and data = "[7, 9]"
      and bytes = 8 and w = mbx_example, OF prod.collapse [symmetric]]
  by (auto simp: Let_def mbx_example_def mbx_zero_def)

text \<open>An outstanding buffer is always covered by the fault latch.\<close>

definition mbx_ok :: "MBX_TRANSPORT \<Rightarrow> bool" where
  "mbx_ok t \<longleftrightarrow> (mbx_Unsafe t \<noteq> 0 \<longrightarrow> mbx_Fault t \<noteq> 0)"

text \<open>What a returning call reports is what happened: success means the buffer was handed
  back, no fault is latched and the caller's data has the length it had; every failure leaves the
  data unchanged; a timeout, a foreign reply or a malformed response latches the fault; a firmware
  error does not; and a buffer the firmware may still write is always covered by a latched fault.\<close>

theorem mbx_transfer_results:
  assumes "mbx_ok (st w)" and "unat bytes div 4 \<le> length data"
    and "run_state (MbxTransfer E fuel tag data bytes) w = (Some (r, data'), w')"
  shows "mbx_ok (st w') \<and> length data' = length data \<and>
    (r = MbxOk \<longrightarrow> mbx_Fault (st w') = 0 \<and> mbx_Unsafe (st w') = 0 \<and>
       mbx_LastReply (st w') = mbx_Address (st w) OR 8) \<and>
    (r \<noteq> MbxOk \<longrightarrow> data' = data) \<and>
    (r \<in> {MbxTimeout, MbxForeignReply, MbxMalformed} \<longrightarrow> mbx_Fault (st w') = 1) \<and>
    (r = MbxFirmwareError \<longrightarrow> mbx_Fault (st w') = 0 \<and> mbx_Unsafe (st w') = 0)"
proof -
  obtain sent where "mbx_outcome tag data bytes (st w) (Some (r, data')) sent (st w')"
    using wpD [OF wp_MbxTransfer [where Q = "\<lambda>r v. \<exists>sent. mbx_outcome tag data bytes (st w) r sent (st v)"] assms(3)]
    by blast
  then show ?thesis
    using assms(1,2)
    by (cases rule: mbx_outcome.cases) (auto simp: mbx_ok_def mbx_answered_def mbx_sent_def)
qed

theorem mbx_transfer_results_witness:
  "let o' = run_state (MbxTransfer (mbx_firmware (\<lambda>_. 0)) 1 0 [7, 9] 8) mbx_example
   in mbx_ok (st (snd o')) \<and> fst o' = Some (MbxInvalid, [7, 9])"
proof -
  let ?o = "run_state (MbxTransfer (mbx_firmware (\<lambda>_. 0)) 1 0 [7, 9] 8) mbx_example"
  have o: "?o = (Some (MbxInvalid, [7, 9]), mbx_example)"
    by (simp add: MbxTransfer_def mbx_args_ok_def wp_simps)
  show ?thesis
    using mbx_transfer_results [OF _ _ o] o by (simp add: mbx_example_def mbx_ok_def mbx_zero_def)
qed

text \<open>A latched fault, or a buffer still in the firmware's hands, is final: the call returns at
  once without a register access, a store into the buffer, or a change of the transport.\<close>

theorem mbx_fault_final:
  assumes "mbx_Fault (st w) \<noteq> 0 \<or> mbx_Unsafe (st w) \<noteq> 0"
  shows "run_state (MbxTransfer E fuel tag data bytes) w =
    (Some (if mbx_args_ok (st w) tag bytes then MbxFaulted else MbxInvalid, data), w)"
  using assms by (auto simp: MbxTransfer_def wp_simps)

theorem mbx_fault_final_witness:
  "fst (run_state (MbxTransfer (mbx_firmware (\<lambda>_. 0)) 1 1 [7] 4) (mbx_example\<lparr>st := (st mbx_example)\<lparr>mbx_Unsafe := 1\<rparr>\<rparr>)) =
     Some (MbxFaulted, [7])"
  by (subst mbx_fault_final) (simp_all add: mbx_example_def mbx_zero_def mbx_args_ok_def)

text \<open>The bus address: the encoding is defined exactly for aligned buffers that lie whole in
  the first gigabyte and whose logical address is either the physical one or its alias at
  3 GiB; either way the encoded address is the physical address in that alias, so it is
  accepted by the transfer, and the original can be read back.\<close>

theorem mbx_encode_address:
  "MbxEncodeAddress logical physical bytes = Some a \<longleftrightarrow>
     bytes \<noteq> 0 \<and> logical AND 15 = 0 \<and> physical AND 15 = 0 \<and>
     unat physical + unat bytes \<le> 0x40000000 \<and>
     (logical = physical \<or> logical = physical + 0xc0000000) \<and>
     unat a = unat physical + 0xc0000000"
proof -
  have room: "unat (0x40000000 - ucast bytes :: u64) = 0x40000000 - unat bytes"
    if "unat bytes \<le> 0x40000000"
    using that by (subst unat_sub) (simp_all add: word_le_nat_alt unat_ucast_up)
  show ?thesis
  proof (cases "bytes \<noteq> 0 \<and> unat physical + unat bytes \<le> 0x40000000")
    case True
    then have b: "0 < unat bytes" "unat bytes \<le> 0x40000000" by (auto simp: unat_gt_0)
    have "unat physical \<le> 0x40000000 - unat bytes" using True by linarith
    then have small: "\<not> bytes > 0x40000000" "\<not> physical > 0x40000000 - ucast bytes"
      using room [OF b(2)] b(2) by (simp_all add: word_less_nat_alt not_less)
    have sum: "unat (physical + 0xc0000000) = unat physical + 0xc0000000"
      using True b by (subst unat_add_small) simp_all
    have enc: "unat (ucast (physical + 0xc0000000) :: u32) = unat physical + 0xc0000000"
      using True b by (subst unat_ucast_small) (simp_all add: sum)
    have enc': "(ucast physical + 0xc0000000 :: u32) = ucast (physical + 0xc0000000)"
    proof -
      have "unat (ucast physical :: u32) = unat physical"
        using True b by (subst unat_ucast_small) simp_all
      then have "unat (ucast physical + 0xc0000000 :: u32) = unat physical + 0xc0000000"
        using True b by (subst unat_add_small) simp_all
      then show ?thesis using enc by (metis unat_eq_of_nat)
    qed
    have "unat a = unat physical + 0xc0000000 \<longleftrightarrow> a = ucast (physical + 0xc0000000)"
      using enc by (metis unat_eq_of_nat)
    then show ?thesis using True small enc' by (auto simp: MbxEncodeAddress_def)
  next
    case False
    then have "bytes = 0 \<or> bytes > 0x40000000 \<or> physical > 0x40000000 - ucast bytes"
      using room by (cases "unat bytes \<le> 0x40000000") (auto simp: word_less_nat_alt not_less)
    then show ?thesis using False by (auto simp: MbxEncodeAddress_def)
  qed
qed

section \<open>The calendar\<close>

definition cal_leap :: "nat \<Rightarrow> bool" where
  "cal_leap y \<longleftrightarrow> y mod 4 = 0 \<and> (y mod 100 \<noteq> 0 \<or> y mod 400 = 0)"

definition cal_month :: "nat \<Rightarrow> nat \<Rightarrow> nat" where
  "cal_month y m = [31, 28, 31, 30, 31, 30, 31, 31, 30, 31, 30, 31] ! (m - 1) + of_bool (m = 2 \<and> cal_leap y)"

text \<open>The days before a year since year 1, and the days of a year before a month.\<close>

definition cal_year_start :: "nat \<Rightarrow> int" where
  "cal_year_start y =
     365 * int (y - 1) + int ((y - 1) div 4) - int ((y - 1) div 100) + int ((y - 1) div 400)"

definition cal_month_start :: "nat \<Rightarrow> nat \<Rightarrow> nat" where
  "cal_month_start y m = (\<Sum>k = 1..<m. cal_month y k)"

lemma leap_nat: "y < 2 ^ 32 \<Longrightarrow> Mbx_Leap (of_nat y) = cal_leap y"
  by (simp add: Mbx_Leap_def cal_leap_def word_arith_nat_mod unat_of_nat_small flip: unat_eq_zero)

lemma year_step:
  assumes "1 \<le> y"
  shows "cal_year_start (Suc y) = cal_year_start y + 365 + of_bool (cal_leap y)"
proof -
  obtain p where y: "y = Suc p" using assms by (cases y) auto
  have "y mod 100 = 0" if "y mod 400 = 0"
    using that dvd_trans [of 100 400 y] by (simp add: mod_eq_0_iff_dvd)
  moreover have "y mod 4 = 0" if "y mod 100 = 0"
    using that dvd_trans [of 4 100 y] by (simp add: mod_eq_0_iff_dvd)
  ultimately show ?thesis
    unfolding cal_year_start_def cal_leap_def by (auto simp: y div_Suc)
qed

lemma year_span: "1970 \<le> y \<Longrightarrow> 365 * (int y - 1970) \<le> cal_year_start y - cal_year_start 1970"
  by (induction y rule: dec_induct) (auto simp: year_step)

lemma month_days:
  assumes "y < 2 ^ 32" and "1 \<le> m" and "m \<le> 12"
  shows "unat (Mbx_MonthDays (of_nat y) (of_nat m)) = cal_month y m" and "cal_month y m \<le> 31"
proof -
  have "m \<in> {1, 2, 3, 4, 5, 6, 7, 8, 9, 10, 11, 12}" using assms(2,3) by (auto simp: le_Suc_eq numeral_eq_Suc)
  then show "unat (Mbx_MonthDays (of_nat y) (of_nat m)) = cal_month y m"
    using leap_nat [OF assms(1)]
    by (elim insertE) (simp_all add: Mbx_MonthDays_def mbx_days_def cal_month_def c_bool_def)
  show "cal_month y m \<le> 31"
    using \<open>m \<in> _\<close> by (elim insertE) (simp_all add: cal_month_def)
qed

lemma year_months: "(\<Sum>k = 1..<13. cal_month y k) = 365 + of_bool (cal_leap y)"
  by (simp add: cal_month_def eval_nat_numeral)

lemma year_length: "y < 2 ^ 32 \<Longrightarrow> unat (365 + c_bool (Mbx_Leap (of_nat y))) = 365 + of_bool (cal_leap y)"
  by (cases "cal_leap y") (simp_all add: leap_nat)

lemma year_bound:
  fixes d days :: u32
  assumes "1970 \<le> y" and "cal_year_start y - cal_year_start 1970 + int (unat d) = int (unat days)"
  shows "y < 2 ^ 31"
proof -
  have "int (unat days) < 2 ^ 32" using unsigned_less [of days] by simp
  with year_span [OF assms(1)] assms(2) show ?thesis by (simp del: of_nat_unat)
qed

lemma mbx_years_spec:
  "case mbx_years days of (d, y) \<Rightarrow> \<exists>Y. y = of_nat Y \<and> 1970 \<le> Y \<and> Y < 2 ^ 31 \<and>
     unat d < 365 + of_bool (cal_leap Y) \<and>
     cal_year_start Y - cal_year_start 1970 + int (unat d) = int (unat days)"
  unfolding mbx_years_def
proof (rule while_rule [where P = "\<lambda>(d, y). \<exists>Y. y = of_nat Y \<and> 1970 \<le> Y \<and>
      cal_year_start Y - cal_year_start 1970 + int (unat d) = int (unat days)"
      and r = "measure (\<lambda>(d, y). unat d)"], goal_cases)
  case 1
  show ?case by (auto intro!: exI [where x = 1970])
next
  case (2 s)
  then obtain d Y where s: "s = (d, of_nat Y)" and Y: "1970 \<le> Y"
      "cal_year_start Y - cal_year_start 1970 + int (unat d) = int (unat days)"
    by (cases s) auto
  note n = year_length [of Y, OF order_less_trans [OF year_bound [OF Y]]]
  have "unat (d - (365 + c_bool (Mbx_Leap (of_nat Y)))) = unat d - (365 + of_bool (cal_leap Y))"
    "365 + of_bool (cal_leap Y) \<le> unat d"
    using 2(2) n by (simp_all add: s unat_sub word_le_nat_alt)
  then show ?case
    using Y year_step [of Y] by (auto simp: s of_nat_diff simp del: of_nat_unat intro!: exI [where x = "Suc Y"])
next
  case (3 s)
  then obtain d Y where s: "s = (d, of_nat Y)" and Y: "1970 \<le> Y"
      "cal_year_start Y - cal_year_start 1970 + int (unat d) = int (unat days)"
    by (cases s) auto
  note n = year_length [of Y, OF order_less_trans [OF year_bound [OF Y]]]
  show ?case using 3(2) n Y year_bound [OF Y] by (auto simp: s word_le_nat_alt not_le intro!: exI [where x = Y])
next
  case (5 s)
  then obtain d y where s: "s = (d, y)" "d \<ge> 365 + c_bool (Mbx_Leap y)" by (cases s) auto
  have "0 < unat (365 + c_bool (Mbx_Leap y))" by (cases "Mbx_Leap y") simp_all
  then show ?case using s by (simp add: unat_sub word_le_nat_alt)
qed simp

lemma mbx_months_spec:
  assumes "Y < 2 ^ 32" and "unat days < 365 + of_bool (cal_leap Y)"
  shows "case mbx_months (of_nat Y) days of (d, m) \<Rightarrow> \<exists>M. m = of_nat M \<and> 1 \<le> M \<and> M \<le> 12 \<and>
     unat d < cal_month Y M \<and> cal_month_start Y M + unat d = unat days"
  unfolding mbx_months_def
proof (rule while_rule [where P = "\<lambda>(d, m). \<exists>M. m = of_nat M \<and> 1 \<le> M \<and> M \<le> 12 \<and>
      cal_month_start Y M + unat d = unat days" and r = "measure (\<lambda>(d, m). unat d)"], goal_cases)
  case 1
  show ?case by (auto simp: cal_month_start_def intro!: exI [where x = 1])
next
  case (2 s)
  then obtain d M where s: "s = (d, of_nat M)" and M: "1 \<le> M" "M \<le> 12"
      "cal_month_start Y M + unat d = unat days"
    by (cases s) auto
  have len: "unat (d - Mbx_MonthDays (of_nat Y) (of_nat M)) = unat d - cal_month Y M" "cal_month Y M \<le> unat d"
    using 2(2) month_days(1) [OF assms(1) M(1,2)] by (simp_all add: s unat_sub word_le_nat_alt)
  have start: "cal_month_start Y (Suc M) = cal_month_start Y M + cal_month Y M"
    using M(1) by (simp add: cal_month_start_def)
  have "M \<noteq> 12"
  proof
    assume "M = 12"
    then have "cal_month_start Y 13 \<le> unat days" using start len M(3) by simp
    then show False using year_months [of Y] assms(2) by (simp add: cal_month_start_def)
  qed
  then show ?case using M len start by (auto simp: s intro!: exI [where x = "Suc M"])
next
  case (3 s)
  then obtain d M where s: "s = (d, of_nat M)" and M: "1 \<le> M" "M \<le> 12"
      "cal_month_start Y M + unat d = unat days"
    by (cases s) auto
  show ?case using 3(2) M month_days(1) [OF assms(1) M(1,2)]
    by (auto simp: s word_le_nat_alt not_le intro!: exI [where x = M])
next
  case (5 s)
  then obtain d M where s: "s = (d, of_nat M)" "d \<ge> Mbx_MonthDays (of_nat Y) (of_nat M)" and M: "1 \<le> M" "M \<le> 12"
    by (cases s) auto
  have "28 \<le> cal_month Y M" using M by (auto simp: cal_month_def le_Suc_eq numeral_eq_Suc)
  then show ?case using s month_days(1) [OF assms(1) M] by (simp add: unat_sub word_le_nat_alt)
qed simp
text \<open>The day count of the code's loops is the calendar's.\<close>

lemma days_up:
  "1970 \<le> y \<Longrightarrow> y < 2 ^ 32 \<Longrightarrow>
   fold (\<lambda>y d. d + (365 + of_bool (Mbx_Leap (of_nat y)))) [1970..<y] 0 =
     cal_year_start y - cal_year_start 1970"
proof (induction y rule: dec_induct)
  case (step n)
  then show ?case by (simp add: year_step leap_nat)
qed simp

lemma days_down:
  assumes "1 \<le> y" and "y \<le> 1970"
  shows "fold (\<lambda>y d. d - (365 + of_bool (Mbx_Leap (of_nat y)))) [y..<1970] 0 =
     cal_year_start y - cal_year_start 1970"
proof -
  have "y \<le> n \<Longrightarrow> n \<le> 1970 \<Longrightarrow> fold (\<lambda>y d. d - (365 + of_bool (Mbx_Leap (of_nat y)))) [y..<n] 0 =
     cal_year_start y - cal_year_start n" for n
  proof (induction n rule: dec_induct)
    case (step n)
    then show ?case using assms(1) by (simp add: year_step leap_nat)
  qed simp
  then show ?thesis using assms(2) by simp
qed

lemma days_months:
  assumes "y < 2 ^ 32" and "1 \<le> m" and "m \<le> 13"
  shows "fold (\<lambda>m d. d + uint (Mbx_MonthDays (of_nat y) (of_nat m))) [1..<m] a = a + int (cal_month_start y m)"
  using assms(2,3)
proof (induction m rule: dec_induct)
  case (step n)
  then have "uint (Mbx_MonthDays (of_nat y) (of_nat n)) = int (cal_month y n)"
    using month_days(1) [OF assms(1), of n] by (simp add: uint_nat del: of_nat_unat)
  with step show ?case by (simp add: cal_month_start_def)
qed (simp add: cal_month_start_def)

definition cal_days :: "nat \<Rightarrow> nat \<Rightarrow> nat \<Rightarrow> int" where
  "cal_days y m d = cal_year_start y - cal_year_start 1970 + int (cal_month_start y m) + int d - 1"

lemma mbx_time_days_cal:
  assumes "unat (Mbx_Word time 0) = y" and "unat (time ! 2) = m" and "unat (time ! 3) = d"
    and "1 \<le> y" "1 \<le> m" "m \<le> 12" "1 \<le> d"
  shows "mbx_time_days time = cal_days y m d"
proof -
  define Y :: u32 where "Y = ucast (Mbx_Word time 0)"
  have y: "unat Y = y" "Y = of_nat y" "y < 2 ^ 32"
    using assms(1) u32_lt [of Y] by (auto simp: Y_def unat_ucast_up intro: unat_eq_of_nat)
  have m: "unat (ucast (time ! 2) :: u32) = m" using assms(2) by (simp add: unat_ucast_up)
  have "unat (ucast (time ! 3) :: u32) = d" using assms(3) by (simp add: unat_ucast_up)
  then have d: "uint (ucast (time ! 3) - 1 :: u32) = int d - 1"
    using assms(7) by (simp add: unat_sub word_le_nat_alt of_nat_diff uint_nat del: of_nat_unat)
  have years: "(if Y \<ge> 1970
        then fold (\<lambda>y d. d + (365 + of_bool (Mbx_Leap (of_nat y)))) [1970..<unat Y] 0
        else fold (\<lambda>y d. d - (365 + of_bool (Mbx_Leap (of_nat y)))) [unat Y..<1970] 0) =
      cal_year_start y - cal_year_start 1970"
    using days_up [of y] days_down [of y] assms(4) y by (auto simp: word_le_nat_alt)
  show ?thesis
    unfolding mbx_time_days_def Let_def Y_def [symmetric] years m d
    using days_months [OF y(3), of m] assms(5,6) by (simp add: y(2) cal_days_def)
qed

lemma time_value:
  "MbxTimeToEpoch time = Some e \<longleftrightarrow> mbx_time_ok time \<and>
     int (unat e) = cal_days (unat (Mbx_Word time 0)) (unat (time ! 2)) (unat (time ! 3)) * 86400 +
       int (unat (time ! 4)) * 3600 + int (unat (time ! 5)) * 60 + int (unat (time ! 6)) -
       (if sint (Mbx_Word time 10) = 2047 then 0 else sint (Mbx_Word time 10) * 60)"
proof (cases "mbx_time_ok time")
  case ok: True
  then have "1 \<le> unat (Mbx_Word time 0)" "1 \<le> unat (time ! 2)" "unat (time ! 2) \<le> 12" "1 \<le> unat (time ! 3)"
    by (auto simp: mbx_time_ok_def Let_def word_less_nat_alt not_less unat_ucast_up)
  then have days: "mbx_time_days time = cal_days (unat (Mbx_Word time 0)) (unat (time ! 2)) (unat (time ! 3))"
    by (intro mbx_time_days_cal) simp_all
  define s where "s = mbx_time_days time * 86400 + uint (time ! 4) * 3600 + uint (time ! 5) * 60 +
      uint (time ! 6) - (if sint (Mbx_Word time 10) = 2047 then 0 else sint (Mbx_Word time 10) * 60)"
  have "MbxTimeToEpoch time = (if s < 0 \<or> s > 0xffffffff then None else Some (of_int s))"
    using ok unfolding MbxTimeToEpoch_def Let_def s_def by simp
  moreover have "0 \<le> int (unat e)" "int (unat e) \<le> 0xffffffff"
    using u32_lt [of e] by (simp_all del: of_nat_unat)
  moreover have "of_int s = e \<longleftrightarrow> s = int (unat e)" if "0 \<le> s" "s \<le> 0xffffffff"
    using that by (auto simp: uint_word_of_int_eq take_bit_int_eq_self)
  ultimately have "MbxTimeToEpoch time = Some e \<longleftrightarrow> s = int (unat e)" by (auto simp del: of_nat_unat)
  then show ?thesis using ok unfolding s_def days uint_nat by metis
qed (simp add: MbxTimeToEpoch_def)


lemma word_bytes:
  "ucast (ucast y :: u8) OR push_bit 8 (ucast (ucast (drop_bit 8 y) :: u8)) = (ucast y :: u16)" for y :: u32
proof (rule bit_word_eqI)
  fix n assume n: "n < LENGTH(16)"
  show "bit (ucast (ucast y :: u8) OR push_bit 8 (ucast (ucast (drop_bit 8 y) :: u8)) :: u16) n =
      bit (ucast y :: u16) n"
  proof (cases "n < 8")
    case True
    then show ?thesis by (simp add: bit_or_iff bit_push_bit_iff bit_ucast_iff)
  next
    case False
    then have "8 + (n - 8) = n" "n - 8 < 8" "n < 16" using n by auto
    with False show ?thesis by (simp add: bit_or_iff bit_push_bit_iff bit_ucast_iff bit_drop_bit_eq)
  qed
qed

lemma epoch_fields:
  assumes "mbx_years (epoch div 86400) = (d, of_nat Y)" and "mbx_months (of_nat Y) d = (k, of_nat M)"
    and "Y < 65536" and "M \<le> 12" and "unat k < 31" and t: "t = MbxEpochToTime epoch"
  shows "Mbx_Word t 0 = of_nat Y" and "unat (t ! 2) = M" and "unat (t ! 3) = unat k + 1"
    and "unat (t ! 4) = unat epoch mod 86400 div 3600" and "unat (t ! 5) = unat epoch mod 86400 div 60 mod 60"
    and "unat (t ! 6) = unat epoch mod 86400 mod 60" and "Mbx_Word t 8 = 0" and "Mbx_Word t 10 = 0"
    and "t ! 12 = 0" and "t ! 13 = 0" and "t ! 14 = 0" and "t ! 15 = 0"
proof -
  define S where "S = unat epoch mod 86400"
  have S: "S < 86400" by (simp add: S_def)
  have w: "unat (epoch mod 86400) = S" by (simp add: S_def unat_mod_distrib)
  have t: "t = (replicate 16 0)[0 := ucast (of_nat Y :: u32), 1 := ucast (drop_bit 8 (of_nat Y :: u32)),
      2 := ucast (of_nat M :: u32), 3 := ucast (k + 1), 4 := ucast (epoch mod 86400 div 3600),
      5 := ucast (epoch mod 86400 div 60 mod 60), 6 := ucast (epoch mod 86400 mod 60), 7 := 1]"
    unfolding t MbxEpochToTime_def Let_def assms(1) by (simp add: assms(2))
  have M: "unat (of_nat M :: u32) = M" using assms(4) by (intro unat_of_nat_small) simp
  have k: "unat (k + 1) = unat k + 1" using assms(5) by (subst unat_add_small) simp_all
  show "Mbx_Word t 0 = of_nat Y"
  proof -
    have "unat (of_nat Y :: u32) = Y" using assms(3) by (intro unat_of_nat_small) simp
    then have "unat (ucast (of_nat Y :: u32) :: u16) = Y" using assms(3) by (subst unat_ucast_small) simp_all
    then have "(ucast (of_nat Y :: u32) :: u16) = of_nat Y" by (rule unat_eq_of_nat)
    then show ?thesis using word_bytes [of "of_nat Y"] by (simp add: t Mbx_Word_def)
  qed
  show "unat (t ! 2) = M" using assms(4) by (simp add: t unat_ucast_small M)
  show "unat (t ! 3) = unat k + 1" using assms(5) k by (simp add: t unat_ucast_small)
  show "unat (t ! 4) = unat epoch mod 86400 div 3600"
    using S by (simp add: t unat_ucast_small unat_div_distrib w flip: S_def)
  show "unat (t ! 5) = unat epoch mod 86400 div 60 mod 60"
    by (simp add: t unat_ucast_small unat_div_distrib unat_mod_distrib w flip: S_def)
  show "unat (t ! 6) = unat epoch mod 86400 mod 60"
    by (simp add: t unat_ucast_small unat_mod_distrib w flip: S_def)
  show "Mbx_Word t 8 = 0" "Mbx_Word t 10 = 0" "t ! 12 = 0" "t ! 13 = 0" "t ! 14 = 0" "t ! 15 = 0"
    by (simp_all add: t Mbx_Word_def)
qed

lemma time_roundtrip:
  "mbx_time_ok (MbxEpochToTime epoch) \<and> MbxTimeToEpoch (MbxEpochToTime epoch) = Some epoch"
proof -
  obtain d Y where dy: "mbx_years (epoch div 86400) = (d, of_nat Y)" and Y: "1970 \<le> Y" "Y < 2 ^ 31"
      "unat d < 365 + of_bool (cal_leap Y)"
      "cal_year_start Y - cal_year_start 1970 + int (unat d) = int (unat (epoch div 86400))"
    using mbx_years_spec [of "epoch div 86400"] by (cases "mbx_years (epoch div 86400)") auto
  have "unat (epoch div 86400) \<le> 49710"
    using u32_lt [of epoch] by (simp add: unat_div_distrib)
  then have small: "Y \<le> 2106" using Y(4) year_span [OF Y(1)] by (simp del: of_nat_unat)
  then have Y32: "Y < 2 ^ 32" by simp
  from mbx_months_spec [OF this Y(3)] obtain k M where km: "mbx_months (of_nat Y) d = (k, of_nat M)"
      and M: "1 \<le> M" "M \<le> 12" "unat k < cal_month Y M" "cal_month_start Y M + unat k = unat d"
    by (cases "mbx_months (of_nat Y) d") auto
  define t where "t = MbxEpochToTime epoch"
  have k: "unat k < 31" using M(3) month_days(2) [OF Y32 M(1,2)] by simp
  have "Y < 65536" using small by simp
  note f = epoch_fields [OF dy km this M(2) k t_def]
  have Yw: "unat (of_nat Y :: u16) = Y" "(ucast (of_nat Y :: u16) :: u32) = of_nat Y"
    using small by (simp_all add: unat_of_nat_small unat_eq_of_nat unat_ucast_up)
  have Mw: "(ucast (t ! 2) :: u32) = of_nat M" using f(2) by (intro unat_eq_of_nat) (simp add: unat_ucast_up)
  have fields: "s mod 86400 div 3600 \<le> 23" "s mod 86400 div 60 mod 60 \<le> 59" "s mod 86400 mod 60 \<le> 59"
    for s :: nat
    using less_mult_imp_div_less [of "s mod 86400" 24 3600] by (simp_all add: less_Suc_eq_le [symmetric])
  have ok: "mbx_time_ok t"
    using f small fields Y(1) M month_days(1) [OF Y32 M(1,2)]
    by (simp add: mbx_time_ok_def Let_def Yw Mw word_less_nat_alt not_less unat_ucast_up unat_of_nat_small)
  have "int (unat epoch) = cal_days Y M (unat k + 1) * 86400 + int (unat epoch mod 86400 div 3600) * 3600 +
      int (unat epoch mod 86400 div 60 mod 60) * 60 + int (unat epoch mod 86400 mod 60)"
  proof -
    have days: "cal_days Y M (unat k + 1) = int (unat epoch div 86400)"
      using Y(4) M(4) by (simp add: cal_days_def unat_div_distrib del: of_nat_unat)
    have "s = s div 86400 * 86400 + s mod 86400 div 3600 * 3600 + s mod 86400 div 60 mod 60 * 60 +
        s mod 86400 mod 60" for s :: nat
    proof -
      define r where "r = s mod 86400"
      have "s = s div 86400 * 86400 + r" "r = r div 60 * 60 + r mod 60"
        "r div 60 = r div 3600 * 60 + r div 60 mod 60"
        using div_mult_mod_eq [of "r div 60" 60] by (simp_all add: r_def div_mult2_eq [of _ 60 60, simplified])
      then show ?thesis unfolding r_def [symmetric] by linarith
    qed
    from this [of "unat epoch"] show ?thesis unfolding days by linarith
  qed
  then have "MbxTimeToEpoch t = Some epoch"
    unfolding time_value using ok f by (simp add: Yw del: of_nat_unat)
  with ok show ?thesis by (simp add: t_def)
qed

text \<open>C9. The clock round trip: the time structure computed from any 32-bit epoch is a valid UTC
  time, and converting it back yields that epoch.\<close>

theorem mbx_time_roundtrip:
  "mbx_time_ok (MbxEpochToTime epoch) \<and> MbxTimeToEpoch (MbxEpochToTime epoch) = Some epoch"
  by (rule time_roundtrip)

text \<open>C10. An accepted time structure is converted to the number of seconds since 1970 that the
  calendar gives: whole days by the closed formula for leap years and the lengths of the months,
  then hours, minutes and seconds, less the time zone; it is rejected exactly when a field is out of
  range or the result does not fit into 32 bits without a sign.\<close>

theorem mbx_time_value:
  "MbxTimeToEpoch time = Some e \<longleftrightarrow> mbx_time_ok time \<and>
     int (unat e) = cal_days (unat (Mbx_Word time 0)) (unat (time ! 2)) (unat (time ! 3)) * 86400 +
       int (unat (time ! 4)) * 3600 + int (unat (time ! 5)) * 60 + int (unat (time ! 6)) -
       (if sint (Mbx_Word time 10) = 2047 then 0 else sint (Mbx_Word time 10) * 60)"
  by (rule time_value)

end
