(* ===== verification/Mailbox_Driver.thy ===== *)
theory Mailbox_Driver
  imports Mailbox Kernel
begin

text \<open>
  The mailbox driver, \<open>pi5-mailbox/driver.c\<close>: the transfer with its status and reply-identity
  check, the ACPI operation region with the real-time clock, the leases on the ARM and V3D
  clocks, the device-control requests and the teardown. The driver's context holds the
  transport of \<open>Mailbox\<close> as its member \<open>Transport\<close>.
\<close>

unbundle bit_operations_syntax

section \<open>State\<close>

record CLOCK_LEASE =
  cl_Owner :: ptr
  cl_BaselineRate :: u32
  cl_BaselineState :: u32
  cl_Abandoned :: bool

text \<open>The counters and flags the driver itself keeps in \<open>PI5_MAILBOX_STATS\<close>; the others are
  copied from the transport when they are queried.\<close>

record MAILBOX_STATS =
  ms_Owned :: u32
  ms_Online :: u32
  ms_LastStatus :: u32
  ms_LastTag :: u32
  ms_RtcReads :: u32
  ms_RtcWrites :: u32
  ms_RtcFailures :: u32
  ms_LastRtcEpoch :: u32
  ms_LastRtcSetEpoch :: u32
  ms_LastRtcTimeZone :: int
  ms_OpRegionCalls :: u32

record MBX_CONTEXT =
  mc_Transport :: MBX_TRANSPORT
  mc_Registers :: ptr
  mc_Adapter :: ptr
  mc_RegionObject :: ptr
  mc_Region :: "u32 list"
  mc_Stats :: MAILBOX_STATS
  mc_RejectedRestarts :: u32
  mc_Pinned :: bool
  mc_Clocks :: "CLOCK_LEASE list"
  mc_BootClaim :: u32

definition cl_zero :: CLOCK_LEASE where
  "cl_zero = \<lparr>cl_Owner = 0, cl_BaselineRate = 0, cl_BaselineState = 0, cl_Abandoned = False\<rparr>"

definition mc_zero :: MBX_CONTEXT where
  "mc_zero = \<lparr>mc_Transport = mbx_zero, mc_Registers = 0, mc_Adapter = 0, mc_RegionObject = 0,
     mc_Region = replicate 6 0, mc_Stats = \<lparr>ms_Owned = 0, ms_Online = 0, ms_LastStatus = 0,
       ms_LastTag = 0, ms_RtcReads = 0, ms_RtcWrites = 0, ms_RtcFailures = 0, ms_LastRtcEpoch = 0,
       ms_LastRtcSetEpoch = 0, ms_LastRtcTimeZone = 0, ms_OpRegionCalls = 0\<rparr>,
     mc_RejectedRestarts = 0, mc_Pinned = False, mc_Clocks = replicate 2 cl_zero, mc_BootClaim = 0\<rparr>"

abbreviation mc_stats :: "(MAILBOX_STATS \<Rightarrow> MAILBOX_STATS) \<Rightarrow> (MBX_CONTEXT, unit) prog" where
  "mc_stats f \<equiv> modify (\<lambda>c. c\<lparr>mc_Stats := f (mc_Stats c)\<rparr>)"

section \<open>One transfer\<close>

definition mbx_status :: "MBX_RESULT \<Rightarrow> NTSTATUS" where
  "mbx_status result = (case result of
     MbxOk \<Rightarrow> STATUS_SUCCESS
   | MbxInvalid \<Rightarrow> STATUS_INVALID_PARAMETER
   | MbxTimeout \<Rightarrow> STATUS_IO_TIMEOUT
   | MbxFirmwareError \<Rightarrow> STATUS_IO_DEVICE_ERROR
   | _ \<Rightarrow> STATUS_DEVICE_PROTOCOL_ERROR)"

definition Mbxd_Transfer :: "env \<Rightarrow> nat \<Rightarrow> u32 \<Rightarrow> u32 list \<Rightarrow> u32 \<Rightarrow>
    (MBX_CONTEXT, (NTSTATUS \<times> u32 list) option) prog" where
  "Mbxd_Transfer E fuel tag data bytes = do {
     c \<leftarrow> gets id;
     if ms_Online (mc_Stats c) = 0 \<or> ms_Owned (mc_Stats c) = 0
     then ret (Some (STATUS_DEVICE_NOT_READY, data))
     else andthen (zoom mc_Transport mc_Transport_update (MbxTransfer E fuel tag data bytes)) (\<lambda>(result, data').
       do {
         let status = mbx_status result;
         let mismatch = NT_SUCCESS status \<and> bytes \<ge> 8 \<and> \<not> MbxReplyIdMatches tag (data ! 0) (data' ! 0);
         whenM mismatch (modify (\<lambda>c. c\<lparr>mc_Transport := (mc_Transport c)
           \<lparr>mbx_Fault := 1, mbx_Failures := mbx_Failures (mc_Transport c) + 1\<rparr>\<rparr>));
         let status = (if mismatch then STATUS_DEVICE_PROTOCOL_ERROR else status);
         mc_stats (\<lambda>s. s\<lparr>ms_LastStatus := status, ms_LastTag := tag\<rparr>);
         whenM (\<not> NT_SUCCESS status) (kernel_do E ''Diagnostic'' [9, ucast status]);
         ret (Some (status, data'))
       })
   }"

section \<open>The operation region\<close>

abbreviation ACPI_OPREGION_READ :: u32 where "ACPI_OPREGION_READ \<equiv> 0"
abbreviation ACPI_OPREGION_WRITE :: u32 where "ACPI_OPREGION_WRITE \<equiv> 1"

text \<open>The time structure is the last four words of the region, byte by byte.\<close>

definition region_time :: "u32 list \<Rightarrow> u8 list" where
  "region_time r = concat (map le32_bytes (drop 2 r))"

definition region_set_time :: "u8 list \<Rightarrow> u32 list \<Rightarrow> u32 list" where
  "region_set_time t r = take 2 r @
     [le32 (t ! 0) (t ! 1) (t ! 2) (t ! 3), le32 (t ! 4) (t ! 5) (t ! 6) (t ! 7),
      le32 (t ! 8) (t ! 9) (t ! 10) (t ! 11), le32 (t ! 12) (t ! 13) (t ! 14) (t ! 15)]"

text \<open>The request of word 0: reading and setting the real-time clock.\<close>

definition Region_RtcRead :: "env \<Rightarrow> nat \<Rightarrow> (MBX_CONTEXT, NTSTATUS option) prog" where
  "Region_RtcRead E fuel = do {
     modify (\<lambda>c. c\<lparr>mc_Region := region_set_time (replicate 16 0) (mc_Region c)\<rparr>);
     mc_stats (\<lambda>s. s\<lparr>ms_RtcReads := ms_RtcReads s + 1\<rparr>);
     andthen (Mbxd_Transfer E fuel 0x30087 [0, 0] 8) (\<lambda>(status, rtc). do {
       whenM (NT_SUCCESS status) (do {
         modify (\<lambda>c. c\<lparr>mc_Region := region_set_time (MbxEpochToTime (rtc ! 1)) (mc_Region c)\<rparr>);
         mc_stats (\<lambda>s. s\<lparr>ms_LastRtcEpoch := rtc ! 1\<rparr>)
       });
       ret (Some status)
     })
   }"

definition Region_RtcWrite :: "env \<Rightarrow> nat \<Rightarrow> (MBX_CONTEXT, NTSTATUS option) prog" where
  "Region_RtcWrite E fuel = do {
     mc_stats (\<lambda>s. s\<lparr>ms_RtcWrites := ms_RtcWrites s + 1\<rparr>);
     time \<leftarrow> gets (\<lambda>c. region_time (mc_Region c));
     mc_stats (\<lambda>s. s\<lparr>ms_LastRtcTimeZone := sint (Mbx_Word time 10)\<rparr>);
     case MbxTimeToEpoch time of
       None \<Rightarrow> ret (Some STATUS_INVALID_PARAMETER)
     | Some epoch \<Rightarrow> andthen (Mbxd_Transfer E fuel 0x38087 [0, epoch] 8) (\<lambda>(status, rtc). do {
         whenM (NT_SUCCESS status) (mc_stats (\<lambda>s. s\<lparr>ms_LastRtcSetEpoch := rtc ! 1\<rparr>));
         ret (Some status)
       })
   }"

definition RegionHandler :: "env \<Rightarrow> nat \<Rightarrow> u32 \<Rightarrow> u32 \<Rightarrow> u32 \<Rightarrow> u32 \<Rightarrow>
    (MBX_CONTEXT, (NTSTATUS \<times> u32) option) prog" where
  "RegionHandler E fuel access address sz data = do {
     irql \<leftarrow> io_call E ''KeGetCurrentIrql'' [];
     if irql \<noteq> 0 then ret (Some (STATUS_INVALID_DEVICE_STATE, data))
     else if sz \<noteq> 4 \<or> address AND 3 \<noteq> 0 \<or> address > 24 - 4 \<or>
         (access \<noteq> ACPI_OPREGION_READ \<and> access \<noteq> ACPI_OPREGION_WRITE) \<or>
         (access = ACPI_OPREGION_WRITE \<and> address = 4)
     then ret (Some (STATUS_INVALID_PARAMETER, data))
     else do {
       status \<leftarrow> Kernel_Lock E;
       if \<not> NT_SUCCESS status then ret (Some (status, data))
       else do {
         mc_stats (\<lambda>s. s\<lparr>ms_OpRegionCalls := ms_OpRegionCalls s + 1\<rparr>);
         region \<leftarrow> gets mc_Region;
         if access = ACPI_OPREGION_READ
         then do { Kernel_Unlock E; ret (Some (STATUS_SUCCESS, region ! unat (address div 4))) }
         else if address \<noteq> 0 then do {
           modify (\<lambda>c. c\<lparr>mc_Region := (mc_Region c)[unat (address div 4) := data]\<rparr>);
           Kernel_Unlock E; ret (Some (STATUS_SUCCESS, data))
         } else do {
           modify (\<lambda>c. c\<lparr>mc_Region := (mc_Region c)[0 := data, 1 := 0xffffffff]\<rparr>);
           andthen (if data = 1 then Region_RtcRead E fuel
             else if data = 2 then Region_RtcWrite E fuel
             else ret (Some STATUS_INVALID_PARAMETER)) (\<lambda>status. do {
               (if NT_SUCCESS status then modify (\<lambda>c. c\<lparr>mc_Region := (mc_Region c)[1 := 0]\<rparr>)
                else mc_stats (\<lambda>s. s\<lparr>ms_RtcFailures := ms_RtcFailures s + 1\<rparr>));
               Kernel_Unlock E;
               ret (Some (STATUS_SUCCESS, data))
             })
         }
       }
     }
   }"

section \<open>Clock leases\<close>

abbreviation MBX_CLAIM :: u32 where "MBX_CLAIM \<equiv> 1"
abbreviation MBX_RELEASE :: u32 where "MBX_RELEASE \<equiv> 2"
abbreviation MBX_SETRATE :: u32 where "MBX_SETRATE \<equiv> 3"
abbreviation MBX_SETSTATE :: u32 where "MBX_SETSTATE \<equiv> 4"

record MBX_CLOCK_CONTROL =
  cc_Version :: u32
  cc_Operation :: u32
  cc_Id :: u32
  cc_Value :: u32

definition ClockCleanup :: "env \<Rightarrow> ptr \<Rightarrow> (MBX_CONTEXT, unit) prog" where
  "ClockCleanup E file = do {
     Kernel_Lock_forever E;
     modify (\<lambda>c. c\<lparr>mc_Clocks := map (\<lambda>l. if cl_Owner l = file
       then l\<lparr>cl_Owner := 0, cl_Abandoned := True\<rparr> else l) (mc_Clocks c)\<rparr>);
     Kernel_Unlock E
   }"

definition ClockRequestValid :: "MBX_CLOCK_CONTROL \<Rightarrow> bool" where
  "ClockRequestValid q \<longleftrightarrow> cc_Version q = 1 \<and> (cc_Id q = 3 \<or> cc_Id q = 5) \<and>
     cc_Operation q \<ge> MBX_CLAIM \<and> cc_Operation q \<le> MBX_SETSTATE \<and>
     \<not> (cc_Operation q \<le> MBX_RELEASE \<and> cc_Value q \<noteq> 0) \<and>
     \<not> (cc_Operation q = MBX_SETSTATE \<and> (cc_Id q \<noteq> 5 \<or> cc_Value q > 1)) \<and>
     \<not> (cc_Operation q = MBX_SETRATE \<and> cc_Value q = 0)"

definition clock_index :: "MBX_CLOCK_CONTROL \<Rightarrow> nat" where
  "clock_index q = (if cc_Id q = 3 then 0 else 1)"

definition set_clock :: "nat \<Rightarrow> (CLOCK_LEASE \<Rightarrow> CLOCK_LEASE) \<Rightarrow> (MBX_CONTEXT, unit) prog" where
  "set_clock i f = modify (\<lambda>c. c\<lparr>mc_Clocks := (mc_Clocks c)[i := f (mc_Clocks c ! i)]\<rparr>)"

text \<open>Reading rate and, for V3D, state: the two transfers of a claim and of a release. The first
  transfer that fails decides the status.\<close>

definition Clock_Query :: "env \<Rightarrow> nat \<Rightarrow> u32 \<Rightarrow> (MBX_CONTEXT, (NTSTATUS \<times> u32 \<times> u32) option) prog" where
  "Clock_Query E fuel clk =
     andthen (Mbxd_Transfer E fuel 0x30002 [clk, 0] 8) (\<lambda>(status, rate).
       if NT_SUCCESS status \<and> clk = 5
       then andthen (Mbxd_Transfer E fuel 0x30001 [clk, 0] 8) (\<lambda>(status, state).
         ret (Some (status, rate ! 1, state ! 1)))
       else ret (Some (status, rate ! 1, 0)))"

definition Clock_Claim :: "env \<Rightarrow> nat \<Rightarrow> ptr \<Rightarrow> MBX_CLOCK_CONTROL \<Rightarrow> (MBX_CONTEXT, NTSTATUS option) prog" where
  "Clock_Claim E fuel file q =
     andthen (Clock_Query E fuel (cc_Id q)) (\<lambda>(status, rate, state).
       if \<not> NT_SUCCESS status then ret (Some status)
       else if rate = 0 \<or> state > 1 then ret (Some STATUS_DEVICE_CONFIGURATION_ERROR)
       else do {
         set_clock (clock_index q) (\<lambda>l. l\<lparr>cl_BaselineRate := rate, cl_BaselineState := state, cl_Owner := file\<rparr>);
         ret (Some STATUS_SUCCESS)
       })"

definition Clock_Release :: "env \<Rightarrow> nat \<Rightarrow> MBX_CLOCK_CONTROL \<Rightarrow> (MBX_CONTEXT, NTSTATUS option) prog" where
  "Clock_Release E fuel q =
     andthen (Clock_Query E fuel (cc_Id q)) (\<lambda>(status, rate, state). do {
       clock \<leftarrow> gets (\<lambda>c. mc_Clocks c ! clock_index q);
       if \<not> NT_SUCCESS status then ret (Some status)
       else if rate \<noteq> cl_BaselineRate clock \<or> state \<noteq> cl_BaselineState clock
       then ret (Some STATUS_DEVICE_BUSY)
       else do { set_clock (clock_index q) (\<lambda>l. l\<lparr>cl_Owner := 0\<rparr>); ret (Some STATUS_SUCCESS) }
     })"

text \<open>A change of the rate within the limits the firmware reports, or of the state; the value
  returned is the one the firmware applied.\<close>

definition Clock_Set :: "env \<Rightarrow> nat \<Rightarrow> MBX_CLOCK_CONTROL \<Rightarrow> (MBX_CONTEXT, (NTSTATUS \<times> u32) option) prog" where
  "Clock_Set E fuel q =
     (if cc_Operation q = MBX_SETRATE then
        andthen (Mbxd_Transfer E fuel 0x30007 [cc_Id q, 0] 8) (\<lambda>(status, minimum).
        if \<not> NT_SUCCESS status then ret (Some (status, 0)) else
        andthen (Mbxd_Transfer E fuel 0x30004 [cc_Id q, 0] 8) (\<lambda>(status, maximum).
        if \<not> NT_SUCCESS status then ret (Some (status, 0))
        else if maximum ! 1 = 0 \<or> minimum ! 1 > maximum ! 1 \<or> cc_Value q < minimum ! 1 \<or>
            cc_Value q > maximum ! 1 then ret (Some (STATUS_INVALID_PARAMETER, 0))
        else andthen (Mbxd_Transfer E fuel 0x38002 [cc_Id q, cc_Value q, 0] 12) (\<lambda>(status, data).
          ret (Some (status, data ! 1)))))
      else andthen (Mbxd_Transfer E fuel 0x38001 [cc_Id q, cc_Value q, 0] 8) (\<lambda>(status, data).
        ret (Some (status, data ! 1))))"

definition ClockControlLocked :: "env \<Rightarrow> nat \<Rightarrow> ptr \<Rightarrow> MBX_CLOCK_CONTROL \<Rightarrow>
    (MBX_CONTEXT, (NTSTATUS \<times> u32) option) prog" where
  "ClockControlLocked E fuel file q = do {
     c \<leftarrow> gets id;
     let clock = mc_Clocks c ! clock_index q;
     if \<not> ClockRequestValid q then ret (Some (STATUS_INVALID_PARAMETER, 0))
     else if ms_Online (mc_Stats c) = 0 \<or> ms_Owned (mc_Stats c) = 0
     then ret (Some (STATUS_DEVICE_NOT_READY, 0))
     else if cl_Abandoned clock then ret (Some (STATUS_DEVICE_HARDWARE_ERROR, 0))
     else if cc_Operation q = MBX_CLAIM
     then if cl_Owner clock \<noteq> 0 then ret (Some (STATUS_DEVICE_BUSY, 0))
       else andthen (Clock_Claim E fuel file q) (\<lambda>status. ret (Some (status, 0)))
     else if cl_Owner clock \<noteq> file then ret (Some (STATUS_ACCESS_DENIED, 0))
     else if cc_Operation q = MBX_RELEASE
     then andthen (Clock_Release E fuel q) (\<lambda>status. ret (Some (status, 0)))
     else Clock_Set E fuel q
   }"

section \<open>Requests\<close>

text \<open>What a request carries: the lengths of its buffers, whether it comes from the kernel, its
  file object, and the words of its input buffer.\<close>

record mbx_request_in =
  rq_InputLength :: u64
  rq_OutputLength :: u64
  rq_KernelMode :: bool
  rq_File :: ptr
  rq_Words :: "u32 list"

text \<open>The completion of a request: its status, the number of bytes returned, and the words
  written into the output buffer.\<close>

type_synonym completion = "NTSTATUS \<times> nat \<times> u32 list"

definition ClockControl :: "env \<Rightarrow> nat \<Rightarrow> mbx_request_in \<Rightarrow> (MBX_CONTEXT, completion option) prog" where
  "ClockControl E fuel rq =
     (if \<not> rq_KernelMode rq \<or> rq_File rq = 0 then ret (Some (STATUS_ACCESS_DENIED, 0, []))
      else if rq_InputLength rq \<noteq> 16 \<or> rq_OutputLength rq < 16
      then ret (Some (STATUS_INVALID_BUFFER_SIZE, 0, []))
      else do {
        status \<leftarrow> kernel_status E ''WdfRequestRetrieveInputBuffer'' [16];
        let q = \<lparr>cc_Version = rq_Words rq ! 0, cc_Operation = rq_Words rq ! 1, cc_Id = rq_Words rq ! 2,
          cc_Value = rq_Words rq ! 3\<rparr>;
        if \<not> NT_SUCCESS status then ret (Some (status, 0, []))
        else if \<not> ClockRequestValid q then ret (Some (STATUS_INVALID_PARAMETER, 0, []))
        else do {
          status \<leftarrow> kernel_status E ''WdfRequestRetrieveOutputBuffer'' [16];
          if \<not> NT_SUCCESS status then ret (Some (status, 0, []))
          else do {
            status \<leftarrow> Kernel_Lock E;
            if \<not> NT_SUCCESS status then ret (Some (status, 0, []))
            else andthen (ClockControlLocked E fuel (rq_File rq) q) (\<lambda>(status, v). do {
              Kernel_Unlock E;
              ret (Some (if NT_SUCCESS status
                then (status, 16, [1, cc_Operation q, cc_Id q, v]) else (status, 0, [])))
            })
          }
        }
      })"

abbreviation MBX_DISPLAY_EDID :: u32 where "MBX_DISPLAY_EDID \<equiv> 1"
abbreviation MBX_DISPLAY_TIMING :: u32 where "MBX_DISPLAY_TIMING \<equiv> 2"

text \<open>The display query: 34 words of payload for an EDID block, 9 for a timing; the display number
  of the firmware is 2 or 7.\<close>

definition DisplayQuery :: "env \<Rightarrow> nat \<Rightarrow> mbx_request_in \<Rightarrow> (MBX_CONTEXT, completion option) prog" where
  "DisplayQuery E fuel rq =
     (if rq_InputLength rq \<noteq> 16 \<or> rq_OutputLength rq < 144
      then ret (Some (STATUS_INVALID_BUFFER_SIZE, 0, []))
      else do {
        status \<leftarrow> kernel_status E ''WdfRequestRetrieveInputBuffer'' [16];
        let version = rq_Words rq ! 0;
        let operation = rq_Words rq ! 1;
        let port = rq_Words rq ! 2;
        let block = rq_Words rq ! 3;
        if \<not> NT_SUCCESS status then ret (Some (status, 0, []))
        else if version \<noteq> 1 \<or> port > 1 \<or> block > 255 \<or>
            (operation \<noteq> MBX_DISPLAY_EDID \<and> operation \<noteq> MBX_DISPLAY_TIMING) \<or>
            (operation = MBX_DISPLAY_TIMING \<and> block \<noteq> 0)
        then ret (Some (STATUS_INVALID_PARAMETER, 0, []))
        else do {
          status \<leftarrow> kernel_status E ''WdfRequestRetrieveOutputBuffer'' [144];
          if \<not> NT_SUCCESS status then ret (Some (status, 0, []))
          else do {
            let display = (if port \<noteq> 0 then 7 else 2);
            let (tag, bytes, payload) = (if operation = MBX_DISPLAY_EDID
              then (0x30023, 136, (replicate 34 0)[0 := block, 1 := display])
              else (0x40017, 36, (replicate 34 0)[0 := display]));
            status \<leftarrow> Kernel_Lock E;
            if \<not> NT_SUCCESS status then ret (Some (status, 0, []))
            else andthen (Mbxd_Transfer E fuel tag payload bytes) (\<lambda>(status, words). do {
              Kernel_Unlock E;
              ret (Some (if NT_SUCCESS status
                then (status, 144, [version, operation, port, block] @
                  (if operation = MBX_DISPLAY_EDID then take 32 (drop 2 words)
                   else take 9 words @ replicate 23 0))
                else (status, 0, [])))
            })
          }
        }
      })"

text \<open>The fixed queries: the tag and the number of bytes of a valid query.\<close>

definition mbx_query_tag :: "u32 \<Rightarrow> u32 \<Rightarrow> (u32 \<times> u32) option" where
  "mbx_query_tag operation clk =
     (let clock = clk \<noteq> 0 \<and> clk \<le> 16 in
      if operation = 1 then (if clk = 0 then Some (1, 4) else None)
      else if operation = 2 then (if clock then Some (0x30002, 8) else None)
      else if operation = 3 then (if clock then Some (0x30001, 8) else None)
      else if operation = 5 then (if clock then Some (0x30007, 8) else None)
      else if operation = 6 then (if clock then Some (0x30004, 8) else None)
      else if operation = 7 then (if clock then Some (0x30047, 8) else None)
      else if operation = 4 then (if clk = 0 then Some (0x30087, 8) else None)
      else None)"

datatype mbx_ioctl = IOCTL_MBX_QUERY | IOCTL_MBX_STATS | IOCTL_MBX_CLOCK_CONTROL
  | IOCTL_MBX_DISPLAY_QUERY | IOCTL_MBX_OTHER

text \<open>The 88 bytes of the statistics of a prepared device, version 1, in a release build.\<close>

definition mbx_stats_words :: "MBX_CONTEXT \<Rightarrow> u32 list" where
  "mbx_stats_words c =
     (let s = mc_Stats c; t = mc_Transport c in
      [1, 0, ms_Owned s, mbx_Fault t, mbx_Unsafe t, ms_Online s, ms_LastStatus s, ms_LastTag s,
       mbx_Transactions t, mbx_Failures t, mbx_Timeouts t, mbx_ForeignReplies t, ms_RtcReads s,
       ms_RtcWrites s, ms_RtcFailures s, ms_LastRtcEpoch s, ms_LastRtcSetEpoch s,
       of_int (ms_LastRtcTimeZone s), ms_OpRegionCalls s, mc_RejectedRestarts c, mbx_Address t, 0])"

definition Mbxd_Control :: "env \<Rightarrow> nat \<Rightarrow> mbx_ioctl \<Rightarrow> mbx_request_in \<Rightarrow>
    (MBX_CONTEXT, completion option) prog" where
  "Mbxd_Control E fuel code rq = (case code of
     IOCTL_MBX_DISPLAY_QUERY \<Rightarrow> DisplayQuery E fuel rq
   | IOCTL_MBX_CLOCK_CONTROL \<Rightarrow> ClockControl E fuel rq
   | IOCTL_MBX_OTHER \<Rightarrow> ret (Some (STATUS_INVALID_DEVICE_REQUEST, 0, []))
   | IOCTL_MBX_QUERY \<Rightarrow>
       (if rq_InputLength rq \<noteq> 16 \<or> rq_OutputLength rq < 16
        then ret (Some (STATUS_INVALID_BUFFER_SIZE, 0, []))
        else do {
          status \<leftarrow> kernel_status E ''WdfRequestRetrieveInputBuffer'' [16];
          let operation = rq_Words rq ! 1;
          let clk = rq_Words rq ! 2;
          if \<not> NT_SUCCESS status then ret (Some (status, 0, []))
          else if rq_Words rq ! 0 \<noteq> 1 \<or> rq_Words rq ! 3 \<noteq> 0
          then ret (Some (STATUS_INVALID_PARAMETER, 0, []))
          else case mbx_query_tag operation clk of
            None \<Rightarrow> ret (Some (STATUS_INVALID_PARAMETER, 0, []))
          | Some (tag, bytes) \<Rightarrow> do {
              status \<leftarrow> kernel_status E ''WdfRequestRetrieveOutputBuffer'' [16];
              if \<not> NT_SUCCESS status then ret (Some (status, 0, []))
              else do {
                status \<leftarrow> Kernel_Lock E;
                if \<not> NT_SUCCESS status then ret (Some (status, 0, []))
                else andthen (Mbxd_Transfer E fuel tag [clk, 0] bytes) (\<lambda>(status, data). do {
                  Kernel_Unlock E;
                  ret (Some (if NT_SUCCESS status
                    then (status, 16, [1, operation, clk, data ! (if bytes = 4 then 0 else 1)])
                    else (status, 0, [])))
                })
              }
            }
        })
   | IOCTL_MBX_STATS \<Rightarrow>
       (if rq_InputLength rq \<noteq> 0 then ret (Some (STATUS_INVALID_BUFFER_SIZE, 0, []))
        else do {
          status \<leftarrow> kernel_status E ''WdfRequestRetrieveOutputBuffer'' [88];
          if \<not> NT_SUCCESS status then ret (Some (status, 0, []))
          else do {
            status \<leftarrow> Kernel_Lock E;
            if \<not> NT_SUCCESS status then ret (Some (status, 0, []))
            else do {
              words \<leftarrow> gets mbx_stats_words;
              Kernel_Unlock E;
              ret (Some (STATUS_SUCCESS, 88, words))
            }
          }
        }))"

section \<open>Stopping and teardown\<close>

definition Mbxd_QueryStop :: "(MBX_CONTEXT, NTSTATUS) prog" where
  "Mbxd_QueryStop = do {
     c \<leftarrow> gets id;
     if mc_BootClaim c \<noteq> 0 then do {
       modify (\<lambda>c. c\<lparr>mc_RejectedRestarts := mc_RejectedRestarts c + 1\<rparr>);
       ret STATUS_DEVICE_BUSY
     } else ret STATUS_SUCCESS
   }"

definition Mbxd_Release :: "env \<Rightarrow> (MBX_CONTEXT, NTSTATUS) prog" where
  "Mbxd_Release E = do {
     Kernel_Lock_forever E;
     mc_stats (\<lambda>s. s\<lparr>ms_Online := 0\<rparr>);
     Kernel_Unlock E;
     region \<leftarrow> gets mc_RegionObject;
     status \<leftarrow> (if region \<noteq> 0 then kernel_status E ''DeRegisterOpRegionHandler'' [region]
       else ret STATUS_SUCCESS);
     if \<not> NT_SUCCESS status then do { kernel_do E ''Diagnostic'' [90, ucast status]; ret status }
     else do {
       modify (\<lambda>c. c\<lparr>mc_RegionObject := 0\<rparr>);
       c \<leftarrow> gets id;
       whenM (mbx_Unsafe (mc_Transport c) = 0) (do {
         whenM (mbx_Buffer (mc_Transport c)) (kernel_do E ''FreeCommonBuffer'' [mc_Adapter c]);
         whenM (mc_Adapter c \<noteq> 0) (kernel_do E ''PutDmaAdapter'' [mc_Adapter c])
       });
       modify (\<lambda>c. c\<lparr>mc_Transport := (mc_Transport c)\<lparr>mbx_Buffer := False\<rparr>, mc_Adapter := 0\<rparr>);
       whenM (mc_Registers c \<noteq> 0) (do {
         kernel_do E ''MmUnmapIoSpace'' [mc_Registers c];
         modify (\<lambda>c. c\<lparr>mc_Registers := 0\<rparr>)
       });
       whenM (mc_Pinned c) (do {
         kernel_do E ''WdfDeviceSetStaticStopRemove'' [1];
         modify (\<lambda>c. c\<lparr>mc_Pinned := False\<rparr>)
       });
       ret STATUS_SUCCESS
     }
   }"

section \<open>What the operations keep\<close>

lemma keeps_Mbxd_Transfer:
  assumes "\<And>t c. g (c\<lparr>mc_Transport := t\<rparr>) = g c" and "\<And>s c. g (c\<lparr>mc_Stats := s\<rparr>) = g c"
  shows "preserves (keeps g) (Mbxd_Transfer E fuel tag data bytes)"
  unfolding Mbxd_Transfer_def Let_def
  by (auto intro!: kernel_keeps simp: assms)

lemma keeps_Clock_Query:
  "preserves (keeps mc_Clocks) (Clock_Query E fuel clk)"
  by (auto simp: Clock_Query_def intro!: kernel_keeps keeps_Mbxd_Transfer)

lemma keeps_Clock_Set:
  "preserves (keeps mc_Clocks) (Clock_Set E fuel q)"
  by (auto simp: Clock_Set_def intro!: kernel_keeps keeps_Mbxd_Transfer)

lemma keeps_RegionHandler:
  "preserves (keeps mc_Clocks) (RegionHandler E fuel access address sz data)"
  by (auto simp: RegionHandler_def Region_RtcRead_def Region_RtcWrite_def
    intro!: kernel_keeps keeps_Mbxd_Transfer)

lemma keeps_DisplayQuery:
  "preserves (keeps mc_Clocks) (DisplayQuery E fuel rq)"
  by (auto simp: DisplayQuery_def intro!: kernel_keeps keeps_Mbxd_Transfer)

lemma keeps_Control:
  "code \<noteq> IOCTL_MBX_CLOCK_CONTROL \<Longrightarrow> preserves (keeps mc_Clocks) (Mbxd_Control E fuel code rq)"
  by (cases code) (auto simp: Mbxd_Control_def intro!: kernel_keeps keeps_Mbxd_Transfer keeps_DisplayQuery)

lemma keeps_Release: "preserves (keeps mc_Clocks) (Mbxd_Release E)"
  by (auto simp: Mbxd_Release_def intro!: kernel_keeps)

section \<open>The life of a lease\<close>

datatype mbxd_op = MbxdControl mbx_ioctl mbx_request_in | MbxdRegion u32 u32 u32 u32
  | MbxdCleanup ptr | MbxdQueryStop | MbxdRelease

fun mbxd_run :: "env \<Rightarrow> nat \<Rightarrow> mbxd_op \<Rightarrow> (MBX_CONTEXT, completion option) prog" where
  "mbxd_run E fuel (MbxdControl code rq) = Mbxd_Control E fuel code rq"
| "mbxd_run E fuel (MbxdRegion access address sz data) =
     andthen (RegionHandler E fuel access address sz data) (\<lambda>(status, v). ret (Some (status, 4, [v])))"
| "mbxd_run E fuel (MbxdCleanup file) = do { ClockCleanup E file; ret (Some (STATUS_SUCCESS, 0, [])) }"
| "mbxd_run E fuel MbxdQueryStop = do { status \<leftarrow> Mbxd_QueryStop; ret (Some (status, 0, [])) }"
| "mbxd_run E fuel MbxdRelease = do { status \<leftarrow> Mbxd_Release E; ret (Some (status, 0, [])) }"

text \<open>The request a clock control carries, and the changes an operation may make to a lease.\<close>

definition rq_clock :: "mbx_request_in \<Rightarrow> MBX_CLOCK_CONTROL" where
  "rq_clock rq = \<lparr>cc_Version = rq_Words rq ! 0, cc_Operation = rq_Words rq ! 1, cc_Id = rq_Words rq ! 2,
     cc_Value = rq_Words rq ! 3\<rparr>"

inductive lease_step :: "mbxd_op \<Rightarrow> CLOCK_LEASE \<Rightarrow> CLOCK_LEASE \<Rightarrow> bool" where
  stays: "lease_step p l l"
| claims: "rq_KernelMode rq \<Longrightarrow> rq_File rq \<noteq> 0 \<Longrightarrow> ClockRequestValid (rq_clock rq) \<Longrightarrow>
    cc_Operation (rq_clock rq) = MBX_CLAIM \<Longrightarrow> cl_Owner l = 0 \<Longrightarrow> \<not> cl_Abandoned l \<Longrightarrow> rate \<noteq> 0 \<Longrightarrow> state \<le> 1 \<Longrightarrow>
    lease_step (MbxdControl IOCTL_MBX_CLOCK_CONTROL rq) l
      (l\<lparr>cl_BaselineRate := rate, cl_BaselineState := state, cl_Owner := rq_File rq\<rparr>)"
| releases: "rq_KernelMode rq \<Longrightarrow> rq_File rq = cl_Owner l \<Longrightarrow> ClockRequestValid (rq_clock rq) \<Longrightarrow>
    cc_Operation (rq_clock rq) = MBX_RELEASE \<Longrightarrow> \<not> cl_Abandoned l \<Longrightarrow>
    lease_step (MbxdControl IOCTL_MBX_CLOCK_CONTROL rq) l (l\<lparr>cl_Owner := 0\<rparr>)"
| abandons: "lease_step (MbxdCleanup (cl_Owner l)) l (l\<lparr>cl_Owner := 0, cl_Abandoned := True\<rparr>)"

inductive_cases lease_stepE: "lease_step p l l'"

definition leases_step :: "mbxd_op \<Rightarrow> MBX_CONTEXT world \<Rightarrow> MBX_CONTEXT world \<Rightarrow> bool" where
  "leases_step p w v \<longleftrightarrow> length (mc_Clocks (st v)) = length (mc_Clocks (st w)) \<and>
     (\<forall>i < length (mc_Clocks (st w)). lease_step p (mc_Clocks (st w) ! i) (mc_Clocks (st v) ! i))"

lemma leases_step_keeps: "keeps mc_Clocks w v \<Longrightarrow> leases_step p w v"
  by (simp add: keeps_def leases_step_def stays)

lemma leases_step_set:
  "mc_Clocks (st v) = (mc_Clocks (st w))[i := l] \<Longrightarrow> (i < length (mc_Clocks (st w)) \<Longrightarrow> lease_step p (mc_Clocks (st w) ! i) l) \<Longrightarrow>
   leases_step p w v"
  unfolding leases_step_def by (metis length_list_update nth_list_update_eq nth_list_update_neq stays)

lemma leases_ClockControlLocked:
  assumes rq: "rq_KernelMode rq" "rq_File rq \<noteq> 0"
  shows "wp (ClockControlLocked E fuel (rq_File rq) (rq_clock rq))
    (\<lambda>r v. leases_step (MbxdControl IOCTL_MBX_CLOCK_CONTROL rq) w v) w"
proof -
  let ?p = "MbxdControl IOCTL_MBX_CLOCK_CONTROL rq"
  have same: "leases_step ?p w v" if "mc_Clocks (st v) = mc_Clocks (st w)" for v
    using that by (intro leases_step_keeps) (simp add: keeps_def)
  have claim: "leases_step ?p w v" if "mc_Clocks (st v) = (mc_Clocks (st w))[i := (mc_Clocks (st w) ! i)
      \<lparr>cl_BaselineRate := rate, cl_BaselineState := state, cl_Owner := rq_File rq\<rparr>]"
      "ClockRequestValid (rq_clock rq)" "cc_Operation (rq_clock rq) = MBX_CLAIM"
      "cl_Owner (mc_Clocks (st w) ! i) = 0" "\<not> cl_Abandoned (mc_Clocks (st w) ! i)" "rate \<noteq> 0" "state \<le> 1"
    for v i rate state
    using that by (intro leases_step_set [OF that(1)] lease_step.claims rq) simp_all
  have release: "leases_step ?p w v" if "mc_Clocks (st v) = (mc_Clocks (st w))[i := (mc_Clocks (st w) ! i)
      \<lparr>cl_Owner := 0\<rparr>]"
      "ClockRequestValid (rq_clock rq)" "cc_Operation (rq_clock rq) = MBX_RELEASE"
      "rq_File rq = cl_Owner (mc_Clocks (st w) ! i)" "\<not> cl_Abandoned (mc_Clocks (st w) ! i)" for v i
    using that by (intro leases_step_set [OF that(1)] lease_step.releases rq) simp_all
  show ?thesis
    unfolding ClockControlLocked_def Clock_Claim_def Clock_Release_def set_clock_def
    by (auto simp: wp_simps Let_def not_less split: option.splits prod.splits
        intro!: wp_keeps [OF keeps_Clock_Query] wp_keeps [OF keeps_Clock_Set] intro: same claim release)
qed
lemma leases_ClockControl:
  "wp (ClockControl E fuel rq) (\<lambda>r v. leases_step (MbxdControl IOCTL_MBX_CLOCK_CONTROL rq) w v) w"
proof -
  let ?p = "MbxdControl IOCTL_MBX_CLOCK_CONTROL rq"
  have same: "leases_step ?p w (w\<lparr>trace := t\<rparr>)" for t
    by (intro leases_step_keeps) (simp add: keeps_def)
  have same': "leases_step ?p w w" by (intro leases_step_keeps) (simp add: keeps_def)
  have locked: "wp (ClockControlLocked E fuel (rq_File rq) (rq_clock rq)) Q (w\<lparr>trace := t\<rparr>)"
    if "rq_KernelMode rq" "rq_File rq \<noteq> 0" "\<And>r v. leases_step ?p w v \<Longrightarrow> Q r v" for Q t
    using leases_ClockControlLocked [OF that(1,2), of E fuel "w\<lparr>trace := t\<rparr>"]
    by (rule wp_mono) (auto intro: that(3) simp: leases_step_def)
  have frame: "leases_step ?p w (v\<lparr>trace := t\<rparr>)" if "leases_step ?p w v" for v t
    using that by (simp add: leases_step_def)
  show ?thesis
    unfolding ClockControl_def rq_clock_def [symmetric] Let_def
    by (auto simp: wp_simps same same' frame split: option.splits intro!: kernel_any locked)
qed

lemma leases_run:
  "wp (mbxd_run E fuel p) (\<lambda>r v. leases_step p w v) w"
proof -
  have same: "wp m (\<lambda>r v. leases_step q w v) w" if "preserves (keeps mc_Clocks) m" for q and m :: "(MBX_CONTEXT, 'a) prog"
    using that by (rule wp_keeps) (simp add: leases_step_def stays)
  show ?thesis
  proof (cases p)
    case (MbxdControl code rq)
    show ?thesis
    proof (cases "code = IOCTL_MBX_CLOCK_CONTROL")
      case True
      then show ?thesis using leases_ClockControl [of E fuel rq w] by (simp add: MbxdControl Mbxd_Control_def)
    next
      case False
      then show ?thesis unfolding MbxdControl mbxd_run.simps using same keeps_Control by blast
    qed
  next
    case (MbxdCleanup f)
    have "lease_step (MbxdCleanup f) l (if cl_Owner l = f then l\<lparr>cl_Owner := 0, cl_Abandoned := True\<rparr> else l)" for l
      by (auto intro: lease_step.intros)
    then show ?thesis unfolding MbxdCleanup by (simp add: ClockCleanup_def wp_simps leases_step_def)
  qed (auto intro!: same keeps_RegionHandler keeps_Release kernel_keeps 
    simp: Mbxd_QueryStop_def)
qed
lemma lease_abandoned: "lease_step p l l' \<Longrightarrow> (cl_Abandoned l \<longrightarrow> cl_Owner l = 0) \<Longrightarrow> cl_Abandoned l' \<longrightarrow> cl_Owner l' = 0"
  by (auto elim: lease_stepE)

text \<open>Everything that can happen to a device whose leases start out free; file objects are not
  null.\<close>

inductive mbxd_reachable :: "env \<Rightarrow> nat \<Rightarrow> MBX_CONTEXT world \<Rightarrow> bool" for E fuel where
  start: "mc_Clocks (st w) = replicate 2 cl_zero \<Longrightarrow> mbxd_reachable E fuel w"
| operation: "mbxd_reachable E fuel w \<Longrightarrow> p \<noteq> MbxdCleanup 0 \<Longrightarrow> run_state (mbxd_run E fuel p) w = (r, w') \<Longrightarrow>
    mbxd_reachable E fuel w'"

lemma reachable_leases:
  "mbxd_reachable E fuel w \<Longrightarrow> length (mc_Clocks (st w)) = 2 \<and>
     (\<forall>l\<in>set (mc_Clocks (st w)). cl_Abandoned l \<longrightarrow> cl_Owner l = 0)"
proof (induction rule: mbxd_reachable.induct)
  case (operation w p r w')
  have "leases_step p w w'" using leases_run operation.hyps(3) by (rule wpD)
  then have len: "length (mc_Clocks (st w')) = length (mc_Clocks (st w))"
    and "\<forall>i < length (mc_Clocks (st w)). lease_step p (mc_Clocks (st w) ! i) (mc_Clocks (st w') ! i)"
    by (simp_all add: leases_step_def)
  with operation.IH show ?case unfolding all_set_conv_all_nth using lease_abandoned by metis
qed (auto simp: cl_zero_def)

section \<open>Bytes of the region\<close>

lemma region_time_set:
  assumes "length t = 16" and "length r = 6"
  shows "region_time (region_set_time t r) = t"
proof -
  have "region_time (region_set_time t r) = map ((!) t)
      [0, 1, 2, 3, 4, 5, 6, 7, 8, 9, 10, 11, 12, 13, 14, 15]"
    using assms(2) by (simp add: region_time_def region_set_time_def)
  also have "[0, 1, 2, 3, 4, 5, 6, 7, 8, 9, 10, 11, 12, 13, 14, 15] = [0..<16]" by (simp add: upt_conv_Cons)
  finally show ?thesis using assms(1) by (metis map_nth)
qed

lemma region_set_time_other [simp]:
  "length r = 6 \<Longrightarrow> length (region_set_time t r) = 6"
  "region_time (r[0 := a]) = region_time r" "region_time (r[Suc 0 := a]) = region_time r"
  "length r = 6 \<Longrightarrow> region_set_time t r ! Suc 0 = r ! Suc 0"
  by (simp_all add: region_set_time_def region_time_def nth_append)

lemma length_MbxEpochToTime [simp]: "length (MbxEpochToTime e) = 16"
  by (simp add: MbxEpochToTime_def Let_def split: prod.splits)

section \<open>Properties\<close>

lemma wp_Mbxd_Transfer:
  "wp (Mbxd_Transfer E fuel tag data bytes) (\<lambda>r v. \<forall>status data'. r = Some (status, data') \<longrightarrow> NT_SUCCESS status \<longrightarrow>
      status = STATUS_SUCCESS \<and>
        ms_Online (mc_Stats (st w)) \<noteq> 0 \<and> ms_Owned (mc_Stats (st w)) \<noteq> 0 \<and>
        mbx_Fault (mc_Transport (st v)) = 0 \<and> mbx_Unsafe (mc_Transport (st v)) = 0 \<and>
        (bytes \<ge> 8 \<longrightarrow> MbxReplyIdMatches tag (data ! 0) (data' ! 0))) w"
proof -
  have ok: "NT_SUCCESS (mbx_status r) \<longleftrightarrow> r = MbxOk" "mbx_status MbxOk = STATUS_SUCCESS" for r
    by (cases r) (auto simp: mbx_status_def)
  show ?thesis
    unfolding Mbxd_Transfer_def Let_def
    apply (auto simp: wp_simps)
    apply (rule wp_MbxTransfer)
    apply (erule mbx_outcome.cases)
    apply (auto simp: ok wp_simps mbx_answered_def not_le)
    done
qed

text \<open>A transfer of the driver succeeds only when the device is online and owned, the transport is
  left without a fault and without an outstanding buffer, and the reply answers the selector that was
  asked for; a reply for another selector latches the fault.\<close>

theorem mbxd_transfer_checked:
  assumes "run_state (Mbxd_Transfer E fuel tag data bytes) w = (Some (status, data'), w')"
    and "NT_SUCCESS status"
  shows "status = STATUS_SUCCESS \<and> ms_Online (mc_Stats (st w)) \<noteq> 0 \<and> ms_Owned (mc_Stats (st w)) \<noteq> 0 \<and>
    mbx_Fault (mc_Transport (st w')) = 0 \<and> mbx_Unsafe (mc_Transport (st w')) = 0 \<and>
    (bytes \<ge> 8 \<longrightarrow> MbxReplyIdMatches tag (data ! 0) (data' ! 0))"
  using wpD [OF wp_Mbxd_Transfer assms(1)] assms(2) by blast

definition mbxd_online :: "MBX_CONTEXT world" where
  "mbxd_online = \<lparr>st = mc_zero\<lparr>mc_Transport := st mbx_example,
     mc_Stats := (mc_Stats mc_zero)\<lparr>ms_Online := 1, ms_Owned := 1\<rparr>\<rparr>, trace = []\<rparr>"

lemma checked_example:
  "fst (run_state (Mbxd_Transfer (mbx_firmware mbx_clock_answer) 1 0x30087 [0, 0] 8) mbxd_online) =
     Some (STATUS_SUCCESS, [0, 0x65000000])"
proof -
  have w: "\<lparr>st = mc_Transport (st mbxd_online), trace = trace mbxd_online\<rparr> = mbx_example"
    by (simp add: mbxd_online_def mbx_example_def)
  have on: "ms_Online (mc_Stats (st mbxd_online)) = 1" "ms_Owned (mc_Stats (st mbxd_online)) = 1"
    by (simp_all add: mbxd_online_def)
  obtain v where v: "run_state (MbxTransfer (mbx_firmware mbx_clock_answer) 1 0x30087 [0, 0] 8) mbx_example =
      (Some (MbxOk, [0, 0x65000000]), v)"
    using answered_example by (metis prod.collapse)
  show ?thesis
    unfolding Mbxd_Transfer_def andthen_def
    using v by (simp add: run_zoom w on Let_def wp_simps mbx_status_def MbxReplyIdMatches_def)
qed

theorem mbxd_transfer_checked_witness:
  "mbx_Fault (mc_Transport (st (snd (run_state
     (Mbxd_Transfer (mbx_firmware mbx_clock_answer) 1 0x30087 [0, 0] 8) mbxd_online)))) = 0"
proof -
  let ?o = "run_state (Mbxd_Transfer (mbx_firmware mbx_clock_answer) 1 0x30087 [0, 0] 8) mbxd_online"
  have "?o = (Some (STATUS_SUCCESS, [0, 0x65000000]), snd ?o)" using checked_example by (metis prod.collapse)
  from mbxd_transfer_checked [OF this] show ?thesis by simp
qed

text \<open>An answer that is accepted was read from the buffer last.\<close>

definition answer_read :: "u32 list \<Rightarrow> 's world \<Rightarrow> bool" where
  "answer_read d v \<longleftrightarrow> (\<exists>t. trace v = Rd 1 (mbx_word 6) (d ! 1) # Rd 1 (mbx_word 5) (d ! 0) # t)"

lemma wp_whatever: "(\<And>r v. Q r v) \<Longrightarrow> wp m Q w"
  by (rule wpI)

lemma Answer_reads: "wp (Mbx_Answer E tag data 8) (\<lambda>a v. fst a = MbxOk \<longrightarrow> answer_read (snd a) v) w"
proof -
  have two: "[0..<unat (8 :: u32) div 4] = [0, 1]" by (simp add: upt_rec)
  have words: "wp (do { words \<leftarrow> mapM [0..<unat (8 :: u32) div 4] (\<lambda>i. io_read E 1 (mbx_word (5 + i))); ret (MbxOk, words @ drop (unat (8 :: u32) div 4) data) })
      (\<lambda>a v. fst a = MbxOk \<longrightarrow> answer_read (snd a) v) u" for u :: "MBX_TRANSPORT world"
    unfolding two by (simp add: wp_simps wp_io_read answer_read_def)
  have failed: "wp (do { r \<leftarrow> Mbx_Fail s b; ret (r, data) }) (\<lambda>a v. fst a = MbxOk \<longrightarrow> answer_read (snd a) v) u" if "s \<noteq> MbxOk" for s b and u :: "MBX_TRANSPORT world"
    using that by (simp add: wp_simps)
  show ?thesis
    unfolding Mbx_Answer_def Let_def
    apply (rule wp_bindI, rule wp_whatever, rule wp_ifI, rule failed, simp)
    apply (rule wp_bindI, rule wp_whatever, rule wp_ifI, rule failed, simp)
    apply (rule wp_bindI, rule wp_whatever, rule wp_bindI, rule wp_whatever, rule wp_ifI, rule failed, simp)
    apply (rule words)
    done
qed

lemma Transfer_reads: "wp (MbxTransfer E fuel tag data 8) (\<lambda>r v. \<forall>d. r = Some (MbxOk, d) \<longrightarrow> answer_read d v) w"
proof -
  have send: "wp (Mbx_Send E fuel t tag data 8) (\<lambda>r v. \<forall>d. r = Some (MbxOk, d) \<longrightarrow> answer_read d v) u" for t u
    unfolding Mbx_Send_def Let_def wp_andthen wp_bind
    apply (rule wp_getsI, (rule wp_whatever)+)
    by (auto simp: wp_simps split: option.splits intro!: wp_mono [OF Answer_reads])
  show ?thesis
    unfolding MbxTransfer_def Let_def wp_andthen wp_bind
    apply (rule wp_getsI, rule wp_ifI, simp add: wp_simps, rule wp_ifI, simp add: wp_simps, rule wp_bindI, rule wp_whatever, rule wp_bindI, rule wp_whatever, rule wp_ifI)
    apply (simp add: wp_simps)
    by (auto simp: wp_simps split: option.splits intro!: wp_whatever send)
qed

text \<open>One complete exchange of two words with the firmware: the stores of the request, a barrier, the doorbell, and at last the words
  of the answer, which answers the selector that was asked for. Nothing else is written.\<close>

definition mbx_exchange :: "u32 \<Rightarrow> u32 list \<Rightarrow> u32 \<Rightarrow> u32 list \<Rightarrow> io_event list \<Rightarrow> io_event list \<Rightarrow> bool" where
  "mbx_exchange tag data address reply t t' \<longleftrightarrow> MbxReplyIdMatches tag (data ! 0) (reply ! 0) \<and>
     (\<exists>pre wait post. t' = post @ Rd 1 (mbx_word 6) (reply ! 1) # Rd 1 (mbx_word 5) (reply ! 0) # wait @ Wr 0 TX_DATA (address OR 8) # Bar #
        mbx_stores tag data 8 @ pre @ t \<and> (\<forall>e\<in>set (post @ wait @ pre). no_write e))"

lemma transfer_exchange:
  assumes "run_state (MbxTransfer E fuel tag data 8) w = (Some (MbxOk, d), w')" "MbxReplyIdMatches tag (data ! 0) (d ! 0)"
  shows "mbx_exchange tag data (mbx_Address (st w)) d (trace w) (trace w')"
proof -
  from wpD [OF Transfer_reads assms(1)] obtain t where t: "trace w' = Rd 1 (mbx_word 6) (d ! 1) # Rd 1 (mbx_word 5) (d ! 0) # t"
    by (auto simp: answer_read_def)
  obtain sent where out: "mbx_outcome tag data 8 (st w) (Some (MbxOk, d)) sent (st w')" and calls: "mbx_calls tag data 8 w sent w'"
    using wpD [OF wp_MbxTransfer [where Q = "\<lambda>r v. \<exists>sent. mbx_outcome tag data 8 (st w) r sent (st v) \<and> mbx_calls tag data 8 w sent v"] assms(1)] by blast
  have sent by (use out in \<open>cases rule: mbx_outcome.cases\<close>) simp_all
  with calls obtain pre post where q: "\<forall>e\<in>set pre. quiet e" "\<forall>e\<in>set post. quiet e"
    and e: "trace w' = post @ Wr 0 TX_DATA (mbx_Address (st w) OR 8) # Bar # mbx_stores tag data 8 @ pre @ trace w"
    by (auto simp: mbx_calls_def)
  from t e obtain wait where w: "post = Rd 1 (mbx_word 6) (d ! 1) # Rd 1 (mbx_word 5) (d ! 0) # wait"
    by (auto simp: append_eq_Cons_conv)
  have n: "quiet e \<Longrightarrow> no_write e" for e by (cases e) auto
  show ?thesis
    unfolding mbx_exchange_def using assms(2) e q n by (intro conjI exI [of _ pre] exI [of _ wait] exI [of _ "[]"]) (auto simp: w)
qed

lemma Mbxd_exchange:
  "wp (Mbxd_Transfer E fuel tag data 8) (\<lambda>r v. \<forall>s d. r = Some (s, d) \<and> NT_SUCCESS s \<longrightarrow>
     mbx_exchange tag data (mbx_Address (mc_Transport (st w))) d (trace w) (trace v)) w"
proof -
  have ok: "NT_SUCCESS (mbx_status r) \<longleftrightarrow> r = MbxOk" for r
    by (cases r) (auto simp: mbx_status_def)
  show ?thesis
    unfolding Mbxd_Transfer_def Let_def wp_andthen
    apply (rule wp_bindI, rule wp_getsI, rule wp_ifI, simp add: wp_simps)
    apply (simp only: wp_andthen, rule wp_zoomI, rule wpI)
    by (auto simp: wp_simps ok split: option.splits dest!: transfer_exchange)
qed

lemma exchange_more: "mbx_exchange tag data a d t t' \<Longrightarrow> no_write e \<Longrightarrow> mbx_exchange tag data a d t (e # t')"
  unfolding mbx_exchange_def by (elim conjE exE, intro conjI exI [of _ "e # _"] exI) auto

lemma exchange_before: "mbx_exchange tag data a d (e # t) t' \<Longrightarrow> no_write e \<Longrightarrow> mbx_exchange tag data a d t t'"
  unfolding mbx_exchange_def
  apply (elim conjE exE)
  subgoal for pre wait post by (intro conjI exI [of _ "pre @ [e]"] exI [of _ wait] exI [of _ post]) auto
  done

text \<open>A device that is online and not at fault, before its first request, with a firmware that answers.\<close>

definition rtc_answers :: "(u32 \<Rightarrow> u32) \<Rightarrow> MBX_CONTEXT world \<Rightarrow> bool" where
  "rtc_answers resp w \<longleftrightarrow> ms_Online (mc_Stats (st w)) \<noteq> 0 \<and> ms_Owned (mc_Stats (st w)) \<noteq> 0 \<and> mbx_args_ok (mc_Transport (st w)) 0x30087 8 \<and>
     mbx_Fault (mc_Transport (st w)) = 0 \<and> mbx_Unsafe (mc_Transport (st w)) = 0 \<and> last_write (trace w) 0 TX_DATA = None \<and>
     mbx_response_ok resp 0x30087 8 \<and> MbxReplyIdMatches 0x30087 0 (resp (mbx_word 5))"

definition region_failed :: "u32 list \<Rightarrow> bool" where
  "region_failed r \<longleftrightarrow> r ! 1 = 0xffffffff \<and> region_time r = replicate 16 0"

text \<open>What a read leaves in the region: the time the firmware has just told, or nothing.\<close>

definition rtc_result :: "u32 \<Rightarrow> io_event list \<Rightarrow> io_event list \<Rightarrow> u32 list \<Rightarrow> bool" where
  "rtc_result address t t' r \<longleftrightarrow> region_failed r \<or>
     (\<exists>d. r ! 1 = 0 \<and> region_time r = MbxEpochToTime (d ! 1) \<and> mbx_exchange 0x30087 [0, 0] address d t t')"

lemma RtcRead_result:
  assumes "length (mc_Region (st w)) = 6" "mc_Region (st w) ! 1 = 0xffffffff"
  shows "wp (andthen (Region_RtcRead E fuel) (\<lambda>status. do {
             (if NT_SUCCESS status then modify (\<lambda>c. c\<lparr>mc_Region := (mc_Region c)[1 := 0]\<rparr>)
              else mc_stats (\<lambda>s. s\<lparr>ms_RtcFailures := ms_RtcFailures s + 1\<rparr>));
             Kernel_Unlock E;
             ret (Some (STATUS_SUCCESS, data))
           })) (\<lambda>r v. r = None \<or> rtc_result (mbx_Address (mc_Transport (st w))) (trace w) (trace v) (mc_Region (st v))) w"
  unfolding Region_RtcRead_def
  apply (simp add: wp_andthen wp_bind wp_modify)
  apply (rule wp_frame [OF keeps_Mbxd_Transfer [where g = mc_Region]], simp, simp)
  apply (rule wp_mono, rule Mbxd_exchange)
  using assms apply (auto simp: wp_simps keeps_def rtc_result_def region_failed_def region_time_set split: option.splits)
  by (blast intro: exchange_more no_write_simps)

lemma result_calls: "rtc_result a (Call f xs x # Call g ys y # t) t' r \<Longrightarrow> rtc_result a t t' r"
  unfolding rtc_result_def by (blast intro: exchange_before no_write_simps)

lemma Region_result:
  assumes "length (mc_Region (st w)) = 6"
  shows "wp (RegionHandler E fuel ACPI_OPREGION_WRITE 0 4 1) (\<lambda>r v. \<forall>d. r = Some (STATUS_SUCCESS, d) \<longrightarrow>
     rtc_result (mbx_Address (mc_Transport (st w))) (trace w) (trace v) (mc_Region (st v))) w"
  unfolding RegionHandler_def
  apply (rule wp_bindI, rule wp_call_any, rule wp_ifI, simp add: wp_simps, rule wp_ifI, simp add: wp_simps, rule wp_bindI, rule wp_Kernel_Lock)
  apply (rule wp_ifI, (auto simp: wp_simps)[1], rule wp_bindI, rule wp_modifyI, rule wp_bindI, rule wp_getsI, rule wp_ifI, simp)
  apply (rule wp_ifI, simp, rule wp_bindI, rule wp_modifyI)
  apply (rule wp_mono, simp only: simp_thms if_True, rule RtcRead_result)
  using assms by (auto dest: result_calls)

lemma Mbxd_answered:
  assumes "rtc_answers resp w" "0 < fuel"
  shows "wp (Mbxd_Transfer (mbx_firmware resp) fuel 0x30087 [0, 0] 8) (\<lambda>r v. \<exists>d. r = Some (STATUS_SUCCESS, d) \<and> d ! 1 = resp (mbx_word 6)) w"
proof -
  let ?u = "\<lparr>st = mc_Transport (st w), trace = trace w\<rparr>"
  obtain v where v: "run_state (MbxTransfer (mbx_firmware resp) fuel 0x30087 [0, 0] 8) ?u = (Some (MbxOk, [resp (mbx_word 5), resp (mbx_word 6)]), v)"
    using transfer_answered [OF _ _ _ _ _ assms(2) prod.collapse [symmetric], of ?u "0x30087" 8 resp "[0, 0]"] assms(1)
    by (cases "run_state (MbxTransfer (mbx_firmware resp) fuel 0x30087 [0, 0] 8) ?u") (auto simp: rtc_answers_def upt_rec)
  show ?thesis
    unfolding Mbxd_Transfer_def Let_def wp_andthen
    apply (rule wp_bindI, rule wp_getsI, rule wp_ifI)
    using assms(1) apply (simp add: rtc_answers_def)
    apply (simp only: wp_andthen, rule wp_zoomI)
    using v assms(1) by (auto simp: wp_def wp_simps mbx_status_def rtc_answers_def)
qed

lemma firmware_call: "wp (io_call (mbx_firmware resp) f xs) Q w = Q 0 (w\<lparr>trace := Call f xs 0 # trace w\<rparr>)"
  by (simp add: wp_io_call mbx_firmware_def)

lemma Region_answered:
  assumes "rtc_answers resp w" "0 < fuel" "length (mc_Region (st w)) = 6"
  shows "wp (RegionHandler (mbx_firmware resp) fuel ACPI_OPREGION_WRITE 0 4 1) (\<lambda>r v. r = Some (STATUS_SUCCESS, 1) \<and> mc_Region (st v) ! 1 = 0 \<and>
     region_time (mc_Region (st v)) = MbxEpochToTime (resp (mbx_word 6))) w"
proof -
  have go: "wp (andthen (Region_RtcRead (mbx_firmware resp) fuel) (\<lambda>status. do {
             (if NT_SUCCESS status then modify (\<lambda>c. c\<lparr>mc_Region := (mc_Region c)[1 := 0]\<rparr>)
              else mc_stats (\<lambda>s. s\<lparr>ms_RtcFailures := ms_RtcFailures s + 1\<rparr>));
             Kernel_Unlock (mbx_firmware resp);
             ret (Some (STATUS_SUCCESS, 1))
           })) (\<lambda>r v. r = Some (STATUS_SUCCESS, 1) \<and> mc_Region (st v) ! 1 = 0 \<and> region_time (mc_Region (st v)) = MbxEpochToTime (resp (mbx_word 6))) u"
    if "rtc_answers resp u" "length (mc_Region (st u)) = 6" for u
    unfolding Region_RtcRead_def
    apply (simp add: wp_andthen wp_bind wp_modify)
    apply (rule wp_frame [OF keeps_Mbxd_Transfer [where g = mc_Region]], simp, simp)
    apply (rule wp_mono, rule Mbxd_answered [OF _ assms(2)])
    using that by (auto simp: wp_simps keeps_def rtc_answers_def region_time_set)
  show ?thesis
    unfolding RegionHandler_def Kernel_Lock_def kernel_status_def
    apply (simp only: wp_bind firmware_call wp_return)
    apply (rule wp_ifI, simp, rule wp_ifI, simp)
    apply (simp only: wp_bind firmware_call wp_return, rule wp_ifI, simp)
    apply (rule wp_bindI, rule wp_modifyI, rule wp_bindI, rule wp_getsI, rule wp_ifI, simp, rule wp_ifI, simp, rule wp_bindI, rule wp_modifyI)
    apply (simp only: simp_thms if_True, rule go)
    using assms by (simp_all add: rtc_answers_def)
qed

text \<open>C12. Reading the clock through the operation region: after a write of 1 to word 0 on any hardware and any firmware, either word 1 is
  zero and the sixteen bytes behind it are a valid time that converts back to the epoch the firmware told in this very call (one complete
  get-time request was stored and one doorbell rung, nothing else was written, and the epoch is the second word read from the buffer
  in the answer), or word 1 still holds all ones and the time, with its valid byte, is zero. And the read does succeed on a device
  that is online and not at fault when the firmware answers: the time is the one of its answer.\<close>

theorem mbxd_rtc_read:
  assumes "run_state (RegionHandler E fuel ACPI_OPREGION_WRITE 0 4 1) w = (Some (STATUS_SUCCESS, d), w')"
    and "length (mc_Region (st w)) = 6"
  shows "((\<exists>told. mc_Region (st w') ! 1 = 0 \<and> mbx_time_ok (region_time (mc_Region (st w'))) \<and>
         MbxTimeToEpoch (region_time (mc_Region (st w'))) = Some (told ! 1) \<and>
         mbx_exchange 0x30087 [0, 0] (mbx_Address (mc_Transport (st w))) told (trace w) (trace w')) \<or>
       mc_Region (st w') ! 1 = 0xffffffff \<and> region_time (mc_Region (st w')) = replicate 16 0) \<and>
     (E = mbx_firmware resp \<and> 0 < fuel \<and> rtc_answers resp w \<longrightarrow>
       mc_Region (st w') ! 1 = 0 \<and> MbxTimeToEpoch (region_time (mc_Region (st w'))) = Some (resp (mbx_word 6)))"
proof (intro conjI impI)
  from wpD [OF Region_result [OF assms(2)] assms(1)]
  show "(\<exists>told. mc_Region (st w') ! 1 = 0 \<and> mbx_time_ok (region_time (mc_Region (st w'))) \<and>
         MbxTimeToEpoch (region_time (mc_Region (st w'))) = Some (told ! 1) \<and>
         mbx_exchange 0x30087 [0, 0] (mbx_Address (mc_Transport (st w))) told (trace w) (trace w')) \<or>
       mc_Region (st w') ! 1 = 0xffffffff \<and> region_time (mc_Region (st w')) = replicate 16 0"
    using time_roundtrip by (auto simp: rtc_result_def region_failed_def)
next
  assume "E = mbx_firmware resp \<and> 0 < fuel \<and> rtc_answers resp w"
  with wpD [OF Region_answered [OF _ _ assms(2)], of resp fuel _ w'] assms(1)
  show "mc_Region (st w') ! 1 = 0" "MbxTimeToEpoch (region_time (mc_Region (st w'))) = Some (resp (mbx_word 6))"
    using time_roundtrip by auto
qed

definition mbxd_rtc :: "MBX_CONTEXT world" where
  "mbxd_rtc = mbxd_online\<lparr>st := (st mbxd_online)\<lparr>mc_Region := replicate 6 0\<rparr>\<rparr>"

theorem mbxd_rtc_read_witness:
  "let v = snd (run_state (RegionHandler (mbx_firmware mbx_clock_answer) 1 ACPI_OPREGION_WRITE 0 4 1) mbxd_rtc)
   in mc_Region (st v) ! 1 = 0 \<and> MbxTimeToEpoch (region_time (mc_Region (st v))) = Some 0x65000000"
proof -
  let ?o = "run_state (RegionHandler (mbx_firmware mbx_clock_answer) 1 ACPI_OPREGION_WRITE 0 4 1) mbxd_rtc"
  have w: "rtc_answers mbx_clock_answer mbxd_rtc" "length (mc_Region (st mbxd_rtc)) = 6"
    using mbx_clock_answer_ok by (auto simp: rtc_answers_def mbxd_rtc_def mbxd_online_def mbx_example_def mbx_zero_def mbx_clock_answer_def
      MbxReplyIdMatches_def mbx_word_def)
  have "fst ?o = Some (STATUS_SUCCESS, 1)"
    using Region_answered [OF w(1) _ w(2), of 1] by (simp add: wp_def split: prod.splits)
  then have "?o = (Some (STATUS_SUCCESS, 1), snd ?o)" by (metis prod.collapse)
  from mbxd_rtc_read [OF this w(2), of mbx_clock_answer] w(1) show ?thesis
    by (simp add: Let_def mbx_clock_answer_def mbx_word_def)
qed

text \<open>C13. Teardown never releases memory the firmware may still write: with an outstanding buffer
  neither the common buffer nor its adapter is freed.\<close>

theorem mbxd_release_pins:
  assumes "mbx_Unsafe (mc_Transport (st w)) \<noteq> 0" and "run_state (Mbxd_Release E) w = (status, w')"
    and "trace w' = es @ trace w" and "Call f xs r \<in> set es"
  shows "f \<noteq> ''FreeCommonBuffer'' \<and> f \<noteq> ''PutDmaAdapter''"
proof -
  define P where "P = (\<lambda>e. \<forall>f xs r. e = Call f xs r \<longrightarrow> f \<noteq> ''FreeCommonBuffer'' \<and> f \<noteq> ''PutDmaAdapter'')"
  have "wp (Mbxd_Release E) (\<lambda>r v. extends P (trace w) (trace v)) w"
    using assms(1) unfolding Mbxd_Release_def
    by (auto simp: wp_simps P_def intro!: wp_kernel_any)
  from wpD [OF this assms(2)] have "\<forall>e\<in>set es. P e" using assms(3) by (auto simp: extends_def)
  with assms(4) show ?thesis by (auto simp: P_def)
qed

definition mbxd_outstanding :: "MBX_CONTEXT world" where
  "mbxd_outstanding = mbxd_online\<lparr>st := (st mbxd_online)\<lparr>mc_Transport := (mc_Transport (st mbxd_online))
     \<lparr>mbx_Unsafe := 1\<rparr>, mc_Adapter := 5, mc_Registers := 7\<rparr>\<rparr>"

theorem mbxd_release_pins_witness:
  "\<forall>r. Call ''FreeCommonBuffer'' [5] r \<notin>
     set (trace (snd (run_state (Mbxd_Release (regfile (\<lambda>_ _. 0) (\<lambda>_ _. 0))) mbxd_outstanding)))"
proof (intro allI notI)
  let ?w = "snd (run_state (Mbxd_Release (regfile (\<lambda>_ _. 0) (\<lambda>_ _. 0))) mbxd_outstanding)"
  fix r assume e: "Call ''FreeCommonBuffer'' [5] r \<in> set (trace ?w)"
  have "trace ?w = trace ?w @ trace mbxd_outstanding" by (simp add: mbxd_outstanding_def mbxd_online_def)
  from mbxd_release_pins [OF _ prod.collapse [symmetric] this e] show False
    by (simp add: mbxd_outstanding_def)
qed

text \<open>C11. A clock never passes from one controller to another behind the back of its owner. Whatever
  requests arrive, in any order and from anyone, the owner of a lease changes only when the owner
  itself releases it, when the owner's file is closed, which abandons the clock for good, or when a
  kernel client claims a clock that is free and was never abandoned.\<close>

theorem mbxd_lease_exclusive:
  assumes "mbxd_reachable E fuel w" and "p \<noteq> MbxdCleanup 0"
    and "run_state (mbxd_run E fuel p) w = (r, w')" and "i < 2"
    and "l = mc_Clocks (st w) ! i" and "l' = mc_Clocks (st w') ! i"
  shows "(cl_Abandoned l \<longrightarrow> cl_Abandoned l' \<and> cl_Owner l' = 0) \<and>
    (cl_Owner l = 0 \<and> cl_Owner l' \<noteq> 0 \<longrightarrow> \<not> cl_Abandoned l \<and>
       (\<exists>rq. p = MbxdControl IOCTL_MBX_CLOCK_CONTROL rq \<and> rq_KernelMode rq \<and> rq_File rq = cl_Owner l' \<and>
          cc_Operation (rq_clock rq) = MBX_CLAIM)) \<and>
    (cl_Owner l \<noteq> 0 \<and> cl_Owner l' \<noteq> cl_Owner l \<longrightarrow> cl_Owner l' = 0 \<and>
       (p = MbxdCleanup (cl_Owner l) \<and> cl_Abandoned l' \<or>
        (\<exists>rq. p = MbxdControl IOCTL_MBX_CLOCK_CONTROL rq \<and> rq_KernelMode rq \<and> rq_File rq = cl_Owner l \<and>
           cc_Operation (rq_clock rq) = MBX_RELEASE)))"
proof -
  have "leases_step p w w'" using leases_run assms(3) by (rule wpD)
  then have s: "lease_step p l l'"
    using assms(4-6) reachable_leases [OF assms(1)] by (simp add: leases_step_def)
  have a: "cl_Abandoned l \<longrightarrow> cl_Owner l = 0"
    using reachable_leases [OF assms(1)] assms(4,5) nth_mem by metis
  from s show ?thesis
    using a assms(2) by (cases rule: lease_step.cases) auto
qed

theorem mbxd_lease_exclusive_witness:
  "let w' = snd (run_state (mbxd_run (regfile (\<lambda>_ _. 0) (\<lambda>_ _. 0)) 1 (MbxdCleanup 7)) mbxd_online)
   in \<not> cl_Abandoned (mc_Clocks (st w') ! 1) \<longrightarrow> cl_Owner (mc_Clocks (st w') ! 1) = 0"
  unfolding Let_def
  using mbxd_lease_exclusive [OF mbxd_reachable.start [of mbxd_online] _ prod.collapse [symmetric],
      of "MbxdCleanup 7" 1 "mc_Clocks (st mbxd_online) ! 1"]
  by (auto simp: mbxd_online_def mc_zero_def cl_zero_def)

end
