(* ===== verification/Pm_Hardware.thy ===== *)
theory Pm_Hardware
  imports Prelude
begin

text \<open>
  The V3D reset gate of the power-management block, \<open>pi5-pm/hardware.c\<close>. Register bank 0 is the
  block; its upper byte reads as anything and must be written as the password.
\<close>

unbundle bit_operations_syntax

abbreviation PM_HW_GRAFX :: u32 where "PM_HW_GRAFX \<equiv> 0x10c"
abbreviation PM_HW_V3D :: u32 where "PM_HW_V3D \<equiv> 0x304"
abbreviation PM_HW_V3DRSTN :: u32 where "PM_HW_V3DRSTN \<equiv> 0x40"
abbreviation PM_HW_V3D_ENAB :: u32 where "PM_HW_V3D_ENAB \<equiv> 0x1000"
abbreviation PM_PASSWORD :: u32 where "PM_PASSWORD \<equiv> 0x5a000000"
abbreviation PM_DATA_MASK :: u32 where "PM_DATA_MASK \<equiv> 0x00ffffff"

record PM_HW_STATE =
  pm_LegacyParent :: u32
  pm_InitialV3d :: u32
  pm_ExpectedV3d :: u32
  pm_Transitions :: u32
  pm_Unsafe :: u32

datatype PM_HW_RESULT = PmHwOk | PmHwNotReady | PmHwFault | PmHwInvalid

definition pm_zero :: PM_HW_STATE where
  "pm_zero = \<lparr>pm_LegacyParent = 0, pm_InitialV3d = 0, pm_ExpectedV3d = 0, pm_Transitions = 0, pm_Unsafe = 0\<rparr>"

definition Pm_Read :: "env \<Rightarrow> u32 \<Rightarrow> ('s, u32) prog" where
  "Pm_Read E offset = do { v \<leftarrow> io_read E 0 offset; ret (v AND PM_DATA_MASK) }"

definition Pm_Write :: "u32 \<Rightarrow> u32 \<Rightarrow> ('s, unit) prog" where
  "Pm_Write offset v = io_write 0 offset (PM_PASSWORD OR (v AND PM_DATA_MASK))"

definition PmHwAcquire :: "env \<Rightarrow> (PM_HW_STATE, PM_HW_RESULT) prog" where
  "PmHwAcquire E = do {
     s \<leftarrow> gets id;
     if pm_Unsafe s \<noteq> 0 then ret PmHwInvalid
     else do {
       legacy \<leftarrow> Pm_Read E PM_HW_GRAFX;
       v3d \<leftarrow> Pm_Read E PM_HW_V3D;
       if v3d AND PM_HW_V3D_ENAB = 0 \<or> v3d = legacy then ret PmHwNotReady
       else do {
         v \<leftarrow> Pm_Read E PM_HW_GRAFX;
         if v \<noteq> legacy then ret PmHwNotReady
         else do {
           v \<leftarrow> Pm_Read E PM_HW_V3D;
           if v \<noteq> v3d then ret PmHwNotReady
           else do {
             modify (\<lambda>s. s\<lparr>pm_LegacyParent := legacy, pm_InitialV3d := v3d, pm_ExpectedV3d := v3d\<rparr>);
             ret PmHwOk
           }
         }
       }
     }
   }"

definition Pm_Fail :: "(PM_HW_STATE, PM_HW_RESULT) prog" where
  "Pm_Fail = do { modify (\<lambda>s. s\<lparr>pm_Unsafe := 1\<rparr>); ret PmHwFault }"

definition pm_gate :: "u32 \<Rightarrow> u32 \<Rightarrow> u32" where
  "pm_gate before release =
     (before AND NOT PM_HW_V3DRSTN) OR (if release \<noteq> 0 then PM_HW_V3DRSTN else 0)"

definition PmHwSetV3dReset :: "env \<Rightarrow> u32 \<Rightarrow> (PM_HW_STATE, PM_HW_RESULT) prog" where
  "PmHwSetV3dReset E release = do {
     s \<leftarrow> gets id;
     if pm_Unsafe s \<noteq> 0 \<or> release > 1 then ret PmHwInvalid
     else do {
       before \<leftarrow> Pm_Read E PM_HW_V3D;
       parent \<leftarrow> Pm_Read E PM_HW_GRAFX;
       if parent \<noteq> pm_LegacyParent s \<or> before \<noteq> pm_ExpectedV3d s \<or> before AND PM_HW_V3D_ENAB = 0
       then Pm_Fail
       else if (before AND PM_HW_V3DRSTN \<noteq> 0) = (release \<noteq> 0) then ret PmHwOk
       else do {
         whenM (release \<noteq> 0) (io_delay 1);
         let expected = pm_gate before release;
         Pm_Write PM_HW_V3D expected;
         after \<leftarrow> Pm_Read E PM_HW_V3D;
         if after \<noteq> expected then Pm_Fail
         else do {
           parent \<leftarrow> Pm_Read E PM_HW_GRAFX;
           if parent \<noteq> pm_LegacyParent s then Pm_Fail
           else do {
             modify (\<lambda>s. s\<lparr>pm_ExpectedV3d := after, pm_Transitions := pm_Transitions s + 1\<rparr>);
             ret PmHwOk
           }
         }
       }
     }
   }"

definition PmHwRelease :: "env \<Rightarrow> (PM_HW_STATE, PM_HW_RESULT) prog" where
  "PmHwRelease E = do {
     s \<leftarrow> gets id;
     if pm_Unsafe s \<noteq> 0 then ret PmHwInvalid
     else do {
       result \<leftarrow> PmHwSetV3dReset E (c_bool (pm_InitialV3d s AND PM_HW_V3DRSTN \<noteq> 0));
       if result \<noteq> PmHwOk then ret result
       else do {
         parent \<leftarrow> Pm_Read E PM_HW_GRAFX;
         if parent \<noteq> pm_LegacyParent s then Pm_Fail
         else do {
           v \<leftarrow> Pm_Read E PM_HW_V3D;
           if v \<noteq> pm_InitialV3d s then Pm_Fail else ret PmHwOk
         }
       }
     }
   }"

end
