(* ===== verification/Pm_Driver.thy ===== *)
theory Pm_Driver
  imports Pm_Hardware Kernel
begin

text \<open>
  The reset-gate service, \<open>pi5-pm/driver.c\<close>: one file object at a time holds the lease on the gate of
  \<open>Pm_Hardware\<close>; a lease that is lost instead of released latches \<open>BootUnsafe\<close> until the next boot.
\<close>

unbundle bit_operations_syntax

section \<open>State\<close>

abbreviation PM_BYTES :: u32 where "PM_BYTES \<equiv> 0x308"
abbreviation PM_PHYSICAL :: u64 where "PM_PHYSICAL \<equiv> 0x107d200000"

record PM_STATUS =
  ps_Online :: u32
  ps_Owner :: u32
  ps_Unsafe :: u32
  ps_ParentRaw :: u32
  ps_V3dRaw :: u32
  ps_InitialV3dRaw :: u32
  ps_ExpectedV3dRaw :: u32
  ps_GateAvailable :: u32
  ps_Transitions :: u32
  ps_Failures :: u32
  ps_LastStatus :: u32
  ps_LastOperation :: u32
  ps_ParentUntouched :: u32
  ps_RstcRaw :: u32
  ps_RstsRaw :: u32
  ps_WdogRaw :: u32
  ps_ImageRaw :: u32
  ps_HdmiRaw :: u32
  ps_UsbRaw :: u32

text \<open>The device context with the driver's global flag.\<close>

record PM_CONTEXT =
  pc_Registers :: ptr
  pc_Owner :: ptr
  pc_Hw :: PM_HW_STATE
  pc_Pinned :: bool
  pc_Status :: PM_STATUS
  pc_BootUnsafe :: u32

definition pc_zero :: PM_CONTEXT where
  "pc_zero = \<lparr>pc_Registers = 0, pc_Owner = 0, pc_Hw = pm_zero, pc_Pinned = False,
     pc_Status = \<lparr>ps_Online = 0, ps_Owner = 0, ps_Unsafe = 0, ps_ParentRaw = 0, ps_V3dRaw = 0,
       ps_InitialV3dRaw = 0, ps_ExpectedV3dRaw = 0, ps_GateAvailable = 0, ps_Transitions = 0,
       ps_Failures = 0, ps_LastStatus = 0, ps_LastOperation = 0, ps_ParentUntouched = 0, ps_RstcRaw = 0,
       ps_RstsRaw = 0, ps_WdogRaw = 0, ps_ImageRaw = 0, ps_HdmiRaw = 0, ps_UsbRaw = 0\<rparr>, pc_BootUnsafe = 0\<rparr>"

abbreviation pc_stats :: "(PM_STATUS \<Rightarrow> PM_STATUS) \<Rightarrow> (PM_CONTEXT, unit) prog" where
  "pc_stats f \<equiv> modify (\<lambda>c. c\<lparr>pc_Status := f (pc_Status c)\<rparr>)"

abbreviation on_gate :: "(PM_HW_STATE, 'a) prog \<Rightarrow> (PM_CONTEXT, 'a) prog" where
  "on_gate m \<equiv> zoom pc_Hw pc_Hw_update m"

section \<open>Status and faults\<close>

definition PmSnapshot :: "env \<Rightarrow> (PM_CONTEXT, unit) prog" where
  "PmSnapshot E = do {
     c \<leftarrow> gets id;
     (if pc_Registers c \<noteq> 0 then do {
        parent \<leftarrow> Pm_Read E PM_HW_GRAFX;
        v3d \<leftarrow> Pm_Read E PM_HW_V3D;
        rstc \<leftarrow> Pm_Read E 0x1c;
        rsts \<leftarrow> Pm_Read E 0x20;
        wdog \<leftarrow> Pm_Read E 0x24;
        image \<leftarrow> Pm_Read E 0x108;
        hdmi \<leftarrow> Pm_Read E 0x58;
        usb \<leftarrow> Pm_Read E 0x5c;
        pc_stats (\<lambda>s. s\<lparr>ps_ParentRaw := parent, ps_V3dRaw := v3d,
          ps_GateAvailable := c_bool (v3d AND PM_HW_V3D_ENAB \<noteq> 0 \<and> v3d \<noteq> parent),
          ps_RstcRaw := rstc, ps_RstsRaw := rsts, ps_WdogRaw := wdog, ps_ImageRaw := image,
          ps_HdmiRaw := hdmi, ps_UsbRaw := usb\<rparr>)
      } else pc_stats (\<lambda>s. s\<lparr>ps_GateAvailable := 0\<rparr>));
     pc_stats (\<lambda>s. s\<lparr>ps_Owner := c_bool (pc_Owner c \<noteq> 0), ps_Unsafe := c_bool (pc_BootUnsafe c \<noteq> 0),
       ps_ParentUntouched := 1, ps_InitialV3dRaw := pm_InitialV3d (pc_Hw c),
       ps_ExpectedV3dRaw := pm_ExpectedV3d (pc_Hw c), ps_Transitions := pm_Transitions (pc_Hw c)\<rparr>)
   }"

definition PmFault :: "env \<Rightarrow> NTSTATUS \<Rightarrow> u32 \<Rightarrow> (PM_CONTEXT, unit) prog" where
  "PmFault E status operation = do {
     pc_stats (\<lambda>s. s\<lparr>ps_LastStatus := status, ps_LastOperation := operation, ps_Failures := ps_Failures s + 1\<rparr>);
     modify (\<lambda>c. c\<lparr>pc_BootUnsafe := 1\<rparr>);
     pc_stats (\<lambda>s. s\<lparr>ps_Unsafe := 1\<rparr>);
     c \<leftarrow> gets id;
     whenM (\<not> pc_Pinned c) (do {
       kernel_do E ''WdfDeviceSetStaticStopRemove'' [0];
       modify (\<lambda>c. c\<lparr>pc_Pinned := True\<rparr>)
     })
   }"

definition PmResult :: "env \<Rightarrow> PM_HW_RESULT \<Rightarrow> u32 \<Rightarrow> (PM_CONTEXT, NTSTATUS) prog" where
  "PmResult E result operation = (case result of
     PmHwOk \<Rightarrow> do {
       PmSnapshot E;
       pc_stats (\<lambda>s. s\<lparr>ps_LastStatus := STATUS_SUCCESS, ps_LastOperation := operation\<rparr>);
       ret STATUS_SUCCESS
     }
   | PmHwNotReady \<Rightarrow> ret STATUS_DEVICE_NOT_READY
   | PmHwInvalid \<Rightarrow> ret STATUS_INVALID_DEVICE_STATE
   | PmHwFault \<Rightarrow> do {
       PmSnapshot E;
       PmFault E STATUS_DEVICE_HARDWARE_ERROR operation;
       ret STATUS_DEVICE_HARDWARE_ERROR
     })"

section \<open>The lease\<close>

record PM_LEASE_REQUEST =
  pl_Version :: u32
  pl_Domain :: u32
  pl_Reset :: u32
  pl_Reserved :: u32

record PM_TRANSITION =
  pt_Version :: u32
  pt_Domain :: u32
  pt_Operation :: u32
  pt_Reserved :: u32

definition pm_lease_ok :: "PM_LEASE_REQUEST \<Rightarrow> bool" where
  "pm_lease_ok q \<longleftrightarrow> pl_Version q = 1 \<and> pl_Domain q = 1 \<and> pl_Reset q = 0 \<and> pl_Reserved q = 0"

definition PmAcquire :: "env \<Rightarrow> ptr \<Rightarrow> PM_LEASE_REQUEST \<Rightarrow> (PM_CONTEXT, NTSTATUS) prog" where
  "PmAcquire E file q = do {
     c \<leftarrow> gets id;
     if \<not> pm_lease_ok q then ret STATUS_INVALID_PARAMETER
     else if pc_Registers c = 0 \<or> pc_BootUnsafe c \<noteq> 0 then ret STATUS_DEVICE_HARDWARE_ERROR
     else if pc_Owner c \<noteq> 0 then ret STATUS_DEVICE_BUSY
     else do {
       result \<leftarrow> on_gate (PmHwAcquire E);
       status \<leftarrow> PmResult E result 0;
       if \<not> NT_SUCCESS status then ret status
       else do {
         modify (\<lambda>c. c\<lparr>pc_Owner := file\<rparr>);
         kernel_do E ''WdfDeviceSetStaticStopRemove'' [0];
         modify (\<lambda>c. c\<lparr>pc_Pinned := True\<rparr>);
         PmSnapshot E;
         ret STATUS_SUCCESS
       }
     }
   }"

abbreviation Pi5PmV3dReleaseReset :: u32 where "Pi5PmV3dReleaseReset \<equiv> 1"
abbreviation Pi5PmV3dAssertReset :: u32 where "Pi5PmV3dAssertReset \<equiv> 2"
abbreviation Pi5PmV3dPulseReset :: u32 where "Pi5PmV3dPulseReset \<equiv> 3"

definition PmPulse :: "env \<Rightarrow> (PM_HW_STATE, PM_HW_RESULT) prog" where
  "PmPulse E = do {
     result \<leftarrow> PmHwSetV3dReset E 0;
     if result = PmHwOk then PmHwSetV3dReset E 1 else ret result
   }"

definition PmTransition :: "env \<Rightarrow> ptr \<Rightarrow> PM_TRANSITION \<Rightarrow> (PM_CONTEXT, NTSTATUS) prog" where
  "PmTransition E file q = do {
     c \<leftarrow> gets id;
     if pt_Version q \<noteq> 1 \<or> pt_Domain q \<noteq> 1 \<or> pt_Reserved q \<noteq> 0 then ret STATUS_INVALID_PARAMETER
     else if pc_Owner c = 0 \<or> pc_Owner c \<noteq> file then ret STATUS_ACCESS_DENIED
     else if pc_BootUnsafe c \<noteq> 0 then ret STATUS_DEVICE_HARDWARE_ERROR
     else if pt_Operation q = Pi5PmV3dReleaseReset
     then do { r \<leftarrow> on_gate (PmHwSetV3dReset E 1); PmResult E r (pt_Operation q) }
     else if pt_Operation q = Pi5PmV3dAssertReset
     then do { r \<leftarrow> on_gate (PmHwSetV3dReset E 0); PmResult E r (pt_Operation q) }
     else if pt_Operation q = Pi5PmV3dPulseReset
     then if pm_ExpectedV3d (pc_Hw c) AND PM_HW_V3DRSTN = 0 then ret STATUS_INVALID_DEVICE_STATE
       else do { r \<leftarrow> on_gate (PmPulse E); PmResult E r (pt_Operation q) }
     else ret STATUS_INVALID_PARAMETER
   }"

definition PmDropLease :: "env \<Rightarrow> ptr \<Rightarrow> (PM_CONTEXT, NTSTATUS) prog" where
  "PmDropLease E file = do {
     c \<leftarrow> gets id;
     if pc_Owner c = 0 \<or> pc_Owner c \<noteq> file then ret STATUS_ACCESS_DENIED
     else if pc_BootUnsafe c \<noteq> 0 then ret STATUS_DEVICE_HARDWARE_ERROR
     else do {
       result \<leftarrow> on_gate (PmHwRelease E);
       status \<leftarrow> PmResult E result 0;
       if \<not> NT_SUCCESS status then ret status
       else do {
         modify (\<lambda>c. c\<lparr>pc_Owner := 0\<rparr>);
         c \<leftarrow> gets id;
         whenM (pc_Pinned c) (do {
           kernel_do E ''WdfDeviceSetStaticStopRemove'' [1];
           modify (\<lambda>c. c\<lparr>pc_Pinned := False\<rparr>)
         });
         PmSnapshot E;
         ret STATUS_SUCCESS
       }
     }
   }"

section \<open>Start, stop and removal\<close>

text \<open>The resources must be one memory range, besides bookkeeping descriptors; their count and types
  are recorded in the registry first.\<close>

definition Pm_registry :: "env \<Rightarrow> (string \<times> u64 list) list \<Rightarrow> ('s, unit) prog" where
  "Pm_registry E values = do {
     status \<leftarrow> kernel_status E ''WdfDeviceOpenRegistryKey'' [];
     whenM (NT_SUCCESS status) (do {
       forM values (\<lambda>(name, v). kernel_do E name v);
       kernel_do E ''WdfRegistryClose'' []
     })
   }"

fun pm_types :: "cm_resource option list \<Rightarrow> u32" where
  "pm_types [] = 0"
| "pm_types (None # rs) = pm_types rs"
| "pm_types (Some r # rs) = (if cm_type r < 32 then set_bit (unat (cm_type r)) (pm_types rs) else pm_types rs)"

fun pm_memory :: "cm_resource option list \<Rightarrow> (u64 \<times> u32) option \<Rightarrow> (u64 \<times> u32) option option" where
  "pm_memory [] memory = Some memory"
| "pm_memory (r # rs) memory = (case r of
     None \<Rightarrow> None
   | Some CmNull \<Rightarrow> pm_memory rs memory
   | Some CmDevicePrivate \<Rightarrow> pm_memory rs memory
   | Some (CmMemory start bytes) \<Rightarrow> (if memory \<noteq> None then None else pm_memory rs (Some (start, bytes)))
   | _ \<Rightarrow> None)"

definition PmPrepare :: "env \<Rightarrow> cm_resource option list \<Rightarrow> (PM_CONTEXT, NTSTATUS) prog" where
  "PmPrepare E rs = do {
     c \<leftarrow> gets id;
     if pc_BootUnsafe c \<noteq> 0 then ret STATUS_DEVICE_HARDWARE_ERROR
     else do {
       Pm_registry E [(''PmResourceCount'', [of_nat (length rs)]), (''PmResourceTypes'', [ucast (pm_types rs)])];
       case pm_memory rs None of
         None \<Rightarrow> ret STATUS_DEVICE_CONFIGURATION_ERROR
       | Some None \<Rightarrow> ret STATUS_DEVICE_CONFIGURATION_ERROR
       | Some (Some (start, bytes)) \<Rightarrow> do {
           Pm_registry E [(''PmMemoryResource'', [start, ucast bytes])];
           if bytes \<noteq> PM_BYTES \<or> start \<noteq> PM_PHYSICAL then ret STATUS_DEVICE_CONFIGURATION_ERROR
           else do {
             p \<leftarrow> io_call E ''MmMapIoSpaceEx'' [start, ucast PM_BYTES, PAGE_READWRITE OR PAGE_NOCACHE];
             modify (\<lambda>c. c\<lparr>pc_Registers := p\<rparr>);
             if p = 0 then ret STATUS_INSUFFICIENT_RESOURCES
             else do { PmSnapshot E; ret STATUS_SUCCESS }
           }
         }
     }
   }"

definition Pm_lost :: "env \<Rightarrow> (PM_CONTEXT, unit) prog" where
  "Pm_lost E = do { PmSnapshot E; PmFault E STATUS_DEVICE_BUSY 0 }"

definition PmReleaseHardware :: "env \<Rightarrow> (PM_CONTEXT, NTSTATUS) prog" where
  "PmReleaseHardware E = do {
     Kernel_Lock_forever E;
     owner \<leftarrow> gets pc_Owner;
     whenM (owner \<noteq> 0) (Pm_lost E);
     pc_stats (\<lambda>s. s\<lparr>ps_Online := 0\<rparr>);
     registers \<leftarrow> gets pc_Registers;
     whenM (registers \<noteq> 0) (do {
       kernel_do E ''MmUnmapIoSpace'' [registers, ucast PM_BYTES];
       modify (\<lambda>c. c\<lparr>pc_Registers := 0\<rparr>)
     });
     Kernel_Unlock E;
     ret STATUS_SUCCESS
   }"

definition PmQueryStop :: "env \<Rightarrow> (PM_CONTEXT, NTSTATUS) prog" where
  "PmQueryStop E = do {
     Kernel_Lock_forever E;
     c \<leftarrow> gets id;
     Kernel_Unlock E;
     ret (if pc_Owner c \<noteq> 0 \<or> pc_BootUnsafe c \<noteq> 0 then STATUS_DEVICE_BUSY else STATUS_SUCCESS)
   }"

definition PmFileCleanup :: "env \<Rightarrow> ptr \<Rightarrow> (PM_CONTEXT, unit) prog" where
  "PmFileCleanup E file = do {
     Kernel_Lock_forever E;
     c \<leftarrow> gets id;
     whenM (pc_Owner c = file) (do {
       whenM (pc_Registers c \<noteq> 0) (PmSnapshot E);
       PmFault E STATUS_DEVICE_HARDWARE_ERROR 0;
       modify (\<lambda>c. c\<lparr>pc_Owner := 0\<rparr>);
       pc_stats (\<lambda>s. s\<lparr>ps_Owner := 0\<rparr>)
     });
     Kernel_Unlock E
   }"

definition PmD0Entry :: "env \<Rightarrow> (PM_CONTEXT, NTSTATUS) prog" where
  "PmD0Entry E = do {
     Kernel_Lock_forever E;
     c \<leftarrow> gets id;
     pc_stats (\<lambda>s. s\<lparr>ps_Online := c_bool (pc_Registers c \<noteq> 0 \<and> pc_BootUnsafe c = 0)\<rparr>);
     whenM (pc_Registers c \<noteq> 0) (PmSnapshot E);
     Kernel_Unlock E;
     ret (if pc_BootUnsafe c \<noteq> 0 then STATUS_DEVICE_HARDWARE_ERROR else STATUS_SUCCESS)
   }"

definition PmD0Exit :: "env \<Rightarrow> (PM_CONTEXT, NTSTATUS) prog" where
  "PmD0Exit E = do {
     Kernel_Lock_forever E;
     pc_stats (\<lambda>s. s\<lparr>ps_Online := 0\<rparr>);
     owner \<leftarrow> gets pc_Owner;
     whenM (owner \<noteq> 0) (Pm_lost E);
     Kernel_Unlock E;
     ret (if owner \<noteq> 0 then STATUS_DEVICE_BUSY else STATUS_SUCCESS)
   }"

section \<open>Requests\<close>

datatype pm_ioctl = PM_QUERY | PM_ACQUIRE | PM_TRANSITION | PM_RELEASE | PM_OTHER

text \<open>What a request carries: buffer lengths, requestor mode, file object and, by its code, a lease
  request or a transition.\<close>

record pm_request_in =
  pq_Input :: u64
  pq_Output :: u64
  pq_KernelMode :: bool
  pq_File :: ptr
  pq_Lease :: PM_LEASE_REQUEST
  pq_Transition :: PM_TRANSITION

text \<open>The request under the lock, on a device that is online.\<close>

definition PmDispatch :: "env \<Rightarrow> pm_ioctl \<Rightarrow> pm_request_in \<Rightarrow> (PM_CONTEXT, NTSTATUS \<times> PM_STATUS option) prog" where
  "PmDispatch E code rq =
     (if code = PM_QUERY then do {
        status \<leftarrow> kernel_status E ''WdfRequestRetrieveOutputBuffer'' [88];
        if NT_SUCCESS status then do { PmSnapshot E; s \<leftarrow> gets pc_Status; ret (status, Some s) }
        else ret (status, None)
      }
      else if \<not> pq_KernelMode rq \<or> pq_File rq = 0 then ret (STATUS_ACCESS_DENIED, None)
      else if code = PM_OTHER then ret (STATUS_INVALID_DEVICE_REQUEST, None)
      else do {
        status \<leftarrow> kernel_status E ''WdfRequestRetrieveInputBuffer'' [16];
        status \<leftarrow> (if \<not> NT_SUCCESS status then ret status
          else if code = PM_ACQUIRE then PmAcquire E (pq_File rq) (pq_Lease rq)
          else if code = PM_TRANSITION then PmTransition E (pq_File rq) (pq_Transition rq)
          else if \<not> pm_lease_ok (pq_Lease rq) then ret STATUS_INVALID_PARAMETER
          else PmDropLease E (pq_File rq));
        ret (status, None)
      })"

definition PmControl :: "env \<Rightarrow> pm_ioctl \<Rightarrow> pm_request_in \<Rightarrow> (PM_CONTEXT, NTSTATUS \<times> PM_STATUS option) prog" where
  "PmControl E code rq =
     (if (code = PM_QUERY \<and> pq_Input rq \<noteq> 0) \<or>
         (code \<in> {PM_RELEASE, PM_ACQUIRE, PM_TRANSITION} \<and> (pq_Input rq \<noteq> 16 \<or> pq_Output rq \<noteq> 0))
      then ret (STATUS_INVALID_PARAMETER, None)
      else do {
        status \<leftarrow> Kernel_Lock E;
        if \<not> NT_SUCCESS status then ret (status, None)
        else do {
          c \<leftarrow> gets id;
          (status, reply) \<leftarrow> (if pc_Registers c = 0 \<or> ps_Online (pc_Status c) = 0
            then ret (STATUS_DEVICE_NOT_READY, None) else PmDispatch E code rq);
          Kernel_Unlock E;
          ret (status, reply)
        }
      })"

section \<open>What the gate operations write\<close>

text \<open>The gate register without its reset bit, and a write that changes nothing but the reset bit.\<close>

definition gate_rest :: "u32 \<Rightarrow> u32" where
  "gate_rest x = x AND NOT PM_HW_V3DRSTN"

definition gate_write :: "u32 \<Rightarrow> io_event \<Rightarrow> bool" where
  "gate_write x e \<longleftrightarrow> quiet e \<or> (\<exists>v. e = Wr 0 PM_HW_V3D v \<and> gate_rest v = PM_PASSWORD OR gate_rest x)"

lemma wp_Pm_Read:
  "(\<And>v. Q (v AND PM_DATA_MASK) (w\<lparr>trace := Rd 0 off v # trace w\<rparr>)) \<Longrightarrow> wp (Pm_Read E off) Q w"
  unfolding Pm_Read_def by (intro wp_intros) simp

lemma gate_value:
  shows "gate_rest (pm_gate b r) = gate_rest b"
    and "b = v AND PM_DATA_MASK \<Longrightarrow> pm_gate b r AND PM_DATA_MASK = pm_gate b r"
    and "gate_rest (PM_PASSWORD OR x) = PM_PASSWORD OR gate_rest x"
proof -
  show "gate_rest (pm_gate b r) = gate_rest b"
    by (simp add: gate_rest_def pm_gate_def bit.conj_disj_distrib2 and.assoc)
  show "gate_rest (PM_PASSWORD OR x) = PM_PASSWORD OR gate_rest x"
    by (simp add: gate_rest_def bit.conj_disj_distrib2)
  have idem: "((v AND m) AND n) AND m = (v AND m) AND n" for v m n :: u32
    by (rule bit_eqI) (auto simp: bit_and_iff)
  show "b = v AND PM_DATA_MASK \<Longrightarrow> pm_gate b r AND PM_DATA_MASK = pm_gate b r"
    unfolding pm_gate_def by (subst bit.conj_disj_distrib2, simp only: idem) simp
qed

lemma gate_masked:
  assumes "v AND PM_DATA_MASK = x"
  shows "gate_rest (pm_gate x r AND PM_DATA_MASK) = gate_rest x"
  unfolding gate_value(2) [OF assms [symmetric]] by (rule gate_value(1))

lemma wp_SetV3dReset:
  "wp (PmHwSetV3dReset E r) (\<lambda>res v. trace_ext (gate_write (pm_ExpectedV3d (st w))) w v \<and>
     (res = PmHwOk \<longrightarrow> gate_rest (pm_ExpectedV3d (st v)) = gate_rest (pm_ExpectedV3d (st w))) \<and>
     pm_InitialV3d (st v) = pm_InitialV3d (st w)) w"
  unfolding PmHwSetV3dReset_def Pm_Fail_def Pm_Write_def
  by (intro wp_intros wp_Pm_Read)
     (auto simp: trace_ext_def gate_write_def gate_value gate_masked intro!: extends_Cons)

lemma gate_write_trans:
  "trace_ext (gate_write x) u v \<Longrightarrow> trace_ext (gate_write y) v w \<Longrightarrow> gate_rest y = gate_rest x \<Longrightarrow>
   trace_ext (gate_write x) u w"
  by (erule ext.frame_trans) (auto simp: gate_write_def elim!: trace_ext_mono)

lemma quietly_Pm_Read: "preserves quietly (Pm_Read E off)"
  unfolding Pm_Read_def by (intro quietly_intros)

lemma quiet_gate: "trace_ext quiet w v \<Longrightarrow> trace_ext (gate_write x) w v"
  by (erule trace_ext_mono) (simp add: gate_write_def)

lemma wp_HwAcquire:
  "wp (PmHwAcquire E) (\<lambda>res v. trace_ext quiet w v \<and> (res \<noteq> PmHwOk \<longrightarrow> st v = st w)) w"
  unfolding PmHwAcquire_def
  by (intro wp_intros wp_Pm_Read) (auto simp: trace_ext_def intro!: extends_Cons)

lemma wp_HwRelease:
  "wp (PmHwRelease E) (\<lambda>res v. trace_ext (gate_write (pm_ExpectedV3d (st w))) w v) w"
  unfolding PmHwRelease_def
  apply (intro wp_bindI wp_getsI wp_ifI wp_returnI)
  apply (simp add: ext.frame_refl)
  apply (rule wp_mono [OF wp_SetV3dReset])
  by (auto simp: Pm_Fail_def trace_ext_def gate_write_def intro!: wp_intros wp_Pm_Read extends_Cons)

lemma wp_Pulse:
  "wp (PmPulse E) (\<lambda>res v. trace_ext (gate_write (pm_ExpectedV3d (st w))) w v) w"
  unfolding PmPulse_def
  apply (intro wp_bindI)
  apply (rule wp_mono [OF wp_SetV3dReset])
  apply (intro wp_ifI wp_returnI)
  apply (rule wp_mono [OF wp_SetV3dReset])
  by (auto intro: gate_write_trans)

section \<open>The operations of the service\<close>

datatype pm_op = PmOpPrepare "cm_resource option list" | PmOpD0Entry | PmOpD0Exit | PmOpRelease | PmOpQueryStop
  | PmOpCleanup ptr | PmOpControl pm_ioctl pm_request_in

fun pm_run :: "env \<Rightarrow> pm_op \<Rightarrow> (PM_CONTEXT, NTSTATUS) prog" where
  "pm_run E (PmOpPrepare rs) = PmPrepare E rs"
| "pm_run E PmOpD0Entry = PmD0Entry E"
| "pm_run E PmOpD0Exit = PmD0Exit E"
| "pm_run E PmOpRelease = PmReleaseHardware E"
| "pm_run E PmOpQueryStop = PmQueryStop E"
| "pm_run E (PmOpCleanup f) = do { PmFileCleanup E f; ret STATUS_SUCCESS }"
| "pm_run E (PmOpControl code rq) = do { (status, s) \<leftarrow> PmControl E code rq; ret status }"

lemma nw_Snapshot: "preserves (trace_ext no_write) (PmSnapshot E)"
  unfolding PmSnapshot_def Pm_Read_def by (auto intro!: ext_intros)

lemma nw_Fault: "preserves (trace_ext no_write) (PmFault E status op)"
  unfolding PmFault_def by (auto intro!: ext_intros ext_kernel)

lemma nw_Result: "preserves (trace_ext no_write) (PmResult E r op)"
  unfolding PmResult_def by (cases r) (auto intro!: ext_intros nw_Snapshot nw_Fault)

lemma nw_Acquire_hw: "preserves (trace_ext no_write) (PmHwAcquire E)"
  unfolding PmHwAcquire_def Pm_Read_def by (auto intro!: ext_intros)

lemma nw_Lock: "preserves (trace_ext no_write) (Kernel_Lock E)"
  unfolding Kernel_Lock_def by (auto intro!: ext_intros ext_kernel)

lemmas nw = ext_intros ext_kernel nw_Snapshot nw_Fault nw_Result nw_Acquire_hw nw_Lock

lemma nw_Acquire: "preserves (trace_ext no_write) (PmAcquire E f q)"
  unfolding PmAcquire_def by (auto intro!: nw)

lemma nw_Prepare: "preserves (trace_ext no_write) (PmPrepare E rs)"
  unfolding PmPrepare_def Pm_registry_def by (auto intro!: nw split: option.splits)

lemma nw_power:
  "preserves (trace_ext no_write) (PmD0Entry E)" "preserves (trace_ext no_write) (PmD0Exit E)"
  "preserves (trace_ext no_write) (PmReleaseHardware E)" "preserves (trace_ext no_write) (PmQueryStop E)"
  "preserves (trace_ext no_write) (PmFileCleanup E f)"
  unfolding PmD0Entry_def PmD0Exit_def PmReleaseHardware_def PmQueryStop_def PmFileCleanup_def Pm_lost_def
  by (auto intro!: nw)

section \<open>Who may write the gate\<close>

definition gate_only :: "u32 \<Rightarrow> io_event \<Rightarrow> bool" where
  "gate_only x e \<longleftrightarrow> no_write e \<or> (\<exists>v. e = Wr 0 PM_HW_V3D v \<and> gate_rest v = PM_PASSWORD OR gate_rest x)"

lemma gate_only_mono:
  "extends no_write w v \<Longrightarrow> extends (gate_only x) w v"
  "extends (gate_write x) w v \<Longrightarrow> extends (gate_only x) w v"
  by (erule extends_mono, auto simp: gate_only_def gate_write_def dest: quiet_no_write)+

lemma wp_on_gate:
  assumes "\<And>w. wp m (\<lambda>r v. trace_ext (gate_write (pm_ExpectedV3d (st w))) w v) w"
    and "\<And>r v. trace_ext (gate_only (pm_ExpectedV3d (pc_Hw (st w)))) w v \<Longrightarrow> Q r v"
  shows "wp (on_gate m) Q w"
  unfolding wp_zoom
  by (rule wp_mono [OF assms(1)], rule assms(2)) (simp add: trace_ext_def gate_only_mono(2))

text \<open>A program that writes nothing, behind one that may write the gate.\<close>

lemma wp_nw:
  "preserves (trace_ext no_write) m \<Longrightarrow> trace_ext (gate_only x) u w \<Longrightarrow> wp m (\<lambda>_ v. trace_ext (gate_only x) u v) w"
  by (rule wpI, drule (1) preservesD) (auto simp: trace_ext_def dest: gate_only_mono(1) intro: extends_trans)

lemma wp_reset_gate: "wp (PmHwSetV3dReset E r) (\<lambda>res v. trace_ext (gate_write (pm_ExpectedV3d (st w))) w v) w"
  by (rule wp_mono [OF wp_SetV3dReset]) simp

lemmas gate_wps = wp_on_gate [OF wp_reset_gate] wp_on_gate [OF wp_Pulse] wp_on_gate [OF wp_HwRelease]

lemma wp_PmTransition:
  "wp (PmTransition E f q) (\<lambda>r v. trace_ext (gate_only (pm_ExpectedV3d (pc_Hw (st w)))) w v) w"
  unfolding PmTransition_def
  by (intro wp_bindI wp_getsI wp_ifI wp_returnI gate_wps wp_nw nw_Result) (simp_all add: ext.frame_refl)

lemma wp_PmDropLease:
  "wp (PmDropLease E f) (\<lambda>r v. trace_ext (gate_only (pm_ExpectedV3d (pc_Hw (st w)))) w v) w"
  unfolding PmDropLease_def
  apply (intro wp_bindI wp_getsI wp_ifI wp_returnI gate_wps)
  apply (simp_all add: ext.frame_refl)[2]
  apply (rule wp_nw [OF nw_Result, THEN wp_mono], assumption)
  apply (rule wp_nw, auto intro!: nw)
  done

definition pm_authorised :: "PM_CONTEXT \<Rightarrow> pm_ioctl \<Rightarrow> pm_request_in \<Rightarrow> bool" where
  "pm_authorised c code rq \<longleftrightarrow> code \<in> {PM_TRANSITION, PM_RELEASE} \<and> pq_KernelMode rq \<and>
     pc_Owner c \<noteq> 0 \<and> pq_File rq = pc_Owner c \<and> pc_BootUnsafe c = 0 \<and> ps_Online (pc_Status c) \<noteq> 0"

lemma pm_denied:
  assumes "\<not> (pc_Owner (st w) \<noteq> 0 \<and> f = pc_Owner (st w) \<and> pc_BootUnsafe (st w) = 0)"
    and "\<And>r. Q r w"
  shows "wp (PmTransition E f q) Q w" and "wp (PmDropLease E f) Q w"
  unfolding PmTransition_def PmDropLease_def
  by (use assms in \<open>auto intro!: wp_bindI wp_getsI wp_ifI wp_returnI\<close>)

lemma nw_Dispatch:
  assumes "\<not> pm_authorised (st w) code rq" and "ps_Online (pc_Status (st w)) \<noteq> 0"
  shows "wp (PmDispatch E code rq) (\<lambda>r v. trace_ext no_write w v) w"
proof -
  have go: "wp m Q v" if "preserves (trace_ext no_write) m" "trace_ext no_write w v"
      "\<And>r u. trace_ext no_write w u \<Longrightarrow> Q r u" for m :: "(PM_CONTEXT, 'a) prog" and Q v
    using that by (intro wpI) (blast dest: preservesD intro: ext.frame_trans)
  have one: "trace_ext no_write w (w\<lparr>trace := Call f xs y # trace w\<rparr>)" for f xs y
    by (auto simp: trace_ext_def)
  show ?thesis
    using assms unfolding PmDispatch_def pm_authorised_def
    apply (intro wp_bindI wp_getsI wp_ifI wp_returnI wp_kernel_any)
    apply (auto simp: ext.frame_refl one intro!: go [OF nw_Snapshot one] go [OF nw_Acquire one] wp_bindI wp_getsI wp_returnI)
    apply ((rule pm_denied; cases code; auto intro!: one wp_returnI)+)
    done
qed

lemma gate_Dispatch:
  "wp (PmDispatch E code rq) (\<lambda>r v. trace_ext (gate_only (pm_ExpectedV3d (pc_Hw (st w)))) w v) w"
proof -
  have one: "trace_ext (gate_only x) w (w\<lparr>trace := Call f xs y # trace w\<rparr>)" for f xs y x and w :: "PM_CONTEXT world"
    by (auto simp: trace_ext_def gate_only_def)
  have tr: "wp m Q v" if "wp m (\<lambda>r u. trace_ext (gate_only x) v u) v"
    and "trace_ext (gate_only x) w v" and "\<And>r u. trace_ext (gate_only x) w u \<Longrightarrow> Q r u"
    for m :: "(PM_CONTEXT, 'a) prog" and v x Q
    using that by (elim wp_mono) (blast intro: ext.frame_trans)
  note T = wp_PmTransition [where w = "w\<lparr>trace := Call f xs y # trace w\<rparr>" for f xs y, simplified]
  note L = wp_PmDropLease [where w = "w\<lparr>trace := Call f xs y # trace w\<rparr>" for f xs y, simplified]
  show ?thesis
    unfolding PmDispatch_def
    by (intro wp_bindI wp_getsI wp_ifI wp_returnI wp_kernel_any)
      (auto simp: ext.frame_refl one intro!: wp_bindI wp_getsI wp_returnI tr [OF wp_nw [OF nw_Snapshot ext.frame_refl] one]
        tr [OF wp_nw [OF nw_Acquire ext.frame_refl] one] tr [OF T one] tr [OF L one])
qed

lemma control_ext:
  assumes call: "\<And>f xs y. P (Call f xs y)"
    and D: "\<And>u. st u = st w \<Longrightarrow> ps_Online (pc_Status (st w)) \<noteq> 0 \<Longrightarrow>
      wp (PmDispatch E code rq) (\<lambda>r v. trace_ext P u v) u"
  shows "wp (PmControl E code rq) (\<lambda>_ v. trace_ext P w v) w"
proof -
  have D': "wp (PmDispatch E code rq) Q u"
    if "st u = st w" "ps_Online (pc_Status (st w)) \<noteq> 0" "trace_ext P w u" "\<And>r v. trace_ext P w v \<Longrightarrow> Q r v" for u Q
    using D [OF that(1,2)] that(3,4) by (elim wp_mono) (blast intro: ext.frame_trans)
  show ?thesis
    unfolding PmControl_def
    by (intro wp_bindI wp_getsI wp_ifI wp_returnI wp_case_prodI kernel_any D' wp_kernel_doI)
      (auto simp: trace_ext_def call)
qed

text \<open>C17. Whatever operation the service runs, in any state and on any hardware, a register is written only for
  a reset or release request from kernel mode by the file that holds the lease, on an online device without a
  latched fault; then the one register written is the V3D gate, with the password, and every bit of the gate but
  the reset bit keeps the value the lease expects.\<close>

theorem pm_write_authority:
  "trace_ext (\<lambda>e. no_write e \<or>
       (\<exists>code rq v. p = PmOpControl code rq \<and> pm_authorised (st w) code rq \<and> e = Wr 0 PM_HW_V3D v \<and>
          v AND NOT PM_HW_V3DRSTN = PM_PASSWORD OR (pm_ExpectedV3d (pc_Hw (st w)) AND NOT PM_HW_V3DRSTN)))
     w (snd (run_state (pm_run E p) w))"
  (is "trace_ext ?P w _")
proof -
  have quiet: "trace_ext ?P w v" if "trace_ext no_write w v" for v
    using that by (rule trace_ext_mono) simp
  have writes_none: "trace_ext ?P w (snd (run_state m w))" if "preserves (trace_ext no_write) m" for m :: "(PM_CONTEXT, NTSTATUS) prog"
    using that by (intro quiet) (simp add: preserves_def)
  show ?thesis
  proof (cases p)
    case (PmOpControl code rq)
    have Q: "wp (PmDispatch E code rq) (\<lambda>r v. trace_ext ?P u v) u" if "st u = st w" "ps_Online (pc_Status (st w)) \<noteq> 0" for u
    proof (cases "pm_authorised (st w) code rq")
      case True
      then show ?thesis
        by (intro wp_mono [OF gate_Dispatch])
          (erule trace_ext_mono, auto simp: gate_only_def gate_rest_def that PmOpControl)
    next
      case False
      with that show ?thesis
        by (intro wp_mono [OF nw_Dispatch]) (auto elim!: trace_ext_mono)
    qed
    have "wp (PmControl E code rq) (\<lambda>_ v. trace_ext ?P w v) w"
      by (rule control_ext) (simp, rule Q)
    then have "wp (pm_run E p) (\<lambda>_ v. trace_ext ?P w v) w"
      unfolding PmOpControl pm_run.simps
      by (intro wp_bindI) (erule wp_mono, simp add: wp_simps split_def)
    then show ?thesis by (simp add: wp_def split_beta)
  qed (rule writes_none; auto intro!: nw nw_power nw_Prepare)+
qed

section \<open>A lease on working hardware\<close>

definition pm_reg :: "(u32 \<Rightarrow> u32 \<Rightarrow> u32) \<Rightarrow> io_event list \<Rightarrow> u32 \<Rightarrow> u32" where
  "pm_reg init t off = regs init t 0 off AND PM_DATA_MASK"

lemma pm_reg_simps [simp]:
  "pm_reg init (Rd u o1 v # t) off = pm_reg init t off"
  "pm_reg init (Call f xs y # t) off = pm_reg init t off"
  "pm_reg init (Dly n # t) off = pm_reg init t off"
  "pm_reg init (Wr 0 o1 v # t) off = (if off = o1 then v AND PM_DATA_MASK else pm_reg init t off)"
  by (simp_all add: pm_reg_def)

lemma pm_reg_nw: "trace_ext no_write w v \<Longrightarrow> pm_reg init (trace v) off = pm_reg init (trace w) off"
  unfolding pm_reg_def by (subst regs_cong [OF trace_ext_last_write]) auto

lemma pm_reg_masked [simp]: "pm_reg init t off AND PM_DATA_MASK = pm_reg init t off"
  unfolding pm_reg_def by (rule bit_eqI) (auto simp: bit_and_iff)

lemma password_masked: "(PM_PASSWORD OR x AND PM_DATA_MASK) AND PM_DATA_MASK = x AND PM_DATA_MASK"
  by (simp add: bit.conj_disj_distrib2 and.assoc)

lemma wp_Pm_Read_reg:
  "Q (pm_reg init (trace w) off) (w\<lparr>trace := Rd 0 off (regs init (trace w) 0 off) # trace w\<rparr>) \<Longrightarrow>
   wp (Pm_Read (regfile init calls) off) Q w"
  by (simp add: Pm_Read_def wp_simps wp_io_read pm_reg_def)

definition gate_ok :: "(u32 \<Rightarrow> u32 \<Rightarrow> u32) \<Rightarrow> PM_HW_STATE \<Rightarrow> io_event list \<Rightarrow> bool" where
  "gate_ok init h t \<longleftrightarrow> pm_Unsafe h = 0 \<and> pm_ExpectedV3d h = pm_reg init t PM_HW_V3D \<and>
     pm_LegacyParent h = pm_reg init t PM_HW_GRAFX \<and> gate_rest (pm_ExpectedV3d h) = gate_rest (pm_InitialV3d h) \<and>
     pm_ExpectedV3d h AND PM_HW_V3D_ENAB \<noteq> 0"

lemma gate_enab: "gate_rest x = gate_rest y \<Longrightarrow> x AND PM_HW_V3D_ENAB = y AND PM_HW_V3D_ENAB"
proof -
  have "x AND PM_HW_V3D_ENAB = gate_rest x AND PM_HW_V3D_ENAB" for x
    by (simp add: gate_rest_def and.assoc)
  then show "gate_rest x = gate_rest y \<Longrightarrow> x AND PM_HW_V3D_ENAB = y AND PM_HW_V3D_ENAB" by metis
qed

lemma gate_bits:
  assumes "gate_rest x = gate_rest y" "(x AND PM_HW_V3DRSTN \<noteq> 0) = (y AND PM_HW_V3DRSTN \<noteq> 0)"
  shows "x = y"
proof -
  have "bit ((2::u32) ^ 6) n \<longleftrightarrow> n = 6" for n by (auto simp: bit_exp_iff simp del: power_numeral)
  then have r: "bit PM_HW_V3DRSTN n \<longleftrightarrow> n = 6" for n by simp
  have z: "z AND PM_HW_V3DRSTN \<noteq> 0 \<longleftrightarrow> bit z 6" for z :: u32
    unfolding bit_eq_iff [of "z AND PM_HW_V3DRSTN" 0] bit_and_iff r by simp
  have "bit x n = bit y n" if "n < 32" for n
  proof (cases "n = 6")
    case False
    have g: "bit (gate_rest z) n \<longleftrightarrow> bit z n" for z
      unfolding gate_rest_def bit_and_iff bit_not_iff r using that False by simp
    from assms(1) have "bit (gate_rest x) n = bit (gate_rest y) n" by simp
    then show ?thesis unfolding g .
  next
    case True
    then show ?thesis using assms(2) unfolding z by simp
  qed
  then show ?thesis by (intro bit_word_eqI) simp
qed

lemma reset_bit: "(pm_gate x r AND PM_HW_V3DRSTN \<noteq> 0) = (r \<noteq> 0)"
  by (simp add: pm_gate_def bit.conj_disj_distrib2 and.assoc)

lemma reg_SetV3dReset:
  assumes "gate_ok init (st w) (trace w)" "r \<le> 1"
    and "\<And>v. gate_ok init (st v) (trace v) \<Longrightarrow> (pm_ExpectedV3d (st v) AND PM_HW_V3DRSTN \<noteq> 0) = (r \<noteq> 0) \<Longrightarrow>
      pm_InitialV3d (st v) = pm_InitialV3d (st w) \<Longrightarrow> pm_reg init (trace v) PM_HW_GRAFX = pm_reg init (trace w) PM_HW_GRAFX \<Longrightarrow>
      Q PmHwOk v"
  shows "wp (PmHwSetV3dReset (regfile init calls) r) Q w"
proof -
  obtain x p where x: "pm_reg init (trace w) PM_HW_V3D = x" "pm_ExpectedV3d (st w) = x"
      "pm_reg init (trace w) PM_HW_GRAFX = p" "pm_LegacyParent (st w) = p"
      "pm_Unsafe (st w) = 0" "gate_rest (pm_InitialV3d (st w)) = gate_rest x" "x AND PM_HW_V3D_ENAB \<noteq> 0"
    using assms(1) by (auto simp: gate_ok_def)
  have "x AND PM_DATA_MASK = x" unfolding x(1) [symmetric] by simp
  then have m: "pm_gate x r AND PM_DATA_MASK = pm_gate x r" for r by (intro gate_value(2) [where v = x]) simp
  then have pw: "(PM_PASSWORD OR pm_gate x r) AND PM_DATA_MASK = pm_gate x r" for r
    using password_masked [of "pm_gate x r"] by simp
  have e: "pm_gate x r AND PM_HW_V3D_ENAB = x AND PM_HW_V3D_ENAB"
    by (rule gate_enab [OF gate_value(1)])
  have ok: "gate_ok init (st v) (trace v)" if "pm_ExpectedV3d (st v) = pm_reg init (trace v) PM_HW_V3D" "pm_reg init (trace v) PM_HW_V3D = x \<or> pm_reg init (trace v) PM_HW_V3D = pm_gate x r"
      "pm_reg init (trace v) PM_HW_GRAFX = p" "pm_LegacyParent (st v) = p" "pm_InitialV3d (st v) = pm_InitialV3d (st w)" "pm_Unsafe (st v) = 0" for v
    using that x e by (auto simp: gate_ok_def gate_value)
  show ?thesis
    unfolding PmHwSetV3dReset_def Pm_Fail_def Pm_Write_def
    apply (intro wp_intros wp_Pm_Read_reg)
    apply (use assms(2) in \<open>simp_all add: x m pw\<close>)
    apply (rule assms(3), rule ok; simp add: x m pw e gate_value reset_bit)
    apply (rule assms(3), rule ok; simp add: x m pw e gate_value reset_bit)+
    done
qed
lemma reg_HwRelease:
  assumes "gate_ok init (st w) (trace w)"
    and "\<And>v. pm_reg init (trace v) PM_HW_V3D = pm_InitialV3d (st w) \<Longrightarrow>
      pm_reg init (trace v) PM_HW_GRAFX = pm_reg init (trace w) PM_HW_GRAFX \<Longrightarrow> Q PmHwOk v"
  shows "wp (PmHwRelease (regfile init calls)) Q w"
proof -
  have c: "c_bool b \<le> 1" "(c_bool b \<noteq> 0) = b" for b by (cases b; simp)+
  show ?thesis
    unfolding PmHwRelease_def
    apply (intro wp_bindI wp_getsI wp_ifI wp_returnI)
    subgoal using assms(1) by (simp add: gate_ok_def)
    apply (rule reg_SetV3dReset [OF assms(1) c(1)])
    apply (simp add: c(2))
    subgoal for v
      using gate_bits [of "pm_ExpectedV3d (st v)" "pm_InitialV3d (st w)"] assms(1)
      by (intro wp_bindI wp_getsI wp_ifI wp_returnI wp_Pm_Read_reg) (auto simp: gate_ok_def intro!: assms(2))
    done
qed

lemma reg_Pulse:
  assumes "gate_ok init (st w) (trace w)"
    and "\<And>v. gate_ok init (st v) (trace v) \<Longrightarrow> pm_InitialV3d (st v) = pm_InitialV3d (st w) \<Longrightarrow>
      pm_reg init (trace v) PM_HW_GRAFX = pm_reg init (trace w) PM_HW_GRAFX \<Longrightarrow> Q PmHwOk v"
  shows "wp (PmPulse (regfile init calls)) Q w"
  unfolding PmPulse_def
  by (intro wp_bindI reg_SetV3dReset [OF assms(1)] wp_ifI)
    (auto intro!: reg_SetV3dReset assms(2))

lemma reg_HwAcquire:
  assumes "pm_Unsafe (st w) = 0" "pm_reg init (trace w) PM_HW_V3D AND PM_HW_V3D_ENAB \<noteq> 0"
    "pm_reg init (trace w) PM_HW_V3D \<noteq> pm_reg init (trace w) PM_HW_GRAFX"
    and "\<And>v. gate_ok init (st v) (trace v) \<Longrightarrow> pm_InitialV3d (st v) = pm_reg init (trace w) PM_HW_V3D \<Longrightarrow>
      pm_reg init (trace v) PM_HW_GRAFX = pm_reg init (trace w) PM_HW_GRAFX \<Longrightarrow> Q PmHwOk v"
  shows "wp (PmHwAcquire (regfile init calls)) Q w"
  unfolding PmHwAcquire_def
  by (intro wp_bindI wp_getsI wp_ifI wp_returnI wp_modifyI wp_Pm_Read_reg)
    (use assms(1-3) in \<open>auto simp: gate_ok_def intro!: assms(4)\<close>)

definition pm_core :: "PM_CONTEXT \<Rightarrow> PM_HW_STATE \<times> ptr \<times> u32 \<times> ptr" where
  "pm_core c = (pc_Hw c, pc_Owner c, pc_BootUnsafe c, pc_Registers c)"

lemma core_Snapshot: "preserves (keeps pm_core) (PmSnapshot E)"
  unfolding PmSnapshot_def Pm_Read_def by (intro keeps_intros) (auto simp: pm_core_def)

lemma wp_Pm_Snapshot:
  assumes "\<And>v. pm_core (st v) = pm_core (st w) \<Longrightarrow> (\<And>init off. pm_reg init (trace v) off = pm_reg init (trace w) off) \<Longrightarrow> Q () v"
  shows "wp (PmSnapshot E) Q w"
  by (rule wpI) (auto intro!: assms dest: preservesD [OF core_Snapshot] preservesD [OF nw_Snapshot] simp: keeps_def pm_reg_nw)

lemma wp_Result_ok:
  assumes "\<And>v. pm_core (st v) = pm_core (st w) \<Longrightarrow> (\<And>init off. pm_reg init (trace v) off = pm_reg init (trace w) off) \<Longrightarrow> Q STATUS_SUCCESS v"
  shows "wp (PmResult E PmHwOk op) Q w"
  unfolding PmResult_def
  by (simp, intro wp_bindI wp_Pm_Snapshot wp_modifyI wp_returnI assms) (simp_all add: pm_core_def)

definition leased :: "(u32 \<Rightarrow> u32 \<Rightarrow> u32) \<Rightarrow> ptr \<Rightarrow> u32 \<Rightarrow> u32 \<Rightarrow> PM_CONTEXT world \<Rightarrow> bool" where
  "leased init f g p w \<longleftrightarrow> pc_Owner (st w) = f \<and> pc_BootUnsafe (st w) = 0 \<and> pc_Registers (st w) \<noteq> 0 \<and>
     gate_ok init (pc_Hw (st w)) (trace w) \<and> pm_InitialV3d (pc_Hw (st w)) = g \<and> pm_reg init (trace w) PM_HW_GRAFX = p"

lemma leased_core:
  "pm_core (st v) = pm_core (st w) \<Longrightarrow> (\<And>off. pm_reg init (trace v) off = pm_reg init (trace w) off) \<Longrightarrow>
   leased init f g p w \<Longrightarrow> leased init f g p v"
  by (auto simp: leased_def pm_core_def gate_ok_def)

lemma leased_Transition:
  assumes "leased init f g p w" "f \<noteq> 0"
  shows "wp (PmTransition (regfile init calls) f q) (\<lambda>r v. leased init f g p v) w"
  unfolding PmTransition_def
  apply (intro wp_bindI wp_getsI wp_ifI wp_returnI wp_zoomI)
  apply (use assms in \<open>simp_all add: leased_def\<close>)
  apply ((rule reg_SetV3dReset reg_Pulse, simp, simp?), rule wp_Result_ok, force simp: pm_core_def gate_ok_def)+
  done

text \<open>A session is an acquisition, any sequence of reset requests and a release.\<close>

definition pm_session :: "env \<Rightarrow> ptr \<Rightarrow> PM_LEASE_REQUEST \<Rightarrow> PM_TRANSITION list \<Rightarrow> (PM_CONTEXT, NTSTATUS \<times> NTSTATUS) prog" where
  "pm_session E f q ts = do {
     acquired \<leftarrow> PmAcquire E f q;
     rs \<leftarrow> mapM ts (PmTransition E f);
     released \<leftarrow> PmDropLease E f;
     ret (acquired, released)
   }"

lemma leased_Transitions:
  "leased init f g p w \<Longrightarrow> f \<noteq> 0 \<Longrightarrow> wp (mapM ts (PmTransition (regfile init calls) f)) (\<lambda>r v. leased init f g p v) w"
proof (induction ts arbitrary: w)
  case (Cons t ts)
  show ?case
    unfolding mapM.simps
    by (intro wp_bindI wp_mono [OF leased_Transition [OF Cons.prems]] wp_mono [OF Cons.IH] wp_returnI)
      (use Cons.prems in auto)
qed (simp add: wp_simps)

lemma session_Acquire:
  assumes "pm_lease_ok q" "pc_Registers (st w) \<noteq> 0" "pc_BootUnsafe (st w) = 0" "pc_Owner (st w) = 0"
    "pm_Unsafe (pc_Hw (st w)) = 0" "pm_reg init (trace w) PM_HW_V3D AND PM_HW_V3D_ENAB \<noteq> 0"
    "pm_reg init (trace w) PM_HW_V3D \<noteq> pm_reg init (trace w) PM_HW_GRAFX"
    and "\<And>v. leased init f (pm_reg init (trace w) PM_HW_V3D) (pm_reg init (trace w) PM_HW_GRAFX) v \<Longrightarrow> Q STATUS_SUCCESS v"
  shows "wp (PmAcquire (regfile init calls) f q) Q w"
  unfolding PmAcquire_def
  apply (intro wp_bindI wp_getsI wp_ifI wp_returnI wp_zoomI)
  apply (use assms(1-7) in \<open>simp_all\<close>)
  apply (rule reg_HwAcquire, simp_all)
  apply (rule wp_bindI, rule wp_Result_ok, intro wp_bindI wp_ifI wp_modifyI wp_kernel_doI wp_returnI wp_Pm_Snapshot, simp)
  apply (rule assms(8), auto simp: leased_def pm_core_def gate_ok_def)
  done

lemma session_Release:
  assumes "leased init f g p w" "f \<noteq> 0"
    and "\<And>v. pc_Owner (st v) = 0 \<Longrightarrow> pc_BootUnsafe (st v) = 0 \<Longrightarrow> pm_reg init (trace v) PM_HW_V3D = g \<Longrightarrow>
      pm_reg init (trace v) PM_HW_GRAFX = p \<Longrightarrow> Q STATUS_SUCCESS v"
  shows "wp (PmDropLease (regfile init calls) f) Q w"
  unfolding PmDropLease_def
  apply (intro wp_bindI wp_getsI wp_ifI wp_returnI wp_zoomI)
  apply (use assms(1,2) in \<open>simp_all add: leased_def\<close>)
  apply (rule reg_HwRelease, simp_all)
  apply (rule wp_bindI, rule wp_Result_ok, intro wp_bindI wp_ifI wp_modifyI wp_getsI wp_kernel_doI wp_returnI wp_Pm_Snapshot wp_whenI, simp)
  apply (rule assms(3); simp add: pm_core_def)+
  done

text \<open>C18. On a plain register file with the gate available, a session acquires and releases whatever resets are
  requested in between, and afterwards the gate and its legacy parent hold the values they had, the lease is
  free and no fault is latched.\<close>

theorem pm_session_roundtrip:
  assumes "run_state (pm_session (regfile init calls) f q ts) w = ((acquired, released), w')"
    and "f \<noteq> 0" "pm_lease_ok q" "pc_Registers (st w) \<noteq> 0" "pc_BootUnsafe (st w) = 0" "pc_Owner (st w) = 0"
    and "pm_Unsafe (pc_Hw (st w)) = 0" "pm_reg init (trace w) PM_HW_V3D AND PM_HW_V3D_ENAB \<noteq> 0"
    and "pm_reg init (trace w) PM_HW_V3D \<noteq> pm_reg init (trace w) PM_HW_GRAFX"
  shows "acquired = STATUS_SUCCESS \<and> released = STATUS_SUCCESS \<and>
    pm_reg init (trace w') PM_HW_V3D = pm_reg init (trace w) PM_HW_V3D \<and>
    pm_reg init (trace w') PM_HW_GRAFX = pm_reg init (trace w) PM_HW_GRAFX \<and>
    pc_Owner (st w') = 0 \<and> pc_BootUnsafe (st w') = 0"
proof -
  have "wp (pm_session (regfile init calls) f q ts) (\<lambda>(a, r) v. a = STATUS_SUCCESS \<and> r = STATUS_SUCCESS \<and>
    pm_reg init (trace v) PM_HW_V3D = pm_reg init (trace w) PM_HW_V3D \<and>
    pm_reg init (trace v) PM_HW_GRAFX = pm_reg init (trace w) PM_HW_GRAFX \<and> pc_Owner (st v) = 0 \<and> pc_BootUnsafe (st v) = 0) w"
    unfolding pm_session_def
    by (intro wp_bindI wp_returnI session_Acquire assms leased_Transitions [THEN wp_mono] session_Release) (use assms in auto)
  from wpD [OF this assms(1)] show ?thesis by simp
qed

definition pm_example :: "PM_CONTEXT world" where
  "pm_example = \<lparr>st = pc_zero\<lparr>pc_Registers := 1\<rparr>, trace = []\<rparr>"

text \<open>The gate is enabled and out of reset, the session pulses the reset and then asserts it.\<close>

theorem pm_session_roundtrip_witness:
  "let E = regfile (\<lambda>u off. if off = PM_HW_V3D then 0x1040 else 1) (\<lambda>f xs. 0);
     q = \<lparr>pl_Version = 1, pl_Domain = 1, pl_Reset = 0, pl_Reserved = 0\<rparr>;
     t = (\<lambda>n. \<lparr>pt_Version = 1, pt_Domain = 1, pt_Operation = n, pt_Reserved = 0\<rparr>);
     ((a, r), w) = run_state (pm_session E 7 q [t 3, t 2]) pm_example
   in a = STATUS_SUCCESS \<and> r = STATUS_SUCCESS \<and> pc_Owner (st w) = 0"
proof -
  let ?i = "\<lambda>u off. if off = PM_HW_V3D then 0x1040 else 1 :: u32"
  have r: "pm_reg ?i [] PM_HW_V3D = 0x1040" "pm_reg ?i [] PM_HW_GRAFX = 1" by (simp_all add: pm_reg_def)
  show ?thesis
    using pm_session_roundtrip [where init = ?i and calls = "\<lambda>f xs. 0" and f = 7 and w = pm_example
      and q = "\<lparr>pl_Version = 1, pl_Domain = 1, pl_Reset = 0, pl_Reserved = 0\<rparr>"]
    by (simp add: Let_def pm_example_def pc_zero_def pm_zero_def pm_lease_ok_def r split: prod.splits)
qed

end
