(* ===== verification/Graph_Decode.thy ===== *)
theory Graph_Decode
  imports Prelude
begin

text \<open>
  Decoding the ACPI responses of the hardware graph, the first part of \<open>pi5-graph/graph.c\<close>. A pointer is
  the list of the bytes from where it points to the end of its object. Every read is checked: a function of
  this theory returns \<open>None\<close> when the C code would read outside of the object.
\<close>

unbundle bit_operations_syntax

section \<open>Checked reads\<close>

type_synonym bytes = "u8 list"

definition at_byte :: "bytes \<Rightarrow> nat \<Rightarrow> u8 option" where
  "at_byte d i = (if i < length d then Some (d ! i) else None)"

definition Graph_Le32 :: "bytes \<Rightarrow> nat \<Rightarrow> u32 option" where
  "Graph_Le32 p i = do {
     a \<leftarrow> at_byte p i; b \<leftarrow> at_byte p (i + 1); c \<leftarrow> at_byte p (i + 2); d \<leftarrow> at_byte p (i + 3);
     Some (le32 a b c d)
   }"

definition Graph_Be32 :: "bytes \<Rightarrow> nat \<Rightarrow> u32 option" where
  "Graph_Be32 p i = do {
     a \<leftarrow> at_byte p i; b \<leftarrow> at_byte p (i + 1); c \<leftarrow> at_byte p (i + 2); d \<leftarrow> at_byte p (i + 3);
     Some (le32 d c b a)
   }"

definition Graph_Le16 :: "bytes \<Rightarrow> nat \<Rightarrow> u16 option" where
  "Graph_Le16 p i = do {
     a \<leftarrow> at_byte p i; b \<leftarrow> at_byte p (i + 1);
     Some (ucast a OR push_bit 8 (ucast b))
   }"

text \<open>The standard library's search for a zero byte in the first \<open>n\<close> bytes, and the string at a pointer.\<close>

fun memchr0 :: "bytes \<Rightarrow> nat \<Rightarrow> nat option option" where
  "memchr0 d 0 = Some None"
| "memchr0 [] (Suc n) = None"
| "memchr0 (x # d) (Suc n) = (if x = 0 then Some (Some 0) else map_option (map_option Suc) (memchr0 d n))"

fun cstr :: "bytes \<Rightarrow> bytes option" where
  "cstr [] = None"
| "cstr (x # d) = (if x = 0 then Some [] else map_option ((#) x) (cstr d))"

definition str_eq :: "bytes \<Rightarrow> bytes \<Rightarrow> bool option" where
  "str_eq a b = do { x \<leftarrow> cstr a; y \<leftarrow> cstr b; Some (x = y) }"

section \<open>The decoder\<close>

datatype GRAPH_RESULT = GraphOk | GraphInvalid | GraphNoMemory | GraphTransport | GraphNotFound

record GRAPH_ARGUMENT =
  ga_Type :: u16
  ga_Length :: u16
  ga_Data :: bytes

definition Graph_argument :: "bytes \<Rightarrow> nat \<Rightarrow> GRAPH_ARGUMENT option" where
  "Graph_argument data i = do {
     type \<leftarrow> Graph_Le16 data i;
     len \<leftarrow> Graph_Le16 data (i + 2);
     Some \<lparr>ga_Type = type, ga_Length = len, ga_Data = drop (i + 4) data\<rparr>
   }"

definition argument_ok :: "GRAPH_ARGUMENT \<Rightarrow> bool option" where
  "argument_ok a =
     (if ga_Type a > 2 then Some False
      else if ga_Type a = 0 \<and> ga_Length a \<noteq> 4 \<and> ga_Length a \<noteq> 8 then Some False
      else if ga_Type a = 1
      then if ga_Length a = 0 then Some False
        else do {
          z \<leftarrow> at_byte (ga_Data a) (unat (ga_Length a) - 1);
          if z \<noteq> 0 then Some False
          else do { k \<leftarrow> memchr0 (ga_Data a) (unat (ga_Length a) - 1); Some (k = None) }
        }
      else Some True)"

definition argument_width :: "GRAPH_ARGUMENT \<Rightarrow> u32" where
  "argument_width a = (if ga_Length a < 4 then 4 else ucast (ga_Length a))"

fun decode_from :: "bytes \<Rightarrow> u32 \<Rightarrow> nat \<Rightarrow> u32 \<Rightarrow> (GRAPH_RESULT \<times> GRAPH_ARGUMENT list) option" where
  "decode_from data sz 0 i = Some (if i = sz then GraphOk else GraphInvalid, [])"
| "decode_from data sz (Suc n) i =
     (if sz - i < 8 then Some (GraphInvalid, [])
      else do {
        a \<leftarrow> Graph_argument data (unat i);
        if argument_width a > sz - i - 4 then Some (GraphInvalid, [])
        else do {
          ok \<leftarrow> argument_ok a;
          if \<not> ok then Some (GraphInvalid, [])
          else do {
            (r, as) \<leftarrow> decode_from data sz n (i + (4 + argument_width a));
            Some (r, a # as)
          }
        }
      })"

definition GraphDecode :: "bytes \<Rightarrow> u32 \<Rightarrow> u32 \<Rightarrow> (GRAPH_RESULT \<times> GRAPH_ARGUMENT list) option" where
  "GraphDecode data sz count =
     (if sz < 12 then Some (GraphInvalid, [])
      else do {
        signature \<leftarrow> Graph_Le32 data 0;
        if signature \<noteq> 0x426f6541 then Some (GraphInvalid, [])
        else do {
          stated \<leftarrow> Graph_Le32 data 4;
          if stated \<noteq> sz then Some (GraphInvalid, [])
          else do {
            n \<leftarrow> Graph_Le32 data 8;
            if n \<noteq> count \<or> count > 4 then Some (GraphInvalid, [])
            else decode_from data sz (unat count) 12
          }
        }
      })"

definition Graph_Integer :: "GRAPH_ARGUMENT \<Rightarrow> u32 option option" where
  "Graph_Integer a =
     (if ga_Type a \<noteq> 0 then Some None
      else do {
        high \<leftarrow> (if ga_Length a = 8 then Graph_Le32 (ga_Data a) 4 else Some 0);
        if high \<noteq> 0 then Some None
        else do { v \<leftarrow> Graph_Le32 (ga_Data a) 0; Some (Some v) }
      })"

section \<open>Reads inside an object\<close>

named_theorems in_object "a read inside its object has a value"

lemma at_byte_in [in_object]: "i < length d \<Longrightarrow> at_byte d i = Some (d ! i)"
  by (simp add: at_byte_def)

lemma Le32_in [in_object]:
  "i + 3 < length p \<Longrightarrow> Graph_Le32 p i = Some (le32 (p ! i) (p ! (i + 1)) (p ! (i + 2)) (p ! (i + 3)))"
  by (simp add: Graph_Le32_def in_object)

lemma Be32_in [in_object]:
  "i + 3 < length p \<Longrightarrow> Graph_Be32 p i = Some (le32 (p ! (i + 3)) (p ! (i + 2)) (p ! (i + 1)) (p ! i))"
  by (simp add: Graph_Be32_def in_object)

lemma Le16_in [in_object]:
  "i + 1 < length p \<Longrightarrow> Graph_Le16 p i = Some (ucast (p ! i) OR push_bit 8 (ucast (p ! (i + 1))))"
  by (simp add: Graph_Le16_def in_object)

lemma memchr0_in: "n \<le> length d \<Longrightarrow> \<exists>k. memchr0 d n = Some k \<and> (k = None \<longleftrightarrow> 0 \<notin> set (take n d))"
  by (induction d n rule: memchr0.induct) auto

lemma memchr0_Some: "memchr0 d n = Some (Some k) \<Longrightarrow> k < n \<and> k < length d \<and> d ! k = 0 \<and> 0 \<notin> set (take k d)"
  by (induction d n arbitrary: k rule: memchr0.induct) (auto split: if_splits)

lemma cstr_Some: "cstr d = Some s \<longleftrightarrow> (\<exists>r. d = s @ 0 # r \<and> 0 \<notin> set s)"
proof (induction d arbitrary: s)
  case (Cons x d)
  show ?case
  proof (cases "x = 0")
    case True
    then show ?thesis by (auto simp: Cons_eq_append_conv)
  next
    case False
    then show ?thesis by (cases s) (auto simp: Cons.IH)
  qed
qed simp

lemma cstr_append [simp]: "0 \<notin> set s \<Longrightarrow> cstr (s @ 0 # r) = Some s"
  by (subst cstr_Some) blast

text \<open>A string argument: its bytes up to the terminator that its length names.\<close>

definition arg_string :: "GRAPH_ARGUMENT \<Rightarrow> bytes" where
  "arg_string a = take (unat (ga_Length a) - 1) (ga_Data a)"

definition arg_ok :: "GRAPH_ARGUMENT \<Rightarrow> bool" where
  "arg_ok a \<longleftrightarrow> ga_Type a \<le> 2 \<and> 4 \<le> length (ga_Data a) \<and> unat (ga_Length a) \<le> length (ga_Data a) \<and>
     (ga_Type a = 0 \<longrightarrow> ga_Length a = 4 \<or> ga_Length a = 8) \<and>
     (ga_Type a = 1 \<longrightarrow> ga_Length a \<noteq> 0 \<and> take (unat (ga_Length a)) (ga_Data a) = arg_string a @ [0] \<and>
        0 \<notin> set (arg_string a))"

section \<open>The wire format\<close>

definition le16 :: "u8 \<Rightarrow> u8 \<Rightarrow> u16" where
  "le16 a b = ucast a OR push_bit 8 (ucast b)"

definition le16_bytes :: "u16 \<Rightarrow> bytes" where
  "le16_bytes w = [ucast w, ucast (drop_bit 8 w)]"

lemma bit_le16: "bit (le16 a b) n = (if n < 8 then bit a n else n < 16 \<and> bit b (n - 8))"
  using bit_imp_le_length [of a n] bit_imp_le_length [of b "n - 8"]
  by (auto simp: le16_def bit_or_iff bit_push_bit_iff bit_ucast_iff not_less)

lemma le16_bytes_le16 [simp]: "le16_bytes (le16 a b) = [a, b]"
  by (auto simp: le16_bytes_def intro!: bit_word_eqI simp: bit_ucast_iff bit_drop_bit_eq bit_le16)

lemma le16_le16_bytes [simp]: "le16 (ucast w) (ucast (drop_bit 8 w)) = w"
  by (rule bit_word_eqI) (auto simp: bit_le16 bit_ucast_iff bit_drop_bit_eq)

lemma le32_le32_bytes [simp]:
  "le32 (ucast w) (ucast (drop_bit 8 w)) (ucast (drop_bit 16 w)) (ucast (drop_bit 24 w)) = w"
  by (rule bit_word_eqI) (auto simp: bit_le32 bit_ucast_iff bit_drop_bit_eq)

type_synonym wire_arg = "u16 \<times> bytes \<times> bytes"

definition wire_arg_ok :: "wire_arg \<Rightarrow> bool" where
  "wire_arg_ok w = (case w of (t, b, p) \<Rightarrow> t \<le> 2 \<and> length b < 65536 \<and> length p = 4 - length b \<and>
     (t = 0 \<longrightarrow> length b = 4 \<or> length b = 8) \<and> (t = 1 \<longrightarrow> b \<noteq> [] \<and> last b = 0 \<and> 0 \<notin> set (butlast b)))"

definition wire_bytes :: "wire_arg \<Rightarrow> bytes" where
  "wire_bytes w = (case w of (t, b, p) \<Rightarrow> le16_bytes t @ le16_bytes (of_nat (length b)) @ b @ p)"

definition wire :: "wire_arg list \<Rightarrow> bytes" where
  "wire ws = le32_bytes 0x426f6541 @ le32_bytes (of_nat (12 + length (concat (map wire_bytes ws)))) @
     le32_bytes (of_nat (length ws)) @ concat (map wire_bytes ws)"

text \<open>An argument the decoder returns and the one on the wire.\<close>

definition decoded :: "GRAPH_ARGUMENT \<Rightarrow> wire_arg \<Rightarrow> bool" where
  "decoded a w \<longleftrightarrow> ga_Type a = fst w \<and> ga_Length a = of_nat (length (fst (snd w))) \<and>
     take (unat (ga_Length a)) (ga_Data a) = fst (snd w)"

lemma length_wire_bytes: "length (wire_bytes (t, b, p)) = 4 + length b + length p"
  by (simp add: wire_bytes_def le16_bytes_def)

lemma Graph_argument_parse:
  "drop i data = le16_bytes t @ le16_bytes l @ rest \<Longrightarrow>
   Graph_argument data i = Some \<lparr>ga_Type = t, ga_Length = l, ga_Data = rest\<rparr>"
proof -
  assume d: "drop i data = le16_bytes t @ le16_bytes l @ rest"
  then have len: "i + 4 \<le> length data"
  proof -
    have "length (drop i data) = 4 + length rest" unfolding d by (simp add: le16_bytes_def)
    then show ?thesis by simp
  qed
  have n: "data ! (i + k) = (le16_bytes t @ le16_bytes l @ rest) ! k" for k
    using len by (subst d [symmetric]) (simp add: nth_drop)
  have "drop (i + 4) data = rest"
    using arg_cong [OF d, of "drop 4"] by (simp add: le16_bytes_def add.commute)
  then show ?thesis
    using len n [of 0] n [of 1] n [of 2] n [of 3]
    by (simp add: Graph_argument_def in_object le16_bytes_def numeral_3_eq_3 numeral_2_eq_2
        flip: le16_def)
qed

lemma length_4: "length xs = 4 \<Longrightarrow> \<exists>a b c d. xs = [a, b, c, d]"
  by (auto simp: numeral_eq_Suc length_Suc_conv)

lemma drop_parse:
  assumes "i + 4 \<le> length data"
  obtains t l where "drop i data = le16_bytes t @ le16_bytes l @ drop (i + 4) data"
proof -
  obtain a b c d r where r: "drop i data = [a, b, c, d] @ r"
  proof -
    have "take 4 (drop i data) @ drop 4 (drop i data) = drop i data" by (rule append_take_drop_id)
    moreover have "length (take 4 (drop i data)) = 4" using assms by simp
    then obtain a b c d where "take 4 (drop i data) = [a, b, c, d]"
      using length_4 by blast
    ultimately show ?thesis using that by metis
  qed
  have "drop (i + 4) data = r" using arg_cong [OF r, of "drop 4"] by (simp add: add.commute)
  with r show ?thesis using that [of "le16 a b" "le16 c d"] by simp
qed

lemma u16_lt: "unat x < 65536" for x :: u16
  by (rule order_less_le_trans [OF unsigned_less]) simp

lemma argument_ok_iff:
  assumes "unat (ga_Length a) \<le> length (ga_Data a)"
  shows "argument_ok a = Some (wire_arg_ok (ga_Type a, take (unat (ga_Length a)) (ga_Data a),
    replicate (4 - unat (ga_Length a)) 0))"
proof -
  let ?n = "unat (ga_Length a)" and ?d = "ga_Data a"
  have len: "ga_Length a = 4 \<longleftrightarrow> ?n = 4" "ga_Length a = 8 \<longleftrightarrow> ?n = 8" "ga_Length a = 0 \<longleftrightarrow> ?n = 0"
    by (simp_all add: word_eq_iff_unsigned [where ?'a = nat])
  show ?thesis
  proof (cases "ga_Type a = 1 \<and> ?n \<noteq> 0")
    case True
    then have n: "0 < ?n" "?n - 1 < length ?d" using assms by auto
    obtain k where k: "memchr0 ?d (?n - 1) = Some k" "k = None \<longleftrightarrow> 0 \<notin> set (take (?n - 1) ?d)"
      using memchr0_in [of "?n - 1" ?d] n by auto
    have ne: "take ?n ?d \<noteq> []" using n by auto
    then have "last (take ?n ?d) = ?d ! (?n - 1)" "butlast (take ?n ?d) = take (?n - 1) ?d"
      using n assms by (simp_all add: last_conv_nth butlast_take min_def)
    moreover note ne
    ultimately show ?thesis
      using True k n assms u16_lt [of "ga_Length a"] len by (auto simp: argument_ok_def wire_arg_ok_def at_byte_def)
  next
    case False
    then show ?thesis
      using assms u16_lt [of "ga_Length a"] len by (auto simp: argument_ok_def wire_arg_ok_def not_less min_def)
  qed
qed

lemma unat_argument_width: "unat (argument_width a) = max 4 (unat (ga_Length a))"
  by (auto simp: argument_width_def unat_ucast_up word_less_nat_alt max_def)

lemma decode_step:
  assumes pos: "unat i \<le> unat sz" "unat sz \<le> length data" and room: "\<not> sz - i < 8"
    and a: "Graph_argument data (unat i) = Some a"
    and fits: "\<not> argument_width a > sz - i - 4"
  defines "i' \<equiv> i + (4 + argument_width a)" and "l \<equiv> unat (ga_Length a)"
  shows "unat i' = unat i + 4 + max 4 l" and "unat i' \<le> unat sz" and "max 4 l \<le> length (ga_Data a)"
    and "drop (unat i) (take (unat sz) data) =
      wire_bytes (ga_Type a, take l (ga_Data a), take (4 - l) (drop l (ga_Data a))) @ drop (unat i') (take (unat sz) data)"
proof -
  have d: "unat (sz - i) = unat sz - unat i" using pos by (simp add: unat_sub word_le_nat_alt)
  with room have r: "8 \<le> unat sz - unat i" by (simp add: word_less_nat_alt)
  have d4: "unat (sz - i - 4) = unat sz - unat i - 4"
    using d r by (simp add: unat_sub word_le_nat_alt)
  with fits have w: "max 4 l \<le> unat sz - unat i - 4"
    by (simp add: word_less_nat_alt unat_argument_width l_def not_less)
  have "unat (4 + argument_width a) = 4 + max 4 l"
    using w r u32_lt [of sz] by (subst unat_add_small) (auto simp: unat_argument_width l_def)
  then show i': "unat i' = unat i + 4 + max 4 l"
    unfolding i'_def using w r u32_lt [of sz] by (subst unat_add_small) auto
  then show le: "unat i' \<le> unat sz" using w r by linarith
  have "unat i + 4 \<le> length data" using r pos by linarith
  then obtain t m where p: "drop (unat i) data = le16_bytes t @ le16_bytes m @ drop (unat i + 4) data"
    by (rule drop_parse)
  from Graph_argument_parse [OF p] a have a': "ga_Type a = t" "ga_Length a = m" "ga_Data a = drop (unat i + 4) data" by auto
  show len: "max 4 l \<le> length (ga_Data a)" unfolding a'(3) length_drop using w r pos by linarith
  let ?D = "drop (unat i) (take (unat sz) data)"
  have "take (4 + max 4 l) ?D = take (4 + max 4 l) (drop (unat i) data)"
    using le i' by (simp add: drop_take)
  also have "\<dots> = le16_bytes t @ le16_bytes m @ take (max 4 l) (ga_Data a)"
    unfolding p a'(3) by (simp add: le16_bytes_def numeral_eq_Suc)
  also have "take (max 4 l) (ga_Data a) = take l (ga_Data a) @ take (4 - l) (drop l (ga_Data a))"
    by (cases "4 \<le> l") (simp_all add: max_def flip: take_add)
  also have "le16_bytes t @ le16_bytes m @ \<dots> = wire_bytes (ga_Type a, take l (ga_Data a), take (4 - l) (drop l (ga_Data a)))"
  proof -
    have "length (take l (ga_Data a)) = unat m" using len a'(2) by (simp add: l_def)
    then show ?thesis unfolding wire_bytes_def prod.case by (simp add: a'(1))
  qed
  finally have "take (4 + max 4 l) ?D = wire_bytes (ga_Type a, take l (ga_Data a), take (4 - l) (drop l (ga_Data a)))" .
  moreover have "drop (4 + max 4 l) ?D = drop (unat i') (take (unat sz) data)"
    unfolding i' drop_drop by (simp only: ac_simps)
  ultimately show "?D = wire_bytes (ga_Type a, take l (ga_Data a), take (4 - l) (drop l (ga_Data a))) @ drop (unat i') (take (unat sz) data)"
    by (metis append_take_drop_id)
qed

lemma wire_arg_ok_pad: "length p = length q \<Longrightarrow> wire_arg_ok (t, b, p) = wire_arg_ok (t, b, q)"
  by (simp add: wire_arg_ok_def)

lemma arg_ok_wire:
  assumes "wire_arg_ok (ga_Type a, take (unat (ga_Length a)) (ga_Data a), p)" and "max 4 (unat (ga_Length a)) \<le> length (ga_Data a)"
  shows "arg_ok a"
proof -
  let ?n = "unat (ga_Length a)" and ?b = "take (unat (ga_Length a)) (ga_Data a)"
  have len: "length ?b = ?n" using assms(2) by simp
  have "?n = 4 \<longleftrightarrow> ga_Length a = 4" "?n = 8 \<longleftrightarrow> ga_Length a = 8" "?n = 0 \<longleftrightarrow> ga_Length a = 0"
    by (simp_all add: word_eq_iff_unsigned [where ?'a = nat])
  moreover have "butlast ?b = arg_string a"
    using assms(2) by (simp add: arg_string_def butlast_take min_def)
  moreover have "?b \<noteq> [] \<Longrightarrow> ?b = butlast ?b @ [last ?b]" by simp
  ultimately show ?thesis
    using assms len unfolding arg_ok_def wire_arg_ok_def prod.case by (metis length_0_conv max.bounded_iff)
qed

lemma decode_total:
  assumes "unat i \<le> unat sz" "unat sz \<le> length data"
  shows "\<exists>r as. decode_from data sz n i = Some (r, as) \<and> (r = GraphOk \<longrightarrow> length as = n \<and> (\<forall>a\<in>set as. arg_ok a) \<and>
    (\<exists>ws. list_all2 decoded as ws \<and> list_all wire_arg_ok ws \<and> drop (unat i) (take (unat sz) data) = concat (map wire_bytes ws)))"
  using assms
proof (induction n arbitrary: i)
  case 0
  then show ?case by (auto simp: min_def word_eq_iff_unsigned [where ?'a = nat])
next
  case (Suc n)
  show ?case
  proof (cases "sz - i < 8")
    case False
    then have "8 \<le> unat sz - unat i" using Suc.prems by (simp add: word_less_nat_alt unat_sub word_le_nat_alt)
    then have "unat i + 4 \<le> length data" using Suc.prems by linarith
    then obtain a where a: "Graph_argument data (unat i) = Some a"
      by (metis drop_parse Graph_argument_parse)
    show ?thesis
    proof (cases "argument_width a > sz - i - 4")
      case fits: False
      note st = decode_step [OF Suc.prems False a fits]
      let ?l = "unat (ga_Length a)" and ?i = "i + (4 + argument_width a)"
      let ?w = "(ga_Type a, take ?l (ga_Data a), take (4 - ?l) (drop ?l (ga_Data a)))"
      have l: "?l \<le> length (ga_Data a)" using st(3) by simp
      have ok: "argument_ok a = Some (wire_arg_ok ?w)"
        unfolding argument_ok_iff [OF l] by (subst wire_arg_ok_pad [where q = "replicate (4 - ?l) 0"]) (use st(3) in auto)
      obtain r as where rec: "decode_from data sz n ?i = Some (r, as)" and
        IH: "r = GraphOk \<longrightarrow> length as = n \<and> (\<forall>a\<in>set as. arg_ok a) \<and>
          (\<exists>ws. list_all2 decoded as ws \<and> list_all wire_arg_ok ws \<and> drop (unat ?i) (take (unat sz) data) = concat (map wire_bytes ws))"
        using Suc.IH [OF st(2) Suc.prems(2)] by blast
      show ?thesis
      proof (cases "wire_arg_ok ?w")
        case True
        have dec: "decoded a ?w" using l by (simp add: decoded_def)
        have "arg_ok a" using True st(3) by (rule arg_ok_wire)
        moreover have "\<exists>ws. list_all2 decoded (a # as) ws \<and> list_all wire_arg_ok ws \<and>
            drop (unat i) (take (unat sz) data) = concat (map wire_bytes ws)" if "r = GraphOk"
        proof -
          from IH that obtain ws where ws: "list_all2 decoded as ws" "list_all wire_arg_ok ws"
            "drop (unat ?i) (take (unat sz) data) = concat (map wire_bytes ws)" by blast
          then show ?thesis using dec True st(4) by (intro exI [of _ "?w # ws"]) simp
        qed
        ultimately show ?thesis
          using False a fits ok True rec IH by simp
      qed (use False a fits ok in simp)
    qed (use False a in simp)
  qed simp
qed

lemma decode_complete:
  assumes "unat i \<le> unat sz" "unat sz \<le> length data"
    and "drop (unat i) (take (unat sz) data) = concat (map wire_bytes ws)" "list_all wire_arg_ok ws"
  shows "\<exists>as. decode_from data sz (length ws) i = Some (GraphOk, as) \<and> list_all2 decoded as ws"
  using assms
proof (induction ws arbitrary: i)
  case Nil
  then have "unat i = unat sz" by simp
  then have "i = sz" by (simp add: word_eq_iff_unsigned [where ?'a = nat])
  then show ?case by simp
next
  case (Cons w ws)
  obtain t b p where w: "w = (t, b, p)" by (cases w)
  have ok: "wire_arg_ok (t, b, p)" using Cons.prems(4) w by simp
  then have b: "length b < 65536" "length p = 4 - length b" by (simp_all add: wire_arg_ok_def)
  let ?rest = "b @ p @ concat (map wire_bytes ws) @ drop (unat sz) data"
  have D: "drop (unat i) (take (unat sz) data) = wire_bytes (t, b, p) @ concat (map wire_bytes ws)"
    using Cons.prems(3) w by simp
  have len: "unat sz - unat i = 4 + length b + length p + length (concat (map wire_bytes ws))"
    using arg_cong [OF D, of length] Cons.prems(2) by (simp add: length_wire_bytes del: length_concat)
  then have room: "\<not> sz - i < 8"
    using b Cons.prems(1) by (simp add: word_less_nat_alt unat_sub word_le_nat_alt)
  have "drop (unat i) data = drop (unat i) (take (unat sz) data) @ drop (unat sz) data"
    using Cons.prems(1) by (metis append_take_drop_id drop_append drop_take diff_is_0_eq drop0 length_take min.absorb2 Cons.prems(2))
  then have "drop (unat i) data = le16_bytes t @ le16_bytes (of_nat (length b)) @ ?rest"
    unfolding D by (simp add: wire_bytes_def)
  note a = Graph_argument_parse [OF this]
  let ?a = "\<lparr>ga_Type = t, ga_Length = of_nat (length b), ga_Data = ?rest\<rparr>"
  have l: "unat (of_nat (length b) :: u16) = length b" using b by (intro unat_of_nat_small) simp
  have fits: "\<not> argument_width ?a > sz - i - 4"
  proof -
    have "unat (sz - i) = unat sz - unat i" using Cons.prems(1) by (simp add: unat_sub word_le_nat_alt)
    moreover from this have "unat (sz - i - 4) = unat sz - unat i - 4"
      using len by (simp add: unat_sub word_le_nat_alt)
    ultimately show ?thesis
      using len b by (simp add: word_less_nat_alt unat_argument_width l not_less)
  qed
  note st = decode_step [OF Cons.prems(1,2) room a fits]
  have aok: "argument_ok ?a = Some True"
    using ok l by (subst argument_ok_iff) (auto simp: wire_arg_ok_def)
  let ?i = "i + (4 + argument_width ?a)"
  have "drop (unat ?i) (take (unat sz) data) = concat (map wire_bytes ws)"
    using st(4) b unfolding D by (simp add: l wire_bytes_def)
  then obtain as where "decode_from data sz (length ws) ?i = Some (GraphOk, as)" "list_all2 decoded as ws"
    using Cons.IH [OF st(2) Cons.prems(2)] Cons.prems(4) by auto
  moreover have "decoded ?a w" by (simp add: decoded_def w l)
  ultimately show ?case using room fits a aok by simp
qed

lemma wire_header:
  assumes "12 \<le> unat sz" "unat sz \<le> length data"
  obtains x y z where "Graph_Le32 data 0 = Some x" "Graph_Le32 data 4 = Some y" "Graph_Le32 data 8 = Some z"
    "take (unat sz) data = le32_bytes x @ le32_bytes y @ le32_bytes z @ drop 12 (take (unat sz) data)"
proof -
  define D where "D = take (unat sz) data"
  have "12 \<le> length D" using assms by (simp add: D_def)
  then obtain a b c d e f g h i j k l r where D: "D = [a, b, c, d, e, f, g, h, i, j, k, l] @ r"
    by (auto simp: numeral_eq_Suc Suc_le_length_iff)
  have n: "data ! m = D ! m" if "m < 12" for m using that assms by (simp add: D_def)
  have "Graph_Le32 data 0 = Some (le32 a b c d)" "Graph_Le32 data 4 = Some (le32 e f g h)" "Graph_Le32 data 8 = Some (le32 i j k l)"
    using assms by (simp_all add: in_object n D numeral_eq_Suc)
  moreover have "D = le32_bytes (le32 a b c d) @ le32_bytes (le32 e f g h) @ le32_bytes (le32 i j k l) @ drop 12 D"
    by (simp add: D)
  ultimately show thesis using that unfolding D_def by blast
qed

lemma le32_bytes_inject [simp]: "le32_bytes x = le32_bytes y \<longleftrightarrow> x = y"
proof
  assume "le32_bytes x = le32_bytes y"
  then have "le32 (ucast x) (ucast (drop_bit 8 x)) (ucast (drop_bit 16 x)) (ucast (drop_bit 24 x)) =
    le32 (ucast y) (ucast (drop_bit 8 y)) (ucast (drop_bit 16 y)) (ucast (drop_bit 24 y))"
    by (simp add: le32_bytes_def)
  then show "x = y" by simp
qed simp

lemma length_le32_bytes [simp]: "length (le32_bytes x) = 4"
  by (simp add: le32_bytes_def)

text \<open>The decoder, once the header has been taken apart.\<close>

lemma GraphDecode_header:
  assumes "12 \<le> unat sz" "unat sz \<le> length data"
    and "Graph_Le32 data 0 = Some x" "Graph_Le32 data 4 = Some y" "Graph_Le32 data 8 = Some z"
  shows "GraphDecode data sz count = (if x = 0x426f6541 \<and> y = sz \<and> z = count \<and> count \<le> 4
    then decode_from data sz (unat count) 12 else Some (GraphInvalid, []))"
proof -
  have "count > 4 \<longleftrightarrow> \<not> count \<le> 4" by (rule not_le [symmetric])
  with assms show ?thesis by (auto simp: GraphDecode_def word_less_nat_alt [of sz])
qed

lemma decode_safe:
  assumes "unat sz \<le> length data"
  shows "\<exists>r as. GraphDecode data sz count = Some (r, as) \<and>
    (r = GraphOk \<longrightarrow> length as = unat count \<and> unat count \<le> 4 \<and> (\<forall>a\<in>set as. arg_ok a))"
proof (cases "sz < 12")
  case False
  then have "12 \<le> unat sz" by (simp add: word_less_nat_alt)
  from wire_header [OF this assms] obtain x y z where
    "Graph_Le32 data 0 = Some x" "Graph_Le32 data 4 = Some y" "Graph_Le32 data 8 = Some z" .
  note h = GraphDecode_header [OF \<open>12 \<le> unat sz\<close> assms this]
  obtain r as where "decode_from data sz (unat count) 12 = Some (r, as)"
    "r = GraphOk \<longrightarrow> length as = unat count \<and> (\<forall>a\<in>set as. arg_ok a)"
    using decode_total [of 12 sz data "unat count"] \<open>12 \<le> unat sz\<close> assms by auto
  then show ?thesis by (auto simp: h word_le_nat_alt)
qed (simp add: GraphDecode_def)

text \<open>Whatever bytes the firmware returns, the decoder reads no byte outside of them, and a response it
  accepts has the requested number of arguments, each of a known type with its data inside the response;
  an integer has 4 or 8 bytes and a string one terminator, at its end.\<close>

theorem graph_decode_safe:
  assumes "unat sz \<le> length data"
  shows "\<exists>r as. GraphDecode data sz count = Some (r, as) \<and>
    (r = GraphOk \<longrightarrow> length as = unat count \<and> unat count \<le> 4 \<and> (\<forall>a\<in>set as. arg_ok a))"
  using assms by (rule decode_safe)

theorem graph_decode_safe_witness:
  "\<exists>r as. GraphDecode (replicate 16 0xff) 16 2 = Some (r, as)"
  using graph_decode_safe [of 16 "replicate 16 0xff" 2] by auto

text \<open>C21. The decoder accepts exactly the encodings of up to four well-formed arguments: a response it
  accepts is the wire form of the arguments it returns, and from the wire form of any arguments it
  returns these arguments.\<close>

theorem graph_decode_wire:
  assumes "unat sz \<le> length data"
  shows "(\<forall>as. GraphDecode data sz count = Some (GraphOk, as) \<longrightarrow>
      (\<exists>ws. take (unat sz) data = wire ws \<and> list_all wire_arg_ok ws \<and> length ws = unat count \<and> length ws \<le> 4 \<and>
        list_all2 decoded as ws)) \<and>
    (\<forall>ws. take (unat sz) data = wire ws \<and> list_all wire_arg_ok ws \<and> length ws = unat count \<and> length ws \<le> 4 \<longrightarrow>
      (\<exists>as. GraphDecode data sz count = Some (GraphOk, as) \<and> list_all2 decoded as ws))"
proof (cases "sz < 12")
  case True
  have "length (wire ws) \<ge> 12" for ws by (simp add: wire_def)
  moreover have "length (take (unat sz) data) < 12" using True assms by (simp add: word_less_nat_alt)
  ultimately have "take (unat sz) data \<noteq> wire ws" for ws by (metis not_le)
  then show ?thesis using True by (simp add: GraphDecode_def)
next
  case False
  then have sz: "12 \<le> unat sz" by (simp add: word_less_nat_alt)
  from wire_header [OF this assms] obtain x y z where
    xyz: "Graph_Le32 data 0 = Some x" "Graph_Le32 data 4 = Some y" "Graph_Le32 data 8 = Some z"
    and D: "take (unat sz) data = le32_bytes x @ le32_bytes y @ le32_bytes z @ drop 12 (take (unat sz) data)" .
  note h = GraphDecode_header [OF sz assms xyz]
  have wire: "take (unat sz) data = wire ws \<longleftrightarrow> x = 0x426f6541 \<and> y = sz \<and> z = of_nat (length ws) \<and>
      drop 12 (take (unat sz) data) = concat (map wire_bytes ws)" for ws
  proof -
    have "of_nat (12 + length (concat (map wire_bytes ws))) = sz" if "drop 12 (take (unat sz) data) = concat (map wire_bytes ws)"
    proof -
      have "12 + length (concat (map wire_bytes ws)) = unat sz"
        using arg_cong [OF that, of length] sz assms by (simp del: length_concat)
      then show ?thesis by (simp del: length_concat of_nat_add)
    qed
    then show ?thesis unfolding wire_def by (subst D) (auto simp: append_eq_append_conv simp del: length_concat)
  qed
  show ?thesis
  proof (intro conjI allI impI)
    fix as assume "GraphDecode data sz count = Some (GraphOk, as)"
    then have c: "x = 0x426f6541 \<and> y = sz \<and> z = count \<and> count \<le> 4"
      and d: "decode_from data sz (unat count) 12 = Some (GraphOk, as)"
      by (auto simp: h split: if_splits)
    obtain ws where ws: "list_all2 decoded as ws" "list_all wire_arg_ok ws" "length as = unat count"
        "drop 12 (take (unat sz) data) = concat (map wire_bytes ws)"
      using decode_total [of 12 sz data "unat count"] d sz assms by auto
    then have "length ws = unat count" by (simp add: list_all2_lengthD [symmetric])
    then show "\<exists>ws. take (unat sz) data = wire ws \<and> list_all wire_arg_ok ws \<and> length ws = unat count \<and> length ws \<le> 4 \<and>
        list_all2 decoded as ws"
      using c ws by (intro exI [of _ ws]) (auto simp: wire word_le_nat_alt)
  next
    fix ws assume "take (unat sz) data = wire ws \<and> list_all wire_arg_ok ws \<and> length ws = unat count \<and> length ws \<le> 4"
    then have ws: "x = 0x426f6541" "y = sz" "z = count" "unat count \<le> 4" "length ws = unat count"
      "drop 12 (take (unat sz) data) = concat (map wire_bytes ws)" "list_all wire_arg_ok ws"
      by (auto simp: wire)
    show "\<exists>as. GraphDecode data sz count = Some (GraphOk, as) \<and> list_all2 decoded as ws"
      using decode_complete [of 12 sz data ws] ws sz assms by (auto simp: h word_le_nat_alt)
  qed
qed

text \<open>A response with the integer 7 and the string \<open>"A"\<close>, and a byte of the buffer behind it.\<close>

theorem graph_decode_wire_witness:
  "\<exists>as. GraphDecode (wire [(0, [7, 0, 0, 0], []), (1, [0x41, 0], [0, 0])] @ [9]) 28 2 = Some (GraphOk, as) \<and>
     map ga_Type as = [0, 1]"
proof -
  let ?ws = "[(0, [7, 0, 0, 0], []), (1, [0x41, 0], [0, 0])] :: wire_arg list"
  have len: "length (wire ?ws) = 28" by (simp add: wire_def wire_bytes_def le16_bytes_def)
  obtain as where "GraphDecode (wire ?ws @ [9]) 28 2 = Some (GraphOk, as)" "list_all2 decoded as ?ws"
    using graph_decode_wire [of 28 "wire ?ws @ [9]" 2] len by (auto simp: wire_arg_ok_def)
  then show ?thesis by (auto simp: list_all2_Cons2 decoded_def)
qed

end
