(* ===== verification/Graph_Load.thy ===== *)
theory Graph_Load
  imports Graph_Decode Kernel
begin

text \<open>
  Loading the hardware graph into memory, the second part of \<open>pi5-graph/graph.c\<close>. A block of memory is its
  address and its contents; \<open>None\<close> is the null pointer. Where a result is an option, \<open>None\<close> says that the C
  code has no defined behaviour: it would read outside of an object or follow a null pointer, or the loop
  that fetches a property has not ended within its fuel.
\<close>

unbundle bit_operations_syntax

section \<open>State\<close>

abbreviation GRAPH_LIMIT :: u32 where "GRAPH_LIMIT \<equiv> 0x1000000"
abbreviation GRAPH_ITEMS :: u32 where "GRAPH_ITEMS \<equiv> 32640"
abbreviation GRAPH_RESPONSE :: u32 where "GRAPH_RESPONSE \<equiv> 8192"
abbreviation PI5_GRAPH_VERSION :: u32 where "PI5_GRAPH_VERSION \<equiv> 1"
abbreviation PI5_GRAPH_PATH :: u32 where "PI5_GRAPH_PATH \<equiv> 1024"
abbreviation PI5_GRAPH_PROPERTY_NAME :: u32 where "PI5_GRAPH_PROPERTY_NAME \<equiv> 256"
abbreviation PI5_GRAPH_CHUNK :: u32 where "PI5_GRAPH_CHUNK \<equiv> 4096"
abbreviation PI5_GRAPH_NONE :: u32 where "PI5_GRAPH_NONE \<equiv> 0xffffffff"

record GRAPH_INFO =
  gi_Version :: u32
  gi_Schema :: u32
  gi_Layout :: u32
  gi_Nodes :: u32
  gi_Properties :: u32
  gi_PropertyBytes :: u32
  gi_CacheBytes :: u32

text \<open>A property's name and data lie in one block, the data behind the name.\<close>

type_synonym block = "ptr \<times> bytes"

record GRAPH_PROPERTY =
  gp_Name :: "block option"
  gp_Data :: bytes
  gp_Length :: u32

record GRAPH_NODE =
  gn_Path :: "block option"
  gn_Owner :: "block option"
  gn_Parent :: u32
  gn_Count :: u32
  gn_Phandle :: u32
  gn_Properties :: "(ptr \<times> GRAPH_PROPERTY list) option"

record GRAPH =
  gr_Info :: GRAPH_INFO
  gr_Nodes :: "(ptr \<times> GRAPH_NODE list) option"

definition zero_property :: GRAPH_PROPERTY where
  "zero_property = \<lparr>gp_Name = None, gp_Data = [], gp_Length = 0\<rparr>"

definition zero_node :: GRAPH_NODE where
  "zero_node = \<lparr>gn_Path = None, gn_Owner = None, gn_Parent = 0, gn_Count = 0, gn_Phandle = 0, gn_Properties = None\<rparr>"

definition zero_graph :: GRAPH where
  "zero_graph = \<lparr>gr_Info = \<lparr>gi_Version = 0, gi_Schema = 0, gi_Layout = 0, gi_Nodes = 0, gi_Properties = 0,
     gi_PropertyBytes = 0, gi_CacheBytes = 0\<rparr>, gr_Nodes = None\<rparr>"

text \<open>The graph beside the state of the source it is loaded from. A source answers a function number and
  its arguments with a result, the number of bytes and the response buffer.\<close>

record 'x GRAPH_STATE =
  gs_Graph :: GRAPH
  gs_Source :: 'x

type_synonym 'x graph_source = "u32 \<Rightarrow> u32 list \<Rightarrow> ('x, GRAPH_RESULT \<times> u32 \<times> bytes) prog"

abbreviation on_graph :: "(GRAPH \<Rightarrow> GRAPH) \<Rightarrow> ('x GRAPH_STATE, unit) prog" where
  "on_graph f \<equiv> modify (\<lambda>s. s\<lparr>gs_Graph := f (gs_Graph s)\<rparr>)"

abbreviation on_info :: "(GRAPH_INFO \<Rightarrow> GRAPH_INFO) \<Rightarrow> ('x GRAPH_STATE, unit) prog" where
  "on_info f \<equiv> on_graph (\<lambda>g. g\<lparr>gr_Info := f (gr_Info g)\<rparr>)"

definition node_at :: "GRAPH \<Rightarrow> nat \<Rightarrow> GRAPH_NODE option" where
  "node_at g i = (case gr_Nodes g of None \<Rightarrow> None | Some (p, ns) \<Rightarrow> if i < length ns then Some (ns ! i) else None)"

definition upd_node :: "nat \<Rightarrow> (GRAPH_NODE \<Rightarrow> GRAPH_NODE) \<Rightarrow> GRAPH \<Rightarrow> GRAPH" where
  "upd_node i f g = g\<lparr>gr_Nodes := map_option (\<lambda>(p, ns). (p, ns[i := f (ns ! i)])) (gr_Nodes g)\<rparr>"

definition upd_prop :: "nat \<Rightarrow> (GRAPH_PROPERTY \<Rightarrow> GRAPH_PROPERTY) \<Rightarrow> GRAPH_NODE \<Rightarrow> GRAPH_NODE" where
  "upd_prop j f n = n\<lparr>gn_Properties := map_option (\<lambda>(p, ps). (p, ps[j := f (ps ! j)])) (gn_Properties n)\<rparr>"

abbreviation set_node :: "nat \<Rightarrow> (GRAPH_NODE \<Rightarrow> GRAPH_NODE) \<Rightarrow> ('x GRAPH_STATE, unit) prog" where
  "set_node i f \<equiv> on_graph (upd_node i f)"

definition props_of :: "GRAPH_NODE \<Rightarrow> GRAPH_PROPERTY list option" where
  "props_of n = (if gn_Count n = 0 then Some []
     else case gn_Properties n of
       None \<Rightarrow> None
     | Some (p, ps) \<Rightarrow> if length ps = unat (gn_Count n) then Some ps else None)"

definition prop_at :: "GRAPH \<Rightarrow> nat \<Rightarrow> nat \<Rightarrow> GRAPH_PROPERTY option" where
  "prop_at g i j = do {
     n \<leftarrow> node_at g i;
     ps \<leftarrow> props_of n;
     if j < length ps then Some (ps ! j) else None
   }"

section \<open>Memory\<close>

definition GRAPH_TAG :: u64 where "GRAPH_TAG = 0x67473550"

definition Graph_pool_Allocate :: "env \<Rightarrow> u64 \<Rightarrow> ('s, ptr) prog" where
  "Graph_pool_Allocate E n = io_call E ''ExAllocatePool2'' [0x100, n, GRAPH_TAG]"

definition Graph_pool_Free :: "env \<Rightarrow> ptr \<Rightarrow> ('s, unit) prog" where
  "Graph_pool_Free E p = kernel_do E ''ExFreePoolWithTag'' [p, GRAPH_TAG]"

definition Graph_Allocate :: "env \<Rightarrow> u64 \<Rightarrow> ('x GRAPH_STATE, ptr) prog" where
  "Graph_Allocate E n = do {
     g \<leftarrow> gets gs_Graph;
     if n = 0 \<or> n > ucast (GRAPH_LIMIT - gi_CacheBytes (gr_Info g)) then ret 0
     else do {
       p \<leftarrow> Graph_pool_Allocate E n;
       whenM (p \<noteq> 0) (on_info (\<lambda>i. i\<lparr>gi_CacheBytes := gi_CacheBytes i + ucast n\<rparr>));
       ret p
     }
   }"

definition CopyString :: "env \<Rightarrow> GRAPH_ARGUMENT \<Rightarrow> u32 \<Rightarrow> ('x GRAPH_STATE, block option option) prog" where
  "CopyString E a limit =
     (if ga_Type a \<noteq> 1 \<or> ucast (ga_Length a) > limit then ret (Some None)
      else do {
        p \<leftarrow> Graph_Allocate E (ucast (ga_Length a));
        ret (if p = 0 then Some None
          else if unat (ga_Length a) \<le> length (ga_Data a) then Some (Some (p, take (unat (ga_Length a)) (ga_Data a)))
          else None)
      })"

definition Graph_FreeBlock :: "env \<Rightarrow> block option \<Rightarrow> ('s, unit) prog" where
  "Graph_FreeBlock E b = (case b of None \<Rightarrow> ret () | Some x \<Rightarrow> Graph_pool_Free E (fst x))"

definition Graph_FreeNode :: "env \<Rightarrow> GRAPH_NODE \<Rightarrow> ('s, unit) prog" where
  "Graph_FreeNode E n = do {
     (case gn_Properties n of
        None \<Rightarrow> ret ()
      | Some (q, ps) \<Rightarrow> do {
          forM (take (unat (gn_Count n)) ps) (\<lambda>p. Graph_FreeBlock E (gp_Name p));
          Graph_pool_Free E q
        });
     Graph_FreeBlock E (gn_Path n);
     Graph_FreeBlock E (gn_Owner n)
   }"

definition GraphFree :: "env \<Rightarrow> ('x GRAPH_STATE, unit) prog" where
  "GraphFree E = do {
     g \<leftarrow> gets gs_Graph;
     (case gr_Nodes g of
        None \<Rightarrow> ret ()
      | Some (p, ns) \<Rightarrow> do {
          forM (take (unat (gi_Nodes (gr_Info g))) ns) (Graph_FreeNode E);
          Graph_pool_Free E p
        });
     on_graph (\<lambda>_. zero_graph)
   }"

section \<open>Looking up a property\<close>

fun find_property :: "GRAPH_PROPERTY list \<Rightarrow> bytes \<Rightarrow> GRAPH_PROPERTY option option" where
  "find_property [] name = Some None"
| "find_property (p # ps) name = do {
     b \<leftarrow> gp_Name p;
     e \<leftarrow> str_eq (snd b) name;
     if e then Some (Some p) else find_property ps name
   }"

definition GraphProperty :: "GRAPH \<Rightarrow> u32 \<Rightarrow> bytes \<Rightarrow> GRAPH_PROPERTY option option" where
  "GraphProperty g node name =
     (if node \<ge> gi_Nodes (gr_Info g) then Some None
      else do {
        n \<leftarrow> node_at g (unat node);
        ps \<leftarrow> props_of n;
        find_property ps name
      })"

section \<open>Loading\<close>

text \<open>The early returns of the loader. A reply is used when it is complete, a condition when it has a value,
  and an integer is stored before it is looked at.\<close>

type_synonym 'x load = "('x GRAPH_STATE, GRAPH_RESULT option) prog"

abbreviation stop :: "GRAPH_RESULT \<Rightarrow> 'x load" where
  "stop r \<equiv> ret (Some r)"

definition defined_then :: "'a option \<Rightarrow> ('a \<Rightarrow> 'x load) \<Rightarrow> 'x load" where
  "defined_then v k = (case v of None \<Rightarrow> ret None | Some x \<Rightarrow> k x)"

definition unless_invalid :: "bool option \<Rightarrow> 'x load \<Rightarrow> 'x load" where
  "unless_invalid c m = defined_then c (\<lambda>b. if b then m else stop GraphInvalid)"

definition integer_then :: "GRAPH_ARGUMENT \<Rightarrow> (u32 \<Rightarrow> ('x GRAPH_STATE, unit) prog) \<Rightarrow> (u32 \<Rightarrow> 'x load) \<Rightarrow> 'x load" where
  "integer_then a store k = defined_then (Graph_Integer a) (\<lambda>v. case v of
     None \<Rightarrow> stop GraphInvalid
   | Some x \<Rightarrow> do { store x; k x })"

definition Graph_Evaluate :: "'x graph_source \<Rightarrow> u32 \<Rightarrow> u32 list \<Rightarrow> u32 \<Rightarrow>
    ('x GRAPH_STATE, (GRAPH_RESULT \<times> GRAPH_ARGUMENT list) option) prog" where
  "Graph_Evaluate ev function values expected = do {
     (r, used, buffer) \<leftarrow> zoom gs_Source gs_Source_update (ev function values);
     ret (if r \<noteq> GraphOk then Some (r, [])
       else if used > GRAPH_RESPONSE then Some (GraphInvalid, [])
       else GraphDecode buffer used expected)
   }"

definition reply_then :: "'x graph_source \<Rightarrow> u32 \<Rightarrow> u32 list \<Rightarrow> u32 \<Rightarrow> (GRAPH_ARGUMENT list \<Rightarrow> 'x load) \<Rightarrow> 'x load" where
  "reply_then ev function values expected k = do {
     reply \<leftarrow> Graph_Evaluate ev function values expected;
     defined_then reply (\<lambda>(r, a). if r = GraphOk then k a else stop r)
   }"

fun untilM :: "nat list \<Rightarrow> (nat \<Rightarrow> 'x load) \<Rightarrow> 'x load" where
  "untilM [] f = stop GraphOk"
| "untilM (i # is) f = do { r \<leftarrow> f i; if r = Some GraphOk then untilM is f else ret r }"

definition ascii :: "string \<Rightarrow> bytes" where
  "ascii s = map of_char s @ [0]"

text \<open>The function bitmap and the size of the graph.\<close>

definition functions_ok :: "GRAPH_ARGUMENT \<Rightarrow> bool option" where
  "functions_ok a = (if ga_Type a \<noteq> 2 \<or> ga_Length a < 1 then Some False
     else do { b \<leftarrow> at_byte (ga_Data a) 0; Some (b AND 15 = 15) })"

definition Load_info :: "env \<Rightarrow> 'x graph_source \<Rightarrow> 'x load" where
  "Load_info E ev =
     reply_then ev 0 [] 1 (\<lambda>a. unless_invalid (functions_ok (a ! 0)) (
     reply_then ev 1 [] 3 (\<lambda>a.
     integer_then (a ! 0) (\<lambda>v. on_info (\<lambda>i. i\<lparr>gi_Schema := v\<rparr>)) (\<lambda>schema.
     if schema \<noteq> 1 then stop GraphInvalid else
     integer_then (a ! 1) (\<lambda>v. on_info (\<lambda>i. i\<lparr>gi_Nodes := v\<rparr>)) (\<lambda>nodes.
     if nodes = 0 \<or> nodes > GRAPH_ITEMS then stop GraphInvalid else
     integer_then (a ! 2) (\<lambda>v. on_info (\<lambda>i. i\<lparr>gi_Layout := v\<rparr>)) (\<lambda>layout.
     if layout > 1 then stop GraphInvalid
     else do {
       p \<leftarrow> Graph_Allocate E (40 * ucast nodes);
       if p = 0 then stop GraphNoMemory
       else do {
         on_graph (\<lambda>g. g\<lparr>gr_Nodes := Some (p, replicate (unat nodes) zero_node)\<rparr>);
         stop GraphOk
       }
     }))))))"

text \<open>The checks of a node: the reply, the position of its path below its parent's, names used before.\<close>

definition node_reply_ok :: "GRAPH_ARGUMENT \<Rightarrow> GRAPH_ARGUMENT \<Rightarrow> bool option" where
  "node_reply_ok path owner =
     (if ga_Type path \<noteq> 1 \<or> ucast (ga_Length path) > PI5_GRAPH_PATH then Some False
      else do {
        c \<leftarrow> at_byte (ga_Data path) 0;
        if c \<noteq> 0x2f \<or> ga_Type owner \<noteq> 1 \<or> ucast (ga_Length owner) > PI5_GRAPH_PATH then Some False
        else do { d \<leftarrow> at_byte (ga_Data owner) 0; Some (d = 0 \<or> d = 0x5c) }
      })"

definition parent_ok :: "nat \<Rightarrow> u32 \<Rightarrow> GRAPH_ARGUMENT \<Rightarrow> bool option" where
  "parent_ok i parent path =
     (if i = 0 then if parent \<noteq> PI5_GRAPH_NONE then Some False else str_eq (ga_Data path) (ascii ''/'')
      else Some (parent < of_nat i))"

fun unused_name :: "block option list \<Rightarrow> bytes \<Rightarrow> bool option" where
  "unused_name [] s = Some True"
| "unused_name (b # bs) s = do {
     x \<leftarrow> b;
     e \<leftarrow> str_eq (snd x) s;
     if e then Some False else unused_name bs s
   }"

definition child_ok :: "bytes \<Rightarrow> bytes \<Rightarrow> bool \<Rightarrow> bool option" where
  "child_ok parent path deep = do {
     p \<leftarrow> cstr parent;
     s \<leftarrow> cstr path;
     if length s \<le> length p \<or> take (length p) s \<noteq> p \<or> (deep \<and> s ! length p \<noteq> 0x2f) then Some False
     else let child = drop (if deep then length p + 1 else 1) s in Some (child \<noteq> [] \<and> 0x2f \<notin> set child)
   }"

definition node_child_ok :: "GRAPH \<Rightarrow> nat \<Rightarrow> bool option" where
  "node_child_ok g i =
     (if i = 0 then Some True
      else do {
        n \<leftarrow> node_at g i;
        m \<leftarrow> node_at g (unat (gn_Parent n));
        p \<leftarrow> gn_Path m;
        s \<leftarrow> gn_Path n;
        child_ok (snd p) (snd s) (gn_Parent n \<noteq> 0)
      })"

fun depth_ok :: "GRAPH \<Rightarrow> nat \<Rightarrow> u32 \<Rightarrow> bool option" where
  "depth_ok g k parent =
     (if parent = PI5_GRAPH_NONE then Some True
      else case k of
        0 \<Rightarrow> Some False
      | Suc k \<Rightarrow> do { n \<leftarrow> node_at g (unat parent); depth_ok g k (gn_Parent n) })"

definition paths_before :: "GRAPH \<Rightarrow> nat \<Rightarrow> block option list" where
  "paths_before g i = (case gr_Nodes g of None \<Rightarrow> [None] | Some (p, ns) \<Rightarrow> map gn_Path (take i ns))"

definition names_before :: "GRAPH \<Rightarrow> nat \<Rightarrow> nat \<Rightarrow> block option list" where
  "names_before g i j = (case node_at g i of None \<Rightarrow> [None]
     | Some n \<Rightarrow> case gn_Properties n of None \<Rightarrow> [None] | Some (p, ps) \<Rightarrow> map gp_Name (take j ps))"

text \<open>One chunk of a property. The first one allocates the block.\<close>

definition Load_first_chunk :: "env \<Rightarrow> nat \<Rightarrow> nat \<Rightarrow> GRAPH_ARGUMENT \<Rightarrow> u32 \<Rightarrow> 'x load \<Rightarrow> 'x load" where
  "Load_first_chunk E i j a tot k = do {
     p \<leftarrow> Graph_Allocate E (ucast (ga_Length a) + ucast tot);
     if p = 0 then stop GraphNoMemory
     else if unat (ga_Length a) > length (ga_Data a) then ret None
     else do {
       set_node i (upd_prop j (\<lambda>q. q\<lparr>gp_Name := Some (p, take (unat (ga_Length a)) (ga_Data a)),
         gp_Data := replicate (unat tot) 0, gp_Length := tot\<rparr>));
       on_info (\<lambda>f. f\<lparr>gi_PropertyBytes := gi_PropertyBytes f + tot\<rparr>);
       g \<leftarrow> gets gs_Graph;
       unless_invalid (unused_name (names_before g i j) (take (unat (ga_Length a)) (ga_Data a))) k
     }
   }"

definition chunk_name_ok :: "GRAPH_ARGUMENT \<Rightarrow> bool" where
  "chunk_name_ok a \<longleftrightarrow> ga_Type a = 1 \<and> ga_Length a \<ge> 2 \<and> ucast (ga_Length a) \<le> PI5_GRAPH_PROPERTY_NAME"

definition chunk_size :: "GRAPH_ARGUMENT \<Rightarrow> u32 \<Rightarrow> u32 \<Rightarrow> u32 option option" where
  "chunk_size a offset tot =
     (if ga_Type a = 2 then Some (Some (ucast (ga_Length a)))
      else do {
        v \<leftarrow> Graph_Integer a;
        Some (if v = Some 0 \<and> offset = tot then Some 0 else None)
      })"

definition Load_same_name :: "GRAPH \<Rightarrow> nat \<Rightarrow> nat \<Rightarrow> GRAPH_ARGUMENT \<Rightarrow> u32 \<Rightarrow> bool option" where
  "Load_same_name g i j a tot = do {
     q \<leftarrow> prop_at g i j;
     if tot \<noteq> gp_Length q then Some False
     else do { b \<leftarrow> gp_Name q; str_eq (ga_Data a) (snd b) }
   }"

definition Load_store :: "nat \<Rightarrow> nat \<Rightarrow> u32 \<Rightarrow> u32 \<Rightarrow> GRAPH_ARGUMENT \<Rightarrow> (u32 \<Rightarrow> 'x load) \<Rightarrow> 'x load" where
  "Load_store i j offset tot a k =
     defined_then (chunk_size a offset tot) (\<lambda>c. case c of
       None \<Rightarrow> stop GraphInvalid
     | Some chunk \<Rightarrow>
         if chunk > PI5_GRAPH_CHUNK \<or> chunk > tot - offset \<or> (chunk = 0 \<and> offset \<noteq> tot) then stop GraphInvalid
         else if unat chunk > length (ga_Data a) then ret None
         else do {
           set_node i (upd_prop j (\<lambda>q. q\<lparr>gp_Data := take (unat offset) (gp_Data q) @ take (unat chunk) (ga_Data a) @
             drop (unat offset + unat chunk) (gp_Data q)\<rparr>));
           k (offset + chunk)
         })"

text \<open>The chunks of property \<open>j\<close> of node \<open>i\<close> from an offset on. The fuel is the number of replies.\<close>

fun Load_chunks :: "env \<Rightarrow> 'x graph_source \<Rightarrow> nat \<Rightarrow> nat \<Rightarrow> nat \<Rightarrow> u32 \<Rightarrow> 'x load" where
  "Load_chunks E ev 0 i j offset = ret None"
| "Load_chunks E ev (Suc fuel) i j offset =
     reply_then ev 3 [of_nat i, of_nat j, offset] 3 (\<lambda>a.
     if \<not> chunk_name_ok (a ! 0) then stop GraphInvalid
     else defined_then (Graph_Integer (a ! 1)) (\<lambda>v. case v of
       None \<Rightarrow> stop GraphInvalid
     | Some tot \<Rightarrow>
         if tot > GRAPH_LIMIT then stop GraphInvalid
         else
           let store = Load_store i j offset tot (a ! 2) (\<lambda>next. do {
             g \<leftarrow> gets gs_Graph;
             defined_then (prop_at g i j) (\<lambda>q.
               if next < gp_Length q then Load_chunks E ev fuel i j next else stop GraphOk)
           })
           in if offset = 0 then Load_first_chunk E i j (a ! 0) tot store
           else do {
             g \<leftarrow> gets gs_Graph;
             unless_invalid (Load_same_name g i j (a ! 0) tot) store
           }))"

definition Load_properties :: "env \<Rightarrow> 'x graph_source \<Rightarrow> nat \<Rightarrow> nat \<Rightarrow> u32 \<Rightarrow> 'x load" where
  "Load_properties E ev fuel i count =
     (if count = 0 then stop GraphOk
      else do {
        p \<leftarrow> Graph_Allocate E (24 * ucast count);
        if p = 0 then stop GraphNoMemory
        else do {
          set_node i (\<lambda>n. n\<lparr>gn_Properties := Some (p, replicate (unat count) zero_property)\<rparr>);
          untilM [0..<unat count] (\<lambda>j. Load_chunks E ev fuel i j 0)
        }
      })"

definition Load_strings :: "env \<Rightarrow> nat \<Rightarrow> GRAPH_ARGUMENT \<Rightarrow> GRAPH_ARGUMENT \<Rightarrow> 'x load \<Rightarrow> 'x load" where
  "Load_strings E i path owner k = do {
     x \<leftarrow> CopyString E path PI5_GRAPH_PATH;
     defined_then x (\<lambda>p. do {
       set_node i (\<lambda>n. n\<lparr>gn_Path := p\<rparr>);
       x \<leftarrow> CopyString E owner PI5_GRAPH_PATH;
       defined_then x (\<lambda>o'. do {
         set_node i (\<lambda>n. n\<lparr>gn_Owner := o'\<rparr>);
         if p = None \<or> o' = None then stop GraphNoMemory else k
       })
     })
   }"

definition node_path_ok :: "GRAPH \<Rightarrow> nat \<Rightarrow> u32 \<Rightarrow> bool option" where
  "node_path_ok g i parent = do {
     n \<leftarrow> node_at g i;
     s \<leftarrow> gn_Path n;
     fresh \<leftarrow> unused_name (paths_before g i) (snd s);
     if \<not> fresh then Some False
     else do {
       below \<leftarrow> node_child_ok g i;
       if \<not> below then Some False else depth_ok g 64 parent
     }
   }"

definition Load_node :: "env \<Rightarrow> 'x graph_source \<Rightarrow> nat \<Rightarrow> nat \<Rightarrow> 'x load" where
  "Load_node E ev fuel i =
     reply_then ev 2 [of_nat i] 4 (\<lambda>a.
     unless_invalid (node_reply_ok (a ! 0) (a ! 2)) (
     integer_then (a ! 1) (\<lambda>v. set_node i (\<lambda>n. n\<lparr>gn_Parent := v\<rparr>)) (\<lambda>parent.
     integer_then (a ! 3) (\<lambda>v. set_node i (\<lambda>n. n\<lparr>gn_Count := v\<rparr>)) (\<lambda>count. do {
     g \<leftarrow> gets gs_Graph;
     if count > GRAPH_ITEMS - gi_Properties (gr_Info g) then stop GraphInvalid
     else unless_invalid (parent_ok i parent (a ! 0)) (do {
       on_info (\<lambda>f. f\<lparr>gi_Properties := gi_Properties f + count\<rparr>);
       Load_strings E i (a ! 0) (a ! 2) (do {
         g \<leftarrow> gets gs_Graph;
         unless_invalid (node_path_ok g i parent) (Load_properties E ev fuel i count)
       })
     })
     }))))"

text \<open>The handle of a node, from either of two properties.\<close>

definition same_property :: "GRAPH_PROPERTY \<Rightarrow> GRAPH_PROPERTY \<Rightarrow> bool option" where
  "same_property p q =
     (if gp_Length p \<noteq> gp_Length q then Some False
      else if unat (gp_Length p) \<le> length (gp_Data p) \<and> unat (gp_Length p) \<le> length (gp_Data q)
      then Some (take (unat (gp_Length p)) (gp_Data p) = take (unat (gp_Length p)) (gp_Data q))
      else None)"

definition handle_property :: "GRAPH \<Rightarrow> nat \<Rightarrow> GRAPH_PROPERTY option option option" where
  "handle_property g i = do {
     p \<leftarrow> GraphProperty g (of_nat i) (ascii ''phandle'');
     q \<leftarrow> GraphProperty g (of_nat i) (ascii ''linux,phandle'');
     (case (p, q) of
        (Some x, Some y) \<Rightarrow> do { e \<leftarrow> same_property x y; Some (if e then Some p else None) }
      | (Some x, None) \<Rightarrow> Some (Some p)
      | (None, _) \<Rightarrow> Some (Some q))
   }"

definition handles_before :: "GRAPH \<Rightarrow> nat \<Rightarrow> u32 list option" where
  "handles_before g i = (case gr_Nodes g of None \<Rightarrow> None | Some (p, ns) \<Rightarrow> Some (map gn_Phandle (take i ns)))"

definition Load_phandle :: "nat \<Rightarrow> 'x load" where
  "Load_phandle i = do {
     g \<leftarrow> gets gs_Graph;
     defined_then (handle_property g i) (\<lambda>found. case found of
       None \<Rightarrow> stop GraphInvalid
     | Some None \<Rightarrow> stop GraphOk
     | Some (Some p) \<Rightarrow>
         if gp_Length p \<noteq> 4 then stop GraphInvalid
         else defined_then (Graph_Be32 (gp_Data p) 0) (\<lambda>v.
           if v = 0 \<or> v = 0xffffffff then stop GraphInvalid
           else do {
             set_node i (\<lambda>n. n\<lparr>gn_Phandle := v\<rparr>);
             defined_then (handles_before g i) (\<lambda>hs. if v \<in> set hs then stop GraphInvalid else stop GraphOk)
           }))
   }"

definition Graph_Load :: "env \<Rightarrow> 'x graph_source \<Rightarrow> nat \<Rightarrow> 'x load" where
  "Graph_Load E ev fuel = do {
     r \<leftarrow> Load_info E ev;
     if r \<noteq> Some GraphOk then ret r
     else do {
       g \<leftarrow> gets gs_Graph;
       let items = [0..<unat (gi_Nodes (gr_Info g))];
       r \<leftarrow> untilM items (Load_node E ev fuel);
       if r \<noteq> Some GraphOk then ret r else untilM items Load_phandle
     }
   }"

definition GraphLoad :: "env \<Rightarrow> 'x graph_source \<Rightarrow> nat \<Rightarrow> 'x load" where
  "GraphLoad E ev fuel = do {
     on_graph (\<lambda>_. zero_graph\<lparr>gr_Info := gr_Info zero_graph\<lparr>gi_Version := PI5_GRAPH_VERSION\<rparr>\<rparr>);
     buffer \<leftarrow> Graph_pool_Allocate E (ucast GRAPH_RESPONSE);
     if buffer = 0 then stop GraphNoMemory
     else do {
       r \<leftarrow> Graph_Load E ev fuel;
       Graph_pool_Free E buffer;
       whenM (r \<noteq> Some GraphOk) (GraphFree E);
       ret r
     }
   }"

end
