(* ===== verification/Graph_Loading.thy ===== *)
theory Graph_Loading
  imports Graph_Load "HOL-Library.Multiset"
begin

text \<open>
  What the loader of \<open>Graph_Load\<close> guarantees. Every address the pool hands out is accounted for: it is owned
  by exactly one block of the graph, or was given back. The nodes loaded so far form a tree. The locale
  \<open>graph_source\<close> states what the loader needs from the source of the replies.
\<close>

unbundle bit_operations_syntax

section \<open>Whose memory is allocated\<close>

text \<open>How often an address has been handed out by the pool and not given back.\<close>

fun outstanding :: "io_event list \<Rightarrow> ptr \<Rightarrow> int" where
  "outstanding [] p = 0"
| "outstanding (Call f xs y # t) p = outstanding t p +
     (if f = ''ExAllocatePool2'' \<and> y = p \<and> p \<noteq> 0 then 1 else 0) -
     (if f = ''ExFreePoolWithTag'' \<and> xs = [p, GRAPH_TAG] then 1 else 0)"
| "outstanding (e # t) p = outstanding t p"

definition no_pool :: "io_event \<Rightarrow> bool" where
  "no_pool e \<longleftrightarrow> (\<forall>f xs y. e = Call f xs y \<longrightarrow> f \<noteq> ''ExAllocatePool2'' \<and> f \<noteq> ''ExFreePoolWithTag'')"

lemma outstanding_no_pool: "no_pool e \<Longrightarrow> outstanding (e # t) p = outstanding t p"
  by (cases e) (auto simp: no_pool_def)

lemma outstanding_ext: "extends no_pool t t' \<Longrightarrow> outstanding t' p = outstanding t p"
proof -
  assume "extends no_pool t t'"
  then obtain es where es: "t' = es @ t" "\<forall>e\<in>set es. no_pool e" by (auto simp: extends_def)
  from es(2) have "outstanding (es @ t) p = outstanding t p"
    by (induction es) (simp_all add: outstanding_no_pool)
  then show ?thesis by (simp add: es(1))
qed

definition owned_block :: "block option \<Rightarrow> ptr multiset" where
  "owned_block b = (case b of None \<Rightarrow> {#} | Some x \<Rightarrow> {#fst x#})"

definition owned_props :: "(ptr \<times> GRAPH_PROPERTY list) option \<Rightarrow> ptr multiset" where
  "owned_props ps = (case ps of None \<Rightarrow> {#} | Some (q, ps) \<Rightarrow> {#q#} + (\<Sum>p\<leftarrow>ps. owned_block (gp_Name p)))"

definition owned_node :: "GRAPH_NODE \<Rightarrow> ptr multiset" where
  "owned_node n = owned_props (gn_Properties n) + owned_block (gn_Path n) + owned_block (gn_Owner n)"

definition owned :: "GRAPH \<Rightarrow> ptr multiset" where
  "owned g = (case gr_Nodes g of None \<Rightarrow> {#} | Some (p, ns) \<Rightarrow> {#p#} + (\<Sum>n\<leftarrow>ns. owned_node n))"

lemma owned_simps [simp]:
  "owned_block None = {#}" "owned_block (Some (p, d)) = {#p#}" "owned_props None = {#}"
  "owned_props (Some (q, ps)) = {#q#} + (\<Sum>p\<leftarrow>ps. owned_block (gp_Name p))"
  "owned zero_graph = {#}" "owned_node zero_node = {#}"
  by (simp_all add: owned_block_def owned_props_def owned_def owned_node_def zero_graph_def zero_node_def)

lemma owned_zero_property [simp]: "owned_block (gp_Name zero_property) = {#}"
  by (simp add: zero_property_def)

lemma sum_list_empty [simp]: "sum_list (replicate k {#}) = {#}"
  by (induction k) simp_all

lemma sum_list_update:
  fixes f :: "'a \<Rightarrow> 'b::{cancel_comm_monoid_add}"
  shows "i < length xs \<Longrightarrow> (\<Sum>x\<leftarrow>xs[i := y]. f x) + f (xs ! i) = (\<Sum>x\<leftarrow>xs. f x) + f y"
proof (induction xs arbitrary: i)
  case (Cons x xs)
  then show ?case by (cases i) (auto simp: ac_simps)
qed simp

text \<open>The lists have the lengths the counters say, so that freeing by the counters frees all of it.\<close>

definition node_shape :: "GRAPH_NODE \<Rightarrow> bool" where
  "node_shape n \<longleftrightarrow> (\<forall>q ps. gn_Properties n = Some (q, ps) \<longrightarrow> length ps = unat (gn_Count n))"

definition graph_shape :: "GRAPH \<Rightarrow> bool" where
  "graph_shape g \<longleftrightarrow> (\<forall>p ns. gr_Nodes g = Some (p, ns) \<longrightarrow>
     length ns = unat (gi_Nodes (gr_Info g)) \<and> (\<forall>n\<in>set ns. node_shape n)) \<and>
     gi_CacheBytes (gr_Info g) \<le> GRAPH_LIMIT \<and> gi_Properties (gr_Info g) \<le> GRAPH_ITEMS"

definition accounts :: "(ptr \<Rightarrow> int) \<Rightarrow> ptr multiset \<Rightarrow> 'x GRAPH_STATE world \<Rightarrow> bool" where
  "accounts base held w \<longleftrightarrow> graph_shape (gs_Graph (st w)) \<and>
     (\<forall>x. outstanding (trace w) x = base x + int (count (owned (gs_Graph (st w)) + held) x))"

lemma outstanding_FreeBlock:
  "wp (Graph_FreeBlock E b) (\<lambda>_ v. st v = st w \<and> (\<forall>x. outstanding (trace v) x = outstanding (trace w) x - int (count (owned_block b) x))) w"
  by (auto simp: Graph_FreeBlock_def Graph_pool_Free_def wp_simps owned_block_def split: option.splits)

lemma wp_forM_sum:
  assumes "\<And>x w. x \<in> set xs \<Longrightarrow> wp (f x) (\<lambda>_ v. st v = st w \<and> (\<forall>p. outstanding (trace v) p = outstanding (trace w) p - int (count (h x) p))) w"
  shows "wp (forM xs f) (\<lambda>_ v. st v = st w \<and> (\<forall>p. outstanding (trace v) p = outstanding (trace w) p - int (count (\<Sum>x\<leftarrow>xs. h x) p))) w"
  using assms
proof (induction xs arbitrary: w)
  case (Cons x xs)
  show ?case
    unfolding forM.simps
    by (intro wp_bindI wp_mono [OF Cons.prems] wp_mono [OF Cons.IH]) (use Cons.prems in auto)
qed (simp add: wp_simps)

lemma outstanding_FreeNode:
  "node_shape n \<Longrightarrow>
   wp (Graph_FreeNode E n) (\<lambda>_ v. st v = st w \<and> (\<forall>x. outstanding (trace v) x = outstanding (trace w) x - int (count (owned_node n) x))) w"
proof -
  assume shape: "node_shape n"
  have "wp (case gn_Properties n of None \<Rightarrow> ret ()
      | Some (q, ps) \<Rightarrow> do { forM (take (unat (gn_Count n)) ps) (\<lambda>p. Graph_FreeBlock E (gp_Name p)); Graph_pool_Free E q })
     (\<lambda>_ v. st v = st w \<and> (\<forall>x. outstanding (trace v) x = outstanding (trace w) x - int (count (owned_props (gn_Properties n)) x))) w" for w :: "'a world"
  proof (cases "gn_Properties n")
    case None
    then show ?thesis by (simp add: wp_simps)
  next
    case (Some a)
    obtain q ps where a: "a = (q, ps)" by (cases a)
    have len: "take (unat (gn_Count n)) ps = ps" using shape Some a by (simp add: node_shape_def)
    show ?thesis
      unfolding Some a option.case prod.case len
      by (intro wp_bindI, rule wp_mono, rule wp_forM_sum [where h = "\<lambda>p. owned_block (gp_Name p)"], rule outstanding_FreeBlock)
        (auto simp: Graph_pool_Free_def wp_simps)
  qed
  note props = this
  show ?thesis
    unfolding Graph_FreeNode_def
    by (rule wp_bindI, rule wp_mono [OF props], rule wp_bindI, rule wp_mono [OF outstanding_FreeBlock],
        rule wp_mono [OF outstanding_FreeBlock]) (auto simp: owned_node_def)
qed

lemma accounts_GraphFree:
  assumes "accounts base held w"
  shows "wp (GraphFree E) (\<lambda>_ v. gs_Graph (st v) = zero_graph \<and> accounts base held v) w"
proof (cases "gr_Nodes (gs_Graph (st w))")
  case None
  then show ?thesis using assms by (simp add: GraphFree_def wp_simps accounts_def owned_def graph_shape_def zero_graph_def)
next
  case (Some a)
  obtain p ns where a: "a = (p, ns)" by (cases a)
  have len: "take (unat (gi_Nodes (gr_Info (gs_Graph (st w))))) ns = ns" and shape: "\<And>n. n \<in> set ns \<Longrightarrow> node_shape n"
    using assms Some a by (auto simp: accounts_def graph_shape_def)
  show ?thesis
    unfolding GraphFree_def
    apply (intro wp_bindI wp_getsI)
    unfolding Some a option.case prod.case len
    apply (rule wp_bindI, rule wp_mono, rule wp_forM_sum [where h = owned_node], rule outstanding_FreeNode [OF shape], assumption)
    using assms by (auto simp: Graph_pool_Free_def wp_simps accounts_def owned_def Some a graph_shape_def zero_graph_def)
qed

section \<open>The steps of the loader\<close>

text \<open>What a step guarantees: its behaviour is defined, the memory stays accounted for, and when it does not
  stop the load a condition holds.\<close>

definition load_post :: "(ptr \<Rightarrow> int) \<Rightarrow> ptr multiset \<Rightarrow> ('x GRAPH_STATE world \<Rightarrow> bool) \<Rightarrow>
    GRAPH_RESULT option \<Rightarrow> 'x GRAPH_STATE world \<Rightarrow> bool" where
  "load_post base held S r v \<longleftrightarrow> r \<noteq> None \<and> accounts base held v \<and> (r = Some GraphOk \<longrightarrow> S v)"

lemma load_postI: "accounts base held w \<Longrightarrow> (r = GraphOk \<Longrightarrow> S w) \<Longrightarrow> load_post base held S (Some r) w"
  by (simp add: load_post_def)

lemma wp_stop: "accounts base held w \<Longrightarrow> (r = GraphOk \<Longrightarrow> S w) \<Longrightarrow> wp (stop r) (load_post base held S) w"
  by (simp add: wp_simps load_post_def)

lemma wp_defined: "v = Some x \<Longrightarrow> wp (k x) Q w \<Longrightarrow> wp (defined_then v k) Q w"
  by (simp add: defined_then_def)

lemma wp_unless:
  "c = Some b \<Longrightarrow> accounts base held w \<Longrightarrow> (b \<Longrightarrow> wp m (load_post base held S) w) \<Longrightarrow>
   wp (unless_invalid c m) (load_post base held S) w"
  by (auto simp: unless_invalid_def defined_then_def intro!: wp_stop)

lemma Integer_defined: "arg_ok a \<Longrightarrow> \<exists>v. Graph_Integer a = Some v"
  by (auto simp: Graph_Integer_def arg_ok_def in_object)

lemma wp_integer:
  assumes "arg_ok a" "accounts base held w" "\<And>x. wp (do { store x; k x }) (load_post base held S) w"
  shows "wp (integer_then a store k) (load_post base held S) w"
  using Integer_defined [OF assms(1)] assms(2,3)
  by (auto simp: integer_then_def defined_then_def split: option.splits intro!: wp_stop)

lemma accounts_trace:
  "accounts base held w \<Longrightarrow> trace_ext no_pool w v \<Longrightarrow> gs_Graph (st v) = gs_Graph (st w) \<Longrightarrow> accounts base held v"
  by (auto simp: accounts_def trace_ext_def outstanding_ext)

text \<open>What the loader relies on at its source: a full buffer, and no use of the loader's memory pool.\<close>

locale graph_source =
  fixes ev :: "'x graph_source"
  assumes reply: "wp (ev f vs) (\<lambda>(r, used, buffer) v. length buffer = 8192 \<and> trace_ext no_pool w v) w"
begin

lemma wp_reply:
  assumes "accounts base held w"
    and "\<And>a v. accounts base held v \<Longrightarrow> gs_Graph (st v) = gs_Graph (st w) \<Longrightarrow> length a = unat n \<Longrightarrow>
      (\<And>x. x \<in> set a \<Longrightarrow> arg_ok x) \<Longrightarrow> wp (k a) (load_post base held S) v"
  shows "wp (reply_then ev f vs n k) (load_post base held S) w"
proof -
  have decode: "\<exists>r as. GraphDecode b u n = Some (r, as) \<and> (r = GraphOk \<longrightarrow> length as = unat n \<and> (\<forall>a\<in>set as. arg_ok a))"
    if "length b = 8192" "\<not> u > GRAPH_RESPONSE" for b u
    using decode_safe [of u b n] that by (auto simp: word_less_nat_alt not_less)
  show ?thesis
    unfolding reply_then_def Graph_Evaluate_def
    apply (intro wp_bindI wp_zoomI)
    apply (rule wp_mono [OF reply])
    apply (simp split: prod.splits)
    subgoal for x v r y used buffer
      using accounts_trace [OF assms(1), of "\<lparr>st = gs_Source_update (\<lambda>_. st v) (st w), trace = trace v\<rparr>"]
        decode [of buffer used]
      by (auto simp: wp_simps defined_then_def trace_ext_def wp_stop split: option.splits
        intro!: assms(2) load_postI)
    done
qed

end

lemma wp_Allocate:
  assumes "accounts base held w"
    and "\<And>v. accounts base held v \<Longrightarrow> gs_Graph (st v) = gs_Graph (st w) \<Longrightarrow> Q 0 v"
    and "\<And>p v. p \<noteq> 0 \<Longrightarrow> accounts base (held + {#p#}) v \<Longrightarrow> gr_Nodes (gs_Graph (st v)) = gr_Nodes (gs_Graph (st w)) \<Longrightarrow>
      gi_Nodes (gr_Info (gs_Graph (st v))) = gi_Nodes (gr_Info (gs_Graph (st w))) \<Longrightarrow> Q p v"
  shows "wp (Graph_Allocate E n) Q w"
proof -
  let ?c = "gi_CacheBytes (gr_Info (gs_Graph (st w)))"
  have c: "?c \<le> GRAPH_LIMIT" using assms(1) by (simp add: accounts_def graph_shape_def)
  have fits: "?c + ucast n \<le> GRAPH_LIMIT" if "\<not> n > ucast (GRAPH_LIMIT - ?c)"
  proof -
    have d: "unat (GRAPH_LIMIT - ?c) = unat GRAPH_LIMIT - unat ?c" using c by (simp add: unat_sub word_le_nat_alt)
    have n: "unat n \<le> unat GRAPH_LIMIT - unat ?c"
      using that d by (simp add: word_less_nat_alt unat_ucast_up not_less)
    then have "unat (ucast n :: u32) = unat n" by (intro unat_ucast_small) simp
    moreover have "unat ?c + unat n \<le> 16777216" using n c by (simp add: word_le_nat_alt)
    ultimately show ?thesis by (simp add: word_le_nat_alt unat_add_small)
  qed
  show ?thesis
    unfolding Graph_Allocate_def Graph_pool_Allocate_def
    apply (intro wp_bindI wp_getsI wp_ifI wp_returnI wp_whenI wp_modifyI wp_call_any)
    subgoal by (rule assms(2)) (use assms(1) in auto)
    subgoal by (rule assms(3)) (use assms(1) fits in \<open>auto simp: accounts_def graph_shape_def owned_def\<close>)
    subgoal by (simp, rule assms(2)) (use assms(1) in \<open>auto simp: accounts_def\<close>)
    done
qed

definition holds_nodes :: "ptr \<Rightarrow> GRAPH_NODE list \<Rightarrow> 'x GRAPH_STATE world \<Rightarrow> bool" where
  "holds_nodes P ns w \<longleftrightarrow> gr_Nodes (gs_Graph (st w)) = Some (P, ns)"

lemma wp_set_node:
  assumes "accounts base (held + new) w" "holds_nodes P ns w" "i < length ns" "node_shape (f (ns ! i))"
    and "owned_node (f (ns ! i)) = owned_node (ns ! i) + new"
    and "\<And>v. accounts base held v \<Longrightarrow> holds_nodes P (ns[i := f (ns ! i)]) v \<Longrightarrow>
      gr_Info (gs_Graph (st v)) = gr_Info (gs_Graph (st w)) \<Longrightarrow> Q () v"
  shows "wp (set_node i f) Q w"
proof (rule wp_modifyI, rule assms(6))
  let ?v = "w\<lparr>st := st w\<lparr>gs_Graph := upd_node i f (gs_Graph (st w))\<rparr>\<rparr>"
  show holds: "holds_nodes P (ns[i := f (ns ! i)]) ?v"
    using assms(2) by (simp add: holds_nodes_def upd_node_def)
  show "gr_Info (gs_Graph (st ?v)) = gr_Info (gs_Graph (st w))" by (simp add: upd_node_def)
  have "(\<Sum>n\<leftarrow>ns[i := f (ns ! i)]. owned_node n) = (\<Sum>n\<leftarrow>ns. owned_node n) + new"
    using sum_list_update [OF assms(3), of owned_node "f (ns ! i)"] assms(5) by simp
  then have "owned (gs_Graph (st ?v)) = owned (gs_Graph (st w)) + new"
    using assms(2) holds by (simp add: holds_nodes_def owned_def)
  moreover have "graph_shape (gs_Graph (st ?v))"
    using assms(1-4) holds set_update_subset_insert [of ns i "f (ns ! i)"]
    by (auto simp: accounts_def graph_shape_def holds_nodes_def upd_node_def)
  ultimately show "accounts base held ?v"
    using assms(1) by (simp add: accounts_def)
qed

section \<open>Strings of the graph\<close>

definition block_text :: "block option \<Rightarrow> bytes" where
  "block_text b = (case b of None \<Rightarrow> [] | Some x \<Rightarrow> butlast (snd x))"

definition text_block :: "block option \<Rightarrow> bool" where
  "text_block b \<longleftrightarrow> (\<exists>p s. b = Some (p, s @ [0]) \<and> 0 \<notin> set s)"

lemma block_text_simp [simp]: "block_text (Some (p, s @ [0])) = s"
  by (simp add: block_text_def)

lemma cstr_text [simp]: "0 \<notin> set s \<Longrightarrow> cstr (s @ [0]) = Some s"
  using cstr_append [of s "[]"] by simp

lemma text_blockE:
  assumes "text_block b"
  obtains p d where "b = Some (p, d)" "cstr d = Some (block_text b)" "0 \<notin> set (block_text b)"
  using assms by (auto simp: text_block_def)

lemma cstr_arg: "arg_ok a \<Longrightarrow> ga_Type a = 1 \<Longrightarrow> cstr (ga_Data a) = Some (arg_string a)"
proof -
  assume a: "arg_ok a" "ga_Type a = 1"
  then have "ga_Data a = arg_string a @ 0 # drop (unat (ga_Length a)) (ga_Data a)" "0 \<notin> set (arg_string a)"
    using append_take_drop_id [of "unat (ga_Length a)" "ga_Data a"] by (auto simp: arg_ok_def)
  then show ?thesis using cstr_append by metis
qed

lemma arg_block: "arg_ok a \<Longrightarrow> ga_Type a = 1 \<Longrightarrow> take (unat (ga_Length a)) (ga_Data a) = arg_string a @ [0] \<and> 0 \<notin> set (arg_string a)"
  by (simp add: arg_ok_def)

lemma unused_name_text:
  assumes "\<And>b. b \<in> set bs \<Longrightarrow> text_block b" and "cstr d = Some s"
  shows "unused_name bs d = Some (s \<notin> set (map block_text bs))"
  using assms(1)
proof (induction bs)
  case (Cons b bs)
  from Cons.prems [of b] obtain p e where "b = Some (p, e)" "cstr e = Some (block_text b)"
    by (auto elim: text_blockE)
  with Cons assms(2) show ?case by (auto simp: str_eq_def)
qed simp

lemma wp_CopyString:
  assumes "accounts base held w" "arg_ok a"
    and "\<And>v. accounts base held v \<Longrightarrow> gs_Graph (st v) = gs_Graph (st w) \<Longrightarrow> Q (Some None) v"
    and "\<And>p v. accounts base (held + {#p#}) v \<Longrightarrow> gr_Nodes (gs_Graph (st v)) = gr_Nodes (gs_Graph (st w)) \<Longrightarrow>
      gi_Nodes (gr_Info (gs_Graph (st v))) = gi_Nodes (gr_Info (gs_Graph (st w))) \<Longrightarrow> 0 \<notin> set (arg_string a) \<Longrightarrow>
      Q (Some (Some (p, arg_string a @ [0]))) v"
  shows "wp (CopyString E a n) Q w"
  unfolding CopyString_def
  apply (intro wp_ifI wp_returnI wp_bindI)
  subgoal by (rule assms(3)) (use assms(1) in auto)
  subgoal
    apply (rule wp_Allocate [OF assms(1)])
    subgoal by (rule wp_returnI) (simp add: assms(3))
    subgoal for p v
      using arg_block [OF assms(2)] assms(2,4) by (auto simp: wp_simps arg_ok_def)
    done
  done

section \<open>Well-formed trees\<close>

definition path_of :: "GRAPH_NODE \<Rightarrow> bytes" where
  "path_of n = block_text (gn_Path n)"

definition name_of :: "GRAPH_PROPERTY \<Rightarrow> bytes" where
  "name_of q = block_text (gp_Name q)"

definition prop_ok :: "GRAPH_PROPERTY \<Rightarrow> bool" where
  "prop_ok q \<longleftrightarrow> text_block (gp_Name q) \<and> name_of q \<noteq> [] \<and> length (name_of q) < 256 \<and>
     length (gp_Data q) = unat (gp_Length q) \<and> gp_Length q \<le> GRAPH_LIMIT"

definition props_ok :: "GRAPH_NODE \<Rightarrow> bool" where
  "props_ok n \<longleftrightarrow> (\<exists>ps. props_of n = Some ps \<and> list_all prop_ok ps \<and> distinct (map name_of ps))"

definition node_ok :: "GRAPH_NODE \<Rightarrow> bool" where
  "node_ok n \<longleftrightarrow> text_block (gn_Path n) \<and> text_block (gn_Owner n) \<and> length (path_of n) < 1024 \<and>
     length (block_text (gn_Owner n)) < 1024 \<and> props_ok n"

text \<open>The root is node 0. Every other node lies one component below an earlier node.\<close>

definition placed :: "GRAPH_NODE list \<Rightarrow> nat \<Rightarrow> bool" where
  "placed ns i \<longleftrightarrow>
     (if i = 0 then gn_Parent (ns ! i) = PI5_GRAPH_NONE \<and> path_of (ns ! i) = [0x2f]
      else unat (gn_Parent (ns ! i)) < i \<and>
        (\<exists>c. c \<noteq> [] \<and> 0x2f \<notin> set c \<and> path_of (ns ! i) =
           (if gn_Parent (ns ! i) = 0 then [] else path_of (ns ! unat (gn_Parent (ns ! i)))) @ 0x2f # c))"

definition tree_ok :: "GRAPH_NODE list \<Rightarrow> bool" where
  "tree_ok ns \<longleftrightarrow> list_all node_ok ns \<and> distinct (map path_of ns) \<and> (\<forall>i<length ns. placed ns i)"

lemma placed_snoc: "i < length ns \<Longrightarrow> placed (ns @ [n]) i = placed ns i"
  by (auto simp: placed_def nth_append)

lemma tree_ok_snoc:
  "tree_ok (ns @ [n]) \<longleftrightarrow> tree_ok ns \<and> node_ok n \<and> path_of n \<notin> path_of ` set ns \<and> placed (ns @ [n]) (length ns)"
  by (auto simp: tree_ok_def less_Suc_eq placed_snoc)

lemma tree_ok_root: "tree_ok ns \<Longrightarrow> ns \<noteq> [] \<Longrightarrow> path_of (ns ! 0) = [0x2f]"
  by (cases ns) (auto simp: tree_ok_def placed_def)

section \<open>Fetching a property\<close>

text \<open>Node \<open>i\<close> is \<open>n\<close> with the properties \<open>ps\<close>.\<close>

definition with_props :: "ptr \<Rightarrow> GRAPH_PROPERTY list \<Rightarrow> GRAPH_NODE \<Rightarrow> GRAPH_NODE" where
  "with_props q ps n = n\<lparr>gn_Properties := Some (q, ps)\<rparr>"

lemma with_props_simps [simp]:
  "gn_Count (with_props q ps n) = gn_Count n" "gn_Properties (with_props q ps n) = Some (q, ps)"
  "gn_Path (with_props q ps n) = gn_Path n" "gn_Owner (with_props q ps n) = gn_Owner n"
  "gn_Parent (with_props q ps n) = gn_Parent n" "gn_Phandle (with_props q ps n) = gn_Phandle n"
  "upd_prop j f (with_props q ps n) = with_props q (ps[j := f (ps ! j)]) n"
  "path_of (with_props q ps n) = path_of n"
  by (simp_all add: with_props_def upd_prop_def path_of_def)

definition fetching :: "ptr \<Rightarrow> GRAPH_NODE list \<Rightarrow> nat \<Rightarrow> GRAPH_NODE \<Rightarrow> ptr \<Rightarrow> GRAPH_PROPERTY list \<Rightarrow> 'x GRAPH_STATE world \<Rightarrow> bool" where
  "fetching P ns i n q ps w \<longleftrightarrow> holds_nodes P (ns[i := with_props q ps n]) w \<and> i < length ns \<and>
     length ps = unat (gn_Count n) \<and> gn_Count n \<noteq> 0"

lemma fetching_prop: "fetching P ns i n q ps w \<Longrightarrow> j < length ps \<Longrightarrow> prop_at (gs_Graph (st w)) i j = Some (ps ! j)"
  by (auto simp: fetching_def prop_at_def node_at_def holds_nodes_def props_of_def)

lemma fetching_names: "fetching P ns i n q ps w \<Longrightarrow> names_before (gs_Graph (st w)) i j = map gp_Name (take j ps)"
  by (auto simp: fetching_def names_before_def node_at_def holds_nodes_def)

lemma wp_set_prop:
  assumes "accounts base (held + new) w" "fetching P ns i n q ps w" "j < length ps"
    and "owned_block (gp_Name (f (ps ! j))) = owned_block (gp_Name (ps ! j)) + new"
    and "\<And>v. accounts base held v \<Longrightarrow> fetching P ns i n q (ps[j := f (ps ! j)]) v \<Longrightarrow> Q () v"
  shows "wp (set_node i (upd_prop j f)) Q w"
  by (rule wp_set_node [OF assms(1), where P = P and ns = "ns[i := with_props q ps n]"])
    (use assms(2-) sum_list_update [of j ps "\<lambda>p. owned_block (gp_Name p)" "f (ps ! j)"] in
      \<open>auto simp: fetching_def node_shape_def owned_node_def\<close>)

lemma wp_on_info:
  assumes "accounts base held w" "fetching P ns i n q ps w"
    and "\<And>f'. gi_Nodes (f f') = gi_Nodes f'" "\<And>f'. gi_CacheBytes (f f') = gi_CacheBytes f'" "\<And>f'. gi_Properties (f f') = gi_Properties f'"
    and "\<And>v. accounts base held v \<Longrightarrow> fetching P ns i n q ps v \<Longrightarrow> Q () v"
  shows "wp (on_info f) Q w"
  by (rule wp_modifyI, rule assms(6))
    (use assms(1-5) in \<open>auto simp: accounts_def fetching_def holds_nodes_def graph_shape_def owned_def\<close>)

lemma wp_gets_graph: "wp (k (gs_Graph (st w))) Q w \<Longrightarrow> wp (gets gs_Graph \<bind> k) Q w"
  by (simp add: wp_simps)

lemma chunk_size_defined:
  assumes "arg_ok a"
  shows "\<exists>c. chunk_size a offset tot = Some c \<and> (\<forall>n. c = Some n \<longrightarrow> unat n \<le> length (ga_Data a))"
  using Integer_defined [OF assms] assms by (auto simp: chunk_size_def arg_ok_def unat_ucast_up)

lemma wp_Load_store:
  assumes "accounts base held w" "fetching P ns i n q ps w" "j < length ps" "arg_ok a" "offset \<le> tot"
    and "gp_Length (ps ! j) = tot" "length (gp_Data (ps ! j)) = unat tot"
    and "\<And>v c d. accounts base held v \<Longrightarrow> fetching P ns i n q (ps[j := (ps ! j)\<lparr>gp_Data := d\<rparr>]) v \<Longrightarrow> length d = unat tot \<Longrightarrow>
      unat c \<le> unat tot - unat offset \<Longrightarrow> (c = 0 \<longrightarrow> offset = tot) \<Longrightarrow> wp (k (offset + c)) (load_post base held S) v"
  shows "wp (Load_store i j offset tot a k) (load_post base held S) w"
proof -
  obtain c where c: "chunk_size a offset tot = Some c" "\<And>n. c = Some n \<Longrightarrow> unat n \<le> length (ga_Data a)"
    using chunk_size_defined [OF assms(4)] by blast
  have d: "unat (tot - offset) = unat tot - unat offset" using assms(5) by (simp add: unat_sub word_le_nat_alt)
  let ?thesis' = "wp (case c of None \<Rightarrow> stop GraphInvalid | Some chunk \<Rightarrow>
        if chunk > PI5_GRAPH_CHUNK \<or> chunk > tot - offset \<or> (chunk = 0 \<and> offset \<noteq> tot) then stop GraphInvalid
         else if unat chunk > length (ga_Data a) then ret None
         else do {
           set_node i (upd_prop j (\<lambda>q. q\<lparr>gp_Data := take (unat offset) (gp_Data q) @ take (unat chunk) (ga_Data a) @
             drop (unat offset + unat chunk) (gp_Data q)\<rparr>));
           k (offset + chunk)
         }) (load_post base held S) w"
  show ?thesis
    unfolding Load_store_def
  proof (rule wp_defined [OF c(1)], cases c)
    case None
    then show ?thesis' using assms(1) by (auto simp: wp_simps intro!: load_postI)
  next
    case (Some m)
    have m: "unat m \<le> length (ga_Data a)" using c(2) Some by simp
    show ?thesis'
      unfolding Some option.case
      apply (intro wp_ifI wp_stop wp_bindI)
      subgoal using assms(1) .
      subgoal by simp
      subgoal using m by simp
      apply (rule wp_set_prop [where new = "{#}" and j = j and base = base and held = held and n = n and ps = ps and P = P and ns = ns and q = q])
      subgoal using assms(1) by simp
      subgoal using assms(2) .
      subgoal using assms(3) .
      subgoal by simp
      subgoal for v
        by (rule assms(8), assumption, assumption) (use assms(5-7) d m in \<open>auto simp: word_less_nat_alt word_le_nat_alt not_less\<close>)
      done
  qed
qed

text \<open>A property that has been fetched as far as its name, and one that is complete.\<close>

definition prop_new :: "GRAPH_PROPERTY list \<Rightarrow> nat \<Rightarrow> GRAPH_PROPERTY \<Rightarrow> bool" where
  "prop_new ps j x \<longleftrightarrow> prop_ok x \<and> name_of x \<notin> name_of ` set (take j ps)"

lemma prop_new_upd [simp]: "prop_new (ps[j := y]) j x = prop_new ps j x"
  by (simp add: prop_new_def)

lemma prop_new_data: "prop_new ps j x \<Longrightarrow> length d = unat (gp_Length x) \<Longrightarrow> prop_new ps j (x\<lparr>gp_Data := d\<rparr>)"
  by (simp add: prop_new_def prop_ok_def name_of_def)

lemma wp_first_chunk:
  assumes "accounts base held w" "fetching P ns i n q ps w" "j < length ps" "gp_Name (ps ! j) = None"
    and "arg_ok a" "chunk_name_ok a" "tot \<le> GRAPH_LIMIT" "\<And>p. p \<in> set (take j ps) \<Longrightarrow> prop_ok p"
    and "\<And>v x. accounts base held v \<Longrightarrow> fetching P ns i n q (ps[j := x]) v \<Longrightarrow> prop_new ps j x \<Longrightarrow> gp_Length x = tot \<Longrightarrow>
      wp k (load_post base held S) v"
  shows "wp (Load_first_chunk E i j a tot k) (load_post base held S) w"
proof -
  have ty: "ga_Type a = 1" and l: "2 \<le> unat (ga_Length a)" "unat (ga_Length a) \<le> 256"
    using assms(6) by (auto simp: chunk_name_ok_def word_le_nat_alt unat_ucast_up)
  note str = arg_block [OF assms(5) ty]
  have len: "unat (ga_Length a) \<le> length (ga_Data a)" using assms(5) by (simp add: arg_ok_def)
  have slen: "length (arg_string a) = unat (ga_Length a) - 1" using len by (simp add: arg_string_def)
  show ?thesis
    unfolding Load_first_chunk_def
    apply (intro wp_bindI)
    apply (rule wp_Allocate [OF assms(1)])
    subgoal by (auto intro!: wp_stop)
    subgoal for p v
      apply (intro wp_ifI)
      apply simp
      using len apply simp
      apply (intro wp_bindI)
      apply (rule wp_set_prop [where base = base and held = held and new = "{#p#}" and P = P and ns = ns and n = n and q = q and ps = ps])
      subgoal .
      subgoal using assms(1,2) by (auto simp: fetching_def holds_nodes_def)
      subgoal by (rule assms(3))
      subgoal by (simp add: assms(4))
      subgoal for u
        apply (rule wp_bindI, rule wp_on_info [where base = base and held = held], assumption, assumption, simp, simp, simp)
        subgoal for t
          apply (rule wp_gets_graph)
          apply (rule wp_unless [where b = "arg_string a \<notin> set (map block_text (map gp_Name (take j ps)))"])
          subgoal
            by (subst fetching_names, assumption, subst unused_name_text [where s = "arg_string a"])
              (use assms(8) str in \<open>auto simp: prop_ok_def\<close>)
          subgoal .
          subgoal
            by (rule assms(9), assumption, assumption)
              (use str l slen assms(7) in \<open>auto simp: prop_new_def prop_ok_def name_of_def text_block_def\<close>)
          done
        done
      done
    done
qed

lemma wp_integer_value:
  assumes "arg_ok a" "accounts base held w" "\<And>x. wp (f x) (load_post base held S) w"
  shows "wp (defined_then (Graph_Integer a) (\<lambda>v. case v of None \<Rightarrow> stop GraphInvalid | Some x \<Rightarrow> f x)) (load_post base held S) w"
  using Integer_defined [OF assms(1)] assms(2,3)
  by (auto simp: defined_then_def split: option.splits intro!: wp_stop)

context graph_source
begin

lemma chunks_rest:
  assumes "accounts base held w" "fetching P ns i n q ps w" "j < length ps" "prop_new ps j (ps ! j)"
    and "offset \<noteq> 0" "offset < gp_Length (ps ! j)" "unat (gp_Length (ps ! j)) - unat offset \<le> fuel"
  shows "wp (Load_chunks E ev fuel i j offset) (load_post base held
    (\<lambda>v. \<exists>x. fetching P ns i n q (ps[j := x]) v \<and> prop_new ps j x)) w"
  using assms
proof (induction fuel arbitrary: w ps offset)
  case 0
  then show ?case by (simp add: word_less_nat_alt)
next
  case (Suc fuel)
  let ?x = "ps ! j"
  have x: "prop_ok ?x" using Suc.prems(4) by (simp add: prop_new_def)
  show ?case
    unfolding Load_chunks.simps
  proof (rule wp_reply [OF Suc.prems(1)], intro wp_ifI, goal_cases)
    case (2 a v)
    have a: "length a = 3" "arg_ok (a ! 0)" "arg_ok (a ! 1)" "arg_ok (a ! 2)"
      using 2 by (auto intro: nth_mem)
    have f: "fetching P ns i n q ps v" using 2 Suc.prems(2) by (simp add: fetching_def holds_nodes_def)
    have same: "\<exists>b. Load_same_name (gs_Graph (st v)) i j (a ! 0) tot = Some b \<and> (b \<longrightarrow> tot = gp_Length ?x)" for tot
      using fetching_prop [OF f Suc.prems(3)] x cstr_arg [OF a(2)] 2
      by (auto simp: Load_same_name_def prop_ok_def chunk_name_ok_def str_eq_def elim: text_blockE)
    show ?case
      apply (rule wp_integer_value [OF a(3)])
      using 2 apply simp
      apply (intro wp_ifI)
      using 2 apply (auto intro: wp_stop) [1]
      apply (simp only: Let_def Suc.prems(5) if_False)
      apply (rule wp_gets_graph)
      subgoal for tot
        using same [of tot] apply (elim exE conjE)
        subgoal for b
          apply (rule wp_unless, assumption)
          using 2 apply simp
          apply (rule wp_Load_store [OF _ f Suc.prems(3) a(4)])
          subgoal using 2 by simp
          subgoal using Suc.prems(6) by simp
          subgoal by simp
          subgoal using x by (simp add: prop_ok_def)
          subgoal for u c d
            apply (rule wp_gets_graph)
            apply (rule wp_defined [OF fetching_prop], assumption, simp add: Suc.prems(3))
            apply (intro wp_ifI)
            subgoal premises prems
            proof -
              have c: "c \<noteq> 0" using prems Suc.prems(6) by auto
              have o: "unat (offset + c) = unat offset + unat c"
                using prems Suc.prems(6) u32_lt [of "gp_Length ?x"] by (intro unat_add_small) (auto simp: word_less_nat_alt)
              have "unat c > 0" using c by (simp add: unat_gt_0)
              then show ?thesis
                using prems Suc.prems(3-7) o
                by (intro Suc.IH [where ps = "ps[j := ?x\<lparr>gp_Data := d\<rparr>]", simplified])
                  (auto simp: prop_new_data word_less_nat_alt)
            qed
            subgoal using x Suc.prems(3,4)
              by (auto intro!: wp_stop exI [of _ "?x\<lparr>gp_Data := d\<rparr>"] prop_new_data)
            done
          done
        done
      done
  next
    case 1
    then show ?case by (intro wp_stop) auto
  qed
qed

end

lemma wp_untilM:
  assumes "accounts base held w" "I m w" "m \<le> n"
    and "\<And>j w. m \<le> j \<Longrightarrow> j < n \<Longrightarrow> accounts base held w \<Longrightarrow> I j w \<Longrightarrow> wp (f j) (load_post base held (I (Suc j))) w"
  shows "wp (untilM [m..<n] f) (load_post base held (I n)) w"
proof -
  have "wp (untilM [k..<n] f) (load_post base held (I n)) w" if "accounts base held w" "I k w" "m \<le> k" "k \<le> n" for k w
    using that
  proof (induction "n - k" arbitrary: k w)
    case 0
    then show ?case by (auto intro!: wp_stop)
  next
    case (Suc l)
    then have k: "k < n" by simp
    show ?case
      unfolding upt_conv_Cons [OF k] untilM.simps
    proof (intro wp_bindI, rule wp_mono [OF assms(4)], goal_cases)
      case (5 r v)
      show ?case
      proof (cases "r = Some GraphOk")
        case True
        then show ?thesis using 5 Suc by (auto simp: load_post_def)
      next
        case False
        then show ?thesis using 5 by (auto simp: wp_simps load_post_def)
      qed
    qed (use Suc k in auto)
  qed
  then show ?thesis using assms(1-3) by blast
qed

text \<open>The first \<open>j\<close> properties are complete, the others empty.\<close>

definition fetched :: "ptr \<Rightarrow> GRAPH_NODE list \<Rightarrow> nat \<Rightarrow> GRAPH_NODE \<Rightarrow> ptr \<Rightarrow> nat \<Rightarrow> 'x GRAPH_STATE world \<Rightarrow> bool" where
  "fetched P ns i n q j w \<longleftrightarrow> (\<exists>ps. fetching P ns i n q ps w \<and> list_all prop_ok (take j ps) \<and> distinct (map name_of (take j ps)) \<and>
     (\<forall>k. j \<le> k \<and> k < length ps \<longrightarrow> ps ! k = zero_property))"

lemma fetched_Suc:
  assumes "fetching P ns i n q (ps[j := x]) w" "prop_new ps j x" "j < length ps" "list_all prop_ok (take j ps)"
    "distinct (map name_of (take j ps))" "\<forall>k. j \<le> k \<and> k < length ps \<longrightarrow> ps ! k = zero_property"
  shows "fetched P ns i n q (Suc j) w"
proof -
  have "take (Suc j) (ps[j := x]) = take j ps @ [x]"
    using assms(3) by (simp add: take_Suc_conv_app_nth)
  then show ?thesis
    unfolding fetched_def
    by (intro exI [of _ "ps[j := x]"]) (use assms in \<open>auto simp: prop_new_def\<close>)
qed

definition loaded_node :: "GRAPH_NODE \<Rightarrow> GRAPH_NODE \<Rightarrow> bool" where
  "loaded_node n m \<longleftrightarrow> props_ok m \<and> node_shape m \<and> gn_Path m = gn_Path n \<and> gn_Owner m = gn_Owner n \<and> gn_Parent m = gn_Parent n \<and>
     gn_Phandle m = gn_Phandle n"

context graph_source
begin

lemma chunks_all:
  assumes "accounts base held w" "fetching P ns i n q ps w" "j < length ps" "ps ! j = zero_property"
    and "\<And>p. p \<in> set (take j ps) \<Longrightarrow> prop_ok p" "unat GRAPH_LIMIT \<le> fuel"
  shows "wp (Load_chunks E ev fuel i j 0) (load_post base held
    (\<lambda>v. \<exists>x. fetching P ns i n q (ps[j := x]) v \<and> prop_new ps j x)) w"
proof -
  obtain fuel' where fuel: "fuel = Suc fuel'" "16777215 \<le> fuel'" using assms(6) by (cases fuel) auto
  show ?thesis
    unfolding fuel(1) Load_chunks.simps
  proof (rule wp_reply [OF assms(1)], intro wp_ifI, goal_cases)
    case (2 a v)
    have a: "length a = 3" "arg_ok (a ! 0)" "arg_ok (a ! 1)" "arg_ok (a ! 2)" "chunk_name_ok (a ! 0)"
      using 2 by (auto intro: nth_mem)
    have f: "fetching P ns i n q ps v" using 2 assms(2) by (simp add: fetching_def holds_nodes_def)
    show ?case
      apply (rule wp_integer_value [OF a(3)])
      using 2 apply simp
      apply (intro wp_ifI)
      using 2 apply (auto intro: wp_stop) [1]
      apply (simp only: Let_def refl if_True)
      apply (rule wp_first_chunk [OF _ f assms(3) _ a(2,5) _ assms(5)])
      subgoal using 2 by simp
      subgoal by (simp add: assms(4) zero_property_def)
      subgoal by simp
      subgoal by simp
      subgoal for tot u x
        apply (rule wp_Load_store [where ps = "ps[j := x]", OF _ _ _ a(4)], assumption, assumption)
        subgoal using assms(3) by simp
        subgoal by simp
        subgoal using assms(3) by simp
        subgoal using assms(3) by (simp add: prop_new_def prop_ok_def)
        subgoal premises prems for t c d
        proof -
          have t: "fetching P ns i n q (ps[j := x\<lparr>gp_Data := d\<rparr>]) t" "prop_new ps j (x\<lparr>gp_Data := d\<rparr>)"
            using prems assms(3) by (auto intro: prop_new_data)
          have acc: "accounts base held t" using prems by simp
          have x: "gp_Length (ps[j := x\<lparr>gp_Data := d\<rparr>] ! j) = tot" using prems assms(3) by simp
          have small: "unat tot - unat c \<le> fuel'" if "c \<noteq> 0"
          proof -
            have "unat tot \<le> 16777216" using prems by (simp add: prop_new_def prop_ok_def word_le_nat_alt)
            moreover have "0 < unat c" using that by (simp add: unat_gt_0)
            ultimately show ?thesis using fuel(2) by linarith
          qed
          show ?thesis
            apply (rule wp_gets_graph)
            apply (rule wp_defined [OF fetching_prop [OF t(1)]])
            using assms(3) apply simp
            unfolding x
            apply (intro wp_ifI)
            subgoal
              using chunks_rest [OF acc t(1), of j c fuel' E] t(2) assms(3) x small prems
              by (cases "c = 0") auto
            subgoal
              using prems t by (auto intro!: wp_stop exI [of _ "x\<lparr>gp_Data := d\<rparr>"])
            done
        qed
        done
      done
  next
    case 1
    then show ?case by (intro wp_stop) auto
  qed
qed

end

context graph_source
begin

lemma wp_Load_properties:
  assumes "accounts base held w" "holds_nodes P (ns[i := n]) w" "i < length ns" "gn_Properties n = None"
    and "unat GRAPH_LIMIT \<le> fuel"
  shows "wp (Load_properties E ev fuel i (gn_Count n)) (load_post base held
    (\<lambda>v. \<exists>m. holds_nodes P (ns[i := m]) v \<and> loaded_node n m)) w"
  unfolding Load_properties_def
proof (intro wp_ifI wp_bindI, goal_cases)
  case 1
  then show ?case
    using assms by (auto simp: loaded_node_def props_ok_def props_of_def node_shape_def intro!: wp_stop exI [of _ n])
next
  case 2
  show ?case
  proof (rule wp_Allocate [OF assms(1)], goal_cases)
    case (1 v)
    then show ?case by (auto intro!: wp_stop)
  next
    case (2 q v)
    have h: "holds_nodes P (ns[i := n]) v" using 2 assms(2) by (simp add: holds_nodes_def)
    show ?case
      apply (intro wp_ifI)
      using 2 apply simp
      apply (rule wp_bindI)
      apply (rule wp_set_node [where base = base and held = held and new = "{#q#}", OF _ h])
      subgoal using 2 by simp
      subgoal using assms(3) by simp
      subgoal using assms(3) by (simp add: node_shape_def)
      subgoal using assms(3,4) by (simp add: owned_node_def)
      subgoal premises prems for u
      proof -
        let ?z = "replicate (unat (gn_Count n)) zero_property"
        have f: "fetched P ns i n q 0 u"
          unfolding fetched_def fetching_def
          using prems assms(3) \<open>gn_Count n \<noteq> 0\<close> by (auto intro!: exI [of _ ?z] simp: with_props_def)
        have acc: "accounts base held u" using prems by simp
        show ?thesis
          apply (rule wp_mono)
           apply (rule wp_untilM [where base = base and held = held and I = "fetched P ns i n q"])
              apply (rule acc)
             apply (rule f)
            apply simp
          subgoal for j x
            unfolding fetched_def [of P ns i n q j]
            apply (elim exE conjE)
            subgoal for ps
              apply (rule wp_mono)
               apply (rule chunks_all [where base = base and held = held and ps = ps], assumption, assumption)
              using assms(5) apply (simp_all add: fetching_def list_all_iff)
              apply (auto simp: load_post_def intro!: fetched_Suc simp: fetching_def list_all_iff)
              done
            done
          subgoal for r x
            unfolding load_post_def
            apply (clarsimp simp: fetched_def fetching_def)
            subgoal for ps
              by (rule exI [of _ "with_props q ps n"])
                (auto simp: loaded_node_def props_ok_def props_of_def node_shape_def)
            done
          done
      qed
      done
  qed
qed

end

section \<open>Loading a node\<close>

lemma depth_defined:
  assumes "gr_Nodes g = Some (P, ns)" "m \<le> length ns" "parent = PI5_GRAPH_NONE \<or> unat parent < m"
    and "\<And>k. k < m \<Longrightarrow> gn_Parent (ns ! k) = PI5_GRAPH_NONE \<or> unat (gn_Parent (ns ! k)) < m"
  shows "\<exists>b. depth_ok g d parent = Some b"
  using assms(3)
proof (induction d arbitrary: parent)
  case (Suc d)
  show ?case
  proof (cases "parent = PI5_GRAPH_NONE")
    case False
    then have p: "unat parent < m" using Suc.prems by simp
    then have "node_at g (unat parent) = Some (ns ! unat parent)" using assms(1,2) by (simp add: node_at_def)
    then show ?thesis using False Suc.IH [OF assms(4) [OF p]] by simp
  qed auto
qed auto

lemma tree_parents:
  assumes "tree_ok (take i ns)" "i \<le> length ns" "k < i"
  shows "gn_Parent (ns ! k) = PI5_GRAPH_NONE \<or> unat (gn_Parent (ns ! k)) < i"
proof -
  have "placed (take i ns) k" using assms by (simp add: tree_ok_def)
  then show ?thesis using assms by (cases "k = 0") (auto simp: placed_def)
qed

lemma append_at:
  assumes "length p < length s" "take (length p) s = p" "s ! length p = c"
  shows "s = p @ c # drop (length p + 1) s"
  using id_take_nth_drop [OF assms(1)] assms(2,3) by simp

lemma child_placed:
  assumes "cstr parent = Some p" "cstr path = Some s" "p \<noteq> []" "deep \<or> p = [0x2f]"
  shows "\<exists>b. child_ok parent path deep = Some b \<and>
    (b \<longrightarrow> (\<exists>c. c \<noteq> [] \<and> 0x2f \<notin> set c \<and> s = (if deep then p else []) @ 0x2f # c))"
proof -
  let ?child = "drop (if deep then length p + 1 else 1) s"
  let ?b = "length p < length s \<and> take (length p) s = p \<and> (deep \<longrightarrow> s ! length p = 0x2f) \<and> ?child \<noteq> [] \<and> 0x2f \<notin> set ?child"
  have ok: "child_ok parent path deep = Some ?b"
    unfolding child_ok_def assms(1,2) Let_def bind.bind_lunit by (cases "length s \<le> length p") auto
  have "s = (if deep then p else []) @ 0x2f # ?child" if ?b
  proof (cases deep)
    case True
    then show ?thesis using that append_at [of p s "0x2f"] by simp
  next
    case False
    then show ?thesis using that assms(4) by (cases s) auto
  qed
  with ok show ?thesis by blast
qed

lemma node_path_ok:
  assumes g: "gr_Nodes g = Some (P, ns[i := n])" and i: "i < length ns" and tree: "tree_ok (take i ns)"
    and path: "text_block (gn_Path n)" and parent: "gn_Parent n = parent"
    and root: "i = 0 \<Longrightarrow> parent = PI5_GRAPH_NONE \<and> path_of n = [0x2f]" and child: "i \<noteq> 0 \<Longrightarrow> unat parent < i"
  shows "\<exists>b. node_path_ok g i parent = Some b \<and>
    (b \<longrightarrow> path_of n \<notin> path_of ` set (take i ns) \<and> placed (take i ns @ [n]) i)"
proof -
  obtain q d where d: "gn_Path n = Some (q, d)" "cstr d = Some (path_of n)"
    using path by (auto simp: path_of_def elim: text_blockE)
  have n: "node_at g i = Some n" using g i by (simp add: node_at_def)
  have tr: "list_all node_ok (take i ns)" "distinct (map path_of (take i ns))" using tree by (auto simp: tree_ok_def)
  have unused: "unused_name (paths_before g i) d = Some (path_of n \<notin> path_of ` set (take i ns))"
    unfolding paths_before_def g option.case prod.case
    by (subst unused_name_text [OF _ d(2)]) (use tr in \<open>auto simp: list_all_iff node_ok_def path_of_def\<close>)
  obtain e where e: "depth_ok g 64 parent = Some e"
    using depth_defined [OF g, of i parent 64] tree_parents [OF tree] i root child by fastforce
  have "\<exists>b. node_child_ok g i = Some b \<and> (b \<longrightarrow> placed (take i ns @ [n]) i)"
  proof (cases "i = 0")
    case True
    then show ?thesis using root parent by (auto simp: node_child_ok_def placed_def)
  next
    case False
    let ?m = "ns ! unat parent"
    have p: "unat parent < i" using child False by simp
    then have m: "node_at g (unat parent) = Some ?m" using g i by (simp add: node_at_def)
    have mt: "?m \<in> set (take i ns)" using p i by (force simp: in_set_conv_nth)
    then obtain r c where c: "gn_Path ?m = Some (r, c)" "cstr c = Some (path_of ?m)"
      using tr by (auto simp: list_all_iff node_ok_def path_of_def elim!: text_blockE)
    have "path_of ?m \<noteq> []"
    proof -
      have "placed (take i ns) (unat parent)" using tree p i by (simp add: tree_ok_def)
      then show ?thesis using p i by (auto simp: placed_def split: if_splits)
    qed
    moreover have "parent \<noteq> 0 \<or> path_of ?m = [0x2f]"
      using tree_ok_root [OF tree] False i by (cases ns; cases "parent = 0") auto
    ultimately obtain b where "child_ok c d (parent \<noteq> 0) = Some b"
      "b \<Longrightarrow> \<exists>x. x \<noteq> [] \<and> 0x2f \<notin> set x \<and> path_of n = (if parent \<noteq> 0 then path_of ?m else []) @ 0x2f # x"
      using child_placed [OF c(2) d(2)] by blast
    then show ?thesis
      using False n m c(1) d(1) parent p i by (auto simp: node_child_ok_def placed_def nth_append)
  qed
  then show ?thesis using n d(1) unused e by (auto simp: node_path_ok_def)
qed

text \<open>The first \<open>i\<close> of \<open>K\<close> nodes form a tree, the others are empty, and no handles are set.\<close>

definition loaded :: "ptr \<Rightarrow> nat \<Rightarrow> nat \<Rightarrow> 'x GRAPH_STATE world \<Rightarrow> bool" where
  "loaded P K i w \<longleftrightarrow> (\<exists>ns. holds_nodes P ns w \<and> length ns = K \<and> tree_ok (take i ns) \<and> (\<forall>k. i \<le> k \<and> k < length ns \<longrightarrow> ns ! k = zero_node) \<and>
     (\<forall>n\<in>set ns. gn_Phandle n = 0))"

lemma accounts_length: "accounts base held w \<Longrightarrow> holds_nodes P ns w \<Longrightarrow> length ns = unat (gi_Nodes (gr_Info (gs_Graph (st w))))"
  by (simp add: accounts_def graph_shape_def holds_nodes_def)

lemma node_reply_defined:
  assumes "arg_ok a" "arg_ok c"
  shows "\<exists>b. node_reply_ok a c = Some b \<and> (b \<longrightarrow> ga_Type a = 1 \<and> ga_Type c = 1 \<and> length (arg_string a) < 1024 \<and>
    length (arg_string c) < 1024)"
proof -
  have short: "length (arg_string x) < 1024" if "\<not> ucast (ga_Length x) > PI5_GRAPH_PATH" "arg_ok x" "ga_Type x = 1" for x
  proof -
    have "unat (ga_Length x) \<le> 1024" using that(1) by (simp add: word_less_nat_alt unat_ucast_up)
    moreover have "unat (ga_Length x) \<noteq> 0" using that(2,3) by (auto simp: arg_ok_def unat_eq_0)
    ultimately show ?thesis by (simp add: arg_string_def)
  qed
  have r: "at_byte (ga_Data x) 0 = Some (ga_Data x ! 0)" if "arg_ok x" for x
    using that by (intro at_byte_in) (auto simp: arg_ok_def)
  show ?thesis
    unfolding node_reply_ok_def r [OF assms(1)] r [OF assms(2)] bind.bind_lunit
    using short [OF _ assms(1)] short [OF _ assms(2)] by (simp only: if_split_eq1 option.inject) blast
qed

lemma wp_Load_strings:
  assumes "accounts base held w" "holds_nodes P (ns[i := n]) w" "i < length ns" "gn_Path n = None" "gn_Owner n = None"
    and "arg_ok a" "arg_ok c" "node_shape n"
    and "\<And>p q v. accounts base held v \<Longrightarrow> holds_nodes P (ns[i := n\<lparr>gn_Path := Some (p, arg_string a @ [0]), gn_Owner := Some (q, arg_string c @ [0])\<rparr>]) v \<Longrightarrow>
      0 \<notin> set (arg_string a) \<Longrightarrow> 0 \<notin> set (arg_string c) \<Longrightarrow> wp k (load_post base held S) v"
  shows "wp (Load_strings E i a c k) (load_post base held S) w"
proof -
  have shape: "node_shape (n\<lparr>gn_Path := x\<rparr>)" "node_shape (n\<lparr>gn_Path := x, gn_Owner := y\<rparr>)" for x y
    using assms(8) by (simp_all add: node_shape_def)
  have set1: "wp (set_node i (\<lambda>n. n\<lparr>gn_Path := x\<rparr>)) (\<lambda>_ v. accounts base held v \<and> holds_nodes P (ns[i := n\<lparr>gn_Path := x\<rparr>]) v) u"
    if "accounts base (held + owned_block x) u" "holds_nodes P (ns[i := n]) u" for x u
    by (rule wp_set_node [OF that]) (use assms(3,4) shape in \<open>auto simp: owned_node_def\<close>)
  have set2: "wp (set_node i (\<lambda>n. n\<lparr>gn_Owner := y\<rparr>)) (\<lambda>_ v. accounts base held v \<and> holds_nodes P (ns[i := n\<lparr>gn_Path := x, gn_Owner := y\<rparr>]) v) u"
    if "accounts base (held + owned_block y) u" "holds_nodes P (ns[i := n\<lparr>gn_Path := x\<rparr>]) u" for x y u
    by (rule wp_set_node [OF that]) (use assms(3,5) shape in \<open>auto simp: owned_node_def\<close>)
  have both: "wp (CopyString E c PI5_GRAPH_PATH \<bind> (\<lambda>x. defined_then x (\<lambda>o'. set_node i (\<lambda>n. n\<lparr>gn_Owner := o'\<rparr>) \<bind>
      (\<lambda>_. if p = None \<or> o' = None then stop GraphNoMemory else k)))) (load_post base held S) u"
    if u: "accounts base held u" "holds_nodes P (ns[i := n\<lparr>gn_Path := p\<rparr>]) u"
      and p: "p = None \<or> (\<exists>q. p = Some (q, arg_string a @ [0])) \<and> 0 \<notin> set (arg_string a)" for p u
    apply (rule wp_bindI, rule wp_CopyString [OF u(1) assms(7)])
    subgoal for v
      apply (rule wp_defined [OF refl], rule wp_bindI, rule wp_mono, rule set2 [of None])
      using u by (auto simp: holds_nodes_def intro!: wp_stop)
    subgoal for q v
      apply (rule wp_defined [OF refl], rule wp_bindI, rule wp_mono, rule set2 [of "Some (q, arg_string c @ [0])"])
      using u p by (auto simp: holds_nodes_def intro!: wp_stop assms(9))
    done
  show ?thesis
    unfolding Load_strings_def
    apply (rule wp_bindI, rule wp_CopyString [OF assms(1,6)])
    subgoal for v
      apply (rule wp_defined [OF refl], rule wp_bindI, rule wp_mono, rule set1 [of None])
      using assms(2) by (simp_all only: holds_nodes_def owned_simps add_0_right) (rule both; simp add: holds_nodes_def)
    subgoal for q v
      apply (rule wp_defined [OF refl], rule wp_bindI, rule wp_mono, rule set1 [of "Some (q, arg_string a @ [0])"])
      using assms(2) by (simp_all only: holds_nodes_def owned_simps) (rule both; simp add: holds_nodes_def)
    done
qed

lemma zero_node_shape [simp]: "node_shape zero_node"
  by (simp add: node_shape_def zero_node_def)

lemma wp_stop_if:
  "accounts base held w \<Longrightarrow> r \<noteq> GraphOk \<Longrightarrow> (\<not> c \<Longrightarrow> wp m (load_post base held S) w) \<Longrightarrow>
   wp (if c then stop r else m) (load_post base held S) w"
  by (auto intro!: wp_stop)

lemma parent_defined:
  assumes "arg_ok a" "ga_Type a = 1"
  shows "\<exists>b. parent_ok i parent a = Some b \<and>
    (b \<longrightarrow> (i = 0 \<longrightarrow> parent = PI5_GRAPH_NONE \<and> arg_string a = [0x2f]) \<and> (i \<noteq> 0 \<longrightarrow> unat parent < i))"
proof -
  have "cstr (ascii ''/'') = Some [0x2f]" by (simp add: ascii_def)
  moreover have "parent < of_nat i \<Longrightarrow> unat parent < i"
    by (simp add: word_less_nat_alt unat_of_nat)
  ultimately show ?thesis using cstr_arg [OF assms] by (auto simp: parent_ok_def str_eq_def)
qed

lemma loaded_Suc:
  assumes "holds_nodes P (ns[i := m]) v" "i < length ns" "length ns = K" "tree_ok (take i ns)" "\<forall>k. i \<le> k \<and> k < length ns \<longrightarrow> ns ! k = zero_node"
    "\<forall>n\<in>set ns. gn_Phandle n = 0" "node_ok m" "path_of m \<notin> path_of ` set (take i ns)" "placed (take i ns @ [m]) i" "gn_Phandle m = 0"
  shows "loaded P K (Suc i) v"
proof -
  have "take (Suc i) (ns[i := m]) = take i ns @ [m]" using assms(2) by (simp add: take_Suc_conv_app_nth)
  moreover have "\<forall>n\<in>set (ns[i := m]). gn_Phandle n = 0"
    using assms(6,10) set_update_subset_insert [of ns i m] by auto
  ultimately show ?thesis
    unfolding loaded_def using assms by (intro exI [of _ "ns[i := m]"]) (auto simp: tree_ok_snoc)
qed

lemma placed_parent: "gn_Parent m = gn_Parent n \<Longrightarrow> path_of m = path_of n \<Longrightarrow> placed (ns @ [m]) (length ns) = placed (ns @ [n]) (length ns)"
  by (auto simp: placed_def nth_append)

context graph_source
begin

lemma wp_Load_node:
  assumes acc: "accounts base held w" and ld: "loaded P K i w" and i: "i < K"
    and fuel: "unat GRAPH_LIMIT \<le> fuel"
  shows "wp (Load_node E ev fuel i) (load_post base held (loaded P K (Suc i))) w"
proof -
  obtain ns where ns: "holds_nodes P ns w" and K: "length ns = K" and tr: "tree_ok (take i ns)" "\<forall>k. i \<le> k \<and> k < length ns \<longrightarrow> ns ! k = zero_node"
    "\<forall>n\<in>set ns. gn_Phandle n = 0"
    using ld by (auto simp: loaded_def)
  have len: "i < length ns" using K i by simp
  have zero: "ns ! i = zero_node" using tr(2) len by simp
  have zw: "holds_nodes P (ns[i := zero_node]) w" using ns zero by (metis list_update_id)
  let ?n1 = "\<lambda>p. zero_node\<lparr>gn_Parent := p\<rparr>" and ?n2 = "\<lambda>p c. zero_node\<lparr>gn_Parent := p, gn_Count := c\<rparr>"
  have shape: "node_shape (?n1 p)" "node_shape (?n2 p c)" for p c by (simp_all add: node_shape_def zero_node_def)
  have own: "owned_node (?n1 p) = {#}" "owned_node (?n2 p c) = {#}" for p c by (simp_all add: owned_node_def zero_node_def)
  have set1: "wp (set_node i (\<lambda>n. n\<lparr>gn_Parent := p\<rparr>)) (\<lambda>_ v. accounts base held v \<and> holds_nodes P (ns[i := ?n1 p]) v) u"
    if "accounts base held u" "holds_nodes P (ns[i := zero_node]) u" for p u
    by (rule wp_set_node [where new = "{#}", OF _ that(2)]) (use that(1) len shape own in auto)
  have set2: "wp (set_node i (\<lambda>n. n\<lparr>gn_Count := c\<rparr>)) (\<lambda>_ v. accounts base held v \<and> holds_nodes P (ns[i := ?n2 p c]) v) u"
    if "accounts base held u" "holds_nodes P (ns[i := ?n1 p]) u" for p c u
    by (rule wp_set_node [where new = "{#}", OF _ that(2)]) (use that(1) len shape own in auto)
  have info: "wp (on_info (\<lambda>f. f\<lparr>gi_Properties := gi_Properties f + c\<rparr>)) (\<lambda>_ v. accounts base held v \<and> holds_nodes P xs v) u"
    if "accounts base held u" "holds_nodes P xs u" "\<not> c > GRAPH_ITEMS - gi_Properties (gr_Info (gs_Graph (st u)))" for c xs u
  proof -
    let ?p = "gi_Properties (gr_Info (gs_Graph (st u)))"
    have "?p \<le> GRAPH_ITEMS" using that(1) by (simp add: accounts_def graph_shape_def)
    moreover from this have "unat (GRAPH_ITEMS - ?p) = 32640 - unat ?p" by (simp add: unat_sub word_le_nat_alt)
    ultimately have "?p + c \<le> GRAPH_ITEMS"
      using that(3) by (simp add: word_le_nat_alt word_less_nat_alt not_less unat_add_small)
    then show ?thesis
      using that by (intro wp_modifyI) (auto simp: accounts_def holds_nodes_def graph_shape_def owned_def)
  qed
  show ?thesis
    unfolding Load_node_def
  proof (rule wp_reply [OF acc], goal_cases)
    case (1 a v)
    then have a: "arg_ok (a ! 0)" "arg_ok (a ! 1)" "arg_ok (a ! 2)" "arg_ok (a ! 3)" by (auto intro: nth_mem)
    have zv: "holds_nodes P (ns[i := zero_node]) v" using zw 1 by (simp add: holds_nodes_def)
    obtain b where b: "node_reply_ok (a ! 0) (a ! 2) = Some b" "b \<Longrightarrow> ga_Type (a ! 0) = 1 \<and> ga_Type (a ! 2) = 1 \<and>
        length (arg_string (a ! 0)) < 1024 \<and> length (arg_string (a ! 2)) < 1024"
      using node_reply_defined [OF a(1,3)] by blast
    show ?case
      apply (rule wp_unless [OF b(1) 1(1)], drule b(2), elim conjE)
      apply (rule wp_integer [OF a(2) 1(1)], rule wp_bindI, rule wp_mono, rule set1 [OF 1(1) zv], elim conjE)
      subgoal for parent r1 u1
        apply (rule wp_integer [OF a(4)], assumption, rule wp_bindI, rule wp_mono, rule set2, assumption, assumption, elim conjE)
        subgoal for count r2 u2
          apply (frule parent_defined [OF a(1), where i = i and parent = parent], elim exE conjE)
          subgoal for pb
            apply (rule wp_gets_graph, intro wp_ifI)
            subgoal by (auto intro!: wp_stop)
            apply (rule wp_unless, assumption, assumption)
            apply (rule wp_bindI, rule wp_mono, rule info, assumption, assumption, assumption, elim conjE)
            apply (rule wp_Load_strings [OF _ _ len _ _ a(1,3) shape(2)], assumption, assumption, simp add: zero_node_def, simp add: zero_node_def)
            subgoal premises prems for r3 u3 x y t
            proof -
              let ?n = "zero_node\<lparr>gn_Parent := parent, gn_Count := count, gn_Path := Some (x, arg_string (a ! 0) @ [0]),
                gn_Owner := Some (y, arg_string (a ! 2) @ [0])\<rparr>"
              have t: "accounts base held t" "holds_nodes P (ns[i := ?n]) t" using prems by auto
              have path: "path_of ?n = arg_string (a ! 0)" by (simp add: path_of_def)
              have root: "(i = 0 \<longrightarrow> parent = PI5_GRAPH_NONE \<and> arg_string (a ! 0) = [0x2f]) \<and> (i \<noteq> 0 \<longrightarrow> unat parent < i)"
                using prems by blast
              have "\<exists>b. node_path_ok (gs_Graph (st t)) i parent = Some b \<and>
                  (b \<longrightarrow> path_of ?n \<notin> path_of ` set (take i ns) \<and> placed (take i ns @ [?n]) i)"
                by (rule node_path_ok [OF t(2) [unfolded holds_nodes_def] len tr(1)])
                  (use prems root path in \<open>auto simp: text_block_def\<close>)
              then obtain b where b: "node_path_ok (gs_Graph (st t)) i parent = Some b"
                "b \<Longrightarrow> path_of ?n \<notin> path_of ` set (take i ns) \<and> placed (take i ns @ [?n]) i" by blast
              have count: "count = gn_Count ?n" by simp
              show ?thesis
                apply (rule wp_gets_graph, rule wp_unless [OF b(1) t(1)])
                apply (subst count, rule wp_mono, rule wp_Load_properties [OF t len _ fuel])
                subgoal by (simp add: zero_node_def)
                subgoal premises q for r v
                proof -
                  have bb: b and post: "load_post base held (\<lambda>v. \<exists>m. holds_nodes P (ns[i := m]) v \<and> loaded_node ?n m) r v"
                    using q by auto
                  have "loaded P K (Suc i) u" if m: "holds_nodes P (ns[i := m]) u" "loaded_node ?n m" for m u
                  proof (rule loaded_Suc [OF m(1) len K tr])
                    have pm: "path_of m = path_of ?n" using m(2) by (simp add: loaded_node_def path_of_def)
                    show "node_ok m" using m(2) prems by (auto simp: node_ok_def loaded_node_def path_of_def text_block_def)
                    show "path_of m \<notin> path_of ` set (take i ns)" using b(2) [OF bb] pm by simp
                    show "placed (take i ns @ [m]) i"
                      using b(2) [OF bb] placed_parent [of m ?n "take i ns"] pm m(2) len by (simp add: loaded_node_def)
                    show "gn_Phandle m = 0" using m(2) by (simp add: loaded_node_def zero_node_def)
                  qed
                  then show ?thesis using post by (auto simp: load_post_def)
                qed
                done
            qed
            done
          done
        done
      done
  qed
qed

lemma wp_Load_info:
  assumes acc: "accounts base held w" and none: "gr_Nodes (gs_Graph (st w)) = None"
  shows "wp (Load_info E ev) (load_post base held (\<lambda>v. \<exists>P. loaded P (unat (gi_Nodes (gr_Info (gs_Graph (st v))))) 0 v \<and>
    0 < gi_Nodes (gr_Info (gs_Graph (st v))) \<and> gi_Nodes (gr_Info (gs_Graph (st v))) \<le> GRAPH_ITEMS)) w"
proof -
  have fok: "\<exists>b. functions_ok a = Some b" if "arg_ok a" for a
    using that by (auto simp: functions_ok_def arg_ok_def at_byte_def)
  have info: "wp (on_info f) (\<lambda>_ v. accounts base held v \<and> gr_Nodes (gs_Graph (st v)) = None \<and>
      gr_Info (gs_Graph (st v)) = f (gr_Info (gs_Graph (st u)))) u"
    if "accounts base held u" "gr_Nodes (gs_Graph (st u)) = None"
      "\<And>x. gi_CacheBytes (f x) = gi_CacheBytes x" "\<And>x. gi_Properties (f x) = gi_Properties x" for f u
    using that by (intro wp_modifyI) (auto simp: accounts_def graph_shape_def owned_def)
  show ?thesis
    unfolding Load_info_def
  proof (rule wp_reply [OF acc], goal_cases)
    case (1 a v)
    then have "arg_ok (a ! 0)" by (auto intro: nth_mem)
    then obtain b where b: "functions_ok (a ! 0) = Some b" using fok by blast
    show ?case
    proof (rule wp_unless [OF b 1(1)], rule wp_reply [OF 1(1)], goal_cases)
      case (1 c u)
      then have c: "arg_ok (c ! 0)" "arg_ok (c ! 1)" "arg_ok (c ! 2)" by (auto intro: nth_mem)
      have nu: "gr_Nodes (gs_Graph (st u)) = None" using none 1 \<open>gs_Graph (st v) = gs_Graph (st w)\<close> by simp
      show ?case
        apply (rule wp_integer [OF c(1) 1(2)], rule wp_bindI, rule wp_mono, rule info [OF 1(2) nu], simp, simp, elim conjE)
        apply (rule wp_stop_if, assumption, simp)
        apply (rule wp_integer [OF c(2)], assumption, rule wp_bindI, rule wp_mono, rule info, assumption, assumption, simp, simp, elim conjE)
        apply (rule wp_stop_if, assumption, simp)
        apply (rule wp_integer [OF c(3)], assumption, rule wp_bindI, rule wp_mono, rule info, assumption, assumption, simp, simp, elim conjE)
        apply (rule wp_stop_if, assumption, simp)
        subgoal for schema r1 u1 nodes r2 u2 layout r3 u3
          apply (rule wp_bindI, rule wp_Allocate, assumption)
          subgoal by (auto intro!: wp_stop)
          subgoal premises prems for p t
          proof -
            let ?t = "t\<lparr>st := st t\<lparr>gs_Graph := gs_Graph (st t)\<lparr>gr_Nodes := Some (p, replicate (unat nodes) zero_node)\<rparr>\<rparr>\<rparr>"
            have n: "gi_Nodes (gr_Info (gs_Graph (st ?t))) = nodes" using prems by simp
            have "accounts base held ?t"
              using prems n by (auto simp: accounts_def owned_def graph_shape_def)
            moreover have "loaded p (unat nodes) 0 ?t"
              by (auto simp: loaded_def holds_nodes_def tree_ok_def zero_node_def)
            ultimately show ?thesis
              using prems n by (auto simp: wp_simps not_less word_gt_0 intro!: load_postI)
          qed
          done
        done
    qed
  qed
qed

end

section \<open>Handles\<close>

definition property_named :: "GRAPH_NODE \<Rightarrow> bytes \<Rightarrow> GRAPH_PROPERTY option" where
  "property_named n s = (case props_of n of None \<Rightarrow> None | Some ps \<Rightarrow> find (\<lambda>q. name_of q = s) ps)"

definition handle_of :: "GRAPH_NODE \<Rightarrow> GRAPH_PROPERTY option" where
  "handle_of n = (case property_named n (map of_char ''phandle'') of
     None \<Rightarrow> property_named n (map of_char ''linux,phandle'')
   | Some q \<Rightarrow> Some q)"

text \<open>A node's handle is the big-endian value of its handle property; no two nodes share one.\<close>

definition handle_ok :: "GRAPH_NODE \<Rightarrow> bool" where
  "handle_ok n \<longleftrightarrow> (case handle_of n of
     None \<Rightarrow> gn_Phandle n = 0
   | Some q \<Rightarrow> gp_Length q = 4 \<and> Graph_Be32 (gp_Data q) 0 = Some (gn_Phandle n) \<and> gn_Phandle n \<noteq> 0 \<and> gn_Phandle n \<noteq> 0xffffffff)"

definition handles_ok :: "GRAPH_NODE list \<Rightarrow> nat \<Rightarrow> bool" where
  "handles_ok ns i \<longleftrightarrow> (\<forall>k<i. handle_ok (ns ! k) \<and> (gn_Phandle (ns ! k) \<noteq> 0 \<longrightarrow> (\<forall>l<k. gn_Phandle (ns ! l) \<noteq> gn_Phandle (ns ! k))))"

lemma find_property_text:
  assumes "list_all prop_ok ps" "cstr d = Some s"
  shows "find_property ps d = Some (find (\<lambda>q. name_of q = s) ps)"
  using assms(1)
proof (induction ps)
  case (Cons q ps)
  then obtain p e where "gp_Name q = Some (p, e)" "cstr e = Some (name_of q)"
    by (auto simp: prop_ok_def name_of_def elim: text_blockE)
  with Cons assms(2) show ?case by (auto simp: str_eq_def)
qed simp

lemma GraphProperty_named:
  assumes "gr_Nodes g = Some (P, ns)" "length ns = unat (gi_Nodes (gr_Info g))" "i < length ns" "props_ok (ns ! i)" "cstr d = Some s"
  shows "GraphProperty g (of_nat i) d = Some (property_named (ns ! i) s)"
proof -
  have i: "unat (of_nat i :: u32) = i"
    using assms(2,3) u32_lt [of "gi_Nodes (gr_Info g)"] by (intro unat_of_nat_small) simp
  obtain ps where ps: "props_of (ns ! i) = Some ps" "list_all prop_ok ps" using assms(4) by (auto simp: props_ok_def)
  show ?thesis
    using assms(1-3) i ps find_property_text [OF ps(2) assms(5)]
    by (simp add: GraphProperty_def node_at_def property_named_def word_le_nat_alt)
qed

lemma property_named_ok: "props_ok n \<Longrightarrow> property_named n s = Some q \<Longrightarrow> prop_ok q"
  by (auto simp: props_ok_def property_named_def find_Some_iff list_all_iff)

lemma cstr_ascii: "0 \<notin> set (map of_char s :: bytes) \<Longrightarrow> cstr (ascii s) = Some (map of_char s)"
  by (simp add: ascii_def)

lemma handle_property_of:
  assumes "gr_Nodes g = Some (P, ns)" "length ns = unat (gi_Nodes (gr_Info g))" "i < length ns" "props_ok (ns ! i)"
  shows "\<exists>f. handle_property g i = Some f \<and> (\<forall>r. f = Some r \<longrightarrow> r = handle_of (ns ! i))"
proof -
  note named = GraphProperty_named [OF assms cstr_ascii]
  have same: "\<exists>b. same_property p q = Some b" if "prop_ok p" "prop_ok q" for p q
    using that by (auto simp: same_property_def prop_ok_def)
  have a: "GraphProperty g (of_nat i) (ascii ''phandle'') = Some (property_named (ns ! i) (map of_char ''phandle''))"
    "GraphProperty g (of_nat i) (ascii ''linux,phandle'') = Some (property_named (ns ! i) (map of_char ''linux,phandle''))"
    by (rule named, simp)+
  obtain x y where x: "property_named (ns ! i) (map of_char ''phandle'') = x" "property_named (ns ! i) (map of_char ''linux,phandle'') = y"
    by blast
  have ok: "x = Some p \<Longrightarrow> prop_ok p" "y = Some p \<Longrightarrow> prop_ok p" for p
    using property_named_ok [OF assms(4)] x by blast+
  show ?thesis
  proof (cases x)
    case None
    then show ?thesis unfolding handle_property_def a bind.bind_lunit handle_of_def x by simp
  next
    case (Some p)
    then show ?thesis
      using ok same unfolding handle_property_def a bind.bind_lunit handle_of_def x by (cases y) fastforce+
  qed
qed

text \<open>Setting a handle changes nothing else.\<close>

abbreviation set_handle :: "u32 \<Rightarrow> GRAPH_NODE \<Rightarrow> GRAPH_NODE" where
  "set_handle v n \<equiv> n\<lparr>gn_Phandle := v\<rparr>"

lemma props_of_set_handle [simp]: "props_of (set_handle v n) = props_of n"
  by (cases "gn_Properties n") (auto simp: props_of_def)

lemma property_named_set_handle [simp]: "property_named (set_handle v n) s = property_named n s"
  by (simp add: property_named_def)

lemma handle_of_set_handle [simp]: "handle_of (set_handle v n) = handle_of n"
  unfolding handle_of_def property_named_set_handle by (rule refl)

lemma set_handle_simps [simp]:
  "path_of (set_handle v n) = path_of n" "node_ok (set_handle v n) = node_ok n"
  "owned_node (set_handle v n) = owned_node n" "node_shape (set_handle v n) = node_shape n"
  by (simp_all add: path_of_def node_ok_def props_ok_def owned_node_def node_shape_def)

lemma tree_set_handle:
  assumes "i < length ns"
  shows "tree_ok (ns[i := set_handle v (ns ! i)]) = tree_ok ns"
proof -
  let ?ms = "ns[i := set_handle v (ns ! i)]"
  have n: "path_of (?ms ! k) = path_of (ns ! k)" "gn_Parent (?ms ! k) = gn_Parent (ns ! k)" "node_ok (?ms ! k) = node_ok (ns ! k)" for k
    using assms by (cases "k = i"; simp)+
  have "map path_of ?ms = map path_of ns" using n by (intro nth_equalityI) simp_all
  moreover have "placed ?ms k = placed ns k" for k by (simp add: placed_def n)
  moreover have "list_all node_ok ?ms = list_all node_ok ns" by (simp add: list_all_length n)
  ultimately show ?thesis by (simp add: tree_ok_def)
qed

definition handled :: "ptr \<Rightarrow> nat \<Rightarrow> nat \<Rightarrow> 'x GRAPH_STATE world \<Rightarrow> bool" where
  "handled P K i w \<longleftrightarrow> (\<exists>ns. holds_nodes P ns w \<and> length ns = K \<and> tree_ok ns \<and> handles_ok ns i \<and>
     (\<forall>k. i \<le> k \<and> k < K \<longrightarrow> gn_Phandle (ns ! k) = 0))"

lemma handles_ok_Suc:
  assumes "i < length ns" "handles_ok ns i" "handle_ok (set_handle v (ns ! i))" "v \<noteq> 0 \<Longrightarrow> v \<notin> gn_Phandle ` set (take i ns)"
  shows "handles_ok (ns[i := set_handle v (ns ! i)]) (Suc i)"
proof -
  have "gn_Phandle (ns ! l) \<in> gn_Phandle ` set (take i ns)" if "l < i" for l
    using that assms(1) by (auto simp: in_set_conv_nth intro!: image_eqI [of _ _ "ns ! l"] exI [of _ l])
  then show ?thesis
    using assms by (auto simp: handles_ok_def less_Suc_eq nth_list_update)
qed

lemma accounts_shape: "accounts base held w \<Longrightarrow> holds_nodes P ns w \<Longrightarrow> n \<in> set ns \<Longrightarrow> node_shape n"
  by (auto simp: accounts_def graph_shape_def holds_nodes_def)

lemma wp_Load_phandle:
  assumes acc: "accounts base held w" and h: "handled P K i w" and i: "i < K"
  shows "wp (Load_phandle i) (load_post base held (handled P K (Suc i))) w"
proof -
  obtain ns where ns: "holds_nodes P ns w" "length ns = K" "tree_ok ns" "handles_ok ns i"
      "\<forall>k. i \<le> k \<and> k < K \<longrightarrow> gn_Phandle (ns ! k) = 0"
    using h by (auto simp: handled_def)
  have props: "props_ok (ns ! i)" using ns(2,3) i by (simp add: tree_ok_def list_all_length node_ok_def)
  have len: "length ns = unat (gi_Nodes (gr_Info (gs_Graph (st w))))" by (rule accounts_length [OF acc ns(1)])
  obtain f where f: "handle_property (gs_Graph (st w)) i = Some f" "\<And>r. f = Some r \<Longrightarrow> r = handle_of (ns ! i)"
    using handle_property_of [OF ns(1) [unfolded holds_nodes_def] len _ props] ns(2) i by blast
  have before: "handles_before (gs_Graph (st w)) i = Some (map gn_Phandle (take i ns))"
    using ns(1) by (simp add: handles_before_def holds_nodes_def)
  have same: "set_handle 0 (ns ! i) = ns ! i" using ns(2,5) i by simp
  have done_: "handled P K (Suc i) w" if "handle_of (ns ! i) = None"
  proof -
    have "handles_ok ns (Suc i)"
      using handles_ok_Suc [of i ns 0] same ns i that by (simp add: handle_ok_def)
    then show ?thesis using ns by (auto simp: handled_def)
  qed
  have upd: "handled P K (Suc i) v"
    if v: "holds_nodes P (ns[i := set_handle y (ns ! i)]) v" and q: "handle_of (ns ! i) = Some q" "gp_Length q = 4"
      "Graph_Be32 (gp_Data q) 0 = Some y" "y \<noteq> 0" "y \<noteq> 0xffffffff" "y \<notin> gn_Phandle ` set (take i ns)" for v q y
  proof -
    have "handle_ok (set_handle y (ns ! i))" using q by (simp add: handle_ok_def)
    then have "handles_ok (ns[i := set_handle y (ns ! i)]) (Suc i)"
      using q ns i by (intro handles_ok_Suc) auto
    then show ?thesis
      unfolding handled_def using v ns i by (intro exI [of _ "ns[i := set_handle y (ns ! i)]"]) (simp add: tree_set_handle)
  qed
  show ?thesis
    unfolding Load_phandle_def
  proof (rule wp_gets_graph, rule wp_defined [OF f(1)], goal_cases)
    case 1
    show ?case
    proof (cases f)
      case None
      then show ?thesis using acc by (auto intro!: wp_stop)
    next
      case (Some r)
      with f(2) have r: "r = handle_of (ns ! i)" by simp
      show ?thesis
      proof (cases r)
        case None
        then show ?thesis using acc done_ r Some by (auto intro!: wp_stop)
      next
        case q: (Some q)
        have qok: "prop_ok q" using r q property_named_ok [OF props] by (auto simp: handle_of_def split: option.splits)
        show ?thesis
          unfolding Some q option.case
        proof (rule wp_stop_if [OF acc], simp, goal_cases)
          case 1
          then have "4 \<le> length (gp_Data q)" using qok by (simp add: prop_ok_def)
          then obtain y where y: "Graph_Be32 (gp_Data q) 0 = Some y" using Be32_in [of 0 "gp_Data q"] by auto
          show ?case
            apply (rule wp_defined [OF y], rule wp_stop_if [OF acc], simp)
            apply (rule wp_bindI, rule wp_set_node [where base = base and held = held and new = "{#}", OF _ ns(1)])
            using acc ns i accounts_shape [OF acc ns(1)] apply simp_all [4]
            apply (rule wp_defined [OF before])
            using 1 r q y by (auto intro!: wp_stop upd)
        qed
      qed
    qed
  qed
qed

section \<open>The whole load\<close>

definition graph_ok :: "GRAPH \<Rightarrow> bool" where
  "graph_ok g \<longleftrightarrow> (\<exists>P ns. gr_Nodes g = Some (P, ns) \<and> ns \<noteq> [] \<and> length ns = unat (gi_Nodes (gr_Info g)) \<and>
     gi_Nodes (gr_Info g) \<le> GRAPH_ITEMS \<and> tree_ok ns \<and> handles_ok ns (length ns))"

lemma tree_ok_Nil [simp]: "tree_ok []"
  by (simp add: tree_ok_def)

context graph_source
begin

lemma wp_Graph_Load:
  assumes acc: "accounts base held w" and none: "gr_Nodes (gs_Graph (st w)) = None" and fuel: "unat GRAPH_LIMIT \<le> fuel"
  shows "wp (Graph_Load E ev fuel) (load_post base held (\<lambda>v. graph_ok (gs_Graph (st v)))) w"
proof -
  have stop: "wp (ret r) (load_post base held S) v" if "load_post base held T r v" "r \<noteq> Some GraphOk"
    for r :: "GRAPH_RESULT option" and S T v
    using that by (simp add: wp_simps load_post_def)
  show ?thesis
    unfolding Graph_Load_def
    apply (rule wp_bindI, rule wp_mono [OF wp_Load_info [OF acc none]])
    subgoal premises pre for r1 v
    proof (rule wp_ifI, goal_cases)
      case 1
      then show ?case using pre by (auto intro: stop)
    next
      case 2
      then obtain P where accv: "accounts base held v" and ld: "loaded P (unat (gi_Nodes (gr_Info (gs_Graph (st v))))) 0 v"
        and N: "0 < gi_Nodes (gr_Info (gs_Graph (st v)))" "gi_Nodes (gr_Info (gs_Graph (st v))) \<le> GRAPH_ITEMS"
        using pre by (auto simp: load_post_def)
      let ?K = "unat (gi_Nodes (gr_Info (gs_Graph (st v))))"
      have K: "0 < ?K" using N by (simp add: word_less_nat_alt)
      have node: "wp (Load_node E ev fuel i) (load_post base held (loaded P ?K (Suc i))) u"
        if "accounts base held u" "loaded P ?K i u" "i < ?K" for i u
        by (rule wp_Load_node [OF that(1,2,3) fuel])
      show ?case
        apply (rule wp_gets_graph, rule wp_LetI, hypsubst)
        apply (rule wp_bindI, rule wp_mono, rule wp_untilM [where I = "loaded P ?K", OF accv ld], simp, rule node, assumption, assumption, assumption)
        subgoal premises post for y r2 u
        proof (rule wp_ifI, goal_cases)
          case 1
          then show ?case using post by (auto intro: stop)
        next
          case 2
          then have accu: "accounts base held u" and "loaded P ?K ?K u" using post by (auto simp: load_post_def)
          then have "handled P ?K 0 u" by (auto simp: loaded_def handled_def handles_ok_def)
          then show ?case
            apply (intro wp_mono [OF wp_untilM [OF accu, where I = "handled P ?K"]])
            apply assumption
            apply simp
            apply (rule wp_Load_phandle, assumption, assumption, assumption)
            subgoal for r3 t
              using K accounts_length [of base held t P] N
              by (clarsimp simp: load_post_def, clarsimp simp: handled_def graph_ok_def)
                (auto simp: holds_nodes_def word_le_nat_alt)
            done
        qed
        done
    qed
    done
qed

text \<open>The load as a whole: it has a result, all memory is accounted for, and either the graph is a
  well-formed tree or there is none.\<close>

lemma wp_GraphLoad:
  assumes fuel: "unat GRAPH_LIMIT \<le> fuel"
  shows "wp (GraphLoad E ev fuel) (\<lambda>r v. r \<noteq> None \<and> accounts (outstanding (trace w)) {#} v \<and>
    (r = Some GraphOk \<longrightarrow> graph_ok (gs_Graph (st v))) \<and> (r \<noteq> Some GraphOk \<longrightarrow> gr_Nodes (gs_Graph (st v)) = None)) w"
proof -
  let ?g = "zero_graph\<lparr>gr_Info := gr_Info zero_graph\<lparr>gi_Version := PI5_GRAPH_VERSION\<rparr>\<rparr>"
  let ?b = "outstanding (trace w)"
  have g: "gr_Nodes ?g = None" "owned ?g = {#}" "graph_shape ?g" by (simp_all add: zero_graph_def owned_def graph_shape_def)
  have acc0: "accounts ?b {#p#} v" if "gs_Graph (st v) = ?g" "p \<noteq> 0" "trace v = Call ''ExAllocatePool2'' xs p # trace w" for v :: "'x GRAPH_STATE world" and p xs
    using that g by (auto simp: accounts_def)
  have free: "accounts ?b {#} (v\<lparr>trace := Call ''ExFreePoolWithTag'' [p, GRAPH_TAG] y # trace v\<rparr>)"
    if "accounts ?b {#p#} v" for v :: "'x GRAPH_STATE world" and p y
    using that by (auto simp: accounts_def)
  show ?thesis
    unfolding GraphLoad_def Graph_pool_Allocate_def
    apply (intro wp_bindI wp_modifyI wp_call_any)
    subgoal for p
      apply (rule wp_ifI)
      subgoal using g by (simp add: wp_simps accounts_def)
      apply (intro wp_bindI, rule wp_mono, rule wp_Graph_Load [OF acc0 _ fuel])
      apply simp
      apply simp
      apply simp
      using g apply simp
      subgoal for r v
        apply (unfold Graph_pool_Free_def, rule wp_bindI, rule wp_kernel_doI, rule wp_bindI, rule wp_whenI)
        subgoal for y
          by (rule wp_mono [OF accounts_GraphFree [OF free]])
            (auto simp: load_post_def wp_simps zero_graph_def)
        subgoal for y
          by (auto simp: load_post_def wp_simps intro: free)
        done
      done
    done
qed

end

end
