(* ===== verification/Graph_Query.thy ===== *)
theory Graph_Query
  imports Graph_Loading
begin

text \<open>
  Searching a loaded graph and resolving references between its nodes, the last part of
  \<open>pi5-graph/graph.c\<close>. As in the loader, \<open>None\<close> is a read outside of an object.
\<close>

unbundle bit_operations_syntax

section \<open>Finding nodes\<close>

abbreviation PI5_GRAPH_FIND_PATH :: u32 where "PI5_GRAPH_FIND_PATH \<equiv> 1"
abbreviation PI5_GRAPH_FIND_OWNER :: u32 where "PI5_GRAPH_FIND_OWNER \<equiv> 2"
abbreviation PI5_GRAPH_FIND_COMPATIBLE :: u32 where "PI5_GRAPH_FIND_COMPATIBLE \<equiv> 3"
abbreviation PI5_GRAPH_FIND_PHANDLE :: u32 where "PI5_GRAPH_FIND_PHANDLE \<equiv> 4"
abbreviation PI5_GRAPH_CELLS :: u32 where "PI5_GRAPH_CELLS \<equiv> 16"

record PI5_GRAPH_FIND =
  gf_Version :: u32
  gf_Start :: u32
  gf_Kind :: u32
  gf_Phandle :: u32
  gf_Text :: bytes

definition find_valid :: "PI5_GRAPH_FIND \<Rightarrow> bool option" where
  "find_valid q =
     (if gf_Version q \<noteq> PI5_GRAPH_VERSION \<or> gf_Kind q < 1 \<or> gf_Kind q > 4 then Some False
      else do {
        k \<leftarrow> memchr0 (gf_Text q) (unat PI5_GRAPH_PATH);
        if k = None then Some False
        else if gf_Kind q = PI5_GRAPH_FIND_PHANDLE
        then Some (gf_Phandle q \<noteq> 0 \<and> gf_Phandle q \<noteq> 0xffffffff)
        else do { c \<leftarrow> at_byte (gf_Text q) 0; Some (c \<noteq> 0) }
      })"

text \<open>A list of strings in a property; it is searched to its end. \<open>None\<close> in the result says that the
  last string has no end.\<close>

function compatible_match :: "bytes \<Rightarrow> bytes \<Rightarrow> bool \<Rightarrow> bool option option" where
  "compatible_match d t matched =
     (if d = [] then Some (Some matched)
      else do {
        e \<leftarrow> memchr0 d (length d);
        case e of
          None \<Rightarrow> Some None
        | Some k \<Rightarrow> do {
            s \<leftarrow> str_eq d t;
            compatible_match (drop (k + 1) d) t (matched \<or> s)
          }
      })"
  by pat_completeness auto
termination
  by (relation "measure (length o fst)") auto

declare compatible_match.simps [simp del]

definition property_bytes :: "GRAPH_PROPERTY \<Rightarrow> bytes option" where
  "property_bytes p = (if unat (gp_Length p) \<le> length (gp_Data p) then Some (take (unat (gp_Length p)) (gp_Data p)) else None)"

definition node_match :: "GRAPH \<Rightarrow> PI5_GRAPH_FIND \<Rightarrow> nat \<Rightarrow> bool option option" where
  "node_match g q i = do {
     n \<leftarrow> node_at g i;
     if gf_Kind q = PI5_GRAPH_FIND_PATH then do { b \<leftarrow> gn_Path n; e \<leftarrow> str_eq (snd b) (gf_Text q); Some (Some e) }
     else if gf_Kind q = PI5_GRAPH_FIND_OWNER then do { b \<leftarrow> gn_Owner n; e \<leftarrow> str_eq (snd b) (gf_Text q); Some (Some e) }
     else if gf_Kind q = PI5_GRAPH_FIND_PHANDLE then Some (Some (gn_Phandle n = gf_Phandle q))
     else do {
       p \<leftarrow> GraphProperty g (of_nat i) (ascii ''compatible'');
       case p of
         None \<Rightarrow> Some (Some False)
       | Some p \<Rightarrow> do { d \<leftarrow> property_bytes p; compatible_match d (gf_Text q) False }
     }
   }"

fun find_from :: "GRAPH \<Rightarrow> PI5_GRAPH_FIND \<Rightarrow> nat list \<Rightarrow> (GRAPH_RESULT \<times> u32) option" where
  "find_from g q [] = Some (GraphNotFound, 0)"
| "find_from g q (i # is) = do {
     m \<leftarrow> node_match g q i;
     case m of
       None \<Rightarrow> Some (GraphInvalid, 0)
     | Some True \<Rightarrow> Some (GraphOk, of_nat i)
     | Some False \<Rightarrow> find_from g q is
   }"

definition GraphFind :: "GRAPH \<Rightarrow> PI5_GRAPH_FIND \<Rightarrow> (GRAPH_RESULT \<times> u32) option" where
  "GraphFind g q = do {
     ok \<leftarrow> find_valid q;
     if \<not> ok then Some (GraphInvalid, 0)
     else find_from g q [unat (gf_Start q)..<unat (gi_Nodes (gr_Info g))]
   }"

section \<open>Resolving references\<close>

record PI5_GRAPH_RESOLVE =
  gq_Version :: u32
  gq_Node :: u32
  gq_Index :: u32
  gq_Reserved :: u32
  gq_Property :: bytes
  gq_CellsProperty :: bytes

record PI5_GRAPH_REFERENCE =
  ge_Version :: u32
  ge_Provider :: u32
  ge_Phandle :: u32
  ge_Count :: u32
  ge_Cells :: "u32 list"

definition find_provider :: "GRAPH \<Rightarrow> u32 \<Rightarrow> nat option option" where
  "find_provider g h = (case gr_Nodes g of
     None \<Rightarrow> if gi_Nodes (gr_Info g) = 0 then Some None else None
   | Some (p, ns) \<Rightarrow>
       if length ns < unat (gi_Nodes (gr_Info g)) then None
       else Some (find (\<lambda>i. gn_Phandle (ns ! i) = h) [0..<unat (gi_Nodes (gr_Info g))]))"

definition specifier_cells :: "GRAPH \<Rightarrow> PI5_GRAPH_RESOLVE \<Rightarrow> nat \<Rightarrow> u32 option option" where
  "specifier_cells g q i = do {
     c \<leftarrow> at_byte (gq_CellsProperty q) 0;
     if c = 0 then Some (Some 0)
     else do {
       p \<leftarrow> GraphProperty g (of_nat i) (gq_CellsProperty q);
       case p of
         None \<Rightarrow> Some None
       | Some p \<Rightarrow> if gp_Length p \<noteq> 4 then Some None else do { n \<leftarrow> Graph_Be32 (gp_Data p) 0; Some (Some n) }
     }
   }"

fun be_cells :: "bytes \<Rightarrow> nat \<Rightarrow> u32 list option" where
  "be_cells d 0 = Some []"
| "be_cells d (Suc n) = do { c \<leftarrow> Graph_Be32 d 0; cs \<leftarrow> be_cells (drop 4 d) n; Some (c # cs) }"

text \<open>The specifiers in what is left of the property; \<open>index\<close> counts them, \<open>found\<close> is the one asked for.\<close>

function resolve_loop :: "GRAPH \<Rightarrow> PI5_GRAPH_RESOLVE \<Rightarrow> bytes \<Rightarrow> u32 \<Rightarrow> PI5_GRAPH_REFERENCE option \<Rightarrow>
    (GRAPH_RESULT \<times> PI5_GRAPH_REFERENCE option) option" where
  "resolve_loop g q d index found =
     (if d = [] then Some (if found = None then GraphNotFound else GraphOk, found)
      else do {
        h \<leftarrow> Graph_Be32 d 0;
        if h = 0 then resolve_loop g q (drop 4 d) (index + 1) found
        else do {
          provider \<leftarrow> find_provider g h;
          case provider of
            None \<Rightarrow> Some (GraphInvalid, None)
          | Some i \<Rightarrow> do {
              c \<leftarrow> specifier_cells g q i;
              case c of
                None \<Rightarrow> Some (GraphInvalid, None)
              | Some cells_n \<Rightarrow>
                  if cells_n > PI5_GRAPH_CELLS \<or> unat cells_n > length (drop 4 d) div 4 then Some (GraphInvalid, None)
                  else do {
                    cells \<leftarrow> be_cells (drop 4 d) (unat cells_n);
                    resolve_loop g q (drop (4 * unat cells_n) (drop 4 d)) (index + 1)
                      (if index = gq_Index q
                       then Some \<lparr>ge_Version = PI5_GRAPH_VERSION, ge_Provider = of_nat i, ge_Phandle = h, ge_Count = cells_n,
                         ge_Cells = cells @ replicate (16 - unat cells_n) 0\<rparr>
                       else found)
                  }
            }
        }
      })"
  by pat_completeness auto
termination
  by (relation "measure (\<lambda>(g, q, d, i, f). length d)") auto

declare resolve_loop.simps [simp del]

definition resolve_valid :: "GRAPH \<Rightarrow> PI5_GRAPH_RESOLVE \<Rightarrow> bool option" where
  "resolve_valid g q =
     (if gq_Version q \<noteq> PI5_GRAPH_VERSION \<or> gq_Reserved q \<noteq> 0 \<or> gq_Node q \<ge> gi_Nodes (gr_Info g) then Some False
      else do {
        k \<leftarrow> memchr0 (gq_Property q) (unat PI5_GRAPH_PROPERTY_NAME);
        c \<leftarrow> at_byte (gq_Property q) 0;
        if k = None \<or> c = 0 then Some False
        else do { l \<leftarrow> memchr0 (gq_CellsProperty q) (unat PI5_GRAPH_PROPERTY_NAME); Some (l \<noteq> None) }
      })"

definition GraphResolve :: "GRAPH \<Rightarrow> PI5_GRAPH_RESOLVE \<Rightarrow> (GRAPH_RESULT \<times> PI5_GRAPH_REFERENCE option) option" where
  "GraphResolve g q = do {
     ok \<leftarrow> resolve_valid g q;
     if \<not> ok then Some (GraphInvalid, None)
     else do {
       p \<leftarrow> GraphProperty g (gq_Node q) (gq_Property q);
       case p of
         None \<Rightarrow> Some (GraphNotFound, None)
       | Some p \<Rightarrow>
           if gp_Length p mod 4 \<noteq> 0 then Some (GraphInvalid, None)
           else do { d \<leftarrow> property_bytes p; resolve_loop g q d 0 None }
     }
   }"

section \<open>Finding is searching the tree\<close>

text \<open>The strings of a string-list property.\<close>

definition string_list :: "bytes list \<Rightarrow> bytes" where
  "string_list ss = concat (map (\<lambda>s. s @ [0]) ss)"

lemma memchr0_text: "0 \<notin> set s \<Longrightarrow> length s < n \<Longrightarrow> memchr0 (s @ 0 # r) n = Some (Some (length s))"
proof (induction s arbitrary: n)
  case Nil
  then show ?case by (cases n) simp_all
next
  case (Cons x s)
  then show ?case by (cases n) simp_all
qed

lemma compatible_strings:
  assumes "\<forall>s\<in>set ss. 0 \<notin> set s" "cstr t = Some u"
  shows "compatible_match (string_list ss) t m = Some (Some (m \<or> u \<in> set ss))"
  using assms(1)
proof (induction ss arbitrary: m)
  case Nil
  then show ?case by (simp add: compatible_match.simps string_list_def)
next
  case (Cons s ss)
  have d: "string_list (s # ss) = s @ 0 # string_list ss" by (simp add: string_list_def)
  have z: "0 \<notin> set s" using Cons.prems by simp
  have "memchr0 (string_list (s # ss)) (length (string_list (s # ss))) = Some (Some (length s))"
    unfolding d by (rule memchr0_text [OF z]) simp
  moreover have "str_eq (string_list (s # ss)) t = Some (s = u)"
    using z assms(2) by (simp add: d str_eq_def)
  ultimately show ?case
    using Cons by (subst compatible_match.simps) (auto simp: d)
qed

definition find_matches :: "PI5_GRAPH_FIND \<Rightarrow> bytes \<Rightarrow> GRAPH_NODE \<Rightarrow> bool" where
  "find_matches q t n \<longleftrightarrow>
     (if gf_Kind q = PI5_GRAPH_FIND_PATH then path_of n = t
      else if gf_Kind q = PI5_GRAPH_FIND_OWNER then block_text (gn_Owner n) = t
      else if gf_Kind q = PI5_GRAPH_FIND_PHANDLE then gn_Phandle n = gf_Phandle q
      else \<exists>p ss. property_named n (map of_char ''compatible'') = Some p \<and> gp_Data p = string_list ss \<and>
        (\<forall>s\<in>set ss. 0 \<notin> set s) \<and> t \<in> set ss)"

definition compatible_ok :: "GRAPH_NODE \<Rightarrow> bool" where
  "compatible_ok n \<longleftrightarrow> (\<forall>p. property_named n (map of_char ''compatible'') = Some p \<longrightarrow>
     (\<exists>ss. gp_Data p = string_list ss \<and> (\<forall>s\<in>set ss. 0 \<notin> set s)))"

lemma string_list_inject:
  assumes "string_list ss = string_list ts" "\<forall>s\<in>set ss. 0 \<notin> set s" "\<forall>s\<in>set ts. 0 \<notin> set s"
  shows "ss = ts"
  using assms
proof (induction ss arbitrary: ts)
  case Nil
  then show ?case by (cases ts) (auto simp: string_list_def)
next
  case (Cons s ss)
  then obtain t ts' where ts: "ts = t # ts'" by (cases ts) (auto simp: string_list_def)
  have e: "s @ 0 # string_list ss = t @ 0 # string_list ts'" using Cons.prems(1) ts by (simp add: string_list_def)
  have "cstr (s @ 0 # string_list ss) = Some s" "cstr (t @ 0 # string_list ts') = Some t"
    using Cons.prems ts by simp_all
  with e have "s = t" by simp
  moreover from this e have "ss = ts'" using Cons by (simp add: ts)
  ultimately show ?case by (simp add: ts)
qed

lemma node_match_spec:
  assumes g: "gr_Nodes g = Some (P, ns)" "length ns = unat (gi_Nodes (gr_Info g))" and i: "i < length ns"
    and ok: "node_ok (ns ! i)" and t: "cstr (gf_Text q) = Some t"
    and kind: "gf_Kind q \<in> {1, 2, 3, 4}" and c: "gf_Kind q = PI5_GRAPH_FIND_COMPATIBLE \<Longrightarrow> compatible_ok (ns ! i)"
  shows "node_match g q i = Some (Some (find_matches q t (ns ! i)))"
proof -
  let ?n = "ns ! i"
  have n: "node_at g i = Some ?n" using g i by (simp add: node_at_def)
  obtain x y where xy: "gn_Path ?n = Some x" "cstr (snd x) = Some (path_of ?n)" "gn_Owner ?n = Some y" "cstr (snd y) = Some (block_text (gn_Owner ?n))"
    using ok by (auto simp: node_ok_def path_of_def elim!: text_blockE)
  have p: "GraphProperty g (of_nat i) (ascii ''compatible'') = Some (property_named ?n (map of_char ''compatible''))"
    by (rule GraphProperty_named [OF g i]) (use ok in \<open>simp_all add: node_ok_def cstr_ascii\<close>)
  show ?thesis
  proof (cases "gf_Kind q = PI5_GRAPH_FIND_COMPATIBLE")
    case False
    then show ?thesis
      using n xy t kind by (auto simp: node_match_def find_matches_def str_eq_def)
  next
    case True
    show ?thesis
    proof (cases "property_named ?n (map of_char ''compatible'')")
      case None
      with True show ?thesis unfolding node_match_def n p bind.bind_lunit by (simp add: find_matches_def)
    next
      case (Some r)
      obtain ss where ss: "gp_Data r = string_list ss" "\<forall>s\<in>set ss. 0 \<notin> set s"
        using c [OF True] Some unfolding compatible_ok_def by blast
      have "prop_ok r" using ok Some property_named_ok by (auto simp: node_ok_def)
      then have "property_bytes r = Some (string_list ss)" by (simp add: property_bytes_def prop_ok_def ss(1))
      moreover have "find_matches q t ?n \<longleftrightarrow> t \<in> set ss"
      proof -
        have "find_matches q t ?n \<longleftrightarrow> (\<exists>ss'. string_list ss = string_list ss' \<and> (\<forall>s\<in>set ss'. 0 \<notin> set s) \<and> t \<in> set ss')"
          unfolding find_matches_def Some True ss(1) [symmetric] by simp
        then show ?thesis using string_list_inject ss(2) by blast
      qed
      ultimately show ?thesis
        using True Some compatible_strings [OF ss(2) t] unfolding node_match_def n p bind.bind_lunit by simp
    qed
  qed
qed

lemma memchr0_cstr: "memchr0 d n = Some (Some k) \<Longrightarrow> cstr d = Some (take k d)"
proof -
  assume "memchr0 d n = Some (Some k)"
  then have k: "k < length d" "d ! k = 0" "0 \<notin> set (take k d)" by (auto dest: memchr0_Some)
  then have "d = take k d @ 0 # drop (Suc k) d" using id_take_nth_drop [of k d] by simp
  then show ?thesis using k(3) cstr_append by metis
qed

lemma find_from_spec:
  assumes "\<And>i. i \<in> set is \<Longrightarrow> node_match g q i = Some (Some (m i))"
  shows "find_from g q is = Some (case find m is of None \<Rightarrow> (GraphNotFound, 0) | Some i \<Rightarrow> (GraphOk, of_nat i))"
  using assms by (induction "is") auto

text \<open>On a loaded graph a search returns the first node, from its start on, that has the asked path, owner
  or handle, or that lists the asked string among its compatible ones; when there is none it says so. For the
  last kind every list of compatible strings must be properly terminated.\<close>

theorem graph_find_first:
  assumes "graph_ok g" "gr_Nodes g = Some (P, ns)" "find_valid q = Some True" "cstr (gf_Text q) = Some t"
    and "gf_Kind q = PI5_GRAPH_FIND_COMPATIBLE \<Longrightarrow> list_all compatible_ok ns"
  shows "GraphFind g q = Some (case find (\<lambda>i. find_matches q t (ns ! i)) [unat (gf_Start q)..<length ns] of
     None \<Rightarrow> (GraphNotFound, 0) | Some i \<Rightarrow> (GraphOk, of_nat i))"
proof -
  have len: "length ns = unat (gi_Nodes (gr_Info g))" and ok: "list_all node_ok ns"
    using assms(1,2) by (auto simp: graph_ok_def tree_ok_def)
  have "gf_Kind q \<in> {1, 2, 3, 4}"
  proof -
    have "gf_Kind q \<noteq> 0 \<and> gf_Kind q \<le> 4" using assms(3) by (auto simp: find_valid_def not_less split: if_splits)
    then have "0 < unat (gf_Kind q)" "unat (gf_Kind q) \<le> 4" by (simp_all add: word_le_nat_alt unat_gt_0)
    then have "unat (gf_Kind q) \<in> {1, 2, 3, 4}" by auto
    then show ?thesis by (auto dest: unat_eq_of_nat)
  qed
  then have "node_match g q i = Some (Some (find_matches q t (ns ! i)))" if "i < length ns" for i
    using node_match_spec [OF assms(2) len that _ assms(4)] ok assms(5) that by (auto simp: list_all_length)
  then show ?thesis
    using assms(3) len find_from_spec [of "[unat (gf_Start q)..<length ns]" g q "\<lambda>i. find_matches q t (ns ! i)"]
    by (simp add: GraphFind_def)
qed

text \<open>A graph with a root and one child. The child is a provider with handle 5 and one cell, the root's
  list of clocks has an empty entry and a reference to it.\<close>

definition property_example :: "u64 \<Rightarrow> string \<Rightarrow> bytes \<Rightarrow> GRAPH_PROPERTY" where
  "property_example a s d = \<lparr>gp_Name = Some (a, ascii s), gp_Data = d, gp_Length = of_nat (length d)\<rparr>"

definition nodes_example :: "GRAPH_NODE list" where
  "nodes_example =
     [zero_node\<lparr>gn_Path := Some (2, [0x2f, 0]), gn_Owner := Some (3, [0]), gn_Parent := PI5_GRAPH_NONE, gn_Count := 1,
        gn_Properties := Some (4, [property_example 5 ''clocks'' [0, 0, 0, 0, 0, 0, 0, 5, 0, 0, 0, 7]])\<rparr>,
      zero_node\<lparr>gn_Path := Some (6, [0x2f, 0x61, 0]), gn_Owner := Some (7, [0]), gn_Count := 2, gn_Phandle := 5,
        gn_Properties := Some (8, [property_example 9 ''phandle'' [0, 0, 0, 5], property_example 10 ''#clock-cells'' [0, 0, 0, 1]])\<rparr>]"

definition graph_example :: GRAPH where
  "graph_example = \<lparr>gr_Info = gr_Info zero_graph\<lparr>gi_Version := 1, gi_Schema := 1, gi_Nodes := 2, gi_Properties := 3\<rparr>,
     gr_Nodes = Some (1, nodes_example)\<rparr>"

lemma graph_example_nodes [simp]: "gr_Nodes graph_example = Some (1, nodes_example)"
  by (simp add: graph_example_def)

lemma text_block_Some: "text_block (Some (p, d)) \<longleftrightarrow> d \<noteq> [] \<and> last d = 0 \<and> 0 \<notin> set (butlast d)"
  by (auto simp: text_block_def) (metis append_butlast_last_id)

lemma graph_example_ok: "graph_ok graph_example"
proof -
  have be: "Graph_Be32 [0, 0, 0, 5] 0 = Some 5"
    by (simp add: Graph_Be32_def at_byte_def le32_def)
  show ?thesis
    by (simp add: graph_ok_def graph_example_def nodes_example_def zero_graph_def tree_ok_def node_ok_def text_block_Some path_of_def block_text_def
      props_ok_def props_of_def zero_node_def prop_ok_def name_of_def ascii_def placed_def handles_ok_def handle_ok_def
      handle_of_def property_named_def be All_less_Suc property_example_def)
qed

theorem graph_find_first_witness:
  "GraphFind graph_example \<lparr>gf_Version = 1, gf_Start = 0, gf_Kind = PI5_GRAPH_FIND_PHANDLE, gf_Phandle = 5, gf_Text = replicate 1024 0\<rparr>
     = Some (GraphOk, 1)"
proof -
  let ?q = "\<lparr>gf_Version = 1, gf_Start = 0, gf_Kind = PI5_GRAPH_FIND_PHANDLE, gf_Phandle = 5, gf_Text = replicate 1024 0\<rparr>"
  have z: "memchr0 (replicate 1024 0) 1024 = Some (Some 0)" "cstr (replicate 1024 0) = Some []"
    using memchr0_text [of "[]" 1024 "replicate 1023 0"] cstr_append [of "[]" "replicate 1023 0"]
    by (simp_all flip: replicate_Suc)
  have v: "find_valid ?q = Some True" by (simp add: find_valid_def z)
  show ?thesis
    using graph_find_first [OF graph_example_ok graph_example_nodes v, of "[]"] z
    by (simp add: nodes_example_def find_matches_def upt_rec zero_node_def)
qed

section \<open>Resolving is indexing the list of specifiers\<close>

text \<open>A list of references as it is stored: an empty entry, or a provider (a node and its handle) with its
  cells, all cells in big-endian order.\<close>

type_synonym specifier = "(nat \<times> u32 \<times> u32 list) option"

definition be32_bytes :: "u32 \<Rightarrow> bytes" where
  "be32_bytes w = rev (le32_bytes w)"

definition specifier_bytes :: "specifier \<Rightarrow> bytes" where
  "specifier_bytes e = (case e of None \<Rightarrow> be32_bytes 0 | Some (i, h, cs) \<Rightarrow> be32_bytes h @ concat (map be32_bytes cs))"

definition specifier_ok :: "GRAPH_NODE list \<Rightarrow> PI5_GRAPH_RESOLVE \<Rightarrow> bytes \<Rightarrow> specifier \<Rightarrow> bool" where
  "specifier_ok ns q s e = (case e of None \<Rightarrow> True
     | Some (i, h, cs) \<Rightarrow> i < length ns \<and> gn_Phandle (ns ! i) = h \<and> h \<noteq> 0 \<and> length cs \<le> 16 \<and>
         (if s = [] then cs = [] else \<exists>p. property_named (ns ! i) s = Some p \<and> gp_Length p = 4 \<and>
            Graph_Be32 (gp_Data p) 0 = Some (of_nat (length cs))))"

definition specifier_reference :: "nat \<times> u32 \<times> u32 list \<Rightarrow> PI5_GRAPH_REFERENCE" where
  "specifier_reference e = (case e of (i, h, cs) \<Rightarrow>
     \<lparr>ge_Version = PI5_GRAPH_VERSION, ge_Provider = of_nat i, ge_Phandle = h, ge_Count = of_nat (length cs),
      ge_Cells = cs @ replicate (16 - length cs) 0\<rparr>)"

lemma Be32_bytes [simp]: "Graph_Be32 (be32_bytes w @ r) 0 = Some w"
  by (simp add: Graph_Be32_def at_byte_def be32_bytes_def le32_bytes_def)

lemma length_be32_bytes [simp]: "length (be32_bytes w) = 4"
  by (simp add: be32_bytes_def)

lemma be32_bytes_not_empty [simp]: "be32_bytes w \<noteq> []" "[] \<noteq> be32_bytes w"
  by (simp_all add: be32_bytes_def le32_bytes_def)

lemma be_cells_bytes: "be_cells (concat (map be32_bytes cs) @ r) (length cs) = Some cs"
  by (induction cs) auto

lemma length_cells [simp]: "length (concat (map be32_bytes cs)) = 4 * length cs"
  by (induction cs) auto

lemma find_provider_unique:
  assumes "graph_ok g" "gr_Nodes g = Some (P, ns)" "i < length ns" "gn_Phandle (ns ! i) = h" "h \<noteq> 0"
  shows "find_provider g h = Some (Some i)"
proof -
  have ok: "length ns = unat (gi_Nodes (gr_Info g))" "handles_ok ns (length ns)" using assms(1,2) by (auto simp: graph_ok_def)
  have uniq: "gn_Phandle (ns ! k) = h \<Longrightarrow> k < length ns \<Longrightarrow> k = i" for k
  proof (rule ccontr)
    assume k: "gn_Phandle (ns ! k) = h" "k < length ns" "k \<noteq> i"
    then consider "k < i" | "i < k" by linarith
    then show False using ok(2) k assms(3-5) unfolding handles_ok_def by cases metis+
  qed
  have "find (\<lambda>i. gn_Phandle (ns ! i) = h) [0..<length ns] = Some i"
    unfolding find_Some_iff
  proof (intro exI [of _ i] conjI allI impI)
    fix j assume "j < i"
    then show "gn_Phandle (ns ! ([0..<length ns] ! j)) \<noteq> h" using uniq [of j] assms(3) by auto
  qed (use assms(3,4) in auto)
  then show ?thesis using ok assms(2) by (simp add: find_provider_def)
qed

lemma specifier_cells_ok:
  assumes "graph_ok g" "gr_Nodes g = Some (P, ns)" "cstr (gq_CellsProperty q) = Some s"
    and "specifier_ok ns q s (Some (i, h, cs))"
  shows "specifier_cells g q i = Some (Some (of_nat (length cs)))"
proof -
  have ok: "length ns = unat (gi_Nodes (gr_Info g))" "list_all node_ok ns" using assms(1,2) by (auto simp: graph_ok_def tree_ok_def)
  have i: "i < length ns" using assms(4) by (simp add: specifier_ok_def)
  obtain c r where d: "gq_CellsProperty q = c # r" using assms(3) by (cases "gq_CellsProperty q") auto
  have p: "GraphProperty g (of_nat i) (gq_CellsProperty q) = Some (property_named (ns ! i) s)"
    by (rule GraphProperty_named [OF assms(2) ok(1) i _ assms(3)]) (use ok i in \<open>simp add: list_all_length node_ok_def\<close>)
  have "c = 0 \<longleftrightarrow> s = []" using assms(3) d by (auto split: if_splits)
  then show ?thesis
    using assms(4) p d by (auto simp: specifier_cells_def at_byte_def specifier_ok_def)
qed

text \<open>The entry the loop keeps.\<close>

fun kept :: "specifier list \<Rightarrow> nat \<Rightarrow> nat \<Rightarrow> PI5_GRAPH_REFERENCE option \<Rightarrow> PI5_GRAPH_REFERENCE option" where
  "kept [] k x f = f"
| "kept (e # es) k x f = kept es (Suc k) x (case e of None \<Rightarrow> f | Some a \<Rightarrow> if k = x then Some (specifier_reference a) else f)"

lemma kept_before: "x < k \<Longrightarrow> kept es k x f = f"
  by (induction es arbitrary: k f) (auto split: option.splits)

lemma kept_nth: "k \<le> x \<Longrightarrow> x < k + length es \<Longrightarrow> kept es k x None = map_option specifier_reference (es ! (x - k))"
proof (induction es arbitrary: k)
  case (Cons e es)
  show ?case
  proof (cases "k = x")
    case True
    then show ?thesis by (cases e) (simp_all add: kept_before)
  next
    case False
    then have "x - k = Suc (x - Suc k)" using Cons.prems by simp
    then show ?thesis using Cons False by (cases e) simp_all
  qed
qed simp

lemma kept_none: "k + length es \<le> x \<Longrightarrow> kept es k x f = f"
  by (induction es arbitrary: k f) (auto split: option.splits)

lemma resolve_specifiers:
  assumes g: "graph_ok g" "gr_Nodes g = Some (P, ns)" "cstr (gq_CellsProperty q) = Some s"
    and "list_all (specifier_ok ns q s) es" "k + length es < 4294967296"
  shows "resolve_loop g q (concat (map specifier_bytes es)) (of_nat k) found =
     (let f = kept es k (unat (gq_Index q)) found in Some (if f = None then GraphNotFound else GraphOk, f))"
  using assms(4,5)
proof (induction es arbitrary: k found)
  case Nil
  then show ?case by (simp add: resolve_loop.simps)
next
  case (Cons e es)
  have idx: "of_nat k = gq_Index q \<longleftrightarrow> k = unat (gq_Index q)"
    using Cons.prems(2) by (simp add: word_eq_iff_unsigned [where ?'a = nat] unat_of_nat_small)
  note IH = Cons.IH [of "Suc k"]
  show ?case
  proof (cases e)
    case None
    have "resolve_loop g q (concat (map specifier_bytes (e # es))) (of_nat k) found =
        resolve_loop g q (concat (map specifier_bytes es)) (of_nat (Suc k)) found"
      unfolding None by (subst resolve_loop.simps) (auto simp: specifier_bytes_def add.commute)
    then show ?thesis using IH [of found] Cons.prems None by simp
  next
    case (Some a)
    obtain i h cs where a: "a = (i, h, cs)" by (cases a)
    have sp: "specifier_ok ns q s (Some (i, h, cs))" using Cons.prems(1) Some a by simp
    then have h: "h \<noteq> 0" "i < length ns" "gn_Phandle (ns ! i) = h" "length cs \<le> 16" by (auto simp: specifier_ok_def)
    have len: "unat (of_nat (length cs) :: u32) = length cs" using h(4) by (intro unat_of_nat_small) simp
    have c16: "\<not> (of_nat (length cs) :: u32) > PI5_GRAPH_CELLS" using h(4) by (simp add: word_less_nat_alt len not_less)
    let ?f = "if k = unat (gq_Index q) then Some (specifier_reference a) else found"
    have "resolve_loop g q (concat (map specifier_bytes (e # es))) (of_nat k) found =
        resolve_loop g q (concat (map specifier_bytes es)) (of_nat (Suc k)) ?f"
      unfolding Some a
      using find_provider_unique [OF g(1,2) h(2,3,1)] specifier_cells_ok [OF g sp] h(1) len idx c16
      by (subst resolve_loop.simps) (simp add: specifier_bytes_def be_cells_bytes add.commute specifier_reference_def)
    then show ?thesis using IH [of ?f] Cons.prems Some by simp
  qed
qed


text \<open>Resolving is the inverse of storing a list of references: when a property holds such a list, each
  entry with a provider of the graph and as many cells as the provider's cell count says, asking for an entry
  returns the provider, the handle and the cells that were stored there, and an empty entry or an index past
  the end is reported as not found.\<close>

theorem graph_resolve_roundtrip:
  assumes g: "graph_ok g" "gr_Nodes g = Some (P, ns)" and q: "resolve_valid g q = Some True"
    and t: "cstr (gq_Property q) = Some prop" "cstr (gq_CellsProperty q) = Some s"
    and p: "property_named (ns ! unat (gq_Node q)) prop = Some p" "gp_Data p = concat (map specifier_bytes es)"
    and es: "list_all (specifier_ok ns q s) es"
  shows "GraphResolve g q = Some (
     let entry = (if unat (gq_Index q) < length es then es ! unat (gq_Index q) else None)
     in (if entry = None then GraphNotFound else GraphOk, map_option specifier_reference entry))"
proof -
  have len: "length ns = unat (gi_Nodes (gr_Info g))" and ok: "list_all node_ok ns"
    using g by (auto simp: graph_ok_def tree_ok_def)
  have i: "unat (gq_Node q) < length ns" using q len by (auto simp: resolve_valid_def word_less_nat_alt not_le split: if_splits)
  have nk: "props_ok (ns ! unat (gq_Node q))" using ok i by (auto simp: list_all_length node_ok_def)
  have gp: "GraphProperty g (gq_Node q) (gq_Property q) = Some (Some p)"
    using GraphProperty_named [OF g(2) len i nk t(1)] p(1) by simp
  have pk: "length (gp_Data p) = unat (gp_Length p)" using property_named_ok [OF nk p(1)] by (simp add: prop_ok_def)
  have d: "property_bytes p = Some (concat (map specifier_bytes es))"
    using pk p(2) by (simp add: property_bytes_def)
  have l4: "length (specifier_bytes e) mod 4 = 0" "4 \<le> length (specifier_bytes e)" for e
    by (auto simp: specifier_bytes_def split: option.split)
  have m: "length (concat (map specifier_bytes es)) mod 4 = 0 \<and> 4 * length es \<le> length (concat (map specifier_bytes es))"
  proof (induction es)
    case (Cons e es)
    then show ?case using l4 [of e] by (auto simp add: mod_add_eq [symmetric])
  qed simp
  then have "gp_Length p mod 4 = 0" using pk p(2) by (simp add: word_eq_iff_unsigned [where ?'a = nat] unat_mod_distrib)
  moreover have "length es < 4294967296" using m pk p(2) u32_lt [of "gp_Length p"] by simp
  ultimately show ?thesis
    using q gp d resolve_specifiers [OF g t(2) es, of 0 None] kept_nth [of 0 "unat (gq_Index q)" es] kept_none [of 0 es "unat (gq_Index q)" None]
    by (auto simp: GraphResolve_def Let_def)
qed

theorem graph_resolve_roundtrip_witness:
  "GraphResolve graph_example \<lparr>gq_Version = 1, gq_Node = 0, gq_Index = 1, gq_Reserved = 0,
       gq_Property = ascii ''clocks'', gq_CellsProperty = ascii ''#clock-cells''\<rparr>
     = Some (GraphOk, Some \<lparr>ge_Version = 1, ge_Provider = 1, ge_Phandle = 5, ge_Count = 1, ge_Cells = 7 # replicate 15 0\<rparr>)"
proof -
  let ?q = "\<lparr>gq_Version = 1, gq_Node = 0, gq_Index = 1, gq_Reserved = 0, gq_Property = ascii ''clocks'', gq_CellsProperty = ascii ''#clock-cells''\<rparr>"
  let ?es = "[None, Some (1, 5, [7])]"
  have v: "resolve_valid graph_example ?q = Some True"
    using memchr0_text [of "map of_char ''clocks''" 256 "[]"] memchr0_text [of "map of_char ''#clock-cells''" 256 "[]"]
    by (simp add: resolve_valid_def graph_example_def ascii_def at_byte_def)
  have n: "nodes_example ! 0 = nodes_example ! unat (gq_Node ?q)" by simp
  have e: "list_all (specifier_ok nodes_example ?q (map of_char ''#clock-cells'')) ?es"
    by (simp add: specifier_ok_def nodes_example_def zero_node_def property_named_def props_of_def property_example_def name_of_def
      block_text_def ascii_def Graph_Be32_def at_byte_def le32_def)
  show ?thesis
    using graph_resolve_roundtrip [OF graph_example_ok graph_example_nodes v _ _ _ _ e,
      of "map of_char ''clocks''" "property_example 5 ''clocks'' [0, 0, 0, 0, 0, 0, 0, 5, 0, 0, 0, 7]"]
    by (simp add: nodes_example_def specifier_bytes_def be32_bytes_def le32_bytes_def specifier_reference_def property_named_def zero_node_def
       props_of_def property_example_def name_of_def block_text_def ascii_def)
qed

end
