(* ===== verification/Graph_Driver.thy ===== *)
theory Graph_Driver
  imports Graph_Query
begin

text \<open>
  The graph device of \<open>pi5-graph/driver.c\<close>: the firmware call the loader runs on, the framework's prepare and
  release callbacks, and the requests. The firmware is an interpretation of the loader's interface, so all
  that is known of a load holds for the device.
\<close>

unbundle bit_operations_syntax

section \<open>The device and its firmware\<close>

record GRAPH_DEVICE =
  gd_Deadline :: u64
  gd_TransportStatus :: NTSTATUS

type_synonym graph_context = "GRAPH_DEVICE GRAPH_STATE"

definition Graph_Status :: "GRAPH_RESULT \<Rightarrow> NTSTATUS" where
  "Graph_Status r = (case r of GraphOk \<Rightarrow> STATUS_SUCCESS | GraphNoMemory \<Rightarrow> STATUS_INSUFFICIENT_RESOURCES
     | GraphNotFound \<Rightarrow> STATUS_NOT_FOUND | GraphTransport \<Rightarrow> STATUS_IO_DEVICE_ERROR | _ \<Rightarrow> STATUS_DEVICE_DATA_ERROR)"

text \<open>An argument of a firmware method occupies a header of four bytes and at least four bytes of data.\<close>

definition ACPI_METHOD_ARGUMENT_LENGTH :: "u32 \<Rightarrow> u32" where
  "ACPI_METHOD_ARGUMENT_LENGTH n = 4 + max 4 n"

definition graph_request_bytes :: "u32 \<Rightarrow> u32" where
  "graph_request_bytes n = 16 + (ACPI_METHOD_ARGUMENT_LENGTH 16 + 2 * ACPI_METHOD_ARGUMENT_LENGTH 4 +
     ACPI_METHOD_ARGUMENT_LENGTH (n * ACPI_METHOD_ARGUMENT_LENGTH 4))"

text \<open>One evaluation of the method. The request carries the number of arguments, the revision, the function
  and the package of values. What the firmware leaves in the buffer is read from the environment; the
  loader looks at it only when the evaluation succeeded.\<close>

definition Graph_driver_Evaluate :: "env \<Rightarrow> GRAPH_DEVICE graph_source" where
  "Graph_driver_Evaluate E function values = do {
     let none = replicate 8192 0;
     if function > 3 \<or> length values > 3 then ret (GraphInvalid, 0, none)
     else do {
       now \<leftarrow> io_now E;
       deadline \<leftarrow> gets gd_Deadline;
       if now \<ge> deadline then do {
         modify (\<lambda>c. c\<lparr>gd_TransportStatus := STATUS_IO_TIMEOUT\<rparr>);
         ret (GraphTransport, 0, none)
       }
       else if graph_request_bytes (of_nat (length values)) > 128 then ret (GraphInvalid, 0, none)
       else do {
         status \<leftarrow> kernel_status E ''WdfIoTargetSendIoctlSynchronously'' ([4, 1, ucast function] @ map ucast values);
         returned \<leftarrow> io_call E ''BytesReturned'' [];
         buffer \<leftarrow> mapM [0..<8192] (\<lambda>i. io_read E 16 (of_nat i));
         modify (\<lambda>c. c\<lparr>gd_TransportStatus := status\<rparr>);
         let data = map ucast buffer;
         if status = STATUS_BUFFER_OVERFLOW \<or> status = STATUS_BUFFER_TOO_SMALL then ret (GraphInvalid, 0, data)
         else if \<not> NT_SUCCESS status then ret (GraphTransport, 0, data)
         else if returned > ucast GRAPH_RESPONSE then ret (GraphInvalid, 0, data)
         else ret (GraphOk, ucast returned, data)
       }
     }
   }"

lemma mapM_reads_ext: "preserves (trace_ext no_pool) (mapM xs (\<lambda>i. io_read E u (f i)))"
  by (intro ext_intros) (simp add: no_pool_def)

lemma no_pool_events [simp]: "no_pool (Rd u off v)" "no_pool (Clk t)" "no_pool Bar" "no_pool (Dly n)" "no_pool (Wr u off v)"
  by (simp_all add: no_pool_def)

lemma ext_Evaluate: "preserves (trace_ext no_pool) (Graph_driver_Evaluate E f vs)"
  unfolding Graph_driver_Evaluate_def Let_def
  by (intro ext_intros ext_kernel) (simp_all add: no_pool_def)

lemma length_mapM: "wp (mapM xs f) (\<lambda>ys _. length ys = length xs) w"
proof (induction xs arbitrary: w)
  case (Cons x xs)
  have "wp (f x) (\<lambda>_ v. wp (mapM xs f) (\<lambda>ys _. length ys = length xs) v) w"
    by (rule wp_all) (rule Cons.IH)
  then show ?case
    unfolding mapM.simps
    by (auto simp: wp_simps elim!: wp_mono)
qed (simp add: wp_simps)

lemma Evaluate_buffer: "wp (Graph_driver_Evaluate E f vs) (\<lambda>(r, used, buffer) v. length buffer = 8192) w"
  unfolding Graph_driver_Evaluate_def Let_def
  apply (intro wp_bindI wp_ifI wp_returnI wp_now_any wp_getsI wp_modifyI wp_kernel_any wp_call_any)
  apply simp_all
  apply (rule wp_mono, rule length_mapM)
  apply (intro wp_bindI wp_ifI wp_returnI wp_modifyI; simp)
  done

interpretation firmware: graph_source "Graph_driver_Evaluate E" for E
proof
  fix f vs and w :: "GRAPH_DEVICE world"
  show "wp (Graph_driver_Evaluate E f vs) (\<lambda>(r, used, buffer) v. length buffer = 8192 \<and> trace_ext no_pool w v) w"
    by (rule wp_frame [OF ext_Evaluate], rule wp_mono, rule Evaluate_buffer) auto
qed

text \<open>The request always fits its buffer.\<close>

lemma graph_request_fits: "n \<le> 3 \<Longrightarrow> graph_request_bytes (of_nat n) \<le> 80"
proof -
  assume "n \<le> 3"
  then have "n \<in> {0, 1, 2, 3}" by auto
  then show ?thesis by (auto simp: graph_request_bytes_def ACPI_METHOD_ARGUMENT_LENGTH_def)
qed

section \<open>Preparing and releasing the device\<close>

text \<open>Preparing loads the graph, within the fuel that every load needs at most.\<close>

definition Graph_Prepare :: "env \<Rightarrow> (graph_context, NTSTATUS option) prog" where
  "Graph_Prepare E = do {
     modify (\<lambda>c. c\<lparr>gs_Source := (gs_Source c)\<lparr>gd_TransportStatus := STATUS_SUCCESS\<rparr>\<rparr>);
     now \<leftarrow> io_now E;
     modify (\<lambda>c. c\<lparr>gs_Source := (gs_Source c)\<lparr>gd_Deadline := now + 30 * 10000000\<rparr>\<rparr>);
     GraphFree E;
     result \<leftarrow> GraphLoad E (Graph_driver_Evaluate E) (unat GRAPH_LIMIT);
     c \<leftarrow> gets id;
     (case result of
        None \<Rightarrow> ret None
      | Some r \<Rightarrow> do {
          let status = (if r = GraphTransport then gd_TransportStatus (gs_Source c) else Graph_Status r);
          Kernel_Diagnostic E ''GraphLoadStatus'' status;
          Kernel_Diagnostic E ''GraphNodes'' (gi_Nodes (gr_Info (gs_Graph c)));
          Kernel_Diagnostic E ''GraphProperties'' (gi_Properties (gr_Info (gs_Graph c)));
          Kernel_Diagnostic E ''GraphBytes'' (gi_PropertyBytes (gr_Info (gs_Graph c)));
          Kernel_Diagnostic E ''GraphDebug'' 0;
          ret (Some status)
        })
   }"

definition Graph_Release :: "env \<Rightarrow> (graph_context, NTSTATUS) prog" where
  "Graph_Release E = do { GraphFree E; ret STATUS_SUCCESS }"

section \<open>Requests\<close>

record PI5_GRAPH_KEY =
  gk_Version :: u32
  gk_Node :: u32
  gk_Index :: u32
  gk_Offset :: u32

record PI5_GRAPH_NODE =
  go_Version :: u32
  go_Index :: u32
  go_Parent :: u32
  go_Properties :: u32
  go_Phandle :: u32
  go_Path :: bytes
  go_Owner :: bytes

record PI5_GRAPH_PROPERTY =
  gv_Version :: u32
  gv_Node :: u32
  gv_Index :: u32
  gv_Offset :: u32
  gv_Total :: u32
  gv_Length :: u32
  gv_Name :: bytes
  gv_Data :: bytes

datatype graph_reply = OutInfo GRAPH_INFO | OutNode PI5_GRAPH_NODE | OutProperty PI5_GRAPH_PROPERTY | OutReference PI5_GRAPH_REFERENCE

datatype graph_ioctl = GRAPH_QUERY | GRAPH_NODE | GRAPH_PROPERTY | GRAPH_FIND | GRAPH_RESOLVE | GRAPH_OTHER

text \<open>The request structures are the bytes of the caller's buffer.\<close>

definition request_word :: "bytes \<Rightarrow> nat \<Rightarrow> u32" where
  "request_word b i = le32 (b ! (4 * i)) (b ! (4 * i + 1)) (b ! (4 * i + 2)) (b ! (4 * i + 3))"

definition graph_key :: "bytes \<Rightarrow> PI5_GRAPH_KEY" where
  "graph_key b = \<lparr>gk_Version = request_word b 0, gk_Node = request_word b 1, gk_Index = request_word b 2, gk_Offset = request_word b 3\<rparr>"

definition graph_find :: "bytes \<Rightarrow> PI5_GRAPH_FIND" where
  "graph_find b = \<lparr>gf_Version = request_word b 0, gf_Start = request_word b 1, gf_Kind = request_word b 2,
     gf_Phandle = request_word b 3, gf_Text = drop 16 b\<rparr>"

definition graph_resolve :: "bytes \<Rightarrow> PI5_GRAPH_RESOLVE" where
  "graph_resolve b = \<lparr>gq_Version = request_word b 0, gq_Node = request_word b 1, gq_Index = request_word b 2,
     gq_Reserved = request_word b 3, gq_Property = take 256 (drop 16 b), gq_CellsProperty = drop 272 b\<rparr>"

text \<open>Copying a string with its end into a field of zeros; there is no result when it does not fit.\<close>

definition copy_text :: "nat \<Rightarrow> bytes \<Rightarrow> bytes option" where
  "copy_text n d = do { s \<leftarrow> cstr d; if length s < n then Some (s @ replicate (n - length s) 0) else None }"

definition Graph_CopyNode :: "GRAPH \<Rightarrow> u32 \<Rightarrow> PI5_GRAPH_NODE option" where
  "Graph_CopyNode g i = do {
     n \<leftarrow> node_at g (unat i);
     p \<leftarrow> gn_Path n;
     o' \<leftarrow> gn_Owner n;
     path \<leftarrow> copy_text (unat PI5_GRAPH_PATH) (snd p);
     owner \<leftarrow> copy_text (unat PI5_GRAPH_PATH) (snd o');
     Some \<lparr>go_Version = PI5_GRAPH_VERSION, go_Index = i, go_Parent = gn_Parent n, go_Properties = gn_Count n,
       go_Phandle = gn_Phandle n, go_Path = path, go_Owner = owner\<rparr>
   }"

definition Graph_ReadProperty :: "GRAPH \<Rightarrow> PI5_GRAPH_KEY \<Rightarrow> (NTSTATUS \<times> graph_reply option) option" where
  "Graph_ReadProperty g k =
     (if gk_Node k \<ge> gi_Nodes (gr_Info g) then Some (STATUS_INVALID_PARAMETER, None)
      else do {
        n \<leftarrow> node_at g (unat (gk_Node k));
        if gk_Index k \<ge> gn_Count n then Some (STATUS_INVALID_PARAMETER, None)
        else do {
          p \<leftarrow> prop_at g (unat (gk_Node k)) (unat (gk_Index k));
          if gk_Offset k > gp_Length p then Some (STATUS_INVALID_PARAMETER, None)
          else do {
            let rest = gp_Length p - gk_Offset k;
            let len = (if rest > PI5_GRAPH_CHUNK then PI5_GRAPH_CHUNK else rest);
            b \<leftarrow> gp_Name p;
            name \<leftarrow> copy_text (unat PI5_GRAPH_PROPERTY_NAME) (snd b);
            if unat (gk_Offset k) + unat len > length (gp_Data p) then None
            else Some (STATUS_SUCCESS, Some (OutProperty
              \<lparr>gv_Version = PI5_GRAPH_VERSION, gv_Node = gk_Node k, gv_Index = gk_Index k, gv_Offset = gk_Offset k,
               gv_Total = gp_Length p, gv_Length = len, gv_Name = name,
               gv_Data = take (unat len) (drop (unat (gk_Offset k)) (gp_Data p)) @ replicate (4096 - unat len) 0\<rparr>))
          }
        }
      })"

definition Graph_Reply :: "GRAPH \<Rightarrow> graph_ioctl \<Rightarrow> bytes \<Rightarrow> (NTSTATUS \<times> graph_reply option) option" where
  "Graph_Reply g code b = (case code of
       GRAPH_QUERY \<Rightarrow> Some (STATUS_SUCCESS, Some (OutInfo (gr_Info g)))
     | GRAPH_NODE \<Rightarrow>
         (let k = graph_key b in
          if gk_Node k \<ge> gi_Nodes (gr_Info g) \<or> gk_Index k \<noteq> 0 \<or> gk_Offset k \<noteq> 0 then Some (STATUS_INVALID_PARAMETER, None)
          else do { n \<leftarrow> Graph_CopyNode g (gk_Node k); Some (STATUS_SUCCESS, Some (OutNode n)) })
     | GRAPH_PROPERTY \<Rightarrow> Graph_ReadProperty g (graph_key b)
     | GRAPH_FIND \<Rightarrow> do {
         (r, i) \<leftarrow> GraphFind g (graph_find b);
         if NT_SUCCESS (Graph_Status r) then do { n \<leftarrow> Graph_CopyNode g i; Some (Graph_Status r, Some (OutNode n)) }
         else Some (Graph_Status r, None)
       }
     | GRAPH_RESOLVE \<Rightarrow> do {
         (r, e) \<leftarrow> GraphResolve g (graph_resolve b);
         Some (Graph_Status r, map_option OutReference e)
       }
     | GRAPH_OTHER \<Rightarrow> Some (STATUS_INVALID_DEVICE_REQUEST, None))"

text \<open>The sizes of the structures of a request and its reply.\<close>

fun graph_sizes :: "graph_ioctl \<Rightarrow> (nat \<times> nat) option" where
  "graph_sizes GRAPH_QUERY = Some (0, 28)"
| "graph_sizes GRAPH_NODE = Some (16, 2068)"
| "graph_sizes GRAPH_PROPERTY = Some (16, 4376)"
| "graph_sizes GRAPH_FIND = Some (1040, 2068)"
| "graph_sizes GRAPH_RESOLVE = Some (528, 80)"
| "graph_sizes GRAPH_OTHER = None"

text \<open>A request: its code, the bytes of its input buffer and the size of its output buffer. The result is the
  status, the number of bytes returned and the reply.\<close>

definition Graph_Control :: "env \<Rightarrow> graph_ioctl \<Rightarrow> bytes \<Rightarrow> nat \<Rightarrow>
    (graph_context, (NTSTATUS \<times> nat \<times> graph_reply option) option) prog" where
  "Graph_Control E code b outSize = do {
     g \<leftarrow> gets gs_Graph;
     if gr_Nodes g = None then ret (Some (STATUS_DEVICE_NOT_READY, 0, None))
     else case graph_sizes code of
       None \<Rightarrow> ret (Some (STATUS_INVALID_DEVICE_REQUEST, 0, None))
     | Some (neededIn, neededOut) \<Rightarrow>
         if length b \<noteq> neededIn then ret (Some (STATUS_INVALID_PARAMETER, 0, None))
         else if outSize < neededOut then ret (Some (STATUS_BUFFER_TOO_SMALL, 0, None))
         else do {
           status \<leftarrow> (if neededIn = 0 then ret STATUS_SUCCESS
             else kernel_status E ''WdfRequestRetrieveInputBuffer'' [of_nat neededIn]);
           if \<not> NT_SUCCESS status then ret (Some (status, 0, None))
           else if neededIn \<noteq> 0 \<and> request_word b 0 \<noteq> PI5_GRAPH_VERSION then ret (Some (STATUS_REVISION_MISMATCH, 0, None))
           else do {
             status \<leftarrow> kernel_status E ''WdfRequestRetrieveOutputBuffer'' [of_nat neededOut];
             if \<not> NT_SUCCESS status then ret (Some (status, 0, None))
             else ret (case Graph_Reply g code b of
                 None \<Rightarrow> None
               | Some (status, out) \<Rightarrow> Some (status, if NT_SUCCESS status then neededOut else 0, out))
           }
         }
   }"

section \<open>A load that fails in the transport\<close>

text \<open>The only origin of a transport failure is the firmware call; a load passes it on.\<close>

definition transports :: "('s \<Rightarrow> bool) \<Rightarrow> ('s, GRAPH_RESULT option) prog \<Rightarrow> bool" where
  "transports Q m \<longleftrightarrow> (\<forall>w. wp m (\<lambda>r v. r = Some GraphTransport \<longrightarrow> Q (st v)) w)"

lemma transports_ret: "r \<noteq> Some GraphTransport \<Longrightarrow> transports Q (ret r)"
  by (simp add: transports_def wp_simps)

lemma transports_bind: "(\<And>x. transports Q (f x)) \<Longrightarrow> transports Q (m \<bind> f)"
  unfolding transports_def wp_bind by (auto intro!: wp_all [of "\<lambda>r v. wp (f r) P v" for P])

lemma transports_if: "(b \<Longrightarrow> transports Q m) \<Longrightarrow> (\<not> b \<Longrightarrow> transports Q n) \<Longrightarrow> transports Q (if b then m else n)"
  by simp

lemma transports_option: "transports Q m \<Longrightarrow> (\<And>x. transports Q (f x)) \<Longrightarrow> transports Q (case v of None \<Rightarrow> m | Some x \<Rightarrow> f x)"
  by (cases v) simp_all

lemma transports_defined: "(\<And>x. transports Q (k x)) \<Longrightarrow> transports Q (defined_then v k)"
  unfolding defined_then_def by (intro transports_option transports_ret) simp_all

lemma transports_unless: "transports Q m \<Longrightarrow> transports Q (unless_invalid c m)"
  unfolding unless_invalid_def by (intro transports_defined transports_if transports_ret) simp_all

lemma transports_integer: "(\<And>x. transports Q (k x)) \<Longrightarrow> transports Q (integer_then a store k)"
  unfolding integer_then_def by (intro transports_defined transports_option transports_bind transports_ret) simp_all

lemma transports_Let: "(\<And>x. transports Q (f x)) \<Longrightarrow> transports Q (Let v f)"
  by simp

lemmas transports_intros = transports_ret transports_bind transports_if transports_option transports_defined
  transports_unless transports_integer transports_Let

lemma transports_stop_first:
  assumes "transports Q m" "transports Q n"
  shows "transports Q (do { r \<leftarrow> m; if r \<noteq> Some GraphOk then ret r else n })"
  unfolding transports_def
proof (intro allI wp_bindI)
  fix w
  have "wp m (\<lambda>r v. r = Some GraphTransport \<longrightarrow> Q (st v)) w" using assms(1) by (simp add: transports_def)
  then show "wp m (\<lambda>r. wp (if r \<noteq> Some GraphOk then ret r else n) (\<lambda>r v. r = Some GraphTransport \<longrightarrow> Q (st v))) w"
    by (rule wp_mono) (use assms(2) in \<open>simp add: wp_simps transports_def\<close>)
qed

lemma transports_untilM: "(\<And>i. transports Q (f i)) \<Longrightarrow> transports Q (untilM is f)"
proof (induction "is")
  case (Cons i "is")
  have "untilM (i # is) f = do { r \<leftarrow> f i; if r \<noteq> Some GraphOk then ret r else untilM is f }"
    unfolding untilM.simps by (rule arg_cong2 [where f = State_Monad.bind, OF refl]) (rule ext, simp)
  then show ?case by (simp only:) (rule transports_stop_first, (rule Cons)+)
qed (simp add: transports_ret)


lemma decode_from_transport: "decode_from data sz n i = Some (r, as) \<Longrightarrow> r \<noteq> GraphTransport"
  by (induction n arbitrary: i r as) (auto split: if_splits bind_splits prod.splits)

lemma decode_transport: "GraphDecode data sz n = Some (r, as) \<Longrightarrow> r \<noteq> GraphTransport"
  by (auto simp: GraphDecode_def dest: decode_from_transport split: if_splits bind_splits)

locale graph_transport =
  fixes ev :: "'x graph_source" and T :: "'x \<Rightarrow> bool"
  assumes fails: "wp (ev f vs) (\<lambda>(r, used, buffer) v. r = GraphTransport \<longrightarrow> T (st v)) w"
begin

lemma transports_reply:
  assumes "\<And>a. transports (T \<circ> gs_Source) (k a)"
  shows "transports (T \<circ> gs_Source) (reply_then ev f vs n k)"
  unfolding transports_def
proof
  fix w
  show "wp (reply_then ev f vs n k) (\<lambda>r v. r = Some GraphTransport \<longrightarrow> (T \<circ> gs_Source) (st v)) w"
    unfolding reply_then_def Graph_Evaluate_def defined_then_def
    apply (intro wp_bindI wp_zoomI)
    apply (rule wp_mono, rule fails)
    using assms by (auto simp: transports_def wp_simps dest: decode_transport split: option.splits)
qed

lemma transports_chunks: "transports (T \<circ> gs_Source) (Load_chunks E ev fuel i j offset)"
proof (induction fuel arbitrary: offset)
  case (Suc fuel)
  then show ?case
    unfolding Load_chunks.simps Load_store_def Load_first_chunk_def Load_same_name_def Let_def
    by (intro transports_reply transports_intros) (simp_all add: comp_def)
qed (simp add: transports_ret)

lemma transports_node: "transports (T \<circ> gs_Source) (Load_node E ev fuel i)"
  unfolding Load_node_def Load_strings_def Load_properties_def
  by (intro transports_reply transports_intros transports_untilM transports_chunks) simp_all

lemma transports_info: "transports (T \<circ> gs_Source) (Load_info E ev)"
  unfolding Load_info_def
  by (intro transports_reply transports_intros) simp_all

lemma transports_phandle: "transports (T \<circ> gs_Source) (Load_phandle i)"
  unfolding Load_phandle_def
  by (intro transports_intros) simp_all

lemma transports_Load: "transports (T \<circ> gs_Source) (Graph_Load E ev fuel)"
  unfolding Graph_Load_def
  by (intro transports_stop_first transports_info transports_bind transports_Let transports_untilM transports_node transports_phandle)

lemma transports_GraphLoad: "wp (GraphLoad E ev fuel) (\<lambda>r v. r = Some GraphTransport \<longrightarrow> T (gs_Source (st v))) w"
proof -
  have keeps: "preserves (keeps gs_Source) (Graph_pool_Free E p)" "preserves (keeps gs_Source) (whenM b (GraphFree E))"
    for p b and E :: env
    unfolding Graph_pool_Free_def GraphFree_def Graph_FreeNode_def Graph_FreeBlock_def
    by (intro kernel_keeps; simp)+
  show ?thesis
    unfolding GraphLoad_def
    apply (intro wp_bindI wp_modifyI, unfold Graph_pool_Allocate_def, intro wp_call_any wp_ifI wp_returnI)
     apply simp
    apply (rule wp_bindI, rule wp_mono [OF transports_Load [unfolded transports_def, rule_format]])
    by (intro wp_bindI wp_keeps [OF keeps(1)] wp_keeps [OF keeps(2)] wp_returnI) simp
qed

end

section \<open>Every request has a defined answer\<close>

text \<open>The parts of a well-formed graph that a request reads.\<close>

lemma graph_okE:
  assumes "graph_ok g"
  obtains P ns where "gr_Nodes g = Some (P, ns)" "length ns = unat (gi_Nodes (gr_Info g))" "list_all node_ok ns"
  using assms by (auto simp: graph_ok_def tree_ok_def)

lemma node_at_ok:
  assumes "graph_ok g" "i < unat (gi_Nodes (gr_Info g))"
  shows "\<exists>n. node_at g i = Some n \<and> node_ok n"
  using assms(1) by (rule graph_okE) (use assms(2) in \<open>auto simp: node_at_def list_all_length\<close>)

lemma find_property_total: "list_all prop_ok ps \<Longrightarrow> cstr d = Some s \<Longrightarrow> \<exists>r. find_property ps d = Some r \<and> (\<forall>p. r = Some p \<longrightarrow> prop_ok p)"
  by (auto simp: find_property_text find_Some_iff list_all_length)

lemma GraphProperty_total:
  assumes "graph_ok g" "cstr d = Some s"
  shows "\<exists>r. GraphProperty g i d = Some r \<and> (\<forall>p. r = Some p \<longrightarrow> prop_ok p)"
proof (cases "i \<ge> gi_Nodes (gr_Info g)")
  case False
  then obtain n where n: "node_at g (unat i) = Some n" "node_ok n"
    using node_at_ok [OF assms(1), of "unat i"] by (auto simp: not_le word_less_nat_alt)
  then obtain ps where "props_of n = Some ps" "list_all prop_ok ps" by (auto simp: node_ok_def props_ok_def)
  with n False find_property_total [OF _ assms(2)] show ?thesis by (simp add: GraphProperty_def)
qed (simp add: GraphProperty_def)

lemma property_bytes_total: "prop_ok p \<Longrightarrow> \<exists>d. property_bytes p = Some d \<and> length d = unat (gp_Length p)"
  by (simp add: property_bytes_def prop_ok_def)

lemma memchr0_total: "n \<le> length d \<Longrightarrow> \<exists>k. memchr0 d n = Some k \<and> (\<forall>x. k = Some x \<longrightarrow> x < length d \<and> cstr d = Some (take x d))"
  using memchr0_in [of n d] memchr0_cstr [of d n] memchr0_Some [of d n] by blast

lemma compatible_total: "cstr t = Some u \<Longrightarrow> compatible_match d t m \<noteq> None"
proof (induction d t m rule: compatible_match.induct)
  case (1 d t m)
  obtain k where "memchr0 d (length d) = Some k" "\<And>x. k = Some x \<Longrightarrow> cstr d = Some (take x d)"
    using memchr0_total [of "length d" d] by blast
  then show ?case
    using 1 by (subst compatible_match.simps) (cases k; auto simp: str_eq_def)
qed

lemma find_from_total:
  assumes "graph_ok g" "cstr (gf_Text q) = Some t" "\<And>i. i \<in> set is \<Longrightarrow> i < unat (gi_Nodes (gr_Info g))"
  shows "\<exists>r i. find_from g q is = Some (r, i) \<and> (r = GraphOk \<longrightarrow> unat i < unat (gi_Nodes (gr_Info g)))"
  using assms(3)
proof (induction "is")
  case (Cons i "is")
  have i: "i < unat (gi_Nodes (gr_Info g))" using Cons.prems by simp
  then have w: "unat (of_nat i :: u32) = i" using u32_lt [of "gi_Nodes (gr_Info g)"] by (intro unat_of_nat_small) simp
  obtain n where n: "node_at g i = Some n" "node_ok n" using node_at_ok [OF assms(1) i] by blast
  obtain x y where xy: "gn_Path n = Some x" "cstr (snd x) = Some (path_of n)" "gn_Owner n = Some y" "cstr (snd y) = Some (block_text (gn_Owner n))"
    using n(2) by (auto simp: node_ok_def path_of_def elim!: text_blockE)
  obtain r where r: "GraphProperty g (of_nat i) (ascii ''compatible'') = Some r" "\<And>p. r = Some p \<Longrightarrow> prop_ok p"
    using GraphProperty_total [OF assms(1) cstr_ascii [of "''compatible''"]] by auto
  have "\<exists>m. node_match g q i = Some m"
    using n(1) xy r assms(2) property_bytes_total compatible_total [OF assms(2)]
    by (cases r) (force simp: node_match_def str_eq_def)+
  then obtain m where m: "node_match g q i = Some m" by blast
  show ?case
  proof (cases m)
    case None
    then show ?thesis using m by simp
  next
    case (Some b)
    then show ?thesis using m Cons i w by (cases b) auto
  qed
qed simp

lemma GraphFind_total:
  assumes "graph_ok g" "1024 \<le> length (gf_Text q)"
  shows "\<exists>r i. GraphFind g q = Some (r, i) \<and> (r = GraphOk \<longrightarrow> unat i < unat (gi_Nodes (gr_Info g)))"
proof -
  obtain k where k: "memchr0 (gf_Text q) 1024 = Some k" "\<And>x. k = Some x \<Longrightarrow> cstr (gf_Text q) = Some (take x (gf_Text q))"
    using memchr0_total [OF assms(2)] by blast
  have a: "at_byte (gf_Text q) 0 \<noteq> None" using assms(2) by (auto simp: at_byte_def)
  have "\<exists>ok. find_valid q = Some ok \<and> (ok \<longrightarrow> k \<noteq> None)"
    using k(1) a by (auto simp: find_valid_def)
  then obtain ok where ok: "find_valid q = Some ok" "ok \<longrightarrow> k \<noteq> None" by blast
  show ?thesis
  proof (cases ok)
    case True
    then obtain x where "k = Some x" using ok by auto
    then show ?thesis
      using find_from_total [OF assms(1) k(2), of x "[unat (gf_Start q)..<unat (gi_Nodes (gr_Info g))]"] ok True
      by (simp add: GraphFind_def)
  qed (use ok in \<open>simp add: GraphFind_def\<close>)
qed

lemma be_cells_total: "4 * n \<le> length d \<Longrightarrow> \<exists>cs. be_cells d n = Some cs"
proof (induction n arbitrary: d)
  case (Suc n)
  then have "be_cells (drop 4 d) n \<noteq> None" "Graph_Be32 d 0 \<noteq> None" using Suc.IH [of "drop 4 d"] by (auto simp: in_object)
  then show ?case by auto
qed simp

lemma specifier_cells_total:
  assumes "graph_ok g" "cstr (gq_CellsProperty q) = Some s"
  shows "\<exists>c. specifier_cells g q i = Some c"
proof -
  obtain c where c: "at_byte (gq_CellsProperty q) 0 = Some c" using assms(2) by (cases "gq_CellsProperty q") (auto simp: at_byte_def)
  obtain r where r: "GraphProperty g (of_nat i) (gq_CellsProperty q) = Some r" "\<And>p. r = Some p \<Longrightarrow> prop_ok p"
    using GraphProperty_total [OF assms] by blast
  show ?thesis
    using c r by (cases r) (auto simp: specifier_cells_def in_object prop_ok_def)
qed

lemma find_provider_total: "graph_ok g \<Longrightarrow> \<exists>p. find_provider g h = Some p"
  by (erule graph_okE) (simp add: find_provider_def)

lemma resolve_total:
  assumes g: "graph_ok g" and c: "cstr (gq_CellsProperty q) = Some s"
  shows "length d mod 4 = 0 \<Longrightarrow> resolve_loop g q d i f \<noteq> None"
proof (induction "length d" arbitrary: d i f rule: less_induct)
  case less
  show ?case
  proof (cases "d = []")
    case False
    then have l: "4 \<le> length d" "length (drop (4 * n) (drop 4 d)) < length d" for n
      using less.prems by (cases "length d < 4"; simp)+
    have m: "length (drop (4 * n) (drop 4 d)) mod 4 = 0" for n
      using less.prems l(1) by (auto simp: mod_eq_0_iff_dvd intro!: dvd_diff_nat)
    obtain h where h: "Graph_Be32 d 0 = Some h" using l(1) by (auto simp: in_object)
    obtain p where p: "find_provider g h = Some p" using find_provider_total [OF g] by blast
    obtain n where n: "specifier_cells g q (the p) = Some n" using specifier_cells_total [OF g c] by blast
    have rest: "resolve_loop g q (drop (4 * k) (drop 4 d)) j x \<noteq> None" for k j x
      by (rule less.hyps [OF l(2) m])
    have cells: "k \<le> (length d - 4) div 4 \<Longrightarrow> be_cells (drop 4 d) k \<noteq> None" for k
      using be_cells_total [of k "drop 4 d"] by auto
    show ?thesis
      using h p n rest [of 0 "i + 1" f] rest cells
      by (subst resolve_loop.simps) (auto split: option.splits simp: not_less bind_eq_None_conv simp del: not_None_eq)
  qed (simp add: resolve_loop.simps)
qed

lemma GraphResolve_total:
  assumes g: "graph_ok g" and l: "256 \<le> length (gq_Property q)" "256 \<le> length (gq_CellsProperty q)"
  shows "\<exists>r e. GraphResolve g q = Some (r, e)"
proof -
  obtain k where k: "memchr0 (gq_Property q) 256 = Some k" "\<And>x. k = Some x \<Longrightarrow> cstr (gq_Property q) = Some (take x (gq_Property q))"
    using memchr0_total [OF l(1)] by blast
  obtain k' where k': "memchr0 (gq_CellsProperty q) 256 = Some k'"
    "\<And>x. k' = Some x \<Longrightarrow> cstr (gq_CellsProperty q) = Some (take x (gq_CellsProperty q))"
    using memchr0_total [OF l(2)] by blast
  have a: "at_byte (gq_Property q) 0 \<noteq> None" using l by (auto simp: at_byte_def)
  have "\<exists>ok. resolve_valid g q = Some ok \<and> (ok \<longrightarrow> k \<noteq> None \<and> k' \<noteq> None)"
    using k(1) k'(1) a by (auto simp: resolve_valid_def)
  then obtain ok where ok: "resolve_valid g q = Some ok" "ok \<longrightarrow> k \<noteq> None \<and> k' \<noteq> None" by blast
  show ?thesis
  proof (cases ok)
    case True
    then obtain x y where xy: "k = Some x" "k' = Some y" using ok by auto
    obtain r where r: "GraphProperty g (gq_Node q) (gq_Property q) = Some r" "\<And>p. r = Some p \<Longrightarrow> prop_ok p"
      using GraphProperty_total [OF g k(2) [OF xy(1)]] by blast
    show ?thesis
    proof (cases r)
      case (Some p)
      obtain d where d: "property_bytes p = Some d" "length d = unat (gp_Length p)" using property_bytes_total r(2) [OF Some] by blast
      have "gp_Length p mod 4 = 0 \<Longrightarrow> length d mod 4 = 0"
        unfolding d(2) by (simp add: word_eq_iff_unsigned [where ?'a = nat] unat_mod_distrib)
      then show ?thesis
        using r Some ok(1) True d(1) resolve_total [OF g k'(2) [OF xy(2)]] by (auto simp: GraphResolve_def)
    qed (use r ok True in \<open>simp add: GraphResolve_def\<close>)
  qed (use ok in \<open>simp add: GraphResolve_def\<close>)
qed

lemma CopyNode_total:
  assumes "graph_ok g" "unat i < unat (gi_Nodes (gr_Info g))"
  shows "\<exists>n. Graph_CopyNode g i = Some n"
proof -
  obtain n where n: "node_at g (unat i) = Some n" "node_ok n" using node_at_ok [OF assms] by blast
  obtain x y where xy: "gn_Path n = Some x" "cstr (snd x) = Some (path_of n)" "gn_Owner n = Some y" "cstr (snd y) = Some (block_text (gn_Owner n))"
    using n(2) by (auto simp: node_ok_def path_of_def elim!: text_blockE)
  then show ?thesis using n by (simp add: Graph_CopyNode_def copy_text_def node_ok_def)
qed

lemma ReadProperty_ok:
  assumes "graph_ok g" "unat (gk_Node k) < unat (gi_Nodes (gr_Info g))" "node_at g (unat (gk_Node k)) = Some n"
    and "unat (gk_Index k) < unat (gn_Count n)" "props_of n = Some ps" "p = ps ! unat (gk_Index k)" "gk_Offset k \<le> gp_Length p"
  shows "Graph_ReadProperty g k = Some (STATUS_SUCCESS, Some (OutProperty
     \<lparr>gv_Version = PI5_GRAPH_VERSION, gv_Node = gk_Node k, gv_Index = gk_Index k, gv_Offset = gk_Offset k, gv_Total = gp_Length p,
      gv_Length = min PI5_GRAPH_CHUNK (gp_Length p - gk_Offset k), gv_Name = name_of p @ replicate (256 - length (name_of p)) 0,
      gv_Data = (let c = take (unat (min PI5_GRAPH_CHUNK (gp_Length p - gk_Offset k))) (drop (unat (gk_Offset k)) (gp_Data p))
        in c @ replicate (4096 - length c) 0)\<rparr>))"
proof -
  have nok: "node_ok n" using node_at_ok [OF assms(1,2)] assms(3) by simp
  have len: "length ps = unat (gn_Count n)" using assms(5) by (auto simp: props_of_def split: if_splits option.splits)
  have pok: "prop_ok p" using nok assms(4-6) len by (auto simp: node_ok_def props_ok_def list_all_length)
  obtain a d where b: "gp_Name p = Some (a, d)" "cstr d = Some (name_of p)" "length (name_of p) < 256"
    using pok by (auto simp: prop_ok_def name_of_def elim: text_blockE)
  let ?l = "min PI5_GRAPH_CHUNK (gp_Length p - gk_Offset k)"
  have "unat ?l \<le> unat (gp_Length p - gk_Offset k)" by (simp add: min_def word_le_nat_alt)
  then have fit: "unat (gk_Offset k) + unat ?l \<le> length (gp_Data p)"
    using pok assms(7) by (simp add: prop_ok_def unat_sub word_le_nat_alt)
  then have lc: "length (take (unat ?l) (drop (unat (gk_Offset k)) (gp_Data p))) = unat ?l" by simp
  have m: "(if x > PI5_GRAPH_CHUNK then PI5_GRAPH_CHUNK else x) = min PI5_GRAPH_CHUNK x" for x
    by (auto simp: min_def)
  show ?thesis
    unfolding Graph_ReadProperty_def Let_def m
    using assms b len fit lc
    by (simp add: word_le_nat_alt not_le prop_at_def copy_text_def not_less)
qed

lemma ReadProperty_total:
  assumes "graph_ok g"
  shows "\<exists>s r. Graph_ReadProperty g k = Some (s, r) \<and> (NT_SUCCESS s \<longrightarrow> r \<noteq> None)"
proof (cases "gk_Node k \<ge> gi_Nodes (gr_Info g)")
  case False
  then have i: "unat (gk_Node k) < unat (gi_Nodes (gr_Info g))" by (simp add: word_le_nat_alt)
  obtain n where n: "node_at g (unat (gk_Node k)) = Some n" "node_ok n" using node_at_ok [OF assms i] by blast
  obtain ps where ps: "props_of n = Some ps" "length ps = unat (gn_Count n)"
    using n(2) by (auto simp: node_ok_def props_ok_def props_of_def split: if_splits option.splits)
  show ?thesis
  proof (cases "gk_Index k \<ge> gn_Count n")
    case True
    then show ?thesis using n False by (simp add: Graph_ReadProperty_def)
  next
    case j: False
    then have j': "unat (gk_Index k) < unat (gn_Count n)" by (simp add: word_le_nat_alt)
    show ?thesis
    proof (cases "gk_Offset k \<le> gp_Length (ps ! unat (gk_Index k))")
      case True
      show ?thesis using ReadProperty_ok [OF assms i n(1) j' ps(1) refl True] by simp
    next
      case off: False
      then show ?thesis using n ps False j j' by (simp add: Graph_ReadProperty_def prop_at_def not_le)
    qed
  qed
qed (simp add: Graph_ReadProperty_def)

lemma Reply_total:
  assumes g: "graph_ok g" and b: "graph_sizes code = Some (length b, n)"
  shows "\<exists>s r. Graph_Reply g code b = Some (s, r)"
proof (cases code)
  case GRAPH_NODE
  then show ?thesis
    using CopyNode_total [OF g, of "gk_Node (graph_key b)"]
    by (cases "gk_Node (graph_key b) \<ge> gi_Nodes (gr_Info g)") (auto simp: Graph_Reply_def Let_def word_less_nat_alt not_le)
next
  case GRAPH_FIND
  then have "1024 \<le> length (gf_Text (graph_find b))" using b by (simp add: graph_find_def)
  from GraphFind_total [OF g this] obtain r i where ri: "GraphFind g (graph_find b) = Some (r, i)"
    "r = GraphOk \<longrightarrow> unat i < unat (gi_Nodes (gr_Info g))" by blast
  then show ?thesis
    using CopyNode_total [OF g, of i] GRAPH_FIND by (cases r) (auto simp: Graph_Reply_def Graph_Status_def)
next
  case GRAPH_RESOLVE
  then have "256 \<le> length (gq_Property (graph_resolve b))" "256 \<le> length (gq_CellsProperty (graph_resolve b))"
    using b by (simp_all add: graph_resolve_def)
  from GraphResolve_total [OF g this] GRAPH_RESOLVE show ?thesis by (auto simp: Graph_Reply_def)
next
  case GRAPH_PROPERTY
  then show ?thesis using ReadProperty_total [OF g, of "graph_key b"] by (auto simp: Graph_Reply_def)
qed (simp_all add: Graph_Reply_def)

section \<open>The driver's sessions\<close>

interpretation firmware_status: graph_transport "Graph_driver_Evaluate E" "\<lambda>c. \<not> NT_SUCCESS (gd_TransportStatus c)" for E
proof
  fix f vs and w :: "GRAPH_DEVICE world"
  show "wp (Graph_driver_Evaluate E f vs) (\<lambda>(r, used, buffer) v. r = GraphTransport \<longrightarrow> \<not> NT_SUCCESS (gd_TransportStatus (st v))) w"
    unfolding Graph_driver_Evaluate_def Let_def
    apply (intro wp_bindI wp_ifI wp_returnI wp_now_any wp_getsI wp_modifyI wp_kernel_any wp_call_any)
    apply simp_all
    apply (rule wp_all, intro wp_bindI wp_ifI wp_returnI wp_modifyI; simp)
    done
qed

definition graph_inv :: "graph_context world \<Rightarrow> bool" where
  "graph_inv w \<longleftrightarrow> accounts (\<lambda>_. 0) {#} w \<and> (gr_Nodes (gs_Graph (st w)) = None \<or> graph_ok (gs_Graph (st w)))"

lemma quiet_Diagnostic:
  "wp (Kernel_Diagnostic E name v) (\<lambda>_ u. st u = st w \<and> trace_ext no_pool w u) w"
  unfolding Kernel_Diagnostic_def
  by (intro wp_intros) (auto simp: trace_ext_def no_pool_def)

lemma wp_Diagnostic:
  assumes "graph_inv w" "\<And>u. graph_inv u \<Longrightarrow> st u = st w \<Longrightarrow> Q () u"
  shows "wp (Kernel_Diagnostic E name v) Q w"
proof -
  have "graph_inv u" if "st u = st w" "trace_ext no_pool w u" for u
    using assms(1) that accounts_trace [of "\<lambda>_. 0" "{#}" w u] by (simp add: graph_inv_def)
  then show ?thesis using assms(2) by (auto intro: wp_mono [OF quiet_Diagnostic])
qed

lemma Status_success: "NT_SUCCESS (Graph_Status r) \<longleftrightarrow> r = GraphOk"
  by (cases r) (simp_all add: Graph_Status_def)

lemma graph_ok_nodes: "graph_ok g \<Longrightarrow> gr_Nodes g \<noteq> None"
  by (auto simp: graph_ok_def)

lemma wp_Graph_Prepare:
  assumes "accounts (\<lambda>_. 0) {#} w"
  shows "wp (Graph_Prepare E) (\<lambda>r v. graph_inv v \<and>
    (\<exists>s. r = Some s \<and> (NT_SUCCESS s \<longleftrightarrow> gr_Nodes (gs_Graph (st v)) \<noteq> None))) w"
  unfolding Graph_Prepare_def
  apply (intro wp_bindI wp_modifyI wp_now_any)
  apply (rule wp_mono, rule accounts_GraphFree [where base = "\<lambda>_. 0" and held = "{#}"])
  subgoal using assms by (simp add: accounts_def)
  subgoal premises freed for t x v
  proof -
    have out: "outstanding (trace v) = (\<lambda>_. 0)" using freed by (auto simp: accounts_def)
    have both: "wp (GraphLoad E (Graph_driver_Evaluate E) (unat GRAPH_LIMIT)) (\<lambda>r u. graph_inv u \<and> (r \<noteq> None) \<and>
        (r = Some GraphOk \<longleftrightarrow> gr_Nodes (gs_Graph (st u)) \<noteq> None) \<and>
        (r = Some GraphTransport \<longrightarrow> \<not> NT_SUCCESS (gd_TransportStatus (gs_Source (st u))))) v"
      (is "wp ?m _ v")
    proof -
      have "wp ?m (\<lambda>r u. r = Some GraphTransport \<longrightarrow> \<not> NT_SUCCESS (gd_TransportStatus (gs_Source (st u)))) v"
        by (rule firmware_status.transports_GraphLoad)
      moreover have "wp ?m (\<lambda>r u. r \<noteq> None \<and> accounts (outstanding (trace v)) {#} u \<and>
          (r = Some GraphOk \<longrightarrow> graph_ok (gs_Graph (st u))) \<and> (r \<noteq> Some GraphOk \<longrightarrow> gr_Nodes (gs_Graph (st u)) = None)) v"
        by (rule firmware.wp_GraphLoad) simp
      ultimately show ?thesis
        unfolding wp_def out by (auto simp: graph_inv_def dest: graph_ok_nodes split: prod.splits)
    qed
    show ?thesis
      apply (intro wp_bindI, rule wp_mono [OF both])
      apply (intro wp_bindI wp_getsI wp_case_optionI wp_LetI)
      by (auto intro!: wp_Diagnostic wp_bindI wp_returnI simp: Status_success)
  qed
  done


text \<open>Any sequence of the framework's calls, from a fresh device.\<close>

datatype graph_op = GraphPrepare | GraphRelease | GraphControl graph_ioctl bytes nat

fun graph_run :: "env \<Rightarrow> graph_op \<Rightarrow> (graph_context, bool) prog" where
  "graph_run E GraphPrepare = do { r \<leftarrow> Graph_Prepare E; ret (r \<noteq> None) }"
| "graph_run E GraphRelease = do { r \<leftarrow> Graph_Release E; ret True }"
| "graph_run E (GraphControl code b n) = do { r \<leftarrow> Graph_Control E code b n; ret (r \<noteq> None) }"

definition graph_zero :: graph_context where
  "graph_zero = \<lparr>gs_Graph = zero_graph, gs_Source = \<lparr>gd_Deadline = 0, gd_TransportStatus = 0\<rparr>\<rparr>"

abbreviation graph_session :: "env \<Rightarrow> graph_op list \<Rightarrow> bool list \<times> graph_context world" where
  "graph_session E ops \<equiv> run_state (mapM ops (graph_run E)) \<lparr>st = graph_zero, trace = []\<rparr>"

lemma ext_Graph_Control: "preserves (trace_ext no_pool) (Graph_Control E code b n)"
  unfolding Graph_Control_def
  by (intro ext_intros ext_kernel) (simp_all add: no_pool_def)

lemma keeps_Graph_Control: "preserves (keeps id) (Graph_Control E code b n)"
  unfolding Graph_Control_def by (intro kernel_keeps)

lemma wp_Graph_Control:
  assumes "graph_inv w"
  shows "wp (Graph_Control E code b n) (\<lambda>r v. r \<noteq> None \<and> graph_inv v) w"
proof -
  let ?g = "gs_Graph (st w)"
  have def: "Graph_Reply ?g code b \<noteq> None" if "gr_Nodes ?g \<noteq> None" "graph_sizes code = Some (length b, k)" for k
    using assms that Reply_total [of ?g code b k] by (auto simp: graph_inv_def)
  have "wp (Graph_Control E code b n) (\<lambda>r v. r \<noteq> None) w"
    unfolding Graph_Control_def
    by (intro wp_intros) (use def in \<open>auto split: option.splits\<close>)
  moreover have "graph_inv v" if "trace_ext no_pool w v" "keeps id w v" for v
    using assms that accounts_trace [of "\<lambda>_. 0" "{#}" w v] by (simp add: graph_inv_def keeps_def)
  ultimately show ?thesis
    using ext_Graph_Control keeps_Graph_Control unfolding wp_def preserves_def
    by (metis (mono_tags, lifting) split_beta)
qed

lemma wp_graph_run: "graph_inv w \<Longrightarrow> wp (graph_run E op) (\<lambda>r v. r \<and> graph_inv v) w"
proof (cases op)
  case GraphPrepare
  assume "graph_inv w"
  then show ?thesis
    unfolding GraphPrepare graph_run.simps
    by (intro wp_bindI wp_mono [OF wp_Graph_Prepare] wp_returnI) (auto simp: graph_inv_def)
next
  case GraphRelease
  assume "graph_inv w"
  then show ?thesis
    unfolding GraphRelease graph_run.simps Graph_Release_def
    by (intro wp_bindI wp_mono [OF accounts_GraphFree [where base = "\<lambda>_. 0" and held = "{#}"]] wp_returnI)
      (auto simp: graph_inv_def zero_graph_def)
next
  case (GraphControl code b n)
  assume "graph_inv w"
  then show ?thesis
    unfolding GraphControl graph_run.simps
    by (intro wp_bindI wp_mono [OF wp_Graph_Control] wp_returnI) auto
qed

lemma wp_graph_session: "graph_inv w \<Longrightarrow> wp (mapM ops (graph_run E)) (\<lambda>rs v. False \<notin> set rs \<and> graph_inv v) w"
proof (induction ops arbitrary: w)
  case (Cons op ops)
  then show ?case
    unfolding mapM.simps
    by (intro wp_bindI wp_mono [OF wp_graph_run] wp_mono [OF Cons.IH] wp_returnI) auto
qed (simp add: wp_simps)

lemma graph_inv_zero: "graph_inv \<lparr>st = graph_zero, trace = []\<rparr>"
  by (simp add: graph_inv_def accounts_def graph_zero_def graph_shape_def zero_graph_def owned_def)

lemma graph_session_inv: "graph_session E ops = (rs, w) \<Longrightarrow> False \<notin> set rs \<and> graph_inv w"
  using wp_graph_session [OF graph_inv_zero, of ops E] by (simp add: wp_def)

text \<open>C19. Whatever the firmware, the pool and the callers do, in every sequence of prepare, release and
  request every call has a defined result: nothing reads outside of an object or through a null pointer,
  every load ends within the fuel, and the graph is either absent or a well-formed tree with paths, owners,
  properties and handles as the interface promises them.\<close>

theorem graph_session_typed:
  "case graph_session E ops of (rs, w) \<Rightarrow> False \<notin> set rs \<and>
     (gr_Nodes (gs_Graph (st w)) = None \<or> graph_ok (gs_Graph (st w)))"
  using graph_session_inv [of ops E] by (auto simp: graph_inv_def split: prod.split)

text \<open>C20. In the same sequences the driver holds exactly the pool blocks its graph consists of: for each address
  the number of allocations less the number of frees is the number of blocks of the graph there.\<close>

theorem graph_session_memory:
  "case graph_session E ops of (rs, w) \<Rightarrow> outstanding (trace w) p = int (count (owned (gs_Graph (st w))) p)"
  using graph_session_inv [of ops E] by (auto simp: graph_inv_def accounts_def split: prod.split)

text \<open>Preparing the device reports success exactly when a graph was loaded; the status of a failed transport
  is never mistaken for success.\<close>

theorem graph_prepare_status:
  "case run_state (Graph_Prepare E) (snd (graph_session E ops)) of (r, w) \<Rightarrow>
     (\<exists>s. r = Some s \<and> (NT_SUCCESS s \<longleftrightarrow> gr_Nodes (gs_Graph (st w)) \<noteq> None))"
proof -
  have "accounts (\<lambda>_. 0) {#} (snd (graph_session E ops))"
    using graph_session_inv [of ops E] by (cases "graph_session E ops") (auto simp: graph_inv_def)
  from wp_Graph_Prepare [OF this, of E] show ?thesis by (auto simp: wp_def)
qed

section \<open>Reading a property in chunks\<close>

definition graph_key_bytes :: "PI5_GRAPH_KEY \<Rightarrow> bytes" where
  "graph_key_bytes k = le32_bytes (gk_Version k) @ le32_bytes (gk_Node k) @ le32_bytes (gk_Index k) @ le32_bytes (gk_Offset k)"

lemma graph_key_bytes [simp]: "graph_key (graph_key_bytes k) = k"
proof -
  have d: "le32 (ucast w) (ucast (drop_bit 8 w)) (ucast (drop_bit 16 w)) (ucast (drop_bit 24 w)) = w" for w :: u32
    by simp
  show ?thesis by (cases k) (simp add: graph_key_def graph_key_bytes_def request_word_def le32_bytes_def d)
qed

text \<open>What a caller takes from a reply, and reading all of a property from an offset on.\<close>

definition reply_data :: "(NTSTATUS \<times> graph_reply option) option \<Rightarrow> bytes" where
  "reply_data r = (case r of Some (s, Some (OutProperty v)) \<Rightarrow> take (unat (gv_Length v)) (gv_Data v) | _ \<Rightarrow> [])"

definition property_chunk :: "GRAPH \<Rightarrow> nat \<Rightarrow> nat \<Rightarrow> nat \<Rightarrow> bytes" where
  "property_chunk g i j c = reply_data (Graph_Reply g GRAPH_PROPERTY (graph_key_bytes
     \<lparr>gk_Version = PI5_GRAPH_VERSION, gk_Node = of_nat i, gk_Index = of_nat j, gk_Offset = of_nat (4096 * c)\<rparr>))"

lemma concat_chunks: "concat (map (\<lambda>c. take m (drop (m * c) d)) [0..<n]) = take (m * n) d"
  by (induction n) (simp_all add: take_add [symmetric] add.commute)

lemma property_chunk_data:
  assumes g: "graph_ok g" "node_at g i = Some n" "i < unat (gi_Nodes (gr_Info g))" "props_of n = Some ps" "j < length ps"
    and c: "c < Suc (length (gp_Data (ps ! j)) div 4096)"
  shows "property_chunk g i j c = take 4096 (drop (4096 * c) (gp_Data (ps ! j)))"
proof -
  let ?p = "ps ! j"
  have i: "unat (of_nat i :: u32) = i" using g(3) u32_lt [of "gi_Nodes (gr_Info g)"] by (intro unat_of_nat_small) simp
  have len: "length ps = unat (gn_Count n)" using g(4) by (auto simp: props_of_def split: if_splits option.splits)
  then have j: "unat (of_nat j :: u32) = j" using g(5) u32_lt [of "gn_Count n"] by (intro unat_of_nat_small) simp
  have "node_ok n" using node_at_ok [OF g(1,3)] g(2) by simp
  then have "prop_ok ?p" using g(4,5) by (auto simp: node_ok_def props_ok_def list_all_length)
  then have dl: "length (gp_Data ?p) = unat (gp_Length ?p)" by (simp add: prop_ok_def)
  then have c4: "4096 * c \<le> unat (gp_Length ?p)" using c by linarith
  define x :: u32 where "x = of_nat (4096 * c)"
  have x: "unat x = 4096 * c" unfolding x_def using c4 u32_lt [of "gp_Length ?p"] by (intro unat_of_nat_small) simp
  define m where "m = min PI5_GRAPH_CHUNK (gp_Length ?p - x)"
  have off: "x \<le> gp_Length ?p" using c4 x by (simp only: word_le_nat_alt)
  then have m: "unat m = min 4096 (unat (gp_Length ?p) - 4096 * c)"
    using x by (simp add: m_def min_def word_le_nat_alt unat_sub)
  let ?k = "\<lparr>gk_Version = PI5_GRAPH_VERSION, gk_Node = of_nat i, gk_Index = of_nat j, gk_Offset = x\<rparr>"
  have "unat (gk_Node ?k) < unat (gi_Nodes (gr_Info g))" "node_at g (unat (gk_Node ?k)) = Some n"
    "unat (gk_Index ?k) < unat (gn_Count n)" "?p = ps ! unat (gk_Index ?k)" "gk_Offset ?k \<le> gp_Length ?p"
    using g(2,3,5) i j len off by simp_all
  note r = ReadProperty_ok [OF g(1) this(1-3) g(4) this(4,5)]
  have "property_chunk g i j c = take (unat m) (let c = take (unat m) (drop (unat x) (gp_Data ?p)) in c @ replicate (4096 - length c) 0)"
    unfolding property_chunk_def Graph_Reply_def graph_key_bytes x_def [symmetric] using r by (simp add: reply_data_def m_def)
  then show ?thesis unfolding Let_def m x using dl by (auto simp: min_def)
qed

text \<open>C22. A property read chunk by chunk through the device interface, at the multiples of the chunk size up to
  its length, is the property as it was loaded.\<close>

theorem graph_property_readback:
  assumes "graph_ok g" "i < unat (gi_Nodes (gr_Info g))" "node_at g i = Some n" "props_of n = Some ps" "j < length ps"
  shows "concat (map (property_chunk g i j) [0..<Suc (length (gp_Data (ps ! j)) div 4096)]) = gp_Data (ps ! j)"
proof -
  let ?d = "gp_Data (ps ! j)"
  have "concat (map (property_chunk g i j) [0..<Suc (length ?d div 4096)]) =
      concat (map (\<lambda>c. take 4096 (drop (4096 * c) ?d)) [0..<Suc (length ?d div 4096)])"
    using property_chunk_data [OF assms(1,3,2,4,5)] by (intro arg_cong [where f = concat] map_cong refl) (simp del: upt_Suc)
  also have "\<dots> = ?d" unfolding concat_chunks by simp
  finally show ?thesis .
qed

theorem graph_property_readback_witness:
  "concat (map (property_chunk graph_example 0 0) [0..<Suc (12 div 4096)]) = [0, 0, 0, 0, 0, 0, 0, 5, 0, 0, 0, 7]"
  using graph_property_readback [OF graph_example_ok, of 0 "nodes_example ! 0" "the (props_of (nodes_example ! 0))" 0]
  by (simp add: node_at_def graph_example_def nodes_example_def props_of_def property_example_def zero_node_def)

end
