(* ===== verification/Rp1_Clocks.thy ===== *)
theory Rp1_Clocks
  imports Kernel
begin

text \<open>
  The clock device of the RP1 southbridge, \<open>rp1-clocks/rates.c\<close> and \<open>rp1-clocks/driver.c\<close>, with the client
  function of \<open>common/rp1-clock.h\<close>: the rates read from the registers, and the leases by which other drivers
  keep the UART and DMA clocks running. The device's registers are bank 0.
\<close>

unbundle bit_operations_syntax

section \<open>Rates\<close>

abbreviation RP1_CLK_SYS :: u32 where "RP1_CLK_SYS \<equiv> 0x14"
abbreviation RP1_CLK_UART :: u32 where "RP1_CLK_UART \<equiv> 0x54"
abbreviation RP1_CLK_DMA :: u32 where "RP1_CLK_DMA \<equiv> 0x44"
abbreviation RP1_CLK_ENABLE :: u32 where "RP1_CLK_ENABLE \<equiv> 0x800"

definition Clock_Read :: "env \<Rightarrow> u32 \<Rightarrow> ('s, u32) prog" where
  "Clock_Read E off = io_read E 0 off"

text \<open>The rate of a PLL from its registers, zero when it is not locked, is powered down or has no valid divider.
  The feedback is a fixed-point number with 24 bits of fraction, which an integer PLL does not use.\<close>

definition pll_quotient :: "u32 \<Rightarrow> u32 \<Rightarrow> u32 \<Rightarrow> u64 \<Rightarrow> u32" where
  "pll_quotient ref d1 d2 feedback =
     (let rate = 50000000 * feedback div push_bit 24 (ucast ref * ucast d1 * ucast d2)
      in if rate \<le> 0xffffffff then ucast rate else 0)"

definition Clock_Pll :: "env \<Rightarrow> u32 \<Rightarrow> ('s, u32) prog" where
  "Clock_Pll E base = do {
     cs \<leftarrow> Clock_Read E base;
     power \<leftarrow> Clock_Read E (base + 4);
     prim \<leftarrow> Clock_Read E (base + 0x10);
     let ref = cs AND 0x3f;
     let d1 = drop_bit 16 prim AND 7;
     let d2 = drop_bit 12 prim AND 7;
     whole \<leftarrow> Clock_Read E (base + 8);
     let feedback = push_bit 24 (ucast (whole AND 0xfff) :: u64);
     if cs AND 0x80000000 = 0 \<or> power AND 0x29 \<noteq> 0 \<or> ref = 0 \<or> d1 = 0 \<or> d2 = 0 then ret 0
     else do {
       feedback \<leftarrow> (if power AND 4 = 0 then do {
           frac \<leftarrow> Clock_Read E (base + 12);
           ret (feedback OR ucast (frac AND 0xffffff))
         } else ret feedback);
       ret (pll_quotient ref d1 d2 feedback)
     }
   }"

definition clock_divided :: "u32 \<Rightarrow> u32 \<Rightarrow> u32" where
  "clock_divided parent divider = parent div (if divider \<noteq> 0 then divider else 65536)"

definition ClockRate :: "env \<Rightarrow> u32 \<Rightarrow> bool \<Rightarrow> ('s, u32) prog" where
  "ClockRate E base gated = do {
     control \<leftarrow> Clock_Read E base;
     divider \<leftarrow> Clock_Read E (base + 4);
     if gated \<and> control AND RP1_CLK_ENABLE = 0 then ret 0
     else if gated then do {
       let source = drop_bit 5 control AND 0x1f;
       if source = 0 then do {
         aux \<leftarrow> Clock_Read E 0x8010;
         parent \<leftarrow> (if aux AND 0x10 \<noteq> 0 then do { p \<leftarrow> Clock_Pll E 0x8000; ret (p div 2) } else ret 0);
         ret (clock_divided parent (divider AND 0xff))
       }
       else if source = 1 then do { parent \<leftarrow> Clock_Pll E 0x10000; ret (clock_divided parent (divider AND 0xff)) }
       else if source = 2 then ret (clock_divided 50000000 (divider AND 0xff))
       else ret 0
     }
     else do {
       let source = control AND 3;
       if source = 0 then ret (clock_divided 50000000 (divider AND 0xffffff))
       else if source = 2 then do { parent \<leftarrow> Clock_Pll E 0x8000; ret (clock_divided parent (divider AND 0xffffff)) }
       else ret 0
     }
   }"

definition Rp1ClockRate :: "env \<Rightarrow> bool \<Rightarrow> ('s, u32) prog" where
  "Rp1ClockRate E uart = ClockRate E (if uart then RP1_CLK_UART else RP1_CLK_SYS) uart"

definition Rp1DmaClockRate :: "env \<Rightarrow> ('s, u32) prog" where
  "Rp1DmaClockRate E = ClockRate E RP1_CLK_DMA True"

section \<open>Leases\<close>

text \<open>The two leased gates have the same fields in the C context, here a record of their own: the number of
  leases, what the registers held when the first one was taken and whether the driver turned the gate on.\<close>

record RP1_CLOCK_LEASE =
  cl_Users :: u32
  cl_SavedControl :: u32
  cl_SavedDivider :: u32
  cl_Changed :: bool

record CLOCK_FILE =
  cf_Uart :: bool
  cf_Dma :: bool

record CLOCK_CONTEXT =
  ck_Registers :: ptr
  ck_Online :: bool
  ck_Uart :: RP1_CLOCK_LEASE
  ck_Dma :: RP1_CLOCK_LEASE
  ck_File :: "ptr \<Rightarrow> CLOCK_FILE"

abbreviation on_uart :: "(RP1_CLOCK_LEASE, 'a) prog \<Rightarrow> (CLOCK_CONTEXT, 'a) prog" where
  "on_uart \<equiv> zoom ck_Uart ck_Uart_update"

abbreviation on_dma :: "(RP1_CLOCK_LEASE, 'a) prog \<Rightarrow> (CLOCK_CONTEXT, 'a) prog" where
  "on_dma \<equiv> zoom ck_Dma ck_Dma_update"

definition Clock_Write :: "env \<Rightarrow> u32 \<Rightarrow> u32 \<Rightarrow> ('s, unit) prog" where
  "Clock_Write E off v = do { io_write 0 off v; r \<leftarrow> Clock_Read E off; ret () }"

text \<open>The gate at \<open>base\<close>: the crystal divided by one, and back to what was saved.\<close>

definition Clock_Enable :: "env \<Rightarrow> u32 \<Rightarrow> ('s, unit) prog" where
  "Clock_Enable E base = do {
     Clock_Write E base (push_bit 5 2);
     Clock_Write E (base + 4) 1;
     Clock_Write E base (push_bit 5 2 OR RP1_CLK_ENABLE)
   }"

definition Clock_Restore :: "env \<Rightarrow> u32 \<Rightarrow> (RP1_CLOCK_LEASE, unit) prog" where
  "Clock_Restore E base = do {
     l \<leftarrow> gets id;
     whenM (cl_Changed l) (do {
       v \<leftarrow> Clock_Read E base;
       Clock_Write E base (v AND NOT RP1_CLK_ENABLE);
       Clock_Write E (base + 4) (cl_SavedDivider l);
       Clock_Write E base (cl_SavedControl l)
     })
   }"

definition EnableUart :: "env \<Rightarrow> (RP1_CLOCK_LEASE, unit) prog" where "EnableUart E = Clock_Enable E RP1_CLK_UART"
definition EnableDma :: "env \<Rightarrow> (RP1_CLOCK_LEASE, unit) prog" where "EnableDma E = Clock_Enable E RP1_CLK_DMA"
definition RestoreUart :: "env \<Rightarrow> (RP1_CLOCK_LEASE, unit) prog" where "RestoreUart E = Clock_Restore E RP1_CLK_UART"
definition RestoreDma :: "env \<Rightarrow> (RP1_CLOCK_LEASE, unit) prog" where "RestoreDma E = Clock_Restore E RP1_CLK_DMA"

text \<open>Taking a lease and giving it back. The gate is turned on only when the first lease finds it off, and
  left as it was found when its rate is not usable.\<close>

definition Clock_Take :: "env \<Rightarrow> u32 \<Rightarrow> (RP1_CLOCK_LEASE, bool) prog \<Rightarrow> (RP1_CLOCK_LEASE, NTSTATUS) prog" where
  "Clock_Take E base usable = do {
     l \<leftarrow> gets id;
     whenM (cl_Users l = 0) (do {
       control \<leftarrow> Clock_Read E base;
       modify (\<lambda>l. l\<lparr>cl_SavedControl := control\<rparr>);
       divider \<leftarrow> Clock_Read E (base + 4);
       modify (\<lambda>l. l\<lparr>cl_SavedDivider := divider\<rparr>);
       modify (\<lambda>l. l\<lparr>cl_Changed := control AND RP1_CLK_ENABLE = 0\<rparr>);
       whenM (control AND RP1_CLK_ENABLE = 0) (Clock_Enable E base)
     });
     ok \<leftarrow> usable;
     if \<not> ok then do {
       whenM (cl_Users l = 0) (do { Clock_Restore E base; modify (\<lambda>l. l\<lparr>cl_Changed := False\<rparr>) });
       ret STATUS_DEVICE_CONFIGURATION_ERROR
     }
     else do { modify (\<lambda>l. l\<lparr>cl_Users := cl_Users l + 1\<rparr>); ret STATUS_SUCCESS }
   }"

definition Clock_Drop :: "env \<Rightarrow> u32 \<Rightarrow> bool \<Rightarrow> (RP1_CLOCK_LEASE, unit) prog" where
  "Clock_Drop E base online = do {
     modify (\<lambda>l. l\<lparr>cl_Users := cl_Users l - 1\<rparr>);
     l \<leftarrow> gets id;
     whenM (cl_Users l = 0) (do {
       whenM online (Clock_Restore E base);
       modify (\<lambda>l. l\<lparr>cl_Changed := False\<rparr>)
     })
   }"

definition uart_usable :: "env \<Rightarrow> (RP1_CLOCK_LEASE, bool) prog" where
  "uart_usable E = do { r \<leftarrow> Rp1ClockRate E True; ret (r \<noteq> 0) }"

definition dma_usable :: "env \<Rightarrow> (RP1_CLOCK_LEASE, bool) prog" where
  "dma_usable E = do {
     r \<leftarrow> Rp1DmaClockRate E;
     if r = 0 then ret False else do { r \<leftarrow> Rp1DmaClockRate E; ret (r \<le> 100000000) }
   }"

section \<open>The driver\<close>

fun clock_memory :: "cm_resource option list \<Rightarrow> u64 option \<Rightarrow> u64 option" where
  "clock_memory [] memory = memory"
| "clock_memory (None # rs) memory = None"
| "clock_memory (Some (CmMemory start bytes) # rs) memory =
     (if memory \<noteq> None \<or> bytes \<noteq> 0x10038 then None else clock_memory rs (Some start))"
| "clock_memory (Some r # rs) memory = clock_memory rs memory"

definition ClockPrepare :: "env \<Rightarrow> cm_resource option list \<Rightarrow> (CLOCK_CONTEXT, NTSTATUS) prog" where
  "ClockPrepare E rs = (case clock_memory rs None of
     None \<Rightarrow> ret STATUS_DEVICE_CONFIGURATION_ERROR
   | Some start \<Rightarrow> do {
       p \<leftarrow> io_call E ''MmMapIoSpaceEx'' [start, 0x10038, PAGE_READWRITE OR PAGE_NOCACHE];
       modify (\<lambda>c. c\<lparr>ck_Registers := p\<rparr>);
       ret (if p \<noteq> 0 then STATUS_SUCCESS else STATUS_INSUFFICIENT_RESOURCES)
     })"

definition ClockRelease :: "env \<Rightarrow> (CLOCK_CONTEXT, NTSTATUS) prog" where
  "ClockRelease E = do {
     c \<leftarrow> gets id;
     whenM (ck_Registers c \<noteq> 0) (do {
       kernel_do E ''MmUnmapIoSpace'' [ck_Registers c, 0x10038];
       modify (\<lambda>c. c\<lparr>ck_Registers := 0\<rparr>)
     });
     ret STATUS_SUCCESS
   }"

definition ClockStart :: "env \<Rightarrow> (CLOCK_CONTEXT, NTSTATUS) prog" where
  "ClockStart E = do {
     Kernel_Lock_forever E;
     c \<leftarrow> gets id;
     whenM (cl_Users (ck_Uart c) \<noteq> 0 \<and> cl_Changed (ck_Uart c)) (on_uart (EnableUart E));
     whenM (cl_Users (ck_Dma c) \<noteq> 0 \<and> cl_Changed (ck_Dma c)) (on_dma (EnableDma E));
     modify (\<lambda>c. c\<lparr>ck_Online := True\<rparr>);
     Kernel_Unlock E;
     ret STATUS_SUCCESS
   }"

definition ClockStop :: "env \<Rightarrow> (CLOCK_CONTEXT, NTSTATUS) prog" where
  "ClockStop E = do {
     Kernel_Lock_forever E;
     on_uart (RestoreUart E);
     on_dma (RestoreDma E);
     modify (\<lambda>c. c\<lparr>ck_Online := False\<rparr>);
     Kernel_Unlock E;
     ret STATUS_SUCCESS
   }"

definition ClockQueryRemove :: "env \<Rightarrow> (CLOCK_CONTEXT, NTSTATUS) prog" where
  "ClockQueryRemove E = do {
     Kernel_Lock_forever E;
     c \<leftarrow> gets id;
     Kernel_Unlock E;
     ret (if cl_Users (ck_Uart c) \<noteq> 0 \<or> cl_Users (ck_Dma c) \<noteq> 0 then STATUS_DEVICE_BUSY else STATUS_SUCCESS)
   }"

definition ClockQueryStop :: "env \<Rightarrow> (CLOCK_CONTEXT, NTSTATUS) prog" where
  "ClockQueryStop E = ClockQueryRemove E"

definition Rp1ClockCleanup :: "env \<Rightarrow> ptr \<Rightarrow> (CLOCK_CONTEXT, unit) prog" where
  "Rp1ClockCleanup E f = do {
     Kernel_Lock_forever E;
     c \<leftarrow> gets id;
     whenM (cf_Uart (ck_File c f)) (do {
       modify (\<lambda>c. c\<lparr>ck_File := (ck_File c)(f := (ck_File c f)\<lparr>cf_Uart := False\<rparr>)\<rparr>);
       on_uart (Clock_Drop E RP1_CLK_UART (ck_Online c))
     });
     whenM (cf_Dma (ck_File c f)) (do {
       modify (\<lambda>c. c\<lparr>ck_File := (ck_File c)(f := (ck_File c f)\<lparr>cf_Dma := False\<rparr>)\<rparr>);
       on_dma (Clock_Drop E RP1_CLK_DMA (ck_Online c))
     });
     Kernel_Unlock E
   }"

text \<open>The requests. A file of zero stands for a request without a file object.\<close>

record RP1_DMA_CLOCK_STATUS =
  ds_Version :: u32
  ds_Online :: u32
  ds_SystemHz :: u32
  ds_DmaHz :: u32
  ds_DmaUsers :: u32
  ds_Control :: u32
  ds_Divider :: u32

record RP1_CLOCK_STATUS =
  cs_Version :: u32
  cs_Online :: u32
  cs_SystemHz :: u32
  cs_UartHz :: u32
  cs_UartUsers :: u32
  cs_SystemControl :: u32
  cs_SystemDivider :: u32
  cs_UartControl :: u32
  cs_UartDivider :: u32

datatype clock_reply = ReplyClock RP1_CLOCK_STATUS | ReplyDma RP1_DMA_CLOCK_STATUS

datatype clock_ioctl = CLOCK_QUERY | CLOCK_UART | CLOCK_DMA | CLOCK_OTHER

definition DmaClockIo :: "env \<Rightarrow> ptr \<Rightarrow> bool \<Rightarrow> (CLOCK_CONTEXT, NTSTATUS \<times> clock_reply option) prog" where
  "DmaClockIo E f kmode =
     (if f = 0 \<or> \<not> kmode then ret (STATUS_INVALID_DEVICE_REQUEST, None)
      else do {
        status \<leftarrow> kernel_status E ''WdfRequestRetrieveOutputBuffer'' [28];
        if \<not> NT_SUCCESS status then ret (status, None)
        else do {
          Kernel_Lock_forever E;
          c \<leftarrow> gets id;
          status \<leftarrow> (if \<not> ck_Online c then ret STATUS_DEVICE_NOT_READY
            else if cf_Dma (ck_File c f) then ret status
            else do {
              s \<leftarrow> on_dma (Clock_Take E RP1_CLK_DMA (dma_usable E));
              if NT_SUCCESS s then do {
                modify (\<lambda>c. c\<lparr>ck_File := (ck_File c)(f := (ck_File c f)\<lparr>cf_Dma := True\<rparr>)\<rparr>);
                ret status
              }
              else ret s
            });
          reply \<leftarrow> (if NT_SUCCESS status then do {
              sys \<leftarrow> Rp1ClockRate E False;
              dma \<leftarrow> Rp1DmaClockRate E;
              c \<leftarrow> gets id;
              control \<leftarrow> Clock_Read E RP1_CLK_DMA;
              divider \<leftarrow> Clock_Read E (RP1_CLK_DMA + 4);
              ret (Some (ReplyDma \<lparr>ds_Version = 1, ds_Online = c_bool (ck_Online c), ds_SystemHz = sys, ds_DmaHz = dma,
                ds_DmaUsers = cl_Users (ck_Dma c), ds_Control = control, ds_Divider = divider\<rparr>))
            } else ret None);
          Kernel_Unlock E;
          ret (status, reply)
        }
      })"

definition ClockIo :: "env \<Rightarrow> clock_ioctl \<Rightarrow> ptr \<Rightarrow> bool \<Rightarrow> (CLOCK_CONTEXT, NTSTATUS \<times> clock_reply option) prog" where
  "ClockIo E code f kmode =
     (if code = CLOCK_DMA then DmaClockIo E f kmode
      else if code = CLOCK_OTHER \<or> f = 0 \<or> (code = CLOCK_UART \<and> \<not> kmode) then ret (STATUS_INVALID_DEVICE_REQUEST, None)
      else do {
        status \<leftarrow> kernel_status E ''WdfRequestRetrieveOutputBuffer'' [36];
        if \<not> NT_SUCCESS status then ret (status, None)
        else do {
          Kernel_Lock_forever E;
          c \<leftarrow> gets id;
          (status, reply) \<leftarrow> (if \<not> ck_Online c then ret (STATUS_DEVICE_NOT_READY, None)
            else do {
              status \<leftarrow> (if code = CLOCK_UART \<and> \<not> cf_Uart (ck_File c f) then do {
                  s \<leftarrow> on_uart (Clock_Take E RP1_CLK_UART (uart_usable E));
                  if NT_SUCCESS s then do {
                    modify (\<lambda>c. c\<lparr>ck_File := (ck_File c)(f := (ck_File c f)\<lparr>cf_Uart := True\<rparr>)\<rparr>);
                    ret status
                  }
                  else ret s
                } else ret status);
              if NT_SUCCESS status then do {
                sys \<leftarrow> Rp1ClockRate E False;
                uart \<leftarrow> Rp1ClockRate E True;
                c \<leftarrow> gets id;
                a \<leftarrow> Clock_Read E RP1_CLK_SYS;
                b \<leftarrow> Clock_Read E (RP1_CLK_SYS + 4);
                d \<leftarrow> Clock_Read E RP1_CLK_UART;
                e \<leftarrow> Clock_Read E (RP1_CLK_UART + 4);
                ret (status, Some (ReplyClock \<lparr>cs_Version = 1, cs_Online = c_bool (ck_Online c), cs_SystemHz = sys, cs_UartHz = uart,
                  cs_UartUsers = cl_Users (ck_Uart c), cs_SystemControl = a, cs_SystemDivider = b, cs_UartControl = d, cs_UartDivider = e\<rparr>))
              }
              else ret (status, None)
            });
          Kernel_Unlock E;
          ret (status, reply)
        }
      })"

section \<open>The client\<close>

text \<open>Opening the clock from another driver: the target of the request, and the rate. The reply comes from the
  kernel, with the number of bytes it wrote.\<close>

definition Rp1OpenClock :: "env \<Rightarrow> bool \<Rightarrow> ('s, NTSTATUS \<times> ptr \<times> u32) prog" where
  "Rp1OpenClock E uart = do {
     status \<leftarrow> kernel_status E ''WdfIoTargetCreate'' [];
     if \<not> NT_SUCCESS status then ret (status, 0, 0)
     else do {
       target \<leftarrow> io_call E ''WdfIoTargetCreate target'' [];
       status \<leftarrow> kernel_status E ''WdfIoTargetOpen'' [target];
       (status, hz) \<leftarrow> (if NT_SUCCESS status then do {
           status \<leftarrow> kernel_status E ''WdfIoTargetSendIoctlSynchronously'' [target, if uart then 0x811 else 0x810];
           if NT_SUCCESS status then do {
             bytes \<leftarrow> io_call E ''BytesReturned'' [];
             version \<leftarrow> io_call E ''Reply'' [0];
             online \<leftarrow> io_call E ''Reply'' [1];
             hz \<leftarrow> io_call E ''Reply'' [if uart then 3 else 2];
             ret (if bytes \<noteq> 36 \<or> (ucast version :: u32) \<noteq> 1 \<or> (ucast online :: u32) = 0 \<or> (ucast hz :: u32) = 0
               then STATUS_DEVICE_CONFIGURATION_ERROR else status, ucast hz)
           }
           else ret (status, 0)
         } else ret (status, 0));
       if NT_SUCCESS status then ret (status, target, hz)
       else do { kernel_do E ''WdfObjectDelete'' [target]; ret (status, 0, hz) }
     }
   }"

section \<open>The rate of a PLL\<close>

text \<open>The rate on natural numbers: the crystal times the feedback, with its fraction, over the dividers.\<close>

definition exact_rate :: "nat \<Rightarrow> nat \<Rightarrow> nat" where
  "exact_rate feedback divisor = (let q = 50000000 * feedback div (divisor * 2 ^ 24) in if q \<ge> 2 ^ 32 then 0 else q)"

definition pll_rate :: "u32 \<Rightarrow> u32 \<Rightarrow> u32 \<Rightarrow> u32 \<Rightarrow> u32 \<Rightarrow> nat" where
  "pll_rate cs pwr whole frac prim =
     (let divisor = unat (cs AND 0x3f) * unat (drop_bit 16 prim AND 7) * unat (drop_bit 12 prim AND 7);
          feedback = unat (whole AND 0xfff) * 2 ^ 24 + (if pwr AND 4 = 0 then unat (frac AND 0xffffff) else 0)
      in if cs AND 0x80000000 = 0 \<or> pwr AND 0x29 \<noteq> 0 \<or> divisor = 0 then 0 else exact_rate feedback divisor)"

lemma exact_rate_0 [simp]: "exact_rate f 0 = 0"
  by (simp add: exact_rate_def)

lemma and_lt: "unat (x AND 0x3f) < 64" "unat (x AND 7) < 8" "unat (x AND 0xfff) < 4096" "unat (x AND 0xffffff) < 16777216" for x :: u32
proof -
  have "(0x3f :: u32) = mask 6" "(7 :: u32) = mask 3" "(0xfff :: u32) = mask 12" "(0xffffff :: u32) = mask 24"
    by (simp_all add: mask_eq_exp_minus_1)
  then show "unat (x AND 0x3f) < 64" "unat (x AND 7) < 8" "unat (x AND 0xfff) < 4096" "unat (x AND 0xffffff) < 16777216"
    by (simp_all only: unat_and_mask) simp_all
qed

lemma fraction_or: "unat x < 4096 \<Longrightarrow> unat y < 16777216 \<Longrightarrow> unat (push_bit 24 (ucast (x::u32)) OR ucast (y::u32) :: u64) = unat x * 2 ^ 24 + unat y"
proof -
  assume xy: "unat x < 4096" "unat y < 16777216"
  have y: "unat (ucast y :: u64) = unat y" by (simp add: unat_ucast_up)
  have x: "unat (push_bit 24 (ucast x) :: u64) = unat x * 2 ^ 24"
    using xy(1) by (subst unat_push_bit) (simp_all add: unat_ucast_up)
  have "push_bit 24 (ucast x :: u64) AND ucast y = 0"
  proof (rule bit_word_eqI)
    fix n
    have "\<not> bit y n" if "24 \<le> n"
    proof -
      have "y = y AND mask 24" using xy(2) by (simp add: and_mask_small)
      then have "bit y n = bit (y AND mask 24) n" by simp
      then show ?thesis using that by (simp add: bit_and_iff bit_mask_iff)
    qed
    then show "bit (push_bit 24 (ucast x :: u64) AND ucast y) n = bit (0 :: u64) n"
      by (auto simp: bit_and_iff bit_push_bit_iff bit_ucast_iff)
  qed
  then have "unat (push_bit 24 (ucast x) OR ucast y :: u64) = unat (push_bit 24 (ucast x) + ucast y :: u64)"
    by (simp add: or_as_add)
  also have "\<dots> = unat x * 2 ^ 24 + unat y"
    using xy by (subst unat_add_small) (simp_all add: x y)
  finally show ?thesis .
qed

lemma divisor_value:
  assumes "unat r < 64" "unat a < 8" "unat b < 8"
  shows "unat (push_bit 24 (ucast (r::u32) * ucast (a::u32) * ucast (b::u32)) :: u64) = unat r * unat a * unat b * 2 ^ 24"
proof -
  have le: "unat r * unat a * unat b \<le> 63 * 7 * 7" using assms by (intro mult_le_mono) simp_all
  have "unat r * unat a \<le> 63 * 7" using assms by (intro mult_le_mono) simp_all
  then have "unat (ucast r * ucast a :: u64) = unat r * unat a" by (simp add: unat_word_ariths unat_ucast_up)
  then have v: "unat (ucast r * ucast a * ucast b :: u64) = unat r * unat a * unat b"
    using le by (subst unat_word_ariths(2)) (simp add: unat_ucast_up)
  have "unat r * unat a * unat b * 2 ^ 24 \<le> 63 * 7 * 7 * 2 ^ 24" by (rule mult_le_mono1 [OF le])
  then show ?thesis by (subst unat_push_bit) (simp_all only: v, simp)
qed

lemma rate_value:
  assumes "unat f < 2 ^ 36"
  shows "unat (50000000 * f div d :: u64) = 50000000 * unat f div unat d"
  using assms by (simp add: unat_div unat_word_ariths)

lemma quotient_value:
  assumes "unat r < 64" "unat a < 8" "unat b < 8" "unat f < 2 ^ 36"
  shows "pll_quotient r a b f = of_nat (exact_rate (unat f) (unat r * unat a * unat b))"
proof -
  let ?q = "50000000 * f div push_bit 24 (ucast r * ucast a * ucast b) :: u64"
  have q: "unat ?q = 50000000 * unat f div (unat r * unat a * unat b * 2 ^ 24)"
    unfolding rate_value [OF assms(4)] divisor_value [OF assms(1-3)] ..
  have "n \<le> 4294967295 \<longleftrightarrow> \<not> 4294967296 \<le> n" for n :: nat by arith
  then have "?q \<le> 0xffffffff \<longleftrightarrow> \<not> 2 ^ 32 \<le> unat ?q" unfolding word_le_nat_alt by simp
  moreover have "(ucast ?q :: u32) = of_nat (unat ?q)" by (simp add: unsigned_of_nat)
  ultimately show ?thesis unfolding pll_quotient_def exact_rate_def Let_def q by simp
qed

text \<open>C24. The rate of a PLL is the exact quotient rounded down: with 64-bit arithmetic nothing overflows and no
  division is by zero, whatever the registers hold, and a rate that does not fit is reported as zero.\<close>

theorem clock_pll_exact:
  "fst (run_state (Clock_Pll (regfile init calls) base) \<lparr>st = s, trace = []\<rparr>) =
     of_nat (pll_rate (init 0 base) (init 0 (base + 4)) (init 0 (base + 8)) (init 0 (base + 12)) (init 0 (base + 0x10)))"
proof -
  note lt = and_lt(1) [of "init 0 base"] and_lt(2) [of "drop_bit 16 (init 0 (base + 0x10))"] and_lt(2) [of "drop_bit 12 (init 0 (base + 0x10))"]
  let ?whole = "push_bit 24 (ucast (init 0 (base + 8) AND 0xfff)) :: u64"
  let ?both = "?whole OR ucast (init 0 (base + 12) AND 0xffffff)"
  have both: "unat ?both = unat (init 0 (base + 8) AND 0xfff) * 2 ^ 24 + unat (init 0 (base + 12) AND 0xffffff)"
    by (rule fraction_or) (rule and_lt)+
  have whole: "unat ?whole = unat (init 0 (base + 8) AND 0xfff) * 2 ^ 24"
    using fraction_or [of "init 0 (base + 8) AND 0xfff" 0] and_lt(3) [of "init 0 (base + 8)"] by simp
  have small: "unat ?both < 2 ^ 36" "unat ?whole < 2 ^ 36"
    unfolding both whole using and_lt(3) [of "init 0 (base + 8)"] and_lt(4) [of "init 0 (base + 12)"] by simp_all
  note q = quotient_value [OF lt small(1), unfolded both] quotient_value [OF lt small(2), unfolded whole]
  have "wp (Clock_Pll (regfile init calls) base) (\<lambda>r v. r =
     of_nat (pll_rate (init 0 base) (init 0 (base + 4)) (init 0 (base + 8)) (init 0 (base + 12)) (init 0 (base + 0x10)))) \<lparr>st = s, trace = []\<rparr>"
    unfolding Clock_Pll_def Clock_Read_def Let_def [of "_ :: u32"] wp_bind wp_io_read wp_if wp_return
    by (auto simp: wp_simps wp_io_read q pll_rate_def Let_def)
  then show ?thesis by (simp add: wp_def split: prod.splits)
qed

section \<open>The gates keep what they promise\<close>

text \<open>An environment whose four gate registers hold what was last written to them; everything else, the PLLs, the
  kernel and the clock, answers as it likes.\<close>

definition gate_registers :: "u32 list" where
  "gate_registers = [RP1_CLK_DMA, RP1_CLK_DMA + 4, RP1_CLK_UART, RP1_CLK_UART + 4]"

definition stored_gates :: "(u32 \<Rightarrow> u32 \<Rightarrow> u32) \<Rightarrow> env \<Rightarrow> env" where
  "stored_gates init E = E\<lparr>env_read := (\<lambda>t u off. if u = 0 \<and> off \<in> set gate_registers then regs init t u off else env_read E t u off)\<rparr>"

text \<open>What holds of a gate and its lease: \<open>init\<close> are the registers as the driver found them.\<close>

definition lease_ok :: "(u32 \<Rightarrow> u32 \<Rightarrow> u32) \<Rightarrow> u32 \<Rightarrow> bool \<Rightarrow> RP1_CLOCK_LEASE \<Rightarrow> io_event list \<Rightarrow> bool" where
  "lease_ok init base online l t \<longleftrightarrow>
     (cl_Changed l \<longrightarrow> cl_Users l \<noteq> 0 \<and> cl_SavedControl l = init 0 base \<and> cl_SavedDivider l = init 0 (base + 4)) \<and>
     (cl_Users l \<noteq> 0 \<longrightarrow> (cl_Changed l \<longleftrightarrow> init 0 base AND RP1_CLK_ENABLE = 0)) \<and>
     (if online \<and> cl_Changed l then regs init t 0 base = 0x840 \<and> regs init t 0 (base + 4) = 1
      else regs init t 0 base = init 0 base \<and> regs init t 0 (base + 4) = init 0 (base + 4))"

lemma regs_quiet: "trace_ext quiet w v \<Longrightarrow> regs init (trace v) u off = regs init (trace w) u off"
  by (intro regs_cong quiet_last_write)

lemma wp_quiet_regs:
  "preserves quietly m \<Longrightarrow>
   (\<And>r v. st v = st w \<Longrightarrow> (\<forall>u off. regs init (trace v) u off = regs init (trace w) u off) \<Longrightarrow> Q r v) \<Longrightarrow> wp m Q w"
  by (erule wp_quietly) (simp add: regs_quiet)

lemma wp_Clock_Read: "(\<And>r. Q r (w\<lparr>trace := Rd 0 off r # trace w\<rparr>)) \<Longrightarrow> wp (Clock_Read E off) Q w"
  by (auto simp: Clock_Read_def intro!: wp_any)

lemma wp_Clock_Write: "(\<And>r. Q () (w\<lparr>trace := Rd 0 off r # Wr 0 off v # trace w\<rparr>)) \<Longrightarrow> wp (Clock_Write E off v) Q w"
  by (auto simp: Clock_Write_def intro!: wp_intros wp_Clock_Read)

lemma quietly_Read: "preserves quietly (Clock_Read E off)"
  unfolding Clock_Read_def by (rule quietly_read)

lemma quietly_rates: "preserves quietly (Clock_Pll E base)" "preserves quietly (ClockRate E base g)"
  "preserves quietly (Rp1ClockRate E u)" "preserves quietly (Rp1DmaClockRate E)"
  "preserves quietly (uart_usable E)" "preserves quietly (dma_usable E)"
  unfolding uart_usable_def dma_usable_def Rp1ClockRate_def Rp1DmaClockRate_def ClockRate_def Clock_Pll_def Let_def
  by (intro quietly_intros quietly_Read)+

locale clock_gate =
  fixes E :: env and init :: "u32 \<Rightarrow> u32 \<Rightarrow> u32" and base :: u32
  assumes control: "env_read E t 0 base = regs init t 0 base"
    and divider: "env_read E t 0 (base + 4) = regs init t 0 (base + 4)"
begin

lemma wp_control: "Q (regs init (trace w) 0 base) (w\<lparr>trace := Rd 0 base (regs init (trace w) 0 base) # trace w\<rparr>) \<Longrightarrow> wp (Clock_Read E base) Q w"
  by (simp add: Clock_Read_def wp_io_read control)

lemma wp_divider: "Q (regs init (trace w) 0 (base + 4)) (w\<lparr>trace := Rd 0 (base + 4) (regs init (trace w) 0 (base + 4)) # trace w\<rparr>) \<Longrightarrow>
    wp (Clock_Read E (base + 4)) Q w"
  by (simp add: Clock_Read_def wp_io_read divider)

lemma wp_gate_Restore:
  assumes "\<And>v. st v = st w \<Longrightarrow> (cl_Changed (st w) \<longrightarrow> regs init (trace v) 0 base = cl_SavedControl (st w) \<and>
      regs init (trace v) 0 (base + 4) = cl_SavedDivider (st w)) \<Longrightarrow> (\<not> cl_Changed (st w) \<longrightarrow> trace v = trace w) \<Longrightarrow> Q () v"
  shows "wp (Clock_Restore E base) Q w"
  unfolding Clock_Restore_def
  by (intro wp_intros wp_control wp_Clock_Write assms) auto

lemma wp_gate_Enable:
  assumes "\<And>v. st v = st w \<Longrightarrow> regs init (trace v) 0 base = 0x840 \<Longrightarrow> regs init (trace v) 0 (base + 4) = 1 \<Longrightarrow> Q () v"
  shows "wp (Clock_Enable E base) Q w"
  unfolding Clock_Enable_def
  by (intro wp_intros wp_Clock_Write assms) auto

lemma wp_gate_Take:
  assumes ok: "lease_ok init base True (st w) (trace w)" and usable: "preserves quietly usable"
    and fail: "\<And>r v. lease_ok init base True (st v) (trace v) \<Longrightarrow> cl_Users (st v) = cl_Users (st w) \<Longrightarrow> \<not> NT_SUCCESS r \<Longrightarrow> Q r v"
    and succ: "\<And>r v. cl_Users (st v) = cl_Users (st w) + 1 \<Longrightarrow>
       (cl_Users (st v) \<noteq> 0 \<Longrightarrow> lease_ok init base True (st v) (trace v)) \<Longrightarrow> NT_SUCCESS r \<Longrightarrow> Q r v"
  shows "wp (Clock_Take E base usable) Q w"
proof -
  let ?I = "\<lambda>v. cl_Users (st v) = cl_Users (st w) \<and> lease_ok init base True ((st v)\<lparr>cl_Users := 1\<rparr>) (trace v)"
  have first: "wp (whenM (cl_Users (st w) = 0) (do {
       control \<leftarrow> Clock_Read E base;
       modify (\<lambda>l. l\<lparr>cl_SavedControl := control\<rparr>);
       divider \<leftarrow> Clock_Read E (base + 4);
       modify (\<lambda>l. l\<lparr>cl_SavedDivider := divider\<rparr>);
       modify (\<lambda>l. l\<lparr>cl_Changed := control AND RP1_CLK_ENABLE = 0\<rparr>);
       whenM (control AND RP1_CLK_ENABLE = 0) (Clock_Enable E base)
     })) (\<lambda>_. ?I) w"
    by (intro wp_bindI wp_whenI wp_control wp_modifyI wp_divider wp_gate_Enable) (use ok in \<open>auto simp: lease_ok_def\<close>)
  show ?thesis
    unfolding Clock_Take_def
    apply (intro wp_bindI wp_getsI)
    unfolding id_apply
    apply (rule wp_mono [OF first], rule wp_bindI, rule wp_quiet_regs [OF usable, where init = init], intro wp_intros wp_gate_Restore)
    subgoal by (rule fail) (auto simp: lease_ok_def)
    subgoal by (rule fail) (use ok in \<open>auto simp: lease_ok_def\<close>)
    subgoal by (rule succ) (auto simp: lease_ok_def)
    done
qed

lemma wp_gate_Drop:
  assumes ok: "lease_ok init base online (st w) (trace w)" and users: "cl_Users (st w) \<noteq> 0"
    and Q: "\<And>v. cl_Users (st v) = cl_Users (st w) - 1 \<Longrightarrow> lease_ok init base online (st v) (trace v) \<Longrightarrow> Q () v"
  shows "wp (Clock_Drop E base online) Q w"
  unfolding Clock_Drop_def
  by (intro wp_intros wp_gate_Restore; rule Q) (use ok users in \<open>auto simp: lease_ok_def\<close>)

lemma wp_gate_start:
  assumes ok: "lease_ok init base online (st w) (trace w)"
    and Q: "\<And>v. st v = st w \<Longrightarrow> lease_ok init base True (st v) (trace v) \<Longrightarrow> Q () v"
  shows "wp (whenM (cl_Users (st w) \<noteq> 0 \<and> cl_Changed (st w)) (Clock_Enable E base)) Q w"
  by (intro wp_intros wp_gate_Enable; rule Q) (use ok in \<open>auto simp: lease_ok_def\<close>)

lemma wp_gate_stop:
  assumes ok: "lease_ok init base online (st w) (trace w)"
    and Q: "\<And>v. st v = st w \<Longrightarrow> lease_ok init base False (st v) (trace v) \<Longrightarrow> Q () v"
  shows "wp (Clock_Restore E base) Q w"
  by (intro wp_gate_Restore; rule Q) (use ok in \<open>auto simp: lease_ok_def\<close>)

end


interpretation uart: clock_gate "stored_gates init E" init RP1_CLK_UART for init E
  by unfold_locales (simp_all add: stored_gates_def gate_registers_def)

interpretation dma: clock_gate "stored_gates init E" init RP1_CLK_DMA for init E
  by unfold_locales (simp_all add: stored_gates_def gate_registers_def)

text \<open>The operations on one gate do not touch the registers of the other.\<close>

definition other_gate :: "u32 \<Rightarrow> io_event \<Rightarrow> bool" where
  "other_gate base e \<longleftrightarrow> (\<forall>v. e \<noteq> Wr 0 base v \<and> e \<noteq> Wr 0 (base + 4) v)"

lemma other_gate_simps [simp]:
  "other_gate base (Rd u off v)" "other_gate base (Call f xs y)" "other_gate base (Clk t)"
  "other_gate base (Wr 0 off v) \<longleftrightarrow> off \<noteq> base \<and> off \<noteq> base + 4"
  by (auto simp: other_gate_def)

lemma ext_Clock_Read: "preserves (trace_ext (other_gate b)) (Clock_Read E off)"
  unfolding Clock_Read_def by (intro ext_intros) simp

lemma ext_Clock_Write: "off \<noteq> b \<Longrightarrow> off \<noteq> b + 4 \<Longrightarrow> preserves (trace_ext (other_gate b)) (Clock_Write E off v)"
  unfolding Clock_Write_def by (intro ext_intros ext_Clock_Read) simp_all

lemma quietly_ext: "preserves quietly m \<Longrightarrow> (\<And>e. quiet e \<Longrightarrow> P e) \<Longrightarrow> preserves (trace_ext P) m"
  unfolding preserves_def quietly_def using trace_ext_mono by (metis (full_types))

lemma quiet_other_gate: "quiet e \<Longrightarrow> other_gate b e"
  by (cases e) (auto simp: other_gate_def)

lemma ext_gate:
  assumes "preserves quietly usable" "base \<noteq> b" "base \<noteq> b + 4" "base + 4 \<noteq> b"
  shows "preserves (trace_ext (other_gate b)) (Clock_Take E base usable)" "preserves (trace_ext (other_gate b)) (Clock_Drop E base online)"
    "preserves (trace_ext (other_gate b)) (Clock_Restore E base)" "preserves (trace_ext (other_gate b)) (Clock_Enable E base :: ('s, unit) prog)"
  unfolding Clock_Take_def Clock_Drop_def Clock_Restore_def Clock_Enable_def
  by (intro ext_intros ext_Clock_Read ext_Clock_Write quietly_ext [OF assms(1)] quiet_other_gate; use assms in simp)+

lemma regs_other_gate:
  assumes "trace_ext (other_gate b) w v" "off = b \<or> off = b + 4"
  shows "regs init (trace v) 0 off = regs init (trace w) 0 off"
  by (rule regs_cong, rule trace_ext_last_write [OF assms(1)]) (use assms(2) in \<open>auto simp: other_gate_def\<close>)

lemma lease_ok_other: "trace_ext (other_gate b) w v \<Longrightarrow> lease_ok init b online l (trace w) \<Longrightarrow> lease_ok init b online l (trace v)"
  by (simp add: lease_ok_def regs_other_gate)

section \<open>Every sequence of operations\<close>

definition uart_files :: "CLOCK_CONTEXT \<Rightarrow> ptr set" where
  "uart_files c = {f. cf_Uart (ck_File c f)}"

definition dma_files :: "CLOCK_CONTEXT \<Rightarrow> ptr set" where
  "dma_files c = {f. cf_Dma (ck_File c f)}"

definition counted :: "nat \<Rightarrow> ptr set \<Rightarrow> u32 \<Rightarrow> bool" where
  "counted n A users \<longleftrightarrow> finite A \<and> card A \<le> n \<and> users = of_nat (card A)"

lemma counted_mono: "counted n A k \<Longrightarrow> counted (Suc n) A k"
  by (auto simp: counted_def)

lemma counted_insert: "counted n A k \<Longrightarrow> f \<notin> A \<Longrightarrow> counted (Suc n) (insert f A) (k + 1)"
  by (auto simp: counted_def)

lemma counted_remove:
  assumes "counted n A k" "f \<in> A"
  shows "counted n (A - {f}) (k - 1)"
proof -
  have c: "card A = Suc (card (A - {f}))" using assms by (intro card.remove) (auto simp: counted_def)
  then show ?thesis using assms by (auto simp: counted_def)
qed

lemma counted_nonzero:
  assumes "counted n A k" "n < 4294967296" "A \<noteq> {}"
  shows "k \<noteq> 0"
proof -
  have "unat k = card A" using assms by (auto simp: counted_def intro!: unat_of_nat_small)
  moreover have "card A \<noteq> 0" using assms by (auto simp: counted_def)
  ultimately show ?thesis by auto
qed

definition clock_inv :: "(u32 \<Rightarrow> u32 \<Rightarrow> u32) \<Rightarrow> nat \<Rightarrow> CLOCK_CONTEXT world \<Rightarrow> bool" where
  "clock_inv init n w \<longleftrightarrow>
     lease_ok init RP1_CLK_UART (ck_Online (st w)) (ck_Uart (st w)) (trace w) \<and>
     lease_ok init RP1_CLK_DMA (ck_Online (st w)) (ck_Dma (st w)) (trace w) \<and>
     counted n (uart_files (st w)) (cl_Users (ck_Uart (st w))) \<and> counted n (dma_files (st w)) (cl_Users (ck_Dma (st w)))"

lemma wp_on_uart:
  assumes "preserves (trace_ext (other_gate RP1_CLK_DMA)) m" "lease_ok init RP1_CLK_DMA o' d (trace w)"
    and "wp m (\<lambda>r v. lease_ok init RP1_CLK_DMA o' d (trace v) \<longrightarrow> Q r \<lparr>st = (st w)\<lparr>ck_Uart := st v\<rparr>, trace = trace v\<rparr>)
      \<lparr>st = ck_Uart (st w), trace = trace w\<rparr>"
  shows "wp (on_uart m) Q w"
  by (rule wp_zoomI, rule wp_frame [OF assms(1)], rule wp_mono [OF assms(3)])
    (use assms(2) in \<open>auto dest: lease_ok_other\<close>)

lemma wp_on_dma:
  assumes "preserves (trace_ext (other_gate RP1_CLK_UART)) m" "lease_ok init RP1_CLK_UART o' d (trace w)"
    and "wp m (\<lambda>r v. lease_ok init RP1_CLK_UART o' d (trace v) \<longrightarrow> Q r \<lparr>st = (st w)\<lparr>ck_Dma := st v\<rparr>, trace = trace v\<rparr>)
      \<lparr>st = ck_Dma (st w), trace = trace w\<rparr>"
  shows "wp (on_dma m) Q w"
  by (rule wp_zoomI, rule wp_frame [OF assms(1)], rule wp_mono [OF assms(3)])
    (use assms(2) in \<open>auto dest: lease_ok_other\<close>)

lemma lease_ok_event: "\<forall>u off v. e \<noteq> Wr u off v \<Longrightarrow> lease_ok init b online l (e # t) = lease_ok init b online l t"
  by (cases e) (auto simp: lease_ok_def)

lemma lease_ok_events [simp]:
  "lease_ok init b online l (Call f xs y # t) = lease_ok init b online l t" "lease_ok init b online l (Rd u off v # t) = lease_ok init b online l t"
  by (simp_all add: lease_ok_event)

text \<open>A request's reading of rates and registers leaves everything as it is.\<close>

lemma wp_same:
  assumes "preserves quietly m" "\<And>r v. st v = st w \<Longrightarrow> (\<forall>b o' l. lease_ok init b o' l (trace v) = lease_ok init b o' l (trace w)) \<Longrightarrow> Q r v"
  shows "wp m Q w"
  by (rule wp_quiet_regs [OF assms(1), where init = init]) (rule assms(2), auto simp: lease_ok_def)

lemmas gate_exts = ext_gate [OF quietly_rates(5), of RP1_CLK_UART RP1_CLK_DMA] ext_gate [OF quietly_rates(6), of RP1_CLK_DMA RP1_CLK_UART]

abbreviation (input) SG :: "(u32 \<Rightarrow> u32 \<Rightarrow> u32) \<Rightarrow> env \<Rightarrow> env" where "SG \<equiv> stored_gates"

text \<open>Starting and stopping each gate.\<close>

definition gates_ok :: "(u32 \<Rightarrow> u32 \<Rightarrow> u32) \<Rightarrow> bool \<Rightarrow> bool \<Rightarrow> CLOCK_CONTEXT \<Rightarrow> io_event list \<Rightarrow> bool" where
  "gates_ok init ou od c t \<longleftrightarrow> lease_ok init RP1_CLK_UART ou (ck_Uart c) t \<and> lease_ok init RP1_CLK_DMA od (ck_Dma c) t"

lemma gates_ok_call [simp]: "gates_ok init ou od c (Call f xs y # t) = gates_ok init ou od c t"
  by (simp add: gates_ok_def)

lemma start_uart:
  assumes "gates_ok init ou od (st w) (trace w)" "\<And>v. st v = st w \<Longrightarrow> gates_ok init True od (st v) (trace v) \<Longrightarrow> Q () v" "l = ck_Uart (st w)"
  shows "wp (whenM (cl_Users l \<noteq> 0 \<and> cl_Changed l) (on_uart (EnableUart (SG init E)))) Q w"
proof (cases "cl_Users l \<noteq> 0 \<and> cl_Changed l")
  case True
  have "wp (on_uart (EnableUart (SG init E))) Q w"
    unfolding EnableUart_def using assms(1,2)
    by (intro wp_on_uart [where init = init and o' = od and d = "ck_Dma (st w)"] gate_exts uart.wp_gate_Enable)
      (use True assms(3) in \<open>auto simp: gates_ok_def lease_ok_def\<close>)
  then show ?thesis by (simp add: whenM_def True)
next
  case False
  have "wp (ret ()) Q w" by (rule wp_returnI, rule assms(2)) (use assms False in \<open>auto simp: gates_ok_def lease_ok_def\<close>)
  then show ?thesis using False by (auto simp: whenM_def)
qed

lemma start_dma:
  assumes "gates_ok init ou od (st w) (trace w)" "\<And>v. st v = st w \<Longrightarrow> gates_ok init ou True (st v) (trace v) \<Longrightarrow> Q () v" "l = ck_Dma (st w)"
  shows "wp (whenM (cl_Users l \<noteq> 0 \<and> cl_Changed l) (on_dma (EnableDma (SG init E)))) Q w"
proof (cases "cl_Users l \<noteq> 0 \<and> cl_Changed l")
  case True
  have "wp (on_dma (EnableDma (SG init E))) Q w"
    unfolding EnableDma_def using assms(1,2)
    by (intro wp_on_dma [where init = init and o' = ou and d = "ck_Uart (st w)"] gate_exts dma.wp_gate_Enable)
      (use True assms(3) in \<open>auto simp: gates_ok_def lease_ok_def\<close>)
  then show ?thesis by (simp add: whenM_def True)
next
  case False
  have "wp (ret ()) Q w" by (rule wp_returnI, rule assms(2)) (use assms False in \<open>auto simp: gates_ok_def lease_ok_def\<close>)
  then show ?thesis using False by (auto simp: whenM_def)
qed

lemma stop_uart:
  assumes "gates_ok init ou od (st w) (trace w)" "\<And>v. st v = st w \<Longrightarrow> gates_ok init False od (st v) (trace v) \<Longrightarrow> Q () v"
  shows "wp (on_uart (RestoreUart (SG init E))) Q w"
  unfolding RestoreUart_def using assms
  by (intro wp_on_uart [where init = init and o' = od and d = "ck_Dma (st w)"] gate_exts uart.wp_gate_stop [where online = ou])
    (auto simp: gates_ok_def)

lemma stop_dma:
  assumes "gates_ok init ou od (st w) (trace w)" "\<And>v. st v = st w \<Longrightarrow> gates_ok init ou False (st v) (trace v) \<Longrightarrow> Q () v"
  shows "wp (on_dma (RestoreDma (SG init E))) Q w"
  unfolding RestoreDma_def using assms
  by (intro wp_on_dma [where init = init and o' = ou and d = "ck_Uart (st w)"] gate_exts dma.wp_gate_stop [where online = od])
    (auto simp: gates_ok_def)

lemma clock_inv_gates: "clock_inv init n w \<longleftrightarrow> gates_ok init (ck_Online (st w)) (ck_Online (st w)) (st w) (trace w) \<and>
   counted n (uart_files (st w)) (cl_Users (ck_Uart (st w))) \<and> counted n (dma_files (st w)) (cl_Users (ck_Dma (st w)))"
  by (auto simp: clock_inv_def gates_ok_def)

lemma files_simps [simp]:
  "uart_files (c\<lparr>ck_Online := b\<rparr>) = uart_files c" "dma_files (c\<lparr>ck_Online := b\<rparr>) = dma_files c"
  "uart_files (c\<lparr>ck_Registers := p\<rparr>) = uart_files c" "dma_files (c\<lparr>ck_Registers := p\<rparr>) = dma_files c"
  "uart_files (c\<lparr>ck_Uart := l\<rparr>) = uart_files c" "dma_files (c\<lparr>ck_Uart := l\<rparr>) = dma_files c"
  "uart_files (c\<lparr>ck_Dma := l\<rparr>) = uart_files c" "dma_files (c\<lparr>ck_Dma := l\<rparr>) = dma_files c"
  "gates_ok init ou od (c\<lparr>ck_Online := b\<rparr>) t = gates_ok init ou od c t"
  "gates_ok init ou od (c\<lparr>ck_Registers := p\<rparr>) t = gates_ok init ou od c t"
  "gates_ok init ou od (c\<lparr>ck_File := q\<rparr>) t = gates_ok init ou od c t"
  by (simp_all add: uart_files_def dma_files_def gates_ok_def)

lemma inv_Start:
  assumes "clock_inv init n w"
  shows "wp (ClockStart (SG init E)) (\<lambda>_. clock_inv init n) w"
  using assms unfolding ClockStart_def clock_inv_gates
  apply (intro wp_bindI wp_kernel_doI wp_getsI)
  apply (rule start_uart [where ou = "ck_Online (st w)" and od = "ck_Online (st w)"], simp, rule wp_bindI, rule start_dma, assumption)
  by (intro wp_intros) simp_all

lemma inv_Stop:
  assumes "clock_inv init n w"
  shows "wp (ClockStop (SG init E)) (\<lambda>_. clock_inv init n) w"
  using assms unfolding ClockStop_def clock_inv_gates
  apply (intro wp_bindI wp_kernel_doI wp_getsI)
  apply (rule stop_uart [where ou = "ck_Online (st w)" and od = "ck_Online (st w)"], simp, rule wp_bindI, rule stop_dma, assumption)
  by (intro wp_intros) simp_all

lemma inv_simple:
  assumes "clock_inv init n w"
  shows "wp (ClockPrepare E rs) (\<lambda>_. clock_inv init n) w" "wp (ClockRelease E) (\<lambda>_. clock_inv init n) w"
    "wp (ClockQueryRemove E) (\<lambda>_. clock_inv init n) w"
  using assms unfolding ClockPrepare_def ClockRelease_def ClockQueryRemove_def clock_inv_gates
  by (intro wp_intros; simp)+

lemma lease_ok_simps [simp]: "ck_Dma (c\<lparr>ck_File := q\<rparr>) = ck_Dma c" "ck_Uart (c\<lparr>ck_File := q\<rparr>) = ck_Uart c"
  by simp_all

definition set_uart :: "ptr \<Rightarrow> bool \<Rightarrow> CLOCK_CONTEXT \<Rightarrow> CLOCK_CONTEXT" where
  "set_uart f b c = c\<lparr>ck_File := (ck_File c)(f := (ck_File c f)\<lparr>cf_Uart := b\<rparr>)\<rparr>"

definition set_dma :: "ptr \<Rightarrow> bool \<Rightarrow> CLOCK_CONTEXT \<Rightarrow> CLOCK_CONTEXT" where
  "set_dma f b c = c\<lparr>ck_File := (ck_File c)(f := (ck_File c f)\<lparr>cf_Dma := b\<rparr>)\<rparr>"

lemma set_files [simp]:
  "uart_files (set_uart f b c) = (if b then insert f (uart_files c) else uart_files c - {f})" "dma_files (set_uart f b c) = dma_files c"
  "dma_files (set_dma f b c) = (if b then insert f (dma_files c) else dma_files c - {f})" "uart_files (set_dma f b c) = uart_files c"
  "ck_Uart (set_uart f b c) = ck_Uart c" "ck_Dma (set_uart f b c) = ck_Dma c" "ck_Online (set_uart f b c) = ck_Online c"
  "ck_Uart (set_dma f b c) = ck_Uart c" "ck_Dma (set_dma f b c) = ck_Dma c" "ck_Online (set_dma f b c) = ck_Online c"
  "gates_ok init ou od (set_uart f b c) t = gates_ok init ou od c t" "gates_ok init ou od (set_dma f b c) t = gates_ok init ou od c t"
  by (auto simp: uart_files_def dma_files_def set_uart_def set_dma_def gates_ok_def)

lemma uart_block:
  assumes "clock_inv init n w" "n < 4294967296" "c = st w"
    and "\<And>v. clock_inv init n v \<Longrightarrow> ck_Online (st v) = ck_Online (st w) \<Longrightarrow> dma_files (st v) = dma_files (st w) \<Longrightarrow> Q () v"
  shows "wp (whenM (cf_Uart (ck_File c f)) (do {
       modify (\<lambda>c. c\<lparr>ck_File := (ck_File c)(f := (ck_File c f)\<lparr>cf_Uart := False\<rparr>)\<rparr>);
       on_uart (Clock_Drop (SG init E) RP1_CLK_UART (ck_Online c))
     })) Q w"
proof (rule wp_whenI)
  assume "cf_Uart (ck_File c f)"
  then have f: "f \<in> uart_files (st w)" using assms(3) by (simp add: uart_files_def)
  have inv: "lease_ok init RP1_CLK_UART (ck_Online (st w)) (ck_Uart (st w)) (trace w)" "lease_ok init RP1_CLK_DMA (ck_Online (st w)) (ck_Dma (st w)) (trace w)"
    "counted n (uart_files (st w)) (cl_Users (ck_Uart (st w)))" "counted n (dma_files (st w)) (cl_Users (ck_Dma (st w)))"
    using assms(1) by (auto simp: clock_inv_def)
  have u: "cl_Users (ck_Uart (st w)) \<noteq> 0" using counted_nonzero [OF inv(3) assms(2)] f by blast
  show "wp (do {
       modify (\<lambda>c. c\<lparr>ck_File := (ck_File c)(f := (ck_File c f)\<lparr>cf_Uart := False\<rparr>)\<rparr>);
       on_uart (Clock_Drop (SG init E) RP1_CLK_UART (ck_Online c))
     }) Q w"
    unfolding set_uart_def [symmetric]
    apply (intro wp_bindI wp_modifyI wp_on_uart [where init = init and o' = "ck_Online (st w)" and d = "ck_Dma (st w)"] gate_exts
        uart.wp_gate_Drop [where online = "ck_Online c"])
    using inv u assms(3) apply simp_all
    apply (rule impI, rule assms(4))
    using inv f counted_remove [OF inv(3) f] by (simp_all add: clock_inv_def)
qed (use assms in simp)

lemma dma_block:
  assumes "clock_inv init n w" "n < 4294967296" "b \<longleftrightarrow> f \<in> dma_files (st w)" "ck_Online c = ck_Online (st w)"
    and "\<And>v. clock_inv init n v \<Longrightarrow> ck_Online (st v) = ck_Online (st w) \<Longrightarrow> uart_files (st v) = uart_files (st w) \<Longrightarrow> Q () v"
  shows "wp (whenM b (do {
       modify (\<lambda>c. c\<lparr>ck_File := (ck_File c)(f := (ck_File c f)\<lparr>cf_Dma := False\<rparr>)\<rparr>);
       on_dma (Clock_Drop (SG init E) RP1_CLK_DMA (ck_Online c))
     })) Q w"
proof (rule wp_whenI)
  assume b
  then have f: "f \<in> dma_files (st w)" using assms(3) by simp
  have inv: "lease_ok init RP1_CLK_UART (ck_Online (st w)) (ck_Uart (st w)) (trace w)" "lease_ok init RP1_CLK_DMA (ck_Online (st w)) (ck_Dma (st w)) (trace w)"
    "counted n (uart_files (st w)) (cl_Users (ck_Uart (st w)))" "counted n (dma_files (st w)) (cl_Users (ck_Dma (st w)))"
    using assms(1) by (auto simp: clock_inv_def)
  have u: "cl_Users (ck_Dma (st w)) \<noteq> 0" using counted_nonzero [OF inv(4) assms(2)] f by blast
  show "wp (do {
       modify (\<lambda>c. c\<lparr>ck_File := (ck_File c)(f := (ck_File c f)\<lparr>cf_Dma := False\<rparr>)\<rparr>);
       on_dma (Clock_Drop (SG init E) RP1_CLK_DMA (ck_Online c))
     }) Q w"
    unfolding set_dma_def [symmetric]
    apply (intro wp_bindI wp_modifyI wp_on_dma [where init = init and o' = "ck_Online (st w)" and d = "ck_Uart (st w)"] gate_exts
        dma.wp_gate_Drop [where online = "ck_Online c"])
    using inv u assms(4) apply simp_all
    apply (rule impI, rule assms(5))
    using inv f counted_remove [OF inv(4) f] by (simp_all add: clock_inv_def)
qed (use assms in simp)

lemma clock_inv_call: "clock_inv init n w \<Longrightarrow> clock_inv init n (w\<lparr>trace := Call f xs y # trace w\<rparr>)"
  by (simp add: clock_inv_def)

lemma inv_ClockCleanup:
  assumes "clock_inv init n w" "n < 4294967296"
  shows "wp (Rp1ClockCleanup (SG init E) f) (\<lambda>_. clock_inv init n) w"
  unfolding Rp1ClockCleanup_def
  apply (intro wp_bindI wp_kernel_doI wp_getsI, unfold id_apply)
  apply (rule uart_block [OF clock_inv_call [OF assms(1)] assms(2)], simp)
  apply (intro wp_bindI, rule dma_block, assumption, rule assms(2))
  subgoal by (simp add: dma_files_def set_eq_iff)
  subgoal by simp
  by (intro wp_kernel_doI clock_inv_call)

lemma clock_inv_mono: "clock_inv init n w \<Longrightarrow> clock_inv init (Suc n) w"
  by (auto simp: clock_inv_def intro: counted_mono)

lemma uart_take:
  assumes "clock_inv init n w" "Suc n < 4294967296" "ck_Online (st w)" "f \<notin> uart_files (st w)"
    and "\<And>r v. \<not> NT_SUCCESS r \<Longrightarrow> clock_inv init (Suc n) v \<Longrightarrow> Q r v"
    and "\<And>r v. NT_SUCCESS r \<Longrightarrow> clock_inv init (Suc n) (v\<lparr>st := set_uart f True (st v)\<rparr>) \<Longrightarrow> Q r v"
  shows "wp (on_uart (Clock_Take (SG init E) RP1_CLK_UART (uart_usable (SG init E)))) Q w"
proof -
  have inv: "lease_ok init RP1_CLK_UART True (ck_Uart (st w)) (trace w)" "lease_ok init RP1_CLK_DMA True (ck_Dma (st w)) (trace w)"
    "counted n (uart_files (st w)) (cl_Users (ck_Uart (st w)))" "counted n (dma_files (st w)) (cl_Users (ck_Dma (st w)))"
    using assms(1,3) by (auto simp: clock_inv_def)
  have ins: "counted (Suc n) (insert f (uart_files (st w))) (cl_Users (ck_Uart (st w)) + 1)" by (rule counted_insert [OF inv(3) assms(4)])
  then have nz: "cl_Users (ck_Uart (st w)) + 1 \<noteq> 0" using counted_nonzero assms(2) by blast
  show ?thesis
    apply (intro wp_on_uart [where init = init and o' = True and d = "ck_Dma (st w)"] gate_exts quietly_rates uart.wp_gate_Take)
    using inv apply simp_all
    subgoal by (rule impI, rule assms(5)) (use inv assms(3) in \<open>auto simp: clock_inv_def intro: counted_mono\<close>)
    subgoal by (rule impI, rule assms(6)) (use inv assms(3) ins nz in \<open>auto simp: clock_inv_def intro: counted_mono\<close>)
    done
qed

lemma dma_take:
  assumes "clock_inv init n w" "Suc n < 4294967296" "ck_Online (st w)" "f \<notin> dma_files (st w)"
    and "\<And>r v. \<not> NT_SUCCESS r \<Longrightarrow> clock_inv init (Suc n) v \<Longrightarrow> Q r v"
    and "\<And>r v. NT_SUCCESS r \<Longrightarrow> clock_inv init (Suc n) (v\<lparr>st := set_dma f True (st v)\<rparr>) \<Longrightarrow> Q r v"
  shows "wp (on_dma (Clock_Take (SG init E) RP1_CLK_DMA (dma_usable (SG init E)))) Q w"
proof -
  have inv: "lease_ok init RP1_CLK_UART True (ck_Uart (st w)) (trace w)" "lease_ok init RP1_CLK_DMA True (ck_Dma (st w)) (trace w)"
    "counted n (uart_files (st w)) (cl_Users (ck_Uart (st w)))" "counted n (dma_files (st w)) (cl_Users (ck_Dma (st w)))"
    using assms(1,3) by (auto simp: clock_inv_def)
  have ins: "counted (Suc n) (insert f (dma_files (st w))) (cl_Users (ck_Dma (st w)) + 1)" by (rule counted_insert [OF inv(4) assms(4)])
  then have nz: "cl_Users (ck_Dma (st w)) + 1 \<noteq> 0" using counted_nonzero assms(2) by blast
  show ?thesis
    apply (intro wp_on_dma [where init = init and o' = True and d = "ck_Uart (st w)"] gate_exts quietly_rates dma.wp_gate_Take)
    using inv apply simp_all
    subgoal by (rule impI, rule assms(5)) (use inv assms(3) in \<open>auto simp: clock_inv_def intro: counted_mono\<close>)
    subgoal by (rule impI, rule assms(6)) (use inv assms(3) ins nz in \<open>auto simp: clock_inv_def intro: counted_mono\<close>)
    done
qed

lemma wp_look:
  assumes "preserves quietly m" "clock_inv init n w" "\<And>r v. clock_inv init n v \<Longrightarrow> Q r v"
  shows "wp m Q w"
  by (rule wp_same [OF assms(1), where init = init], rule assms(3)) (use assms(2) in \<open>simp add: clock_inv_def\<close>)

lemma wp_answer:
  assumes "clock_inv init n w" "preserves quietly m"
  shows "wp (do { reply \<leftarrow> m; Kernel_Unlock E; ret (status, reply) }) (\<lambda>_. clock_inv init n) w"
  by (intro wp_bindI wp_returnI wp_kernel_doI wp_look [OF assms(2,1)] clock_inv_call)

lemma inv_DmaClockIo:
  assumes "clock_inv init n w" "Suc n < 4294967296"
  shows "wp (DmaClockIo (SG init E) f k) (\<lambda>_. clock_inv init (Suc n)) w"
proof -
  have mid: "wp (if \<not> ck_Online c then ret STATUS_DEVICE_NOT_READY
            else if cf_Dma (ck_File c f) then ret status
            else do {
              s \<leftarrow> on_dma (Clock_Take (SG init E) RP1_CLK_DMA (dma_usable (SG init E)));
              if NT_SUCCESS s then do {
                modify (\<lambda>c. c\<lparr>ck_File := (ck_File c)(f := (ck_File c f)\<lparr>cf_Dma := True\<rparr>)\<rparr>);
                ret status
              }
              else ret s
            }) (\<lambda>_. clock_inv init (Suc n)) v" if "clock_inv init n v" "c = st v" for c v and status :: NTSTATUS
    unfolding set_dma_def [symmetric]
    by (intro wp_ifI wp_returnI wp_bindI dma_take [OF that(1) assms(2)] wp_modifyI)
      (use that in \<open>auto simp: dma_files_def intro: clock_inv_mono\<close>)
  show ?thesis
    unfolding DmaClockIo_def
    apply (rule wp_ifI, rule wp_returnI, rule clock_inv_mono [OF assms(1)])
    apply (rule wp_bindI, rule wp_kernel_any, rule wp_ifI, rule wp_returnI, rule clock_inv_call, rule clock_inv_mono [OF assms(1)])
    apply (rule wp_bindI, rule wp_kernel_doI, rule wp_bindI, rule wp_getsI, unfold id_apply)
    apply (rule wp_bindI, rule wp_mono, rule mid, intro clock_inv_call assms(1), rule refl)
    apply (rule wp_answer, assumption)
    by (intro quietly_intros quietly_rates quietly_Read)
qed

lemma inv_ClockIo:
  assumes "clock_inv init n w" "Suc n < 4294967296"
  shows "wp (ClockIo (SG init E) code f k) (\<lambda>_. clock_inv init (Suc n)) w"
proof -
  have mid: "wp (if code = CLOCK_UART \<and> \<not> cf_Uart (ck_File c f) then do {
                  s \<leftarrow> on_uart (Clock_Take (SG init E) RP1_CLK_UART (uart_usable (SG init E)));
                  if NT_SUCCESS s then do {
                    modify (\<lambda>c. c\<lparr>ck_File := (ck_File c)(f := (ck_File c f)\<lparr>cf_Uart := True\<rparr>)\<rparr>);
                    ret status
                  }
                  else ret s
                } else ret status) (\<lambda>_. clock_inv init (Suc n)) v" if "clock_inv init n v" "c = st v" "ck_Online c" for c v and status :: NTSTATUS
    unfolding set_uart_def [symmetric]
    by (intro wp_ifI wp_returnI wp_bindI uart_take [OF that(1) assms(2)] wp_modifyI)
      (use that in \<open>auto simp: uart_files_def intro: clock_inv_mono\<close>)
  show ?thesis
    unfolding ClockIo_def
    apply (rule wp_ifI, rule inv_DmaClockIo [OF assms])
    apply (rule wp_ifI, rule wp_returnI, rule clock_inv_mono [OF assms(1)])
    apply (rule wp_bindI, rule wp_kernel_any, rule wp_ifI, rule wp_returnI, rule clock_inv_call, rule clock_inv_mono [OF assms(1)])
    apply (rule wp_bindI, rule wp_kernel_doI, rule wp_bindI, rule wp_getsI, unfold id_apply)
    apply (rule wp_bindI, rule wp_mono [where Q = "\<lambda>_. clock_inv init (Suc n)"], rule wp_ifI, rule wp_returnI)
    apply (intro clock_inv_call, rule clock_inv_mono [OF assms(1)])
    apply (rule wp_bindI, rule wp_mono, rule mid, intro clock_inv_call assms(1), rule refl, simp)
    subgoal by (rule wp_look [where n = "Suc n" and init = init], intro quietly_intros quietly_rates quietly_Read)
    by (intro wp_intros) (auto intro: clock_inv_call)
qed

text \<open>The callbacks of the framework and the requests, in any order.\<close>

datatype clock_op = CkPrepare "cm_resource option list" | CkRelease | CkStart | CkStop | CkQueryRemove | CkQueryStop
  | CkCleanup ptr | CkIo clock_ioctl ptr bool

fun clock_run :: "env \<Rightarrow> clock_op \<Rightarrow> (CLOCK_CONTEXT, NTSTATUS) prog" where
  "clock_run E (CkPrepare rs) = ClockPrepare E rs"
| "clock_run E CkRelease = ClockRelease E"
| "clock_run E CkStart = ClockStart E"
| "clock_run E CkStop = ClockStop E"
| "clock_run E CkQueryRemove = ClockQueryRemove E"
| "clock_run E CkQueryStop = ClockQueryStop E"
| "clock_run E (CkCleanup f) = do { r \<leftarrow> Rp1ClockCleanup E f; ret STATUS_SUCCESS }"
| "clock_run E (CkIo code f k) = do { (status, reply) \<leftarrow> ClockIo E code f k; ret status }"

definition clock_zero :: CLOCK_CONTEXT where
  "clock_zero = (let l = \<lparr>cl_Users = 0, cl_SavedControl = 0, cl_SavedDivider = 0, cl_Changed = False\<rparr>
     in \<lparr>ck_Registers = 0, ck_Online = False, ck_Uart = l, ck_Dma = l, ck_File = (\<lambda>_. \<lparr>cf_Uart = False, cf_Dma = False\<rparr>)\<rparr>)"

abbreviation clock_session :: "env \<Rightarrow> clock_op list \<Rightarrow> NTSTATUS list \<times> CLOCK_CONTEXT world" where
  "clock_session E ops \<equiv> run_state (mapM ops (clock_run E)) \<lparr>st = clock_zero, trace = []\<rparr>"

lemma inv_clock_run:
  assumes "clock_inv init n w" "Suc n < 4294967296"
  shows "wp (clock_run (SG init E) op) (\<lambda>_. clock_inv init (Suc n)) w"
proof (cases op)
  case (CkCleanup f)
  then show ?thesis using inv_ClockCleanup [OF assms(1), of E f] assms(2) by (auto intro!: wp_intros elim!: wp_mono dest: clock_inv_mono)
next
  case (CkIo code f k)
  then show ?thesis using inv_ClockIo [OF assms, of E code f k] by (auto intro!: wp_intros elim!: wp_mono)
qed (use assms in \<open>auto simp: ClockQueryStop_def intro!: wp_mono [OF inv_Start] wp_mono [OF inv_Stop] wp_mono [OF inv_simple(1)]
    wp_mono [OF inv_simple(2)] wp_mono [OF inv_simple(3)] intro: clock_inv_mono\<close>)

lemma inv_clock_runs:
  "clock_inv init n w \<Longrightarrow> n + length ops < 4294967296 \<Longrightarrow> wp (mapM ops (clock_run (SG init E))) (\<lambda>_. clock_inv init (n + length ops)) w"
proof (induction ops arbitrary: n w)
  case (Cons op ops)
  have len: "Suc n < 4294967296" "Suc n + length ops < 4294967296" using Cons.prems(2) by simp_all
  show ?case
    unfolding mapM.simps
    by (rule wp_bindI, rule wp_mono [OF inv_clock_run [OF Cons.prems(1) len(1)]], rule wp_bindI,
        rule wp_mono [OF Cons.IH [OF _ len(2)]], assumption, rule wp_returnI) simp
qed (simp add: wp_simps)

lemma clock_session_inv:
  assumes "length ops < 4294967296"
  shows "wp (mapM ops (clock_run (SG init E))) (\<lambda>_. clock_inv init (length ops)) \<lparr>st = clock_zero, trace = []\<rparr>"
proof -
  have "clock_inv init 0 \<lparr>st = clock_zero, trace = []\<rparr>"
    by (simp add: clock_inv_def clock_zero_def Let_def lease_ok_def counted_def uart_files_def dma_files_def)
  from inv_clock_runs [OF this, of ops E] assms show ?thesis by simp
qed


definition gate_promise :: "(u32 \<Rightarrow> u32 \<Rightarrow> u32) \<Rightarrow> u32 \<Rightarrow> bool \<Rightarrow> io_event list \<Rightarrow> bool" where
  "gate_promise init base active t \<longleftrightarrow>
     (if active then regs init t 0 base AND RP1_CLK_ENABLE \<noteq> 0
      else regs init t 0 base = init 0 base \<and> regs init t 0 (base + 4) = init 0 (base + 4))"

text \<open>C23. On any hardware whose gate registers keep what is written to them, and after any sequence of framework
  callbacks and requests of any files: while the device is on and a file holds a lease of a clock, the clock's
  gate is enabled; otherwise both registers of the gate are as the driver found them. The number of users is
  the number of files that hold a lease.\<close>

theorem clock_gate_promise:
  assumes "length ops < 4294967296"
  shows "case clock_session (stored_gates init E) ops of (rs, w) \<Rightarrow>
     gate_promise init RP1_CLK_UART (ck_Online (st w) \<and> uart_files (st w) \<noteq> {}) (trace w) \<and>
     gate_promise init RP1_CLK_DMA (ck_Online (st w) \<and> dma_files (st w) \<noteq> {}) (trace w) \<and>
     unat (cl_Users (ck_Uart (st w))) = card (uart_files (st w)) \<and> unat (cl_Users (ck_Dma (st w))) = card (dma_files (st w))"
proof -
  obtain rs w where run: "clock_session (stored_gates init E) ops = (rs, w)" by (cases "clock_session (stored_gates init E) ops")
  have inv: "clock_inv init (length ops) w" using clock_session_inv [OF assms, of init E] run by (simp add: wp_def)
  have users: "unat k = card A \<and> (k = 0 \<longleftrightarrow> A = {})" if "counted (length ops) A k" for A k
    using that assms by (auto simp: counted_def unat_of_nat_small dest: counted_nonzero [OF that])
  have promise: "gate_promise init base (b \<and> A \<noteq> {}) (trace w)"
    if "lease_ok init base b l (trace w)" "counted (length ops) A (cl_Users l)" for base b l A
    using that(1) users [OF that(2)] by (cases "cl_Changed l") (auto simp: lease_ok_def gate_promise_def)
  from inv have "gate_promise init RP1_CLK_UART (ck_Online (st w) \<and> uart_files (st w) \<noteq> {}) (trace w)"
    "gate_promise init RP1_CLK_DMA (ck_Online (st w) \<and> dma_files (st w) \<noteq> {}) (trace w)"
    unfolding clock_inv_def by (blast intro: promise)+
  then show ?thesis
    using inv users unfolding run clock_inv_def by simp
qed

text \<open>A file opens the UART clock, a second one too, and the first one closes it.\<close>

theorem clock_gate_promise_witness:
  "case clock_session (stored_gates (\<lambda>_ _. 0) (regfile (\<lambda>_ _. 0) (\<lambda>_ _. 0)))
       [CkStart, CkIo CLOCK_UART 7 True, CkIo CLOCK_UART 8 True, CkCleanup 7] of (rs, w) \<Rightarrow>
     gate_promise (\<lambda>_ _. 0) RP1_CLK_UART (ck_Online (st w) \<and> uart_files (st w) \<noteq> {}) (trace w) \<and>
     gate_promise (\<lambda>_ _. 0) RP1_CLK_DMA (ck_Online (st w) \<and> dma_files (st w) \<noteq> {}) (trace w) \<and>
     unat (cl_Users (ck_Uart (st w))) = card (uart_files (st w)) \<and> unat (cl_Users (ck_Dma (st w))) = card (dma_files (st w))"
  using clock_gate_promise [of "[CkStart, CkIo CLOCK_UART 7 True, CkIo CLOCK_UART 8 True, CkCleanup 7]"
      "\<lambda>_ _. 0" "regfile (\<lambda>_ _. 0) (\<lambda>_ _. 0)"] by simp

end
