(* ===== verification/Rp1_Fan.thy ===== *)
theory Rp1_Fan
  imports Kernel
begin

unbundle bit_operations_syntax

text \<open>
  The cooling fan of the RP1 chip without its driver: the registers and the lease state machine
  (\<open>rp1-fan/hardware.c\<close>), the cooling policy of the same file, and the parser of the kernel's temperature
  readings (\<open>rp1-fan/temperature.c\<close>) with the proof that it stays inside its buffer. The layout of the kernel's structures is a parameter.
\<close>

section \<open>The fan's registers\<close>

abbreviation FAN_MMIO_SIZE :: u32 where "FAN_MMIO_SIZE \<equiv> 0x100"
abbreviation FAN_GLOBAL :: u32 where "FAN_GLOBAL \<equiv> 0"
abbreviation FAN_RPM :: u32 where "FAN_RPM \<equiv> 0x3c"
abbreviation FAN_CONTROL :: u32 where "FAN_CONTROL \<equiv> 0x44"
abbreviation FAN_RANGE :: u32 where "FAN_RANGE \<equiv> 0x48"
abbreviation FAN_PHASE :: u32 where "FAN_PHASE \<equiv> 0x4c"
abbreviation FAN_DUTY :: u32 where "FAN_DUTY \<equiv> 0x50"
abbreviation FAN_TICKS :: u32 where "FAN_TICKS \<equiv> 2078"
abbreviation FAN_PERIOD_NS :: u32 where "FAN_PERIOD_NS \<equiv> 41560"
abbreviation FAN_MAX_LEASE_MS :: u32 where "FAN_MAX_LEASE_MS \<equiv> 5000"
abbreviation FAN_TEMP_MAX_AGE_MS :: u64 where "FAN_TEMP_MAX_AGE_MS \<equiv> 2500"
abbreviation FAN_SPINUP_MS :: u64 where "FAN_SPINUP_MS \<equiv> 2000"
abbreviation FAN_POLICY_SPINUP :: u32 where "FAN_POLICY_SPINUP \<equiv> 1"
abbreviation FAN_POLICY_NO_TEMPERATURE :: u32 where "FAN_POLICY_NO_TEMPERATURE \<equiv> 2"
abbreviation FAN_POLICY_STALE_TEMPERATURE :: u32 where "FAN_POLICY_STALE_TEMPERATURE \<equiv> 4"
abbreviation FAN_POLICY_STALLED :: u32 where "FAN_POLICY_STALLED \<equiv> 8"
abbreviation FAN_POLICY_HOT :: u32 where "FAN_POLICY_HOT \<equiv> 16"

datatype FAN_RESULT = FAN_OK | FAN_INVALID | FAN_NOT_READY | FAN_IO_ERROR

record FAN_STATE =
  fs_Deadline :: u64
  fs_Percent :: u32
  fs_Expirations :: u32
  fs_Failed :: u32

text \<open>A temperature is in thousandths of a degree; the least 32-bit integer says that there is none.\<close>

record FAN_POLICY =
  fp_FullUntil :: u64
  fp_TemperatureTime :: u64
  fp_NextRpm :: u64
  fp_Temperature :: int
  fp_Stalls :: u32
  fp_Previous :: u32
  fp_Flags :: u32

abbreviation INT32_MIN :: int where "INT32_MIN \<equiv> -2147483648"
abbreviation UINT64_MAX :: u64 where "UINT64_MAX \<equiv> 0xffffffffffffffff"

definition fan_resource_valid :: "u64 \<Rightarrow> u32 \<Rightarrow> bool" where
  "fan_resource_valid address len \<longleftrightarrow> len = FAN_MMIO_SIZE \<and> address \<ge> 0x1f00000000 \<and> address < 0x2000000000 \<and>
     address AND 0x3fffff = 0x9c000"

definition Fan_Read :: "env \<Rightarrow> u32 \<Rightarrow> ('s, u32) prog" where
  "Fan_Read E off = io_read E 0 off"

definition Fan_Write :: "u32 \<Rightarrow> u32 \<Rightarrow> ('s, unit) prog" where
  "Fan_Write off v = io_write 0 off v"

definition fan_ready :: "env \<Rightarrow> ('s, FAN_RESULT) prog" where
  "fan_ready E = do {
     global \<leftarrow> Fan_Read E FAN_GLOBAL;
     if global AND NOT 0x80000000 \<noteq> 8 then ret FAN_NOT_READY
     else do {
       control \<leftarrow> Fan_Read E FAN_CONTROL;
       if control \<noteq> 0x109 then ret FAN_NOT_READY
       else do {
         range \<leftarrow> Fan_Read E FAN_RANGE;
         if range \<noteq> FAN_TICKS then ret FAN_NOT_READY
         else do {
           phase \<leftarrow> Fan_Read E FAN_PHASE;
           if phase \<noteq> 0 then ret FAN_NOT_READY
           else do {
             duty \<leftarrow> Fan_Read E FAN_DUTY;
             ret (if duty > FAN_TICKS then FAN_NOT_READY else FAN_OK)
           }
         }
       }
     }
   }"

definition fan_ticks :: "u32 \<Rightarrow> u32" where
  "fan_ticks percent = (FAN_TICKS * percent + 50) div 100"

definition fan_apply :: "env \<Rightarrow> u32 \<Rightarrow> ('s, FAN_RESULT) prog" where
  "fan_apply E percent = do {
     result \<leftarrow> fan_ready E;
     if result \<noteq> FAN_OK then ret result
     else do {
       Fan_Write FAN_DUTY (fan_ticks percent);
       duty \<leftarrow> Fan_Read E FAN_DUTY;
       ret (if duty = fan_ticks percent then FAN_OK else FAN_IO_ERROR)
     }
   }"

definition fan_full :: "env \<Rightarrow> (FAN_STATE, FAN_RESULT) prog" where
  "fan_full E = do {
     result \<leftarrow> fan_apply E 100;
     modify (\<lambda>s. s\<lparr>fs_Deadline := 0\<rparr>);
     (if result = FAN_OK then modify (\<lambda>s. s\<lparr>fs_Percent := 100\<rparr>) else modify (\<lambda>s. s\<lparr>fs_Failed := 1\<rparr>));
     ret result
   }"

definition fan_adjust :: "env \<Rightarrow> u32 \<Rightarrow> (FAN_STATE, FAN_RESULT) prog" where
  "fan_adjust E percent = do {
     s \<leftarrow> gets id;
     if percent > 100 then ret FAN_INVALID
     else if fs_Failed s \<noteq> 0 then ret FAN_IO_ERROR
     else do {
       result \<leftarrow> fan_apply E percent;
       if result \<noteq> FAN_OK then do {
         modify (\<lambda>s. s\<lparr>fs_Failed := 1\<rparr>);
         r \<leftarrow> fan_full E;
         ret result
       }
       else do { modify (\<lambda>s. s\<lparr>fs_Percent := percent\<rparr>); ret FAN_OK }
     }
   }"

definition fan_set :: "env \<Rightarrow> u32 \<Rightarrow> u32 \<Rightarrow> u64 \<Rightarrow> (FAN_STATE, FAN_RESULT) prog" where
  "fan_set E percent lease_ms now =
     (if percent > 100 \<or> lease_ms < 500 \<or> lease_ms > FAN_MAX_LEASE_MS \<or> now > UINT64_MAX - ucast lease_ms then ret FAN_INVALID
      else do {
        result \<leftarrow> fan_adjust E percent;
        whenM (result = FAN_OK) (modify (\<lambda>s. s\<lparr>fs_Deadline := now + ucast lease_ms\<rparr>));
        ret result
      })"

definition fan_tick :: "env \<Rightarrow> u64 \<Rightarrow> (FAN_STATE, FAN_RESULT) prog" where
  "fan_tick E now = do {
     s \<leftarrow> gets id;
     if fs_Deadline s = 0 \<or> now < fs_Deadline s then ret FAN_OK
     else do { modify (\<lambda>s. s\<lparr>fs_Expirations := fs_Expirations s + 1\<rparr>); fan_full E }
   }"

section \<open>The cooling policy\<close>

definition fan_curve :: "int \<Rightarrow> u32 \<Rightarrow> u32" where
  "fan_curve temperature previous =
     (if temperature < -40000 \<or> temperature > 125000 then 100
      else if temperature \<ge> 75000 \<or> (previous = 100 \<and> temperature \<ge> 72000) then 100
      else if temperature \<ge> 65000 \<or> (previous \<ge> 70 \<and> temperature \<ge> 62000) then 70
      else if temperature \<ge> 55000 \<or> (previous \<ge> 50 \<and> temperature \<ge> 52000) then 50
      else 35)"

definition fan_policy_full :: "u64 \<Rightarrow> FAN_POLICY \<Rightarrow> FAN_POLICY" where
  "fan_policy_full now p = p\<lparr>fp_FullUntil := (if now > UINT64_MAX - FAN_SPINUP_MS then UINT64_MAX else now + FAN_SPINUP_MS),
     fp_Previous := 100\<rparr>"

definition fan_policy_start :: "u64 \<Rightarrow> FAN_POLICY \<Rightarrow> FAN_POLICY" where
  "fan_policy_start now p = fan_policy_full now
     (p\<lparr>fp_Temperature := INT32_MIN, fp_TemperatureTime := 0, fp_NextRpm := 0, fp_Stalls := 0,
        fp_Flags := FAN_POLICY_SPINUP OR FAN_POLICY_NO_TEMPERATURE\<rparr>)"

definition fan_policy_temperature :: "int \<Rightarrow> u64 \<Rightarrow> FAN_POLICY \<Rightarrow> FAN_POLICY" where
  "fan_policy_temperature temperature now p = p\<lparr>fp_Temperature := temperature, fp_TemperatureTime := now\<rparr>"

definition policy_rpm :: "u64 \<Rightarrow> u32 \<Rightarrow> FAN_POLICY \<Rightarrow> FAN_POLICY" where
  "policy_rpm now rpm p =
     (if now \<ge> fp_NextRpm p then
        p\<lparr>fp_Stalls := (if rpm = 0 \<or> rpm > 30000 then if fp_Stalls p < 3 then fp_Stalls p + 1 else fp_Stalls p else 0),
          fp_NextRpm := (if now > UINT64_MAX - 1000 then UINT64_MAX else now + 1000)\<rparr>
      else p)"

definition policy_flags :: "u64 \<Rightarrow> FAN_POLICY \<Rightarrow> u32" where
  "policy_flags now p =
     (if now < fp_FullUntil p then FAN_POLICY_SPINUP else 0) OR
     (if fp_Temperature p < -40000 \<or> fp_Temperature p > 125000 then FAN_POLICY_NO_TEMPERATURE else 0) OR
     (if now < fp_TemperatureTime p \<or> now - fp_TemperatureTime p > FAN_TEMP_MAX_AGE_MS then FAN_POLICY_STALE_TEMPERATURE else 0) OR
     (if fp_Stalls p \<ge> 3 then FAN_POLICY_STALLED else 0) OR
     (if fp_Temperature p \<ge> 75000 then FAN_POLICY_HOT else 0)"

definition fan_policy_target :: "u64 \<Rightarrow> u32 \<Rightarrow> bool \<Rightarrow> u32 \<Rightarrow> FAN_POLICY \<Rightarrow> u32 \<times> FAN_POLICY" where
  "fan_policy_target now rpm manual requested p =
     (let p = policy_rpm now rpm (p\<lparr>fp_Flags := 0\<rparr>);
          p = p\<lparr>fp_Flags := policy_flags now p\<rparr>;
          target = (if manual then requested else fan_curve (fp_Temperature p) (fp_Previous p));
          target = (if fp_Flags p \<noteq> 0 \<or> target > 100 then 100 else target)
      in (target, if manual then p else p\<lparr>fp_Previous := target\<rparr>))"

section \<open>Reading the temperature\<close>

text \<open>The layout of the kernel's structures, which its headers and not the driver define: sizes and offsets of the
  fields that the parser reads, and the identifier of the thermal class.\<close>

type_synonym bytes = "u8 list"

record wmi_layout =
  wl_Node :: nat            \<comment> \<open>size of the header of a block\<close>
  wl_BufferSize :: nat
  wl_Linkage :: nat
  wl_Guid :: nat
  wl_Flags :: nat
  wl_DataBlockOffset :: nat
  wl_InstanceCount :: nat
  wl_FixedInstanceSize :: nat
  wl_Table :: nat           \<comment> \<open>where the table of instances begins\<close>
  wl_Data :: nat            \<comment> \<open>size of one reading\<close>
  wl_CurrentTemperature :: nat
  wl_Class :: bytes

abbreviation WNODE_FLAG_ALL_DATA :: u32 where "WNODE_FLAG_ALL_DATA \<equiv> 1"
abbreviation WNODE_FLAG_FIXED_INSTANCE_SIZE :: u32 where "WNODE_FLAG_FIXED_INSTANCE_SIZE \<equiv> 0x10"
abbreviation WNODE_FLAG_TOO_SMALL :: u32 where "WNODE_FLAG_TOO_SMALL \<equiv> 0x20"

text \<open>Checked reads of the buffer; there is no result outside of it.\<close>

definition wmi_u32 :: "bytes \<Rightarrow> nat \<Rightarrow> u32 option" where
  "wmi_u32 b k = (if k + 4 \<le> length b then Some (le32 (b ! k) (b ! (k + 1)) (b ! (k + 2)) (b ! (k + 3))) else None)"

definition wmi_copy :: "bytes \<Rightarrow> nat \<Rightarrow> nat \<Rightarrow> bytes option" where
  "wmi_copy b k n = (if k + n \<le> length b then Some (take n (drop k b)) else None)"

record WNODE =
  wn_BufferSize :: nat
  wn_Linkage :: nat
  wn_Guid :: bytes
  wn_Flags :: u32
  wn_DataBlockOffset :: nat
  wn_InstanceCount :: nat
  wn_FixedInstanceSize :: nat

definition wmi_node :: "wmi_layout \<Rightarrow> bytes \<Rightarrow> nat \<Rightarrow> WNODE option" where
  "wmi_node L b at = do {
     node \<leftarrow> wmi_copy b at (wl_Node L);
     size' \<leftarrow> wmi_u32 node (wl_BufferSize L);
     linkage \<leftarrow> wmi_u32 node (wl_Linkage L);
     guid \<leftarrow> wmi_copy node (wl_Guid L) 16;
     flags \<leftarrow> wmi_u32 node (wl_Flags L);
     data \<leftarrow> wmi_u32 node (wl_DataBlockOffset L);
     n \<leftarrow> wmi_u32 node (wl_InstanceCount L);
     fixed \<leftarrow> wmi_u32 node (wl_FixedInstanceSize L);
     Some \<lparr>wn_BufferSize = unat size', wn_Linkage = unat linkage, wn_Guid = guid, wn_Flags = flags, wn_DataBlockOffset = unat data,
       wn_InstanceCount = unat n, wn_FixedInstanceSize = unat fixed\<rparr>
   }"

abbreviation wn_fixed :: "WNODE \<Rightarrow> bool" where
  "wn_fixed node \<equiv> wn_Flags node AND WNODE_FLAG_FIXED_INSTANCE_SIZE \<noteq> 0"

definition wmi_stride :: "WNODE \<Rightarrow> nat" where
  "wmi_stride node = (wn_FixedInstanceSize node + 7) div 8 * 8"

text \<open>The end of the header and its table, \<open>None\<close> when the block is malformed.\<close>

definition wmi_header :: "wmi_layout \<Rightarrow> WNODE \<Rightarrow> nat \<Rightarrow> nat option" where
  "wmi_header L node rest =
     (let size = wn_BufferSize node in
      if size < wl_Node L \<or> size > rest \<or> wn_Flags node AND WNODE_FLAG_ALL_DATA = 0 \<or>
         wn_Flags node AND WNODE_FLAG_TOO_SMALL \<noteq> 0 \<or> wn_Guid node \<noteq> wl_Class L then None
      else if wn_fixed node then
        if wn_InstanceCount node \<noteq> 0 \<and> (wn_FixedInstanceSize node < wl_Data L \<or> wn_DataBlockOffset node < wl_Node L \<or>
           wn_DataBlockOffset node > size \<or> wn_InstanceCount node - 1 > (size - wn_DataBlockOffset node) div wmi_stride node)
        then None else Some (wl_Node L)
      else if wn_InstanceCount node > (size - wl_Table L) div 8 then None
      else Some (wl_Table L + wn_InstanceCount node * 8))"

text \<open>Where an instance lies and how long it is.\<close>

definition wmi_instance :: "wmi_layout \<Rightarrow> bytes \<Rightarrow> nat \<Rightarrow> WNODE \<Rightarrow> nat \<Rightarrow> (nat \<times> nat) option" where
  "wmi_instance L b at node i =
     (if wn_fixed node then Some (wn_DataBlockOffset node + i * wmi_stride node, wn_FixedInstanceSize node)
      else do {
        offset \<leftarrow> wmi_u32 b (at + wl_Table L + i * 8);
        len \<leftarrow> wmi_u32 b (at + wl_Table L + i * 8 + 4);
        Some (unat offset, unat len)
      })"

definition hotter :: "u32 \<Rightarrow> int \<Rightarrow> int" where
  "hotter raw hottest =
     (if raw < 2331 \<or> raw > 3982 then hottest
      else
        let celsius = uint raw * 100 - 273150;
            celsius = (if celsius < -40000 then -40000 else celsius);
            celsius = (if celsius > 125000 then 125000 else celsius)
        in if celsius > hottest then celsius else hottest)"

text \<open>In the results of the loops the inner \<open>None\<close> stands for the parser's return of zero.\<close>

fun wmi_instances :: "wmi_layout \<Rightarrow> bytes \<Rightarrow> nat \<Rightarrow> WNODE \<Rightarrow> nat \<Rightarrow> nat list \<Rightarrow> int \<Rightarrow> int option option" where
  "wmi_instances L b at node tableEnd [] hottest = Some (Some hottest)"
| "wmi_instances L b at node tableEnd (i # is) hottest = do {
     (offset, len) \<leftarrow> wmi_instance L b at node i;
     if offset < tableEnd \<or> offset > wn_BufferSize node \<or> offset mod 8 \<noteq> 0 \<or> len < wl_Data L \<or>
        len > wn_BufferSize node - offset then Some None
     else do {
       data \<leftarrow> wmi_copy b (at + offset) (wl_Data L);
       raw \<leftarrow> wmi_u32 data (wl_CurrentTemperature L);
       wmi_instances L b at node tableEnd is (hotter raw hottest)
     }
   }"

function wmi_nodes :: "wmi_layout \<Rightarrow> bytes \<Rightarrow> nat \<Rightarrow> int \<Rightarrow> int option option" where
  "wmi_nodes L b at hottest =
     (if length b - at < wl_Node L then Some None
      else do {
        node \<leftarrow> wmi_node L b at;
        case wmi_header L node (length b - at) of
          None \<Rightarrow> Some None
        | Some tableEnd \<Rightarrow> do {
            r \<leftarrow> wmi_instances L b at node tableEnd [0..<wn_InstanceCount node] hottest;
            case r of
              None \<Rightarrow> Some None
            | Some hottest \<Rightarrow>
                if wn_Linkage node = 0 then Some (Some hottest)
                else if wn_Linkage node < wn_BufferSize node \<or> wn_Linkage node > length b - at then Some None
                else wmi_nodes L b (at + wn_Linkage node) hottest
          }
      })"
  by pat_completeness auto
termination
  by (relation "measure (\<lambda>(L, b, at, h). length b - at)") auto

declare wmi_nodes.simps [simp del]

text \<open>The result and the temperature it leaves.\<close>

definition fan_temperature_parse :: "wmi_layout \<Rightarrow> bytes \<Rightarrow> (bool \<times> int) option" where
  "fan_temperature_parse L b = do {
     r \<leftarrow> wmi_nodes L b 0 INT32_MIN;
     Some (case r of None \<Rightarrow> (False, INT32_MIN) | Some hottest \<Rightarrow> (hottest \<noteq> INT32_MIN, hottest))
   }"

section \<open>The parser stays inside its buffer\<close>

text \<open>What the parser relies on of the kernel's structures: every field lies inside of its structure.\<close>

definition layout_ok :: "wmi_layout \<Rightarrow> bool" where
  "layout_ok L \<longleftrightarrow> wl_BufferSize L + 4 \<le> wl_Node L \<and> wl_Linkage L + 4 \<le> wl_Node L \<and> wl_Guid L + 16 \<le> wl_Node L \<and>
     wl_Flags L + 4 \<le> wl_Node L \<and> wl_DataBlockOffset L + 4 \<le> wl_Node L \<and> wl_InstanceCount L + 4 \<le> wl_Node L \<and>
     wl_FixedInstanceSize L + 4 \<le> wl_Node L \<and> wl_Table L \<le> wl_Node L \<and> wl_CurrentTemperature L + 4 \<le> wl_Data L"

lemma wmi_u32_inside: "k + 4 \<le> length b \<Longrightarrow> \<exists>v. wmi_u32 b k = Some v"
  by (simp add: wmi_u32_def)

lemma wmi_copy_inside: "k + n \<le> length b \<Longrightarrow> \<exists>v. wmi_copy b k n = Some v \<and> length v = n"
  by (simp add: wmi_copy_def)

lemma wmi_node_inside:
  assumes "layout_ok L" "at + wl_Node L \<le> length b"
  shows "\<exists>node. wmi_node L b at = Some node"
proof -
  obtain h where h: "wmi_copy b at (wl_Node L) = Some h" "length h = wl_Node L" using wmi_copy_inside [OF assms(2)] by blast
  have field: "\<exists>v. wmi_u32 h k = Some v" if "k + 4 \<le> wl_Node L" for k using wmi_u32_inside [of k h] that h(2) by simp
  have "\<exists>v. wmi_copy h (wl_Guid L) 16 = Some v" using wmi_copy_inside [of "wl_Guid L" 16 h] assms(1) h(2) by (auto simp: layout_ok_def)
  with field [of "wl_BufferSize L"] field [of "wl_Linkage L"] field [of "wl_Flags L"] field [of "wl_DataBlockOffset L"]
    field [of "wl_InstanceCount L"] field [of "wl_FixedInstanceSize L"] assms(1) h(1)
  show ?thesis by (auto simp: wmi_node_def layout_ok_def)
qed

lemma wmi_header_size: "wmi_header L node rest = Some e \<Longrightarrow> wl_Node L \<le> wn_BufferSize node \<and> wn_BufferSize node \<le> rest"
  by (simp add: wmi_header_def Let_def split: if_splits)

lemma wmi_instance_inside:
  assumes "layout_ok L" "wmi_header L node (length b - at) = Some e" "at \<le> length b" "i < wn_InstanceCount node"
  shows "\<exists>r. wmi_instance L b at node i = Some r"
proof (cases "wn_fixed node")
  case False
  with assms(2) have "wn_InstanceCount node \<le> (wn_BufferSize node - wl_Table L) div 8"
    by (auto simp: wmi_header_def Let_def split: if_splits)
  then have "wn_InstanceCount node * 8 \<le> wn_BufferSize node - wl_Table L" by (simp add: less_eq_div_iff_mult_less_eq)
  moreover have "wl_Table L \<le> wn_BufferSize node" "wn_BufferSize node \<le> length b - at"
    using wmi_header_size [OF assms(2)] assms(1) by (auto simp: layout_ok_def)
  ultimately have "at + wl_Table L + i * 8 + 8 \<le> length b" using assms(3,4) by linarith
  then show ?thesis
    using False wmi_u32_inside [of "at + wl_Table L + i * 8" b] wmi_u32_inside [of "at + wl_Table L + i * 8 + 4" b]
    by (auto simp: wmi_instance_def)
qed (simp add: wmi_instance_def)

definition sensor_range :: "int \<Rightarrow> bool" where
  "sensor_range t \<longleftrightarrow> t = INT32_MIN \<or> -40000 \<le> t \<and> t \<le> 125000"

lemma hotter_range: "sensor_range t \<Longrightarrow> sensor_range (hotter raw t)"
  by (auto simp: sensor_range_def hotter_def Let_def)

text \<open>A loop of the parser ends with a result, which is a temperature in range if there is one.\<close>

definition parsed_ok :: "int option option \<Rightarrow> bool" where
  "parsed_ok r \<longleftrightarrow> (\<exists>x. r = Some x \<and> (\<forall>t. x = Some t \<longrightarrow> sensor_range t))"

lemma wmi_instances_inside:
  assumes "layout_ok L" "wmi_header L node (length b - at) = Some e" "at \<le> length b"
  shows "set is \<subseteq> {..<wn_InstanceCount node} \<Longrightarrow> sensor_range hottest \<Longrightarrow> parsed_ok (wmi_instances L b at node e is hottest)"
proof (induction "is" arbitrary: hottest)
  case (Cons i "is")
  obtain offset len where i: "wmi_instance L b at node i = Some (offset, len)"
    using wmi_instance_inside [OF assms(1-3)] Cons.prems(1) by fastforce
  show ?case
  proof (cases "offset < e \<or> offset > wn_BufferSize node \<or> offset mod 8 \<noteq> 0 \<or> len < wl_Data L \<or> len > wn_BufferSize node - offset")
    case False
    then have "at + offset + wl_Data L \<le> length b" using wmi_header_size [OF assms(2)] assms(3) by linarith
    then obtain data where data: "wmi_copy b (at + offset) (wl_Data L) = Some data" "length data = wl_Data L"
      using wmi_copy_inside by blast
    moreover obtain raw where "wmi_u32 data (wl_CurrentTemperature L) = Some raw"
      using wmi_u32_inside [of "wl_CurrentTemperature L" data] data(2) assms(1) by (auto simp: layout_ok_def)
    ultimately show ?thesis using Cons i False by (auto simp: hotter_range)
  qed (use i in \<open>auto simp: parsed_ok_def\<close>)
qed (simp add: parsed_ok_def)

lemma wmi_nodes_inside:
  assumes "layout_ok L"
  shows "at \<le> length b \<Longrightarrow> sensor_range hottest \<Longrightarrow> parsed_ok (wmi_nodes L b at hottest)"
  using assms
proof (induction L b at hottest rule: wmi_nodes.induct)
  case (1 L b at hottest)
  show ?case
  proof (cases "length b - at < wl_Node L")
    case False
    then have "at + wl_Node L \<le> length b" using 1(2) by linarith
    then obtain node where node: "wmi_node L b at = Some node" using wmi_node_inside [OF 1(4)] by blast
    show ?thesis
    proof (cases "wmi_header L node (length b - at)")
      case (Some e)
      have "parsed_ok (wmi_instances L b at node e [0..<wn_InstanceCount node] hottest)"
        by (rule wmi_instances_inside [OF 1(4) Some 1(2)]) (auto simp: 1(3))
      then obtain x where x: "wmi_instances L b at node e [0..<wn_InstanceCount node] hottest = Some x" "\<forall>t. x = Some t \<longrightarrow> sensor_range t"
        by (auto simp: parsed_ok_def)
      show ?thesis
      proof (cases x)
        case (Some h)
        show ?thesis
        proof (cases "wn_Linkage node = 0 \<or> wn_Linkage node < wn_BufferSize node \<or> wn_Linkage node > length b - at")
          case True
          with False node x \<open>wmi_header L node (length b - at) = Some e\<close> Some show ?thesis
            by (subst wmi_nodes.simps) (auto simp: parsed_ok_def)
        next
          case step: False
          have "parsed_ok (wmi_nodes L b (at + wn_Linkage node) h)"
            by (rule 1(1) [OF False node \<open>wmi_header L node (length b - at) = Some e\<close> x(1) Some])
              (use step x(2) Some 1(2,4) in auto)
          with step False node x \<open>wmi_header L node (length b - at) = Some e\<close> Some show ?thesis
            by (subst wmi_nodes.simps) simp
        qed
      qed (use False node x Some in \<open>subst wmi_nodes.simps, auto simp: parsed_ok_def\<close>)
    qed (use False node in \<open>subst wmi_nodes.simps, auto simp: parsed_ok_def\<close>)
  qed (subst wmi_nodes.simps, auto simp: parsed_ok_def)
qed

definition fan_layout :: wmi_layout where
  "fan_layout = \<lparr>wl_Node = 72, wl_BufferSize = 0, wl_Linkage = 12, wl_Guid = 24, wl_Flags = 44, wl_DataBlockOffset = 48,
     wl_InstanceCount = 52, wl_FixedInstanceSize = 60, wl_Table = 60, wl_Data = 88, wl_CurrentTemperature = 12, wl_Class = replicate 16 7\<rparr>"

text \<open>C28. For every buffer the kernel may return, also a malformed one: the parser reads no byte outside of it and ends, and
  the temperature it reports is between -40 and 125 degrees.\<close>

theorem fan_parse_inside:
  assumes "layout_ok L"
  shows "case fan_temperature_parse L b of None \<Rightarrow> False
     | Some (found, t) \<Rightarrow> if found then -40000 \<le> t \<and> t \<le> 125000 else t = INT32_MIN"
proof -
  have "parsed_ok (wmi_nodes L b 0 INT32_MIN)" by (rule wmi_nodes_inside [OF assms]) (simp_all add: sensor_range_def)
  then show ?thesis by (auto simp: parsed_ok_def fan_temperature_parse_def sensor_range_def split: option.splits)
qed

text \<open>A block with one zone at 26.95 degrees, as the kernel lays it out on a 64-bit machine.\<close>

definition fan_buffer :: bytes where
  "fan_buffer = [160, 0, 0, 0] @ replicate 20 0 @ replicate 16 7 @ replicate 4 0 @ [0x11, 0, 0, 0, 72, 0, 0, 0, 1, 0, 0, 0] @
     replicate 4 0 @ [88, 0, 0, 0] @ replicate 8 0 @ replicate 12 0 @ [0xb9, 0x0b, 0, 0] @ replicate 72 0"

lemma fan_buffer_parsed: "fan_temperature_parse fan_layout fan_buffer = Some (True, 26950)"
  by code_simp

theorem fan_parse_inside_witness:
  "case fan_temperature_parse fan_layout fan_buffer of None \<Rightarrow> False
     | Some (found, t) \<Rightarrow> if found then -40000 \<le> t \<and> t \<le> 125000 else t = INT32_MIN"
  by (rule fan_parse_inside) (simp add: layout_ok_def fan_layout_def)

end
