(* ===== verification/Rp1_Fan_Driver.thy ===== *)
theory Rp1_Fan_Driver
  imports Rp1_Fan
begin

unbundle bit_operations_syntax

text \<open>
  The fan's driver (\<open>rp1-fan/driver.c\<close>): its power callbacks, its two timers, its requests and the query of the
  temperature. The properties: it writes the duty cycle only, and only under the firmware's handoff; what
  the watchdog drives; every lease ends.
\<close>

section \<open>The driver\<close>

record FAN_CONTEXT =
  fd_Registers :: ptr
  fd_Owner :: ptr
  fd_Running :: bool
  fd_State :: FAN_STATE
  fd_Policy :: FAN_POLICY
  fd_Requested :: u32
  fd_TemperatureStatus :: NTSTATUS

abbreviation on_fan :: "(FAN_STATE, 'a) prog \<Rightarrow> (FAN_CONTEXT, 'a) prog" where
  "on_fan \<equiv> zoom fd_State fd_State_update"

abbreviation on_policy :: "(FAN_POLICY \<Rightarrow> FAN_POLICY) \<Rightarrow> (FAN_CONTEXT, unit) prog" where
  "on_policy f \<equiv> modify (\<lambda>c. c\<lparr>fd_Policy := f (fd_Policy c)\<rparr>)"

definition Fan_ResultStatus :: "FAN_RESULT \<Rightarrow> NTSTATUS" where
  "Fan_ResultStatus r = (case r of FAN_OK \<Rightarrow> STATUS_SUCCESS | FAN_INVALID \<Rightarrow> STATUS_INVALID_PARAMETER
     | FAN_NOT_READY \<Rightarrow> STATUS_DEVICE_NOT_READY | FAN_IO_ERROR \<Rightarrow> STATUS_DEVICE_DATA_ERROR)"

definition Fan_NowMs :: "env \<Rightarrow> ('s, u64) prog" where
  "Fan_NowMs E = do { t \<leftarrow> io_now E; ret (t div 10000) }"

text \<open>The hottest sensor, by at most three queries. A query reports the size it needs or has used in the length.
  The bytes of the buffer are bank 1. No result stands for a read outside of the buffer.\<close>

fun ReadTemperature_loop :: "wmi_layout \<Rightarrow> env \<Rightarrow> nat \<Rightarrow> NTSTATUS \<Rightarrow> u32 \<Rightarrow> int \<Rightarrow> ('s, (NTSTATUS \<times> int) option) prog" where
  "ReadTemperature_loop L E 0 status len temperature = ret (Some (status, temperature))"
| "ReadTemperature_loop L E (Suc n) status len temperature =
     (if status \<noteq> STATUS_BUFFER_TOO_SMALL then ret (Some (status, temperature))
      else if unat len < wl_Node L \<or> len > 64 * 1024 then ret (Some (STATUS_INVALID_BUFFER_SIZE, temperature))
      else do {
        buffer \<leftarrow> io_call E ''ExAllocatePool2'' [0x40, ucast len];
        if buffer = 0 then ret (Some (STATUS_INSUFFICIENT_RESOURCES, temperature))
        else do {
          status \<leftarrow> kernel_status E ''IoWMIQueryAllData'' [buffer, ucast len];
          used \<leftarrow> io_call E ''IoWMIQueryAllData length'' [];
          bytes \<leftarrow> mapM [0..<unat len] (\<lambda>i. io_read E 1 (of_nat i));
          let result = (if NT_SUCCESS status then
              if (ucast used :: u32) > len then Some (STATUS_DEVICE_DATA_ERROR, temperature)
              else map_option (\<lambda>(ok, t). (if ok then status else STATUS_DEVICE_DATA_ERROR, t))
                (fan_temperature_parse L (take (unat (ucast used :: u32)) (map ucast bytes)))
            else Some (status, temperature));
          kernel_do E ''ExFreePoolWithTag'' [buffer];
          (case result of
             None \<Rightarrow> ret None
           | Some (status, temperature) \<Rightarrow> ReadTemperature_loop L E n status (ucast used) temperature)
        }
      })"

definition ReadTemperature :: "wmi_layout \<Rightarrow> env \<Rightarrow> ('s, (NTSTATUS \<times> int) option) prog" where
  "ReadTemperature L E = do {
     status \<leftarrow> kernel_status E ''IoWMIOpenBlock'' [];
     if \<not> NT_SUCCESS status then ret (Some (status, INT32_MIN))
     else do {
       status \<leftarrow> kernel_status E ''IoWMIQueryAllData'' [0];
       len \<leftarrow> io_call E ''IoWMIQueryAllData length'' [];
       r \<leftarrow> ReadTemperature_loop L E 3 status (ucast len) INT32_MIN;
       kernel_do E ''ObDereferenceObject'' [];
       ret (case r of
           None \<Rightarrow> None
         | Some (status, temperature) \<Rightarrow>
             Some (if NT_SUCCESS status \<and> temperature = INT32_MIN then STATUS_DEVICE_NOT_READY else status, temperature))
     }
   }"

text \<open>The compatible identifiers of the device, a list of strings each with a zero at its end; \<open>same\<close> stands for
  the kernel's comparison of two strings without regard to case. The property is read from bank 2.\<close>

function identity_scan :: "(u16 list \<Rightarrow> bool) \<Rightarrow> u16 list \<Rightarrow> NTSTATUS" where
  "identity_scan same ids =
     (if ids = [] \<or> hd ids = 0 then STATUS_NOT_SUPPORTED
      else
        let item = takeWhile (\<lambda>c. c \<noteq> 0) ids in
        if length item = length ids then STATUS_DEVICE_CONFIGURATION_ERROR
        else if same item then STATUS_SUCCESS
        else identity_scan same (drop (length item + 1) ids))"
  by pat_completeness auto
termination
  by (relation "measure (length o snd)") (auto simp: hd_conv_nth)

declare identity_scan.simps [simp del]

definition Fan_CheckIdentity :: "(u16 list \<Rightarrow> bool) \<Rightarrow> env \<Rightarrow> ('s, NTSTATUS) prog" where
  "Fan_CheckIdentity same E = do {
     status \<leftarrow> kernel_status E ''WdfFdoInitQueryProperty'' [512];
     if \<not> NT_SUCCESS status then ret status
     else do {
       r \<leftarrow> io_call E ''WdfFdoInitQueryProperty used'' [];
       let used = (ucast r :: u32);
       if used < 4 \<or> used > 512 \<or> used mod 2 \<noteq> 0 then ret STATUS_DEVICE_CONFIGURATION_ERROR
       else do {
         ids \<leftarrow> mapM [0..<unat used div 2] (\<lambda>i. io_read E 2 (of_nat i));
         ret (identity_scan same (map ucast ids))
       }
     }
   }"

fun fan_memory :: "cm_resource option list \<Rightarrow> (u64 \<times> u32) option \<Rightarrow> (u64 \<times> u32) option" where
  "fan_memory [] memory = memory"
| "fan_memory (None # rs) memory = None"
| "fan_memory (Some (CmMemory start bytes) # rs) memory = (if memory \<noteq> None then None else fan_memory rs (Some (start, bytes)))"
| "fan_memory (Some CmNull # rs) memory = fan_memory rs memory"
| "fan_memory (Some CmDevicePrivate # rs) memory = fan_memory rs memory"
| "fan_memory (Some (CmInterrupt flags vector) # rs) memory = fan_memory rs memory"
| "fan_memory (Some r # rs) memory = None"

definition FanPrepare :: "env \<Rightarrow> cm_resource option list \<Rightarrow> (FAN_CONTEXT, NTSTATUS) prog" where
  "FanPrepare E rs = do {
     Kernel_Diagnostic E ''DiagStage'' 20;
     case fan_memory rs None of
       None \<Rightarrow> ret STATUS_DEVICE_CONFIGURATION_ERROR
     | Some (start, bytes) \<Rightarrow>
         if \<not> fan_resource_valid start bytes then ret STATUS_DEVICE_CONFIGURATION_ERROR
         else do {
           p \<leftarrow> io_call E ''MmMapIoSpaceEx'' [start, ucast FAN_MMIO_SIZE, PAGE_READWRITE OR PAGE_NOCACHE];
           modify (\<lambda>c. c\<lparr>fd_Registers := p\<rparr>);
           if p = 0 then ret STATUS_INSUFFICIENT_RESOURCES
           else do { Kernel_Diagnostic E ''DiagStage'' 40; ret STATUS_SUCCESS }
         }
   }"

definition Fan_stop_timers :: "env \<Rightarrow> ('s, unit) prog" where
  "Fan_stop_timers E = do { kernel_do E ''WdfTimerStop'' [0]; kernel_do E ''WdfTimerStop'' [1] }"

definition FanRelease :: "env \<Rightarrow> (FAN_CONTEXT, NTSTATUS) prog" where
  "FanRelease E = do {
     Kernel_Lock_forever E;
     modify (\<lambda>c. c\<lparr>fd_Running := False\<rparr>);
     modify (\<lambda>c. c\<lparr>fd_Owner := 0\<rparr>);
     Kernel_Unlock E;
     Fan_stop_timers E;
     Kernel_Lock_forever E;
     c \<leftarrow> gets id;
     whenM (fd_Registers c \<noteq> 0) (do {
       kernel_do E ''MmUnmapIoSpace'' [fd_Registers c, ucast FAN_MMIO_SIZE];
       modify (\<lambda>c. c\<lparr>fd_Registers := 0\<rparr>)
     });
     Kernel_Unlock E;
     ret STATUS_SUCCESS
   }"

definition Fan_Report :: "env \<Rightarrow> string \<Rightarrow> u32 \<Rightarrow> ('s, unit) prog" where
  "Fan_Report E name off = do { v \<leftarrow> Fan_Read E off; Kernel_Diagnostic E name v }"

definition FanD0Entry :: "env \<Rightarrow> (FAN_CONTEXT, NTSTATUS) prog" where
  "FanD0Entry E = do {
     Kernel_Lock_forever E;
     modify (\<lambda>c. c\<lparr>fd_State := \<lparr>fs_Deadline = 0, fs_Percent = 0, fs_Expirations = 0, fs_Failed = 0\<rparr>\<rparr>);
     now \<leftarrow> Fan_NowMs E;
     on_policy (fan_policy_start now);
     modify (\<lambda>c. c\<lparr>fd_TemperatureStatus := STATUS_DEVICE_NOT_READY\<rparr>);
     modify (\<lambda>c. c\<lparr>fd_Requested := 100\<rparr>);
     c \<leftarrow> gets id;
     if fd_Registers c = 0 then do { Kernel_Unlock E; ret STATUS_DEVICE_NOT_READY }
     else do {
       Fan_Report E ''DiagGlobal'' FAN_GLOBAL;
       Fan_Report E ''DiagControl'' FAN_CONTROL;
       Fan_Report E ''DiagRange'' FAN_RANGE;
       Fan_Report E ''DiagPhase'' FAN_PHASE;
       Fan_Report E ''DiagDuty'' FAN_DUTY;
       Fan_Report E ''DiagRpm'' FAN_RPM;
       r \<leftarrow> on_fan (fan_full E);
       Kernel_Diagnostic E ''DiagStatus'' (Fan_ResultStatus r);
       Kernel_Diagnostic E ''DiagStage'' 50;
       whenM (NT_SUCCESS (Fan_ResultStatus r)) (do {
         modify (\<lambda>c. c\<lparr>fd_Running := True\<rparr>);
         kernel_do E ''WdfTimerStart'' [0, 250];
         kernel_do E ''WdfTimerStart'' [1, 100]
       });
       Kernel_Unlock E;
       ret (Fan_ResultStatus r)
     }
   }"

definition FanD0Exit :: "env \<Rightarrow> (FAN_CONTEXT, NTSTATUS) prog" where
  "FanD0Exit E = do {
     Kernel_Lock_forever E;
     modify (\<lambda>c. c\<lparr>fd_Running := False\<rparr>);
     c \<leftarrow> gets id;
     whenM (fd_Registers c \<noteq> 0) (do { r \<leftarrow> on_fan (fan_full E); ret () });
     modify (\<lambda>c. c\<lparr>fd_Owner := 0\<rparr>);
     Kernel_Unlock E;
     Fan_stop_timers E;
     ret STATUS_SUCCESS
   }"

text \<open>What the policy asks for; it also updates the policy.\<close>

definition Fan_Target :: "env \<Rightarrow> u64 \<Rightarrow> bool \<Rightarrow> u32 \<Rightarrow> (FAN_CONTEXT, u32) prog" where
  "Fan_Target E now manual requested = do {
     rpm \<leftarrow> Fan_Read E FAN_RPM;
     c \<leftarrow> gets id;
     let (target, p) = fan_policy_target now rpm manual requested (fd_Policy c);
     modify (\<lambda>c. c\<lparr>fd_Policy := p\<rparr>);
     ret target
   }"

definition FanWatchdog :: "env \<Rightarrow> (FAN_CONTEXT, unit) prog" where
  "FanWatchdog E = do {
     Kernel_Lock_forever E;
     c \<leftarrow> gets id;
     whenM (fd_Running c) (do {
       now \<leftarrow> Fan_NowMs E;
       let expired = (fs_Deadline (fd_State c) \<noteq> 0 \<and> now \<ge> fs_Deadline (fd_State c));
       r \<leftarrow> on_fan (fan_tick E now);
       whenM expired (do { modify (\<lambda>c. c\<lparr>fd_Owner := 0\<rparr>); on_policy (fan_policy_full now) });
       c \<leftarrow> gets id;
       target \<leftarrow> Fan_Target E now (fs_Deadline (fd_State c) \<noteq> 0) (fd_Requested c);
       r \<leftarrow> on_fan (fan_adjust E target);
       kernel_do E ''WdfTimerStart'' [0, 250]
     });
     Kernel_Unlock E
   }"

definition FanTemperature :: "wmi_layout \<Rightarrow> env \<Rightarrow> (FAN_CONTEXT, unit option) prog" where
  "FanTemperature L E = do {
     Kernel_Lock_forever E;
     c \<leftarrow> gets id;
     if \<not> fd_Running c then do { Kernel_Unlock E; ret (Some ()) }
     else do {
       Kernel_Unlock E;
       sampleTime \<leftarrow> Fan_NowMs E;
       r \<leftarrow> ReadTemperature L E;
       (case r of
          None \<Rightarrow> ret None
        | Some (status, temperature) \<Rightarrow> do {
            Kernel_Lock_forever E;
            c \<leftarrow> gets id;
            whenM (fd_Running c) (do {
              on_policy (fan_policy_temperature temperature sampleTime);
              modify (\<lambda>c. c\<lparr>fd_TemperatureStatus := status\<rparr>);
              kernel_do E ''WdfTimerStart'' [1, 1000]
            });
            Kernel_Unlock E;
            ret (Some ())
          })
     }
   }"

definition FanCleanup :: "env \<Rightarrow> ptr \<Rightarrow> (FAN_CONTEXT, unit) prog" where
  "FanCleanup E f = do {
     Kernel_Lock_forever E;
     c \<leftarrow> gets id;
     whenM (fd_Owner c = f) (do {
       whenM (fd_Running c) (do {
         r \<leftarrow> on_fan (fan_full E);
         now \<leftarrow> Fan_NowMs E;
         on_policy (fan_policy_full now)
       });
       modify (\<lambda>c. c\<lparr>fd_Owner := 0\<rparr>)
     });
     Kernel_Unlock E
   }"

record FAN_QUERY =
  fq_size :: u32
  fq_version :: u32
  fq_percent :: u32
  fq_rpm :: u32
  fq_period_ns :: u32
  fq_duty_ticks :: u32
  fq_lease_remaining_ms :: u32
  fq_expirations :: u32
  fq_failed :: u32
  fq_global :: u32
  fq_control :: u32
  fq_range :: u32
  fq_phase :: u32
  fq_manual :: u32
  fq_requested_percent :: u32
  fq_temperature_millicelsius :: int
  fq_temperature_age_ms :: u32
  fq_policy_flags :: u32
  fq_temperature_status :: u32

record FAN_SET =
  fr_size :: u32
  fr_version :: u32
  fr_percent :: u32
  fr_lease_ms :: u32

abbreviation FAN_ABI_VERSION :: u32 where "FAN_ABI_VERSION \<equiv> 2"

datatype fan_ioctl = IOCTL_FAN_QUERY | IOCTL_FAN_SET | IOCTL_FAN_OTHER

record fan_request =
  fn_OutputLength :: nat
  fn_InputLength :: nat
  fn_File :: ptr
  fn_Set :: FAN_SET

definition Fan_Query :: "env \<Rightarrow> u64 \<Rightarrow> (FAN_CONTEXT, FAN_QUERY) prog" where
  "Fan_Query E now = do {
     c \<leftarrow> gets id;
     let s = fd_State c;
     let p = fd_Policy c;
     rpm \<leftarrow> Fan_Read E FAN_RPM;
     duty \<leftarrow> Fan_Read E FAN_DUTY;
     global \<leftarrow> Fan_Read E FAN_GLOBAL;
     control \<leftarrow> Fan_Read E FAN_CONTROL;
     range \<leftarrow> Fan_Read E FAN_RANGE;
     phase \<leftarrow> Fan_Read E FAN_PHASE;
     ret \<lparr>fq_size = 76, fq_version = FAN_ABI_VERSION, fq_percent = fs_Percent s, fq_rpm = rpm, fq_period_ns = FAN_PERIOD_NS,
       fq_duty_ticks = duty, fq_lease_remaining_ms = (if fs_Deadline s > now then ucast (fs_Deadline s - now) else 0),
       fq_expirations = fs_Expirations s, fq_failed = fs_Failed s, fq_global = global, fq_control = control, fq_range = range,
       fq_phase = phase, fq_manual = c_bool (fs_Deadline s \<noteq> 0),
       fq_requested_percent = (if fs_Deadline s \<noteq> 0 then fd_Requested c else 0),
       fq_temperature_millicelsius = fp_Temperature p,
       fq_temperature_age_ms = (if now \<ge> fp_TemperatureTime p \<and> now - fp_TemperatureTime p < 0xffffffff
         then ucast (now - fp_TemperatureTime p) else 0xffffffff),
       fq_policy_flags = fp_Flags p, fq_temperature_status = fd_TemperatureStatus c\<rparr>
   }"

definition Fan_Set :: "env \<Rightarrow> u64 \<Rightarrow> fan_request \<Rightarrow> (FAN_CONTEXT, NTSTATUS) prog" where
  "Fan_Set E now q =
     (if fn_InputLength q \<noteq> 16 \<or> fn_OutputLength q \<noteq> 0 then ret STATUS_INVALID_PARAMETER
      else do {
        status \<leftarrow> kernel_status E ''WdfRequestRetrieveInputBuffer'' [16];
        let s = fn_Set q;
        if \<not> NT_SUCCESS status then ret status
        else if fr_size s \<noteq> 16 \<or> fr_version s \<noteq> FAN_ABI_VERSION \<or> fn_File q = 0 \<or> fr_percent s > 100 \<or>
          fr_lease_ms s < 500 \<or> fr_lease_ms s > FAN_MAX_LEASE_MS then ret STATUS_INVALID_PARAMETER
        else do {
          c \<leftarrow> gets id;
          if fd_Owner c \<noteq> 0 \<and> fd_Owner c \<noteq> fn_File q then ret STATUS_DEVICE_BUSY
          else do {
            target \<leftarrow> Fan_Target E now True (fr_percent s);
            r \<leftarrow> on_fan (fan_set E target (fr_lease_ms s) now);
            whenM (NT_SUCCESS (Fan_ResultStatus r)) (modify (\<lambda>c. c\<lparr>fd_Owner := fn_File q, fd_Requested := fr_percent s\<rparr>));
            ret (Fan_ResultStatus r)
          }
        }
      })"

definition FanControl :: "env \<Rightarrow> fan_ioctl \<Rightarrow> fan_request \<Rightarrow> (FAN_CONTEXT, NTSTATUS \<times> FAN_QUERY option) prog" where
  "FanControl E code q = do {
     now \<leftarrow> Fan_NowMs E;
     Kernel_Lock_forever E;
     c \<leftarrow> gets id;
     r \<leftarrow> (if \<not> fd_Running c then ret (STATUS_DEVICE_NOT_READY, None)
       else if code = IOCTL_FAN_QUERY then
         if fn_InputLength q \<noteq> 0 then ret (STATUS_INVALID_PARAMETER, None)
         else do {
           status \<leftarrow> kernel_status E ''WdfRequestRetrieveOutputBuffer'' [76];
           if \<not> NT_SUCCESS status then ret (status, None)
           else do { reply \<leftarrow> Fan_Query E now; ret (status, Some reply) }
         }
       else if code = IOCTL_FAN_SET then do { status \<leftarrow> Fan_Set E now q; ret (status, None) }
       else ret (STATUS_INVALID_DEVICE_REQUEST, None));
     Kernel_Unlock E;
     ret r
   }"

section \<open>What is written to the hardware\<close>

text \<open>The five reads of the firmware's handoff, with the values that accept it.\<close>

fun handoff :: "io_event list \<Rightarrow> bool" where
  "handoff (Rd b4 o4 duty # Rd b3 o3 phase # Rd b2 o2 rng # Rd b1 o1 ctl # Rd b0 o0 global # t) \<longleftrightarrow>
     b0 = 0 \<and> o0 = FAN_GLOBAL \<and> global AND NOT 0x80000000 = 8 \<and> b1 = 0 \<and> o1 = FAN_CONTROL \<and> ctl = 0x109 \<and>
     b2 = 0 \<and> o2 = FAN_RANGE \<and> rng = FAN_TICKS \<and> b3 = 0 \<and> o3 = FAN_PHASE \<and> phase = 0 \<and>
     b4 = 0 \<and> o4 = FAN_DUTY \<and> duty \<le> FAN_TICKS"
| "handoff t \<longleftrightarrow> False"

fun fan_writes_ok :: "io_event list \<Rightarrow> bool" where
  "fan_writes_ok [] = True"
| "fan_writes_ok (Wr u off v # t) = (u = 0 \<and> off = FAN_DUTY \<and> v \<le> FAN_TICKS \<and> handoff t \<and> fan_writes_ok t)"
| "fan_writes_ok (e # t) = fan_writes_ok t"

definition duty_only :: "'s world \<Rightarrow> 's world \<Rightarrow> bool" where
  "duty_only w w' \<longleftrightarrow> (fan_writes_ok (trace w) \<longrightarrow> fan_writes_ok (trace w'))"

interpretation duty_only: frame duty_only
  by unfold_locales (auto simp: duty_only_def)

lemma duty_io:
  "preserves duty_only (modify f)" "preserves duty_only (io_read E u off)" "preserves duty_only (io_now E)"
  "preserves duty_only (io_call E g xs)" "preserves duty_only (kernel_do E g xs)" "preserves duty_only (kernel_status E g xs)"
  by (auto simp: preserves_def duty_only_def wp_simps kernel_do_def kernel_status_def)

lemma duty_zoom: "preserves duty_only m \<Longrightarrow> preserves duty_only (zoom g u m)"
  by (erule preserves_zoom) (simp add: duty_only_def)

lemmas duty_intros = duty_only.pres duty_io duty_zoom

lemma fan_ticks_le: "percent \<le> 100 \<Longrightarrow> fan_ticks percent \<le> FAN_TICKS"
proof -
  assume "percent \<le> 100"
  then have "unat percent \<le> 100" by (simp add: word_le_nat_alt)
  then have "unat (fan_ticks percent) = (2078 * unat percent + 50) div 100" and "(2078 * unat percent + 50) div 100 \<le> 2078"
    by (simp_all add: fan_ticks_def unat_div unat_word_ariths)
  then show ?thesis by (simp add: word_le_nat_alt)
qed

lemma duty_apply:
  assumes "percent \<le> 100"
  shows "preserves duty_only (fan_apply E percent)"
  unfolding preserves_wp fan_apply_def fan_ready_def Fan_Read_def Fan_Write_def
  by (intro allI wp_intros) (auto simp: duty_only_def fan_ticks_le [OF assms] not_less split: if_splits)

lemma duty_fan:
  "preserves duty_only (fan_full E)" "preserves duty_only (fan_adjust E percent)" "preserves duty_only (fan_set E percent lease now)"
  "preserves duty_only (fan_tick E now)"
  unfolding fan_full_def fan_adjust_def fan_set_def fan_tick_def
  by (intro duty_intros duty_apply; simp)+

lemma duty_small:
  "preserves duty_only (Fan_NowMs E)" "preserves duty_only (Fan_Read E off)" "preserves duty_only (Kernel_Diagnostic E name v)"
  "preserves duty_only (Fan_Report E name off)" "preserves duty_only (Fan_stop_timers E)" "preserves duty_only (Fan_Target E t b r)"
  by (auto simp: Fan_NowMs_def Fan_Read_def Kernel_Diagnostic_def Fan_Report_def Fan_stop_timers_def Fan_Target_def intro!: duty_intros)

lemmas duty_all = duty_intros duty_fan duty_small

lemma duty_loop: "preserves duty_only (ReadTemperature_loop L E n status len temperature)"
  by (induction n arbitrary: status len temperature) (auto intro!: duty_all)

lemma duty_temperature: "preserves duty_only (ReadTemperature L E)"
  unfolding ReadTemperature_def by (intro duty_all duty_loop)

lemma duty_driver:
  "preserves duty_only (FanPrepare E rs)" "preserves duty_only (FanRelease E)" "preserves duty_only (FanD0Entry E)"
  "preserves duty_only (FanD0Exit E)" "preserves duty_only (FanWatchdog E)" "preserves duty_only (FanTemperature L E)"
  "preserves duty_only (FanCleanup E f)" "preserves duty_only (FanControl E code q)"
  unfolding FanPrepare_def FanRelease_def FanD0Entry_def FanD0Exit_def FanWatchdog_def FanTemperature_def FanCleanup_def
    FanControl_def Fan_Query_def Fan_Set_def
  by (intro duty_all duty_temperature)+

text \<open>The callbacks of the framework, the timers and the requests, in any order.\<close>

datatype fan_op = FanOpPrepare "cm_resource option list" | FanOpRelease | FanOpD0Entry | FanOpD0Exit | FanOpWatchdog | FanOpTemperature
  | FanOpCleanup ptr | FanOpControl fan_ioctl fan_request

fun fan_run :: "wmi_layout \<Rightarrow> env \<Rightarrow> fan_op \<Rightarrow> (FAN_CONTEXT, unit) prog" where
  "fan_run L E (FanOpPrepare rs) = do { r \<leftarrow> FanPrepare E rs; ret () }"
| "fan_run L E FanOpRelease = do { r \<leftarrow> FanRelease E; ret () }"
| "fan_run L E FanOpD0Entry = do { r \<leftarrow> FanD0Entry E; ret () }"
| "fan_run L E FanOpD0Exit = do { r \<leftarrow> FanD0Exit E; ret () }"
| "fan_run L E FanOpWatchdog = FanWatchdog E"
| "fan_run L E FanOpTemperature = do { r \<leftarrow> FanTemperature L E; ret () }"
| "fan_run L E (FanOpCleanup f) = FanCleanup E f"
| "fan_run L E (FanOpControl code q) = do { r \<leftarrow> FanControl E code q; ret () }"

lemma duty_run: "preserves duty_only (fan_run L E op)"
  by (cases op) (simp_all add: duty_driver duty_only.pres)

text \<open>C27. Whatever the registers, the clock, the kernel and the requests do, and in whatever order the driver is
  called: the only register it ever writes is the duty cycle, never with more than the period, and only directly
  after the five reads of the firmware's handoff, each with the value that accepts it.\<close>

theorem fan_writes_only_duty:
  "fan_writes_ok (trace (snd (run_state (forM ops (fan_run L E)) \<lparr>st = c, trace = []\<rparr>)))"
proof -
  have "preserves duty_only (forM ops (fan_run L E))" by (intro duty_only.pres duty_run)
  from preservesD [OF this prod.collapse [symmetric], of "\<lparr>st = c, trace = []\<rparr>"] show ?thesis
    by (simp add: duty_only_def)
qed

section \<open>What the watchdog drives\<close>

text \<open>A board whose firmware has handed the fan over: the registers keep what is written, the tachometer shows \<open>rpm\<close>, and
  the clock stands at \<open>t\<close>.\<close>

definition fan_regs :: "u32 \<Rightarrow> u32 \<Rightarrow> u32 \<Rightarrow> u32 \<Rightarrow> u32" where
  "fan_regs rpm duty u off = (if off = FAN_GLOBAL then 0x80000008 else if off = FAN_CONTROL then 0x109 else if off = FAN_RANGE then FAN_TICKS
     else if off = FAN_PHASE then 0 else if off = FAN_DUTY then duty else if off = FAN_RPM then rpm else 0)"

definition fan_board :: "u64 \<Rightarrow> u32 \<Rightarrow> u32 \<Rightarrow> env \<Rightarrow> env" where
  "fan_board t rpm duty E = E\<lparr>env_read := regs (fan_regs rpm duty), env_now := (\<lambda>_. t)\<rparr>"

lemma fan_board_simps [simp]:
  "env_read (fan_board t rpm duty E) = regs (fan_regs rpm duty)" "env_now (fan_board t rpm duty E) = (\<lambda>_. t)"
  "env_call (fan_board t rpm duty E) = env_call E"
  by (simp_all add: fan_board_def)

text \<open>The board as the driver leaves it: the duty cycle may have changed, to \<open>d\<close>, and nothing else.\<close>

definition board_at :: "u32 \<Rightarrow> u32 \<Rightarrow> u32 \<Rightarrow> io_event list \<Rightarrow> bool" where
  "board_at rpm duty d t \<longleftrightarrow> d \<le> FAN_TICKS \<and> regs (fan_regs rpm duty) t 0 = fan_regs rpm d 0"

lemma board_at_simps [simp]:
  "board_at rpm duty d (Rd u off v # t) = board_at rpm duty d t" "board_at rpm duty d (Call f xs y # t) = board_at rpm duty d t"
  "board_at rpm duty d (Clk n # t) = board_at rpm duty d t"
  by (simp_all add: board_at_def)

lemma board_at_write: "board_at rpm duty d t \<Longrightarrow> v \<le> FAN_TICKS \<Longrightarrow> board_at rpm duty v (Wr 0 FAN_DUTY v # t)"
  by (auto simp: board_at_def fan_regs_def)

lemma board_at_read: "board_at rpm duty d t \<Longrightarrow> regs (fan_regs rpm duty) t 0 off = fan_regs rpm d 0 off"
  by (simp add: board_at_def)

lemma wp_board_apply:
  assumes "board_at rpm duty d (trace w)" "percent \<le> 100"
    and "\<And>v. st v = st w \<Longrightarrow> board_at rpm duty (fan_ticks percent) (trace v) \<Longrightarrow> Q FAN_OK v"
  shows "wp (fan_apply (fan_board t rpm duty E) percent) Q w"
proof -
  have d: "\<not> FAN_TICKS < d" using assms(1) by (simp add: board_at_def not_less)
  note after = board_at_write [OF _ fan_ticks_le [OF assms(2)], where rpm = rpm and duty = duty and d = d]
  show ?thesis
    unfolding fan_apply_def fan_ready_def Fan_Read_def Fan_Write_def
    by (simp add: wp_simps wp_io_read board_at_read [OF assms(1)] board_at_read [OF after] assms(1) d fan_regs_def)
      (rule assms(3), simp_all add: after assms(1))
qed

lemma wp_board_full:
  assumes "board_at rpm duty d (trace w)"
    and "\<And>v. st v = (st w)\<lparr>fs_Deadline := 0, fs_Percent := 100\<rparr> \<Longrightarrow> board_at rpm duty (fan_ticks 100) (trace v) \<Longrightarrow> Q FAN_OK v"
  shows "wp (fan_full (fan_board t rpm duty E)) Q w"
  unfolding fan_full_def
  by (intro wp_bindI wp_board_apply [OF assms(1)]) (auto intro!: wp_intros assms(2))

lemma wp_board_adjust:
  assumes "board_at rpm duty d (trace w)" "percent \<le> 100" "fs_Failed (st w) = 0"
    and "\<And>v. st v = (st w)\<lparr>fs_Percent := percent\<rparr> \<Longrightarrow> board_at rpm duty (fan_ticks percent) (trace v) \<Longrightarrow> Q FAN_OK v"
  shows "wp (fan_adjust (fan_board t rpm duty E) percent) Q w"
  unfolding fan_adjust_def
  using assms(2,3) by (intro wp_intros wp_board_apply [OF assms(1,2)]) (auto intro!: wp_intros assms(4) simp: not_less)

lemma wp_board_tick:
  assumes "board_at rpm duty d (trace w)"
    and "\<And>v d'. st v = (if fs_Deadline (st w) \<noteq> 0 \<and> fs_Deadline (st w) \<le> now
        then (st w)\<lparr>fs_Deadline := 0, fs_Percent := 100, fs_Expirations := fs_Expirations (st w) + 1\<rparr> else st w) \<Longrightarrow>
       board_at rpm duty d' (trace v) \<Longrightarrow> Q FAN_OK v"
  shows "wp (fan_tick (fan_board t rpm duty E) now) Q w"
  unfolding fan_tick_def
  apply (intro wp_intros wp_board_full [where d = d])
  subgoal using assms(1) by (auto intro!: assms(2) [where d' = d] simp: not_less [symmetric])
  subgoal using assms(1) by simp
  subgoal by (rule assms(2) [where d' = "fan_ticks 100"]) (auto simp: not_less)
  done

lemma wp_board_Target:
  assumes "board_at rpm duty d (trace w)"
    and "\<And>v target p. fan_policy_target now rpm manual requested (fd_Policy (st w)) = (target, p) \<Longrightarrow> st v = (st w)\<lparr>fd_Policy := p\<rparr> \<Longrightarrow>
       board_at rpm duty d (trace v) \<Longrightarrow> Q target v"
  shows "wp (Fan_Target (fan_board t rpm duty E) now manual requested) Q w"
  unfolding Fan_Target_def Fan_Read_def
  using board_at_read [OF assms(1), of FAN_RPM] assms(1)
  by (auto simp: wp_simps wp_io_read fan_regs_def split: prod.splits intro!: assms(2))

text \<open>When full cooling is needed, and the speed otherwise. After an expired lease the policy asks for full cooling.\<close>

definition lease_expired :: "u64 \<Rightarrow> FAN_CONTEXT \<Rightarrow> bool" where
  "lease_expired now c \<longleftrightarrow> fs_Deadline (fd_State c) \<noteq> 0 \<and> fs_Deadline (fd_State c) \<le> now"

definition stalled :: "u64 \<Rightarrow> u32 \<Rightarrow> FAN_POLICY \<Rightarrow> bool" where
  "stalled now rpm p \<longleftrightarrow> (if now < fp_NextRpm p then fp_Stalls p \<ge> 3 else (rpm = 0 \<or> rpm > 30000) \<and> fp_Stalls p \<ge> 2)"

definition full_cooling :: "u64 \<Rightarrow> u32 \<Rightarrow> FAN_CONTEXT \<Rightarrow> bool" where
  "full_cooling now rpm c \<longleftrightarrow> lease_expired now c \<or> now < fp_FullUntil (fd_Policy c) \<or> fp_Temperature (fd_Policy c) < -40000 \<or>
     fp_Temperature (fd_Policy c) \<ge> 75000 \<or> now < fp_TemperatureTime (fd_Policy c) \<or>
     now - fp_TemperatureTime (fd_Policy c) > FAN_TEMP_MAX_AGE_MS \<or> stalled now rpm (fd_Policy c)"

definition watchdog_percent :: "u64 \<Rightarrow> u32 \<Rightarrow> FAN_CONTEXT \<Rightarrow> u32" where
  "watchdog_percent now rpm c =
     (if full_cooling now rpm c then 100 else if fs_Deadline (fd_State c) \<noteq> 0 then min 100 (fd_Requested c)
      else fan_curve (fp_Temperature (fd_Policy c)) (fp_Previous (fd_Policy c)))"

lemma or_zero: "x OR y = 0 \<longleftrightarrow> x = 0 \<and> y = 0" for x y :: u32
  by (metis or_eq_0_iff)

lemma policy_flags_zero:
  "policy_flags now p \<noteq> 0 \<longleftrightarrow> now < fp_FullUntil p \<or> fp_Temperature p < -40000 \<or> fp_Temperature p \<ge> 75000 \<or>
     now < fp_TemperatureTime p \<or> now - fp_TemperatureTime p > FAN_TEMP_MAX_AGE_MS \<or> fp_Stalls p \<ge> 3"
  by (auto simp: policy_flags_def or_zero)

lemma curve_le: "fan_curve temperature previous \<le> 100" "35 \<le> fan_curve temperature previous"
  by (simp_all add: fan_curve_def)

lemma stalls_rpm: "fp_Stalls (policy_rpm now rpm p) \<ge> 3 \<longleftrightarrow> stalled now rpm p"
proof -
  have "3 \<le> (if s < 3 then s + 1 else s) \<longleftrightarrow> 2 \<le> s" for s :: u32
  proof (cases "s < 3")
    case True
    then have "unat s < 3" by (simp add: word_less_nat_alt)
    then have "unat (s + 1) = unat s + 1" by (simp add: unat_word_ariths)
    with True show ?thesis by (simp add: word_le_nat_alt)
  next
    case False
    then have "3 \<le> s" by simp
    moreover have "(2::u32) \<le> 3" by simp
    ultimately have "2 \<le> s" by (rule order_trans [rotated])
    with False show ?thesis by simp
  qed
  then show ?thesis by (auto simp: policy_rpm_def stalled_def not_less [symmetric])
qed

lemma rpm_keeps [simp]:
  "fp_FullUntil (policy_rpm now rpm p) = fp_FullUntil p" "fp_Temperature (policy_rpm now rpm p) = fp_Temperature p"
  "fp_TemperatureTime (policy_rpm now rpm p) = fp_TemperatureTime p" "fp_Previous (policy_rpm now rpm p) = fp_Previous p"
  by (simp_all add: policy_rpm_def)

lemma target_eq:
  "fst (fan_policy_target now rpm manual requested p) =
     (if now < fp_FullUntil p \<or> fp_Temperature p < -40000 \<or> fp_Temperature p \<ge> 75000 \<or> now < fp_TemperatureTime p \<or>
         now - fp_TemperatureTime p > FAN_TEMP_MAX_AGE_MS \<or> stalled now rpm p then 100
      else if manual then min 100 requested else fan_curve (fp_Temperature p) (fp_Previous p))"
proof -
  have s: "stalled now rpm (p\<lparr>fp_Flags := 0\<rparr>) = stalled now rpm p" by (simp add: stalled_def)
  show ?thesis
    unfolding fan_policy_target_def Let_def
    using curve_le(1) [of "fp_Temperature p" "fp_Previous p"]
    by (auto simp: policy_flags_zero stalls_rpm s min_def not_less simp del: not_le)
qed

lemma wp_board_drive:
  assumes "board_at rpm duty d (trace w)" "fs_Failed (fd_State (st w)) = 0"
    and "\<And>v target p. fan_policy_target now rpm manual requested (fd_Policy (st w)) = (target, p) \<Longrightarrow>
       st v = (st w)\<lparr>fd_Policy := p, fd_State := (fd_State (st w))\<lparr>fs_Percent := target\<rparr>\<rparr> \<Longrightarrow>
       board_at rpm duty (fan_ticks target) (trace v) \<Longrightarrow> Q () v"
  shows "wp (do { target \<leftarrow> Fan_Target (fan_board t rpm duty E) now manual requested; r \<leftarrow> on_fan (fan_adjust (fan_board t rpm duty E) target);
      kernel_do (fan_board t rpm duty E) g xs }) Q w"
proof -
  have "target \<le> 100" if "fan_policy_target now rpm manual requested p = (target, p')" for target p p'
    using that target_eq [of now rpm manual requested p] curve_le(1) [of "fp_Temperature p" "fp_Previous p"]
    by (auto split: if_splits)
  then show ?thesis
    by (intro wp_bindI wp_board_Target [OF assms(1)] wp_zoomI wp_board_adjust [where d = d] wp_kernel_doI)
      (auto simp: assms(2) intro!: assms(3))
qed

definition watchdog_result :: "u64 \<Rightarrow> u32 \<Rightarrow> u32 \<Rightarrow> FAN_CONTEXT \<Rightarrow> FAN_CONTEXT world \<Rightarrow> bool" where
  "watchdog_result now rpm duty c w \<longleftrightarrow>
     regs (fan_regs rpm duty) (trace w) 0 FAN_DUTY = fan_ticks (watchdog_percent now rpm c) \<and>
     fs_Percent (fd_State (st w)) = watchdog_percent now rpm c \<and> fs_Failed (fd_State (st w)) = 0 \<and> fd_Running (st w) \<and>
     (lease_expired now c \<longrightarrow> fs_Deadline (fd_State (st w)) = 0 \<and> fd_Owner (st w) = 0)"

lemma wp_board_watch:
  assumes "board_at rpm duty d (trace w)" "fs_Failed (fd_State c) = 0" "st w = c" "fd_Running c"
    and later: "now < fp_FullUntil (fan_policy_full now (fd_Policy c))"
  shows "wp (do {
       r \<leftarrow> on_fan (fan_tick (fan_board t rpm duty E) now);
       whenM (lease_expired now c) (do { modify (\<lambda>c. c\<lparr>fd_Owner := 0\<rparr>); on_policy (fan_policy_full now) });
       c \<leftarrow> gets id;
       target \<leftarrow> Fan_Target (fan_board t rpm duty E) now (fs_Deadline (fd_State c) \<noteq> 0) (fd_Requested c);
       r \<leftarrow> on_fan (fan_adjust (fan_board t rpm duty E) target);
       kernel_do (fan_board t rpm duty E) g xs
     }) (\<lambda>_. watchdog_result now rpm duty c) w"
proof -
  have drive: "watchdog_result now rpm duty c v"
    if "fan_policy_target now rpm (fs_Deadline (fd_State u) \<noteq> 0) (fd_Requested u) (fd_Policy u) = (target, p)"
      "st v = u\<lparr>fd_Policy := p, fd_State := (fd_State u)\<lparr>fs_Percent := target\<rparr>\<rparr>"
      "board_at rpm duty (fan_ticks target) (trace v)" "fd_Requested u = fd_Requested c" "fs_Failed (fd_State u) = 0" "fd_Running u"
      "if lease_expired now c then fs_Deadline (fd_State u) = 0 \<and> fd_Owner u = 0 \<and> fd_Policy u = fan_policy_full now (fd_Policy c)
       else fs_Deadline (fd_State u) = fs_Deadline (fd_State c) \<and> fd_Policy u = fd_Policy c"
    for u v target p
  proof -
    have "target = watchdog_percent now rpm c"
      using target_eq [of now rpm "fs_Deadline (fd_State u) \<noteq> 0" "fd_Requested u" "fd_Policy u"] that(1,4,7) later
      by (auto simp: watchdog_percent_def full_cooling_def split: if_splits)
    with that show ?thesis
      by (auto simp: watchdog_result_def board_at_read fan_regs_def split: if_splits)
  qed
  show ?thesis
    apply (rule wp_bindI, rule wp_zoomI, rule wp_board_tick [where d = d])
    subgoal using assms(1) by simp
    apply (rule wp_bindI, rule wp_whenI)
    subgoal for v d'
      apply (rule wp_bindI, rule wp_modifyI, rule wp_modifyI, rule wp_bindI, rule wp_getsI)
      apply (simp only: id_apply world.simps)
      apply (rule wp_board_drive [where d = d'])
      subgoal by simp
      subgoal using assms(2,3) by simp
      subgoal by (simp only: world.simps, erule drive) (use assms(2-4) in \<open>auto simp: lease_expired_def\<close>)
      done
    subgoal for v d'
      apply (rule wp_bindI, rule wp_getsI)
      apply (simp only: id_apply world.simps)
      apply (rule wp_board_drive [where d = d'])
      subgoal by simp
      subgoal using assms(2,3) by (simp add: lease_expired_def)
      subgoal by (simp only: world.simps, erule drive) (use assms(2-4) in \<open>auto simp: lease_expired_def\<close>)
      done
    done
qed

lemma tick_later: "t div 10000 < fp_FullUntil (fan_policy_full (t div 10000) p)"
proof -
  have "unat t < 2 ^ 64" using unsigned_less [of t] by simp
  then have "unat (t div 10000) \<le> 1844674407370955" by (simp add: unat_div)
  then have "\<not> t div 10000 > UINT64_MAX - FAN_SPINUP_MS" "unat (t div 10000 + FAN_SPINUP_MS) = unat (t div 10000) + 2000"
    by (simp_all add: word_less_nat_alt unat_word_ariths)
  then show ?thesis by (simp add: fan_policy_full_def word_less_nat_alt)
qed

text \<open>C26. On a board whose firmware has handed the fan over, a watchdog tick of the running driver drives the fan at full speed
  when the lease has expired, while the fan spins up, when the temperature is missing, at least 75 degrees or older than
  two and a half seconds, and when the fan stands still in its third sample; otherwise at the leased speed or, without a lease, at that of the
  curve. An expired lease has no owner afterwards.\<close>

theorem fan_watchdog_drives:
  assumes "fd_Running c" "fs_Failed (fd_State c) = 0" "duty \<le> FAN_TICKS"
  shows "watchdog_result (t div 10000) rpm duty c (snd (run_state (FanWatchdog (fan_board t rpm duty E)) \<lparr>st = c, trace = []\<rparr>))"
proof -
  have "wp (FanWatchdog (fan_board t rpm duty E)) (\<lambda>_. watchdog_result (t div 10000) rpm duty c) \<lparr>st = c, trace = []\<rparr>"
    unfolding FanWatchdog_def Fan_NowMs_def
    apply (rule wp_bindI, rule wp_kernel_doI, rule wp_bindI, rule wp_getsI, rule wp_bindI, rule wp_whenI)
    subgoal
      apply (rule wp_bindI, rule wp_bindI, simp only: wp_io_now fan_board_simps, rule wp_returnI)
      apply (simp only: Let_def id_apply world.simps lease_expired_def [symmetric], rule wp_mono, rule wp_board_watch [where d = duty and c = c])
      by (use assms tick_later in \<open>auto simp: board_at_def watchdog_result_def wp_kernel_do\<close>)
    subgoal using assms(1) by simp
    done
  then show ?thesis by (simp add: wp_def split_beta)
qed

text \<open>A lease at 40 % on a cool machine: 831 of 2078 ticks.\<close>

definition fan_example :: FAN_CONTEXT where
  "fan_example = \<lparr>fd_Registers = 1, fd_Owner = 9, fd_Running = True,
     fd_State = \<lparr>fs_Deadline = 14000, fs_Percent = 100, fs_Expirations = 0, fs_Failed = 0\<rparr>,
     fd_Policy = \<lparr>fp_FullUntil = 9000, fp_TemperatureTime = 9500, fp_NextRpm = 10500, fp_Temperature = 41000, fp_Stalls = 0,
       fp_Previous = 100, fp_Flags = 0\<rparr>, fd_Requested = 40, fd_TemperatureStatus = STATUS_SUCCESS\<rparr>"

theorem fan_watchdog_drives_witness:
  "fan_ticks (watchdog_percent 10000 3000 fan_example) = 831 \<and>
   watchdog_result 10000 3000 0 fan_example
     (snd (run_state (FanWatchdog (fan_board 100000000 3000 0 (regfile (\<lambda>_ _. 0) (\<lambda>_ _. 0)))) \<lparr>st = fan_example, trace = []\<rparr>))"
  using fan_watchdog_drives [of fan_example 0 100000000 3000 "regfile (\<lambda>_ _. 0) (\<lambda>_ _. 0)"]
  by (simp add: fan_example_def watchdog_percent_def full_cooling_def lease_expired_def stalled_def fan_ticks_def)

section \<open>Leases end\<close>

abbreviation fan_deadline :: "FAN_CONTEXT \<Rightarrow> u64" where "fan_deadline \<equiv> fs_Deadline \<circ> fd_State"

text \<open>A part of the state that is kept or cleared: what every call but an accepted request does to the deadline and to the owner.\<close>

definition fades :: "('s \<Rightarrow> u64) \<Rightarrow> 's world \<Rightarrow> 's world \<Rightarrow> bool" where
  "fades g w v \<longleftrightarrow> g (st v) = g (st w) \<or> g (st v) = 0"

interpretation fades: frame "fades g" for g
  by unfold_locales (auto simp: fades_def)

lemma fades_io:
  "preserves (fades g) (emit e)" "preserves (fades g) (io_read E u off)" "preserves (fades g) (io_now E)"
  "preserves (fades g) (io_call E h xs)" "preserves (fades g) (kernel_do E h xs)" "preserves (fades g) (kernel_status E h xs)"
  by (auto simp: preserves_def wp_simps kernel_do_def kernel_status_def fades_def)

lemma fades_modify: "(\<And>s. g (f s) = g s \<or> g (f s) = 0) \<Longrightarrow> preserves (fades g) (modify f)"
  by (simp add: preserves_modify fades_def)

lemma fades_zoom: "preserves (fades fs_Deadline) m \<Longrightarrow> preserves (fades fan_deadline) (on_fan m)"
  by (erule preserves_zoom) (simp add: fades_def)

lemmas fades_intros = fades.pres fades_io fades_zoom

lemma fades_owner: "preserves (fades fd_Owner) (on_fan m)"
  by (rule preserves_zoom [where R = "\<lambda>_ _. True"]) (auto simp: preserves_def fades_def)

lemma fades_fan: "preserves (fades g) (fan_apply E percent)"
  by (auto simp: fan_apply_def fan_ready_def Fan_Read_def Fan_Write_def intro!: fades_intros)

lemma fades_state:
  "preserves (fades fs_Deadline) (fan_full E)" "preserves (fades fs_Deadline) (fan_adjust E percent)"
  "preserves (fades fs_Deadline) (fan_tick E now)"
  unfolding fan_full_def fan_adjust_def fan_tick_def by (intro fades_intros fades_fan fades_modify; simp)+

lemma fades_small:
  "preserves (fades g) (Fan_NowMs E)" "preserves (fades g) (Fan_Read E off)" "preserves (fades g) (Kernel_Diagnostic E name v)"
  "preserves (fades g) (Fan_Report E name off)" "preserves (fades g) (Fan_stop_timers E)"
  by (auto simp: Fan_NowMs_def Fan_Read_def Kernel_Diagnostic_def Fan_Report_def Fan_stop_timers_def intro!: fades_intros)

lemma fades_Target: "preserves (fades fan_deadline) (Fan_Target E now b r)" "preserves (fades fd_Owner) (Fan_Target E now b r)"
  unfolding Fan_Target_def by (intro fades_intros fades_small fades_modify; simp)+

lemma fades_loop: "preserves (fades g) (ReadTemperature_loop L E n status len temperature)"
  by (induction n arbitrary: status len temperature) (auto intro!: fades_intros)

lemma fades_temperature: "preserves (fades g) (ReadTemperature L E)"
  unfolding ReadTemperature_def by (intro fades_intros fades_loop)

lemma fades_Query: "preserves (fades g) (Fan_Query E now)"
  unfolding Fan_Query_def by (intro fades_intros fades_small)

lemma fades_driver:
  "preserves (fades fan_deadline) (FanPrepare E rs)" "preserves (fades fan_deadline) (FanRelease E)"
  "preserves (fades fan_deadline) (FanD0Entry E)" "preserves (fades fan_deadline) (FanD0Exit E)"
  "preserves (fades fan_deadline) (FanWatchdog E)" "preserves (fades fan_deadline) (FanTemperature L E)"
  "preserves (fades fan_deadline) (FanCleanup E f)"
  unfolding FanPrepare_def FanRelease_def FanD0Entry_def FanD0Exit_def FanWatchdog_def FanTemperature_def FanCleanup_def
  by (intro fades_intros fades_small fades_temperature fades_Target fades_state fades_modify; simp)+

lemma fades_owned:
  "preserves (fades fd_Owner) (FanPrepare E rs)" "preserves (fades fd_Owner) (FanRelease E)"
  "preserves (fades fd_Owner) (FanD0Entry E)" "preserves (fades fd_Owner) (FanD0Exit E)"
  "preserves (fades fd_Owner) (FanWatchdog E)" "preserves (fades fd_Owner) (FanTemperature L E)"
  "preserves (fades fd_Owner) (FanCleanup E f)"
  unfolding FanPrepare_def FanRelease_def FanD0Entry_def FanD0Exit_def FanWatchdog_def FanTemperature_def FanCleanup_def
  by (intro fades.pres fades_io fades_owner fades_small fades_temperature fades_Target fades_modify; simp)+

lemma keeps_apply: "preserves (keeps g) (fan_apply E percent)"
  by (auto simp: fan_apply_def fan_ready_def Fan_Read_def Fan_Write_def intro!: keeps_intros)

lemma wp_apply: "(\<And>r v. st v = st w \<Longrightarrow> Q r v) \<Longrightarrow> wp (fan_apply E percent) Q w"
  by (rule wp_keeps [OF keeps_apply [where g = id]]) simp

lemma full_deadline: "wp (fan_full E) (\<lambda>_ v. fs_Deadline (st v) = 0) w"
  unfolding fan_full_def by (intro wp_bindI wp_apply) (simp add: wp_simps)

lemma adjust_deadline: "fs_Deadline (st w) = 0 \<Longrightarrow> wp (fan_adjust E percent) (\<lambda>_ v. fs_Deadline (st v) = 0) w"
  unfolding fan_adjust_def
  by (intro wp_intros wp_apply wp_mono [OF full_deadline]) (auto intro!: wp_intros)

lemma keeps_owner: "preserves (keeps fd_Owner) (on_fan m)" "preserves (keeps fd_Owner) (on_policy f)"
  "preserves (keeps fd_Owner) (Fan_Target E now b r)" "preserves (keeps fan_deadline) (Fan_Target E now b r)"
  by (auto simp: Fan_Target_def Fan_Read_def intro!: keeps_intros)

lemma tick_deadline:
  "fs_Deadline (st w) \<le> now \<Longrightarrow> wp (fan_tick E now) (\<lambda>_ v. fs_Deadline (st v) = 0) w"
  unfolding fan_tick_def
  by (intro wp_intros full_deadline) auto

lemma watchdog_frees:
  assumes "fd_Running (st w)" "fs_Deadline (fd_State (st w)) \<le> env_now E (Call ''WdfWaitLockAcquire'' [0] (env_call E (trace w) ''WdfWaitLockAcquire'' [0]) # trace w) div 10000"
  shows "wp (FanWatchdog E) (\<lambda>_ v. fs_Deadline (fd_State (st v)) = 0 \<and> (fs_Deadline (fd_State (st w)) \<noteq> 0 \<longrightarrow> fd_Owner (st v) = 0)) w"
proof -
  have rest: "wp (do {
       c \<leftarrow> gets id;
       target \<leftarrow> Fan_Target E now (fs_Deadline (fd_State c) \<noteq> 0) (fd_Requested c);
       r \<leftarrow> on_fan (fan_adjust E target);
       kernel_do E g xs
     }) (\<lambda>_ v. fs_Deadline (fd_State (st v)) = 0 \<and> fd_Owner (st v) = fd_Owner (st u)) u"
    if "fs_Deadline (fd_State (st u)) = 0" for u now g xs
    apply (rule wp_bindI, rule wp_getsI, rule wp_bindI, rule wp_frame [OF keeps_owner(3)], rule wp_keeps [OF keeps_owner(4)])
    apply (rule impI, rule wp_bindI, rule wp_zoomI, rule wp_mono, rule adjust_deadline)
    using that by (auto simp: keeps_def intro!: wp_kernel_doI)
  have block: "wp (do {
       r \<leftarrow> on_fan (fan_tick E now);
       whenM (fs_Deadline (fd_State c) \<noteq> 0 \<and> fs_Deadline (fd_State c) \<le> now) (do { modify (\<lambda>c. c\<lparr>fd_Owner := 0\<rparr>); on_policy (fan_policy_full now) });
       c \<leftarrow> gets id;
       target \<leftarrow> Fan_Target E now (fs_Deadline (fd_State c) \<noteq> 0) (fd_Requested c);
       r \<leftarrow> on_fan (fan_adjust E target);
       kernel_do E g xs
     }) (\<lambda>_ v. fs_Deadline (fd_State (st v)) = 0 \<and> (fs_Deadline (fd_State c) \<noteq> 0 \<longrightarrow> fd_Owner (st v) = 0)) u"
    if "st u = c" "fs_Deadline (fd_State c) \<le> now" for u c now g xs
    apply (rule wp_bindI, rule wp_zoomI, rule wp_mono, rule tick_deadline)
    subgoal using that by simp
    apply (rule wp_bindI, rule wp_whenI)
    subgoal by (rule wp_bindI, rule wp_modifyI, rule wp_modifyI, rule wp_mono, rule rest) simp_all
    subgoal by (rule wp_mono, rule rest) (use that(2) in simp_all)
    done
  show ?thesis
    unfolding FanWatchdog_def Fan_NowMs_def
    apply (rule wp_bindI, simp only: wp_kernel_do, rule wp_bindI, rule wp_getsI, rule wp_bindI, rule wp_whenI)
    subgoal
      apply (rule wp_bindI, rule wp_bindI, simp only: wp_io_now, rule wp_returnI)
      apply (simp only: Let_def id_apply, rule wp_mono, rule block)
      by (use assms in \<open>auto simp: wp_kernel_do\<close>)
    subgoal using assms(1) by simp
    done
qed

text \<open>A request that sets the speed: accepted, its lease runs from the time of the request, for as long as it asks and at most five
  seconds, and belongs to its file; otherwise it extends nothing.\<close>

definition lease_given :: "u64 \<Rightarrow> fan_request \<Rightarrow> NTSTATUS \<Rightarrow> FAN_CONTEXT world \<Rightarrow> FAN_CONTEXT world \<Rightarrow> bool" where
  "lease_given now q s w v \<longleftrightarrow>
     (if s = STATUS_SUCCESS then unat (fan_deadline (st v)) = unat now + unat (fr_lease_ms (fn_Set q)) \<and> fr_lease_ms (fn_Set q) \<le> FAN_MAX_LEASE_MS \<and>
        fd_Owner (st v) = fn_File q
      else fades fan_deadline w v \<and> fades fd_Owner w v)"

lemma deadline_sum:
  fixes now :: u64 and l :: u32
  assumes "\<not> UINT64_MAX - ucast l < now"
  shows "unat (now + ucast l) = unat now + unat l"
proof -
  have u: "unat (ucast l :: u64) = unat l" by (rule unat_ucast_up) simp
  have b: "unat l < 2 ^ 32" using unsigned_less [of l, where ?'a = nat] by simp
  have "unat (UINT64_MAX - ucast l :: u64) = unat (UINT64_MAX :: u64) - unat (ucast l :: u64)"
    by (rule unat_sub) (use b u in \<open>simp add: word_le_nat_alt\<close>)
  with assms u b have "unat now + unat (ucast l :: u64) < 2 ^ 64" by (simp add: word_less_nat_alt)
  then show ?thesis using u by (simp add: unat_word_ariths)
qed

lemma fades_fan_set:
  "wp (fan_set E percent l now) (\<lambda>r v. if r = FAN_OK then unat (fs_Deadline (st v)) = unat now + unat l \<and> l \<le> FAN_MAX_LEASE_MS else fades fs_Deadline w v) w"
  unfolding fan_set_def
  apply (rule wp_ifI, simp add: wp_simps fades_def)
  apply (rule wp_bindI, rule wp_frame [OF fades_state(2) [where percent = percent and E = E]], rule wpI)
  by (auto simp: wp_simps not_less deadline_sum)

lemma result_success [simp]: "Fan_ResultStatus r = STATUS_SUCCESS \<longleftrightarrow> r = FAN_OK" "NT_SUCCESS (Fan_ResultStatus r) \<longleftrightarrow> r = FAN_OK"
  by (cases r; simp add: Fan_ResultStatus_def)+

lemma set_lease: "wp (Fan_Set E now q) (\<lambda>s. lease_given now q s w) w"
proof -
  have fades: "lease_given now q s w v" if "s \<noteq> STATUS_SUCCESS" "fan_deadline (st v) = fan_deadline (st w)" "fd_Owner (st v) = fd_Owner (st w)" for s v
    using that by (simp add: lease_given_def fades_def)
  have place: "wp (do {
            target \<leftarrow> Fan_Target E now True (fr_percent (fn_Set q));
            r \<leftarrow> on_fan (fan_set E target (fr_lease_ms (fn_Set q)) now);
            whenM (NT_SUCCESS (Fan_ResultStatus r)) (modify (\<lambda>c. c\<lparr>fd_Owner := fn_File q, fd_Requested := fr_percent (fn_Set q)\<rparr>));
            ret (Fan_ResultStatus r)
          }) (\<lambda>s. lease_given now q s w) u" if "st u = st w" for u
    apply (rule wp_bindI, rule wp_frame [OF keeps_owner(3)], rule wp_keeps [OF keeps_owner(4)], rule impI, rule wp_bindI, rule wp_zoomI, rule wp_mono,
      rule fades_fan_set)
    using that by (auto simp: wp_simps lease_given_def fades_def keeps_def)
  show ?thesis
    unfolding Fan_Set_def Let_def
    apply (rule wp_ifI, rule wp_returnI, (rule fades; simp))
    apply (rule wp_bindI, rule wp_kernel_any, rule wp_ifI, rule wp_returnI, (rule fades; auto))
    apply (rule wp_ifI, rule wp_returnI, (rule fades; simp))
    apply (rule wp_bindI, rule wp_getsI, rule wp_ifI, rule wp_returnI, (rule fades; simp))
    apply (rule place, simp)
    done
qed

lemma control_lease:
  "wp (FanControl E code q) (\<lambda>r v. if code = IOCTL_FAN_SET then lease_given (env_now E (trace w) div 10000) q (fst r) w v
     else fades fan_deadline w v \<and> fades fd_Owner w v) w"
proof -
  have set': "wp (do { s \<leftarrow> Fan_Set E now q; ret (s, None) }) (\<lambda>r. lease_given now q (fst r) w) u" if "st u = st w" for now u
    apply (rule wp_bindI, rule wp_mono, rule set_lease)
    using that by (auto simp: wp_simps lease_given_def fades_def split: if_splits)
  have query: "wp (do {
           status \<leftarrow> kernel_status E f xs;
           if \<not> NT_SUCCESS status then ret (status, None)
           else do { reply \<leftarrow> Fan_Query E now; ret (status, Some reply) }
         }) (\<lambda>_ v. fades fan_deadline w v \<and> fades fd_Owner w v) u" if "st u = st w" for now u f xs
    apply (rule wp_bindI, rule wp_kernel_any, rule wp_ifI)
    using that apply (simp add: wp_simps fades_def)
    apply (rule wp_bindI, rule wp_frame [OF fades_Query [of fan_deadline]], rule wp_frame [OF fades_Query [of fd_Owner]], rule wpI)
    using that by (simp add: wp_simps fades_def)
  show ?thesis
    unfolding FanControl_def Fan_NowMs_def
    apply (rule wp_bindI, rule wp_bindI, simp only: wp_io_now, rule wp_returnI, rule wp_bindI, simp only: wp_kernel_do, rule wp_bindI, rule wp_getsI, rule wp_bindI)
    apply (rule wp_ifI, simp add: wp_simps lease_given_def fades_def)
    apply (rule wp_ifI, rule wp_ifI, simp add: wp_simps fades_def)
    apply (rule wp_mono, rule query, simp, simp add: wp_simps fades_def)
    apply (rule wp_ifI, rule wp_mono, rule set', simp)
    apply (simp add: wp_simps lease_given_def fades_def split: if_splits)
    apply (simp add: wp_simps fades_def)
    done
qed

abbreviation fan_session :: "wmi_layout \<Rightarrow> env \<Rightarrow> FAN_CONTEXT \<Rightarrow> fan_op list \<Rightarrow> FAN_CONTEXT world" where
  "fan_session L E c ops \<equiv> snd (run_state (forM ops (fan_run L E)) \<lparr>st = c, trace = []\<rparr>)"

text \<open>The last accepted request of a session, with the time it came in.\<close>

fun fan_granted :: "env \<Rightarrow> FAN_CONTEXT world \<Rightarrow> fan_op \<Rightarrow> (u64 \<times> fan_request) option" where
  "fan_granted E w (FanOpControl IOCTL_FAN_SET q) =
     (if fst (fst (run_state (FanControl E IOCTL_FAN_SET q) w)) = STATUS_SUCCESS then Some (env_now E (trace w) div 10000, q) else None)"
| "fan_granted E w op = None"

fun last_lease :: "wmi_layout \<Rightarrow> env \<Rightarrow> (u64 \<times> fan_request) option \<Rightarrow> fan_op list \<Rightarrow> FAN_CONTEXT world \<Rightarrow> (u64 \<times> fan_request) option" where
  "last_lease L E lease [] w = lease"
| "last_lease L E lease (op # ops) w =
     last_lease L E (case fan_granted E w op of None \<Rightarrow> lease | Some g \<Rightarrow> Some g) ops (snd (run_state (fan_run L E op) w))"

text \<open>What the driver knows of it: the lease, exactly as accepted, or none any more.\<close>

definition lease_known :: "(u64 \<times> fan_request) option \<Rightarrow> FAN_CONTEXT \<Rightarrow> bool" where
  "lease_known lease c \<longleftrightarrow> fan_deadline c = 0 \<or> (\<exists>now q. lease = Some (now, q) \<and> fr_lease_ms (fn_Set q) \<le> FAN_MAX_LEASE_MS \<and>
     unat (fan_deadline c) = unat now + unat (fr_lease_ms (fn_Set q)) \<and> fd_Owner c \<in> {0, fn_File q})"

lemma known_fades: "lease_known l (st w) \<Longrightarrow> fades fan_deadline w v \<Longrightarrow> fades fd_Owner w v \<Longrightarrow> lease_known l (st v)"
  by (auto simp: lease_known_def fades_def)

lemma known_run:
  assumes "lease_known lease (st w)" "run_state (fan_run L E op) w = (r, v)"
  shows "lease_known (case fan_granted E w op of None \<Rightarrow> lease | Some g \<Rightarrow> Some g) (st v)"
proof (cases "\<exists>code q. op = FanOpControl code q")
  case True
  then obtain code q where op: "op = FanOpControl code q" by blast
  obtain s where run: "run_state (FanControl E code q) w = (s, v)"
    using assms(2) by (cases "run_state (FanControl E code q) w") (simp add: op wp_simps)
  show ?thesis
  proof (cases "code = IOCTL_FAN_SET")
    case set': True
    then have "lease_given (env_now E (trace w) div 10000) q (fst s) w v" using wpD [OF control_lease run] by simp
    with assms(1) show ?thesis
      using run by (auto simp: op set' lease_given_def lease_known_def fades_def split: if_splits)
  next
    case False
    then have "fan_granted E w op = None" by (cases code) (simp_all add: op)
    with False wpD [OF control_lease run] assms(1) show ?thesis by (auto intro: known_fades)
  qed
next
  case False
  have "preserves (fades fan_deadline) (fan_run L E op)" "preserves (fades fd_Owner) (fan_run L E op)"
    using False by (cases op; auto simp: fades_driver fades_owned fades.pres)+
  moreover have "fan_granted E w op = None" using False by (cases op) simp_all
  ultimately show ?thesis
    using preservesD [OF _ assms(2), of "fades fan_deadline"] preservesD [OF _ assms(2), of "fades fd_Owner"] known_fades [OF assms(1)] by simp
qed

lemma known_runs: "lease_known lease (st w) \<Longrightarrow> lease_known (last_lease L E lease ops w) (st (snd (run_state (forM ops (fan_run L E)) w)))"
proof (induction ops arbitrary: lease w)
  case (Cons op ops)
  obtain r v where run: "run_state (fan_run L E op) w = (r, v)" by (cases "run_state (fan_run L E op) w")
  with Cons.IH [OF known_run [OF Cons.prems run]] show ?case by (simp add: wp_simps)
qed (simp add: wp_simps)

text \<open>The time a watchdog tick works with.\<close>

definition tick_time :: "env \<Rightarrow> FAN_CONTEXT world \<Rightarrow> u64" where
  "tick_time E w = env_now E (Call ''WdfWaitLockAcquire'' [0] (env_call E (trace w) ''WdfWaitLockAcquire'' [0]) # trace w) div 10000"

text \<open>C25. No lease outlives its time, at most five seconds: after any sequence of callbacks, timers and requests, on any hardware, the deadline the driver
  holds is the one of the last accepted request, exactly as long after the time of that request as it asked for, and no file but the one of that
  request owns the fan; nothing else, not a query, a tick or a refused request, can extend it. The first watchdog tick of the running driver at or after that time
  takes the fan out of manual control and away from the file.\<close>

theorem fan_lease_ends:
  assumes "fs_Deadline (fd_State c) = 0" "w = fan_session L E c ops"
  shows "case last_lease L E None ops \<lparr>st = c, trace = []\<rparr> of
      None \<Rightarrow> fs_Deadline (fd_State (st w)) = 0
    | Some (now, q) \<Rightarrow> fs_Deadline (fd_State (st w)) = 0 \<or>
        fr_lease_ms (fn_Set q) \<le> 5000 \<and> unat (fs_Deadline (fd_State (st w))) = unat now + unat (fr_lease_ms (fn_Set q)) \<and>
        fd_Owner (st w) \<in> {0, fn_File q} \<and>
        (fd_Running (st w) \<and> unat now + unat (fr_lease_ms (fn_Set q)) \<le> unat (tick_time E w) \<longrightarrow>
          (case run_state (FanWatchdog E) w of (_, v) \<Rightarrow> fs_Deadline (fd_State (st v)) = 0 \<and> fd_Owner (st v) = 0))"
proof -
  have known: "lease_known (last_lease L E None ops \<lparr>st = c, trace = []\<rparr>) (st w)"
    unfolding assms(2) by (rule known_runs) (simp add: lease_known_def assms(1))
  have tick: "case run_state (FanWatchdog E) w of (_, v) \<Rightarrow> fs_Deadline (fd_State (st v)) = 0 \<and> fd_Owner (st v) = 0"
    if "fd_Running (st w)" "unat (fs_Deadline (fd_State (st w))) \<le> unat (tick_time E w)" "fs_Deadline (fd_State (st w)) \<noteq> 0"
    using watchdog_frees [of w E] that by (auto simp: wp_def tick_time_def word_le_nat_alt)
  show ?thesis
    using known tick by (auto simp: lease_known_def split: option.splits)
qed

definition fan_free :: FAN_CONTEXT where
  "fan_free = \<lparr>fd_Registers = 1, fd_Owner = 0, fd_Running = True,
     fd_State = \<lparr>fs_Deadline = 0, fs_Percent = 100, fs_Expirations = 0, fs_Failed = 0\<rparr>,
     fd_Policy = \<lparr>fp_FullUntil = 0, fp_TemperatureTime = 0, fp_NextRpm = 0, fp_Temperature = 41000, fp_Stalls = 0,
       fp_Previous = 100, fp_Flags = 0\<rparr>, fd_Requested = 100, fd_TemperatureStatus = STATUS_SUCCESS\<rparr>"

definition lease_40 :: fan_request where
  "lease_40 = \<lparr>fn_OutputLength = 0, fn_InputLength = 16, fn_File = 9,
     fn_Set = \<lparr>fr_size = 16, fr_version = FAN_ABI_VERSION, fr_percent = 40, fr_lease_ms = 5000\<rparr>\<rparr>"

text \<open>A clock that advances by a fifth of a second with every event, and a file that leases the fan and asks how it is doing; then another
  one asks for the fan and is refused.\<close>

definition fan_clock :: env where
  "fan_clock = (regfile (\<lambda>_ _. 0) (\<lambda>_ _. 0))\<lparr>env_read := (\<lambda>t u off. if off = FAN_GLOBAL then 0x80000008 else if off = FAN_CONTROL then 0x109
     else if off = FAN_RANGE then FAN_TICKS else if off = FAN_DUTY then 831 else if off = FAN_RPM then 3000 else 0),
     env_now := (\<lambda>t. 10000000 + 2000000 * of_nat (length t))\<rparr>"

definition lease_ops :: "fan_op list" where
  "lease_ops = [FanOpControl IOCTL_FAN_SET lease_40, FanOpControl IOCTL_FAN_QUERY (lease_40\<lparr>fn_InputLength := 0\<rparr>),
     FanOpControl IOCTL_FAN_SET (lease_40\<lparr>fn_File := 7\<rparr>)]"

theorem fan_lease_ends_witness:
  "let w = fan_session fan_layout fan_clock fan_free lease_ops in fs_Deadline (fd_State (st w)) = 6000 \<and> fd_Owner (st w) = 9 \<and>
     (case run_state (FanWatchdog fan_clock) w of (_, v) \<Rightarrow> fs_Deadline (fd_State (st v)) = 0 \<and> fd_Owner (st v) = 0)"
proof -
  let ?w = "fan_session fan_layout fan_clock fan_free lease_ops"
  have "case run_state (forM lease_ops (fan_run fan_layout fan_clock)) \<lparr>st = fan_free, trace = []\<rparr> of (_, w) \<Rightarrow>
      fs_Deadline (fd_State (st w)) = 6000 \<and> fd_Owner (st w) = 9 \<and> fd_Running (st w) \<and> length (trace w) = 26"
    by code_simp
  then have run: "fs_Deadline (fd_State (st ?w)) = 6000" "fd_Owner (st ?w) = 9" "fd_Running (st ?w)" "length (trace ?w) = 26"
    by (simp_all add: split_beta)
  have tick: "tick_time fan_clock ?w = 6400"
    using run(4) by (simp add: tick_time_def fan_clock_def)
  have first: "case run_state (FanControl fan_clock IOCTL_FAN_SET lease_40) \<lparr>st = fan_free, trace = []\<rparr> of (r, v) \<Rightarrow> fst r = STATUS_SUCCESS"
    by code_simp
  have third: "case run_state (forM (take 2 lease_ops) (fan_run fan_layout fan_clock)) \<lparr>st = fan_free, trace = []\<rparr> of (_, v) \<Rightarrow>
      fst (fst (run_state (FanControl fan_clock IOCTL_FAN_SET (lease_40\<lparr>fn_File := 7\<rparr>)) v)) = STATUS_DEVICE_BUSY"
    by code_simp
  have last': "last_lease fan_layout fan_clock None lease_ops \<lparr>st = fan_free, trace = []\<rparr> = Some (1000, lease_40)"
    using first third by (simp add: lease_ops_def split_beta wp_simps) (simp add: fan_clock_def)
  show ?thesis
    using fan_lease_ends [where c = fan_free and w = ?w and L = fan_layout and E = fan_clock and ops = lease_ops] run tick last'
    by (simp add: fan_free_def Let_def lease_40_def)
qed

end
