(* ===== verification/Rp1_Gem.thy ===== *)
theory Rp1_Gem
  imports Kernel
begin

unbundle bit_operations_syntax

text \<open>
  The Ethernet controller of the RP1 chip without its miniport driver (\<open>rp1-ethernet/gem.c\<close>): the PHY behind the
  MDIO register, the descriptor rings, the copies between frames and the memory shared with the device, and the controller's
  configuration. The properties: copies are exact and aligned, and the rings are built as the device must find them.
\<close>

section \<open>Registers and descriptors\<close>

abbreviation GEM_NCR :: u32 where "GEM_NCR \<equiv> 0"
abbreviation GEM_NCFGR :: u32 where "GEM_NCFGR \<equiv> 4"
abbreviation GEM_NSR :: u32 where "GEM_NSR \<equiv> 8"
abbreviation GEM_USRIO :: u32 where "GEM_USRIO \<equiv> 0xc"
abbreviation GEM_DMACFG :: u32 where "GEM_DMACFG \<equiv> 0x10"
abbreviation GEM_TSR :: u32 where "GEM_TSR \<equiv> 0x14"
abbreviation GEM_RBQP :: u32 where "GEM_RBQP \<equiv> 0x18"
abbreviation GEM_TBQP :: u32 where "GEM_TBQP \<equiv> 0x1c"
abbreviation GEM_RSR :: u32 where "GEM_RSR \<equiv> 0x20"
abbreviation GEM_ISR :: u32 where "GEM_ISR \<equiv> 0x24"
abbreviation GEM_IER :: u32 where "GEM_IER \<equiv> 0x28"
abbreviation GEM_IDR :: u32 where "GEM_IDR \<equiv> 0x2c"
abbreviation GEM_MAN :: u32 where "GEM_MAN \<equiv> 0x34"
abbreviation GEM_DCFG1 :: u32 where "GEM_DCFG1 \<equiv> 0x280"
abbreviation GEM_DCFG6 :: u32 where "GEM_DCFG6 \<equiv> 0x294"
abbreviation GEM_SA1B :: u32 where "GEM_SA1B \<equiv> 0x88"
abbreviation GEM_SA1T :: u32 where "GEM_SA1T \<equiv> 0x8c"
abbreviation GEM_RE :: u32 where "GEM_RE \<equiv> 4"
abbreviation GEM_TE :: u32 where "GEM_TE \<equiv> 8"
abbreviation GEM_MPE :: u32 where "GEM_MPE \<equiv> 0x10"
abbreviation GEM_TSTART :: u32 where "GEM_TSTART \<equiv> 0x200"
abbreviation GEM_TX_GO :: u32 where "GEM_TX_GO \<equiv> 8"
abbreviation GEM_IRQ_RX :: u32 where "GEM_IRQ_RX \<equiv> 2"
abbreviation GEM_IRQ_TX :: u32 where "GEM_IRQ_TX \<equiv> 0x80"
abbreviation GEM_IRQ_FATAL :: u32 where "GEM_IRQ_FATAL \<equiv> 0x870"
abbreviation GEM_IRQ_MASK :: u32 where "GEM_IRQ_MASK \<equiv> 0xcf2"
abbreviation GEM_RX_OWN :: u32 where "GEM_RX_OWN \<equiv> 1"
abbreviation GEM_RX_WRAP :: u32 where "GEM_RX_WRAP \<equiv> 2"
abbreviation GEM_RX_SOF :: u32 where "GEM_RX_SOF \<equiv> 0x4000"
abbreviation GEM_RX_EOF :: u32 where "GEM_RX_EOF \<equiv> 0x8000"
abbreviation GEM_TX_LAST :: u32 where "GEM_TX_LAST \<equiv> 0x8000"
abbreviation GEM_TX_ERRORS :: u32 where "GEM_TX_ERRORS \<equiv> 0x38000000"
abbreviation GEM_TX_WRAP :: u32 where "GEM_TX_WRAP \<equiv> 0x40000000"
abbreviation GEM_TX_USED :: u32 where "GEM_TX_USED \<equiv> 0x80000000"
abbreviation GEM_RING_SIZE :: nat where "GEM_RING_SIZE \<equiv> 512"
abbreviation GEM_BUFFER_SIZE :: nat where "GEM_BUFFER_SIZE \<equiv> 2048"
abbreviation GEM_FRAME_MAX :: nat where "GEM_FRAME_MAX \<equiv> 1514"
abbreviation GEM_RX_DESC_OFFSET :: nat where "GEM_RX_DESC_OFFSET \<equiv> 0"
abbreviation GEM_TX_DESC_OFFSET :: nat where "GEM_TX_DESC_OFFSET \<equiv> 4096"
abbreviation GEM_TIE_OFFSET :: nat where "GEM_TIE_OFFSET \<equiv> 8192"
abbreviation GEM_RX_DATA_OFFSET :: nat where "GEM_RX_DATA_OFFSET \<equiv> 12288"
abbreviation GEM_TX_DATA_OFFSET :: nat where "GEM_TX_DATA_OFFSET \<equiv> 1060864"
abbreviation GEM_DMA_SIZE :: nat where "GEM_DMA_SIZE \<equiv> 2109440"

text \<open>The registers are bank 0, the words of the memory shared with the device are bank 1.\<close>

definition Gem_Read :: "env \<Rightarrow> u32 \<Rightarrow> ('s, u32) prog" where
  "Gem_Read E off = io_read E 0 off"

text \<open>A write is drained by a read: the chip is behind PCIe.\<close>

definition Gem_Write :: "env \<Rightarrow> u32 \<Rightarrow> u32 \<Rightarrow> ('s, unit) prog" where
  "Gem_Write E off v = do { io_write 0 off v; r \<leftarrow> io_read E 0 GEM_NSR; ret () }"

abbreviation ring_write :: "nat \<Rightarrow> u32 \<Rightarrow> ('s, unit) prog" where
  "ring_write off v \<equiv> io_write 1 (of_nat off) v"

abbreviation ring_read :: "env \<Rightarrow> nat \<Rightarrow> ('s, u32) prog" where
  "ring_read E off \<equiv> io_read E 1 (of_nat off)"

section \<open>The PHY\<close>

fun mdio_idle_loop :: "env \<Rightarrow> nat \<Rightarrow> ('s, bool) prog" where
  "mdio_idle_loop E 0 = ret False"
| "mdio_idle_loop E (Suc n) = do {
     v \<leftarrow> Gem_Read E GEM_NSR;
     if v AND 4 \<noteq> 0 then ret True else do { io_delay 10; mdio_idle_loop E n }
   }"

definition mdio_idle :: "env \<Rightarrow> ('s, bool) prog" where
  "mdio_idle E = mdio_idle_loop E 100"

definition mdio_command :: "u32 \<Rightarrow> u16 \<Rightarrow> bool \<Rightarrow> u32" where
  "mdio_command reg data rd = push_bit 30 1 OR push_bit 28 (if rd then 2 else 1) OR push_bit 23 1 OR push_bit 18 reg OR
     push_bit 16 2 OR (if rd then 0 else ucast data)"

text \<open>The value of a read, the written value for a write; \<open>None\<close> when it failed.\<close>

definition mdio :: "env \<Rightarrow> u32 \<Rightarrow> u16 \<Rightarrow> bool \<Rightarrow> ('s, u16 option) prog" where
  "mdio E reg data rd =
     (if reg > 31 then ret None
      else do {
        idle \<leftarrow> mdio_idle E;
        if \<not> idle then ret None
        else do {
          Gem_Write E GEM_MAN (mdio_command reg data rd);
          idle \<leftarrow> mdio_idle E;
          if \<not> idle then ret None
          else if rd then do { v \<leftarrow> Gem_Read E GEM_MAN; ret (Some (ucast v)) }
          else ret (Some data)
        }
      })"

definition gem_mdio_read :: "env \<Rightarrow> u32 \<Rightarrow> ('s, u16 option) prog" where
  "gem_mdio_read E reg = mdio E reg 0 True"

definition gem_mdio_write :: "env \<Rightarrow> u32 \<Rightarrow> u16 \<Rightarrow> ('s, u16 option) prog" where
  "gem_mdio_write E reg value = mdio E reg value False"

text \<open>Writes one after the other, and a read that computes the value of a write, both until one fails.\<close>

fun mdio_writes :: "env \<Rightarrow> (u32 \<times> u16) list \<Rightarrow> ('s, unit option) prog" where
  "mdio_writes E [] = ret (Some ())"
| "mdio_writes E ((reg, value) # ws) = andthen (gem_mdio_write E reg value) (\<lambda>_. mdio_writes E ws)"

definition mdio_update :: "env \<Rightarrow> u32 \<Rightarrow> (u16 \<Rightarrow> u16) \<Rightarrow> ('s, u16 option) prog" where
  "mdio_update E reg f = andthen (gem_mdio_read E reg) (\<lambda>value. gem_mdio_write E reg (f value))"

fun phy_reset_loop :: "env \<Rightarrow> nat \<Rightarrow> ('s, unit option) prog" where
  "phy_reset_loop E 0 = ret None"
| "phy_reset_loop E (Suc n) = andthen (gem_mdio_read E 0) (\<lambda>value.
     if value AND 0x8000 = 0 then ret (Some ()) else do { io_delay 1000; phy_reset_loop E n })"

definition gem_phy_setup :: "env \<Rightarrow> ('s, unit option) prog" where
  "gem_phy_setup E =
     andthen (gem_mdio_write E 0 0x8000) (\<lambda>_.
     andthen (phy_reset_loop E 500) (\<lambda>_.
     andthen (gem_mdio_write E 0x18 0x7007) (\<lambda>_.
     andthen (mdio_update E 0x18 (\<lambda>value. value OR 0x8107)) (\<lambda>_.
     andthen (gem_mdio_write E 0x1c 0xc00) (\<lambda>_.
     andthen (mdio_update E 0x1c (\<lambda>value. 0x8c00 OR (value AND 0x3ff) OR 0x200)) (\<lambda>_.
     andthen (gem_mdio_write E 0x17 0x0d00) (\<lambda>_.
     andthen (mdio_update E 0x15 (\<lambda>value. value AND NOT 1)) (\<lambda>_.
     andthen (mdio_writes E [(0x17, 0), (13, 7), (14, 60), (13, 0x4007), (14, 0), (13, 0)]) (\<lambda>_.
     mdio_writes E [(4, 0x0141), (9, 0x0200), (0, 0x1200)])))))))))"

text \<open>The speed of the link, \<open>None\<close> for the result -1.\<close>

definition link_speed :: "u16 \<Rightarrow> u16 \<Rightarrow> u16 \<Rightarrow> u16 \<Rightarrow> u32" where
  "link_speed giga giga_partner adv partner =
     (if giga_partner AND 0x8000 \<noteq> 0 then 0
      else if giga AND 0x200 \<noteq> 0 \<and> giga_partner AND 0x800 \<noteq> 0 then 1000
      else if adv AND partner AND 0x100 \<noteq> 0 then 100
      else if adv AND partner AND 0x40 \<noteq> 0 then 10
      else 0)"

definition gem_link :: "env \<Rightarrow> ('s, u32 option) prog" where
  "gem_link E =
     andthen (gem_mdio_read E 1) (\<lambda>_.
     andthen (gem_mdio_read E 1) (\<lambda>bmsr.
     if bmsr AND 0x24 \<noteq> 0x24 then ret (Some 0)
     else andthen (gem_mdio_read E 9) (\<lambda>giga.
       andthen (gem_mdio_read E 10) (\<lambda>giga_partner.
       andthen (gem_mdio_read E 4) (\<lambda>adv.
       andthen (gem_mdio_read E 5) (\<lambda>partner. ret (Some (link_speed giga giga_partner adv partner))))))))"

section \<open>Addresses and lengths\<close>

definition gem_valid_mac :: "u8 list \<Rightarrow> bool" where
  "gem_valid_mac mac \<longleftrightarrow> mac ! 0 AND 1 = 0 \<and> fold (\<lambda>i any. any OR mac ! i) [0..<6] 0 \<noteq> 0"

definition gem_dma_range_valid :: "u64 \<Rightarrow> u32 \<Rightarrow> bool" where
  "gem_dma_range_valid address len \<longleftrightarrow> len \<noteq> 0 \<and> address AND 4095 = 0 \<and> address \<le> 0xffffffff \<and>
     ucast (len - 1) \<le> 0xffffffff - address"

definition gem_rx_length :: "u32 \<Rightarrow> nat option" where
  "gem_rx_length control =
     (let n = unat (control AND 0xfff) in
      if control AND (GEM_RX_SOF OR GEM_RX_EOF) \<noteq> GEM_RX_SOF OR GEM_RX_EOF \<or> n < 14 \<or> n > GEM_FRAME_MAX then None else Some n)"

section \<open>Copies to and from the shared memory\<close>

text \<open>The accesses of a copy, each an offset and a width: bytes up to an aligned address \<open>a\<close>, then words, then bytes.\<close>

function copy_head :: "nat \<Rightarrow> nat \<Rightarrow> nat \<Rightarrow> (nat \<times> nat) list \<times> nat" where
  "copy_head a at n =
     (if at < n \<and> (a + at) mod 8 \<noteq> 0 then case copy_head a (at + 1) n of (xs, r) \<Rightarrow> ((at, 1) # xs, r) else ([], at))"
  by pat_completeness auto
termination
  by (relation "measure (\<lambda>(a, at, n). n - at)") auto

function copy_words :: "nat \<Rightarrow> nat \<Rightarrow> (nat \<times> nat) list \<times> nat" where
  "copy_words at n = (if at + 8 \<le> n then case copy_words (at + 8) n of (xs, r) \<Rightarrow> ((at, 8) # xs, r) else ([], at))"
  by pat_completeness auto
termination
  by (relation "measure (\<lambda>(at, n). n - at)") auto

function copy_tail :: "nat \<Rightarrow> nat \<Rightarrow> (nat \<times> nat) list" where
  "copy_tail at n = (if at < n then (at, 1) # copy_tail (at + 1) n else [])"
  by pat_completeness auto
termination
  by (relation "measure (\<lambda>(at, n). n - at)") auto

declare copy_head.simps [simp del] copy_words.simps [simp del] copy_tail.simps [simp del]

definition copy_accesses :: "nat \<Rightarrow> nat \<Rightarrow> (nat \<times> nat) list" where
  "copy_accesses a n = (case copy_head a 0 n of (head, at) \<Rightarrow> case copy_words at n of (body, at) \<Rightarrow> head @ body @ copy_tail at n)"

text \<open>A word is its bytes, lowest first.\<close>

fun le_word :: "u8 list \<Rightarrow> u64" where
  "le_word [] = 0"
| "le_word (b # bs) = ucast b OR push_bit 8 (le_word bs)"

definition le_bytes :: "nat \<Rightarrow> u64 \<Rightarrow> u8 list" where
  "le_bytes n v = map (\<lambda>i. ucast (drop_bit (8 * i) v)) [0..<n]"

definition gem_copy_to_dma :: "env \<Rightarrow> nat \<Rightarrow> u8 list \<Rightarrow> ('s, unit) prog" where
  "gem_copy_to_dma E destination source = forM (copy_accesses destination (length source)) (\<lambda>(at, n).
     kernel_do E ''store'' [of_nat (destination + at), of_nat n, le_word (take n (drop at source))])"

definition gem_copy_from_dma :: "env \<Rightarrow> nat \<Rightarrow> nat \<Rightarrow> ('s, u8 list) prog" where
  "gem_copy_from_dma E source n = do {
     parts \<leftarrow> mapM (copy_accesses source n) (\<lambda>(at, k). do { v \<leftarrow> io_call E ''load'' [of_nat (source + at), of_nat k]; ret (le_bytes k v) });
     ret (concat parts)
   }"

section \<open>The rings\<close>

abbreviation rx_desc :: "nat \<Rightarrow> nat" where "rx_desc i \<equiv> GEM_RX_DESC_OFFSET + 8 * i"
abbreviation tx_desc :: "nat \<Rightarrow> nat" where "tx_desc i \<equiv> GEM_TX_DESC_OFFSET + 8 * i"

definition gem_init_rings :: "env \<Rightarrow> u32 \<Rightarrow> ('s, unit) prog" where
  "gem_init_rings E dma = do {
     forM [0..<GEM_RING_SIZE] (\<lambda>i. do {
       ring_write (rx_desc i + 4) 0;
       ring_write (rx_desc i) (dma + of_nat GEM_RX_DATA_OFFSET + of_nat (i * GEM_BUFFER_SIZE));
       whenM (i = GEM_RING_SIZE - 1) (do { v \<leftarrow> ring_read E (rx_desc i); ring_write (rx_desc i) (v OR GEM_RX_WRAP) });
       ring_write (tx_desc i) (dma + of_nat GEM_TX_DATA_OFFSET + of_nat (i * GEM_BUFFER_SIZE));
       ring_write (tx_desc i + 4) (GEM_TX_USED OR (if i = GEM_RING_SIZE - 1 then GEM_TX_WRAP else 0))
     });
     ring_write GEM_TIE_OFFSET (GEM_RX_OWN OR GEM_RX_WRAP);
     ring_write (GEM_TIE_OFFSET + 4) 0;
     ring_write (GEM_TIE_OFFSET + 8) 0;
     ring_write (GEM_TIE_OFFSET + 12) (GEM_TX_USED OR GEM_TX_WRAP)
   }"

section \<open>The controller\<close>

definition gem_disable :: "env \<Rightarrow> ('s, unit) prog" where
  "gem_disable E = do { Gem_Write E GEM_IDR 0xffffffff; Gem_Write E GEM_NCR GEM_MPE }"

definition gem_interrupt_status :: "env \<Rightarrow> bool \<Rightarrow> ('s, u32) prog" where
  "gem_interrupt_status E clear_on_read = do {
     status \<leftarrow> Gem_Read E GEM_ISR;
     whenM (\<not> clear_on_read \<and> status \<noteq> 0) (Gem_Write E GEM_ISR status);
     ret status
   }"

definition gem_queue :: "env \<Rightarrow> u32 \<Rightarrow> u32 \<Rightarrow> nat \<Rightarrow> ('s, unit) prog" where
  "gem_queue E dma queues q = whenM (queues AND push_bit q 1 \<noteq> 0) (do {
     Gem_Write E (0x620 + of_nat (q - 1) * 4) 0xffffffff;
     Gem_Write E (0x440 + of_nat (q - 1) * 4) (dma + of_nat GEM_TIE_OFFSET + 8);
     Gem_Write E (0x480 + of_nat (q - 1) * 4) (dma + of_nat GEM_TIE_OFFSET);
     Gem_Write E (0x4a0 + of_nat (q - 1) * 4) 32
   })"

definition gem_configure :: "env \<Rightarrow> u32 \<Rightarrow> u8 list \<Rightarrow> ('s, unit) prog" where
  "gem_configure E dma mac = do {
     v \<leftarrow> Gem_Read E GEM_DCFG1;
     let width = drop_bit 25 v AND 7;
     v \<leftarrow> Gem_Read E GEM_DCFG6;
     let queues = v AND 0xff;
     gem_disable E;
     let width = (if width = 4 then 2 else if width = 2 then 1 else 0);
     Gem_Write E GEM_NCFGR (push_bit 18 5 OR push_bit 21 width OR push_bit 17 1 OR push_bit 8 1 OR push_bit 4 1);
     Gem_Write E GEM_USRIO 1;
     Gem_Write E GEM_DMACFG (push_bit 16 32 OR push_bit 8 3 OR push_bit 10 1 OR 16);
     Gem_Write E 0x44 0;
     v \<leftarrow> Gem_Read E 0x54;
     Gem_Write E 0x54 ((v AND NOT 0x1ffff) OR 0x10808);
     Gem_Write E GEM_SA1B (ucast (mac ! 0) OR push_bit 8 (ucast (mac ! 1)) OR push_bit 16 (ucast (mac ! 2)) OR push_bit 24 (ucast (mac ! 3)));
     Gem_Write E GEM_SA1T (ucast (mac ! 4) OR push_bit 8 (ucast (mac ! 5)));
     Gem_Write E GEM_RBQP (dma + of_nat GEM_RX_DESC_OFFSET);
     Gem_Write E GEM_TBQP (dma + of_nat GEM_TX_DESC_OFFSET);
     forM [1..<8] (gem_queue E dma queues);
     Gem_Write E GEM_TSR 0xffffffff;
     Gem_Write E GEM_RSR 0xffffffff;
     io_barrier
   }"

definition gem_set_speed :: "env \<Rightarrow> u32 \<Rightarrow> ('s, unit) prog" where
  "gem_set_speed E mbps = do {
     v \<leftarrow> Gem_Read E GEM_NCFGR;
     let config = (v AND NOT 0x403) OR 2;
     let config = (if mbps = 100 then config OR 1 else config);
     let config = (if mbps = 1000 then config OR 0x400 else config);
     Gem_Write E GEM_NCFGR config
   }"

section \<open>Copies are aligned and exact\<close>

text \<open>The bytes that an access of a copy covers.\<close>

definition covers :: "(nat \<times> nat) list \<Rightarrow> nat list" where
  "covers xs = concat (map (\<lambda>(at, k). [at..<at + k]) xs)"

lemma covers_simps [simp]: "covers [] = []" "covers ((at, k) # xs) = [at..<at + k] @ covers xs" "covers (xs @ ys) = covers xs @ covers ys"
  by (simp_all add: covers_def)

definition aligned :: "nat \<Rightarrow> nat \<times> nat \<Rightarrow> bool" where
  "aligned a x \<longleftrightarrow> snd x = 1 \<or> snd x = 8 \<and> (a + fst x) mod 8 = 0"

lemma aligned_simps [simp]: "aligned a (at, Suc 0)" "aligned a (at, 8) \<longleftrightarrow> (a + at) mod 8 = 0"
  by (simp_all add: aligned_def)

lemma upt_join: "i \<le> j \<Longrightarrow> j \<le> k \<Longrightarrow> [i..<j] @ [j..<k] = [i..<k]"
  using upt_add_eq_append [of i j "k - j"] by simp

lemma head_exact:
  "at \<le> n \<Longrightarrow> case copy_head a at n of (xs, r) \<Rightarrow> covers xs = [at..<r] \<and> at \<le> r \<and> r \<le> n \<and> list_all (aligned a) xs \<and> (r = n \<or> (a + r) mod 8 = 0)"
proof (induction a at n rule: copy_head.induct)
  case (1 a at n)
  then show ?case
    by (subst copy_head.simps) (auto simp: upt_conv_Cons split: prod.splits)
qed

lemma words_exact:
  "at \<le> n \<Longrightarrow> at = n \<or> (a + at) mod 8 = 0 \<Longrightarrow>
   case copy_words at n of (xs, r) \<Rightarrow> covers xs = [at..<r] \<and> at \<le> r \<and> r \<le> n \<and> list_all (aligned a) xs"
proof (induction at n rule: copy_words.induct)
  case (1 at n)
  have "(a + (at + 8)) mod 8 = (a + at) mod 8" by presburger
  with 1 show ?case
    by (subst copy_words.simps) (auto simp: upt_join split: prod.splits)
qed

lemma tail_exact: "at \<le> n \<Longrightarrow> covers (copy_tail at n) = [at..<n] \<and> list_all (aligned a) (copy_tail at n)"
proof (induction at n rule: copy_tail.induct)
  case (1 at n)
  then show ?case
    by (subst (1 2) copy_tail.simps) (auto simp: upt_conv_Cons)
qed

lemma copy_accesses_exact: "covers (copy_accesses a n) = [0..<n] \<and> list_all (aligned a) (copy_accesses a n)"
proof -
  obtain h r where h: "copy_head a 0 n = (h, r)" by (cases "copy_head a 0 n")
  obtain b s where b: "copy_words r n = (b, s)" by (cases "copy_words r n")
  have 1: "covers h = [0..<r]" "r \<le> n" "list_all (aligned a) h" "r = n \<or> (a + r) mod 8 = 0"
    using head_exact [of 0 n a] h by auto
  have 2: "covers b = [r..<s]" "r \<le> s" "s \<le> n" "list_all (aligned a) b"
    using words_exact [of r n a] 1(2,4) b by auto
  have "[0..<n] = [0..<r] @ [r..<s] @ [s..<n]"
    using upt_join [of 0 r n] upt_join [of r s n] 1(2) 2(2,3) by simp
  then show ?thesis using 1 2 tail_exact [OF 2(3), of a] by (simp add: copy_accesses_def h b)
qed

text \<open>The words of an access carry the bytes of the source.\<close>

lemma le_bytes_word: "length bs \<le> 8 \<Longrightarrow> le_bytes (length bs) (le_word bs) = bs"
proof (induction bs)
  case Nil
  then show ?case by (simp add: le_bytes_def)
next
  case (Cons b bs)
  have "le_bytes (Suc (length bs)) (le_word (b # bs)) = b # map (\<lambda>i. ucast (drop_bit (8 * Suc i) (le_word (b # bs)))) [0..<length bs]"
  proof -
    have "[0..<Suc (length bs)] = 0 # map Suc [0..<length bs]" by (metis upt_conv_Cons zero_less_Suc map_Suc_upt)
    moreover have "ucast (ucast b OR push_bit 8 (le_word bs) :: u64) = b"
      by (intro bit_word_eqI) (auto simp: bit_simps)
    ultimately show ?thesis by (simp add: le_bytes_def)
  qed
  moreover have *: "(ucast (drop_bit (8 * Suc i) (le_word (b # bs))) :: u8) = ucast (drop_bit (8 * i) (le_word bs))" if "i < length bs" for i
    using that Cons.prems by (intro bit_word_eqI) (auto simp: bit_simps dest: bit_imp_le_length)
  moreover from * have "map (\<lambda>i. ucast (drop_bit (8 * Suc i) (le_word (b # bs)))) [0..<length bs] = le_bytes (length bs) (le_word bs)"
    unfolding le_bytes_def by (intro map_cong) auto
  moreover have "le_bytes (length bs) (le_word bs) = bs" using Cons by simp
  ultimately show ?case by (simp only: list.size add_Suc_right add_0_right)
qed

text \<open>Memory that keeps what is stored, byte by byte.\<close>

fun dma_bytes :: "(nat \<Rightarrow> u8) \<Rightarrow> io_event list \<Rightarrow> nat \<Rightarrow> u8" where
  "dma_bytes m [] = m"
| "dma_bytes m (Call f xs r # t) = (\<lambda>i. if f = ''store'' \<and> length xs = 3 \<and> unat (xs ! 0) \<le> i \<and> i < unat (xs ! 0) + unat (xs ! 1)
     then le_bytes (unat (xs ! 1)) (xs ! 2) ! (i - unat (xs ! 0)) else dma_bytes m t i)"
| "dma_bytes m (e # t) = dma_bytes m t"

definition memcpy :: "(nat \<Rightarrow> u8) \<Rightarrow> nat \<Rightarrow> u8 list \<Rightarrow> nat \<Rightarrow> u8" where
  "memcpy m d s i = (if d \<le> i \<and> i < d + length s then s ! (i - d) else m i)"

lemma stores_copy:
  assumes "list_all (\<lambda>(at, k). 0 < k \<and> k \<le> 8 \<and> at + k \<le> length s) xs" "d + length s < 2 ^ 64"
  shows "wp (forM xs (\<lambda>(at, k). kernel_do E ''store'' [of_nat (d + at), of_nat k, le_word (take k (drop at s))]))
     (\<lambda>_ v. dma_bytes m (trace v) = (\<lambda>i. if d \<le> i \<and> i - d \<in> set (covers xs) then s ! (i - d) else dma_bytes m (trace w) i)) w"
  using assms(1)
proof (induction xs arbitrary: w)
  case (Cons x xs)
  obtain at k where x: "x = (at, k)" by (cases x)
  have k: "0 < k" "k \<le> 8" "at + k \<le> length s" "list_all (\<lambda>(at, k). 0 < k \<and> k \<le> 8 \<and> at + k \<le> length s) xs" using Cons.prems x by auto
  have d: "unat (of_nat (d + at) :: u64) = d + at" "unat (of_nat k :: u64) = k"
    using assms(2) k by (intro unat_of_nat_small; simp)+
  have b: "le_bytes k (le_word (take k (drop at s))) = take k (drop at s)"
    using le_bytes_word [of "take k (drop at s)"] k(2,3) by (simp add: min_absorb2)
  show ?case
    unfolding forM.simps x prod.case
    apply (rule wp_bindI, simp only: wp_kernel_do, rule wp_mono, rule Cons.IH [OF k(4)])
    using k d b by (auto simp: fun_eq_iff)
qed (simp add: wp_simps)

text \<open>C31. Copying a frame into the shared memory stores exactly the bytes that memcpy stores, at any address, and every
  access is a single byte or an aligned word of eight.\<close>

theorem gem_copy_memcpy:
  assumes "d + length s < 2 ^ 64"
  shows "case run_state (gem_copy_to_dma E d s) \<lparr>st = c, trace = []\<rparr> of (_, w) \<Rightarrow>
     dma_bytes m (trace w) = memcpy m d s \<and> list_all (aligned d) (copy_accesses d (length s))"
proof -
  have "list_all (\<lambda>(at, k). 0 < k \<and> k \<le> 8 \<and> at + k \<le> length s) (copy_accesses d (length s))"
  proof (rule list.pred_mono_strong)
    show "list_all (aligned d) (copy_accesses d (length s))" using copy_accesses_exact by blast
  next
    fix x assume x: "x \<in> set (copy_accesses d (length s))" "aligned d x"
    obtain at k where k: "x = (at, k)" by (cases x)
    then have "set [at..<at + k] \<subseteq> set (covers (copy_accesses d (length s)))" using x(1) by (auto simp: covers_def)
    then have "set [at..<at + k] \<subseteq> {0..<length s}" using copy_accesses_exact [of d "length s"] by simp
    moreover have "at + k - 1 \<in> set [at..<at + k]" using x(2) k by (auto simp: aligned_def)
    ultimately show "case x of (at, k) \<Rightarrow> 0 < k \<and> k \<le> 8 \<and> at + k \<le> length s" using x(2) k by (auto simp: aligned_def)
  qed
  from stores_copy [OF this assms, where E = E and w = "\<lparr>st = c, trace = []\<rparr>" and m = m]
  have "wp (gem_copy_to_dma E d s) (\<lambda>_ w. dma_bytes m (trace w) = memcpy m d s) \<lparr>st = c, trace = []\<rparr>"
    unfolding gem_copy_to_dma_def
    by (rule wp_mono) (use copy_accesses_exact [of d "length s"] in \<open>auto simp: memcpy_def fun_eq_iff\<close>)
  then show ?thesis using copy_accesses_exact [of d "length s"] by (simp add: wp_def split_beta)
qed

text \<open>A frame of sixteen bytes at an odd address: seven bytes, a word, one byte.\<close>

theorem gem_copy_memcpy_witness:
  "copy_accesses 9 16 = [(0, 1), (1, 1), (2, 1), (3, 1), (4, 1), (5, 1), (6, 1), (7, 8), (15, 1)] \<and>
   (case run_state (gem_copy_to_dma (regfile (\<lambda>_ _. 0) (\<lambda>_ _. 0)) 9 (map (of_nat :: nat \<Rightarrow> u8) [0..<16])) \<lparr>st = (), trace = []\<rparr> of (_, w) \<Rightarrow>
     dma_bytes (\<lambda>_. 0) (trace w) = memcpy (\<lambda>_. 0) 9 (map (of_nat :: nat \<Rightarrow> u8) [0..<16]) \<and> list_all (aligned 9) (copy_accesses 9 (length (map (of_nat :: nat \<Rightarrow> u8) [0..<16]))))"
  (is "?a \<and> ?b")
proof
  show ?a by code_simp
  show ?b by (rule gem_copy_memcpy) simp
qed

section \<open>The rings\<close>

definition gem_memory :: "(u32 \<Rightarrow> u32 \<Rightarrow> u32) \<Rightarrow> env \<Rightarrow> env" where
  "gem_memory init E = E\<lparr>env_read := (\<lambda>t u off. if u = 1 then regs init t u off else env_read E t u off)\<rparr>"

lemma gem_memory_read [simp]: "env_read (gem_memory init E) t 1 off = regs init t 1 off"
  by (simp add: gem_memory_def)

lemma of_nat_u32_eq: "a < 4294967296 \<Longrightarrow> b < 4294967296 \<Longrightarrow> (of_nat a :: u32) = of_nat b \<longleftrightarrow> a = b"
proof
  assume a: "a < 4294967296" "b < 4294967296" and e: "(of_nat a :: u32) = of_nat b"
  from e have "unat (of_nat a :: u32) = unat (of_nat b :: u32)" by (simp only:)
  with a show "a = b" by (simp add: unat_of_nat_small)
qed simp

text \<open>What the descriptors of slot \<open>i\<close> hold: the device may not use them yet, each points to its own buffer, and the
  last one wraps.\<close>

definition slot_ready :: "nat \<Rightarrow> (u32 \<Rightarrow> u32) \<Rightarrow> nat \<Rightarrow> bool" where
  "slot_ready dma m i \<longleftrightarrow>
     (let rx = m (of_nat (rx_desc i)); address = m (of_nat (tx_desc i)); control = m (of_nat (tx_desc i + 4)) in
        unat (rx AND NOT 3) = dma + GEM_RX_DATA_OFFSET + GEM_BUFFER_SIZE * i \<and> rx AND GEM_RX_OWN = 0 \<and>
        (rx AND GEM_RX_WRAP \<noteq> 0 \<longleftrightarrow> i = GEM_RING_SIZE - 1) \<and> m (of_nat (rx_desc i + 4)) = 0 \<and>
        unat address = dma + GEM_TX_DATA_OFFSET + GEM_BUFFER_SIZE * i \<and>
        control AND GEM_TX_USED \<noteq> 0 \<and> (control AND GEM_TX_WRAP \<noteq> 0 \<longleftrightarrow> i = GEM_RING_SIZE - 1))"

definition rings_ready :: "nat \<Rightarrow> (u32 \<Rightarrow> u32) \<Rightarrow> bool" where
  "rings_ready dma m \<longleftrightarrow> list_all (slot_ready dma m) [0..<GEM_RING_SIZE] \<and> dma + GEM_DMA_SIZE \<le> 2 ^ 32 \<and>
     m (of_nat GEM_TIE_OFFSET) AND GEM_RX_OWN \<noteq> 0 \<and> m (of_nat (GEM_TIE_OFFSET + 12)) AND GEM_TX_USED \<noteq> 0"

definition slot_words :: "u32 \<Rightarrow> (u32 \<Rightarrow> u32) \<Rightarrow> nat \<Rightarrow> bool" where
  "slot_words dma m i \<longleftrightarrow> m (of_nat (rx_desc i)) = (dma + of_nat GEM_RX_DATA_OFFSET + of_nat (i * GEM_BUFFER_SIZE)) OR (if i = 511 then GEM_RX_WRAP else 0) \<and>
     m (of_nat (rx_desc i + 4)) = 0 \<and> m (of_nat (tx_desc i)) = dma + of_nat GEM_TX_DATA_OFFSET + of_nat (i * GEM_BUFFER_SIZE) \<and>
     m (of_nat (tx_desc i + 4)) = GEM_TX_USED OR (if i = 511 then GEM_TX_WRAP else 0)"

lemma slot_words_upd:
  assumes "off < 9000" "off \<notin> {8 * i, 8 * i + 4, 4096 + 8 * i, 4096 + 8 * i + 4}" "i < 512"
  shows "slot_words dma (m(of_nat off := v)) i \<longleftrightarrow> slot_words dma m i"
  using assms by (simp add: slot_words_def of_nat_u32_eq del: of_nat_add of_nat_mult)

lemma forM_snoc: "wp (forM (xs @ [x]) f) Q = wp (forM xs f) (\<lambda>_. wp (f x) Q)"
  by (induction xs) (rule ext, simp add: wp_simps)+

abbreviation dma_words :: "(u32 \<Rightarrow> u32 \<Rightarrow> u32) \<Rightarrow> 's world \<Rightarrow> u32 \<Rightarrow> u32" where
  "dma_words init w \<equiv> regs init (trace w) 1"

lemma slots_init:
  "n \<le> 512 \<Longrightarrow> wp (forM [0..<n] (\<lambda>i. do {
       ring_write (rx_desc i + 4) 0;
       ring_write (rx_desc i) (dma + of_nat GEM_RX_DATA_OFFSET + of_nat (i * GEM_BUFFER_SIZE));
       whenM (i = GEM_RING_SIZE - 1) (do { v \<leftarrow> ring_read (gem_memory init E) (rx_desc i); ring_write (rx_desc i) (v OR GEM_RX_WRAP) });
       ring_write (tx_desc i) (dma + of_nat GEM_TX_DATA_OFFSET + of_nat (i * GEM_BUFFER_SIZE));
       ring_write (tx_desc i + 4) (GEM_TX_USED OR (if i = GEM_RING_SIZE - 1 then GEM_TX_WRAP else 0))
     })) (\<lambda>_ v. \<forall>i<n. slot_words dma (dma_words init v) i) w"
proof (induction n)
  case (Suc n)
  have old: "slot_words dma (m(of_nat off := v)) i" if "slot_words dma m i" "i < n" "off \<in> {8 * n, 8 * n + 4, 4096 + 8 * n, 4096 + 8 * n + 4}" for m off v i
  proof -
    have "off < 9000" "off \<notin> {8 * i, 8 * i + 4, 4096 + 8 * i, 4096 + 8 * i + 4}" "i < 512"
      using that(2,3) Suc.prems by (auto, presburger+)
    with that(1) show ?thesis by (simp add: slot_words_upd)
  qed
  have ne: "(of_nat x :: u32) = of_nat y \<longleftrightarrow> x = y" if "x < 8200" "y < 8200" for x y using that by (simp add: of_nat_u32_eq)
  have n: "8 * n + 4 < 8200" "4096 + 8 * n + 4 < 8200" using Suc.prems by simp_all
  have step: "slot_words dma (m(of_nat (8 * n + 4) := 0, of_nat (8 * n) := rx, of_nat (4096 + 8 * n) := tx, of_nat (4096 + 8 * n + 4) := c)) i"
    if "i < n \<Longrightarrow> slot_words dma m i" "i < Suc n"
      "rx = (dma + of_nat GEM_RX_DATA_OFFSET + of_nat (n * GEM_BUFFER_SIZE)) OR (if n = 511 then GEM_RX_WRAP else 0)"
      "tx = dma + of_nat GEM_TX_DATA_OFFSET + of_nat (n * GEM_BUFFER_SIZE)" "c = GEM_TX_USED OR (if n = 511 then GEM_TX_WRAP else 0)" for m i rx tx c
  proof (cases "i = n")
    case True
    then show ?thesis using n that(3-5) by (simp add: slot_words_def ne del: of_nat_add of_nat_mult)
  next
    case False
    with that have "i < n" "slot_words dma m i" by auto
    then show ?thesis by (intro old) auto
  qed
  show ?case
    unfolding upt_Suc_append [OF le0] forM_snoc
    apply (rule wp_mono, rule Suc.IH)
    subgoal using Suc.prems by simp
    apply (simp add: wp_simps wp_io_read del: of_nat_add of_nat_mult)
    apply (intro conjI impI allI)
    subgoal for w i
      using step [of i "dma_words init w" "(1058816 + dma) OR GEM_RX_WRAP" "2107392 + dma" 3221225472]
      by (simp add: add.commute)
    subgoal for w i
      using step [of i "dma_words init w" "dma + 12288 + of_nat (n * GEM_BUFFER_SIZE)" "dma + 1060864 + of_nat (n * GEM_BUFFER_SIZE)" GEM_TX_USED]
      by (simp add: add.commute del: of_nat_add of_nat_mult)
    done
qed (simp add: wp_simps)

lemma flag_bits:
  fixes x :: u32
  assumes "unat x mod 4 = 0"
  shows "(x OR (if b then 2 else 0)) AND NOT 3 = x" "(x OR (if b then 2 else 0)) AND 1 = 0" "(x OR (if b then 2 else 0)) AND 2 \<noteq> 0 \<longleftrightarrow> b"
proof -
  have "x AND mask 2 = 0" using assms by (simp add: and_mask_eq_0)
  then have x: "x AND 3 = 0" by (simp add: mask_eq_exp_minus_1)
  have "x AND NOT y = x" if "x AND y = 0" for y
  proof (rule bit_word_eqI)
    fix n assume n: "n < LENGTH(32)"
    have "\<not> (bit x n \<and> bit y n)" using arg_cong [OF that, of "\<lambda>y. bit y n"] by (simp add: bit_and_iff)
    then show "bit (x AND NOT y) n = bit x n" using n by (auto simp: bit_and_iff bit_not_iff)
  qed
  from this [OF x] have "x AND NOT 3 = x" .
  then show "(x OR (if b then 2 else 0)) AND NOT 3 = x" by (simp add: bit.conj_disj_distrib2)
  have "x AND 1 = (x AND 3) AND 1" "x AND 2 = (x AND 3) AND 2" by (simp_all add: and.assoc)
  then have "x AND 1 = 0" "x AND 2 = 0" using x by simp_all
  then show "(x OR (if b then 2 else 0)) AND 1 = 0" "(x OR (if b then 2 else 0)) AND 2 \<noteq> 0 \<longleftrightarrow> b"
    by (simp_all add: bit.conj_disj_distrib2)
qed

lemma range_valid_nat:
  assumes "gem_dma_range_valid dma (of_nat GEM_DMA_SIZE)"
  shows "unat dma mod 4096 = 0" "unat dma + GEM_DMA_SIZE \<le> 2 ^ 32"
proof -
  have a: "dma AND 4095 = 0" "dma \<le> 0xffffffff" "2109439 \<le> 0xffffffff - dma"
    using assms by (simp_all add: gem_dma_range_valid_def)
  have "dma AND mask 12 = 0" using a(1) by (simp add: mask_eq_exp_minus_1)
  then show "unat dma mod 4096 = 0" by (simp add: and_mask_eq_0)
  show "unat dma + GEM_DMA_SIZE \<le> 2 ^ 32"
    using a(2,3) by (simp add: word_le_nat_alt unat_sub)
qed

lemma buffer_address:
  assumes "gem_dma_range_valid dma (of_nat GEM_DMA_SIZE)" "i < 512" "b \<le> GEM_TX_DATA_OFFSET" "b mod 4 = 0"
  shows "unat (ucast dma + of_nat b + of_nat (i * GEM_BUFFER_SIZE) :: u32) = unat dma + b + GEM_BUFFER_SIZE * i"
    "unat (ucast dma + of_nat b + of_nat (i * GEM_BUFFER_SIZE) :: u32) mod 4 = 0"
proof -
  have u: "unat (ucast dma :: u32) = unat dma" using range_valid_nat [OF assms(1)] by (intro unat_ucast_small) simp
  have n: "unat (of_nat b :: u32) = b" "unat (of_nat (i * GEM_BUFFER_SIZE) :: u32) = i * GEM_BUFFER_SIZE"
    using assms(2,3) by (intro unat_of_nat_small; simp)+
  have s: "unat (ucast dma + of_nat b :: u32) = unat dma + b"
    using u n range_valid_nat [OF assms(1)] assms(3) by (subst unat_add_small) simp_all
  show *: "unat (ucast dma + of_nat b + of_nat (i * GEM_BUFFER_SIZE) :: u32) = unat dma + b + GEM_BUFFER_SIZE * i"
    using s n range_valid_nat [OF assms(1)] assms(2,3) by (subst unat_add_small) simp_all
  show "unat (ucast dma + of_nat b + of_nat (i * GEM_BUFFER_SIZE) :: u32) mod 4 = 0"
  proof -
    have "4096 dvd unat dma" using range_valid_nat(1) [OF assms(1)] by (simp add: dvd_eq_mod_eq_0)
    then have "4 dvd unat dma" by (rule dvd_trans [rotated]) simp
    moreover have "4 dvd b" using assms(4) by (simp add: dvd_eq_mod_eq_0)
    moreover have "4 dvd GEM_BUFFER_SIZE * i" by (rule dvd_mult2) simp
    ultimately show ?thesis unfolding * by (simp only: dvd_eq_mod_eq_0 [symmetric] dvd_add)
  qed
qed

lemma slot_words_ready:
  assumes "slot_words (ucast dma) m i" "gem_dma_range_valid dma (of_nat GEM_DMA_SIZE)" "i < 512"
  shows "slot_ready (unat dma) m i"
  using assms(1) flag_bits [OF buffer_address(2) [OF assms(2,3), of GEM_RX_DATA_OFFSET], of "i = 511"]
    buffer_address(1) [OF assms(2,3), of GEM_RX_DATA_OFFSET] buffer_address(1) [OF assms(2,3), of GEM_TX_DATA_OFFSET]
  by (simp add: slot_ready_def slot_words_def Let_def split: if_splits del: of_nat_mult)

lemma tie_words: "slot_words dma m i \<Longrightarrow> i < 512 \<Longrightarrow> slot_words dma (m(8192 := a, 8196 := b, 8200 := c, 8204 := d)) i"
  using slot_words_upd [of 8192 i dma m a] slot_words_upd [of 8196 i dma "m(8192 := a)" b]
    slot_words_upd [of 8200 i dma "m(8192 := a, 8196 := b)" c] slot_words_upd [of 8204 i dma "m(8192 := a, 8196 := b, 8200 := c)" d]
  by simp

text \<open>For shared memory that the address check accepts and that keeps what is stored: after the rings are built every
  descriptor belongs to the processor or, for reception, to the device with an empty buffer; the addresses do not wrap around, so the
  1024 buffers are disjoint and lie inside of the memory; exactly the last descriptor of each ring wraps; the inactive queues are stopped.\<close>

theorem gem_rings_ready:
  assumes "gem_dma_range_valid dma (of_nat GEM_DMA_SIZE)"
  shows "case run_state (gem_init_rings (gem_memory init E) (ucast dma)) \<lparr>st = c, trace = []\<rparr> of (_, w) \<Rightarrow> rings_ready (unat dma) (regs init (trace w) 1)"
proof -
  have "wp (gem_init_rings (gem_memory init E) (ucast dma)) (\<lambda>_ w. rings_ready (unat dma) (regs init (trace w) 1)) \<lparr>st = c, trace = []\<rparr>"
    unfolding gem_init_rings_def
    apply (rule wp_bindI, rule wp_mono, rule slots_init, simp)
    using tie_words [of "ucast dma"] range_valid_nat(2) [OF assms] assms by (auto simp: wp_simps rings_ready_def list_all_iff intro!: slot_words_ready)
  then show ?thesis by (simp add: wp_def split_beta)
qed

theorem gem_rings_ready_witness:
  "case run_state (gem_init_rings (gem_memory (\<lambda>_ _. 0) (regfile (\<lambda>_ _. 0) (\<lambda>_ _. 0))) (ucast (0xfd000000 :: u64))) \<lparr>st = (), trace = []\<rparr> of
     (_, w) \<Rightarrow> rings_ready (unat (0xfd000000 :: u64)) (regs (\<lambda>_ _. 0) (trace w) 1)"
  by (rule gem_rings_ready) (simp add: gem_dma_range_valid_def)

end
