(* ===== verification/Rp1_Ethernet.thy ===== *)
theory Rp1_Ethernet
  imports Rp1_Gem "HOL-Library.Multiset"
begin

unbundle bit_operations_syntax

text \<open>
  The miniport driver of the RP1 Ethernet controller (\<open>rp1-ethernet/miniport.c\<close>): its interrupt routines, transmission
  and reception over the two rings, the maintenance thread and the life cycle. A call of the kernel or of the stack is one
  step, also where \<open>InterruptDpc\<close>, \<open>StopHardware\<close> and the maintenance thread release the driver's lock for a moment inside. The properties: every list of frames is given back exactly once, and what a reception may hand to the stack.
\<close>

section \<open>The adapter\<close>

datatype NDIS_STATUS = NDIS_STATUS_SUCCESS | NDIS_STATUS_FAILURE | NDIS_STATUS_PAUSED | NDIS_STATUS_MEDIA_DISCONNECTED
  | NDIS_STATUS_INVALID_LENGTH | NDIS_STATUS_RESOURCES | NDIS_STATUS_SEND_ABORTED | NDIS_STATUS_CLOSING | NDIS_STATUS_HARD_ERRORS

abbreviation RX_BATCH_SIZE :: nat where "RX_BATCH_SIZE \<equiv> 64"

record TX_SLOT =
  ts_Nbl :: ptr
  ts_Length :: nat
  ts_Kind :: nat
  ts_Last :: bool
  ts_Started :: u64

text \<open>What only the interrupt routines use, and the counters, are records of their own here.\<close>

record ETH_IRQ =
  ei_Running :: bool
  ei_Deferred :: bool
  ei_Suppressed :: bool
  ei_ClearOnRead :: bool
  ei_Pending :: u32
  ei_Interrupts :: u64
  ei_RxInterrupts :: u64
  ei_TxInterrupts :: u64

record ETH_STATS =
  es_TxFrames :: "u64 list"
  es_RxFrames :: "u64 list"
  es_TxBytes :: u64
  es_RxBytes :: u64
  es_TxKindBytes :: "u64 list"
  es_RxKindBytes :: "u64 list"
  es_TxErrors :: u64
  es_RxErrors :: u64
  es_RxDiscards :: u64
  es_TxDiscards :: u64
  es_RxNoBuffer :: u64
  es_RxAlignment :: u64
  es_TxOneCollision :: u64
  es_TxMoreCollisions :: u64
  es_RxResource :: u64
  es_RxOverrun :: u64
  es_RxFiltered :: u64

text \<open>The status of a net buffer list is a field of the list, here a map from its address.\<close>

record ADAPTER =
  ad_Configuration :: ptr
  ad_Interrupt :: ptr
  ad_Registers :: ptr
  ad_DmaAddress :: u64
  ad_Terminate :: bool
  ad_SurpriseRemoved :: bool
  ad_Running :: bool
  ad_Powered :: bool
  ad_Fault :: bool
  ad_DmaTouched :: bool
  ad_RetainDma :: bool
  ad_OwnsHardware :: bool
  ad_ProbeOnly :: bool
  ad_DpcActive :: bool
  ad_Irq :: ETH_IRQ
  ad_RecoveryRequested :: u32
  ad_InterruptDpcs :: u64
  ad_Recoveries :: u32
  ad_LastRecovery :: u32
  ad_Speed :: u32
  ad_PacketFilter :: u32
  ad_Multicast :: "u8 list list"
  ad_Address :: "u8 list"
  ad_TxHead :: nat
  ad_TxTail :: nat
  ad_TxCount :: nat
  ad_RxHead :: nat
  ad_Tx :: "TX_SLOT list"
  ad_Stats :: ETH_STATS
  ad_Status :: "ptr \<Rightarrow> NDIS_STATUS"

text \<open>A net buffer list that the stack sends: its address, the frames, and what can cancel it.\<close>

record NBL =
  nbl_Address :: ptr
  nbl_Frames :: "u8 list list"

abbreviation set_irq :: "(ETH_IRQ \<Rightarrow> ETH_IRQ) \<Rightarrow> (ADAPTER, unit) prog" where
  "set_irq f \<equiv> modify (\<lambda>a. a\<lparr>ad_Irq := f (ad_Irq a)\<rparr>)"

abbreviation set_stats :: "(ETH_STATS \<Rightarrow> ETH_STATS) \<Rightarrow> (ADAPTER, unit) prog" where
  "set_stats f \<equiv> modify (\<lambda>a. a\<lparr>ad_Stats := f (ad_Stats a)\<rparr>)"

abbreviation bump :: "nat \<Rightarrow> u64 \<Rightarrow> u64 list \<Rightarrow> u64 list" where
  "bump k n xs \<equiv> xs[k := xs ! k + n]"

section \<open>Interrupts\<close>

definition StopInterrupts :: "env \<Rightarrow> (ADAPTER, unit) prog" where
  "StopInterrupts E = do {
     set_irq (\<lambda>i. i\<lparr>ei_Running := False, ei_Deferred := False, ei_Pending := 0\<rparr>);
     a \<leftarrow> gets id;
     whenM (\<not> ad_SurpriseRemoved a) (Gem_Write E GEM_IDR 0xffffffff)
   }"

definition StartInterrupts :: "env \<Rightarrow> (ADAPTER, unit) prog" where
  "StartInterrupts E = do {
     set_irq (\<lambda>i. i\<lparr>ei_Pending := 0, ei_Deferred := False\<rparr>);
     a \<leftarrow> gets id;
     status \<leftarrow> gem_interrupt_status E (ei_ClearOnRead (ad_Irq a));
     set_irq (\<lambda>i. i\<lparr>ei_Running := True\<rparr>);
     whenM (\<not> ei_Suppressed (ad_Irq a)) (Gem_Write E GEM_IER GEM_IRQ_MASK)
   }"

definition RearmInterrupts :: "env \<Rightarrow> (ADAPTER, unit) prog" where
  "RearmInterrupts E = do {
     set_irq (\<lambda>i. i\<lparr>ei_Deferred := False\<rparr>);
     a \<leftarrow> gets id;
     whenM (ei_Running (ad_Irq a) \<and> \<not> ei_Suppressed (ad_Irq a) \<and> \<not> ad_SurpriseRemoved a) (Gem_Write E GEM_IER GEM_IRQ_MASK)
   }"

definition TakeInterrupts :: "env \<Rightarrow> (ADAPTER, u32) prog" where
  "TakeInterrupts E = do {
     a \<leftarrow> gets id;
     let status = ei_Pending (ad_Irq a);
     set_irq (\<lambda>i. i\<lparr>ei_Pending := 0\<rparr>);
     if ei_Running (ad_Irq a) \<and> \<not> ad_SurpriseRemoved a then do {
       now \<leftarrow> gem_interrupt_status E (ei_ClearOnRead (ad_Irq a));
       ret (status OR (now AND GEM_IRQ_MASK))
     }
     else ret status
   }"

definition RemoveInterrupts :: "(ADAPTER, unit) prog" where
  "RemoveInterrupts = do {
     set_irq (\<lambda>i. i\<lparr>ei_Running := False\<rparr>);
     modify (\<lambda>a. a\<lparr>ad_SurpriseRemoved := True\<rparr>)
   }"

definition DisableInterrupt :: "env \<Rightarrow> (ADAPTER, unit) prog" where
  "DisableInterrupt E = do {
     set_irq (\<lambda>i. i\<lparr>ei_Suppressed := True\<rparr>);
     a \<leftarrow> gets id;
     whenM (\<not> ad_SurpriseRemoved a) (Gem_Write E GEM_IDR 0xffffffff)
   }"

definition EnableInterrupt :: "env \<Rightarrow> (ADAPTER, unit) prog" where
  "EnableInterrupt E = do {
     set_irq (\<lambda>i. i\<lparr>ei_Suppressed := False\<rparr>);
     a \<leftarrow> gets id;
     whenM (ei_Running (ad_Irq a) \<and> \<not> ei_Deferred (ad_Irq a) \<and> \<not> ad_SurpriseRemoved a) (Gem_Write E GEM_IER GEM_IRQ_MASK)
   }"

text \<open>Whether the interrupt was the adapter's, which is also whether a deferred call is queued.\<close>

definition Eth_Interrupt :: "env \<Rightarrow> (ADAPTER, bool) prog" where
  "Eth_Interrupt E = do {
     a \<leftarrow> gets id;
     let i = ad_Irq a;
     if \<not> ei_Running i \<or> ei_Deferred i \<or> ei_Suppressed i \<or> ad_SurpriseRemoved a then ret False
     else do {
       v \<leftarrow> gem_interrupt_status E (ei_ClearOnRead i);
       let status = v AND GEM_IRQ_MASK;
       if status = 0 then ret False
       else do {
         Gem_Write E GEM_IDR GEM_IRQ_MASK;
         set_irq (\<lambda>i. i\<lparr>ei_Deferred := True, ei_Pending := ei_Pending i OR status, ei_Interrupts := ei_Interrupts i + 1,
           ei_RxInterrupts := ei_RxInterrupts i + (if status AND GEM_IRQ_RX \<noteq> 0 then 1 else 0),
           ei_TxInterrupts := ei_TxInterrupts i + (if status AND GEM_IRQ_TX \<noteq> 0 then 1 else 0)\<rparr>);
         ret True
       }
     }
   }"

section \<open>Diagnostics and frames\<close>

definition Eth_Diagnostic :: "env \<Rightarrow> string \<Rightarrow> u32 \<Rightarrow> (ADAPTER, unit) prog" where
  "Eth_Diagnostic E name v = do {
     a \<leftarrow> gets id;
     status \<leftarrow> (if ad_Configuration a = 0 then kernel_status E ''NdisOpenConfigurationEx'' [] else ret 0);
     whenM (status = 0) (do {
       kernel_do E (''NdisWriteConfiguration '' @ name) [ucast v];
       whenM (ad_Configuration a = 0) (kernel_do E ''NdisCloseConfiguration'' [])
     })
   }"

definition Eth_Report :: "env \<Rightarrow> string \<Rightarrow> u32 \<Rightarrow> (ADAPTER, unit) prog" where
  "Eth_Report E name off = do { v \<leftarrow> Gem_Read E off; Eth_Diagnostic E name v }"

definition Eth_Snapshot :: "env \<Rightarrow> u32 \<Rightarrow> (ADAPTER, unit) prog" where
  "Eth_Snapshot E stage = do {
     Eth_Diagnostic E ''DiagStage'' stage;
     a \<leftarrow> gets id;
     whenM (ad_Registers a \<noteq> 0 \<and> \<not> ad_SurpriseRemoved a) (do {
       Eth_Report E ''DiagMid'' 0xfc;
       Eth_Report E ''DiagNcr'' GEM_NCR;
       Eth_Report E ''DiagNcfgr'' GEM_NCFGR;
       Eth_Report E ''DiagNsr'' GEM_NSR;
       Eth_Report E ''DiagDcfg1'' GEM_DCFG1;
       Eth_Report E ''DiagDcfg6'' GEM_DCFG6;
       Eth_Report E ''DiagTsr'' GEM_TSR;
       Eth_Report E ''DiagRsr'' GEM_RSR;
       Eth_Diagnostic E ''DiagDmaLow'' (ucast (ad_DmaAddress a));
       Eth_Diagnostic E ''DiagDmaHigh'' (ucast (drop_bit 32 (ad_DmaAddress a)))
     })
   }"

definition FrameKind :: "u8 list \<Rightarrow> nat" where
  "FrameKind pkt = (if take 6 pkt = replicate 6 255 then 2 else if pkt ! 0 AND 1 \<noteq> 0 then 1 else 0)"

text \<open>The bits of the packet filter are those of the kernel's interface.\<close>

record ndis_filters =
  nf_Directed :: u32
  nf_Multicast :: u32
  nf_AllMulticast :: u32
  nf_Broadcast :: u32
  nf_Promiscuous :: u32

definition AcceptFrame :: "ndis_filters \<Rightarrow> ADAPTER \<Rightarrow> u8 list \<Rightarrow> bool" where
  "AcceptFrame F a pkt =
     (let kind = FrameKind pkt; filter = ad_PacketFilter a in
      if filter AND nf_Promiscuous F \<noteq> 0 then True
      else if kind = 2 then filter AND nf_Broadcast F \<noteq> 0
      else if kind = 0 then filter AND nf_Directed F \<noteq> 0 \<and> take 6 pkt = ad_Address a
      else if filter AND nf_AllMulticast F \<noteq> 0 then True
      else if filter AND nf_Multicast F \<noteq> 0 then take 6 pkt \<in> set (ad_Multicast a)
      else False)"

definition IndicateLink :: "env \<Rightarrow> (ADAPTER, unit) prog" where
  "IndicateLink E = do {
     a \<leftarrow> gets id;
     kernel_do E ''NdisMIndicateStatusEx'' [of_bool (ad_Speed a \<noteq> 0), ucast (ad_Speed a) * 1000000]
   }"

section \<open>Start and stop\<close>

fun tx_idle_loop :: "env \<Rightarrow> nat \<Rightarrow> (ADAPTER, bool) prog" where
  "tx_idle_loop E 0 = ret False"
| "tx_idle_loop E (Suc n) = do {
     v \<leftarrow> Gem_Read E GEM_TSR;
     if v AND GEM_TX_GO = 0 then ret True else do { io_delay 10; tx_idle_loop E n }
   }"

text \<open>The nbls that the ring holds: a list is held by its last pkt.\<close>

definition holds_list :: "TX_SLOT \<Rightarrow> bool" where
  "holds_list s \<longleftrightarrow> ts_Nbl s \<noteq> 0 \<and> ts_Last s"

definition StopHardware :: "env \<Rightarrow> NDIS_STATUS \<Rightarrow> (ADAPTER, ptr list) prog" where
  "StopHardware E status = do {
     modify (\<lambda>a. a\<lparr>ad_Running := False, ad_Speed := 0, ad_RecoveryRequested := 0\<rparr>);
     a \<leftarrow> gets id;
     whenM (ad_Interrupt a \<noteq> 0) (StopInterrupts E);
     whenM (ad_Registers a \<noteq> 0 \<and> \<not> ad_SurpriseRemoved a) (gem_disable E);
     kernel_do E ''KeWaitForSingleObject dpcIdle'' [];
     whenM (ad_DmaTouched a \<and> \<not> ad_SurpriseRemoved a) (do {
       idle \<leftarrow> tx_idle_loop E 1000;
       whenM (\<not> idle) (modify (\<lambda>a. a\<lparr>ad_RetainDma := True, ad_Fault := True\<rparr>));
       io_delay 10000
     });
     a \<leftarrow> gets id;
     let held = map ts_Nbl (filter holds_list (ad_Tx a));
     modify (\<lambda>a. a\<lparr>ad_Status := (\<lambda>p. if p \<in> set held then status else ad_Status a p),
       ad_Tx := map (\<lambda>s. s\<lparr>ts_Nbl := 0\<rparr>) (ad_Tx a), ad_TxCount := 0, ad_TxHead := 0, ad_TxTail := 0\<rparr>);
     set_stats (\<lambda>s. s\<lparr>es_TxDiscards := es_TxDiscards s + of_nat (length held)\<rparr>);
     ret (rev held)
   }"

definition Eth_Complete :: "env \<Rightarrow> ptr list \<Rightarrow> (ADAPTER, unit) prog" where
  "Eth_Complete E nbls = whenM (nbls \<noteq> []) (kernel_do E ''NdisMSendNetBufferListsComplete'' nbls)"

definition StartHardware :: "env \<Rightarrow> u32 \<Rightarrow> (ADAPTER, unit) prog" where
  "StartHardware E speed = do {
     a \<leftarrow> gets id;
     gem_init_rings E (ucast (ad_DmaAddress a));
     io_barrier;
     gem_configure E (ucast (ad_DmaAddress a)) (ad_Address a);
     gem_set_speed E speed;
     modify (\<lambda>a. a\<lparr>ad_RxHead := 0\<rparr>);
     modify (\<lambda>a. a\<lparr>ad_Speed := speed, ad_Running := True\<rparr>);
     whenM (speed \<noteq> 0) (do {
       modify (\<lambda>a. a\<lparr>ad_DmaTouched := True\<rparr>);
       StartInterrupts E;
       Gem_Write E GEM_NCR (GEM_MPE OR GEM_RE OR GEM_TE)
     })
   }"

definition AccumulateErrors :: "env \<Rightarrow> (ADAPTER, unit) prog" where
  "AccumulateErrors E = do {
     a \<leftarrow> gets id;
     whenM (ad_Running a) (do {
       alignment \<leftarrow> Gem_Read E 0x19c;
       resource \<leftarrow> Gem_Read E 0x1a0;
       overrun \<leftarrow> Gem_Read E 0x1a4;
       vs \<leftarrow> mapM [0x190, 0x194, 0x198, 0x184, 0x188, 0x18c] (Gem_Read E);
       one \<leftarrow> Gem_Read E 0x138;
       more \<leftarrow> Gem_Read E 0x13c;
       set_stats (\<lambda>s. s\<lparr>es_RxResource := es_RxResource s + ucast resource, es_RxOverrun := es_RxOverrun s + ucast overrun,
         es_RxAlignment := es_RxAlignment s + ucast alignment, es_RxErrors := es_RxErrors s + ucast (alignment + sum_list vs),
         es_RxNoBuffer := es_RxNoBuffer s + (ucast resource + ucast overrun), es_RxDiscards := es_RxDiscards s + (ucast resource + ucast overrun),
         es_TxOneCollision := es_TxOneCollision s + ucast one, es_TxMoreCollisions := es_TxMoreCollisions s + ucast more\<rparr>);
       v \<leftarrow> Gem_Read E GEM_RSR;
       Gem_Write E GEM_RSR v
     })
   }"

section \<open>Transmission and reception\<close>

abbreviation tx_next :: "nat \<Rightarrow> nat" where "tx_next i \<equiv> (i + 1) mod GEM_RING_SIZE"

text \<open>One turn for each published frame: the result is the lists that have been sent, newest first.\<close>

fun CompleteTransmit_loop :: "env \<Rightarrow> nat \<Rightarrow> ptr list \<Rightarrow> (ADAPTER, ptr list) prog" where
  "CompleteTransmit_loop E 0 done = ret done"
| "CompleteTransmit_loop E (Suc n) done = do {
     a \<leftarrow> gets id;
     if \<not> ad_Running a \<or> ad_TxCount a = 0 then ret done
     else do {
       control \<leftarrow> ring_read E (tx_desc (ad_TxTail a) + 4);
       let slot = ad_Tx a ! ad_TxTail a;
       if control AND GEM_TX_USED = 0 then ret done
       else do {
         io_barrier;
         if ts_Nbl slot = 0 then do {
           modify (\<lambda>a. a\<lparr>ad_Running := False\<rparr>);
           StopInterrupts E;
           modify (\<lambda>a. a\<lparr>ad_RecoveryRequested := ad_RecoveryRequested a OR 0x40000000\<rparr>);
           kernel_do E ''KeSetEvent wake'' [];
           ret done
         }
         else do {
           (if control AND GEM_TX_ERRORS \<noteq> 0 then do {
              modify (\<lambda>a. a\<lparr>ad_Status := (ad_Status a)(ts_Nbl slot := NDIS_STATUS_FAILURE)\<rparr>);
              set_stats (\<lambda>s. s\<lparr>es_TxErrors := es_TxErrors s + 1\<rparr>)
            }
            else set_stats (\<lambda>s. s\<lparr>es_TxFrames := bump (ts_Kind slot) 1 (es_TxFrames s),
              es_TxKindBytes := bump (ts_Kind slot) (of_nat (ts_Length slot)) (es_TxKindBytes s),
              es_TxBytes := es_TxBytes s + of_nat (ts_Length slot)\<rparr>));
           modify (\<lambda>a. a\<lparr>ad_Tx := (ad_Tx a)[ad_TxTail a := slot\<lparr>ts_Nbl := 0\<rparr>],
             ad_TxTail := tx_next (ad_TxTail a), ad_TxCount := ad_TxCount a - 1\<rparr>);
           CompleteTransmit_loop E n (if ts_Last slot then ts_Nbl slot # done else done)
         }
       }
     }
   }"

definition CompleteTransmit :: "env \<Rightarrow> (ADAPTER, unit) prog" where
  "CompleteTransmit E = do {
     a \<leftarrow> gets id;
     done \<leftarrow> CompleteTransmit_loop E (ad_TxCount a) [];
     Eth_Complete E done
   }"

text \<open>A received frame, its acceptance and its counters.\<close>

definition Receive_pkt :: "ndis_filters \<Rightarrow> env \<Rightarrow> nat \<Rightarrow> u32 \<Rightarrow> (ADAPTER, u8 list option) prog" where
  "Receive_pkt F E slot control =
     (case gem_rx_length control of
        None \<Rightarrow> do { set_stats (\<lambda>s. s\<lparr>es_RxErrors := es_RxErrors s + 1\<rparr>); ret None }
      | Some n \<Rightarrow> do {
          pkt \<leftarrow> gem_copy_from_dma E (GEM_RX_DATA_OFFSET + slot * GEM_BUFFER_SIZE) n;
          a \<leftarrow> gets id;
          if AcceptFrame F a pkt then do {
            set_stats (\<lambda>s. s\<lparr>es_RxFrames := bump (FrameKind pkt) 1 (es_RxFrames s),
              es_RxKindBytes := bump (FrameKind pkt) (of_nat n) (es_RxKindBytes s), es_RxBytes := es_RxBytes s + of_nat n\<rparr>);
            ret (Some pkt)
          }
          else do {
            set_stats (\<lambda>s. s\<lparr>es_RxDiscards := es_RxDiscards s + 1, es_RxFiltered := es_RxFiltered s + 1\<rparr>);
            ret None
          }
        })"

fun Receive_loop :: "ndis_filters \<Rightarrow> env \<Rightarrow> nat \<Rightarrow> nat \<Rightarrow> u8 list list \<Rightarrow> (ADAPTER, u8 list list) prog" where
  "Receive_loop F E 0 limit got = ret got"
| "Receive_loop F E (Suc n) limit got =
     (if \<not> length got < limit then ret got
      else do {
        a \<leftarrow> gets id;
        if \<not> ad_Running a then ret got
        else do {
          let slot = ad_RxHead a;
          address \<leftarrow> ring_read E (rx_desc slot);
          if address AND GEM_RX_OWN = 0 then ret got
          else do {
            io_barrier;
            control \<leftarrow> ring_read E (rx_desc slot + 4);
            pkt \<leftarrow> Receive_pkt F E slot control;
            ring_write (rx_desc slot + 4) 0;
            io_barrier;
            ring_write (rx_desc slot) (address AND NOT GEM_RX_OWN);
            io_barrier;
            modify (\<lambda>a. a\<lparr>ad_RxHead := tx_next slot\<rparr>);
            Receive_loop F E n limit (case pkt of None \<Rightarrow> got | Some p \<Rightarrow> got @ [p])
          }
        }
      })"

text \<open>The frames of an indication, each with its length before it.\<close>

definition indicated :: "u8 list list \<Rightarrow> u64 list" where
  "indicated pkts = concat (map (\<lambda>p. of_nat (length p) # map ucast p) pkts)"

definition Receive :: "ndis_filters \<Rightarrow> env \<Rightarrow> nat \<Rightarrow> (ADAPTER, nat) prog" where
  "Receive F E limit = do {
     got \<leftarrow> Receive_loop F E RX_BATCH_SIZE limit [];
     whenM (got \<noteq> []) (kernel_do E ''NdisMIndicateReceiveNetBufferLists'' (indicated got));
     ret (length got)
   }"

abbreviation NDIS_INDICATE_ALL_NBLS :: nat where "NDIS_INDICATE_ALL_NBLS \<equiv> 0xffffffff"

text \<open>The result says whether the kernel shall continue, as more than it takes has been received.\<close>

definition InterruptDpc :: "ndis_filters \<Rightarrow> env \<Rightarrow> nat \<Rightarrow> (ADAPTER, bool) prog" where
  "InterruptDpc F E limit = do {
     a \<leftarrow> gets id;
     if \<not> ad_Running a \<or> ad_Speed a = 0 \<or> ad_SurpriseRemoved a \<or> ad_DpcActive a then ret False
     else do {
       modify (\<lambda>a. a\<lparr>ad_DpcActive := True\<rparr>);
       kernel_do E ''KeClearEvent dpcIdle'' [];
       pending \<leftarrow> TakeInterrupts E;
       modify (\<lambda>a. a\<lparr>ad_InterruptDpcs := ad_InterruptDpcs a + 1\<rparr>);
       whenM (pending AND GEM_IRQ_FATAL \<noteq> 0) (do {
         modify (\<lambda>a. a\<lparr>ad_Running := False\<rparr>);
         StopInterrupts E;
         modify (\<lambda>a. a\<lparr>ad_RecoveryRequested := ad_RecoveryRequested a OR (pending AND GEM_IRQ_FATAL)\<rparr>);
         kernel_do E ''KeSetEvent wake'' []
       });
       CompleteTransmit E;
       received \<leftarrow> Receive F E limit;
       a \<leftarrow> gets id;
       more \<leftarrow> (if ad_Running a \<and> \<not> ad_SurpriseRemoved a then do {
           io_barrier;
           rx \<leftarrow> ring_read E (rx_desc (ad_RxHead a));
           let moreRx = (rx AND GEM_RX_OWN \<noteq> 0);
           moreTx \<leftarrow> (if ad_TxCount a = 0 then ret False
             else do { control \<leftarrow> ring_read E (tx_desc (ad_TxTail a) + 4); ret (control AND GEM_TX_USED \<noteq> 0) });
           if moreRx \<and> limit \<noteq> NDIS_INDICATE_ALL_NBLS \<and> received = limit then ret True
           else if moreRx \<or> moreTx then do { kernel_do E ''NdisMQueueDpcEx'' []; ret False }
           else do { RearmInterrupts E; ret False }
         }
         else ret False);
       modify (\<lambda>a. a\<lparr>ad_DpcActive := False\<rparr>);
       kernel_do E ''KeSetEvent dpcIdle'' [];
       ret more
     }
   }"

section \<open>Sending\<close>

text \<open>The number of frames counted and whether all of them have a length that can be sent.\<close>

fun count_frames :: "u8 list list \<Rightarrow> nat \<Rightarrow> nat \<times> bool" where
  "count_frames [] n = (n, True)"
| "count_frames (p # ps) n =
     (if n + 1 \<ge> GEM_RING_SIZE \<or> length p < 14 \<or> length p > GEM_FRAME_MAX then (n + 1, False) else count_frames ps (n + 1))"

definition send_check :: "ADAPTER \<Rightarrow> u8 list list \<Rightarrow> NDIS_STATUS" where
  "send_check a pkts =
     (if \<not> ad_Running a \<or> ad_SurpriseRemoved a then NDIS_STATUS_PAUSED
      else if ad_Speed a = 0 then NDIS_STATUS_MEDIA_DISCONNECTED
      else case count_frames pkts 0 of (n, ok) \<Rightarrow>
        if n > GEM_RING_SIZE - 1 - ad_TxCount a then NDIS_STATUS_RESOURCES
        else if n = 0 \<or> \<not> ok then NDIS_STATUS_INVALID_LENGTH
        else NDIS_STATUS_SUCCESS)"

text \<open>Every frame is copied to the buffer of its slot and padded, the slots from \<open>index\<close> on; \<open>None\<close> when a frame cannot be mapped.\<close>

fun Send_stage :: "env \<Rightarrow> u8 list list \<Rightarrow> nat \<Rightarrow> (ADAPTER, nat option) prog" where
  "Send_stage E [] index = ret (Some index)"
| "Send_stage E (p # ps) index = do {
     data \<leftarrow> io_call E ''NdisGetDataBuffer'' [of_nat (length p)];
     if data = 0 then ret None
     else do {
       let base = GEM_TX_DATA_OFFSET + index * GEM_BUFFER_SIZE;
       let padded = (if length p < 60 then 60 else length p);
       gem_copy_to_dma E base p;
       forM [length p..<padded] (\<lambda>j. kernel_do E ''store'' [of_nat (base + j), 1, 0]);
       modify (\<lambda>a. a\<lparr>ad_Tx := (ad_Tx a)[index := (ad_Tx a ! index)\<lparr>ts_Length := padded, ts_Kind := FrameKind p\<rparr>]\<rparr>);
       Send_stage E ps (tx_next index)
     }
   }"

text \<open>Published from the last frame to the first.\<close>

fun Send_publish :: "env \<Rightarrow> ptr \<Rightarrow> nat \<Rightarrow> nat \<Rightarrow> (ADAPTER, unit) prog" where
  "Send_publish E nbl n 0 = ret ()"
| "Send_publish E nbl n (Suc j) = do {
     a \<leftarrow> gets id;
     let i = (ad_TxHead a + j) mod GEM_RING_SIZE;
     now \<leftarrow> io_now E;
     modify (\<lambda>a. a\<lparr>ad_Tx := (ad_Tx a)[i := (ad_Tx a ! i)\<lparr>ts_Nbl := nbl, ts_Last := (Suc j = n), ts_Started := now\<rparr>]\<rparr>);
     io_barrier;
     ring_write (tx_desc i + 4) (of_nat (ts_Length (ad_Tx a ! i)) OR GEM_TX_LAST OR (if i = GEM_RING_SIZE - 1 then GEM_TX_WRAP else 0));
     Send_publish E nbl n j
   }"

text \<open>Whether the list is held by the ring now.\<close>

definition Send_one :: "env \<Rightarrow> NBL \<Rightarrow> (ADAPTER, bool) prog" where
  "Send_one E nbl = do {
     a \<leftarrow> gets id;
     let status = send_check a (nbl_Frames nbl);
     staged \<leftarrow> (if status = NDIS_STATUS_SUCCESS then Send_stage E (nbl_Frames nbl) (ad_TxHead a) else ret None);
     let status = (if status = NDIS_STATUS_SUCCESS \<and> staged = None then NDIS_STATUS_RESOURCES else status);
     modify (\<lambda>a. a\<lparr>ad_Status := (ad_Status a)(nbl_Address nbl := status)\<rparr>);
     case staged of
       None \<Rightarrow> do { set_stats (\<lambda>s. s\<lparr>es_TxDiscards := es_TxDiscards s + 1\<rparr>); ret False }
     | Some index \<Rightarrow> do {
         let n = length (nbl_Frames nbl);
         Send_publish E (nbl_Address nbl) n n;
         io_barrier;
         modify (\<lambda>a. a\<lparr>ad_TxCount := ad_TxCount a + n, ad_TxHead := index\<rparr>);
         Gem_Write E GEM_NCR (GEM_MPE OR GEM_RE OR GEM_TE OR GEM_TSTART);
         ret True
       }
   }"

fun Send_all :: "env \<Rightarrow> NBL list \<Rightarrow> ptr list \<Rightarrow> (ADAPTER, ptr list) prog" where
  "Send_all E [] done = ret done"
| "Send_all E (nbl # nbls) done = do { held \<leftarrow> Send_one E nbl; Send_all E nbls (if held then done else nbl_Address nbl # done) }"

definition Eth_Send :: "env \<Rightarrow> NBL list \<Rightarrow> (ADAPTER, unit) prog" where
  "Eth_Send E nbls = do { done \<leftarrow> Send_all E nbls []; Eth_Complete E done }"

text \<open>\<open>same\<close> says which lists carry the identifier that is cancelled.\<close>

definition CancelSend :: "(ptr \<Rightarrow> bool) \<Rightarrow> (ADAPTER, unit) prog" where
  "CancelSend same = modify (\<lambda>a. a\<lparr>ad_Status := (\<lambda>p. if p \<in> ts_Nbl ` set (filter holds_list (ad_Tx a)) \<and> same p
     then NDIS_STATUS_SEND_ABORTED else ad_Status a p)\<rparr>)"

section \<open>Power and life cycle\<close>

definition Eth_Pause :: "env \<Rightarrow> (ADAPTER, NDIS_STATUS) prog" where
  "Eth_Pause E = do {
     done \<leftarrow> StopHardware E NDIS_STATUS_PAUSED;
     Eth_Complete E done;
     ret NDIS_STATUS_SUCCESS
   }"

definition Eth_Restart :: "env \<Rightarrow> (ADAPTER, NDIS_STATUS) prog" where
  "Eth_Restart E = do {
     a \<leftarrow> gets id;
     if ad_Fault a \<or> ad_SurpriseRemoved a \<or> \<not> ad_Powered a then ret NDIS_STATUS_HARD_ERRORS
     else if ad_ProbeOnly a then do { Eth_Snapshot E 65; ret NDIS_STATUS_SUCCESS }
     else do {
       StartHardware E 0;
       Eth_Snapshot E 70;
       kernel_do E ''KeSetEvent wake'' [];
       ret NDIS_STATUS_SUCCESS
     }
   }"

definition Eth_Shutdown :: "env \<Rightarrow> bool \<Rightarrow> (ADAPTER, unit) prog" where
  "Eth_Shutdown E powerOff =
     (if powerOff then do {
        modify (\<lambda>a. a\<lparr>ad_Terminate := True\<rparr>);
        kernel_do E ''KeSetEvent wake'' [];
        done \<leftarrow> StopHardware E NDIS_STATUS_CLOSING;
        Eth_Complete E done
      }
      else do {
        set_irq (\<lambda>i. i\<lparr>ei_Running := False\<rparr>);
        io_barrier;
        a \<leftarrow> gets id;
        whenM (ad_OwnsHardware a \<and> \<not> ad_SurpriseRemoved a) (gem_disable E)
      })"

text \<open>The event that says that the device has been removed.\<close>

definition PnpEvent :: "env \<Rightarrow> (ADAPTER, unit) prog" where
  "PnpEvent E = do {
     a \<leftarrow> gets id;
     (if ad_Interrupt a \<noteq> 0 then RemoveInterrupts else modify (\<lambda>a. a\<lparr>ad_SurpriseRemoved := True\<rparr>));
     modify (\<lambda>a. a\<lparr>ad_RetainDma := True, ad_Running := False\<rparr>);
     kernel_do E ''KeWaitForSingleObject dpcIdle'' []
   }"

text \<open>What the maintenance thread does each time it wakes: recovery, the link, the counters. It returns the time of the next statistics.\<close>

definition Maintenance_recover :: "env \<Rightarrow> (ADAPTER, unit) prog" where
  "Maintenance_recover E = do {
     a \<leftarrow> gets id;
     let recovery = ad_RecoveryRequested a;
     modify (\<lambda>a. a\<lparr>ad_RecoveryRequested := 0\<rparr>);
     recovery \<leftarrow> (if ad_Running a \<and> ad_TxCount a \<noteq> 0 then do {
         now \<leftarrow> io_now E;
         ret (if now - ts_Started (ad_Tx a ! ad_TxTail a) > 50000000 then recovery OR 0x80000000 else recovery)
       }
       else ret recovery);
     whenM (recovery \<noteq> 0 \<and> ad_Powered a \<and> \<not> ad_SurpriseRemoved a \<and> \<not> ad_ProbeOnly a) (do {
       done \<leftarrow> StopHardware E NDIS_STATUS_FAILURE;
       modify (\<lambda>a. a\<lparr>ad_Recoveries := ad_Recoveries a + 1, ad_LastRecovery := recovery\<rparr>);
       Eth_Complete E done;
       b \<leftarrow> gets id;
       whenM (\<not> ad_Fault b) (StartHardware E (ad_Speed a));
       Eth_Snapshot E 90;
       IndicateLink E
     })
   }"

definition Maintenance_link :: "env \<Rightarrow> (ADAPTER, unit) prog" where
  "Maintenance_link E = do {
     link \<leftarrow> gem_link E;
     let speed = (case link of None \<Rightarrow> 0 | Some s \<Rightarrow> s);
     a \<leftarrow> gets id;
     whenM (ad_Speed a \<noteq> speed) (do {
       done \<leftarrow> StopHardware E NDIS_STATUS_MEDIA_DISCONNECTED;
       Eth_Complete E done;
       b \<leftarrow> gets id;
       whenM (\<not> ad_Fault b) (StartHardware E speed);
       IndicateLink E;
       b \<leftarrow> gets id;
       Eth_Diagnostic E ''DiagLinkMbps'' (ad_Speed b)
     })
   }"

definition Maintenance_statistics :: "env \<Rightarrow> u64 \<Rightarrow> (ADAPTER, u64) prog" where
  "Maintenance_statistics E next' = do {
     now \<leftarrow> io_now E;
     if now < next' then ret next'
     else do {
       a \<leftarrow> gets id;
       let s = ad_Stats a;
       let i = ad_Irq a;
       Eth_Diagnostic E ''DiagRxResourceLow'' (ucast (es_RxResource s));
       Eth_Diagnostic E ''DiagRxOverrunLow'' (ucast (es_RxOverrun s));
       Eth_Diagnostic E ''DiagRxFilteredLow'' (ucast (es_RxFiltered s));
       Eth_Diagnostic E ''DiagInterrupts'' (ucast (ei_Interrupts i));
       Eth_Diagnostic E ''DiagInterruptDpcs'' (ucast (ad_InterruptDpcs a));
       Eth_Diagnostic E ''DiagRxInterrupts'' (ucast (ei_RxInterrupts i));
       Eth_Diagnostic E ''DiagTxInterrupts'' (ucast (ei_TxInterrupts i));
       Eth_Diagnostic E ''DiagRecoveries'' (ad_Recoveries a);
       Eth_Diagnostic E ''DiagLastRecovery'' (ad_LastRecovery a);
       now \<leftarrow> io_now E;
       Eth_Diagnostic E ''DiagStatisticsUptimeSeconds'' (ucast (now div 10000000));
       now \<leftarrow> io_now E;
       ret (now + 100000000)
     }
   }"

definition Maintenance_turn :: "env \<Rightarrow> u64 \<Rightarrow> (ADAPTER, u64) prog" where
  "Maintenance_turn E next' = do {
     kernel_do E ''KeWaitForSingleObject wake'' [];
     a \<leftarrow> gets id;
     if ad_Terminate a then ret next'
     else do {
       Maintenance_recover E;
       a \<leftarrow> gets id;
       if ad_Running a \<and> \<not> ad_SurpriseRemoved a then do {
         Maintenance_link E;
         AccumulateErrors E;
         Maintenance_statistics E next'
       }
       else ret next'
     }
   }"

text \<open>The end of the adapter. What the start-up has allocated is freed, but not the memory that the device may still use.\<close>

record eth_resources =
  er_Thread :: bool
  er_Route :: bool
  er_Rx :: "(ptr \<times> ptr) list"
  er_Pool :: bool
  er_DmaAdapter :: bool
  er_Dma :: ptr

definition Eth_Cleanup :: "env \<Rightarrow> eth_resources \<Rightarrow> (ADAPTER, unit) prog" where
  "Eth_Cleanup E R = do {
     whenM (er_Thread R) (do {
       modify (\<lambda>a. a\<lparr>ad_Terminate := True\<rparr>);
       kernel_do E ''KeSetEvent wake'' [];
       kernel_do E ''ZwWaitForSingleObject'' [];
       kernel_do E ''ZwClose thread'' []
     });
     a \<leftarrow> gets id;
     (if ad_DmaTouched a then do { done \<leftarrow> StopHardware E NDIS_STATUS_CLOSING; Eth_Complete E done }
      else whenM (ad_OwnsHardware a \<and> \<not> ad_SurpriseRemoved a) (gem_disable E));
     whenM (ad_Interrupt a \<noteq> 0) (do { kernel_do E ''NdisMDeregisterInterruptEx'' []; modify (\<lambda>a. a\<lparr>ad_Interrupt := 0\<rparr>) });
     whenM (er_Route R) (kernel_do E ''ZwClose route'' []);
     forM (er_Rx R) (\<lambda>(nbl, mdl). do {
       whenM (nbl \<noteq> 0) (kernel_do E ''NdisFreeNetBufferList'' [nbl]);
       whenM (mdl \<noteq> 0) (kernel_do E ''IoFreeMdl'' [mdl])
     });
     whenM (er_Pool R) (kernel_do E ''NdisFreeNetBufferListPool'' []);
     a \<leftarrow> gets id;
     whenM (er_DmaAdapter R \<and> \<not> ad_RetainDma a) (do {
       whenM (er_Dma R \<noteq> 0) (kernel_do E ''FreeCommonBuffer'' [er_Dma R]);
       kernel_do E ''PutDmaAdapter'' []
     });
     whenM (ad_Registers a \<noteq> 0) (kernel_do E ''NdisMUnmapIoSpace'' [ad_Registers a]);
     whenM (ad_Configuration a \<noteq> 0) (kernel_do E ''NdisCloseConfiguration'' []);
     kernel_do E ''ExFreePoolWithTag'' []
   }"

section \<open>Every list is returned exactly once\<close>

text \<open>The lists given back to the stack so far, and those that the ring holds.\<close>

fun completed :: "io_event list \<Rightarrow> ptr multiset" where
  "completed [] = {#}"
| "completed (Call f xs r # t) = (if f = ''NdisMSendNetBufferListsComplete'' then mset xs else {#}) + completed t"
| "completed (e # t) = completed t"

definition held_by :: "TX_SLOT \<Rightarrow> ptr multiset" where
  "held_by s = (if holds_list s then {#ts_Nbl s#} else {#})"

definition held :: "TX_SLOT list \<Rightarrow> ptr multiset" where
  "held tx = sum_list (map held_by tx)"

lemma held_update: "i < length tx \<Longrightarrow> held (tx[i := s]) + held_by (tx ! i) = held tx + held_by s"
proof (induction tx arbitrary: i)
  case (Cons x xs)
  then show ?case by (cases i) (auto simp: held_def ac_simps)
qed (simp add: held_def)

lemma held_filter: "held tx = mset (map ts_Nbl (filter holds_list tx))"
  by (induction tx) (simp_all add: held_def held_by_def)

lemma held_by_none [simp]: "ts_Nbl s = 0 \<Longrightarrow> held_by s = {#}"
  by (simp add: held_by_def holds_list_def)

lemma held_none: "(\<And>s. s \<in> set tx \<Longrightarrow> ts_Nbl s = 0) \<Longrightarrow> held tx = {#}"
  by (induction tx) (simp_all add: held_def)

text \<open>The ring of the transmitter: the slots from the tail on are published, the others hold no list.\<close>

definition ring_ok :: "ADAPTER \<Rightarrow> bool" where
  "ring_ok a \<longleftrightarrow> length (ad_Tx a) = GEM_RING_SIZE \<and> ad_TxTail a < GEM_RING_SIZE \<and> ad_TxCount a < GEM_RING_SIZE \<and>
     ad_TxHead a = (ad_TxTail a + ad_TxCount a) mod GEM_RING_SIZE \<and>
     (\<forall>i<GEM_RING_SIZE. ad_TxCount a \<le> i \<longrightarrow> ts_Nbl (ad_Tx a ! ((ad_TxTail a + i) mod GEM_RING_SIZE)) = 0)"

definition balance :: "ADAPTER world \<Rightarrow> ptr multiset" where
  "balance w = completed (trace w) + held (ad_Tx (st w))"

definition conserves :: "ADAPTER world \<Rightarrow> ADAPTER world \<Rightarrow> bool" where
  "conserves w w' \<longleftrightarrow> (ring_ok (st w) \<longrightarrow> ring_ok (st w') \<and> balance w' = balance w)"

interpretation conserves: frame conserves
  by unfold_locales (auto simp: conserves_def)

definition same_ring :: "ADAPTER \<Rightarrow> ADAPTER \<Rightarrow> bool" where
  "same_ring a b \<longleftrightarrow> ad_Tx b = ad_Tx a \<and> ad_TxHead b = ad_TxHead a \<and> ad_TxTail b = ad_TxTail a \<and> ad_TxCount b = ad_TxCount a"

lemma same_ring_ok: "same_ring a b \<Longrightarrow> ring_ok a \<Longrightarrow> ring_ok b"
  by (simp add: same_ring_def ring_ok_def)

lemma cons_modify: "(\<And>a. same_ring a (f a)) \<Longrightarrow> preserves conserves (modify f)"
  unfolding preserves_modify conserves_def
  by (auto simp: balance_def intro: same_ring_ok) (simp add: same_ring_def)

lemma cons_io:
  "preserves conserves (io_read E u off)" "preserves conserves (io_now E)" "preserves conserves (emit (Wr u off v))"
  "preserves conserves (emit Bar)" "preserves conserves (emit (Dly n))"
  by (auto simp: preserves_def wp_simps conserves_def balance_def)

lemma cons_call:
  assumes "f \<noteq> ''NdisMSendNetBufferListsComplete''"
  shows "preserves conserves (io_call E f xs)" "preserves conserves (kernel_do E f xs)" "preserves conserves (kernel_status E f xs)"
  using assms by (auto simp: preserves_def wp_simps conserves_def balance_def kernel_do_def kernel_status_def)

lemmas cons_intros = conserves.pres cons_modify cons_io cons_call

lemma cons_gem:
  "preserves conserves (Gem_Read E off)" "preserves conserves (Gem_Write E off v)"
  by (auto simp: Gem_Read_def Gem_Write_def intro!: cons_intros)

lemma cons_mdio_idle: "preserves conserves (mdio_idle E)"
proof -
  have "preserves conserves (mdio_idle_loop E n)" for n by (induction n) (auto intro!: cons_intros cons_gem)
  then show ?thesis by (simp add: mdio_idle_def)
qed

lemma cons_link: "preserves conserves (gem_link E)"
  unfolding gem_link_def gem_mdio_read_def mdio_def
  by (intro cons_intros cons_gem cons_mdio_idle)

lemma cons_control:
  "preserves conserves (gem_disable E)" "preserves conserves (gem_interrupt_status E b)" "preserves conserves (gem_set_speed E s)"
  "preserves conserves (gem_configure E dma mac)" "preserves conserves (gem_init_rings E dma)"
  unfolding gem_disable_def gem_interrupt_status_def gem_set_speed_def gem_configure_def gem_queue_def gem_init_rings_def
  by (intro cons_intros cons_gem)+

lemma cons_interrupts:
  "preserves conserves (StopInterrupts E)" "preserves conserves (StartInterrupts E)" "preserves conserves (RearmInterrupts E)"
  "preserves conserves (TakeInterrupts E)" "preserves conserves RemoveInterrupts" "preserves conserves (DisableInterrupt E)"
  "preserves conserves (EnableInterrupt E)" "preserves conserves (Eth_Interrupt E)"
  unfolding StopInterrupts_def StartInterrupts_def RearmInterrupts_def TakeInterrupts_def RemoveInterrupts_def DisableInterrupt_def
    EnableInterrupt_def Eth_Interrupt_def
  by (intro cons_intros cons_gem cons_control; simp add: same_ring_def)+

lemma cons_diagnostic: "preserves conserves (Eth_Diagnostic E name v)" "preserves conserves (Eth_Report E name off)"
  unfolding Eth_Report_def Eth_Diagnostic_def by (intro cons_intros cons_gem; simp)+

lemma cons_snapshot: "preserves conserves (Eth_Snapshot E stage)" "preserves conserves (IndicateLink E)"
  unfolding Eth_Snapshot_def IndicateLink_def by (intro cons_intros cons_diagnostic; simp)+

lemma cons_start: "preserves conserves (StartHardware E speed)"
  unfolding StartHardware_def by (intro cons_intros cons_gem cons_control cons_interrupts; simp add: same_ring_def)

lemma cons_errors: "preserves conserves (AccumulateErrors E)"
  unfolding AccumulateErrors_def by (intro cons_intros cons_gem; simp add: same_ring_def)

lemma cons_copy: "preserves conserves (gem_copy_to_dma E d s)" "preserves conserves (gem_copy_from_dma E d n)"
  unfolding gem_copy_to_dma_def gem_copy_from_dma_def by (intro cons_intros; simp)+

lemma cons_receive: "preserves conserves (Receive F E limit)"
proof -
  have "preserves conserves (Receive_loop F E n limit got)" for n got
    by (induction n arbitrary: got)
      (auto simp: Receive_pkt_def same_ring_def intro!: cons_intros cons_copy)
  then show ?thesis unfolding Receive_def by (intro cons_intros; simp)
qed

lemma mod_slot:
  fixes t i j :: nat
  assumes "(t + i) mod 512 = (t + j) mod 512" "i < 512" "j < 512"
  shows "i = j"
proof -
  have *: "k = l" if "(t + k) mod 512 = (t + l) mod 512" "k \<le> l" "l < 512" for k l :: nat
  proof -
    from that(1) have "512 dvd (t + l) - (t + k)" using mod_eq_dvd_iff_nat [of "t + k" "t + l" 512] that(2) by simp
    then have "512 dvd l - k" by simp
    moreover have "l - k < 512" using that(3) by simp
    ultimately have "l - k = 0" by (cases "l - k = 0") (auto dest: dvd_imp_le)
    then show ?thesis using that(2) by simp
  qed
  show ?thesis using * [of i j] * [of j i] assms by (metis nat_le_linear)
qed

text \<open>A program in the middle of an operation: the lists \<open>out\<close> are neither in the ring nor given back yet.\<close>

definition owes :: "ptr multiset \<Rightarrow> ptr list \<Rightarrow> ADAPTER world \<Rightarrow> bool" where
  "owes B out w \<longleftrightarrow> ring_ok (st w) \<and> balance w + mset out = B"

lemma wp_owes: "preserves conserves m \<Longrightarrow> owes B out w \<Longrightarrow> (\<And>r v. owes B out v \<Longrightarrow> Q r v) \<Longrightarrow> wp m Q w"
  by (rule wpI) (auto dest: preservesD simp: owes_def conserves_def)

lemma owes_complete: "owes B out w \<Longrightarrow> wp (Eth_Complete E out) (\<lambda>_. owes B []) w"
  by (auto simp: Eth_Complete_def wp_simps owes_def balance_def ac_simps)

lemma cons_owes:
  assumes "\<And>w B. owes B [] w \<Longrightarrow> wp m (\<lambda>_. owes B []) w"
  shows "preserves conserves m"
  unfolding preserves_wp
proof
  fix w show "wp m (\<lambda>_. conserves w) w"
  proof (cases "ring_ok (st w)")
    case True
    then have "owes (balance w) [] w" by (simp add: owes_def)
    from assms [OF this] show ?thesis by (rule wp_mono) (simp add: owes_def conserves_def)
  next
    case False
    then show ?thesis by (intro wp_all) (simp add: conserves_def)
  qed
qed

lemma owes_mod: "owes B out w \<Longrightarrow> same_ring (st w) (f (st w)) \<Longrightarrow> owes B out (w\<lparr>st := f (st w)\<rparr>)"
  by (auto simp: owes_def balance_def same_ring_ok) (simp add: same_ring_def)

lemma owes_trace [simp]:
  "owes B out (w\<lparr>trace := Rd u off v # t\<rparr>) = owes B out (w\<lparr>trace := t\<rparr>)"
  "owes B out (w\<lparr>trace := Wr u off v # t\<rparr>) = owes B out (w\<lparr>trace := t\<rparr>)"
  "owes B out (w\<lparr>trace := Bar # t\<rparr>) = owes B out (w\<lparr>trace := t\<rparr>)"
  "owes B out (w\<lparr>trace := Clk n # t\<rparr>) = owes B out (w\<lparr>trace := t\<rparr>)"
  by (simp_all add: owes_def balance_def)

lemma owes_take:
  assumes "owes B out w" "st w = a" "ad_TxCount a \<noteq> 0" "slot = ad_Tx a ! ad_TxTail a"
  shows "owes B (if ts_Last slot \<and> ts_Nbl slot \<noteq> 0 then ts_Nbl slot # out else out)
     (w\<lparr>st := a\<lparr>ad_Tx := (ad_Tx a)[ad_TxTail a := slot\<lparr>ts_Nbl := 0\<rparr>], ad_TxTail := tx_next (ad_TxTail a), ad_TxCount := ad_TxCount a - 1\<rparr>\<rparr>)"
proof -
  let ?tx = "(ad_Tx a)[ad_TxTail a := slot\<lparr>ts_Nbl := 0\<rparr>]"
  have r: "length (ad_Tx a) = 512" "ad_TxTail a < 512" "ad_TxCount a < 512" "ad_TxHead a = (ad_TxTail a + ad_TxCount a) mod 512"
    "\<And>i. i < 512 \<Longrightarrow> ad_TxCount a \<le> i \<Longrightarrow> ts_Nbl (ad_Tx a ! ((ad_TxTail a + i) mod 512)) = 0"
    using assms(1,2) by (auto simp: owes_def ring_ok_def)
  have "ts_Nbl (?tx ! ((ad_TxTail a + 1 + i) mod 512)) = 0" if "i < 512" "ad_TxCount a - 1 \<le> i" for i
  proof (cases "i = 511")
    case True
    then have "(ad_TxTail a + 1 + i) mod 512 = ad_TxTail a" using r(2) by simp
    then show ?thesis using r(1,2) by simp
  next
    case False
    then show ?thesis using r(5) [of "Suc i"] that r(1,2) by (auto simp: nth_list_update)
  qed
  then have ok: "ring_ok (a\<lparr>ad_Tx := ?tx, ad_TxTail := tx_next (ad_TxTail a), ad_TxCount := ad_TxCount a - 1\<rparr>)"
    using r assms(3) by (cases "ad_TxCount a") (simp_all add: ring_ok_def mod_simps)
  have "held ?tx + held_by slot = held (ad_Tx a)"
    using held_update [of "ad_TxTail a" "ad_Tx a" "slot\<lparr>ts_Nbl := 0\<rparr>"] r(1,2) assms(4) by simp
  with ok assms(1,2) show ?thesis
    by (auto simp: owes_def balance_def held_by_def holds_list_def)
qed

lemma owes_loop: "owes B out w \<Longrightarrow> wp (CompleteTransmit_loop E n out) (\<lambda>out. owes B out) w"
proof (induction n arbitrary: out w)
  case (Suc n)
  show ?case
    unfolding CompleteTransmit_loop.simps
    apply (rule wp_bindI, rule wp_getsI, unfold id_apply, rule wp_ifI, rule wp_returnI, rule Suc.prems)
    apply (rule wp_bindI, rule wp_read_any, rule wp_LetI, rule wp_ifI, rule wp_returnI)
    subgoal using Suc.prems by simp
    apply (rule wp_bindI, rule wp_emitI, rule wp_ifI)
    subgoal
      apply (rule wp_bindI, rule wp_owes [where B = B and out = out], intro cons_intros, simp add: same_ring_def)
      subgoal using Suc.prems by simp
      apply (rule wp_bindI, rule wp_owes [where B = B and out = out], rule cons_interrupts, assumption)
      apply (rule wp_bindI, rule wp_owes [where B = B and out = out], intro cons_intros, simp add: same_ring_def, assumption)
      apply (rule wp_bindI, rule wp_owes [where B = B and out = out], intro cons_intros, simp, assumption)
      by (rule wp_returnI)
    subgoal for control slot
      apply (rule wp_bindI, rule wp_mono [where Q = "\<lambda>_ v. owes B out v \<and> same_ring (st w) (st v)"])
      subgoal using Suc.prems by (auto simp: wp_simps same_ring_def intro!: owes_mod)
      apply (rule wp_bindI, rule wp_modifyI, rule Suc.IH)
      subgoal for r v
        using owes_take [of B out v "st v" slot] by (auto simp: same_ring_def)
      done
    done
qed (simp add: wp_simps)

lemma cons_transmit: "preserves conserves (CompleteTransmit E)"
  unfolding CompleteTransmit_def
  by (rule cons_owes, rule wp_bindI, rule wp_getsI, rule wp_bindI, rule wp_mono, erule owes_loop, erule owes_complete)

lemma owes_stop:
  assumes "owes B [] w"
  shows "wp (StopHardware E status) (\<lambda>out v. owes B out v \<and> held (ad_Tx (st v)) = {#}) w"
proof -
  have idle: "preserves conserves (tx_idle_loop E n)" for n
    by (induction n) (auto intro!: cons_intros cons_gem)
  have last: "owes B (rev (map ts_Nbl (filter holds_list (ad_Tx (st v))))) (v\<lparr>st := s\<rparr>) \<and> held (ad_Tx s) = {#}"
    if "owes B [] v" "ad_Tx s = map (\<lambda>s. s\<lparr>ts_Nbl := 0\<rparr>) (ad_Tx (st v))" "ad_TxCount s = 0" "ad_TxHead s = 0" "ad_TxTail s = 0" for v s
  proof -
    have "length (ad_Tx (st v)) = 512" "balance v = B" using that(1) by (auto simp: owes_def ring_ok_def)
    moreover have "held (ad_Tx s) = {#}" using that(2) by (intro held_none) auto
    ultimately show ?thesis using that(2-5) by (simp add: owes_def ring_ok_def balance_def held_filter [of "ad_Tx (st v)"])
  qed
  show ?thesis
    unfolding StopHardware_def
    apply (rule wp_bindI, rule wp_owes [where B = B and out = "[]"], intro cons_intros, simp add: same_ring_def, rule assms)
    apply (rule wp_bindI, rule wp_getsI)
    apply (rule wp_bindI, rule wp_owes [where B = B and out = "[]"], intro cons_intros cons_interrupts, assumption)
    apply (rule wp_bindI, rule wp_owes [where B = B and out = "[]"], intro cons_intros cons_control, assumption)
    apply (rule wp_bindI, rule wp_owes [where B = B and out = "[]"], intro cons_intros, simp, assumption)
    apply (rule wp_bindI, rule wp_owes [where B = B and out = "[]"], intro cons_intros idle, simp add: same_ring_def, assumption)
    apply (rule wp_bindI, rule wp_getsI, rule wp_LetI, rule wp_bindI, rule wp_modifyI, rule wp_bindI, rule wp_modifyI, rule wp_returnI)
    by (auto simp: last intro!: held_none)
qed

lemma owes_call: "f \<noteq> ''NdisMSendNetBufferListsComplete'' \<Longrightarrow> owes B out (w\<lparr>trace := Call f xs r # t\<rparr>) = owes B out (w\<lparr>trace := t\<rparr>)"
  by (simp add: owes_def balance_def)

text \<open>Staging changes neither the lists nor the window of the ring.\<close>

definition same_lists :: "ADAPTER \<Rightarrow> ADAPTER \<Rightarrow> bool" where
  "same_lists a b \<longleftrightarrow> ad_TxHead b = ad_TxHead a \<and> ad_TxTail b = ad_TxTail a \<and> ad_TxCount b = ad_TxCount a \<and>
     map (\<lambda>s. (ts_Nbl s, ts_Last s)) (ad_Tx b) = map (\<lambda>s. (ts_Nbl s, ts_Last s)) (ad_Tx a)"

lemma same_lists_trans: "same_lists a b \<Longrightarrow> same_lists b c \<Longrightarrow> same_lists a c"
  by (simp add: same_lists_def)

lemma held_map: "held tx = sum_list (map (\<lambda>(p, l). if p \<noteq> 0 \<and> l then {#p#} else {#}) (map (\<lambda>s. (ts_Nbl s, ts_Last s)) tx))"
  by (induction tx) (simp_all add: held_def held_by_def holds_list_def)

lemma same_lists_owes:
  assumes "same_lists (st w) s" "owes B out w"
  shows "owes B out (w\<lparr>st := s\<rparr>)"
proof -
  have m: "map (\<lambda>s. (ts_Nbl s, ts_Last s)) (ad_Tx s) = map (\<lambda>s. (ts_Nbl s, ts_Last s)) (ad_Tx (st w))"
    and f: "ad_TxHead s = ad_TxHead (st w)" "ad_TxTail s = ad_TxTail (st w)" "ad_TxCount s = ad_TxCount (st w)"
    using assms(1) by (simp_all add: same_lists_def)
  have l: "length (ad_Tx s) = length (ad_Tx (st w))" using m by (rule map_eq_imp_length_eq)
  have n: "ts_Nbl (ad_Tx s ! i) = ts_Nbl (ad_Tx (st w) ! i)" if "i < length (ad_Tx (st w))" for i
    using arg_cong [OF m, of "\<lambda>xs. xs ! i"] that l by simp
  have "held (ad_Tx s) = held (ad_Tx (st w))" by (simp only: held_map m)
  then show ?thesis using assms(2) f l n by (auto simp: owes_def ring_ok_def balance_def)
qed

lemma same_lists_upd: "ts_Nbl s = ts_Nbl (ad_Tx a ! i) \<Longrightarrow> ts_Last s = ts_Last (ad_Tx a ! i) \<Longrightarrow>
    same_lists a (a\<lparr>ad_Tx := (ad_Tx a)[i := s]\<rparr>)"
  by (cases "i < length (ad_Tx a)") (simp_all add: same_lists_def map_update list_update_same_conv not_less list_update_beyond)

lemma wp_stage:
  assumes "owes B [] w"
  shows "wp (Send_stage E ps i) (\<lambda>r v. owes B [] v \<and> same_lists (st w) (st v) \<and> (\<forall>k. r = Some k \<longrightarrow> k mod 512 = (i + length ps) mod 512 \<and> (i < 512 \<longrightarrow> k < 512))) w"
  using assms
proof (induction ps arbitrary: i w)
  case Nil
  then show ?case by (simp add: wp_simps same_lists_def)
next
  case (Cons p ps)
  have copy: "preserves (keeps id) (gem_copy_to_dma E d s)" "preserves (keeps id) (forM xs (\<lambda>j. kernel_do E g (h j)))" for d s xs g h
    unfolding gem_copy_to_dma_def by (auto intro!: keeps_intros keeps_kernel)
  have zero: "preserves conserves (forM xs (\<lambda>j. kernel_do E ''store'' (h j)))" for xs h by (intro cons_intros) simp
  show ?case
    unfolding Send_stage.simps
    apply (rule wp_bindI, rule wp_call_any, rule wp_ifI, rule wp_returnI)
    subgoal using Cons.prems by (simp add: owes_call same_lists_def)
    apply (rule wp_LetI, rule wp_LetI, rule wp_bindI, rule wp_frame [OF copy(1)], rule wp_owes [where B = B and out = "[]"], rule cons_copy)
    subgoal using Cons.prems by (simp add: owes_call)
    apply (rule impI, rule wp_bindI, rule wp_frame [OF copy(2)], rule wp_owes [where B = B and out = "[]"], rule zero, assumption)
    apply (rule impI, rule wp_bindI, rule wp_modifyI, rule wp_mono, rule Cons.IH)
    subgoal by (rule same_lists_owes, rule same_lists_upd) simp_all
    subgoal
      apply (clarsimp simp: keeps_def mod_simps)
      by (rule conjI, erule same_lists_trans [rotated], rule same_lists_upd) auto
    done
qed

text \<open>Publishing puts a list into free slots; its last frame holds it.\<close>

lemma wp_publish:
  assumes "length (ad_Tx (st w)) = 512" "\<forall>k<j. ts_Nbl (ad_Tx (st w) ! ((ad_TxHead (st w) + k) mod 512)) = 0" "j \<le> n" "n < 512" "nbl \<noteq> 0"
  shows "wp (Send_publish E nbl n j) (\<lambda>_ v. length (ad_Tx (st v)) = 512 \<and> ad_TxHead (st v) = ad_TxHead (st w) \<and> ad_TxTail (st v) = ad_TxTail (st w) \<and>
     ad_TxCount (st v) = ad_TxCount (st w) \<and> completed (trace v) = completed (trace w) \<and>
     held (ad_Tx (st v)) = held (ad_Tx (st w)) + (if j = n \<and> n \<noteq> 0 then {#nbl#} else {#}) \<and>
     (\<forall>i<512. j \<le> i \<longrightarrow> ts_Nbl (ad_Tx (st v) ! ((ad_TxHead (st w) + i) mod 512)) = ts_Nbl (ad_Tx (st w) ! ((ad_TxHead (st w) + i) mod 512)))) w"
  using assms(1-3)
proof (induction j arbitrary: w)
  case (Suc j)
  let ?i = "(ad_TxHead (st w) + j) mod 512"
  have ne: "(ad_TxHead (st w) + k) mod 512 \<noteq> ?i" if "k < 512" "k \<noteq> j" for k
    using mod_slot [of "ad_TxHead (st w)" k j] that Suc.prems(3) assms(4) by auto
  have h: "held ((ad_Tx (st w))[?i := s\<lparr>ts_Nbl := nbl, ts_Last := l, ts_Started := now\<rparr>]) = held (ad_Tx (st w)) + (if l then {#nbl#} else {#})" for s l now
  proof -
    have "held_by (ad_Tx (st w) ! ?i) = {#}" using Suc.prems(2) by simp
    then show ?thesis
      using held_update [of ?i "ad_Tx (st w)" "s\<lparr>ts_Nbl := nbl, ts_Last := l, ts_Started := now\<rparr>"] Suc.prems(1) assms(5)
      by (simp add: held_by_def holds_list_def)
  qed
  have free: "\<forall>k<j. ts_Nbl ((ad_Tx (st w))[?i := s] ! ((ad_TxHead (st w) + k) mod 512)) = 0" for s
  proof (intro allI impI)
    fix k assume "k < j"
    then have "(ad_TxHead (st w) + k) mod 512 \<noteq> ?i" using ne [of k] Suc.prems(3) assms(4) by simp
    then show "ts_Nbl ((ad_Tx (st w))[?i := s] ! ((ad_TxHead (st w) + k) mod 512)) = 0" using Suc.prems(2) \<open>k < j\<close> by simp
  qed
  have other: "(ad_Tx (st w))[?i := s] ! ((ad_TxHead (st w) + i) mod 512) = ad_Tx (st w) ! ((ad_TxHead (st w) + i) mod 512)"
    if "Suc j \<le> i" "i < 512" for i s
    using ne [of i] that by simp
  show ?case
    unfolding Send_publish.simps
    apply (rule wp_bindI, rule wp_getsI, rule wp_LetI, rule wp_bindI, rule wp_now_any, rule wp_bindI, rule wp_modifyI, rule wp_bindI, rule wp_emitI,
        rule wp_bindI, rule wp_emitI, rule wp_mono, rule Suc.IH)
    subgoal using Suc.prems by simp
    subgoal by (simp add: free)
    subgoal using Suc.prems by simp
    subgoal using Suc.prems assms(4) by (auto simp: h other)
    done
qed (auto simp: wp_simps)

lemma count_le: "count_frames ps n = (m, True) \<Longrightarrow> m = n + length ps"
  by (induction ps arbitrary: n) (fastforce split: if_splits)+

lemma send_check_ok:
  assumes "send_check a ps = NDIS_STATUS_SUCCESS"
  shows "length ps \<noteq> 0" "length ps + ad_TxCount a < 512"
proof -
  obtain m ok where m: "count_frames ps 0 = (m, ok)" by (cases "count_frames ps 0")
  with assms have "ok" "m \<noteq> 0" "m \<le> 511 - ad_TxCount a" by (auto simp: send_check_def split: if_splits)
  then have "m + ad_TxCount a < 512" by linarith
  moreover have "m = length ps" using m \<open>ok\<close> count_le [of ps 0 m] by simp
  ultimately show "length ps \<noteq> 0" "length ps + ad_TxCount a < 512" using \<open>m \<noteq> 0\<close> by simp_all
qed

lemma owes_published:
  assumes "owes B [] w" "st w = a" "0 < n" "n + ad_TxCount a < 512"
    and "length (ad_Tx b) = 512" "ad_TxHead b = ad_TxHead a" "ad_TxTail b = ad_TxTail a" "ad_TxCount b = ad_TxCount a"
    and "completed (trace v) = completed (trace w)" "held (ad_Tx b) = held (ad_Tx a) + {#nbl#}"
    and "\<forall>i<512. n \<le> i \<longrightarrow> ts_Nbl (ad_Tx b ! ((ad_TxHead a + i) mod 512)) = ts_Nbl (ad_Tx a ! ((ad_TxHead a + i) mod 512))"
    and "ad_Tx c = ad_Tx b" "ad_TxTail c = ad_TxTail b" "ad_TxCount c = ad_TxCount b + n" "ad_TxHead c = (ad_TxHead b + n) mod 512"
  shows "owes (B + {#nbl#}) [] (v\<lparr>st := c\<rparr>)"
proof -
  have r: "ad_TxTail a < 512" "ad_TxHead a = (ad_TxTail a + ad_TxCount a) mod 512"
    "\<And>i. i < 512 \<Longrightarrow> ad_TxCount a \<le> i \<Longrightarrow> ts_Nbl (ad_Tx a ! ((ad_TxTail a + i) mod 512)) = 0"
    using assms(1,2) by (auto simp: owes_def ring_ok_def)
  have "ts_Nbl (ad_Tx c ! ((ad_TxTail c + i) mod 512)) = 0" if "i < 512" "ad_TxCount c \<le> i" for i
  proof -
    have "ad_TxCount a + n \<le> i" using that(2) assms by simp
    then obtain k where k: "i = ad_TxCount a + k" "n \<le> k" by (metis add.assoc le_Suc_ex le_add1)
    have "(ad_TxHead a + k) mod 512 = (ad_TxTail a + i) mod 512" using r(2) k by (simp add: mod_simps ac_simps)
    moreover have "ts_Nbl (ad_Tx b ! ((ad_TxHead a + k) mod 512)) = ts_Nbl (ad_Tx a ! ((ad_TxHead a + k) mod 512))"
      using assms(11) k that(1) by simp
    moreover have "ts_Nbl (ad_Tx a ! ((ad_TxTail a + i) mod 512)) = 0" using r(3) [of i] k that(1) by simp
    ultimately show ?thesis using assms(7,12,13) by simp
  qed
  then show ?thesis
    using assms r by (simp add: owes_def ring_ok_def balance_def mod_simps ac_simps)
qed

lemma owes_hold: "owes B out w \<Longrightarrow> owes (B + {#p#}) (p # out) w"
  by (simp add: owes_def)

lemma owes_Send_one:
  assumes "owes B [] w" "nbl_Address nbl \<noteq> 0"
  shows "wp (Send_one E nbl) (\<lambda>held v. owes (B + {#nbl_Address nbl#}) (if held then [] else [nbl_Address nbl]) v) w"
proof -
  let ?B = "B + {#nbl_Address nbl#}"
  let ?n = "length (nbl_Frames nbl)"
  have fail: "wp (do { set_stats f; ret False }) (\<lambda>held v. owes ?B (if held then [] else [nbl_Address nbl]) v) u" if "owes B [] u" for f u
    by (intro wp_intros, simp only: if_False, intro owes_hold owes_mod that) (simp add: same_ring_def)
  have sent: "wp (do {
         Send_publish E (nbl_Address nbl) ?n ?n;
         io_barrier;
         modify (\<lambda>a. a\<lparr>ad_TxCount := ad_TxCount a + ?n, ad_TxHead := index\<rparr>);
         Gem_Write E GEM_NCR (GEM_MPE OR GEM_RE OR GEM_TE OR GEM_TSTART);
         ret True
       }) (\<lambda>held v. owes ?B (if held then [] else [nbl_Address nbl]) v) u"
    if "owes B [] u" "?n \<noteq> 0" "?n + ad_TxCount (st u) < 512" "index = (ad_TxHead (st u) + ?n) mod 512" for u index
  proof -
    have r: "length (ad_Tx (st u)) = 512" "ad_TxHead (st u) = (ad_TxTail (st u) + ad_TxCount (st u)) mod 512"
      "\<And>i. i < 512 \<Longrightarrow> ad_TxCount (st u) \<le> i \<Longrightarrow> ts_Nbl (ad_Tx (st u) ! ((ad_TxTail (st u) + i) mod 512)) = 0"
      using that(1) by (auto simp: owes_def ring_ok_def)
    have free: "\<forall>k<?n. ts_Nbl (ad_Tx (st u) ! ((ad_TxHead (st u) + k) mod 512)) = 0"
      using r(3) [of "ad_TxCount (st u) + k" for k] that(3) by (auto simp: r(2) mod_simps ac_simps)
    show ?thesis
      apply (rule wp_bindI, rule wp_mono, rule wp_publish [OF r(1) free le_refl _ assms(2)])
      subgoal using that(3) by simp
      apply (rule wp_bindI, rule wp_emitI, rule wp_bindI, rule wp_modifyI, rule wp_bindI)
      apply (rule wp_owes [where B = ?B and out = "[]"], rule cons_gem)
      subgoal for r v
        using owes_published [OF that(1) refl _ that(3), where b = "st v" and v = "v\<lparr>trace := Bar # trace v\<rparr>" and nbl = "nbl_Address nbl"
            and c = "(st v)\<lparr>ad_TxCount := ad_TxCount (st v) + ?n, ad_TxHead := index\<rparr>"] that(2,4)
        by simp
      by (rule wp_returnI) simp
  qed
  show ?thesis
    unfolding Send_one_def
    apply (rule wp_bindI, rule wp_getsI, rule wp_LetI, unfold id_apply, rule wp_bindI)
    apply (rule wp_mono [where Q = "\<lambda>r v. owes B [] v \<and> same_lists (st w) (st v) \<and>
       (\<forall>k. r = Some k \<longrightarrow> send_check (st w) (nbl_Frames nbl) = NDIS_STATUS_SUCCESS \<and> k = (ad_TxHead (st w) + ?n) mod 512)"])
    subgoal
      apply (rule wp_ifI)
      subgoal
        using assms(1) by (intro wp_mono [OF wp_stage [OF assms(1)]]) (auto simp: owes_def ring_ok_def)
      subgoal using assms(1) by (intro wp_returnI) (simp add: same_lists_def)
      done
    subgoal for y r v
      apply (rule wp_LetI, rule wp_bindI, rule wp_modifyI, rule wp_case_optionI)
      subgoal by (rule fail) (simp add: owes_mod same_ring_def)
      subgoal for s k
        using send_check_ok [of "st w" "nbl_Frames nbl"]
        by (unfold Let_def, intro sent owes_mod) (auto simp: same_lists_def same_ring_def)
      done
    done
qed

lemma owes_Send_all:
  assumes "\<forall>nbl\<in>set nbls. nbl_Address nbl \<noteq> 0"
  shows "owes B out w \<Longrightarrow> wp (Send_all E nbls out) (\<lambda>out v. owes (B + mset (map nbl_Address nbls)) out v) w"
  using assms
proof (induction nbls arbitrary: B out w)
  case (Cons nbl nbls)
  have "owes (balance w) [] w" using Cons.prems(1) by (simp add: owes_def)
  from owes_Send_one [OF this, of nbl E] Cons.prems(2)
  have one: "wp (Send_one E nbl) (\<lambda>held v. owes (B + {#nbl_Address nbl#}) (if held then out else nbl_Address nbl # out) v) w"
    by (auto elim!: wp_mono simp: Cons.prems(1) owes_def split: if_splits) (use Cons.prems(1) in \<open>auto simp: owes_def\<close>)
  show ?case
    unfolding Send_all.simps
    by (rule wp_bindI, rule wp_mono, rule one, rule wp_mono, rule Cons.IH, assumption) (use Cons.prems in auto)
qed (simp add: wp_simps)

lemma owes_Send:
  assumes "\<forall>nbl\<in>set nbls. nbl_Address nbl \<noteq> 0" "owes B [] w"
  shows "wp (Eth_Send E nbls) (\<lambda>_. owes (B + mset (map nbl_Address nbls)) []) w"
  unfolding Eth_Send_def
  by (rule wp_bindI, rule wp_mono, rule owes_Send_all [OF assms], erule owes_complete)

lemma owes_pres: "preserves conserves m \<Longrightarrow> owes B [] w \<Longrightarrow> wp m (\<lambda>_. owes B []) w"
  by (rule wp_owes)

text \<open>Stopping the hardware and giving back what it held, with whatever follows.\<close>

lemma cons_stopped:
  assumes "preserves conserves m"
  shows "preserves conserves (do { done \<leftarrow> StopHardware E status; x \<leftarrow> Eth_Complete E done; m })"
  by (rule cons_owes, rule wp_bindI, rule wp_mono, erule owes_stop, rule wp_bindI, rule wp_mono, erule owes_complete [OF conjunct1],
      erule owes_pres [OF assms])

lemma cons_stopped_last:
  "preserves conserves (do { done \<leftarrow> StopHardware E status; Eth_Complete E done })"
  by (rule cons_owes, rule wp_bindI, rule wp_mono, erule owes_stop, erule owes_complete [OF conjunct1])

lemma cons_stopped_modify:
  assumes "preserves conserves m" "\<And>a. same_ring a (f a)"
  shows "preserves conserves (do { done \<leftarrow> StopHardware E status; u \<leftarrow> modify f; x \<leftarrow> Eth_Complete E done; m })"
  by (rule cons_owes, rule wp_bindI, rule wp_mono, erule owes_stop, rule wp_bindI, rule wp_modifyI, rule wp_bindI, rule wp_mono,
      rule owes_complete, rule owes_mod, erule conjunct1, rule assms(2), erule owes_pres [OF assms(1)])

lemma cons_life:
  "preserves conserves (Eth_Pause E)" "preserves conserves (Eth_Restart E)" "preserves conserves (PnpEvent E)"
  "preserves conserves (Eth_Shutdown E b)" "preserves conserves (CancelSend same)" "preserves conserves (InterruptDpc F E limit)"
  "preserves conserves (Maintenance_recover E)" "preserves conserves (Maintenance_link E)" "preserves conserves (Maintenance_statistics E n)"
  "preserves conserves (Eth_Cleanup E R)"
  unfolding Eth_Pause_def Eth_Restart_def PnpEvent_def Eth_Shutdown_def CancelSend_def InterruptDpc_def Maintenance_recover_def
    Maintenance_link_def Maintenance_statistics_def Eth_Cleanup_def
  by (intro cons_stopped cons_stopped_last cons_stopped_modify cons_intros cons_gem cons_control cons_interrupts cons_snapshot cons_diagnostic
      cons_start cons_transmit cons_receive cons_link; simp add: same_ring_def)+

lemma cons_turn: "preserves conserves (Maintenance_turn E n)"
  unfolding Maintenance_turn_def by (intro cons_intros cons_life cons_errors; simp)

text \<open>The calls of the kernel and of the stack, in any order. Each one is a step, and so is a turn of the maintenance thread: what other calls do
  while the code has released its lock in the middle of one is not interleaved here.\<close>

datatype eth_op = EthSend "NBL list" | EthCancel "ptr list" | EthPause | EthRestart | EthDpc nat | EthInterrupt | EthDisable | EthEnable
  | EthMaintenance u64 | EthRemoved | EthShutdown bool | EthHalt eth_resources

fun eth_run :: "ndis_filters \<Rightarrow> env \<Rightarrow> eth_op \<Rightarrow> (ADAPTER, unit) prog" where
  "eth_run F E (EthSend nbls) = Eth_Send E nbls"
| "eth_run F E (EthCancel ps) = CancelSend (\<lambda>p. p \<in> set ps)"
| "eth_run F E EthPause = do { r \<leftarrow> Eth_Pause E; ret () }"
| "eth_run F E EthRestart = do { r \<leftarrow> Eth_Restart E; ret () }"
| "eth_run F E (EthDpc limit) = do { r \<leftarrow> InterruptDpc F E limit; ret () }"
| "eth_run F E EthInterrupt = do { r \<leftarrow> Eth_Interrupt E; ret () }"
| "eth_run F E EthDisable = DisableInterrupt E"
| "eth_run F E EthEnable = EnableInterrupt E"
| "eth_run F E (EthMaintenance n) = do { r \<leftarrow> Maintenance_turn E n; ret () }"
| "eth_run F E EthRemoved = PnpEvent E"
| "eth_run F E (EthShutdown b) = Eth_Shutdown E b"
| "eth_run F E (EthHalt R) = Eth_Cleanup E R"

fun sent :: "eth_op list \<Rightarrow> ptr multiset" where
  "sent [] = {#}"
| "sent (EthSend nbls # ops) = mset (map nbl_Address nbls) + sent ops"
| "sent (op # ops) = sent ops"

fun op_ok :: "eth_op \<Rightarrow> bool" where
  "op_ok (EthSend nbls) \<longleftrightarrow> list_all (\<lambda>nbl. nbl_Address nbl \<noteq> 0) nbls"
| "op_ok op \<longleftrightarrow> True"

lemma owes_run:
  assumes "op_ok op" "owes B [] w"
  shows "wp (eth_run F E op) (\<lambda>_. owes (B + sent [op]) []) w"
proof (cases op)
  case (EthSend nbls)
  then show ?thesis using owes_Send [OF _ assms(2), of nbls E] assms(1) by (simp add: list_all_iff)
qed (use assms(2) in \<open>auto intro!: owes_pres cons_life cons_turn cons_interrupts conserves.pres\<close>)

lemma sent_Cons: "sent (op # ops) = sent [op] + sent ops"
  by (cases op) simp_all

lemma owes_runs:
  "list_all op_ok ops \<Longrightarrow> owes B [] w \<Longrightarrow> wp (forM ops (eth_run F E)) (\<lambda>_. owes (B + sent ops) []) w"
proof (induction ops arbitrary: B w)
  case (Cons op ops)
  have one: "wp (eth_run F E op) (\<lambda>_. owes (B + sent [op]) []) w" using Cons.prems by (intro owes_run) simp_all
  have "owes (B + sent [op]) [] v \<Longrightarrow> wp (forM ops (eth_run F E)) (\<lambda>_. owes (B + sent (op # ops)) []) v" for v
    using Cons.IH [of "B + sent [op]" v] Cons.prems(1) sent_Cons [of op ops] by (simp add: add.assoc)
  with one show ?case
    unfolding forM.simps by (intro wp_bindI) (erule wp_mono)
qed (simp add: wp_simps)

abbreviation eth_session :: "ndis_filters \<Rightarrow> env \<Rightarrow> ADAPTER \<Rightarrow> eth_op list \<Rightarrow> ADAPTER world" where
  "eth_session F E a ops \<equiv> snd (run_state (forM ops (eth_run F E)) \<lparr>st = a, trace = []\<rparr>)"

definition ring_empty :: "ADAPTER \<Rightarrow> bool" where
  "ring_empty a \<longleftrightarrow> length (ad_Tx a) = GEM_RING_SIZE \<and> list_all (\<lambda>s. ts_Nbl s = 0) (ad_Tx a) \<and> ad_TxHead a = 0 \<and> ad_TxTail a = 0 \<and> ad_TxCount a = 0"

lemma ring_empty_owes: "ring_empty a \<Longrightarrow> owes {#} [] \<lparr>st = a, trace = []\<rparr>"
  by (auto simp: ring_empty_def owes_def ring_ok_def balance_def list_all_iff intro!: held_none)

text \<open>C29. Whatever the device and the kernel do, and in whatever order the adapter is called: every list of frames that
  the stack has sent is either in the ring, at exactly one of its slots, or has been given back, exactly once. After a pause all of
  them have been given back.\<close>

theorem eth_lists_conserved:
  assumes "ring_empty a" "list_all op_ok ops"
  shows "completed (trace (eth_session F E a ops)) + held (ad_Tx (st (eth_session F E a ops))) = sent ops \<and>
     completed (trace (snd (run_state (Eth_Pause E) (eth_session F E a ops)))) = sent ops"
proof -
  let ?w = "eth_session F E a ops"
  have "wp (forM ops (eth_run F E)) (\<lambda>_. owes ({#} + sent ops) []) \<lparr>st = a, trace = []\<rparr>"
    by (rule owes_runs [OF assms(2) ring_empty_owes [OF assms(1)]])
  then have w: "owes (sent ops) [] ?w" by (simp add: wp_def split_beta)
  have "wp (Eth_Pause E) (\<lambda>_ v. completed (trace v) = sent ops) ?w"
    unfolding Eth_Pause_def
    apply (rule wp_bindI, rule wp_mono, rule owes_stop [OF w])
    by (auto simp: Eth_Complete_def wp_simps owes_def balance_def ac_simps)
  with w show ?thesis by (simp add: wp_def split_beta owes_def balance_def)
qed

text \<open>Two lists: one frame of twenty bytes, and a frame that is too short.\<close>

definition eth_example :: ADAPTER where
  "eth_example = \<lparr>ad_Configuration = 1, ad_Interrupt = 1, ad_Registers = 1, ad_DmaAddress = 0x1000000, ad_Terminate = False,
     ad_SurpriseRemoved = False, ad_Running = True, ad_Powered = True, ad_Fault = False, ad_DmaTouched = True, ad_RetainDma = False,
     ad_OwnsHardware = True, ad_ProbeOnly = False, ad_DpcActive = False,
     ad_Irq = \<lparr>ei_Running = True, ei_Deferred = False, ei_Suppressed = False, ei_ClearOnRead = False, ei_Pending = 0, ei_Interrupts = 0,
       ei_RxInterrupts = 0, ei_TxInterrupts = 0\<rparr>,
     ad_RecoveryRequested = 0, ad_InterruptDpcs = 0, ad_Recoveries = 0, ad_LastRecovery = 0, ad_Speed = 1000, ad_PacketFilter = 1,
     ad_Multicast = [], ad_Address = [2, 0, 0, 0, 0, 1], ad_TxHead = 0, ad_TxTail = 0, ad_TxCount = 0, ad_RxHead = 0,
     ad_Tx = replicate GEM_RING_SIZE \<lparr>ts_Nbl = 0, ts_Length = 0, ts_Kind = 0, ts_Last = False, ts_Started = 0\<rparr>,
     ad_Stats = \<lparr>es_TxFrames = [0, 0, 0], es_RxFrames = [0, 0, 0], es_TxBytes = 0, es_RxBytes = 0, es_TxKindBytes = [0, 0, 0],
       es_RxKindBytes = [0, 0, 0], es_TxErrors = 0, es_RxErrors = 0, es_RxDiscards = 0, es_TxDiscards = 0, es_RxNoBuffer = 0,
       es_RxAlignment = 0, es_TxOneCollision = 0, es_TxMoreCollisions = 0, es_RxResource = 0, es_RxOverrun = 0, es_RxFiltered = 0\<rparr>,
     ad_Status = (\<lambda>_. NDIS_STATUS_SUCCESS)\<rparr>"

definition eth_filters :: ndis_filters where
  "eth_filters = \<lparr>nf_Directed = 1, nf_Multicast = 2, nf_AllMulticast = 4, nf_Broadcast = 8, nf_Promiscuous = 0x20\<rparr>"

definition eth_calls :: "eth_op list" where
  "eth_calls = [EthSend [\<lparr>nbl_Address = 5, nbl_Frames = [replicate 20 7]\<rparr>, \<lparr>nbl_Address = 6, nbl_Frames = [[1]]\<rparr>], EthInterrupt, EthDpc 64]"

theorem eth_lists_conserved_witness:
  "completed (trace (eth_session eth_filters (regfile (\<lambda>_ _. 0) (\<lambda>_ _. 1)) eth_example eth_calls)) +
     held (ad_Tx (st (eth_session eth_filters (regfile (\<lambda>_ _. 0) (\<lambda>_ _. 1)) eth_example eth_calls))) = sent eth_calls \<and>
   completed (trace (snd (run_state (Eth_Pause (regfile (\<lambda>_ _. 0) (\<lambda>_ _. 1)))
     (eth_session eth_filters (regfile (\<lambda>_ _. 0) (\<lambda>_ _. 1)) eth_example eth_calls)))) = sent eth_calls"
  by (rule eth_lists_conserved) (simp_all add: ring_empty_def eth_example_def eth_calls_def list_all_iff)

section \<open>What is received\<close>

lemma wp_loads: "wp (mapM xs (\<lambda>(at, k). do { v \<leftarrow> io_call E ''load'' [of_nat (s + at), of_nat k]; ret (le_bytes k v) }))
    (\<lambda>parts _. length (concat parts) = length (covers xs)) w"
proof (induction xs arbitrary: w)
  case (Cons x xs)
  obtain at k where x: "x = (at, k)" by (cases x)
  show ?case
    unfolding mapM.simps x prod.case
    by (rule wp_bindI, rule wp_bindI, rule wp_call_any, rule wp_returnI, rule wp_bindI, rule wp_mono, rule Cons.IH, rule wp_returnI)
      (simp add: le_bytes_def)
qed (simp add: wp_simps)

lemma wp_copy_length: "wp (gem_copy_from_dma E s n) (\<lambda>r _. length r = n) w"
  unfolding gem_copy_from_dma_def
  using copy_accesses_exact [of s n] by (intro wp_bindI wp_mono [OF wp_loads]) (simp add: wp_simps)

definition same_filter :: "ADAPTER \<Rightarrow> u32 \<times> u8 list \<times> u8 list list" where
  "same_filter a = (ad_PacketFilter a, ad_Address a, ad_Multicast a)"

lemma accept_same: "same_filter a = same_filter b \<Longrightarrow> AcceptFrame F a p = AcceptFrame F b p"
  by (simp add: AcceptFrame_def same_filter_def)

lemma keeps_copy: "preserves (keeps g) (gem_copy_from_dma E s n)"
  unfolding gem_copy_from_dma_def by (intro keeps_intros)

definition taken :: "ndis_filters \<Rightarrow> ADAPTER \<Rightarrow> u8 list \<Rightarrow> bool" where
  "taken F a p \<longleftrightarrow> AcceptFrame F a p \<and> 14 \<le> length p \<and> length p \<le> GEM_FRAME_MAX"

lemma wp_Receive_pkt:
  "wp (Receive_pkt F E slot control) (\<lambda>r v. same_filter (st v) = same_filter (st w) \<and> pred_option (taken F (st w)) r) w"
proof (cases "gem_rx_length control")
  case None
  then show ?thesis by (simp add: Receive_pkt_def wp_simps same_filter_def)
next
  case (Some n)
  then have n: "14 \<le> n" "n \<le> GEM_FRAME_MAX" by (auto simp: gem_rx_length_def Let_def split: if_splits)
  show ?thesis
    unfolding Receive_pkt_def Some option.case
    apply (rule wp_bindI, rule wp_frame [OF keeps_copy [where g = same_filter]], rule wp_mono, rule wp_copy_length)
    apply (rule impI, intro wp_intros)
    subgoal for p v using n accept_same [of "st v" "st w"] by (simp add: keeps_def taken_def same_filter_def)
    subgoal by (simp add: keeps_def same_filter_def)
    done
qed

lemma wp_Receive_loop:
  assumes "list_all (taken F a) got" "same_filter (st w) = same_filter a" "length got \<le> limit"
  shows "wp (Receive_loop F E n limit got) (\<lambda>r _. list_all (taken F a) r \<and> length r \<le> length got + n \<and> length r \<le> limit) w"
  using assms
proof (induction n arbitrary: got w)
  case (Suc n)
  have more: "wp (Receive_loop F E n limit (case p of None \<Rightarrow> got | Some p \<Rightarrow> got @ [p]))
      (\<lambda>r _. list_all (taken F a) r \<and> length r \<le> length got + Suc n \<and> length r \<le> limit) v"
    if "pred_option (taken F a) p" "same_filter (st v) = same_filter a" "length got < limit" for p v
    by (rule wp_mono, rule Suc.IH) (use that Suc.prems in \<open>auto split: option.splits\<close>)
  have t: "taken F (st v) = taken F a" if "same_filter (st v) = same_filter a" for v :: "ADAPTER world"
    using accept_same [OF that] by (auto simp: taken_def fun_eq_iff)
  show ?case
    unfolding Receive_loop.simps
    apply (rule wp_ifI, rule wp_returnI)
    subgoal using Suc.prems by simp
    apply (rule wp_bindI, rule wp_getsI, rule wp_ifI, rule wp_returnI)
    subgoal using Suc.prems by simp
    apply (rule wp_LetI, rule wp_bindI, rule wp_read_any, rule wp_ifI, rule wp_returnI)
    subgoal using Suc.prems by simp
    apply (rule wp_bindI, rule wp_emitI, rule wp_bindI, rule wp_read_any, rule wp_bindI, rule wp_mono, rule wp_Receive_pkt)
    apply (rule wp_bindI, rule wp_emitI, rule wp_bindI, rule wp_emitI, rule wp_bindI, rule wp_emitI, rule wp_bindI, rule wp_emitI, rule wp_bindI, rule wp_modifyI)
    apply (rule more)
    using Suc.prems t by (auto simp: same_filter_def)
qed (simp add: wp_simps)

text \<open>C30. Whatever the device has put into the ring: one batch hands at most 64 frames and at most as many as the kernel takes to the stack,
  and every frame of it passes the address filter and has a length between 14 and 1514 bytes.\<close>

theorem eth_receive_filtered:
  "case run_state (Receive_loop F E RX_BATCH_SIZE limit []) \<lparr>st = a, trace = t\<rparr> of (got, w) \<Rightarrow>
     list_all (taken F a) got \<and> length got \<le> RX_BATCH_SIZE \<and> length got \<le> limit"
  using wp_Receive_loop [of F a "[]" "\<lparr>st = a, trace = t\<rparr>" limit E RX_BATCH_SIZE] by (simp add: wp_def split_beta)

end
