(* ===== verification/Bcm_Gpio.thy ===== *)
theory Bcm_Gpio
  imports Kernel
begin

text \<open>
  The pins of the BCM2712: the layout of their fields (\<open>bcm2712-gpio/layout.c\<close>) and the access to
  their registers (\<open>hardware.c\<close>). The data register of the first bank of the always-on controller
  belongs to the firmware and is reached through its methods alone.

  The lemmas show that the fields of different pins do not meet, that on registers that keep what is
  written each step changes one setting of one pin (\<open>pin_at\<close>), and so what configuring, restoring and
  reading a pin do.
\<close>

unbundle bit_operations_syntax

section \<open>Where the fields of a pin are\<close>

record BCM_PIN_FIELDS =
  pf_MuxBit :: nat
  pf_PullBit :: nat

abbreviation NO_PULL :: nat where "NO_PULL \<equiv> 65535"

definition mainD0 :: "nat list" where
  "mainD0 = [1, 2, 3, 4, 10, 11, 12, 13, 14, 15, 18, 19, 20, 21, 22, 23, 24, 25, 26, 27, 28, 29, 30, 31, 32, 33, 34, 35]"

definition aonD0 :: "nat list" where
  "aonD0 = [0, 1, 2, 3, 4, 5, 6, 8, 9, 12, 13, 14]"

fun pin_index :: "nat list \<Rightarrow> nat \<Rightarrow> nat \<Rightarrow> nat option" where
  "pin_index [] i pin = None"
| "pin_index (p # ps) i pin = (if pin = p then Some i else pin_index ps (i + 1) pin)"

definition pull_bit :: "nat \<Rightarrow> nat \<Rightarrow> nat" where
  "pull_bit base pull = (base + pull div 15) * 32 + pull mod 15 * 2"

definition BcmPinFields :: "nat \<Rightarrow> nat \<Rightarrow> nat \<Rightarrow> BCM_PIN_FIELDS option" where
  "BcmPinFields revision aon pin =
     (if revision > 1 \<or> aon > 1 then None
      else if aon \<noteq> 0 \<and> pin \<ge> 32 \<and> pin \<le> 37 then
        Some \<lparr>pf_MuxBit = (if pin - 32 < 4 then (pin - 32) * 4 else (pin - 32 - 3) * 32), pf_PullBit = NO_PULL\<rparr>
      else if revision = 0 then
        if aon = 0 \<and> pin \<ge> 54 \<or> aon \<noteq> 0 \<and> pin \<ge> 17 then None
        else Some \<lparr>pf_MuxBit = (if aon \<noteq> 0 then 96 else 0) + pin * 4,
          pf_PullBit = pull_bit (if aon \<noteq> 0 then 6 else 7) (pin + (if aon \<noteq> 0 then 10 else 7))\<rparr>
      else case pin_index (if aon \<noteq> 0 then aonD0 else mainD0) 0 pin of
        None \<Rightarrow> None
      | Some i \<Rightarrow> Some \<lparr>pf_MuxBit = (if aon \<noteq> 0 then 96 else 0) + i * 4,
          pf_PullBit = pull_bit (if aon \<noteq> 0 then 5 else 4) (i + (if aon \<noteq> 0 then 9 else 5))\<rparr>)"

definition BcmValidPins :: "nat \<Rightarrow> nat \<Rightarrow> u64" where
  "BcmValidPins revision aon = fold (\<lambda>pin mask. if BcmPinFields revision aon pin \<noteq> None \<and> \<not> (aon \<noteq> 0 \<and> pin = 3)
     then mask OR push_bit pin 1 else mask) [0..<64] 0"

section \<open>Registers\<close>

abbreviation BCM_ODEN :: u32 where "BCM_ODEN \<equiv> 0"
abbreviation BCM_DATA :: u32 where "BCM_DATA \<equiv> 4"
abbreviation BCM_DIR :: u32 where "BCM_DIR \<equiv> 8"
abbreviation BCM_EDGE :: u32 where "BCM_EDGE \<equiv> 12"
abbreviation BCM_BOTH :: u32 where "BCM_BOTH \<equiv> 16"
abbreviation BCM_MASK :: u32 where "BCM_MASK \<equiv> 20"
abbreviation BCM_LEVEL :: u32 where "BCM_LEVEL \<equiv> 24"
abbreviation BCM_STATUS :: u32 where "BCM_STATUS \<equiv> 28"

record BCM_PIN_STATE =
  ps_Mux :: u32
  ps_Pull :: u32
  ps_Data :: bool
  ps_Input :: bool
  ps_OpenDrain :: bool
  ps_Edge :: bool
  ps_Both :: bool
  ps_Level :: bool

record BCM_GPIO =
  bg_Timer :: ptr
  bg_Key :: ptr
  bg_Gio :: ptr
  bg_Pinctrl :: ptr
  bg_L2 :: ptr
  bg_PinctrlLength :: u32
  bg_Revision :: u32
  bg_Uid :: u32
  bg_Valid :: u64
  bg_IoOwned :: u64
  bg_OutputOwned :: u64
  bg_IrqOwned :: u64
  bg_FunctionOwned :: u64
  bg_Touched :: u64
  bg_ResumeMask :: u64
  bg_Boot :: "nat \<Rightarrow> BCM_PIN_STATE"
  bg_Resume :: "nat \<Rightarrow> BCM_PIN_STATE"
  bg_InterruptObservations :: u64
  bg_ButtonObservations :: u64
  bg_Started :: bool
  bg_L2WasMasked :: bool

text \<open>The three register blocks are the banks of the model.\<close>

abbreviation GIO :: u32 where "GIO \<equiv> 0"
abbreviation PINCTRL :: u32 where "PINCTRL \<equiv> 1"
abbreviation L2 :: u32 where "L2 \<equiv> 2"

definition BcmRead :: "env \<Rightarrow> u32 \<Rightarrow> u32 \<Rightarrow> ('s, u32) prog" where
  "BcmRead E base off = io_read E base off"

definition BcmWrite :: "u32 \<Rightarrow> u32 \<Rightarrow> u32 \<Rightarrow> ('s, unit) prog" where
  "BcmWrite base off v = io_write base off v"

definition field_word :: "nat \<Rightarrow> u32" where
  "field_word position = of_nat (position div 32 * 4)"

definition BcmFieldRead :: "env \<Rightarrow> nat \<Rightarrow> u32 \<Rightarrow> ('s, u32) prog" where
  "BcmFieldRead E position mask' = do {
     v \<leftarrow> BcmRead E PINCTRL (field_word position);
     ret (drop_bit (position mod 32) v AND mask')
   }"

definition field_put :: "nat \<Rightarrow> u32 \<Rightarrow> u32 \<Rightarrow> u32 \<Rightarrow> u32" where
  "field_put position mask' value old =
     (old AND NOT (push_bit (position mod 32) mask')) OR push_bit (position mod 32) (value AND mask')"

definition BcmFieldWrite :: "env \<Rightarrow> nat \<Rightarrow> u32 \<Rightarrow> u32 \<Rightarrow> ('s, unit) prog" where
  "BcmFieldWrite E position mask' value = do {
     old \<leftarrow> BcmRead E PINCTRL (field_word position);
     BcmWrite PINCTRL (field_word position) (field_put position mask' value old)
   }"

section \<open>The firmware's methods\<close>

text \<open>The size and the tags of the kernel's answer to the evaluation of a method.\<close>

record acpi_layout =
  al_Size :: u64
  al_Signature :: u64
  al_Integer :: u64

definition Bcm_Eval :: "acpi_layout \<Rightarrow> env \<Rightarrow> string \<Rightarrow> u64 list \<Rightarrow> ('s, NTSTATUS \<times> u32) prog" where
  "Bcm_Eval A E name args = do {
     status \<leftarrow> kernel_status E (''IOCTL_ACPI_EVAL_METHOD '' @ name) args;
     if \<not> NT_SUCCESS status then ret (status, 0)
     else do {
       returned \<leftarrow> io_call E ''output returned'' [];
       signature \<leftarrow> io_call E ''output Signature'' [];
       n \<leftarrow> io_call E ''output Count'' [];
       type' \<leftarrow> io_call E ''output Type'' [];
       len \<leftarrow> io_call E ''output DataLength'' [];
       value \<leftarrow> io_call E ''output Argument'' [];
       if returned < al_Size A \<or> signature \<noteq> al_Signature A \<or> n \<noteq> 1 \<or> type' \<noteq> al_Integer A \<or> len \<noteq> 4 then ret (STATUS_ACPI_INVALID_DATA, 0)
       else ret (STATUS_SUCCESS, ucast value)
     }
   }"

definition BcmEvalInteger :: "acpi_layout \<Rightarrow> env \<Rightarrow> string \<Rightarrow> ('s, NTSTATUS \<times> u32) prog" where
  "BcmEvalInteger A E name = Bcm_Eval A E name []"

text \<open>The arguments of the broker method: revision, function, and for a write the mask and the values.\<close>

definition broker_args :: "u32 \<Rightarrow> u32 \<Rightarrow> u64 list" where
  "broker_args mask' value = (if mask' \<noteq> 0 then [1, 2, ucast mask', ucast (value AND mask')] else [1, 1])"

definition BcmBroker :: "acpi_layout \<Rightarrow> env \<Rightarrow> u32 \<Rightarrow> u32 \<Rightarrow> (BCM_GPIO, NTSTATUS \<times> u32) prog" where
  "BcmBroker A E mask' value = do {
     c \<leftarrow> gets id;
     if bg_Uid c = 0 \<or> mask' AND NOT (ucast (bg_Valid c)) \<noteq> 0 then ret (STATUS_INVALID_PARAMETER, 0)
     else do {
       (status, data) \<leftarrow> Bcm_Eval A E ''_DSM'' (broker_args mask' value);
       ret (if NT_SUCCESS status \<and> data = 0xffffffff then STATUS_ACPI_INVALID_DATA else status, data)
     }
   }"

section \<open>Data and configuration\<close>

definition join_banks :: "u32 \<Rightarrow> u32 \<Rightarrow> u64" where
  "join_banks low high = ucast low OR push_bit 32 (ucast high)"

definition BcmReadBanks :: "env \<Rightarrow> u32 \<Rightarrow> ('s, u64) prog" where
  "BcmReadBanks E off = do { low \<leftarrow> BcmRead E GIO off; high \<leftarrow> BcmRead E GIO (32 + off); ret (join_banks low high) }"

definition BcmUpdate_bank :: "env \<Rightarrow> u32 \<Rightarrow> u64 \<Rightarrow> u64 \<Rightarrow> nat \<Rightarrow> ('s, unit) prog" where
  "BcmUpdate_bank E off mask' value bank =
     (let bits = (ucast (drop_bit (bank * 32) mask') :: u32); at = of_nat bank * 32 + off in
      whenM (bits \<noteq> 0) (do {
        old \<leftarrow> BcmRead E GIO at;
        BcmWrite GIO at ((old AND NOT bits) OR (ucast (drop_bit (bank * 32) value) AND bits))
      }))"

definition BcmUpdate :: "env \<Rightarrow> u32 \<Rightarrow> u64 \<Rightarrow> u64 \<Rightarrow> ('s, unit) prog" where
  "BcmUpdate E off mask' value = forM [0, 1] (BcmUpdate_bank E off mask' value)"

definition BcmReadData :: "acpi_layout \<Rightarrow> env \<Rightarrow> (BCM_GPIO, NTSTATUS \<times> u64) prog" where
  "BcmReadData A E = do {
     c \<leftarrow> gets id;
     (status, low) \<leftarrow> (if bg_Uid c \<noteq> 0 then BcmBroker A E 0 0 else do { low \<leftarrow> BcmRead E GIO BCM_DATA; ret (STATUS_SUCCESS, low) });
     if NT_SUCCESS status then do { high \<leftarrow> BcmRead E GIO (32 + BCM_DATA); ret (status, join_banks low high) }
     else ret (status, 0)
   }"

definition BcmWriteData_bank :: "env \<Rightarrow> u64 \<Rightarrow> u64 \<Rightarrow> nat \<Rightarrow> ('s, unit) prog" where
  "BcmWriteData_bank E mask' set' bank =
     (let bits = (ucast (drop_bit (bank * 32) mask') :: u32); at = of_nat bank * 32 + BCM_DATA in
      whenM (bits \<noteq> 0) (do {
        old \<leftarrow> BcmRead E GIO at;
        BcmWrite GIO at ((old AND NOT bits) OR ucast (drop_bit (bank * 32) set'))
      }))"

definition BcmWriteData :: "acpi_layout \<Rightarrow> env \<Rightarrow> u64 \<Rightarrow> u64 \<Rightarrow> (BCM_GPIO, NTSTATUS) prog" where
  "BcmWriteData A E set' clear = do {
     c \<leftarrow> gets id;
     let mask' = set' OR clear;
     if mask' AND NOT (bg_Valid c) \<noteq> 0 \<or> set' AND clear \<noteq> 0 then ret STATUS_INVALID_PARAMETER
     else do {
       status \<leftarrow> (if bg_Uid c \<noteq> 0 \<and> (ucast mask' :: u32) \<noteq> 0
         then do { (status, data) \<leftarrow> BcmBroker A E (ucast mask') (ucast set'); ret status } else ret STATUS_SUCCESS);
       if \<not> NT_SUCCESS status then ret status
       else do {
         forM [if bg_Uid c \<noteq> 0 then 1 else 0..<2] (BcmWriteData_bank E mask' set');
         ret STATUS_SUCCESS
       }
     }
   }"

text \<open>The fields of a pin. Every pin that the driver uses is valid and has fields.\<close>

definition pin_fields :: "BCM_GPIO \<Rightarrow> nat \<Rightarrow> BCM_PIN_FIELDS" where
  "pin_fields c pin = (case BcmPinFields (unat (bg_Revision c)) (unat (bg_Uid c)) pin of Some f \<Rightarrow> f | None \<Rightarrow> \<lparr>pf_MuxBit = 0, pf_PullBit = NO_PULL\<rparr>)"

abbreviation pin_bank :: "nat \<Rightarrow> u32" where "pin_bank pin \<equiv> of_nat (pin div 32 * 32)"
abbreviation pin_bit :: "nat \<Rightarrow> u32" where "pin_bit pin \<equiv> push_bit (pin mod 32) 1"
abbreviation pin_mask :: "nat \<Rightarrow> u64" where "pin_mask pin \<equiv> push_bit pin 1"

definition pin_flag :: "env \<Rightarrow> nat \<Rightarrow> u32 \<Rightarrow> ('s, bool) prog" where
  "pin_flag E pin off = do { v \<leftarrow> BcmRead E GIO (pin_bank pin + off); ret (v AND pin_bit pin \<noteq> 0) }"

definition BcmSnapshot :: "env \<Rightarrow> nat \<Rightarrow> u64 \<Rightarrow> (BCM_GPIO, BCM_PIN_STATE) prog" where
  "BcmSnapshot E pin data = do {
     c \<leftarrow> gets id;
     let f = pin_fields c pin;
     mux \<leftarrow> BcmFieldRead E (pf_MuxBit f) 15;
     pull \<leftarrow> (if pf_PullBit f = NO_PULL then ret 0 else BcmFieldRead E (pf_PullBit f) 3);
     input \<leftarrow> pin_flag E pin BCM_DIR;
     drain \<leftarrow> pin_flag E pin BCM_ODEN;
     edge \<leftarrow> pin_flag E pin BCM_EDGE;
     both \<leftarrow> pin_flag E pin BCM_BOTH;
     level \<leftarrow> pin_flag E pin BCM_LEVEL;
     ret \<lparr>ps_Mux = mux, ps_Pull = pull, ps_Data = (data AND pin_mask pin \<noteq> 0), ps_Input = input, ps_OpenDrain = drain,
       ps_Edge = edge, ps_Both = both, ps_Level = level\<rparr>
   }"

definition used_words :: "BCM_GPIO \<Rightarrow> nat list" where
  "used_words c = concat (map (\<lambda>pin. let f = pin_fields c pin in
     pf_MuxBit f div 32 # (if pf_PullBit f = NO_PULL then [] else [pf_PullBit f div 32])) (filter (bit (bg_Valid c)) [0..<64]))"

definition BcmReadPinctrl :: "env \<Rightarrow> (BCM_GPIO, u32 list) prog" where
  "BcmReadPinctrl E = do {
     c \<leftarrow> gets id;
     mapM [0..<12] (\<lambda>i. if i \<in> set (used_words c) then BcmRead E PINCTRL (of_nat (i * 4)) else ret 0)
   }"

text \<open>An output that is driven already is kept driven.\<close>

definition pin_hold :: "env \<Rightarrow> BCM_PIN_FIELDS \<Rightarrow> nat \<Rightarrow> bool \<Rightarrow> ('s, bool) prog" where
  "pin_hold E f pin wanted =
     (if \<not> wanted then ret False
      else do {
        mux \<leftarrow> BcmFieldRead E (pf_MuxBit f) 15;
        if mux \<noteq> 0 then ret False else do { input \<leftarrow> pin_flag E pin BCM_DIR; ret (\<not> input) }
      })"

definition flag_mask :: "nat \<Rightarrow> bool \<Rightarrow> u64" where
  "flag_mask pin b = (if b then pin_mask pin else 0)"

definition BcmRestore :: "acpi_layout \<Rightarrow> env \<Rightarrow> nat \<Rightarrow> BCM_PIN_STATE \<Rightarrow> (BCM_GPIO, NTSTATUS) prog" where
  "BcmRestore A E pin s = do {
     c \<leftarrow> gets id;
     let f = pin_fields c pin;
     hold \<leftarrow> pin_hold E f pin (\<not> ps_Input s \<and> ps_Mux s = 0);
     whenM (\<not> hold) (BcmUpdate E BCM_DIR (pin_mask pin) (pin_mask pin));
     status \<leftarrow> BcmWriteData A E (flag_mask pin (ps_Data s)) (flag_mask pin (\<not> ps_Data s));
     if \<not> NT_SUCCESS status then ret status
     else do {
       BcmUpdate E BCM_ODEN (pin_mask pin) (flag_mask pin (ps_OpenDrain s));
       BcmFieldWrite E (pf_MuxBit f) 15 (ps_Mux s);
       whenM (pf_PullBit f \<noteq> NO_PULL) (BcmFieldWrite E (pf_PullBit f) 3 (ps_Pull s));
       BcmUpdate E BCM_EDGE (pin_mask pin) (flag_mask pin (ps_Edge s));
       BcmUpdate E BCM_BOTH (pin_mask pin) (flag_mask pin (ps_Both s));
       BcmUpdate E BCM_LEVEL (pin_mask pin) (flag_mask pin (ps_Level s));
       BcmUpdate E BCM_DIR (pin_mask pin) (flag_mask pin (ps_Input s));
       ret STATUS_SUCCESS
     }
   }"

datatype gpio_pull = PullDefault | PullUp | PullDown | PullNone | PullOther

definition pull_value :: "BCM_GPIO \<Rightarrow> nat \<Rightarrow> gpio_pull \<Rightarrow> u32" where
  "pull_value c pin pull = (case pull of PullDefault \<Rightarrow> ps_Pull (bg_Boot c pin) | PullUp \<Rightarrow> 2 | PullDown \<Rightarrow> 1 | _ \<Rightarrow> 0)"

definition BcmConfigure :: "env \<Rightarrow> nat \<Rightarrow> u32 \<Rightarrow> bool \<Rightarrow> gpio_pull \<Rightarrow> (BCM_GPIO, unit) prog" where
  "BcmConfigure E pin function' output pull = do {
     c \<leftarrow> gets id;
     let f = pin_fields c pin;
     hold \<leftarrow> pin_hold E f pin (output \<and> function' = 0);
     whenM (\<not> hold) (BcmUpdate E BCM_DIR (pin_mask pin) (pin_mask pin));
     BcmFieldWrite E (pf_MuxBit f) 15 function';
     whenM (pf_PullBit f \<noteq> NO_PULL) (BcmFieldWrite E (pf_PullBit f) 3 (pull_value c pin pull));
     BcmUpdate E BCM_ODEN (pin_mask pin) 0;
     whenM output (BcmUpdate E BCM_DIR (pin_mask pin) 0);
     modify (\<lambda>c. c\<lparr>bg_Touched := bg_Touched c OR pin_mask pin\<rparr>)
   }"

text \<open>The pins of a request, none of them twice.\<close>

fun mask_loop :: "u64 \<Rightarrow> nat list \<Rightarrow> u64 \<Rightarrow> u64 option" where
  "mask_loop valid [] mask' = Some mask'"
| "mask_loop valid (pin # pins) mask' =
     (if pin \<ge> 64 then None
      else if valid AND pin_mask pin = 0 \<or> mask' AND pin_mask pin \<noteq> 0 then None
      else mask_loop valid pins (mask' OR pin_mask pin))"

definition BcmMask :: "BCM_GPIO \<Rightarrow> nat \<Rightarrow> nat list \<Rightarrow> u64 option" where
  "BcmMask c bank pins = (if bank \<noteq> 0 \<or> pins = [] \<or> length pins > 64 then None else mask_loop (bg_Valid c) pins 0)"

datatype irq_mode = LevelSensitive | Latched | ModeOther
datatype irq_polarity = InterruptActiveHigh | InterruptActiveLow | InterruptActiveBoth | PolarityOther

definition BcmTrigger :: "env \<Rightarrow> nat \<Rightarrow> irq_mode \<Rightarrow> irq_polarity \<Rightarrow> ('s, NTSTATUS) prog" where
  "BcmTrigger E pin mode polarity =
     (if mode \<noteq> Latched \<and> mode \<noteq> LevelSensitive \<or>
         polarity \<noteq> InterruptActiveLow \<and> polarity \<noteq> InterruptActiveHigh \<and> \<not> (polarity = InterruptActiveBoth \<and> mode = Latched)
      then ret STATUS_NOT_SUPPORTED
      else do {
        BcmUpdate E BCM_EDGE (pin_mask pin) (flag_mask pin (polarity = InterruptActiveHigh));
        BcmUpdate E BCM_BOTH (pin_mask pin) (flag_mask pin (polarity = InterruptActiveBoth));
        BcmUpdate E BCM_LEVEL (pin_mask pin) (flag_mask pin (mode = LevelSensitive));
        ret STATUS_SUCCESS
      })"

section \<open>The fields of different pins do not meet\<close>

lemma pin_index_bounds: "pin_index ps i pin = Some k \<Longrightarrow> i \<le> k \<and> k < i + length ps \<and> ps ! (k - i) = pin"
proof (induction ps i pin rule: pin_index.induct)
  case (2 p ps i pin)
  then show ?case by (cases "pin = p") (fastforce simp: nth_Cons')+
qed simp

lemma pin_index_inj: "pin_index ps i p = Some k \<Longrightarrow> pin_index ps i q = Some k \<Longrightarrow> p = q"
  by (blast dest: pin_index_bounds)

text \<open>The bits of the control registers that a pin has.\<close>

definition field_bits :: "BCM_PIN_FIELDS \<Rightarrow> nat set" where
  "field_bits f = {pf_MuxBit f..<pf_MuxBit f + 4} \<union> (if pf_PullBit f = NO_PULL then {} else {pf_PullBit f..<pf_PullBit f + 2})"

definition pinctrl_bits :: "nat \<Rightarrow> nat \<Rightarrow> nat" where
  "pinctrl_bits revision aon = 8 * (if aon \<noteq> 0 then if revision \<noteq> 0 then 28 else 32 else if revision \<noteq> 0 then 32 else 48)"

lemma pull_bit_less: "p < q \<Longrightarrow> pull_bit b p + 2 \<le> pull_bit b q"
proof -
  assume "p < q"
  moreover have "p = 15 * (p div 15) + p mod 15" "q = 15 * (q div 15) + q mod 15" "p mod 15 < 15" "q mod 15 < 15" by simp_all
  ultimately consider "p div 15 < q div 15" | "p div 15 = q div 15" "p mod 15 < q mod 15" by linarith
  then show ?thesis by cases (use \<open>p mod 15 < 15\<close> in \<open>simp_all add: pull_bit_def\<close>)
qed

lemma pull_bit_mod: "pull_bit b p mod 32 + 2 \<le> 32"
proof -
  have "p mod 15 < 15" by simp
  then have "pull_bit b p mod 32 = p mod 15 * 2" by (simp only: pull_bit_def mod_mult_self3) simp
  with \<open>p mod 15 < 15\<close> show ?thesis by linarith
qed

lemma pull_bit_range: "p < 15 * n \<Longrightarrow> b * 32 \<le> pull_bit b p \<and> pull_bit b p + 2 \<le> (b + n) * 32"
proof -
  assume "p < 15 * n"
  then have "p div 15 < n" "p mod 15 < 15" by (simp_all add: less_mult_imp_div_less mult.commute)
  then show ?thesis by (simp add: pull_bit_def)
qed

lemma BcmPinFields_cases:
  assumes "BcmPinFields revision aon pin = Some f"
  obtains (pad) "aon = 1" "revision \<le> 1" "32 \<le> pin" "pin \<le> 37" "pf_PullBit f = NO_PULL"
      "pf_MuxBit f = (if pin - 32 < 4 then (pin - 32) * 4 else (pin - 32 - 3) * 32)"
  | (main0) "aon = 0" "revision = 0" "pin < 54" "pf_MuxBit f = pin * 4" "pf_PullBit f = pull_bit 7 (pin + 7)"
  | (aon0) "aon = 1" "revision = 0" "pin < 17" "pf_MuxBit f = 96 + pin * 4" "pf_PullBit f = pull_bit 6 (pin + 10)"
  | (main1) i where "aon = 0" "revision = 1" "pin_index mainD0 0 pin = Some i" "i < 28" "pf_MuxBit f = i * 4" "pf_PullBit f = pull_bit 4 (i + 5)"
  | (aon1) i where "aon = 1" "revision = 1" "\<not> (32 \<le> pin \<and> pin \<le> 37)" "pin_index aonD0 0 pin = Some i" "i < 12" "pf_MuxBit f = 96 + i * 4" "pf_PullBit f = pull_bit 5 (i + 9)"
proof -
  have len: "length mainD0 = 28" "length aonD0 = 12" by (simp_all add: mainD0_def aonD0_def)
  from assms have le: "revision \<le> 1" "aon \<le> 1" by (auto simp: BcmPinFields_def split: if_splits)
  then consider "revision = 0" "aon = 0" | "revision = 0" "aon = 1" | "revision = 1" "aon = 0" | "revision = 1" "aon = 1" by linarith
  then show ?thesis
    using assms pin_index_bounds [of mainD0 0 pin] pin_index_bounds [of aonD0 0 pin] that
    by cases (auto simp: BcmPinFields_def len split: if_splits option.splits)
qed


lemma pull_bit_inj: "pull_bit b p = pull_bit b q \<longleftrightarrow> p = q"
  using pull_bit_less [of p q b] pull_bit_less [of q p b] by (metis add_leE less_irrefl linorder_neqE_nat not_add_less1 nle_le order.strict_trans1 less_add_same_cancel1 zero_less_numeral le_neq_implies_less)

lemma pull_bit_even: "even (pull_bit b p)"
  by (simp add: pull_bit_def)

text \<open>The functions come before the pulls.\<close>

definition first_pull :: "nat \<Rightarrow> nat \<Rightarrow> nat" where
  "first_pull revision aon = 32 * (if aon \<noteq> 0 then if revision \<noteq> 0 then 5 else 6 else if revision \<noteq> 0 then 4 else 7)"

lemma first_pull_inside: "first_pull revision aon \<le> pinctrl_bits revision aon" "pinctrl_bits revision aon \<le> 384"
  by (simp_all add: first_pull_def pinctrl_bits_def)

lemma mux_field:
  assumes "BcmPinFields revision aon pin = Some f"
  shows "4 dvd pf_MuxBit f" "pf_MuxBit f + 4 \<le> first_pull revision aon"
proof -
  show "4 dvd pf_MuxBit f"
    using assms by (cases rule: BcmPinFields_cases) (simp_all add: dvd_add)
  show "pf_MuxBit f + 4 \<le> first_pull revision aon"
  proof (use assms in \<open>cases rule: BcmPinFields_cases\<close>)
    case pad
    then have "pin - 32 - 3 \<le> 2" by simp
    with pad show ?thesis by (simp add: first_pull_def)
  qed (simp_all add: first_pull_def)
qed

lemma pull_field:
  assumes "BcmPinFields revision aon pin = Some f" "pf_PullBit f \<noteq> NO_PULL"
  shows "even (pf_PullBit f)" "first_pull revision aon \<le> pf_PullBit f" "pf_PullBit f + 2 \<le> pinctrl_bits revision aon" "pf_PullBit f mod 32 + 2 \<le> 32"
proof -
  have "first_pull revision aon \<le> pf_PullBit f \<and> pf_PullBit f + 2 \<le> pinctrl_bits revision aon \<and>
      even (pf_PullBit f) \<and> pf_PullBit f mod 32 + 2 \<le> 32"
    using assms(1)
  proof (cases rule: BcmPinFields_cases)
    case main0
    then show ?thesis using pull_bit_range [of "pin + 7" 5 7] by (simp add: first_pull_def pinctrl_bits_def pull_bit_even pull_bit_mod [simplified])
  next
    case aon0
    then show ?thesis using pull_bit_range [of "pin + 10" 2 6] by (simp add: first_pull_def pinctrl_bits_def pull_bit_even pull_bit_mod [simplified])
  next
    case (main1 i)
    then show ?thesis using pull_bit_range [of "i + 5" 3 4] by (simp add: first_pull_def pinctrl_bits_def pull_bit_even pull_bit_mod [simplified])
  next
    case (aon1 i)
    then show ?thesis using pull_bit_range [of "i + 9" 2 5] by (simp add: first_pull_def pinctrl_bits_def pull_bit_even pull_bit_mod [simplified])
  qed (use assms(2) in simp)
  then show "even (pf_PullBit f)" "first_pull revision aon \<le> pf_PullBit f" "pf_PullBit f + 2 \<le> pinctrl_bits revision aon" "pf_PullBit f mod 32 + 2 \<le> 32"
    by simp_all
qed

lemma mux_field_inj:
  assumes "BcmPinFields revision aon p = Some f" "BcmPinFields revision aon q = Some g" "pf_MuxBit f = pf_MuxBit g"
  shows "p = q"
  using assms(1)
proof (cases rule: BcmPinFields_cases)
  case pad
  with assms(2,3) show ?thesis by (cases rule: BcmPinFields_cases) (auto split: if_splits)
next
  case (main1 i)
  with assms(2,3) show ?thesis by (cases rule: BcmPinFields_cases) (auto dest: pin_index_inj)
next
  case (aon1 i)
  with assms(2,3) show ?thesis by (cases rule: BcmPinFields_cases) (auto dest: pin_index_inj split: if_splits)
next
  case main0
  with assms(2,3) show ?thesis by (cases rule: BcmPinFields_cases) auto
next
  case aon0
  with assms(2,3) show ?thesis by (cases rule: BcmPinFields_cases) (auto split: if_splits)
qed

lemma pull_field_inj:
  assumes "BcmPinFields revision aon p = Some f" "BcmPinFields revision aon q = Some g" "pf_PullBit f = pf_PullBit g" "pf_PullBit g \<noteq> NO_PULL"
  shows "p = q"
  using assms(1)
proof (cases rule: BcmPinFields_cases)
  case (main1 i)
  with assms(2-) show ?thesis by (cases rule: BcmPinFields_cases) (auto simp: pull_bit_inj dest: pin_index_inj)
next
  case (aon1 i)
  with assms(2-) show ?thesis by (cases rule: BcmPinFields_cases) (auto simp: pull_bit_inj dest: pin_index_inj)
next
  case main0
  with assms(2-) show ?thesis by (cases rule: BcmPinFields_cases) (auto simp: pull_bit_inj)
next
  case aon0
  with assms(2-) show ?thesis by (cases rule: BcmPinFields_cases) (auto simp: pull_bit_inj)
qed (use assms in simp)

lemma aligned_apart: "k dvd a \<Longrightarrow> k dvd b \<Longrightarrow> a \<noteq> b \<Longrightarrow> a + k \<le> b \<or> b + k \<le> a" for a b k :: nat
  by (metis dvd_imp_le dvd_minus_self le_diff_conv2 less_imp_le_nat linorder_neqE_nat zero_less_diff add.commute nat_less_le dvd_diff_nat)

lemma fields_apart:
  assumes "BcmPinFields revision aon p = Some f" "BcmPinFields revision aon q = Some g" "p \<noteq> q"
  shows "field_bits f \<inter> field_bits g = {}"
proof -
  note f = mux_field [OF assms(1)] pull_field [OF assms(1)] and g = mux_field [OF assms(2)] pull_field [OF assms(2)]
  have "pf_MuxBit f + 4 \<le> pf_MuxBit g \<or> pf_MuxBit g + 4 \<le> pf_MuxBit f"
    using aligned_apart [OF f(1) g(1)] mux_field_inj [OF assms(1,2)] assms(3) by blast
  moreover have "pf_PullBit f + 2 \<le> pf_PullBit g \<or> pf_PullBit g + 2 \<le> pf_PullBit f" if "pf_PullBit f \<noteq> NO_PULL" "pf_PullBit g \<noteq> NO_PULL"
    using aligned_apart [OF f(3) g(3)] pull_field_inj [OF assms(1,2)] assms(3) that by blast
  ultimately show ?thesis
    using f(2,4) g(2,4) by (auto simp: field_bits_def split: if_splits)
qed

section \<open>A field of a register\<close>

definition field_of :: "nat \<Rightarrow> u32 \<Rightarrow> u32 \<Rightarrow> u32" where
  "field_of position mask' v = drop_bit (position mod 32) v AND mask'"

lemma bit_field_of: "bit (field_of position (mask n) v) k \<longleftrightarrow> k < n \<and> bit v (position mod 32 + k)"
  using bit_imp_le_length [of v "position mod 32 + k"]
  by (auto simp: field_of_def bit_and_iff bit_drop_bit_eq bit_mask_iff)

lemma bit_field_put:
  "bit (field_put position (mask n) v old) k \<longleftrightarrow>
     k < 32 \<and> (if position mod 32 \<le> k \<and> k < position mod 32 + n then bit v (k - position mod 32) else bit old k)"
  using bit_imp_le_length [of old k]
  by (auto simp: field_put_def bit_and_iff bit_or_iff bit_not_iff bit_push_bit_iff bit_mask_iff)

lemma field_of_put: "position mod 32 + n \<le> 32 \<Longrightarrow> field_of position (mask n) (field_put position (mask n) v old) = v AND mask n"
  by (rule bit_word_eqI) (auto simp: bit_field_of bit_field_put bit_and_iff bit_mask_iff)

lemma field_of_put_other:
  "position div 32 = position' div 32 \<Longrightarrow> position + n \<le> position' \<or> position' + n' \<le> position \<Longrightarrow>
     field_of position' (mask n') (field_put position (mask n) v old) = field_of position' (mask n') old"
proof (rule bit_word_eqI)
  fix k assume a: "position div 32 = position' div 32" "position + n \<le> position' \<or> position' + n' \<le> position"
  have "position = position div 32 * 32 + position mod 32" "position' = position' div 32 * 32 + position' mod 32" by simp_all
  with a have "position mod 32 + n \<le> position' mod 32 \<or> position' mod 32 + n' \<le> position mod 32" by linarith
  then show "bit (field_of position' (mask n') (field_put position (mask n) v old)) k = bit (field_of position' (mask n') old) k"
    using bit_imp_le_length [of old "position' mod 32 + k"] by (auto simp: bit_field_of bit_field_put)
qed

lemma masks: "(15 :: u32) = mask 4" "(3 :: u32) = mask 2"
  by (simp_all add: mask_eq_exp_minus_1)

text \<open>What the fields and the flags of the pins hold.\<close>

abbreviation (input) reg_field :: "(u32 \<Rightarrow> u32 \<Rightarrow> u32) \<Rightarrow> nat \<Rightarrow> u32 \<Rightarrow> u32" where
  "reg_field R position mask' \<equiv> field_of position mask' (R PINCTRL (field_word position))"

definition pin_mux :: "BCM_GPIO \<Rightarrow> (u32 \<Rightarrow> u32 \<Rightarrow> u32) \<Rightarrow> nat \<Rightarrow> u32" where
  "pin_mux c R pin = reg_field R (pf_MuxBit (pin_fields c pin)) 15"

definition pin_pull :: "BCM_GPIO \<Rightarrow> (u32 \<Rightarrow> u32 \<Rightarrow> u32) \<Rightarrow> nat \<Rightarrow> u32" where
  "pin_pull c R pin = (if pf_PullBit (pin_fields c pin) = NO_PULL then 0 else reg_field R (pf_PullBit (pin_fields c pin)) 3)"

definition pin_on :: "(u32 \<Rightarrow> u32 \<Rightarrow> u32) \<Rightarrow> u32 \<Rightarrow> nat \<Rightarrow> bool" where
  "pin_on R off pin \<longleftrightarrow> bit (R GIO (pin_bank pin + off)) (pin mod 32)"

lemma field_word_eq: "a < 65536 \<Longrightarrow> b < 65536 \<Longrightarrow> field_word a = field_word b \<longleftrightarrow> a div 32 = b div 32"
proof -
  assume "a < 65536" "b < 65536"
  then have "a div 32 * 4 < 2 ^ LENGTH(32)" "b div 32 * 4 < 2 ^ LENGTH(32)" by simp_all
  then show ?thesis unfolding field_word_def by (metis mult_cancel2 unat_of_nat_small zero_neq_numeral)
qed

section \<open>One pin of a flag register\<close>

lemma bit_pin: "bit (push_bit n 1 :: 'a::len word) k \<longleftrightarrow> k = n \<and> n < LENGTH('a)"
  by (auto simp: bit_push_bit_iff bit_1_iff simp del: push_bit_of_1)

lemma pin_words:
  assumes "pin < 64"
  shows "(ucast (pin_mask pin) :: u32) = (if pin < 32 then pin_bit pin else 0)"
    "(ucast (drop_bit 32 (pin_mask pin)) :: u32) = (if pin < 32 then 0 else pin_bit pin)"
  using assms by (auto intro!: bit_word_eqI simp: bit_ucast_iff bit_pin bit_drop_bit_eq simp del: push_bit_of_1)
    (simp_all add: le_mod_geq)

lemma pin_bit_nonzero: "pin_bit pin \<noteq> 0"
proof
  assume "pin_bit pin = 0"
  then have "\<not> bit (pin_bit pin) (pin mod 32)" by (simp only: bit_0_eq bot_apply) simp
  then show False by (simp add: bit_pin del: push_bit_of_1)
qed

lemma BcmUpdate_pin:
  assumes "pin < 64"
  shows "BcmUpdate E off (pin_mask pin) (flag_mask pin b) = do {
     old \<leftarrow> io_read E GIO (pin_bank pin + off);
     io_write GIO (pin_bank pin + off) ((old AND NOT (pin_bit pin)) OR (if b then pin_bit pin else 0))
   }"
proof (cases "pin < 32")
  case True
  with assms pin_words [OF assms] pin_bit_nonzero [of pin] show ?thesis
    by (simp add: BcmUpdate_def BcmUpdate_bank_def Let_def flag_mask_def whenM_def BcmRead_def BcmWrite_def del: push_bit_of_1)
next
  case False
  with assms have "pin div 32 = 1" by simp
  with assms False pin_words [OF assms] pin_bit_nonzero [of pin] show ?thesis
    by (simp add: BcmUpdate_def BcmUpdate_bank_def Let_def flag_mask_def whenM_def BcmRead_def BcmWrite_def del: push_bit_of_1)
qed

section \<open>The pins as the registers show them\<close>

definition pin_state :: "BCM_GPIO \<Rightarrow> (u32 \<Rightarrow> u32 \<Rightarrow> u32) \<Rightarrow> nat \<Rightarrow> BCM_PIN_STATE" where
  "pin_state c R pin = \<lparr>ps_Mux = pin_mux c R pin, ps_Pull = pin_pull c R pin, ps_Data = pin_on R BCM_DATA pin,
     ps_Input = pin_on R BCM_DIR pin, ps_OpenDrain = pin_on R BCM_ODEN pin, ps_Edge = pin_on R BCM_EDGE pin,
     ps_Both = pin_on R BCM_BOTH pin, ps_Level = pin_on R BCM_LEVEL pin\<rparr>"

definition pins_view :: "BCM_GPIO \<Rightarrow> (u32 \<Rightarrow> u32 \<Rightarrow> u32) \<Rightarrow> nat \<Rightarrow> BCM_PIN_STATE option" where
  "pins_view c R pin = (if bit (bg_Valid c) pin then Some (pin_state c R pin) else None)"

text \<open>A controller whose valid pins are those of its layout, as \<open>BcmPrepare\<close> sets it up.\<close>

definition bcm_layout_ok :: "BCM_GPIO \<Rightarrow> bool" where
  "bcm_layout_ok c \<longleftrightarrow> bg_Valid c = BcmValidPins (unat (bg_Revision c)) (unat (bg_Uid c))"

lemma bit_BcmValidPins:
  "bit (BcmValidPins revision aon) pin \<longleftrightarrow> pin < 64 \<and> BcmPinFields revision aon pin \<noteq> None \<and> \<not> (aon \<noteq> 0 \<and> pin = 3)"
proof -
  have "bit (fold (\<lambda>pin mask. if ok pin then mask OR push_bit pin 1 else mask) [0..<n] (0 :: u64)) pin \<longleftrightarrow> pin < n \<and> ok pin"
    if "n \<le> 64" for ok :: "nat \<Rightarrow> bool" and n
    using that
  proof (induction n)
    case (Suc n)
    then show ?case by (auto simp: bit_or_iff bit_pin less_Suc_eq simp del: push_bit_of_1)
  qed simp
  from this [of 64] show ?thesis by (simp add: BcmValidPins_def)
qed

lemma valid_fields:
  assumes "bcm_layout_ok c" "bit (bg_Valid c) pin"
  shows "pin < 64" "BcmPinFields (unat (bg_Revision c)) (unat (bg_Uid c)) pin = Some (pin_fields c pin)"
  using assms by (auto simp: bcm_layout_ok_def bit_BcmValidPins pin_fields_def)

lemma pin_fields_cong [simp]:
  "pin_fields (c\<lparr>bg_Touched := m\<rparr>) pin = pin_fields c pin"
  by (simp add: pin_fields_def)

lemma pins_view_cong [simp]: "pins_view (c\<lparr>bg_Touched := m\<rparr>) R = pins_view c R"
  by (simp add: pins_view_def pin_state_def pin_mux_def pin_pull_def fun_eq_iff)

text \<open>Writing a flag register with a changed bit, or a control register with a changed field.\<close>

abbreviation (input) put_reg :: "(u32 \<Rightarrow> u32 \<Rightarrow> u32) \<Rightarrow> u32 \<Rightarrow> u32 \<Rightarrow> u32 \<Rightarrow> u32 \<Rightarrow> u32 \<Rightarrow> u32" where
  "put_reg R u off v \<equiv> R(u := (R u)(off := v))"

definition flag_offsets :: "u32 set" where
  "flag_offsets = {BCM_ODEN, BCM_DATA, BCM_DIR, BCM_EDGE, BCM_BOTH, BCM_MASK, BCM_LEVEL, BCM_STATUS}"

lemma pin_address:
  assumes "p < 64" "q < 64" "off \<in> flag_offsets" "off' \<in> flag_offsets"
  shows "pin_bank p + off = pin_bank q + off' \<longleftrightarrow> p div 32 = q div 32 \<and> off = off'"
proof -
  have digits: "a * 32 + x = b * 32 + y \<longleftrightarrow> a = b \<and> x = y" if "x < 32" "y < 32" for a b x y :: nat
  proof (cases a b rule: linorder_cases)
    case equal
    then show ?thesis by simp
  qed (use that in simp_all)
  have small: "unat off < 32" if "off \<in> flag_offsets" for off using that by (auto simp: flag_offsets_def)
  have at: "unat (pin_bank p + off) = p div 32 * 32 + unat off" if "p < 64" "off \<in> flag_offsets" for p off
  proof -
    have "p div 32 * 32 < 64" using that(1) by (rule le_less_trans [OF div_times_less_eq_dividend])
    with small [OF that(2)] show ?thesis by (simp add: unat_add_small unat_of_nat_small del: of_nat_mult)
  qed
  have "pin_bank p + off = pin_bank q + off' \<longleftrightarrow> p div 32 * 32 + unat off = q div 32 * 32 + unat off'"
    using at [OF assms(1,3)] at [OF assms(2,4)] by (metis word_unat_eq_iff)
  also have "\<dots> \<longleftrightarrow> p div 32 = q div 32 \<and> off = off'"
    using digits [OF small [OF assms(3)] small [OF assms(4)]] by (simp only: word_unat_eq_iff [of off off'])
  finally show ?thesis .
qed

definition with_flag :: "u32 \<Rightarrow> bool \<Rightarrow> BCM_PIN_STATE \<Rightarrow> BCM_PIN_STATE" where
  "with_flag off b s = (if off = BCM_DATA then s\<lparr>ps_Data := b\<rparr> else if off = BCM_DIR then s\<lparr>ps_Input := b\<rparr>
     else if off = BCM_ODEN then s\<lparr>ps_OpenDrain := b\<rparr> else if off = BCM_EDGE then s\<lparr>ps_Edge := b\<rparr>
     else if off = BCM_BOTH then s\<lparr>ps_Both := b\<rparr> else if off = BCM_LEVEL then s\<lparr>ps_Level := b\<rparr> else s)"

lemma bit_set_pin:
  "k < 32 \<Longrightarrow> bit ((old AND NOT (pin_bit pin)) OR (if b then pin_bit pin else 0)) k \<longleftrightarrow> (if k = pin mod 32 then b else bit old k)"
  by (auto simp: bit_or_iff bit_and_iff bit_not_iff bit_pin simp del: push_bit_of_1)

lemma pin_state_flag:
  assumes "pin_mux c R' q = pin_mux c R q" "pin_pull c R' q = pin_pull c R q" "off \<in> flag_offsets"
    and on: "\<And>off'. off' \<in> flag_offsets \<Longrightarrow> pin_on R' off' q = (if off' = off \<and> q = pin then b else pin_on R off' q)"
  shows "pin_state c R' q = (if q = pin then with_flag off b (pin_state c R q) else pin_state c R q)"
proof -
  note o = on [of BCM_DATA] on [of BCM_DIR] on [of BCM_ODEN] on [of BCM_EDGE] on [of BCM_BOTH] on [of BCM_LEVEL]
  from assms(3) o show ?thesis
    by (auto simp: pin_state_def with_flag_def assms(1,2) flag_offsets_def)
qed

lemma view_put_flag:
  assumes "bcm_layout_ok c" "bit (bg_Valid c) pin" "off \<in> flag_offsets"
    and v: "v = (R GIO (pin_bank pin + off) AND NOT (pin_bit pin)) OR (if b then pin_bit pin else 0)"
  shows "pins_view c (put_reg R GIO (pin_bank pin + off) v) = (pins_view c R)(pin := map_option (with_flag off b) (pins_view c R pin))"
proof
  fix q
  have on: "pin_on (put_reg R GIO (pin_bank pin + off) v) off' q = (if off' = off \<and> q = pin then b else pin_on R off' q)"
    if "q < 64" "off' \<in> flag_offsets" for off'
  proof (cases "off' = off \<and> q div 32 = pin div 32")
    case True
    then have "q = pin \<longleftrightarrow> q mod 32 = pin mod 32" by (metis div_mult_mod_eq)
    with True show ?thesis by (simp add: pin_on_def v bit_set_pin del: push_bit_of_1)
  next
    case False
    with pin_address [OF that(1) valid_fields(1) [OF assms(1,2)] that(2) assms(3)] show ?thesis
      by (auto simp: pin_on_def)
  qed
  show "pins_view c (put_reg R GIO (pin_bank pin + off) v) q = ((pins_view c R)(pin := map_option (with_flag off b) (pins_view c R pin))) q"
  proof (cases "bit (bg_Valid c) q")
    case True
    then have "q < 64" using valid_fields assms(1) by blast
    have "pin_state c (put_reg R GIO (pin_bank pin + off) v) q = (if q = pin then with_flag off b (pin_state c R q) else pin_state c R q)"
      by (rule pin_state_flag [OF _ _ assms(3) on [OF \<open>q < 64\<close>]]) (simp_all add: pin_mux_def pin_pull_def)
    with True assms(2) show ?thesis unfolding pins_view_def by auto
  qed (auto simp: pins_view_def)
qed

text \<open>Writing the function or the pull of a pin.\<close>

lemma field_of_put_far:
  assumes "a < 65536" "b < 65536" "a mod 32 + n \<le> 32" "b mod 32 + n' \<le> 32" "a + n \<le> b \<or> b + n' \<le> a"
  shows "reg_field (put_reg R PINCTRL (field_word a) (field_put a (mask n) v (R PINCTRL (field_word a)))) b (mask n') = reg_field R b (mask n')"
proof (cases "a div 32 = b div 32")
  case True
  with assms(1,2) have "field_word b = field_word a" by (simp add: field_word_eq)
  with field_of_put_other [OF True assms(5)] show ?thesis by simp
qed (use assms(1,2) in \<open>simp add: field_word_eq\<close>)

lemma field_of_put_here:
  "a mod 32 + n \<le> 32 \<Longrightarrow>
   reg_field (put_reg R PINCTRL (field_word a) (field_put a (mask n) v (R PINCTRL (field_word a)))) a (mask n) = v AND mask n"
  by (simp add: field_of_put)

lemma pin_on_pinctrl [simp]: "pin_on (put_reg R PINCTRL off v) off' q = pin_on R off' q"
  by (simp add: pin_on_def)

lemma mux_mod: "4 dvd m \<Longrightarrow> m mod 32 + 4 \<le> 32" for m :: nat
  by presburger

lemma pin_bits:
  assumes layout: "bcm_layout_ok c" and pin: "bit (bg_Valid c) pin" and q: "bit (bg_Valid c) q"
  shows "pf_MuxBit (pin_fields c pin) < 65536" "pf_MuxBit (pin_fields c pin) mod 32 + 4 \<le> 32"
  "pf_PullBit (pin_fields c pin) \<noteq> NO_PULL \<Longrightarrow> pf_PullBit (pin_fields c pin) < 65536"
  "pf_PullBit (pin_fields c pin) \<noteq> NO_PULL \<Longrightarrow> pf_PullBit (pin_fields c pin) mod 32 + 2 \<le> 32"
  "pf_PullBit (pin_fields c pin) \<noteq> NO_PULL \<Longrightarrow> pf_MuxBit (pin_fields c q) + 4 \<le> pf_PullBit (pin_fields c pin)"
  "pin \<noteq> q \<Longrightarrow> pf_MuxBit (pin_fields c pin) + 4 \<le> pf_MuxBit (pin_fields c q) \<or> pf_MuxBit (pin_fields c q) + 4 \<le> pf_MuxBit (pin_fields c pin)"
  "pin \<noteq> q \<Longrightarrow> pf_PullBit (pin_fields c pin) \<noteq> NO_PULL \<Longrightarrow> pf_PullBit (pin_fields c q) \<noteq> NO_PULL \<Longrightarrow>
     pf_PullBit (pin_fields c pin) + 2 \<le> pf_PullBit (pin_fields c q) \<or> pf_PullBit (pin_fields c q) + 2 \<le> pf_PullBit (pin_fields c pin)"
proof -
  note f = valid_fields(2) [OF layout pin] and g = valid_fields(2) [OF layout q]
  note F = mux_field [OF f] pull_field [OF f] and G = mux_field [OF g] pull_field [OF g]
  note I = first_pull_inside [of "unat (bg_Revision c)" "unat (bg_Uid c)"]
  from F(2) I show "pf_MuxBit (pin_fields c pin) < 65536" by linarith
  from F(1) show "pf_MuxBit (pin_fields c pin) mod 32 + 4 \<le> 32" by (rule mux_mod)
  show "pf_MuxBit (pin_fields c pin) + 4 \<le> pf_MuxBit (pin_fields c q) \<or> pf_MuxBit (pin_fields c q) + 4 \<le> pf_MuxBit (pin_fields c pin)"
    if "pin \<noteq> q" using aligned_apart [OF F(1) G(1)] mux_field_inj [OF f g] that by blast
  show "pf_PullBit (pin_fields c pin) + 2 \<le> pf_PullBit (pin_fields c q) \<or> pf_PullBit (pin_fields c q) + 2 \<le> pf_PullBit (pin_fields c pin)"
    if "pin \<noteq> q" "pf_PullBit (pin_fields c pin) \<noteq> NO_PULL" "pf_PullBit (pin_fields c q) \<noteq> NO_PULL"
    using aligned_apart [OF F(3) G(3)] pull_field_inj [OF f g] that by blast
  assume p: "pf_PullBit (pin_fields c pin) \<noteq> NO_PULL"
  note P = F(4,5,6) [OF p]
  from P(2) I show "pf_PullBit (pin_fields c pin) < 65536" by linarith
  from P(3) show "pf_PullBit (pin_fields c pin) mod 32 + 2 \<le> 32" .
  from P(1) G(2) show "pf_MuxBit (pin_fields c q) + 4 \<le> pf_PullBit (pin_fields c pin)" by linarith
qed

lemma view_put_mux:
  assumes "bcm_layout_ok c" "bit (bg_Valid c) pin"
    and v: "v = field_put (pf_MuxBit (pin_fields c pin)) 15 value (R PINCTRL (field_word (pf_MuxBit (pin_fields c pin))))"
  shows "pins_view c (put_reg R PINCTRL (field_word (pf_MuxBit (pin_fields c pin))) v) =
     (pins_view c R)(pin := map_option (ps_Mux_update (\<lambda>_. value AND 15)) (pins_view c R pin))"
proof
  fix q
  note P = pin_bits [OF assms(1,2)]
  show "pins_view c (put_reg R PINCTRL (field_word (pf_MuxBit (pin_fields c pin))) v) q =
     ((pins_view c R)(pin := map_option (ps_Mux_update (\<lambda>_. value AND 15)) (pins_view c R pin))) q"
  proof (cases "bit (bg_Valid c) q")
    case True
    note Q = pin_bits [OF assms(1) True]
    have "pin_mux c (put_reg R PINCTRL (field_word (pf_MuxBit (pin_fields c pin))) v) q = (if q = pin then value AND 15 else pin_mux c R q)"
      unfolding pin_mux_def v masks
      using field_of_put_here [OF P(2) [OF True]] field_of_put_far [OF P(1) [OF True] Q(1) [OF True] P(2) [OF True] Q(2) [OF True] P(6) [OF True]]
      by (cases "q = pin") simp_all
    moreover have "pin_pull c (put_reg R PINCTRL (field_word (pf_MuxBit (pin_fields c pin))) v) q = pin_pull c R q"
      unfolding pin_pull_def v masks
      using field_of_put_far [OF P(1) [OF True] Q(3) [OF assms(2)] P(2) [OF True] Q(4) [OF assms(2)] disjI1 [OF Q(5) [OF assms(2)]]]
      by (cases "pf_PullBit (pin_fields c q) = NO_PULL") simp_all
    ultimately show ?thesis using True assms(2) by (cases "q = pin") (auto simp: pins_view_def pin_state_def)
  qed (use assms in \<open>auto simp: pins_view_def\<close>)
qed

lemma view_put_pull:
  assumes "bcm_layout_ok c" "bit (bg_Valid c) pin" "pf_PullBit (pin_fields c pin) \<noteq> NO_PULL"
    and v: "v = field_put (pf_PullBit (pin_fields c pin)) 3 value (R PINCTRL (field_word (pf_PullBit (pin_fields c pin))))"
  shows "pins_view c (put_reg R PINCTRL (field_word (pf_PullBit (pin_fields c pin))) v) =
     (pins_view c R)(pin := map_option (ps_Pull_update (\<lambda>_. value AND 3)) (pins_view c R pin))"
proof
  fix q
  note P = pin_bits [OF assms(1,2)]
  show "pins_view c (put_reg R PINCTRL (field_word (pf_PullBit (pin_fields c pin))) v) q =
     ((pins_view c R)(pin := map_option (ps_Pull_update (\<lambda>_. value AND 3)) (pins_view c R pin))) q"
  proof (cases "bit (bg_Valid c) q")
    case True
    note Q = pin_bits [OF assms(1) True]
    have "pin_pull c (put_reg R PINCTRL (field_word (pf_PullBit (pin_fields c pin))) v) q = (if q = pin then value AND 3 else pin_pull c R q)"
      unfolding pin_pull_def v masks
      using assms(3) field_of_put_here [OF P(4) [OF True assms(3)]]
        field_of_put_far [OF P(3) [OF True assms(3)] Q(3) [OF True] P(4) [OF True assms(3)] Q(4) [OF True] P(7) [OF True _ assms(3)]]
      by (cases "q = pin"; cases "pf_PullBit (pin_fields c q) = NO_PULL") simp_all
    moreover have "pin_mux c (put_reg R PINCTRL (field_word (pf_PullBit (pin_fields c pin))) v) q = pin_mux c R q"
      unfolding pin_mux_def v masks
      by (rule field_of_put_far [OF P(3) [OF True assms(3)] Q(1) [OF True] P(4) [OF True assms(3)] Q(2) [OF True] disjI2 [OF P(5) [OF True assms(3)]]])
    ultimately show ?thesis using True assms(2) by (cases "q = pin") (auto simp: pins_view_def pin_state_def)
  qed (use assms in \<open>auto simp: pins_view_def\<close>)
qed

section \<open>Registers that keep what is written to them\<close>

abbreviation view :: "BCM_GPIO \<Rightarrow> (u32 \<Rightarrow> u32 \<Rightarrow> u32) \<Rightarrow> 's world \<Rightarrow> nat \<Rightarrow> BCM_PIN_STATE option" where
  "view c init w \<equiv> pins_view c (regs init (trace w))"

lemma flag_offsets [simp]:
  "BCM_ODEN \<in> flag_offsets" "BCM_DATA \<in> flag_offsets" "BCM_DIR \<in> flag_offsets" "BCM_EDGE \<in> flag_offsets"
  "BCM_BOTH \<in> flag_offsets" "BCM_MASK \<in> flag_offsets" "BCM_LEVEL \<in> flag_offsets" "BCM_STATUS \<in> flag_offsets"
  by (simp_all add: flag_offsets_def)

lemma with_flag_simps [simp]:
  "with_flag BCM_DATA b s = s\<lparr>ps_Data := b\<rparr>" "with_flag BCM_DIR b s = s\<lparr>ps_Input := b\<rparr>"
  "with_flag BCM_ODEN b s = s\<lparr>ps_OpenDrain := b\<rparr>" "with_flag BCM_EDGE b s = s\<lparr>ps_Edge := b\<rparr>"
  "with_flag BCM_BOTH b s = s\<lparr>ps_Both := b\<rparr>" "with_flag BCM_LEVEL b s = s\<lparr>ps_Level := b\<rparr>"
  by (simp_all add: with_flag_def)

lemma world_trace: "trace (w\<lparr>trace := t\<rparr>) = t"
  by simp

lemma wp_Update_pin:
  assumes "env_read E = regs init" "bcm_layout_ok c" "bit (bg_Valid c) pin" "off \<in> flag_offsets"
    and Q: "\<And>v. st v = st w \<Longrightarrow> view c init v = (view c init w)(pin := map_option (with_flag off b) (view c init w pin)) \<Longrightarrow> Q () v"
  shows "wp (BcmUpdate E off (pin_mask pin) (flag_mask pin b)) Q w"
  unfolding BcmUpdate_pin [OF valid_fields(1) [OF assms(2,3)]]
  by (simp only: wp_simps wp_io_read assms(1)) (rule Q, simp, simp only: world_trace regs.simps view_put_flag [OF assms(2-4) refl])

lemma wp_Write_mux:
  assumes "env_read E = regs init" "bcm_layout_ok c" "bit (bg_Valid c) pin"
    and Q: "\<And>v. st v = st w \<Longrightarrow> view c init v = (view c init w)(pin := map_option (ps_Mux_update (\<lambda>_. value AND 15)) (view c init w pin)) \<Longrightarrow> Q () v"
  shows "wp (BcmFieldWrite E (pf_MuxBit (pin_fields c pin)) 15 value) Q w"
  unfolding BcmFieldWrite_def BcmRead_def BcmWrite_def
  by (simp only: wp_simps wp_io_read assms(1)) (rule Q, simp, simp only: world_trace regs.simps view_put_mux [OF assms(2-3) refl])

lemma wp_Write_pull:
  assumes "env_read E = regs init" "bcm_layout_ok c" "bit (bg_Valid c) pin" "pf_PullBit (pin_fields c pin) \<noteq> NO_PULL"
    and Q: "\<And>v. st v = st w \<Longrightarrow> view c init v = (view c init w)(pin := map_option (ps_Pull_update (\<lambda>_. value AND 3)) (view c init w pin)) \<Longrightarrow> Q () v"
  shows "wp (BcmFieldWrite E (pf_PullBit (pin_fields c pin)) 3 value) Q w"
  unfolding BcmFieldWrite_def BcmRead_def BcmWrite_def
  by (simp only: wp_simps wp_io_read assms(1)) (rule Q, simp, simp only: world_trace regs.simps view_put_pull [OF assms(2-4) refl])

lemma word_nonzero: "w \<noteq> 0 \<longleftrightarrow> (\<exists>n. bit w n)" for w :: "'a::len word"
  by (auto simp: bit_eq_iff dest: bit_imp_le_length)

lemma and_pin_bit: "v AND pin_bit pin \<noteq> 0 \<longleftrightarrow> bit v (pin mod 32)"
  unfolding word_nonzero by (auto simp: bit_and_iff bit_pin simp del: push_bit_of_1)

lemma wp_pin_flag:
  assumes "env_read E = regs init"
    and Q: "\<And>v. st v = st w \<Longrightarrow> regs init (trace v) = regs init (trace w) \<Longrightarrow> Q (pin_on (regs init (trace w)) off pin) v"
  shows "wp (pin_flag E pin off) Q w"
  unfolding pin_flag_def BcmRead_def
  by (simp only: wp_simps wp_io_read assms(1) and_pin_bit flip: pin_on_def) (rule Q, simp_all)

lemma wp_Read_field:
  assumes "env_read E = regs init"
    and Q: "\<And>v. st v = st w \<Longrightarrow> regs init (trace v) = regs init (trace w) \<Longrightarrow> Q (reg_field (regs init (trace w)) position m) v"
  shows "wp (BcmFieldRead E position m) Q w"
  unfolding BcmFieldRead_def BcmRead_def
  by (simp only: wp_simps wp_io_read assms(1) flip: field_of_def) (rule Q, simp_all)

lemma wp_pin_hold:
  assumes E: "env_read E = regs init" and s: "view c init w pin = Some s"
    and Q: "\<And>v. st v = st w \<Longrightarrow> regs init (trace v) = regs init (trace w) \<Longrightarrow> Q (wanted \<and> ps_Mux s = 0 \<and> \<not> ps_Input s) v"
  shows "wp (pin_hold E (pin_fields c pin) pin wanted) Q w"
proof (cases wanted)
  case True
  from s have s: "ps_Mux s = pin_mux c (regs init (trace w)) pin" "ps_Input s = pin_on (regs init (trace w)) BCM_DIR pin"
    by (auto simp: pins_view_def pin_state_def split: if_splits)
  show ?thesis unfolding pin_hold_def
    by (simp only: True not_True_eq_False if_False wp_bind, rule wp_Read_field [OF E], rule wp_ifI)
      (use Q s True in \<open>auto simp: pin_mux_def wp_simps intro!: wp_pin_flag [OF E]\<close>)
next
  case False
  then show ?thesis using Q by (simp add: pin_hold_def wp_simps)
qed


section \<open>Configuring and restoring a pin\<close>

text \<open>One pin is in a given state, and all others are as they were.\<close>

definition pin_at :: "BCM_GPIO \<Rightarrow> (u32 \<Rightarrow> u32 \<Rightarrow> u32) \<Rightarrow> (nat \<Rightarrow> BCM_PIN_STATE option) \<Rightarrow> nat \<Rightarrow> BCM_PIN_STATE \<Rightarrow> BCM_GPIO world \<Rightarrow> bool" where
  "pin_at c init V pin s w \<longleftrightarrow> bcm_layout_ok c \<and> bit (bg_Valid c) pin \<and> st w = c \<and> view c init w = V(pin := Some s)"

lemma pin_at_steps:
  assumes "pin_at c init V pin s w" "env_read E = regs init"
  shows "off \<in> flag_offsets \<Longrightarrow> (\<And>v. pin_at c init V pin (with_flag off b s) v \<Longrightarrow> Q () v) \<Longrightarrow>
      wp (BcmUpdate E off (pin_mask pin) (flag_mask pin b)) Q w"
    and "(\<And>v. pin_at c init V pin (s\<lparr>ps_Mux := value AND 15\<rparr>) v \<Longrightarrow> Q () v) \<Longrightarrow>
      wp (BcmFieldWrite E (pf_MuxBit (pin_fields c pin)) 15 value) Q w"
    and "pf_PullBit (pin_fields c pin) \<noteq> NO_PULL \<Longrightarrow> (\<And>v. pin_at c init V pin (s\<lparr>ps_Pull := value AND 3\<rparr>) v \<Longrightarrow> Q () v) \<Longrightarrow>
      wp (BcmFieldWrite E (pf_PullBit (pin_fields c pin)) 3 value) Q w"
    and "(\<And>v. pin_at c init V pin s v \<Longrightarrow> R (wanted \<and> ps_Mux s = 0 \<and> \<not> ps_Input s) v) \<Longrightarrow>
      wp (pin_hold E (pin_fields c pin) pin wanted) R w"
proof -
  note c = assms(1) [unfolded pin_at_def, THEN conjunct1] assms(1) [unfolded pin_at_def, THEN conjunct2, THEN conjunct1]
  have w: "st w = c" "view c init w = V(pin := Some s)" using assms(1) by (simp_all add: pin_at_def)
  show "wp (BcmUpdate E off (pin_mask pin) (flag_mask pin b)) Q w"
    if "off \<in> flag_offsets" "\<And>v. pin_at c init V pin (with_flag off b s) v \<Longrightarrow> Q () v"
    by (rule wp_Update_pin [OF assms(2) c that(1)], rule that(2)) (simp add: pin_at_def c w)
  show "wp (BcmFieldWrite E (pf_MuxBit (pin_fields c pin)) 15 value) Q w"
    if "\<And>v. pin_at c init V pin (s\<lparr>ps_Mux := value AND 15\<rparr>) v \<Longrightarrow> Q () v"
    by (rule wp_Write_mux [OF assms(2) c], rule that) (simp add: pin_at_def c w)
  show "wp (BcmFieldWrite E (pf_PullBit (pin_fields c pin)) 3 value) Q w"
    if "pf_PullBit (pin_fields c pin) \<noteq> NO_PULL" "\<And>v. pin_at c init V pin (s\<lparr>ps_Pull := value AND 3\<rparr>) v \<Longrightarrow> Q () v"
    by (rule wp_Write_pull [OF assms(2) c that(1)], rule that(2)) (simp add: pin_at_def c w)
  show "wp (pin_hold E (pin_fields c pin) pin wanted) R w" if "\<And>v. pin_at c init V pin s v \<Longrightarrow> R (wanted \<and> ps_Mux s = 0 \<and> \<not> ps_Input s) v"
  proof (rule wp_pin_hold [OF assms(2)])
    show "view c init w pin = Some s" by (simp add: w)
  qed (rule that, simp add: pin_at_def c w)
qed

lemma pin_atI: "bcm_layout_ok (st w) \<Longrightarrow> bit (bg_Valid (st w)) pin \<Longrightarrow> view (st w) init w pin = Some s \<Longrightarrow> pin_at (st w) init (view (st w) init w) pin s w"
  by (auto simp: pin_at_def)

definition configured :: "BCM_GPIO \<Rightarrow> nat \<Rightarrow> u32 \<Rightarrow> bool \<Rightarrow> gpio_pull \<Rightarrow> BCM_PIN_STATE \<Rightarrow> BCM_PIN_STATE" where
  "configured c pin function' output pull s =
     s\<lparr>ps_Mux := function' AND 15, ps_Pull := (if pf_PullBit (pin_fields c pin) = NO_PULL then ps_Pull s else pull_value c pin pull AND 3),
       ps_Input := \<not> output, ps_OpenDrain := False\<rparr>"

lemma flag_mask_simps: "pin_mask pin = flag_mask pin True" "0 = flag_mask pin False"
  by (simp_all add: flag_mask_def)

lemma BcmConfigure_flags:
  "BcmConfigure E pin function' output pull = do {
     c \<leftarrow> gets id;
     let f = pin_fields c pin;
     hold \<leftarrow> pin_hold E f pin (output \<and> function' = 0);
     whenM (\<not> hold) (BcmUpdate E BCM_DIR (pin_mask pin) (flag_mask pin True));
     BcmFieldWrite E (pf_MuxBit f) 15 function';
     whenM (pf_PullBit f \<noteq> NO_PULL) (BcmFieldWrite E (pf_PullBit f) 3 (pull_value c pin pull));
     BcmUpdate E BCM_ODEN (pin_mask pin) (flag_mask pin False);
     whenM output (BcmUpdate E BCM_DIR (pin_mask pin) (flag_mask pin False));
     modify (\<lambda>c. c\<lparr>bg_Touched := bg_Touched c OR pin_mask pin\<rparr>)
   }"
  by (simp add: BcmConfigure_def flag_mask_def)

lemma wp_Configure:
  assumes E: "env_read E = regs init" and w: "pin_at c init V pin s w"
    and Q: "\<And>v. pin_at c init V pin (configured c pin function' output pull s) v \<Longrightarrow> Q () (v\<lparr>st := c\<lparr>bg_Touched := bg_Touched c OR pin_mask pin\<rparr>\<rparr>)"
  shows "wp (BcmConfigure E pin function' output pull) Q w"
proof -
  have st: "st w = c" using w by (simp add: pin_at_def)
  note steps = pin_at_steps [OF _ E]
  define h where "h \<longleftrightarrow> (output \<and> function' = 0) \<and> ps_Mux s = 0 \<and> \<not> ps_Input s"
  define s' where "s' = (if h then s else s\<lparr>ps_Input := True\<rparr>)"
  have out: "ps_Input s' \<or> output" by (simp add: s'_def h_def)
  let ?pull = "pf_PullBit (pin_fields c pin) \<noteq> NO_PULL"
  let ?s2 = "s'\<lparr>ps_Mux := function' AND 15, ps_Pull := (if ?pull then pull_value c pin pull AND 3 else ps_Pull s')\<rparr>"
  have tail: "pin_at c init V pin ?s2 v \<Longrightarrow>
      wp (do { BcmUpdate E BCM_ODEN (pin_mask pin) (flag_mask pin False);
        whenM output (BcmUpdate E BCM_DIR (pin_mask pin) (flag_mask pin False));
        modify (\<lambda>c. c\<lparr>bg_Touched := bg_Touched c OR pin_mask pin\<rparr>) }) Q v" for v
  proof (rule wp_bindI, rule steps(1), assumption, simp, rule wp_bindI, rule wp_whenI)
    fix v assume v: "pin_at c init V pin (with_flag BCM_ODEN False ?s2) v"
    { assume o: "output"
      show "wp (BcmUpdate E BCM_DIR (pin_mask pin) (flag_mask pin False)) (\<lambda>r. wp (modify (\<lambda>c. c\<lparr>bg_Touched := bg_Touched c OR pin_mask pin\<rparr>)) Q) v"
      proof (rule steps(1) [OF v], simp, rule wp_modifyI)
        fix u assume u: "pin_at c init V pin (with_flag BCM_DIR False (with_flag BCM_ODEN False ?s2)) u"
        have "with_flag BCM_DIR False (with_flag BCM_ODEN False ?s2) = configured c pin function' output pull s"
          using o by (simp add: configured_def s'_def)
        with Q u have "Q () (u\<lparr>st := c\<lparr>bg_Touched := bg_Touched c OR pin_mask pin\<rparr>\<rparr>)" by metis
        moreover from u have "st u = c" by (simp add: pin_at_def)
        ultimately show "Q () (u\<lparr>st := (st u)\<lparr>bg_Touched := bg_Touched (st u) OR pin_mask pin\<rparr>\<rparr>)" by simp
      qed }
    assume o: "\<not> output"
    with out have "with_flag BCM_ODEN False ?s2 = configured c pin function' output pull s"
      by (simp add: configured_def s'_def split: if_splits)
    with Q v have "Q () (v\<lparr>st := c\<lparr>bg_Touched := bg_Touched c OR pin_mask pin\<rparr>\<rparr>)" by metis
    moreover from v have "st v = c" by (simp add: pin_at_def)
    ultimately show "wp (modify (\<lambda>c. c\<lparr>bg_Touched := bg_Touched c OR pin_mask pin\<rparr>)) Q v" by (simp add: wp_simps)
  qed
  have main: "pin_at c init V pin s' v \<Longrightarrow>
      wp (do { BcmFieldWrite E (pf_MuxBit (pin_fields c pin)) 15 function';
        whenM ?pull (BcmFieldWrite E (pf_PullBit (pin_fields c pin)) 3 (pull_value c pin pull));
        BcmUpdate E BCM_ODEN (pin_mask pin) (flag_mask pin False);
        whenM output (BcmUpdate E BCM_DIR (pin_mask pin) (flag_mask pin False));
        modify (\<lambda>c. c\<lparr>bg_Touched := bg_Touched c OR pin_mask pin\<rparr>) }) Q v" for v
    by (rule wp_bindI, rule steps(2), assumption, rule wp_bindI, rule wp_whenI)
      (rule steps(3), assumption, assumption, rule tail, simp, rule tail, simp)
  show ?thesis
    unfolding BcmConfigure_flags
    by (rule wp_bindI, rule wp_getsI, simp only: id_apply Let_def st, rule wp_bindI, rule steps(4) [OF w], fold h_def, rule wp_bindI, rule wp_whenI)
      (rule steps(1), assumption, simp, rule main, simp add: s'_def, rule main, simp add: s'_def)
qed

lemma write_bank_update: "BcmWriteData_bank E (pin_mask pin) (flag_mask pin d) = BcmUpdate_bank E BCM_DATA (pin_mask pin) (flag_mask pin d)"
  by (cases d) (simp_all add: fun_eq_iff BcmWriteData_bank_def BcmUpdate_bank_def flag_mask_def)

lemma pin_mask_inside: "bit m pin \<Longrightarrow> pin_mask pin AND NOT m = 0" for m :: u64
  by (rule bit_word_eqI) (auto simp: bit_and_iff bit_not_iff bit_pin simp del: push_bit_of_1)

lemma flag_mask_parts: "flag_mask pin d OR flag_mask pin (\<not> d) = pin_mask pin" "flag_mask pin d AND flag_mask pin (\<not> d) = 0"
  by (simp_all add: flag_mask_def)

lemma WriteData_pin:
  assumes "pin < 64" "bit (bg_Valid (st w)) pin" "bg_Uid (st w) = 0 \<or> 32 \<le> pin"
  shows "wp (BcmWriteData A E (flag_mask pin d) (flag_mask pin (\<not> d))) Q w =
     wp (BcmUpdate E BCM_DATA (pin_mask pin) (flag_mask pin d)) (\<lambda>_. Q STATUS_SUCCESS) w"
proof -
  have z: "bg_Uid (st w) \<noteq> 0 \<Longrightarrow> (ucast (pin_mask pin) :: u32) = 0" using assms pin_words(1) [of pin] by simp
  have b: "[if bg_Uid (st w) \<noteq> 0 then 1 else 0..<2] = (if bg_Uid (st w) \<noteq> 0 then [1] else [0, 1])" by (simp add: upt_rec)
  have n: "bg_Uid (st w) \<noteq> 0 \<Longrightarrow> BcmUpdate_bank E BCM_DATA (pin_mask pin) (flag_mask pin d) 0 = (ret () :: (BCM_GPIO, unit) prog)"
    using z by (simp add: BcmUpdate_bank_def whenM_def Let_def del: push_bit_of_1)
  have "wp (BcmWriteData A E (flag_mask pin d) (flag_mask pin (\<not> d))) Q w =
      wp (forM [if bg_Uid (st w) \<noteq> 0 then 1 else 0..<2] (BcmUpdate_bank E BCM_DATA (pin_mask pin) (flag_mask pin d))) (\<lambda>_. Q STATUS_SUCCESS) w"
    using z unfolding BcmWriteData_def Let_def flag_mask_parts
    by (simp add: wp_simps wp_return [abs_def] pin_mask_inside [OF assms(2)] flag_mask_parts write_bank_update del: push_bit_of_1)
  also have "\<dots> = wp (BcmUpdate E BCM_DATA (pin_mask pin) (flag_mask pin d)) (\<lambda>_. Q STATUS_SUCCESS) w"
    unfolding b BcmUpdate_def using n by (cases "bg_Uid (st w) = 0") (simp_all add: wp_simps del: push_bit_of_1)
  finally show ?thesis .
qed

definition restored :: "BCM_GPIO \<Rightarrow> nat \<Rightarrow> BCM_PIN_STATE \<Rightarrow> BCM_PIN_STATE \<Rightarrow> BCM_PIN_STATE" where
  "restored c pin saved s = saved\<lparr>ps_Mux := ps_Mux saved AND 15,
     ps_Pull := (if pf_PullBit (pin_fields c pin) = NO_PULL then ps_Pull s else ps_Pull saved AND 3)\<rparr>"

lemma wp_BcmRestore:
  assumes E: "env_read E = regs init" and w: "pin_at c init V pin s w" and main: "bg_Uid c = 0 \<or> 32 \<le> pin"
    and Q: "\<And>v. pin_at c init V pin (restored c pin saved s) v \<Longrightarrow> Q STATUS_SUCCESS v"
  shows "wp (BcmRestore A E pin saved) Q w"
proof -
  note steps = pin_at_steps [OF _ E]
  have c: "st v = c" "pin < 64" "bit (bg_Valid (st v)) pin" if "pin_at c init V pin s' v" for v s'
    using that valid_fields(1) by (auto simp: pin_at_def)
  define h where "h \<longleftrightarrow> (\<not> ps_Input saved \<and> ps_Mux saved = 0) \<and> ps_Mux s = 0 \<and> \<not> ps_Input s"
  have w': "wp (BcmWriteData A E (flag_mask pin d) (flag_mask pin (\<not> d))) R v"
    if v: "pin_at c init V pin s' v" and R: "\<And>u. pin_at c init V pin (s'\<lparr>ps_Data := d\<rparr>) u \<Longrightarrow> R STATUS_SUCCESS u" for d R v s'
    unfolding WriteData_pin [OF c(2,3) [OF v] main [folded c(1) [OF v]]]
    by (rule steps(1) [OF v]) (use R in simp_all)
  let ?pull = "pf_PullBit (pin_fields c pin) \<noteq> NO_PULL"
  have last: "pin_at c init V pin s' v \<Longrightarrow> restored c pin saved s = with_flag BCM_DIR (ps_Input saved) (with_flag BCM_LEVEL (ps_Level saved)
        (with_flag BCM_BOTH (ps_Both saved) (with_flag BCM_EDGE (ps_Edge saved) s'))) \<Longrightarrow>
      wp (do { BcmUpdate E BCM_EDGE (pin_mask pin) (flag_mask pin (ps_Edge saved));
        BcmUpdate E BCM_BOTH (pin_mask pin) (flag_mask pin (ps_Both saved));
        BcmUpdate E BCM_LEVEL (pin_mask pin) (flag_mask pin (ps_Level saved));
        BcmUpdate E BCM_DIR (pin_mask pin) (flag_mask pin (ps_Input saved));
        ret STATUS_SUCCESS }) Q v" for v s'
    by (rule wp_bindI, rule steps(1), assumption, simp)+ (rule wp_returnI, rule Q, simp)
  have rest: "pin_at c init V pin s' v \<Longrightarrow> ps_Pull s' = ps_Pull s \<Longrightarrow>
      wp (do { status \<leftarrow> BcmWriteData A E (flag_mask pin (ps_Data saved)) (flag_mask pin (\<not> ps_Data saved));
     if \<not> NT_SUCCESS status then ret status
     else do {
       BcmUpdate E BCM_ODEN (pin_mask pin) (flag_mask pin (ps_OpenDrain saved));
       BcmFieldWrite E (pf_MuxBit (pin_fields c pin)) 15 (ps_Mux saved);
       whenM ?pull (BcmFieldWrite E (pf_PullBit (pin_fields c pin)) 3 (ps_Pull saved));
       BcmUpdate E BCM_EDGE (pin_mask pin) (flag_mask pin (ps_Edge saved));
       BcmUpdate E BCM_BOTH (pin_mask pin) (flag_mask pin (ps_Both saved));
       BcmUpdate E BCM_LEVEL (pin_mask pin) (flag_mask pin (ps_Level saved));
       BcmUpdate E BCM_DIR (pin_mask pin) (flag_mask pin (ps_Input saved));
       ret STATUS_SUCCESS
     } }) Q v" for v s'
    by (rule wp_bindI, rule w', assumption, simp only: NT_SUCCESS_codes not_True_eq_False if_False,
      rule wp_bindI, rule steps(1), assumption, simp, rule wp_bindI, rule steps(2), assumption, rule wp_bindI, rule wp_whenI)
      (rule steps(3), assumption, assumption, rule last, assumption, simp add: restored_def,
       rule last, assumption, simp add: restored_def)
  show ?thesis
    unfolding BcmRestore_def
    by (rule wp_bindI, rule wp_getsI, simp only: id_apply Let_def c(1) [OF w], rule wp_bindI, rule steps(4) [OF w], fold h_def, rule wp_bindI, rule wp_whenI)
      (rule steps(1) [where b = True, unfolded flag_mask_def if_True], assumption, simp, rule rest, assumption, simp, rule rest, assumption, simp)
qed


section \<open>What a snapshot shows\<close>

lemma wp_BcmSnapshot:
  assumes E: "env_read E = regs init" and w: "pin_at c init V pin s w"
    and Q: "\<And>v. pin_at c init V pin s v \<Longrightarrow> Q (s\<lparr>ps_Data := data AND pin_mask pin \<noteq> 0\<rparr>) v"
  shows "wp (BcmSnapshot E pin data) Q w"
proof -
  have c: "st w = c" and s: "pin_state c (regs init (trace w)) pin = s"
    using w by (auto simp: pin_at_def pins_view_def fun_eq_iff split: if_splits)
  have Q': "Q (s\<lparr>ps_Data := data AND pin_mask pin \<noteq> 0\<rparr>) v" if "st v = c" "regs init (trace v) = regs init (trace w)" for v
    by (rule Q) (use w that in \<open>simp add: pin_at_def\<close>)
  have fields: "s\<lparr>ps_Data := d\<rparr> = \<lparr>ps_Mux = pin_mux c (regs init (trace w)) pin, ps_Pull = pin_pull c (regs init (trace w)) pin, ps_Data = d,
     ps_Input = pin_on (regs init (trace w)) BCM_DIR pin, ps_OpenDrain = pin_on (regs init (trace w)) BCM_ODEN pin, ps_Edge = pin_on (regs init (trace w)) BCM_EDGE pin,
     ps_Both = pin_on (regs init (trace w)) BCM_BOTH pin, ps_Level = pin_on (regs init (trace w)) BCM_LEVEL pin\<rparr>" for d
    unfolding s [symmetric] pin_state_def by simp
  show ?thesis
    unfolding BcmSnapshot_def
    apply (rule wp_bindI, rule wp_getsI, simp only: id_apply Let_def c, rule wp_bindI, rule wp_Read_field [OF E], rule wp_bindI, rule wp_ifI)
     apply (rule wp_returnI, (rule wp_bindI, rule wp_pin_flag [OF E])+, rule wp_returnI)
     apply (use Q' c in \<open>simp add: fields pin_mux_def pin_pull_def\<close>)
    apply (rule wp_Read_field [OF E], (rule wp_bindI, rule wp_pin_flag [OF E])+, rule wp_returnI)
    apply (use Q' c in \<open>simp add: fields pin_mux_def pin_pull_def\<close>)
    done
qed

text \<open>The data of all pins of the controller that the driver reads itself.\<close>

lemma bit_join_banks: "bit (join_banks low high) n \<longleftrightarrow> (if n < 32 then bit low n else bit high (n - 32))"
  using bit_imp_le_length [of low n] bit_imp_le_length [of high "n - 32"]
  by (auto simp: join_banks_def bit_or_iff bit_push_bit_iff bit_ucast_iff)

lemma and_pin_mask: "pin < 64 \<Longrightarrow> v AND pin_mask pin \<noteq> 0 \<longleftrightarrow> bit v pin"
  unfolding word_nonzero by (auto simp: bit_and_iff bit_pin simp del: push_bit_of_1)

lemma bit_data:
  assumes "pin < 64"
  shows "bit (join_banks (R GIO BCM_DATA) (R GIO (32 + BCM_DATA))) pin = pin_on R BCM_DATA pin"
proof (cases "pin < 32")
  case False
  with assms have "pin div 32 = 1" "pin mod 32 = pin - 32" by (simp_all add: le_mod_geq)
  with False show ?thesis by (simp add: bit_join_banks pin_on_def)
qed (simp add: bit_join_banks pin_on_def)

lemma wp_ReadData:
  assumes E: "env_read E = regs init" and c: "bg_Uid (st w) = 0"
    and Q: "\<And>v data. st v = st w \<Longrightarrow> regs init (trace v) = regs init (trace w) \<Longrightarrow>
      (\<And>pin. pin < 64 \<Longrightarrow> bit data pin = pin_on (regs init (trace w)) BCM_DATA pin) \<Longrightarrow> Q (STATUS_SUCCESS, data) v"
  shows "wp (BcmReadData A E) Q w"
  unfolding BcmReadData_def BcmRead_def
  by (simp add: wp_simps wp_io_read E c) (rule Q, simp_all add: bit_data [of _ "regs init (trace w)", simplified])

lemma snapshot_restored:
  assumes "pins_view c R pin = Some s"
  shows "restored c pin s (configured c pin f o' p s) = s"
proof -
  have "ps_Mux s AND 15 = ps_Mux s" "pf_PullBit (pin_fields c pin) \<noteq> NO_PULL \<Longrightarrow> ps_Pull s AND 3 = ps_Pull s"
    using assms by (auto simp: pins_view_def pin_state_def pin_mux_def pin_pull_def field_of_def and.assoc split: if_splits)
  then show ?thesis by (simp add: restored_def configured_def)
qed

end
