(* ===== verification/Bcm_Gpio_Driver.thy ===== *)
theory Bcm_Gpio_Driver
  imports Bcm_Gpio
begin

text \<open>
  The driver of the pins (\<open>bcm2712-gpio/driver.c\<close>): start, stop and the calls of the class extension for
  data pins, interrupts and functions, with the ownership of each pin. The class extension serialises
  its calls, and the driver holds the interrupt lock where they touch shared words, so a call is one step.
\<close>

unbundle bit_operations_syntax

section \<open>The driver\<close>

text \<open>The interrupt lock, for the controller that can be used at interrupt level.\<close>

definition Bcm_Lock :: "env \<Rightarrow> (BCM_GPIO, unit) prog" where
  "Bcm_Lock E = do { c \<leftarrow> gets id; whenM (bg_Uid c = 0) (kernel_do E ''GPIO_CLX_AcquireInterruptLock'' []) }"

definition Bcm_Unlock :: "env \<Rightarrow> (BCM_GPIO, unit) prog" where
  "Bcm_Unlock E = do { c \<leftarrow> gets id; whenM (bg_Uid c = 0) (kernel_do E ''GPIO_CLX_ReleaseInterruptLock'' []) }"

definition BcmRelease :: "env \<Rightarrow> (BCM_GPIO, NTSTATUS) prog" where
  "BcmRelease E = do {
     modify (\<lambda>c. c\<lparr>bg_Started := False\<rparr>);
     c \<leftarrow> gets id;
     whenM (bg_Timer c \<noteq> 0) (do { kernel_do E ''WdfTimerStop'' []; kernel_do E ''WdfObjectDelete'' []; modify (\<lambda>c. c\<lparr>bg_Timer := 0\<rparr>) });
     whenM (bg_Key c \<noteq> 0) (do { kernel_do E ''WdfRegistryClose'' []; modify (\<lambda>c. c\<lparr>bg_Key := 0\<rparr>) });
     whenM (bg_L2 c \<noteq> 0) (do { kernel_do E ''MmUnmapIoSpace'' [bg_L2 c, 0x10]; modify (\<lambda>c. c\<lparr>bg_L2 := 0\<rparr>) });
     whenM (bg_Pinctrl c \<noteq> 0) (do { kernel_do E ''MmUnmapIoSpace'' [bg_Pinctrl c, ucast (bg_PinctrlLength c)]; modify (\<lambda>c. c\<lparr>bg_Pinctrl := 0\<rparr>) });
     whenM (bg_Gio c \<noteq> 0) (do { kernel_do E ''MmUnmapIoSpace'' [bg_Gio c, 0x40]; modify (\<lambda>c. c\<lparr>bg_Gio := 0\<rparr>) });
     ret STATUS_SUCCESS
   }"

text \<open>The memory blocks of the device in order and the number of its interrupts. A
  missing descriptor (\<open>None\<close>) is refused. The bits of the interrupt's flags are those of the kernel.\<close>

fun bcm_resources :: "u32 \<Rightarrow> cm_resource option list \<Rightarrow> (u64 \<times> u32) list \<Rightarrow> nat \<Rightarrow> ((u64 \<times> u32) list \<times> nat) option" where
  "bcm_resources forbidden [] memory n = Some (memory, n)"
| "bcm_resources forbidden (None # rs) memory n = None"
| "bcm_resources forbidden (Some (CmMemory start bytes) # rs) memory n =
     (if length memory = 3 then None else bcm_resources forbidden rs (memory @ [(start, bytes)]) n)"
| "bcm_resources forbidden (Some (CmInterrupt flags vector) # rs) memory n =
     (if flags AND forbidden \<noteq> 0 then None else bcm_resources forbidden rs memory (n + 1))"
| "bcm_resources forbidden (Some r # rs) memory n = bcm_resources forbidden rs memory n"

definition bcm_resources_ok :: "BCM_GPIO \<Rightarrow> (u64 \<times> u32) list \<Rightarrow> nat \<Rightarrow> bool" where
  "bcm_resources_ok c memory n \<longleftrightarrow> length memory = (if bg_Uid c \<noteq> 0 then 2 else 3) \<and> n = (if bg_Uid c \<noteq> 0 then 0 else 1) \<and>
     snd (memory ! 0) = 0x40 \<and> snd (memory ! 1) = bg_PinctrlLength c \<and> (bg_Uid c = 0 \<longrightarrow> snd (memory ! 2) = 0x10)"

text \<open>The state of every valid pin as the firmware left it.\<close>

fun Bcm_SaveBoot :: "env \<Rightarrow> u64 \<Rightarrow> nat list \<Rightarrow> (BCM_GPIO, unit) prog" where
  "Bcm_SaveBoot E data [] = ret ()"
| "Bcm_SaveBoot E data (pin # pins) = do {
     c \<leftarrow> gets id;
     whenM (bit (bg_Valid c) pin) (do { s \<leftarrow> BcmSnapshot E pin data; modify (\<lambda>c. c\<lparr>bg_Boot := (bg_Boot c)(pin := s)\<rparr>) });
     Bcm_SaveBoot E data pins
   }"

definition Bcm_fail :: "env \<Rightarrow> NTSTATUS \<Rightarrow> (BCM_GPIO, NTSTATUS) prog" where
  "Bcm_fail E status = do { cleanup \<leftarrow> BcmRelease E; ret (if NT_SUCCESS cleanup then status else cleanup) }"

definition Bcm_Map :: "acpi_layout \<Rightarrow> env \<Rightarrow> (u64 \<times> u32) list \<Rightarrow> (BCM_GPIO, NTSTATUS) prog" where
  "Bcm_Map A E memory = do {
     c \<leftarrow> gets id;
     p \<leftarrow> io_call E ''MmMapIoSpaceEx'' [fst (memory ! 0), 0x40, PAGE_READWRITE OR PAGE_NOCACHE];
     modify (\<lambda>c. c\<lparr>bg_Gio := p\<rparr>);
     p \<leftarrow> io_call E ''MmMapIoSpaceEx'' [fst (memory ! 1), ucast (bg_PinctrlLength c), PAGE_READWRITE OR PAGE_NOCACHE];
     modify (\<lambda>c. c\<lparr>bg_Pinctrl := p\<rparr>);
     whenM (bg_Uid c = 0) (do {
       p \<leftarrow> io_call E ''MmMapIoSpaceEx'' [fst (memory ! 2), 0x10, PAGE_READWRITE OR PAGE_NOCACHE];
       modify (\<lambda>c. c\<lparr>bg_L2 := p\<rparr>)
     });
     c \<leftarrow> gets id;
     if bg_Gio c = 0 \<or> bg_Pinctrl c = 0 \<or> bg_Uid c = 0 \<and> bg_L2 c = 0 then Bcm_fail E STATUS_INSUFFICIENT_RESOURCES
     else do {
       busy \<leftarrow> (if bg_Uid c = 0 then do { m \<leftarrow> BcmReadBanks E BCM_MASK; ret (m \<noteq> 0) } else ret False);
       if busy then Bcm_fail E STATUS_DEVICE_BUSY
       else do {
         (status, data) \<leftarrow> BcmReadData A E;
         if \<not> NT_SUCCESS status then Bcm_fail E status
         else do {
           Bcm_SaveBoot E data [0..<64];
           status \<leftarrow> kernel_status E ''WdfDeviceOpenRegistryKey'' [];
           if \<not> NT_SUCCESS status then Bcm_fail E status
           else do {
             modify (\<lambda>c. c\<lparr>bg_Key := 1\<rparr>);
             status \<leftarrow> kernel_status E ''WdfTimerCreate'' [];
             if \<not> NT_SUCCESS status then Bcm_fail E status
             else do { modify (\<lambda>c. c\<lparr>bg_Timer := 1\<rparr>); ret STATUS_SUCCESS }
           }
         }
       }
     }
   }"

definition BcmPrepare :: "acpi_layout \<Rightarrow> u32 \<Rightarrow> env \<Rightarrow> cm_resource option list \<Rightarrow> (BCM_GPIO, NTSTATUS) prog" where
  "BcmPrepare A forbidden E rs = do {
     (status, uid) \<leftarrow> BcmEvalInteger A E ''_UID'';
     if \<not> NT_SUCCESS status then ret status
     else do {
       modify (\<lambda>c. c\<lparr>bg_Uid := uid\<rparr>);
       (status, revision) \<leftarrow> BcmEvalInteger A E ''_HRV'';
       if \<not> NT_SUCCESS status then ret status
       else do {
         modify (\<lambda>c. c\<lparr>bg_Revision := revision\<rparr>);
         if uid > 1 \<or> revision > 1 then ret STATUS_NOT_SUPPORTED
         else do {
           modify (\<lambda>c. c\<lparr>bg_Valid := BcmValidPins (unat revision) (unat uid),
             bg_PinctrlLength := (if uid \<noteq> 0 then if revision \<noteq> 0 then 0x1c else 0x20 else if revision \<noteq> 0 then 0x20 else 0x30)\<rparr>);
           c \<leftarrow> gets id;
           case bcm_resources forbidden rs [] 0 of
             None \<Rightarrow> ret STATUS_DEVICE_CONFIGURATION_ERROR
           | Some (memory, n) \<Rightarrow> if bcm_resources_ok c memory n then Bcm_Map A E memory else ret STATUS_DEVICE_CONFIGURATION_ERROR
         }
       }
     }
   }"

text \<open>Total pins, pins of a bank, and whether the registers are used at interrupt level.\<close>

definition BcmInformation :: "BCM_GPIO \<Rightarrow> nat \<times> nat \<times> bool" where
  "BcmInformation c = (let n = (if bg_Uid c \<noteq> 0 then 38 else if bg_Revision c \<noteq> 0 then 36 else 54) in (n, n, bg_Uid c = 0))"

definition BcmQuerySet :: NTSTATUS where
  "BcmQuerySet = STATUS_NOT_SUPPORTED"

text \<open>Restoring pins one after the other, up to the first failure or all of them.\<close>

fun Bcm_RestoreUntil :: "acpi_layout \<Rightarrow> env \<Rightarrow> (nat \<Rightarrow> BCM_PIN_STATE) \<Rightarrow> bool \<Rightarrow> nat list \<Rightarrow> (BCM_GPIO, NTSTATUS) prog" where
  "Bcm_RestoreUntil A E saved forget [] = ret STATUS_SUCCESS"
| "Bcm_RestoreUntil A E saved forget (pin # pins) = do {
     status \<leftarrow> BcmRestore A E pin (saved pin);
     if \<not> NT_SUCCESS status then ret status
     else do {
       whenM forget (modify (\<lambda>c. c\<lparr>bg_Touched := bg_Touched c AND NOT (pin_mask pin)\<rparr>));
       Bcm_RestoreUntil A E saved forget pins
     }
   }"

fun Bcm_RestoreAll :: "acpi_layout \<Rightarrow> env \<Rightarrow> (nat \<Rightarrow> BCM_PIN_STATE) \<Rightarrow> nat list \<Rightarrow> NTSTATUS \<Rightarrow> (BCM_GPIO, NTSTATUS) prog" where
  "Bcm_RestoreAll A E saved [] result = ret result"
| "Bcm_RestoreAll A E saved (pin # pins) result = do {
     status \<leftarrow> BcmRestore A E pin (saved pin);
     Bcm_RestoreAll A E saved pins (if NT_SUCCESS status then result else status)
   }"

abbreviation pins_of :: "u64 \<Rightarrow> nat list" where "pins_of mask' \<equiv> filter (bit mask') [0..<64]"

definition BcmStart :: "acpi_layout \<Rightarrow> env \<Rightarrow> bool \<Rightarrow> (BCM_GPIO, NTSTATUS) prog" where
  "BcmStart A E restore = do {
     c \<leftarrow> gets id;
     status \<leftarrow> (if restore then Bcm_RestoreUntil A E (bg_Resume c) False (pins_of (bg_Touched c)) else ret STATUS_SUCCESS);
     if \<not> NT_SUCCESS status then ret status
     else do {
       whenM (restore \<and> bg_Uid c = 0) (BcmUpdate E BCM_MASK (bg_IrqOwned c) (bg_ResumeMask c));
       whenM (bg_Uid c = 0) (do {
         v \<leftarrow> BcmRead E L2 4;
         modify (\<lambda>c. c\<lparr>bg_L2WasMasked := (v AND 1 \<noteq> 0)\<rparr>);
         BcmWrite L2 12 1;
         v \<leftarrow> BcmRead E L2 4;
         ret ()
       });
       modify (\<lambda>c. c\<lparr>bg_Started := True\<rparr>);
       kernel_do E ''WdfTimerStart'' [1000];
       ret STATUS_SUCCESS
     }
   }"

fun Bcm_SaveResume :: "env \<Rightarrow> u64 \<Rightarrow> nat list \<Rightarrow> (BCM_GPIO, unit) prog" where
  "Bcm_SaveResume E data [] = ret ()"
| "Bcm_SaveResume E data (pin # pins) = do {
     s \<leftarrow> BcmSnapshot E pin data;
     modify (\<lambda>c. c\<lparr>bg_Resume := (bg_Resume c)(pin := s)\<rparr>);
     Bcm_SaveResume E data pins
   }"

definition BcmStop :: "acpi_layout \<Rightarrow> env \<Rightarrow> bool \<Rightarrow> (BCM_GPIO, NTSTATUS) prog" where
  "BcmStop A E save = do {
     modify (\<lambda>c. c\<lparr>bg_Started := False\<rparr>);
     kernel_do E ''WdfTimerStop'' [];
     c \<leftarrow> gets id;
     status \<leftarrow> (if save then do {
         (status, data) \<leftarrow> BcmReadData A E;
         if \<not> NT_SUCCESS status then ret status
         else do {
           m \<leftarrow> (if bg_Uid c \<noteq> 0 then ret 0 else do { m \<leftarrow> BcmReadBanks E BCM_MASK; ret (m AND bg_IrqOwned c) });
           modify (\<lambda>c. c\<lparr>bg_ResumeMask := m\<rparr>);
           Bcm_SaveResume E data (pins_of (bg_Touched c));
           ret STATUS_SUCCESS
         }
       }
       else ret STATUS_SUCCESS);
     if \<not> NT_SUCCESS status then ret status
     else do {
       whenM (bg_Uid c = 0) (do {
         BcmUpdate E BCM_MASK (bg_IrqOwned c) 0;
         whenM (bg_L2WasMasked c) (do { BcmWrite L2 8 1; v \<leftarrow> BcmRead E L2 4; ret () })
       });
       Bcm_RestoreAll A E (bg_Boot c) (pins_of (bg_Touched c)) STATUS_SUCCESS
     }
   }"

definition RestoreFree :: "acpi_layout \<Rightarrow> env \<Rightarrow> u64 \<Rightarrow> (BCM_GPIO, NTSTATUS) prog" where
  "RestoreFree A E mask' = do {
     c \<leftarrow> gets id;
     let mask' = mask' AND NOT (bg_IoOwned c OR bg_IrqOwned c OR bg_FunctionOwned c);
     Bcm_RestoreUntil A E (bg_Boot c) True (pins_of mask')
   }"

fun claim_pins :: "BCM_GPIO \<Rightarrow> u32 \<Rightarrow> gpio_pull \<Rightarrow> nat list \<Rightarrow> NTSTATUS" where
  "claim_pins c function' pull [] = STATUS_SUCCESS"
| "claim_pins c function' pull (pin # pins) =
     (if pf_PullBit (pin_fields c pin) = NO_PULL \<and> pull \<noteq> PullDefault \<and> pull \<noteq> PullNone then STATUS_NOT_SUPPORTED
      else if ps_Mux (bg_Boot c pin) \<noteq> 0 \<and> ps_Mux (bg_Boot c pin) \<noteq> function' then STATUS_DEVICE_BUSY
      else claim_pins c function' pull pins)"

definition CanClaim :: "BCM_GPIO \<Rightarrow> u64 \<Rightarrow> u32 \<Rightarrow> gpio_pull \<Rightarrow> NTSTATUS" where
  "CanClaim c mask' function' pull =
     (if \<not> bg_Started c then STATUS_DEVICE_NOT_READY
      else if pull = PullOther then STATUS_NOT_SUPPORTED
      else claim_pins c function' pull (pins_of mask'))"

record connect_request =
  cr_Bank :: nat
  cr_Pins :: "nat list"
  cr_Pull :: gpio_pull
  cr_VendorDataLength :: u32
  cr_DriveStrength :: u32
  cr_Output :: "bool option"      \<comment> \<open>input or output, or another mode\<close>
  cr_Function :: u32
  cr_Preserve :: bool
  cr_Mode :: irq_mode
  cr_Polarity :: irq_polarity

definition BcmConnect :: "env \<Rightarrow> connect_request \<Rightarrow> (BCM_GPIO, NTSTATUS) prog" where
  "BcmConnect E p = do {
     c \<leftarrow> gets id;
     case BcmMask c (cr_Bank p) (cr_Pins p) of
       None \<Rightarrow> ret STATUS_INVALID_PARAMETER
     | Some mask' \<Rightarrow>
         if cr_Output p = None \<or> cr_DriveStrength p \<noteq> 0 \<or> cr_VendorDataLength p \<noteq> 0 then ret STATUS_NOT_SUPPORTED
         else if \<not> NT_SUCCESS (CanClaim c mask' 0 (cr_Pull p)) then ret (CanClaim c mask' 0 (cr_Pull p))
         else do {
           Bcm_Lock E;
           let output = (cr_Output p = Some True);
           status \<leftarrow> (if mask' AND (bg_IoOwned c OR bg_FunctionOwned c) \<noteq> 0 \<or> output \<and> mask' AND bg_IrqOwned c \<noteq> 0
             then ret STATUS_SHARING_VIOLATION
             else do {
               forM (pins_of mask') (\<lambda>pin. BcmConfigure E pin 0 output (cr_Pull p));
               modify (\<lambda>c. c\<lparr>bg_IoOwned := bg_IoOwned c OR mask', bg_OutputOwned := (if output then bg_OutputOwned c OR mask' else bg_OutputOwned c)\<rparr>);
               ret STATUS_SUCCESS
             });
           Bcm_Unlock E;
           ret status
         }
   }"

definition BcmDisconnect :: "acpi_layout \<Rightarrow> env \<Rightarrow> connect_request \<Rightarrow> (BCM_GPIO, NTSTATUS) prog" where
  "BcmDisconnect A E p = do {
     c \<leftarrow> gets id;
     case BcmMask c (cr_Bank p) (cr_Pins p) of
       None \<Rightarrow> ret STATUS_INVALID_PARAMETER
     | Some mask' \<Rightarrow> do {
         Bcm_Lock E;
         modify (\<lambda>c. c\<lparr>bg_IoOwned := bg_IoOwned c AND NOT mask', bg_OutputOwned := bg_OutputOwned c AND NOT mask'\<rparr>);
         status \<leftarrow> (if cr_Preserve p then ret STATUS_SUCCESS else RestoreFree A E mask');
         Bcm_Unlock E;
         ret status
       }
   }"

definition BcmReadPins :: "acpi_layout \<Rightarrow> env \<Rightarrow> nat \<Rightarrow> (BCM_GPIO, NTSTATUS \<times> u64) prog" where
  "BcmReadPins A E bank = do {
     c \<leftarrow> gets id;
     if bank \<noteq> 0 \<or> \<not> bg_Started c then ret (STATUS_INVALID_PARAMETER, 0)
     else do { (status, data) \<leftarrow> BcmReadData A E; ret (status, if NT_SUCCESS status then data AND bg_Valid c else 0) }
   }"

definition BcmWritePins :: "acpi_layout \<Rightarrow> env \<Rightarrow> nat \<Rightarrow> u64 \<Rightarrow> u64 \<Rightarrow> (BCM_GPIO, NTSTATUS) prog" where
  "BcmWritePins A E bank set' clear = do {
     c \<leftarrow> gets id;
     if bank \<noteq> 0 \<or> \<not> bg_Started c then ret STATUS_INVALID_PARAMETER else BcmWriteData A E set' clear
   }"

definition BcmEnableInterrupt :: "env \<Rightarrow> connect_request \<Rightarrow> nat \<Rightarrow> (BCM_GPIO, NTSTATUS) prog" where
  "BcmEnableInterrupt E p pin = do {
     c \<leftarrow> gets id;
     if bg_Uid c \<noteq> 0 then ret STATUS_NOT_SUPPORTED
     else case BcmMask c (cr_Bank p) [pin] of
       None \<Rightarrow> ret STATUS_INVALID_PARAMETER
     | Some bit' \<Rightarrow>
         if cr_VendorDataLength p \<noteq> 0 then ret STATUS_NOT_SUPPORTED
         else if \<not> NT_SUCCESS (CanClaim c bit' 0 (cr_Pull p)) then ret (CanClaim c bit' 0 (cr_Pull p))
         else do {
           Bcm_Lock E;
           status \<leftarrow> (if bit' AND (bg_FunctionOwned c OR bg_OutputOwned c OR bg_IrqOwned c) \<noteq> 0 then ret STATUS_SHARING_VIOLATION
             else do {
               status \<leftarrow> BcmTrigger E pin (cr_Mode p) (cr_Polarity p);
               whenM (NT_SUCCESS status) (do {
                 BcmConfigure E pin 0 False (cr_Pull p);
                 BcmWrite GIO (pin_bank pin + BCM_STATUS) (ucast (drop_bit (pin div 32 * 32) bit'));
                 modify (\<lambda>c. c\<lparr>bg_IrqOwned := bg_IrqOwned c OR bit'\<rparr>);
                 BcmUpdate E BCM_MASK bit' bit';
                 v \<leftarrow> BcmReadBanks E BCM_MASK;
                 ret ()
               });
               ret status
             });
           Bcm_Unlock E;
           ret status
         }
   }"

definition BcmDisableInterrupt :: "acpi_layout \<Rightarrow> env \<Rightarrow> nat \<Rightarrow> nat \<Rightarrow> (BCM_GPIO, NTSTATUS) prog" where
  "BcmDisableInterrupt A E bank pin = do {
     c \<leftarrow> gets id;
     if bg_Uid c \<noteq> 0 then ret STATUS_NOT_SUPPORTED
     else case BcmMask c bank [pin] of
       None \<Rightarrow> ret STATUS_INVALID_PARAMETER
     | Some bit' \<Rightarrow> do {
         Bcm_Lock E;
         BcmUpdate E BCM_MASK bit' 0;
         modify (\<lambda>c. c\<lparr>bg_IrqOwned := bg_IrqOwned c AND NOT bit'\<rparr>);
         status \<leftarrow> RestoreFree A E bit';
         Bcm_Unlock E;
         ret status
       }
   }"

text \<open>The pins that could not be masked or cleared are none or all.\<close>

definition BcmMaskInterrupts :: "env \<Rightarrow> nat \<Rightarrow> u64 \<Rightarrow> (BCM_GPIO, NTSTATUS \<times> u64) prog" where
  "BcmMaskInterrupts E bank mask' = do {
     c \<leftarrow> gets id;
     if bank \<noteq> 0 \<or> bg_Uid c \<noteq> 0 \<or> mask' AND NOT (bg_Valid c) \<noteq> 0 then ret (STATUS_INVALID_PARAMETER, mask')
     else do { BcmUpdate E BCM_MASK mask' 0; v \<leftarrow> BcmReadBanks E BCM_MASK; ret (STATUS_SUCCESS, 0) }
   }"

definition BcmUnmaskInterrupt :: "env \<Rightarrow> nat \<Rightarrow> nat \<Rightarrow> (BCM_GPIO, NTSTATUS) prog" where
  "BcmUnmaskInterrupt E bank pin = do {
     c \<leftarrow> gets id;
     if bg_Uid c \<noteq> 0 then ret STATUS_NOT_SUPPORTED
     else case BcmMask c bank [pin] of
       None \<Rightarrow> ret STATUS_INVALID_PARAMETER
     | Some bit' \<Rightarrow> do { BcmUpdate E BCM_MASK bit' bit'; v \<leftarrow> BcmReadBanks E BCM_MASK; ret STATUS_SUCCESS }
   }"

definition BcmQueryInterrupts :: "env \<Rightarrow> nat \<Rightarrow> u64 \<Rightarrow> (BCM_GPIO, NTSTATUS \<times> u64) prog" where
  "BcmQueryInterrupts E bank enabled = do {
     c \<leftarrow> gets id;
     if bank \<noteq> 0 \<or> bg_Uid c \<noteq> 0 then ret (STATUS_INVALID_PARAMETER, 0)
     else do {
       status \<leftarrow> BcmReadBanks E BCM_STATUS;
       m \<leftarrow> BcmReadBanks E BCM_MASK;
       let active = status AND m AND bg_Valid c AND enabled;
       whenM (active \<noteq> 0) (modify (\<lambda>c. c\<lparr>bg_InterruptObservations := bg_InterruptObservations c + 1\<rparr>));
       whenM (active AND pin_mask 20 \<noteq> 0) (modify (\<lambda>c. c\<lparr>bg_ButtonObservations := bg_ButtonObservations c + 1\<rparr>));
       ret (STATUS_SUCCESS, active)
     }
   }"

definition BcmQueryEnabled :: "env \<Rightarrow> nat \<Rightarrow> (BCM_GPIO, NTSTATUS \<times> u64) prog" where
  "BcmQueryEnabled E bank = do {
     c \<leftarrow> gets id;
     if bank \<noteq> 0 \<or> bg_Uid c \<noteq> 0 then ret (STATUS_INVALID_PARAMETER, 0)
     else do { m \<leftarrow> BcmReadBanks E BCM_MASK; ret (STATUS_SUCCESS, m AND bg_Valid c) }
   }"

definition BcmClearInterrupts :: "env \<Rightarrow> nat \<Rightarrow> u64 \<Rightarrow> (BCM_GPIO, NTSTATUS \<times> u64) prog" where
  "BcmClearInterrupts E bank mask' = do {
     c \<leftarrow> gets id;
     if bank \<noteq> 0 \<or> bg_Uid c \<noteq> 0 \<or> mask' AND NOT (bg_Valid c) \<noteq> 0 then ret (STATUS_INVALID_PARAMETER, mask')
     else do {
       BcmWrite GIO BCM_STATUS (ucast mask');
       BcmWrite GIO (32 + BCM_STATUS) (ucast (drop_bit 32 mask'));
       v \<leftarrow> BcmReadBanks E BCM_STATUS;
       ret (STATUS_SUCCESS, 0)
     }
   }"

definition BcmReconfigureInterrupt :: "env \<Rightarrow> connect_request \<Rightarrow> nat \<Rightarrow> (BCM_GPIO, NTSTATUS) prog" where
  "BcmReconfigureInterrupt E p pin = do {
     c \<leftarrow> gets id;
     if bg_Uid c \<noteq> 0 then ret STATUS_NOT_SUPPORTED
     else case BcmMask c (cr_Bank p) [pin] of
       None \<Rightarrow> ret STATUS_INVALID_PARAMETER
     | Some bit' \<Rightarrow> do {
         m \<leftarrow> BcmReadBanks E BCM_MASK;
         let enabled = m AND bit';
         BcmUpdate E BCM_MASK bit' 0;
         status \<leftarrow> BcmTrigger E pin (cr_Mode p) (cr_Polarity p);
         BcmUpdate E BCM_MASK bit' enabled;
         v \<leftarrow> BcmReadBanks E BCM_MASK;
         ret status
       }
   }"

definition BcmConnectFunction :: "env \<Rightarrow> connect_request \<Rightarrow> (BCM_GPIO, NTSTATUS) prog" where
  "BcmConnectFunction E p = do {
     c \<leftarrow> gets id;
     case BcmMask c (cr_Bank p) (cr_Pins p) of
       None \<Rightarrow> ret STATUS_INVALID_PARAMETER
     | Some mask' \<Rightarrow>
         if cr_Function p = 0 \<or> cr_Function p > 8 \<or> cr_VendorDataLength p \<noteq> 0 then ret STATUS_NOT_SUPPORTED
         else if \<not> NT_SUCCESS (CanClaim c mask' (cr_Function p) (cr_Pull p)) then ret (CanClaim c mask' (cr_Function p) (cr_Pull p))
         else do {
           Bcm_Lock E;
           status \<leftarrow> (if mask' AND (bg_IoOwned c OR bg_IrqOwned c OR bg_FunctionOwned c) \<noteq> 0 then ret STATUS_SHARING_VIOLATION
             else do {
               forM (pins_of mask') (\<lambda>pin. BcmConfigure E pin (cr_Function p) False (cr_Pull p));
               modify (\<lambda>c. c\<lparr>bg_FunctionOwned := bg_FunctionOwned c OR mask'\<rparr>);
               ret STATUS_SUCCESS
             });
           Bcm_Unlock E;
           ret status
         }
   }"

definition BcmDisconnectFunction :: "acpi_layout \<Rightarrow> env \<Rightarrow> connect_request \<Rightarrow> (BCM_GPIO, NTSTATUS) prog" where
  "BcmDisconnectFunction A E p = do {
     c \<leftarrow> gets id;
     case BcmMask c (cr_Bank p) (cr_Pins p) of
       None \<Rightarrow> ret STATUS_INVALID_PARAMETER
     | Some mask' \<Rightarrow> do {
         Bcm_Lock E;
         modify (\<lambda>c. c\<lparr>bg_FunctionOwned := bg_FunctionOwned c AND NOT mask'\<rparr>);
         status \<leftarrow> RestoreFree A E mask';
         Bcm_Unlock E;
         ret status
       }
   }"

text \<open>What the driver writes to its registry key.\<close>

definition BcmTelemetry :: "acpi_layout \<Rightarrow> env \<Rightarrow> (BCM_GPIO, unit) prog" where
  "BcmTelemetry A E = do {
     c \<leftarrow> gets id;
     whenM (bg_Started c) (do {
       Bcm_Lock E;
       (status, data) \<leftarrow> BcmReadData A E;
       direction \<leftarrow> BcmReadBanks E BCM_DIR;
       enabled \<leftarrow> (if bg_Uid c \<noteq> 0 then ret 0 else BcmReadBanks E BCM_MASK);
       muxpull \<leftarrow> BcmReadPinctrl E;
       Bcm_Unlock E;
       kernel_do E ''WdfRegistryAssignValue'' ([1, ucast (bg_Uid c), ucast (bg_Revision c), ucast status, bg_Valid c, data, direction,
         bg_IoOwned c, bg_IrqOwned c, bg_FunctionOwned c, enabled, bg_InterruptObservations c, bg_ButtonObservations c] @ map ucast muxpull);
       c \<leftarrow> gets id;
       whenM (bg_Started c) (kernel_do E ''WdfTimerStart'' [1000])
     })
   }"

section \<open>Who owns a pin\<close>

text \<open>The calls that the class extension makes.\<close>

datatype gpio_call =
    GpPrepare "cm_resource option list"
  | GpRelease
  | GpStart bool
  | GpStop bool
  | GpConnect connect_request
  | GpDisconnect connect_request
  | GpReadPins nat
  | GpWritePins nat u64 u64
  | GpEnable connect_request nat
  | GpDisable nat nat
  | GpMask nat u64
  | GpUnmask nat nat
  | GpQueryInterrupts nat u64
  | GpQueryEnabled nat
  | GpClear nat u64
  | GpReconfigure connect_request nat
  | GpConnectFunction connect_request
  | GpDisconnectFunction connect_request
  | GpTelemetry

definition gpio_ignore :: "('s, 'a) prog \<Rightarrow> ('s, unit) prog" where
  "gpio_ignore m = do { r \<leftarrow> m; ret () }"

fun gpio_step :: "acpi_layout \<Rightarrow> u32 \<Rightarrow> env \<Rightarrow> gpio_call \<Rightarrow> (BCM_GPIO, unit) prog" where
  "gpio_step A F E (GpPrepare rs) = gpio_ignore (BcmPrepare A F E rs)"
| "gpio_step A F E GpRelease = gpio_ignore (BcmRelease E)"
| "gpio_step A F E (GpStart restore) = gpio_ignore (BcmStart A E restore)"
| "gpio_step A F E (GpStop save) = gpio_ignore (BcmStop A E save)"
| "gpio_step A F E (GpConnect p) = gpio_ignore (BcmConnect E p)"
| "gpio_step A F E (GpDisconnect p) = gpio_ignore (BcmDisconnect A E p)"
| "gpio_step A F E (GpReadPins bank) = gpio_ignore (BcmReadPins A E bank)"
| "gpio_step A F E (GpWritePins bank set' clear) = gpio_ignore (BcmWritePins A E bank set' clear)"
| "gpio_step A F E (GpEnable p pin) = gpio_ignore (BcmEnableInterrupt E p pin)"
| "gpio_step A F E (GpDisable bank pin) = gpio_ignore (BcmDisableInterrupt A E bank pin)"
| "gpio_step A F E (GpMask bank m) = gpio_ignore (BcmMaskInterrupts E bank m)"
| "gpio_step A F E (GpUnmask bank pin) = gpio_ignore (BcmUnmaskInterrupt E bank pin)"
| "gpio_step A F E (GpQueryInterrupts bank m) = gpio_ignore (BcmQueryInterrupts E bank m)"
| "gpio_step A F E (GpQueryEnabled bank) = gpio_ignore (BcmQueryEnabled E bank)"
| "gpio_step A F E (GpClear bank m) = gpio_ignore (BcmClearInterrupts E bank m)"
| "gpio_step A F E (GpReconfigure p pin) = gpio_ignore (BcmReconfigureInterrupt E p pin)"
| "gpio_step A F E (GpConnectFunction p) = gpio_ignore (BcmConnectFunction E p)"
| "gpio_step A F E (GpDisconnectFunction p) = gpio_ignore (BcmDisconnectFunction A E p)"
| "gpio_step A F E GpTelemetry = BcmTelemetry A E"

definition gpio_session :: "acpi_layout \<Rightarrow> u32 \<Rightarrow> env \<Rightarrow> gpio_call list \<Rightarrow> (BCM_GPIO, unit) prog" where
  "gpio_session A F E calls = forM calls (gpio_step A F E)"

text \<open>A pin has one owner, an input and its interrupt apart, and an owned pin is known as touched.\<close>

definition pin_owner_ok :: "bool \<Rightarrow> bool \<Rightarrow> bool \<Rightarrow> bool \<Rightarrow> bool \<Rightarrow> bool" where
  "pin_owner_ok io out irq function' touched \<longleftrightarrow> \<not> (io \<and> function') \<and> \<not> (irq \<and> function') \<and>
     (out \<longrightarrow> io \<and> \<not> irq) \<and> (io \<or> irq \<or> function' \<longrightarrow> touched)"

definition owners_ok :: "BCM_GPIO \<Rightarrow> bool" where
  "owners_ok c \<longleftrightarrow> (\<forall>pin. pin_owner_ok (bit (bg_IoOwned c) pin) (bit (bg_OutputOwned c) pin) (bit (bg_IrqOwned c) pin)
     (bit (bg_FunctionOwned c) pin) (bit (bg_Touched c) pin))"

definition pin_owners :: "BCM_GPIO \<Rightarrow> u64 \<times> u64 \<times> u64 \<times> u64 \<times> u64" where
  "pin_owners c = (bg_IoOwned c, bg_OutputOwned c, bg_IrqOwned c, bg_FunctionOwned c, bg_Touched c)"

abbreviation keeping :: "(BCM_GPIO, 'a) prog \<Rightarrow> bool" where "keeping \<equiv> preserves (keeps pin_owners)"

lemma owned_updates [simp]:
  "pin_owners (bg_Timer_update f1 c) = pin_owners c" "pin_owners (bg_Key_update f1 c) = pin_owners c" "pin_owners (bg_Gio_update f1 c) = pin_owners c"
  "pin_owners (bg_Pinctrl_update f1 c) = pin_owners c" "pin_owners (bg_L2_update f1 c) = pin_owners c"
  "pin_owners (bg_PinctrlLength_update f3 c) = pin_owners c" "pin_owners (bg_Revision_update f3 c) = pin_owners c" "pin_owners (bg_Uid_update f3 c) = pin_owners c"
  "pin_owners (bg_Valid_update f4 c) = pin_owners c" "pin_owners (bg_ResumeMask_update f4 c) = pin_owners c" "pin_owners (bg_Boot_update f5 c) = pin_owners c"
  "pin_owners (bg_Resume_update f5 c) = pin_owners c" "pin_owners (bg_InterruptObservations_update f4 c) = pin_owners c"
  "pin_owners (bg_ButtonObservations_update f4 c) = pin_owners c" "pin_owners (bg_Started_update f6 c) = pin_owners c" "pin_owners (bg_L2WasMasked_update f6 c) = pin_owners c"
  by (simp_all add: pin_owners_def)

lemma owners_ok_owned: "owners_ok c \<Longrightarrow> pin_owners c' = pin_owners c \<Longrightarrow> owners_ok c'"
  by (simp add: pin_owners_def owners_ok_def)

named_theorems gpio_keeps

lemma keep_read [gpio_keeps]: "keeping (BcmRead E base off)" "keeping (BcmWrite base off v)"
  by (auto simp: BcmRead_def BcmWrite_def intro!: kernel_keeps gpio_keeps)

lemma keep_fields [gpio_keeps]: "keeping (BcmFieldRead E position m)" "keeping (BcmFieldWrite E position m v)"
  "keeping (BcmReadBanks E off)" "keeping (BcmUpdate E off b u)" "keeping (BcmWriteData_bank E b s bank)"
  "keeping (pin_flag E pin off)"
  by (auto simp: BcmFieldRead_def BcmFieldWrite_def BcmReadBanks_def BcmUpdate_def BcmUpdate_bank_def BcmWriteData_bank_def pin_flag_def intro!: kernel_keeps gpio_keeps)

lemma keep_data [gpio_keeps]: "keeping (Bcm_Eval A E name args)" "keeping (BcmEvalInteger A E name)" "keeping (BcmBroker A E m v)" "keeping (BcmReadData A E)"
    "keeping (BcmWriteData A E s clear)" "keeping (pin_hold E f pin wanted)"
  by (auto simp: Bcm_Eval_def BcmEvalInteger_def BcmBroker_def BcmReadData_def BcmWriteData_def pin_hold_def intro!: kernel_keeps gpio_keeps)

lemma keep_pins [gpio_keeps]: "keeping (BcmSnapshot E pin data)" "keeping (BcmRestore A E pin s)" "keeping (BcmTrigger E pin mode polarity)" "keeping (BcmReadPinctrl E)"
    "keeping (Bcm_Lock E)" "keeping (Bcm_Unlock E)"
  by (auto simp: BcmSnapshot_def BcmRestore_def BcmTrigger_def BcmReadPinctrl_def Bcm_Lock_def Bcm_Unlock_def intro!: kernel_keeps gpio_keeps)

lemma keep_loops [gpio_keeps]: "keeping (Bcm_SaveBoot E data pins)" "keeping (Bcm_SaveResume E data pins)" "keeping (Bcm_RestoreAll A E saved pins result)"
    "keeping (Bcm_RestoreUntil A E saved False pins)"
proof -
  show "keeping (Bcm_SaveBoot E data pins)" by (induction pins) (auto intro!: kernel_keeps gpio_keeps)
  show "keeping (Bcm_SaveResume E data pins)" by (induction pins) (auto intro!: kernel_keeps gpio_keeps)
  show "keeping (Bcm_RestoreAll A E saved pins result)" by (induction pins arbitrary: result) (auto intro!: kernel_keeps gpio_keeps)
  show "keeping (Bcm_RestoreUntil A E saved False pins)" by (induction pins) (auto intro!: kernel_keeps gpio_keeps)
qed

lemma keep_power [gpio_keeps]: "keeping (BcmRelease E)" "keeping (Bcm_fail E status)" "keeping (Bcm_Map A E memory)" "keeping (BcmPrepare A F E rs)"
    "keeping (BcmStart A E restore)" "keeping (BcmStop A E save)"
  by (auto simp: BcmRelease_def Bcm_fail_def Bcm_Map_def BcmPrepare_def BcmStart_def BcmStop_def intro!: kernel_keeps gpio_keeps)

lemma keep_requests [gpio_keeps]: "keeping (BcmReadPins A E bank)" "keeping (BcmWritePins A E bank s clear)" "keeping (BcmMaskInterrupts E bank m)"
    "keeping (BcmUnmaskInterrupt E bank pin)" "keeping (BcmQueryInterrupts E bank m)" "keeping (BcmQueryEnabled E bank)" "keeping (BcmClearInterrupts E bank m)"
    "keeping (BcmReconfigureInterrupt E p pin)" "keeping (BcmTelemetry A E)"
  by (auto simp: BcmReadPins_def BcmWritePins_def BcmMaskInterrupts_def BcmUnmaskInterrupt_def BcmQueryInterrupts_def BcmQueryEnabled_def
      BcmClearInterrupts_def BcmReconfigureInterrupt_def BcmTelemetry_def intro!: kernel_keeps gpio_keeps)


subsection \<open>The calls that change an owner\<close>

declare push_bit_of_1 [simp del]

lemma pins_of_set [simp]: "set (pins_of m) = {pin. bit m pin}" for m :: u64
  by (auto dest: bit_imp_le_length)

lemma bit_pin_mask [simp]: "pin < 64 \<Longrightarrow> bit (pin_mask pin) n \<longleftrightarrow> n = pin"
  by (simp add: bit_pin del: push_bit_of_1)

lemma bit_u64: "bit (m :: u64) n \<Longrightarrow> n < 64"
  using bit_imp_le_length [of m n] by simp

lemma wp_Configure_owned:
  assumes "\<And>v. pin_owners (st v) = pin_owners ((st w)\<lparr>bg_Touched := bg_Touched (st w) OR pin_mask pin\<rparr>) \<Longrightarrow> Q () v"
  shows "wp (BcmConfigure E pin f output pull) Q w"
proof -
  have eq: "BcmConfigure E pin f output pull = do {
     (do { c \<leftarrow> gets id;
     let f' = pin_fields c pin;
     hold \<leftarrow> pin_hold E f' pin (output \<and> f = 0);
     whenM (\<not> hold) (BcmUpdate E BCM_DIR (pin_mask pin) (pin_mask pin));
     BcmFieldWrite E (pf_MuxBit f') 15 f;
     whenM (pf_PullBit f' \<noteq> NO_PULL) (BcmFieldWrite E (pf_PullBit f') 3 (pull_value c pin pull));
     BcmUpdate E BCM_ODEN (pin_mask pin) 0;
     whenM output (BcmUpdate E BCM_DIR (pin_mask pin) 0) });
     modify (\<lambda>c. c\<lparr>bg_Touched := bg_Touched c OR pin_mask pin\<rparr>) }"
    (is "_ = ?rhs" is "_ = do { ?m; modify ?f }")
    by (simp add: BcmConfigure_def Let_def)
  have k: "keeping ?m" by (auto intro!: kernel_keeps gpio_keeps)
  have "wp ?rhs Q w"
    by (rule wp_bindI, rule wp_keeps [OF k], rule wp_modifyI, rule assms) (simp add: pin_owners_def)
  with eq show ?thesis by simp
qed

lemma wp_Configure_all:
  assumes "\<forall>pin\<in>set pins. pin < 64"
    and "\<And>v touched. pin_owners (st v) = pin_owners ((st w)\<lparr>bg_Touched := touched\<rparr>) \<Longrightarrow>
       (\<And>n. bit touched n \<longleftrightarrow> bit (bg_Touched (st w)) n \<or> n \<in> set pins) \<Longrightarrow> Q () v"
  shows "wp (forM pins (\<lambda>pin. BcmConfigure E pin f output pull)) Q w"
  using assms
proof (induction pins arbitrary: w)
  case Nil
  from Nil(2) [of w "bg_Touched (st w)"] show ?case by (simp add: wp_simps)
next
  case (Cons pin pins)
  show ?case
    unfolding forM.simps
  proof (rule wp_bindI, rule wp_Configure_owned, rule Cons.IH)
    fix v u :: "BCM_GPIO world" and touched
    assume v: "pin_owners (st v) = pin_owners ((st w)\<lparr>bg_Touched := bg_Touched (st w) OR pin_mask pin\<rparr>)"
      and u: "pin_owners (st u) = pin_owners ((st v)\<lparr>bg_Touched := touched\<rparr>)" "\<And>n. bit touched n \<longleftrightarrow> bit (bg_Touched (st v)) n \<or> n \<in> set pins"
    show "Q () u"
    proof (rule Cons.prems(2))
      show "pin_owners (st u) = pin_owners ((st w)\<lparr>bg_Touched := touched\<rparr>)" using u(1) v by (simp add: pin_owners_def)
      fix n
      show "bit touched n \<longleftrightarrow> bit (bg_Touched (st w)) n \<or> n \<in> set (pin # pins)"
        using u(2) v Cons.prems(1) by (auto simp: pin_owners_def bit_or_iff)
    qed
  qed (use Cons.prems(1) in simp)
qed

lemma wp_RestoreUntil_owned:
  assumes "\<forall>pin\<in>set pins. pin < 64"
    and "\<And>v r touched. pin_owners (st v) = pin_owners ((st w)\<lparr>bg_Touched := touched\<rparr>) \<Longrightarrow>
       (\<And>n. bit (bg_Touched (st w)) n \<Longrightarrow> n \<notin> set pins \<Longrightarrow> bit touched n) \<Longrightarrow> Q r v"
  shows "wp (Bcm_RestoreUntil A E saved True pins) Q w"
  using assms
proof (induction pins arbitrary: w)
  case Nil
  from Nil(2) [of w "bg_Touched (st w)"] show ?case by (simp add: wp_simps)
next
  case (Cons pin pins)
  show ?case
    unfolding Bcm_RestoreUntil.simps
  proof (rule wp_bindI, rule wp_keeps [OF keep_pins(2)], rule wp_ifI)
    fix r and v :: "BCM_GPIO world"
    assume v: "pin_owners (st v) = pin_owners (st w)"
    show "wp (ret r) Q v" by (rule wp_returnI, rule Cons.prems(2) [of _ "bg_Touched (st w)"]) (simp_all add: v)
    show "wp (do { whenM True (modify (\<lambda>c. c\<lparr>bg_Touched := bg_Touched c AND NOT (pin_mask pin)\<rparr>)); Bcm_RestoreUntil A E saved True pins }) Q v"
    proof (simp only: wp_simps if_True, rule Cons.IH)
      fix u :: "BCM_GPIO world" and r touched
      let ?v = "v\<lparr>st := (st v)\<lparr>bg_Touched := bg_Touched (st v) AND NOT (pin_mask pin)\<rparr>\<rparr>"
      assume u: "pin_owners (st u) = pin_owners ((st ?v)\<lparr>bg_Touched := touched\<rparr>)" "\<And>n. bit (bg_Touched (st ?v)) n \<Longrightarrow> n \<notin> set pins \<Longrightarrow> bit touched n"
      show "Q r u"
      proof (rule Cons.prems(2))
        show "pin_owners (st u) = pin_owners ((st w)\<lparr>bg_Touched := touched\<rparr>)" using u(1) v by (simp add: pin_owners_def)
        fix n assume "bit (bg_Touched (st w)) n" "n \<notin> set (pin # pins)"
        with u(2) v Cons.prems(1) show "bit touched n" by (auto simp: pin_owners_def bit_and_iff bit_not_iff dest: bit_u64)
      qed
    qed (use Cons.prems(1) in simp)
  qed
qed


lemma mask_loop_bits:
  "mask_loop valid pins m = Some m' \<Longrightarrow> bit m' n \<longleftrightarrow> bit m n \<or> n \<in> set pins"
  "mask_loop valid pins m = Some m' \<Longrightarrow> pin \<in> set pins \<Longrightarrow> bit valid pin"
proof (induction valid pins m rule: mask_loop.induct)
  case (2 valid pin' pins m)
  { case 1 with 2 show ?case by (auto simp: bit_or_iff split: if_splits) }
  { case 2 with "2.IH" show ?case using and_pin_mask [of pin' valid] by (auto split: if_splits) }
qed auto

lemma BcmMask_bits:
  assumes "BcmMask c bank pins = Some m"
  shows "bit m n \<longleftrightarrow> n \<in> set pins" "bit m n \<Longrightarrow> bit (bg_Valid c) n"
  using assms mask_loop_bits [of "bg_Valid c" pins 0 m] by (auto simp: BcmMask_def split: if_splits)

lemma and_zero: "a AND b = 0 \<longleftrightarrow> (\<forall>n. \<not> (bit a n \<and> bit b n))" for a b :: "'a::len word"
  by (auto simp: bit_eq_iff bit_and_iff dest: bit_imp_le_length)

text \<open>The changes of the ownership, as the requests make them.\<close>

lemma owners_ok_change:
  assumes "owners_ok c"
    and "\<And>n. pin_owner_ok (bit (bg_IoOwned c) n) (bit (bg_OutputOwned c) n) (bit (bg_IrqOwned c) n) (bit (bg_FunctionOwned c) n) (bit (bg_Touched c) n) \<Longrightarrow>
      pin_owner_ok (bit (bg_IoOwned c') n) (bit (bg_OutputOwned c') n) (bit (bg_IrqOwned c') n) (bit (bg_FunctionOwned c') n) (bit (bg_Touched c') n)"
  shows "owners_ok c'"
  using assms unfolding owners_ok_def by blast

lemma owners_ok_io:
  assumes "owners_ok c" "m AND (bg_IoOwned c OR bg_FunctionOwned c) = 0" "out \<Longrightarrow> m AND bg_IrqOwned c = 0"
    and "\<And>n. bit (bg_Touched c) n \<or> bit m n \<Longrightarrow> bit touched n"
  shows "owners_ok (c\<lparr>bg_IoOwned := bg_IoOwned c OR m, bg_OutputOwned := (if out then bg_OutputOwned c OR m else bg_OutputOwned c), bg_Touched := touched\<rparr>)"
  by (rule owners_ok_change [OF assms(1)]) (use assms(2-) in \<open>auto simp: pin_owner_ok_def and_zero bit_or_iff\<close>)

lemma owners_ok_irq:
  assumes "owners_ok c" "m AND (bg_FunctionOwned c OR bg_OutputOwned c OR bg_IrqOwned c) = 0"
    and "\<And>n. bit (bg_Touched c) n \<or> bit m n \<Longrightarrow> bit touched n"
  shows "owners_ok (c\<lparr>bg_IrqOwned := bg_IrqOwned c OR m, bg_Touched := touched\<rparr>)"
  by (rule owners_ok_change [OF assms(1)]) (use assms(2-) in \<open>auto simp: pin_owner_ok_def and_zero bit_or_iff\<close>)

lemma owners_ok_function:
  assumes "owners_ok c" "m AND (bg_IoOwned c OR bg_IrqOwned c OR bg_FunctionOwned c) = 0"
    and "\<And>n. bit (bg_Touched c) n \<or> bit m n \<Longrightarrow> bit touched n"
  shows "owners_ok (c\<lparr>bg_FunctionOwned := bg_FunctionOwned c OR m, bg_Touched := touched\<rparr>)"
  by (rule owners_ok_change [OF assms(1)]) (use assms(2-) in \<open>auto simp: pin_owner_ok_def and_zero bit_or_iff\<close>)

lemma owners_ok_drop:
  assumes "owners_ok c"
  shows "owners_ok (c\<lparr>bg_IoOwned := bg_IoOwned c AND NOT m, bg_OutputOwned := bg_OutputOwned c AND NOT m\<rparr>)"
    "owners_ok (c\<lparr>bg_IrqOwned := bg_IrqOwned c AND NOT m\<rparr>)" "owners_ok (c\<lparr>bg_FunctionOwned := bg_FunctionOwned c AND NOT m\<rparr>)"
  by (rule owners_ok_change [OF assms], auto simp: pin_owner_ok_def bit_and_iff bit_not_iff dest: bit_u64)+

lemma pins_small: "\<forall>pin\<in>set (pins_of m). pin < 64"
  by simp

lemma owners_Connect: "owners_ok (st w) \<Longrightarrow> wp (BcmConnect E p) (\<lambda>_ v. owners_ok (st v)) w"
  unfolding BcmConnect_def
  apply (rule wp_bindI, rule wp_getsI, simp only: id_apply, rule wp_case_optionI, erule wp_returnI, rule wp_ifI, erule wp_returnI, rule wp_ifI, erule wp_returnI)
  apply (rule wp_bindI, rule wp_keeps [OF keep_pins(5)], rule wp_LetI, rule wp_bindI, rule wp_ifI)
   apply (rule wp_returnI, rule wp_bindI, rule wp_keeps [OF keep_pins(6)], rule wp_returnI, erule owners_ok_owned, simp)
  apply (rule wp_bindI, rule wp_Configure_all [OF pins_small], rule wp_bindI, rule wp_modifyI, rule wp_returnI, rule wp_bindI, rule wp_keeps [OF keep_pins(6)], rule wp_returnI)
  subgoal for m r0 v0 out v1 touched r1 v2
    by (rule owners_ok_owned [OF owners_ok_io [of "st w" m out touched]]) (auto simp: pin_owners_def dest: bit_u64)
  done

lemma owners_RestoreFree: "owners_ok (st w) \<Longrightarrow> wp (RestoreFree A E m) (\<lambda>_ v. owners_ok (st v)) w"
  unfolding RestoreFree_def
  apply (rule wp_bindI, rule wp_getsI, simp only: id_apply Let_def, rule wp_RestoreUntil_owned [OF pins_small])
  subgoal for v r touched
    apply (rule owners_ok_owned [of "(st w)\<lparr>bg_Touched := touched\<rparr>"])
     apply (erule owners_ok_change)
    subgoal for n
      using bit_u64 [of "bg_IoOwned (st w)" n] bit_u64 [of "bg_IrqOwned (st w)" n] bit_u64 [of "bg_FunctionOwned (st w)" n]
      by (auto simp: pin_owner_ok_def bit_and_iff bit_or_iff bit_not_iff)
    apply (simp add: pin_owners_def)
    done
  done

lemma owners_drop_step:
  assumes "\<And>v. owners_ok (st v) \<Longrightarrow> wp m Q v" "owners_ok (st w)" "\<And>c. owners_ok c \<Longrightarrow> owners_ok (f c)"
  shows "wp (do { Bcm_Lock E; modify f; m }) Q w"
  by (rule wp_bindI, rule wp_keeps [OF keep_pins(5)], rule wp_bindI, rule wp_modifyI, rule assms(1))
    (use assms(2,3) owners_ok_owned in \<open>auto\<close>)

lemma wp_owners_keep: "preserves (keeps pin_owners) m \<Longrightarrow> owners_ok (st w) \<Longrightarrow> wp m (\<lambda>_ v. owners_ok (st v)) w"
  by (erule wp_keeps) (auto intro: owners_ok_owned)

lemma wp_owners_then: "wp m (\<lambda>_ v. owners_ok (st v)) w \<Longrightarrow> (\<And>r v. owners_ok (st v) \<Longrightarrow> wp (f r) (\<lambda>_ v. owners_ok (st v)) v) \<Longrightarrow>
    wp (m \<bind> f) (\<lambda>_ v. owners_ok (st v)) w"
  by (rule wp_bindI) (erule wp_mono, simp)

lemma wp_owners_modify: "owners_ok (f (st w)) \<Longrightarrow> wp (modify f) (\<lambda>_ v. owners_ok (st v)) w"
  by (simp add: wp_simps)

lemma owners_Disconnect: "owners_ok (st w) \<Longrightarrow> wp (BcmDisconnect A E p) (\<lambda>_ v. owners_ok (st v)) w"
  and owners_DisableInterrupt: "owners_ok (st w) \<Longrightarrow> wp (BcmDisableInterrupt A E bank pin) (\<lambda>_ v. owners_ok (st v)) w"
  and owners_DisconnectFunction: "owners_ok (st w) \<Longrightarrow> wp (BcmDisconnectFunction A E p) (\<lambda>_ v. owners_ok (st v)) w"
proof -
  note step = wp_owners_then wp_owners_modify owners_ok_drop owners_RestoreFree wp_owners_keep [OF keep_pins(5)] wp_owners_keep [OF keep_pins(6)]
    wp_owners_keep [OF keep_fields(4)] wp_returnI wp_ifI wp_case_optionI
  assume w: "owners_ok (st w)"
  show "wp (BcmDisconnect A E p) (\<lambda>_ v. owners_ok (st v)) w"
    unfolding BcmDisconnect_def by (rule wp_bindI, rule wp_getsI, simp only: id_apply) (use w in \<open>blast intro: step\<close>)
  show "wp (BcmDisableInterrupt A E bank pin) (\<lambda>_ v. owners_ok (st v)) w"
    unfolding BcmDisableInterrupt_def by (rule wp_bindI, rule wp_getsI, simp only: id_apply) (use w in \<open>blast intro: step\<close>)
  show "wp (BcmDisconnectFunction A E p) (\<lambda>_ v. owners_ok (st v)) w"
    unfolding BcmDisconnectFunction_def by (rule wp_bindI, rule wp_getsI, simp only: id_apply) (use w in \<open>blast intro: step\<close>)
qed


lemma owners_ConnectFunction: "owners_ok (st w) \<Longrightarrow> wp (BcmConnectFunction E p) (\<lambda>_ v. owners_ok (st v)) w"
  unfolding BcmConnectFunction_def
  apply (rule wp_bindI, rule wp_getsI, simp only: id_apply, rule wp_case_optionI, erule wp_returnI, rule wp_ifI, erule wp_returnI, rule wp_ifI, erule wp_returnI)
  apply (rule wp_bindI, rule wp_keeps [OF keep_pins(5)], rule wp_bindI, rule wp_ifI)
   apply (rule wp_returnI, rule wp_bindI, rule wp_keeps [OF keep_pins(6)], rule wp_returnI, erule owners_ok_owned, simp)
  apply (rule wp_bindI, rule wp_Configure_all [OF pins_small], rule wp_bindI, rule wp_modifyI, rule wp_returnI, rule wp_bindI, rule wp_keeps [OF keep_pins(6)], rule wp_returnI)
  subgoal for m r0 v0 v1 touched r1 v2
    by (rule owners_ok_owned [OF owners_ok_function [of "st w" m touched]]) (auto simp: pin_owners_def dest: bit_u64)
  done

lemma BcmMask_one: "BcmMask c bank [pin] = Some m \<Longrightarrow> m = pin_mask pin"
  by (auto simp: BcmMask_def split: if_splits)

lemma keep_enable: "keeping (do { BcmWrite GIO off b; modify (\<lambda>c. c); BcmUpdate E BCM_MASK m m; v \<leftarrow> BcmReadBanks E BCM_MASK; ret () })"
  by (auto intro!: kernel_keeps gpio_keeps)

lemma owners_EnableInterrupt: "owners_ok (st w) \<Longrightarrow> wp (BcmEnableInterrupt E p pin) (\<lambda>_ v. owners_ok (st v)) w"
  unfolding BcmEnableInterrupt_def
  apply (rule wp_bindI, rule wp_getsI, simp only: id_apply, rule wp_ifI, erule wp_returnI, rule wp_case_optionI, erule wp_returnI, rule wp_ifI, erule wp_returnI, rule wp_ifI, erule wp_returnI)
  apply (rule wp_bindI, rule wp_keeps [OF keep_pins(5)], rule wp_bindI, rule wp_ifI)
   apply (rule wp_returnI, rule wp_bindI, rule wp_keeps [OF keep_pins(6)], rule wp_returnI, erule owners_ok_owned, simp)
  apply (rule wp_bindI, rule wp_keeps [OF keep_pins(3)], rule wp_bindI, rule wp_whenI)
   apply (rule wp_bindI, rule wp_Configure_owned, rule wp_bindI, rule wp_keeps [OF keep_read(2)], rule wp_bindI, rule wp_modifyI)
   apply (rule wp_bindI, rule wp_keeps [OF keep_fields(4)], rule wp_bindI, rule wp_keeps [OF keep_fields(3)], rule wp_returnI, rule wp_returnI)
   apply (rule wp_bindI, rule wp_keeps [OF keep_pins(6)], rule wp_returnI)
  subgoal for m r0 v0 r1 v1 v2 r3 v3 r4 v4 r5 v5 r6 v6
    by (rule owners_ok_owned [OF owners_ok_irq [of "st w" m "bg_Touched (st w) OR pin_mask pin"]]) (auto simp: pin_owners_def bit_or_iff dest: BcmMask_one)
  apply (rule wp_returnI, rule wp_bindI, rule wp_keeps [OF keep_pins(6)], rule wp_returnI, erule owners_ok_owned, simp)
  done

lemma owners_ignore: "wp m (\<lambda>_ v. owners_ok (st v)) w \<Longrightarrow> wp (gpio_ignore m) (\<lambda>_ v. owners_ok (st v)) w"
  unfolding gpio_ignore_def by (erule wp_owners_then) (simp add: wp_simps)

lemma owners_step: "owners_ok (st w) \<Longrightarrow> wp (gpio_step A F E call) (\<lambda>_ v. owners_ok (st v)) w"
  by (cases call)
    (auto intro!: owners_ignore owners_Connect owners_Disconnect owners_EnableInterrupt owners_DisableInterrupt owners_ConnectFunction
      owners_DisconnectFunction intro: wp_owners_keep gpio_keeps)

section \<open>The data register of the firmware\<close>

text \<open>On the always-on controller the firmware's methods own the data register of the first bank.\<close>

definition not_firmware_data :: "io_event \<Rightarrow> bool" where
  "not_firmware_data e \<longleftrightarrow> (\<forall>v. e \<noteq> Wr GIO BCM_DATA v)"

lemma not_firmware_data_simps [simp]:
  "not_firmware_data (Wr u off v) \<longleftrightarrow> \<not> (u = GIO \<and> off = BCM_DATA)" "not_firmware_data (Rd u off v)" "not_firmware_data (Call f xs r)"
  by (auto simp: not_firmware_data_def)

definition leaves_data :: "BCM_GPIO world \<Rightarrow> BCM_GPIO world \<Rightarrow> bool" where
  "leaves_data w w' \<longleftrightarrow> bg_Uid (st w') = bg_Uid (st w) \<and> (bg_Uid (st w) \<noteq> 0 \<longrightarrow> trace_ext not_firmware_data w w')"

interpretation leaves: frame leaves_data
  by unfold_locales (auto simp: leaves_data_def intro: ext.frame_refl ext.frame_trans)

abbreviation leaving :: "(BCM_GPIO, 'a) prog \<Rightarrow> bool" where "leaving \<equiv> preserves leaves_data"

lemma leaves_modify: "(\<And>c. bg_Uid (f c) = bg_Uid c) \<Longrightarrow> leaving (modify f)"
  by (simp add: preserves_modify leaves_data_def trace_ext_def)

lemma leaves_both: "preserves (keeps bg_Uid) m \<Longrightarrow> preserves (trace_ext not_firmware_data) m \<Longrightarrow> leaving m"
  by (auto simp: preserves_def leaves_data_def keeps_def)

lemma leaves_io: "leaving (io_call E f xs)" "leaving (io_read E u off)" "u \<noteq> GIO \<or> off \<noteq> BCM_DATA \<Longrightarrow> leaving (emit (Wr u off v))"
    "leaving (kernel_do E f xs)" "leaving (kernel_status E f xs)"
  by (auto intro!: leaves_both keeps_intros ext_intros ext_kernel keeps_kernel)

named_theorems gpio_leaves

lemmas leaves_rules = leaves.pres leaves_modify leaves_io

lemma leaves_read [gpio_leaves]: "leaving (BcmRead E base off)" "base \<noteq> GIO \<or> off \<noteq> BCM_DATA \<Longrightarrow> leaving (BcmWrite base off v)"
  by (auto simp: BcmRead_def BcmWrite_def intro!: leaves_rules)

lemma flag_not_data:
  assumes "off \<in> flag_offsets" "off \<noteq> BCM_DATA"
  shows "pin < 64 \<Longrightarrow> pin_bank pin + off \<noteq> BCM_DATA" "off \<noteq> BCM_DATA" "32 + off \<noteq> BCM_DATA"
  using pin_address [of pin 0 off BCM_DATA] assms by (auto simp: flag_offsets_def)

lemma leaves_fields [gpio_leaves]: "leaving (BcmFieldRead E position m)" "leaving (BcmFieldWrite E position m v)"
  "leaving (BcmReadBanks E off)" "leaving (pin_flag E pin off)"
  by (auto simp: BcmFieldRead_def BcmFieldWrite_def BcmReadBanks_def pin_flag_def intro!: leaves_rules gpio_leaves)

lemma leaves_Update [gpio_leaves]: "off \<in> flag_offsets - {BCM_DATA} \<Longrightarrow> leaving (BcmUpdate E off m u)"
  using flag_not_data [of off]
  by (auto simp: BcmUpdate_def BcmUpdate_bank_def Let_def intro!: leaves_rules gpio_leaves)

lemma leaves_eval [gpio_leaves]: "leaving (Bcm_Eval A E name args)" "leaving (BcmBroker A E m32 v)" "leaving (BcmReadData A E)" "leaving (pin_hold E f pin wanted)"
  by (auto simp: Bcm_Eval_def BcmBroker_def BcmReadData_def pin_hold_def intro!: leaves_rules gpio_leaves)

lemma wp_leaves: "preserves leaves_data m \<Longrightarrow> (\<And>r v. leaves_data w v \<Longrightarrow> Q r v) \<Longrightarrow> wp m Q w"
  by (rule wpI) (auto dest: preservesD)

lemma leaves_WriteData [gpio_leaves]: "leaving (BcmWriteData A E s clear)"
proof (cases "s AND clear = 0")
  case True
  have bank1: "leaving (BcmWriteData_bank E m s 1)" for m
    by (auto simp: BcmWriteData_bank_def Let_def intro!: leaves_rules gpio_leaves)
  have bank: "preserves (keeps bg_Uid) (forM is (BcmWriteData_bank E m s))" for m "is"
    by (auto simp: BcmWriteData_bank_def BcmRead_def BcmWrite_def intro!: keeps_intros)
  have broker: "leaving (if b then do { (status, data) \<leftarrow> BcmBroker A E m s'; ret status } else ret STATUS_SUCCESS)" for b m s'
    by (auto intro!: leaves_rules gpio_leaves)
  have "wp (BcmWriteData A E s clear) (\<lambda>_ v. leaves_data w v) w" for w
    unfolding BcmWriteData_def Let_def
  proof (rule wp_bindI, rule wp_getsI, simp only: id_apply, rule wp_ifI, rule wp_returnI, rule leaves.frame_refl, rule wp_bindI,
      rule wp_leaves [OF broker], rule wp_ifI, erule wp_returnI)
    fix r v assume v: "leaves_data w v"
    show "wp (forM [if bg_Uid (st w) \<noteq> 0 then 1 else 0..<2] (BcmWriteData_bank E (s OR clear) s) \<bind> (\<lambda>_. ret STATUS_SUCCESS)) (\<lambda>_ v. leaves_data w v) v"
    proof (cases "bg_Uid (st w) = 0")
      case True
      with v show ?thesis
        by (intro wp_bindI wp_keeps [OF bank] wp_returnI) (auto simp: leaves_data_def)
    next
      case False
      then have "[if bg_Uid (st w) \<noteq> 0 then 1 else 0..<2] = [1 :: nat]" by (simp add: upt_rec)
      then show ?thesis
        by (simp only: forM.simps) (intro wp_bindI wp_leaves [OF bank1] wp_returnI, erule leaves.frame_trans [OF v])
    qed
  qed
  then show ?thesis by (simp add: preserves_wp)
qed (auto simp: BcmWriteData_def intro!: leaves_rules)

lemma leaves_pins [gpio_leaves]: "leaving (BcmSnapshot E pin data)" "leaving (BcmRestore A E pin s)" "leaving (BcmTrigger E pin mode polarity)" "leaving (BcmReadPinctrl E)"
    "leaving (Bcm_Lock E)" "leaving (Bcm_Unlock E)" "leaving (BcmConfigure E pin f output pull)"
  by (auto simp: BcmSnapshot_def BcmRestore_def BcmTrigger_def BcmReadPinctrl_def Bcm_Lock_def Bcm_Unlock_def BcmConfigure_def intro!: leaves_rules gpio_leaves)

lemma leaves_loops [gpio_leaves]: "leaving (Bcm_SaveResume E data pins)" "leaving (Bcm_RestoreAll A E saved pins result)"
    "leaving (Bcm_RestoreUntil A E saved forget pins)"
proof -
  show "leaving (Bcm_SaveResume E data pins)" by (induction pins) (auto intro!: leaves_rules gpio_leaves)
  show "leaving (Bcm_RestoreAll A E saved pins result)" by (induction pins arbitrary: result) (auto intro!: leaves_rules gpio_leaves)
  show "leaving (Bcm_RestoreUntil A E saved forget pins)" by (induction pins) (auto intro!: leaves_rules gpio_leaves)
qed

lemma leaves_power [gpio_leaves]: "leaving (BcmRelease E)" "leaving (BcmStart A E restore)" "leaving (BcmStop A E save)" "leaving (RestoreFree A E m)"
  by (auto simp: BcmRelease_def BcmStart_def BcmStop_def RestoreFree_def intro!: leaves_rules gpio_leaves)

lemma leaves_connect [gpio_leaves]: "leaving (BcmConnect E p)" "leaving (BcmDisconnect A E p)" "leaving (BcmConnectFunction E p)" "leaving (BcmDisconnectFunction A E p)"
    "leaving (BcmDisableInterrupt A E bank pin)" "leaving (BcmReconfigureInterrupt E p pin)"
  by (auto simp: BcmConnect_def BcmDisconnect_def BcmConnectFunction_def BcmDisconnectFunction_def BcmDisableInterrupt_def
      BcmReconfigureInterrupt_def intro!: leaves_rules gpio_leaves)

lemma leaves_EnableInterrupt [gpio_leaves]: "leaving (BcmEnableInterrupt E p pin)"
  using flag_not_data(1) [of BCM_STATUS pin]
  by (auto simp: BcmEnableInterrupt_def BcmMask_def intro!: leaves_rules gpio_leaves split: if_splits)

lemma leaves_requests [gpio_leaves]: "leaving (BcmReadPins A E bank)" "leaving (BcmWritePins A E bank s clear)" "leaving (BcmMaskInterrupts E bank m)"
    "leaving (BcmUnmaskInterrupt E bank pin)" "leaving (BcmQueryInterrupts E bank m)" "leaving (BcmQueryEnabled E bank)" "leaving (BcmClearInterrupts E bank m)"
    "leaving (BcmTelemetry A E)"
  by (auto simp: BcmReadPins_def BcmWritePins_def BcmMaskInterrupts_def BcmUnmaskInterrupt_def BcmQueryInterrupts_def BcmQueryEnabled_def
      BcmClearInterrupts_def BcmTelemetry_def intro!: leaves_rules gpio_leaves)

lemma leaves_step: "\<forall>rs. call \<noteq> GpPrepare rs \<Longrightarrow> leaving (gpio_step A F E call)"
  by (cases call) (auto simp: gpio_ignore_def intro!: leaves_rules gpio_leaves)

lemma leaves_session: "\<forall>call\<in>set calls. \<forall>rs. call \<noteq> GpPrepare rs \<Longrightarrow> leaving (gpio_session A F E calls)"
  unfolding gpio_session_def by (rule leaves.pres_forM, rule leaves_step) blast

section \<open>Connecting pins and giving them back\<close>

text \<open>Several pins in given states, all others as they were, and nothing of the context changed but what is touched.\<close>

definition pins_at :: "BCM_GPIO \<Rightarrow> (u32 \<Rightarrow> u32 \<Rightarrow> u32) \<Rightarrow> (nat \<Rightarrow> BCM_PIN_STATE option) \<Rightarrow> BCM_GPIO world \<Rightarrow> bool" where
  "pins_at c init V w \<longleftrightarrow> bcm_layout_ok c \<and> st w = c \<and> view c init w = V"

lemma pins_at_pin: "pins_at c init V w \<Longrightarrow> V pin = Some s \<Longrightarrow> pin_at c init V pin s w"
  by (auto simp: pins_at_def pin_at_def pins_view_def fun_eq_iff split: if_splits)

lemma pin_at_pins: "pin_at c init V pin s w \<Longrightarrow> pins_at c init (V(pin := Some s)) w"
  by (auto simp: pins_at_def pin_at_def)

lemma pins_at_touched: "pins_at c init V w \<Longrightarrow> pins_at (c\<lparr>bg_Touched := m\<rparr>) init V (w\<lparr>st := c\<lparr>bg_Touched := m\<rparr>\<rparr>)"
  by (simp add: pins_at_def bcm_layout_ok_def)

definition touch_all :: "nat list \<Rightarrow> u64 \<Rightarrow> u64" where
  "touch_all pins m = fold (\<lambda>pin m. m OR pin_mask pin) pins m"

definition untouch_all :: "nat list \<Rightarrow> u64 \<Rightarrow> u64" where
  "untouch_all pins m = fold (\<lambda>pin m. m AND NOT (pin_mask pin)) pins m"

definition update_pins :: "nat list \<Rightarrow> (nat \<Rightarrow> BCM_PIN_STATE \<Rightarrow> BCM_PIN_STATE) \<Rightarrow> (nat \<Rightarrow> BCM_PIN_STATE option) \<Rightarrow> nat \<Rightarrow> BCM_PIN_STATE option" where
  "update_pins pins f V pin = (if pin \<in> set pins then map_option (f pin) (V pin) else V pin)"

lemma configured_cong [simp]: "configured (c\<lparr>bg_Touched := m\<rparr>) = configured c"
  by (simp add: configured_def pull_value_def fun_eq_iff split: gpio_pull.split)

lemma restored_cong [simp]: "restored (c\<lparr>bg_Touched := m\<rparr>) = restored c"
  by (simp add: restored_def fun_eq_iff)

lemma update_pins_Cons:
  "pin \<notin> set pins \<Longrightarrow> V pin = Some s \<Longrightarrow> update_pins pins f (V(pin := Some (f pin s))) = update_pins (pin # pins) f V"
  by (auto simp: update_pins_def fun_eq_iff)

lemma wp_Configure_pins:
  assumes "env_read E = regs init"
  shows "pins_at c init V w \<Longrightarrow> distinct pins \<Longrightarrow> \<forall>pin\<in>set pins. V pin \<noteq> None \<Longrightarrow>
      (\<And>v. pins_at (c\<lparr>bg_Touched := touch_all pins (bg_Touched c)\<rparr>) init (update_pins pins (\<lambda>pin. configured c pin f output pull) V) v \<Longrightarrow> Q () v) \<Longrightarrow>
      wp (forM pins (\<lambda>pin. BcmConfigure E pin f output pull)) Q w"
proof (induction pins arbitrary: c V w)
  case Nil
  then show ?case by (simp add: wp_simps touch_all_def update_pins_def [abs_def])
next
  case (Cons pin pins)
  from Cons.prems(3) obtain s where s: "V pin = Some s" by auto
  let ?c = "c\<lparr>bg_Touched := bg_Touched c OR pin_mask pin\<rparr>"
  show ?case
    unfolding forM.simps
  proof (rule wp_bindI, rule wp_Configure [OF assms pins_at_pin [OF Cons.prems(1) s]], rule Cons.IH)
    fix v assume "pin_at c init V pin (configured c pin f output pull s) v"
    then show "pins_at ?c init (V(pin := Some (configured c pin f output pull s))) (v\<lparr>st := ?c\<rparr>)"
      by (rule pins_at_touched [OF pin_at_pins])
    fix u
    assume "pins_at (?c\<lparr>bg_Touched := touch_all pins (bg_Touched ?c)\<rparr>) init
        (update_pins pins (\<lambda>pin. configured ?c pin f output pull) (V(pin := Some (configured c pin f output pull s)))) u"
    then show "Q () u"
      using Cons.prems(2) update_pins_Cons [of pin pins V s "\<lambda>pin. configured c pin f output pull"] s
      by (intro Cons.prems(4)) (simp add: touch_all_def)
  qed (use Cons.prems in auto)
qed

lemma wp_RestoreUntil_pins:
  assumes "env_read E = regs init"
  shows "pins_at c init V w \<Longrightarrow> bg_Uid c = 0 \<Longrightarrow> distinct pins \<Longrightarrow> \<forall>pin\<in>set pins. V pin \<noteq> None \<Longrightarrow>
      (\<And>v. pins_at (c\<lparr>bg_Touched := untouch_all pins (bg_Touched c)\<rparr>) init (update_pins pins (\<lambda>pin. restored c pin (saved pin)) V) v \<Longrightarrow> Q STATUS_SUCCESS v) \<Longrightarrow>
      wp (Bcm_RestoreUntil A E saved True pins) Q w"
proof (induction pins arbitrary: c V w)
  case Nil
  then show ?case by (simp add: wp_simps untouch_all_def update_pins_def [abs_def])
next
  case (Cons pin pins)
  from Cons.prems(4) obtain s where s: "V pin = Some s" by auto
  let ?c = "c\<lparr>bg_Touched := bg_Touched c AND NOT (pin_mask pin)\<rparr>"
  show ?case
    unfolding Bcm_RestoreUntil.simps
  proof (rule wp_bindI, rule wp_BcmRestore [OF assms pins_at_pin [OF Cons.prems(1) s]])
    fix v assume v: "pin_at c init V pin (restored c pin (saved pin) s) v"
    then have st: "st v = c" by (simp add: pin_at_def)
    have "wp (Bcm_RestoreUntil A E saved True pins) Q (v\<lparr>st := ?c\<rparr>)"
    proof (rule Cons.IH [OF pins_at_touched [OF pin_at_pins [OF v]]])
      fix u
      assume "pins_at (?c\<lparr>bg_Touched := untouch_all pins (bg_Touched ?c)\<rparr>) init
          (update_pins pins (\<lambda>pin. restored ?c pin (saved pin)) (V(pin := Some (restored c pin (saved pin) s)))) u"
      then show "Q STATUS_SUCCESS u"
        using Cons.prems(3) update_pins_Cons [of pin pins V s "\<lambda>pin. restored c pin (saved pin)"] s
        by (intro Cons.prems(5)) (simp add: untouch_all_def)
    qed (use Cons.prems in auto)
    then show "wp (if \<not> NT_SUCCESS STATUS_SUCCESS then ret STATUS_SUCCESS
       else do { whenM True (modify (\<lambda>c. c\<lparr>bg_Touched := bg_Touched c AND NOT (pin_mask pin)\<rparr>)); Bcm_RestoreUntil A E saved True pins }) Q v"
      by (simp add: wp_simps st)
  qed (use Cons.prems in simp)
qed

lemma bit_touch_all: "\<forall>pin\<in>set pins. pin < 64 \<Longrightarrow> bit (touch_all pins m) n \<longleftrightarrow> bit m n \<or> n \<in> set pins"
  by (induction pins arbitrary: m) (auto simp: touch_all_def bit_or_iff)

lemma bit_untouch_all: "\<forall>pin\<in>set pins. pin < 64 \<Longrightarrow> bit (untouch_all pins m) n \<longleftrightarrow> bit m n \<and> n \<notin> set pins"
  by (induction pins arbitrary: m) (auto simp: untouch_all_def bit_and_iff bit_not_iff dest: bit_u64)

lemma untouch_touch:
  assumes "\<forall>pin\<in>set pins. pin < 64 \<and> \<not> bit m pin"
  shows "untouch_all pins (touch_all pins m) = m"
  using assms by (intro bit_word_eqI) (auto simp: bit_touch_all bit_untouch_all)


lemma pins_at_st: "pins_at c init V w \<Longrightarrow> st w = c"
  by (simp add: pins_at_def)

lemma pins_at_owner:
  assumes "pins_at c init V w"
  shows "pins_at (c\<lparr>bg_IoOwned := io, bg_OutputOwned := out\<rparr>) init V (w\<lparr>st := c\<lparr>bg_IoOwned := io, bg_OutputOwned := out\<rparr>\<rparr>)"
proof -
  have "pins_view (c\<lparr>bg_IoOwned := io, bg_OutputOwned := out\<rparr>) = pins_view c"
    by (simp add: pins_view_def pin_state_def pin_mux_def pin_pull_def pin_fields_def fun_eq_iff)
  with assms show ?thesis by (simp add: pins_at_def bcm_layout_ok_def)
qed

lemma wp_locks:
  assumes "pins_at c init V w" "\<And>v. pins_at c init V v \<Longrightarrow> Q () v"
  shows "wp (Bcm_Lock E) Q w" "wp (Bcm_Unlock E) Q w"
  using assms by (auto simp: Bcm_Lock_def Bcm_Unlock_def wp_simps pins_at_def)

lemma take_out:
  fixes m x :: u64
  assumes "\<And>n. bit m n \<Longrightarrow> \<not> bit x n"
  shows "(x OR m) AND NOT m = x" "x AND NOT m = x" "m AND NOT x = m"
  using assms by (auto intro!: bit_word_eqI simp: bit_and_iff bit_or_iff bit_not_iff)

definition connected :: "BCM_GPIO \<Rightarrow> u64 \<Rightarrow> bool \<Rightarrow> BCM_GPIO" where
  "connected c m output = c\<lparr>bg_Touched := touch_all (pins_of m) (bg_Touched c), bg_IoOwned := bg_IoOwned c OR m,
     bg_OutputOwned := (if output then bg_OutputOwned c OR m else bg_OutputOwned c)\<rparr>"

text \<open>A request that asks for nothing the controller cannot do, for pins that are free.\<close>

definition connectable :: "BCM_GPIO \<Rightarrow> connect_request \<Rightarrow> u64 \<Rightarrow> bool" where
  "connectable c p m \<longleftrightarrow> BcmMask c (cr_Bank p) (cr_Pins p) = Some m \<and> cr_Output p \<noteq> None \<and> cr_DriveStrength p = 0 \<and> cr_VendorDataLength p = 0 \<and>
     CanClaim c m 0 (cr_Pull p) = STATUS_SUCCESS \<and> m AND bg_Touched c = 0"

lemma connectable_free:
  assumes "owners_ok c" "connectable c p m"
  shows "BcmMask c (cr_Bank p) (cr_Pins p) = Some m" "m AND (bg_IoOwned c OR bg_FunctionOwned c) = 0" "m AND bg_IrqOwned c = 0"
    "bit m n \<Longrightarrow> \<not> bit (bg_IoOwned c) n \<and> \<not> bit (bg_OutputOwned c) n \<and> \<not> bit (bg_IrqOwned c) n \<and> \<not> bit (bg_FunctionOwned c) n \<and> \<not> bit (bg_Touched c) n"
proof -
  show no: "\<not> bit (bg_IoOwned c) n \<and> \<not> bit (bg_OutputOwned c) n \<and> \<not> bit (bg_IrqOwned c) n \<and> \<not> bit (bg_FunctionOwned c) n \<and> \<not> bit (bg_Touched c) n"
    if "bit m n" for n
    using assms that by (auto simp: connectable_def and_zero owners_ok_def pin_owner_ok_def)
  show "m AND (bg_IoOwned c OR bg_FunctionOwned c) = 0" "m AND bg_IrqOwned c = 0"
    using no by (auto simp: and_zero bit_or_iff)
qed (use assms in \<open>simp add: connectable_def\<close>)

lemma wp_Connect_pins:
  assumes E: "env_read E = regs init" and w: "pins_at c init V w" and own: "owners_ok c" and p: "connectable c p m"
    and V: "\<And>pin. bit m pin \<Longrightarrow> V pin \<noteq> None"
    and Q: "\<And>v. pins_at (connected c m (cr_Output p = Some True)) init
      (update_pins (pins_of m) (\<lambda>pin. configured c pin 0 (cr_Output p = Some True) (cr_Pull p)) V) v \<Longrightarrow> Q STATUS_SUCCESS v"
  shows "wp (BcmConnect E p) Q w"
  unfolding BcmConnect_def
proof (rule wp_bindI, rule wp_getsI, simp only: id_apply pins_at_st [OF w] connectable_free(1) [OF own p] option.case Let_def, rule wp_ifI)
  let ?o = "cr_Output p = Some True"
  have c: "CanClaim c m 0 (cr_Pull p) = STATUS_SUCCESS" and guard: "\<not> (cr_Output p = None \<or> cr_DriveStrength p \<noteq> 0 \<or> cr_VendorDataLength p \<noteq> 0)"
    and free: "\<not> (m AND (bg_IoOwned c OR bg_FunctionOwned c) \<noteq> 0 \<or> ?o \<and> m AND bg_IrqOwned c \<noteq> 0)"
    using p connectable_free(2,3) [OF own p] by (auto simp: connectable_def)
  show "wp (ret STATUS_NOT_SUPPORTED) Q w" if "cr_Output p = None \<or> cr_DriveStrength p \<noteq> 0 \<or> cr_VendorDataLength p \<noteq> 0"
    using guard that by blast
  show "wp (if \<not> NT_SUCCESS (CanClaim c m 0 (cr_Pull p)) then ret (CanClaim c m 0 (cr_Pull p))
     else do {
       Bcm_Lock E;
       status \<leftarrow> (if m AND (bg_IoOwned c OR bg_FunctionOwned c) \<noteq> 0 \<or> ?o \<and> m AND bg_IrqOwned c \<noteq> 0
         then ret STATUS_SHARING_VIOLATION
         else do {
           forM (pins_of m) (\<lambda>pin. BcmConfigure E pin 0 ?o (cr_Pull p));
           modify (\<lambda>c. c\<lparr>bg_IoOwned := bg_IoOwned c OR m, bg_OutputOwned := (if ?o then bg_OutputOwned c OR m else bg_OutputOwned c)\<rparr>);
           ret STATUS_SUCCESS
         });
       Bcm_Unlock E;
       ret status
     }) Q w"
  proof (simp only: c if_not_P [OF free] NT_SUCCESS_codes not_True_eq_False if_False, rule wp_bindI, rule wp_locks [OF w], rule wp_bindI)
    fix v assume v: "pins_at c init V v"
    show "wp (do { forM (pins_of m) (\<lambda>pin. BcmConfigure E pin 0 ?o (cr_Pull p));
      modify (\<lambda>c. c\<lparr>bg_IoOwned := bg_IoOwned c OR m, bg_OutputOwned := (if ?o then bg_OutputOwned c OR m else bg_OutputOwned c)\<rparr>);
      ret STATUS_SUCCESS }) (\<lambda>r. wp (do { Bcm_Unlock E; ret r }) Q) v"
    proof (rule wp_bindI, rule wp_Configure_pins [OF E v], simp, use V in simp, rule wp_bindI, rule wp_modifyI, rule wp_returnI, rule wp_bindI)
      fix u assume u: "pins_at (c\<lparr>bg_Touched := touch_all (pins_of m) (bg_Touched c)\<rparr>) init (update_pins (pins_of m) (\<lambda>pin. configured c pin 0 ?o (cr_Pull p)) V) u"
      let ?u = "u\<lparr>st := (st u)\<lparr>bg_IoOwned := bg_IoOwned (st u) OR m, bg_OutputOwned := (if ?o then bg_OutputOwned (st u) OR m else bg_OutputOwned (st u))\<rparr>\<rparr>"
      have "pins_at (connected c m ?o) init (update_pins (pins_of m) (\<lambda>pin. configured c pin 0 ?o (cr_Pull p)) V) ?u"
        using pins_at_owner [OF u, where io = "bg_IoOwned c OR m" and out = "if ?o then bg_OutputOwned c OR m else bg_OutputOwned c"]
        by (simp add: pins_at_st [OF u] connected_def split: if_splits)
      then show "wp (Bcm_Unlock E) (\<lambda>_. wp (ret STATUS_SUCCESS) Q) ?u"
        by (rule wp_locks) (simp add: wp_simps Q)
    qed
  qed
qed

lemma wp_Disconnect_pins:
  assumes E: "env_read E = regs init" and w: "pins_at (connected c m out) init V w" and m: "BcmMask c (cr_Bank p) (cr_Pins p) = Some m"
    and uid: "bg_Uid c = 0" and V: "\<And>pin. bit m pin \<Longrightarrow> V pin \<noteq> None" and keep: "\<not> cr_Preserve p"
    and no: "\<And>n. bit m n \<Longrightarrow> \<not> bit (bg_IoOwned c) n \<and> \<not> bit (bg_OutputOwned c) n \<and> \<not> bit (bg_IrqOwned c) n \<and> \<not> bit (bg_FunctionOwned c) n \<and> \<not> bit (bg_Touched c) n"
    and Q: "\<And>v. pins_at c init (update_pins (pins_of m) (\<lambda>pin. restored c pin (bg_Boot c pin)) V) v \<Longrightarrow> Q STATUS_SUCCESS v"
  shows "wp (BcmDisconnect A E p) Q w"
proof -
  have M: "BcmMask (connected c m out) (cr_Bank p) (cr_Pins p) = Some m" using m by (simp add: BcmMask_def connected_def split: if_splits)
  let ?t = "c\<lparr>bg_Touched := touch_all (pins_of m) (bg_Touched c)\<rparr>"
  have drop: "(connected c m out)\<lparr>bg_IoOwned := bg_IoOwned (connected c m out) AND NOT m, bg_OutputOwned := bg_OutputOwned (connected c m out) AND NOT m\<rparr> = ?t"
    using no take_out [of m "bg_IoOwned c"] take_out [of m "bg_OutputOwned c"] by (simp add: connected_def)
  have rest: "m AND NOT (bg_IoOwned ?t OR bg_IrqOwned ?t OR bg_FunctionOwned ?t) = m"
    by (rule take_out(3)) (use no in \<open>simp add: bit_or_iff\<close>)
  have again: "?t\<lparr>bg_Touched := untouch_all (pins_of m) (bg_Touched ?t)\<rparr> = c"
    using untouch_touch [of "pins_of m" "bg_Touched c"] no by simp
  show ?thesis
    unfolding BcmDisconnect_def
  proof (rule wp_bindI, rule wp_getsI, simp only: id_apply pins_at_st [OF w] M option.case keep if_False, rule wp_bindI, rule wp_locks [OF w],
      rule wp_bindI, rule wp_modifyI, rule wp_bindI)
    fix v assume v: "pins_at (connected c m out) init V v"
    let ?v = "v\<lparr>st := (st v)\<lparr>bg_IoOwned := bg_IoOwned (st v) AND NOT m, bg_OutputOwned := bg_OutputOwned (st v) AND NOT m\<rparr>\<rparr>"
    from pins_at_owner [OF v, where io = "bg_IoOwned (connected c m out) AND NOT m" and out = "bg_OutputOwned (connected c m out) AND NOT m"]
    have V: "pins_at ?t init V ?v" unfolding drop by (simp add: pins_at_st [OF v] drop)
    show "wp (RestoreFree A E m) (\<lambda>status. wp (do { Bcm_Unlock E; ret status }) Q) ?v"
      unfolding RestoreFree_def
    proof (rule wp_bindI, rule wp_getsI, simp only: id_apply Let_def pins_at_st [OF V] rest, rule wp_RestoreUntil_pins [OF E V])
      fix u assume "pins_at (?t\<lparr>bg_Touched := untouch_all (pins_of m) (bg_Touched ?t)\<rparr>) init (update_pins (pins_of m) (\<lambda>pin. restored ?t pin (bg_Boot ?t pin)) V) u"
      then have u: "pins_at c init (update_pins (pins_of m) (\<lambda>pin. restored c pin (bg_Boot c pin)) V) u" unfolding again by simp
      show "wp (do { Bcm_Unlock E; ret STATUS_SUCCESS }) Q u"
        by (rule wp_bindI, rule wp_locks [OF u], rule wp_returnI, erule Q)
    qed (use uid assms(5) in simp_all)
  qed
qed

lemma connected_and_back:
  assumes E: "env_read E = regs init" and w: "pins_at c init V w" and uid: "bg_Uid c = 0" and own: "owners_ok c" and p: "connectable c p m"
    and V: "\<And>pin. bit m pin \<Longrightarrow> V pin = Some (bg_Boot c pin)" and keep: "\<not> cr_Preserve p"
  shows "wp (do { a \<leftarrow> BcmConnect E p; b \<leftarrow> BcmDisconnect A E p; ret (a, b) })
     (\<lambda>(a, b) v. a = STATUS_SUCCESS \<and> b = STATUS_SUCCESS \<and> pins_at c init V v) w"
proof (rule wp_bindI, rule wp_Connect_pins [OF E w own p])
  let ?f = "\<lambda>pin. configured c pin 0 (cr_Output p = Some True) (cr_Pull p)"
  show "V pin \<noteq> None" if "bit m pin" for pin using V [OF that] by simp
  fix v assume v: "pins_at (connected c m (cr_Output p = Some True)) init (update_pins (pins_of m) ?f V) v"
  have view: "V = pins_view c (regs init (trace w))" using w by (simp add: pins_at_def)
  have again: "update_pins (pins_of m) (\<lambda>pin. restored c pin (bg_Boot c pin)) (update_pins (pins_of m) ?f V) = V"
    using V snapshot_restored [of c "regs init (trace w)"] by (auto simp: update_pins_def fun_eq_iff view)
  show "wp (do { b \<leftarrow> BcmDisconnect A E p; ret (STATUS_SUCCESS, b) }) (\<lambda>(a, b) v. a = STATUS_SUCCESS \<and> b = STATUS_SUCCESS \<and> pins_at c init V v) v"
  proof (rule wp_bindI, rule wp_Disconnect_pins [OF E v connectable_free(1) [OF own p] uid _ keep connectable_free(4) [OF own p]])
    show "update_pins (pins_of m) ?f V pin \<noteq> None" if "bit m pin" for pin using V [OF that] by (auto simp: update_pins_def)
  qed (simp_all add: wp_simps again)
qed

section \<open>A supply that is driven stays driven\<close>

definition keeps_driven :: "nat \<Rightarrow> io_event \<Rightarrow> bool" where
  "keeps_driven pin e \<longleftrightarrow> (\<forall>v. e = Wr GIO (pin_bank pin + BCM_DIR) v \<longrightarrow> \<not> bit v (pin mod 32))"

lemma keeps_driven_simps [simp]: "keeps_driven pin (Rd u off v)" "keeps_driven pin (Wr PINCTRL off v)" "keeps_driven pin (Call f xs r)"
  by (simp_all add: keeps_driven_def)

lemma driven_fields: "preserves (trace_ext (keeps_driven pin)) (BcmFieldRead E position m)" "preserves (trace_ext (keeps_driven pin)) (BcmFieldWrite E position m v)"
    "preserves (trace_ext (keeps_driven pin)) (pin_hold E f q wanted)"
  by (auto simp: BcmFieldRead_def BcmFieldWrite_def pin_hold_def pin_flag_def BcmRead_def BcmWrite_def intro!: ext_intros)

lemma driven_update:
  assumes "pin < 64" "off \<in> flag_offsets" "off = BCM_DIR \<longrightarrow> \<not> b"
  shows "preserves (trace_ext (keeps_driven pin)) (BcmUpdate E off (pin_mask pin) (flag_mask pin b))"
  unfolding BcmUpdate_pin [OF assms(1)] using assms(2,3) pin_address [OF assms(1) assms(1) assms(2), of BCM_DIR]
  by (auto simp: keeps_driven_def bit_and_iff bit_not_iff bit_pin intro!: ext_intros)

lemma Configure_driven:
  assumes E: "env_read E = regs init" and w: "pin_at c init V pin s w" and s: "ps_Mux s = 0" "\<not> ps_Input s"
  shows "wp (BcmConfigure E pin 0 True pull) (\<lambda>_ v. trace_ext (keeps_driven pin) w v) w"
proof -
  have pin: "pin < 64" using w valid_fields(1) by (auto simp: pin_at_def)
  have c: "st w = c" using w by (simp add: pin_at_def)
  have rest: "preserves (trace_ext (keeps_driven pin)) (do {
     whenM (\<not> True) (BcmUpdate E BCM_DIR (pin_mask pin) (flag_mask pin True));
     BcmFieldWrite E (pf_MuxBit f) 15 0;
     whenM (pf_PullBit f \<noteq> NO_PULL) (BcmFieldWrite E (pf_PullBit f) 3 (pull_value c pin pull));
     BcmUpdate E BCM_ODEN (pin_mask pin) (flag_mask pin False);
     whenM True (BcmUpdate E BCM_DIR (pin_mask pin) (flag_mask pin False));
     modify (\<lambda>c. c\<lparr>bg_Touched := bg_Touched c OR pin_mask pin\<rparr>)
   })" for f
    by (auto intro!: ext_intros driven_fields driven_update [OF pin])
  show ?thesis
    unfolding BcmConfigure_flags
  proof (rule wp_bindI, rule wp_getsI, simp only: id_apply Let_def c, rule wp_bindI,
      rule wp_frame [where R = "trace_ext (keeps_driven pin)", OF driven_fields(3)], rule pin_at_steps(4) [OF w E], rule impI)
    fix v assume v: "trace_ext (keeps_driven pin) w v"
    have h: "((True \<and> (0 :: u32) = 0) \<and> ps_Mux s = 0 \<and> \<not> ps_Input s) = True" using s by simp
    show "wp (do { whenM (\<not> ((True \<and> (0 :: u32) = 0) \<and> ps_Mux s = 0 \<and> \<not> ps_Input s)) (BcmUpdate E BCM_DIR (pin_mask pin) (flag_mask pin True));
     BcmFieldWrite E (pf_MuxBit (pin_fields c pin)) 15 0;
     whenM (pf_PullBit (pin_fields c pin) \<noteq> NO_PULL) (BcmFieldWrite E (pf_PullBit (pin_fields c pin)) 3 (pull_value c pin pull));
     BcmUpdate E BCM_ODEN (pin_mask pin) (flag_mask pin False);
     whenM True (BcmUpdate E BCM_DIR (pin_mask pin) (flag_mask pin False));
     modify (\<lambda>c. c\<lparr>bg_Touched := bg_Touched c OR pin_mask pin\<rparr>) }) (\<lambda>_ v. trace_ext (keeps_driven pin) w v) v"
      unfolding h using rest [unfolded preserves_wp, rule_format]
      by (rule wp_mono) (rule ext.frame_trans [OF v])
  qed
qed

section \<open>Properties\<close>

text \<open>C33. Configuring a pin changes this pin alone. On registers that keep what is written, the pin
  afterwards has the requested function, pull and direction, no open drain, and its other settings as
  before, and every other pin of the controller reads as before, although all of them share registers.
  An output that already drives its line is never switched to an input in between.
\<close>

theorem gpio_configure_isolated:
  assumes "env_read E = regs init" "bcm_layout_ok (st w)" "bit (bg_Valid (st w)) pin"
  shows "case run_state (BcmConfigure E pin function' output pull) w of (r, v) \<Rightarrow>
     view (st w) init v = (view (st w) init w)(pin := map_option (configured (st w) pin function' output pull) (view (st w) init w pin)) \<and>
     (function' = 0 \<and> output \<and> pin_mux (st w) (regs init (trace w)) pin = 0 \<and> \<not> pin_on (regs init (trace w)) BCM_DIR pin \<longrightarrow>
      trace_ext (keeps_driven pin) w v)"
proof -
  define s where "s = pin_state (st w) (regs init (trace w)) pin"
  have s: "view (st w) init w pin = Some s" using assms(3) by (simp add: pins_view_def s_def)
  note at = pin_atI [OF assms(2,3) s]
  have "wp (BcmConfigure E pin function' output pull) (\<lambda>r v. view (st w) init v =
      (view (st w) init w)(pin := map_option (configured (st w) pin function' output pull) (view (st w) init w pin))) w"
    by (rule wp_Configure [OF assms(1) at]) (simp add: pin_at_def s)
  moreover have "wp (BcmConfigure E pin 0 True pull) (\<lambda>r v. trace_ext (keeps_driven pin) w v) w"
    if "pin_mux (st w) (regs init (trace w)) pin = 0" "\<not> pin_on (regs init (trace w)) BCM_DIR pin"
    by (rule Configure_driven [OF assms(1) at]) (use that in \<open>simp_all add: s_def pin_state_def\<close>)
  ultimately show ?thesis
    by (cases "function' = 0"; cases "output") (auto simp: wp_def split: prod.splits)
qed

definition gpio_zero :: BCM_GPIO where
  "gpio_zero = \<lparr>bg_Timer = 0, bg_Key = 0, bg_Gio = 0, bg_Pinctrl = 0, bg_L2 = 0, bg_PinctrlLength = 0, bg_Revision = 0, bg_Uid = 0,
     bg_Valid = 0, bg_IoOwned = 0, bg_OutputOwned = 0, bg_IrqOwned = 0, bg_FunctionOwned = 0, bg_Touched = 0, bg_ResumeMask = 0,
     bg_Boot = (\<lambda>_. \<lparr>ps_Mux = 0, ps_Pull = 0, ps_Data = False, ps_Input = False, ps_OpenDrain = False, ps_Edge = False, ps_Both = False, ps_Level = False\<rparr>),
     bg_Resume = (\<lambda>_. \<lparr>ps_Mux = 0, ps_Pull = 0, ps_Data = False, ps_Input = False, ps_OpenDrain = False, ps_Edge = False, ps_Both = False, ps_Level = False\<rparr>),
     bg_InterruptObservations = 0, bg_ButtonObservations = 0, bg_Started = False, bg_L2WasMasked = False\<rparr>"

text \<open>The main controller of the first revision, started, with all registers zero, for the examples.\<close>

definition gpio_example :: "BCM_GPIO world" where
  "gpio_example = \<lparr>st = gpio_zero\<lparr>bg_Valid := BcmValidPins 0 0, bg_Started := True\<rparr>, trace = []\<rparr>"

lemma gpio_example_ok:
  "bcm_layout_ok (st gpio_example)" "bit (bg_Valid (st gpio_example)) 5" "owners_ok (st gpio_example)"
  by (simp_all add: gpio_example_def gpio_zero_def bcm_layout_ok_def bit_BcmValidPins BcmPinFields_def owners_ok_def pin_owner_ok_def)

lemma gpio_configure_isolated_witness:
  "case run_state (BcmConfigure (regfile (\<lambda>_ _. 0) (\<lambda>_ _. 0)) 5 0 True PullUp) gpio_example of (r, v) \<Rightarrow>
     view (st gpio_example) (\<lambda>_ _. 0) v = (view (st gpio_example) (\<lambda>_ _. 0) gpio_example)(5 := map_option (configured (st gpio_example) 5 0 True PullUp)
       (view (st gpio_example) (\<lambda>_ _. 0) gpio_example 5)) \<and>
     ((0 :: u32) = 0 \<and> True \<and> pin_mux (st gpio_example) (regs (\<lambda>_ _. 0) (trace gpio_example)) 5 = 0 \<and>
        \<not> pin_on (regs (\<lambda>_ _. 0) (trace gpio_example)) BCM_DIR 5 \<longrightarrow> trace_ext (keeps_driven 5) gpio_example v)"
  by (rule gpio_configure_isolated) (simp_all add: gpio_example_ok)

text \<open>C34. On the main controller, connecting free pins that are in the state the firmware left them in,
  and disconnecting them, succeeds and leaves the context and every pin as they were, registers that
  keep what is written provided.
\<close>

theorem gpio_connect_roundtrip:
  assumes "env_read E = regs init" "bcm_layout_ok (st w)" "bg_Uid (st w) = 0" "owners_ok (st w)" "connectable (st w) p m"
    and "\<forall>pin. bit m pin \<longrightarrow> view (st w) init w pin = Some (bg_Boot (st w) pin)" "\<not> cr_Preserve p"
  shows "case run_state (do { a \<leftarrow> BcmConnect E p; b \<leftarrow> BcmDisconnect A E p; ret (a, b) }) w of ((a, b), v) \<Rightarrow>
     a = STATUS_SUCCESS \<and> b = STATUS_SUCCESS \<and> st v = st w \<and> view (st w) init v = view (st w) init w"
proof -
  have "pins_at (st w) init (view (st w) init w) w" using assms(2) by (simp add: pins_at_def)
  from connected_and_back [OF assms(1) this assms(3-5) _ assms(7), of A] assms(6)
  have "wp (do { a \<leftarrow> BcmConnect E p; b \<leftarrow> BcmDisconnect A E p; ret (a, b) }) (\<lambda>(a, b) v. a = STATUS_SUCCESS \<and> b = STATUS_SUCCESS \<and>
      pins_at (st w) init (view (st w) init w) v) w"
    by simp
  then show ?thesis by (auto simp: wp_def pins_at_def split: prod.splits)
qed

definition gpio_request :: connect_request where
  "gpio_request = \<lparr>cr_Bank = 0, cr_Pins = [5, 40], cr_Pull = PullUp, cr_VendorDataLength = 0, cr_DriveStrength = 0, cr_Output = Some True,
     cr_Function = 0, cr_Preserve = False, cr_Mode = Latched, cr_Polarity = InterruptActiveBoth\<rparr>"

lemma gpio_request_mask: "BcmMask (st gpio_example) 0 [5, 40] = Some 0x10000000020"
proof -
  have "bg_Valid (st gpio_example) AND pin_mask 5 \<noteq> 0" "bg_Valid (st gpio_example) AND pin_mask 40 \<noteq> 0"
    by (simp_all only: and_pin_mask) (simp_all add: gpio_example_def bit_BcmValidPins BcmPinFields_def)
  then show ?thesis by (simp add: BcmMask_def push_bit_of_1)
qed

lemma gpio_request_pins: "pins_of 0x10000000020 = [5, 40]"
  by code_simp

lemma gpio_request_connectable: "connectable (st gpio_example) gpio_request 0x10000000020"
proof -
  have "pf_PullBit (pin_fields (st gpio_example) 5) \<noteq> NO_PULL" "pf_PullBit (pin_fields (st gpio_example) 40) \<noteq> NO_PULL"
    by (simp_all add: gpio_example_def gpio_zero_def pin_fields_def BcmPinFields_def pull_bit_def)
  then show ?thesis
    using gpio_request_mask by (simp add: connectable_def gpio_request_def CanClaim_def gpio_request_pins) (simp add: gpio_example_def gpio_zero_def)
qed

lemma gpio_connect_roundtrip_witness:
  "case run_state (do { a \<leftarrow> BcmConnect (regfile (\<lambda>_ _. 0) (\<lambda>_ _. 0)) gpio_request;
      b \<leftarrow> BcmDisconnect \<lparr>al_Size = 20, al_Signature = 0, al_Integer = 0\<rparr> (regfile (\<lambda>_ _. 0) (\<lambda>_ _. 0)) gpio_request; ret (a, b) }) gpio_example of ((a, b), v) \<Rightarrow>
     a = STATUS_SUCCESS \<and> b = STATUS_SUCCESS \<and> st v = st gpio_example \<and>
     view (st gpio_example) (\<lambda>_ _. 0) v = view (st gpio_example) (\<lambda>_ _. 0) gpio_example"
proof (rule gpio_connect_roundtrip)
  show "connectable (st gpio_example) gpio_request 0x10000000020" by (rule gpio_request_connectable)
  show "\<forall>pin. bit (0x10000000020 :: u64) pin \<longrightarrow> view (st gpio_example) (\<lambda>_ _. 0) gpio_example pin = Some (bg_Boot (st gpio_example) pin)"
  proof (intro allI impI)
    fix pin :: nat assume "bit (0x10000000020 :: u64) pin"
    then have "bit (bg_Valid (st gpio_example)) pin" by (rule BcmMask_bits(2) [OF gpio_request_mask])
    then show "view (st gpio_example) (\<lambda>_ _. 0) gpio_example pin = Some (bg_Boot (st gpio_example) pin)"
      by (simp add: pins_view_def) (simp add: gpio_example_def gpio_zero_def pin_state_def pin_mux_def pin_pull_def pin_on_def field_of_def)
  qed
qed (simp_all add: gpio_example_ok gpio_request_def, simp add: gpio_example_def gpio_zero_def)

text \<open>C32. No pin ever has two owners. After any sequence of calls from a zeroed context, on any hardware, a pin
  that is connected for a function is connected neither as data pin nor as interrupt, an output is not
  an interrupt source, and the driver remembers every owned pin as one that it has to restore.
\<close>

theorem gpio_owners:
  "case run_state (gpio_session A F E calls) \<lparr>st = gpio_zero, trace = []\<rparr> of (r, v) \<Rightarrow> owners_ok (st v)"
proof -
  have "owners_ok (st w) \<Longrightarrow> wp (gpio_session A F E calls) (\<lambda>_ v. owners_ok (st v)) w" for w
    unfolding gpio_session_def
    by (induction calls arbitrary: w) (simp add: wp_simps, simp only: forM.simps, rule wp_owners_then, erule owners_step, simp)
  moreover have "owners_ok gpio_zero" by (simp add: gpio_zero_def owners_ok_def pin_owner_ok_def)
  ultimately show ?thesis by (auto simp: wp_def split: prod.splits)
qed

text \<open>C35. On the always-on controller the driver never writes the data register that belongs to the
  firmware: whatever the hardware and the firmware answer, no sequence of calls after the preparation
  writes it, data pins of this bank being written through the firmware's method alone.
\<close>

theorem gpio_firmware_data:
  assumes "bg_Uid (st w) \<noteq> 0" "\<forall>call\<in>set calls. \<forall>rs. call \<noteq> GpPrepare rs"
  shows "case run_state (gpio_session A F E calls) w of (r, v) \<Rightarrow> extends (\<lambda>e. \<forall>x. e \<noteq> Wr GIO BCM_DATA x) (trace w) (trace v)"
  using leaves_session [OF assms(2), of A F E] assms(1)
  by (auto simp: preserves_def leaves_data_def trace_ext_def not_firmware_data_def [abs_def] split: prod.splits dest!: spec [of _ w])

lemma gpio_firmware_data_witness:
  "case run_state (gpio_session \<lparr>al_Size = 20, al_Signature = 0, al_Integer = 0\<rparr> 0 (regfile (\<lambda>_ _. 0) (\<lambda>_ _. 0)) [GpConnect gpio_request, GpWritePins 0 0x20 0])
     \<lparr>st = gpio_zero\<lparr>bg_Uid := 1, bg_Valid := BcmValidPins 0 1, bg_Started := True\<rparr>, trace = []\<rparr> of (r, v) \<Rightarrow>
     extends (\<lambda>e. \<forall>x. e \<noteq> Wr GIO BCM_DATA x) (trace \<lparr>st = gpio_zero\<lparr>bg_Uid := 1, bg_Valid := BcmValidPins 0 1, bg_Started := True\<rparr>, trace = []\<rparr>) (trace v)"
  by (rule gpio_firmware_data) (simp_all add: gpio_zero_def)

end
