(* ===== verification/Rp1_Service.thy ===== *)
theory Rp1_Service
  imports Kernel
begin

text \<open>
  The interrupt service of the RP1 (\<open>rp1-service/driver.c\<close>) and its interface \<open>common/rp1-service.h\<close>: one driver
  owns the router of the chip's interrupts, and the other drivers lease sources from it, each through
  a file it keeps open. The service's lock is held in every callback, so a callback is one step.
\<close>

unbundle bit_operations_syntax
declare push_bit_of_1 [simp del]


section \<open>The interrupt router\<close>

abbreviation ROUTE_ENABLE :: u32 where "ROUTE_ENABLE \<equiv> 1"
abbreviation ROUTE_IACK_ENABLE :: u32 where "ROUTE_IACK_ENABLE \<equiv> 8"

definition CFG :: "nat \<Rightarrow> u32" where
  "CFG n = 8 + 4 * of_nat n"

record RP1_CONTEXT =
  rc_Registers :: ptr
  rc_Owned :: u64
  rc_Online :: bool
  rc_File :: "ptr \<Rightarrow> u64"      \<comment> \<open>what each file owns\<close>

definition Rp1_ReadConfig :: "env \<Rightarrow> nat \<Rightarrow> ('s, u32) prog" where
  "Rp1_ReadConfig E source = io_read E 0 (CFG source)"

text \<open>The router has one address for setting the bits of a register and one for clearing them.\<close>

definition Rp1_Enable :: "env \<Rightarrow> bool \<Rightarrow> nat \<Rightarrow> ('s, unit) prog" where
  "Rp1_Enable E enable source = do {
     io_write 0 ((if enable then 0x800 else 0xc00) + CFG source) ROUTE_ENABLE;
     v \<leftarrow> Rp1_ReadConfig E source;
     ret ()
   }"

definition Rp1_Allowed :: "nat \<Rightarrow> bool" where
  "Rp1_Allowed source \<longleftrightarrow> source \<le> 2 \<or> source = 6 \<or> (source \<ge> 7 \<and> source \<le> 13) \<or> (source \<ge> 19 \<and> source \<le> 25 \<and> source \<noteq> 23) \<or>
     source = 40 \<or> (source \<ge> 42 \<and> source \<le> 46) \<or> source = 54 \<or> source = 56"

section \<open>The device\<close>

text \<open>The first memory block, and the numbers of memory blocks and interrupts. An interrupt comes with its being shared.\<close>

fun rp1_resources :: "u32 \<Rightarrow> (cm_resource \<times> bool) list \<Rightarrow> (u64 \<times> u32) option \<Rightarrow> nat \<Rightarrow> nat \<Rightarrow> ((u64 \<times> u32) option \<times> nat \<times> nat) option" where
  "rp1_resources forbidden [] reg memories interrupts = Some (reg, memories, interrupts)"
| "rp1_resources forbidden ((CmMemory start bytes, shared) # rs) reg memories interrupts =
     rp1_resources forbidden rs (if memories = 0 then Some (start, bytes) else reg) (memories + 1) interrupts"
| "rp1_resources forbidden ((CmInterrupt flags vector, shared) # rs) reg memories interrupts =
     (if flags AND forbidden \<noteq> 0 \<or> \<not> shared then None else rp1_resources forbidden rs reg memories (interrupts + 1))"
| "rp1_resources forbidden (r # rs) reg memories interrupts = rp1_resources forbidden rs reg memories interrupts"

definition Rp1Prepare :: "u32 \<Rightarrow> env \<Rightarrow> (cm_resource \<times> bool) list \<Rightarrow> (RP1_CONTEXT, NTSTATUS) prog" where
  "Rp1Prepare forbidden E rs =
     (case rp1_resources forbidden rs None 0 0 of
        Some (Some (start, bytes), memories, interrupts) \<Rightarrow>
          if memories \<noteq> 4 \<or> interrupts \<noteq> 1 \<or> bytes \<noteq> 0x1000 then ret STATUS_DEVICE_CONFIGURATION_ERROR
          else do {
            p \<leftarrow> io_call E ''MmMapIoSpaceEx'' [start, 0x1000, PAGE_READWRITE OR PAGE_NOCACHE];
            modify (\<lambda>c. c\<lparr>rc_Registers := p\<rparr>);
            ret (if p \<noteq> 0 then STATUS_SUCCESS else STATUS_INSUFFICIENT_RESOURCES)
          }
      | _ \<Rightarrow> ret STATUS_DEVICE_CONFIGURATION_ERROR)"

definition Rp1Release :: "env \<Rightarrow> (RP1_CONTEXT, NTSTATUS) prog" where
  "Rp1Release E = do {
     c \<leftarrow> gets id;
     whenM (rc_Registers c \<noteq> 0) (do {
       kernel_do E ''MmUnmapIoSpace'' [rc_Registers c, 0x1000];
       modify (\<lambda>c. c\<lparr>rc_Registers := 0\<rparr>)
     });
     ret STATUS_SUCCESS
   }"

abbreviation sources_of :: "u64 \<Rightarrow> nat list" where
  "sources_of owned' \<equiv> filter (bit owned') [0..<61]"

definition Rp1Start :: "env \<Rightarrow> (RP1_CONTEXT, NTSTATUS) prog" where
  "Rp1Start E = do {
     Kernel_Lock_forever E;
     modify (\<lambda>c. c\<lparr>rc_Online := True\<rparr>);
     c \<leftarrow> gets id;
     forM (sources_of (rc_Owned c)) (Rp1_Enable E True);
     Kernel_Unlock E;
     ret STATUS_SUCCESS
   }"

definition Rp1Stop :: "env \<Rightarrow> (RP1_CONTEXT, NTSTATUS) prog" where
  "Rp1Stop E = do {
     Kernel_Lock_forever E;
     c \<leftarrow> gets id;
     forM (sources_of (rc_Owned c)) (Rp1_Enable E False);
     modify (\<lambda>c. c\<lparr>rc_Online := False\<rparr>);
     Kernel_Unlock E;
     ret STATUS_SUCCESS
   }"

definition Rp1QueryRemove :: "env \<Rightarrow> (RP1_CONTEXT, NTSTATUS) prog" where
  "Rp1QueryRemove E = do {
     Kernel_Lock_forever E;
     c \<leftarrow> gets id;
     Kernel_Unlock E;
     ret (if rc_Owned c \<noteq> 0 then STATUS_DEVICE_BUSY else STATUS_SUCCESS)
   }"

definition Rp1QueryStop :: "env \<Rightarrow> (RP1_CONTEXT, NTSTATUS) prog" where
  "Rp1QueryStop E = Rp1QueryRemove E"

definition Rp1Cleanup :: "env \<Rightarrow> ptr \<Rightarrow> (RP1_CONTEXT, unit) prog" where
  "Rp1Cleanup E f = do {
     Kernel_Lock_forever E;
     c \<leftarrow> gets id;
     forM (sources_of (rc_File c f)) (\<lambda>i. whenM (rc_Online c) (Rp1_Enable E False i));
     modify (\<lambda>c. c\<lparr>rc_Owned := rc_Owned c AND NOT (rc_File c f)\<rparr>);
     modify (\<lambda>c. c\<lparr>rc_File := (rc_File c)(f := 0)\<rparr>);
     Kernel_Unlock E
   }"

text \<open>The requests. A file of zero stands for a request without a file object.\<close>

datatype rp1_ioctl = RP1_ACQUIRE_IRQ | RP1_QUERY | RP1_OTHER

record RP1_IRQ_REQUEST =
  rq_Version :: u32
  rq_Source :: u32

record RP1_SERVICE_STATUS =
  sv_Version :: u32
  sv_Online :: u32
  sv_Owned :: u64
  sv_Config :: "u32 list"

abbreviation RP1_SERVICE_VERSION :: u32 where "RP1_SERVICE_VERSION \<equiv> 1"

definition Rp1_Acquire :: "env \<Rightarrow> ptr \<Rightarrow> RP1_IRQ_REQUEST \<Rightarrow> (RP1_CONTEXT, NTSTATUS) prog" where
  "Rp1_Acquire E f r = do {
     c \<leftarrow> gets id;
     let source = unat (rq_Source r);
     if rq_Version r \<noteq> RP1_SERVICE_VERSION \<or> \<not> Rp1_Allowed source then ret STATUS_INVALID_PARAMETER
     else if rc_Owned c AND push_bit source 1 \<noteq> 0 then ret STATUS_SHARING_VIOLATION
     else do {
       v \<leftarrow> Rp1_ReadConfig E source;
       if v AND (ROUTE_ENABLE OR ROUTE_IACK_ENABLE) \<noteq> 0 then ret STATUS_DEVICE_BUSY
       else do {
         modify (\<lambda>c. c\<lparr>rc_File := (rc_File c)(f := rc_File c f OR push_bit source 1)\<rparr>);
         modify (\<lambda>c. c\<lparr>rc_Owned := rc_Owned c OR push_bit source 1\<rparr>);
         Rp1_Enable E True source;
         ret STATUS_SUCCESS
       }
     }
   }"

abbreviation STATUS_INVALID_HANDLE :: NTSTATUS where "STATUS_INVALID_HANDLE \<equiv> 0xC0000008"

definition Rp1Io :: "env \<Rightarrow> rp1_ioctl \<Rightarrow> ptr \<Rightarrow> bool \<Rightarrow> RP1_IRQ_REQUEST \<Rightarrow> (RP1_CONTEXT, NTSTATUS \<times> RP1_SERVICE_STATUS option) prog" where
  "Rp1Io E code f kmode r =
     (if f = 0 then ret (STATUS_INVALID_HANDLE, None)
      else do {
        Kernel_Lock_forever E;
        c \<leftarrow> gets id;
        (status, reply) \<leftarrow> (if \<not> rc_Online c then ret (STATUS_DEVICE_NOT_READY, None)
          else if code = RP1_ACQUIRE_IRQ \<and> kmode then do {
            status \<leftarrow> kernel_status E ''WdfRequestRetrieveInputBuffer'' [8];
            status \<leftarrow> (if NT_SUCCESS status then Rp1_Acquire E f r else ret status);
            ret (status, None)
          }
          else if code = RP1_QUERY then do {
            status \<leftarrow> kernel_status E ''WdfRequestRetrieveOutputBuffer'' [264];
            if NT_SUCCESS status then do {
              config \<leftarrow> mapM [0..<61] (Rp1_ReadConfig E);
              ret (status, Some \<lparr>sv_Version = RP1_SERVICE_VERSION, sv_Online = c_bool (rc_Online c), sv_Owned = rc_Owned c, sv_Config = config\<rparr>)
            }
            else ret (status, None)
          }
          else ret (STATUS_INVALID_DEVICE_REQUEST, None));
        Kernel_Unlock E;
        ret (status, reply)
      })"

section \<open>The client\<close>

text \<open>A driver opens the service and asks for one source. The target is zero unless the source is leased.\<close>

definition Rp1OpenInterruptRoute :: "env \<Rightarrow> u32 \<Rightarrow> ('s, NTSTATUS \<times> ptr) prog" where
  "Rp1OpenInterruptRoute E source = do {
     status \<leftarrow> kernel_status E ''WdfIoTargetCreate'' [];
     if \<not> NT_SUCCESS status then ret (status, 0)
     else do {
       target \<leftarrow> io_call E ''WdfIoTargetCreate target'' [];
       status \<leftarrow> kernel_status E ''WdfIoTargetOpen'' [target];
       status \<leftarrow> (if NT_SUCCESS status
         then kernel_status E ''WdfIoTargetSendIoctlSynchronously'' [target, 0x800, ucast RP1_SERVICE_VERSION, ucast source]
         else ret status);
       if NT_SUCCESS status then ret (status, target)
       else do { kernel_do E ''WdfObjectDelete'' [target]; ret (status, 0) }
     }
   }"

section \<open>The promise\<close>

text \<open>The route of a source is on when the last write that concerns it turned it on.\<close>

fun route_on :: "io_event list \<Rightarrow> nat \<Rightarrow> bool" where
  "route_on [] n = False"
| "route_on (Wr u off v # t) n = (if off = 0x800 + CFG n then True else if off = 0xc00 + CFG n then False else route_on t n)"
| "route_on (e # t) n = route_on t n"

text \<open>Writes to the routes of the sources that may be leased.\<close>

definition route_write :: "io_event \<Rightarrow> bool" where
  "route_write e \<longleftrightarrow> (\<forall>u off v. e = Wr u off v \<longrightarrow> u = 0 \<and> v = ROUTE_ENABLE \<and> (\<exists>n. Rp1_Allowed n \<and> (off = 0x800 + CFG n \<or> off = 0xc00 + CFG n)))"

definition routes_ok :: "RP1_CONTEXT \<Rightarrow> io_event list \<Rightarrow> bool" where
  "routes_ok c t \<longleftrightarrow>
     (\<forall>f g n. bit (rc_File c f) n \<longrightarrow> bit (rc_File c g) n \<longrightarrow> f = g) \<and>
     (\<forall>n. bit (rc_Owned c) n \<longleftrightarrow> (\<exists>f. bit (rc_File c f) n)) \<and>
     (\<forall>n. bit (rc_Owned c) n \<longrightarrow> Rp1_Allowed n) \<and>
     (\<forall>n<61. route_on t n \<longleftrightarrow> rc_Online c \<and> bit (rc_Owned c) n) \<and>
     (\<forall>e\<in>set t. route_write e)"

section \<open>Switching routes\<close>


lemma unat_route: "n < 61 \<Longrightarrow> k < 4096 \<Longrightarrow> unat (of_nat (k + 4 * n) :: u32) = k + 4 * n"
  by (rule unat_of_nat_small) simp

lemma route_address:
  assumes "n < 61" "m < 61"
  shows "0x800 + CFG n = 0x800 + CFG m \<longleftrightarrow> n = m" "0xc00 + CFG n = 0xc00 + CFG m \<longleftrightarrow> n = m"
    "0x800 + CFG n \<noteq> 0xc00 + CFG m" "0xc00 + CFG m \<noteq> 0x800 + CFG n"
proof -
  have a: "0x800 + CFG k = of_nat (2056 + 4 * k)" "0xc00 + CFG k = of_nat (3080 + 4 * k)" for k
    by (simp_all add: CFG_def)
  have same: "of_nat (i + 4 * n) = (of_nat (k + 4 * m) :: u32) \<longleftrightarrow> i + 4 * n = k + 4 * m" if "i < 4096" "k < 4096" for i k
    using unat_route [OF assms(1) that(1)] unat_route [OF assms(2) that(2)] by metis
  show "0x800 + CFG n = 0x800 + CFG m \<longleftrightarrow> n = m" "0xc00 + CFG n = 0xc00 + CFG m \<longleftrightarrow> n = m" "0x800 + CFG n \<noteq> 0xc00 + CFG m"
    using same [of 2056 2056] same [of 3080 3080] same [of 2056 3080] assms unfolding a by linarith+
  then show "0xc00 + CFG m \<noteq> 0x800 + CFG n" using assms same [of 2056 3080] same [of 2056 2056] same [of 3080 3080] by metis
qed

lemma Rp1_Allowed_small: "Rp1_Allowed n \<Longrightarrow> n < 61"
  by (auto simp: Rp1_Allowed_def)

lemma route_write_event [simp]: "no_write e \<Longrightarrow> route_write e"
  by (simp add: route_write_def no_write_def)

lemma route_on_event [simp]: "no_write e \<Longrightarrow> route_on (e # t) n = route_on t n"
  by (cases e) simp_all

text \<open>What switching some sources on or off does.\<close>

definition switched :: "nat set \<Rightarrow> bool \<Rightarrow> RP1_CONTEXT world \<Rightarrow> RP1_CONTEXT world \<Rightarrow> bool" where
  "switched ns b w v \<longleftrightarrow> st v = st w \<and> (\<forall>n<61. route_on (trace v) n \<longleftrightarrow> n \<in> ns \<and> b \<or> n \<notin> ns \<and> route_on (trace w) n) \<and>
     ((\<forall>e\<in>set (trace w). route_write e) \<longrightarrow> (\<forall>e\<in>set (trace v). route_write e))"

lemma wp_Enable:
  assumes "Rp1_Allowed n" "\<And>v. switched {n} b w v \<Longrightarrow> Q () v"
  shows "wp (Rp1_Enable E b n) Q w"
  unfolding Rp1_Enable_def Rp1_ReadConfig_def
proof (rule wp_bindI, rule wp_emitI, rule wp_bindI, rule wp_read_any, rule wp_returnI, rule assms(2))
  fix v
  have "route_on (Wr 0 ((if b then 0x800 else 0xc00) + CFG n) ROUTE_ENABLE # t) m \<longleftrightarrow> m \<in> {n} \<and> b \<or> m \<notin> {n} \<and> route_on t m" if "m < 61" for m t
    by (cases b; cases "m = n")
      (simp_all only: route_on.simps if_True if_False simp_thms insert_iff empty_iff not_True_eq_False not_False_eq_True
        route_address [OF Rp1_Allowed_small [OF assms(1)] that] route_address(3,4) [OF that Rp1_Allowed_small [OF assms(1)]] route_address(3,4) [OF Rp1_Allowed_small [OF assms(1)] Rp1_Allowed_small [OF assms(1)]] eq_commute [of n m])
  moreover have "route_write (Wr 0 ((if b then 0x800 else 0xc00) + CFG n) ROUTE_ENABLE)"
    using assms(1) by (auto simp: route_write_def)
  ultimately show "switched {n} b w (w\<lparr>trace := Wr 0 ((if b then 0x800 else 0xc00) + CFG n) ROUTE_ENABLE # trace w,
      trace := Rd 0 (CFG n) v # trace (w\<lparr>trace := Wr 0 ((if b then 0x800 else 0xc00) + CFG n) ROUTE_ENABLE # trace w\<rparr>)\<rparr>)"
    by (simp add: switched_def route_write_def)
qed

lemma switched_trans: "switched {n} b w v \<Longrightarrow> switched ns b v u \<Longrightarrow> switched (insert n ns) b w u"
  unfolding switched_def by (elim conjE, intro conjI allI impI) (simp_all, blast)

lemma wp_Enable_all:
  "\<forall>n\<in>set ns. Rp1_Allowed n \<Longrightarrow> (\<And>v. switched (set ns) b w v \<Longrightarrow> Q () v) \<Longrightarrow> wp (forM ns (Rp1_Enable E b)) Q w"
proof (induction ns arbitrary: w)
  case Nil
  then show ?case by (simp add: wp_simps switched_def)
next
  case (Cons n ns)
  show ?case
    unfolding forM.simps
  proof (rule wp_bindI, rule wp_Enable, rule Cons.prems(1) [rule_format], simp, rule Cons.IH)
    fix v u assume "switched {n} b w v" "switched (set ns) b v u"
    then have "switched (insert n (set ns)) b w u" by (rule switched_trans)
    then show "Q () u" by (intro Cons.prems(2)) (simp only: list.set)
  qed (use Cons.prems(1) in simp)
qed

lemma routes_ok_event [simp]: "no_write e \<Longrightarrow> routes_ok c (e # t) = routes_ok c t"
  by (simp add: routes_ok_def route_write_def no_write_def)

lemma routes_ok_allowed: "routes_ok c t \<Longrightarrow> \<forall>n\<in>set (sources_of (rc_Owned c)). Rp1_Allowed n"
    "routes_ok c t \<Longrightarrow> \<forall>n\<in>set (sources_of (rc_File c f)). Rp1_Allowed n"
  by (auto simp: routes_ok_def)

lemma routes_ok_registers [simp]: "routes_ok (c\<lparr>rc_Registers := p\<rparr>) t = routes_ok c t"
  by (simp add: routes_ok_def)

abbreviation routed :: "RP1_CONTEXT world \<Rightarrow> bool" where "routed w \<equiv> routes_ok (st w) (trace w)"

lemma routed_Start: "routed w \<Longrightarrow> wp (Rp1Start E) (\<lambda>_. routed) w"
  unfolding Rp1Start_def
  apply (rule wp_bindI, rule wp_kernel_doI, rule wp_bindI, rule wp_modifyI, rule wp_bindI, rule wp_getsI, rule wp_bindI, rule wp_Enable_all)
   apply (simp add: routes_ok_allowed)
  apply (rule wp_bindI, rule wp_kernel_doI, rule wp_returnI)
  apply (auto simp: switched_def routes_ok_def)
  done

lemma routed_Stop: "routed w \<Longrightarrow> wp (Rp1Stop E) (\<lambda>_. routed) w"
  unfolding Rp1Stop_def
  apply (rule wp_bindI, rule wp_kernel_doI, rule wp_bindI, rule wp_getsI, rule wp_bindI, rule wp_Enable_all)
   apply (simp add: routes_ok_allowed)
  apply (rule wp_bindI, rule wp_modifyI, rule wp_bindI, rule wp_kernel_doI, rule wp_returnI)
  apply (auto simp: switched_def routes_ok_def)
  done

lemma routes_ok_drop:
  assumes "routes_ok c t" "\<And>n. n < 61 \<Longrightarrow> route_on t' n \<longleftrightarrow> \<not> (bit (rc_File c f) n \<and> rc_Online c) \<and> route_on t n"
    "\<forall>e\<in>set t'. route_write e"
  shows "routes_ok (c\<lparr>rc_Owned := rc_Owned c AND NOT (rc_File c f), rc_File := (rc_File c)(f := 0)\<rparr>) t'"
  unfolding routes_ok_def
proof (intro conjI allI impI)
  have excl: "bit (rc_File c f) n \<Longrightarrow> bit (rc_File c g) n \<Longrightarrow> f = g" and own: "bit (rc_Owned c) n \<longleftrightarrow> (\<exists>f. bit (rc_File c f) n)"
    and allowed: "bit (rc_Owned c) n \<Longrightarrow> Rp1_Allowed n" and on: "n < 61 \<Longrightarrow> route_on t n \<longleftrightarrow> rc_Online c \<and> bit (rc_Owned c) n" for f g n
    using assms(1) by (auto simp: routes_ok_def)
  let ?c = "c\<lparr>rc_Owned := rc_Owned c AND NOT (rc_File c f), rc_File := (rc_File c)(f := 0)\<rparr>"
  have bits: "bit (rc_Owned ?c) n \<longleftrightarrow> bit (rc_Owned c) n \<and> \<not> bit (rc_File c f) n" for n
    using bit_imp_le_length [of "rc_Owned c" n] by (auto simp: bit_and_iff bit_not_iff)
  show "g = h" if "bit (rc_File ?c g) n" "bit (rc_File ?c h) n" for g h n
    using that excl by (auto split: if_splits)
  show "bit (rc_Owned ?c) n \<longleftrightarrow> (\<exists>f. bit (rc_File ?c f) n)" for n
    unfolding bits own using excl [of f n] by (auto split: if_splits)
  show "Rp1_Allowed n" if "bit (rc_Owned ?c) n" for n using that allowed unfolding bits by blast
  show "route_on t' n \<longleftrightarrow> rc_Online ?c \<and> bit (rc_Owned ?c) n" if "n < 61" for n
    unfolding bits assms(2) [OF that] on [OF that] by auto
qed (rule assms(3))

lemma routes_ok_writes: "routes_ok c t \<Longrightarrow> e \<in> set t \<Longrightarrow> route_write e"
  by (simp add: routes_ok_def)

lemma routes_ok_offline: "routes_ok c t \<Longrightarrow> \<not> rc_Online c \<Longrightarrow> n < 61 \<Longrightarrow> \<not> route_on t n"
  by (simp add: routes_ok_def)

abbreviation dropped :: "RP1_CONTEXT \<Rightarrow> ptr \<Rightarrow> RP1_CONTEXT" where
  "dropped c f \<equiv> c\<lparr>rc_Owned := rc_Owned c AND NOT (rc_File c f), rc_File := (rc_File c)(f := 0)\<rparr>"

lemma switched_drop:
  assumes "switched (set (sources_of (rc_File (st w) f))) False w v" "routed w" "rc_Online (st w)"
  shows "routes_ok (dropped (st w) f) (trace v)"
proof (rule routes_ok_drop [OF assms(2)])
  show "\<forall>e\<in>set (trace v). route_write e" using assms(1) routes_ok_writes [OF assms(2)] by (simp add: switched_def)
  show "route_on (trace v) n \<longleftrightarrow> \<not> (bit (rc_File (st w) f) n \<and> rc_Online (st w)) \<and> route_on (trace w) n" if "n < 61" for n
    using assms(1,3) that by (simp add: switched_def)
qed

lemma whenM_all: "forM ns (\<lambda>i. whenM b (f i)) = (if b then forM ns f else ret ())"
  by (induction ns) (auto simp: whenM_def)

lemma routed_Cleanup:
  assumes "routed w"
  shows "wp (Rp1Cleanup E f) (\<lambda>_. routed) w"
  unfolding Rp1Cleanup_def whenM_all
proof (rule wp_bindI, rule wp_kernel_doI, rule wp_bindI, rule wp_getsI, rule wp_bindI, rule wp_ifI)
  fix r
  let ?w = "w\<lparr>trace := Call ''WdfWaitLockAcquire'' [0] r # trace w\<rparr>"
  let ?rest = "do { modify (\<lambda>c. c\<lparr>rc_Owned := rc_Owned c AND NOT (rc_File c f)\<rparr>); modify (\<lambda>c. c\<lparr>rc_File := (rc_File c)(f := 0)\<rparr>); Kernel_Unlock E }"
  have rest: "wp ?rest (\<lambda>_. routed) v" if "routes_ok (dropped (st v) f) (trace v)" for v
    using that by (intro wp_bindI wp_modifyI wp_kernel_doI) simp
  have w: "routed ?w" using assms by simp
  show "wp (forM (sources_of (rc_File (id (st ?w)) f)) (Rp1_Enable E False)) (\<lambda>_. wp ?rest (\<lambda>_. routed)) ?w" if "rc_Online (id (st ?w))"
  proof (rule wp_Enable_all)
    show "\<forall>n\<in>set (sources_of (rc_File (id (st ?w)) f)). Rp1_Allowed n" unfolding id_apply by (rule routes_ok_allowed(2) [OF w])
    fix v assume "switched (set (sources_of (rc_File (id (st ?w)) f))) False ?w v"
    then have v: "switched (set (sources_of (rc_File (st ?w) f))) False ?w v" by simp
    have "routes_ok (dropped (st ?w) f) (trace v)" by (rule switched_drop [OF v w]) (use that in simp)
    then show "wp ?rest (\<lambda>_. routed) v" by (intro rest) (use v in \<open>simp add: switched_def\<close>)
  qed
  show "wp (ret ()) (\<lambda>_. wp ?rest (\<lambda>_. routed)) ?w" if "\<not> rc_Online (id (st ?w))"
  proof (rule wp_returnI, rule rest, rule routes_ok_drop [OF w])
    show "route_on (trace ?w) n \<longleftrightarrow> \<not> (bit (rc_File (st ?w) f) n \<and> rc_Online (st ?w)) \<and> route_on (trace ?w) n" for n
      using that by simp
  qed (use routes_ok_writes [OF w] in blast)
qed

lemma bit_source: "n < 64 \<Longrightarrow> bit (push_bit n (1 :: u64)) m \<longleftrightarrow> m = n"
  by (auto simp: bit_push_bit_iff bit_1_iff)

lemma routes_ok_take:
  assumes "routes_ok c t" "n < 61" "Rp1_Allowed n" "\<not> bit (rc_Owned c) n" "rc_Online c"
    "\<And>m. m < 61 \<Longrightarrow> route_on t' m \<longleftrightarrow> m = n \<or> m \<noteq> n \<and> route_on t m" "\<forall>e\<in>set t'. route_write e"
  shows "routes_ok (c\<lparr>rc_File := (rc_File c)(f := rc_File c f OR push_bit n 1), rc_Owned := rc_Owned c OR push_bit n 1\<rparr>) t'"
  unfolding routes_ok_def
proof (intro conjI allI impI)
  have excl: "bit (rc_File c f) n \<Longrightarrow> bit (rc_File c g) n \<Longrightarrow> f = g" and own: "bit (rc_Owned c) n \<longleftrightarrow> (\<exists>f. bit (rc_File c f) n)"
    and allowed: "bit (rc_Owned c) n \<Longrightarrow> Rp1_Allowed n" and on: "n < 61 \<Longrightarrow> route_on t n \<longleftrightarrow> rc_Online c \<and> bit (rc_Owned c) n" for f g n
    using assms(1) by (auto simp: routes_ok_def)
  let ?c = "c\<lparr>rc_File := (rc_File c)(f := rc_File c f OR push_bit n 1), rc_Owned := rc_Owned c OR push_bit n 1\<rparr>"
  have new: "bit (x OR push_bit n (1 :: u64)) m \<longleftrightarrow> bit x m \<or> m = n" for x m
    using assms(2) by (simp add: bit_or_iff bit_source)
  have free: "\<not> bit (rc_File c g) n" for g using assms(4) own by blast
  show "g = h" if "bit (rc_File ?c g) m" "bit (rc_File ?c h) m" for g h m
    using that excl [of g m h] excl [of f m h] excl [of g m f] free by (auto simp: new split: if_splits)
  show "bit (rc_Owned ?c) m \<longleftrightarrow> (\<exists>f. bit (rc_File ?c f) m)" for m
    using own [of m] by (auto simp: new)
  show "Rp1_Allowed m" if "bit (rc_Owned ?c) m" for m using that allowed assms(3) by (auto simp: new)
  show "route_on t' m \<longleftrightarrow> rc_Online ?c \<and> bit (rc_Owned ?c) m" if "m < 61" for m
    using assms(5,6) that on [OF that] by (auto simp: new)
qed (use assms(7) in blast)

section \<open>Requests and sessions\<close>


lemma wp_ReadConfig: "(\<And>x. Q x (w\<lparr>trace := Rd 0 (CFG n) x # trace w\<rparr>)) \<Longrightarrow> wp (Rp1_ReadConfig E n) Q w"
  unfolding Rp1_ReadConfig_def by (rule wp_read_any)

lemma routed_Acquire:
  assumes "routed w" "rc_Online (st w)"
  shows "wp (Rp1_Acquire E f r) (\<lambda>_. routed) w"
  unfolding Rp1_Acquire_def Let_def
proof (rule wp_bindI, rule wp_getsI, rule wp_ifI, rule wp_returnI, rule assms(1), rule wp_ifI, rule wp_returnI, rule assms(1),
    rule wp_bindI, rule wp_ReadConfig, rule wp_ifI, rule wp_returnI, simp add: assms(1),
    rule wp_bindI, rule wp_modifyI, rule wp_bindI, rule wp_modifyI, rule wp_bindI)
  let ?n = "unat (rq_Source r)"
  fix x
  let ?w = "w\<lparr>trace := Rd 0 (CFG ?n) x # trace w\<rparr>"
  let ?u = "(?w\<lparr>st := st ?w\<lparr>rc_File := (rc_File (st ?w))(f := rc_File (st ?w) f OR push_bit ?n 1)\<rparr>\<rparr>)
    \<lparr>st := st (?w\<lparr>st := st ?w\<lparr>rc_File := (rc_File (st ?w))(f := rc_File (st ?w) f OR push_bit ?n 1)\<rparr>\<rparr>)
      \<lparr>rc_Owned := rc_Owned (st (?w\<lparr>st := st ?w\<lparr>rc_File := (rc_File (st ?w))(f := rc_File (st ?w) f OR push_bit ?n 1)\<rparr>\<rparr>)) OR push_bit ?n 1\<rparr>\<rparr>"
  assume "\<not> (rq_Version r \<noteq> RP1_SERVICE_VERSION \<or> \<not> Rp1_Allowed ?n)" and o: "\<not> rc_Owned (id (st w)) AND push_bit ?n 1 \<noteq> 0"
  then have a: "Rp1_Allowed ?n" by simp
  have free: "\<not> bit (rc_Owned (st w)) ?n"
    using o Rp1_Allowed_small [OF a] by (auto simp: bit_eq_iff bit_and_iff bit_source)
  show "wp (Rp1_Enable E True ?n) (\<lambda>_. wp (ret STATUS_SUCCESS) (\<lambda>_. routed)) ?u"
  proof (rule wp_Enable [OF a], rule wp_returnI)
    fix v assume v: "switched {?n} True ?u v"
    have "routes_ok ((st w)\<lparr>rc_File := (rc_File (st w))(f := rc_File (st w) f OR push_bit ?n 1), rc_Owned := rc_Owned (st w) OR push_bit ?n 1\<rparr>) (trace v)"
      by (rule routes_ok_take [OF assms(1) Rp1_Allowed_small [OF a] a free assms(2)])
        (use v routes_ok_writes [OF assms(1)] in \<open>simp_all add: switched_def\<close>)
    then show "routed v" using v by (simp add: switched_def)
  qed
qed

lemma wp_configs:
  assumes "routed w" "\<And>xs v. routed v \<Longrightarrow> st v = st w \<Longrightarrow> Q xs v"
  shows "wp (mapM ns (Rp1_ReadConfig E)) Q w"
  using assms
proof (induction ns arbitrary: w Q)
  case (Cons n ns)
  show ?case
    unfolding mapM.simps
  proof (rule wp_bindI, rule wp_ReadConfig, rule wp_bindI, rule Cons.IH)
    fix x xs v
    assume "routed v" "st v = st (w\<lparr>trace := Rd 0 (CFG n) x # trace w\<rparr>)"
    then show "wp (ret (x # xs)) Q v" by (intro wp_returnI Cons.prems(2)) simp_all
  qed (simp add: Cons.prems(1))
qed (simp add: wp_simps)

lemma routed_Io: "routed w \<Longrightarrow> wp (Rp1Io E code f kmode r) (\<lambda>_. routed) w"
  unfolding Rp1Io_def
  apply (rule wp_ifI, rule wp_returnI, assumption)
  apply (rule wp_bindI, rule wp_kernel_doI, rule wp_bindI, rule wp_getsI, rule wp_bindI)
  apply (rule wp_ifI)
   apply (simp add: wp_simps)
  apply (rule wp_ifI, rule wp_bindI, rule wp_kernel_any, rule wp_bindI, rule wp_ifI)
  apply (rule wp_mono [OF routed_Acquire])
     apply simp
    apply simp
   apply (simp add: wp_simps)
  apply (simp add: wp_simps)
  apply (rule wp_ifI, rule wp_bindI, rule wp_kernel_any, rule wp_ifI, rule wp_bindI, rule wp_configs)
  apply (simp_all add: wp_simps)
  done

lemma routed_Prepare: "routed w \<Longrightarrow> wp (Rp1Prepare forbidden E rs) (\<lambda>_. routed) w"
  unfolding Rp1Prepare_def
  by (auto simp: wp_simps intro!: wp_call_any split: option.splits)

lemma routed_Release: "routed w \<Longrightarrow> wp (Rp1Release E) (\<lambda>_. routed) w"
  unfolding Rp1Release_def by (auto simp: wp_simps)

lemma routed_QueryRemove: "routed w \<Longrightarrow> wp (Rp1QueryRemove E) (\<lambda>_. routed) w"
  unfolding Rp1QueryRemove_def by (auto simp: wp_simps)

text \<open>The calls the framework makes, and a session of any of them on a service just loaded.\<close>

datatype svc_call =
    SvcPrepare "(cm_resource \<times> bool) list"
  | SvcRelease
  | SvcStart
  | SvcStop
  | SvcQueryRemove
  | SvcQueryStop
  | SvcCleanup ptr
  | SvcIo rp1_ioctl ptr bool RP1_IRQ_REQUEST

fun svc_step :: "u32 \<Rightarrow> env \<Rightarrow> svc_call \<Rightarrow> (RP1_CONTEXT, unit) prog" where
  "svc_step forbidden E (SvcPrepare rs) = do { r \<leftarrow> Rp1Prepare forbidden E rs; ret () }"
| "svc_step forbidden E SvcRelease = do { r \<leftarrow> Rp1Release E; ret () }"
| "svc_step forbidden E SvcStart = do { r \<leftarrow> Rp1Start E; ret () }"
| "svc_step forbidden E SvcStop = do { r \<leftarrow> Rp1Stop E; ret () }"
| "svc_step forbidden E SvcQueryRemove = do { r \<leftarrow> Rp1QueryRemove E; ret () }"
| "svc_step forbidden E SvcQueryStop = do { r \<leftarrow> Rp1QueryStop E; ret () }"
| "svc_step forbidden E (SvcCleanup f) = Rp1Cleanup E f"
| "svc_step forbidden E (SvcIo code f kmode r) = do { x \<leftarrow> Rp1Io E code f kmode r; ret () }"

definition svc_zero :: RP1_CONTEXT where
  "svc_zero = \<lparr>rc_Registers = 0, rc_Owned = 0, rc_Online = False, rc_File = (\<lambda>f. 0)\<rparr>"

lemma wp_ignore: "wp m (\<lambda>_. P) w \<Longrightarrow> wp (do { r \<leftarrow> m; ret () }) (\<lambda>_. P) w"
  by (simp add: wp_def split: prod.splits)

lemma routed_step: "routed w \<Longrightarrow> wp (svc_step forbidden E call) (\<lambda>_. routed) w"
  by (cases call)
    (auto simp: Rp1QueryStop_def
      intro!: wp_ignore routed_Prepare routed_Release routed_Start routed_Stop routed_QueryRemove routed_Cleanup routed_Io)

lemma routed_session: "routed w \<Longrightarrow> wp (forM calls (svc_step forbidden E)) (\<lambda>_. routed) w"
proof (induction calls arbitrary: w)
  case (Cons call calls)
  show ?case unfolding forM.simps by (rule wp_bindI, rule wp_mono [OF routed_step [OF Cons.prems]], rule Cons.IH)
qed (simp add: wp_simps)

lemma routes_ok_zero: "routes_ok svc_zero []"
  by (simp add: routes_ok_def svc_zero_def)

section \<open>The property\<close>

text \<open>C40. Whatever the device, the clients and the kernel do, in whatever order: no interrupt source is leased to two files, the service owns exactly the leased sources, the route of a source is on if and only if it is leased and the service online, and only routes of the sources on the list of lendable ones are ever written, never the one of the USB controllers.\<close>

theorem svc_routes_leased:
  "case run_state (forM calls (svc_step forbidden E)) \<lparr>st = svc_zero, trace = []\<rparr> of (r, v) \<Rightarrow> routes_ok (st v) (trace v)"
proof -
  have "wp (forM calls (svc_step forbidden E)) (\<lambda>_. routed) \<lparr>st = svc_zero, trace = []\<rparr>"
    by (rule routed_session) (simp add: routes_ok_zero)
  then show ?thesis by (simp add: wp_def)
qed

end
