(* ===== verification/V3d_Hardware.thy ===== *)
theory V3d_Hardware
  imports Kernel
begin

text \<open>
  The register layer of the GPU driver (\<open>pi5-v3d/hardware.c\<close> with \<open>hardware.h\<close> and \<open>triangle.h\<close>): idle checks, drains,
  the GPU's page table, transfers, command lists and the data of the self-test. The register units are the banks
  0, 1 and 2 of the environment.
\<close>

unbundle bit_operations_syntax
declare push_bit_of_1 [simp del]

section \<open>Registers\<close>

abbreviation V3dHub :: u32 where "V3dHub \<equiv> 0"
abbreviation V3dCore :: u32 where "V3dCore \<equiv> 1"
abbreviation V3dSms :: u32 where "V3dSms \<equiv> 2"
abbreviation V3D_INT_STS :: u32 where "V3D_INT_STS \<equiv> 0x50"
abbreviation V3D_INT_SET :: u32 where "V3D_INT_SET \<equiv> 0x54"
abbreviation V3D_INT_CLR :: u32 where "V3D_INT_CLR \<equiv> 0x58"
abbreviation V3D_INT_MASK_SET :: u32 where "V3D_INT_MASK_SET \<equiv> 0x60"
abbreviation V3D_INT_MASK_CLR :: u32 where "V3D_INT_MASK_CLR \<equiv> 0x64"
abbreviation V3D_HUB_IRQS :: u32 where "V3D_HUB_IRQS \<equiv> 0x7a"
abbreviation V3D_CORE_IRQS :: u32 where "V3D_CORE_IRQS \<equiv> 0x47"
abbreviation V3D_TFU_DONE :: u32 where "V3D_TFU_DONE \<equiv> 2"
abbreviation V3D_CSD_DONE :: u32 where "V3D_CSD_DONE \<equiv> 0x40"
abbreviation V3D_RENDER_DONE :: u32 where "V3D_RENDER_DONE \<equiv> 1"
abbreviation V3D_CSD_STATUS :: u32 where "V3D_CSD_STATUS \<equiv> 0x900"
abbreviation V3D_MMU_FAULT_IRQS :: u32 where "V3D_MMU_FAULT_IRQS \<equiv> 0x78"
abbreviation V3D_GMP_STATUS :: u32 where "V3D_GMP_STATUS \<equiv> 0x600"
abbreviation V3D_GMP_CONFIG :: u32 where "V3D_GMP_CONFIG \<equiv> 0x604"
abbreviation V3D_GMP_BUSY :: u32 where "V3D_GMP_BUSY \<equiv> 0x7f7f0008"
abbreviation V3D_TFU_CS :: u32 where "V3D_TFU_CS \<equiv> 0x700"
abbreviation V3D_TFU_ICFG :: u32 where "V3D_TFU_ICFG \<equiv> 0x708"
abbreviation V3D_MMUC :: u32 where "V3D_MMUC \<equiv> 0x1000"
abbreviation V3D_MMU_CTL :: u32 where "V3D_MMU_CTL \<equiv> 0x1200"
abbreviation V3D_MMU_PT :: u32 where "V3D_MMU_PT \<equiv> 0x1204"
abbreviation V3D_MMU_TRAP :: u32 where "V3D_MMU_TRAP \<equiv> 0x1230"
abbreviation V3D_MMU_FAULTS :: u32 where "V3D_MMU_FAULTS \<equiv> 0x08101000"
abbreviation V3D_MMU_ON :: u32 where "V3D_MMU_ON \<equiv> 0x060d0c03"
abbreviation V3D_PAGE :: u32 where "V3D_PAGE \<equiv> 4096"
abbreviation V3D_TABLE_BYTES :: u32 where "V3D_TABLE_BYTES \<equiv> 0x400000"
abbreviation V3D_SOURCE_VA :: u32 where "V3D_SOURCE_VA \<equiv> 0x10000"
abbreviation V3D_DEST_VA :: u32 where "V3D_DEST_VA \<equiv> 0x20000"
abbreviation V3D_CODE_VA :: u32 where "V3D_CODE_VA \<equiv> 0x30000"
abbreviation V3D_UNIFORM_VA :: u32 where "V3D_UNIFORM_VA \<equiv> 0x40000"
abbreviation V3D_TILE_VA :: u32 where "V3D_TILE_VA \<equiv> 0x50000"
abbreviation V3D_TILE_STATE_VA :: u32 where "V3D_TILE_STATE_VA \<equiv> 0x60000"
abbreviation V3D_TILE_BYTES :: u32 where "V3D_TILE_BYTES \<equiv> 16384"
abbreviation V3D_DATA_BYTES :: u32 where "V3D_DATA_BYTES \<equiv> 8192"
abbreviation V3D_PTE_VALID :: u32 where "V3D_PTE_VALID \<equiv> 0x10000000"
abbreviation V3D_PTE_WRITE :: u32 where "V3D_PTE_WRITE \<equiv> 0x20000000"

text \<open>What the driver remembers of its last jobs; the register access is the environment.\<close>

record V3D_IO =
  vi_CsdIdle :: u32
  vi_RenderStart :: u32
  vi_RenderEnd :: u32
  vi_BinStart :: u32
  vi_BinEnd :: u32

datatype v3d_result = V3dOk | V3dTimeout | V3dBusy | V3dInvalid

definition v3d_then :: "('s, v3d_result) prog \<Rightarrow> ('s, v3d_result) prog \<Rightarrow> ('s, v3d_result) prog" where
  "v3d_then m k = do { result \<leftarrow> m; if result \<noteq> V3dOk then ret result else k }"

definition V3dPoll :: "env \<Rightarrow> u32 \<Rightarrow> u32 \<Rightarrow> u32 \<Rightarrow> u32 \<Rightarrow> ('s, v3d_result) prog" where
  "V3dPoll E unit off bits expected = do {
     r \<leftarrow> loopM 10000 (do {
       v \<leftarrow> io_read E unit off;
       if v AND bits = expected then ret (Some V3dOk)
       else do { io_delay 10; ret None }
     });
     ret (case r of None \<Rightarrow> V3dTimeout | Some result \<Rightarrow> result)
   }"

text \<open>A chain of register comparisons stops at the first difference.\<close>

fun v3d_differs :: "env \<Rightarrow> (u32 \<times> u32) list \<Rightarrow> ('s, bool) prog" where
  "v3d_differs E [] = ret False"
| "v3d_differs E ((off, expected) # rest) = do {
     v \<leftarrow> io_read E V3dCore off;
     if v \<noteq> expected then ret True else v3d_differs E rest
   }"

definition V3dIdle :: "env \<Rightarrow> (V3D_IO, v3d_result) prog" where
  "V3dIdle E = do {
     io \<leftarrow> gets id;
     tfu \<leftarrow> io_read E V3dHub V3D_TFU_CS;
     if tfu AND 1 \<noteq> 0 \<or> tfu AND 0x3f00 \<noteq> 0x2000 then ret V3dBusy
     else do {
       d \<leftarrow> v3d_differs E [(V3D_CSD_STATUS, vi_CsdIdle io), (0x100, 0), (0x110, vi_BinEnd io), (0x108, vi_BinEnd io), (0x104, 0)];
       if d then ret V3dBusy
       else do {
         current \<leftarrow> io_read E V3dCore 0x114;
         last' \<leftarrow> io_read E V3dCore 0x10c;
         if current \<noteq> last' then ret V3dBusy
         else do {
           d \<leftarrow> v3d_differs E [(0x10c, vi_RenderEnd io), (0x160, vi_BinStart io), (0x168, vi_BinEnd io), (0x164, vi_RenderStart io),
             (0x16c, vi_RenderEnd io)];
           ret (if d then V3dBusy else V3dOk)
         }
       }
     }
   }"

definition V3dDrain :: "env \<Rightarrow> (V3D_IO, v3d_result) prog" where
  "V3dDrain E = v3d_then (V3dIdle E) (do {
     io_write V3dCore 0x34 0;
     io_write V3dCore 0x38 0xffffffff;
     io_write V3dCore 0x30 0x100;
     v3d_then (V3dPoll E V3dCore 0x30 0x100 0) (do {
       io_write V3dCore 0x30 5;
       v3d_then (V3dPoll E V3dCore 0x30 1 0) (do {
         io_write V3dHub V3D_GMP_CONFIG 2;
         V3dPoll E V3dHub V3D_GMP_STATUS V3D_GMP_BUSY 0
       })
     })
   })"

definition V3dSmsReset :: "env \<Rightarrow> (V3D_IO, v3d_result) prog" where
  "V3dSmsReset E = do {
     io_write V3dSms 0 4;
     V3dPoll E V3dSms 0 15 0
   }"

section \<open>Address translation\<close>

definition V3dMmuFlush :: "env \<Rightarrow> (V3D_IO, v3d_result) prog" where
  "V3dMmuFlush E = do {
     io_write V3dHub V3D_MMUC 3;
     v3d_then (V3dPoll E V3dHub V3D_MMUC 4 0) (do {
       io_write V3dHub V3D_MMU_CTL (V3D_MMU_ON OR 4);
       V3dPoll E V3dHub V3D_MMU_CTL 0x80 0
     })
   }"

definition V3dPte :: "u64 \<Rightarrow> u32 \<Rightarrow> u32" where
  "V3dPte address writable =
     (if writable > 1 \<or> address AND 4095 \<noteq> 0 \<or> address \<ge> 0x1000000000 then 0
      else ucast (drop_bit 12 address) OR V3D_PTE_VALID OR (if writable \<noteq> 0 then V3D_PTE_WRITE else 0))"

definition V3dMmuStart :: "env \<Rightarrow> u64 \<Rightarrow> u64 \<Rightarrow> (V3D_IO, v3d_result) prog" where
  "V3dMmuStart E table trap =
     (if V3dPte table 0 = 0 \<or> V3dPte trap 0 = 0 \<or> table > 0x1000000000 - ucast V3D_TABLE_BYTES then ret V3dInvalid
      else do {
        io_write V3dHub V3D_MMU_PT (ucast (drop_bit 12 table));
        io_write V3dHub V3D_MMU_TRAP (ucast (drop_bit 12 trap) OR 0x80000000);
        io_write V3dHub V3D_MMU_CTL V3D_MMU_ON;
        V3dMmuFlush E
      })"

section \<open>Transfers\<close>

definition V3dSubmitTransferAt :: "u32 \<Rightarrow> u32 \<Rightarrow> u32 \<Rightarrow> u32 \<Rightarrow> u32 \<Rightarrow> u32 \<Rightarrow> (V3D_IO, unit) prog" where
  "V3dSubmitTransferAt width height source destination stride config = do {
     io_write V3dHub 0x704 0;
     io_write V3dHub 0x70c source;
     io_write V3dHub 0x710 0;
     io_write V3dHub 0x714 stride;
     io_write V3dHub 0x718 0;
     io_write V3dHub 0x71c config;
     io_write V3dHub 0x720 destination;
     io_write V3dHub 0x724 (push_bit 16 height OR width);
     io_write V3dHub 0x728 0;
     io_write V3dHub 0x72c 0;
     io_write V3dHub 0x730 0;
     io_write V3dHub 0x734 0;
     io_write V3dHub V3D_TFU_ICFG (push_bit 16 29 OR 1)
   }"

definition V3dSubmitCopyAt :: "u32 \<Rightarrow> u32 \<Rightarrow> u32 \<Rightarrow> u32 \<Rightarrow> (V3D_IO, unit) prog" where
  "V3dSubmitCopyAt width height source destination = V3dSubmitTransferAt width height source destination width (push_bit 16 width)"

definition V3dSubmitCopy :: "u32 \<Rightarrow> u32 \<Rightarrow> (V3D_IO, unit) prog" where
  "V3dSubmitCopy width height = V3dSubmitCopyAt width height V3D_SOURCE_VA V3D_DEST_VA"

text \<open>The padded width and height of a layout in pixels.\<close>

definition texture_padded :: "u32 \<Rightarrow> u32 \<Rightarrow> u32 \<Rightarrow> u32 \<Rightarrow> (u32 \<times> u32) option" where
  "texture_padded width height layout rows =
     (if layout = 3 then
        if rows \<noteq> 0 \<or> width > 4 \<and> height > 4 then None else Some ((width + 3) AND NOT 3, (height + 3) AND NOT 3)
      else if layout = 4 \<or> layout = 5 then
        let w = (if layout = 4 then 8 else 16) in
        if rows \<noteq> 0 \<or> width > w then None else Some (w, (height + 7) AND NOT 7)
      else if layout = 6 \<or> layout = 7 then
        if rows < (height + 7) div 8 \<or> rows > 512 \<or> layout = 7 \<and> rows AND 31 \<noteq> 0 then None
        else Some ((width + 31) AND NOT 31, rows * 8)
      else None)"

text \<open>The bytes read, the bytes written, and the configuration word.\<close>

definition V3dTextureLayout :: "u32 \<Rightarrow> u32 \<Rightarrow> u32 \<Rightarrow> u32 \<Rightarrow> u32 \<Rightarrow> (u32 \<times> u32 \<times> u32) option" where
  "V3dTextureLayout width height pitch layout rows =
     (if width = 0 \<or> width > 4096 \<or> height = 0 \<or> height > 4096 \<or> pitch < width * 4 \<or> pitch > 16384 \<or> pitch AND 3 \<noteq> 0 then None
      else case texture_padded width height layout rows of
        None \<Rightarrow> None
      | Some (w, h) \<Rightarrow> Some (pitch * height, w * h * 4, push_bit 12 layout OR push_bit 16 rows))"

section \<open>Programs\<close>

definition V3dInvalidate :: "env \<Rightarrow> (V3D_IO, v3d_result) prog" where
  "V3dInvalidate E = v3d_then (V3dIdle E) (do {
     io_write V3dCore 0x34 0;
     io_write V3dCore 0x38 0xffffffff;
     io_write V3dCore 0x30 1;
     v3d_then (V3dPoll E V3dCore 0x30 1 0) (do {
       io_write V3dCore 0x24 0x0f0f0f0f;
       ret V3dOk
     })
   })"

definition V3dSubmitCompute :: "u32 \<Rightarrow> (V3D_IO, unit) prog" where
  "V3dSubmitCompute revision = do {
     io_write V3dCore 0x934 (push_bit 16 1);
     io_write V3dCore 0x938 (push_bit 16 1);
     io_write V3dCore 0x93c 0x110;
     io_write V3dCore 0x940 (if revision \<ge> 6 then 1 else 0);
     io_write V3dCore 0x944 (V3D_CODE_VA OR 1);
     io_write V3dCore 0x948 V3D_UNIFORM_VA;
     io_write V3dCore 0x94c 0;
     io_write V3dCore 0x930 (push_bit 16 1)
   }"

definition V3dSubmitRenderAt :: "u32 \<Rightarrow> u32 \<Rightarrow> (V3D_IO, unit) prog" where
  "V3dSubmitRenderAt start end' = do {
     modify (\<lambda>io. io\<lparr>vi_RenderStart := start, vi_RenderEnd := end'\<rparr>);
     io_write V3dCore 0x164 start;
     io_write V3dCore 0x16c end'
   }"

definition V3dSubmitRender :: "u32 \<Rightarrow> (V3D_IO, unit) prog" where
  "V3dSubmitRender count = V3dSubmitRenderAt V3D_CODE_VA (V3D_CODE_VA + count)"

definition V3dSubmitBinAt :: "u32 \<Rightarrow> u32 \<Rightarrow> u32 \<Rightarrow> u32 \<Rightarrow> u32 \<Rightarrow> (V3D_IO, unit) prog" where
  "V3dSubmitBinAt start end' tile count state = do {
     modify (\<lambda>io. io\<lparr>vi_BinStart := start, vi_BinEnd := end'\<rparr>);
     io_write V3dCore 0x30c 0;
     io_write V3dCore 0x170 tile;
     io_write V3dCore 0x174 count;
     io_write V3dCore 0x15c (state OR 2);
     io \<leftarrow> gets id;
     io_write V3dCore 0x160 (vi_BinStart io);
     io_write V3dCore 0x168 (vi_BinEnd io)
   }"

text \<open>The command list that clears one tile. A store outside of the buffer has no value.\<close>

definition store_byte :: "u8 list option \<Rightarrow> nat \<Rightarrow> u8 \<Rightarrow> u8 list option" where
  "store_byte dst at v = (case dst of None \<Rightarrow> None | Some l \<Rightarrow> if at < length l then Some (l[at := v]) else None)"

definition Packet :: "u32 \<Rightarrow> u64 \<Rightarrow> nat \<Rightarrow> nat \<times> u8 list option \<Rightarrow> nat \<times> u8 list option" where
  "Packet opcode payload count a =
     fold (\<lambda>i (at, dst). (at + 1, store_byte dst at (ucast (drop_bit (i * 8) payload)))) [0..<count]
       (fst a + 1, store_byte (snd a) (fst a) (ucast opcode))"

definition dummy_store :: "bool \<Rightarrow> nat \<times> u8 list option \<Rightarrow> nat \<times> u8 list option" where
  "dummy_store first a =
     Packet 27 0 0 ((if first then Packet 25 0 0 else (\<lambda>a. a)) (Packet 0 0 3 (Packet 29 8 8 (Packet 26 0 0 (Packet 124 0 3 a)))))"

definition V3dBuildClear :: "u8 list \<Rightarrow> u32 \<Rightarrow> u32 \<Rightarrow> u32 \<Rightarrow> u32 \<Rightarrow> nat \<times> u8 list option" where
  "V3dBuildClear dst capacity width height color =
     (if capacity < 128 \<or> width = 0 \<or> width > 64 \<or> height = 0 \<or> height > 32 then (0, Some dst)
      else let
        a = Packet 121 (push_bit 8 (ucast width) OR push_bit 24 (ucast height) OR push_bit 44 1 OR push_bit 46 1 OR push_bit 52 3 OR
              push_bit 55 2) 8 (0, Some dst);
        a = Packet 121 (2 OR push_bit 18 31 OR push_bit 27 8 OR push_bit 32 (ucast color)) 8 a;
        a = Packet 121 1 8 a;
        a = dummy_store False (dummy_store True a);
        a = Packet 19 0 0 a;
        a = Packet 124 0 3 a;
        a = Packet 26 0 0 a;
        a = Packet 29 (push_bit 12 27 OR push_bit 28 (ucast (width * 4))) 8 a;
        a = Packet (V3D_DEST_VA AND 255) (ucast (drop_bit 8 V3D_DEST_VA)) 3 a;
        a = Packet 27 0 0 a
      in Packet 13 0 0 a)"

section \<open>The triangle of the self-test\<close>

definition TriangleGeneric :: "u8 list" where
  "TriangleGeneric =
    [0x7d, 0x1a, 0x38, 0x02, 0x36, 0x00, 0x00, 0x00, 0x00, 0x15, 0x00, 0x1d, 0x00, 0xb0, 0x01, 0x00,
     0x10, 0x00, 0x00, 0x00, 0x00, 0x00, 0x02, 0x00, 0x1b, 0x12]"

definition TriangleRcl :: "u8 list" where
  "TriangleRcl =
    [0x79, 0x00, 0x40, 0x00, 0x20, 0x00, 0x50, 0x30, 0x01, 0x79, 0x02, 0x00, 0x7c, 0x40, 0x00, 0x00,
     0x00, 0x00, 0x79, 0x01, 0x00, 0x00, 0x00, 0x00, 0x00, 0x00, 0x00, 0x7e, 0x04, 0x7b, 0x00, 0x00,
     0x05, 0x00, 0x7a, 0x00, 0x00, 0x01, 0x01, 0x01, 0x10, 0x00, 0x00, 0x7c, 0x00, 0x00, 0x00, 0x1a,
     0x1d, 0x08, 0x00, 0x00, 0x00, 0x00, 0x00, 0x00, 0x00, 0x00, 0x00, 0x00, 0x00, 0x19, 0x1b, 0x7c,
     0x00, 0x00, 0x00, 0x1a, 0x1d, 0x08, 0x00, 0x00, 0x00, 0x00, 0x00, 0x00, 0x00, 0x00, 0x00, 0x00,
     0x00, 0x1b, 0x13, 0x14, 0x00, 0x02, 0x03, 0x00, 0x1a, 0x02, 0x03, 0x00, 0x17, 0x00, 0x00, 0x0d]"

definition TriangleBcl :: "u8 list" where
  "TriangleBcl =
    [0x77, 0x00, 0x78, 0x10, 0x13, 0x00, 0x00, 0x3f, 0x00, 0x1f, 0x00, 0x13, 0x5c, 0x00, 0x00, 0x00,
     0x00, 0x06, 0x6b, 0x00, 0x00, 0x00, 0x00, 0x40, 0x00, 0x20, 0x00, 0x6c, 0x00, 0x20, 0x00, 0x00,
     0x00, 0x10, 0x00, 0x00, 0x6e, 0x00, 0x00, 0x00, 0x45, 0x00, 0x00, 0x80, 0x44, 0x6f, 0x00, 0x00,
     0x00, 0x3f, 0x00, 0x00, 0x00, 0x3f, 0x6d, 0x00, 0x00, 0x00, 0x00, 0x00, 0x00, 0x80, 0x3f, 0x60,
     0x03, 0x70, 0x00, 0x57, 0xf0, 0xff, 0xff, 0xff, 0x5b, 0x0f, 0x00, 0x80, 0x3f, 0x61, 0x63, 0x58,
     0x47, 0x22, 0x40, 0x02, 0x03, 0x03, 0x00, 0x24, 0x04, 0x03, 0x00, 0x00, 0x00, 0x00, 0x00, 0x00,
     0x00, 0x04]"

definition TriangleState :: "u8 list" where
  "TriangleState =
    [0x02, 0x20, 0x20, 0x00, 0x01, 0x00, 0x01, 0x00, 0x01, 0x08, 0x03, 0x00, 0x00, 0x00, 0x04, 0x00,
     0x01, 0x06, 0x03, 0x00, 0x00, 0x00, 0x04, 0x00, 0x01, 0x04, 0x03, 0x00, 0x00, 0x00, 0x04, 0x00,
     0x00, 0x00, 0x01, 0x00, 0x98, 0x04, 0x00, 0x00, 0x20, 0x00, 0x00, 0x00, 0x02, 0x00, 0x00, 0x00,
     0x10, 0x00, 0x01, 0x00, 0x98, 0x42, 0x00, 0x00, 0x20, 0x00, 0x00, 0x00, 0x02, 0x00, 0x00, 0x00]"

definition TriangleCs :: "u64 list" where
  "TriangleCs =
    [0x39c02180bc03f000, 0x38003186bb03f000, 0x39c02181bc03f040, 0x38003186bb03f000, 0x39c02182bc03f080,
     0x38003186bb03f000, 0x39c02183bc03f0c0, 0x38003186bb03f000, 0x39c02184bc03f100, 0x38003186bb03f000,
     0x39c02185bc03f140, 0x38003186bb03f000, 0x38203186bb03f000, 0x38203186bb03f000, 0x38003186bb03f000,
     0x39c02180be03f000, 0x38003186bb03f000, 0x39c02180be03f041, 0x38003186bb03f000, 0x39c02180be03f082,
     0x38003186bb03f000, 0x39c02180be03f0c3, 0x38003186bb03f000, 0x39c02180be03f104, 0x38003186bb03f000,
     0x39c02180be03f145, 0x38003186bb03f000, 0x38003186bb03f000, 0x38203186bb03f000, 0x38003186bb03f000,
     0x38003186bb03f000]"

definition TriangleVs :: "u64 list" where
  "TriangleVs =
    [0x39c02180bc03f000, 0x38003186bb03f000, 0x39c02181bc03f040, 0x38003186bb03f000, 0x39c02182bc03f080,
     0x38003186bb03f000, 0x39c02183bc03f0c0, 0x38003186bb03f000, 0x38203186bb03f000, 0x38203186bb03f000,
     0x38003186bb03f000, 0x39c02180be03f000, 0x38003186bb03f000, 0x39c02180be03f041, 0x38003186bb03f000,
     0x39c02180be03f082, 0x38003186bb03f000, 0x39c02180be03f0c3, 0x38003186bb03f000, 0x38003186bb03f000,
     0x38203186bb03f000, 0x38003186bb03f000, 0x38003186bb03f000]"

definition TriangleFs :: "u64 list" where
  "TriangleFs =
    [0x39803186bb03f000, 0x39807186bb03f000, 0x3980b186bb03f000, 0x3980f186bb03f000, 0x38203186bb03f000,
     0x38203186bb03f000, 0x38003186bb03f000, 0x38003188b603f000, 0x38003187b603f041, 0x38003187b603f082,
     0x38003187b603f0c3, 0x38003186bb03f000, 0x38203186bb03f000, 0x38003186bb03f000, 0x38003186bb03f000]"

definition V3dTriangleRclBytes :: u32 where
  "V3dTriangleRclBytes = of_nat (length TriangleRcl)"

definition V3dTriangleBclBytes :: u32 where
  "V3dTriangleBclBytes = of_nat (length TriangleBcl)"

text \<open>Half of an instruction, and four bytes of a command list with the colour patched in.\<close>

definition half_word :: "u64 list \<Rightarrow> nat \<Rightarrow> nat \<Rightarrow> u32" where
  "half_word code offset index = ucast (drop_bit ((index mod 2) * 32) (code ! (offset div 8)))"

definition code_byte :: "u8 list \<Rightarrow> nat \<Rightarrow> u32 \<Rightarrow> nat \<Rightarrow> u32" where
  "code_byte data base color at =
     (if at \<ge> 14 \<and> at < 18 then drop_bit ((at - 14) * 8) color AND 255
      else if at \<ge> base \<and> at - base < length data then ucast (data ! (at - base)) else 0)"

definition code_word :: "u8 list \<Rightarrow> nat \<Rightarrow> u32 \<Rightarrow> nat \<Rightarrow> u32" where
  "code_word data base color offset = fold (\<lambda>j word. word OR push_bit (j * 8) (code_byte data base color (offset + j))) [0..<4] 0"

definition V3dTriangleCodeWord :: "nat \<Rightarrow> u32 \<Rightarrow> u32" where
  "V3dTriangleCodeWord index color =
     (let offset = index * 4 in
      if index \<ge> 1024 then 0xbadc0ffe
      else if offset \<ge> 0x400 \<and> offset < 0x400 + 8 * length TriangleCs then half_word TriangleCs (offset - 0x400) index
      else if offset \<ge> 0x600 \<and> offset < 0x600 + 8 * length TriangleVs then half_word TriangleVs (offset - 0x600) index
      else if offset \<ge> 0x800 \<and> offset < 0x800 + 8 * length TriangleFs then half_word TriangleFs (offset - 0x800) index
      else if offset < length TriangleRcl then code_word TriangleRcl 0 color offset
      else if offset \<ge> 0x100 \<and> offset < 0x100 + length TriangleBcl then code_word TriangleBcl 0x100 color offset
      else if offset \<ge> 0x200 \<and> offset < 0x200 + length TriangleGeneric then code_word TriangleGeneric 0x200 color offset
      else if offset \<ge> 0x300 \<and> offset < 0x300 + length TriangleState then code_word TriangleState 0x300 color offset
      else 0xbadc0ffe)"

definition triangle_vertices :: "u32 list" where
  "triangle_vertices =
    [0xbf400000, 0xbf000000, 0, 0x3f800000, 0xfffffa00, 0xfffffe00, 0x3f000000, 0x3f800000,
     0x3f380000, 0xbf000000, 0, 0x3f800000, 0x000005c0, 0xfffffe00, 0x3f000000, 0x3f800000,
     0xbf400000, 0x3f000000, 0, 0x3f800000, 0xfffffa00, 0x00000200, 0x3f000000, 0x3f800000]"

definition V3dTriangleSourceWord :: "nat \<Rightarrow> u32" where
  "V3dTriangleSourceWord index = (if index < length triangle_vertices then triangle_vertices ! index else 0xbadc0ffe)"

definition triangle_uniforms :: "u32 list" where
  "triangle_uniforms = [0, 0x3f800000, 0, 0x3f800000, 0xffffff3f]"

definition V3dTriangleUniformWord :: "nat \<Rightarrow> u32" where
  "V3dTriangleUniformWord index = (if index < length triangle_uniforms then triangle_uniforms ! index else 0xbadc0ffe)"

definition V3dTrianglePixel :: "nat \<Rightarrow> u32 \<Rightarrow> u32" where
  "V3dTrianglePixel index color =
     (let x = index mod 64; y = index div 64 in
      if x \<ge> 8 \<and> y \<ge> 8 \<and> 16 * (x - 8) + 47 * (y - 8) \<le> 720 then 0xff00ff00 else color)"

definition V3dSubmitBin :: "(V3D_IO, unit) prog" where
  "V3dSubmitBin = V3dSubmitBinAt (V3D_CODE_VA + 0x100) (V3D_CODE_VA + 0x100 + of_nat (length TriangleBcl)) V3D_TILE_VA V3D_TILE_BYTES
     V3D_TILE_STATE_VA"

end
