(* ===== verification/V3d_Session.thy ===== *)
theory V3d_Session
  imports V3d_Hardware
begin

text \<open>
  The state of the GPU driver and its sessions (\<open>pi5-v3d/driver.c\<close>): faults, the providers of clock and reset, guarded
  DMA buffers, reset, begin and end. Common buffers are banks of the environment, because the GPU may write them: 3 to 10 are
  the fixed buffers, \<open>11 + i\<close> the object in slot \<open>i\<close>.
\<close>

unbundle bit_operations_syntax

section \<open>State\<close>

abbreviation V3D_GUARD :: u32 where "V3D_GUARD \<equiv> 0xbadc0ffe"

record V3D_BUFFER =
  vb_Cpu :: ptr
  vb_Dma :: u64
  vb_Bytes :: u32

record V3D_OBJECT =
  vo_Buffer :: V3D_BUFFER
  vo_ImportedMdl :: ptr
  vo_Handle :: u32
  vo_Address :: u32
  vo_Bytes :: u32
  vo_Flags :: u32

record V3D_STATUS =
  vs_Online :: u32
  vs_Owner :: u32
  vs_Fault :: u32
  vs_Phase :: u32
  vs_LastStatus :: u32
  vs_HubIdent :: "u32 list"
  vs_CoreIdent :: "u32 list"
  vs_MmuInfo :: u32
  vs_TechVersion :: u32
  vs_PaBits :: u32
  vs_VaBits :: u32
  vs_SmsInitial :: u32
  vs_SmsRee :: u32
  vs_SmsTee :: u32
  vs_Tfu :: u32
  vs_Csd :: u32
  vs_Ct0 :: u32
  vs_Ct1 :: u32
  vs_Gmp :: u32
  vs_MmuControl :: u32
  vs_MmuCache :: u32
  vs_MmuVioId :: u32
  vs_MmuVioAddress :: u32
  vs_HubInterrupts :: u32
  vs_CoreInterrupts :: u32
  vs_HubPending :: u32
  vs_CorePending :: u32
  vs_Copies :: u32
  vs_Resets :: u32
  vs_InterruptChecks :: u32
  vs_Failures :: u32
  vs_AllocatedBytes :: u32
  vs_MmuHits :: u32
  vs_MmuMisses :: u32
  vs_GuardFailures :: u32
  vs_ScratchWrites :: u32
  vs_TableDma :: u64
  vs_SourceDma :: u64
  vs_DestinationDma :: u64

record V3D_COMPUTE_STATUS =
  vq_Version :: u32
  vq_Jobs :: u32
  vq_Invalidations :: u32
  vq_IpRevision :: u32
  vq_CsdBefore :: u32
  vq_CsdAfter :: u32
  vq_CodeBytes :: u32
  vq_Submitted :: u64
  vq_Completed :: u64
  vq_CodeDma :: u64
  vq_UniformDma :: u64

record V3D_RENDER_STATUS =
  vr_Version :: u32
  vr_Jobs :: u32
  vr_CommandBytes :: u32
  vr_Invalidations :: u32
  vr_CtBefore :: u32
  vr_CtAfter :: u32
  vr_Current :: u32
  vr_End :: u32
  vr_QueueCurrent :: u32
  vr_QueueEnd :: u32
  vr_FramesBefore :: u32
  vr_FramesAfter :: u32
  vr_Submitted :: u64
  vr_Completed :: u64
  vr_BinBytes :: u32
  vr_BinBefore :: u32
  vr_BinAfter :: u32
  vr_BinCurrent :: u32
  vr_BinEnd :: u32
  vr_MismatchIndex :: u32
  vr_Observed :: u32
  vr_Expected :: u32

text \<open>The buffers of the fixed session are told apart by a name, those of the memory session by their slot.
  The page table is written by the processor only; its entries are kept in the state as well.\<close>

datatype v3d_fixed = MTable | MTrap | MSource | MDestination | MCode | MUniform | MTile | MTileState

datatype v3d_ref = VFixed v3d_fixed | VObject nat

record V3D_CONTEXT =
  v3_Clock :: ptr
  v3_Pm :: ptr
  v3_IrqLive :: "nat \<Rightarrow> bool"
  v3_Pending :: "nat \<Rightarrow> u32"
  v3_InterruptCount :: "nat \<Rightarrow> u32"
  v3_Registers :: "ptr list"
  v3_Io :: V3D_IO
  v3_Adapter :: ptr
  v3_Fixed :: "v3d_fixed \<Rightarrow> V3D_BUFFER"
  v3_Objects :: "V3D_OBJECT list"
  v3_Entries :: "nat \<Rightarrow> u32"
  v3_ObjectSerial :: u32
  v3_ObjectBytes :: u32
  v3_ImportedBytes :: u32
  v3_MemorySubmitted :: u64
  v3_MemoryCompleted :: u64
  v3_MemorySession :: bool
  v3_GuardsClean :: bool
  v3_Owner :: ptr
  v3_ClockLease :: bool
  v3_PmLease :: bool
  v3_Powered :: bool
  v3_Claimed :: bool
  v3_Woke :: bool
  v3_Status :: V3D_STATUS
  v3_ComputeStatus :: V3D_COMPUTE_STATUS
  v3_RenderStatus :: V3D_RENDER_STATUS
  v3_BootFault :: bool

definition vb_zero :: V3D_BUFFER where
  "vb_zero = \<lparr>vb_Cpu = 0, vb_Dma = 0, vb_Bytes = 0\<rparr>"

definition vo_zero :: V3D_OBJECT where
  "vo_zero = \<lparr>vo_Buffer = vb_zero, vo_ImportedMdl = 0, vo_Handle = 0, vo_Address = 0, vo_Bytes = 0, vo_Flags = 0\<rparr>"

fun v3d_fixed_bank :: "v3d_fixed \<Rightarrow> u32" where
  "v3d_fixed_bank MTable = 3"
| "v3d_fixed_bank MTrap = 4"
| "v3d_fixed_bank MSource = 5"
| "v3d_fixed_bank MDestination = 6"
| "v3d_fixed_bank MCode = 7"
| "v3d_fixed_bank MUniform = 8"
| "v3d_fixed_bank MTile = 9"
| "v3d_fixed_bank MTileState = 10"

fun v3d_bank :: "v3d_ref \<Rightarrow> u32" where
  "v3d_bank (VFixed m) = v3d_fixed_bank m"
| "v3d_bank (VObject i) = 11 + of_nat i"

fun v3d_buffer :: "v3d_ref \<Rightarrow> V3D_CONTEXT \<Rightarrow> V3D_BUFFER" where
  "v3d_buffer (VFixed m) c = v3_Fixed c m"
| "v3d_buffer (VObject i) c = vo_Buffer (v3_Objects c ! i)"

fun v3d_set_buffer :: "v3d_ref \<Rightarrow> (V3D_BUFFER \<Rightarrow> V3D_BUFFER) \<Rightarrow> V3D_CONTEXT \<Rightarrow> V3D_CONTEXT" where
  "v3d_set_buffer (VFixed m) f c = c\<lparr>v3_Fixed := (v3_Fixed c)(m := f (v3_Fixed c m))\<rparr>"
| "v3d_set_buffer (VObject i) f c =
     c\<lparr>v3_Objects := (v3_Objects c)[i := (v3_Objects c ! i)\<lparr>vo_Buffer := f (vo_Buffer (v3_Objects c ! i))\<rparr>]\<rparr>"

abbreviation v3_stats :: "(V3D_STATUS \<Rightarrow> V3D_STATUS) \<Rightarrow> (V3D_CONTEXT, unit) prog" where
  "v3_stats f \<equiv> modify (\<lambda>c. c\<lparr>v3_Status := f (v3_Status c)\<rparr>)"

abbreviation v3_phase :: "u32 \<Rightarrow> (V3D_CONTEXT, unit) prog" where
  "v3_phase n \<equiv> v3_stats (\<lambda>s. s\<lparr>vs_Phase := n\<rparr>)"

abbreviation on_io :: "(V3D_IO, 'a) prog \<Rightarrow> (V3D_CONTEXT, 'a) prog" where
  "on_io m \<equiv> zoom v3_Io v3_Io_update m"

section \<open>Faults and observation\<close>

definition v3d_status :: "v3d_result \<Rightarrow> NTSTATUS" where
  "v3d_status result = (case result of V3dOk \<Rightarrow> STATUS_SUCCESS | V3dTimeout \<Rightarrow> STATUS_IO_TIMEOUT | V3dBusy \<Rightarrow> STATUS_DEVICE_BUSY
     | V3dInvalid \<Rightarrow> STATUS_INVALID_PARAMETER)"

definition V3d_Hw :: "(V3D_IO, v3d_result) prog \<Rightarrow> (V3D_CONTEXT, NTSTATUS) prog" where
  "V3d_Hw m = do { result \<leftarrow> on_io m; ret (v3d_status result) }"

definition V3d_Marker :: "env \<Rightarrow> bool \<Rightarrow> ('s, NTSTATUS) prog" where
  "V3d_Marker E create = do {
     s \<leftarrow> (if create then kernel_status E ''ZwCreateKey'' [] else kernel_status E ''ZwOpenKey'' []);
     whenM (NT_SUCCESS s) (kernel_do E ''ZwClose'' []);
     ret s
   }"

definition V3d_Fault :: "env \<Rightarrow> NTSTATUS \<Rightarrow> (V3D_CONTEXT, NTSTATUS) prog" where
  "V3d_Fault E s = do {
     modify (\<lambda>c. c\<lparr>v3_BootFault := True\<rparr>);
     v3_stats (\<lambda>x. x\<lparr>vs_Fault := 1, vs_LastStatus := s, vs_Failures := vs_Failures x + 1\<rparr>);
     kernel_do E ''WdfDeviceSetStaticStopRemove'' [0];
     V3d_Marker E True;
     ret s
   }"

text \<open>A step whose failure is a fault, and a step whose failure is just returned.\<close>

definition v3d_require_or :: "(NTSTATUS \<Rightarrow> 'a) \<Rightarrow> env \<Rightarrow> (V3D_CONTEXT, NTSTATUS) prog \<Rightarrow> (V3D_CONTEXT, 'a) prog \<Rightarrow> (V3D_CONTEXT, 'a) prog" where
  "v3d_require_or f E m k = do { s \<leftarrow> m; if s \<noteq> STATUS_SUCCESS then do { s \<leftarrow> V3d_Fault E s; ret (f s) } else k }"

abbreviation v3d_require :: "env \<Rightarrow> (V3D_CONTEXT, NTSTATUS) prog \<Rightarrow> (V3D_CONTEXT, NTSTATUS) prog \<Rightarrow> (V3D_CONTEXT, NTSTATUS) prog" where
  "v3d_require \<equiv> v3d_require_or (\<lambda>s. s)"

definition v3d_chain :: "('s, NTSTATUS) prog \<Rightarrow> ('s, NTSTATUS) prog \<Rightarrow> ('s, NTSTATUS) prog" where
  "v3d_chain m k = do { s \<leftarrow> m; if s \<noteq> STATUS_SUCCESS then ret s else k }"

definition V3d_Snapshot :: "env \<Rightarrow> (V3D_CONTEXT, unit) prog" where
  "V3d_Snapshot E = do {
     modify (\<lambda>c. c\<lparr>v3_Status := (v3_Status c)\<lparr>vs_Owner := c_bool (v3_Owner c \<noteq> 0), vs_Fault := c_bool (v3_BootFault c),
       vs_HubInterrupts := v3_InterruptCount c 0, vs_CoreInterrupts := v3_InterruptCount c 1,
       vs_HubPending := v3_Pending c 0, vs_CorePending := v3_Pending c 1\<rparr>\<rparr>);
     powered \<leftarrow> gets v3_Powered;
     whenM powered (do {
       ree \<leftarrow> io_read E V3dSms 0;
       tee \<leftarrow> io_read E V3dSms 0x400;
       v3_stats (\<lambda>s. s\<lparr>vs_SmsRee := ree, vs_SmsTee := tee\<rparr>);
       whenM (tee AND 15 = 0) (do {
         hub \<leftarrow> mapM [0..<4] (\<lambda>i. io_read E V3dHub (8 + of_nat i * 4));
         core \<leftarrow> mapM [0..<3] (\<lambda>i. io_read E V3dCore (of_nat i * 4));
         info \<leftarrow> io_read E V3dHub 0x1238;
         modify (\<lambda>c. c\<lparr>v3_ComputeStatus := (v3_ComputeStatus c)\<lparr>vq_IpRevision := drop_bit 8 (hub ! 3) AND 255\<rparr>\<rparr>);
         tfu \<leftarrow> io_read E V3dHub V3D_TFU_CS;
         csd \<leftarrow> io_read E V3dCore 0x900;
         ct0 \<leftarrow> io_read E V3dCore 0x100;
         ct1 \<leftarrow> io_read E V3dCore 0x104;
         gmp \<leftarrow> io_read E V3dHub V3D_GMP_STATUS;
         control \<leftarrow> io_read E V3dHub V3D_MMU_CTL;
         cache \<leftarrow> io_read E V3dHub V3D_MMUC;
         vid \<leftarrow> io_read E V3dHub 0x122c;
         vaddr \<leftarrow> io_read E V3dHub 0x1234;
         hits \<leftarrow> io_read E V3dHub 0x1208;
         misses \<leftarrow> io_read E V3dHub 0x120c;
         v3_stats (\<lambda>s. s\<lparr>vs_HubIdent := hub, vs_CoreIdent := core, vs_MmuInfo := info,
           vs_TechVersion := (hub ! 1 AND 15) * 10 + (drop_bit 4 (hub ! 1) AND 15),
           vs_PaBits := 30 + (drop_bit 8 info AND 15), vs_VaBits := 30 + (drop_bit 4 info AND 15),
           vs_Tfu := tfu, vs_Csd := csd, vs_Ct0 := ct0, vs_Ct1 := ct1, vs_Gmp := gmp,
           vs_MmuControl := control, vs_MmuCache := cache, vs_MmuVioId := vid, vs_MmuVioAddress := vaddr,
           vs_MmuHits := hits, vs_MmuMisses := misses\<rparr>)
       })
     })
   }"

section \<open>The providers\<close>

text \<open>Opening a device by its name. The result is the target, zero if there is none.\<close>

definition V3d_Open :: "env \<Rightarrow> string \<Rightarrow> ptr \<Rightarrow> ('s, NTSTATUS \<times> ptr) prog" where
  "V3d_Open E name target =
     (if target \<noteq> 0 then ret (STATUS_SUCCESS, target)
      else do {
        s \<leftarrow> kernel_status E ''WdfIoTargetCreate'' [];
        if \<not> NT_SUCCESS s then ret (s, 0)
        else do {
          target \<leftarrow> io_call E ''WdfIoTargetCreate.Target'' [];
          s \<leftarrow> kernel_status E (''WdfIoTargetOpen '' @ name) [target];
          if \<not> NT_SUCCESS s then do { kernel_do E ''WdfObjectDelete'' [target]; ret (s, 0) }
          else do { kernel_do E ''IoInvalidateDeviceRelations'' []; ret (s, target) }
        }
      })"

definition V3d_Close :: "env \<Rightarrow> ptr \<Rightarrow> ('s, unit) prog" where
  "V3d_Close E target = whenM (target \<noteq> 0) (do { kernel_do E ''WdfIoTargetClose'' [target]; kernel_do E ''WdfObjectDelete'' [target] })"

definition V3d_Send :: "env \<Rightarrow> ptr \<Rightarrow> u64 \<Rightarrow> u64 list \<Rightarrow> u64 \<Rightarrow> ('s, NTSTATUS) prog" where
  "V3d_Send E target code input ol = do {
     s \<leftarrow> kernel_status E ''WdfIoTargetSendIoctlSynchronously'' ([target, code] @ input);
     used \<leftarrow> io_call E ''WdfIoTargetSendIoctlSynchronously.BytesReturned'' [];
     ret (if s = STATUS_SUCCESS \<and> used \<noteq> ol then STATUS_DEVICE_PROTOCOL_ERROR else s)
   }"

abbreviation FCLK_ACQUIRE :: u64 where "FCLK_ACQUIRE \<equiv> 0x861"
abbreviation FCLK_RELEASE :: u64 where "FCLK_RELEASE \<equiv> 0x862"
abbreviation FCLK_SET_RATE :: u64 where "FCLK_SET_RATE \<equiv> 0x863"
abbreviation FCLK_SET_STATE :: u64 where "FCLK_SET_STATE \<equiv> 0x864"
abbreviation V3D_PM_ACQUIRE :: u64 where "V3D_PM_ACQUIRE \<equiv> 0x881"
abbreviation V3D_PM_TRANSITION :: u64 where "V3D_PM_TRANSITION \<equiv> 0x882"
abbreviation V3D_PM_RELEASE :: u64 where "V3D_PM_RELEASE \<equiv> 0x883"

text \<open>One request to the clock service, with the rate and the maximum of its reply. Switching the clock on is followed by
  a request for its maximum rate.\<close>

definition V3d_Clock_once :: "env \<Rightarrow> u64 \<Rightarrow> u32 \<Rightarrow> (V3D_CONTEXT, NTSTATUS \<times> u32 \<times> u32) prog" where
  "V3d_Clock_once E code value = do {
     target \<leftarrow> gets v3_Clock;
     s \<leftarrow> V3d_Send E target code [1, 5, ucast value, 0] 32;
     version \<leftarrow> io_call E ''PI5_FCLK_STATUS.Version'' [];
     id' \<leftarrow> io_call E ''PI5_FCLK_STATUS.Id'' [];
     flags \<leftarrow> io_call E ''PI5_FCLK_STATUS.Flags'' [];
     rate \<leftarrow> io_call E ''PI5_FCLK_STATUS.RateHz'' [];
     maximum \<leftarrow> io_call E ''PI5_FCLK_STATUS.MaxHz'' [];
     ret (if s = STATUS_SUCCESS \<and> (version \<noteq> 1 \<or> id' \<noteq> 5 \<or> flags AND 4 \<noteq> 0) then STATUS_DEVICE_PROTOCOL_ERROR else s,
       ucast rate, ucast maximum)
   }"

definition V3d_Clock :: "env \<Rightarrow> u64 \<Rightarrow> u32 \<Rightarrow> (V3D_CONTEXT, NTSTATUS) prog" where
  "V3d_Clock E code value = do {
     (s, rate, maximum) \<leftarrow> V3d_Clock_once E code value;
     if s = STATUS_SUCCESS \<and> code = FCLK_SET_STATE \<and> value \<noteq> 0 \<and> maximum > rate
     then do { (s, rate, m) \<leftarrow> V3d_Clock_once E FCLK_SET_RATE maximum; ret s }
     else ret s
   }"

definition V3d_Pm :: "env \<Rightarrow> u64 \<Rightarrow> (V3D_CONTEXT, NTSTATUS) prog" where
  "V3d_Pm E code = do { target \<leftarrow> gets v3_Pm; V3d_Send E target code [1, 1, 0, 0] 0 }"

definition V3d_Pulse :: "env \<Rightarrow> (V3D_CONTEXT, NTSTATUS) prog" where
  "V3d_Pulse E = do { target \<leftarrow> gets v3_Pm; V3d_Send E target V3D_PM_TRANSITION [1, 1, 3, 0] 0 }"

text \<open>The hardware description must name this driver and the two providers. A reply is outside of the model; the
  comparison of a string in it with a name is a question to the environment.\<close>

definition v3d_owner_is :: "env \<Rightarrow> string \<Rightarrow> ('s, NTSTATUS) prog" where
  "v3d_owner_is E name = do {
     same \<leftarrow> io_call E (''PI5_GRAPH_NODE.Owner == '' @ name) [];
     ret (if same = 0 then STATUS_DEVICE_CONFIGURATION_ERROR else STATUS_SUCCESS)
   }"

definition v3d_graph_reference :: "env \<Rightarrow> ptr \<Rightarrow> u64 \<Rightarrow> string \<times> string \<times> string \<times> u64 \<Rightarrow> ('s, NTSTATUS) prog" where
  "v3d_graph_reference E target gpu reference = (case reference of (property, cells, owner, value) \<Rightarrow>
     do {
       s \<leftarrow> kernel_status E (''IOCTL_PI5_GRAPH_RESOLVE '' @ property @ '' '' @ cells) [target, 1, gpu];
       if s \<noteq> STATUS_SUCCESS then ret s
       else do {
         version \<leftarrow> io_call E ''PI5_GRAPH_REFERENCE.Version'' [];
         count \<leftarrow> io_call E ''PI5_GRAPH_REFERENCE.Count'' [];
         cell \<leftarrow> io_call E ''PI5_GRAPH_REFERENCE.Cells[0]'' [];
         provider \<leftarrow> io_call E ''PI5_GRAPH_REFERENCE.Provider'' [];
         if version \<noteq> 1 \<or> count \<noteq> 1 \<or> cell \<noteq> value then ret STATUS_DEVICE_CONFIGURATION_ERROR
         else v3d_chain (kernel_status E ''IOCTL_PI5_GRAPH_NODE'' [target, 1, provider]) (v3d_owner_is E owner)
       }
     })"

fun v3d_all :: "('s, NTSTATUS) prog list \<Rightarrow> ('s, NTSTATUS) prog" where
  "v3d_all [] = ret STATUS_SUCCESS"
| "v3d_all (m # ms) = v3d_chain m (v3d_all ms)"

definition V3d_Graph :: "env \<Rightarrow> ('s, NTSTATUS) prog" where
  "V3d_Graph E = do {
     w \<leftarrow> io_call E ''ExAllocatePool2'' [];
     if w = 0 then ret STATUS_INSUFFICIENT_RESOURCES
     else do {
       (s, target) \<leftarrow> V3d_Open E ''Pi5Graph'' 0;
       s \<leftarrow> (if s \<noteq> STATUS_SUCCESS then ret s
         else v3d_chain (kernel_status E ''IOCTL_PI5_GRAPH_FIND /axi/v3d@2000000'' [target, 1])
           (v3d_chain (v3d_owner_is E ''_SB.GPU0'') (do {
             gpu \<leftarrow> io_call E ''PI5_GRAPH_NODE.Index'' [];
             v3d_all (map (v3d_graph_reference E target gpu)
               [(''clocks'', ''#clock-cells'', ''_SB.FCLK'', 5), (''power-domains'', ''#power-domain-cells'', ''_SB.PM00'', 1),
                (''resets'', ''#reset-cells'', ''_SB.PM00'', 0)])
           })));
       V3d_Close E target;
       kernel_do E ''ExFreePool'' [w];
       ret s
     }
   }"

section \<open>Memory\<close>

definition V3d_FreeBuffer :: "env \<Rightarrow> v3d_ref \<Rightarrow> (V3D_CONTEXT, unit) prog" where
  "V3d_FreeBuffer E r = do {
     modify (\<lambda>c. c\<lparr>v3_GuardsClean := False\<rparr>);
     b \<leftarrow> gets (v3d_buffer r);
     whenM (vb_Cpu b \<noteq> 0) (do {
       kernel_do E ''FreeCommonBuffer'' [ucast (vb_Bytes b), vb_Dma b, vb_Cpu b];
       v3_stats (\<lambda>s. s\<lparr>vs_AllocatedBytes := vs_AllocatedBytes s - vb_Bytes b\<rparr>);
       modify (v3d_set_buffer r (\<lambda>_. vb_zero))
     })
   }"

text \<open>The service has two results, the processor's address and the address of the device.\<close>

definition V3d_Allocate :: "env \<Rightarrow> v3d_ref \<Rightarrow> u32 \<Rightarrow> (V3D_CONTEXT, NTSTATUS) prog" where
  "V3d_Allocate E r count = do {
     modify (\<lambda>c. c\<lparr>v3_GuardsClean := False\<rparr>);
     let count = count + 2 * V3D_PAGE;
     modify (v3d_set_buffer r (\<lambda>b. b\<lparr>vb_Bytes := count\<rparr>));
     cpu \<leftarrow> io_call E ''AllocateCommonBufferEx'' [0xfffffffff, ucast count];
     dma \<leftarrow> io_call E ''AllocateCommonBufferEx.LogicalAddress'' [cpu];
     modify (v3d_set_buffer r (\<lambda>b. b\<lparr>vb_Cpu := cpu, vb_Dma := dma\<rparr>));
     if cpu = 0 then do {
       modify (v3d_set_buffer r (\<lambda>b. b\<lparr>vb_Bytes := 0\<rparr>));
       ret STATUS_INSUFFICIENT_RESOURCES
     }
     else do {
       v3_stats (\<lambda>s. s\<lparr>vs_AllocatedBytes := vs_AllocatedBytes s + count\<rparr>);
       if dma AND 4095 \<noteq> 0 \<or> cpu AND 4095 \<noteq> 0 \<or> dma > 0x1000000000 - ucast count
       then do { V3d_FreeBuffer E r; ret STATUS_DEVICE_CONFIGURATION_ERROR }
       else do {
         forM [0..<unat count div 4] (\<lambda>i. io_write (v3d_bank r) (4 * of_nat i)
           (if i < 1024 \<or> i \<ge> (unat count - 4096) div 4 then V3D_GUARD else 0));
         whenM (r = VFixed MTable) (modify (\<lambda>c. c\<lparr>v3_Entries := (\<lambda>_. 0)\<rparr>));
         io_barrier;
         ret STATUS_SUCCESS
       }
     }
   }"

text \<open>Reading the guard words of a buffer, which the GPU might have written.\<close>

definition v3d_guards :: "env \<Rightarrow> v3d_ref \<Rightarrow> (V3D_CONTEXT, unit) prog" where
  "v3d_guards E r = do {
     b \<leftarrow> gets (v3d_buffer r);
     whenM (vb_Cpu b \<noteq> 0) (forM [0..<1024] (\<lambda>j. do {
       v \<leftarrow> io_read E (v3d_bank r) (4 * of_nat j);
       bad \<leftarrow> (if v \<noteq> V3D_GUARD then ret True
         else do { v \<leftarrow> io_read E (v3d_bank r) (4 * ((vb_Bytes b - V3D_PAGE) div 4 + of_nat j)); ret (v \<noteq> V3D_GUARD) });
       whenM bad (v3_stats (\<lambda>s. s\<lparr>vs_GuardFailures := vs_GuardFailures s + 1\<rparr>))
     }))
   }"

abbreviation PI5_V3D_BUFFER_LIMIT :: nat where "PI5_V3D_BUFFER_LIMIT \<equiv> 256"

definition V3d_Guards :: "env \<Rightarrow> (V3D_CONTEXT, NTSTATUS) prog" where
  "V3d_Guards E = do {
     clean \<leftarrow> gets v3_GuardsClean;
     if clean then ret STATUS_SUCCESS
     else do {
       forM [MTable, MTrap, MSource, MDestination, MCode, MUniform, MTile, MTileState] (\<lambda>m. v3d_guards E (VFixed m));
       trap \<leftarrow> gets (\<lambda>c. v3_Fixed c MTrap);
       whenM (vb_Cpu trap \<noteq> 0) (forM [1024..<2048] (\<lambda>j. do {
         v \<leftarrow> io_read E (v3d_bank (VFixed MTrap)) (4 * of_nat j);
         whenM (v \<noteq> 0) (v3_stats (\<lambda>s. s\<lparr>vs_ScratchWrites := vs_ScratchWrites s + 1\<rparr>))
       }));
       forM [0..<PI5_V3D_BUFFER_LIMIT] (\<lambda>i. v3d_guards E (VObject i));
       s \<leftarrow> gets v3_Status;
       if vs_GuardFailures s \<noteq> 0 \<or> vs_ScratchWrites s \<noteq> 0 then ret STATUS_DATA_ERROR
       else do { modify (\<lambda>c. c\<lparr>v3_GuardsClean := True\<rparr>); ret STATUS_SUCCESS }
     }
   }"

text \<open>A store of one entry of the page table.\<close>

definition v3d_store_entry :: "nat \<Rightarrow> u32 \<Rightarrow> (V3D_CONTEXT, unit) prog" where
  "v3d_store_entry i v = do {
     io_write (v3d_bank (VFixed MTable)) (4 * (1024 + of_nat i)) v;
     modify (\<lambda>c. c\<lparr>v3_Entries := (v3_Entries c)(i := v)\<rparr>)
   }"

section \<open>The session\<close>

definition V3d_Mask :: "env \<Rightarrow> bool \<Rightarrow> (V3D_CONTEXT, unit) prog" where
  "V3d_Mask E enable = forM [0, 1] (\<lambda>i. do {
     kernel_do E ''WdfInterruptAcquireLock'' [of_nat i];
     io_write (of_nat i) V3D_INT_MASK_SET 0xffffffff;
     modify (\<lambda>c. c\<lparr>v3_IrqLive := (v3_IrqLive c)(i := enable)\<rparr>);
     whenM enable (do {
       io_write (of_nat i) V3D_INT_CLR 0xffffffff;
       io_write (of_nat i) V3D_INT_MASK_CLR (if i \<noteq> 0 then V3D_CORE_IRQS else V3D_HUB_IRQS)
     });
     kernel_do E ''WdfInterruptReleaseLock'' [of_nat i]
   })"

definition v3d_forget_jobs :: "(V3D_CONTEXT, unit) prog" where
  "v3d_forget_jobs = modify (\<lambda>c. c\<lparr>v3_Io := \<lparr>vi_CsdIdle = 0, vi_RenderStart = 0, vi_RenderEnd = 0, vi_BinStart = 0, vi_BinEnd = 0\<rparr>\<rparr>)"

text \<open>After a reset the engines are idle and these registers read zero, or it is a fault.\<close>

fun v3d_registers_zero :: "env \<Rightarrow> (u32 \<times> u32) list \<Rightarrow> ('s, bool) prog" where
  "v3d_registers_zero E [] = ret True"
| "v3d_registers_zero E ((off, bits) # rest) = do {
     v \<leftarrow> io_read E V3dHub off;
     if v AND bits \<noteq> 0 then ret False else v3d_registers_zero E rest
   }"

definition v3d_is_reset :: "env \<Rightarrow> (u32 \<times> u32) list \<Rightarrow> (V3D_CONTEXT, NTSTATUS) prog" where
  "v3d_is_reset E registers = do {
     idle \<leftarrow> on_io (V3dIdle E);
     if idle \<noteq> V3dOk then ret STATUS_DEVICE_HARDWARE_ERROR
     else do {
       zero \<leftarrow> v3d_registers_zero E registers;
       ret (if zero then STATUS_SUCCESS else STATUS_DEVICE_HARDWARE_ERROR)
     }
   }"

definition v3d_quiesce :: "env \<Rightarrow> (V3D_CONTEXT, NTSTATUS) prog \<Rightarrow> (V3D_CONTEXT, NTSTATUS) prog" where
  "v3d_quiesce E k = do {
     V3d_Mask E False;
     v3d_require E (V3d_Hw (V3dDrain E)) (v3d_require E (V3d_Hw (V3dSmsReset E)) (v3d_require E (V3d_Pulse E) (do {
       v3d_forget_jobs;
       k
     })))
   }"

definition V3d_Reset :: "env \<Rightarrow> (V3D_CONTEXT, NTSTATUS) prog" where
  "V3d_Reset E = do {
     modify (\<lambda>c. c\<lparr>v3_GuardsClean := False\<rparr>);
     v3_phase 10;
     v3d_quiesce E (v3d_require E (v3d_is_reset E [(V3D_MMU_CTL, 1)]) (do {
       io_write V3dCore 0x34 0;
       io_write V3dCore 0x38 0xffffffff;
       c \<leftarrow> gets id;
       v3d_require E (if vb_Cpu (v3_Fixed c MTable) \<noteq> 0
           then do { io_barrier; V3d_Hw (V3dMmuStart E (vs_TableDma (v3_Status c)) (vb_Dma (v3_Fixed c MTrap) + ucast V3D_PAGE)) }
           else ret STATUS_SUCCESS)
         (do {
           modify (\<lambda>c. c\<lparr>v3_Pending := (\<lambda>_. 0)\<rparr>);
           V3d_Mask E True;
           v3_stats (\<lambda>s. s\<lparr>vs_Resets := vs_Resets s + 1\<rparr>);
           ret STATUS_SUCCESS
         })
     }))
   }"

definition V3d_DropProviders :: "env \<Rightarrow> (V3D_CONTEXT, NTSTATUS) prog" where
  "V3d_DropProviders E = do {
     c \<leftarrow> gets id;
     v3d_require E (if v3_PmLease c then V3d_Pm E V3D_PM_RELEASE else ret STATUS_SUCCESS) (do {
       modify (\<lambda>c. c\<lparr>v3_PmLease := False\<rparr>);
       v3d_require E (if v3_ClockLease c then V3d_Clock E FCLK_RELEASE 0 else ret STATUS_SUCCESS) (do {
         modify (\<lambda>c. c\<lparr>v3_ClockLease := False\<rparr>);
         V3d_Close E (v3_Pm c);
         V3d_Close E (v3_Clock c);
         modify (\<lambda>c. c\<lparr>v3_Pm := 0, v3_Clock := 0, v3_Owner := 0\<rparr>);
         kernel_do E ''IoInvalidateDeviceRelations'' [];
         kernel_do E ''WdfDeviceSetStaticStopRemove'' [1];
         ret STATUS_SUCCESS
       })
     })
   }"

definition v3d_free_all :: "env \<Rightarrow> (V3D_CONTEXT, unit) prog" where
  "v3d_free_all E = do {
     forM [0..<PI5_V3D_BUFFER_LIMIT] (\<lambda>i. do {
       V3d_FreeBuffer E (VObject i);
       modify (\<lambda>c. c\<lparr>v3_Objects := (v3_Objects c)[i := vo_zero]\<rparr>)
     });
     modify (\<lambda>c. c\<lparr>v3_ObjectBytes := 0, v3_ImportedBytes := 0, v3_MemorySession := False\<rparr>);
     forM [MTileState, MTile, MUniform, MCode, MDestination, MSource, MTrap, MTable] (\<lambda>m. V3d_FreeBuffer E (VFixed m))
   }"

definition v3d_sleep :: "env \<Rightarrow> (V3D_CONTEXT, NTSTATUS) prog \<Rightarrow> (V3D_CONTEXT, NTSTATUS) prog" where
  "v3d_sleep E k = do {
     V3d_Snapshot E;
     woke \<leftarrow> gets v3_Woke;
     v3d_require E (if woke then do { io_write V3dSms 0x400 (push_bit 30 1); V3d_Hw (V3dPoll E V3dSms 0x400 15 13) } else ret STATUS_SUCCESS)
       (do {
         modify (\<lambda>c. c\<lparr>v3_Woke := False\<rparr>);
         V3d_Snapshot E;
         modify (\<lambda>c. c\<lparr>v3_Powered := False\<rparr>);
         v3d_free_all E;
         k
       })
   }"

definition V3d_End :: "env \<Rightarrow> (V3D_CONTEXT, NTSTATUS) prog" where
  "V3d_End E = do {
     modify (\<lambda>c. c\<lparr>v3_GuardsClean := False\<rparr>);
     c \<leftarrow> gets id;
     if v3_BootFault c then ret STATUS_DEVICE_HARDWARE_ERROR
     else do {
       v3_phase 20;
       if v3_Claimed c
       then v3d_quiesce E (v3d_require E (v3d_is_reset E [(V3D_MMU_CTL, 1), (V3D_MMU_PT, 0xffffffff), (V3D_MMU_TRAP, 0xffffffff)]) (do {
         V3d_Mask E False;
         v3d_require E (V3d_Guards E) (do {
           modify (\<lambda>c. c\<lparr>v3_Claimed := False\<rparr>);
           v3d_sleep E (V3d_DropProviders E)
         })
       }))
       else v3d_sleep E (V3d_DropProviders E)
     }
   }"

text \<open>The start of a session. Any failure that is not a fault ends it again.\<close>

definition v3d_open_providers :: "env \<Rightarrow> (V3D_CONTEXT, NTSTATUS) prog" where
  "v3d_open_providers E = do {
     c \<leftarrow> gets id;
     (s, target) \<leftarrow> V3d_Open E ''Pi5Fclk'' (v3_Clock c);
     modify (\<lambda>c. c\<lparr>v3_Clock := target\<rparr>);
     if s \<noteq> STATUS_SUCCESS then ret s
     else do {
       (s, target) \<leftarrow> V3d_Open E ''Pi5Pm'' (v3_Pm c);
       modify (\<lambda>c. c\<lparr>v3_Pm := target\<rparr>);
       ret s
     }
   }"

definition v3d_take_leases :: "env \<Rightarrow> (V3D_CONTEXT, NTSTATUS) prog" where
  "v3d_take_leases E =
     v3d_chain (V3d_Clock E FCLK_ACQUIRE 0) (do {
       modify (\<lambda>c. c\<lparr>v3_ClockLease := True\<rparr>);
       v3d_chain (V3d_Pm E V3D_PM_ACQUIRE) (do {
         modify (\<lambda>c. c\<lparr>v3_PmLease := True\<rparr>);
         v3_phase 2;
         v3d_chain (V3d_Clock E FCLK_SET_STATE 1) (do {
           modify (\<lambda>c. c\<lparr>v3_Powered := True\<rparr>);
           ret STATUS_SUCCESS
         })
       })
     })"

text \<open>Waking the GPU when it sleeps. A GPU that does not wake is a fault, which the result says.\<close>

definition v3d_wake :: "env \<Rightarrow> (V3D_CONTEXT, NTSTATUS) prog" where
  "v3d_wake E = do {
     sms \<leftarrow> io_read E V3dSms 0x400;
     v3_stats (\<lambda>s. s\<lparr>vs_SmsInitial := sms\<rparr>);
     if sms AND 0x100000f0 \<noteq> 0x50 then ret STATUS_DEVICE_BUSY
     else do {
       ree \<leftarrow> io_read E V3dSms 0;
       if ree AND 0x100000f0 \<noteq> 0 \<or> sms AND 15 \<noteq> 0 \<and> sms AND 15 \<noteq> 13 then ret STATUS_DEVICE_BUSY
       else if sms AND 15 = 13 then do {
         modify (\<lambda>c. c\<lparr>v3_Woke := True\<rparr>);
         io_write V3dSms 0x400 (push_bit 29 1);
         v3d_require E (V3d_Hw (V3dPoll E V3dSms 0x400 15 0)) (ret STATUS_SUCCESS)
       }
       else ret STATUS_SUCCESS
     }
   }"

definition v3d_identified :: "V3D_STATUS \<Rightarrow> bool" where
  "v3d_identified s \<longleftrightarrow> vs_TechVersion s = 71 \<and> drop_bit 8 (vs_HubIdent s ! 1) AND 15 = 1 \<and> vs_HubIdent s ! 0 = 0x42554856 \<and>
     vs_CoreIdent s ! 0 AND 0xffffff = 0x443356 \<and> vs_HubIdent s ! 2 AND 0x100 \<noteq> 0 \<and>
     vs_PaBits s = 36 \<and> vs_VaBits s \<ge> 32 \<and> vs_VaBits s \<le> 36"

definition v3d_claim :: "env \<Rightarrow> (V3D_CONTEXT, NTSTATUS) prog" where
  "v3d_claim E = do {
     v3_phase 3;
     V3d_Snapshot E;
     s \<leftarrow> gets v3_Status;
     if \<not> v3d_identified s then ret STATUS_NOT_SUPPORTED
     else v3d_chain (V3d_Hw (V3dIdle E)) (do {
       zero \<leftarrow> v3d_registers_zero E [(V3D_MMU_CTL, 1), (V3D_GMP_STATUS, V3D_GMP_BUSY), (V3D_GMP_CONFIG, 1)];
       if \<not> zero then ret STATUS_DEVICE_BUSY
       else do {
         modify (\<lambda>c. c\<lparr>v3_Claimed := True\<rparr>);
         v3_phase 4;
         ret STATUS_SUCCESS
       }
     })
   }"

definition v3d_allocations :: "env \<Rightarrow> (V3D_CONTEXT, NTSTATUS) prog" where
  "v3d_allocations E = v3d_all (map (\<lambda>(m, n). V3d_Allocate E (VFixed m) n)
     [(MTable, V3D_TABLE_BYTES), (MTrap, V3D_PAGE), (MSource, V3D_DATA_BYTES), (MDestination, V3D_DATA_BYTES), (MCode, V3D_PAGE),
      (MUniform, V3D_PAGE), (MTile, V3D_TILE_BYTES), (MTileState, V3D_PAGE)])"

text \<open>The entries of the fixed session: pages of the eight buffers at fixed addresses.\<close>

definition v3d_fixed_entries :: "V3D_CONTEXT \<Rightarrow> (nat \<times> u32) list" where
  "v3d_fixed_entries c = (let page = (\<lambda>m i. vb_Dma (v3_Fixed c m) + ucast V3D_PAGE + of_nat i * ucast V3D_PAGE) in
     [(unat V3D_CODE_VA div 4096, V3dPte (page MCode 0) 0), (unat V3D_UNIFORM_VA div 4096, V3dPte (page MUniform 0) 0),
      (unat V3D_TILE_STATE_VA div 4096, V3dPte (page MTileState 0) 1)] @
     map (\<lambda>i. (unat V3D_TILE_VA div 4096 + i, V3dPte (page MTile i) 1)) [0..<unat V3D_TILE_BYTES div 4096] @
     concat (map (\<lambda>i. [(unat V3D_SOURCE_VA div 4096 + i, V3dPte (page MSource i) 0), (unat V3D_DEST_VA div 4096 + i, V3dPte (page MDestination i) 1)])
       [0..<unat V3D_DATA_BYTES div 4096]))"

definition v3d_place_buffers :: "(V3D_CONTEXT, unit) prog" where
  "v3d_place_buffers = do {
     modify (\<lambda>c. c\<lparr>v3_Status := (v3_Status c)\<lparr>vs_TableDma := vb_Dma (v3_Fixed c MTable) + ucast V3D_PAGE,
         vs_SourceDma := vb_Dma (v3_Fixed c MSource) + ucast V3D_PAGE,
         vs_DestinationDma := vb_Dma (v3_Fixed c MDestination) + ucast V3D_PAGE\<rparr>,
       v3_ComputeStatus := (v3_ComputeStatus c)\<lparr>vq_CodeDma := vb_Dma (v3_Fixed c MCode) + ucast V3D_PAGE,
         vq_UniformDma := vb_Dma (v3_Fixed c MUniform) + ucast V3D_PAGE\<rparr>\<rparr>);
     c \<leftarrow> gets id;
     forM (v3d_fixed_entries c) (\<lambda>(i, v). v3d_store_entry i v)
   }"

definition v3d_begin_steps :: "env \<Rightarrow> (V3D_CONTEXT, NTSTATUS) prog" where
  "v3d_begin_steps E = do {
     v3_phase 1;
     v3d_all [V3d_Graph E, v3d_open_providers E, v3d_take_leases E, v3d_wake E, v3d_claim E, v3d_allocations E,
       do { v3d_place_buffers; V3d_Reset E }]
   }"

definition V3d_Begin :: "env \<Rightarrow> ptr \<Rightarrow> (V3D_CONTEXT, NTSTATUS) prog" where
  "V3d_Begin E file' = do {
     c \<leftarrow> gets id;
     if v3_BootFault c then ret STATUS_DEVICE_HARDWARE_ERROR
     else if v3_Owner c \<noteq> 0 then ret STATUS_DEVICE_BUSY
     else do {
       modify (\<lambda>c. c\<lparr>v3_Owner := file'\<rparr>);
       kernel_do E ''WdfDeviceSetStaticStopRemove'' [0];
       s \<leftarrow> v3d_begin_steps E;
       if s = STATUS_SUCCESS then do { v3_phase 5; V3d_Snapshot E; ret STATUS_SUCCESS }
       else do {
         v3_stats (\<lambda>x. x\<lparr>vs_LastStatus := s\<rparr>);
         fault \<leftarrow> gets v3_BootFault;
         if fault then ret s
         else do { clean \<leftarrow> V3d_End E; ret (if clean \<noteq> STATUS_SUCCESS then clean else s) }
       }
     }
   }"

definition V3d_MemoryBegin :: "env \<Rightarrow> ptr \<Rightarrow> (V3D_CONTEXT, NTSTATUS) prog" where
  "V3d_MemoryBegin E file' =
     v3d_chain (V3d_Begin E file') (v3d_require E (V3d_Hw (V3dDrain E)) (do {
       forM [0..<unat V3D_TABLE_BYTES div 4] (\<lambda>i. v3d_store_entry i 0);
       io_barrier;
       v3d_require E (V3d_Hw (V3dMmuFlush E)) (do {
         modify (\<lambda>c. c\<lparr>v3_MemorySession := True\<rparr>);
         ret STATUS_SUCCESS
       })
     }))"

end
