(* ===== verification/V3d_Objects.thy ===== *)
theory V3d_Objects
  imports V3d_Session
begin

text \<open>
  Memory objects, interrupts and the jobs of a memory session (\<open>pi5-v3d/driver.c\<close>): placement in the GPU's address space,
  creation, import, destruction, transfers by the processor, by the transfer unit, and command lists.
\<close>

unbundle bit_operations_syntax

section \<open>Memory objects\<close>

abbreviation PI5_V3D_BUFFER_WRITABLE :: u32 where "PI5_V3D_BUFFER_WRITABLE \<equiv> 1"
abbreviation PI5_V3D_BUFFER_MAX_BYTES :: u32 where "PI5_V3D_BUFFER_MAX_BYTES \<equiv> 64 * 1024 * 1024"
abbreviation PI5_V3D_MEMORY_MAX_BYTES :: u32 where "PI5_V3D_MEMORY_MAX_BYTES \<equiv> 256 * 1024 * 1024"
abbreviation PI5_V3D_IMPORT_MAX_BYTES :: u32 where "PI5_V3D_IMPORT_MAX_BYTES \<equiv> 256 * 1024 * 1024"
abbreviation PI5_V3D_IMPORT_TOTAL_BYTES :: u32 where "PI5_V3D_IMPORT_TOTAL_BYTES \<equiv> 512 * 1024 * 1024"
abbreviation PI5_V3D_TRANSFER_MAX_BYTES :: u32 where "PI5_V3D_TRANSFER_MAX_BYTES \<equiv> 65536"

record V3D_BUFFER_REQUEST =
  bq_Version :: u32
  bq_Handle :: u32
  bq_Address :: u32
  bq_Bytes :: u32
  bq_Flags :: u32
  bq_Reserved :: u32

record V3D_TRANSFER =
  tq_Version :: u32
  tq_Handle :: u32
  tq_Offset :: u32
  tq_Bytes :: u32

record V3D_BUFFER_IMPORT =
  iq_Version :: u32
  iq_Flags :: u32
  iq_Reserved :: "u32 list"
  iq_Mdl :: ptr

record V3D_BUFFER_COPY =
  cq_Version :: u32
  cq_Source :: u32
  cq_Destination :: u32
  cq_Width :: u32
  cq_Height :: u32
  cq_SourceOffset :: u32
  cq_DestinationOffset :: u32
  cq_Reserved :: u32
  cq_Fence :: u64

record V3D_BUFFER_TILE =
  lq_Version :: u32
  lq_Source :: u32
  lq_Destination :: u32
  lq_SourceOffset :: u32
  lq_DestinationOffset :: u32
  lq_Width :: u32
  lq_Height :: u32
  lq_SourcePitch :: u32
  lq_Layout :: u32
  lq_OutputRows :: u32
  lq_Fence :: u64

record V3D_SUBMIT_CL =
  sq_Version :: u32
  sq_BclStart :: u32
  sq_BclEnd :: u32
  sq_RclStart :: u32
  sq_RclEnd :: u32
  sq_TileAddress :: u32
  sq_TileBytes :: u32
  sq_StateAddress :: u32
  sq_StateBytes :: u32
  sq_Reserved :: u32
  sq_Fence :: u64

text \<open>What the kernel says about a memory descriptor list. Its owner keeps it unchanged while it is imported.\<close>

record v3d_mdl =
  md_Flags :: u32
  md_ByteOffset :: u32
  md_ByteCount :: u32
  md_Pfn :: "nat \<Rightarrow> u64"

record v3d_kernel =
  vk_SystemRangeStart :: ptr
  vk_Mdl :: "ptr \<Rightarrow> v3d_mdl"

abbreviation MDL_PAGES_LOCKED :: u32 where "MDL_PAGES_LOCKED \<equiv> 2"
abbreviation MDL_SOURCE_IS_NONPAGED_POOL :: u32 where "MDL_SOURCE_IS_NONPAGED_POOL \<equiv> 4"
abbreviation MDL_PARTIAL :: u32 where "MDL_PARTIAL \<equiv> 0x10"

definition V3d_Object :: "V3D_CONTEXT \<Rightarrow> u32 \<Rightarrow> nat option" where
  "V3d_Object c handle = (if handle = 0 then None else find (\<lambda>i. vo_Handle (v3_Objects c ! i) = handle) [0..<PI5_V3D_BUFFER_LIMIT])"

text \<open>The search for a free range, a page away from every other on both sides: each overlap moves the candidate behind the
  object in the way. Addresses stay below \<open>2 ^ 34\<close>, so they are natural numbers here.\<close>

definition placement_overlap :: "nat \<Rightarrow> nat \<Rightarrow> nat \<times> nat \<Rightarrow> bool" where
  "placement_overlap address extent other \<longleftrightarrow> address - 4096 < fst other + snd other + 4096 \<and> address + extent + 4096 > fst other - 4096"

function placement_address :: "(nat \<times> nat) list \<Rightarrow> nat \<Rightarrow> nat \<Rightarrow> nat option" where
  "placement_address others extent address =
     (if address + extent + 4096 > 0xf0000000 then None
      else case find (placement_overlap address extent) others of
        None \<Rightarrow> Some address
      | Some other \<Rightarrow> placement_address others extent (fst other + snd other + 2 * 4096))"
  by auto
termination
  by (relation "measure (\<lambda>(others, extent, address). 0xf0000001 - address)")
    (auto simp: find_Some_iff placement_overlap_def)

definition v3d_live :: "V3D_CONTEXT \<Rightarrow> (nat \<times> nat) list" where
  "v3d_live c = map (\<lambda>o'. (unat (vo_Address o'), unat (vo_Bytes o'))) (filter (\<lambda>o'. vo_Handle o' \<noteq> 0) (v3_Objects c))"

definition V3d_ObjectPlacement :: "V3D_CONTEXT \<Rightarrow> u32 \<Rightarrow> (nat \<times> u32) option" where
  "V3d_ObjectPlacement c extent =
     (if v3_ObjectSerial c = 0xffffffff then None
      else case find (\<lambda>i. vo_Handle (v3_Objects c ! i) = 0) [0..<PI5_V3D_BUFFER_LIMIT] of
        None \<Rightarrow> None
      | Some i \<Rightarrow> (case placement_address (v3d_live c) (unat extent) 0x101000 of
          None \<Rightarrow> None
        | Some address \<Rightarrow> Some (i, of_nat address)))"

definition v3d_set_object :: "nat \<Rightarrow> (V3D_OBJECT \<Rightarrow> V3D_OBJECT) \<Rightarrow> V3D_CONTEXT \<Rightarrow> V3D_CONTEXT" where
  "v3d_set_object i f c = c\<lparr>v3_Objects := (v3_Objects c)[i := f (v3_Objects c ! i)]\<rparr>"

text \<open>The address of a page of an object.\<close>

definition v3d_page :: "v3d_kernel \<Rightarrow> V3D_OBJECT \<Rightarrow> nat \<Rightarrow> u64" where
  "v3d_page K o' k = (if vo_ImportedMdl o' \<noteq> 0 then push_bit 12 (md_Pfn (vk_Mdl K (vo_ImportedMdl o')) k)
     else vb_Dma (vo_Buffer o') + ucast V3D_PAGE + of_nat k * ucast V3D_PAGE)"

text \<open>The drain and the check of the guards before the objects change.\<close>

definition v3d_settle :: "(NTSTATUS \<Rightarrow> 'a) \<Rightarrow> env \<Rightarrow> (V3D_CONTEXT, 'a) prog \<Rightarrow> (V3D_CONTEXT, 'a) prog" where
  "v3d_settle f E k = v3d_require_or f E (V3d_Hw (V3dDrain E)) (v3d_require_or f E (V3d_Guards E) k)"

text \<open>The end of the creation of an object: its pages enter the table, and the flush makes them visible.\<close>

definition v3d_publish :: "env \<Rightarrow> v3d_kernel \<Rightarrow> nat \<Rightarrow> (V3D_CONTEXT, NTSTATUS \<times> V3D_BUFFER_REQUEST option) prog" where
  "v3d_publish E K i = do {
     o' \<leftarrow> gets (\<lambda>c. v3_Objects c ! i);
     forM [0..<unat (vo_Bytes o') div 4096] (\<lambda>page.
       v3d_store_entry (unat (vo_Address o') div 4096 + page) (V3dPte (v3d_page K o' page) (c_bool (vo_Flags o' \<noteq> 0))));
     io_barrier;
     v3d_require_or (\<lambda>s. (s, None)) E (V3d_Hw (V3dMmuFlush E))
       (ret (STATUS_SUCCESS, Some \<lparr>bq_Version = 1, bq_Handle = vo_Handle o', bq_Address = vo_Address o', bq_Bytes = vo_Bytes o',
         bq_Flags = vo_Flags o', bq_Reserved = 0\<rparr>))
   }"

definition V3d_ObjectCreate :: "env \<Rightarrow> v3d_kernel \<Rightarrow> V3D_BUFFER_REQUEST \<Rightarrow> (V3D_CONTEXT, NTSTATUS \<times> V3D_BUFFER_REQUEST option) prog" where
  "V3d_ObjectCreate E K rq = do {
     c \<leftarrow> gets id;
     let extent = bq_Bytes rq;
     let flags = bq_Flags rq;
     if extent = 0 \<or> extent > PI5_V3D_BUFFER_MAX_BYTES \<or> extent AND 4095 \<noteq> 0 \<or> flags AND NOT PI5_V3D_BUFFER_WRITABLE \<noteq> 0 \<or>
        bq_Handle rq \<noteq> 0 \<or> bq_Address rq \<noteq> 0 \<or> bq_Reserved rq \<noteq> 0
     then ret (STATUS_INVALID_PARAMETER, None)
     else if extent > PI5_V3D_MEMORY_MAX_BYTES - v3_ObjectBytes c then ret (STATUS_INSUFFICIENT_RESOURCES, None)
     else case V3d_ObjectPlacement c extent of
       None \<Rightarrow> ret (STATUS_INSUFFICIENT_RESOURCES, None)
     | Some (i, address) \<Rightarrow> v3d_settle (\<lambda>s. (s, None)) E (do {
         s \<leftarrow> V3d_Allocate E (VObject i) extent;
         if s \<noteq> STATUS_SUCCESS then ret (s, None)
         else do {
           modify (\<lambda>c. c\<lparr>v3_ObjectSerial := v3_ObjectSerial c + 1\<rparr>);
           modify (\<lambda>c. v3d_set_object i (\<lambda>o'. o'\<lparr>vo_Handle := v3_ObjectSerial c, vo_Address := address, vo_Bytes := extent, vo_Flags := flags\<rparr>) c);
           modify (\<lambda>c. c\<lparr>v3_ObjectBytes := v3_ObjectBytes c + extent\<rparr>);
           v3d_publish E K i
         }
       })
   }"

definition V3d_ObjectImport :: "env \<Rightarrow> v3d_kernel \<Rightarrow> V3D_BUFFER_IMPORT \<Rightarrow> (V3D_CONTEXT, NTSTATUS \<times> V3D_BUFFER_REQUEST option) prog" where
  "V3d_ObjectImport E K rq = do {
     c \<leftarrow> gets id;
     let mdl = iq_Mdl rq;
     let m = vk_Mdl K mdl;
     let extent = md_ByteCount m;
     let flags = iq_Flags rq;
     if flags AND NOT PI5_V3D_BUFFER_WRITABLE \<noteq> 0 \<or> iq_Reserved rq ! 0 \<noteq> 0 \<or> iq_Reserved rq ! 1 \<noteq> 0 \<or>
        mdl = 0 \<or> mdl < vk_SystemRangeStart K \<or> mdl AND 7 \<noteq> 0
     then ret (STATUS_INVALID_PARAMETER, None)
     else if md_Flags m AND (MDL_PAGES_LOCKED OR MDL_SOURCE_IS_NONPAGED_POOL) = 0 \<or> md_Flags m AND MDL_PARTIAL \<noteq> 0 \<or> md_ByteOffset m \<noteq> 0
     then ret (STATUS_INVALID_PARAMETER, None)
     else if extent = 0 \<or> extent AND (V3D_PAGE - 1) \<noteq> 0 \<or> extent > PI5_V3D_IMPORT_MAX_BYTES then ret (STATUS_INVALID_PARAMETER, None)
     else if extent > PI5_V3D_IMPORT_TOTAL_BYTES - v3_ImportedBytes c then ret (STATUS_INSUFFICIENT_RESOURCES, None)
     else if \<exists>page\<in>set [0..<unat extent div 4096]. md_Pfn m page \<ge> 0x1000000 then ret (STATUS_INVALID_PARAMETER, None)
     else case V3d_ObjectPlacement c extent of
       None \<Rightarrow> ret (STATUS_INSUFFICIENT_RESOURCES, None)
     | Some (i, address) \<Rightarrow> v3d_settle (\<lambda>s. (s, None)) E (do {
         modify (\<lambda>c. c\<lparr>v3_ObjectSerial := v3_ObjectSerial c + 1\<rparr>);
         modify (\<lambda>c. v3d_set_object i (\<lambda>o'. o'\<lparr>vo_Handle := v3_ObjectSerial c, vo_Address := address, vo_Bytes := extent, vo_Flags := flags,
           vo_ImportedMdl := mdl\<rparr>) c);
         modify (\<lambda>c. c\<lparr>v3_ImportedBytes := v3_ImportedBytes c + extent\<rparr>);
         v3d_publish E K i
       })
   }"

definition V3d_ObjectDestroy :: "env \<Rightarrow> V3D_BUFFER_REQUEST \<Rightarrow> (V3D_CONTEXT, NTSTATUS) prog" where
  "V3d_ObjectDestroy E rq = do {
     c \<leftarrow> gets id;
     case V3d_Object c (bq_Handle rq) of
       None \<Rightarrow> ret STATUS_INVALID_PARAMETER
     | Some i \<Rightarrow>
       if bq_Address rq \<noteq> 0 \<or> bq_Bytes rq \<noteq> 0 \<or> bq_Flags rq \<noteq> 0 \<or> bq_Reserved rq \<noteq> 0 then ret STATUS_INVALID_PARAMETER
       else v3d_settle (\<lambda>s. s) E (do {
         let o' = v3_Objects c ! i;
         forM [0..<unat (vo_Bytes o') div 4096] (\<lambda>page. v3d_store_entry (unat (vo_Address o') div 4096 + page) 0);
         io_barrier;
         v3d_require E (V3d_Hw (V3dMmuFlush E)) (v3d_require E (V3d_Hw (V3dInvalidate E)) (do {
           modify (\<lambda>c. if vo_ImportedMdl o' \<noteq> 0 then c\<lparr>v3_ImportedBytes := v3_ImportedBytes c - vo_Bytes o'\<rparr>
             else c\<lparr>v3_ObjectBytes := v3_ObjectBytes c - vo_Bytes o'\<rparr>);
           V3d_FreeBuffer E (VObject i);
           modify (v3d_set_object i (\<lambda>_. vo_zero));
           ret STATUS_SUCCESS
         }))
       })
   }"

text \<open>Words copied into an object or out of it.\<close>

definition V3d_ObjectTransfer :: "env \<Rightarrow> V3D_TRANSFER \<Rightarrow> u32 list option \<Rightarrow> (V3D_CONTEXT, NTSTATUS \<times> u32 list) prog" where
  "V3d_ObjectTransfer E rq data = do {
     c \<leftarrow> gets id;
     case V3d_Object c (tq_Handle rq) of
       None \<Rightarrow> ret (STATUS_INVALID_PARAMETER, [])
     | Some i \<Rightarrow> (let o' = v3_Objects c ! i in
       if vo_ImportedMdl o' \<noteq> 0 \<or> tq_Bytes rq = 0 \<or> tq_Bytes rq > PI5_V3D_TRANSFER_MAX_BYTES \<or> (tq_Offset rq OR tq_Bytes rq) AND 3 \<noteq> 0 \<or>
          tq_Offset rq > vo_Bytes o' \<or> tq_Bytes rq > vo_Bytes o' - tq_Offset rq
       then ret (STATUS_INVALID_PARAMETER, [])
       else v3d_settle (\<lambda>s. (s, [])) E (do {
         io_barrier;
         words \<leftarrow> (case data of
             Some words \<Rightarrow> do {
               forM [0..<unat (tq_Bytes rq) div 4] (\<lambda>j. io_write (v3d_bank (VObject i)) (4 * (1024 + tq_Offset rq div 4 + of_nat j)) (words ! j));
               ret []
             }
           | None \<Rightarrow> mapM [0..<unat (tq_Bytes rq) div 4] (\<lambda>j. io_read E (v3d_bank (VObject i)) (4 * (1024 + tq_Offset rq div 4 + of_nat j))));
         io_barrier;
         ret (STATUS_SUCCESS, words)
       }))
   }"

section \<open>Interrupts\<close>

definition V3d_Isr :: "env \<Rightarrow> nat \<Rightarrow> (V3D_CONTEXT, bool) prog" where
  "V3d_Isr E unit = do {
     c \<leftarrow> gets id;
     if \<not> v3_IrqLive c unit then ret False
     else do {
       v \<leftarrow> io_read E (of_nat unit) V3D_INT_STS;
       let irqs = v AND (if unit \<noteq> 0 then V3D_CORE_IRQS else V3D_HUB_IRQS);
       if irqs = 0 then ret False
       else do {
         io_write (of_nat unit) V3D_INT_CLR irqs;
         modify (\<lambda>c. c\<lparr>v3_Pending := (v3_Pending c)(unit := v3_Pending c unit OR irqs)\<rparr>);
         modify (\<lambda>c. c\<lparr>v3_InterruptCount := (v3_InterruptCount c)(unit := v3_InterruptCount c unit + 1)\<rparr>);
         kernel_do E ''WdfInterruptQueueDpcForIsr'' [];
         ret True
       }
     }
   }"

definition V3d_Dpc :: "env \<Rightarrow> (V3D_CONTEXT, unit) prog" where
  "V3d_Dpc E = kernel_do E ''KeSetEvent'' []"

text \<open>The service routines run beside the driver. Whether they do is up to the environment, and asked wherever the driver
  looks at what they change.\<close>

definition v3d_interrupts :: "env \<Rightarrow> (V3D_CONTEXT, unit) prog" where
  "v3d_interrupts E = forM [0, 1] (\<lambda>unit. do {
     now \<leftarrow> io_call E ''interrupt'' [of_nat unit];
     whenM (now \<noteq> 0) (do { r \<leftarrow> V3d_Isr E unit; V3d_Dpc E })
   })"

definition v3d_wait_turn :: "env \<Rightarrow> u64 \<Rightarrow> u32 \<Rightarrow> u32 \<Rightarrow> (V3D_CONTEXT, NTSTATUS option) prog" where
  "v3d_wait_turn E deadline hub core = do {
     v3d_interrupts E;
     p \<leftarrow> gets v3_Pending;
     if p 0 AND V3D_MMU_FAULT_IRQS \<noteq> 0 \<or> p 1 AND 4 \<noteq> 0 then ret (Some STATUS_DEVICE_HARDWARE_ERROR)
     else do {
       v \<leftarrow> io_read E V3dHub V3D_MMU_CTL;
       if v AND V3D_MMU_FAULTS \<noteq> 0 then ret (Some STATUS_DEVICE_HARDWARE_ERROR)
       else do {
         v3d_interrupts E;
         p \<leftarrow> gets v3_Pending;
         if p 0 AND hub = hub \<and> p 1 AND core = core then ret (Some STATUS_SUCCESS)
         else do {
           now \<leftarrow> io_now E;
           if now \<ge> deadline then ret (Some STATUS_IO_TIMEOUT)
           else do {
             kernel_do E ''KeWaitForSingleObject'' [deadline - now];
             kernel_do E ''KeClearEvent'' [];
             ret None
           }
         }
       }
     }
   }"

definition V3d_Wait :: "env \<Rightarrow> nat \<Rightarrow> u32 \<Rightarrow> u32 \<Rightarrow> (V3D_CONTEXT, NTSTATUS option) prog" where
  "V3d_Wait E fuel hub core = do {
     now \<leftarrow> io_now E;
     loopM fuel (v3d_wait_turn E (now + 5000000) hub core)
   }"

definition V3d_Arm :: "env \<Rightarrow> (V3D_CONTEXT, unit) prog" where
  "V3d_Arm E = do {
     modify (\<lambda>c. if v3_MemorySession c then c else c\<lparr>v3_GuardsClean := False\<rparr>);
     V3d_Mask E False;
     modify (\<lambda>c. c\<lparr>v3_Pending := (\<lambda>_. 0)\<rparr>);
     kernel_do E ''KeClearEvent'' [];
     V3d_Mask E True
   }"

section \<open>Jobs\<close>

text \<open>The result of a job: its status, its fence and its data, or nothing if the wait for it has not ended.\<close>

type_synonym v3d_done = "(NTSTATUS \<times> u64 \<times> u32 list) option"

abbreviation v3d_failed :: "NTSTATUS \<Rightarrow> v3d_done" where
  "v3d_failed s \<equiv> Some (s, 0, [])"

text \<open>Running a job: arming the interrupts, submitting, waiting, and what is read before the result counts.\<close>

definition v3d_job :: "env \<Rightarrow> nat \<Rightarrow> u32 \<Rightarrow> (V3D_IO, unit) prog \<Rightarrow> u32 \<Rightarrow> u32 \<Rightarrow> (V3D_CONTEXT, unit) prog \<Rightarrow> (V3D_CONTEXT, v3d_done) prog \<Rightarrow> (V3D_CONTEXT, v3d_done) prog" where
  "v3d_job E fuel phase submit hub core observe k = do {
     v3_phase phase;
     on_io submit;
     r \<leftarrow> V3d_Wait E fuel hub core;
     case r of
       None \<Rightarrow> ret None
     | Some s \<Rightarrow> do {
         observe;
         V3d_Snapshot E;
         if s \<noteq> STATUS_SUCCESS then do { V3d_Mask E False; s \<leftarrow> V3d_Fault E s; ret (v3d_failed s) } else k
       }
   }"

text \<open>What must be pending after a job, and that the translation saw no fault.\<close>

definition v3d_job_clean :: "env \<Rightarrow> u32 \<Rightarrow> u32 \<Rightarrow> (V3D_CONTEXT, NTSTATUS) prog" where
  "v3d_job_clean E hub core = do {
     v3d_interrupts E;
     p \<leftarrow> gets v3_Pending;
     if p 0 \<noteq> hub \<or> p 1 \<noteq> core then ret STATUS_DEVICE_HARDWARE_ERROR
     else do {
       v \<leftarrow> io_read E V3dHub V3D_MMU_CTL;
       ret (if v AND V3D_MMU_FAULTS \<noteq> 0 then STATUS_DEVICE_HARDWARE_ERROR else STATUS_SUCCESS)
     }
   }"

definition v3d_ready :: "env \<Rightarrow> (V3D_CONTEXT, v3d_done) prog \<Rightarrow> (V3D_CONTEXT, v3d_done) prog" where
  "v3d_ready E k = v3d_settle v3d_failed E (do {
     io_barrier;
     v3d_require_or v3d_failed E (V3d_Hw (V3dInvalidate E)) (do {
       io_write V3dHub V3D_GMP_CONFIG 0;
       k
     })
   })"

definition V3d_ObjectTfu :: "env \<Rightarrow> nat \<Rightarrow> u32 \<Rightarrow> u32 \<Rightarrow> u32 \<Rightarrow> u32 \<Rightarrow> u32 \<Rightarrow> u32 \<Rightarrow> (V3D_CONTEXT, v3d_done) prog" where
  "V3d_ObjectTfu E fuel width height source destination stride config = do {
     c \<leftarrow> gets id;
     if v3_MemorySubmitted c = 0xffffffffffffffff then ret (v3d_failed STATUS_INTEGER_OVERFLOW)
     else v3d_ready E (do {
       V3d_Arm E;
       modify (\<lambda>c. c\<lparr>v3_MemorySubmitted := v3_MemorySubmitted c + 1\<rparr>);
       v3d_job E fuel 50 (V3dSubmitTransferAt width height source destination stride config) V3D_TFU_DONE 0 (ret ())
         (v3d_require_or v3d_failed E (V3d_Hw (V3dDrain E)) (v3d_require_or v3d_failed E (v3d_job_clean E V3D_TFU_DONE 0) (do {
           io_barrier;
           v3d_require_or v3d_failed E (V3d_Guards E) (do {
             modify (\<lambda>c. c\<lparr>v3_MemoryCompleted := v3_MemorySubmitted c\<rparr>);
             v3_stats (\<lambda>s. s\<lparr>vs_Copies := vs_Copies s + 1, vs_Phase := 5\<rparr>);
             c \<leftarrow> gets id;
             ret (Some (STATUS_SUCCESS, v3_MemoryCompleted c, []))
           })
         })))
     })
   }"

text \<open>The two ranges of a transfer lie in their objects and do not overlap.\<close>

definition transfer_ranges :: "V3D_OBJECT \<Rightarrow> u32 \<Rightarrow> u32 \<Rightarrow> V3D_OBJECT \<Rightarrow> u32 \<Rightarrow> u32 \<Rightarrow> bool \<Rightarrow> bool" where
  "transfer_ranges source from' sbytes destination to' dbytes same \<longleftrightarrow>
     from' \<le> vo_Bytes source \<and> sbytes \<le> vo_Bytes source - from' \<and> to' \<le> vo_Bytes destination \<and> dbytes \<le> vo_Bytes destination - to' \<and>
     \<not> (same \<and> from' < to' + dbytes \<and> to' < from' + sbytes)"

definition V3d_ObjectCopy :: "env \<Rightarrow> nat \<Rightarrow> V3D_BUFFER_COPY \<Rightarrow> (V3D_CONTEXT, v3d_done) prog" where
  "V3d_ObjectCopy E fuel rq = do {
     c \<leftarrow> gets id;
     case (V3d_Object c (cq_Source rq), V3d_Object c (cq_Destination rq)) of
       (Some i, Some j) \<Rightarrow> (let source = v3_Objects c ! i; destination = v3_Objects c ! j; count = cq_Width rq * cq_Height rq * 4 in
         if vo_Flags destination AND PI5_V3D_BUFFER_WRITABLE = 0 \<or> cq_Width rq = 0 \<or> cq_Width rq > 4096 \<or> cq_Height rq = 0 \<or>
            cq_Height rq > 4096 \<or> (cq_SourceOffset rq OR cq_DestinationOffset rq) AND 63 \<noteq> 0 \<or> cq_Reserved rq \<noteq> 0 \<or> cq_Fence rq \<noteq> 0
         then ret (v3d_failed STATUS_INVALID_PARAMETER)
         else if \<not> transfer_ranges source (cq_SourceOffset rq) count destination (cq_DestinationOffset rq) count (i = j)
         then ret (v3d_failed STATUS_INVALID_PARAMETER)
         else V3d_ObjectTfu E fuel (cq_Width rq) (cq_Height rq) (vo_Address source + cq_SourceOffset rq)
           (vo_Address destination + cq_DestinationOffset rq) (cq_Width rq) (push_bit 16 (cq_Width rq)))
     | _ \<Rightarrow> ret (v3d_failed STATUS_INVALID_PARAMETER)
   }"

definition V3d_ObjectTile :: "env \<Rightarrow> nat \<Rightarrow> V3D_BUFFER_TILE \<Rightarrow> (V3D_CONTEXT, v3d_done) prog" where
  "V3d_ObjectTile E fuel rq = do {
     c \<leftarrow> gets id;
     case (V3d_Object c (lq_Source rq), V3d_Object c (lq_Destination rq)) of
       (Some i, Some j) \<Rightarrow> (let source = v3_Objects c ! i; destination = v3_Objects c ! j in
         if vo_Flags destination AND PI5_V3D_BUFFER_WRITABLE = 0 \<or> (lq_SourceOffset rq OR lq_DestinationOffset rq) AND 63 \<noteq> 0 \<or> lq_Fence rq \<noteq> 0
         then ret (v3d_failed STATUS_INVALID_PARAMETER)
         else case V3dTextureLayout (lq_Width rq) (lq_Height rq) (lq_SourcePitch rq) (lq_Layout rq) (lq_OutputRows rq) of
           None \<Rightarrow> ret (v3d_failed STATUS_INVALID_PARAMETER)
         | Some (sbytes, dbytes, config) \<Rightarrow>
           if \<not> transfer_ranges source (lq_SourceOffset rq) sbytes destination (lq_DestinationOffset rq) dbytes (i = j)
           then ret (v3d_failed STATUS_INVALID_PARAMETER)
           else V3d_ObjectTfu E fuel (lq_Width rq) (lq_Height rq) (vo_Address source + lq_SourceOffset rq)
             (vo_Address destination + lq_DestinationOffset rq) (lq_SourcePitch rq div 4) config)
     | _ \<Rightarrow> ret (v3d_failed STATUS_INVALID_PARAMETER)
   }"

definition V3d_ObjectRange :: "V3D_CONTEXT \<Rightarrow> u32 \<Rightarrow> u32 \<Rightarrow> bool \<Rightarrow> bool" where
  "V3d_ObjectRange c address count writable \<longleftrightarrow> count \<noteq> 0 \<and>
     (\<exists>o'\<in>set (v3_Objects c). vo_Handle o' \<noteq> 0 \<and> (vo_Flags o' AND PI5_V3D_BUFFER_WRITABLE \<noteq> 0) = writable \<and>
        address \<ge> vo_Address o' \<and> address - vo_Address o' < vo_Bytes o' \<and> count \<le> vo_Bytes o' - (address - vo_Address o'))"

definition submit_ok :: "V3D_CONTEXT \<Rightarrow> V3D_SUBMIT_CL \<Rightarrow> bool" where
  "submit_ok c rq \<longleftrightarrow>
     sq_Reserved rq = 0 \<and> sq_Fence rq = 0 \<and> sq_RclEnd rq > sq_RclStart rq \<and>
     V3d_ObjectRange c (sq_RclStart rq) (sq_RclEnd rq - sq_RclStart rq) False \<and>
     (if sq_BclStart rq \<noteq> sq_BclEnd rq
      then sq_BclEnd rq > sq_BclStart rq \<and> V3d_ObjectRange c (sq_BclStart rq) (sq_BclEnd rq - sq_BclStart rq) False \<and>
        (sq_TileAddress rq OR sq_TileBytes rq OR sq_StateAddress rq OR sq_StateBytes rq) AND (V3D_PAGE - 1) = 0 \<and>
        sq_TileBytes rq \<ge> V3D_TILE_BYTES \<and> sq_StateBytes rq \<ge> V3D_PAGE \<and>
        V3d_ObjectRange c (sq_TileAddress rq) (sq_TileBytes rq) True \<and> V3d_ObjectRange c (sq_StateAddress rq) (sq_StateBytes rq) True
      else sq_BclStart rq = 0 \<and> sq_BclEnd rq = 0 \<and> sq_TileAddress rq = 0 \<and> sq_TileBytes rq = 0 \<and> sq_StateAddress rq = 0 \<and> sq_StateBytes rq = 0)"

abbreviation v3_render :: "(V3D_RENDER_STATUS \<Rightarrow> V3D_RENDER_STATUS) \<Rightarrow> (V3D_CONTEXT, unit) prog" where
  "v3_render f \<equiv> modify (\<lambda>c. c\<lparr>v3_RenderStatus := f (v3_RenderStatus c)\<rparr>)"

text \<open>The binning job and the rendering job, for a client's command lists and for the self-test.\<close>

definition v3d_bin_job :: "env \<Rightarrow> nat \<Rightarrow> u32 \<Rightarrow> (V3D_IO, unit) prog \<Rightarrow> (V3D_CONTEXT, v3d_done) prog \<Rightarrow> (V3D_CONTEXT, v3d_done) prog" where
  "v3d_bin_job E fuel phase submit k = do {
     before \<leftarrow> io_read E V3dCore 0x134;
     v3_render (\<lambda>q. q\<lparr>vr_BinBefore := before\<rparr>);
     V3d_Arm E;
     v3d_job E fuel phase submit 0 2
       (do {
         after \<leftarrow> io_read E V3dCore 0x134;
         current \<leftarrow> io_read E V3dCore 0x110;
         last' \<leftarrow> io_read E V3dCore 0x108;
         v3_render (\<lambda>q. q\<lparr>vr_BinAfter := after, vr_BinCurrent := current, vr_BinEnd := last'\<rparr>)
       })
       (do {
         v3d_interrupts E;
         c \<leftarrow> gets id;
         v3d_require_or v3d_failed E
           (ret (if vr_BinAfter (v3_RenderStatus c) = vr_BinBefore (v3_RenderStatus c) \<or> v3_Pending c 0 \<noteq> 0 \<or> v3_Pending c 1 \<noteq> 2
             then STATUS_DEVICE_HARDWARE_ERROR else STATUS_SUCCESS)) k
       })
   }"

definition v3d_render_job :: "env \<Rightarrow> nat \<Rightarrow> u32 \<Rightarrow> (V3D_IO, unit) prog \<Rightarrow> (V3D_CONTEXT, v3d_done) prog \<Rightarrow> (V3D_CONTEXT, v3d_done) prog" where
  "v3d_render_job E fuel phase submit k = do {
     before \<leftarrow> io_read E V3dCore 0x104;
     frames \<leftarrow> io_read E V3dCore 0x138;
     v3_render (\<lambda>q. q\<lparr>vr_CtBefore := before, vr_FramesBefore := frames\<rparr>);
     V3d_Arm E;
     v3d_job E fuel phase submit 0 V3D_RENDER_DONE
       (do {
         after \<leftarrow> io_read E V3dCore 0x104;
         current \<leftarrow> io_read E V3dCore 0x114;
         last' \<leftarrow> io_read E V3dCore 0x10c;
         queue \<leftarrow> io_read E V3dCore 0x164;
         queueEnd \<leftarrow> io_read E V3dCore 0x16c;
         frames \<leftarrow> io_read E V3dCore 0x138;
         v3_render (\<lambda>q. q\<lparr>vr_CtAfter := after, vr_Current := current, vr_End := last', vr_QueueCurrent := queue, vr_QueueEnd := queueEnd,
           vr_FramesAfter := frames\<rparr>)
       })
       (do {
         c \<leftarrow> gets id;
         v3d_require_or v3d_failed E
           (ret (if vr_FramesAfter (v3_RenderStatus c) = vr_FramesBefore (v3_RenderStatus c) then STATUS_DEVICE_HARDWARE_ERROR else STATUS_SUCCESS))
           k
       })
   }"

definition V3d_ObjectSubmit :: "env \<Rightarrow> nat \<Rightarrow> V3D_SUBMIT_CL \<Rightarrow> (V3D_CONTEXT, v3d_done) prog" where
  "V3d_ObjectSubmit E fuel rq = do {
     c \<leftarrow> gets id;
     if \<not> submit_ok c rq then ret (v3d_failed STATUS_INVALID_PARAMETER)
     else if v3_MemorySubmitted c = 0xffffffffffffffff \<or> vr_Submitted (v3_RenderStatus c) = 0xffffffffffffffff
     then ret (v3d_failed STATUS_INTEGER_OVERFLOW)
     else v3d_ready E (do {
       modify (\<lambda>c. c\<lparr>v3_MemorySubmitted := v3_MemorySubmitted c + 1\<rparr>);
       v3_render (\<lambda>q. q\<lparr>vr_Submitted := vr_Submitted q + 1, vr_Invalidations := vr_Invalidations q + 1,
         vr_CommandBytes := sq_RclEnd rq - sq_RclStart rq, vr_BinBytes := sq_BclEnd rq - sq_BclStart rq\<rparr>);
       let render = v3d_render_job E fuel 52 (V3dSubmitRenderAt (sq_RclStart rq) (sq_RclEnd rq))
         (v3d_require_or v3d_failed E (V3d_Hw (V3dDrain E)) (v3d_require_or v3d_failed E (v3d_job_clean E 0 V3D_RENDER_DONE) (do {
           io_barrier;
           v3d_require_or v3d_failed E (V3d_Guards E) (do {
             modify (\<lambda>c. c\<lparr>v3_MemoryCompleted := v3_MemorySubmitted c\<rparr>);
             v3_render (\<lambda>q. q\<lparr>vr_Completed := vr_Submitted q, vr_Jobs := vr_Jobs q + 1\<rparr>);
             v3_phase 5;
             c \<leftarrow> gets id;
             ret (Some (STATUS_SUCCESS, v3_MemoryCompleted c, []))
           })
         })));
       if sq_BclStart rq \<noteq> sq_BclEnd rq
       then v3d_bin_job E fuel 51
         (V3dSubmitBinAt (sq_BclStart rq) (sq_BclEnd rq) (sq_TileAddress rq) (sq_TileBytes rq) (sq_StateAddress rq))
         (v3d_require_or v3d_failed E (V3d_Hw (V3dDrain E)) (v3d_require_or v3d_failed E (V3d_Hw (V3dInvalidate E)) (do {
           io_write V3dHub V3D_GMP_CONFIG 0;
           v3_render (\<lambda>q. q\<lparr>vr_Invalidations := vr_Invalidations q + 1\<rparr>);
           render
         })))
       else render
     })
   }"

end
