(* ===== verification/V3d_Driver.thy ===== *)
theory V3d_Driver
  imports V3d_Objects
begin

text \<open>
  The rest of the GPU driver (\<open>pi5-v3d/driver.c\<close>): the self-tests with their shaders (\<open>shader.h\<close>), the callbacks of the
  framework and the device-control requests.
\<close>

unbundle bit_operations_syntax

section \<open>The self-tests\<close>

abbreviation PI5_V3D_WORDS :: nat where "PI5_V3D_WORDS \<equiv> 2048"
abbreviation PI5_V3D_COMPUTE_LANES :: nat where "PI5_V3D_COMPUTE_LANES \<equiv> 16"

record V3D_IMAGE =
  im_Version :: u32
  im_Width :: u32
  im_Height :: u32
  im_Reserved :: u32
  im_Pixels :: "u32 list"

record V3D_COMPUTE =
  co_Version :: u32
  co_Operation :: u32
  co_XorValue :: u32
  co_Operand :: u32
  co_Fence :: u64
  co_Values :: "u32 list"

record V3D_RENDER =
  re_Version :: u32
  re_Width :: u32
  re_Height :: u32
  re_Color :: u32
  re_Fence :: u64

definition V3dShaderAdd :: "u64 list" where
  "V3dShaderAdd =
    [0x39813186bb03f000, 0x39817186bb03f000, 0x3981b186bb03f000, 0x3981f186bb03f000, 0x38002182bb03f002,
     0x38003186bb03f000, 0x39e021837c03f082, 0x38003186bb03f000, 0x3800318c3803f103, 0x38203186bb03f000,
     0x38003186bb03f000, 0x38003186bb03f000, 0x38823186bb03f000, 0x38003186bb03f000, 0x38002188b703f206,
     0x38003186bb03f000, 0x380021883803f207, 0x38003186bb03f000, 0x3800318bb603f208, 0x3800318c3803f143,
     0x38203186bb03f000, 0x38203186bb03f000, 0x38003186bb03f000, 0x38003186bb03f00f, 0x38003186bb03f000,
     0x38003186bb03f000, 0x38203186bb03f000, 0x38003186bb03f000, 0x38003186bb03f000]"

definition V3dShaderSub :: "u64 list" where
  "V3dShaderSub =
    [0x39813186bb03f000, 0x39817186bb03f000, 0x3981b186bb03f000, 0x3981f186bb03f000, 0x38002182bb03f002,
     0x38003186bb03f000, 0x39e021837c03f082, 0x38003186bb03f000, 0x3800318c3803f103, 0x38203186bb03f000,
     0x38003186bb03f000, 0x38003186bb03f000, 0x38823186bb03f000, 0x38003186bb03f000, 0x38002188b703f206,
     0x38003186bb03f000, 0x380021883c03f207, 0x38003186bb03f000, 0x3800318bb603f208, 0x3800318c3803f143,
     0x38203186bb03f000, 0x38203186bb03f000, 0x38003186bb03f000, 0x38003186bb03f00f, 0x38003186bb03f000,
     0x38003186bb03f000, 0x38203186bb03f000, 0x38003186bb03f000, 0x38003186bb03f000]"

text \<open>A word of the payload of a fixed buffer, as the CPU stores and loads it.\<close>

definition v3d_store :: "v3d_fixed \<Rightarrow> nat \<Rightarrow> u32 \<Rightarrow> (V3D_CONTEXT, unit) prog" where
  "v3d_store m i v = io_write (v3d_bank (VFixed m)) (4 * (1024 + of_nat i)) v"

definition v3d_load :: "env \<Rightarrow> v3d_fixed \<Rightarrow> nat \<Rightarrow> (V3D_CONTEXT, u32) prog" where
  "v3d_load E m i = io_read E (v3d_bank (VFixed m)) (4 * (1024 + of_nat i))"

text \<open>The comparison of memory with what is expected stops at the first difference.\<close>

fun v3d_verify :: "env \<Rightarrow> (v3d_fixed \<times> nat \<times> u32) list \<Rightarrow> (V3D_CONTEXT, NTSTATUS) prog" where
  "v3d_verify E [] = ret STATUS_SUCCESS"
| "v3d_verify E ((m, i, expected) # rest) = do {
     v \<leftarrow> v3d_load E m i;
     if v \<noteq> expected then ret STATUS_DATA_ERROR else v3d_verify E rest
   }"

definition V3d_InterruptCheck :: "env \<Rightarrow> nat \<Rightarrow> (V3D_CONTEXT, v3d_done) prog" where
  "V3d_InterruptCheck E fuel = do {
     v3_phase 6;
     V3d_Arm E;
     io_write V3dHub V3D_INT_SET 2;
     io_write V3dCore V3D_INT_SET 1;
     r \<leftarrow> V3d_Wait E fuel 2 1;
     case r of
       None \<Rightarrow> ret None
     | Some s \<Rightarrow> v3d_require_or v3d_failed E (ret s) (do {
         v3_stats (\<lambda>s. s\<lparr>vs_InterruptChecks := vs_InterruptChecks s + 1\<rparr>);
         ret (Some (STATUS_SUCCESS, 0, []))
       })
   }"

definition v3d_pixels :: "env \<Rightarrow> nat \<Rightarrow> (V3D_CONTEXT, u32 list) prog" where
  "v3d_pixels E words = mapM [0..<PI5_V3D_WORDS] (\<lambda>i. if i < words then v3d_load E MDestination i else ret 0)"

definition V3d_Copy :: "env \<Rightarrow> nat \<Rightarrow> V3D_IMAGE \<Rightarrow> (V3D_CONTEXT, v3d_done) prog" where
  "V3d_Copy E fuel rq = do {
     let words = unat (im_Width rq * im_Height rq);
     let pixel = (\<lambda>i. if i < words then im_Pixels rq ! i else V3D_GUARD);
     v3_phase 7;
     v3d_require_or v3d_failed E (V3d_Hw (V3dIdle E)) (v3d_require_or v3d_failed E (V3d_Guards E) (do {
       forM [0..<PI5_V3D_WORDS] (\<lambda>i. do { v3d_store MSource i (pixel i); v3d_store MDestination i V3D_GUARD });
       io_barrier;
       V3d_Arm E;
       v3d_job E fuel 8 (V3dSubmitCopy (im_Width rq) (im_Height rq)) V3D_TFU_DONE 0 (ret ())
         (v3d_require_or v3d_failed E (V3d_Hw (V3dPoll E V3dHub V3D_TFU_CS 1 0)) (v3d_require_or v3d_failed E (V3d_Hw (V3dDrain E)) (do {
           io_barrier;
           v3d_require_or v3d_failed E (V3d_Guards E)
             (v3d_require_or v3d_failed E
               (v3d_verify E (concat (map (\<lambda>i. [(MSource, i, pixel i), (MDestination, i, pixel i)]) [0..<PI5_V3D_WORDS]))) (do {
               pixels \<leftarrow> v3d_pixels E words;
               io_write V3dHub V3D_GMP_CONFIG 0;
               v3_stats (\<lambda>s. s\<lparr>vs_Copies := vs_Copies s + 1, vs_Phase := 5\<rparr>);
               ret (Some (STATUS_SUCCESS, 0, pixels))
             }))
         })))
     }))
   }"

abbreviation PI5_V3D_XOR_ADD :: u32 where "PI5_V3D_XOR_ADD \<equiv> 0"
abbreviation PI5_V3D_XOR_SUB :: u32 where "PI5_V3D_XOR_SUB \<equiv> 1"

abbreviation v3_compute :: "(V3D_COMPUTE_STATUS \<Rightarrow> V3D_COMPUTE_STATUS) \<Rightarrow> (V3D_CONTEXT, unit) prog" where
  "v3_compute f \<equiv> modify (\<lambda>c. c\<lparr>v3_ComputeStatus := f (v3_ComputeStatus c)\<rparr>)"

definition compute_result :: "V3D_COMPUTE \<Rightarrow> nat \<Rightarrow> u32" where
  "compute_result rq i = (let word = co_Values rq ! i XOR co_XorValue rq in
     if co_Operation rq = PI5_V3D_XOR_ADD then word + co_Operand rq else word - co_Operand rq)"

definition compute_code :: "V3D_COMPUTE \<Rightarrow> nat \<Rightarrow> u32" where
  "compute_code rq i = (let shader = (if co_Operation rq = PI5_V3D_XOR_ADD then V3dShaderAdd else V3dShaderSub) in
     if i < 2 * length V3dShaderAdd then ucast (drop_bit (i mod 2 * 32) (shader ! (i div 2))) else V3D_GUARD)"

definition compute_uniform :: "V3D_COMPUTE \<Rightarrow> nat \<Rightarrow> u32" where
  "compute_uniform rq i = (let uniforms = [V3D_SOURCE_VA, V3D_DEST_VA, co_XorValue rq, co_Operand rq] in
     if i < length uniforms then uniforms ! i else V3D_GUARD)"

definition V3d_Compute :: "env \<Rightarrow> nat \<Rightarrow> V3D_COMPUTE \<Rightarrow> (V3D_CONTEXT, v3d_done) prog" where
  "V3d_Compute E fuel rq = do {
     c \<leftarrow> gets id;
     if vq_Submitted (v3_ComputeStatus c) = 0xffffffffffffffff then ret (v3d_failed STATUS_INTEGER_OVERFLOW)
     else do {
       let active = (\<lambda>i. i < PI5_V3D_COMPUTE_LANES);
       let source = (\<lambda>i. if active i then co_Values rq ! i else V3D_GUARD);
       v3_phase 30;
       v3d_require_or v3d_failed E (V3d_Hw (V3dIdle E)) (v3d_require_or v3d_failed E (V3d_Guards E) (do {
         forM [0..<PI5_V3D_WORDS] (\<lambda>i. do {
           v3d_store MSource i (source i);
           v3d_store MDestination i (if active i then NOT (compute_result rq i) else V3D_GUARD)
         });
         forM [0..<1024] (\<lambda>i. do { v3d_store MCode i (compute_code rq i); v3d_store MUniform i (compute_uniform rq i) });
         io_barrier;
         v3d_require_or v3d_failed E (V3d_Hw (V3dInvalidate E)) (do {
           v3_compute (\<lambda>q. q\<lparr>vq_Invalidations := vq_Invalidations q + 1, vq_CodeBytes := of_nat (8 * length V3dShaderAdd)\<rparr>);
           V3d_Arm E;
           before \<leftarrow> io_read E V3dCore V3D_CSD_STATUS;
           v3_compute (\<lambda>q. q\<lparr>vq_CsdBefore := before, vq_Submitted := vq_Submitted q + 1\<rparr>);
           v3d_job E fuel 31 (V3dSubmitCompute (vq_IpRevision (v3_ComputeStatus c))) 0 V3D_CSD_DONE
             (do { after \<leftarrow> io_read E V3dCore V3D_CSD_STATUS; v3_compute (\<lambda>q. q\<lparr>vq_CsdAfter := after\<rparr>) })
             (do {
               modify (\<lambda>c. c\<lparr>v3_Io := (v3_Io c)\<lparr>vi_CsdIdle := vq_CsdAfter (v3_ComputeStatus c)\<rparr>\<rparr>);
               v3_phase 32;
               v3d_require_or v3d_failed E (V3d_Hw (V3dDrain E)) (v3d_require_or v3d_failed E (v3d_job_clean E 0 V3D_CSD_DONE) (do {
                 io_barrier;
                 v3d_require_or v3d_failed E (V3d_Guards E)
                   (v3d_require_or v3d_failed E
                     (v3d_verify E (concat (map (\<lambda>i. [(MSource, i, source i), (MDestination, i, if active i then compute_result rq i else V3D_GUARD)])
                         [0..<PI5_V3D_WORDS]) @
                       concat (map (\<lambda>i. [(MCode, i, compute_code rq i), (MUniform, i, compute_uniform rq i)]) [0..<1024]))) (do {
                     values \<leftarrow> mapM [0..<PI5_V3D_COMPUTE_LANES] (v3d_load E MDestination);
                     io_write V3dHub V3D_GMP_CONFIG 0;
                     v3_compute (\<lambda>q. q\<lparr>vq_Completed := vq_Submitted q, vq_Jobs := vq_Jobs q + 1\<rparr>);
                     v3_phase 5;
                     c \<leftarrow> gets id;
                     ret (Some (STATUS_SUCCESS, vq_Completed (v3_ComputeStatus c), values))
                   }))
               }))
             })
         })
       }))
     }
   }"

text \<open>The words of the command list that clears a tile.\<close>

definition clear_command :: "V3D_RENDER \<Rightarrow> nat \<times> u32 list" where
  "clear_command rq = (case V3dBuildClear (replicate 128 0) 128 (re_Width rq) (re_Height rq) (re_Color rq) of
     (count, None) \<Rightarrow> (count, [])
   | (count, Some l) \<Rightarrow> (count, map (\<lambda>i. le32 (l ! (4 * i)) (l ! (4 * i + 1)) (l ! (4 * i + 2)) (l ! (4 * i + 3))) [0..<32]))"

record render_plan =
  rp_Bytes :: nat
  rp_Pixel :: "nat \<Rightarrow> u32"
  rp_Source :: "nat \<Rightarrow> u32"
  rp_Code :: "nat \<Rightarrow> u32"
  rp_Uniform :: "nat \<Rightarrow> u32"

definition render_words :: "V3D_RENDER \<Rightarrow> bool \<Rightarrow> render_plan" where
  "render_words rq triangle = (let (count, command) = clear_command rq; n = (if triangle then unat V3dTriangleRclBytes else count) in
     \<lparr>rp_Bytes = n,
      rp_Pixel = (\<lambda>i. if triangle then V3dTrianglePixel i (re_Color rq) else re_Color rq),
      rp_Source = (\<lambda>i. if triangle then V3dTriangleSourceWord i else V3D_GUARD),
      rp_Code = (\<lambda>i. if triangle then V3dTriangleCodeWord i (re_Color rq) else if i < (n + 3) div 4 then command ! i else V3D_GUARD),
      rp_Uniform = (\<lambda>i. if triangle then V3dTriangleUniformWord i else V3D_GUARD)\<rparr>)"

text \<open>The comparison of the picture remembers the first wrong pixel.\<close>

fun v3d_verify_picture :: "env \<Rightarrow> (nat \<times> u32 \<times> u32) list \<Rightarrow> (V3D_CONTEXT, NTSTATUS) prog" where
  "v3d_verify_picture E [] = ret STATUS_SUCCESS"
| "v3d_verify_picture E ((i, expected, source) # rest) = do {
     v \<leftarrow> v3d_load E MDestination i;
     if v \<noteq> expected then do {
       observed \<leftarrow> v3d_load E MDestination i;
       v3_render (\<lambda>q. q\<lparr>vr_MismatchIndex := of_nat i, vr_Observed := observed, vr_Expected := expected\<rparr>);
       ret STATUS_DATA_ERROR
     }
     else do {
       v \<leftarrow> v3d_load E MSource i;
       if v \<noteq> source then ret STATUS_DATA_ERROR else v3d_verify_picture E rest
     }
   }"

definition V3d_Render :: "env \<Rightarrow> nat \<Rightarrow> V3D_RENDER \<Rightarrow> bool \<Rightarrow> (V3D_CONTEXT, v3d_done) prog" where
  "V3d_Render E fuel rq triangle = do {
     c \<leftarrow> gets id;
     let words = unat (re_Width rq * re_Height rq);
     let plan = render_words rq triangle;
     if vr_Submitted (v3_RenderStatus c) = 0xffffffffffffffff then ret (v3d_failed STATUS_INTEGER_OVERFLOW)
     else if triangle \<and> vq_IpRevision (v3_ComputeStatus c) \<noteq> 10 then ret (v3d_failed STATUS_NOT_SUPPORTED)
     else if rp_Bytes plan = 0 then ret (v3d_failed STATUS_INVALID_PARAMETER)
     else do {
       v3_phase 40;
       v3d_require_or v3d_failed E (V3d_Hw (V3dIdle E)) (v3d_require_or v3d_failed E (V3d_Guards E) (do {
         forM [0..<PI5_V3D_WORDS] (\<lambda>i. do {
           v3d_store MSource i (rp_Source plan i);
           v3d_store MDestination i (if i < words then NOT (rp_Pixel plan i) else V3D_GUARD)
         });
         forM [0..<1024] (\<lambda>i. do { v3d_store MCode i (rp_Code plan i); v3d_store MUniform i (rp_Uniform plan i) });
         whenM triangle (do {
           forM [0..<4096] (\<lambda>i. v3d_store MTile i 0);
           forM [0..<1024] (\<lambda>i. v3d_store MTileState i 0)
         });
         io_barrier;
         v3d_require_or v3d_failed E (V3d_Hw (V3dInvalidate E)) (do {
           v3_render (\<lambda>q. q\<lparr>vr_Invalidations := vr_Invalidations q + 1, vr_CommandBytes := of_nat (rp_Bytes plan),
             vr_BinBytes := (if triangle then V3dTriangleBclBytes else 0), vr_Submitted := vr_Submitted q + 1\<rparr>);
           let render = v3d_render_job E fuel 41 (V3dSubmitRender (of_nat (rp_Bytes plan))) (do {
             v3_phase 42;
             v3d_require_or v3d_failed E (V3d_Hw (V3dDrain E)) (v3d_require_or v3d_failed E (v3d_job_clean E 0 V3D_RENDER_DONE) (do {
               io_barrier;
               v3d_require_or v3d_failed E (V3d_Guards E)
                 (v3d_require_or v3d_failed E
                   (v3d_verify_picture E (map (\<lambda>i. (i, if i < words then rp_Pixel plan i else V3D_GUARD, rp_Source plan i)) [0..<PI5_V3D_WORDS]))
                   (v3d_require_or v3d_failed E
                     (v3d_verify E (concat (map (\<lambda>i. [(MCode, i, rp_Code plan i), (MUniform, i, rp_Uniform plan i)]) [0..<1024]))) (do {
                     pixels \<leftarrow> v3d_pixels E words;
                     io_write V3dHub V3D_GMP_CONFIG 0;
                     v3_render (\<lambda>q. q\<lparr>vr_Completed := vr_Submitted q, vr_Jobs := vr_Jobs q + 1\<rparr>);
                     v3_phase 5;
                     c \<leftarrow> gets id;
                     ret (Some (STATUS_SUCCESS, vr_Completed (v3_RenderStatus c), pixels))
                   })))
             }))
           });
           if triangle
           then v3d_bin_job E fuel 43 V3dSubmitBin (do {
             v3_phase 44;
             v3d_require_or v3d_failed E (V3d_Hw (V3dDrain E)) (do {
               io_write V3dHub V3D_GMP_CONFIG 0;
               v3d_require_or v3d_failed E (V3d_Hw (V3dInvalidate E)) (do {
                 v3_render (\<lambda>q. q\<lparr>vr_Invalidations := vr_Invalidations q + 1\<rparr>);
                 render
               })
             })
           })
           else render
         })
       }))
     }
   }"

section \<open>The device\<close>

abbreviation V3d_Bases :: "u64 list" where "V3d_Bases \<equiv> [0x1002000000, 0x1002008000, 0x1002030800]"
abbreviation V3d_Lengths :: "u32 list" where "V3d_Lengths \<equiv> [0x4000, 0x6000, 0x700]"

text \<open>The three register blocks, each once, and two interrupts. A missing descriptor (\<open>None\<close>) is refused.\<close>

fun v3d_map_blocks :: "env \<Rightarrow> cm_resource option list \<Rightarrow> u32 \<Rightarrow> nat \<Rightarrow> (V3D_CONTEXT, NTSTATUS) prog" where
  "v3d_map_blocks E [] found irqs = ret (if found \<noteq> 7 \<or> irqs \<noteq> 2 then STATUS_DEVICE_CONFIGURATION_ERROR else STATUS_SUCCESS)"
| "v3d_map_blocks E (None # rs) found irqs = ret STATUS_DEVICE_CONFIGURATION_ERROR"
| "v3d_map_blocks E (Some CmNull # rs) found irqs = v3d_map_blocks E rs found irqs"
| "v3d_map_blocks E (Some CmDevicePrivate # rs) found irqs = v3d_map_blocks E rs found irqs"
| "v3d_map_blocks E (Some (CmInterrupt flags vector) # rs) found irqs = v3d_map_blocks E rs found (irqs + 1)"
| "v3d_map_blocks E (Some (CmMemory start count) # rs) found irqs =
     (case find (\<lambda>j. start = V3d_Bases ! j \<and> count = V3d_Lengths ! j) [0..<3] of
        None \<Rightarrow> ret STATUS_DEVICE_CONFIGURATION_ERROR
      | Some j \<Rightarrow> if bit found j then ret STATUS_DEVICE_CONFIGURATION_ERROR
          else do {
            p \<leftarrow> io_call E ''MmMapIoSpaceEx'' [start, ucast (V3d_Lengths ! j), PAGE_READWRITE OR PAGE_NOCACHE];
            modify (\<lambda>c. c\<lparr>v3_Registers := (v3_Registers c)[j := p]\<rparr>);
            if p = 0 then ret STATUS_INSUFFICIENT_RESOURCES else v3d_map_blocks E rs (set_bit j found) irqs
          })"
| "v3d_map_blocks E (Some r # rs) found irqs = ret STATUS_DEVICE_CONFIGURATION_ERROR"

definition V3d_Prepare :: "env \<Rightarrow> cm_resource option list \<Rightarrow> (V3D_CONTEXT, NTSTATUS) prog" where
  "V3d_Prepare E rs = do {
     s \<leftarrow> V3d_Marker E False;
     fault \<leftarrow> gets v3_BootFault;
     if fault \<or> NT_SUCCESS s then ret STATUS_DEVICE_HARDWARE_ERROR
     else if s \<noteq> STATUS_OBJECT_NAME_NOT_FOUND \<and> s \<noteq> STATUS_OBJECT_PATH_NOT_FOUND then ret s
     else v3d_chain (v3d_map_blocks E rs 0 0) (do {
       adapter \<leftarrow> io_call E ''IoGetDmaAdapter'' [36];
       modify (\<lambda>c. c\<lparr>v3_Adapter := adapter\<rparr>);
       if adapter = 0 then ret STATUS_INSUFFICIENT_RESOURCES
       else do {
         common \<leftarrow> io_call E ''DmaOperations.AllocateCommonBufferEx'' [adapter];
         ret (if common = 0 then STATUS_NOT_SUPPORTED else STATUS_SUCCESS)
       }
     })
   }"

definition V3d_ReleaseHardware :: "env \<Rightarrow> (V3D_CONTEXT, NTSTATUS) prog" where
  "V3d_ReleaseHardware E = do {
     Kernel_Lock_forever E;
     c \<leftarrow> gets id;
     whenM (v3_Owner c \<noteq> 0) (do { s \<leftarrow> V3d_Fault E STATUS_DEVICE_BUSY; ret () });
     v3_stats (\<lambda>s. s\<lparr>vs_Online := 0\<rparr>);
     forM [0..<3] (\<lambda>i. do {
       c \<leftarrow> gets id;
       whenM (v3_Registers c ! i \<noteq> 0) (kernel_do E ''MmUnmapIoSpace'' [v3_Registers c ! i, ucast (V3d_Lengths ! i)]);
       modify (\<lambda>c. c\<lparr>v3_Registers := (v3_Registers c)[i := 0]\<rparr>)
     });
     c \<leftarrow> gets id;
     whenM (v3_Adapter c \<noteq> 0 \<and> \<not> v3_BootFault c) (do { kernel_do E ''PutDmaAdapter'' [v3_Adapter c]; modify (\<lambda>c. c\<lparr>v3_Adapter := 0\<rparr>) });
     Kernel_Unlock E;
     ret STATUS_SUCCESS
   }"

definition V3d_Entry :: "(V3D_CONTEXT, NTSTATUS) prog" where
  "V3d_Entry = do {
     fault \<leftarrow> gets v3_BootFault;
     v3_stats (\<lambda>s. s\<lparr>vs_Online := c_bool (\<not> fault)\<rparr>);
     ret (if fault then STATUS_DEVICE_HARDWARE_ERROR else STATUS_SUCCESS)
   }"

definition V3d_Exit :: "env \<Rightarrow> (V3D_CONTEXT, NTSTATUS) prog" where
  "V3d_Exit E = do {
     Kernel_Lock_forever E;
     v3_stats (\<lambda>s. s\<lparr>vs_Online := 0\<rparr>);
     c \<leftarrow> gets id;
     whenM (v3_Owner c \<noteq> 0) (do { s \<leftarrow> V3d_End E; ret () });
     Kernel_Unlock E;
     ret STATUS_SUCCESS
   }"

definition V3d_QueryStop :: "(V3D_CONTEXT, NTSTATUS) prog" where
  "V3d_QueryStop = do { c \<leftarrow> gets id; ret (if v3_Owner c \<noteq> 0 \<or> v3_BootFault c then STATUS_DEVICE_BUSY else STATUS_SUCCESS) }"

definition V3d_QueryRemove :: "(V3D_CONTEXT, NTSTATUS) prog" where
  "V3d_QueryRemove = V3d_QueryStop"

definition V3d_Cleanup :: "env \<Rightarrow> ptr \<Rightarrow> (V3D_CONTEXT, unit) prog" where
  "V3d_Cleanup E file' = do {
     Kernel_Lock_forever E;
     c \<leftarrow> gets id;
     whenM (v3_Owner c = file') (do { s \<leftarrow> V3d_End E; ret () });
     Kernel_Unlock E
   }"

definition V3d_InterruptDisable :: "nat \<Rightarrow> (V3D_CONTEXT, NTSTATUS) prog" where
  "V3d_InterruptDisable unit = do {
     c \<leftarrow> gets id;
     whenM (v3_IrqLive c unit) (io_write (of_nat unit) V3D_INT_MASK_SET 0xffffffff);
     modify (\<lambda>c. c\<lparr>v3_IrqLive := (v3_IrqLive c)(unit := False)\<rparr>);
     ret STATUS_SUCCESS
   }"

text \<open>A device-control request with its decoded input. The lengths of its buffers come beside it.\<close>

datatype v3d_plain = PlBegin | PlMemoryBegin | PlEnd | PlReset | PlInterruptCheck | PlOther

datatype v3d_request =
    RqQuery
  | RqComputeQuery
  | RqRenderQuery
  | RqImport V3D_BUFFER_IMPORT
  | RqSubmit V3D_SUBMIT_CL
  | RqTile V3D_BUFFER_TILE
  | RqCopyBuffer V3D_BUFFER_COPY
  | RqCreate V3D_BUFFER_REQUEST
  | RqDestroy V3D_BUFFER_REQUEST
  | RqRead V3D_TRANSFER
  | RqWrite V3D_TRANSFER "u32 list"
  | RqRender V3D_RENDER
  | RqTriangle V3D_RENDER
  | RqCompute V3D_COMPUTE
  | RqCopy V3D_IMAGE
  | RqPlain v3d_plain u32 u32        \<comment> \<open>Version and Reserved\<close>

text \<open>Status and length of the answer.\<close>

type_synonym v3d_answer = "(NTSTATUS \<times> nat) option"

abbreviation v3d_refused :: "NTSTATUS \<Rightarrow> v3d_answer" where
  "v3d_refused s \<equiv> Some (s, 0)"

definition v3d_input :: "env \<Rightarrow> nat \<Rightarrow> (V3D_CONTEXT, v3d_answer) prog \<Rightarrow> (V3D_CONTEXT, v3d_answer) prog" where
  "v3d_input E n k = do {
     s \<leftarrow> kernel_status E ''WdfRequestRetrieveInputBuffer'' [of_nat n];
     if s \<noteq> STATUS_SUCCESS then ret (v3d_refused s) else k
   }"

definition v3d_output :: "env \<Rightarrow> nat \<Rightarrow> (V3D_CONTEXT, v3d_answer) prog \<Rightarrow> (V3D_CONTEXT, v3d_answer) prog" where
  "v3d_output E n k = do {
     s \<leftarrow> kernel_status E ''WdfRequestRetrieveOutputBuffer'' [of_nat n];
     if s \<noteq> STATUS_SUCCESS then ret (v3d_refused s) else k
   }"

definition v3d_check :: "bool \<Rightarrow> NTSTATUS \<Rightarrow> (V3D_CONTEXT, v3d_answer) prog \<Rightarrow> (V3D_CONTEXT, v3d_answer) prog" where
  "v3d_check b s k = (if b then k else ret (v3d_refused s))"

text \<open>The status of an operation is remembered, and its answer has a length when it succeeded.\<close>

definition v3d_finish :: "nat \<Rightarrow> NTSTATUS option \<Rightarrow> (V3D_CONTEXT, v3d_answer) prog" where
  "v3d_finish n r = (case r of
     None \<Rightarrow> ret None
   | Some s \<Rightarrow> do { v3_stats (\<lambda>x. x\<lparr>vs_LastStatus := s\<rparr>); ret (Some (s, if s = STATUS_SUCCESS then n else 0)) })"

definition v3d_run :: "nat \<Rightarrow> (V3D_CONTEXT, NTSTATUS) prog \<Rightarrow> (V3D_CONTEXT, v3d_answer) prog" where
  "v3d_run n m = do { s \<leftarrow> m; v3d_finish n (Some s) }"

definition v3d_run_pair :: "nat \<Rightarrow> (V3D_CONTEXT, NTSTATUS \<times> 'b) prog \<Rightarrow> (V3D_CONTEXT, v3d_answer) prog" where
  "v3d_run_pair n m = do { r \<leftarrow> m; v3d_finish n (Some (fst r)) }"

definition v3d_run_job :: "nat \<Rightarrow> (V3D_CONTEXT, v3d_done) prog \<Rightarrow> (V3D_CONTEXT, v3d_answer) prog" where
  "v3d_run_job n m = do { r \<leftarrow> m; v3d_finish n (map_option fst r) }"

definition v3d_member :: "ptr \<Rightarrow> (V3D_CONTEXT, v3d_answer) prog \<Rightarrow> (V3D_CONTEXT, v3d_answer) prog" where
  "v3d_member file' k = do { c \<leftarrow> gets id; v3d_check (v3_Owner c = file' \<and> v3_MemorySession c) STATUS_ACCESS_DENIED k }"

text \<open>A request with one structure in and one out.\<close>

definition v3d_exchange :: "env \<Rightarrow> nat \<Rightarrow> nat \<Rightarrow> nat \<Rightarrow> nat \<Rightarrow> bool \<Rightarrow> (V3D_CONTEXT, v3d_answer) prog \<Rightarrow> (V3D_CONTEXT, v3d_answer) prog" where
  "v3d_exchange E il ol isz osz ok k =
     v3d_check (il = isz \<and> ol = osz) STATUS_INVALID_PARAMETER (v3d_input E il (v3d_output E ol (v3d_check ok STATUS_INVALID_PARAMETER k)))"

definition v3d_query :: "env \<Rightarrow> nat \<Rightarrow> nat \<Rightarrow> nat \<Rightarrow> (V3D_CONTEXT, unit) prog \<Rightarrow> (V3D_CONTEXT, v3d_answer) prog" where
  "v3d_query E il ol n m = v3d_check (il = 0 \<and> ol = n) STATUS_INVALID_PARAMETER (v3d_output E n (do { m; ret (Some (STATUS_SUCCESS, n)) }))"

text \<open>A query of the status checks the guards first.\<close>

definition v3d_query_status :: "env \<Rightarrow> (V3D_CONTEXT, unit) prog" where
  "v3d_query_status E = do {
     c \<leftarrow> gets id;
     whenM (v3_Claimed c \<and> \<not> v3_BootFault c) (do {
       modify (\<lambda>c. c\<lparr>v3_GuardsClean := False\<rparr>);
       checked \<leftarrow> V3d_Guards E;
       whenM (checked \<noteq> STATUS_SUCCESS) (do { s \<leftarrow> V3d_Fault E checked; ret () })
     });
     V3d_Snapshot E
   }"

definition v3d_memory_request :: "env \<Rightarrow> v3d_kernel \<Rightarrow> nat \<Rightarrow> nat \<Rightarrow> nat \<Rightarrow> v3d_request \<Rightarrow> (V3D_CONTEXT, v3d_answer) prog" where
  "v3d_memory_request E K fuel il ol rq = (case rq of
     RqImport b \<Rightarrow> v3d_exchange E il ol 24 24 (iq_Version b = 1) (v3d_run_pair 24 (V3d_ObjectImport E K b))
   | RqSubmit b \<Rightarrow> v3d_exchange E il ol 48 48 (sq_Version b = 1) (v3d_run_job 48 (V3d_ObjectSubmit E fuel b))
   | RqTile b \<Rightarrow> v3d_exchange E il ol 48 48 (lq_Version b = 1) (v3d_run_job 48 (V3d_ObjectTile E fuel b))
   | RqCopyBuffer b \<Rightarrow> v3d_exchange E il ol 40 40 (cq_Version b = 1) (v3d_run_job 40 (V3d_ObjectCopy E fuel b))
   | RqCreate b \<Rightarrow> v3d_check (il = 24 \<and> ol = 24) STATUS_INVALID_PARAMETER (v3d_input E il
       (v3d_check (bq_Version b = 1) STATUS_INVALID_PARAMETER (v3d_output E ol (v3d_run_pair 24 (V3d_ObjectCreate E K b)))))
   | RqDestroy b \<Rightarrow> v3d_check (il = 24 \<and> ol = 0) STATUS_INVALID_PARAMETER (v3d_input E il
       (v3d_check (bq_Version b = 1) STATUS_INVALID_PARAMETER (v3d_run 0 (V3d_ObjectDestroy E b))))
   | RqRead b \<Rightarrow> v3d_check (il \<ge> 16) STATUS_INVALID_PARAMETER (v3d_input E il
       (v3d_check (tq_Version b = 1 \<and> tq_Bytes b \<noteq> 0 \<and> tq_Bytes b \<le> PI5_V3D_TRANSFER_MAX_BYTES \<and> il = 16 \<and> ol = 16 + unat (tq_Bytes b))
         STATUS_INVALID_PARAMETER (v3d_output E ol (v3d_run_pair ol (V3d_ObjectTransfer E b None)))))
   | RqWrite b words \<Rightarrow> v3d_check (il \<ge> 16) STATUS_INVALID_PARAMETER (v3d_input E il
       (v3d_check (tq_Version b = 1 \<and> tq_Bytes b \<noteq> 0 \<and> tq_Bytes b \<le> PI5_V3D_TRANSFER_MAX_BYTES \<and> il = 16 + unat (tq_Bytes b) \<and> ol = 0)
         STATUS_INVALID_PARAMETER (v3d_run_pair 0 (V3d_ObjectTransfer E b (Some words)))))
   | _ \<Rightarrow> ret (v3d_refused STATUS_INVALID_DEVICE_REQUEST))"

definition v3d_owned :: "ptr \<Rightarrow> (V3D_CONTEXT, v3d_answer) prog \<Rightarrow> (V3D_CONTEXT, v3d_answer) prog" where
  "v3d_owned file' k = do { c \<leftarrow> gets id; v3d_check (v3_Owner c = file') STATUS_ACCESS_DENIED k }"

definition v3d_fixed_only :: "(V3D_CONTEXT, v3d_answer) prog \<Rightarrow> (V3D_CONTEXT, v3d_answer) prog" where
  "v3d_fixed_only k = do { c \<leftarrow> gets id; v3d_check (\<not> v3_MemorySession c) STATUS_INVALID_DEVICE_STATE k }"

definition render_ok :: "V3D_RENDER \<Rightarrow> bool \<Rightarrow> bool" where
  "render_ok b triangle \<longleftrightarrow> re_Version b = 1 \<and> re_Width b \<noteq> 0 \<and> re_Width b \<le> 64 \<and> re_Height b \<noteq> 0 \<and> re_Height b \<le> 32 \<and> re_Fence b = 0 \<and>
     (triangle \<longrightarrow> re_Width b = 64 \<and> re_Height b = 32 \<and> re_Color b \<noteq> 0xff00ff00)"

definition v3d_plain_run :: "env \<Rightarrow> nat \<Rightarrow> ptr \<Rightarrow> v3d_plain \<Rightarrow> (V3D_CONTEXT, v3d_answer) prog" where
  "v3d_plain_run E fuel file' p = (case p of
     PlBegin \<Rightarrow> v3d_run 0 (V3d_Begin E file')
   | PlMemoryBegin \<Rightarrow> v3d_run 0 (V3d_MemoryBegin E file')
   | PlEnd \<Rightarrow> v3d_owned file' (v3d_run 0 (V3d_End E))
   | PlReset \<Rightarrow> v3d_owned file' (v3d_run 0 (V3d_Reset E))
   | PlInterruptCheck \<Rightarrow> v3d_owned file' (v3d_run_job 0 (V3d_InterruptCheck E fuel))
   | PlOther \<Rightarrow> v3d_owned file' (v3d_run 0 (ret STATUS_INVALID_DEVICE_REQUEST)))"

definition v3d_fixed_request :: "env \<Rightarrow> nat \<Rightarrow> ptr \<Rightarrow> nat \<Rightarrow> nat \<Rightarrow> v3d_request \<Rightarrow> (V3D_CONTEXT, v3d_answer) prog" where
  "v3d_fixed_request E fuel file' il ol rq = (case rq of
     RqRender b \<Rightarrow> v3d_fixed_only (v3d_exchange E il ol 8216 8216 (render_ok b False) (v3d_owned file' (v3d_run_job 8216 (V3d_Render E fuel b False))))
   | RqTriangle b \<Rightarrow> v3d_fixed_only (v3d_exchange E il ol 8216 8216 (render_ok b True) (v3d_owned file' (v3d_run_job 8216 (V3d_Render E fuel b True))))
   | RqCompute b \<Rightarrow> v3d_fixed_only (v3d_exchange E il ol 88 88 (co_Version b = 1 \<and> co_Operation b \<le> PI5_V3D_XOR_SUB \<and> co_Fence b = 0)
       (v3d_owned file' (v3d_run_job 88 (V3d_Compute E fuel b))))
   | RqCopy b \<Rightarrow> v3d_fixed_only (v3d_exchange E il ol 8208 8208
       (im_Version b = 1 \<and> im_Reserved b = 0 \<and> im_Width b \<noteq> 0 \<and> im_Width b \<le> 64 \<and> im_Height b \<noteq> 0 \<and> im_Height b \<le> 32)
       (v3d_owned file' (v3d_run_job 8208 (V3d_Copy E fuel b))))
   | RqPlain p version reserved \<Rightarrow> v3d_check (il = 8 \<and> ol = 0) STATUS_INVALID_PARAMETER (v3d_input E il
       (v3d_check (version = 1 \<and> reserved = 0) STATUS_INVALID_PARAMETER (v3d_plain_run E fuel file' p)))
   | _ \<Rightarrow> ret (v3d_refused STATUS_INVALID_DEVICE_REQUEST))"

definition v3d_trusted :: "bool \<Rightarrow> ptr \<Rightarrow> (V3D_CONTEXT, v3d_answer) prog \<Rightarrow> (V3D_CONTEXT, v3d_answer) prog" where
  "v3d_trusted kmode file' k = do {
     c \<leftarrow> gets id;
     v3d_check kmode STATUS_ACCESS_DENIED
       (v3d_check (file' \<noteq> 0 \<and> vs_Online (v3_Status c) \<noteq> 0) STATUS_DEVICE_NOT_READY
         (v3d_check (\<not> v3_BootFault c) STATUS_DEVICE_HARDWARE_ERROR k))
   }"

definition is_memory_request :: "v3d_request \<Rightarrow> bool" where
  "is_memory_request rq = (case rq of RqImport b \<Rightarrow> True | RqSubmit b \<Rightarrow> True | RqTile b \<Rightarrow> True | RqCopyBuffer b \<Rightarrow> True | RqCreate b \<Rightarrow> True
     | RqDestroy b \<Rightarrow> True | RqRead b \<Rightarrow> True | RqWrite b ws \<Rightarrow> True | _ \<Rightarrow> False)"

definition V3d_Control :: "env \<Rightarrow> v3d_kernel \<Rightarrow> nat \<Rightarrow> ptr \<Rightarrow> bool \<Rightarrow> nat \<Rightarrow> nat \<Rightarrow> v3d_request \<Rightarrow> (V3D_CONTEXT, v3d_answer) prog" where
  "V3d_Control E K fuel file' kmode il ol rq = do {
     s \<leftarrow> kernel_status E ''WdfWaitLockAcquire'' [5];
     if s \<noteq> STATUS_SUCCESS then ret (v3d_refused (if s = STATUS_TIMEOUT then STATUS_IO_TIMEOUT else s))
     else do {
       r \<leftarrow> (case rq of
           RqQuery \<Rightarrow> v3d_query E il ol 200 (v3d_query_status E)
         | RqComputeQuery \<Rightarrow> v3d_query E il ol 64 (v3_compute (\<lambda>q. q\<lparr>vq_Version := 1\<rparr>))
         | RqRenderQuery \<Rightarrow> v3d_query E il ol 96 (v3_render (\<lambda>q. q\<lparr>vr_Version := 1\<rparr>))
         | _ \<Rightarrow> v3d_trusted kmode file' (if is_memory_request rq then v3d_member file' (v3d_memory_request E K fuel il ol rq)
             else v3d_fixed_request E fuel file' il ol rq));
       Kernel_Unlock E;
       ret r
     }
   }"

section \<open>Sessions\<close>

text \<open>The calls of the framework in any order, on a device just added.\<close>

datatype v3d_call =
    VcPrepare "cm_resource option list"
  | VcRelease
  | VcEntry
  | VcExit
  | VcQueryStop
  | VcQueryRemove
  | VcCleanup ptr
  | VcIsr bool                       \<comment> \<open>the first of the two interrupts\<close>
  | VcInterruptDisable bool
  | VcControl ptr bool nat nat v3d_request

definition v3d_unit :: "bool \<Rightarrow> nat" where
  "v3d_unit first = (if first then 0 else 1)"

definition v3d_ignore :: "('s, 'a) prog \<Rightarrow> ('s, unit) prog" where
  "v3d_ignore m = do { r \<leftarrow> m; ret () }"

fun v3d_step :: "env \<Rightarrow> v3d_kernel \<Rightarrow> nat \<Rightarrow> v3d_call \<Rightarrow> (V3D_CONTEXT, unit) prog" where
  "v3d_step E K fuel (VcPrepare rs) = v3d_ignore (V3d_Prepare E rs)"
| "v3d_step E K fuel VcRelease = v3d_ignore (V3d_ReleaseHardware E)"
| "v3d_step E K fuel VcEntry = v3d_ignore V3d_Entry"
| "v3d_step E K fuel VcExit = v3d_ignore (V3d_Exit E)"
| "v3d_step E K fuel VcQueryStop = v3d_ignore V3d_QueryStop"
| "v3d_step E K fuel VcQueryRemove = v3d_ignore V3d_QueryRemove"
| "v3d_step E K fuel (VcCleanup f) = V3d_Cleanup E f"
| "v3d_step E K fuel (VcIsr first) = do { r \<leftarrow> V3d_Isr E (v3d_unit first); V3d_Dpc E }"
| "v3d_step E K fuel (VcInterruptDisable first) = v3d_ignore (V3d_InterruptDisable (v3d_unit first))"
| "v3d_step E K fuel (VcControl f kmode il ol rq) = v3d_ignore (V3d_Control E K fuel f kmode il ol rq)"

end
