(* ===== verification/V3d_Frame.thy ===== *)
theory V3d_Frame
  imports V3d_Driver
begin

text \<open>
  The calls of the GPU driver that leave its memory alone: a call that changes neither the buffers nor the objects nor the
  table, stores nothing to the table in memory, and neither frees nor enables anything is \<open>fine\<close>. Registers, jobs, interrupts and queries
  are; what remains are the calls on which \<open>V3d_Memory\<close>, \<open>V3d_Invariant\<close> and \<open>V3d_Safety\<close> do their work. The wait for an interrupt ends.
\<close>

unbundle bit_operations_syntax

section \<open>What most calls leave alone\<close>

text \<open>The part of the state that decides what the GPU can reach.\<close>

definition v3_core :: "V3D_CONTEXT \<Rightarrow> (v3d_fixed \<Rightarrow> V3D_BUFFER) \<times> V3D_OBJECT list \<times> (nat \<Rightarrow> u32) \<times> u32 \<times> u32 \<times> u32 \<times> bool \<times> bool \<times> ptr" where
  "v3_core c = (v3_Fixed c, v3_Objects c, v3_Entries c, v3_ObjectSerial c, v3_ObjectBytes c, v3_ImportedBytes c, v3_MemorySession c, v3_Claimed c, v3_Owner c)"

fun harmless :: "io_event \<Rightarrow> bool" where
  "harmless (Wr u off v) \<longleftrightarrow> u \<noteq> 3 \<and> \<not> (u = 0 \<and> off = V3D_MMU_CTL)"
| "harmless (Call f xs v) \<longleftrightarrow> f \<noteq> ''FreeCommonBuffer'' \<and> f \<noteq> ''AllocateCommonBufferEx''"
| "harmless e \<longleftrightarrow> True"

definition v3_rel :: "(io_event \<Rightarrow> bool) \<Rightarrow> V3D_CONTEXT world \<Rightarrow> V3D_CONTEXT world \<Rightarrow> bool" where
  "v3_rel P w v \<longleftrightarrow> v3_core (st v) = v3_core (st w) \<and> (v3_BootFault (st w) \<longrightarrow> v3_BootFault (st v)) \<and> trace_ext P w v"

interpretation v3_rel: frame "v3_rel P" for P
  by unfold_locales (auto simp: v3_rel_def intro: ext.frame_refl ext.frame_trans)

abbreviation v3_fine :: "V3D_CONTEXT world \<Rightarrow> V3D_CONTEXT world \<Rightarrow> bool" where
  "v3_fine \<equiv> v3_rel harmless"

lemma fine_modify: "(\<And>c. v3_core (f c) = v3_core c) \<Longrightarrow> (\<And>c. v3_BootFault c \<Longrightarrow> v3_BootFault (f c)) \<Longrightarrow> preserves (v3_rel P) (modify f)"
  by (simp add: preserves_modify v3_rel_def trace_ext_def)

lemma fine_io:
  "P e \<Longrightarrow> preserves (v3_rel P) (emit e)"
  "(\<And>v. P (Rd u off v)) \<Longrightarrow> preserves (v3_rel P) (io_read E u off)"
  "(\<And>v. P (Clk v)) \<Longrightarrow> preserves (v3_rel P) (io_now E)"
  "(\<And>v. P (Call f xs v)) \<Longrightarrow> preserves (v3_rel P) (io_call E f xs)"
  "(\<And>v. P (Call f xs v)) \<Longrightarrow> preserves (v3_rel P) (kernel_do E f xs)"
  "(\<And>v. P (Call f xs v)) \<Longrightarrow> preserves (v3_rel P) (kernel_status E f xs)"
  by (auto simp: preserves_def wp_simps v3_rel_def trace_ext_def kernel_do_def kernel_status_def)

lemma fine_zoom: "preserves (trace_ext P) m \<Longrightarrow> preserves (v3_rel P) (on_io m)"
  by (erule preserves_zoom) (simp add: v3_rel_def trace_ext_def v3_core_def)

named_theorems fine "programs that leave the memory of the GPU alone"

lemmas fine_intros = v3_rel.pres fine_io fine_zoom fine_modify

lemma core_updates [simp]:
  "v3_core (c\<lparr>v3_Clock := x1\<rparr>) = v3_core c" "v3_core (c\<lparr>v3_Pm := x1\<rparr>) = v3_core c" "v3_core (c\<lparr>v3_IrqLive := x2\<rparr>) = v3_core c"
  "v3_core (c\<lparr>v3_Pending := x3\<rparr>) = v3_core c" "v3_core (c\<lparr>v3_InterruptCount := x3\<rparr>) = v3_core c" "v3_core (c\<lparr>v3_Registers := x4\<rparr>) = v3_core c"
  "v3_core (c\<lparr>v3_Io := x5\<rparr>) = v3_core c" "v3_core (c\<lparr>v3_Adapter := x1\<rparr>) = v3_core c" "v3_core (c\<lparr>v3_MemorySubmitted := x1\<rparr>) = v3_core c"
  "v3_core (c\<lparr>v3_MemoryCompleted := x1\<rparr>) = v3_core c" "v3_core (c\<lparr>v3_GuardsClean := x6\<rparr>) = v3_core c"
  "v3_core (c\<lparr>v3_ClockLease := x6\<rparr>) = v3_core c" "v3_core (c\<lparr>v3_PmLease := x6\<rparr>) = v3_core c" "v3_core (c\<lparr>v3_Powered := x6\<rparr>) = v3_core c"
  "v3_core (c\<lparr>v3_Woke := x6\<rparr>) = v3_core c" "v3_core (c\<lparr>v3_Status := x7\<rparr>) = v3_core c" "v3_core (c\<lparr>v3_ComputeStatus := x8\<rparr>) = v3_core c"
  "v3_core (c\<lparr>v3_RenderStatus := x9\<rparr>) = v3_core c" "v3_core (c\<lparr>v3_BootFault := x6\<rparr>) = v3_core c"
  by (simp_all add: v3_core_def)

section \<open>The hardware layer\<close>

lemma quietly_Poll: "preserves quietly (V3dPoll E unit off bits expected)"
  unfolding V3dPoll_def by (intro quietly_intros) simp_all

lemma quietly_differs: "preserves quietly (v3d_differs E cells)"
  by (induction cells rule: v3d_differs.induct) (auto intro!: quietly_intros)

lemma quietly_Idle: "preserves quietly (V3dIdle E)"
  unfolding V3dIdle_def by (intro quietly_intros quietly_differs)

lemma quiet_harmless: "quiet e \<Longrightarrow> harmless e"
  by (cases e) simp_all

lemma quietly_harmless: "preserves quietly m \<Longrightarrow> preserves (trace_ext harmless) m"
  by (auto simp: preserves_def quietly_def trace_ext_def intro: extends_mono quiet_harmless)

lemmas quietly_hardware = quietly_harmless [OF quietly_Poll] quietly_harmless [OF quietly_differs] quietly_harmless [OF quietly_Idle]

lemma harmless_then: "preserves (trace_ext P) m \<Longrightarrow> preserves (trace_ext P) k \<Longrightarrow> preserves (trace_ext P) (v3d_then m k)"
  unfolding v3d_then_def by (intro ext.pres)

lemma harmless_hardware:
  "preserves (trace_ext harmless) (V3dDrain E)" "preserves (trace_ext harmless) (V3dSmsReset E)" "preserves (trace_ext harmless) (V3dInvalidate E)"
  "preserves (trace_ext harmless) (V3dSubmitTransferAt a b c d e f)" "preserves (trace_ext harmless) (V3dSubmitCopy a b)"
  "preserves (trace_ext harmless) (V3dSubmitCompute a)" "preserves (trace_ext harmless) (V3dSubmitRenderAt a b)"
  "preserves (trace_ext harmless) (V3dSubmitRender a)" "preserves (trace_ext harmless) (V3dSubmitBinAt a b c d e)" "preserves (trace_ext harmless) V3dSubmitBin"
  unfolding V3dDrain_def V3dSmsReset_def V3dInvalidate_def V3dSubmitTransferAt_def V3dSubmitCopy_def V3dSubmitCopyAt_def V3dSubmitCompute_def
    V3dSubmitRenderAt_def V3dSubmitRender_def V3dSubmitBinAt_def V3dSubmitBin_def
  by (intro ext_intros harmless_then quietly_hardware; simp)+

lemmas fine_hardware = fine_zoom [OF quietly_hardware(1)] fine_zoom [OF quietly_hardware(3)] harmless_hardware [THEN fine_zoom]

lemma fine_Hw [fine]: "preserves (trace_ext P) m \<Longrightarrow> preserves (v3_rel P) (V3d_Hw m)"
  unfolding V3d_Hw_def by (intro fine_intros)

section \<open>The calls that leave the memory alone\<close>

lemma fine_Marker [fine]: "preserves v3_fine (V3d_Marker E create)"
  unfolding V3d_Marker_def by (intro fine_intros) simp_all

lemma fine_Fault [fine]: "preserves v3_fine (V3d_Fault E s)"
  unfolding V3d_Fault_def by (intro fine_intros fine_Marker) simp_all

lemma fine_require [fine]: "preserves v3_fine m \<Longrightarrow> preserves v3_fine k \<Longrightarrow> preserves v3_fine (v3d_require_or f E m k)"
  unfolding v3d_require_or_def by (intro fine_intros fine_Fault)

lemma fine_chain [fine]: "preserves v3_fine m \<Longrightarrow> preserves v3_fine k \<Longrightarrow> preserves v3_fine (v3d_chain m k)"
  unfolding v3d_chain_def by (intro fine_intros)

lemma fine_Snapshot [fine]: "preserves v3_fine (V3d_Snapshot E)"
  unfolding V3d_Snapshot_def by (intro fine_intros) simp_all

lemma fine_Open [fine]: "preserves v3_fine (V3d_Open E name target)"
  unfolding V3d_Open_def by (intro fine_intros) simp_all

lemma fine_Close [fine]: "preserves v3_fine (V3d_Close E target)"
  unfolding V3d_Close_def by (intro fine_intros) simp_all

lemma fine_Send [fine]: "preserves v3_fine (V3d_Send E target code input ol)"
  unfolding V3d_Send_def by (intro fine_intros) simp_all

lemma fine_providers [fine]:
  "preserves v3_fine (V3d_Clock_once E code value)" "preserves v3_fine (V3d_Pm E code)" "preserves v3_fine (V3d_Pulse E)"
  unfolding V3d_Clock_once_def V3d_Pm_def V3d_Pulse_def by (intro fine_intros fine; simp)+

lemma fine_Clock [fine]: "preserves v3_fine (V3d_Clock E code value)"
  unfolding V3d_Clock_def by (intro fine_intros fine)

lemma fine_owner_is [fine]: "preserves v3_fine (v3d_owner_is E name)"
  unfolding v3d_owner_is_def by (intro fine_intros) simp

lemma fine_reference [fine]: "preserves v3_fine (v3d_graph_reference E target gpu reference)"
  unfolding v3d_graph_reference_def by (intro fine_intros fine) simp_all

lemma fine_all [fine]: "(\<And>m. m \<in> set ms \<Longrightarrow> preserves v3_fine m) \<Longrightarrow> preserves v3_fine (v3d_all ms)"
  by (induction ms) (auto intro!: fine_intros fine)

lemma fine_Graph [fine]: "preserves v3_fine (V3d_Graph E)"
  unfolding V3d_Graph_def by (intro fine_intros fine; (simp; fail)?) (auto intro!: fine)

lemma fine_guards [fine]: "preserves v3_fine (v3d_guards E r)"
  unfolding v3d_guards_def by (intro fine_intros) simp_all

lemma fine_Guards [fine]: "preserves v3_fine (V3d_Guards E)"
  unfolding V3d_Guards_def by (intro fine_intros fine) simp_all

lemma fine_Mask [fine]: "preserves v3_fine (V3d_Mask E enable)"
  unfolding V3d_Mask_def by (intro fine_intros) auto

lemma fine_forget [fine]: "preserves v3_fine v3d_forget_jobs"
  unfolding v3d_forget_jobs_def by (intro fine_intros) simp_all

lemma fine_zero [fine]: "preserves v3_fine (v3d_registers_zero E registers)"
  by (induction registers rule: v3d_registers_zero.induct) (auto intro!: fine_intros)

lemma fine_is_reset [fine]: "preserves v3_fine (v3d_is_reset E registers)"
  unfolding v3d_is_reset_def by (intro fine_intros fine fine_hardware)

lemma fine_quiesce [fine]: "preserves v3_fine k \<Longrightarrow> preserves v3_fine (v3d_quiesce E k)"
  unfolding v3d_quiesce_def by (intro fine_intros fine harmless_hardware)

lemma fine_open_providers [fine]: "preserves v3_fine (v3d_open_providers E)"
  unfolding v3d_open_providers_def by (intro fine_intros fine) simp_all

lemma fine_leases [fine]: "preserves v3_fine (v3d_take_leases E)"
  unfolding v3d_take_leases_def by (intro fine_intros fine) simp_all

lemma fine_wake [fine]: "preserves v3_fine (v3d_wake E)"
  unfolding v3d_wake_def by (intro fine_intros fine quietly_hardware) simp_all

lemma fine_settle [fine]: "preserves v3_fine k \<Longrightarrow> preserves v3_fine (v3d_settle f E k)"
  unfolding v3d_settle_def by (intro fine_intros fine harmless_hardware)

section \<open>Jobs\<close>

lemma unit_bank: "unit < 2 \<Longrightarrow> (of_nat unit :: u32) \<noteq> 3"
proof -
  assume "unit < 2"
  then have "unit = 0 \<or> unit = 1" by linarith
  then show ?thesis by auto
qed

lemma fine_Isr [fine]: "unit < 2 \<Longrightarrow> preserves v3_fine (V3d_Isr E unit)"
  unfolding V3d_Isr_def by (intro fine_intros) (simp_all add: unit_bank)

lemma fine_Dpc [fine]: "preserves v3_fine (V3d_Dpc E)"
  unfolding V3d_Dpc_def by (intro fine_intros) simp

lemma fine_interrupts [fine]: "preserves v3_fine (v3d_interrupts E)"
  unfolding v3d_interrupts_def by (intro fine_intros fine) auto

lemma fine_Wait [fine]: "preserves v3_fine (V3d_Wait E fuel hub core)"
  unfolding V3d_Wait_def v3d_wait_turn_def by (intro fine_intros fine) simp_all

lemma fine_Arm [fine]: "preserves v3_fine (V3d_Arm E)"
  unfolding V3d_Arm_def by (intro fine_intros fine) simp_all

lemma fine_job [fine]: "preserves (trace_ext harmless) submit \<Longrightarrow> preserves v3_fine observe \<Longrightarrow> preserves v3_fine k \<Longrightarrow>
    preserves v3_fine (v3d_job E fuel phase submit hub core observe k)"
  unfolding v3d_job_def by (intro fine_intros fine) simp_all

lemma fine_job_clean [fine]: "preserves v3_fine (v3d_job_clean E hub core)"
  unfolding v3d_job_clean_def by (intro fine_intros fine) simp_all

lemma fine_ready [fine]: "preserves v3_fine k \<Longrightarrow> preserves v3_fine (v3d_ready E k)"
  unfolding v3d_ready_def by (intro fine_intros fine harmless_hardware) simp_all

lemma fine_Tfu [fine]: "preserves v3_fine (V3d_ObjectTfu E fuel width height source destination stride config)"
  unfolding V3d_ObjectTfu_def by (intro fine_intros fine harmless_hardware) simp_all

lemma fine_transfers [fine]: "preserves v3_fine (V3d_ObjectCopy E fuel q1)" "preserves v3_fine (V3d_ObjectTile E fuel q2)"
  unfolding V3d_ObjectCopy_def V3d_ObjectTile_def by (intro fine_intros fine)+

lemma fine_engine_jobs [fine]:
  "preserves (trace_ext harmless) submit \<Longrightarrow> preserves v3_fine k \<Longrightarrow> preserves v3_fine (v3d_bin_job E fuel phase submit k)"
  "preserves (trace_ext harmless) submit \<Longrightarrow> preserves v3_fine k \<Longrightarrow> preserves v3_fine (v3d_render_job E fuel phase submit k)"
  unfolding v3d_bin_job_def v3d_render_job_def by (intro fine_intros fine; (assumption | simp))+

lemma fine_Submit [fine]: "preserves v3_fine (V3d_ObjectSubmit E fuel rq)"
  unfolding V3d_ObjectSubmit_def Let_def by (intro fine_intros fine harmless_hardware; (assumption | simp)?)+

lemma fine_store [fine]: "m \<noteq> MTable \<Longrightarrow> preserves v3_fine (v3d_store m i v)"
  unfolding v3d_store_def by (intro fine_intros) (cases m; simp)

lemma fine_load [fine]: "preserves v3_fine (v3d_load E m i)"
  unfolding v3d_load_def by (intro fine_intros) simp

lemma fine_verify [fine]: "preserves v3_fine (v3d_verify E cells)"
  by (induction cells rule: v3d_verify.induct) (auto intro!: fine_intros fine)

lemma fine_pixels [fine]: "preserves v3_fine (v3d_pixels E words)"
  unfolding v3d_pixels_def by (intro fine_intros fine)

lemma fine_verify_picture [fine]: "preserves v3_fine (v3d_verify_picture E cells)"
  by (induction cells rule: v3d_verify_picture.induct) (auto intro!: fine_intros fine)

lemma fine_InterruptCheck [fine]: "preserves v3_fine (V3d_InterruptCheck E fuel)"
  unfolding V3d_InterruptCheck_def by (intro fine_intros fine) simp_all

lemma fine_Copy [fine]: "preserves v3_fine (V3d_Copy E fuel rq)"
  unfolding V3d_Copy_def by (intro fine_intros fine harmless_hardware quietly_hardware) simp_all

lemma fine_Compute [fine]: "preserves v3_fine (V3d_Compute E fuel rq)"
  unfolding V3d_Compute_def by (intro fine_intros fine harmless_hardware quietly_hardware) simp_all

lemma fine_Render [fine]: "preserves v3_fine (V3d_Render E fuel rq triangle)"
  unfolding V3d_Render_def Let_def by (intro fine_intros fine harmless_hardware quietly_hardware) simp_all

section \<open>The wait ends\<close>

text \<open>How often the driver has gone to sleep, and a clock that goes on while it sleeps: at most \<open>k\<close> wake-ups fall into
  one unit of the clock. Interrupts that wake the driver early are the reason for \<open>k\<close>.\<close>

fun waits :: "io_event list \<Rightarrow> nat" where
  "waits [] = 0"
| "waits (Call f xs v # t) = (if f = ''KeWaitForSingleObject'' then Suc (waits t) else waits t)"
| "waits (e # t) = waits t"

definition wakes_bounded :: "env \<Rightarrow> io_event list \<Rightarrow> nat \<Rightarrow> bool" where
  "wakes_bounded E t k \<longleftrightarrow> 0 < k \<and>
     (\<forall>es. waits es \<le> 5000000 * k \<longrightarrow> unat (env_now E t) + waits es div k \<le> unat (env_now E (es @ t)))"

lemma waits_append: "waits (xs @ ys) = waits xs + waits ys"
  by (induction xs rule: waits.induct) auto

lemma waits_replicate: "waits (replicate n (Call ''KeWaitForSingleObject'' [] 0)) = n"
  by (induction n) auto

lemma wakes_bound: "wakes_bounded E t k \<Longrightarrow> unat (env_now E t) + 5000000 < 2 ^ 64"
proof -
  assume a: "wakes_bounded E t k"
  let ?es = "replicate (5000000 * k) (Call ''KeWaitForSingleObject'' [] 0)"
  have "waits ?es \<le> 5000000 * k \<longrightarrow> unat (env_now E t) + waits ?es div k \<le> unat (env_now E (?es @ t))"
    using a unfolding wakes_bounded_def by blast
  then have "unat (env_now E t) + 5000000 \<le> unat (env_now E (?es @ t))"
    using a by (simp only: waits_replicate wakes_bounded_def le_refl simp_thms) simp
  also have "\<dots> < 2 ^ 64" using unsigned_less [of "env_now E (?es @ t)"] by simp
  finally show ?thesis .
qed

definition waiting :: "nat \<Rightarrow> io_event list \<Rightarrow> io_event list \<Rightarrow> bool" where
  "waiting k t tr \<longleftrightarrow> (\<exists>es. tr = es @ t \<and> waits es \<le> 5000000 * k)"

lemma waiting_refl: "waiting k t t"
  by (simp add: waiting_def)

lemma waiting_ext: "waiting k t tr \<Longrightarrow> waits es = 0 \<Longrightarrow> waiting k t (es @ tr)"
  by (auto simp: waiting_def waits_append intro: exI [where x = "es @ xs" for xs])

lemma waiting_pause:
  assumes clock: "wakes_bounded E t k" and tr: "waiting k t tr" and early: "\<not> env_now E t + 5000000 \<le> env_now E tr"
  shows "(\<forall>xs v c. waiting k t (Call ''KeWaitForSingleObject'' xs v # Clk c # tr)) \<and> waits tr < 5000000 * k + waits t"
proof -
  obtain es where es: "tr = es @ t" "waits es \<le> 5000000 * k" using tr by (auto simp: waiting_def)
  have "unat (env_now E t + 5000000) = unat (env_now E t) + 5000000"
    using wakes_bound [OF clock] by (subst unat_add_small) simp_all
  moreover have "unat (env_now E t) + waits es div k \<le> unat (env_now E (es @ t))"
    using clock es(2) by (auto simp: wakes_bounded_def)
  ultimately have "waits es div k < 5000000" using early es(1) by (simp add: word_le_nat_alt)
  then have "waits es < 5000000 * k" using clock by (simp add: wakes_bounded_def div_less_iff_less_mult)
  then show ?thesis
    using es by (auto simp: waiting_def waits_append intro!: exI [where x = "Call ''KeWaitForSingleObject'' xs v # Clk c # es" for xs v c])
qed

fun awake :: "io_event \<Rightarrow> bool" where
  "awake (Call f xs v) \<longleftrightarrow> f \<noteq> ''KeWaitForSingleObject''"
| "awake e \<longleftrightarrow> True"

lemma waits_awake: "\<forall>e\<in>set es. awake e \<Longrightarrow> waits es = 0"
  by (induction es rule: waits.induct) auto

lemma awake_interrupts: "preserves (trace_ext awake) (v3d_interrupts E)"
  unfolding v3d_interrupts_def V3d_Isr_def V3d_Dpc_def kernel_do_def by (intro ext_intros) simp_all

lemma wp_interrupts_waiting:
  assumes "waiting k t (trace w)" and "\<And>v. waiting k t (trace v) \<Longrightarrow> waits (trace v) = waits (trace w) \<Longrightarrow> Q () v"
  shows "wp (v3d_interrupts E) Q w"
proof (rule wpI)
  fix r v assume "run_state (v3d_interrupts E) w = (r, v)"
  then have "trace_ext awake w v" by (rule preservesD [OF awake_interrupts])
  then obtain es where "trace v = es @ trace w" "\<forall>e\<in>set es. awake e" by (auto simp: trace_ext_def extends_def)
  with assms(1) have "waiting k t (trace v)" "waits (trace v) = waits (trace w)"
    using waits_awake [of es] by (simp_all add: waits_append waiting_ext)
  then show "Q r v" using assms(2) by (cases r) simp
qed

lemma waiting_steps:
  "waiting k t tr \<Longrightarrow> waiting k t (Rd u off v # tr)" "waiting k t tr \<Longrightarrow> waiting k t (Clk c # tr)"
  "waiting k t tr \<Longrightarrow> waiting k t (Call ''KeClearEvent'' xs r # tr)"
  using waiting_ext [of k t tr "[Rd u off v]"] waiting_ext [of k t tr "[Clk c]"] waiting_ext [of k t tr "[Call ''KeClearEvent'' xs r]"] by auto

lemma waiting_sleep:
  assumes "wakes_bounded E t k" and "\<not> env_now E t + 5000000 \<le> env_now E tr" and "waiting k t tr"
  shows "waiting k t (Call ''KeWaitForSingleObject'' xs v # Clk c # tr)"
    and "waits tr = n \<Longrightarrow> 5000000 * k + waits t - Suc n < 5000000 * k + waits t - n"
  using waiting_pause [OF assms(1,3,2)] by auto

lemma wp_Wait_ends:
  assumes clock: "wakes_bounded E (trace w) k" and n: "n > 5000000 * k"
  shows "wp (V3d_Wait E n hub core) (\<lambda>r v. r \<noteq> None) w"
proof -
  let ?t = "trace w"
  have turn: "wp (v3d_wait_turn E (env_now E ?t + 5000000) hub core) (\<lambda>r v'. case r of
        None \<Rightarrow> waiting k ?t (trace v') \<and> 5000000 * k + waits ?t - waits (trace v') < 5000000 * k + waits ?t - waits (trace v)
      | Some x \<Rightarrow> Some x \<noteq> None) v" if "waiting k ?t (trace v)" for v
    using that unfolding v3d_wait_turn_def kernel_do_def
    apply (auto simp: wp_simps wp_io_now wp_io_read wp_io_call intro!: wp_interrupts_waiting [where k = k and t = "trace w"] waiting_steps)
    apply (rule waiting_sleep [OF clock], assumption+)+
    done
  show ?thesis
    unfolding V3d_Wait_def wp_bind wp_io_now
    by (rule wp_loopM_total [where I = "\<lambda>v. waiting k ?t (trace v)" and f = "\<lambda>v. 5000000 * k + waits ?t - waits (trace v)"])
      (use n turn in \<open>auto simp: waiting_steps waiting_refl\<close>)
qed

lemma V3d_Wait_ends:
  "wakes_bounded E (trace w) k \<Longrightarrow> n > 5000000 * k \<Longrightarrow> fst (run_state (V3d_Wait E n hub core) w) \<noteq> None"
  using wp_Wait_ends [of E w k n hub core] by (simp add: wp_def split_beta)

lemma wakes_bounded_example:
  assumes "waits t + 5000000 < 2 ^ 64"
  shows "wakes_bounded (E\<lparr>env_now := (\<lambda>t. of_nat (waits t))\<rparr>) t 1"
proof -
  have "unat (of_nat (waits es) + of_nat (waits t) :: u64) = waits es + waits t" if "waits es \<le> 5000000" for es
  proof -
    have "waits es + waits t < 2 ^ 64" using assms that by linarith
    then have "unat (of_nat (waits es + waits t) :: u64) = waits es + waits t" by (simp add: unat_of_nat del: of_nat_add)
    then show ?thesis by simp
  qed
  moreover have "unat (of_nat (waits t) :: u64) = waits t" using assms by (simp add: unat_of_nat)
  ultimately show ?thesis by (simp add: wakes_bounded_def waits_append)
qed

end
