(* ===== verification/V3d_Memory.thy ===== *)
theory V3d_Memory
  imports V3d_Frame
begin

text \<open>
  What a trace says about the GPU's view of memory: whether the GPU has forgotten older translations (\<open>flush_state\<close>), whether
  translation is off (\<open>mmu_off\<close>), what the table in memory holds (\<open>last_write\<close>), and when memory may be given back
  (\<open>frees_safe\<close>); then allocation and release of buffers.
\<close>

unbundle bit_operations_syntax

section \<open>When memory may be given back\<close>

text \<open>How far the flush of the translation has come since the last store to the page table: the cache of the table,
  then the buffer of translations, each started by a write and finished by a read.\<close>

fun flush_step :: "io_event \<Rightarrow> nat \<Rightarrow> nat" where
  "flush_step (Wr u off v) s = (if u = 3 then 0 else if u = 0 \<and> off = V3D_MMUC \<and> v = 3 \<and> s = 0 then 1
     else if u = 0 \<and> off = V3D_MMU_CTL \<and> v = V3D_MMU_ON OR 4 \<and> s = 2 then 3 else s)"
| "flush_step (Rd u off v) s = (if u = 0 \<and> off = V3D_MMUC \<and> v AND 4 = 0 \<and> s = 1 then 2
     else if u = 0 \<and> off = V3D_MMU_CTL \<and> v AND 0x80 = 0 \<and> s = 3 then 4 else s)"
| "flush_step e s = s"

fun flush_state :: "io_event list \<Rightarrow> nat" where
  "flush_state [] = 0"
| "flush_state (e # t) = flush_step e (flush_state t)"

text \<open>The translation was seen off and has not been touched since.\<close>

fun mmu_off :: "io_event list \<Rightarrow> bool" where
  "mmu_off [] = False"
| "mmu_off (Wr u off v # t) = (if u = 0 \<and> off = V3D_MMU_CTL then False else mmu_off t)"
| "mmu_off (Rd u off v # t) = (if u = 0 \<and> off = V3D_MMU_CTL \<and> v AND 1 = 0 then True else mmu_off t)"
| "mmu_off (e # t) = mmu_off t"

text \<open>The GPU knows no translation that is not in the table.\<close>

definition detached :: "io_event list \<Rightarrow> bool" where
  "detached t \<longleftrightarrow> flush_state t = 4 \<or> mmu_off t"

definition is_free :: "io_event \<Rightarrow> bool" where
  "is_free e \<longleftrightarrow> (\<exists>xs v. e = Call ''FreeCommonBuffer'' xs v)"

fun frees_safe :: "io_event list \<Rightarrow> bool" where
  "frees_safe [] = True"
| "frees_safe (e # t) = (frees_safe t \<and> (is_free e \<longrightarrow> detached t))"

definition no_table :: "io_event \<Rightarrow> bool" where
  "no_table e \<longleftrightarrow> \<not> is_free e \<and> (\<forall>off v. e \<noteq> Wr 3 off v)"

definition no_enable :: "io_event \<Rightarrow> bool" where
  "no_enable e \<longleftrightarrow> \<not> is_free e \<and> (\<forall>v. e \<noteq> Wr 0 V3D_MMU_CTL v)"

lemma event_kinds:
  "harmless e \<Longrightarrow> no_table e" "harmless e \<Longrightarrow> no_enable e" "no_table e \<Longrightarrow> \<not> is_free e" "no_enable e \<Longrightarrow> \<not> is_free e" "quiet e \<Longrightarrow> no_table e"
  by (cases e; auto simp: no_table_def no_enable_def is_free_def)+

lemma flush_mono: "no_table e \<Longrightarrow> flush_state t \<le> flush_state (e # t)"
  by (cases e) (auto simp: no_table_def)

lemma flush_le_4: "flush_state t \<le> 4"
proof (induction t)
  case (Cons e t)
  then show ?case by (cases e) auto
qed simp

lemma flush_extends: "extends no_table t t' \<Longrightarrow> flush_state t \<le> flush_state t'"
proof -
  have "\<forall>e\<in>set es. no_table e \<Longrightarrow> flush_state t \<le> flush_state (es @ t)" for es
  proof (induction es)
    case (Cons e es)
    then show ?case using flush_mono [of e "es @ t"] by (auto simp del: flush_state.simps)
  qed simp
  then show "extends no_table t t' \<Longrightarrow> ?thesis" by (auto simp: extends_def)
qed

lemma off_step: "no_enable e \<Longrightarrow> mmu_off t \<Longrightarrow> mmu_off (e # t)"
  by (cases e) (auto simp: no_enable_def)

lemma off_extends: "extends no_enable t t' \<Longrightarrow> mmu_off t \<Longrightarrow> mmu_off t'"
proof -
  assume off: "mmu_off t" and "extends no_enable t t'"
  moreover have "\<forall>e\<in>set es. no_enable e \<Longrightarrow> mmu_off (es @ t)" for es
    by (induction es) (auto simp: off intro: off_step)
  ultimately show ?thesis by (auto simp: extends_def)
qed

lemma safe_extends: "extends (\<lambda>e. \<not> is_free e) t t' \<Longrightarrow> frees_safe t' = frees_safe t"
proof -
  assume "extends (\<lambda>e. \<not> is_free e) t t'"
  moreover have "\<forall>e\<in>set es. \<not> is_free e \<Longrightarrow> frees_safe (es @ t) = frees_safe t" for es
    by (induction es) auto
  ultimately show ?thesis by (auto simp: extends_def)
qed

lemma detached_extends: "extends harmless t t' \<Longrightarrow> detached t \<Longrightarrow> detached t'"
  using flush_extends [of t t'] off_extends [of t t'] flush_le_4 [of t'] extends_mono [of harmless t t' no_table, OF _ event_kinds(1)]
    extends_mono [of harmless t t' no_enable, OF _ event_kinds(2)]
  by (auto simp: detached_def)

text \<open>The words of the page table in memory: bank 3 holds a guard page and then the table.\<close>

definition table_at :: "nat \<Rightarrow> u32" where
  "table_at n = 4 * (1024 + of_nat n)"

definition table_written :: "(nat \<Rightarrow> u32) \<Rightarrow> io_event list \<Rightarrow> bool" where
  "table_written T t \<longleftrightarrow> (\<forall>n<1048576. last_write t 3 (table_at n) = Some (T n))"

lemma no_table_last: "extends no_table t t' \<Longrightarrow> last_write t' 3 off = last_write t 3 off"
proof -
  have "\<forall>e\<in>set es. no_table e \<Longrightarrow> last_write (es @ t) 3 off = last_write t 3 off" for es
  proof (induction es)
    case (Cons e es)
    then show ?case by (cases e) (auto simp: no_table_def)
  qed simp
  then show "extends no_table t t' \<Longrightarrow> ?thesis" by (auto simp: extends_def)
qed

lemma word4: "j < 0x40000000 \<Longrightarrow> unat (4 * of_nat j :: u32) = 4 * j"
proof -
  assume j: "j < 0x40000000"
  then have "unat (of_nat j :: u32) = j" by (intro unat_of_nat_small) simp
  with j show ?thesis by (simp add: unat_word_ariths)
qed

lemma table_at: "table_at n = 4 * of_nat (1024 + n)"
  by (simp add: table_at_def)

lemma table_at_inject: "m < 1048576 \<Longrightarrow> n < 1048576 \<Longrightarrow> table_at m = table_at n \<longleftrightarrow> m = n"
proof
  assume "m < 1048576" "n < 1048576" "table_at m = table_at n"
  then show "m = n" using word4 [of "1024 + m"] word4 [of "1024 + n"] unfolding table_at by simp
qed simp

lemma written_store: "table_written T t \<Longrightarrow> i < 1048576 \<Longrightarrow> table_written (T(i := v)) (Wr 3 (table_at i) v # t)"
  by (simp add: table_written_def table_at_inject)

text \<open>The same for the relations between worlds.\<close>

lemma rel_written: "v3_rel no_table w v \<Longrightarrow> table_written T (trace w) \<Longrightarrow> table_written T (trace v)"
  using no_table_last [of "trace w" "trace v"] by (simp add: v3_rel_def trace_ext_def table_written_def)

lemma rel_mono: "v3_rel P w v \<Longrightarrow> (\<And>e. P e \<Longrightarrow> Q e) \<Longrightarrow> v3_rel Q w v"
  by (auto simp: v3_rel_def trace_ext_def intro: extends_mono)

lemma fine_frees: "v3_fine w v \<Longrightarrow> frees_safe (trace v) = frees_safe (trace w)"
  by (rule safe_extends) (auto simp: v3_rel_def trace_ext_def elim!: extends_mono dest!: event_kinds(1,3))

lemma fine_flushed: "v3_fine w v \<Longrightarrow> flush_state (trace w) = 4 \<Longrightarrow> flush_state (trace v) = 4"
  using flush_extends [of "trace w" "trace v"] flush_le_4 [of "trace v"] extends_mono [of harmless "trace w" "trace v" no_table, OF _ event_kinds(1)]
  by (auto simp: v3_rel_def trace_ext_def)

lemma fine_off: "v3_fine w v \<Longrightarrow> mmu_off (trace w) \<Longrightarrow> mmu_off (trace v)"
  by (rule off_extends [of "trace w"]) (auto simp: v3_rel_def trace_ext_def elim!: extends_mono intro: event_kinds)

lemma fine_detached: "v3_fine w v \<Longrightarrow> detached (trace w) \<Longrightarrow> detached (trace v)"
  by (auto simp: v3_rel_def trace_ext_def intro: detached_extends)

lemma fine_written: "v3_fine w v \<Longrightarrow> table_written T (trace w) \<Longrightarrow> table_written T (trace v)"
  using rel_mono [of harmless w v no_table, OF _ event_kinds(1)] by (auto intro: rel_written)

lemma wp_rel: "preserves (v3_rel P) m \<Longrightarrow> (\<And>r v. v3_rel P w v \<Longrightarrow> Q r v) \<Longrightarrow> wp m Q w"
  by (rule wpI) (auto dest: preservesD)

lemma wp_fault: "(\<And>v. v3_fine w v \<Longrightarrow> v3_BootFault (st v) \<Longrightarrow> Q s v) \<Longrightarrow> wp (V3d_Fault E s) Q w"
proof -
  have "preserves (\<lambda>w v. v3_fine w v \<and> v3_BootFault (st v)) (V3d_Fault E s)"
  proof (rule preservesI)
    fix w r v assume run: "run_state (V3d_Fault E s) w = (r, v)"
    have "wp (V3d_Fault E s) (\<lambda>_ v. v3_BootFault (st v)) w"
      unfolding V3d_Fault_def V3d_Marker_def by (intro wp_intros; simp)
    then show "v3_fine w v \<and> v3_BootFault (st v)" using run preservesD [OF fine_Fault run] by (simp add: wp_def)
  qed
  moreover have "wp (V3d_Fault E s) (\<lambda>r _. r = s) w"
    unfolding V3d_Fault_def V3d_Marker_def by (intro wp_intros; simp)
  ultimately show "(\<And>v. v3_fine w v \<Longrightarrow> v3_BootFault (st v) \<Longrightarrow> Q s v) \<Longrightarrow> ?thesis"
    by (auto simp: wp_def dest: preservesD split: prod.splits)
qed

text \<open>A step that must succeed: it does, or the driver has a fault.\<close>

lemma wp_require_any:
  assumes "wp m (\<lambda>s v. if s = STATUS_SUCCESS then wp k Q v else \<forall>s u. v3_fine v u \<longrightarrow> v3_BootFault (st u) \<longrightarrow> Q (f s) u) w"
  shows "wp (v3d_require_or f E m k) Q w"
  unfolding v3d_require_or_def
  by (rule wp_bindI, rule wp_mono [OF assms]) (auto simp: wp_simps intro!: wp_bindI wp_fault split: if_splits)

lemma wp_require:
  assumes "preserves v3_fine m" "\<And>v. v3_fine w v \<Longrightarrow> wp k Q v" "\<And>s v. v3_fine w v \<Longrightarrow> v3_BootFault (st v) \<Longrightarrow> Q (f s) v"
  shows "wp (v3d_require_or f E m k) Q w"
  by (rule wp_require_any, rule wp_rel [OF assms(1)]) (auto intro: assms(2,3) v3_rel.frame_trans)

section \<open>Flushing\<close>

lemma wp_Poll:
  fixes w :: "'a world"
  assumes "\<And>r v. st v = st w \<Longrightarrow> extends quiet (trace w) (trace v) \<Longrightarrow>
    (r = V3dOk \<Longrightarrow> \<exists>x t. trace v = Rd unit off x # t \<and> x AND bits = expected \<and> extends quiet (trace w) t) \<Longrightarrow> Q r v"
  shows "wp (V3dPoll E unit off bits expected) Q w"
  unfolding V3dPoll_def
proof (rule wp_bindI, rule wp_loopM_inv [where I = "\<lambda>v. st v = st w \<and> extends quiet (trace w) (trace v)"])
  show "st w = st w \<and> extends quiet (trace w) (trace w)" by simp
next
  fix v :: "'a world" assume "st v = st w \<and> extends quiet (trace w) (trace v)"
  then show "wp (ret (case None of None \<Rightarrow> V3dTimeout | Some result \<Rightarrow> result)) Q v"
    by (intro wp_returnI assms) simp_all
next
  fix v :: "'a world" assume v: "st v = st w \<and> extends quiet (trace w) (trace v)"
  show "wp (do { x \<leftarrow> io_read E unit off; if x AND bits = expected then ret (Some V3dOk) else do { io_delay 10; ret None } })
      (\<lambda>r w'. case r of None \<Rightarrow> st w' = st w \<and> extends quiet (trace w) (trace w')
        | Some x \<Rightarrow> wp (ret (case Some x of None \<Rightarrow> V3dTimeout | Some result \<Rightarrow> result)) Q w') v"
    by (rule wp_bindI, rule wp_read_any, rule wp_ifI) (use v in \<open>auto simp: wp_simps intro!: assms\<close>)
qed

lemma wp_Flush:
  assumes "\<And>r v. st v = st w \<Longrightarrow> extends no_table (trace w) (trace v) \<Longrightarrow> (r = V3dOk \<Longrightarrow> flush_state (trace v) = 4) \<Longrightarrow> Q r v"
  shows "wp (V3dMmuFlush E) Q w"
  unfolding V3dMmuFlush_def v3d_then_def
proof (rule wp_bindI, rule wp_emitI, rule wp_bindI, rule wp_Poll, rule wp_ifI)
  let ?w = "w\<lparr>trace := Wr V3dHub V3D_MMUC 3 # trace w\<rparr>"
  have more: "extends no_table t u" if "extends quiet t u" for t u
    using that by (rule extends_mono) (rule event_kinds)
  have start: "extends no_table (trace w) (trace ?w)" "1 \<le> flush_state (trace ?w)"
    by (auto simp: no_table_def is_free_def intro!: extends_Cons)
  fix r and v :: "V3D_IO world" assume v: "st v = st ?w" "extends quiet (trace ?w) (trace v)"
    and ok: "r = V3dOk \<Longrightarrow> \<exists>x t. trace v = Rd V3dHub V3D_MMUC x # t \<and> x AND 4 = 0 \<and> extends quiet (trace ?w) t"
  show "wp (ret r) Q v" if "r \<noteq> V3dOk"
    using v that extends_trans [OF start(1) more [OF v(2)]] by (intro wp_returnI assms) simp_all
  show "wp (do { io_write V3dHub V3D_MMU_CTL (V3D_MMU_ON OR 4); V3dPoll E V3dHub V3D_MMU_CTL 0x80 0 }) Q v" if r: "\<not> r \<noteq> V3dOk"
  proof (rule wp_bindI, rule wp_emitI, rule wp_Poll, rule assms)
    let ?v = "v\<lparr>trace := Wr V3dHub V3D_MMU_CTL (V3D_MMU_ON OR 4) # trace v\<rparr>"
    obtain x t where x: "trace v = Rd V3dHub V3D_MMUC x # t" "x AND 4 = 0" "extends quiet (trace ?w) t" using ok r by blast
    have "1 \<le> flush_state t" using start(2) flush_extends [OF more [OF x(3)]] by linarith
    then have two: "2 \<le> flush_state (trace v)" using x by auto
    then have three: "3 \<le> flush_state (trace ?v)" by auto
    have ext: "extends no_table (trace w) (trace ?v)"
      using extends_trans [OF start(1) more [OF v(2)]] by (auto simp: no_table_def is_free_def)
    fix r and u :: "V3D_IO world" assume u: "st u = st ?v" "extends quiet (trace ?v) (trace u)"
      and last: "r = V3dOk \<Longrightarrow> \<exists>x t. trace u = Rd V3dHub V3D_MMU_CTL x # t \<and> x AND 0x80 = 0 \<and> extends quiet (trace ?v) t"
    show "st u = st w" using u(1) v(1) by simp
    show "extends no_table (trace w) (trace u)" by (rule extends_trans [OF ext more [OF u(2)]])
    show "flush_state (trace u) = 4" if "r = V3dOk"
    proof -
      from last [OF that] obtain y s where y: "trace u = Rd V3dHub V3D_MMU_CTL y # s" "y AND 0x80 = 0" "extends quiet (trace ?v) s" by blast
      have "3 \<le> flush_state s" using three flush_extends [OF more [OF y(3)]] by linarith
      then show ?thesis using y flush_le_4 [of s] by auto
    qed
  qed
qed

section \<open>Buffers\<close>

lemma wp_forM:
  assumes "I 0 w" "\<And>k v. k < length xs \<Longrightarrow> I k v \<Longrightarrow> wp (f (xs ! k)) (\<lambda>_. I (Suc k)) v" "\<And>v. I (length xs) v \<Longrightarrow> Q () v"
  shows "wp (forM xs f) Q w"
proof -
  have "wp (forM ys f) Q v" if "I (length xs - length ys) v" "ys = drop (length xs - length ys) xs" for ys v
    using that
  proof (induction ys arbitrary: v)
    case Nil
    then show ?case using assms(3) by (simp add: wp_simps)
  next
    case (Cons y ys)
    let ?k = "length xs - Suc (length ys)"
    have len: "length (y # ys) \<le> length xs" by (subst Cons.prems(2)) simp
    then have k: "?k < length xs" "Suc ?k = length xs - length ys" by auto
    have d: "y # ys = xs ! ?k # drop (Suc ?k) xs" using Cons.prems(2) Cons_nth_drop_Suc [OF k(1)] by simp
    have "I ?k v" using Cons.prems(1) by simp
    from assms(2) [OF k(1) this] have "wp (f y) (\<lambda>_. I (Suc ?k)) v" using d by simp
    then show ?case
      unfolding forM.simps
      by (intro wp_bindI) (erule wp_mono, rule Cons.IH, use k d in simp_all)
  qed
  from this [of xs w] assms(1) show ?thesis by simp
qed

definition in_buffers :: "v3d_ref \<Rightarrow> bool" where
  "in_buffers r \<longleftrightarrow> (case r of VFixed m \<Rightarrow> True | VObject i \<Rightarrow> i < PI5_V3D_BUFFER_LIMIT)"

lemma object_bank: "i < 256 \<Longrightarrow> unat (11 + of_nat i :: u32) = 11 + i"
  by (subst unat_add_small) (simp_all add: unat_of_nat_small)

lemma bank_cases:
  assumes "in_buffers r"
  shows "v3d_bank r \<noteq> 0" "r \<noteq> VFixed MTable \<Longrightarrow> v3d_bank r \<noteq> 3"
proof -
  have o': "v3d_bank (VObject i) \<noteq> k" if "i < 256" "unat k < 11" for i k
  proof
    assume "v3d_bank (VObject i) = k"
    then have "unat (11 + of_nat i :: u32) = unat k" by simp
    with object_bank [OF that(1)] that(2) show False by simp
  qed
  have f: "v3d_fixed_bank m \<noteq> 0" "m \<noteq> MTable \<Longrightarrow> v3d_fixed_bank m \<noteq> 3" for m
    by (cases m; simp)+
  show "v3d_bank r \<noteq> 0"
    using assms o' [of _ 0] f by (cases r) (simp_all add: in_buffers_def del: v3d_bank.simps(2))
  show "r \<noteq> VFixed MTable \<Longrightarrow> v3d_bank r \<noteq> 3"
    using assms o' [of _ 3] f by (cases r) (simp_all add: in_buffers_def del: v3d_bank.simps(2))
qed

text \<open>What happens to a buffer leaves everything else alone.\<close>

definition same_else :: "V3D_CONTEXT world \<Rightarrow> V3D_CONTEXT world \<Rightarrow> bool" where
  "same_else w v \<longleftrightarrow> v3_BootFault (st v) = v3_BootFault (st w) \<and> frees_safe (trace v) = frees_safe (trace w) \<and>
     (mmu_off (trace w) \<longrightarrow> mmu_off (trace v))"

definition same_table :: "V3D_CONTEXT world \<Rightarrow> V3D_CONTEXT world \<Rightarrow> bool" where
  "same_table w v \<longleftrightarrow> flush_state (trace v) = flush_state (trace w) \<and> (\<forall>off. last_write (trace v) 3 off = last_write (trace w) 3 off)"

lemma same_table_written: "same_table w v \<Longrightarrow> table_written T (trace w) \<Longrightarrow> table_written T (trace v)"
  by (simp add: same_table_def table_written_def)

lemma core_set_buffer:
  "v3_core c = v3_core d \<Longrightarrow> v3_core (v3d_set_buffer r f c) = v3_core (v3d_set_buffer r f d)"
  "v3_core c = v3_core d \<Longrightarrow> v3d_buffer r c = v3d_buffer r d"
  by (cases r; simp add: v3_core_def)+

lemma set_buffer_simps [simp]:
  "v3_BootFault (v3d_set_buffer r f c) = v3_BootFault c" "v3_Status (v3d_set_buffer r f c) = v3_Status c"
  by (cases r; simp)+

lemma wp_FreeBuffer:
  assumes safe: "vb_Cpu (v3d_buffer r (st w)) \<noteq> 0 \<Longrightarrow> detached (trace w)"
    and Q: "\<And>v. same_else w v \<Longrightarrow> same_table w v \<Longrightarrow>
      v3_core (st v) = v3_core (if vb_Cpu (v3d_buffer r (st w)) = 0 then st w else v3d_set_buffer r (\<lambda>_. vb_zero) (st w)) \<Longrightarrow> Q () v"
  shows "wp (V3d_FreeBuffer E r) Q w"
proof -
  have b: "v3d_buffer r ((st w)\<lparr>v3_GuardsClean := False\<rparr>) = v3d_buffer r (st w)" by (rule core_set_buffer(2)) simp
  show ?thesis
    unfolding V3d_FreeBuffer_def
  proof (rule wp_bindI, rule wp_modifyI, rule wp_bindI, rule wp_getsI, rule wp_whenI, rule wp_bindI, rule wp_kernel_doI, rule wp_bindI, rule wp_modifyI, rule wp_modifyI)
    fix x
    let ?w = "w\<lparr>st := (st w)\<lparr>v3_GuardsClean := False\<rparr>\<rparr>"
    let ?b = "v3d_buffer r (st ?w)"
    assume cpu: "vb_Cpu ?b \<noteq> 0"
    let ?v = "?w\<lparr>trace := Call ''FreeCommonBuffer'' [ucast (vb_Bytes ?b), vb_Dma ?b, vb_Cpu ?b] x # trace ?w\<rparr>"
    let ?u = "?v\<lparr>st := (st ?v)\<lparr>v3_Status := (v3_Status (st ?v))\<lparr>vs_AllocatedBytes := vs_AllocatedBytes (v3_Status (st ?v)) - vb_Bytes ?b\<rparr>\<rparr>\<rparr>"
    show "Q () (?u\<lparr>st := v3d_set_buffer r (\<lambda>_. vb_zero) (st ?u)\<rparr>)"
    proof (rule Q)
      have "v3_core (st ?u) = v3_core (st w)" by simp
      from core_set_buffer(1) [OF this] show "v3_core (st (?u\<lparr>st := v3d_set_buffer r (\<lambda>_. vb_zero) (st ?u)\<rparr>)) =
          v3_core (if vb_Cpu (v3d_buffer r (st w)) = 0 then st w else v3d_set_buffer r (\<lambda>_. vb_zero) (st w))"
        using cpu b by simp
    qed (use safe cpu b in \<open>simp_all add: same_else_def same_table_def is_free_def\<close>)
  next
    let ?w = "w\<lparr>st := (st w)\<lparr>v3_GuardsClean := False\<rparr>\<rparr>"
    assume "\<not> vb_Cpu (v3d_buffer r (st ?w)) \<noteq> 0"
    then show "Q () ?w" using b by (intro Q) (simp_all add: same_else_def same_table_def)
  qed
qed

text \<open>The words an allocation fills a buffer with.\<close>

lemma same_else_refl [simp]: "same_else w w"
  by (simp add: same_else_def)

lemma same_else_trans: "same_else u v \<Longrightarrow> same_else v w \<Longrightarrow> same_else u w"
  by (simp add: same_else_def)

lemma wp_fill:
  assumes "u \<noteq> 0" "n \<le> 0x40000000"
    and Q: "\<And>v. st v = st w \<Longrightarrow> same_else w v \<Longrightarrow> (u \<noteq> 3 \<Longrightarrow> same_table w v) \<Longrightarrow>
      (\<forall>j<n. last_write (trace v) u (4 * of_nat j) = Some (g j)) \<Longrightarrow> Q () v"
  shows "wp (forM [0..<n] (\<lambda>i. io_write u (4 * of_nat i) (g i))) Q w"
proof (rule wp_forM [where I = "\<lambda>k v. st v = st w \<and> same_else w v \<and> (u \<noteq> 3 \<longrightarrow> same_table w v) \<and>
    (\<forall>j<k. last_write (trace v) u (4 * of_nat j) = Some (g j))"])
  let ?I = "\<lambda>k v. st v = st w \<and> same_else w v \<and> (u \<noteq> 3 \<longrightarrow> same_table w v) \<and> (\<forall>j<k. last_write (trace v) u (4 * of_nat j) = Some (g j))"
  fix k v assume "k < length [0..<n]" and I: "?I k v"
  then have k: "k < n" by simp
  have inj: "(4 * of_nat j :: u32) \<noteq> 4 * of_nat k" if "j < k" for j
  proof
    assume "(4 * of_nat j :: u32) = 4 * of_nat k"
    then have "unat (4 * of_nat j :: u32) = unat (4 * of_nat k :: u32)" by simp
    with word4 [of j] word4 [of k] that k assms(2) show False by simp
  qed
  show "wp (io_write u (4 * of_nat ([0..<n] ! k)) (g ([0..<n] ! k))) (\<lambda>_. ?I (Suc k)) v"
    using I k inj inj [symmetric] assms(1) by (intro wp_emitI) (auto simp: same_else_def same_table_def is_free_def less_Suc_eq)
next
  show "st w = st w \<and> same_else w w \<and> (u \<noteq> 3 \<longrightarrow> same_table w w) \<and> (\<forall>j<0. last_write (trace w) u (4 * of_nat j) = Some (g j))"
    by (simp add: same_table_def)
qed (use Q in auto)

definition dma_ok :: "V3D_BUFFER \<Rightarrow> u32 \<Rightarrow> bool" where
  "dma_ok b count \<longleftrightarrow> vb_Cpu b \<noteq> 0 \<and> vb_Dma b AND 4095 = 0 \<and> vb_Dma b \<le> 0x1000000000 - ucast (count + 2 * V3D_PAGE)"

lemma set_buffer_twice [simp]: "in_buffers r \<Longrightarrow> length (v3_Objects c) = 256 \<Longrightarrow> v3d_buffer r (v3d_set_buffer r f c) = f (v3d_buffer r c)"
  by (cases r) (simp_all add: in_buffers_def)

lemma set_buffer_comp: "v3d_set_buffer r f (v3d_set_buffer r g c) = v3d_set_buffer r (\<lambda>b. f (g b)) c" if "in_buffers r" "length (v3_Objects c) = 256"
  using that by (cases r) (simp_all add: in_buffers_def)

lemma set_buffer_const: "v3d_set_buffer r f c = v3d_set_buffer r (\<lambda>_. f (v3d_buffer r c)) c"
  by (cases r) simp_all

lemma set_buffer_frame [simp]:
  "v3d_set_buffer r f (c\<lparr>v3_GuardsClean := x\<rparr>) = (v3d_set_buffer r f c)\<lparr>v3_GuardsClean := x\<rparr>"
  "v3d_set_buffer r f (c\<lparr>v3_Status := y\<rparr>) = (v3d_set_buffer r f c)\<lparr>v3_Status := y\<rparr>"
  "v3d_buffer r (c\<lparr>v3_GuardsClean := x\<rparr>) = v3d_buffer r c" "v3d_buffer r (c\<lparr>v3_Status := y\<rparr>) = v3d_buffer r c"
  "length (v3_Objects (v3d_set_buffer r f c)) = length (v3_Objects c)"
  by (cases r; simp)+

lemma set_buffer_same: "in_buffers r \<Longrightarrow> length (v3_Objects c) = 256 \<Longrightarrow> v3_core (v3d_set_buffer r (\<lambda>_. v3d_buffer r c) c) = v3_core c"
  by (cases r) (simp_all add: v3_core_def in_buffers_def)

lemma wp_Allocate_tail:
  assumes r: "in_buffers r" "length (v3_Objects (st v)) = 256" "detached (trace v)" "vb_Cpu (v3d_buffer r (st v)) = cpu"
    and Q: "\<And>s b u. same_else v u \<Longrightarrow> (r \<noteq> VFixed MTable \<Longrightarrow> same_table v u) \<Longrightarrow>
      (s = STATUS_SUCCESS \<Longrightarrow> r = VFixed MTable \<Longrightarrow> n = V3D_TABLE_BYTES + 2 * V3D_PAGE \<Longrightarrow> table_written (\<lambda>_. 0) (trace u)) \<Longrightarrow>
      (s = STATUS_SUCCESS \<Longrightarrow> cpu \<noteq> 0 \<and> dma AND 4095 = 0 \<and> dma \<le> 0x1000000000 - ucast n \<and>
         v3_core (st u) = v3_core (if r = VFixed MTable then (st v)\<lparr>v3_Entries := (\<lambda>_. 0)\<rparr> else st v)) \<Longrightarrow>
      (s \<noteq> STATUS_SUCCESS \<Longrightarrow> vb_Cpu b = 0 \<and> v3_core (st u) = v3_core (v3d_set_buffer r (\<lambda>_. b) (st v))) \<Longrightarrow> Q s u"
  shows "wp (if cpu = 0 then do { modify (v3d_set_buffer r (\<lambda>b. b\<lparr>vb_Bytes := 0\<rparr>)); ret STATUS_INSUFFICIENT_RESOURCES }
     else do {
       v3_stats (\<lambda>s. s\<lparr>vs_AllocatedBytes := vs_AllocatedBytes s + n\<rparr>);
       if dma AND 4095 \<noteq> 0 \<or> cpu AND 4095 \<noteq> 0 \<or> dma > 0x1000000000 - ucast n
       then do { V3d_FreeBuffer E r; ret STATUS_DEVICE_CONFIGURATION_ERROR }
       else do {
         forM [0..<unat n div 4] (\<lambda>i. io_write (v3d_bank r) (4 * of_nat i) (if i < 1024 \<or> i \<ge> (unat n - 4096) div 4 then V3D_GUARD else 0));
         whenM (r = VFixed MTable) (modify (\<lambda>c. c\<lparr>v3_Entries := (\<lambda>_. 0)\<rparr>));
         io_barrier;
         ret STATUS_SUCCESS
       }
     }) Q v"
proof (rule wp_ifI)
  assume "cpu = 0"
  then show "wp (do { modify (v3d_set_buffer r (\<lambda>b. b\<lparr>vb_Bytes := 0\<rparr>)); ret STATUS_INSUFFICIENT_RESOURCES }) Q v"
    by (intro wp_bindI wp_modifyI wp_returnI Q [where b = "v3d_buffer r (st v)\<lparr>vb_Bytes := 0\<rparr>"])
      (use r in \<open>simp_all add: same_else_def same_table_def, subst set_buffer_const, simp\<close>)
next
  assume cpu: "cpu \<noteq> 0"
  have div4: "unat n div 4 < 0x40000000" using unsigned_less [of n, where ?'a = nat] by simp
  let ?c = "(st v)\<lparr>v3_Status := (v3_Status (st v))\<lparr>vs_AllocatedBytes := vs_AllocatedBytes (v3_Status (st v)) + n\<rparr>\<rparr>"
  let ?v = "v\<lparr>st := ?c\<rparr>"
  have core: "v3_core ?c = v3_core (st v)" by simp
  show "wp (do {
       v3_stats (\<lambda>s. s\<lparr>vs_AllocatedBytes := vs_AllocatedBytes s + n\<rparr>);
       if dma AND 4095 \<noteq> 0 \<or> cpu AND 4095 \<noteq> 0 \<or> dma > 0x1000000000 - ucast n
       then do { V3d_FreeBuffer E r; ret STATUS_DEVICE_CONFIGURATION_ERROR }
       else do {
         forM [0..<unat n div 4] (\<lambda>i. io_write (v3d_bank r) (4 * of_nat i) (if i < 1024 \<or> i \<ge> (unat n - 4096) div 4 then V3D_GUARD else 0));
         whenM (r = VFixed MTable) (modify (\<lambda>c. c\<lparr>v3_Entries := (\<lambda>_. 0)\<rparr>));
         io_barrier;
         ret STATUS_SUCCESS
       }
     }) Q v"
  proof (rule wp_bindI, rule wp_modifyI, rule wp_ifI)
    show "wp (do { V3d_FreeBuffer E r; ret STATUS_DEVICE_CONFIGURATION_ERROR }) Q ?v"
    proof (rule wp_bindI, rule wp_FreeBuffer, goal_cases)
      case 1
      then show ?case using r(3) by simp
    next
      case (2 u)
      have "v3_core (st u) = v3_core (v3d_set_buffer r (\<lambda>_. vb_zero) (st v))"
        using 2(3) cpu r(4) core_set_buffer(1) [OF core] by simp
      then show ?case
        by (intro wp_returnI Q [where b = vb_zero]) (use 2 in \<open>simp_all add: same_else_def same_table_def vb_zero_def\<close>)
    qed
  next
    assume ok: "\<not> (dma AND 4095 \<noteq> 0 \<or> cpu AND 4095 \<noteq> 0 \<or> dma > 0x1000000000 - ucast n)"
    show "wp (do {
         forM [0..<unat n div 4] (\<lambda>i. io_write (v3d_bank r) (4 * of_nat i) (if i < 1024 \<or> i \<ge> (unat n - 4096) div 4 then V3D_GUARD else 0));
         whenM (r = VFixed MTable) (modify (\<lambda>c. c\<lparr>v3_Entries := (\<lambda>_. 0)\<rparr>));
         io_barrier;
         ret STATUS_SUCCESS
       }) Q ?v"
    proof (rule wp_bindI, rule wp_fill, rule bank_cases(1) [OF r(1)], rule less_imp_le [OF div4], rule wp_bindI, rule wp_whenI; intro wp_bindI wp_modifyI wp_emitI wp_returnI)
      let ?g = "\<lambda>i. if i < 1024 \<or> i \<ge> (unat n - 4096) div 4 then V3D_GUARD else 0"
      fix u assume u: "st u = st ?v" "same_else ?v u" "v3d_bank r \<noteq> 3 \<Longrightarrow> same_table ?v u"
        and filled: "\<forall>j<unat n div 4. last_write (trace u) (v3d_bank r) (4 * of_nat j) = Some (?g j)"
      have table: "table_written (\<lambda>_. 0) (Bar # trace u)" if t: "r = VFixed MTable" and n: "n = V3D_TABLE_BYTES + 2 * V3D_PAGE"
      proof -
        have "last_write (trace u) 3 (4 * of_nat (1024 + j)) = Some 0" if "j < 1048576" for j
        proof -
          have "1024 + j < unat n div 4" using that by (simp add: n)
          with filled have "last_write (trace u) (v3d_bank r) (4 * of_nat (1024 + j)) = Some (?g (1024 + j))" by blast
          then show ?thesis using that by (simp add: n t del: of_nat_add)
        qed
        then show ?thesis by (simp add: table_written_def table_at del: of_nat_add)
      qed
      {
        assume t: "r = VFixed MTable"
        have c: "v3_core (?c\<lparr>v3_Entries := \<lambda>_. 0\<rparr>) = v3_core ((st v)\<lparr>v3_Entries := \<lambda>_. 0\<rparr>)" by (simp add: v3_core_def)
        show "Q STATUS_SUCCESS (u\<lparr>st := (st u)\<lparr>v3_Entries := \<lambda>_. 0\<rparr>, trace := Bar # trace (u\<lparr>st := (st u)\<lparr>v3_Entries := \<lambda>_. 0\<rparr>\<rparr>)\<rparr>)"
          by (rule Q) (use u ok cpu t c table [OF t] in \<open>simp_all add: same_else_def is_free_def not_less\<close>)
      }
      assume t: "r \<noteq> VFixed MTable"
      show "Q STATUS_SUCCESS (u\<lparr>trace := Bar # trace u\<rparr>)"
        by (rule Q) (use u ok cpu t bank_cases(2) [OF r(1) t] in \<open>simp_all add: same_else_def same_table_def is_free_def not_less\<close>)
    qed
  qed
qed

text \<open>An allocation gives a buffer within the reach of the GPU, or leaves none.\<close>

lemma wp_AllocateBuffer:
  assumes r: "in_buffers r" "length (v3_Objects (st w)) = 256" "detached (trace w)"
    and Q: "\<And>s b v. same_else w v \<Longrightarrow> (r \<noteq> VFixed MTable \<Longrightarrow> same_table w v) \<Longrightarrow>
      (s = STATUS_SUCCESS \<Longrightarrow> r = VFixed MTable \<Longrightarrow> count = V3D_TABLE_BYTES \<Longrightarrow> table_written (\<lambda>_. 0) (trace v)) \<Longrightarrow>
      (s = STATUS_SUCCESS \<Longrightarrow> dma_ok b count \<and> v3_core (st v) = v3_core (if r = VFixed MTable
        then (v3d_set_buffer r (\<lambda>_. b) (st w))\<lparr>v3_Entries := (\<lambda>_. 0)\<rparr> else v3d_set_buffer r (\<lambda>_. b) (st w))) \<Longrightarrow>
      (s \<noteq> STATUS_SUCCESS \<Longrightarrow> vb_Cpu b = 0 \<and> v3_core (st v) = v3_core (v3d_set_buffer r (\<lambda>_. b) (st w))) \<Longrightarrow> Q s v"
  shows "wp (V3d_Allocate E r count) Q w"
  unfolding V3d_Allocate_def Let_def
proof (rule wp_bindI, rule wp_modifyI, rule wp_bindI, rule wp_modifyI, rule wp_bindI, rule wp_call_any, rule wp_bindI, rule wp_call_any, rule wp_bindI, rule wp_modifyI,
    rule wp_Allocate_tail, goal_cases)
  case (5 cpu dma s b u)
  let ?b = "(v3d_buffer r (st w))\<lparr>vb_Bytes := count + 2 * V3D_PAGE, vb_Cpu := cpu, vb_Dma := dma\<rparr>"
  have c: "v3_core ((v3d_set_buffer r (\<lambda>b. b\<lparr>vb_Bytes := count + 2 * V3D_PAGE, vb_Cpu := cpu, vb_Dma := dma\<rparr>) (st w))\<lparr>v3_GuardsClean := False\<rparr>) =
      v3_core (v3d_set_buffer r (\<lambda>_. ?b) (st w))"
    by (subst set_buffer_const) simp
  have e: "v3_core ((v3d_set_buffer r (\<lambda>b. b\<lparr>vb_Bytes := count + 2 * V3D_PAGE, vb_Cpu := cpu, vb_Dma := dma\<rparr>) (st w))\<lparr>v3_GuardsClean := False, v3_Entries := \<lambda>_. 0\<rparr>) =
      v3_core ((v3d_set_buffer r (\<lambda>_. ?b) (st w))\<lparr>v3_Entries := \<lambda>_. 0\<rparr>)"
    by (subst set_buffer_const) (simp add: v3_core_def)
  show ?case
  proof (rule Q [where b = "if s = STATUS_SUCCESS then ?b else b"])
    show "same_else w u" using 5(1) by (simp add: same_else_def is_free_def)
    show "same_table w u" if "r \<noteq> VFixed MTable" using 5(2) [OF that] by (simp add: same_table_def)
    show "table_written (\<lambda>_. 0) (trace u)" if "s = STATUS_SUCCESS" "r = VFixed MTable" "count = V3D_TABLE_BYTES"
      using 5(3) [OF that(1,2)] that(3) by simp
    show "dma_ok (if s = STATUS_SUCCESS then ?b else b) count \<and> v3_core (st u) = v3_core (if r = VFixed MTable
        then (v3d_set_buffer r (\<lambda>_. if s = STATUS_SUCCESS then ?b else b) (st w))\<lparr>v3_Entries := (\<lambda>_. 0)\<rparr>
        else v3d_set_buffer r (\<lambda>_. if s = STATUS_SUCCESS then ?b else b) (st w))" if "s = STATUS_SUCCESS"
      using 5(4) [OF that] that c e r by (cases "r = VFixed MTable") (simp_all add: dma_ok_def set_buffer_comp)
    show "vb_Cpu (if s = STATUS_SUCCESS then ?b else b) = 0 \<and> v3_core (st u) = v3_core (v3d_set_buffer r (\<lambda>_. if s = STATUS_SUCCESS then ?b else b) (st w))"
      if "s \<noteq> STATUS_SUCCESS"
      using 5(5) [OF that] that r by (simp add: set_buffer_comp)
  qed
qed (use r in \<open>simp_all add: detached_def set_buffer_comp\<close>)

end
