(* ===== verification/V3d_Invariant.thy ===== *)
theory V3d_Invariant
  imports V3d_Memory
begin

text \<open>
  The invariant of the GPU driver (\<open>v3_inv\<close>) and its sessions: reset, begin and end keep it.
\<close>

unbundle bit_operations_syntax

section \<open>The invariant\<close>

definition object_empty :: "V3D_OBJECT \<Rightarrow> bool" where
  "object_empty o' \<longleftrightarrow> vb_Cpu (vo_Buffer o') = 0 \<and> vo_Handle o' = 0 \<and> vo_ImportedMdl o' = 0"

definition object_pages :: "V3D_OBJECT \<Rightarrow> nat set" where
  "object_pages o' = {unat (vo_Address o') div 4096 ..< unat (vo_Address o') div 4096 + unat (vo_Bytes o') div 4096}"

text \<open>A live object has whole pages within the managed range of addresses, and memory the GPU can reach.\<close>

definition object_ok :: "v3d_kernel \<Rightarrow> V3D_OBJECT \<Rightarrow> bool" where
  "object_ok K o' \<longleftrightarrow> unat (vo_Address o') mod 4096 = 0 \<and> unat (vo_Bytes o') mod 4096 = 0 \<and> 0 < unat (vo_Bytes o') \<and>
     0x101000 \<le> unat (vo_Address o') \<and> unat (vo_Address o') + unat (vo_Bytes o') + 4096 \<le> 0xf0000000 \<and> vo_Flags o' \<le> 1 \<and>
     (\<forall>k<unat (vo_Bytes o') div 4096. v3d_page K o' k AND 4095 = 0 \<and> v3d_page K o' k < 0x1000000000)"

definition objects_apart :: "V3D_OBJECT \<Rightarrow> V3D_OBJECT \<Rightarrow> bool" where
  "objects_apart a b \<longleftrightarrow> vo_Handle a \<noteq> vo_Handle b \<and> (unat (vo_Address a) + unat (vo_Bytes a) + 8192 \<le> unat (vo_Address b) \<or>
     unat (vo_Address b) + unat (vo_Bytes b) + 8192 \<le> unat (vo_Address a))"

text \<open>The table holds the pages of the live objects and nothing else.\<close>

definition entries_ok :: "v3d_kernel \<Rightarrow> V3D_OBJECT list \<Rightarrow> (nat \<Rightarrow> u32) \<Rightarrow> bool" where
  "entries_ok K os T \<longleftrightarrow> (\<forall>n<1048576.
     (\<forall>o'\<in>set os. vo_Handle o' \<noteq> 0 \<and> n \<in> object_pages o' \<longrightarrow>
        T n = V3dPte (v3d_page K o' (n - unat (vo_Address o') div 4096)) (c_bool (vo_Flags o' \<noteq> 0))) \<and>
     ((\<forall>o'\<in>set os. vo_Handle o' \<noteq> 0 \<longrightarrow> n \<notin> object_pages o') \<longrightarrow> T n = 0))"

definition memory_ok :: "v3d_kernel \<Rightarrow> V3D_CONTEXT \<Rightarrow> bool" where
  "memory_ok K c \<longleftrightarrow>
     (\<forall>o'\<in>set (v3_Objects c). if vo_Handle o' = 0 then object_empty o' else object_ok K o' \<and> vo_Handle o' \<le> v3_ObjectSerial c) \<and>
     (\<forall>i<256. \<forall>j<256. i \<noteq> j \<and> vo_Handle (v3_Objects c ! i) \<noteq> 0 \<and> vo_Handle (v3_Objects c ! j) \<noteq> 0 \<longrightarrow>
        objects_apart (v3_Objects c ! i) (v3_Objects c ! j)) \<and>
     entries_ok K (v3_Objects c) (v3_Entries c)"

definition v3_good :: "v3d_kernel \<Rightarrow> V3D_CONTEXT \<Rightarrow> io_event list \<Rightarrow> bool" where
  "v3_good K c t \<longleftrightarrow> length (v3_Objects c) = 256 \<and>
     (v3_Claimed c \<longrightarrow> flush_state t = 4 \<and> vb_Cpu (v3_Fixed c MTable) \<noteq> 0 \<and> v3_Owner c \<noteq> 0 \<and> table_written (v3_Entries c) t) \<and>
     (\<not> v3_Claimed c \<longrightarrow> (\<forall>m. vb_Cpu (v3_Fixed c m) = 0) \<and> \<not> v3_MemorySession c) \<and>
     (if v3_MemorySession c then memory_ok K c else \<forall>o'\<in>set (v3_Objects c). object_empty o')"

definition v3_inv :: "v3d_kernel \<Rightarrow> V3D_CONTEXT world \<Rightarrow> bool" where
  "v3_inv K w \<longleftrightarrow> frees_safe (trace w) \<and> (v3_BootFault (st w) \<or> v3_good K (st w) (trace w))"

lemma good_core: "v3_core c = v3_core d \<Longrightarrow> v3_good K c t = v3_good K d t"
  by (simp add: v3_good_def memory_ok_def v3_core_def)

lemma good_fine: "v3_fine w v \<Longrightarrow> v3_good K (st w) (trace w) \<Longrightarrow> v3_good K (st v) (trace v)"
  using good_core [of "st v" "st w" K "trace v"] fine_flushed [of w v] fine_written [of w v] by (auto simp: v3_good_def v3_rel_def)

lemma inv_fine: "v3_fine w v \<Longrightarrow> v3_inv K w \<Longrightarrow> v3_inv K v"
  using fine_frees [of w v] good_fine [of w v K] by (auto simp: v3_inv_def v3_rel_def)

lemma inv_fault: "frees_safe (trace w) \<Longrightarrow> v3_BootFault (st w) \<Longrightarrow> v3_inv K w"
  by (simp add: v3_inv_def)

lemma wp_fine_inv: "preserves v3_fine m \<Longrightarrow> v3_inv K w \<Longrightarrow> wp m (\<lambda>_. v3_inv K) w"
  by (rule wp_rel [where P = harmless]) (auto intro: inv_fine)

section \<open>The end of a session\<close>

definition all_free :: "V3D_CONTEXT \<Rightarrow> bool" where
  "all_free c \<longleftrightarrow> (\<forall>m. vb_Cpu (v3_Fixed c m) = 0) \<and> (\<forall>o'\<in>set (v3_Objects c). vb_Cpu (vo_Buffer o') = 0)"

definition freeable :: "V3D_CONTEXT world \<Rightarrow> bool" where
  "freeable w \<longleftrightarrow> detached (trace w) \<or> all_free (st w)"

lemma freeable_fine: "v3_fine w v \<Longrightarrow> freeable w \<Longrightarrow> freeable v"
  using fine_detached [of w v] by (auto simp: freeable_def all_free_def v3_rel_def v3_core_def)

lemma freeable_Free:
  assumes "freeable w" "same_else w v" "same_table w v" "in_buffers r" "length (v3_Objects (st w)) = 256"
    "v3_core (st v) = v3_core (if vb_Cpu (v3d_buffer r (st w)) = 0 then st w else v3d_set_buffer r (\<lambda>_. vb_zero) (st w))"
  shows "freeable v"
proof (cases "detached (trace w)")
  case True
  then show ?thesis using assms(2,3) by (auto simp: freeable_def detached_def same_else_def same_table_def)
next
  case False
  with assms(1) have a: "all_free (st w)" by (simp add: freeable_def)
  then have "vb_Cpu (v3d_buffer r (st w)) = 0" using assms(4,5) by (cases r) (auto simp: all_free_def in_buffers_def)
  with assms(6) a show ?thesis by (simp add: freeable_def all_free_def v3_core_def)
qed

lemma freeable_buffer: "freeable w \<Longrightarrow> in_buffers r \<Longrightarrow> length (v3_Objects (st w)) = 256 \<Longrightarrow> vb_Cpu (v3d_buffer r (st w)) \<noteq> 0 \<Longrightarrow> detached (trace w)"
  by (cases r) (auto simp: freeable_def all_free_def in_buffers_def)

definition freed_objects :: "nat \<Rightarrow> V3D_CONTEXT world \<Rightarrow> V3D_CONTEXT world \<Rightarrow> bool" where
  "freed_objects k w v \<longleftrightarrow> same_else w v \<and> freeable v \<and> length (v3_Objects (st v)) = 256 \<and> (\<forall>i<k. v3_Objects (st v) ! i = vo_zero) \<and>
     v3_Fixed (st v) = v3_Fixed (st w) \<and> v3_Claimed (st v) = v3_Claimed (st w) \<and> v3_Owner (st v) = v3_Owner (st w)"

definition freed_fixed :: "v3d_fixed list \<Rightarrow> V3D_CONTEXT world \<Rightarrow> V3D_CONTEXT world \<Rightarrow> bool" where
  "freed_fixed ms w v \<longleftrightarrow> same_else w v \<and> freeable v \<and> (\<forall>m\<in>set ms. vb_Cpu (v3_Fixed (st v) m) = 0) \<and> v3_Objects (st v) = v3_Objects (st w) \<and>
     v3_MemorySession (st v) = v3_MemorySession (st w) \<and> v3_Claimed (st v) = v3_Claimed (st w) \<and> v3_Owner (st v) = v3_Owner (st w)"

lemma free_object_step:
  assumes "k < 256" "freed_objects k w v"
  shows "wp (do { V3d_FreeBuffer E (VObject k); modify (\<lambda>c. c\<lparr>v3_Objects := (v3_Objects c)[k := vo_zero]\<rparr>) }) (\<lambda>_. freed_objects (Suc k) w) v"
proof (rule wp_bindI, rule wp_FreeBuffer)
  have v: "freeable v" "length (v3_Objects (st v)) = 256" using assms(2) by (simp_all add: freed_objects_def)
  have r: "in_buffers (VObject k)" using assms(1) by (simp add: in_buffers_def)
  show "detached (trace v)" if "vb_Cpu (v3d_buffer (VObject k) (st v)) \<noteq> 0" by (rule freeable_buffer [OF v(1) r v(2) that])
  fix u assume u: "same_else v u" "same_table v u"
    "v3_core (st u) = v3_core (if vb_Cpu (v3d_buffer (VObject k) (st v)) = 0 then st v else v3d_set_buffer (VObject k) (\<lambda>_. vb_zero) (st v))"
  have f: "freeable u" by (rule freeable_Free [OF v(1) u(1,2) r v(2) u(3)])
  have objs: "length (v3_Objects (st u)) = 256 \<and> (\<forall>i. i \<noteq> k \<longrightarrow> v3_Objects (st u) ! i = v3_Objects (st v) ! i) \<and> v3_Fixed (st u) = v3_Fixed (st v) \<and>
      v3_Claimed (st u) = v3_Claimed (st v) \<and> v3_Owner (st u) = v3_Owner (st v)"
    using u(3) v(2) by (auto simp: v3_core_def split: if_splits)
  let ?u = "u\<lparr>st := (st u)\<lparr>v3_Objects := (v3_Objects (st u))[k := vo_zero]\<rparr>\<rparr>"
  have "freeable ?u" using f by (auto simp: freeable_def all_free_def vo_zero_def vb_zero_def dest!: set_update_subset_insert [THEN subsetD])
  then show "wp (modify (\<lambda>c. c\<lparr>v3_Objects := (v3_Objects c)[k := vo_zero]\<rparr>)) (\<lambda>_. freed_objects (Suc k) w) u"
    using assms(2) u(1) objs assms(1)
    by (intro wp_modifyI) (auto simp: freed_objects_def same_else_def less_Suc_eq nth_list_update)
qed

lemma free_fixed_step:
  assumes "freed_fixed ms w v" "length (v3_Objects (st w)) = 256"
  shows "wp (V3d_FreeBuffer E (VFixed m)) (\<lambda>_. freed_fixed (m # ms) w) v"
proof (rule wp_FreeBuffer)
  have v: "freeable v" "length (v3_Objects (st v)) = 256" using assms by (simp_all add: freed_fixed_def)
  have r: "in_buffers (VFixed m)" by (simp add: in_buffers_def)
  show "detached (trace v)" if "vb_Cpu (v3d_buffer (VFixed m) (st v)) \<noteq> 0" by (rule freeable_buffer [OF v(1) r v(2) that])
  fix u assume u: "same_else v u" "same_table v u"
    "v3_core (st u) = v3_core (if vb_Cpu (v3d_buffer (VFixed m) (st v)) = 0 then st v else v3d_set_buffer (VFixed m) (\<lambda>_. vb_zero) (st v))"
  have "freeable u" by (rule freeable_Free [OF v(1) u(1,2) r v(2) u(3)])
  then show "freed_fixed (m # ms) w u"
    using assms(1) u(1,3) by (auto simp: freed_fixed_def same_else_def v3_core_def vb_zero_def split: if_splits)
qed

lemma wp_free_fixed:
  assumes "freed_fixed ms w v" "length (v3_Objects (st w)) = 256" "\<And>u. freed_fixed (rev xs @ ms) w u \<Longrightarrow> Q () u"
  shows "wp (forM xs (\<lambda>m. V3d_FreeBuffer E (VFixed m))) Q v"
  using assms(1,3)
proof (induction xs arbitrary: ms v)
  case (Cons x xs)
  show ?case
    unfolding forM.simps
    by (rule wp_bindI, rule wp_mono [OF free_fixed_step [OF Cons.prems(1) assms(2)]], rule Cons.IH, assumption) (use Cons.prems(2) in simp)
qed (simp add: wp_simps)

lemma wp_free_all:
  assumes "freeable w" "length (v3_Objects (st w)) = 256"
    and Q: "\<And>v. same_else w v \<Longrightarrow> length (v3_Objects (st v)) = 256 \<Longrightarrow> (\<forall>o'\<in>set (v3_Objects (st v)). o' = vo_zero) \<Longrightarrow>
      (\<forall>m. vb_Cpu (v3_Fixed (st v) m) = 0) \<Longrightarrow> \<not> v3_MemorySession (st v) \<Longrightarrow> v3_Claimed (st v) = v3_Claimed (st w) \<Longrightarrow>
      v3_Owner (st v) = v3_Owner (st w) \<Longrightarrow> Q () v"
  shows "wp (v3d_free_all E) Q w"
  unfolding v3d_free_all_def
proof (rule wp_bindI, rule wp_forM [where I = "\<lambda>k. freed_objects k w"])
  show "freed_objects 0 w w" using assms(1,2) by (simp add: freed_objects_def)
next
  fix k v assume "k < length [0..<PI5_V3D_BUFFER_LIMIT]" "freed_objects k w v"
  then show "wp (do { V3d_FreeBuffer E (VObject ([0..<PI5_V3D_BUFFER_LIMIT] ! k));
      modify (\<lambda>c. c\<lparr>v3_Objects := (v3_Objects c)[[0..<PI5_V3D_BUFFER_LIMIT] ! k := vo_zero]\<rparr>) }) (\<lambda>_. freed_objects (Suc k) w) v"
    using free_object_step [of k w v E] by simp
next
  fix v assume "freed_objects (length [0..<PI5_V3D_BUFFER_LIMIT]) w v"
  then have v: "freed_objects 256 w v" by simp
  let ?v = "v\<lparr>st := (st v)\<lparr>v3_ObjectBytes := 0, v3_ImportedBytes := 0, v3_MemorySession := False\<rparr>\<rparr>"
  have zero: "\<forall>o'\<in>set (v3_Objects (st v)). o' = vo_zero" using v by (auto simp: freed_objects_def in_set_conv_nth)
  have "freeable v" using v by (simp add: freed_objects_def)
  then have f: "freed_fixed [] ?v ?v" by (simp add: freed_fixed_def freeable_def all_free_def)
  show "wp (do { modify (\<lambda>c. c\<lparr>v3_ObjectBytes := 0, v3_ImportedBytes := 0, v3_MemorySession := False\<rparr>);
      forM [MTileState, MTile, MUniform, MCode, MDestination, MSource, MTrap, MTable] (\<lambda>m. V3d_FreeBuffer E (VFixed m)) }) Q v"
  proof (rule wp_bindI, rule wp_modifyI, rule wp_free_fixed [OF f])
    show "length (v3_Objects (st ?v)) = 256" using v by (simp add: freed_objects_def)
    fix u assume u: "freed_fixed (rev [MTileState, MTile, MUniform, MCode, MDestination, MSource, MTrap, MTable] @ []) ?v u"
    have all: "\<forall>m. vb_Cpu (v3_Fixed (st u) m) = 0"
    proof
      fix m show "vb_Cpu (v3_Fixed (st u) m) = 0" using u by (cases m) (simp_all add: freed_fixed_def)
    qed
    show "Q () u" by (rule Q) (use u v zero all in \<open>simp_all add: freed_fixed_def freed_objects_def same_else_def\<close>)
  qed
qed

lemma v3d_status_success [simp]: "v3d_status r = STATUS_SUCCESS \<longleftrightarrow> r = V3dOk"
  by (cases r) (simp_all add: v3d_status_def)

lemma wp_Hw: "wp m (\<lambda>r v. Q (v3d_status r) \<lparr>st = (st w)\<lparr>v3_Io := st v\<rparr>, trace = trace v\<rparr>) \<lparr>st = v3_Io (st w), trace = trace w\<rparr> \<Longrightarrow> wp (V3d_Hw m) Q w"
  unfolding V3d_Hw_def by (simp add: wp_simps)

lemma no_table_rel: "v3_fine w v \<Longrightarrow> v3_rel no_table w v"
  by (erule rel_mono) (rule event_kinds)

lemma no_table_frees: "v3_rel no_table w v \<Longrightarrow> frees_safe (trace v) = frees_safe (trace w)"
  by (rule safe_extends) (auto simp: v3_rel_def trace_ext_def elim!: extends_mono dest!: event_kinds(3))

lemma no_table_flushed: "v3_rel no_table w v \<Longrightarrow> flush_state (trace w) = 4 \<Longrightarrow> flush_state (trace v) = 4"
  using flush_extends [of "trace w" "trace v"] flush_le_4 [of "trace v"] by (auto simp: v3_rel_def trace_ext_def)

lemma wp_flush:
  assumes "\<And>s v. v3_rel no_table w v \<Longrightarrow> (s = STATUS_SUCCESS \<Longrightarrow> flush_state (trace v) = 4) \<Longrightarrow> Q s v"
  shows "wp (V3d_Hw (V3dMmuFlush E)) Q w"
  by (rule wp_Hw, rule wp_Flush, rule assms) (simp_all add: v3_rel_def trace_ext_def)

lemma wp_start:
  assumes "\<And>s v. v3_rel no_table w v \<Longrightarrow> (s = STATUS_SUCCESS \<Longrightarrow> flush_state (trace v) = 4) \<Longrightarrow> Q s v"
  shows "wp (V3d_Hw (V3dMmuStart E table trap)) Q w"
  unfolding V3dMmuStart_def
proof (rule wp_Hw, rule wp_ifI; (intro wp_bindI wp_emitI wp_returnI)?)
  let ?w = "\<lparr>st = v3_Io (st w), trace = trace w\<rparr>"
  show "Q (v3d_status V3dInvalid) \<lparr>st = (st w)\<lparr>v3_Io := st ?w\<rparr>, trace = trace ?w\<rparr>"
    by (rule assms) (simp_all add: v3_rel_def trace_ext_def)
qed (rule wp_Flush, rule assms;
    auto simp: v3_rel_def trace_ext_def no_table_def is_free_def elim: extends_trans [rotated] intro!: extends_Cons)

section \<open>The GPU after a reset\<close>

lemma wp_registers_zero:
  assumes "\<And>r v. v3_fine w v \<Longrightarrow> (r \<Longrightarrow> mmu_off (trace v)) \<Longrightarrow> Q r v"
  shows "wp (v3d_registers_zero E ((V3D_MMU_CTL, 1) # rest)) Q w"
  unfolding v3d_registers_zero.simps
proof (rule wp_bindI, rule wp_read_any, rule wp_ifI)
  fix v :: u32
  let ?w = "w\<lparr>trace := Rd V3dHub V3D_MMU_CTL v # trace w\<rparr>"
  have f: "v3_fine w ?w" by (simp add: v3_rel_def trace_ext_def extends_Cons)
  show "wp (ret False) Q ?w" by (intro wp_returnI assms) (simp_all add: f)
  assume "\<not> v AND 1 \<noteq> 0"
  then have off: "mmu_off (trace ?w)" by simp
  show "wp (v3d_registers_zero E rest) Q ?w"
    by (rule wp_rel [OF fine_zero], rule assms) (auto intro: v3_rel.frame_trans [OF f] fine_off [OF _ off])
qed

lemma wp_is_reset:
  assumes "\<And>s v. v3_fine w v \<Longrightarrow> (s = STATUS_SUCCESS \<Longrightarrow> mmu_off (trace v)) \<Longrightarrow> Q s v"
  shows "wp (v3d_is_reset E ((V3D_MMU_CTL, 1) # rest)) Q w"
  unfolding v3d_is_reset_def
proof (rule wp_bindI, rule wp_rel [OF fine_hardware(2)], rule wp_ifI)
  fix r v assume v: "v3_fine w v"
  show "wp (ret STATUS_DEVICE_HARDWARE_ERROR) Q v" by (intro wp_returnI assms) (simp_all add: v)
  show "wp (do { zero \<leftarrow> v3d_registers_zero E ((V3D_MMU_CTL, 1) # rest); ret (if zero then STATUS_SUCCESS else STATUS_DEVICE_HARDWARE_ERROR) }) Q v"
  proof (rule wp_bindI, rule wp_registers_zero, rule wp_returnI, rule assms)
    fix zero u assume u: "v3_fine v u" "zero \<Longrightarrow> mmu_off (trace u)"
    show "v3_fine w u" by (rule v3_rel.frame_trans [OF v u(1)])
    show "mmu_off (trace u)" if "(if zero then STATUS_SUCCESS else STATUS_DEVICE_HARDWARE_ERROR) = STATUS_SUCCESS"
      using that u(2) by (cases zero) simp_all
  qed
qed

lemma wp_quiesce:
  assumes "\<And>v. v3_fine w v \<Longrightarrow> wp k Q v" "\<And>s v. v3_fine w v \<Longrightarrow> v3_BootFault (st v) \<Longrightarrow> Q s v"
  shows "wp (v3d_quiesce E k) Q w"
  unfolding v3d_quiesce_def
  apply (rule wp_bindI, rule wp_rel [OF fine_Mask])
  apply (rule wp_require, intro fine_Hw harmless_hardware)
   apply (rule wp_require, intro fine_Hw harmless_hardware)
    apply (rule wp_require, rule fine_providers)
     apply (rule wp_bindI, rule wp_rel [OF fine_forget], rule assms(1))
  by (blast intro: v3_rel.frame_trans assms(2))+

section \<open>The end of a session\<close>

definition idle_gpu :: "V3D_CONTEXT \<Rightarrow> bool" where
  "idle_gpu c \<longleftrightarrow> length (v3_Objects c) = 256 \<and> \<not> v3_Claimed c \<and> \<not> v3_MemorySession c \<and> (\<forall>m. vb_Cpu (v3_Fixed c m) = 0) \<and>
     (\<forall>o'\<in>set (v3_Objects c). object_empty o')"

lemma idle_good: "idle_gpu c \<Longrightarrow> v3_good K c t"
  by (simp add: idle_gpu_def v3_good_def)

lemma idle_core: "v3_core c = v3_core d \<Longrightarrow> idle_gpu c = idle_gpu d"
  by (simp add: idle_gpu_def v3_core_def)

definition at_rest :: "V3D_CONTEXT world \<Rightarrow> bool" where
  "at_rest w \<longleftrightarrow> frees_safe (trace w) \<and> idle_gpu (st w)"

lemma rest_fine: "v3_fine w v \<Longrightarrow> at_rest w \<Longrightarrow> at_rest v"
  using idle_core [of "st v" "st w"] fine_frees [of w v] by (simp add: at_rest_def v3_rel_def)

lemma rest_inv: "at_rest w \<Longrightarrow> v3_inv K w"
  by (simp add: at_rest_def v3_inv_def idle_good)

lemma wp_DropProviders: "at_rest w \<Longrightarrow> wp (V3d_DropProviders E) (\<lambda>_. at_rest) w"
  unfolding V3d_DropProviders_def
proof (rule wp_bindI, rule wp_getsI, rule wp_require)
  fix v :: "V3D_CONTEXT world" assume w: "at_rest w" and "v3_fine w v"
  then have v: "at_rest v" by (simp add: rest_fine)
  let ?v = "v\<lparr>st := (st v)\<lparr>v3_PmLease := False\<rparr>\<rparr>"
  have "at_rest ?v" using v idle_core [of "st ?v" "st v"] by (simp add: at_rest_def)
  then show "wp (do {
       modify (\<lambda>c. c\<lparr>v3_PmLease := False\<rparr>);
       v3d_require E (if v3_ClockLease (id (st w)) then V3d_Clock E FCLK_RELEASE 0 else ret STATUS_SUCCESS) (do {
         modify (\<lambda>c. c\<lparr>v3_ClockLease := False\<rparr>);
         V3d_Close E (v3_Pm (id (st w)));
         V3d_Close E (v3_Clock (id (st w)));
         modify (\<lambda>c. c\<lparr>v3_Pm := 0, v3_Clock := 0, v3_Owner := 0\<rparr>);
         kernel_do E ''IoInvalidateDeviceRelations'' [];
         kernel_do E ''WdfDeviceSetStaticStopRemove'' [1];
         ret STATUS_SUCCESS
       })
     }) (\<lambda>_. at_rest) v"
  proof (intro wp_bindI wp_modifyI, rule_tac wp_require)
    fix u :: "V3D_CONTEXT world" assume "at_rest ?v" "v3_fine ?v u"
    then have u: "at_rest u" by (simp add: rest_fine)
    show "wp (do {
         modify (\<lambda>c. c\<lparr>v3_ClockLease := False\<rparr>);
         V3d_Close E (v3_Pm (id (st w)));
         V3d_Close E (v3_Clock (id (st w)));
         modify (\<lambda>c. c\<lparr>v3_Pm := 0, v3_Clock := 0, v3_Owner := 0\<rparr>);
         kernel_do E ''IoInvalidateDeviceRelations'' [];
         kernel_do E ''WdfDeviceSetStaticStopRemove'' [1];
         ret STATUS_SUCCESS
       }) (\<lambda>_. at_rest) u"
    proof (rule wp_bindI, rule wp_modifyI, rule wp_bindI, rule wp_rel [OF fine_Close], rule wp_bindI, rule wp_rel [OF fine_Close])
      fix a b :: "V3D_CONTEXT world" let ?u = "u\<lparr>st := (st u)\<lparr>v3_ClockLease := False\<rparr>\<rparr>"
      assume "v3_fine ?u a" "v3_fine a b"
      moreover have "at_rest ?u" using u idle_core [of "st ?u" "st u"] by (simp add: at_rest_def)
      ultimately have "at_rest b" by (blast intro: rest_fine)
      then show "wp (do {
         modify (\<lambda>c. c\<lparr>v3_Pm := 0, v3_Clock := 0, v3_Owner := 0\<rparr>);
         kernel_do E ''IoInvalidateDeviceRelations'' [];
         kernel_do E ''WdfDeviceSetStaticStopRemove'' [1];
         ret STATUS_SUCCESS
       }) (\<lambda>_. at_rest) b"
        by (simp add: wp_simps at_rest_def idle_gpu_def is_free_def)
    qed
  qed (auto intro!: fine fine_intros intro: rest_fine)
qed (auto intro!: fine fine_intros intro: rest_fine)

lemma empty_zero: "object_empty vo_zero"
  by (simp add: object_empty_def vo_zero_def vb_zero_def)

lemma wp_sleep:
  assumes "frees_safe (trace w)" "freeable w" "length (v3_Objects (st w)) = 256" "\<not> v3_Claimed (st w)"
  shows "wp (v3d_sleep E (V3d_DropProviders E)) (\<lambda>_. v3_inv K) w"
proof -
  let ?P = "\<lambda>w. frees_safe (trace w) \<and> freeable w \<and> length (v3_Objects (st w)) = 256 \<and> \<not> v3_Claimed (st w)"
  have keep: "?P v" if "v3_fine u v" "?P u" for u v
    using that fine_frees [of u v] freeable_fine [of u v] by (simp add: v3_rel_def v3_core_def)
  have small: "v3_fine u (u\<lparr>st := f (st u)\<rparr>)" if "v3_core (f (st u)) = v3_core (st u)" "v3_BootFault (f (st u)) = v3_BootFault (st u)" for f and u :: "V3D_CONTEXT world"
    using that by (simp add: v3_rel_def trace_ext_def)
  show ?thesis
    unfolding v3d_sleep_def
  proof (rule wp_bindI, rule wp_rel [OF fine_Snapshot], rule wp_bindI, rule wp_getsI, rule wp_require)
    fix u v :: "V3D_CONTEXT world" assume "v3_fine w u" "v3_fine u v"
    then have v: "?P v" using assms keep [of w u] keep [of u v] by simp
    show "wp (do {
         modify (\<lambda>c. c\<lparr>v3_Woke := False\<rparr>);
         V3d_Snapshot E;
         modify (\<lambda>c. c\<lparr>v3_Powered := False\<rparr>);
         v3d_free_all E;
         V3d_DropProviders E
       }) (\<lambda>_. v3_inv K) v"
    proof (rule wp_bindI, rule wp_modifyI, rule wp_bindI, rule wp_rel [OF fine_Snapshot], rule wp_bindI, rule wp_modifyI)
      fix a :: "V3D_CONTEXT world"
      let ?v = "v\<lparr>st := (st v)\<lparr>v3_Woke := False\<rparr>\<rparr>" and ?a = "a\<lparr>st := (st a)\<lparr>v3_Powered := False\<rparr>\<rparr>"
      assume f: "v3_fine ?v a"
      have "?P ?v" by (rule keep [OF small v]) simp_all
      then have "?P a" by (rule keep [OF f])
      then have a: "?P ?a" by (rule keep [rotated, OF _ small]) simp_all
      show "wp (do { v3d_free_all E; V3d_DropProviders E }) (\<lambda>_. v3_inv K) ?a"
      proof (rule wp_bindI, rule wp_free_all)
        show "freeable ?a" "length (v3_Objects (st ?a)) = 256" using a by simp_all
        fix b :: "V3D_CONTEXT world" assume b: "same_else ?a b" "length (v3_Objects (st b)) = 256" "\<forall>o'\<in>set (v3_Objects (st b)). o' = vo_zero"
          "\<forall>m. vb_Cpu (v3_Fixed (st b) m) = 0" "\<not> v3_MemorySession (st b)" "v3_Claimed (st b) = v3_Claimed (st ?a)"
        have "\<forall>o'\<in>set (v3_Objects (st b)). object_empty o'" using b(3) empty_zero by auto
        then have "at_rest b" using a b(1,2,4-6) by (simp add: at_rest_def idle_gpu_def same_else_def)
        then show "wp (V3d_DropProviders E) (\<lambda>_. v3_inv K) b"
          by (rule wp_mono [OF wp_DropProviders]) (rule rest_inv)
      qed
    qed
  next
    fix s :: NTSTATUS and u v :: "V3D_CONTEXT world" assume "v3_fine w u" "v3_fine u v" "v3_BootFault (st v)"
    then show "v3_inv K v" using assms keep [of w u] keep [of u v] by (auto intro: inv_fault)
  qed (intro fine_intros fine quietly_hardware; simp)
qed

definition endable :: "V3D_CONTEXT world \<Rightarrow> bool" where
  "endable w \<longleftrightarrow> frees_safe (trace w) \<and> (\<not> v3_BootFault (st w) \<longrightarrow> length (v3_Objects (st w)) = 256 \<and> (\<not> v3_Claimed (st w) \<longrightarrow> all_free (st w)))"

lemma wp_End:
  assumes "endable w"
  shows "wp (V3d_End E) (\<lambda>_. v3_inv K) w"
  unfolding V3d_End_def
proof (rule wp_bindI, rule wp_modifyI, rule wp_bindI, rule wp_getsI, rule wp_ifI)
  let ?w = "w\<lparr>st := (st w)\<lparr>v3_GuardsClean := False\<rparr>\<rparr>"
  show "v3_BootFault (id (st ?w)) \<Longrightarrow> wp (ret STATUS_DEVICE_HARDWARE_ERROR) (\<lambda>_. v3_inv K) ?w"
    using assms by (intro wp_returnI inv_fault) (simp_all add: endable_def)
  assume ok: "\<not> v3_BootFault (id (st ?w))"
  let ?v = "?w\<lparr>st := (st ?w)\<lparr>v3_Status := (v3_Status (st ?w))\<lparr>vs_Phase := 20\<rparr>\<rparr>\<rparr>"
  have f: "frees_safe (trace ?v)" "length (v3_Objects (st ?v)) = 256" using assms ok by (simp_all add: endable_def)
  have free: "freeable ?v" if "\<not> v3_Claimed (id (st ?w))" using assms ok that by (simp add: endable_def freeable_def all_free_def)
  show "wp (do { v3_phase 20;
       if v3_Claimed (id (st ?w))
       then v3d_quiesce E (v3d_require E (v3d_is_reset E [(V3D_MMU_CTL, 1), (V3D_MMU_PT, 0xffffffff), (V3D_MMU_TRAP, 0xffffffff)]) (do {
         V3d_Mask E False;
         v3d_require E (V3d_Guards E) (do {
           modify (\<lambda>c. c\<lparr>v3_Claimed := False\<rparr>);
           v3d_sleep E (V3d_DropProviders E)
         })
       }))
       else v3d_sleep E (V3d_DropProviders E) }) (\<lambda>_. v3_inv K) ?w"
  proof (rule wp_bindI, rule wp_modifyI, rule wp_ifI)
    assume "\<not> v3_Claimed (id (st ?w))"
    then show "wp (v3d_sleep E (V3d_DropProviders E)) (\<lambda>_. v3_inv K) ?v"
      using f free by (intro wp_sleep) simp_all
  next
    have safe: "frees_safe (trace v)" "length (v3_Objects (st v)) = 256" if "v3_fine ?v v" for v
      using that f fine_frees [of ?v v] by (simp_all add: v3_rel_def v3_core_def)
    have bad: "v3_inv K v" if "v3_fine ?v v" "v3_BootFault (st v)" for v using safe [OF that(1)] that(2) by (intro inv_fault)
    note step = v3_rel.frame_trans
    show "wp (v3d_quiesce E (v3d_require E (v3d_is_reset E [(V3D_MMU_CTL, 1), (V3D_MMU_PT, 0xffffffff), (V3D_MMU_TRAP, 0xffffffff)]) (do {
         V3d_Mask E False;
         v3d_require E (V3d_Guards E) (do {
           modify (\<lambda>c. c\<lparr>v3_Claimed := False\<rparr>);
           v3d_sleep E (V3d_DropProviders E)
         })
       }))) (\<lambda>_. v3_inv K) ?v"
    proof (rule wp_quiesce, rule wp_require_any, rule wp_is_reset)
      fix u v :: "V3D_CONTEXT world" and s :: NTSTATUS assume u: "v3_fine ?v u" "v3_fine u v" and off: "s = STATUS_SUCCESS \<Longrightarrow> mmu_off (trace v)"
      have v: "v3_fine ?v v" by (rule step [OF u])
      have "wp (do {
         V3d_Mask E False;
         v3d_require E (V3d_Guards E) (do {
           modify (\<lambda>c. c\<lparr>v3_Claimed := False\<rparr>);
           v3d_sleep E (V3d_DropProviders E)
         })
       }) (\<lambda>_. v3_inv K) v" if "s = STATUS_SUCCESS"
      proof (rule wp_bindI, rule wp_rel [OF fine_Mask], rule wp_require, rule fine_Guards)
        fix a b :: "V3D_CONTEXT world" assume ab: "v3_fine v a" "v3_fine a b"
        have "mmu_off (trace b)" using off [OF that] fine_off ab by blast
        then show "wp (do { modify (\<lambda>c. c\<lparr>v3_Claimed := False\<rparr>); v3d_sleep E (V3d_DropProviders E) }) (\<lambda>_. v3_inv K) b"
          using safe [OF step [OF v step [OF ab]]] by (intro wp_bindI wp_modifyI wp_sleep) (simp_all add: freeable_def detached_def)
      qed (blast intro: bad step v)
      then show "if s = STATUS_SUCCESS then wp (do {
         V3d_Mask E False;
         v3d_require E (V3d_Guards E) (do {
           modify (\<lambda>c. c\<lparr>v3_Claimed := False\<rparr>);
           v3d_sleep E (V3d_DropProviders E)
         })
       }) (\<lambda>_. v3_inv K) v else \<forall>s u. v3_fine v u \<longrightarrow> v3_BootFault (st u) \<longrightarrow> v3_inv K u"
        using bad step [OF v] by auto
    qed (blast intro: bad)
  qed
qed

section \<open>Reset\<close>

lemma wp_Reset:
  assumes "\<And>s v. v3_rel no_table w v \<Longrightarrow> (s = STATUS_SUCCESS \<Longrightarrow> \<not> v3_BootFault (st v) \<Longrightarrow> vb_Cpu (v3_Fixed (st w) MTable) \<noteq> 0 \<Longrightarrow> flush_state (trace v) = 4) \<Longrightarrow> Q s v"
  shows "wp (V3d_Reset E) Q w"
  unfolding V3d_Reset_def
proof (rule wp_bindI, rule wp_modifyI, rule wp_bindI, rule wp_modifyI)
  let ?v = "w\<lparr>st := (st w)\<lparr>v3_GuardsClean := False\<rparr>\<rparr>"
  let ?w = "?v\<lparr>st := (st ?v)\<lparr>v3_Status := (v3_Status (st ?v))\<lparr>vs_Phase := 10\<rparr>\<rparr>\<rparr>"
  have start: "v3_rel no_table w ?w" by (simp add: v3_rel_def trace_ext_def)
  have fault: "Q s v" if "v3_rel no_table w u" "v3_fine u v" "v3_BootFault (st v)" for s u v
    using that by (intro assms) (auto intro: v3_rel.frame_trans no_table_rel)
  note step = v3_rel.frame_trans
  show "wp (v3d_quiesce E (v3d_require E (v3d_is_reset E [(V3D_MMU_CTL, 1)]) (do {
       io_write V3dCore 0x34 0;
       io_write V3dCore 0x38 0xffffffff;
       c \<leftarrow> gets id;
       v3d_require E (if vb_Cpu (v3_Fixed c MTable) \<noteq> 0
           then do { io_barrier; V3d_Hw (V3dMmuStart E (vs_TableDma (v3_Status c)) (vb_Dma (v3_Fixed c MTrap) + ucast V3D_PAGE)) }
           else ret STATUS_SUCCESS)
         (do {
           modify (\<lambda>c. c\<lparr>v3_Pending := (\<lambda>_. 0)\<rparr>);
           V3d_Mask E True;
           v3_stats (\<lambda>s. s\<lparr>vs_Resets := vs_Resets s + 1\<rparr>);
           ret STATUS_SUCCESS
         })
     }))) Q ?w"
  proof (rule wp_quiesce, rule wp_require, rule fine_is_reset, rule wp_bindI, rule wp_emitI, rule wp_bindI, rule wp_emitI, rule wp_bindI, rule wp_getsI, rule wp_require_any)
    fix u v :: "V3D_CONTEXT world" assume "v3_fine ?w u" "v3_fine u v"
    then have v: "v3_rel no_table w v" using start by (blast intro: step no_table_rel)
    let ?x = "v\<lparr>trace := Wr V3dCore 0x34 0 # trace v\<rparr>"
    let ?y = "?x\<lparr>trace := Wr V3dCore 0x38 0xffffffff # trace ?x\<rparr>"
    let ?k = "do {
           modify (\<lambda>c. c\<lparr>v3_Pending := (\<lambda>_. 0)\<rparr>);
           V3d_Mask E True;
           v3_stats (\<lambda>s. s\<lparr>vs_Resets := vs_Resets s + 1\<rparr>);
           ret STATUS_SUCCESS
         }"
    have y: "v3_rel no_table w ?y" using v by (auto simp: v3_rel_def trace_ext_def no_table_def is_free_def)
    have same: "v3_Fixed (st ?y) = v3_Fixed (st w)" using y by (simp add: v3_rel_def v3_core_def)
    have rest: "wp ?k Q b" if b: "v3_rel no_table w b" "vb_Cpu (v3_Fixed (st w) MTable) \<noteq> 0 \<Longrightarrow> flush_state (trace b) = 4" for b
    proof (rule wp_bindI, rule wp_modifyI, rule wp_bindI, rule wp_rel [OF fine_Mask], rule wp_bindI, rule wp_modifyI, rule wp_returnI, rule assms)
      fix a assume a: "v3_fine (b\<lparr>st := (st b)\<lparr>v3_Pending := \<lambda>_. 0\<rparr>\<rparr>) a"
      then have "v3_fine b a" by (simp add: v3_rel_def trace_ext_def)
      then have "v3_rel no_table w a" using step [OF b(1) no_table_rel] by blast
      then show "v3_rel no_table w (a\<lparr>st := (st a)\<lparr>v3_Status := (v3_Status (st a))\<lparr>vs_Resets := vs_Resets (v3_Status (st a)) + 1\<rparr>\<rparr>\<rparr>)"
        by (simp add: v3_rel_def trace_ext_def)
      assume "vb_Cpu (v3_Fixed (st w) MTable) \<noteq> 0"
      with fine_flushed [OF \<open>v3_fine b a\<close>] b(2)
      show "flush_state (trace (a\<lparr>st := (st a)\<lparr>v3_Status := (v3_Status (st a))\<lparr>vs_Resets := vs_Resets (v3_Status (st a)) + 1\<rparr>\<rparr>\<rparr>)) = 4" by simp
    qed
    show "wp (if vb_Cpu (v3_Fixed (id (st ?y)) MTable) \<noteq> 0
           then do { io_barrier; V3d_Hw (V3dMmuStart E (vs_TableDma (v3_Status (id (st ?y)))) (vb_Dma (v3_Fixed (id (st ?y)) MTrap) + ucast V3D_PAGE)) }
           else ret STATUS_SUCCESS)
         (\<lambda>s a. if s = STATUS_SUCCESS then wp ?k Q a else \<forall>s u. v3_fine a u \<longrightarrow> v3_BootFault (st u) \<longrightarrow> Q s u) ?y"
    proof (rule wp_ifI)
      assume "\<not> vb_Cpu (v3_Fixed (id (st ?y)) MTable) \<noteq> 0"
      then show "wp (ret STATUS_SUCCESS) (\<lambda>s a. if s = STATUS_SUCCESS then wp ?k Q a else \<forall>s u. v3_fine a u \<longrightarrow> v3_BootFault (st u) \<longrightarrow> Q s u) ?y"
        using rest [OF y] same by (intro wp_returnI) simp
    next
      show "wp (do { io_barrier; V3d_Hw (V3dMmuStart E (vs_TableDma (v3_Status (id (st ?y)))) (vb_Dma (v3_Fixed (id (st ?y)) MTrap) + ucast V3D_PAGE)) })
         (\<lambda>s a. if s = STATUS_SUCCESS then wp ?k Q a else \<forall>s u. v3_fine a u \<longrightarrow> v3_BootFault (st u) \<longrightarrow> Q s u) ?y"
      proof (rule wp_bindI, rule wp_emitI, rule wp_start)
        fix s a assume a: "v3_rel no_table (?y\<lparr>trace := Bar # trace ?y\<rparr>) a" "s = STATUS_SUCCESS \<Longrightarrow> flush_state (trace a) = 4"
        have "v3_rel no_table ?y (?y\<lparr>trace := Bar # trace ?y\<rparr>)" by (auto simp: v3_rel_def trace_ext_def no_table_def is_free_def)
        then have "v3_rel no_table w a" using y a(1) by (blast intro: step)
        with a(2) rest fault show "if s = STATUS_SUCCESS then wp ?k Q a else \<forall>s u. v3_fine a u \<longrightarrow> v3_BootFault (st u) \<longrightarrow> Q s u" by simp
      qed
    qed
  qed (blast intro: fault [OF start] step)+
qed

section \<open>Stores to the table\<close>

lemma wp_stores:
  assumes "\<And>v. st v = (st w)\<lparr>v3_Entries := fold (\<lambda>p e. e(fst p := snd p)) ps (v3_Entries (st w))\<rparr> \<Longrightarrow>
     frees_safe (trace v) = frees_safe (trace w) \<Longrightarrow> mmu_off (trace v) = mmu_off (trace w) \<Longrightarrow>
     (table_written (v3_Entries (st w)) (trace w) \<Longrightarrow> \<forall>p\<in>set ps. fst p < 1048576 \<Longrightarrow> table_written (v3_Entries (st v)) (trace v)) \<Longrightarrow> Q () v"
  shows "wp (forM ps (\<lambda>p. v3d_store_entry (fst p) (snd p))) Q w"
  using assms
proof (induction ps arbitrary: w)
  case Nil
  then show ?case by (simp add: wp_simps)
next
  case (Cons p ps)
  show ?case
    unfolding forM.simps v3d_store_entry_def
    by (intro wp_bindI wp_emitI wp_modifyI, rule Cons.IH [unfolded v3d_store_entry_def], rule Cons.prems)
      (use written_store [of "v3_Entries (st w)" "trace w" "fst p" "snd p"] in \<open>simp_all add: is_free_def table_at_def fun_upd_def\<close>)
qed

lemma forM_map: "forM xs (\<lambda>x. f (g x)) = forM (map g xs) f"
  by (induction xs) simp_all

lemma fold_stores: "fold (\<lambda>p e. e(fst p := snd p)) (map (\<lambda>k. (a + k, h k)) [0..<n]) e i = (if a \<le> i \<and> i < a + n then h (i - a) else e i)"
  by (induction n) auto

lemma wp_store_range:
  assumes "\<And>v. st v = (st w)\<lparr>v3_Entries := (\<lambda>i. if a \<le> i \<and> i < a + n then h (i - a) else v3_Entries (st w) i)\<rparr> \<Longrightarrow>
     frees_safe (trace v) = frees_safe (trace w) \<Longrightarrow> mmu_off (trace v) = mmu_off (trace w) \<Longrightarrow>
     (table_written (v3_Entries (st w)) (trace w) \<Longrightarrow> a + n \<le> 1048576 \<Longrightarrow> table_written (v3_Entries (st v)) (trace v)) \<Longrightarrow> Q () v"
  shows "wp (forM [0..<n] (\<lambda>k. v3d_store_entry (a + k) (h k))) Q w"
proof -
  have "forM [0..<n] (\<lambda>k. v3d_store_entry (a + k) (h k)) = forM (map (\<lambda>k. (a + k, h k)) [0..<n]) (\<lambda>p. v3d_store_entry (fst p) (snd p))"
    using forM_map [of "[0..<n]" "\<lambda>p. v3d_store_entry (fst p) (snd p)" "\<lambda>k. (a + k, h k)"] by simp
  moreover have "fold (\<lambda>p e. e(fst p := snd p)) (map (\<lambda>k. (a + k, h k)) [0..<n]) e = (\<lambda>i. if a \<le> i \<and> i < a + n then h (i - a) else e i)" for e
    by (rule ext) (rule fold_stores)
  ultimately show ?thesis by (auto intro!: wp_stores assms)
qed

section \<open>The start of a session\<close>

text \<open>How far a session is while it starts.\<close>

definition begun :: "ptr \<Rightarrow> V3D_CONTEXT world \<Rightarrow> bool" where
  "begun f w \<longleftrightarrow> frees_safe (trace w) \<and> length (v3_Objects (st w)) = 256 \<and> (\<forall>o'\<in>set (v3_Objects (st w)). object_empty o') \<and>
     \<not> v3_MemorySession (st w) \<and> v3_Owner (st w) = f \<and> (\<not> v3_Claimed (st w) \<longrightarrow> (\<forall>m. vb_Cpu (v3_Fixed (st w) m) = 0))"

definition claimed_off :: "ptr \<Rightarrow> V3D_CONTEXT world \<Rightarrow> bool" where
  "claimed_off f w \<longleftrightarrow> begun f w \<and> v3_Claimed (st w) \<and> mmu_off (trace w)"

lemma begun_fine: "v3_fine w v \<Longrightarrow> begun f w \<Longrightarrow> begun f v"
  using fine_frees [of w v] by (simp add: begun_def v3_rel_def v3_core_def)

lemma claimed_fine: "v3_fine w v \<Longrightarrow> claimed_off f w \<Longrightarrow> claimed_off f v"
  using begun_fine [of w v f] fine_off [of w v] by (simp add: claimed_off_def v3_rel_def v3_core_def)

lemma begun_endable: "begun f w \<Longrightarrow> endable w"
  by (simp add: begun_def endable_def all_free_def object_empty_def)

lemma wp_chain: "wp m (\<lambda>s v. if s = STATUS_SUCCESS then wp k Q v else Q s v) w \<Longrightarrow> wp (v3d_chain m k) Q w"
  unfolding v3d_chain_def by (rule wp_bindI, erule wp_mono) (auto simp: wp_simps split: if_splits)

lemma wp_chain_fine:
  assumes "preserves v3_fine m" "begun f w" "\<And>v. begun f v \<Longrightarrow> wp k Q v" "\<And>s v. begun f v \<Longrightarrow> s \<noteq> STATUS_SUCCESS \<Longrightarrow> Q s v"
  shows "wp (v3d_chain m k) Q w"
  by (rule wp_chain, rule wp_rel [OF assms(1)]) (auto intro: assms(3,4) begun_fine [OF _ assms(2)])

lemma wp_claim:
  assumes "begun f w" "\<And>s v. begun f v \<Longrightarrow> (s = STATUS_SUCCESS \<Longrightarrow> claimed_off f v) \<Longrightarrow> Q s v"
  shows "wp (v3d_claim E) Q w"
  unfolding v3d_claim_def
proof (rule wp_bindI, rule wp_modifyI, rule wp_bindI, rule wp_rel [OF fine_Snapshot], rule wp_bindI, rule wp_getsI, rule wp_ifI)
  let ?w = "w\<lparr>st := (st w)\<lparr>v3_Status := (v3_Status (st w))\<lparr>vs_Phase := 3\<rparr>\<rparr>\<rparr>"
  fix v :: "V3D_CONTEXT world" assume "v3_fine ?w v"
  moreover have "begun f ?w" using assms(1) by (simp add: begun_def)
  ultimately have v: "begun f v" by (rule begun_fine)
  show "wp (ret STATUS_NOT_SUPPORTED) Q v" by (intro wp_returnI assms(2)) (simp_all add: v)
  show "wp (v3d_chain (V3d_Hw (V3dIdle E)) (do {
       zero \<leftarrow> v3d_registers_zero E [(V3D_MMU_CTL, 1), (V3D_GMP_STATUS, V3D_GMP_BUSY), (V3D_GMP_CONFIG, 1)];
       if \<not> zero then ret STATUS_DEVICE_BUSY
       else do {
         modify (\<lambda>c. c\<lparr>v3_Claimed := True\<rparr>);
         v3_phase 4;
         ret STATUS_SUCCESS
       }
     })) Q v"
  proof (rule wp_chain_fine [OF fine_Hw v], rule quietly_hardware(3), rule wp_bindI, rule wp_registers_zero, rule wp_ifI)
    fix u a :: "V3D_CONTEXT world" and zero assume "begun f u" "v3_fine u a" and zero: "zero \<Longrightarrow> mmu_off (trace a)"
    then have a: "begun f a" by (simp add: begun_fine)
    show "wp (ret STATUS_DEVICE_BUSY) Q a" by (intro wp_returnI assms(2)) (simp_all add: a)
    show "wp (do { modify (\<lambda>c. c\<lparr>v3_Claimed := True\<rparr>); v3_phase 4; ret STATUS_SUCCESS }) Q a" if "\<not> \<not> zero"
      by (intro wp_bindI wp_modifyI wp_returnI assms(2)) (use a zero that in \<open>simp_all add: begun_def claimed_off_def\<close>)
  qed (rule assms(2); simp)
qed

text \<open>The buffers of a session are allocated while the translation is off.\<close>

lemma claimed_set:
  assumes "claimed_off f w" "same_else w v" "v3_core (st v) = v3_core (v3d_set_buffer (VFixed m) (\<lambda>_. b) (st w)) \<or>
    v3_core (st v) = v3_core ((v3d_set_buffer (VFixed m) (\<lambda>_. b) (st w))\<lparr>v3_Entries := e\<rparr>)"
  shows "claimed_off f v" "v3_Fixed (st v) = (v3_Fixed (st w))(m := b)"
  using assms by (auto simp: claimed_off_def begun_def same_else_def v3_core_def)

definition tabled :: "V3D_CONTEXT world \<Rightarrow> bool" where
  "tabled w \<longleftrightarrow> vb_Cpu (v3_Fixed (st w) MTable) \<noteq> 0 \<and> table_written (v3_Entries (st w)) (trace w)"

lemma wp_alloc_fixed:
  assumes "claimed_off f w"
    and "\<And>s v. claimed_off f v \<Longrightarrow> (m \<noteq> MTable \<Longrightarrow> tabled w \<Longrightarrow> tabled v) \<Longrightarrow>
      (s = STATUS_SUCCESS \<Longrightarrow> m = MTable \<Longrightarrow> n = V3D_TABLE_BYTES \<Longrightarrow> tabled v) \<Longrightarrow> Q s v"
  shows "wp (V3d_Allocate E (VFixed m) n) Q w"
proof (rule wp_AllocateBuffer)
  show "in_buffers (VFixed m)" by (simp add: in_buffers_def)
  show "length (v3_Objects (st w)) = 256" "detached (trace w)" using assms(1) by (simp_all add: claimed_off_def begun_def detached_def)
  fix s b v assume keep: "VFixed m \<noteq> VFixed MTable \<Longrightarrow> same_table w v"
    and new: "s = STATUS_SUCCESS \<Longrightarrow> VFixed m = VFixed MTable \<Longrightarrow> n = V3D_TABLE_BYTES \<Longrightarrow> table_written (\<lambda>_. 0) (trace v)"
    and *: "same_else w v" "s = STATUS_SUCCESS \<Longrightarrow> dma_ok b n \<and> v3_core (st v) = v3_core (if VFixed m = VFixed MTable
        then (v3d_set_buffer (VFixed m) (\<lambda>_. b) (st w))\<lparr>v3_Entries := (\<lambda>_. 0)\<rparr> else v3d_set_buffer (VFixed m) (\<lambda>_. b) (st w))"
    "s \<noteq> STATUS_SUCCESS \<Longrightarrow> vb_Cpu b = 0 \<and> v3_core (st v) = v3_core (v3d_set_buffer (VFixed m) (\<lambda>_. b) (st w))"
  have "v3_core (st v) = v3_core (v3d_set_buffer (VFixed m) (\<lambda>_. b) (st w)) \<or>
    v3_core (st v) = v3_core ((v3d_set_buffer (VFixed m) (\<lambda>_. b) (st w))\<lparr>v3_Entries := \<lambda>_. 0\<rparr>)"
    using *(2,3) by (cases "s = STATUS_SUCCESS"; cases "m = MTable") simp_all
  note c = claimed_set [OF assms(1) *(1) this]
  show "Q s v"
  proof (rule assms(2))
    show "tabled v" if "m \<noteq> MTable" "tabled w"
    proof -
      have "v3_Entries (st v) = v3_Entries (st w)" using *(2,3) that(1) by (cases "s = STATUS_SUCCESS") (simp_all add: v3_core_def)
      then show ?thesis using that c(2) keep same_table_written by (auto simp: tabled_def)
    qed
    show "tabled v" if "s = STATUS_SUCCESS" "m = MTable" "n = V3D_TABLE_BYTES"
      using *(2) that new c(2) by (simp add: tabled_def dma_ok_def v3_core_def)
  qed (rule c(1))
qed

lemma wp_alloc_list:
  assumes "claimed_off f w" "tabled w" "MTable \<notin> fst ` set ms"
    and "\<And>s v. claimed_off f v \<Longrightarrow> tabled v \<Longrightarrow> Q s v"
  shows "wp (v3d_all (map (\<lambda>(m, n). V3d_Allocate E (VFixed m) n) ms)) Q w"
  using assms(1-3)
proof (induction ms arbitrary: w)
  case Nil
  then show ?case by (simp add: wp_simps assms(4))
next
  case (Cons mn ms)
  obtain m n where mn: "mn = (m, n)" by (cases mn)
  have "m \<noteq> MTable" using Cons.prems(3) by (auto simp: mn)
  show ?case
    unfolding mn list.map v3d_all.simps case_prod_conv
  proof (rule wp_chain, rule wp_alloc_fixed [OF Cons.prems(1)])
    fix s v assume v: "claimed_off f v" "m \<noteq> MTable \<Longrightarrow> tabled w \<Longrightarrow> tabled v"
    then have t: "tabled v" using Cons.prems(2) \<open>m \<noteq> MTable\<close> by simp
    then show "if s = STATUS_SUCCESS then wp (v3d_all (map (\<lambda>(m, n). V3d_Allocate E (VFixed m) n) ms)) Q v else Q s v"
      using v(1) Cons.prems(3) by (auto intro!: Cons.IH assms(4))
  qed
qed

lemma wp_allocations:
  assumes "claimed_off f w"
    and "\<And>s v. claimed_off f v \<Longrightarrow> (s = STATUS_SUCCESS \<Longrightarrow> tabled v) \<Longrightarrow> Q s v"
  shows "wp (v3d_allocations E) Q w"
  unfolding v3d_allocations_def list.map(2) [of _ "(MTable, _)"] v3d_all.simps case_prod_conv
proof (rule wp_chain, rule wp_alloc_fixed [OF assms(1)])
  fix s v assume v: "claimed_off f v" "s = STATUS_SUCCESS \<Longrightarrow> MTable = MTable \<Longrightarrow> V3D_TABLE_BYTES = V3D_TABLE_BYTES \<Longrightarrow> tabled v"
  have t: "tabled v" if "s = STATUS_SUCCESS" using v(2) that by simp
  let ?rest = "[(MTrap, V3D_PAGE), (MSource, V3D_DATA_BYTES),
       (MDestination, V3D_DATA_BYTES), (MCode, V3D_PAGE), (MUniform, V3D_PAGE), (MTile, V3D_TILE_BYTES), (MTileState, V3D_PAGE)]"
  have "wp (v3d_all (map (\<lambda>(m, n). V3d_Allocate E (VFixed m) n) ?rest)) Q v" if s: "s = STATUS_SUCCESS"
    by (rule wp_alloc_list [OF v(1) t [OF s]]) (auto intro: assms(2))
  then show "if s = STATUS_SUCCESS then wp (v3d_all (map (\<lambda>(m, n). V3d_Allocate E (VFixed m) n) ?rest)) Q v else Q s v"
    using v(1) by (auto intro!: assms(2))
qed

definition v3_safe :: "v3d_kernel \<Rightarrow> V3D_CONTEXT world \<Rightarrow> bool" where
  "v3_safe K w \<longleftrightarrow> frees_safe (trace w) \<and> v3_good K (st w) (trace w)"

lemma safe_inv: "v3_safe K w \<Longrightarrow> v3_inv K w"
  by (simp add: v3_safe_def v3_inv_def)

lemma safe_fine: "v3_fine w v \<Longrightarrow> v3_safe K w \<Longrightarrow> v3_safe K v"
  using fine_frees [of w v] good_fine [of w v K] by (simp add: v3_safe_def)

lemma safe_no_table: "v3_rel no_table w v \<Longrightarrow> v3_safe K w \<Longrightarrow> v3_safe K v"
  using no_table_frees [of w v] no_table_flushed [of w v] rel_written [of w v] good_core [of "st v" "st w" K "trace v"] by (auto simp: v3_safe_def v3_good_def v3_rel_def)

definition in_session :: "v3d_kernel \<Rightarrow> V3D_CONTEXT world \<Rightarrow> bool" where
  "in_session K w \<longleftrightarrow> v3_safe K w \<and> v3_Claimed (st w) \<and> \<not> v3_MemorySession (st w)"

lemma fixed_entries_small: "\<forall>p\<in>set (v3d_fixed_entries c). fst p < 1048576"
  by (auto simp: v3d_fixed_entries_def Let_def)

lemma wp_place:
  assumes "claimed_off f w" "tabled w" "\<And>v. claimed_off f v \<Longrightarrow> tabled v \<Longrightarrow> Q () v"
  shows "wp v3d_place_buffers Q w"
  unfolding v3d_place_buffers_def split_def
  by (intro wp_bindI wp_modifyI wp_getsI wp_stores assms(3))
    (use assms(1,2) in \<open>auto simp: claimed_off_def begun_def tabled_def fixed_entries_small\<close>)

lemma in_session_I:
  assumes "claimed_off f w" "f \<noteq> 0" "v3_rel no_table w v" "flush_state (trace v) = 4" "tabled w"
  shows "in_session K v"
  using assms no_table_frees [OF assms(3)] rel_written [OF assms(3)]
  by (simp add: in_session_def v3_safe_def v3_good_def claimed_off_def begun_def tabled_def v3_rel_def v3_core_def)

lemma wp_begin_steps:
  assumes "begun f w" "f \<noteq> 0"
    and "\<And>s v. begun f v \<Longrightarrow> (s = STATUS_SUCCESS \<Longrightarrow> \<not> v3_BootFault (st v) \<Longrightarrow> in_session K v) \<Longrightarrow> Q s v"
  shows "wp (v3d_begin_steps E) Q w"
  unfolding v3d_begin_steps_def v3d_all.simps
proof (rule wp_bindI, rule wp_modifyI, rule wp_chain_fine [where f = f, OF fine_Graph], goal_cases)
  case 1
  then show ?case using assms(1) by (simp add: begun_def)
next
  case (2 v)
  let ?k = "v3d_chain (v3d_claim E) (v3d_chain (v3d_allocations E) (v3d_chain (do { v3d_place_buffers; V3d_Reset E }) (ret STATUS_SUCCESS)))"
  have k: "wp ?k Q u" if "begun f u" for u
  proof (rule wp_chain, rule wp_claim [OF that])
    fix s a assume a: "begun f a" "s = STATUS_SUCCESS \<Longrightarrow> claimed_off f a"
    have "wp (v3d_chain (v3d_allocations E) (v3d_chain (do { v3d_place_buffers; V3d_Reset E }) (ret STATUS_SUCCESS))) Q a" if s: "s = STATUS_SUCCESS"
    proof (rule wp_chain, rule wp_allocations [OF a(2) [OF s]])
      fix s b assume b: "claimed_off f b" "s = STATUS_SUCCESS \<Longrightarrow> tabled b"
      have "wp (v3d_chain (do { v3d_place_buffers; V3d_Reset E }) (ret STATUS_SUCCESS)) Q b" if s: "s = STATUS_SUCCESS"
      proof (rule wp_chain, rule wp_bindI, rule wp_place [OF b(1) b(2) [OF s]], rule wp_Reset)
        fix s c d assume c: "claimed_off f c" "tabled c" and d: "v3_rel no_table c d"
          "s = STATUS_SUCCESS \<Longrightarrow> \<not> v3_BootFault (st d) \<Longrightarrow> vb_Cpu (v3_Fixed (st c) MTable) \<noteq> 0 \<Longrightarrow> flush_state (trace d) = 4"
        have t: "vb_Cpu (v3_Fixed (st c) MTable) \<noteq> 0" using c(2) by (simp add: tabled_def)
        have g: "begun f d" using c(1) d(1) no_table_frees [OF d(1)] by (simp add: begun_def claimed_off_def v3_rel_def v3_core_def)
        have "in_session K d" if "s = STATUS_SUCCESS" "\<not> v3_BootFault (st d)"
          by (rule in_session_I [OF c(1) assms(2) d(1) d(2) [OF that t] c(2)])
        then show "if s = STATUS_SUCCESS then wp (ret STATUS_SUCCESS) Q d else Q s d"
          using g by (auto intro!: wp_returnI assms(3))
      qed
      then show "if s = STATUS_SUCCESS then wp (v3d_chain (do { v3d_place_buffers; V3d_Reset E }) (ret STATUS_SUCCESS)) Q b else Q s b"
        using b(1) by (auto intro!: assms(3) simp: claimed_off_def)
    qed
    then show "if s = STATUS_SUCCESS then wp (v3d_chain (v3d_allocations E) (v3d_chain (do { v3d_place_buffers; V3d_Reset E }) (ret STATUS_SUCCESS))) Q a else Q s a"
      using a(1) by (auto intro!: assms(3))
  qed
  show ?case
    by (rule wp_chain_fine [OF fine_open_providers 2], rule wp_chain_fine [where f = f, OF fine_leases], assumption, rule wp_chain_fine [where f = f, OF fine_wake], assumption, rule k)
      (auto intro: assms(3))
qed (auto intro: assms(3))

lemma wp_Begin:
  assumes "v3_safe K w" "file' \<noteq> 0"
    and "\<And>s v. v3_inv K v \<Longrightarrow> (s = STATUS_SUCCESS \<Longrightarrow> \<not> v3_BootFault (st v) \<Longrightarrow> in_session K v) \<Longrightarrow> Q s v"
  shows "wp (V3d_Begin E file') Q w"
  unfolding V3d_Begin_def
proof (rule wp_bindI, rule wp_getsI, rule wp_ifI, rule wp_returnI, rule assms(3), rule safe_inv [OF assms(1)], simp, rule wp_ifI, rule wp_returnI, rule assms(3),
    rule safe_inv [OF assms(1)], simp, rule wp_bindI, rule wp_modifyI, rule wp_bindI, rule wp_kernel_doI, rule wp_bindI)
  fix x
  let ?v = "w\<lparr>st := (st w)\<lparr>v3_Owner := file'\<rparr>\<rparr>"
  let ?w = "?v\<lparr>trace := Call ''WdfDeviceSetStaticStopRemove'' [0] x # trace ?v\<rparr>"
  assume "\<not> v3_BootFault (id (st w))" "\<not> v3_Owner (id (st w)) \<noteq> 0"
  then have w: "begun file' ?w" using assms(1)
    by (auto simp: begun_def v3_safe_def v3_good_def is_free_def memory_ok_def split: if_splits)
  show "wp (v3d_begin_steps E) (\<lambda>s v. wp (if s = STATUS_SUCCESS then do { v3_phase 5; V3d_Snapshot E; ret STATUS_SUCCESS }
       else do {
         v3_stats (\<lambda>x. x\<lparr>vs_LastStatus := s\<rparr>);
         fault \<leftarrow> gets v3_BootFault;
         if fault then ret s
         else do { clean \<leftarrow> V3d_End E; ret (if clean \<noteq> STATUS_SUCCESS then clean else s) }
       }) Q v) ?w"
  proof (rule wp_begin_steps [OF w assms(2)], rule wp_ifI)
    fix s v assume v: "begun file' v" "s = STATUS_SUCCESS \<Longrightarrow> \<not> v3_BootFault (st v) \<Longrightarrow> in_session K v"
    have frees: "frees_safe (trace v)" using v(1) by (simp add: begun_def)
    let ?v = "v\<lparr>st := (st v)\<lparr>v3_Status := (v3_Status (st v))\<lparr>vs_Phase := 5\<rparr>\<rparr>\<rparr>"
    show "wp (do { v3_phase 5; V3d_Snapshot E; ret STATUS_SUCCESS }) Q v" if s: "s = STATUS_SUCCESS"
    proof (rule wp_bindI, rule wp_modifyI, rule wp_bindI, rule wp_rel [OF fine_Snapshot], rule wp_returnI, rule assms(3))
      fix u assume "v3_fine ?v u"
      then have f: "v3_fine v u" by (simp add: v3_rel_def trace_ext_def)
      show "v3_inv K u"
      proof (cases "v3_BootFault (st v)")
        case True
        then show ?thesis using f fine_frees [OF f] frees by (intro inv_fault) (simp_all add: v3_rel_def)
      next
        case False
        then show ?thesis using v(2) [OF s False] f by (auto simp: in_session_def intro: safe_inv safe_fine)
      qed
      assume "\<not> v3_BootFault (st u)"
      with f have "in_session K v" using v(2) [OF s] by (auto simp: v3_rel_def)
      then show "in_session K u" using f by (auto simp: in_session_def v3_rel_def v3_core_def intro: safe_fine)
    qed
    let ?v = "v\<lparr>st := (st v)\<lparr>v3_Status := (v3_Status (st v))\<lparr>vs_LastStatus := s\<rparr>\<rparr>\<rparr>"
    show "wp (do { v3_stats (\<lambda>x. x\<lparr>vs_LastStatus := s\<rparr>); fault \<leftarrow> gets v3_BootFault;
         if fault then ret s
         else do { clean \<leftarrow> V3d_End E; ret (if clean \<noteq> STATUS_SUCCESS then clean else s) } }) Q v" if s: "s \<noteq> STATUS_SUCCESS"
    proof (rule wp_bindI, rule wp_modifyI, rule wp_bindI, rule wp_getsI, rule wp_ifI, rule wp_returnI, rule assms(3))
      show "v3_inv K ?v" if "v3_BootFault (st ?v)" using that frees by (intro inv_fault) simp_all
      have "endable ?v" using begun_endable [OF v(1)] by (simp add: endable_def all_free_def)
      then show "wp (do { clean \<leftarrow> V3d_End E; ret (if clean \<noteq> STATUS_SUCCESS then clean else s) }) Q ?v"
        by (intro wp_bindI wp_mono [OF wp_End] wp_returnI assms(3)) (use s in \<open>auto split: if_splits\<close>)
    qed (use s in simp)
  qed
qed

lemma if_both: "(P \<Longrightarrow> A) \<Longrightarrow> (\<not> P \<Longrightarrow> B) \<Longrightarrow> if P then A else B"
  by simp

lemma empty_memory:
  assumes "in_session K v" "\<forall>n<1048576. T n = 0" "flush_state t = 4" "table_written T t"
  shows "v3_good K ((st v)\<lparr>v3_Entries := T, v3_MemorySession := True\<rparr>) t"
proof -
  have e: "\<forall>o'\<in>set (v3_Objects (st v)). object_empty o'" and g: "length (v3_Objects (st v)) = 256" "v3_Claimed (st v)"
    "vb_Cpu (v3_Fixed (st v) MTable) \<noteq> 0" "v3_Owner (st v) \<noteq> 0"
    using assms(1) by (simp_all add: in_session_def v3_safe_def v3_good_def)
  have h: "vo_Handle (v3_Objects (st v) ! i) = 0" if "i < 256" for i using e g(1) that by (auto simp: object_empty_def)
  have "entries_ok K (v3_Objects (st v)) T" using e assms(2) by (auto simp: entries_ok_def object_empty_def)
  then show ?thesis using e g h assms(3,4) by (auto simp: v3_good_def memory_ok_def object_empty_def)
qed

lemma wp_MemoryBegin:
  assumes "v3_safe K w" "file' \<noteq> 0"
  shows "wp (V3d_MemoryBegin E file') (\<lambda>_. v3_inv K) w"
  unfolding V3d_MemoryBegin_def
proof (rule wp_chain, rule wp_Begin [OF assms])
  let ?M = "\<lambda>v. frees_safe (trace v) \<and> (v3_BootFault (st v) \<or> in_session K v)"
  let ?k = "do {
       forM [0..<unat V3D_TABLE_BYTES div 4] (\<lambda>i. v3d_store_entry i 0);
       io_barrier;
       v3d_require E (V3d_Hw (V3dMmuFlush E)) (do {
         modify (\<lambda>c. c\<lparr>v3_MemorySession := True\<rparr>);
         ret STATUS_SUCCESS
       })
     }"
  fix s v assume v: "v3_inv K v" "s = STATUS_SUCCESS \<Longrightarrow> \<not> v3_BootFault (st v) \<Longrightarrow> in_session K v"
  have keep: "?M u" if "v3_fine a u" "?M a" for a u
    using that fine_frees [OF that(1)] safe_fine [OF that(1)] by (auto simp: in_session_def v3_rel_def v3_core_def)
  have k: "wp ?k (\<lambda>_. v3_inv K) u" if u: "?M u" for u
  proof (rule wp_bindI, rule wp_store_range [where a = 0, unfolded add_0], rule wp_bindI, rule wp_emitI, rule wp_require_any, rule wp_flush)
    fix a b :: "V3D_CONTEXT world" and s :: NTSTATUS
    let ?a = "a\<lparr>trace := Bar # trace a\<rparr>"
    let ?T = "\<lambda>i. if 0 \<le> i \<and> i < unat V3D_TABLE_BYTES div 4 then 0 else v3_Entries (st u) i"
    assume a: "st a = (st u)\<lparr>v3_Entries := ?T\<rparr>" "frees_safe (trace a) = frees_safe (trace u)"
      and t: "table_written (v3_Entries (st u)) (trace u) \<Longrightarrow> unat V3D_TABLE_BYTES div 4 \<le> 1048576 \<Longrightarrow> table_written (v3_Entries (st a)) (trace a)"
      and b: "v3_rel no_table ?a b" "s = STATUS_SUCCESS \<Longrightarrow> flush_state (trace b) = 4"
    have frees: "frees_safe (trace b)" using no_table_frees [OF b(1)] a(2) u by (simp add: is_free_def)
    have "v3_inv K (b\<lparr>st := (st b)\<lparr>v3_MemorySession := True\<rparr>\<rparr>)" if s: "s = STATUS_SUCCESS"
    proof (cases "v3_BootFault (st u)")
      case True
      then show ?thesis using frees b(1) a(1) by (intro inv_fault) (simp_all add: v3_rel_def)
    next
      case False
      then have "in_session K u" using u by simp
      then have "table_written (v3_Entries (st u)) (trace u)" by (simp add: in_session_def v3_safe_def v3_good_def)
      then have "table_written ?T (trace ?a)" using t a(1) by (simp add: table_written_def)
      then have tb: "table_written ?T (trace b)" by (rule rel_written [OF b(1)])
      have g: "v3_good K ((st u)\<lparr>v3_Entries := ?T, v3_MemorySession := True\<rparr>) (trace b)"
        by (rule empty_memory [OF \<open>in_session K u\<close> _ _ tb]) (simp_all add: b(2) [OF s])
      have e: "v3_core ((st b)\<lparr>v3_MemorySession := True\<rparr>) = v3_core ((st u)\<lparr>v3_Entries := ?T, v3_MemorySession := True\<rparr>)"
        using b(1) a(1) by (simp add: v3_rel_def v3_core_def)
      show ?thesis unfolding v3_inv_def using frees iffD2 [OF good_core [OF e] g] by simp
    qed
    moreover have "v3_inv K c" if "v3_fine b c" "v3_BootFault (st c)" for c
      using frees fine_frees [OF that(1)] that(2) by (intro inv_fault) simp_all
    ultimately show "if s = STATUS_SUCCESS then wp (do { modify (\<lambda>c. c\<lparr>v3_MemorySession := True\<rparr>); ret STATUS_SUCCESS }) (\<lambda>_. v3_inv K) b
        else \<forall>s u. v3_fine b u \<longrightarrow> v3_BootFault (st u) \<longrightarrow> v3_inv K u"
      by (auto intro!: wp_bindI wp_modifyI wp_returnI)
  qed
  have "wp (v3d_require E (V3d_Hw (V3dDrain E)) ?k) (\<lambda>_. v3_inv K) v" if s: "s = STATUS_SUCCESS"
  proof -
    have m: "?M v" using v s by (auto simp: v3_inv_def)
    show ?thesis
    proof (rule wp_require, intro fine_Hw harmless_hardware)
      fix u assume "v3_fine v u"
      then show "wp ?k (\<lambda>_. v3_inv K) u" by (intro k) (erule keep [OF _ m])
    next
      fix s u assume "v3_fine v u" "v3_BootFault (st u)"
      then show "v3_inv K u" using keep [of v u] m by (intro inv_fault) simp_all
    qed
  qed
  then show "if s = STATUS_SUCCESS then wp (v3d_require E (V3d_Hw (V3dDrain E)) ?k) (\<lambda>_. v3_inv K) v else v3_inv K v"
    by (rule if_both) (assumption, rule v(1))
qed

end
