(* ===== verification/V3d_Safety.thy ===== *)
theory V3d_Safety
  imports V3d_Invariant
begin

text \<open>
  The operations on objects keep the invariant, and with them every sequence of callbacks and requests. The properties: the table
  refines the list of live objects, memory is given back only when the GPU cannot reach it, a fault pins all memory, transfers stay inside of
  objects, and the command list that clears a tile fits its buffer.
\<close>

unbundle bit_operations_syntax

section \<open>Placement\<close>

declare placement_address.simps [simp del]

lemma placement_spec:
  "placement_address others extent a = Some r \<Longrightarrow> a \<le> r \<and> r + extent + 4096 \<le> 0xf0000000 \<and> (\<forall>x\<in>set others. \<not> placement_overlap r extent x)"
proof (induction others extent a rule: placement_address.induct)
  case (1 others extent a)
  show ?case
  proof (cases "find (placement_overlap a extent) others")
    case None
    from "1.prems" have "r = a" "\<not> a + extent + 4096 > 0xf0000000"
      by (subst (asm) placement_address.simps, simp only: None option.case, simp split: if_splits)+
    then show ?thesis using None by (auto simp: find_None_iff)
  next
    case (Some x)
    then have "placement_overlap a extent x" by (auto simp: find_Some_iff)
    then have le: "a \<le> fst x + snd x + 2 * 4096" by (auto simp: placement_overlap_def)
    from Some "1.prems" have "placement_address others extent (fst x + snd x + 2 * 4096) = Some r" "\<not> a + extent + 4096 > 0xf0000000"
      by (subst (asm) placement_address.simps, auto split: if_splits)+
    with "1.IH" [OF this(2) Some] le show ?thesis by auto
  qed
qed

lemma placement_aligned:
  "placement_address others extent a = Some r \<Longrightarrow> 4096 dvd a \<Longrightarrow> \<forall>x\<in>set others. 4096 dvd fst x \<and> 4096 dvd snd x \<Longrightarrow> 4096 dvd r"
proof (induction others extent a rule: placement_address.induct)
  case (1 others extent a)
  show ?case
  proof (cases "find (placement_overlap a extent) others")
    case None
    then show ?thesis using "1.prems" by (subst (asm) placement_address.simps) (auto split: if_splits)
  next
    case (Some x)
    then have "x \<in> set others" by (auto simp: find_Some_iff)
    then have d: "4096 dvd fst x + snd x + 2 * 4096" using "1.prems"(3) by (simp add: dvd_add)
    from Some "1.prems"(1) have "placement_address others extent (fst x + snd x + 2 * 4096) = Some r" "\<not> a + extent + 4096 > 0xf0000000"
      by (subst (asm) placement_address.simps, auto split: if_splits)+
    with "1.IH" [OF this(2) Some] d "1.prems"(3) show ?thesis by auto
  qed
qed

lemma pages_apart: "object_ok K a \<Longrightarrow> object_ok K b \<Longrightarrow> objects_apart a b \<Longrightarrow> object_pages a \<inter> object_pages b = {}"
proof -
  have *: "{unat A div 4096 ..< unat A div 4096 + unat B div 4096} \<inter> {unat C div 4096 ..< unat C div 4096 + unat D div 4096} = {}"
    if "unat A mod 4096 = 0" "unat B mod 4096 = 0" "unat A + unat B + 8192 \<le> unat C" for A B C D :: u32
  proof -
    from that(1,2) have eq: "unat A = 4096 * (unat A div 4096)" "unat B = 4096 * (unat B div 4096)" by (simp_all add: mult_div_mod_eq [of 4096, symmetric] minus_mod_eq_mult_div [symmetric])
    have "unat C = 4096 * (unat C div 4096) + unat C mod 4096" "unat C mod 4096 < 4096" by simp_all
    with eq that(3) have "unat A div 4096 + unat B div 4096 \<le> unat C div 4096" by linarith
    then show ?thesis by auto
  qed
  assume "object_ok K a" "object_ok K b" "objects_apart a b"
  then show ?thesis
    using * [of "vo_Address a" "vo_Bytes a" "vo_Address b" "vo_Bytes b"] * [of "vo_Address b" "vo_Bytes b" "vo_Address a" "vo_Bytes a"]
    by (auto simp: object_ok_def objects_apart_def object_pages_def)
qed

lemma placement_place:
  assumes p: "V3d_ObjectPlacement c extent = Some (i, address)" and m: "memory_ok K c" and l: "length (v3_Objects c) = 256"
  shows "i < 256" "vo_Handle (v3_Objects c ! i) = 0" "v3_ObjectSerial c \<noteq> 0xffffffff" "unat address mod 4096 = 0" "0x101000 \<le> unat address"
    "unat address + unat extent + 4096 \<le> 0xf0000000"
    "\<And>o'. o' \<in> set (v3_Objects c) \<Longrightarrow> vo_Handle o' \<noteq> 0 \<Longrightarrow> unat (vo_Address o') + unat (vo_Bytes o') + 8192 \<le> unat address \<or>
       unat address + unat extent + 8192 \<le> unat (vo_Address o')"
proof -
  from p obtain r where find: "find (\<lambda>i. vo_Handle (v3_Objects c ! i) = 0) [0..<256] = Some i" and s: "v3_ObjectSerial c \<noteq> 0xffffffff"
    and r: "placement_address (v3d_live c) (unat extent) 0x101000 = Some r" and a: "address = of_nat r"
    by (auto simp: V3d_ObjectPlacement_def split: if_splits option.splits)
  show "i < 256" "vo_Handle (v3_Objects c ! i) = 0" using find by (auto simp: find_Some_iff)
  show "v3_ObjectSerial c \<noteq> 0xffffffff" by (rule s)
  have spec: "0x101000 \<le> r" "r + unat extent + 4096 \<le> 0xf0000000" "\<And>x. x \<in> set (v3d_live c) \<Longrightarrow> \<not> placement_overlap r (unat extent) x"
    using placement_spec [OF r] by auto
  have u: "unat address = r" unfolding a using spec(2) by (intro unat_of_nat_small) simp
  have live: "object_ok K o'" if "o' \<in> set (v3_Objects c)" "vo_Handle o' \<noteq> 0" for o'
    using m that by (auto simp: memory_ok_def)
  have "\<forall>x\<in>set (v3d_live c). 4096 dvd fst x \<and> 4096 dvd snd x"
    using live by (auto simp: v3d_live_def object_ok_def dvd_eq_mod_eq_0)
  then have "4096 dvd r" by (intro placement_aligned [OF r]) simp_all
  then show "unat address mod 4096 = 0" by (simp add: u dvd_eq_mod_eq_0)
  show "0x101000 \<le> unat address" "unat address + unat extent + 4096 \<le> 0xf0000000" using spec by (simp_all add: u)
  fix o' assume o': "o' \<in> set (v3_Objects c)" "vo_Handle o' \<noteq> 0"
  then have "(unat (vo_Address o'), unat (vo_Bytes o')) \<in> set (v3d_live c)" by (auto simp: v3d_live_def)
  then have "\<not> placement_overlap r (unat extent) (unat (vo_Address o'), unat (vo_Bytes o'))" by (rule spec(3))
  then show "unat (vo_Address o') + unat (vo_Bytes o') + 8192 \<le> unat address \<or> unat address + unat extent + 8192 \<le> unat (vo_Address o')"
    using live [OF o'] spec(1) by (auto simp: placement_overlap_def u object_ok_def)
qed

lemma next_serial:
  fixes s :: u32
  assumes "s \<noteq> 0xffffffff"
  shows "s + 1 \<noteq> 0" "h \<le> s \<Longrightarrow> h \<noteq> s + 1" "h \<le> s \<Longrightarrow> h \<le> s + 1"
proof -
  have "unat s \<noteq> 4294967295"
  proof
    assume "unat s = 4294967295"
    then have "unat s = unat (0xffffffff :: u32)" by simp
    with assms show False by (simp only: word_unat_eq_iff)
  qed
  then have "unat s < 4294967295" using unsigned_less [of s, where ?'a = nat] by simp
  then have u: "unat (s + 1) = unat s + 1" by (subst unat_add_small) simp_all
  show "s + 1 \<noteq> 0" using u by auto
  show "h \<le> s \<Longrightarrow> h \<noteq> s + 1" "h \<le> s \<Longrightarrow> h \<le> s + 1" using u by (auto simp: word_le_nat_alt)
qed

text \<open>An object enters the memory, and one leaves it.\<close>

definition page_range :: "V3D_OBJECT \<Rightarrow> (nat \<Rightarrow> u32) \<Rightarrow> (nat \<Rightarrow> u32) \<Rightarrow> nat \<Rightarrow> u32" where
  "page_range o' h T = (\<lambda>n. if unat (vo_Address o') div 4096 \<le> n \<and> n < unat (vo_Address o') div 4096 + unat (vo_Bytes o') div 4096
     then h (n - unat (vo_Address o') div 4096) else T n)"

lemma page_range: "page_range o' h T n = (if n \<in> object_pages o' then h (n - unat (vo_Address o') div 4096) else T n)"
  by (auto simp: page_range_def object_pages_def)

lemma memory_put:
  assumes p: "V3d_ObjectPlacement c extent = Some (i, address)" and m: "memory_ok K c" and l: "length (v3_Objects c) = 256"
    and o': "object_ok K o'" "vo_Handle o' = v3_ObjectSerial c + 1" "vo_Address o' = address" "vo_Bytes o' = extent"
    and d: "v3_Objects d = (v3_Objects c)[i := o']" "v3_ObjectSerial d = v3_ObjectSerial c + 1"
      "v3_Entries d = page_range o' (\<lambda>k. V3dPte (v3d_page K o' k) (c_bool (vo_Flags o' \<noteq> 0))) (v3_Entries c)"
  shows "memory_ok K d"
proof -
  note pl = placement_place [OF p m l]
  have h: "vo_Handle o' \<noteq> 0" "\<And>h. h \<le> v3_ObjectSerial c \<Longrightarrow> h \<noteq> vo_Handle o' \<and> h \<le> v3_ObjectSerial c + 1"
    using next_serial [OF pl(3)] o'(2) by auto
  have nth: "v3_Objects d ! j = (if j = i then o' else v3_Objects c ! j)" if "j < 256" for j using d(1) l that by simp
  have len: "length (v3_Objects d) = 256" using d(1) l by simp
  have inset: "v3_Objects c ! j \<in> set (v3_Objects c)" if "j < 256" for j using l that by simp
  have old: "object_ok K (v3_Objects c ! j)" "vo_Handle (v3_Objects c ! j) \<le> v3_ObjectSerial c" "objects_apart (v3_Objects c ! j) o'" "objects_apart o' (v3_Objects c ! j)"
    if j: "j < 256" "vo_Handle (v3_Objects c ! j) \<noteq> 0" for j
  proof -
    show "object_ok K (v3_Objects c ! j)" and h': "vo_Handle (v3_Objects c ! j) \<le> v3_ObjectSerial c"
      using m inset [OF j(1)] j(2) by (auto simp: memory_ok_def split: if_splits)
    show "objects_apart (v3_Objects c ! j) o'" "objects_apart o' (v3_Objects c ! j)"
      using pl(7) [OF inset [OF j(1)] j(2)] h(2) [OF h'] o'(3,4) by (auto simp: objects_apart_def)
  qed
  have empty: "object_empty (v3_Objects c ! j)" if "j < 256" "vo_Handle (v3_Objects c ! j) = 0" for j
    using m inset [OF that(1)] that(2) by (auto simp: memory_ok_def split: if_splits)
  have objs: "if vo_Handle x = 0 then object_empty x else object_ok K x \<and> vo_Handle x \<le> v3_ObjectSerial d" if "x \<in> set (v3_Objects d)" for x
  proof -
    from that len obtain j where j: "j < 256" "x = v3_Objects d ! j" by (auto simp: in_set_conv_nth)
    show ?thesis
    proof (cases "j = i")
      case True
      then show ?thesis using j nth [of j] h(1) o'(1,2) d(2) by simp
    next
      case False
      then have x: "x = v3_Objects c ! j" using j nth [of j] by simp
      show ?thesis unfolding x using old(1,2) [OF j(1)] empty [OF j(1)] h(2) d(2) by auto
    qed
  qed
  have pairs: "objects_apart (v3_Objects d ! a) (v3_Objects d ! b)"
    if "a < 256" "b < 256" "a \<noteq> b" "vo_Handle (v3_Objects d ! a) \<noteq> 0" "vo_Handle (v3_Objects d ! b) \<noteq> 0" for a b
    using m that nth [of a] nth [of b] old(3,4) [of a] old(3,4) [of b] by (cases "a = i"; cases "b = i") (auto simp: memory_ok_def)
  have "entries_ok K (v3_Objects d) (v3_Entries d)"
    unfolding entries_ok_def
  proof (intro allI impI conjI ballI)
    fix n x assume n: "n < 1048576" and x: "x \<in> set (v3_Objects d)" "vo_Handle x \<noteq> 0 \<and> n \<in> object_pages x"
    from x(1) len obtain j where j: "j < 256" "x = v3_Objects d ! j" by (auto simp: in_set_conv_nth)
    show "v3_Entries d n = V3dPte (v3d_page K x (n - unat (vo_Address x) div 4096)) (c_bool (vo_Flags x \<noteq> 0))"
    proof (cases "j = i")
      case True
      then show ?thesis using j nth [of j] x(2) d(3) by (simp add: page_range)
    next
      case False
      then have e: "x = v3_Objects c ! j" using j nth [of j] by simp
      with x(2) old(1,3) [OF j(1)] have "n \<notin> object_pages o'" using pages_apart [OF _ o'(1), of x] by auto
      then have "v3_Entries d n = v3_Entries c n" using d(3) by (simp add: page_range)
      then show ?thesis using m n x(2) inset [OF j(1)] e by (auto simp: memory_ok_def entries_ok_def)
    qed
  next
    fix n assume n: "n < 1048576" and no: "\<forall>x\<in>set (v3_Objects d). vo_Handle x \<noteq> 0 \<longrightarrow> n \<notin> object_pages x"
    have dm: "v3_Objects d ! j \<in> set (v3_Objects d)" if "j < 256" for j using len that by simp
    have "n \<notin> object_pages o'" using no dm [OF pl(1)] nth [OF pl(1)] h(1) by auto
    then have e: "v3_Entries d n = v3_Entries c n" using d(3) by (simp add: page_range)
    have "n \<notin> object_pages x" if x: "x \<in> set (v3_Objects c)" "vo_Handle x \<noteq> 0" for x
    proof -
      from x(1) l obtain j where j: "j < 256" "x = v3_Objects c ! j" by (auto simp: in_set_conv_nth)
      then have "j \<noteq> i" using x(2) pl(2) by auto
      then show ?thesis using no dm [OF j(1)] nth [OF j(1)] j(2) x(2) by auto
    qed
    then show "v3_Entries d n = 0" using m n e by (auto simp: memory_ok_def entries_ok_def)
  qed
  then show ?thesis using objs pairs by (auto simp: memory_ok_def)
qed

lemma memory_drop:
  assumes m: "memory_ok K c" and l: "length (v3_Objects c) = 256" and i: "i < 256" "vo_Handle (v3_Objects c ! i) \<noteq> 0"
    and d: "v3_Objects d = (v3_Objects c)[i := vo_zero]" "v3_ObjectSerial d = v3_ObjectSerial c"
      "v3_Entries d = page_range (v3_Objects c ! i) (\<lambda>_. 0) (v3_Entries c)"
  shows "memory_ok K d"
proof -
  let ?x = "v3_Objects c ! i"
  have nth: "v3_Objects d ! j = (if j = i then vo_zero else v3_Objects c ! j)" if "j < 256" for j using d(1) l that by simp
  have len: "length (v3_Objects d) = 256" using d(1) l by simp
  have z: "vo_Handle vo_zero = 0" by (simp add: vo_zero_def)
  have inset: "v3_Objects c ! j \<in> set (v3_Objects c)" if "j < 256" for j using l that by simp
  have live: "object_ok K (v3_Objects c ! j)" if "j < 256" "vo_Handle (v3_Objects c ! j) \<noteq> 0" for j
    using m inset [OF that(1)] that(2) by (auto simp: memory_ok_def split: if_splits)
  have apart: "object_pages (v3_Objects c ! j) \<inter> object_pages ?x = {}" if "j < 256" "vo_Handle (v3_Objects c ! j) \<noteq> 0" "j \<noteq> i" for j
    using m that i by (intro pages_apart [OF live live]) (auto simp: memory_ok_def)
  have objs: "if vo_Handle x = 0 then object_empty x else object_ok K x \<and> vo_Handle x \<le> v3_ObjectSerial d" if "x \<in> set (v3_Objects d)" for x
  proof -
    from that have "x = vo_zero \<or> x \<in> set (v3_Objects c)" unfolding d(1) by (auto dest: set_update_subset_insert [THEN subsetD])
    then show ?thesis using m empty_zero z d(2) by (auto simp: memory_ok_def)
  qed
  have pairs: "objects_apart (v3_Objects d ! a) (v3_Objects d ! b)"
    if "a < 256" "b < 256" "a \<noteq> b" "vo_Handle (v3_Objects d ! a) \<noteq> 0" "vo_Handle (v3_Objects d ! b) \<noteq> 0" for a b
    using m that nth [of a] nth [of b] z by (cases "a = i"; cases "b = i") (auto simp: memory_ok_def)
  have "entries_ok K (v3_Objects d) (v3_Entries d)"
    unfolding entries_ok_def
  proof (intro allI impI conjI ballI)
    fix n x assume n: "n < 1048576" and x: "x \<in> set (v3_Objects d)" "vo_Handle x \<noteq> 0 \<and> n \<in> object_pages x"
    from x(1) len obtain j where j: "j < 256" "x = v3_Objects d ! j" by (auto simp: in_set_conv_nth)
    with x(2) z nth [of j] have ne: "j \<noteq> i" by auto
    then have e: "x = v3_Objects c ! j" using j nth [of j] by simp
    have "n \<notin> object_pages ?x" using x(2) apart [OF j(1) _ ne] e by auto
    then have "v3_Entries d n = v3_Entries c n" using d(3) by (simp add: page_range)
    then show "v3_Entries d n = V3dPte (v3d_page K x (n - unat (vo_Address x) div 4096)) (c_bool (vo_Flags x \<noteq> 0))"
      using m n x(2) inset [OF j(1)] e by (auto simp: memory_ok_def entries_ok_def)
  next
    fix n assume n: "n < 1048576" and no: "\<forall>x\<in>set (v3_Objects d). vo_Handle x \<noteq> 0 \<longrightarrow> n \<notin> object_pages x"
    show "v3_Entries d n = 0"
    proof (cases "n \<in> object_pages ?x")
      case True
      then show ?thesis using d(3) by (simp add: page_range)
    next
      case False
      have "n \<notin> object_pages x" if x: "x \<in> set (v3_Objects c)" "vo_Handle x \<noteq> 0" for x
      proof -
        from x(1) l obtain j where j: "j < 256" "x = v3_Objects c ! j" by (auto simp: in_set_conv_nth)
        have dm: "v3_Objects d ! j \<in> set (v3_Objects d)" using len j(1) by simp
        show ?thesis using no dm nth [OF j(1)] j(2) x(2) False by (cases "j = i") auto
      qed
      then show ?thesis using m n d(3) False by (auto simp: page_range memory_ok_def entries_ok_def)
    qed
  qed
  then show ?thesis using objs pairs by (auto simp: memory_ok_def)
qed

section \<open>Words of pages\<close>

lemma unat_mult_small: "unat x * unat y < 2 ^ LENGTH('a) \<Longrightarrow> unat (x * y) = unat x * unat y"
  for x y :: "'a::len word"
  by (simp add: unat_word_ariths)

lemma page_low: "(x :: u64) AND 4095 = 0 \<longleftrightarrow> unat x mod 4096 = 0" "(y :: u32) AND 4095 = 0 \<longleftrightarrow> unat y mod 4096 = 0"
  using and_mask_eq_0 [of x 12] and_mask_eq_0 [of y 12] by (simp_all add: mask_eq_exp_minus_1)

lemma flags_le: "(x :: u32) AND NOT 1 = 0 \<Longrightarrow> x \<le> 1"
proof -
  assume "x AND NOT 1 = 0"
  moreover have "x = (x AND 1) OR (x AND NOT 1)" by (rule bit_word_eqI) (auto simp: bit_simps)
  ultimately have "x = x AND 1" by simp
  then show ?thesis by (metis word_and_le1)
qed

lemma buffer_page:
  assumes b: "dma_ok b extent" and e: "unat extent mod 4096 = 0" "unat extent < 0x80000000" and k: "k < unat extent div 4096"
  shows "(vb_Dma b + ucast V3D_PAGE + of_nat k * ucast V3D_PAGE) AND 4095 = 0" "vb_Dma b + ucast V3D_PAGE + of_nat k * ucast V3D_PAGE < 0x1000000000"
proof -
  let ?d = "unat (vb_Dma b)"
  have n: "unat (extent + 2 * V3D_PAGE) = unat extent + 8192" using e(2) by (subst unat_add_small) simp_all
  have "unat (0x1000000000 - ucast (extent + 2 * V3D_PAGE) :: u64) = 0x1000000000 - (unat extent + 8192)"
    using n e(2) by (subst unat_sub) (simp_all add: word_le_nat_alt unat_ucast_up)
  then have d: "?d + unat extent + 8192 \<le> 0x1000000000" "?d mod 4096 = 0"
    using b e(2) by (auto simp: dma_ok_def page_low word_le_nat_alt)
  have k4: "4096 * k + 4096 \<le> unat extent" using k e(1) by linarith
  have kk: "unat (of_nat k :: u64) = k" using k4 e(2) by (intro unat_of_nat_small) simp
  have m: "unat (of_nat k * ucast V3D_PAGE :: u64) = k * 4096"
    using k4 e(2) kk by (subst unat_mult_small) simp_all
  have p: "unat (vb_Dma b + ucast V3D_PAGE) = ?d + 4096" using d by (subst unat_add_small) simp_all
  have "unat (vb_Dma b + ucast V3D_PAGE + of_nat k * ucast V3D_PAGE) = ?d + 4096 + k * 4096"
    using d k4 by (subst unat_add_small) (simp_all add: p [simplified] m [simplified])
  then show "(vb_Dma b + ucast V3D_PAGE + of_nat k * ucast V3D_PAGE) AND 4095 = 0" "vb_Dma b + ucast V3D_PAGE + of_nat k * ucast V3D_PAGE < 0x1000000000"
    using d k4 by (simp_all add: page_low word_less_nat_alt mod_add_eq [symmetric])
qed

lemma imported_page: "(p :: u64) < 0x1000000 \<Longrightarrow> push_bit 12 p AND 4095 = 0 \<and> push_bit 12 p < 0x1000000000"
proof -
  assume p: "p < 0x1000000"
  then have "unat (push_bit 12 p) = unat p * 4096"
    by (simp add: push_bit_eq_mult word_less_nat_alt unat_mult_small)
  with p show ?thesis by (simp add: page_low word_less_nat_alt)
qed

section \<open>The operations on objects\<close>

definition in_memory :: "v3d_kernel \<Rightarrow> V3D_CONTEXT world \<Rightarrow> bool" where
  "in_memory K w \<longleftrightarrow> v3_safe K w \<and> v3_MemorySession (st w)"

lemma memory_fine: "v3_fine w v \<Longrightarrow> in_memory K w \<Longrightarrow> in_memory K v"
  using safe_fine [of w v K] by (simp add: in_memory_def v3_rel_def v3_core_def)

lemma memory_inv: "in_memory K w \<Longrightarrow> v3_inv K w"
  by (simp add: in_memory_def safe_inv)

lemma memory_facts:
  assumes "in_memory K w"
  shows "frees_safe (trace w)" "length (v3_Objects (st w)) = 256" "v3_Claimed (st w)" "flush_state (trace w) = 4" "memory_ok K (st w)"
    "vb_Cpu (v3_Fixed (st w) MTable) \<noteq> 0" "v3_Owner (st w) \<noteq> 0" "v3_MemorySession (st w)" "table_written (v3_Entries (st w)) (trace w)"
  using assms by (auto simp: in_memory_def v3_safe_def v3_good_def)

lemma good_memory:
  assumes "in_memory K w" "length (v3_Objects c) = 256" "v3_Claimed c" "v3_MemorySession c" "v3_Fixed c = v3_Fixed (st w)" "v3_Owner c = v3_Owner (st w)"
    "memory_ok K c" "flush_state t = 4" "table_written (v3_Entries c) t"
  shows "v3_good K c t"
  using assms memory_facts [OF assms(1)] by (simp add: v3_good_def)

lemma wp_settle:
  assumes "\<And>v. v3_fine w v \<Longrightarrow> wp k Q v" "\<And>s v. v3_fine w v \<Longrightarrow> v3_BootFault (st v) \<Longrightarrow> Q (f s) v"
  shows "wp (v3d_settle f E k) Q w"
  unfolding v3d_settle_def
  apply (rule wp_require, intro fine_Hw harmless_hardware)
   apply (rule wp_require, rule fine_Guards)
  by (blast intro: v3_rel.frame_trans assms)+

lemma core_entries: "v3_core c = v3_core d \<Longrightarrow> v3_Entries c = v3_Entries d"
  by (simp add: v3_core_def)

text \<open>Publishing an object makes good what its creation began.\<close>

lemma wp_publish_object:
  assumes "frees_safe (trace w)" "table_written (v3_Entries (st w)) (trace w)"
    "unat (vo_Address (v3_Objects (st w) ! i)) div 4096 + unat (vo_Bytes (v3_Objects (st w) ! i)) div 4096 \<le> 1048576"
    and "\<And>c t. flush_state t = 4 \<Longrightarrow> table_written (v3_Entries c) t \<Longrightarrow> v3_core c = v3_core ((st w)\<lparr>v3_Entries := page_range (v3_Objects (st w) ! i)
      (\<lambda>k. V3dPte (v3d_page K (v3_Objects (st w) ! i) k) (c_bool (vo_Flags (v3_Objects (st w) ! i) \<noteq> 0))) (v3_Entries (st w))\<rparr>) \<Longrightarrow> v3_good K c t"
  shows "wp (v3d_publish E K i) (\<lambda>_. v3_inv K) w"
  unfolding v3d_publish_def
proof (rule wp_bindI, rule wp_getsI, rule wp_bindI, rule wp_store_range, rule wp_bindI, rule wp_emitI, rule wp_require_any, rule wp_flush)
  let ?o = "v3_Objects (st w) ! i"
  let ?T = "\<lambda>n. if unat (vo_Address ?o) div 4096 \<le> n \<and> n < unat (vo_Address ?o) div 4096 + unat (vo_Bytes ?o) div 4096
    then V3dPte (v3d_page K ?o (n - unat (vo_Address ?o) div 4096)) (c_bool (vo_Flags ?o \<noteq> 0)) else v3_Entries (st w) n"
  have T: "?T = page_range ?o (\<lambda>k. V3dPte (v3d_page K ?o k) (c_bool (vo_Flags ?o \<noteq> 0))) (v3_Entries (st w))"
    by (rule ext) (simp add: page_range_def)
  fix a b :: "V3D_CONTEXT world" and s :: NTSTATUS
  let ?a = "a\<lparr>trace := Bar # trace a\<rparr>"
  assume a: "st a = (st w)\<lparr>v3_Entries := ?T\<rparr>" "frees_safe (trace a) = frees_safe (trace w)"
    and t: "table_written (v3_Entries (st w)) (trace w) \<Longrightarrow> unat (vo_Address ?o) div 4096 + unat (vo_Bytes ?o) div 4096 \<le> 1048576 \<Longrightarrow>
      table_written (v3_Entries (st a)) (trace a)"
    and b: "v3_rel no_table ?a b" "s = STATUS_SUCCESS \<Longrightarrow> flush_state (trace b) = 4"
  have "table_written (v3_Entries (st b)) (trace ?a)" using t assms(2,3) core_entries [of "st b" "st a"] b(1) by (simp add: table_written_def v3_rel_def)
  then have tb: "table_written (v3_Entries (st b)) (trace b)" by (rule rel_written [OF b(1)])
  have frees: "frees_safe (trace b)" using no_table_frees [OF b(1)] a(2) assms(1) by (simp add: is_free_def)
  have good: "v3_inv K b" if s: "s = STATUS_SUCCESS"
    unfolding v3_inv_def using frees assms(4) [OF b(2) [OF s] tb] b(1) a(1) by (simp add: v3_rel_def T [symmetric])
  have bad: "v3_inv K c" if "v3_fine b c" "v3_BootFault (st c)" for c
    using frees fine_frees [OF that(1)] that(2) by (intro inv_fault) simp_all
  show "if s = STATUS_SUCCESS then wp (ret (STATUS_SUCCESS, Some \<lparr>bq_Version = 1, bq_Handle = vo_Handle ?o, bq_Address = vo_Address ?o, bq_Bytes = vo_Bytes ?o,
      bq_Flags = vo_Flags ?o, bq_Reserved = 0\<rparr>)) (\<lambda>_. v3_inv K) b
    else \<forall>s u. v3_fine b u \<longrightarrow> v3_BootFault (st u) \<longrightarrow> v3_inv K u"
    by (rule if_both) (use good bad in \<open>auto intro: wp_returnI\<close>)
qed

text \<open>The description of an object in a slot that was free.\<close>

lemma put_object:
  assumes w: "in_memory K w" and p: "V3d_ObjectPlacement (st w) extent = Some (i, address)"
    and e: "unat extent mod 4096 = 0" "0 < unat extent" and x: "vo_Handle x = v3_ObjectSerial (st w) + 1" "vo_Address x = address" "vo_Bytes x = extent" "vo_Flags x \<le> 1"
    and pages: "\<And>k. k < unat extent div 4096 \<Longrightarrow> v3d_page K x k AND 4095 = 0 \<and> v3d_page K x k < 0x1000000000"
    and d: "v3_Objects d = (v3_Objects (st w))[i := x]" "v3_ObjectSerial d = v3_ObjectSerial (st w) + 1" "v3_Entries d = v3_Entries (st w)"
      "v3_Fixed d = v3_Fixed (st w)" "v3_Owner d = v3_Owner (st w)" "v3_Claimed d = v3_Claimed (st w)" "v3_MemorySession d = v3_MemorySession (st w)"
    and c: "flush_state t = 4" "table_written (v3_Entries c) t" "v3_core c = v3_core (d\<lparr>v3_Entries := page_range (v3_Objects d ! i)
      (\<lambda>k. V3dPte (v3d_page K (v3_Objects d ! i) k) (c_bool (vo_Flags (v3_Objects d ! i) \<noteq> 0))) (v3_Entries d)\<rparr>)"
  shows "v3_good K c t"
proof -
  note m = memory_facts [OF w]
  note pl = placement_place [OF p m(5) m(2)]
  have i: "v3_Objects d ! i = x" using d(1) m(2) pl(1) by simp
  have ok: "object_ok K x" unfolding object_ok_def using x pl(4-6) e pages by auto
  have "memory_ok K (d\<lparr>v3_Entries := page_range x (\<lambda>k. V3dPte (v3d_page K x k) (c_bool (vo_Flags x \<noteq> 0))) (v3_Entries (st w))\<rparr>)"
    by (rule memory_put [OF p m(5) m(2) ok x(1-3)]) (simp_all add: d)
  then have "v3_good K (d\<lparr>v3_Entries := page_range x (\<lambda>k. V3dPte (v3d_page K x k) (c_bool (vo_Flags x \<noteq> 0))) (v3_Entries (st w))\<rparr>) t"
    by (intro good_memory [OF w]) (use c(2) core_entries [OF c(3)] in \<open>simp_all add: d m c(1) i [unfolded d(1)]\<close>)
  then show ?thesis using good_core [OF c(3)] by (simp add: i d(3))
qed

text \<open>An object that is not there may change its buffer.\<close>

lemma memory_touch:
  assumes m: "memory_ok K c" "length (v3_Objects c) = 256" "object_empty (v3_Objects c ! i)" "object_empty x"
    and d: "v3_Objects d = (v3_Objects c)[i := x]" "v3_ObjectSerial d = v3_ObjectSerial c" "v3_Entries d = v3_Entries c"
  shows "memory_ok K d"
proof -
  have z: "vo_Handle x = 0" "vo_Handle (v3_Objects c ! i) = 0" using m(3,4) by (simp_all add: object_empty_def)
  have live: "y \<in> set (v3_Objects d) \<and> vo_Handle y \<noteq> 0 \<longleftrightarrow> y \<in> set (v3_Objects c) \<and> vo_Handle y \<noteq> 0" for y
  proof
    assume y: "y \<in> set (v3_Objects d) \<and> vo_Handle y \<noteq> 0"
    then have "y = x \<or> y \<in> set (v3_Objects c)" unfolding d(1) by (auto dest: set_update_subset_insert [THEN subsetD])
    then show "y \<in> set (v3_Objects c) \<and> vo_Handle y \<noteq> 0" using y z by auto
  next
    assume y: "y \<in> set (v3_Objects c) \<and> vo_Handle y \<noteq> 0"
    then obtain j where j: "j < length (v3_Objects c)" "y = v3_Objects c ! j" by (auto simp: in_set_conv_nth)
    have "j \<noteq> i" using y j(2) z by auto
    then have "y = v3_Objects d ! j" "j < length (v3_Objects d)" using j by (simp_all add: d(1))
    then show "y \<in> set (v3_Objects d) \<and> vo_Handle y \<noteq> 0" using y by simp
  qed
  have objs: "if vo_Handle y = 0 then object_empty y else object_ok K y \<and> vo_Handle y \<le> v3_ObjectSerial d" if "y \<in> set (v3_Objects d)" for y
  proof -
    from that have "y = x \<or> y \<in> set (v3_Objects c)" unfolding d(1) by (auto dest: set_update_subset_insert [THEN subsetD])
    then show ?thesis using m(1,4) z(1) d(2) by (auto simp: memory_ok_def)
  qed
  have pairs: "objects_apart (v3_Objects d ! a) (v3_Objects d ! b)"
    if "a < 256" "b < 256" "a \<noteq> b" "vo_Handle (v3_Objects d ! a) \<noteq> 0" "vo_Handle (v3_Objects d ! b) \<noteq> 0" for a b
    using m(1,2) that z by (cases "a = i"; cases "b = i") (auto simp: memory_ok_def d(1))
  have "entries_ok K (v3_Objects d) (v3_Entries d)"
    unfolding entries_ok_def
  proof (intro allI impI conjI ballI)
    fix n y assume "n < 1048576" "y \<in> set (v3_Objects d)" "vo_Handle y \<noteq> 0 \<and> n \<in> object_pages y"
    then show "v3_Entries d n = V3dPte (v3d_page K y (n - unat (vo_Address y) div 4096)) (c_bool (vo_Flags y \<noteq> 0))"
      using m(1) live [of y] d(3) by (auto simp: memory_ok_def entries_ok_def)
  next
    fix n assume n: "n < 1048576" and no: "\<forall>y\<in>set (v3_Objects d). vo_Handle y \<noteq> 0 \<longrightarrow> n \<notin> object_pages y"
    have "\<forall>y\<in>set (v3_Objects c). vo_Handle y \<noteq> 0 \<longrightarrow> n \<notin> object_pages y" using no live by blast
    then show "v3_Entries d n = 0" using m(1) n d(3) by (auto simp: memory_ok_def entries_ok_def)
  qed
  then show ?thesis using objs pairs by (auto simp: memory_ok_def)
qed

lemma core_parts:
  assumes "v3_core c = v3_core d"
  shows "v3_Fixed c = v3_Fixed d" "v3_Objects c = v3_Objects d" "v3_Entries c = v3_Entries d" "v3_ObjectSerial c = v3_ObjectSerial d"
    "v3_MemorySession c = v3_MemorySession d" "v3_Claimed c = v3_Claimed d" "v3_Owner c = v3_Owner d"
    "v3_ObjectBytes c = v3_ObjectBytes d" "v3_ImportedBytes c = v3_ImportedBytes d"
  using assms by (simp_all add: v3_core_def)

lemma fault_inv: "frees_safe (trace w) \<Longrightarrow> v3_fine w v \<Longrightarrow> v3_BootFault (st v) \<Longrightarrow> v3_inv K v"
  using fine_frees [of w v] by (intro inv_fault) simp_all

lemma div_sum_le: "a + b + 4096 \<le> 0xf0000000 \<Longrightarrow> a div 4096 + b div 4096 \<le> (1048576 :: nat)"
  by simp

lemma same_frees: "same_else w v \<Longrightarrow> frees_safe (trace w) \<Longrightarrow> frees_safe (trace v)"
  by (simp add: same_else_def)

lemma wp_Create:
  assumes w: "in_memory K w"
  shows "wp (V3d_ObjectCreate E K rq) (\<lambda>_. v3_inv K) w"
  unfolding V3d_ObjectCreate_def Let_def
proof (rule wp_bindI, rule wp_getsI, rule wp_ifI, rule wp_returnI, rule memory_inv [OF w], rule wp_ifI, rule wp_returnI, rule memory_inv [OF w],
    rule wp_case_optionI, rule wp_returnI, rule memory_inv [OF w], rule wp_case_prodI, rule wp_settle, rule wp_bindI)
  fix place i address and v :: "V3D_CONTEXT world"
  let ?n = "bq_Bytes rq"
  assume rq: "\<not> (?n = 0 \<or> ?n > PI5_V3D_BUFFER_MAX_BYTES \<or> ?n AND 4095 \<noteq> 0 \<or> bq_Flags rq AND NOT PI5_V3D_BUFFER_WRITABLE \<noteq> 0 \<or>
        bq_Handle rq \<noteq> 0 \<or> bq_Address rq \<noteq> 0 \<or> bq_Reserved rq \<noteq> 0)"
    and "V3d_ObjectPlacement (id (st w)) ?n = Some place" "place = (i, address)" and f: "v3_fine w v"
  then have p: "V3d_ObjectPlacement (st w) ?n = Some (i, address)" by simp
  note m = memory_facts [OF w] and v = memory_facts [OF memory_fine [OF f w]]
  note pl = placement_place [OF p m(5) m(2)]
  have e: "unat ?n mod 4096 = 0" "0 < unat ?n" "unat ?n < 0x80000000"
    using rq by (auto simp: page_low word_le_nat_alt not_less unat_gt_0)
  have fl: "bq_Flags rq \<le> 1" using rq by (intro flags_le) simp
  have c: "v3_core (st v) = v3_core (st w)" using f by (simp add: v3_rel_def)
  have empty: "object_empty (v3_Objects (st w) ! i)" using m(2,5) pl(1,2) by (auto simp: memory_ok_def dest: nth_mem)
  show "wp (V3d_Allocate E (VObject i) ?n) (\<lambda>s. wp (if s \<noteq> STATUS_SUCCESS then ret (s, None)
         else do {
           modify (\<lambda>c. c\<lparr>v3_ObjectSerial := v3_ObjectSerial c + 1\<rparr>);
           modify (\<lambda>c. v3d_set_object i (\<lambda>o'. o'\<lparr>vo_Handle := v3_ObjectSerial c, vo_Address := address, vo_Bytes := ?n, vo_Flags := bq_Flags rq\<rparr>) c);
           modify (\<lambda>c. c\<lparr>v3_ObjectBytes := v3_ObjectBytes c + ?n\<rparr>);
           v3d_publish E K i
         }) (\<lambda>_. v3_inv K)) v"
  proof (rule wp_AllocateBuffer)
    show "in_buffers (VObject i)" "length (v3_Objects (st v)) = 256" "detached (trace v)" using pl(1) v by (simp_all add: in_buffers_def detached_def)
    fix s b u assume u: "same_else v u" "VObject i \<noteq> VFixed MTable \<Longrightarrow> same_table v u"
      and ok: "s = STATUS_SUCCESS \<Longrightarrow> dma_ok b ?n \<and> v3_core (st u) = v3_core (if VObject i = VFixed MTable
        then (v3d_set_buffer (VObject i) (\<lambda>_. b) (st v))\<lparr>v3_Entries := (\<lambda>_. 0)\<rparr> else v3d_set_buffer (VObject i) (\<lambda>_. b) (st v))"
      and no: "s \<noteq> STATUS_SUCCESS \<Longrightarrow> vb_Cpu b = 0 \<and> v3_core (st u) = v3_core (v3d_set_buffer (VObject i) (\<lambda>_. b) (st v))"
    let ?y = "(v3_Objects (st w) ! i)\<lparr>vo_Buffer := b\<rparr>"
    have "v3_core (st u) = v3_core (v3d_set_buffer (VObject i) (\<lambda>_. b) (st v))" using ok no by (cases "s = STATUS_SUCCESS") simp_all
    note u' = core_parts [OF this] and c' = core_parts [OF c]
    have objs: "v3_Objects (st u) = (v3_Objects (st w))[i := ?y]" using u'(2) c'(2) by simp
    have tu: "table_written (v3_Entries (st u)) (trace u)" using same_table_written [OF u(2) v(9)] u'(3) by simp
    have frees: "frees_safe (trace u)" by (rule same_frees [OF u(1) v(1)])
    show "wp (if s \<noteq> STATUS_SUCCESS then ret (s, None)
         else do {
           modify (\<lambda>c. c\<lparr>v3_ObjectSerial := v3_ObjectSerial c + 1\<rparr>);
           modify (\<lambda>c. v3d_set_object i (\<lambda>o'. o'\<lparr>vo_Handle := v3_ObjectSerial c, vo_Address := address, vo_Bytes := ?n, vo_Flags := bq_Flags rq\<rparr>) c);
           modify (\<lambda>c. c\<lparr>v3_ObjectBytes := v3_ObjectBytes c + ?n\<rparr>);
           v3d_publish E K i
         }) (\<lambda>_. v3_inv K) u"
    proof (rule wp_ifI)
      assume s: "s \<noteq> STATUS_SUCCESS"
      have "memory_ok K (st u)"
        by (rule memory_touch [OF m(5) m(2) empty, of ?y]) (use objs u' c' no [OF s] empty in \<open>simp_all add: object_empty_def\<close>)
      then have "v3_good K (st u) (trace u)"
        by (intro good_memory [OF w]) (use objs u' c' m u(2) v(4) tu in \<open>simp_all add: same_table_def\<close>)
      then show "wp (ret (s, None)) (\<lambda>_. v3_inv K) u" using frees by (intro wp_returnI) (simp add: v3_inv_def)
    next
      assume "\<not> s \<noteq> STATUS_SUCCESS"
      then have b: "dma_ok b ?n" using ok by simp
      let ?x = "?y\<lparr>vo_Handle := v3_ObjectSerial (st w) + 1, vo_Address := address, vo_Bytes := ?n, vo_Flags := bq_Flags rq\<rparr>"
      show "wp (do {
           modify (\<lambda>c. c\<lparr>v3_ObjectSerial := v3_ObjectSerial c + 1\<rparr>);
           modify (\<lambda>c. v3d_set_object i (\<lambda>o'. o'\<lparr>vo_Handle := v3_ObjectSerial c, vo_Address := address, vo_Bytes := ?n, vo_Flags := bq_Flags rq\<rparr>) c);
           modify (\<lambda>c. c\<lparr>v3_ObjectBytes := v3_ObjectBytes c + ?n\<rparr>);
           v3d_publish E K i
         }) (\<lambda>_. v3_inv K) u"
      proof (rule wp_bindI, rule wp_modifyI, rule wp_bindI, rule wp_modifyI, rule wp_bindI, rule wp_modifyI, rule wp_publish_object, goal_cases)
        case 1
        then show ?case using frees by simp
      next
        case 2
        then show ?case using tu by (simp add: v3d_set_object_def)
      next
        case 3
        then show ?case using pl objs m(2) by (simp add: v3d_set_object_def div_sum_le)
      next
        case (4 d t)
        show ?case
        proof (rule put_object [OF w p e(1,2) _ _ _ _ _ _ _ _ _ _ _ _ 4(1-3), of ?x])
          show "v3d_page K ?x k AND 4095 = 0 \<and> v3d_page K ?x k < 0x1000000000" if "k < unat ?n div 4096" for k
            using buffer_page [OF b e(1,3) that] empty by (simp add: v3d_page_def object_empty_def)
        qed (use fl objs u' c' pl(1) m(2) in \<open>simp_all add: v3d_set_object_def\<close>)
      qed
    qed
  qed
next
  fix v assume "v3_fine w v" "v3_BootFault (st v)"
  then show "v3_inv K v" by (rule fault_inv [OF memory_facts(1) [OF w]])
qed

lemma wp_Import:
  assumes w: "in_memory K w"
  shows "wp (V3d_ObjectImport E K rq) (\<lambda>_. v3_inv K) w"
  unfolding V3d_ObjectImport_def Let_def
proof (rule wp_bindI, rule wp_getsI, rule wp_ifI, rule wp_returnI, rule memory_inv [OF w], rule wp_ifI, rule wp_returnI, rule memory_inv [OF w],
    rule wp_ifI, rule wp_returnI, rule memory_inv [OF w], rule wp_ifI, rule wp_returnI, rule memory_inv [OF w],
    rule wp_ifI, rule wp_returnI, rule memory_inv [OF w],
    rule wp_case_optionI, rule wp_returnI, rule memory_inv [OF w], rule wp_case_prodI, rule wp_settle)
  fix place i address and v :: "V3D_CONTEXT world"
  let ?m = "vk_Mdl K (iq_Mdl rq)"
  let ?n = "md_ByteCount ?m"
  assume r1: "\<not> (iq_Flags rq AND NOT PI5_V3D_BUFFER_WRITABLE \<noteq> 0 \<or> iq_Reserved rq ! 0 \<noteq> 0 \<or> iq_Reserved rq ! 1 \<noteq> 0 \<or>
        iq_Mdl rq = 0 \<or> iq_Mdl rq < vk_SystemRangeStart K \<or> iq_Mdl rq AND 7 \<noteq> 0)"
    and r2: "\<not> (?n = 0 \<or> ?n AND (V3D_PAGE - 1) \<noteq> 0 \<or> ?n > PI5_V3D_IMPORT_MAX_BYTES)"
    and r3: "\<not> (\<exists>page\<in>set [0..<unat ?n div 4096]. md_Pfn ?m page \<ge> 0x1000000)"
    and "V3d_ObjectPlacement (id (st w)) ?n = Some place" "place = (i, address)" and f: "v3_fine w v"
  then have p: "V3d_ObjectPlacement (st w) ?n = Some (i, address)" by simp
  note m = memory_facts [OF w] and v = memory_facts [OF memory_fine [OF f w]]
  note pl = placement_place [OF p m(5) m(2)]
  have e: "unat ?n mod 4096 = 0" "0 < unat ?n" using r2 by (auto simp: page_low unat_gt_0)
  have fl: "iq_Flags rq \<le> 1" using r1 by (intro flags_le) simp
  have mdl: "iq_Mdl rq \<noteq> 0" using r1 by simp
  have pfn: "md_Pfn ?m k < 0x1000000" if "k < unat ?n div 4096" for k using r3 that by (auto simp: not_le)
  have "v3_core (st v) = v3_core (st w)" using f by (simp add: v3_rel_def)
  note c' = core_parts [OF this]
  let ?x = "(v3_Objects (st w) ! i)\<lparr>vo_Handle := v3_ObjectSerial (st w) + 1, vo_Address := address, vo_Bytes := ?n, vo_Flags := iq_Flags rq,
    vo_ImportedMdl := iq_Mdl rq\<rparr>"
  show "wp (do {
         modify (\<lambda>c. c\<lparr>v3_ObjectSerial := v3_ObjectSerial c + 1\<rparr>);
         modify (\<lambda>c. v3d_set_object i (\<lambda>o'. o'\<lparr>vo_Handle := v3_ObjectSerial c, vo_Address := address, vo_Bytes := ?n, vo_Flags := iq_Flags rq,
           vo_ImportedMdl := iq_Mdl rq\<rparr>) c);
         modify (\<lambda>c. c\<lparr>v3_ImportedBytes := v3_ImportedBytes c + ?n\<rparr>);
         v3d_publish E K i
       }) (\<lambda>_. v3_inv K) v"
  proof (rule wp_bindI, rule wp_modifyI, rule wp_bindI, rule wp_modifyI, rule wp_bindI, rule wp_modifyI, rule wp_publish_object, goal_cases)
    case 1
    then show ?case using v(1) by simp
  next
    case 2
    then show ?case using v(9) by (simp add: v3d_set_object_def)
  next
    case 3
    then show ?case using pl c'(2) m(2) by (simp add: v3d_set_object_def div_sum_le)
  next
    case (4 d t)
    show ?case
    proof (rule put_object [OF w p e _ _ _ _ _ _ _ _ _ _ _ _ 4(1-3), of ?x])
      show "v3d_page K ?x k AND 4095 = 0 \<and> v3d_page K ?x k < 0x1000000000" if "k < unat ?n div 4096" for k
        using imported_page [OF pfn [OF that]] mdl by (simp add: v3d_page_def)
    qed (use fl c' pl(1) m(2) in \<open>simp_all add: v3d_set_object_def\<close>)
  qed
next
  fix v assume "v3_fine w v" "v3_BootFault (st v)"
  then show "v3_inv K v" by (rule fault_inv [OF memory_facts(1) [OF w]])
qed

lemma object_found: "V3d_Object c h = Some i \<Longrightarrow> i < 256 \<and> vo_Handle (v3_Objects c ! i) = h \<and> h \<noteq> 0"
  by (auto simp: V3d_Object_def find_Some_iff split: if_splits)

lemma wp_Destroy:
  assumes w: "in_memory K w"
  shows "wp (V3d_ObjectDestroy E rq) (\<lambda>_. v3_inv K) w"
  unfolding V3d_ObjectDestroy_def Let_def
proof (rule wp_bindI, rule wp_getsI, rule wp_case_optionI, rule wp_returnI, rule memory_inv [OF w], rule wp_ifI, rule wp_returnI, rule memory_inv [OF w],
    rule wp_settle, rule wp_bindI, rule wp_store_range, rule wp_bindI, rule wp_emitI, rule wp_require_any, rule wp_flush)
  fix i s and v a b :: "V3D_CONTEXT world"
  let ?x = "v3_Objects (id (st w)) ! i"
  let ?T = "\<lambda>n. if unat (vo_Address ?x) div 4096 \<le> n \<and> n < unat (vo_Address ?x) div 4096 + unat (vo_Bytes ?x) div 4096 then 0 else v3_Entries (st v) n"
  let ?a = "a\<lparr>trace := Bar # trace a\<rparr>"
  assume "V3d_Object (id (st w)) (bq_Handle rq) = Some i" and f: "v3_fine w v"
    and a: "st a = (st v)\<lparr>v3_Entries := ?T\<rparr>" "frees_safe (trace a) = frees_safe (trace v)"
    and t: "table_written (v3_Entries (st v)) (trace v) \<Longrightarrow> unat (vo_Address ?x) div 4096 + unat (vo_Bytes ?x) div 4096 \<le> 1048576 \<Longrightarrow>
      table_written (v3_Entries (st a)) (trace a)"
    and b: "v3_rel no_table ?a b" "s = STATUS_SUCCESS \<Longrightarrow> flush_state (trace b) = 4"
  then have i: "i < 256" "vo_Handle (v3_Objects (st w) ! i) \<noteq> 0" using object_found [of "st w" "bq_Handle rq" i] by auto
  note m = memory_facts [OF w] and v = memory_facts [OF memory_fine [OF f w]]
  have "v3_core (st v) = v3_core (st w)" using f by (simp add: v3_rel_def)
  note c' = core_parts [OF this]
  have T: "?T = page_range (v3_Objects (st w) ! i) (\<lambda>_. 0) (v3_Entries (st w))" using c' by (auto simp: page_range_def)
  have frees: "frees_safe (trace b)" using no_table_frees [OF b(1)] a(2) v(1) by (simp add: is_free_def)
  have cb: "v3_core (st b) = v3_core ((st w)\<lparr>v3_Entries := page_range (v3_Objects (st w) ! i) (\<lambda>_. 0) (v3_Entries (st w))\<rparr>)"
  proof -
    have "v3_core (st b) = v3_core ((st v)\<lparr>v3_Entries := ?T\<rparr>)" using b(1) a(1) by (simp add: v3_rel_def)
    also have "\<dots> = v3_core ((st v)\<lparr>v3_Entries := page_range (v3_Objects (st w) ! i) (\<lambda>_. 0) (v3_Entries (st w))\<rparr>)" by (simp only: T)
    also have "\<dots> = v3_core ((st w)\<lparr>v3_Entries := page_range (v3_Objects (st w) ! i) (\<lambda>_. 0) (v3_Entries (st w))\<rparr>)" by (simp add: v3_core_def c')
    finally show ?thesis .
  qed
  have "object_ok K (v3_Objects (st w) ! i)" using m(2,5) i by (auto simp: memory_ok_def)
  then have "table_written (v3_Entries (st a)) (trace a)" using t v(9) by (simp add: object_ok_def div_sum_le)
  then have "table_written (v3_Entries (st b)) (trace ?a)" using core_entries [of "st b" "st a"] b(1) by (simp add: table_written_def v3_rel_def)
  then have tb: "table_written (v3_Entries (st b)) (trace b)" by (rule rel_written [OF b(1)])
  let ?Q = "\<lambda>_. v3_inv K"
  let ?bytes = "\<lambda>c. if vo_ImportedMdl ?x \<noteq> 0 then c\<lparr>v3_ImportedBytes := v3_ImportedBytes c - vo_Bytes ?x\<rparr>
             else c\<lparr>v3_ObjectBytes := v3_ObjectBytes c - vo_Bytes ?x\<rparr>"
  let ?k = "v3d_require E (V3d_Hw (V3dInvalidate E)) (do {
           modify (\<lambda>c. ?bytes c);
           V3d_FreeBuffer E (VObject i);
           modify (v3d_set_object i (\<lambda>_. vo_zero));
           ret STATUS_SUCCESS
         })"
  have k: "wp ?k ?Q b" if s: "s = STATUS_SUCCESS"
  proof (rule wp_require, intro fine_Hw harmless_hardware)
    fix u assume u: "v3_fine b u"
    have fu: "frees_safe (trace u)" using fine_frees [OF u] frees by simp
    have flush: "flush_state (trace u) = 4" by (rule fine_flushed [OF u b(2) [OF s]])
    have tu: "table_written (v3_Entries (st u)) (trace u)" using fine_written [OF u tb] core_entries [of "st u" "st b"] u by (simp add: v3_rel_def)
    have "v3_core (st u) = v3_core ((st w)\<lparr>v3_Entries := page_range (v3_Objects (st w) ! i) (\<lambda>_. 0) (v3_Entries (st w))\<rparr>)"
      using u cb by (simp add: v3_rel_def)
    note cu = core_parts [OF this]
    let ?u = "u\<lparr>st := ?bytes (st u)\<rparr>"
    have bu: "v3_Objects (st ?u) = v3_Objects (st w)" "v3_Entries (st ?u) = page_range (v3_Objects (st w) ! i) (\<lambda>_. 0) (v3_Entries (st w))"
      "v3_ObjectSerial (st ?u) = v3_ObjectSerial (st w)" "v3_Fixed (st ?u) = v3_Fixed (st w)" "v3_Claimed (st ?u) = v3_Claimed (st w)"
      "v3_MemorySession (st ?u) = v3_MemorySession (st w)" "v3_Owner (st ?u) = v3_Owner (st w)"
      using cu by simp_all
    show "wp (do { modify (\<lambda>c. ?bytes c); V3d_FreeBuffer E (VObject i); modify (v3d_set_object i (\<lambda>_. vo_zero)); ret STATUS_SUCCESS }) ?Q u"
    proof (rule wp_bindI, rule wp_modifyI, rule wp_bindI, rule wp_FreeBuffer)
      show "detached (trace ?u)" using flush by (simp add: detached_def)
      fix d assume d: "same_else ?u d" "same_table ?u d"
        "v3_core (st d) = v3_core (if vb_Cpu (v3d_buffer (VObject i) (st ?u)) = 0 then st ?u else v3d_set_buffer (VObject i) (\<lambda>_. vb_zero) (st ?u))"
      have dd: "(v3_Objects (st d))[i := vo_zero] = (v3_Objects (st w))[i := vo_zero]" "v3_Entries (st d) = v3_Entries (st ?u)"
        "v3_ObjectSerial (st d) = v3_ObjectSerial (st ?u)" "v3_Fixed (st d) = v3_Fixed (st ?u)" "v3_Claimed (st d) = v3_Claimed (st ?u)"
        "v3_MemorySession (st d) = v3_MemorySession (st ?u)" "v3_Owner (st d) = v3_Owner (st ?u)"
        using core_parts [OF d(3)] bu(1) by (auto split: if_splits)
      let ?c = "v3d_set_object i (\<lambda>_. vo_zero) (st d)"
      have "memory_ok K ?c"
        by (rule memory_drop [OF m(5) m(2) i]) (simp_all add: v3d_set_object_def dd [unfolded bu])
      moreover have td: "table_written (v3_Entries (st d)) (trace d)"
        using same_table_written [OF d(2), of "v3_Entries (st u)"] tu dd(2) by simp
      ultimately have "v3_good K ?c (trace d)"
        by (intro good_memory [OF w]) (use flush d(2) td in \<open>simp_all add: v3d_set_object_def dd [unfolded bu] m same_table_def\<close>)
      moreover have "frees_safe (trace d)" using d(1) fu by (simp add: same_else_def)
      ultimately show "wp (do { modify (v3d_set_object i (\<lambda>_. vo_zero)); ret STATUS_SUCCESS }) ?Q d"
        by (intro wp_bindI wp_modifyI wp_returnI) (simp add: v3_inv_def)
    qed
  next
    fix s u assume "v3_fine b u" "v3_BootFault (st u)"
    then show "v3_inv K u" by (rule fault_inv [OF frees])
  qed
  show "if s = STATUS_SUCCESS then wp ?k ?Q b else \<forall>s u. v3_fine b u \<longrightarrow> v3_BootFault (st u) \<longrightarrow> v3_inv K u"
    by (rule if_both) (use k fault_inv [OF frees] in blast)+
next
  fix v assume "v3_fine w v" "v3_BootFault (st v)"
  then show "v3_inv K v" by (rule fault_inv [OF memory_facts(1) [OF w]])
qed

lemma object_harmless: "i < 256 \<Longrightarrow> harmless (Wr (v3d_bank (VObject i)) off v)"
  using bank_cases [of "VObject i"] by (simp add: in_buffers_def del: v3d_bank.simps)

lemma fine_Transfer [fine]: "preserves v3_fine (V3d_ObjectTransfer E rq words)"
  unfolding V3d_ObjectTransfer_def Let_def
  by (intro fine_intros fine object_harmless) (simp_all add: object_found)

section \<open>Requests\<close>

text \<open>From worlds with a property, the invariant holds at the end.\<close>

definition ends_well :: "v3d_kernel \<Rightarrow> (V3D_CONTEXT world \<Rightarrow> bool) \<Rightarrow> (V3D_CONTEXT, 'a) prog \<Rightarrow> bool" where
  "ends_well K P m \<longleftrightarrow> (\<forall>w. P w \<longrightarrow> wp m (\<lambda>_. v3_inv K) w)"

lemma ends_seq:
  assumes "ends_well K P m" "\<And>x. ends_well K (v3_inv K) (k x)"
  shows "ends_well K P (m \<bind> k)"
  unfolding ends_well_def
proof (intro allI impI wp_bindI)
  fix w assume "P w"
  then have "wp m (\<lambda>_. v3_inv K) w" using assms(1) by (simp add: ends_well_def)
  then show "wp m (\<lambda>r. wp (k r) (\<lambda>_. v3_inv K)) w"
    by (rule wp_mono) (use assms(2) in \<open>simp add: ends_well_def\<close>)
qed

lemma ends_inv_fine: "preserves v3_fine m \<Longrightarrow> ends_well K (v3_inv K) m"
  unfolding ends_well_def by (auto intro: wp_fine_inv)

text \<open>What the wrappers of a request need of such a property.\<close>

locale v3d_stable =
  fixes K :: v3d_kernel and P :: "V3D_CONTEXT world \<Rightarrow> bool"
  assumes stable: "v3_fine w v \<Longrightarrow> P w \<Longrightarrow> P v"
    and good: "P w \<Longrightarrow> v3_inv K w"
begin

lemma ends_fine: "preserves v3_fine m \<Longrightarrow> ends_well K P m"
  unfolding ends_well_def by (auto intro!: wp_fine_inv good)

lemma ends_ret: "ends_well K P (ret x)"
  by (simp add: ends_well_def wp_simps good)

lemma ends_check: "(b \<Longrightarrow> ends_well K P k) \<Longrightarrow> ends_well K P (v3d_check b s k)"
  by (simp add: v3d_check_def ends_ret)

lemma ends_after: "preserves v3_fine m \<Longrightarrow> (\<And>x. ends_well K P (k x)) \<Longrightarrow> ends_well K P (m \<bind> k)"
  unfolding ends_well_def by (auto intro!: wp_bindI elim!: wp_rel intro: stable)

lemma ends_if: "(b \<Longrightarrow> ends_well K P m) \<Longrightarrow> (\<not> b \<Longrightarrow> ends_well K P n) \<Longrightarrow> ends_well K P (if b then m else n)"
  by simp

lemma ends_input: "ends_well K P k \<Longrightarrow> ends_well K P (v3d_input E n k)"
  unfolding v3d_input_def by (rule ends_after, intro fine_intros) (simp_all add: ends_ret)

lemma ends_output: "ends_well K P k \<Longrightarrow> ends_well K P (v3d_output E n k)"
  unfolding v3d_output_def by (rule ends_after, intro fine_intros) (simp_all add: ends_ret)

lemma ends_exchange: "(ok \<Longrightarrow> ends_well K P k) \<Longrightarrow> ends_well K P (v3d_exchange E il ol isz osz ok k)"
  unfolding v3d_exchange_def by (intro ends_check ends_input ends_output)

lemma ends_then: "ends_well K P m \<Longrightarrow> (\<And>x. preserves v3_fine (k x)) \<Longrightarrow> ends_well K P (m \<bind> k)"
  by (rule ends_seq) (auto intro: ends_inv_fine)

lemma fine_finish: "preserves v3_fine (v3d_finish n r)"
  unfolding v3d_finish_def by (intro fine_intros) simp_all

lemma ends_run: "ends_well K P m \<Longrightarrow> ends_well K P (v3d_run n m)" "ends_well K P p \<Longrightarrow> ends_well K P (v3d_run_pair n p)"
  "ends_well K P j \<Longrightarrow> ends_well K P (v3d_run_job n j)"
  unfolding v3d_run_def v3d_run_pair_def v3d_run_job_def by (auto intro!: ends_then fine_finish)

lemma ends_owned: "ends_well K P k \<Longrightarrow> ends_well K P (v3d_owned f k)"
  unfolding v3d_owned_def by (intro ends_after fine_intros ends_check)

lemma ends_fixed_only: "ends_well K P k \<Longrightarrow> ends_well K P (v3d_fixed_only k)"
  unfolding v3d_fixed_only_def by (intro ends_after fine_intros ends_check)

lemma ends_query: "preserves v3_fine m \<Longrightarrow> ends_well K P (v3d_query E il ol n m)"
  unfolding v3d_query_def by (intro ends_check ends_output ends_fine fine_intros)

lemmas ends = ends_check ends_input ends_output ends_exchange ends_run ends_owned ends_fixed_only ends_ret

end

interpretation any: v3d_stable K "v3_inv K" for K
  by unfold_locales (auto intro: inv_fine)

interpretation safe: v3d_stable K "v3_safe K" for K
  by unfold_locales (auto intro: safe_fine safe_inv)

interpretation mem: v3d_stable K "in_memory K" for K
  by unfold_locales (auto intro: memory_fine memory_inv)

lemma inv_endable: "v3_inv K w \<Longrightarrow> endable w"
  by (auto simp: v3_inv_def endable_def v3_good_def all_free_def object_empty_def)

lemma ends_End: "ends_well K (v3_inv K) (V3d_End E)" "ends_well K (v3_safe K) (V3d_End E)"
  by (auto simp: ends_well_def intro!: wp_End inv_endable intro: safe_inv)

lemma ends_sessions:
  "f \<noteq> 0 \<Longrightarrow> ends_well K (v3_safe K) (V3d_Begin E f)" "f \<noteq> 0 \<Longrightarrow> ends_well K (v3_safe K) (V3d_MemoryBegin E f)"
  "ends_well K (v3_safe K) (V3d_Reset E)"
  by (auto simp: ends_well_def intro!: wp_MemoryBegin wp_Begin wp_Reset intro: safe_inv safe_no_table)

lemma ends_objects: "ends_well K (in_memory K) (V3d_ObjectCreate E K b1)" "ends_well K (in_memory K) (V3d_ObjectImport E K b2)"
  "ends_well K (in_memory K) (V3d_ObjectDestroy E b3)"
  by (auto simp: ends_well_def intro!: wp_Create wp_Import wp_Destroy)

lemma ends_memory_request: "ends_well K (in_memory K) (v3d_memory_request E K fuel il ol rq)"
  unfolding v3d_memory_request_def
  by (cases rq; simp only: v3d_request.case; intro mem.ends ends_objects mem.ends_fine fine)

lemma ends_plain: "f \<noteq> 0 \<Longrightarrow> ends_well K (v3_safe K) (v3d_plain_run E fuel f p)"
  unfolding v3d_plain_run_def
  by (cases p; simp only: v3d_plain.case; intro safe.ends ends_End ends_sessions safe.ends_fine fine; assumption?)

lemma ends_fixed_request: "f \<noteq> 0 \<Longrightarrow> ends_well K (v3_safe K) (v3d_fixed_request E fuel f il ol rq)"
  unfolding v3d_fixed_request_def
  by (cases rq; simp only: v3d_request.case; intro safe.ends ends_plain safe.ends_fine fine; assumption?)

lemma ends_member: "ends_well K (in_memory K) k \<Longrightarrow> ends_well K (v3_safe K) (v3d_member f k)"
  by (auto simp: ends_well_def v3d_member_def v3d_check_def wp_simps in_memory_def safe_inv)

lemma ends_trusted: "(f \<noteq> 0 \<Longrightarrow> ends_well K (v3_safe K) k) \<Longrightarrow> ends_well K (v3_inv K) (v3d_trusted kmode f k)"
  by (auto simp: ends_well_def v3d_trusted_def v3d_check_def wp_simps v3_inv_def v3_safe_def)

lemma fine_query_status: "preserves v3_fine (v3d_query_status E)"
  unfolding v3d_query_status_def by (intro fine_intros fine) simp_all

lemma ends_Control: "ends_well K (v3_inv K) (V3d_Control E K fuel f kmode il ol rq)"
proof -
  have "ends_well K (v3_inv K) (case rq of
           RqQuery \<Rightarrow> v3d_query E il ol 200 (v3d_query_status E)
         | RqComputeQuery \<Rightarrow> v3d_query E il ol 64 (v3_compute (\<lambda>q. q\<lparr>vq_Version := 1\<rparr>))
         | RqRenderQuery \<Rightarrow> v3d_query E il ol 96 (v3_render (\<lambda>q. q\<lparr>vr_Version := 1\<rparr>))
         | _ \<Rightarrow> v3d_trusted kmode f (if is_memory_request rq then v3d_member f (v3d_memory_request E K fuel il ol rq)
             else v3d_fixed_request E fuel f il ol rq))"
    by (cases rq; simp only: v3d_request.case; intro any.ends_query ends_trusted safe.ends_if ends_member ends_memory_request ends_fixed_request
      fine_query_status fine_intros; (assumption | simp)?)
  then show ?thesis
    unfolding V3d_Control_def by (intro any.ends_after any.ends_if any.ends_then any.ends_ret fine_intros) simp_all
qed

section \<open>Sessions\<close>

lemma fine_blocks: "preserves v3_fine (v3d_map_blocks E rs found irqs)"
  by (induction E rs found irqs rule: v3d_map_blocks.induct) (auto intro!: fine_intros split: option.splits)

lemma fine_Prepare: "preserves v3_fine (V3d_Prepare E rs)"
  unfolding V3d_Prepare_def by (intro fine_intros fine fine_blocks) simp_all

lemma fine_Release: "preserves v3_fine (V3d_ReleaseHardware E)"
  unfolding V3d_ReleaseHardware_def by (intro fine_intros fine) simp_all

lemma fine_Entry: "preserves v3_fine V3d_Entry"
  unfolding V3d_Entry_def by (intro fine_intros) simp_all

lemma fine_Query: "preserves v3_fine V3d_QueryStop" "preserves v3_fine V3d_QueryRemove"
  unfolding V3d_QueryStop_def V3d_QueryRemove_def by (intro fine_intros)+

lemma fine_Disable: "unit < 2 \<Longrightarrow> preserves v3_fine (V3d_InterruptDisable unit)"
  unfolding V3d_InterruptDisable_def by (intro fine_intros) (simp_all add: unit_bank)

lemma ends_when: "ends_well K (v3_inv K) m \<Longrightarrow> ends_well K (v3_inv K) (whenM b m)"
  by (simp add: whenM_def any.ends_ret)

lemma ends_Exit: "ends_well K (v3_inv K) (V3d_Exit E)" "ends_well K (v3_inv K) (V3d_Cleanup E f)"
proof -
  have e: "ends_well K (v3_inv K) (do { s \<leftarrow> V3d_End E; ret () })" by (intro any.ends_then ends_End fine_intros)
  show "ends_well K (v3_inv K) (V3d_Exit E)" "ends_well K (v3_inv K) (V3d_Cleanup E f)"
    unfolding V3d_Exit_def V3d_Cleanup_def
    by (intro ends_seq ends_when e any.ends_ret ends_inv_fine fine_intros; simp)+
qed

lemma ends_ignore: "ends_well K (v3_inv K) m \<Longrightarrow> ends_well K (v3_inv K) (v3d_ignore m)"
  unfolding v3d_ignore_def by (intro ends_seq any.ends_ret)

lemma ends_Isr: "ends_well K (v3_inv K) (do { r \<leftarrow> V3d_Isr E (v3d_unit first); V3d_Dpc E })"
  by (intro ends_inv_fine fine_intros fine) (simp add: v3d_unit_def)

lemma ends_step: "ends_well K (v3_inv K) (v3d_step E K fuel call)"
  by (cases call; simp only: v3d_step.simps; intro ends_ignore ends_Exit ends_Control ends_Isr ends_inv_fine fine_Prepare fine_Release fine_Entry fine_Query fine_Disable)
    (simp_all add: v3d_unit_def)

lemma ends_calls: "v3_inv K w \<Longrightarrow> wp (forM calls (v3d_step E K fuel)) (\<lambda>_. v3_inv K) w"
proof (induction calls arbitrary: w)
  case (Cons call calls)
  have "wp (v3d_step E K fuel call) (\<lambda>_. v3_inv K) w" using ends_step [of K E fuel call] Cons.prems by (simp add: ends_well_def)
  then show ?case unfolding forM.simps by (intro wp_bindI) (erule wp_mono, erule Cons.IH)
qed (simp add: wp_simps)

section \<open>Translation\<close>

text \<open>A device just added. The fault belongs to the driver and outlives a device.\<close>

definition v3_new :: "bool \<Rightarrow> V3D_CONTEXT" where
  "v3_new fault = \<lparr>v3_Clock = 0, v3_Pm = 0, v3_IrqLive = (\<lambda>_. False), v3_Pending = (\<lambda>_. 0), v3_InterruptCount = (\<lambda>_. 0), v3_Registers = [0, 0, 0],
     v3_Io = \<lparr>vi_CsdIdle = 0, vi_RenderStart = 0, vi_RenderEnd = 0, vi_BinStart = 0, vi_BinEnd = 0\<rparr>, v3_Adapter = 0, v3_Fixed = (\<lambda>_. vb_zero),
     v3_Objects = replicate 256 vo_zero, v3_Entries = (\<lambda>_. 0), v3_ObjectSerial = 0, v3_ObjectBytes = 0, v3_ImportedBytes = 0,
     v3_MemorySubmitted = 0, v3_MemoryCompleted = 0, v3_MemorySession = False, v3_GuardsClean = False, v3_Owner = 0, v3_ClockLease = False,
     v3_PmLease = False, v3_Powered = False, v3_Claimed = False, v3_Woke = False,
     v3_Status = \<lparr>vs_Online = 0, vs_Owner = 0, vs_Fault = 0, vs_Phase = 0, vs_LastStatus = 0, vs_HubIdent = [0, 0, 0, 0], vs_CoreIdent = [0, 0, 0],
       vs_MmuInfo = 0, vs_TechVersion = 0, vs_PaBits = 0, vs_VaBits = 0, vs_SmsInitial = 0, vs_SmsRee = 0, vs_SmsTee = 0, vs_Tfu = 0, vs_Csd = 0,
       vs_Ct0 = 0, vs_Ct1 = 0, vs_Gmp = 0, vs_MmuControl = 0, vs_MmuCache = 0, vs_MmuVioId = 0, vs_MmuVioAddress = 0, vs_HubInterrupts = 0,
       vs_CoreInterrupts = 0, vs_HubPending = 0, vs_CorePending = 0, vs_Copies = 0, vs_Resets = 0, vs_InterruptChecks = 0, vs_Failures = 0,
       vs_AllocatedBytes = 0, vs_MmuHits = 0, vs_MmuMisses = 0, vs_GuardFailures = 0, vs_ScratchWrites = 0, vs_TableDma = 0, vs_SourceDma = 0,
       vs_DestinationDma = 0\<rparr>,
     v3_ComputeStatus = \<lparr>vq_Version = 0, vq_Jobs = 0, vq_Invalidations = 0, vq_IpRevision = 0, vq_CsdBefore = 0, vq_CsdAfter = 0, vq_CodeBytes = 0,
       vq_Submitted = 0, vq_Completed = 0, vq_CodeDma = 0, vq_UniformDma = 0\<rparr>,
     v3_RenderStatus = \<lparr>vr_Version = 0, vr_Jobs = 0, vr_CommandBytes = 0, vr_Invalidations = 0, vr_CtBefore = 0, vr_CtAfter = 0, vr_Current = 0,
       vr_End = 0, vr_QueueCurrent = 0, vr_QueueEnd = 0, vr_FramesBefore = 0, vr_FramesAfter = 0, vr_Submitted = 0, vr_Completed = 0, vr_BinBytes = 0,
       vr_BinBefore = 0, vr_BinAfter = 0, vr_BinCurrent = 0, vr_BinEnd = 0, vr_MismatchIndex = 0, vr_Observed = 0, vr_Expected = 0\<rparr>,
     v3_BootFault = fault\<rparr>"

lemma new_inv: "v3_inv K \<lparr>st = v3_new fault, trace = []\<rparr>"
  by (auto simp: v3_inv_def v3_new_def v3_good_def vb_zero_def empty_zero)

text \<open>What the GPU reads from the table for an address: the physical address and whether it may write.\<close>

definition v3d_translate :: "(nat \<Rightarrow> u32) \<Rightarrow> u32 \<Rightarrow> (u64 \<times> bool) option" where
  "v3d_translate T va = (let e = T (unat va div 4096) in
     if e AND V3D_PTE_VALID = 0 then None
     else Some (ucast (e AND 0xffffff) * 4096 + of_nat (unat va mod 4096), e AND V3D_PTE_WRITE \<noteq> 0))"

text \<open>What the driver promised: the bytes of the live objects, each in its own memory with its own permission.\<close>

definition v3d_promise :: "v3d_kernel \<Rightarrow> V3D_CONTEXT \<Rightarrow> u32 \<Rightarrow> (u64 \<times> bool) option" where
  "v3d_promise K c va =
     (case find (\<lambda>o'. vo_Handle o' \<noteq> 0 \<and> vo_Address o' \<le> va \<and> va - vo_Address o' < vo_Bytes o') (v3_Objects c) of
        None \<Rightarrow> None
      | Some o' \<Rightarrow> Some (v3d_page K o' (unat (va - vo_Address o') div 4096) + of_nat (unat va mod 4096), vo_Flags o' \<noteq> 0))"

lemma pte_parts:
  fixes a :: u64 and b :: bool
  assumes "a AND 4095 = 0" "a < 0x1000000000"
  defines "e \<equiv> V3dPte a (c_bool b)"
  shows "e AND V3D_PTE_VALID \<noteq> 0" "(e AND V3D_PTE_WRITE \<noteq> 0) = b" "ucast (e AND 0xffffff) * 4096 = a"
proof -
  let ?p = "ucast (drop_bit 12 a) :: u32"
  have p: "unat (drop_bit 12 a) = unat a div 4096" by (simp only: unat_drop_bit_eq) (simp add: drop_bit_eq_div)
  have lt: "unat a div 4096 < 2 ^ 24" using assms(2) by (simp add: word_less_nat_alt)
  then have q: "unat ?p = unat a div 4096" using p by (subst unat_ucast_small) simp_all
  have m: "?p AND 0xffffff = ?p" using and_mask_small [of ?p 24] lt q by (simp add: mask_eq_exp_minus_1)
  have out: "?p AND 0x10000000 = 0" "?p AND 0x20000000 = 0"
    using arg_cong [OF m, of "\<lambda>x. x AND 0x10000000"] arg_cong [OF m, of "\<lambda>x. x AND 0x20000000"] by (simp_all add: and.assoc)
  have e: "e = ?p OR 0x10000000 OR (if b then 0x20000000 else 0)" using assms(1,2) by (simp add: e_def V3dPte_def c_bool_def not_le)
  show "e AND V3D_PTE_VALID \<noteq> 0" using out by (simp add: e bit.conj_disj_distrib2)
  show "(e AND V3D_PTE_WRITE \<noteq> 0) = b" using out by (simp add: e bit.conj_disj_distrib2)
  have l: "e AND 0xffffff = ?p" using m by (simp add: e bit.conj_disj_distrib2)
  have "unat (ucast ?p :: u64) = unat a div 4096" using q by (simp add: unat_ucast_up)
  then have "unat (ucast ?p * 4096 :: u64) = unat a div 4096 * 4096" using lt by (subst unat_mult_small) simp_all
  also have "\<dots> = unat a" using assms(1) by (simp add: page_low minus_mod_eq_div_mult [symmetric])
  finally show "ucast (e AND 0xffffff) * 4096 = a" by (simp only: l word_unat_eq_iff)
qed

lemma object_at:
  assumes "object_ok K x"
  shows "vo_Address x \<le> va \<and> va - vo_Address x < vo_Bytes x \<longleftrightarrow> unat va div 4096 \<in> object_pages x"
    "unat va div 4096 \<in> object_pages x \<Longrightarrow> unat (va - vo_Address x) div 4096 = unat va div 4096 - unat (vo_Address x) div 4096"
proof -
  obtain a where a: "unat (vo_Address x) = 4096 * a" using assms by (auto simp: object_ok_def mod_eq_0_iff_dvd elim: dvdE)
  obtain b where b: "unat (vo_Bytes x) = 4096 * b" using assms by (auto simp: object_ok_def mod_eq_0_iff_dvd elim: dvdE)
  have d: "unat (va - vo_Address x) = unat va - 4096 * a" if "vo_Address x \<le> va" using that a by (simp add: unat_sub)
  have pages: "object_pages x = {a..<a + b}" by (simp add: object_pages_def a b)
  show iff: "vo_Address x \<le> va \<and> va - vo_Address x < vo_Bytes x \<longleftrightarrow> unat va div 4096 \<in> object_pages x"
    unfolding pages using d by (auto simp: word_le_nat_alt word_less_nat_alt a b less_mult_imp_div_less div_le_mono)
  show "unat (va - vo_Address x) div 4096 = unat va div 4096 - unat (vo_Address x) div 4096" if "unat va div 4096 \<in> object_pages x"
    using iff that d by (simp add: a)
qed

lemma entries_translate:
  assumes m: "memory_ok K c"
  shows "v3d_translate (v3_Entries c) va = v3d_promise K c va"
proof -
  let ?n = "unat va div 4096"
  let ?here = "\<lambda>o'. vo_Handle o' \<noteq> 0 \<and> vo_Address o' \<le> va \<and> va - vo_Address o' < vo_Bytes o'"
  have n: "?n < 1048576" using unsigned_less [of va, where ?'a = nat] by simp
  have ok: "object_ok K x" if "x \<in> set (v3_Objects c)" "vo_Handle x \<noteq> 0" for x using m that by (auto simp: memory_ok_def)
  show ?thesis
  proof (cases "find ?here (v3_Objects c)")
    case None
    then have "\<forall>x\<in>set (v3_Objects c). vo_Handle x \<noteq> 0 \<longrightarrow> ?n \<notin> object_pages x" using object_at(1) [OF ok] by (auto simp: find_None_iff)
    then have "v3_Entries c ?n = 0" using m n by (auto simp: memory_ok_def entries_ok_def)
    then show ?thesis using None by (simp add: v3d_translate_def v3d_promise_def)
  next
    case (Some x)
    then have x: "x \<in> set (v3_Objects c)" "vo_Handle x \<noteq> 0" and here: "?here x" by (auto simp: find_Some_iff)
    then have page: "?n \<in> object_pages x" using object_at(1) [OF ok [OF x]] by blast
    let ?k = "?n - unat (vo_Address x) div 4096"
    have k: "unat (va - vo_Address x) div 4096 = ?k" by (rule object_at(2) [OF ok [OF x] page])
    have e: "v3_Entries c ?n = V3dPte (v3d_page K x ?k) (c_bool (vo_Flags x \<noteq> 0))"
      using m n x page by (auto simp: memory_ok_def entries_ok_def)
    have "?k < unat (vo_Bytes x) div 4096" using page by (auto simp: object_pages_def)
    then have a: "v3d_page K x ?k AND 4095 = 0" "v3d_page K x ?k < 0x1000000000" using ok [OF x] by (auto simp: object_ok_def)
    show ?thesis using pte_parts [OF a, of "vo_Flags x \<noteq> 0"] Some by (simp add: v3d_translate_def v3d_promise_def e k)
  qed
qed

text \<open>The table in memory, as the last stores left it.\<close>

definition v3d_table :: "io_event list \<Rightarrow> nat \<Rightarrow> u32" where
  "v3d_table t n = (case last_write t 3 (table_at n) of None \<Rightarrow> 0 | Some v \<Rightarrow> v)"

lemma table_translate: "table_written T t \<Longrightarrow> v3d_translate (v3d_table t) va = v3d_translate T va"
  using unsigned_less [of va, where ?'a = nat] by (simp add: v3d_translate_def v3d_table_def table_written_def)

text \<open>In a memory session without a fault the GPU has been made to forget older translations, the translation of every
  address is what the driver promised, no two objects are closer than two pages, and no two have the same handle.\<close>

definition v3d_exact :: "v3d_kernel \<Rightarrow> V3D_CONTEXT \<Rightarrow> io_event list \<Rightarrow> bool" where
  "v3d_exact K c t \<longleftrightarrow> (if v3_MemorySession c \<and> \<not> v3_BootFault c
     then flush_state t = 4 \<and> (\<forall>va. v3d_translate (v3d_table t) va = v3d_promise K c va) \<and>
       (\<forall>i<256. \<forall>j<256. i \<noteq> j \<and> vo_Handle (v3_Objects c ! i) \<noteq> 0 \<and> vo_Handle (v3_Objects c ! j) \<noteq> 0 \<longrightarrow>
         objects_apart (v3_Objects c ! i) (v3_Objects c ! j))
     else True)"

lemma inv_exact: "v3_inv K w \<Longrightarrow> v3d_exact K (st w) (trace w)"
proof (cases "v3_MemorySession (st w) \<and> \<not> v3_BootFault (st w)")
  case True
  assume "v3_inv K w"
  with True have g: "v3_good K (st w) (trace w)" by (simp add: v3_inv_def)
  then have m: "memory_ok K (st w)" "flush_state (trace w) = 4" "table_written (v3_Entries (st w)) (trace w)"
    using True by (auto simp: v3_good_def)
  then show ?thesis using True by (simp add: v3d_exact_def table_translate [OF m(3)] entries_translate [OF m(1)]) (simp add: memory_ok_def)
qed (auto simp: v3d_exact_def)

text \<open>C36. The page table of the GPU refines the list of its live objects: after any sequence of callbacks and requests, on any
  hardware and any kernel, in a memory session without a fault the table in memory gives every address the translation the driver
  promised (the right page of the one live object that holds it, writable only if asked for, and nothing anywhere else), the GPU has been
  made to forget all older translations since the last store, and live objects are two pages apart with different handles.\<close>

theorem v3d_table_refines:
  "case run_state (forM calls (v3d_step E K fuel)) \<lparr>st = v3_new fault, trace = []\<rparr> of (r, v) \<Rightarrow> v3d_exact K (st v) (trace v)"
  using ends_calls [OF new_inv [of K fault], of calls E fuel] by (auto simp: wp_def split_beta intro: inv_exact)


section \<open>After a fault\<close>

definition v3_pinned :: "V3D_CONTEXT world \<Rightarrow> V3D_CONTEXT world \<Rightarrow> bool" where
  "v3_pinned w v \<longleftrightarrow> v3_BootFault (st w) \<longrightarrow> v3_fine w v"

interpretation v3_pinned: frame v3_pinned
  by unfold_locales (auto simp: v3_pinned_def v3_rel_def intro: ext.frame_refl ext.frame_trans)

lemma pinned_fine: "preserves v3_fine m \<Longrightarrow> preserves v3_pinned m"
  by (auto simp: preserves_def v3_pinned_def)

lemma pinned_End: "preserves v3_pinned (V3d_End E)"
  unfolding preserves_wp
proof (intro allI)
  fix w show "wp (V3d_End E) (\<lambda>_. v3_pinned w) w"
    by (cases "v3_BootFault (st w)") (simp_all add: V3d_End_def wp_simps v3_pinned_def v3_rel_def trace_ext_def wp_all)
qed

lemma pinned_trusted: "preserves v3_pinned (v3d_trusted kmode f k)"
  unfolding preserves_wp v3d_trusted_def v3d_check_def by (auto simp: wp_simps v3_pinned_def v3_rel.frame_refl intro!: wpI)

lemma fine_query: "preserves v3_fine m \<Longrightarrow> preserves v3_fine (v3d_query E il ol n m)"
  unfolding v3d_query_def v3d_check_def v3d_output_def by (intro fine_intros) simp_all

lemma pinned_Control: "preserves v3_pinned (V3d_Control E K fuel f kmode il ol rq)"
proof -
  have body: "preserves v3_pinned (case rq of
           RqQuery \<Rightarrow> v3d_query E il ol 200 (v3d_query_status E)
         | RqComputeQuery \<Rightarrow> v3d_query E il ol 64 (v3_compute (\<lambda>q. q\<lparr>vq_Version := 1\<rparr>))
         | RqRenderQuery \<Rightarrow> v3d_query E il ol 96 (v3_render (\<lambda>q. q\<lparr>vr_Version := 1\<rparr>))
         | _ \<Rightarrow> v3d_trusted kmode f (if is_memory_request rq then v3d_member f (v3d_memory_request E K fuel il ol rq)
             else v3d_fixed_request E fuel f il ol rq))"
    by (cases rq; simp only: v3d_request.case; intro pinned_trusted pinned_fine fine_query fine_query_status fine_intros; simp)
  show ?thesis
    unfolding V3d_Control_def
    apply (rule v3_pinned.pres_bind, rule pinned_fine, intro fine_intros, simp)
    apply (rule v3_pinned.pres_if, rule v3_pinned.pres_return)
    apply (rule v3_pinned.pres_bind, rule body)
    by (rule pinned_fine, intro fine_intros) simp
qed

lemma pinned_step: "preserves v3_pinned (v3d_step E K fuel call)"
proof -
  have whole: "preserves v3_pinned (V3d_Exit E)" "preserves v3_pinned (V3d_Cleanup E f)" for f
    unfolding V3d_Exit_def V3d_Cleanup_def by (intro v3_pinned.pres pinned_End pinned_fine [OF fine_intros(1)] | (rule pinned_fine, intro fine_intros; simp))+
  show ?thesis
    by (cases call; simp only: v3d_step.simps v3d_ignore_def; intro v3_pinned.pres whole pinned_Control pinned_fine fine_Prepare fine_Release fine_Entry
      fine_Query fine_Disable fine) (simp_all add: v3d_unit_def)
qed

text \<open>C38. After a fault all memory stays where it is: no sequence of callbacks and requests clears the fault, changes the record of a
  buffer, object or table entry, allocates or frees memory, stores to the table or enables translation.\<close>

theorem v3d_fault_pins:
  assumes "run_state (forM calls (v3d_step E K fuel)) w = (r, v)" "v3_BootFault (st w)"
  shows "v3_BootFault (st v) \<and> v3_Fixed (st v) = v3_Fixed (st w) \<and> v3_Objects (st v) = v3_Objects (st w) \<and>
    v3_Entries (st v) = v3_Entries (st w) \<and> extends harmless (trace w) (trace v)"
proof -
  have "preserves v3_pinned (forM calls (v3d_step E K fuel))" by (intro v3_pinned.pres pinned_step)
  then have "v3_fine w v" using preservesD [OF _ assms(1), of v3_pinned] assms(2) by (simp add: v3_pinned_def)
  then show ?thesis using assms(2) by (simp add: v3_rel_def v3_core_def trace_ext_def)
qed

definition no_mdl :: v3d_kernel where
  "no_mdl = \<lparr>vk_SystemRangeStart = 0xffff800000000000, vk_Mdl = (\<lambda>_. \<lparr>md_Flags = 0, md_ByteOffset = 0, md_ByteCount = 0, md_Pfn = (\<lambda>_. 0)\<rparr>)\<rparr>"

theorem v3d_fault_pins_witness:
  "let w = \<lparr>st = (v3_new True)\<lparr>v3_Owner := 7\<rparr>, trace = []\<rparr>;
       v = snd (run_state (forM [VcCleanup 7, VcRelease] (v3d_step (regfile (\<lambda>_ _. 0) (\<lambda>_ _. 0)) no_mdl 5)) w)
   in v3_BootFault (st v) \<and> v3_Objects (st v) = v3_Objects (st w) \<and> extends harmless [] (trace v)"
proof -
  let ?w = "\<lparr>st = (v3_new True)\<lparr>v3_Owner := 7\<rparr>, trace = []\<rparr>"
  let ?o = "run_state (forM [VcCleanup 7, VcRelease] (v3d_step (regfile (\<lambda>_ _. 0) (\<lambda>_ _. 0)) no_mdl 5)) ?w"
  have run: "?o = (fst ?o, snd ?o)" by (rule prod.collapse [symmetric])
  have b: "v3_BootFault (st ?w)" by (simp add: v3_new_def)
  show ?thesis unfolding Let_def using v3d_fault_pins [OF run b] unfolding world.select_convs by blast
qed

section \<open>Transfers stay inside of objects\<close>



text \<open>The objects lie below the end of the address space and beside each other.\<close>

definition objects_placed :: "V3D_CONTEXT \<Rightarrow> bool" where
  "objects_placed c \<longleftrightarrow> length (v3_Objects c) = 256 \<and>
     (\<forall>o'\<in>set (v3_Objects c). vo_Handle o' \<noteq> 0 \<longrightarrow> unat (vo_Address o') + unat (vo_Bytes o') < 2 ^ 32) \<and>
     (\<forall>i<256. \<forall>j<256. i \<noteq> j \<and> vo_Handle (v3_Objects c ! i) \<noteq> 0 \<and> vo_Handle (v3_Objects c ! j) \<noteq> 0 \<longrightarrow>
        objects_apart (v3_Objects c ! i) (v3_Objects c ! j))"











text \<open>In a memory session the objects are always placed like that.\<close>

lemma inv_placed: "v3_inv K w \<Longrightarrow> v3_MemorySession (st w) \<Longrightarrow> \<not> v3_BootFault (st w) \<Longrightarrow> objects_placed (st w)"
proof -
  assume "v3_inv K w" "v3_MemorySession (st w)" "\<not> v3_BootFault (st w)"
  then have l: "length (v3_Objects (st w)) = 256" and m: "memory_ok K (st w)" by (auto simp: v3_inv_def v3_good_def)
  from m have "unat (vo_Address x) + unat (vo_Bytes x) < 2 ^ 32" if "x \<in> set (v3_Objects (st w))" "vo_Handle x \<noteq> 0" for x
    using that by (fastforce simp: memory_ok_def object_ok_def)
  then show ?thesis using l m unfolding objects_placed_def memory_ok_def by blast
qed

lemma calls_placed:
  "run_state (forM calls (v3d_step E K fuel)) \<lparr>st = v3_new fault, trace = []\<rparr> = (r, v) \<Longrightarrow> v3_MemorySession (st v) \<Longrightarrow> \<not> v3_BootFault (st v) \<Longrightarrow>
     objects_placed (st v)"
  using ends_calls [OF new_inv [of K fault], of calls E fuel] by (auto simp: wp_def intro: inv_placed)









section \<open>The command list that clears a tile\<close>

text \<open>A packet fits, and changes nothing behind itself.\<close>

definition list_at :: "u8 list \<Rightarrow> nat \<Rightarrow> nat \<times> u8 list option \<Rightarrow> bool" where
  "list_at dst n a \<longleftrightarrow> (\<exists>l. a = (n, Some l) \<and> length l = length dst \<and> drop n l = drop n dst)"

lemma list_at_start: "list_at dst 0 (0, Some dst)"
  by (simp add: list_at_def)

lemma list_at_byte: "list_at dst n (n, l) \<Longrightarrow> n < length dst \<Longrightarrow> list_at dst (n + 1) (n + 1, store_byte l n v)"
proof -
  assume "list_at dst n (n, l)" "n < length dst"
  then obtain k where k: "l = Some k" "length k = length dst" "drop n k = drop n dst" "n < length k" by (auto simp: list_at_def)
  have "drop (n + 1) k = drop 1 (drop n k)" "drop (n + 1) dst = drop 1 (drop n dst)" by (simp_all only: drop_drop add.commute)
  then show ?thesis using k by (simp add: list_at_def store_byte_def)
qed

lemma list_at_packet:
  assumes "list_at dst n a" "n + count < length dst"
  shows "list_at dst (n + 1 + count) (Packet opcode payload count a)"
proof -
  let ?f = "\<lambda>i (at, d). (at + 1, store_byte d at (ucast (drop_bit (i * 8) payload)))"
  have a: "fst a = n" "list_at dst n (n, snd a)" using assms(1) by (auto simp: list_at_def)
  have "list_at dst (n + 1 + k) (fold ?f [0..<k] (n + 1, store_byte (snd a) n (ucast opcode)))" if "k \<le> count" for k
    using that
  proof (induction k)
    case 0
    then show ?case using list_at_byte [OF a(2)] assms(2) by simp
  next
    case (Suc k)
    then have "list_at dst (n + 1 + k) (fold ?f [0..<k] (n + 1, store_byte (snd a) n (ucast opcode)))" by simp
    then obtain l where l: "fold ?f [0..<k] (n + 1, store_byte (snd a) n (ucast opcode)) = (n + 1 + k, l)" "list_at dst (n + 1 + k) (n + 1 + k, l)"
      by (auto simp: list_at_def)
    show ?case using list_at_byte [OF l(2)] l(1) Suc.prems assms(2) by simp
  qed
  then show ?thesis using a(1) by (simp add: Packet_def)
qed

lemma list_at_next:
  "list_at dst n a \<Longrightarrow> n + count < length dst \<Longrightarrow> m = n + 1 + count \<Longrightarrow> list_at dst m (Packet opcode payload count a)"
  by (simp only: list_at_packet)

lemma list_at_dummy:
  assumes "list_at dst n a" "n + 20 \<le> length dst"
  shows "list_at dst (n + 20) (dummy_store True a)" "list_at dst (n + 19) (dummy_store False a)"
proof -
  note 1 = list_at_next [OF assms(1), of 3 "n + 4" 124 0]
  note 2 = list_at_next [OF 1, of 0 "n + 5" 26 0]
  note 3 = list_at_next [OF 2, of 8 "n + 14" 29 8]
  note 4 = list_at_next [OF 3, of 3 "n + 18" 0 0]
  note 5 = list_at_next [OF 4, of 0 "n + 19" 25 0]
  show "list_at dst (n + 20) (dummy_store True a)"
    unfolding dummy_store_def using list_at_next [OF 5, of 0 "n + 20" 27 0] assms(2) by simp
  show "list_at dst (n + 19) (dummy_store False a)"
    unfolding dummy_store_def using list_at_next [OF 4, of 0 "n + 19" 27 0] assms(2) by simp
qed

lemma clear_list:
  assumes "128 \<le> length dst" "\<not> (capacity < 128 \<or> width = 0 \<or> width > 64 \<or> height = 0 \<or> height > 32)"
  shows "list_at dst 87 (V3dBuildClear dst capacity width height color)"
proof -
  have p: "list_at dst m (Packet opcode payload count a)" if "list_at dst n a" "m = n + 1 + count" "m \<le> 128" for n m a opcode payload count
    using that assms(1) by (intro list_at_next [OF that(1) _ that(2)]) simp
  have d: "list_at dst (n + 20) (dummy_store True a)" "list_at dst (n + 19) (dummy_store False a)" if "list_at dst n a" "n + 20 \<le> 128" for n a
    using that assms(1) by (intro list_at_dummy; simp)+
  have step: "list_at dst m (dummy_store False (dummy_store True a))" if "list_at dst n a" "m = n + 39" "m \<le> 100" for n m a
    using d(2) [OF d(1) [OF that(1)]] that(2,3) by (simp add: add.commute)
  show ?thesis
    unfolding V3dBuildClear_def if_not_P [OF assms(2)] Let_def
    apply (rule p [where n = 86], rule p [where n = 85], rule p [where n = 81], rule p [where n = 72], rule p [where n = 71], rule p [where n = 67],
      rule p [where n = 66], rule step [where n = 27], rule p [where n = 18], rule p [where n = 9], rule p [where n = 0], rule list_at_start)
    by simp_all
qed

text \<open>The command list that clears a tile fits: for any tile the interface allows it is 87 bytes long, and no store
  falls outside of the buffer or behind the list.\<close>

theorem v3d_clear_list:
  assumes "128 \<le> length dst" "128 \<le> capacity" "0 < width" "width \<le> 64" "0 < height" "height \<le> 32"
  shows "\<exists>l. V3dBuildClear dst capacity width height color = (87, Some l) \<and> length l = length dst \<and> drop 87 l = drop 87 dst"
  using clear_list [OF assms(1), of capacity width height color] assms(2-) by (auto simp: list_at_def not_less)

theorem v3d_clear_list_witness:
  "\<exists>l. V3dBuildClear (replicate 128 7) 128 64 32 0xff0000ff = (87, Some l) \<and> drop 87 l = replicate 41 7"
  using v3d_clear_list [of "replicate 128 7" 128 64 32 "0xff0000ff"] by auto

end
