(* ===== verification/Spec2Isabelle.thy ===== *)
theory Spec2Isabelle
  imports Mmu_Hardware Iommu_Driver Mailbox Mailbox_Driver Pm_Driver Graph_Driver Rp1_Clocks Rp1_Fan_Driver Rp1_Ethernet
    Bcm_Gpio_Driver Rp1_Service V3d_Safety
begin

text \<open>
  The Windows drivers of the Raspberry Pi 5: the control logic of the platform drivers that own
  a shared piece of hardware.

  \<^bold>\<open>The model of a driver.\<close> Every C function is a state-passing program (\<open>prog\<close> of \<open>Prelude\<close>) over
  the record of the driver's context and a trace of the events it exchanged with the hardware and
  the kernel: register reads and writes, delays, barriers, readings of the clock, and calls of kernel
  services. The hardware is an environment that answers a read by any function of the events before it,
  so a theorem without a hypothesis on the environment holds for every behaviour of the device and the
  kernel. A theorem about working hardware assumes registers that keep what is written (\<open>regs\<close>) or a
  clock that runs (\<open>clock_runs\<close>). Integers have the width of the C type, an error is the status
  the C function returns, and a read outside of an object has no value (\<open>None\<close>) in the parsers.
  A call is one step, as most calls hold the driver's lock from beginning to end; where one releases it in
  between (the query of the sensors in \<open>rp1-fan\<close> and the interrupt and maintenance routines of \<open>rp1-ethernet\<close>), what others
  do meanwhile is not modelled. A theorem about a driver quantifies over all
  sequences of its calls (\<open>inductive\<close> reachability or a list of calls run one after the other).
  Structures of the kernel whose layout is not in the repository are parameters (\<open>wmi_layout\<close>,
  \<open>ndis_filters\<close>, \<open>acpi_layout\<close>), and so is what a memory descriptor list of the kernel holds (\<open>v3d_kernel\<close>).

  \<^bold>\<open>The theories.\<close>
  \<^item> \<open>Prelude\<close>: machine integers, the monad, a weakest-precondition calculus (\<open>wp_simps\<close>), frames as a locale
    (\<open>frame\<close>) with the interpretations used throughout: events of one kind only (\<open>trace_ext\<close>), nothing
    changed (\<open>quietly\<close>), a part of the state kept (\<open>keeps\<close>). \<open>Kernel\<close>: status codes, service calls,
    the wait lock, resource lists.
  \<^item> \<open>Mmu_Hardware\<close>, \<open>Iommu_Driver\<close> (\<open>pi5-iommu\<close>): page tables, activation and the latched fault of the
    multimedia IOMMU; mapping and unmapping of client buffers. The table refines the list of
    live buffers.
  \<^item> \<open>Mailbox\<close>, \<open>Mailbox_Driver\<close> (\<open>pi5-mailbox\<close>): one transaction with the firmware, the calendar, the
    operation region of the real-time clock, and the leases of firmware clocks.
  \<^item> \<open>Pm_Hardware\<close>, \<open>Pm_Driver\<close> (\<open>pi5-pm\<close>): the reset gate of the GPU and its lease.
  \<^item> \<open>Graph_Decode\<close>, \<open>Graph_Load\<close>, \<open>Graph_Loading\<close>, \<open>Graph_Query\<close>, \<open>Graph_Driver\<close> (\<open>pi5-graph\<close>): decoding of the firmware's
    hardware description, the tree built from it in pool memory, its queries and the device requests.
  \<^item> \<open>Rp1_Service\<close> (\<open>rp1-service\<close>): leases of the RP1's interrupt sources.
  \<^item> \<open>Rp1_Clocks\<close> (\<open>rp1-clocks\<close>): rates of the clock tree and the leased gates.
  \<^item> \<open>Rp1_Fan\<close>, \<open>Rp1_Fan_Driver\<close> (\<open>rp1-fan\<close>): fan policy, parser of the temperature readings, watchdog.
  \<^item> \<open>Rp1_Gem\<close>, \<open>Rp1_Ethernet\<close> (\<open>rp1-ethernet\<close>): the controller and its rings, and the miniport.
  \<^item> \<open>Bcm_Gpio\<close>, \<open>Bcm_Gpio_Driver\<close> (\<open>bcm2712-gpio\<close>): pins, their fields in shared registers, and who owns
    them.
  \<^item> \<open>V3d_Hardware\<close>, \<open>V3d_Session\<close>, \<open>V3d_Objects\<close>, \<open>V3d_Driver\<close> (\<open>pi5-v3d\<close>): the GPU's registers, page table entries and
    command lists; sessions with their providers and guarded DMA buffers; memory objects and the jobs on them; the
    self-tests, callbacks and requests. The banks 0 to 2 of the environment are the register units, 3 to 10
    the fixed buffers, \<open>11 + i\<close> the object in slot \<open>i\<close>, because the GPU may write memory as well; \<open>v3_Entries\<close> is
    the table as the driver has stored it. \<open>V3d_Frame\<close>: the calls that leave memory alone. \<open>V3d_Memory\<close>: what a trace
    says of the GPU's view of memory. \<open>V3d_Invariant\<close>, \<open>V3d_Safety\<close>: the table refines the list of live objects,
    memory is freed only when the GPU has lost its translation, a fault pins all of it, transfers stay inside of their objects.
    What all operations keep is proved once in the locale \<open>v3d_stable\<close> and used for three predicates.

  Each theory keeps the order of the C file: constants and records, one definition per function
  with the name of the C function (prefixed where the name is taken), auxiliary definitions for the
  loops and blocks inside a function, then the lemmas, then the properties. The record fields are the C
  fields with a prefix. The interfaces between parts are programs too: a driver that calls another
  part runs that part's definitions on its piece of the state (\<open>zoom\<close>).

  \<^bold>\<open>Bounds and fuel.\<close> Polling loops run the number of turns the C loop allows. The graph loader needs at
  most one reply per byte of the description (\<open>GRAPH_LIMIT\<close>). The transmit clean-up runs as often as
  frames are in the ring, a receive batch has 64 turns, a sensor query three. The wait for an interrupt of the GPU
  has half a second; with at most \<open>k\<close> wake-ups in a unit of the clock five million times \<open>k\<close> turns are enough
  (\<open>V3d_Wait_ends\<close>), and the theorems on the GPU hold for every number of turns. A session of the clock
  service has fewer than \<open>2 ^ 32\<close> operations, as its counters are 32 bits wide.

  \<^bold>\<open>Not modelled.\<close> The functions that only register a driver and its callbacks with the framework
  (\<open>DriverEntry\<close>, \<open>Add\<close>, \<open>Unload\<close>) and debug prints: they have no state of their own. The filling of
  statistics structures of the network stack. Of the GPU driver the profile request of debug builds and the power relations
  it reports to the framework. Interleavings inside a section that the code protects
  by a lock, and the order of memory accesses beyond the explicit barriers. The Bluetooth
  transport (\<open>cyw-bluetooth\<close>) is an imported sample of Microsoft, the graphics driver
  (\<open>pi5-graphics\<close>) is C++, and the command-line tools, patches and build scripts are no drivers.
  The remaining drivers are listed in the project's manifest as not modelled.
\<close>

end
